(* ===== verification/Prelude.thy ===== *)
theory Prelude
  imports Main "HOL-Library.Char_ord" "HOL-Library.List_Lexorder" "HOL-Library.Product_Lexorder"
begin

text \<open>
  What the component theories share: byte strings as Rust's \<open>str\<close> has them (a \<open>string\<close> is
  the list of its UTF-8 bytes, a \<open>char\<close> one byte), the operations of Rust's standard library
  the sources call on slices and strings, UTF-8 validity as \<open>String::from_utf8\<close> decides it,
  and generic list lemmas. The named collections gather the facts the component proofs use:
  \<open>position_facts\<close> on searching, \<open>utf8_facts\<close> on validity, \<open>str_facts\<close> on splitting and joining.
\<close>

named_theorems position_facts
named_theorems utf8_facts
named_theorems str_facts

section \<open>Slices\<close>

text \<open>\<open>xs.iter().position(p)\<close>: the first index whose element satisfies \<open>p\<close>.\<close>

fun position :: "('a \<Rightarrow> bool) \<Rightarrow> 'a list \<Rightarrow> nat option" where
  "position p [] = None"
| "position p (x # xs) = (if p x then Some 0 else map_option Suc (position p xs))"

text \<open>\<open>xs.get(i)\<close>: \<open>None\<close> out of range.\<close>

definition get :: "'a list \<Rightarrow> nat \<Rightarrow> 'a option" where
  "get xs i = (if i < length xs then Some (xs ! i) else None)"

text \<open>\<open>&xs[a..b]\<close>, for \<open>a \<le> b \<le> xs.len()\<close>.\<close>

definition slice :: "nat \<Rightarrow> nat \<Rightarrow> 'a list \<Rightarrow> 'a list" where
  "slice a b xs = take (b - a) (drop a xs)"

lemma position_SomeD [position_facts]:
  "position p xs = Some i \<Longrightarrow> i < length xs \<and> p (xs ! i) \<and> (\<forall>j < i. \<not> p (xs ! j))"
proof (induction xs arbitrary: i)
  case (Cons x xs)
  show ?case
  proof (cases "p x")
    case True
    with Cons.prems show ?thesis by simp
  next
    case False
    with Cons.prems obtain k where k: "position p xs = Some k" "i = Suc k" by auto
    with Cons.IH have "k < length xs \<and> p (xs ! k) \<and> (\<forall>j < k. \<not> p (xs ! j))" by simp
    with k False show ?thesis by (auto simp: less_Suc_eq_0_disj)
  qed
qed simp

lemma position_None_iff [position_facts]: "position p xs = None \<longleftrightarrow> (\<forall>x \<in> set xs. \<not> p x)"
  by (induction xs) auto

lemma position_less: "position p xs = Some i \<Longrightarrow> i < length xs"
  using position_SomeD by blast

lemma length_slice [simp]: "b \<le> length xs \<Longrightarrow> length (slice a b xs) = b - a"
  by (simp add: slice_def)

lemma nth_slice: "i < b - a \<Longrightarrow> b \<le> length xs \<Longrightarrow> slice a b xs ! i = xs ! (a + i)"
  by (simp add: slice_def)

lemma get_Some_iff: "get xs i = Some x \<longleftrightarrow> i < length xs \<and> xs ! i = x"
  by (auto simp: get_def)

section \<open>Bytes\<close>

definition byte :: "char \<Rightarrow> nat" where
  "byte c = of_char c"

lemma byte_less [simp]: "byte c < 256"
  by (simp add: byte_def)

lemma byte_inject [simp]: "byte a = byte b \<longleftrightarrow> a = b"
  by (simp add: byte_def)

definition is_ascii :: "char \<Rightarrow> bool" where
  "is_ascii c \<longleftrightarrow> byte c < 128"

definition is_ascii_upper :: "char \<Rightarrow> bool" where
  "is_ascii_upper c \<longleftrightarrow> 65 \<le> byte c \<and> byte c \<le> 90"

definition is_ascii_lower :: "char \<Rightarrow> bool" where
  "is_ascii_lower c \<longleftrightarrow> 97 \<le> byte c \<and> byte c \<le> 122"

definition is_ascii_digit :: "char \<Rightarrow> bool" where
  "is_ascii_digit c \<longleftrightarrow> 48 \<le> byte c \<and> byte c \<le> 57"

definition is_ascii_alphabetic :: "char \<Rightarrow> bool" where
  "is_ascii_alphabetic c \<longleftrightarrow> is_ascii_upper c \<or> is_ascii_lower c"

definition is_ascii_alphanumeric :: "char \<Rightarrow> bool" where
  "is_ascii_alphanumeric c \<longleftrightarrow> is_ascii_alphabetic c \<or> is_ascii_digit c"

lemmas ascii_defs = byte_def is_ascii_def is_ascii_upper_def is_ascii_lower_def is_ascii_digit_def
  is_ascii_alphabetic_def is_ascii_alphanumeric_def

text \<open>\<open>u8::to_ascii_lowercase\<close>.\<close>

definition ascii_lower :: "char \<Rightarrow> char" where
  "ascii_lower c = (if is_ascii_upper c then char_of (byte c + 32) else c)"

section \<open>UTF-8 validity\<close>

text \<open>
  The number of bytes of the first code point when the slice starts with a well-formed one
  (Rust's \<open>from_utf8\<close>: no overlong form, no surrogate, nothing above U+10FFFF). A byte past
  the end reads as 0, which continues nothing.
\<close>

definition utf8_byte :: "string \<Rightarrow> nat \<Rightarrow> nat" where
  "utf8_byte bs i = (if i < length bs then byte (bs ! i) else 0)"

definition utf8_head :: "string \<Rightarrow> nat option" where
  "utf8_head bs =
     (let b0 = utf8_byte bs 0; b1 = utf8_byte bs 1;
          c2 = (128 \<le> utf8_byte bs 2 \<and> utf8_byte bs 2 \<le> 191);
          c3 = (128 \<le> utf8_byte bs 3 \<and> utf8_byte bs 3 \<le> 191)
      in if b0 < 128 then Some 1
         else if 194 \<le> b0 \<and> b0 \<le> 223 \<and> 128 \<le> b1 \<and> b1 \<le> 191 then Some 2
         else if (b0 = 224 \<and> 160 \<le> b1 \<and> b1 \<le> 191
                  \<or> (225 \<le> b0 \<and> b0 \<le> 236 \<or> b0 = 238 \<or> b0 = 239) \<and> 128 \<le> b1 \<and> b1 \<le> 191
                  \<or> b0 = 237 \<and> 128 \<le> b1 \<and> b1 \<le> 159) \<and> c2 then Some 3
         else if (b0 = 240 \<and> 144 \<le> b1 \<and> b1 \<le> 191
                  \<or> 241 \<le> b0 \<and> b0 \<le> 243 \<and> 128 \<le> b1 \<and> b1 \<le> 191
                  \<or> b0 = 244 \<and> 128 \<le> b1 \<and> b1 \<le> 143) \<and> c2 \<and> c3 then Some 4
         else None)"

lemma utf8_head_pos: "utf8_head bs = Some n \<Longrightarrow> 0 < n"
  by (auto simp: utf8_head_def Let_def split: if_splits)

function utf8_valid :: "string \<Rightarrow> bool" where
  "utf8_valid bs =
     (if bs = [] then True
      else case utf8_head bs of None \<Rightarrow> False | Some n \<Rightarrow> utf8_valid (drop n bs))"
  by pat_completeness auto
termination
  by (relation "measure length") (auto dest: utf8_head_pos)

declare utf8_valid.simps [simp del]

lemma utf8_valid_Nil [simp]: "utf8_valid []"
  by (simp add: utf8_valid.simps)

lemma utf8_valid_step:
  "utf8_head bs = Some n \<Longrightarrow> bs \<noteq> [] \<Longrightarrow> utf8_valid bs = utf8_valid (drop n bs)"
  by (subst utf8_valid.simps) simp

lemma utf8_head_ascii: "bs \<noteq> [] \<Longrightarrow> is_ascii (hd bs) \<Longrightarrow> utf8_head bs = Some 1"
  by (cases bs) (auto simp: utf8_head_def utf8_byte_def is_ascii_def)

lemma utf8_valid_Cons_ascii [utf8_facts]: "is_ascii c \<Longrightarrow> utf8_valid (c # bs) = utf8_valid bs"
  by (subst utf8_valid_step [where n = 1]) (auto simp: utf8_head_ascii)

text \<open>The head of a slice looks at no byte past its code point.\<close>

lemma utf8_byte_cont: "128 \<le> utf8_byte bs i \<Longrightarrow> i < length bs \<and> \<not> is_ascii (bs ! i)"
  by (auto simp: utf8_byte_def is_ascii_def split: if_splits)

lemma utf8_head_cases:
  "utf8_head bs = Some n \<Longrightarrow>
   n = 1 \<or> n = 2 \<and> 128 \<le> utf8_byte bs 1 \<or> n = 3 \<and> 128 \<le> utf8_byte bs 1 \<and> 128 \<le> utf8_byte bs 2
   \<or> n = 4 \<and> 128 \<le> utf8_byte bs 1 \<and> 128 \<le> utf8_byte bs 2 \<and> 128 \<le> utf8_byte bs 3"
  by (auto simp: utf8_head_def Let_def split: if_splits)

lemma utf8_head_bytes:
  assumes "utf8_head bs = Some n" "bs \<noteq> []"
  shows "n \<le> length bs" "\<forall>i. 0 < i \<and> i < n \<longrightarrow> \<not> is_ascii (bs ! i)"
proof -
  have l: "0 < length bs" using assms(2) by simp
  show "n \<le> length bs"
    using utf8_head_cases [OF assms(1)] utf8_byte_cont [of bs] l
    by (elim disjE conjE) (simp_all add: Suc_le_eq numeral_eq_Suc)
  show "\<forall>i. 0 < i \<and> i < n \<longrightarrow> \<not> is_ascii (bs ! i)"
    using utf8_head_cases [OF assms(1)] utf8_byte_cont [of bs]
    by (elim disjE conjE) (auto simp: less_Suc_eq numeral_eq_Suc)
qed

lemma utf8_head_cong:
  assumes "utf8_head bs = Some n" "\<forall>i < n. utf8_byte cs i = utf8_byte bs i"
  shows "utf8_head cs = Some n"
  using assms by (auto simp: utf8_head_def Let_def split: if_splits)

lemma utf8_valid_append [utf8_facts]: "utf8_valid xs \<Longrightarrow> utf8_valid ys \<Longrightarrow> utf8_valid (xs @ ys)"
proof (induction xs rule: utf8_valid.induct)
  case (1 xs)
  show ?case
  proof (cases "xs = []")
    case True
    with "1.prems" show ?thesis by simp
  next
    case False
    with "1.prems"(1) obtain n where n: "utf8_head xs = Some n" "utf8_valid (drop n xs)"
      by (subst (asm) utf8_valid.simps) (auto split: option.splits)
    from utf8_head_bytes(1) [OF n(1) False] have len: "n \<le> length xs" .
    have "utf8_head (xs @ ys) = Some n"
      by (rule utf8_head_cong [OF n(1)]) (use len in \<open>auto simp: utf8_byte_def nth_append\<close>)
    with False len have "utf8_valid (xs @ ys) = utf8_valid (drop n xs @ ys)"
      by (simp add: utf8_valid_step)
    with "1.IH" [OF False n(1) n(2) "1.prems"(2)] show ?thesis by simp
  qed
qed

text \<open>An ASCII byte is a boundary: both sides of it are valid on their own.\<close>

lemma utf8_valid_split_ascii [utf8_facts]:
  "utf8_valid (xs @ c # ys) \<Longrightarrow> is_ascii c \<Longrightarrow> utf8_valid xs \<and> utf8_valid ys"
proof (induction xs rule: length_induct)
  case (1 xs)
  show ?case
  proof (cases "xs = []")
    case True
    with "1.prems" show ?thesis by (simp add: utf8_valid_Cons_ascii)
  next
    case False
    from "1.prems"(1) obtain n
      where n: "utf8_head (xs @ c # ys) = Some n" "utf8_valid (drop n (xs @ c # ys))"
      by (subst (asm) utf8_valid.simps) (auto split: option.splits)
    have len: "n \<le> length xs"
      using utf8_head_bytes(2) [OF n(1)] "1.prems"(2) False
      by (metis append_is_Nil_conv length_greater_0_conv not_le_imp_less nth_append_length)
    have head: "utf8_head xs = Some n"
      by (rule utf8_head_cong [OF n(1)]) (use len in \<open>auto simp: utf8_byte_def nth_append\<close>)
    from n(2) len have "utf8_valid (drop n xs @ c # ys)" by simp
    moreover have "length (drop n xs) < length xs"
      using utf8_head_pos [OF n(1)] False by simp
    ultimately have "utf8_valid (drop n xs) \<and> utf8_valid ys"
      using "1.IH" "1.prems"(2) by blast
    with head False show ?thesis by (simp add: utf8_valid_step)
  qed
qed

lemma utf8_valid_replicate [utf8_facts]: "is_ascii c \<Longrightarrow> utf8_valid (replicate n c)"
  by (induction n) (auto simp: utf8_valid_Cons_ascii)

lemma utf8_valid_ascii: "\<forall>c \<in> set bs. is_ascii c \<Longrightarrow> utf8_valid bs"
  by (induction bs) (auto simp: utf8_valid_Cons_ascii)

lemma utf8_valid_take_drop [utf8_facts]:
  assumes "utf8_valid bs" "i < length bs" "is_ascii (bs ! i)"
  shows "utf8_valid (take i bs)" "utf8_valid (drop (Suc i) bs)"
proof -
  from assms(2) have "bs = take i bs @ bs ! i # drop (Suc i) bs" by (rule id_take_nth_drop)
  with assms(1,3) utf8_valid_split_ascii show "utf8_valid (take i bs)" "utf8_valid (drop (Suc i) bs)"
    by metis+
qed


section \<open>Rust's string operations\<close>

text \<open>\<open>s.find(n)\<close>, \<open>s.find(c)\<close> and \<open>s.rfind(c)\<close> for an ASCII character \<open>c\<close>.\<close>

fun str_find :: "string \<Rightarrow> string \<Rightarrow> nat option" where
  "str_find h n =
     (if take (length n) h = n then Some 0
      else case h of [] \<Rightarrow> None | _ # t \<Rightarrow> map_option Suc (str_find t n))"

declare str_find.simps [simp del]

lemma str_find_le: "str_find h n = Some i \<Longrightarrow> i + length n \<le> length h"
proof (induction h n arbitrary: i rule: str_find.induct)
  case (1 h n)
  show ?case
  proof (cases "take (length n) h = n")
    case True
    moreover have "length (take (length n) h) \<le> length h" by simp
    ultimately have "length n \<le> length h" by metis
    with True 1(2) show ?thesis by (subst (asm) str_find.simps) simp
  next
    case False
    with 1(2) obtain x t k where "h = x # t" "str_find t n = Some k" "i = Suc k"
      by (subst (asm) str_find.simps) (auto split: list.splits)
    with 1(1) [OF False] show ?thesis by fastforce
  qed
qed

definition str_find_char :: "string \<Rightarrow> char \<Rightarrow> nat option" where
  "str_find_char s c = position ((=) c) s"

fun str_rfind :: "string \<Rightarrow> char \<Rightarrow> nat option" where
  "str_rfind [] c = None"
| "str_rfind (x # xs) c =
     (case str_rfind xs c of Some i \<Rightarrow> Some (Suc i) | None \<Rightarrow> if x = c then Some 0 else None)"

definition starts_with :: "string \<Rightarrow> string \<Rightarrow> bool" where
  "starts_with s p \<longleftrightarrow> take (length p) s = p"

definition ends_with :: "string \<Rightarrow> string \<Rightarrow> bool" where
  "ends_with s p \<longleftrightarrow> length p \<le> length s \<and> drop (length s - length p) s = p"

definition strip_prefix :: "string \<Rightarrow> string \<Rightarrow> string option" where
  "strip_prefix s p = (if starts_with s p then Some (drop (length p) s) else None)"

definition strip_suffix :: "string \<Rightarrow> string \<Rightarrow> string option" where
  "strip_suffix s p = (if ends_with s p then Some (take (length s - length p) s) else None)"

text \<open>\<open>s.split(c)\<close> and \<open>parts.join(sep)\<close>.\<close>

fun str_split :: "char \<Rightarrow> string \<Rightarrow> string list" where
  "str_split c [] = [[]]"
| "str_split c (x # xs) =
     (if x = c then [] # str_split c xs
      else case str_split c xs of [] \<Rightarrow> [[x]] | p # ps \<Rightarrow> (x # p) # ps)"

fun str_join :: "string \<Rightarrow> string list \<Rightarrow> string" where
  "str_join sep [] = []"
| "str_join sep [p] = p"
| "str_join sep (p # q # ps) = p @ sep @ str_join sep (q # ps)"

text \<open>\<open>s.replace(a, b)\<close> on single ASCII characters.\<close>

definition str_replace_char :: "char \<Rightarrow> char \<Rightarrow> string \<Rightarrow> string" where
  "str_replace_char a b s = map (\<lambda>c. if c = a then b else c) s"

text \<open>
  \<open>char::is_whitespace\<close> (Unicode's White_Space) on UTF-8 bytes: the length of the white-space
  character a slice starts with or ends with, 0 when it does not.
\<close>

definition ws_bytes :: "nat list \<Rightarrow> bool" where
  "ws_bytes ns \<longleftrightarrow>
     (case ns of
        [a] \<Rightarrow> 9 \<le> a \<and> a \<le> 13 \<or> a = 32
      | [a, b] \<Rightarrow> a = 194 \<and> (b = 133 \<or> b = 160)
      | [a, b, c] \<Rightarrow> a = 225 \<and> b = 154 \<and> c = 128
          \<or> a = 226 \<and> b = 128 \<and> (128 \<le> c \<and> c \<le> 138 \<or> c = 168 \<or> c = 169 \<or> c = 175)
          \<or> a = 226 \<and> b = 129 \<and> c = 159
          \<or> a = 227 \<and> b = 128 \<and> c = 128
      | _ \<Rightarrow> False)"

definition ws_head :: "string \<Rightarrow> nat" where
  "ws_head s =
     (if ws_bytes (map byte (take 1 s)) then 1
      else if ws_bytes (map byte (take 2 s)) then 2
      else if ws_bytes (map byte (take 3 s)) then 3 else 0)"

definition ws_last :: "string \<Rightarrow> nat" where
  "ws_last s =
     (if ws_bytes (map byte (drop (length s - 1) s)) then 1
      else if ws_bytes (map byte (drop (length s - 2) s)) then 2
      else if ws_bytes (map byte (drop (length s - 3) s)) then 3 else 0)"

lemma ws_head_Nil [simp]: "ws_head [] = 0"
  by (simp add: ws_head_def ws_bytes_def)

lemma ws_last_Nil [simp]: "ws_last [] = 0"
  by (simp add: ws_last_def ws_bytes_def)

lemma ws_head_length: "ws_head s \<noteq> 0 \<Longrightarrow> length (drop (ws_head s) s) < length s"
  by (cases s) auto

lemma ws_last_length: "ws_last s \<noteq> 0 \<Longrightarrow> length (take (length s - ws_last s) s) < length s"
  by (cases s) auto

function trim_start :: "string \<Rightarrow> string" where
  "trim_start s = (if ws_head s = 0 then s else trim_start (drop (ws_head s) s))"
  by pat_completeness auto
termination
  by (relation "measure length") (use ws_head_length in auto)

function trim_end :: "string \<Rightarrow> string" where
  "trim_end s = (if ws_last s = 0 then s else trim_end (take (length s - ws_last s) s))"
  by pat_completeness auto
termination
  by (relation "measure length") (use ws_last_length in auto)

declare trim_start.simps [simp del] trim_end.simps [simp del]

definition trim :: "string \<Rightarrow> string" where
  "trim s = trim_end (trim_start s)"

text \<open>\<open>s.find(char::is_whitespace)\<close>.\<close>

definition find_ws :: "string \<Rightarrow> nat option" where
  "find_ws s = List.find (\<lambda>i. ws_head (drop i s) \<noteq> 0) [0..<length s]"

lemma str_split_not_Nil [simp]: "str_split c s \<noteq> []"
  by (induction s) (auto split: list.splits)

lemma str_join_Cons: "ps \<noteq> [] \<Longrightarrow> str_join sep (p # ps) = p @ sep @ str_join sep ps"
  by (cases ps) auto

lemma join_split [str_facts]: "str_join [c] (str_split c s) = s"
proof (induction s)
  case (Cons x xs)
  obtain p ps where s: "str_split c xs = p # ps"
    by (cases "str_split c xs") auto
  with Cons show ?case
    by (cases ps) (auto simp: str_join_Cons)
qed simp

lemma split_no_sep: "c \<notin> set s \<Longrightarrow> str_split c s = [s]"
  by (induction s) auto

lemma split_append_sep: "c \<notin> set p \<Longrightarrow> str_split c (p @ c # s) = p # str_split c s"
  by (induction p) auto

lemma split_join [str_facts]:
  "ps \<noteq> [] \<Longrightarrow> \<forall>p \<in> set ps. c \<notin> set p \<Longrightarrow> str_split c (str_join [c] ps) = ps"
  by (induction "[c]" ps rule: str_join.induct) (auto simp: split_no_sep split_append_sep)

lemma split_parts [str_facts]: "p \<in> set (str_split c s) \<Longrightarrow> c \<notin> set p"
  by (induction s arbitrary: p) (auto split: if_splits list.splits)

lemma str_rfind_None: "str_rfind s c = None \<longleftrightarrow> c \<notin> set s"
  by (induction s) (auto split: option.splits)

lemma str_rfind_Some:
  "str_rfind s c = Some i \<Longrightarrow> i < length s \<and> s ! i = c \<and> c \<notin> set (drop (Suc i) s)"
  by (induction s arbitrary: i) (auto split: option.splits if_splits simp: str_rfind_None)

section \<open>Searching a list by an optional answer\<close>

definition first_some :: "('a \<Rightarrow> 'b option) \<Rightarrow> 'a list \<Rightarrow> 'b option" where
  "first_some f xs = (case List.find (\<lambda>x. f x \<noteq> None) xs of Some x \<Rightarrow> f x | None \<Rightarrow> None)"

lemma first_some_simps [simp]:
  "first_some f [] = None"
  "first_some f (x # xs) = (case f x of Some y \<Rightarrow> Some y | None \<Rightarrow> first_some f xs)"
  by (auto simp: first_some_def split: option.splits)

section \<open>White space\<close>

lemma ws_bytes_first: "ws_bytes ns \<Longrightarrow> ns \<noteq> [] \<and> \<not> (32 < hd ns \<and> hd ns < 128)"
  by (auto simp: ws_bytes_def split: list.splits)

lemma ws_bytes_last: "ws_bytes ns \<Longrightarrow> ns \<noteq> [] \<and> \<not> (32 < last ns \<and> last ns < 128)"
  by (auto simp: ws_bytes_def split: list.splits)

definition graphic :: "char \<Rightarrow> bool" where
  "graphic c \<longleftrightarrow> 32 < byte c \<and> byte c < 128"

lemma ws_head_graphic: "graphic c \<Longrightarrow> ws_head (c # s) = 0"
  using ws_bytes_first [of "map byte (take 1 (c # s))"] ws_bytes_first [of "map byte (take 2 (c # s))"]
    ws_bytes_first [of "map byte (take 3 (c # s))"]
  by (auto simp: ws_head_def graphic_def)

lemma ws_last_graphic:
  assumes "graphic c"
  shows "ws_last (s @ [c]) = 0"
proof -
  have "\<not> ws_bytes (map byte (drop k (s @ [c])))" for k
    using assms ws_bytes_last [of "map byte (drop k (s @ [c]))"]
    by (auto simp: graphic_def last_map)
  then show ?thesis unfolding ws_last_def by metis
qed

lemma trim_start_graphic: "graphic c \<Longrightarrow> trim_start (c # s) = c # s"
  by (simp add: trim_start.simps ws_head_graphic)

lemma trim_end_graphic: "graphic c \<Longrightarrow> trim_end (s @ [c]) = s @ [c]"
  by (simp add: trim_end.simps ws_last_graphic)

lemma trim_end_last: "s \<noteq> [] \<Longrightarrow> graphic (last s) \<Longrightarrow> trim_end s = s"
  by (cases s rule: rev_cases) (auto simp: trim_end_graphic)

lemma trim_graphic: "s \<noteq> [] \<Longrightarrow> graphic (hd s) \<Longrightarrow> graphic (last s) \<Longrightarrow> trim s = s"
  by (cases s) (simp_all add: trim_def trim_start_graphic trim_end_last)

lemma find_ws_Nil [simp]: "find_ws [] = None"
  by (simp add: find_ws_def)

lemma find_ws_Cons:
  "find_ws (c # s) = (if ws_head (c # s) \<noteq> 0 then Some 0 else map_option Suc (find_ws s))"
proof -
  have "List.find P (map Suc xs) = map_option Suc (List.find (\<lambda>i. P (Suc i)) xs)" for P xs
    by (induction xs) auto
  then show ?thesis
    unfolding find_ws_def by (simp add: upt_conv_Cons map_Suc_upt [symmetric] del: upt_Suc)
qed

lemma find_ws_space: "ws_head (CHR '' '' # s) = 1"
  by (simp add: ws_head_def ws_bytes_def byte_def)

lemma find_ws_word:
  "list_all graphic w \<Longrightarrow> find_ws (w @ CHR '' '' # s) = Some (length w)"
  by (induction w) (auto simp: find_ws_Cons ws_head_graphic find_ws_space)

section \<open>Buckets of positions\<close>

text \<open>The positions of a growing list that satisfy a predicate.\<close>

lemma bucket_snoc:
  "filter (\<lambda>i. P ((ds @ [d]) ! i)) [0..<length (ds @ [d])]
   = filter (\<lambda>i. P (ds ! i)) [0..<length ds] @ (if P d then [length ds] else [])"
proof -
  have eq: "filter (\<lambda>i. P ((ds @ [d]) ! i)) [0..<length ds] = filter (\<lambda>i. P (ds ! i)) [0..<length ds]"
    by (rule filter_cong) (auto simp: nth_append)
  show ?thesis unfolding length_append_singleton upt_Suc_append [OF le0] filter_append eq by simp
qed

end
