(* ===== verification/Preproc.thy ===== *)
theory Preproc
  imports Prelude
begin

text \<open>
  \<open>src/preproc.rs\<close>: the C# conditional-compilation pre-pass. A source file is split into lines,
  every \<open>#if\<close>/\<open>#elif\<close>/\<open>#else\<close>/\<open>#endif\<close> group is walked with a stack of frames and a set of
  defined symbols, and every inactive line and every conditional directive line is overwritten
  with spaces. Definitions first (lines, directives, conditions, the lexical tracker, the pass),
  then the lemmas, then the properties.
\<close>

section \<open>Lines\<close>

definition LF :: char where "LF = CHR 0x0A"
definition CR :: char where "CR = CHR 0x0D"

definition is_terminator :: "char \<Rightarrow> bool" where
  "is_terminator b \<longleftrightarrow> b = LF \<or> b = CR"

text \<open>The loop of \<open>line_spans\<close>, from its variable \<open>start\<close>.\<close>

function line_spans_from :: "string \<Rightarrow> nat \<Rightarrow> (nat \<times> nat) list" where
  "line_spans_from bytes start =
     (case position is_terminator (drop start bytes) of
        Some rel \<Rightarrow>
          (let term = start + rel;
               next = (if bytes ! term = CR \<and> get bytes (term + 1) = Some LF
                       then term + 2 else term + 1)
           in (start, term) # (if next = length bytes then [] else line_spans_from bytes next))
      | None \<Rightarrow> [(start, length bytes)])"
  by pat_completeness auto
termination
  by (relation "measure (\<lambda>(bytes, start). length bytes - start)")
     (auto dest!: position_less split: if_splits)

declare line_spans_from.simps [simp del]

definition line_spans :: "string \<Rightarrow> (nat \<times> nat) list" where
  "line_spans bytes = line_spans_from bytes 0"

text \<open>\<open>blank\<close>: the buffer is a copy of the original from the first call on.\<close>

definition fill_blank :: "string \<Rightarrow> nat \<Rightarrow> nat \<Rightarrow> string" where
  "fill_blank buf start end' = take start buf @ replicate (end' - start) CHR '' '' @ drop end' buf"

definition blank :: "string option \<Rightarrow> string \<Rightarrow> nat \<Rightarrow> nat \<Rightarrow> string option" where
  "blank out original start end' =
     Some (fill_blank (case out of None \<Rightarrow> original | Some buf \<Rightarrow> buf) start end')"

section \<open>Directives\<close>

definition is_ascii_ident_start :: "char \<Rightarrow> bool" where
  "is_ascii_ident_start b \<longleftrightarrow> is_ascii_alphabetic b \<or> b = CHR ''_''"

definition is_ascii_ident_continue :: "char \<Rightarrow> bool" where
  "is_ascii_ident_continue b \<longleftrightarrow> is_ascii_alphanumeric b \<or> b = CHR ''_''"

definition is_conditional_keyword :: "string \<Rightarrow> bool" where
  "is_conditional_keyword keyword \<longleftrightarrow>
     keyword \<in> {''if'', ''elif'', ''else'', ''endif'', ''define'', ''undef''}"

definition is_blank_byte :: "char \<Rightarrow> bool" where
  "is_blank_byte b \<longleftrightarrow> b = CHR '' '' \<or> b = CHR 0x09"

text \<open>The identifier a slice starts with (empty when it starts with none) and what follows.\<close>

definition ident_split :: "string \<Rightarrow> string \<times> string" where
  "ident_split r =
     (case r of
        [] \<Rightarrow> ([], [])
      | c # cs \<Rightarrow>
          if is_ascii_ident_start c
          then (c # takeWhile is_ascii_ident_continue cs, dropWhile is_ascii_ident_continue cs)
          else ([], r))"

text \<open>\<open>DirectiveLine\<close> is the pair of its keyword and the rest of the line.\<close>

definition parse_directive :: "string \<Rightarrow> bool \<Rightarrow> (string \<times> string) option" where
  "parse_directive line is_first_line =
     (let i = (if is_first_line \<and> take 3 line = [CHR 0xEF, CHR 0xBB, CHR 0xBF] then 3 else 0)
      in case dropWhile is_blank_byte (drop i line) of
           [] \<Rightarrow> None
         | c # r \<Rightarrow> if c \<noteq> CHR ''#'' then None
                    else Some (ident_split (dropWhile is_blank_byte r)))"

definition parse_symbol_ident :: "string \<Rightarrow> string option" where
  "parse_symbol_ident rest =
     (case ident_split (dropWhile is_blank_byte rest) of
        ([], _) \<Rightarrow> None
      | (c # cs, _) \<Rightarrow> Some (c # cs))"

section \<open>Conditions\<close>

text \<open>\<open>h.windows(n.len()).position(|w| w == n)\<close>.\<close>

definition find_subslice :: "string \<Rightarrow> string \<Rightarrow> nat option" where
  "find_subslice haystack needle =
     List.find (\<lambda>i. take (length needle) (drop i haystack) = needle)
       [0..<length haystack + 1 - length needle]"

definition strip_comment :: "string \<Rightarrow> string" where
  "strip_comment bytes =
     (case find_subslice bytes ''//'' of Some pos \<Rightarrow> take pos bytes | None \<Rightarrow> bytes)"

datatype tok = Ident string | TrueT | FalseT | NotT | AndAnd | OrOr | EqEq | NotEq | LParen | RParen

definition is_cond_ident_start :: "char \<Rightarrow> bool" where
  "is_cond_ident_start b \<longleftrightarrow> is_ascii_ident_start b \<or> 128 \<le> byte b"

definition is_cond_ident_continue :: "char \<Rightarrow> bool" where
  "is_cond_ident_continue b \<longleftrightarrow> is_ascii_ident_continue b \<or> 128 \<le> byte b"

definition word_tok :: "string \<Rightarrow> tok" where
  "word_tok text = (if text = ''true'' then TrueT else if text = ''false'' then FalseT else Ident text)"

text \<open>The loop of \<open>tokenize\<close> over what is left of the input.\<close>

function tokenize :: "string \<Rightarrow> tok list option" where
  "tokenize [] = Some []"
| "tokenize (b # r) =
     (if b = CHR '' '' \<or> b = CHR 0x09 then tokenize r
      else if b = CHR ''('' then map_option (Cons LParen) (tokenize r)
      else if b = CHR '')'' then map_option (Cons RParen) (tokenize r)
      else if b = CHR ''!'' then
        (if get r 0 = Some (CHR ''='') then map_option (Cons NotEq) (tokenize (drop 1 r))
         else map_option (Cons NotT) (tokenize r))
      else if b = CHR ''&'' \<and> get r 0 = Some (CHR ''&'') then map_option (Cons AndAnd) (tokenize (drop 1 r))
      else if b = CHR ''|'' \<and> get r 0 = Some (CHR ''|'') then map_option (Cons OrOr) (tokenize (drop 1 r))
      else if b = CHR ''='' \<and> get r 0 = Some (CHR ''='') then map_option (Cons EqEq) (tokenize (drop 1 r))
      else if is_cond_ident_start b then
        (let text = b # takeWhile is_cond_ident_continue r
         in if utf8_valid text
            then map_option (Cons (word_tok text)) (tokenize (dropWhile is_cond_ident_continue r))
            else None)
      else None)"
  by pat_completeness auto
termination
  by (relation "measure length") (auto simp: le_imp_less_Suc length_dropWhile_le)

text \<open>
  \<open>CondParser\<close>: each method takes the tokens from \<open>pos\<close> on and returns its value and the tokens
  left, \<open>None\<close> where the method returns \<open>None\<close>. A \<open>while\<close> loop is the \<open>_loop\<close> function after it.
\<close>

function (sequential) parse_or :: "string set \<Rightarrow> tok list \<Rightarrow> (bool \<times> tok list) option"
  and or_loop :: "string set \<Rightarrow> bool \<Rightarrow> tok list \<Rightarrow> (bool \<times> tok list) option"
  and parse_and :: "string set \<Rightarrow> tok list \<Rightarrow> (bool \<times> tok list) option"
  and and_loop :: "string set \<Rightarrow> bool \<Rightarrow> tok list \<Rightarrow> (bool \<times> tok list) option"
  and parse_eq :: "string set \<Rightarrow> tok list \<Rightarrow> (bool \<times> tok list) option"
  and eq_loop :: "string set \<Rightarrow> bool \<Rightarrow> tok list \<Rightarrow> (bool \<times> tok list) option"
  and parse_unary :: "string set \<Rightarrow> tok list \<Rightarrow> (bool \<times> tok list) option"
  and parse_primary :: "string set \<Rightarrow> tok list \<Rightarrow> (bool \<times> tok list) option"
where
  "parse_or S ts =
     (case parse_and S ts of None \<Rightarrow> None | Some (v, r) \<Rightarrow> or_loop S v r)"
| "or_loop S v (OrOr # ts) =
     (case parse_and S ts of None \<Rightarrow> None | Some (w, r) \<Rightarrow> or_loop S (w \<or> v) r)"
| "or_loop S v ts = Some (v, ts)"
| "parse_and S ts =
     (case parse_eq S ts of None \<Rightarrow> None | Some (v, r) \<Rightarrow> and_loop S v r)"
| "and_loop S v (AndAnd # ts) =
     (case parse_eq S ts of None \<Rightarrow> None | Some (w, r) \<Rightarrow> and_loop S (w \<and> v) r)"
| "and_loop S v ts = Some (v, ts)"
| "parse_eq S ts =
     (case parse_unary S ts of None \<Rightarrow> None | Some (v, r) \<Rightarrow> eq_loop S v r)"
| "eq_loop S v (EqEq # ts) =
     (case parse_unary S ts of None \<Rightarrow> None | Some (w, r) \<Rightarrow> eq_loop S (v = w) r)"
| "eq_loop S v (NotEq # ts) =
     (case parse_unary S ts of None \<Rightarrow> None | Some (w, r) \<Rightarrow> eq_loop S (v \<noteq> w) r)"
| "eq_loop S v ts = Some (v, ts)"
| "parse_unary S (NotT # ts) =
     (case parse_unary S ts of None \<Rightarrow> None | Some (v, r) \<Rightarrow> Some (\<not> v, r))"
| "parse_unary S ts = parse_primary S ts"
| "parse_primary S (LParen # ts) =
     (case parse_or S ts of Some (v, RParen # r) \<Rightarrow> Some (v, r) | _ \<Rightarrow> None)"
| "parse_primary S (TrueT # ts) = Some (True, ts)"
| "parse_primary S (FalseT # ts) = Some (False, ts)"
| "parse_primary S (Ident name # ts) = Some (name \<in> S, ts)"
| "parse_primary S ts = None"
  by pat_completeness auto

lemma cond_parser_shrinks:
  "parse_or_or_loop_parse_and_and_loop_parse_eq_eq_loop_parse_unary_parse_primary_dom (Inl (Inl (Inl (S, ts)))) \<Longrightarrow>
     parse_or S ts = Some (v', r) \<Longrightarrow> length r < length ts"
  "parse_or_or_loop_parse_and_and_loop_parse_eq_eq_loop_parse_unary_parse_primary_dom (Inl (Inl (Inr (S, v, ts)))) \<Longrightarrow>
     or_loop S v ts = Some (v', r) \<Longrightarrow> length r \<le> length ts"
  "parse_or_or_loop_parse_and_and_loop_parse_eq_eq_loop_parse_unary_parse_primary_dom (Inl (Inr (Inl (S, ts)))) \<Longrightarrow>
     parse_and S ts = Some (v', r) \<Longrightarrow> length r < length ts"
  "parse_or_or_loop_parse_and_and_loop_parse_eq_eq_loop_parse_unary_parse_primary_dom (Inl (Inr (Inr (S, v, ts)))) \<Longrightarrow>
     and_loop S v ts = Some (v', r) \<Longrightarrow> length r \<le> length ts"
  "parse_or_or_loop_parse_and_and_loop_parse_eq_eq_loop_parse_unary_parse_primary_dom (Inr (Inl (Inl (S, ts)))) \<Longrightarrow>
     parse_eq S ts = Some (v', r) \<Longrightarrow> length r < length ts"
  "parse_or_or_loop_parse_and_and_loop_parse_eq_eq_loop_parse_unary_parse_primary_dom (Inr (Inl (Inr (S, v, ts)))) \<Longrightarrow>
     eq_loop S v ts = Some (v', r) \<Longrightarrow> length r \<le> length ts"
  "parse_or_or_loop_parse_and_and_loop_parse_eq_eq_loop_parse_unary_parse_primary_dom (Inr (Inr (Inl (S, ts)))) \<Longrightarrow>
     parse_unary S ts = Some (v', r) \<Longrightarrow> length r < length ts"
  "parse_or_or_loop_parse_and_and_loop_parse_eq_eq_loop_parse_unary_parse_primary_dom (Inr (Inr (Inr (S, ts)))) \<Longrightarrow>
     parse_primary S ts = Some (v', r) \<Longrightarrow> length r < length ts"
  by (induct S ts and S v ts and S ts and S v ts and S ts and S v ts and S ts and S ts
     arbitrary: v' r and v' r and v' r and v' r and v' r and v' r and v' r and v' r
     rule: parse_or_or_loop_parse_and_and_loop_parse_eq_eq_loop_parse_unary_parse_primary.pinduct)
     (auto simp: parse_or.psimps or_loop.psimps parse_and.psimps and_loop.psimps parse_eq.psimps eq_loop.psimps parse_unary.psimps parse_primary.psimps
        split: option.splits list.splits tok.splits; force)+

termination parse_or
  apply (relation "measures [\<lambda>x. (case x of Inl (Inl (Inl (S, ts))) \<Rightarrow> length ts | Inl (Inl (Inr (S, v, ts))) \<Rightarrow> length ts | Inl (Inr (Inl (S, ts))) \<Rightarrow> length ts | Inl (Inr (Inr (S, v, ts))) \<Rightarrow> length ts | Inr (Inl (Inl (S, ts))) \<Rightarrow> length ts | Inr (Inl (Inr (S, v, ts))) \<Rightarrow> length ts | Inr (Inr (Inl (S, ts))) \<Rightarrow> length ts | Inr (Inr (Inr (S, ts))) \<Rightarrow> length ts), \<lambda>x. (case x of Inl (Inl (Inl _)) \<Rightarrow> 4 | Inl (Inr (Inl _)) \<Rightarrow> 3 | Inr (Inl (Inl _)) \<Rightarrow> 2 | Inr (Inr (Inl _)) \<Rightarrow> 1 | _ \<Rightarrow> 0)]")
  by (auto dest: cond_parser_shrinks)

declare parse_or.simps [simp del] parse_and.simps [simp del] parse_eq.simps [simp del]

definition eval :: "string \<Rightarrow> string set \<Rightarrow> bool option" where
  "eval condition symbols =
     (case tokenize condition of
        None \<Rightarrow> None
      | Some toks \<Rightarrow>
          if toks = [] then None
          else case parse_or symbols toks of
                 None \<Rightarrow> None
               | Some (v, rest) \<Rightarrow> if rest \<noteq> [] then None else Some v)"

text \<open>\<open>eval(strip_comment(rest), symbols).unwrap_or(false)\<close>.\<close>

definition condition_holds :: "string \<Rightarrow> string set \<Rightarrow> bool" where
  "condition_holds rest symbols =
     (case eval (strip_comment rest) symbols of Some v \<Rightarrow> v | None \<Rightarrow> False)"

section \<open>The conditional stack\<close>

record frame =
  parent_active :: bool
  taken :: bool
  active :: bool

text \<open>The stack is a list with its top first.\<close>

definition current_active :: "frame list \<Rightarrow> bool" where
  "current_active stack = (case stack of [] \<Rightarrow> True | f # _ \<Rightarrow> active f)"

definition process_conditional ::
    "string \<Rightarrow> string \<Rightarrow> frame list \<times> string set \<Rightarrow> frame list \<times> string set" where
  "process_conditional keyword rest st =
     (case st of (stack, symbols) \<Rightarrow>
        if keyword = ''if'' then
          (let parent = current_active stack; v = (parent \<and> condition_holds rest symbols)
           in (\<lparr>parent_active = parent, taken = v, active = v\<rparr> # stack, symbols))
        else if keyword = ''elif'' then
          (case stack of
             [] \<Rightarrow> (stack, symbols)
           | fr # below \<Rightarrow>
               if \<not> parent_active fr \<or> taken fr then (fr\<lparr>active := False\<rparr> # below, symbols)
               else (let v = condition_holds rest symbols
                     in (fr\<lparr>active := v, taken := v\<rparr> # below, symbols)))
        else if keyword = ''else'' then
          (case stack of
             [] \<Rightarrow> (stack, symbols)
           | fr # below \<Rightarrow>
               (fr\<lparr>active := parent_active fr \<and> \<not> taken fr, taken := True\<rparr> # below, symbols))
        else if keyword = ''endif'' then (drop 1 stack, symbols)
        else if keyword = ''define'' then
          (if current_active stack
           then case parse_symbol_ident rest of
                  Some nm \<Rightarrow> (stack, insert nm symbols) | None \<Rightarrow> (stack, symbols)
           else (stack, symbols))
        else if keyword = ''undef'' then
          (if current_active stack
           then case parse_symbol_ident rest of
                  Some nm \<Rightarrow> (stack, symbols - {nm}) | None \<Rightarrow> (stack, symbols)
           else (stack, symbols))
        else (stack, symbols))"

section \<open>The lexical tracker\<close>

datatype lex_state = Code | BlockComment | VerbatimString | RawString nat

text \<open>The inner loop over a regular string or character literal, after its opening quote.\<close>

function skip_quoted :: "char \<Rightarrow> string \<Rightarrow> nat \<Rightarrow> nat" where
  "skip_quoted q line i =
     (if i < length line
      then if line ! i = CHR 0x5C then skip_quoted q line (i + 2)
           else if line ! i = q then i + 1
           else skip_quoted q line (i + 1)
      else i)"
  by pat_completeness auto
termination
  by (relation "measure (\<lambda>(q, line, i). length line - i)") auto

text \<open>The index after the quote run that starts at \<open>j\<close>.\<close>

definition quote_run_end :: "string \<Rightarrow> nat \<Rightarrow> nat" where
  "quote_run_end line j = j + length (takeWhile ((=) CHR 0x22) (drop j line))"

lemma quote_run_end_gt: "j < length line \<Longrightarrow> line ! j = CHR 0x22 \<Longrightarrow> j < quote_run_end line j"
  by (simp add: quote_run_end_def Cons_nth_drop_Suc [symmetric])

function verbatim_close :: "string \<Rightarrow> nat \<Rightarrow> nat option" where
  "verbatim_close line j =
     (if j < length line
      then if line ! j = CHR 0x22
           then if j + 1 < length line \<and> line ! (j + 1) = CHR 0x22
                then verbatim_close line (j + 2) else Some (j + 1)
           else verbatim_close line (j + 1)
      else None)"
  by pat_completeness auto
termination
  by (relation "measure (\<lambda>(line, j). length line - j)") auto

function raw_close :: "nat \<Rightarrow> string \<Rightarrow> nat \<Rightarrow> nat option" where
  "raw_close m line j =
     (if j < length line
      then if line ! j = CHR 0x22
           then if quote_run_end line j - j \<ge> m then Some (quote_run_end line j)
                else raw_close m line (quote_run_end line j)
           else raw_close m line (j + 1)
      else None)"
  by pat_completeness auto
termination
  by (relation "measure (\<lambda>(m, line, j). length line - j)")
     (auto intro: diff_less_mono2 quote_run_end_gt)

declare skip_quoted.simps [simp del] verbatim_close.simps [simp del] raw_close.simps [simp del]

text \<open>One round of \<open>scan_line\<close>'s loop in state \<open>Code\<close>: the next index and state.\<close>

definition scan_code :: "string \<Rightarrow> nat \<Rightarrow> nat \<times> lex_state" where
  "scan_code line i =
     (let n = length line; b = line ! i
      in if b = CHR ''/'' \<and> get line (i + 1) = Some (CHR ''/'') then (n, Code)
         else if b = CHR ''/'' \<and> get line (i + 1) = Some (CHR ''*'') then (i + 2, BlockComment)
         else if b = CHR 0x22 then
           (let is_verbatim =
                  ((i \<ge> 1 \<and> line ! (i - 1) = CHR 0x40)
                   \<or> (i \<ge> 2 \<and> (line ! (i - 2) = CHR ''$'' \<and> line ! (i - 1) = CHR 0x40
                               \<or> line ! (i - 2) = CHR 0x40 \<and> line ! (i - 1) = CHR ''$'')));
                j = quote_run_end line i;
                run = j - i
            in if is_verbatim then (i + 1, VerbatimString)
               else if run \<ge> 3 then (j, RawString run)
               else (skip_quoted CHR 0x22 line (i + 1), Code))
         else if b = CHR 0x27 then (skip_quoted CHR 0x27 line (i + 1), Code)
         else (i + 1, Code))"

definition scan_step :: "string \<Rightarrow> nat \<Rightarrow> lex_state \<Rightarrow> nat \<times> lex_state" where
  "scan_step line i st =
     (case st of
        Code \<Rightarrow> scan_code line i
      | BlockComment \<Rightarrow>
          (case find_subslice (drop i line) ''*/'' of
             Some off \<Rightarrow> (i + (off + 2), Code)
           | None \<Rightarrow> (length line, BlockComment))
      | VerbatimString \<Rightarrow>
          (case verbatim_close line i of
             Some pos \<Rightarrow> (pos, Code)
           | None \<Rightarrow> (length line, VerbatimString))
      | RawString m \<Rightarrow>
          (case raw_close m line i of
             Some pos \<Rightarrow> (pos, Code)
           | None \<Rightarrow> (length line, RawString m)))"

text \<open>Every round moves on, so the loop ends.\<close>

lemma skip_quoted_ge: "i \<le> skip_quoted q line i"
proof (induction q line i rule: skip_quoted.induct)
  case (1 q line i)
  then show ?case by (subst skip_quoted.simps) (auto dest: order_trans [rotated])
qed

lemma verbatim_close_gt: "verbatim_close line j = Some p \<Longrightarrow> j < p"
proof (induction line j rule: verbatim_close.induct)
  case (1 line j)
  then show ?case by (subst (asm) (3) verbatim_close.simps) (auto split: if_splits)
qed

lemma raw_close_gt: "raw_close m line j = Some p \<Longrightarrow> j < p"
proof (induction m line j rule: raw_close.induct)
  case (1 m line j)
  from "1.prems" show ?case
    by (subst (asm) raw_close.simps)
       (use "1.IH" quote_run_end_gt [of j line] in \<open>auto split: if_splits intro: less_trans\<close>)
qed

lemma scan_code_advances:
  assumes "i < length line"
  shows "i < fst (scan_code line i)"
proof -
  have "i < skip_quoted q line (i + 1)" for q
    using skip_quoted_ge [of "i + 1" q line] by simp
  with assms quote_run_end_gt [of i line] show ?thesis
    by (simp add: scan_code_def Let_def del: One_nat_def)
qed

lemma scan_step_advances: "i < length line \<Longrightarrow> i < fst (scan_step line i st)"
  by (simp add: scan_step_def scan_code_advances verbatim_close_gt raw_close_gt
        split: lex_state.splits option.splits)

function scan_from :: "string \<Rightarrow> nat \<Rightarrow> lex_state \<Rightarrow> lex_state" where
  "scan_from line i st =
     (if i < length line
      then scan_from line (fst (scan_step line i st)) (snd (scan_step line i st))
      else st)"
  by pat_completeness auto
termination
  by (relation "measure (\<lambda>(line, i, st). length line - i)")
     (auto simp: case_prod_unfold intro: diff_less_mono2 scan_step_advances)

declare scan_from.simps [simp del]

definition scan_line :: "lex_state \<Rightarrow> string \<Rightarrow> lex_state" where
  "scan_line st line = scan_from line 0 st"

section \<open>The pass\<close>

record pass_state =
  pp_stack :: "frame list"
  pp_symbols :: "string set"
  pp_state :: lex_state
  pp_out :: "string option"

text \<open>What the pass reads on a line: the directive it acts on, if any.\<close>

definition line_directive :: "string \<Rightarrow> bool \<Rightarrow> pass_state \<Rightarrow> (string \<times> string) option" where
  "line_directive line is_first_line ps =
     (if current_active (pp_stack ps)
      then if pp_state ps = Code then parse_directive line is_first_line else None
      else parse_directive line is_first_line)"

definition line_step :: "string \<Rightarrow> nat \<times> nat \<times> nat \<Rightarrow> pass_state \<Rightarrow> pass_state" where
  "line_step bytes span ps =
     (case span of (idx, start, end') \<Rightarrow>
        let line = slice start end' bytes;
            region_active = current_active (pp_stack ps)
        in case line_directive line (idx = 0) ps of
             Some (keyword, rest) \<Rightarrow>
               if is_conditional_keyword keyword then
                 (case process_conditional keyword rest (pp_stack ps, pp_symbols ps) of
                    (stk, syms) \<Rightarrow>
                      ps\<lparr>pp_stack := stk, pp_symbols := syms,
                         pp_out := blank (pp_out ps) bytes start end'\<rparr>)
               else if \<not> region_active then ps\<lparr>pp_out := blank (pp_out ps) bytes start end'\<rparr>
               else ps
           | None \<Rightarrow>
               if region_active then ps\<lparr>pp_state := scan_line (pp_state ps) line\<rparr>
               else ps\<lparr>pp_out := blank (pp_out ps) bytes start end'\<rparr>)"

definition initial_state :: "string list \<Rightarrow> pass_state" where
  "initial_state predefined = \<lparr>pp_stack = [], pp_symbols = set predefined, pp_state = Code, pp_out = None\<rparr>"

definition run_lines :: "string \<Rightarrow> (nat \<times> nat \<times> nat) list \<Rightarrow> pass_state \<Rightarrow> pass_state" where
  "run_lines bytes spans ps = fold (line_step bytes) spans ps"

text \<open>
  \<open>None\<close> is the panic of \<open>String::from_utf8(buf).expect(..)\<close>. The result is the new text,
  whether the source hands it out borrowed (no line blanked) or owned.
\<close>

definition strip_inactive_with :: "string \<Rightarrow> string list \<Rightarrow> string option" where
  "strip_inactive_with source predefined =
     (case pp_out (run_lines source (enumerate 0 (line_spans source)) (initial_state predefined)) of
        Some buf \<Rightarrow> if utf8_valid buf then Some buf else None
      | None \<Rightarrow> Some source)"

definition strip_inactive :: "string \<Rightarrow> string option" where
  "strip_inactive source = strip_inactive_with source []"

section \<open>Lemmas: lines\<close>

lemma position_terminator_drop:
  assumes "position is_terminator (drop start bytes) = Some rel"
  shows "start + rel < length bytes" "is_terminator (bytes ! (start + rel))"
    "\<And>i. start \<le> i \<Longrightarrow> i < start + rel \<Longrightarrow> \<not> is_terminator (bytes ! i)"
proof -
  from position_SomeD [OF assms] have p: "rel < length (drop start bytes)"
    "is_terminator (drop start bytes ! rel)" "\<forall>j < rel. \<not> is_terminator (drop start bytes ! j)"
    by auto
  then show "start + rel < length bytes" "is_terminator (bytes ! (start + rel))" by auto
  fix i assume "start \<le> i" "i < start + rel"
  with p(1,3) show "\<not> is_terminator (bytes ! i)"
    by (metis add_diff_inverse_nat add_less_cancel_left length_drop less_diff_conv not_less nth_drop
        order_less_trans add.commute less_imp_le_nat)
qed

lemma position_terminator_drop_None:
  assumes "position is_terminator (drop start bytes) = None" "start \<le> i" "i < length bytes"
  shows "\<not> is_terminator (bytes ! i)"
proof -
  from assms(2,3) have "drop start bytes ! (i - start) \<in> set (drop start bytes)"
    by (intro nth_mem) auto
  with assms(1) have "\<not> is_terminator (drop start bytes ! (i - start))"
    by (auto simp: position_None_iff)
  with assms(2,3) show ?thesis by simp
qed

definition next_start :: "string \<Rightarrow> nat \<Rightarrow> nat" where
  "next_start bytes term =
     (if bytes ! term = CR \<and> get bytes (term + 1) = Some LF then term + 2 else term + 1)"

lemma next_start_bounds:
  "term < length bytes \<Longrightarrow> is_terminator (bytes ! term) \<Longrightarrow>
   term < next_start bytes term \<and> next_start bytes term \<le> length bytes
   \<and> (\<forall>i. term \<le> i \<and> i < next_start bytes term \<longrightarrow> is_terminator (bytes ! i))"
  by (auto simp: next_start_def get_Some_iff is_terminator_def less_Suc_eq)

lemma line_spans_from_Some:
  "position is_terminator (drop start bytes) = Some rel \<Longrightarrow>
   line_spans_from bytes start =
     (start, start + rel) # (if next_start bytes (start + rel) = length bytes then []
                             else line_spans_from bytes (next_start bytes (start + rel)))"
  by (subst line_spans_from.simps) (simp add: next_start_def Let_def)

lemma line_spans_from_None:
  "position is_terminator (drop start bytes) = None \<Longrightarrow>
   line_spans_from bytes start = [(start, length bytes)]"
  by (subst line_spans_from.simps) simp

text \<open>A span is a maximal run of non-terminators.\<close>

definition span_ok :: "string \<Rightarrow> nat \<times> nat \<Rightarrow> bool" where
  "span_ok bytes sp \<longleftrightarrow>
     (case sp of (s, e) \<Rightarrow>
        s \<le> e \<and> e \<le> length bytes \<and> (\<forall>i. s \<le> i \<and> i < e \<longrightarrow> \<not> is_terminator (bytes ! i))
        \<and> (e < length bytes \<longrightarrow> is_terminator (bytes ! e))
        \<and> (0 < s \<longrightarrow> is_terminator (bytes ! (s - 1))))"

lemma line_spans_induct [consumes 1, case_names last more]:
  assumes "start \<le> length bytes"
    and last: "\<And>start. start \<le> length bytes \<Longrightarrow> position is_terminator (drop start bytes) = None \<Longrightarrow>
       P start [(start, length bytes)]"
    and more: "\<And>start rel n. position is_terminator (drop start bytes) = Some rel \<Longrightarrow>
       start + rel < length bytes \<Longrightarrow> n = next_start bytes (start + rel) \<Longrightarrow>
       start + rel < n \<Longrightarrow> n \<le> length bytes \<Longrightarrow>
       (n < length bytes \<Longrightarrow> P n (line_spans_from bytes n)) \<Longrightarrow>
       P start ((start, start + rel) # (if n = length bytes then [] else line_spans_from bytes n))"
  shows "P start (line_spans_from bytes start)"
  using assms(1)
proof (induction "length bytes - start" arbitrary: start rule: less_induct)
  case less
  show ?case
  proof (cases "position is_terminator (drop start bytes)")
    case None
    with less.prems last show ?thesis by (simp add: line_spans_from_None)
  next
    case (Some rel)
    let ?n = "next_start bytes (start + rel)"
    from next_start_bounds position_terminator_drop(1,2) [OF Some]
    have n: "start + rel < ?n" "?n \<le> length bytes" by blast+
    have "P ?n (line_spans_from bytes ?n)" if "?n < length bytes"
      by (rule less.hyps) (use n that in auto)
    with more [OF Some position_terminator_drop(1) [OF Some] refl n] show ?thesis
      by (simp add: line_spans_from_Some [OF Some])
  qed
qed

lemma line_spans_from_ok:
  assumes "start \<le> length bytes" "0 < start \<longrightarrow> is_terminator (bytes ! (start - 1))"
  shows "\<forall>sp \<in> set (line_spans_from bytes start). start \<le> fst sp \<and> span_ok bytes sp"
  using assms
proof (induction rule: line_spans_induct)
  case (last start)
  then show ?case by (auto simp: span_ok_def position_terminator_drop_None)
next
  case (more start rel n)
  have "is_terminator (bytes ! (n - 1))"
    using next_start_bounds [OF more(2) position_terminator_drop(2) [OF more(1)]] more(3,4) by auto
  then have "\<forall>sp \<in> set (if n = length bytes then [] else line_spans_from bytes n).
      n \<le> fst sp \<and> span_ok bytes sp"
    using more(5,6) by (cases "n = length bytes") auto
  moreover have "span_ok bytes (start, start + rel)"
    using position_terminator_drop [OF more(1)] more.prems by (auto simp: span_ok_def)
  ultimately show ?case using more(4) by fastforce
qed

definition spans_sorted :: "(nat \<times> nat) list \<Rightarrow> bool" where
  "spans_sorted sps \<longleftrightarrow> sorted_wrt (\<lambda>a b. snd a < fst b) sps"

lemma line_spans_from_sorted:
  "start \<le> length bytes \<Longrightarrow>
   spans_sorted (line_spans_from bytes start) \<and> (\<forall>sp \<in> set (line_spans_from bytes start). start \<le> fst sp)"
proof (induction rule: line_spans_induct)
  case (last start)
  then show ?case by (simp add: spans_sorted_def)
next
  case (more start rel n)
  then have "spans_sorted (if n = length bytes then [] else line_spans_from bytes n)"
    and "\<forall>sp \<in> set (if n = length bytes then [] else line_spans_from bytes n). n \<le> fst sp"
    by (auto simp: spans_sorted_def)
  with more(4) show ?case by (fastforce simp: spans_sorted_def)
qed

lemma line_spans_from_cover:
  "start \<le> length bytes \<Longrightarrow>
   \<forall>i. start \<le> i \<and> i < length bytes \<and> \<not> is_terminator (bytes ! i) \<longrightarrow>
     (\<exists>(s, e) \<in> set (line_spans_from bytes start). s \<le> i \<and> i < e)"
proof (induction rule: line_spans_induct)
  case (last start)
  then show ?case by auto
next
  case (more start rel n)
  have gap: "is_terminator (bytes ! i)" if "start + rel \<le> i" "i < n" for i
    using next_start_bounds [OF more(2) position_terminator_drop(2) [OF more(1)]] more(3) that by blast
  show ?case
  proof (intro allI impI)
    fix i assume i: "start \<le> i \<and> i < length bytes \<and> \<not> is_terminator (bytes ! i)"
    consider "i < start + rel" | "n \<le> i" using gap i by (meson not_le)
    then show "\<exists>(s, e) \<in> set ((start, start + rel) #
        (if n = length bytes then [] else line_spans_from bytes n)). s \<le> i \<and> i < e"
    proof cases
      case 1
      with i show ?thesis by auto
    next
      case 2
      with i have "n < length bytes" by simp
      with more(6) 2 i show ?thesis by fastforce
    qed
  qed
qed

text \<open>The spans depend on the terminators only.\<close>

lemma position_cong:
  "length xs = length ys \<Longrightarrow> (\<And>i. i < length xs \<Longrightarrow> p (xs ! i) = q (ys ! i)) \<Longrightarrow>
   position p xs = position q ys"
proof (induction xs ys rule: list_induct2)
  case (Cons x xs y ys)
  from Cons.prems [of 0] Cons.prems [of "Suc _"] Cons.IH show ?case by force
qed simp

definition same_terminators :: "string \<Rightarrow> string \<Rightarrow> bool" where
  "same_terminators xs ys \<longleftrightarrow>
     length xs = length ys \<and>
     (\<forall>i < length xs. (is_terminator (xs ! i) \<or> is_terminator (ys ! i)) \<longrightarrow> xs ! i = ys ! i)"

lemma same_terminatorsD:
  "same_terminators xs ys \<Longrightarrow> i < length xs \<Longrightarrow>
   xs ! i = ys ! i \<or> \<not> is_terminator (xs ! i) \<and> \<not> is_terminator (ys ! i)"
  unfolding same_terminators_def by blast

lemma same_terminators_length: "same_terminators xs ys \<Longrightarrow> length ys = length xs"
  unfolding same_terminators_def by simp

lemma line_spans_from_cong:
  assumes "start \<le> length xs" "same_terminators xs ys"
  shows "line_spans_from ys start = line_spans_from xs start"
proof -
  note len = same_terminators_length [OF assms(2)]
  have pos: "position is_terminator (drop start ys) = position is_terminator (drop start xs)" for start
  proof (rule position_cong)
    fix i assume "i < length (drop start ys)"
    then have i: "start + i < length xs" using len by simp
    then show "is_terminator (drop start ys ! i) = is_terminator (drop start xs ! i)"
      using same_terminatorsD [OF assms(2) i] len by (elim disjE) simp_all
  qed (simp add: len)
  from assms(1) show ?thesis
  proof (induction rule: line_spans_induct)
    case (last start)
    then show ?case by (simp add: line_spans_from_None pos len)
  next
    case (more start rel n)
    have CRLF: "ys ! i = CR \<longleftrightarrow> xs ! i = CR" "ys ! i = LF \<longleftrightarrow> xs ! i = LF" if "i < length xs" for i
      using same_terminatorsD [OF assms(2) that] by (auto simp: is_terminator_def)
    have "(get ys (start + rel + 1) = Some LF) = (get xs (start + rel + 1) = Some LF)"
      using CRLF(2) len by (auto simp: get_Some_iff)
    with CRLF(1) [OF more(2)] have "next_start ys (start + rel) = n"
      by (simp only: more(3) next_start_def)
    then show ?case
      using len more(1,5,6) line_spans_from_Some [of start ys rel] pos by auto
  qed
qed

section \<open>Lemmas: one step of the pass\<close>

text \<open>
  The abstract pass over the lines themselves: what a step decides (\<open>line_blanked\<close>), how it moves
  the stack, the symbols and the lexical state (\<open>advance\<close>), and the lines it gives
  (\<open>pass_lines\<close>). \<open>run_lines_refines\<close> shows that the in-place pass computes it.
\<close>

definition line_blanked :: "string \<Rightarrow> bool \<Rightarrow> pass_state \<Rightarrow> bool" where
  "line_blanked line is_first_line ps =
     (\<not> current_active (pp_stack ps)
      \<or> (case line_directive line is_first_line ps of
           Some (keyword, _) \<Rightarrow> is_conditional_keyword keyword | None \<Rightarrow> False))"

definition advance :: "string \<Rightarrow> bool \<Rightarrow> pass_state \<Rightarrow> pass_state" where
  "advance line is_first_line ps =
     (case line_directive line is_first_line ps of
        Some (keyword, rest) \<Rightarrow>
          if is_conditional_keyword keyword then
            (case process_conditional keyword rest (pp_stack ps, pp_symbols ps) of
               (stk, syms) \<Rightarrow> ps\<lparr>pp_stack := stk, pp_symbols := syms\<rparr>)
          else ps
      | None \<Rightarrow> if current_active (pp_stack ps) then ps\<lparr>pp_state := scan_line (pp_state ps) line\<rparr> else ps)"

fun pass_lines :: "bool \<Rightarrow> pass_state \<Rightarrow> string list \<Rightarrow> string list" where
  "pass_lines is_first_line ps [] = []"
| "pass_lines is_first_line ps (l # ls) =
     (if line_blanked l is_first_line ps then replicate (length l) CHR '' '' else l)
     # pass_lines False (advance l is_first_line ps) ls"

lemma line_directive_out [simp]: "line_directive l f (ps\<lparr>pp_out := ob\<rparr>) = line_directive l f ps"
  by (simp add: line_directive_def)

lemma line_blanked_out [simp]: "line_blanked l f (ps\<lparr>pp_out := ob\<rparr>) = line_blanked l f ps"
  by (simp add: line_blanked_def)

lemma advance_out [simp]: "advance l f (ps\<lparr>pp_out := ob\<rparr>) = (advance l f ps)\<lparr>pp_out := ob\<rparr>"
  by (simp add: advance_def split: option.splits prod.splits)

lemma advance_keeps_out [simp]: "pp_out (advance l f ps) = pp_out ps"
  by (simp add: advance_def split: option.splits prod.splits)

lemma pass_lines_out [simp]: "pass_lines f (ps\<lparr>pp_out := ob\<rparr>) ls = pass_lines f ps ls"
  by (induction ls arbitrary: f ps) auto

lemma line_step_advance:
  "line_step bytes (idx, s, e) ps =
     (advance (slice s e bytes) (idx = 0) ps)
       \<lparr>pp_out := if line_blanked (slice s e bytes) (idx = 0) ps
                  then blank (pp_out ps) bytes s e else pp_out ps\<rparr>"
  by (auto simp: line_step_def advance_def line_blanked_def Let_def split: option.splits prod.splits)

definition buf :: "string \<Rightarrow> pass_state \<Rightarrow> string" where
  "buf src ps = (case pp_out ps of None \<Rightarrow> src | Some b \<Rightarrow> b)"

lemma buf_line_step:
  "buf src (line_step src (idx, s, e) ps) =
     (if line_blanked (slice s e src) (idx = 0) ps then fill_blank (buf src ps) s e else buf src ps)"
  by (simp add: buf_def line_step_advance blank_def)

lemma length_fill_blank [simp]: "s \<le> e \<Longrightarrow> e \<le> length b \<Longrightarrow> length (fill_blank b s e) = length b"
  by (simp add: fill_blank_def)

lemma nth_fill_blank:
  "s \<le> e \<Longrightarrow> e \<le> length b \<Longrightarrow> i < length b \<Longrightarrow>
   fill_blank b s e ! i = (if s \<le> i \<and> i < e then CHR '' '' else b ! i)"
  by (auto simp: fill_blank_def nth_append)

lemma slice_eqI:
  "length xs = length ys \<Longrightarrow> e \<le> length xs \<Longrightarrow> (\<And>i. s \<le> i \<Longrightarrow> i < e \<Longrightarrow> xs ! i = ys ! i) \<Longrightarrow>
   slice s e xs = slice s e ys"
  by (rule nth_equalityI) (auto simp: nth_slice)

lemma slice_fill_blank: "s \<le> e \<Longrightarrow> e \<le> length b \<Longrightarrow> slice s e (fill_blank b s e) = replicate (e - s) CHR '' ''"
  by (rule nth_equalityI) (auto simp: nth_slice nth_fill_blank)

text \<open>Blanking a whole line keeps UTF-8 validity and every terminator.\<close>

definition text_like :: "string \<Rightarrow> string \<Rightarrow> bool" where
  "text_like src b \<longleftrightarrow> utf8_valid b \<and> same_terminators src b"

lemma terminator_ascii: "is_terminator c \<Longrightarrow> is_ascii c"
  by (auto simp: is_terminator_def LF_def CR_def ascii_defs)

lemma same_terminators_fill_blank:
  assumes "same_terminators src b" "span_ok src (s, e)"
  shows "same_terminators src (fill_blank b s e)"
proof -
  from assms have len: "length b = length src" "s \<le> e" "e \<le> length src"
    by (auto simp: span_ok_def same_terminators_length)
  have "src ! i = fill_blank b s e ! i"
    if "i < length src" "is_terminator (src ! i) \<or> is_terminator (fill_blank b s e ! i)" for i
    using that len assms(2) same_terminatorsD [OF assms(1) that(1)]
    by (cases "s \<le> i \<and> i < e")
       (auto simp: nth_fill_blank span_ok_def is_terminator_def LF_def CR_def)
  with len show ?thesis by (simp add: same_terminators_def)
qed

lemma utf8_valid_fill_blank:
  assumes "text_like src b" "span_ok src (s, e)"
  shows "utf8_valid (fill_blank b s e)"
proof -
  from assms have v: "utf8_valid b" and st: "same_terminators src b" by (auto simp: text_like_def)
  note len = same_terminators_length [OF st]
  from assms(2) have se: "s \<le> e" "e \<le> length src" by (auto simp: span_ok_def)
  have tasc: "is_ascii (b ! i)" if "i < length src" "is_terminator (src ! i)" for i
    using same_terminatorsD [OF st that(1)] that(2) terminator_ascii by auto
  have "utf8_valid (take s b)"
  proof (cases "s = 0")
    case False
    with assms(2) se have "is_ascii (b ! (s - 1))" by (intro tasc) (auto simp: span_ok_def)
    with False se len v have "utf8_valid (take (s - 1) b)"
      by (intro utf8_valid_take_drop(1)) auto
    with \<open>is_ascii (b ! (s - 1))\<close> have "utf8_valid (take (s - 1) b @ [b ! (s - 1)])"
      by (simp add: utf8_valid_append utf8_valid_Cons_ascii)
    moreover have "take (s - 1) b @ [b ! (s - 1)] = take s b"
      using False se len take_Suc_conv_app_nth [of "s - 1" b] by simp
    ultimately show ?thesis by simp
  qed simp
  moreover have "utf8_valid (drop e b)"
  proof (cases "e = length b")
    case False
    with assms(2) se len have "is_ascii (b ! e)" "e < length b" by (auto intro: tasc simp: span_ok_def)
    with v have "utf8_valid (drop (Suc e) b)" by (intro utf8_valid_take_drop(2)) auto
    with \<open>is_ascii (b ! e)\<close> \<open>e < length b\<close> show ?thesis
      by (simp add: Cons_nth_drop_Suc [symmetric] utf8_valid_Cons_ascii)
  qed simp
  moreover have "is_ascii CHR '' ''" by (simp add: ascii_defs)
  ultimately show ?thesis
    by (simp add: fill_blank_def utf8_valid_append utf8_valid_replicate)
qed

lemma text_like_run:
  "\<forall>sp \<in> set sps. span_ok src (snd sp) \<Longrightarrow> text_like src (buf src ps) \<Longrightarrow>
   text_like src (buf src (run_lines src sps ps))"
proof (induction sps arbitrary: ps)
  case (Cons sp sps)
  obtain idx s e where sp: "sp = (idx, s, e)" by (metis prod_cases3)
  with Cons.prems have ok: "span_ok src (s, e)" by simp
  then have "text_like src (buf src (line_step src sp ps))"
    using Cons.prems(2) utf8_valid_fill_blank same_terminators_fill_blank
    by (auto simp: sp buf_line_step text_like_def)
  with Cons show ?case by (simp add: run_lines_def)
qed (simp add: run_lines_def)

lemma set_enumerate_snd: "x \<in> set (enumerate k xs) \<Longrightarrow> snd x \<in> set xs"
  by (induction xs arbitrary: k) auto

text \<open>The in-place pass refines the pass over the lines.\<close>

lemma run_lines_refines:
  fixes k :: nat
  assumes "spans_sorted sps" "\<forall>sp \<in> set sps. span_ok src sp" "length (buf src ps) = length src"
    "\<forall>(s, e) \<in> set sps. slice s e (buf src ps) = slice s e src"
  defines "b \<equiv> buf src (run_lines src (enumerate k sps) ps)"
  shows "length b = length src
    \<and> map (\<lambda>(s, e). slice s e b) sps = pass_lines (k = 0) ps (map (\<lambda>(s, e). slice s e src) sps)
    \<and> (\<forall>i < length src. (\<forall>(s, e) \<in> set sps. \<not> (s \<le> i \<and> i < e)) \<longrightarrow> b ! i = buf src ps ! i)"
  using assms(1-4) unfolding b_def
proof (induction sps arbitrary: k ps)
  case (Cons sp sps)
  obtain s e where sp: "sp = (s, e)" by (cases sp)
  let ?line = "slice s e src" and ?ps = "line_step src (k, s, e) ps"
  let ?b = "buf src (run_lines src (enumerate (Suc k) sps) ?ps)"
  from Cons.prems(2) sp have se: "s \<le> e" "e \<le> length src" by (auto simp: span_ok_def)
  from Cons.prems(1) sp have sorted: "spans_sorted sps" "\<forall>(s', e') \<in> set sps. e < s'"
    by (auto simp: spans_sorted_def)
  have ok: "\<forall>sp \<in> set sps. span_ok src sp" using Cons.prems(2) by simp
  have len: "length (buf src ?ps) = length src"
    using Cons.prems(3) se by (simp add: buf_line_step)
  have rest: "\<forall>(s', e') \<in> set sps. slice s' e' (buf src ?ps) = slice s' e' src"
  proof clarify
    fix s' e' assume in': "(s', e') \<in> set sps"
    then have "e < s'" "e' \<le> length src" using sorted ok by (auto simp: span_ok_def)
    then have "slice s' e' (buf src ?ps) = slice s' e' (buf src ps)"
      using Cons.prems(3) se by (intro slice_eqI) (auto simp: buf_line_step nth_fill_blank)
    with Cons.prems(4) in' show "slice s' e' (buf src ?ps) = slice s' e' src" by auto
  qed
  from Cons.IH [OF sorted(1) ok len rest, of "Suc k"]
  have IH: "length ?b = length src"
    "map (\<lambda>(s, e). slice s e ?b) sps = pass_lines False ?ps (map (\<lambda>(s, e). slice s e src) sps)"
    "\<And>i. i < length src \<Longrightarrow> \<forall>(s, e) \<in> set sps. \<not> (s \<le> i \<and> i < e) \<Longrightarrow> ?b ! i = buf src ?ps ! i"
    by simp_all
  have "slice s e ?b = slice s e (buf src ?ps)"
    by (rule slice_eqI) (use IH(1) len se sorted(2) in \<open>auto intro!: IH(3)\<close>)
  also have "\<dots> = (if line_blanked ?line (k = 0) ps then replicate (length ?line) CHR '' '' else ?line)"
    using Cons.prems(3,4) se by (simp add: buf_line_step slice_fill_blank sp)
  finally have head: "slice s e ?b = \<dots>" .
  have frame: "?b ! i = buf src ps ! i"
    if "i < length src" "\<forall>(s, e) \<in> set (sp # sps). \<not> (s \<le> i \<and> i < e)" for i
    using that IH(3) [of i] Cons.prems(3) se by (auto simp: sp buf_line_step nth_fill_blank)
  have ps: "pass_lines False ?ps ls = pass_lines False (advance ?line (k = 0) ps) ls" for ls
    by (simp add: line_step_advance)
  show ?case
    using IH(1,2) head frame ps by (simp add: sp run_lines_def)
qed (simp add: run_lines_def)

section \<open>Lemmas: a second pass\<close>

lemma scan_line_blank [simp]: "scan_line Code (replicate n CHR '' '') = Code"
proof -
  have "scan_from (replicate n CHR '' '') i Code = Code" for i
  proof (induction "n - i" arbitrary: i rule: less_induct)
    case less
    have "scan_step (replicate n CHR '' '') i Code = (i + 1, Code)" if "i < n"
      using that by (simp add: scan_step_def scan_code_def)
    with less show ?case by (subst scan_from.simps) simp
  qed
  then show ?thesis by (simp add: scan_line_def)
qed

lemma dropWhile_replicate_blank: "dropWhile is_blank_byte (replicate n CHR '' '') = []"
  by (induction n) (auto simp: is_blank_byte_def)

lemma take_replicate_no_bom: "take 3 (replicate n CHR '' '') \<noteq> [CHR 0xEF, CHR 0xBB, CHR 0xBF]"
  by (cases n) auto

lemma parse_directive_blank [simp]: "parse_directive (replicate n CHR '' '') f = None"
  by (simp add: parse_directive_def dropWhile_replicate_blank take_replicate_no_bom is_blank_byte_def)

definition idle_when_dead :: "pass_state \<Rightarrow> bool" where
  "idle_when_dead ps \<longleftrightarrow> (\<not> current_active (pp_stack ps) \<longrightarrow> pp_state ps = Code)"

lemma idle_when_dead_advance:
  "idle_when_dead ps \<Longrightarrow> idle_when_dead (advance l f ps)"
  by (auto simp: idle_when_dead_def advance_def line_directive_def split: option.splits prod.splits if_splits)

lemma blanked_line_state:
  "idle_when_dead ps \<Longrightarrow> line_blanked l f ps \<Longrightarrow>
   pp_state ps = Code \<and> pp_state (advance l f ps) = Code"
  by (auto simp: idle_when_dead_def advance_def line_blanked_def line_directive_def
      split: option.splits prod.splits if_splits)

lemma kept_line_again:
  assumes "\<not> line_blanked l f ps" "pp_stack ps' = []" "pp_state ps' = pp_state ps"
  shows "\<not> line_blanked l f ps'" "pp_stack (advance l f ps') = []"
    "pp_state (advance l f ps') = pp_state (advance l f ps)"
  using assms
  by (auto simp: advance_def line_blanked_def line_directive_def current_active_def
      split: option.splits prod.splits if_splits)

lemma blanked_line_again:
  assumes "pp_stack ps' = []" "pp_state ps' = Code"
  shows "\<not> line_blanked (replicate n CHR '' '') f ps'"
    "advance (replicate n CHR '' '') f ps' = ps'"
  using assms by (auto simp: advance_def line_blanked_def line_directive_def current_active_def)

lemma pass_lines_again:
  "idle_when_dead ps \<Longrightarrow> pp_stack ps' = [] \<Longrightarrow> pp_state ps' = pp_state ps \<Longrightarrow>
   pass_lines f ps' (pass_lines f ps ls) = pass_lines f ps ls"
proof (induction ls arbitrary: f ps ps')
  case (Cons l ls)
  note idle = idle_when_dead_advance [OF Cons.prems(1), of l f]
  show ?case
  proof (cases "line_blanked l f ps")
    case True
    with Cons blanked_line_state [OF Cons.prems(1) True] idle show ?thesis
      by (simp add: blanked_line_again)
  next
    case False
    with Cons kept_line_again [OF False Cons.prems(2,3)] idle show ?thesis by simp
  qed
qed simp

section \<open>Lemmas: the whole pass\<close>

lemma line_spans_ok: "\<forall>sp \<in> set (line_spans src). span_ok src sp" "spans_sorted (line_spans src)"
  using line_spans_from_ok [of 0 src] line_spans_from_sorted [of 0 src] by (auto simp: line_spans_def)

lemma buf_initial [simp]: "buf src (initial_state pre) = src"
  by (simp add: buf_def initial_state_def)

lemma same_terminators_refl: "same_terminators src src"
  by (simp add: same_terminators_def)

lemma text_like_final:
  "utf8_valid src \<Longrightarrow>
   text_like src (buf src (run_lines src (enumerate 0 (line_spans src)) (initial_state pre)))"
  using line_spans_ok(1)
  by (intro text_like_run) (auto dest: set_enumerate_snd simp: text_like_def same_terminators_refl)

lemma strip_buf:
  "utf8_valid src \<Longrightarrow>
   strip_inactive_with src pre =
     Some (buf src (run_lines src (enumerate 0 (line_spans src)) (initial_state pre)))"
  using text_like_final [of src pre]
  by (auto simp: strip_inactive_with_def buf_def text_like_def split: option.splits)

lemmas run_initial_refines =
  run_lines_refines [OF line_spans_ok(2) line_spans_ok(1), where ps = "initial_state pre" and k = 0 for pre, simplified]

definition lines_of :: "string \<Rightarrow> string \<Rightarrow> string list" where
  "lines_of src text = map (\<lambda>(s, e). slice s e text) (line_spans src)"

lemma strip_lines:
  assumes "utf8_valid src" "strip_inactive_with src pre = Some text"
  shows "length text = length src"
    "lines_of src text = pass_lines True (initial_state pre) (lines_of src src)"
    "\<And>i. i < length src \<Longrightarrow> is_terminator (src ! i) \<Longrightarrow> text ! i = src ! i"
    "line_spans text = line_spans src" "utf8_valid text"
proof -
  let ?b = "buf src (run_lines src (enumerate 0 (line_spans src)) (initial_state pre))"
  from assms have tx: "text = ?b" by (simp add: strip_buf)
  from run_initial_refines [of src pre] show "length text = length src"
    "lines_of src text = pass_lines True (initial_state pre) (lines_of src src)"
    by (auto simp: tx lines_of_def)
  from text_like_final [OF assms(1), of pre] have like: "same_terminators src text" "utf8_valid text"
    by (auto simp: text_like_def tx)
  then show "utf8_valid text" by simp
  show "\<And>i. i < length src \<Longrightarrow> is_terminator (src ! i) \<Longrightarrow> text ! i = src ! i"
    using same_terminatorsD [OF like(1)] by fastforce
  show "line_spans text = line_spans src"
    using line_spans_from_cong [OF _ like(1), of 0] by (simp add: line_spans_def)
qed

lemma lines_of_eqI:
  assumes "length xs = length src" "length ys = length src" "lines_of src xs = lines_of src ys"
    "\<And>i. i < length src \<Longrightarrow> is_terminator (src ! i) \<Longrightarrow> xs ! i = ys ! i"
  shows "xs = ys"
proof (rule nth_equalityI)
  fix i assume i: "i < length xs"
  show "xs ! i = ys ! i"
  proof (cases "is_terminator (src ! i)")
    case False
    then obtain s e where se: "(s, e) \<in> set (line_spans src)" "s \<le> i" "i < e"
      using line_spans_from_cover [of 0 src] i assms(1) by (fastforce simp: line_spans_def)
    with assms(3) have eq: "slice s e xs = slice s e ys"
      by (auto simp: lines_of_def)
    from se line_spans_ok(1) have "e \<le> length src" by (force simp: span_ok_def)
    with se eq assms(1,2) show ?thesis
      by (metis add_diff_inverse_nat diff_less_mono nth_slice not_less)
  qed (use assms i in auto)
qed (use assms in simp)

section \<open>Lemmas: the conditional stack\<close>

fun stack_ok :: "frame list \<Rightarrow> bool" where
  "stack_ok [] = True"
| "stack_ok (f # below) =
     ((active f \<longrightarrow> parent_active f \<and> taken f) \<and> parent_active f = current_active below \<and> stack_ok below)"

lemma stack_ok_process:
  "stack_ok stk \<Longrightarrow> stack_ok (fst (process_conditional kw rest (stk, S)))"
  by (cases stk) (auto simp: process_conditional_def Let_def current_active_def split: option.splits)

lemma stack_ok_active: "stack_ok stk \<Longrightarrow> current_active stk = (\<forall>f \<in> set stk. active f)"
  by (induction stk) (auto simp: current_active_def)

lemma stack_ok_advance: "stack_ok (pp_stack ps) \<Longrightarrow> stack_ok (pp_stack (advance l f ps))"
  using stack_ok_process [of "pp_stack ps" _ _ "pp_symbols ps"]
  by (simp add: advance_def split: option.splits prod.splits) (metis fst_conv)

lemma stack_ok_line_step: "stack_ok (pp_stack ps) \<Longrightarrow> stack_ok (pp_stack (line_step src sp ps))"
  by (cases sp) (simp add: line_step_advance stack_ok_advance)

definition run_directives ::
    "(string \<times> string) list \<Rightarrow> frame list \<times> string set \<Rightarrow> frame list \<times> string set" where
  "run_directives ds st = fold (\<lambda>(kw, rest). process_conditional kw rest) ds st"

text \<open>
  Directives between two headers of a group: definitions and whole nested groups; with the flag,
  the headers of further arms as well.
\<close>

inductive nested :: "bool \<Rightarrow> (string \<times> string) list \<Rightarrow> bool" where
  none: "nested arms []"
| symbol: "kw \<in> {''define'', ''undef''} \<Longrightarrow> nested arms ds \<Longrightarrow> nested arms ((kw, r) # ds)"
| arm: "kw \<in> {''elif'', ''else''} \<Longrightarrow> nested True ds \<Longrightarrow> nested True ((kw, r) # ds)"
| group: "nested True g \<Longrightarrow> nested arms ds \<Longrightarrow>
    nested arms ((''if'', c) # g @ (''endif'', r) # ds)"

lemma run_directives_simps [simp]:
  "run_directives [] st = st"
  "run_directives ((kw, r) # ds) st = run_directives ds (process_conditional kw r st)"
  "run_directives (ds @ es) st = run_directives es (run_directives ds st)"
  by (simp_all add: run_directives_def)

lemma process_symbol: "kw \<in> {''define'', ''undef''} \<Longrightarrow> \<exists>S'. process_conditional kw r (stk, S) = (stk, S')"
  by (auto simp: process_conditional_def split: option.splits)

lemma process_arm:
  "kw \<in> {''elif'', ''else''} \<Longrightarrow>
   \<exists>f'. process_conditional kw r (f # stk, S) = (f' # stk, S) \<and> parent_active f' = parent_active f"
  by (auto simp: process_conditional_def Let_def)

lemma process_if: "\<exists>f. process_conditional ''if'' c (stk, S) = (f # stk, S)"
  by (simp add: process_conditional_def Let_def)

lemma process_endif: "process_conditional ''endif'' r (f # stk, S) = (stk, S)"
  by (simp add: process_conditional_def)

lemma nested_stack:
  "nested arms ds \<Longrightarrow>
   (\<exists>f' S'. run_directives ds (f # stk, S) = (f' # stk, S')) \<and>
   (\<not> arms \<longrightarrow> (\<exists>S'. run_directives ds (stk', S) = (stk', S')))"
proof (induction arbitrary: f stk stk' S rule: nested.induct)
  case (symbol kw arms ds r)
  then show ?case using process_symbol [OF symbol(1), of r] by (metis run_directives_simps(2))
next
  case (arm kw ds r)
  then show ?case using process_arm [OF arm(1), of r f stk S] by (metis run_directives_simps(2))
next
  case (group g arms ds c r)
  have "\<exists>S'. run_directives ((''if'', c) # g @ (''endif'', r) # ds) (s, S) = run_directives ds (s, S')" for s
    using process_if [of c s S] group.IH(1) [of _ s S] process_endif by (metis run_directives_simps(2,3))
  with group.IH(2) show ?case by metis
qed auto

text \<open>Whether the group's frame is live right after each of its headers.\<close>

fun arm_activity ::
    "(string \<times> string \<times> (string \<times> string) list) list \<Rightarrow> frame list \<times> string set \<Rightarrow> bool list" where
  "arm_activity [] st = []"
| "arm_activity ((kw, c, body) # rest) st =
     (let st' = process_conditional kw c st
      in current_active (fst st') # arm_activity rest (run_directives body st'))"

lemma arm_activity_live:
  assumes "\<forall>(kw, c, body) \<in> set arms. kw \<in> {''elif'', ''else''} \<and> nested False body"
  shows "length (filter id (arm_activity arms (f # stk, S))) \<le> (if parent_active f \<and> \<not> taken f then 1 else 0)
    \<and> (parent_active f \<and> \<not> taken f \<and> (\<exists>(kw, _) \<in> set arms. kw = ''else'') \<longrightarrow>
       length (filter id (arm_activity arms (f # stk, S))) = 1)"
  using assms
proof (induction arms arbitrary: f S)
  case (Cons a arms)
  obtain kw c body where a: "a = (kw, c, body)" by (cases a)
  with Cons.prems have kw: "kw \<in> {''elif'', ''else''}" and body: "nested False body" by auto
  obtain f' where f': "process_conditional kw c (f # stk, S) = (f' # stk, S)"
    using process_arm [OF kw] by blast
  obtain S' where S': "run_directives body (f' # stk, S) = (f' # stk, S')"
    using nested_stack [OF body] by blast
  have step: "parent_active f' = parent_active f" "taken f \<longrightarrow> taken f' \<and> \<not> active f'"
    "active f' \<longrightarrow> parent_active f \<and> taken f'" "\<not> active f' \<and> \<not> taken f \<and> parent_active f \<longrightarrow> kw = ''elif'' \<and> \<not> taken f'"
    "\<not> parent_active f \<longrightarrow> \<not> active f'"
    using f' kw by (auto simp: process_conditional_def Let_def split: if_splits)
  have "arm_activity (a # arms) (f # stk, S) = active f' # arm_activity arms (f' # stk, S')"
    by (simp add: a f' S' current_active_def)
  with Cons.IH [of f' S'] Cons.prems step show ?case
    by (cases "active f'"; cases "taken f"; cases "parent_active f") (auto simp: a split: if_splits)
qed auto

section \<open>Lemmas: conditions\<close>

text \<open>The condition grammar as a tree, its meaning and its spelling with the fewest brackets.\<close>

datatype cond = Sym string | Lit bool | Neg cond | Eq cond cond | Ne cond cond | Conj cond cond | Disj cond cond

fun cond_sem :: "string set \<Rightarrow> cond \<Rightarrow> bool" where
  "cond_sem S (Sym n) = (n \<in> S)"
| "cond_sem S (Lit b) = b"
| "cond_sem S (Neg c) = (\<not> cond_sem S c)"
| "cond_sem S (Eq a b) = (cond_sem S a = cond_sem S b)"
| "cond_sem S (Ne a b) = (cond_sem S a \<noteq> cond_sem S b)"
| "cond_sem S (Conj a b) = (cond_sem S a \<and> cond_sem S b)"
| "cond_sem S (Disj a b) = (cond_sem S a \<or> cond_sem S b)"

definition bracket :: "bool \<Rightarrow> tok list \<Rightarrow> tok list" where
  "bracket b ts = (if b then LParen # ts @ [RParen] else ts)"

fun cond_toks :: "nat \<Rightarrow> cond \<Rightarrow> tok list" where
  "cond_toks p (Sym n) = [Ident n]"
| "cond_toks p (Lit b) = [if b then TrueT else FalseT]"
| "cond_toks p (Neg c) = bracket (3 < p) (NotT # cond_toks 3 c)"
| "cond_toks p (Eq a b) = bracket (2 < p) (cond_toks 2 a @ EqEq # cond_toks 3 b)"
| "cond_toks p (Ne a b) = bracket (2 < p) (cond_toks 2 a @ NotEq # cond_toks 3 b)"
| "cond_toks p (Conj a b) = bracket (1 < p) (cond_toks 1 a @ AndAnd # cond_toks 2 b)"
| "cond_toks p (Disj a b) = bracket (0 < p) (cond_toks 0 a @ OrOr # cond_toks 1 b)"

definition no_eq :: "tok list \<Rightarrow> bool" where
  "no_eq ts \<longleftrightarrow> (\<forall>r. ts \<noteq> EqEq # r \<and> ts \<noteq> NotEq # r)"

definition no_and :: "tok list \<Rightarrow> bool" where
  "no_and ts \<longleftrightarrow> no_eq ts \<and> (\<forall>r. ts \<noteq> AndAnd # r)"

lemma no_eq_Cons [simp]: "no_eq (t # ts) \<longleftrightarrow> t \<noteq> EqEq \<and> t \<noteq> NotEq" "no_eq []"
  by (auto simp: no_eq_def)

lemma no_and_Cons [simp]: "no_and (t # ts) \<longleftrightarrow> t \<noteq> EqEq \<and> t \<noteq> NotEq \<and> t \<noteq> AndAnd" "no_and []"
  by (auto simp: no_and_def)

lemma eq_loop_stop: "no_eq ts \<Longrightarrow> eq_loop S v ts = Some (v, ts)"
  by (cases "(S, v, ts)" rule: eq_loop.cases) auto

lemma and_loop_stop: "(\<forall>r. ts \<noteq> AndAnd # r) \<Longrightarrow> and_loop S v ts = Some (v, ts)"
  by (cases "(S, v, ts)" rule: and_loop.cases) auto

lemma and_loop_no_and: "no_and ts \<Longrightarrow> and_loop S v ts = Some (v, ts)"
  by (simp add: no_and_def and_loop_stop)

lemma parse_from_unary:
  assumes "\<And>rest. parse_unary S (ts @ rest) = Some (v, rest)"
  shows "parse_eq S (ts @ rest) = eq_loop S v rest"
    "no_eq rest \<Longrightarrow> parse_and S (ts @ rest) = and_loop S v rest"
    "no_and rest \<Longrightarrow> parse_or S (ts @ rest) = or_loop S v rest"
  using assms
  by (simp_all add: parse_eq.simps parse_and.simps parse_or.simps eq_loop_stop and_loop_no_and no_and_def
      and_loop_stop)

lemma parse_from_eq:
  assumes "\<And>rest. parse_eq S (ts @ rest) = eq_loop S v rest"
  shows "no_eq rest \<Longrightarrow> parse_and S (ts @ rest) = and_loop S v rest"
    "no_and rest \<Longrightarrow> parse_or S (ts @ rest) = or_loop S v rest"
  using assms
  by (simp_all add: parse_and.simps parse_or.simps eq_loop_stop no_and_def and_loop_stop)

lemma parse_from_and:
  assumes "\<And>rest. no_eq rest \<Longrightarrow> parse_and S (ts @ rest) = and_loop S v rest"
  shows "no_and rest \<Longrightarrow> parse_or S (ts @ rest) = or_loop S v rest"
  using assms by (simp add: parse_or.simps no_and_def and_loop_stop)

lemma parse_bracketed:
  assumes "\<And>rest. no_and rest \<Longrightarrow> parse_or S (ts @ rest) = or_loop S v rest"
  shows "parse_unary S (LParen # ts @ RParen # rest) = Some (v, rest)"
    "parse_primary S (LParen # ts @ RParen # rest) = Some (v, rest)"
  using assms [of "RParen # rest"] by simp_all

text \<open>What each level of the parser does with a tree printed at that level.\<close>

definition parses :: "string set \<Rightarrow> cond \<Rightarrow> bool" where
  "parses S c \<longleftrightarrow>
     (\<forall>rest. parse_unary S (cond_toks 3 c @ rest) = Some (cond_sem S c, rest)) \<and>
     (\<forall>rest. parse_eq S (cond_toks 2 c @ rest) = eq_loop S (cond_sem S c) rest) \<and>
     (\<forall>rest. no_eq rest \<longrightarrow> parse_and S (cond_toks 1 c @ rest) = and_loop S (cond_sem S c) rest) \<and>
     (\<forall>rest. no_and rest \<longrightarrow> parse_or S (cond_toks 0 c @ rest) = or_loop S (cond_sem S c) rest)"

lemma parses_unaryI:
  assumes "\<And>rest. parse_unary S (ts @ rest) = Some (cond_sem S c, rest)"
    "\<And>p. p \<le> 3 \<Longrightarrow> cond_toks p c = ts"
  shows "parses S c"
  using assms(1) parse_from_unary [OF assms(1)] by (simp add: parses_def assms(2))

lemma parses_eqI:
  assumes eq: "\<And>rest. parse_eq S (ts @ rest) = eq_loop S (cond_sem S c) rest"
    and toks: "\<And>p. cond_toks p c = bracket (2 < p) ts"
  shows "parses S c"
  using eq parse_from_eq [OF eq] parse_bracketed [OF parse_from_eq(2) [OF eq]]
  by (simp add: parses_def toks bracket_def)

lemma parses_all: "parses S c"
proof (induction c)
  case (Sym n)
  show ?case by (rule parses_unaryI [of S "[Ident n]"]) auto
next
  case (Lit b)
  show ?case by (rule parses_unaryI [of S "[if b then TrueT else FalseT]"]) auto
next
  case (Neg c)
  then show ?case
    by (intro parses_unaryI [of S "NotT # cond_toks 3 c"]) (auto simp: parses_def bracket_def)
next
  case (Eq a b)
  then show ?case
    by (intro parses_eqI [of S "cond_toks 2 a @ EqEq # cond_toks 3 b"]) (simp_all add: parses_def)
next
  case (Ne a b)
  then show ?case
    by (intro parses_eqI [of S "cond_toks 2 a @ NotEq # cond_toks 3 b"]) (simp_all add: parses_def)
next
  case (Conj a b)
  let ?ts = "cond_toks 1 a @ AndAnd # cond_toks 2 b"
  have and': "no_eq rest \<Longrightarrow> parse_and S (?ts @ rest) = and_loop S (cond_sem S (Conj a b)) rest" for rest
    using Conj by (simp add: parses_def eq_loop_stop conj_commute)
  note or' = parse_from_and [OF and']
  show ?case
    using and' or' parse_bracketed [OF or'] parse_from_unary(1) [of S "LParen # ?ts @ [RParen]"]
    by (simp add: parses_def bracket_def)
next
  case (Disj a b)
  let ?ts = "cond_toks 0 a @ OrOr # cond_toks 1 b"
  have or': "no_and rest \<Longrightarrow> parse_or S (?ts @ rest) = or_loop S (cond_sem S (Disj a b)) rest" for rest
    using Disj by (simp add: parses_def no_and_def and_loop_stop disj_commute)
  show ?case
    using or' parse_bracketed [OF or'] parse_from_unary(1,2) [of S "LParen # ?ts @ [RParen]"]
    by (simp add: parses_def bracket_def)
qed

text \<open>Spelling the tokens, a space after each.\<close>

fun spell :: "tok \<Rightarrow> string" where
  "spell (Ident n) = n"
| "spell TrueT = ''true''"
| "spell FalseT = ''false''"
| "spell NotT = ''!''"
| "spell AndAnd = ''&&''"
| "spell OrOr = ''||''"
| "spell EqEq = ''==''"
| "spell NotEq = ''!=''"
| "spell LParen = ''(''"
| "spell RParen = '')''"

definition spell_all :: "tok list \<Rightarrow> string" where
  "spell_all ts = concat (map (\<lambda>t. spell t @ '' '') ts)"

definition symbol_ok :: "string \<Rightarrow> bool" where
  "symbol_ok n \<longleftrightarrow> n \<noteq> [] \<and> is_cond_ident_start (hd n) \<and> (\<forall>c \<in> set n. is_cond_ident_continue c)
     \<and> n \<noteq> ''true'' \<and> n \<noteq> ''false'' \<and> utf8_valid n"

fun tok_ok :: "tok \<Rightarrow> bool" where
  "tok_ok (Ident n) = symbol_ok n"
| "tok_ok t = True"

lemma ident_start_not_op:
  "is_cond_ident_start b \<Longrightarrow>
   b \<noteq> CHR '' '' \<and> b \<noteq> CHR 0x09 \<and> b \<noteq> CHR ''('' \<and> b \<noteq> CHR '')'' \<and> b \<noteq> CHR ''!'' \<and> b \<noteq> CHR ''&''
   \<and> b \<noteq> CHR ''|'' \<and> b \<noteq> CHR ''='' \<and> b \<noteq> CHR ''/''"
  by (auto simp: is_cond_ident_start_def is_ascii_ident_start_def ascii_defs)

lemma ident_continue_not_sep:
  "is_cond_ident_continue b \<Longrightarrow> b \<noteq> CHR '' '' \<and> b \<noteq> CHR ''/''"
  by (auto simp: is_cond_ident_continue_def is_ascii_ident_continue_def ascii_defs)

lemma tokenize_word:
  assumes "n \<noteq> []" "is_cond_ident_start (hd n)" "\<forall>c \<in> set n. is_cond_ident_continue c" "utf8_valid n"
  shows "tokenize (n @ CHR '' '' # bs) = map_option (Cons (word_tok n)) (tokenize bs)"
proof -
  obtain b r where n: "n = b # r" using assms(1) by (cases n) auto
  have sp: "\<not> is_cond_ident_continue CHR '' ''" using ident_continue_not_sep by blast
  with assms(3) have "takeWhile is_cond_ident_continue (r @ CHR '' '' # bs) = r"
    "dropWhile is_cond_ident_continue (r @ CHR '' '' # bs) = CHR '' '' # bs"
    by (auto simp: n takeWhile_append2 dropWhile_append2)
  with assms(2,4) ident_start_not_op [of b] show ?thesis
    by (simp add: n)
qed

lemma ident_letters:
  "is_cond_ident_start CHR ''t''" "is_cond_ident_start CHR ''f''"
  "\<forall>c \<in> set ''true''. is_cond_ident_continue c" "\<forall>c \<in> set ''false''. is_cond_ident_continue c"
  by (simp_all add: is_cond_ident_start_def is_cond_ident_continue_def is_ascii_ident_start_def
      is_ascii_ident_continue_def ascii_defs)

lemma utf8_true_false: "utf8_valid ''true''" "utf8_valid ''false''"
  by (auto intro!: utf8_valid_ascii simp: ascii_defs)

lemma tokenize_spell:
  assumes "tok_ok t"
  shows "tokenize (spell t @ CHR '' '' # bs) = map_option (Cons t) (tokenize bs)"
proof (cases t)
  case (Ident n)
  with assms tokenize_word [of n bs] show ?thesis by (auto simp: symbol_ok_def word_tok_def)
next
  case TrueT
  then show ?thesis
    using tokenize_word [of "''true''" bs] ident_letters utf8_true_false by (simp add: word_tok_def)
next
  case FalseT
  then show ?thesis
    using tokenize_word [of "''false''" bs] ident_letters utf8_true_false by (simp add: word_tok_def)
qed (simp_all add: get_def)

lemma tokenize_spell_all: "\<forall>t \<in> set ts. tok_ok t \<Longrightarrow> tokenize (spell_all ts) = Some ts"
  by (induction ts) (auto simp: spell_all_def tokenize_spell)

fun cond_ok :: "cond \<Rightarrow> bool" where
  "cond_ok (Sym n) = symbol_ok n"
| "cond_ok (Lit b) = True"
| "cond_ok (Neg c) = cond_ok c"
| "cond_ok (Eq a b) = (cond_ok a \<and> cond_ok b)"
| "cond_ok (Ne a b) = (cond_ok a \<and> cond_ok b)"
| "cond_ok (Conj a b) = (cond_ok a \<and> cond_ok b)"
| "cond_ok (Disj a b) = (cond_ok a \<and> cond_ok b)"

lemma cond_toks_ok: "cond_ok c \<Longrightarrow> \<forall>t \<in> set (cond_toks p c). tok_ok t"
  by (induction p c rule: cond_toks.induct) (auto simp: bracket_def)

lemma cond_toks_not_Nil: "cond_toks p c \<noteq> []"
  by (induction p c rule: cond_toks.induct) (auto simp: bracket_def)

definition cond_text :: "cond \<Rightarrow> string" where
  "cond_text c = spell_all (cond_toks 0 c)"

lemma eval_cond_text:
  assumes "cond_ok c"
  shows "eval (cond_text c) S = Some (cond_sem S c)"
proof -
  have "parse_or S (cond_toks 0 c @ []) = or_loop S (cond_sem S c) []"
    using parses_all [of S c] no_and_Cons(2) unfolding parses_def by blast
  with assms show ?thesis
    by (simp add: eval_def cond_text_def tokenize_spell_all cond_toks_ok cond_toks_not_Nil)
qed

text \<open>A printed condition holds no slash, so a trailing comment is all that is cut off.\<close>

lemma no_slash_spell: "tok_ok t \<Longrightarrow> CHR ''/'' \<notin> set (spell t)"
  by (cases t) (auto simp: symbol_ok_def dest: ident_continue_not_sep)

lemma no_slash_cond_text: "cond_ok c \<Longrightarrow> CHR ''/'' \<notin> set (cond_text c)"
  by (auto simp: cond_text_def spell_all_def dest: cond_toks_ok [of _ 0] no_slash_spell)

lemma find_subslice_comment:
  assumes "CHR ''/'' \<notin> set t"
  shows "find_subslice t ''//'' = None"
    "find_subslice (t @ ''//'' @ c) ''//'' = Some (length t)"
proof -
  have no: "take 2 (drop i (t @ r)) \<noteq> ''//''" if "i < length t" for i r
  proof -
    have "drop i (t @ r) = t ! i # drop (Suc i) t @ r"
      using that by (simp add: Cons_nth_drop_Suc [symmetric])
    moreover have "t ! i \<noteq> CHR ''/''" using assms that by (metis nth_mem)
    ultimately show ?thesis by (simp add: numeral_2_eq_2)
  qed
  from no [of _ "[]"] show "find_subslice t ''//'' = None"
    by (auto simp: find_subslice_def find_None_iff numeral_2_eq_2)
  let ?s = "t @ CHR ''/'' # CHR ''/'' # c" and ?xs = "[0..<length t + length c + 1]"
  have xs: "?xs ! j = j" if "j \<le> length t" for j
    using that by (subst nth_upt) auto
  have "List.find (\<lambda>i. take 2 (drop i ?s) = ''//'') ?xs = Some (length t)"
    unfolding find_Some_iff
  proof (intro exI [of _ "length t"] conjI allI impI)
    show "length t < length ?xs" "length t = ?xs ! length t" using xs by auto
    show "take 2 (drop (?xs ! length t) ?s) = ''//''" by (simp add: xs [of "length t", simplified] numeral_2_eq_2)
    show "take 2 (drop (?xs ! j) ?s) \<noteq> ''//''" if "j < length t" for j
      using no [OF that, of "''//'' @ c"] xs [of j] that by simp
  qed
  then show "find_subslice (t @ ''//'' @ c) ''//'' = Some (length t)"
    by (simp add: find_subslice_def numeral_2_eq_2 del: upt_Suc)
qed

lemma condition_holds_cond_text:
  assumes "cond_ok c" "comment = [] \<or> (\<exists>rest. comment = ''//'' @ rest)"
  shows "condition_holds (cond_text c @ comment) S = cond_sem S c"
proof -
  have "strip_comment (cond_text c @ comment) = cond_text c"
    using assms(2) find_subslice_comment [OF no_slash_cond_text [OF assms(1)]]
    by (auto simp: strip_comment_def)
  with eval_cond_text [OF assms(1)] show ?thesis by (simp add: condition_holds_def)
qed


section \<open>Properties\<close>

text \<open>
  C20. Stripping a valid UTF-8 file never panics: the result exists, is valid UTF-8 again, has the
  same length and the same line spans, keeps every \<open>\r\<close> and \<open>\n\<close> where it was, and every line of it
  is the original line or spaces.
\<close>

theorem strip_keeps_layout:
  assumes "utf8_valid src"
  shows "\<exists>text. strip_inactive_with src pre = Some text \<and> utf8_valid text \<and> length text = length src
    \<and> line_spans text = line_spans src
    \<and> (\<forall>i < length src. is_terminator (src ! i) \<longrightarrow> text ! i = src ! i)
    \<and> list_all2 (\<lambda>old new. new = old \<or> new = replicate (length old) CHR '' '')
        (lines_of src src) (lines_of src text)"
proof -
  have "list_all2 (\<lambda>old new. new = old \<or> new = replicate (length old) CHR '' '') ls (pass_lines f ps ls)"
    for f ps ls
    by (induction ls arbitrary: f ps) auto
  with strip_lines [OF assms strip_buf [OF assms]] strip_buf [OF assms] show ?thesis
    by (intro exI conjI) (assumption | simp)+
qed

theorem strip_keeps_layout_witness:
  "utf8_valid ''#if A'' \<and> (\<exists>text. strip_inactive_with ''#if A'' [] = Some text \<and> length text = 5)"
proof -
  have v: "utf8_valid ''#if A''" by (rule utf8_valid_ascii) (simp add: ascii_defs)
  from strip_keeps_layout [OF v, of "[]"] show ?thesis using v by auto
qed

text \<open>
  Stripping is idempotent, whatever symbols the second pass starts from: the first pass leaves
  no directive the second one would act on.
\<close>

theorem strip_idempotent:
  assumes "utf8_valid src" "strip_inactive_with src pre = Some text"
  shows "strip_inactive_with text pre' = Some text"
proof -
  note s = strip_lines [OF assms]
  from s(5) strip_buf obtain again where a: "strip_inactive_with text pre' = Some again" by blast
  note t = strip_lines [OF s(5) a]
  have "lines_of text again = lines_of text text"
    using t(2) s(2) pass_lines_again [of "initial_state pre" "initial_state pre'" True]
    by (simp add: lines_of_def s(4) idle_when_dead_def initial_state_def current_active_def)
  then have "again = text"
    by (rule lines_of_eqI [rotated 2]) (use t in auto)
  with a show ?thesis by simp
qed

theorem strip_idempotent_witness:
  "\<exists>text. strip_inactive_with ''#if A'' [] = Some text \<and> strip_inactive_with text [''A''] = Some text"
proof -
  have v: "utf8_valid ''#if A''" by (rule utf8_valid_ascii) (simp add: ascii_defs)
  from strip_buf [OF v] obtain res where t: "strip_inactive_with ''#if A'' [] = Some res" by blast
  from strip_idempotent [OF v t, of "[''A'']"] t show ?thesis by blast
qed

text \<open>
  C29. The condition parser computes the meaning of a condition: for every condition tree, the text
  that spells it with C#'s precedence (\<open>!\<close> over \<open>==\<close>/\<open>!=\<close> over \<open>&&\<close> over \<open>||\<close>, brackets only where
  needed), with or without a trailing comment, is tokenized, parsed to its end and holds exactly
  when the tree does under the defined symbols.
\<close>

theorem condition_parser_correct:
  assumes "cond_ok c" "comment = [] \<or> (\<exists>rest. comment = ''//'' @ rest)"
  shows "eval (cond_text c) S = Some (cond_sem S c)
    \<and> condition_holds (cond_text c @ comment) S = cond_sem S c"
  using eval_cond_text [OF assms(1)] condition_holds_cond_text [OF assms] by simp

theorem condition_parser_correct_witness:
  "eval ''A || ! ( B == true ) '' {''B''} = Some False"
proof -
  have "cond_ok (Disj (Sym ''A'') (Neg (Eq (Sym ''B'') (Lit True))))"
    using utf8_valid_ascii
    by (simp add: symbol_ok_def is_cond_ident_start_def is_cond_ident_continue_def
        is_ascii_ident_start_def is_ascii_ident_continue_def ascii_defs)
  from condition_parser_correct [OF this, of "[]" "{''B''}"] show ?thesis
    by (simp add: cond_text_def spell_all_def bracket_def)
qed

text \<open>
  Of the arms of one group at most one is live, none when the group itself is in dead code,
  and exactly one when it is in live code and has an \<open>#else\<close> arm; nested groups and
  \<open>#define\<close>/\<open>#undef\<close> in the arms do not change that.
\<close>

theorem at_most_one_live_arm:
  assumes "\<forall>(kw, c, body) \<in> set arms. kw \<in> {''elif'', ''else''} \<and> nested False body" "nested False body0"
  shows "length (filter id (arm_activity ((''if'', c0, body0) # arms) (stk, S))) \<le>
           (if current_active stk then 1 else 0)
    \<and> (current_active stk \<and> ''else'' \<in> fst ` set arms \<longrightarrow>
       length (filter id (arm_activity ((''if'', c0, body0) # arms) (stk, S))) = 1)"
proof -
  define v where "v = (current_active stk \<and> condition_holds c0 S)"
  define f where "f = \<lparr>parent_active = current_active stk, taken = v, active = v\<rparr>"
  obtain S' where S': "run_directives body0 (f # stk, S) = (f # stk, S')"
    using nested_stack [OF assms(2)] by blast
  have "arm_activity ((''if'', c0, body0) # arms) (stk, S) = v # arm_activity arms (f # stk, S')"
    using S' by (simp add: process_conditional_def f_def [symmetric] v_def [symmetric] Let_def)
      (simp add: current_active_def f_def)
  with arm_activity_live [OF assms(1), of f stk S'] show ?thesis
    by (cases v) (auto simp: f_def v_def split: if_splits)
qed

theorem at_most_one_live_arm_witness:
  "length (filter id (arm_activity [(''if'', '' A'', []), (''else'', [], [])] ([], {}))) = 1"
proof -
  have "\<forall>(kw, c, body) \<in> set [(''else'', [] :: string, [])]. kw \<in> {''elif'', ''else''} \<and> nested False body"
    by (auto intro: nested.intros)
  from at_most_one_live_arm [OF this nested.none, of "'' A''" "[]" "{}"]
  show ?thesis by (simp add: current_active_def)
qed

text \<open>
  Throughout the pass the stack is consistent, so a line is in live code exactly when every
  enclosing arm is live.
\<close>

theorem live_iff_all_arms_live:
  "stack_ok (pp_stack (run_lines src sps (initial_state pre))) \<and>
   current_active (pp_stack (run_lines src sps (initial_state pre)))
     = list_all active (pp_stack (run_lines src sps (initial_state pre)))"
proof -
  have "stack_ok (pp_stack ps) \<Longrightarrow> stack_ok (pp_stack (run_lines src sps ps))" for ps
    unfolding run_lines_def
    by (induction sps arbitrary: ps) (simp_all add: stack_ok_line_step)
  then show ?thesis by (simp add: initial_state_def stack_ok_active list_all_iff)
qed

end
