(* ===== verification/Suggest.thy ===== *)
theory Suggest
  imports Prelude
begin

text \<open>
  \<open>src/suggest.rs\<close>: the nearest-name measure behind "did you mean": the word tokens of a name, the
  bounded edit distance, the score of one index row against the query, and the ranked, deduplicated
  and capped list. Unicode's \<open>str::to_lowercase\<close> is the parameter \<open>lower\<close> of the definitions that
  use it. Definitions first, then the lemmas, then the properties.
\<close>

section \<open>Definitions\<close>

record graph_name =
  gn_name :: string
  gn_kind :: string
  gn_file :: string
  gn_line :: nat
  gn_owner :: string

definition MEMBER_KINDS :: "string list" where
  "MEMBER_KINDS = [''method'', ''property'', ''field'', ''event'', ''enum-member'']"

definition MARKUP_KINDS :: "string list" where
  "MARKUP_KINDS = [''markup-class'', ''markup-name'', ''markup-binding'']"

definition SUGGESTION_CAP :: nat where "SUGGESTION_CAP = 5"

definition MAX_EDIT_DISTANCE :: nat where "MAX_EDIT_DISTANCE = 2"

definition kind_rank :: "string \<Rightarrow> nat" where
  "kind_rank kind =
     (if kind \<in> set MEMBER_KINDS then 1
      else if kind \<in> set MARKUP_KINDS then 2
      else if kind = ''resource-key'' then 3
      else 0)"

text \<open>
  The loop of \<open>tokens\<close> over what is left of the bytes, with its variable \<open>cur\<close>; the result is what
  it pushes to \<open>out\<close> from there on.
\<close>

fun token_runs :: "string \<Rightarrow> string \<Rightarrow> string list" where
  "token_runs cur [] = (if cur \<noteq> [] then [map ascii_lower cur] else [])"
| "token_runs cur (c # rest) =
     (if \<not> is_ascii_alphanumeric c then
        (if cur \<noteq> [] then map ascii_lower cur # token_runs [] rest else token_runs [] rest)
      else if is_ascii_upper c \<and> cur \<noteq> [] then
        (let prev_upper = is_ascii_upper (last cur);
             next_lower = (case rest of [] \<Rightarrow> False | n # _ \<Rightarrow> is_ascii_lower n)
         in if \<not> prev_upper \<or> next_lower
            then map ascii_lower cur # token_runs [c] rest
            else token_runs (cur @ [c]) rest)
      else token_runs (cur @ [c]) rest)"

text \<open>The second loop: keep the first occurrence of each.\<close>

definition push_distinct :: "'a \<Rightarrow> 'a list \<Rightarrow> 'a list" where
  "push_distinct t distinct' = (if t \<notin> set distinct' then distinct' @ [t] else distinct')"

definition tokens :: "string \<Rightarrow> string list" where
  "tokens s = fold push_distinct (token_runs [] s) []"

text \<open>
  \<open>edit_distance_within\<close>: one row of the table from the row above it (\<open>diag\<close> is \<open>prev[j - 1]\<close>, the
  head of the third argument \<open>prev[j]\<close>, \<open>left\<close> is \<open>cur[j - 1]\<close>), then the loop over the rows.
\<close>

fun row_cells :: "char \<Rightarrow> string \<Rightarrow> nat \<Rightarrow> nat list \<Rightarrow> nat \<Rightarrow> nat list" where
  "row_cells x (y # ys) diag (up # prev) left =
     (let cost = (if x \<noteq> y then 1 else 0);
          cell = min (min (up + 1) (left + 1)) (diag + cost)
      in cell # row_cells x ys up prev cell)"
| "row_cells x _ diag _ left = []"

definition next_row :: "char \<Rightarrow> string \<Rightarrow> nat list \<Rightarrow> nat \<Rightarrow> nat list" where
  "next_row x b prev i = i # row_cells x b (hd prev) (tl prev) i"

fun distance_rows :: "string \<Rightarrow> string \<Rightarrow> nat \<Rightarrow> nat list \<Rightarrow> nat \<Rightarrow> nat" where
  "distance_rows [] b i prev max' = prev ! length b"
| "distance_rows (x # xs) b i prev max' =
     (let cur = next_row x b prev i;
          best = fold min (tl cur) (hd cur)
      in if best > max' then max' + 1 else distance_rows xs b (i + 1) cur max')"

definition abs_diff :: "nat \<Rightarrow> nat \<Rightarrow> nat" where
  "abs_diff a b = (if a \<le> b then b - a else a - b)"

definition edit_distance_within :: "string \<Rightarrow> string \<Rightarrow> nat \<Rightarrow> nat" where
  "edit_distance_within a b max' =
     (if abs_diff (length a) (length b) > max' then max' + 1
      else distance_rows a b 1 [0..<length b + 1] max')"

definition shared_count :: "string list \<Rightarrow> string list \<Rightarrow> nat" where
  "shared_count a b = length (filter (\<lambda>t. t \<in> set b) a)"

text \<open>\<open>s.chars().count()\<close>: the bytes that continue no code point.\<close>

definition code_points :: "string \<Rightarrow> nat" where
  "code_points s = length (filter (\<lambda>c. \<not> (128 \<le> byte c \<and> byte c \<le> 191)) s)"

definition str_is_ascii :: "string \<Rightarrow> bool" where
  "str_is_ascii s = list_all is_ascii s"

fun str_contains :: "string \<Rightarrow> string \<Rightarrow> bool" where
  "str_contains h n = (take (length n) h = n \<or> (case h of [] \<Rightarrow> False | _ # t \<Rightarrow> str_contains t n))"

record scored =
  sc_row :: graph_name
  sc_rank :: nat
  sc_penalty :: nat
  sc_kind :: nat

definition score_row ::
    "(string \<Rightarrow> string) \<Rightarrow> graph_name \<Rightarrow> string \<Rightarrow> string \<Rightarrow> string list \<Rightarrow> bool \<Rightarrow> (nat \<times> nat) option" where
  "score_row lower row query lower_query query_tokens query_ascii =
     (let lw = lower (gn_name row) in
      if str_contains lw lower_query
      then Some (0, abs_diff (code_points (gn_name row)) (code_points query))
      else
        let name_tokens = tokens (gn_name row);
            shared = shared_count query_tokens name_tokens
        in if shared > 0 then Some (1, length query_tokens + length name_tokens - 2 * shared)
           else if query_ascii \<and> str_is_ascii (gn_name row) then
             (let d = edit_distance_within lower_query lw MAX_EDIT_DISTANCE
              in if d \<le> MAX_EDIT_DISTANCE then Some (2, d) else None)
           else None)"

definition score_all :: "(string \<Rightarrow> string) \<Rightarrow> graph_name list \<Rightarrow> string \<Rightarrow> scored list" where
  "score_all lower names query =
     List.map_filter
       (\<lambda>row. map_option
          (\<lambda>(rank, penalty). \<lparr>sc_row = row, sc_rank = rank, sc_penalty = penalty, sc_kind = kind_rank (gn_kind row)\<rparr>)
          (score_row lower row query (lower query) (tokens query) (str_is_ascii query)))
       names"

text \<open>The comparator of \<open>sort_by\<close>, as a lexicographic key.\<close>

definition scored_key :: "scored \<Rightarrow> nat \<times> nat \<times> nat \<times> string \<times> nat \<times> string" where
  "scored_key s = (sc_rank s, sc_penalty s, sc_kind s, gn_file (sc_row s), gn_line (sc_row s), gn_name (sc_row s))"

text \<open>The last loop, with its variables \<open>seen\<close> and \<open>out\<close>; it stops at the cap.\<close>

fun take_distinct :: "scored list \<Rightarrow> string list \<Rightarrow> graph_name list \<Rightarrow> graph_name list" where
  "take_distinct [] seen acc = acc"
| "take_distinct (s # ss) seen acc =
     (if gn_name (sc_row s) \<in> set seen then take_distinct ss seen acc
      else if length (acc @ [sc_row s]) = SUGGESTION_CAP then acc @ [sc_row s]
      else take_distinct ss (seen @ [gn_name (sc_row s)]) (acc @ [sc_row s]))"

definition did_you_mean :: "(string \<Rightarrow> string) \<Rightarrow> graph_name list \<Rightarrow> string \<Rightarrow> graph_name list" where
  "did_you_mean lower names query =
     (if query = [] then []
      else take_distinct (sort_key scored_key (score_all lower names query)) [] [])"

section \<open>Lemmas: tokens\<close>

lemma push_distinct_fold:
  "distinct ds \<Longrightarrow>
   distinct (fold push_distinct ts ds) \<and> set (fold push_distinct ts ds) = set ds \<union> set ts"
  by (induction ts arbitrary: ds) (auto simp: push_distinct_def)

lemma tokens_distinct [simp]: "distinct (tokens s)"
  using push_distinct_fold [of "[]" "token_runs [] s"] by (simp add: tokens_def)

lemma set_tokens: "set (tokens s) = set (token_runs [] s)"
  using push_distinct_fold [of "[]" "token_runs [] s"] by (simp add: tokens_def)

lemma concat_token_runs:
  "concat (token_runs cur s) = map ascii_lower (cur @ filter is_ascii_alphanumeric s)"
  by (induction cur s rule: token_runs.induct) (auto simp: Let_def split: list.splits)

lemma token_runs_nonempty: "[] \<notin> set (token_runs cur s)"
  by (induction cur s rule: token_runs.induct) (auto simp: Let_def split: list.splits)

text \<open>The subtraction in the token tier does not underflow: a query token counts once.\<close>

lemma shared_count_le: "distinct a \<Longrightarrow> shared_count a b \<le> length a \<and> shared_count a b \<le> length b"
proof -
  assume "distinct a"
  then have "shared_count a b = card (set a \<inter> set b)"
    by (simp add: shared_count_def distinct_card [symmetric] Int_def)
  moreover have "card (set a \<inter> set b) \<le> card (set b)" by (simp add: card_mono)
  ultimately show ?thesis
    using card_length [of b] by (simp add: shared_count_def) (metis length_filter_le)
qed

section \<open>Lemmas: edit distance\<close>

text \<open>The reference: the recursive distance, alignments, and single edits.\<close>

fun lev :: "'a list \<Rightarrow> 'a list \<Rightarrow> nat" where
  "lev [] ys = length ys"
| "lev xs [] = length xs"
| "lev (x # xs) (y # ys) =
     min (min (lev xs (y # ys) + 1) (lev (x # xs) ys + 1)) (lev xs ys + (if x \<noteq> y then 1 else 0))"

inductive align :: "'a list \<Rightarrow> 'a list \<Rightarrow> nat \<Rightarrow> bool" where
  Nil: "align [] [] 0"
| Del: "align xs ys n \<Longrightarrow> align (x # xs) ys (Suc n)"
| Ins: "align xs ys n \<Longrightarrow> align xs (y # ys) (Suc n)"
| Keep: "align xs ys n \<Longrightarrow> align (x # xs) (x # ys) n"
| Sub: "align xs ys n \<Longrightarrow> align (x # xs) (y # ys) (Suc n)"

lemma align_Nil1: "align [] ys (length ys)"
  by (induction ys) (auto intro: align.intros)

lemma align_Nil2: "align xs [] (length xs)"
  by (induction xs) (auto intro: align.intros)

lemma align_lev: "align xs ys (lev xs ys)"
proof (induction xs ys rule: lev.induct)
  case (3 x xs y ys)
  let ?d = "lev xs (y # ys) + 1" and ?i = "lev (x # xs) ys + 1"
    and ?s = "lev xs ys + (if x \<noteq> y then 1 else 0)"
  have "lev (x # xs) (y # ys) \<in> {?d, ?i, ?s}" by (auto simp: min_def)
  moreover have "align (x # xs) (y # ys) ?d" "align (x # xs) (y # ys) ?i" "align (x # xs) (y # ys) ?s"
    using "3.IH" by (auto intro: align.intros simp del: lev.simps)
  ultimately show ?case by (metis insertE singletonD)
next
  case (2 v va)
  then show ?case using align_Nil2 [of "v # va"] by simp
qed (simp add: align_Nil1)

lemma lev_Nil2 [simp]: "lev xs [] = length xs"
  by (cases xs) auto

lemma lev_Cons_le1: "lev (x # xs) ys \<le> Suc (lev xs ys)"
  by (cases ys) simp_all

lemma lev_Cons_le2: "lev xs (y # ys) \<le> Suc (lev xs ys)"
  by (cases xs) simp_all

lemma lev_Cons_Cons_le: "lev (x # xs) (y # ys) \<le> lev xs ys + (if x \<noteq> y then 1 else 0)"
  by simp

lemma lev_le_align: "align xs ys n \<Longrightarrow> lev xs ys \<le> n"
proof (induction rule: align.induct)
  case (Del xs ys n x)
  with lev_Cons_le1 [of x xs ys] show ?case by linarith
next
  case (Ins xs ys n y)
  with lev_Cons_le2 [of xs y ys] show ?case by linarith
next
  case (Keep xs ys n x)
  with lev_Cons_Cons_le [of x xs x ys] show ?case by simp
next
  case (Sub xs ys n x y)
  with lev_Cons_Cons_le [of x xs y ys] show ?case by (auto split: if_splits)
qed simp

lemma align_append: "align xs ys n \<Longrightarrow> align xs' ys' m \<Longrightarrow> align (xs @ xs') (ys @ ys') (n + m)"
  by (induction rule: align.induct) (auto intro: align.intros)

lemma align_one:
  "align [x] [] 1" "align [] [y] 1" "align [x] [x] 0" "align [x] [y] 1"
  using align.intros(2-5) [OF align.Nil] by auto

lemma align_rev: "align xs ys n \<Longrightarrow> align (rev xs) (rev ys) n"
proof (induction rule: align.induct)
  case (Del xs ys n x)
  with align_append [OF Del.IH align_one(1)] show ?case by simp
next
  case (Ins xs ys n y)
  with align_append [OF Ins.IH align_one(2)] show ?case by simp
next
  case (Keep xs ys n x)
  with align_append [OF Keep.IH align_one(3)] show ?case by simp
next
  case (Sub xs ys n x y)
  with align_append [OF Sub.IH align_one(4)] show ?case by simp
qed (simp add: align.Nil)

lemma lev_rev: "lev (rev xs) (rev ys) = lev xs ys"
proof -
  have le: "lev (rev xs) (rev ys) \<le> lev xs ys" for xs ys :: "'a list"
    by (rule lev_le_align [OF align_rev [OF align_lev]])
  from le [of xs ys] le [of "rev xs" "rev ys"] show ?thesis by simp
qed

text \<open>Single edits: replacing, deleting or inserting one element anywhere.\<close>

inductive edit1 :: "'a list \<Rightarrow> 'a list \<Rightarrow> bool" where
  replace: "edit1 (u @ x # v) (u @ y # v)"
| delete: "edit1 (u @ x # v) (u @ v)"
| insert: "edit1 (u @ v) (u @ y # v)"

lemma edit1_Cons: "edit1 xs ys \<Longrightarrow> edit1 (z # xs) (z # ys)"
proof (induction rule: edit1.induct)
  case (replace u x v y)
  show ?case using edit1.replace [of "z # u" x v y] by simp
next
  case (delete u x v)
  show ?case using edit1.delete [of "z # u" x v] by simp
next
  case (insert u v y)
  show ?case using edit1.insert [of "z # u" v y] by simp
qed

lemma edits_Cons: "(edit1 ^^ n) xs ys \<Longrightarrow> (edit1 ^^ n) (z # xs) (z # ys)"
  by (induction n arbitrary: ys) (auto intro: edit1_Cons)

lemma align_edits: "align xs ys n \<Longrightarrow> (edit1 ^^ n) xs ys"
proof (induction rule: align.induct)
  case (Del xs ys n x)
  have "edit1 (x # xs) xs" using edit1.delete [of "[]" x xs] by simp
  with Del.IH show ?case by (metis relpowp_Suc_I2)
next
  case (Ins xs ys n y)
  have "edit1 ys (y # ys)" using edit1.insert [of "[]" ys y] by simp
  with Ins.IH show ?case by auto
next
  case (Sub xs ys n x y)
  have "edit1 (x # ys) (y # ys)" using edit1.replace [of "[]" x ys y] by simp
  with edits_Cons [OF Sub.IH, of x] show ?case by auto
qed (auto intro: edits_Cons)

lemma align_split:
  "align xs (us @ vs) n \<Longrightarrow>
   \<exists>xs1 xs2 n1 n2. xs = xs1 @ xs2 \<and> align xs1 us n1 \<and> align xs2 vs n2 \<and> n = n1 + n2"
proof (induction xs "us @ vs" n arbitrary: us rule: align.induct)
  case Nil
  then show ?case using align.Nil by fastforce
next
  case (Del xs n x)
  from Del(2) obtain xs1 xs2 n1 n2
    where "xs = xs1 @ xs2" "align xs1 us n1" "align xs2 vs n2" "n = n1 + n2" by blast
  then show ?case
    by (intro exI [of _ "x # xs1"] exI [of _ xs2] exI [of _ "Suc n1"] exI [of _ n2]) (auto intro: align.intros)
next
  case (Ins xs ys n y)
  show ?case
  proof (cases us)
    case Nil
    with Ins align.Ins [OF Ins(1)] show ?thesis
      by (intro exI [of _ "[]"] exI [of _ xs] exI [of _ 0] exI [of _ "Suc n"]) (auto intro: align.Nil)
  next
    case (Cons u us')
    with Ins obtain xs1 xs2 n1 n2
      where "xs = xs1 @ xs2" "align xs1 us' n1" "align xs2 vs n2" "n = n1 + n2" by auto
    with Cons show ?thesis
      by (intro exI [of _ xs1] exI [of _ xs2] exI [of _ "Suc n1"] exI [of _ n2]) (auto intro: align.intros)
  qed
next
  case (Keep xs ys n x)
  show ?case
  proof (cases us)
    case Nil
    with Keep align.Keep [OF Keep(1)] show ?thesis
      by (intro exI [of _ "[]"] exI [of _ "x # xs"] exI [of _ 0] exI [of _ n]) (auto intro: align.Nil)
  next
    case (Cons u us')
    with Keep obtain xs1 xs2 n1 n2
      where "xs = xs1 @ xs2" "align xs1 us' n1" "align xs2 vs n2" "n = n1 + n2" by auto
    with Cons Keep show ?thesis
      by (intro exI [of _ "x # xs1"] exI [of _ xs2] exI [of _ n1] exI [of _ n2]) (auto intro: align.intros)
  qed
next
  case (Sub xs ys n x y)
  show ?case
  proof (cases us)
    case Nil
    with Sub align.Sub [OF Sub(1)] show ?thesis
      by (intro exI [of _ "[]"] exI [of _ "x # xs"] exI [of _ 0] exI [of _ "Suc n"]) (auto intro: align.Nil)
  next
    case (Cons u us')
    with Sub obtain xs1 xs2 n1 n2
      where "xs = xs1 @ xs2" "align xs1 us' n1" "align xs2 vs n2" "n = n1 + n2" by auto
    with Cons show ?thesis
      by (intro exI [of _ "x # xs1"] exI [of _ xs2] exI [of _ "Suc n1"] exI [of _ n2]) (auto intro: align.intros)
  qed
qed

lemma lev_append_le: "lev (xs1 @ xs2) (us @ vs) \<le> lev xs1 us + lev xs2 vs"
  by (rule lev_le_align [OF align_append [OF align_lev align_lev]])

lemma lev_split: "\<exists>xs1 xs2. xs = xs1 @ xs2 \<and> lev xs (us @ vs) = lev xs1 us + lev xs2 vs"
proof -
  from align_split [OF align_lev] obtain xs1 xs2 n1 n2
    where s: "xs = xs1 @ xs2" "align xs1 us n1" "align xs2 vs n2" "lev xs (us @ vs) = n1 + n2" by metis
  from lev_le_align [OF s(2)] lev_le_align [OF s(3)] lev_append_le [of xs1 xs2 us vs] s(1,4)
  show ?thesis by (intro exI [of _ xs1] exI [of _ xs2]) auto
qed

lemma align_length: "align xs ys n \<Longrightarrow> length xs \<le> length ys + n \<and> length ys \<le> length xs + n"
  by (induction rule: align.induct) auto

lemmas lev_length = align_length [OF align_lev]

lemma lev_single_le: "lev xs [z] \<le> max 1 (length xs)"
  by (cases xs) auto

lemma lev_edit1: "edit1 ys zs \<Longrightarrow> lev xs zs \<le> Suc (lev xs ys)"
proof (induction rule: edit1.induct)
  case (replace u y v z)
  obtain xs1 xs2 xs3 where s: "xs = xs1 @ xs2 @ xs3"
    "lev xs (u @ y # v) = lev xs1 u + (lev xs2 [y] + lev xs3 v)"
    using lev_split [of xs u "[y] @ v"] lev_split [of _ "[y]" v] by (metis append_Cons append_Nil)
  have "lev xs (u @ z # v) \<le> lev xs1 u + (lev xs2 [z] + lev xs3 v)"
    using lev_append_le [of xs1 "xs2 @ xs3" u "[z] @ v"] lev_append_le [of xs2 xs3 "[z]" v] s(1) by simp
  moreover have "lev xs2 [z] \<le> Suc (lev xs2 [y])"
    using lev_single_le [of xs2 z] lev_length [of xs2 "[y]"] by (cases xs2) auto
  ultimately show ?case using s(2) by linarith
next
  case (delete u y v)
  obtain xs1 xs2 xs3 where s: "xs = xs1 @ xs2 @ xs3"
    "lev xs (u @ y # v) = lev xs1 u + (lev xs2 [y] + lev xs3 v)"
    using lev_split [of xs u "[y] @ v"] lev_split [of _ "[y]" v] by (metis append_Cons append_Nil)
  have "lev xs (u @ v) \<le> lev xs1 u + (lev xs2 [] + lev xs3 v)"
    using lev_append_le [of xs1 "xs2 @ xs3" u v] lev_append_le [of xs2 xs3 "[]" v] s(1) by simp
  moreover have "lev xs2 [] \<le> Suc (lev xs2 [y])"
    using lev_length [of xs2 "[y]"] by simp
  ultimately show ?case using s(2) by linarith
next
  case (insert u v y)
  obtain xs1 xs2 where s: "xs = xs1 @ xs2" "lev xs (u @ v) = lev xs1 u + lev xs2 v"
    using lev_split by blast
  have "lev xs (u @ y # v) \<le> lev xs1 u + (lev [] [y] + lev xs2 v)"
    using lev_append_le [of xs1 xs2 u "[y] @ v"] lev_append_le [of "[]" xs2 "[y]" v] s(1) by simp
  with s(2) show ?case by simp
qed

lemma lev_least_edits: "lev xs ys = (LEAST n. (edit1 ^^ n) xs ys)"
proof (rule Least_equality [symmetric])
  show "(edit1 ^^ lev xs ys) xs ys" by (rule align_edits [OF align_lev])
  have "lev xs xs = 0" for xs :: "'a list" by (induction xs) (auto simp: min_def)
  then show "lev xs ys \<le> n" if "(edit1 ^^ n) xs ys" for n
    using that by (induction n arbitrary: ys) (auto dest: lev_edit1 intro: le_trans)
qed

section \<open>Lemmas: the table\<close>

text \<open>Row \<open>ra\<close> of the table: the distances of one prefix (reversed) to every prefix of \<open>b\<close>.\<close>

definition table_row :: "string \<Rightarrow> string \<Rightarrow> nat list" where
  "table_row ra b = map (\<lambda>j. lev ra (rev (take j b))) [0..<length b + 1]"

lemma row_cells_lev:
  "row_cells x ys (lev ra (rev pb)) (map (\<lambda>j. lev ra (rev (pb @ take (Suc j) ys))) [0..<length ys]) (lev (x # ra) (rev pb))
   = map (\<lambda>j. lev (x # ra) (rev (pb @ take (Suc j) ys))) [0..<length ys]"
proof (induction ys arbitrary: pb)
  case (Cons y ys)
  have step: "map (\<lambda>j. f (pb @ take (Suc j) (y # ys))) [0..<length (y # ys)]
      = f (pb @ [y]) # map (\<lambda>j. f ((pb @ [y]) @ take (Suc j) ys)) [0..<length ys]"
    for f :: "string \<Rightarrow> nat"
    by (simp add: upt_conv_Cons map_Suc_upt [symmetric] del: upt_Suc)
  have "lev (x # ra) (rev (pb @ [y])) = min (min (lev ra (rev (pb @ [y])) + 1) (lev (x # ra) (rev pb) + 1))
      (lev ra (rev pb) + (if x \<noteq> y then 1 else 0))"
    by simp
  with Cons.IH [of "pb @ [y]"] show ?case
    by (simp only: step [of "\<lambda>p. lev ra (rev p)"] step [of "\<lambda>p. lev (x # ra) (rev p)"] row_cells.simps Let_def)
qed simp

lemma table_row_Cons: "table_row ra b = length ra # map (\<lambda>j. lev ra (rev (take (Suc j) b))) [0..<length b]"
  by (simp add: table_row_def upt_conv_Cons map_Suc_upt [symmetric] del: upt_Suc)

lemma next_row_lev: "next_row x b (table_row ra b) (Suc (length ra)) = table_row (x # ra) b"
  using row_cells_lev [of x b ra "[]"] by (simp add: next_row_def table_row_Cons)

lemma fold_min_Min: "fold min xs (x :: nat) = Min (set (x # xs))"
  by (simp only: Min.set_eq_fold)

lemma row_min_le:
  assumes "\<And>j. j \<le> length b \<Longrightarrow> m \<le> lev ra (rev (take j b))" "j \<le> length b"
  shows "m \<le> lev (x # ra) (rev (take j b))"
  using assms(2)
proof (induction j)
  case 0
  with assms(1) [of 0] show ?case by simp
next
  case (Suc j)
  then have "rev (take (Suc j) b) = b ! j # rev (take j b)" by (simp add: take_Suc_conv_app_nth)
  with assms(1) [of j] assms(1) [of "Suc j"] Suc show ?case by simp
qed

lemma rows_min_le:
  assumes "\<And>j. j \<le> length b \<Longrightarrow> m \<le> lev ra (rev (take j b))"
  shows "m \<le> lev (rev xs @ ra) (rev b)"
  using assms
proof (induction xs arbitrary: ra)
  case Nil
  from Nil [of "length b"] show ?case by simp
next
  case (Cons x xs)
  from Cons.IH [of "x # ra", OF row_min_le [OF Cons.prems]] show ?case by simp
qed

lemma table_row_Min:
  "fold min (tl (table_row ra b)) (hd (table_row ra b)) = Min ((\<lambda>j. lev ra (rev (take j b))) ` {..length b})"
proof -
  have "table_row ra b \<noteq> []" by (simp add: table_row_def)
  then have "fold min (tl (table_row ra b)) (hd (table_row ra b)) = Min (set (table_row ra b))"
    by (simp add: fold_min_Min)
  also have "set (table_row ra b) = (\<lambda>j. lev ra (rev (take j b))) ` {..length b}"
    by (auto simp: table_row_def simp del: upt_Suc)
  finally show ?thesis .
qed

lemma distance_rows_lev:
  "let d = lev (rev xs @ ra) (rev b); r = distance_rows xs b (Suc (length ra)) (table_row ra b) m
   in if d \<le> m then r = d else m < r"
proof (induction xs arbitrary: ra)
  case Nil
  have "table_row ra b ! length b = lev ra (rev b)" by (simp add: table_row_def del: upt_Suc)
  then show ?case by simp
next
  case (Cons x xs)
  define best where "best = fold min (tl (table_row (x # ra) b)) (hd (table_row (x # ra) b))"
  have "best \<le> lev (rev xs @ x # ra) (rev b)"
    by (rule rows_min_le) (simp add: best_def table_row_Min)
  with Cons.IH [of "x # ra"] show ?case
    by (auto simp: Let_def next_row_lev best_def [symmetric])
qed

lemma edit_distance_within_lev:
  "if lev a b \<le> m then edit_distance_within a b m = lev a b else m < edit_distance_within a b m"
proof -
  have "[0..<length b + 1] = table_row [] b"
    by (rule nth_equalityI) (auto simp: table_row_def simp del: upt_Suc)
  moreover have "abs_diff (length a) (length b) \<le> lev a b"
    using lev_length [of a b] by (auto simp: abs_diff_def)
  ultimately show ?thesis
    using distance_rows_lev [of a "[]" b m] lev_rev [of a b]
    by (auto simp: edit_distance_within_def Let_def)
qed

section \<open>Lemmas: the list\<close>

lemma take_distinct_props:
  assumes "distinct (map gn_name acc)" "set (map gn_name acc) = set seen" "length acc < SUGGESTION_CAP"
  shows "distinct (map gn_name (take_distinct ss seen acc))
    \<and> length (take_distinct ss seen acc) \<le> SUGGESTION_CAP
    \<and> set (take_distinct ss seen acc) \<subseteq> set acc \<union> sc_row ` set ss"
  using assms
proof (induction ss seen acc rule: take_distinct.induct)
  case (2 s ss seen acc)
  then show ?case by (auto simp: SUGGESTION_CAP_def)
qed auto

text \<open>
  A row the loop leaves out has a row of its name before it, or the list was full before it.
\<close>

lemma take_distinct_prefix: "\<exists>more. take_distinct ss seen acc = acc @ more"
  by (induction ss seen acc rule: take_distinct.induct) auto

lemma take_distinct_complete:
  assumes "sorted (map scored_key ss)" "s \<in> set ss" "gn_name (sc_row s) \<notin> set seen"
    "\<forall>t \<in> set ss. \<forall>a \<in> set acc. P t a"
    "\<And>t u. t \<in> set ss \<Longrightarrow> u \<in> set ss \<Longrightarrow> scored_key u \<le> scored_key t \<Longrightarrow> P t (sc_row u)"
    "length acc < SUGGESTION_CAP"
  shows "gn_name (sc_row s) \<in> gn_name ` set (take_distinct ss seen acc)
    \<or> length (take_distinct ss seen acc) = SUGGESTION_CAP \<and> (\<forall>a \<in> set (take_distinct ss seen acc). P s a)"
  using assms
proof (induction ss seen acc rule: take_distinct.induct)
  case (2 t ss seen acc)
  have le: "scored_key t \<le> scored_key s" using "2.prems"(1,2) by auto
  have P: "P s (sc_row t)" using "2.prems"(2,5) le by auto
  show ?case
  proof (cases "gn_name (sc_row t) \<in> set seen")
    case True
    with "2.prems" have "s \<in> set ss" by auto
    with True "2.IH"(1) "2.prems" show ?thesis by simp
  next
    case new: False
    show ?thesis
    proof (cases "length (acc @ [sc_row t]) = SUGGESTION_CAP")
      case True
      with new P "2.prems"(2,4) show ?thesis by auto
    next
      case room: False
      obtain more where more: "take_distinct ss (seen @ [gn_name (sc_row t)]) (acc @ [sc_row t]) = (acc @ [sc_row t]) @ more"
        using take_distinct_prefix by blast
      show ?thesis
      proof (cases "gn_name (sc_row s) = gn_name (sc_row t)")
        case True
        with new room more show ?thesis by auto
      next
        case False
        have "\<forall>u \<in> set ss. \<forall>a \<in> set (acc @ [sc_row t]). P u a"
          using "2.prems"(1,4,5) by auto
        with "2.IH"(2) [OF new room] False "2.prems" new room show ?thesis by auto
      qed
    qed
  qed
qed simp

lemma set_score_all:
  "set (score_all lower names query) =
     {s. \<exists>row \<in> set names. \<exists>rank penalty.
        score_row lower row query (lower query) (tokens query) (str_is_ascii query) = Some (rank, penalty)
        \<and> s = \<lparr>sc_row = row, sc_rank = rank, sc_penalty = penalty, sc_kind = kind_rank (gn_kind row)\<rparr>}"
  by (force simp: score_all_def map_filter_def)

definition scores :: "(string \<Rightarrow> string) \<Rightarrow> string \<Rightarrow> graph_name \<Rightarrow> scored \<Rightarrow> bool" where
  "scores lower query row s \<longleftrightarrow>
     sc_row s = row \<and> sc_kind s = kind_rank (gn_kind row)
     \<and> score_row lower row query (lower query) (tokens query) (str_is_ascii query)
        = Some (sc_rank s, sc_penalty s)"

lemma set_score_all_scores: "set (score_all lower names query) = {s. \<exists>row \<in> set names. scores lower query row s}"
  by (auto simp: set_score_all scores_def) (metis old.unit.exhaust scored.surjective)+

section \<open>Properties\<close>

text \<open>
  C24. The bounded edit distance is exact within its bound: it answers at most \<open>m\<close> exactly when \<open>m\<close>
  single-byte replacements, deletions and insertions or fewer turn one name into the other, and
  then it answers the least number of them. The early exit on a row minimum and the length
  pre-check change no answer.
\<close>

theorem edit_distance_exact:
  "(edit_distance_within a b m \<le> m \<longleftrightarrow> (\<exists>n \<le> m. (edit1 ^^ n) a b))
   \<and> (edit_distance_within a b m \<le> m \<longrightarrow> edit_distance_within a b m = (LEAST n. (edit1 ^^ n) a b))"
proof -
  have lev_edits: "(edit1 ^^ lev a b) a b" by (rule align_edits [OF align_lev])
  have least: "lev a b \<le> n" if "(edit1 ^^ n) a b" for n
    using that by (simp add: lev_least_edits Least_le)
  show ?thesis
    using edit_distance_within_lev [of a b m] lev_edits least lev_least_edits [of a b]
    by (auto split: if_splits dest: le_trans)
qed

text \<open>The bounded distance at a concrete pair, one replacement apart.\<close>

theorem edit_distance_exact_witness:
  "edit_distance_within ''Anchxr'' ''Anchor'' 2 = (LEAST n. (edit1 ^^ n) ''Anchxr'' ''Anchor'')"
proof -
  have "edit_distance_within ''Anchxr'' ''Anchor'' 2 \<le> 2"
    by (simp add: edit_distance_within_def abs_diff_def next_row_def Let_def upt_conv_Cons)
  with edit_distance_exact [of "''Anchxr''" "''Anchor''" 2] show ?thesis by blast
qed

text \<open>
  The suggestion list holds at most five rows, no name twice, only rows that score; and it is
  the head of the ranking: a row that scores has its name in the list, or the list is full and each
  listed row has a score that ranks no later than it.
\<close>

theorem did_you_mean_best:
  assumes "query \<noteq> []" "row \<in> set names" "scores lower query row s"
  shows "length (did_you_mean lower names query) \<le> 5
    \<and> distinct (map gn_name (did_you_mean lower names query))
    \<and> (\<forall>r \<in> set (did_you_mean lower names query). r \<in> set names \<and> (\<exists>t. scores lower query r t))
    \<and> (gn_name row \<in> gn_name ` set (did_you_mean lower names query)
       \<or> length (did_you_mean lower names query) = 5
         \<and> (\<forall>r \<in> set (did_you_mean lower names query).
              \<exists>t. scores lower query r t \<and> scored_key t \<le> scored_key s))"
proof -
  let ?ss = "sort_key scored_key (score_all lower names query)"
  have set_ss: "set ?ss = {s. \<exists>row \<in> set names. scores lower query row s}"
    by (simp add: set_score_all_scores)
  have props: "distinct (map gn_name (take_distinct ?ss [] [])) \<and> length (take_distinct ?ss [] []) \<le> SUGGESTION_CAP
      \<and> set (take_distinct ?ss [] []) \<subseteq> set [] \<union> sc_row ` set ?ss"
    by (rule take_distinct_props) (simp_all add: SUGGESTION_CAP_def)
  have "gn_name (sc_row s) \<in> gn_name ` set (take_distinct ?ss [] [])
    \<or> length (take_distinct ?ss [] []) = SUGGESTION_CAP
      \<and> (\<forall>a \<in> set (take_distinct ?ss [] []). \<exists>t. scores lower query a t \<and> scored_key t \<le> scored_key s)"
    by (rule take_distinct_complete [where P = "\<lambda>s a. \<exists>t. scores lower query a t \<and> scored_key t \<le> scored_key s"])
       (use assms set_ss in \<open>auto simp: SUGGESTION_CAP_def scores_def\<close>)
  with props assms set_ss show ?thesis
    by (auto simp: did_you_mean_def SUGGESTION_CAP_def scores_def image_iff subset_iff)
qed

theorem did_you_mean_best_witness:
  "\<exists>row. gn_name row \<in> gn_name ` set (did_you_mean (map ascii_lower) [row] ''Anchor'')"
proof -
  let ?row = "\<lparr>gn_name = ''Anchor'', gn_kind = ''class'', gn_file = ''b.cs'', gn_line = 1, gn_owner = []\<rparr>"
  let ?s = "\<lparr>sc_row = ?row, sc_rank = 0, sc_penalty = 0, sc_kind = 0\<rparr>"
  have s: "scores (map ascii_lower) ''Anchor'' ?row ?s"
    by (simp add: scores_def score_row_def abs_diff_def kind_rank_def MEMBER_KINDS_def MARKUP_KINDS_def)
  have "length (did_you_mean (map ascii_lower) [?row] ''Anchor'') \<noteq> 5"
    by (simp add: did_you_mean_def score_all_def map_filter_simps SUGGESTION_CAP_def split: option.split)
  with did_you_mean_best [OF _ _ s, of "[?row]"] show ?thesis
    by (intro exI [of _ ?row]) simp
qed

text \<open>
  Tokenizing a name loses nothing but separators and case: the runs, concatenated, are the
  name's ASCII letters and digits in lower case, none of them is empty, and the tokens are the
  distinct runs; so a row's token penalty is the exact size of the symmetric difference (the
  subtraction does not underflow).
\<close>

theorem tokens_lossless:
  "concat (token_runs [] s) = map ascii_lower (filter is_ascii_alphanumeric s)
   \<and> [] \<notin> set (tokens s) \<and> distinct (tokens s) \<and> set (tokens s) = set (token_runs [] s)
   \<and> 2 * shared_count (tokens q) (tokens s) \<le> length (tokens q) + length (tokens s)
   \<and> length (tokens q) + length (tokens s) - 2 * shared_count (tokens q) (tokens s)
     = card (set (tokens q) - set (tokens s)) + card (set (tokens s) - set (tokens q))"
proof -
  let ?q = "set (tokens q)" and ?s = "set (tokens s)"
  have shared: "shared_count (tokens q) (tokens s) = card (?q \<inter> ?s)"
    by (simp add: shared_count_def distinct_card [symmetric] Int_def)
  have "card ?q = card (?q \<inter> ?s) + card (?q - ?s)" "card ?s = card (?q \<inter> ?s) + card (?s - ?q)"
    by (subst card_Un_disjoint [symmetric]; auto intro: arg_cong [where f = card])+
  then have "length (tokens q) = card (?q \<inter> ?s) + card (?q - ?s)"
    "length (tokens s) = card (?q \<inter> ?s) + card (?s - ?q)"
    by (simp_all add: distinct_card)
  then show ?thesis
    using token_runs_nonempty [of "[]" s] concat_token_runs [of "[]" s]
    by (simp add: shared set_tokens)
qed

end
