(* ===== verification/Offsets.thy ===== *)
theory Offsets
  imports Prelude
begin

text \<open>
  \<open>src/offsets.rs\<close>: translating a UTF-8 byte offset to a UTF-16 code-unit offset through a table of
  breakpoints. Definitions first, then the lemmas, then the properties.
\<close>

section \<open>Definitions\<close>

text \<open>\<open>s.char_indices()\<close>, with each character as its UTF-8 length, from the byte index \<open>start\<close> on.\<close>

function char_lens :: "nat \<Rightarrow> string \<Rightarrow> (nat \<times> nat) list" where
  "char_lens start bs =
     (if bs = [] then []
      else case utf8_head bs of
             None \<Rightarrow> []
           | Some n \<Rightarrow> (start, n) # char_lens (start + n) (drop n bs))"
  by pat_completeness auto
termination
  by (relation "measure (\<lambda>(start, bs). length bs)") (auto dest: utf8_head_pos)

declare char_lens.simps [simp del]

text \<open>\<open>ch.len_utf16()\<close> of a character of \<open>n\<close> UTF-8 bytes: only a 4-byte one is a surrogate pair.\<close>

definition len_utf16 :: "nat \<Rightarrow> nat" where
  "len_utf16 n = (if n = 4 then 2 else 1)"

text \<open>\<open>OffsetTable\<close> is its breakpoints; the loop of \<open>build\<close> over the characters left.\<close>

fun build_from :: "int \<Rightarrow> (nat \<times> nat) list \<Rightarrow> (nat \<times> int) list" where
  "build_from divergence [] = []"
| "build_from divergence ((byte_start, n) # chars) =
     (if n \<noteq> len_utf16 n then
        (let divergence' = divergence + (int n - int (len_utf16 n))
         in (byte_start + n, divergence') # build_from divergence' chars)
      else build_from divergence chars)"

definition build :: "string \<Rightarrow> (nat \<times> int) list" where
  "build src = build_from 0 (char_lens 0 src)"

text \<open>
  \<open>binary_search_by\<close> on a list whose positions ascend strictly (\<open>build_sorted\<close> below): \<open>Inl\<close> the index
  of the equal position, \<open>Inr\<close> the insertion point.
\<close>

definition binary_search :: "(nat \<times> int) list \<Rightarrow> nat \<Rightarrow> nat + nat" where
  "binary_search bps off =
     (let k = length (takeWhile (\<lambda>(pos, _). pos < off) bps)
      in if k < length bps \<and> fst (bps ! k) = off then Inl k else Inr k)"

definition divergence_at :: "(nat \<times> int) list \<Rightarrow> nat \<Rightarrow> int" where
  "divergence_at bps byte_offset =
     (case binary_search bps byte_offset of
        Inl idx \<Rightarrow> snd (bps ! idx)
      | Inr idx \<Rightarrow> if idx = 0 then 0 else snd (bps ! (idx - 1)))"

text \<open>The cast back to \<open>usize\<close>.\<close>

definition byte_to_utf16 :: "(nat \<times> int) list \<Rightarrow> nat \<Rightarrow> nat" where
  "byte_to_utf16 bps byte_offset = nat (int byte_offset - divergence_at bps byte_offset)"

definition translate_point :: "(nat \<times> int) list \<Rightarrow> nat \<Rightarrow> nat \<Rightarrow> nat \<times> nat" where
  "translate_point bps byte_offset column_bytes =
     (let line_start = byte_offset - column_bytes;
          offset_u16 = byte_to_utf16 bps byte_offset;
          line_start_u16 = byte_to_utf16 bps line_start
      in (offset_u16, offset_u16 - line_start_u16))"

section \<open>Lemmas\<close>

text \<open>The UTF-16 length of a text, and the byte offsets that are character boundaries of it.\<close>

definition utf16_len :: "string \<Rightarrow> nat" where
  "utf16_len s = sum_list (map (\<lambda>(_, n). len_utf16 n) (char_lens 0 s))"

fun run_ok :: "nat \<Rightarrow> (nat \<times> nat) list \<Rightarrow> bool" where
  "run_ok start [] = True"
| "run_ok start ((s, n) # chars) = (s = start \<and> 1 \<le> n \<and> n \<le> 4 \<and> run_ok (start + n) chars)"

lemma utf8_head_le4: "utf8_head bs = Some n \<Longrightarrow> 1 \<le> n \<and> n \<le> 4"
  using utf8_head_cases by fastforce

lemma run_ok_char_lens: "run_ok start (char_lens start bs)"
proof (induction start bs rule: char_lens.induct)
  case (1 start bs)
  then show ?case
    by (subst char_lens.simps) (auto simp: utf8_head_le4 split: option.splits dest: utf8_head_le4)
qed

lemma build_from_gt: "run_ok start chars \<Longrightarrow> (p, d) \<in> set (build_from dv chars) \<Longrightarrow> start < p"
  by (induction dv chars arbitrary: start rule: build_from.induct)
     (fastforce simp: Let_def split: if_splits)+

lemma build_sorted: "run_ok start chars \<Longrightarrow> sorted_wrt (<) (map fst (build_from dv chars))"
proof (induction dv chars arbitrary: start rule: build_from.induct)
  case (2 dv s n chars)
  then have ok: "run_ok (start + n) chars" and s: "s = start" by auto
  show ?case
    using "2.IH" ok build_from_gt [OF ok] s by (fastforce simp: Let_def)
qed simp

text \<open>The divergence at an offset is that of the last breakpoint at or before it.\<close>

fun last_div :: "int \<Rightarrow> (nat \<times> int) list \<Rightarrow> nat \<Rightarrow> int" where
  "last_div d [] off = d"
| "last_div d ((p, d') # bps) off = (if p \<le> off then last_div d' bps off else d)"

lemma last_div_nth:
  assumes "sorted_wrt (<) (map fst bps)"
  shows "last_div d bps off =
     (let k = length (takeWhile (\<lambda>(pos, _). pos < off) bps)
      in if k < length bps \<and> fst (bps ! k) = off then snd (bps ! k)
         else if k = 0 then d else snd (bps ! (k - 1)))"
  using assms
proof (induction d bps off rule: last_div.induct)
  case (2 d p d' bps off)
  have rest: "last_div d' bps off = d'" if "p = off"
    using that "2.prems" by (cases bps) auto
  show ?case
    using "2.IH" "2.prems" rest
    by (cases "p < off") (auto simp: Let_def nth_Cons' split: if_splits)
qed simp

lemma divergence_last_div:
  "sorted_wrt (<) (map fst bps) \<Longrightarrow> divergence_at bps off = last_div 0 bps off"
  by (simp add: divergence_at_def binary_search_def last_div_nth Let_def)

text \<open>Walking the characters: at the boundary after some of them the divergence is their sum.\<close>

definition excess :: "(nat \<times> nat) list \<Rightarrow> int" where
  "excess chars = sum_list (map (\<lambda>(_, n). int n - int (len_utf16 n)) chars)"

definition span_bytes :: "(nat \<times> nat) list \<Rightarrow> nat" where
  "span_bytes chars = sum_list (map snd chars)"

lemma last_div_before:
  "run_ok start chars \<Longrightarrow> off \<le> start \<Longrightarrow> last_div d (build_from dv chars) off = d"
proof -
  assume "run_ok start chars" "off \<le> start"
  then have "\<forall>(p, _) \<in> set (build_from dv chars). off < p" using build_from_gt by fastforce
  then show ?thesis by (cases "build_from dv chars") auto
qed

lemma last_div_boundary:
  "run_ok start (cs1 @ cs2) \<Longrightarrow>
   last_div d (build_from d (cs1 @ cs2)) (start + span_bytes cs1) = d + excess cs1"
proof (induction cs1 arbitrary: start d)
  case Nil
  then show ?case by (simp add: last_div_before span_bytes_def excess_def)
next
  case (Cons c cs1)
  obtain s n where c: "c = (s, n)" by (cases c)
  with Cons.prems have ok: "run_ok (start + n) (cs1 @ cs2)" "s = start" by auto
  from Cons.IH [OF ok(1)] show ?case
    using ok(2) by (simp add: c span_bytes_def excess_def Let_def add.assoc)
qed

lemma utf8_valid_drop_head: "utf8_valid bs \<Longrightarrow> bs \<noteq> [] \<Longrightarrow> \<exists>n. utf8_head bs = Some n \<and> utf8_valid (drop n bs)"
  by (subst (asm) utf8_valid.simps) (auto split: option.splits)

lemma char_lens_shift: "char_lens (k + start) bs = map (\<lambda>(s, n). (k + s, n)) (char_lens start bs)"
proof (induction start bs rule: char_lens.induct)
  case (1 start bs)
  then show ?case
    by (subst (1 2) char_lens.simps) (auto simp: add.assoc split: option.splits)
qed

lemma char_lens_append:
  assumes "utf8_valid xs"
  shows "char_lens start (xs @ ys) = char_lens start xs @ char_lens (start + length xs) ys"
  using assms
proof (induction start xs rule: char_lens.induct)
  case (1 start xs)
  show ?case
  proof (cases "xs = []")
    case True
    then show ?thesis by (simp add: char_lens.simps [of start "[]"])
  next
    case False
    with "1.prems" obtain n where n: "utf8_head xs = Some n" "utf8_valid (drop n xs)"
      using utf8_valid_drop_head by blast
    note len = utf8_head_bytes(1) [OF n(1) False]
    have head: "utf8_head (xs @ ys) = Some n"
      by (rule utf8_head_cong [OF n(1)]) (use len in \<open>auto simp: utf8_byte_def nth_append\<close>)
    show ?thesis
      using "1.IH" [OF False n(1) n(2)] False len head n(1)
      by (simp add: char_lens.simps [of start "xs @ ys"] char_lens.simps [of start xs])
  qed
qed

lemma span_bytes_char_lens: "utf8_valid xs \<Longrightarrow> span_bytes (char_lens start xs) = length xs"
proof (induction start xs rule: char_lens.induct)
  case (1 start xs)
  show ?case
  proof (cases "xs = []")
    case True
    then show ?thesis by (simp add: char_lens.simps [of start "[]"] span_bytes_def)
  next
    case False
    with "1.prems" obtain n where n: "utf8_head xs = Some n" "utf8_valid (drop n xs)"
      using utf8_valid_drop_head by blast
    note len = utf8_head_bytes(1) [OF n(1) False]
    from "1.IH" [OF False n] show ?thesis
      using False n(1) len by (simp add: char_lens.simps [of start xs] span_bytes_def)
  qed
qed

lemma utf16_len_start: "sum_list (map (\<lambda>(_, n). len_utf16 n) (char_lens start xs)) = utf16_len xs"
  using char_lens_shift [of start 0 xs] by (simp add: utf16_len_def comp_def case_prod_unfold)

lemma excess_char_lens: "utf8_valid xs \<Longrightarrow> excess (char_lens start xs) = int (length xs) - int (utf16_len xs)"
proof -
  assume v: "utf8_valid xs"
  have "excess cs = int (span_bytes cs) - int (sum_list (map (\<lambda>(_, n). len_utf16 n) cs))" for cs
    by (induction cs) (auto simp: excess_def span_bytes_def)
  with span_bytes_char_lens [OF v] show ?thesis by (simp add: utf16_len_start)
qed

lemma byte_to_utf16_prefix:
  assumes "utf8_valid xs"
  shows "byte_to_utf16 (build (xs @ ys)) (length xs) = utf16_len xs"
    and "divergence_at (build (xs @ ys)) (length xs) = int (length xs) - int (utf16_len xs)"
proof -
  let ?c1 = "char_lens 0 xs" and ?c2 = "char_lens (length xs) ys"
  have cs: "char_lens 0 (xs @ ys) = ?c1 @ ?c2" using char_lens_append [OF assms, of 0 ys] by simp
  have ok: "run_ok 0 (?c1 @ ?c2)" using run_ok_char_lens [of 0 "xs @ ys"] cs by simp
  have "divergence_at (build (xs @ ys)) (length xs) = excess ?c1"
    using last_div_boundary [OF ok, of 0] build_sorted [OF ok, of 0] span_bytes_char_lens [OF assms, of 0]
    by (simp add: build_def cs divergence_last_div)
  with excess_char_lens [OF assms, of 0]
  show "divergence_at (build (xs @ ys)) (length xs) = int (length xs) - int (utf16_len xs)" by simp
  then show "byte_to_utf16 (build (xs @ ys)) (length xs) = utf16_len xs"
    by (simp add: byte_to_utf16_def)
qed

section \<open>Properties\<close>

text \<open>
  C30. At every character boundary of a text the translated offset is the number of UTF-16 code
  units before it, and the value the code casts to \<open>usize\<close> is never negative; so a point on a line
  gets the code units before it as its offset and those of the line's own prefix as its column,
  whatever multi-byte characters earlier lines hold.
\<close>

theorem offsets_are_utf16_lengths:
  assumes "utf8_valid before" "utf8_valid column"
  shows "byte_to_utf16 (build (before @ rest)) (length before) = utf16_len before
    \<and> 0 \<le> int (length before) - divergence_at (build (before @ rest)) (length before)
    \<and> translate_point (build (before @ column @ rest)) (length before + length column) (length column)
      = (utf16_len before + utf16_len column, utf16_len column)"
proof -
  have whole: "utf8_valid (before @ column)" using assms by (rule utf8_valid_append)
  have "utf16_len (before @ column) = utf16_len before + utf16_len column"
    using char_lens_append [OF assms(1), of 0 column] utf16_len_start [of "length before" column]
    by (simp add: utf16_len_def)
  with byte_to_utf16_prefix [OF assms(1)] byte_to_utf16_prefix(1) [OF whole, of rest] show ?thesis
    by (simp add: translate_point_def Let_def)
qed

theorem offsets_are_utf16_lengths_witness:
  "translate_point (build ([CHR 0xC3, CHR 0xA9, CHR 0x0A] @ ''class'' @ []))
     (length [CHR 0xC3, CHR 0xA9, CHR 0x0A] + length ''class'') (length ''class'')
   = (utf16_len [CHR 0xC3, CHR 0xA9, CHR 0x0A] + utf16_len ''class'', utf16_len ''class'')"
proof -
  have head: "utf8_head [CHR 0xC3, CHR 0xA9, CHR 0x0A] = Some 2"
    by (simp add: utf8_head_def utf8_byte_def byte_def)
  then have b: "utf8_valid [CHR 0xC3, CHR 0xA9, CHR 0x0A]"
    by (simp add: utf8_valid_step utf8_valid_ascii ascii_defs numeral_2_eq_2)
  have c: "utf8_valid ''class''" by (rule utf8_valid_ascii) (simp add: ascii_defs)
  from offsets_are_utf16_lengths [OF b c, of "[]"] show ?thesis by blast
qed

end
