(* ===== verification/Project.thy ===== *)
theory Project
  imports Prelude
begin

text \<open>
  \<open>src/project.rs\<close>: the model of a repository's \<open>.csproj\<close> projects. The records are \<open>Unit\<close>
  and \<open>ProjectModel\<close>, in the fields' order; a unit's index is its position in the list sorted
  by \<open>id\<close>. The second half is the hand-written XML scan that reads references and test flags
  out of a project file. Walking directories and reading files are not modelled:
  \<open>build_unit\<close> takes the text of the file and the map of the \<open>Directory.Build.props\<close> texts.
  A path is the list of its components.
\<close>

section \<open>Units and the project model\<close>

record proj_unit =
  u_id :: string
  u_name :: string
  u_dir :: string
  u_refs :: "string list"
  u_test :: bool

record project_model =
  pm_units :: "proj_unit list"
  pm_dir_to_unit :: "string \<Rightarrow> nat option"
  pm_closure :: "nat set list"

text \<open>The \<open>HashMap\<close> from id to index; a repeated id keeps the last index, as \<open>collect\<close> does.\<close>

definition id_to_index :: "proj_unit list \<Rightarrow> string \<Rightarrow> nat option" where
  "id_to_index us = map_of (rev (zip (map u_id us) [0..<length us]))"

text \<open>\<open>dir_counts\<close> and the loop that keeps a directory owned by exactly one unit.\<close>

definition dir_count :: "proj_unit list \<Rightarrow> string \<Rightarrow> nat" where
  "dir_count us d = length (filter (\<lambda>u. u_dir u = d) us)"

definition dir_to_unit :: "proj_unit list \<Rightarrow> string \<Rightarrow> nat option" where
  "dir_to_unit us =
     fold (\<lambda>(i, u) m. if dir_count us (u_dir u) = 1 then m(u_dir u \<mapsto> i) else m)
       (zip [0..<length us] us) (\<lambda>_. None)"

text \<open>The body of \<open>for r in &units[cur].refs\<close>: state is \<open>(seen, queue, result)\<close>.\<close>

type_synonym bfs_state = "nat set \<times> nat list \<times> nat set"

definition visit_ref :: "(string \<Rightarrow> nat option) \<Rightarrow> string \<Rightarrow> bfs_state \<Rightarrow> bfs_state" where
  "visit_ref ids r st =
     (case st of (seen, queue, result) \<Rightarrow>
       (case ids r of
          None \<Rightarrow> st
        | Some idx \<Rightarrow>
            if idx \<in> seen then st else (insert idx seen, queue @ [idx], insert idx result)))"

text \<open>
  The \<open>while let Some(cur) = queue.pop_front()\<close> loop. An index past the end would panic; the
  lemma \<open>closure_indices\<close> shows the loop never holds one.
\<close>

definition ref_targets :: "proj_unit list \<Rightarrow> (string \<Rightarrow> nat option) \<Rightarrow> nat set" where
  "ref_targets us ids = {i. \<exists>u \<in> set us. \<exists>r \<in> set (u_refs u). ids r = Some i}"

lemma finite_ref_targets [simp]: "finite (ref_targets us ids)"
proof -
  have "ref_targets us ids \<subseteq> (\<Union>u \<in> set us. (\<lambda>r. the (ids r)) ` set (u_refs u))"
    by (auto simp: ref_targets_def image_iff) (metis option.sel)
  then show ?thesis by (rule finite_subset) auto
qed

lemma visit_refs_measure:
  assumes "\<forall>r \<in> set rs. \<forall>i. ids r = Some i \<longrightarrow> i \<in> T" "finite T"
    "fold (visit_ref ids) rs (seen, queue, result) = (seen', queue', result')"
  shows "card (T - seen') < card (T - seen) \<or> (seen' = seen \<and> queue' = queue \<and> result' = result)"
  using assms
proof (induction rs arbitrary: seen queue result)
  case (Cons r rs)
  obtain s1 q1 r1 where step: "visit_ref ids r (seen, queue, result) = (s1, q1, r1)"
    by (cases "visit_ref ids r (seen, queue, result)") auto
  with Cons have IH: "card (T - seen') < card (T - s1) \<or> seen' = s1 \<and> queue' = q1 \<and> result' = r1"
    by simp
  show ?case
  proof (cases "\<exists>i. ids r = Some i \<and> i \<notin> seen")
    case True
    then obtain i where i: "ids r = Some i" "i \<notin> seen" "i \<in> T" using Cons.prems by auto
    with step have "s1 = insert i seen" by (simp add: visit_ref_def)
    with i Cons.prems(2) have "card (T - s1) < card (T - seen)"
      by (metis Diff_iff Diff_insert card_Diff1_less finite_Diff)
    with IH show ?thesis by auto
  next
    case False
    with step have "s1 = seen" "q1 = queue" "r1 = result"
      by (auto simp: visit_ref_def split: option.splits if_splits)
    with IH show ?thesis by simp
  qed
qed simp

function closure_loop :: "proj_unit list \<Rightarrow> (string \<Rightarrow> nat option) \<Rightarrow> bfs_state \<Rightarrow> nat set" where
  "closure_loop us ids (seen, queue, result) =
     (case queue of
        [] \<Rightarrow> result
      | cur # rest \<Rightarrow>
          (case get us cur of
             None \<Rightarrow> result
           | Some u \<Rightarrow> closure_loop us ids (fold (visit_ref ids) (u_refs u) (seen, rest, result))))"
  by pat_completeness auto
termination
proof (relation "measures [\<lambda>(us, ids, seen, queue, result). card (ref_targets us ids - seen),
                           \<lambda>(us, ids, seen, queue, result). length queue]", simp)
  fix us :: "proj_unit list" and ids and seen :: "nat set" and queue cur rest and result :: "nat set" and u :: proj_unit
  assume q: "queue = cur # rest" and u: "get us cur = Some u"
  obtain s' q' r' where st: "fold (visit_ref ids) (u_refs u) (seen, rest, result) = (s', q', r')"
    by (cases "fold (visit_ref ids) (u_refs u) (seen, rest, result)") auto
  have "u \<in> set us" using u by (auto simp: get_Some_iff)
  then have "\<forall>r \<in> set (u_refs u). \<forall>i. ids r = Some i \<longrightarrow> i \<in> ref_targets us ids"
    by (auto simp: ref_targets_def)
  from visit_refs_measure [OF this finite_ref_targets st] q
  show "((us, ids, fold (visit_ref ids) (u_refs u) (seen, rest, result)), us, ids, seen, queue, result)
    \<in> measures [\<lambda>(us, ids, seen, queue, result). card (ref_targets us ids - seen),
                 \<lambda>(us, ids, seen, queue, result). length queue]"
    unfolding st by auto
qed

declare closure_loop.simps [simp del]

definition build_closure :: "proj_unit list \<Rightarrow> (string \<Rightarrow> nat option) \<Rightarrow> nat set list" where
  "build_closure us ids = map (\<lambda>i. closure_loop us ids ({i}, [i], {})) [0..<length us]"

definition from_units :: "proj_unit list \<Rightarrow> project_model" where
  "from_units units =
     (let us = sort_key u_id units
      in \<lparr>pm_units = us, pm_dir_to_unit = dir_to_unit us, pm_closure = build_closure us (id_to_index us)\<rparr>)"

text \<open>\<open>&d[..i]\<close> for the last slash, the empty string when there is none.\<close>

definition parent_dir :: "string \<Rightarrow> string" where
  "parent_dir d = (case str_rfind d CHR ''/'' of Some i \<Rightarrow> take i d | None \<Rightarrow> [])"

lemma parent_dir_shorter: "d \<noteq> [] \<Longrightarrow> length (parent_dir d) < length d"
  by (auto simp: parent_dir_def split: option.splits dest: str_rfind_Some)

function unit_of_dir :: "(string \<Rightarrow> nat option) \<Rightarrow> string \<Rightarrow> nat option" where
  "unit_of_dir m dir =
     (case m dir of
        Some idx \<Rightarrow> Some idx
      | None \<Rightarrow> if dir = [] then None else unit_of_dir m (parent_dir dir))"
  by pat_completeness auto
termination
  by (relation "measure (\<lambda>(m, d). length d)") (auto simp: parent_dir_shorter)

declare unit_of_dir.simps [simp del]

definition unit_of_file :: "project_model \<Rightarrow> string \<Rightarrow> nat option" where
  "unit_of_file m rel = unit_of_dir (pm_dir_to_unit m) (parent_dir rel)"

definition reachable :: "project_model \<Rightarrow> nat \<Rightarrow> nat \<Rightarrow> bool" where
  "reachable m i j \<longleftrightarrow>
     i = j \<or> (case get (pm_closure m) i of Some c \<Rightarrow> j \<in> c | None \<Rightarrow> False)"

section \<open>The persisted rows\<close>

text \<open>\<open>graph::GraphUnit\<close>, a unit without its directory.\<close>

record graph_unit =
  gu_id :: string
  gu_name :: string
  gu_refs :: "string list"
  gu_test :: bool

definition graph_units :: "project_model \<Rightarrow> graph_unit list" where
  "graph_units m =
     map (\<lambda>u. \<lparr>gu_id = u_id u, gu_name = u_name u, gu_refs = u_refs u, gu_test = u_test u\<rparr>) (pm_units m)"

definition units_from_graph :: "graph_unit list \<Rightarrow> proj_unit list" where
  "units_from_graph rows =
     map (\<lambda>r. \<lparr>u_id = gu_id r, u_name = gu_name r, u_dir = parent_dir (gu_id r),
               u_refs = gu_refs r, u_test = gu_test r\<rparr>) rows"

text \<open>
  \<open>sidecar_differs\<close> on the bytes read from the sidecar (\<open>None\<close> when unreadable);
  \<open>to_vec\<close> stands for \<open>serde_json::to_vec\<close>, \<open>None\<close> when it fails.
\<close>

definition sidecar_differs ::
  "(graph_unit list \<Rightarrow> string option) \<Rightarrow> string option \<Rightarrow> project_model option \<Rightarrow> bool" where
  "sidecar_differs to_vec existing model =
     (case (existing, model) of
        (None, None) \<Rightarrow> False
      | (None, Some _) \<Rightarrow> True
      | (Some _, None) \<Rightarrow> True
      | (Some bytes, Some m) \<Rightarrow>
          (case to_vec (graph_units m) of Some fresh \<Rightarrow> bytes \<noteq> fresh | None \<Rightarrow> True))"

section \<open>Reference paths\<close>

text \<open>One segment of the raw path pushed on the stack, whose top is the list's last element.\<close>

definition push_seg :: "string \<Rightarrow> string list \<Rightarrow> string list" where
  "push_seg seg stack =
     (if seg = [] \<or> seg = ''.'' then stack
      else if seg = ''..''
        then (if stack = [] \<or> last stack = ''..'' then stack @ [''..''] else butlast stack)
      else stack @ [seg])"

definition resolve_ref :: "string \<Rightarrow> string \<Rightarrow> string" where
  "resolve_ref dir raw =
     str_join ''/'' (fold push_seg (str_split CHR ''/'' raw)
       (if dir = [] then [] else str_split CHR ''/'' dir))"

section \<open>The XML scan\<close>

text \<open>\<open>csproj\<close> comments: \<open>strip_xml_comments\<close> keeps what lies outside them.\<close>

function strip_xml_comments :: "string \<Rightarrow> string" where
  "strip_xml_comments rest =
     (case str_find rest ''<!--'' of
        None \<Rightarrow> rest
      | Some start \<Rightarrow>
          take start rest @
          (case str_find (drop start rest) ''-->'' of
             None \<Rightarrow> []
           | Some end_rel \<Rightarrow> strip_xml_comments (drop (start + end_rel + 3) rest)))"
  by pat_completeness auto
termination
  by (relation "measure length") (auto dest!: str_find_le)

declare strip_xml_comments.simps [simp del]

text \<open>\<open>TagInfo\<close>.\<close>

record tag_info =
  ti_name :: string
  ti_is_closing :: bool
  ti_self_closing :: bool
  ti_attrs :: string

definition dquote :: char where
  "dquote = CHR 0x22"

definition squote :: char where
  "squote = CHR 0x27"

text \<open>The search for the closing angle bracket, tracking the open quote.\<close>

fun tag_end :: "char option \<Rightarrow> string \<Rightarrow> nat option" where
  "tag_end quote [] = None"
| "tag_end (Some q) (c # cs) = map_option Suc (tag_end (if c = q then None else Some q) cs)"
| "tag_end None (c # cs) =
     (if c = dquote \<or> c = squote then map_option Suc (tag_end (Some c) cs)
      else if c = CHR ''>'' then Some 0
      else map_option Suc (tag_end None cs))"

lemma tag_end_less: "tag_end q cs = Some i \<Longrightarrow> i < length cs"
  by (induction q cs arbitrary: i rule: tag_end.induct) (auto split: if_splits)

text \<open>What \<open>next_tag\<close> makes of the text between the brackets.\<close>

definition parse_tag :: "string \<Rightarrow> tag_info" where
  "parse_tag raw =
     (let content = trim raw
      in case strip_prefix content ''/'' of
           Some name \<Rightarrow> \<lparr>ti_name = trim name, ti_is_closing = True, ti_self_closing = False, ti_attrs = []\<rparr>
         | None \<Rightarrow>
             let self_closing = ends_with content ''/'';
                 body = (if self_closing then trim_end (take (length content - 1) content) else content);
                 (name, attrs) = (case find_ws body of
                     Some i2 \<Rightarrow> (take i2 body, trim (drop i2 body))
                   | None \<Rightarrow> (body, []))
             in \<lparr>ti_name = name, ti_is_closing = False, ti_self_closing = self_closing, ti_attrs = attrs\<rparr>)"

text \<open>\<open>next_tag\<close>: the gap, the tag and the new position.\<close>

definition next_tag :: "string \<Rightarrow> nat \<Rightarrow> (string \<times> tag_info \<times> nat) option" where
  "next_tag txt pos =
     (case str_find_char (drop pos txt) CHR ''<'' of
        None \<Rightarrow> None
      | Some rel \<Rightarrow>
          let lt = rel + pos; gap = slice pos lt txt
          in case tag_end None (drop (lt + 1) txt) of
               None \<Rightarrow> None
             | Some k \<Rightarrow>
                 let gt = lt + 1 + k
                 in Some (gap, parse_tag (slice (lt + 1) gt txt), gt + 1))"

lemma next_tag_pos: "next_tag txt pos = Some (gap, tag, pos') \<Longrightarrow> pos < pos' \<and> pos' \<le> length txt"
  by (auto simp: next_tag_def Let_def split: option.splits dest!: tag_end_less)

definition is_ascii_whitespace :: "char \<Rightarrow> bool" where
  "is_ascii_whitespace c \<longleftrightarrow> byte c \<in> {9, 10, 12, 13, 32}"

definition eq_ignore_ascii_case :: "string \<Rightarrow> string \<Rightarrow> bool" where
  "eq_ignore_ascii_case a b \<longleftrightarrow> map ascii_lower a = map ascii_lower b"

text \<open>One candidate of \<open>find_attr\<close>: the attribute name found at \<open>abs\<close> (here \<open>k\<close>).\<close>

definition attr_value :: "string \<Rightarrow> string \<Rightarrow> nat \<Rightarrow> string option" where
  "attr_value attrs name k =
     (if k = 0 \<or> is_ascii_whitespace (attrs ! (k - 1)) then
        (case strip_prefix (trim_start (drop (k + length name) attrs)) ''='' of
           None \<Rightarrow> None
         | Some value_part \<Rightarrow>
             (case trim_start value_part of
                [] \<Rightarrow> None
              | quote # value_rest \<Rightarrow>
                  if quote = dquote \<or> quote = squote
                  then map_option (\<lambda>e. take e value_rest) (str_find_char value_rest quote)
                  else None))
      else None)"

text \<open>
  The search loop of \<open>find_attr\<close>. With an empty name the source's loop would not advance;
  both calls pass \<open>Include\<close>.
\<close>

function find_attr_from :: "string \<Rightarrow> string \<Rightarrow> nat \<Rightarrow> string option" where
  "find_attr_from attrs name i =
     (if i < length attrs \<and> name \<noteq> [] then
        (case str_find (drop i attrs) name of
           None \<Rightarrow> None
         | Some found \<Rightarrow>
             (case attr_value attrs name (i + found) of
                Some v \<Rightarrow> Some v
              | None \<Rightarrow> find_attr_from attrs name (i + found + length name)))
      else None)"
  by pat_completeness auto
termination
  by (relation "measure (\<lambda>(attrs, name, i). length attrs - i)")
     (auto dest!: str_find_le simp flip: length_greater_0_conv)

declare find_attr_from.simps [simp del]

definition find_attr :: "string \<Rightarrow> string \<Rightarrow> string option" where
  "find_attr attrs name = find_attr_from attrs name 0"

record csproj_facts =
  cf_project_refs :: "string list"
  cf_has_test_sdk :: bool
  cf_is_test_project :: "bool option"

text \<open>The awaited closing tag: the gap before it is the element's text.\<close>

definition close_element :: "string option \<Rightarrow> string \<Rightarrow> tag_info \<Rightarrow> csproj_facts \<Rightarrow> csproj_facts" where
  "close_element awaiting gap tag facts =
     (case awaiting of
        None \<Rightarrow> facts
      | Some open_name \<Rightarrow>
          if ti_is_closing tag \<and> ti_name tag = open_name then
            (let v = trim gap
             in if eq_ignore_ascii_case v ''true'' then facts\<lparr>cf_is_test_project := Some True\<rparr>
                else if eq_ignore_ascii_case v ''false'' then facts\<lparr>cf_is_test_project := Some False\<rparr>
                else facts)
          else facts)"

definition open_element :: "tag_info \<Rightarrow> csproj_facts \<Rightarrow> csproj_facts \<times> string option" where
  "open_element tag facts =
     (if ti_name tag = ''ProjectReference'' then
        (case find_attr (ti_attrs tag) ''Include'' of
           Some inc \<Rightarrow>
             (facts\<lparr>cf_project_refs := cf_project_refs facts @ [str_replace_char (CHR 0x5C) CHR ''/'' inc]\<rparr>, None)
         | None \<Rightarrow> (facts, None))
      else if ti_name tag = ''PackageReference'' then
        (if find_attr (ti_attrs tag) ''Include'' = Some ''Microsoft.NET.Test.Sdk''
         then (facts\<lparr>cf_has_test_sdk := True\<rparr>, None) else (facts, None))
      else if ti_name tag = ''IsTestProject'' \<and> \<not> ti_self_closing tag then (facts, Some ''IsTestProject'')
      else (facts, None))"

function scan_tags :: "string \<Rightarrow> nat \<Rightarrow> string option \<Rightarrow> csproj_facts \<Rightarrow> csproj_facts" where
  "scan_tags clean pos awaiting facts =
     (case next_tag clean pos of
        None \<Rightarrow> facts
      | Some (gap, tag, pos') \<Rightarrow>
          let facts' = close_element awaiting gap tag facts
          in if ti_is_closing tag then scan_tags clean pos' None facts'
             else (case open_element tag facts' of
                     (facts'', awaiting') \<Rightarrow> scan_tags clean pos' awaiting' facts''))"
  by pat_completeness auto
termination
  by (relation "measure (\<lambda>(clean, pos, awaiting, facts). length clean - pos)")
     (auto dest!: next_tag_pos)

declare scan_tags.simps [simp del]

definition scan_csproj :: "string \<Rightarrow> csproj_facts" where
  "scan_csproj txt =
     scan_tags (strip_xml_comments txt) 0 None
       \<lparr>cf_project_refs = [], cf_has_test_sdk = False, cf_is_test_project = None\<rparr>"

definition scan_props :: "string \<Rightarrow> bool option" where
  "scan_props txt = cf_is_test_project (scan_csproj txt)"

section \<open>Building a unit\<close>

text \<open>\<open>nearest_props_is_test_project\<close>, upward from the project's own directory.\<close>

fun path_parent :: "string list \<Rightarrow> string list option" where
  "path_parent [] = None"
| "path_parent p = Some (butlast p)"

lemma path_parent_length: "path_parent p = Some q \<Longrightarrow> length q < length p"
  by (cases p) auto

function nearest_props_is_test_project ::
  "string list \<Rightarrow> (string list \<Rightarrow> string option) \<Rightarrow> string list \<Rightarrow> bool option" where
  "nearest_props_is_test_project root props cur =
     (case props cur of
        Some txt \<Rightarrow> scan_props txt
      | None \<Rightarrow>
          if cur = root then None
          else (case path_parent cur of
                  None \<Rightarrow> None
                | Some up \<Rightarrow> nearest_props_is_test_project root props up))"
  by pat_completeness auto
termination
  by (relation "measure (\<lambda>(root, props, cur). length cur)") (auto simp: path_parent_length)

declare nearest_props_is_test_project.simps [simp del]

text \<open>
  \<open>build_unit\<close>, given what the file system answers: the repository-relative id, directory and
  name, the directory's absolute path and the file's text.
\<close>

definition unit_test_flag ::
  "csproj_facts \<Rightarrow> bool option \<Rightarrow> string \<Rightarrow> bool" where
  "unit_test_flag facts nearest name =
     (case cf_is_test_project facts of
        Some b \<Rightarrow> b
      | None \<Rightarrow>
          (case nearest of
             Some b \<Rightarrow> b
           | None \<Rightarrow> cf_has_test_sdk facts \<or> ends_with name ''.Tests'' \<or> ends_with name ''.Test''))"

definition build_unit ::
  "string list \<Rightarrow> (string list \<Rightarrow> string option) \<Rightarrow> string list \<Rightarrow>
   string \<Rightarrow> string \<Rightarrow> string \<Rightarrow> string \<Rightarrow> proj_unit" where
  "build_unit root props dir_abs ident name dir txt =
     (let facts = scan_csproj txt
      in \<lparr>u_id = ident, u_name = name, u_dir = dir,
          u_refs = map (resolve_ref dir) (cf_project_refs facts),
          u_test = unit_test_flag facts (nearest_props_is_test_project root props dir_abs) name\<rparr>)"

section \<open>The closure is reachability\<close>

text \<open>One reference from a unit to another, by index.\<close>

definition ref_edges :: "proj_unit list \<Rightarrow> (nat \<times> nat) set" where
  "ref_edges us =
     {(i, j). \<exists>u r. get us i = Some u \<and> r \<in> set (u_refs u) \<and> id_to_index us r = Some j}"

definition new_targets :: "(string \<Rightarrow> nat option) \<Rightarrow> string list \<Rightarrow> nat set" where
  "new_targets ids rs = {i. \<exists>r \<in> set rs. ids r = Some i}"

lemma id_to_index_less: "id_to_index us r = Some i \<Longrightarrow> i < length us \<and> u_id (us ! i) = r"
  by (auto simp: id_to_index_def in_set_zip dest!: map_of_SomeD)

lemma visit_ref_cases:
  "ids r = None \<Longrightarrow> visit_ref ids r (seen, queue, result) = (seen, queue, result)"
  "ids r = Some i \<Longrightarrow> i \<in> seen \<Longrightarrow> visit_ref ids r (seen, queue, result) = (seen, queue, result)"
  "ids r = Some i \<Longrightarrow> i \<notin> seen \<Longrightarrow>
   visit_ref ids r (seen, queue, result) = (insert i seen, queue @ [i], insert i result)"
  by (simp_all add: visit_ref_def)

lemma visit_refs_result:
  "fold (visit_ref ids) rs (seen, queue, result) = (seen', queue', result') \<Longrightarrow>
   seen' = seen \<union> new_targets ids rs \<and> result' = result \<union> (new_targets ids rs - seen)
   \<and> set queue' = set queue \<union> (new_targets ids rs - seen)"
proof (induction rs arbitrary: seen queue result)
  case (Cons r rs)
  show ?case
  proof (cases "ids r")
    case None
    with Cons.prems have "fold (visit_ref ids) rs (seen, queue, result) = (seen', queue', result')"
      by (simp add: visit_ref_cases)
    from Cons.IH [OF this] None show ?thesis by (simp add: new_targets_def)
  next
    case (Some i)
    have nt: "new_targets ids (r # rs) = insert i (new_targets ids rs)"
      using Some by (auto simp: new_targets_def)
    show ?thesis
    proof (cases "i \<in> seen")
      case True
      with Some Cons.prems have "fold (visit_ref ids) rs (seen, queue, result) = (seen', queue', result')"
        by (simp add: visit_ref_cases)
      from Cons.IH [OF this] True nt show ?thesis by auto
    next
      case False
      with Some Cons.prems
      have "fold (visit_ref ids) rs (insert i seen, queue @ [i], insert i result) = (seen', queue', result')"
        by (simp add: visit_ref_cases)
      from Cons.IH [OF this] False nt show ?thesis by auto
    qed
  qed
qed (simp add: new_targets_def)

text \<open>What the loop keeps: the seen units are reached, and only the queued ones are unexpanded.\<close>

definition bfs_inv :: "proj_unit list \<Rightarrow> nat \<Rightarrow> bfs_state \<Rightarrow> bool" where
  "bfs_inv us i0 st \<longleftrightarrow>
     (case st of (seen, queue, result) \<Rightarrow>
        i0 \<in> seen \<and> result = seen - {i0} \<and> seen \<subseteq> (ref_edges us)\<^sup>* `` {i0}
        \<and> set queue \<subseteq> seen \<and> (\<forall>i \<in> seen. i < length us)
        \<and> (\<forall>i \<in> seen - set queue. ref_edges us `` {i} \<subseteq> seen))"

lemma ref_edges_targets:
  "get us i = Some u \<Longrightarrow> ref_edges us `` {i} = new_targets (id_to_index us) (u_refs u)"
  by (auto simp: ref_edges_def new_targets_def)

lemma bfs_inv_step:
  assumes inv: "bfs_inv us i0 (seen, cur # rest, result)" and u: "get us cur = Some u"
  shows "bfs_inv us i0 (fold (visit_ref (id_to_index us)) (u_refs u) (seen, rest, result))"
proof -
  obtain s' q' r' where st:
    "fold (visit_ref (id_to_index us)) (u_refs u) (seen, rest, result) = (s', q', r')"
    by (cases "fold (visit_ref (id_to_index us)) (u_refs u) (seen, rest, result)") auto
  define new where "new = new_targets (id_to_index us) (u_refs u)"
  have eq: "s' = seen \<union> new" "r' = result \<union> (new - seen)" "set q' = set rest \<union> (new - seen)"
    using visit_refs_result [OF st] by (auto simp: new_def)
  have edges: "ref_edges us `` {cur} = new"
    using ref_edges_targets [OF u] by (simp add: new_def)
  have cur: "cur \<in> (ref_edges us)\<^sup>* `` {i0}" using inv by (auto simp: bfs_inv_def)
  have "new \<subseteq> (ref_edges us)\<^sup>* `` {i0}"
  proof
    fix j assume "j \<in> new"
    with edges have "(cur, j) \<in> ref_edges us" by auto
    with cur show "j \<in> (ref_edges us)\<^sup>* `` {i0}" by (auto intro: rtrancl_into_rtrancl)
  qed
  moreover have "\<forall>i \<in> new. i < length us"
    by (auto simp: new_def new_targets_def dest: id_to_index_less)
  moreover have "ref_edges us `` {i} \<subseteq> s'" if "i \<in> s' - set q'" for i
    using that inv edges by (cases "i = cur") (auto simp: eq bfs_inv_def)
  ultimately show ?thesis
    using inv unfolding st by (auto simp: bfs_inv_def eq)
qed

text \<open>Every index the loop takes from the queue is the position of a unit.\<close>

lemma closure_indices: "bfs_inv us i0 (seen, cur # rest, result) \<Longrightarrow> get us cur \<noteq> None"
  by (auto simp: bfs_inv_def get_def)

lemma closure_loop_reach:
  assumes "bfs_inv us i0 (seen, queue, result)"
  shows "closure_loop us (id_to_index us) (seen, queue, result) = (ref_edges us)\<^sup>* `` {i0} - {i0}"
  using assms
proof (induction us "id_to_index us" "(seen, queue, result)" arbitrary: seen queue result
      rule: closure_loop.induct)
  case (1 us seen queue result)
  show ?case
  proof (cases queue)
    case Nil
    have "j \<in> seen" if "(i0, j) \<in> (ref_edges us)\<^sup>*" for j
      using that
    proof (induction rule: rtrancl_induct)
      case base
      with "1.prems" show ?case by (auto simp: bfs_inv_def)
    next
      case (step j k)
      with "1.prems" Nil show ?case by (auto simp: bfs_inv_def)
    qed
    with "1.prems" Nil show ?thesis
      by (subst closure_loop.simps) (auto simp: bfs_inv_def)
  next
    case (Cons cur rest)
    then obtain u where u: "get us cur = Some u"
      using closure_indices "1.prems" by blast
    obtain s' q' r' where st:
      "fold (visit_ref (id_to_index us)) (u_refs u) (seen, rest, result) = (s', q', r')"
      by (cases "fold (visit_ref (id_to_index us)) (u_refs u) (seen, rest, result)") auto
    from bfs_inv_step [OF "1.prems" [unfolded Cons] u] "1.hyps" [OF Cons u] Cons u st
    show ?thesis by (subst closure_loop.simps) simp
  qed
qed

lemma ref_edges_range: "(i, j) \<in> ref_edges us \<Longrightarrow> i < length us \<and> j < length us"
  by (auto simp: ref_edges_def get_Some_iff dest: id_to_index_less)

lemma rtrancl_out_of_range: "(i, j) \<in> (ref_edges us)\<^sup>* \<Longrightarrow> \<not> i < length us \<Longrightarrow> i = j"
  by (induction rule: rtrancl_induct) (auto dest: ref_edges_range)

text \<open>
  A project reaches another exactly when a chain of direct references leads there: the
  precomputed closure of \<open>from_units\<close> is the reflexive transitive closure of the reference
  edges, cycles and dangling references included.
\<close>

theorem reachable_is_reference_chain:
  "reachable (from_units units) i j \<longleftrightarrow> (i, j) \<in> (ref_edges (pm_units (from_units units)))\<^sup>*"
proof -
  define us where "us = sort_key u_id units"
  have pm: "pm_units (from_units units) = us"
    "pm_closure (from_units units) = build_closure us (id_to_index us)"
    by (simp_all add: from_units_def us_def Let_def)
  show ?thesis
  proof (cases "i < length us")
    case True
    then have inv: "bfs_inv us i ({i}, [i], {})" by (auto simp: bfs_inv_def)
    from True have "get (pm_closure (from_units units)) i = Some ((ref_edges us)\<^sup>* `` {i} - {i})"
      by (simp add: pm build_closure_def get_def closure_loop_reach [OF inv])
    then show ?thesis by (auto simp: reachable_def pm)
  next
    case False
    then have "get (pm_closure (from_units units)) i = None"
      by (simp add: pm build_closure_def get_def)
    with False show ?thesis by (auto simp: reachable_def pm dest: rtrancl_out_of_range)
  qed
qed

section \<open>The unit of a file\<close>

text \<open>The directories above a file, nearest first, the repository root last.\<close>

definition dirs_above :: "string \<Rightarrow> string list" where
  "dirs_above rel =
     (let parts = butlast (str_split CHR ''/'' rel)
      in rev (map (\<lambda>k. str_join ''/'' (take k parts)) [0..<Suc (length parts)]))"

definition sole_unit :: "proj_unit list \<Rightarrow> string \<Rightarrow> nat option" where
  "sole_unit us d =
     (case filter (\<lambda>i. u_dir (us ! i) = d) [0..<length us] of [i] \<Rightarrow> Some i | _ \<Rightarrow> None)"

lemma parent_dir_split: "parent_dir d = str_join ''/'' (butlast (str_split CHR ''/'' d))"
proof (cases "str_rfind d CHR ''/''")
  case None
  moreover from this have "CHR ''/'' \<notin> set d" by (simp add: str_rfind_None)
  ultimately show ?thesis by (simp add: parent_dir_def split_no_sep)
next
  case (Some i)
  then have i: "i < length d" "d ! i = CHR ''/''" "CHR ''/'' \<notin> set (drop (Suc i) d)"
    using str_rfind_Some by blast+
  then have d: "d = take i d @ CHR ''/'' # drop (Suc i) d"
    by (metis id_take_nth_drop)
  have "str_split CHR ''/'' (a @ CHR ''/'' # b) = str_split CHR ''/'' a @ str_split CHR ''/'' b" for a b
    by (induction a) (auto split: list.splits)
  with i(3) have "str_split CHR ''/'' d = str_split CHR ''/'' (take i d) @ [drop (Suc i) d]"
    by (subst d) (simp add: split_no_sep)
  then have "butlast (str_split CHR ''/'' d) = str_split CHR ''/'' (take i d)" by simp
  with Some show ?thesis by (simp add: parent_dir_def join_split)
qed

definition updirs :: "string list \<Rightarrow> string list" where
  "updirs ps = rev (map (\<lambda>k. str_join ''/'' (take k ps)) [0..<Suc (length ps)])"

lemma updirs_simps [simp]:
  "updirs [] = [[]]"
  "updirs (ps @ [p]) = str_join ''/'' (ps @ [p]) # updirs ps"
proof -
  show "updirs [] = [[]]" by (simp add: updirs_def)
  have "map (\<lambda>k. str_join ''/'' (take k (ps @ [p]))) [0..<Suc (length ps)]
      = map (\<lambda>k. str_join ''/'' (take k ps)) [0..<Suc (length ps)]"
    by (rule map_cong) auto
  then show "updirs (ps @ [p]) = str_join ''/'' (ps @ [p]) # updirs ps"
    unfolding updirs_def length_append by simp
qed

lemma unit_of_dir_up:
  "\<forall>p \<in> set ps. CHR ''/'' \<notin> set p \<Longrightarrow> unit_of_dir m (str_join ''/'' ps) = first_some m (updirs ps)"
proof (induction ps rule: rev_induct)
  case Nil
  then show ?case by (subst unit_of_dir.simps) (simp split: option.splits)
next
  case (snoc p ps)
  have parent: "parent_dir (str_join ''/'' (ps @ [p])) = str_join ''/'' ps"
    using snoc.prems by (simp add: parent_dir_split split_join)
  have IH: "unit_of_dir m (str_join ''/'' ps) = first_some m (updirs ps)" using snoc by simp
  show ?case
  proof (cases "str_join ''/'' (ps @ [p]) = []")
    case True
    then have "str_join ''/'' ps = []" using parent by (simp add: parent_dir_def)
    with IH have "first_some m (updirs ps) = m []"
      by (simp add: unit_of_dir.simps [of m "[]"] split: option.splits)
    with True show ?thesis by (simp add: unit_of_dir.simps [of m "[]"] split: option.splits)
  next
    case False
    then show ?thesis
      by (subst unit_of_dir.simps) (simp add: parent IH split: option.splits)
  qed
qed

lemma fold_dir_to_unit:
  "fold (\<lambda>(i, u) m. if g (u_dir u) then m(u_dir u \<mapsto> i) else m) ps m0 d =
     (case filter (\<lambda>(i, u). u_dir u = d) ps of
        [] \<Rightarrow> m0 d
      | qs \<Rightarrow> if g d then Some (fst (last qs)) else m0 d)"
  by (induction ps arbitrary: m0) (auto split: list.splits)

lemma zip_upt_map: "zip [0..<length us] us = map (\<lambda>i. (i, us ! i)) [0..<length us]"
  by (rule nth_equalityI) auto

lemma dir_to_unit_sole: "dir_to_unit us d = sole_unit us d"
proof -
  have count: "dir_count us d = length (filter (\<lambda>i. u_dir (us ! i) = d) [0..<length us])"
  proof -
    have "dir_count us d = length (filter (\<lambda>u. u_dir u = d) (map ((!) us) [0..<length us]))"
      by (simp add: dir_count_def map_nth)
    then show ?thesis by (simp add: filter_map o_def)
  qed
  have "filter (\<lambda>(i, u). u_dir u = d) (zip [0..<length us] us)
      = map (\<lambda>i. (i, us ! i)) (filter (\<lambda>i. u_dir (us ! i) = d) [0..<length us])"
    by (simp add: zip_upt_map filter_map o_def)
  then show ?thesis
    unfolding dir_to_unit_def fold_dir_to_unit [where g = "\<lambda>d. dir_count us d = 1"]
    by (auto simp: sole_unit_def count split: list.splits)
qed

text \<open>
  The unit of a file is the one of the nearest directory above it that owns exactly one
  project: directories with none or with several are passed over.
\<close>

theorem unit_of_file_is_nearest_sole:
  "unit_of_file (from_units units) rel =
   first_some (sole_unit (pm_units (from_units units))) (dirs_above rel)"
proof -
  define us where "us = sort_key u_id units"
  define parts where "parts = butlast (str_split CHR ''/'' rel)"
  have d: "pm_dir_to_unit (from_units units) = sole_unit us" "pm_units (from_units units) = us"
    by (auto simp: from_units_def us_def Let_def dir_to_unit_sole)
  have "\<forall>p \<in> set parts. CHR ''/'' \<notin> set p"
    by (auto simp: parts_def dest!: in_set_butlastD split_parts)
  from unit_of_dir_up [OF this] show ?thesis
    by (simp add: unit_of_file_def d parent_dir_split dirs_above_def updirs_def Let_def
        flip: parts_def del: upt_Suc)
qed

section \<open>Persisting the units\<close>

lemma sort_key_sorted: "sorted (map f xs) \<Longrightarrow> sort_key f xs = xs"
  by (simp add: sort_key_id_if_sorted)

text \<open>
  The rows of \<open>graph.json\<close> carry the whole model: rebuilding from them gives it back, for
  units whose directory is the parent of their id, as discovery makes them.
\<close>

theorem graph_units_roundtrip:
  "\<forall>u \<in> set units. u_dir u = parent_dir (u_id u) \<Longrightarrow>
   from_units (units_from_graph (graph_units (from_units units))) = from_units units"
proof -
  assume dirs: "\<forall>u \<in> set units. u_dir u = parent_dir (u_id u)"
  define us where "us = sort_key u_id units"
  have "units_from_graph (graph_units (from_units units)) = us"
    using dirs
    by (auto simp: units_from_graph_def graph_units_def from_units_def Let_def us_def
        intro!: map_idI proj_unit.equality)
  moreover have "sort_key u_id us = us"
    unfolding us_def by (simp add: sort_key_sorted)
  ultimately show ?thesis
    by (simp add: from_units_def Let_def us_def)
qed

definition sample_units :: "proj_unit list" where
  "sample_units =
     [\<lparr>u_id = ''b/B.csproj'', u_name = ''B'', u_dir = ''b'', u_refs = [''a/A.csproj''], u_test = False\<rparr>,
      \<lparr>u_id = ''a/A.csproj'', u_name = ''A'', u_dir = ''a'', u_refs = [''x''], u_test = False\<rparr>]"

lemma sample_units_dirs: "list_all (\<lambda>u. u_dir u = parent_dir (u_id u)) sample_units"
  by code_simp

theorem graph_units_roundtrip_witness:
  "from_units (units_from_graph (graph_units (from_units sample_units))) = from_units sample_units"
  by (rule graph_units_roundtrip) (use sample_units_dirs in \<open>simp only: list_all_iff\<close>)

section \<open>Resolving a reference\<close>

text \<open>A path below the root, or above it by a number of levels.\<close>

type_synonym place = "nat \<times> string list"

definition place_step :: "string \<Rightarrow> place \<Rightarrow> place" where
  "place_step seg p =
     (case p of (ups, names) \<Rightarrow>
        if seg = [] \<or> seg = ''.'' then (ups, names)
        else if seg = ''..'' then (if names = [] then (ups + 1, []) else (ups, butlast names))
        else (ups, names @ [seg]))"

definition place_segs :: "place \<Rightarrow> string list" where
  "place_segs p = replicate (fst p) ''..'' @ snd p"

definition show_place :: "place \<Rightarrow> string" where
  "show_place p = str_join ''/'' (place_segs p)"

definition plain_name :: "string \<Rightarrow> bool" where
  "plain_name s \<longleftrightarrow> s \<noteq> [] \<and> s \<noteq> ''.'' \<and> s \<noteq> ''..'' \<and> CHR ''/'' \<notin> set s"

definition plain_place :: "place \<Rightarrow> bool" where
  "plain_place p \<longleftrightarrow> list_all plain_name (snd p)"

lemma push_seg_place:
  "plain_place p \<Longrightarrow> push_seg seg (place_segs p) = place_segs (place_step seg p)"
proof (cases "snd p = []")
  case True
  then show ?thesis
    by (cases p) (auto simp: push_seg_def place_segs_def place_step_def replicate_append_same last_replicate)
next
  case False
  assume plain: "plain_place p"
  from False obtain ns n where ns: "snd p = ns @ [n]" by (metis append_butlast_last_id)
  with plain have "n \<noteq> ''..''" by (simp add: plain_place_def plain_name_def)
  with ns show ?thesis
    by (cases p) (auto simp: push_seg_def place_segs_def place_step_def butlast_append)
qed

lemma place_step_plain: "plain_place p \<Longrightarrow> CHR ''/'' \<notin> set seg \<Longrightarrow> plain_place (place_step seg p)"
  by (cases p)
    (auto simp: plain_place_def place_step_def plain_name_def list_all_iff dest: in_set_butlastD)

lemma fold_push_seg:
  "plain_place p \<Longrightarrow> \<forall>s \<in> set segs. CHR ''/'' \<notin> set s \<Longrightarrow>
   fold push_seg segs (place_segs p) = place_segs (fold place_step segs p)"
  by (induction segs arbitrary: p) (auto simp: push_seg_place place_step_plain)

lemma split_show_place:
  assumes "plain_place p"
  shows "(if show_place p = [] then [] else str_split CHR ''/'' (show_place p)) = place_segs p"
proof (cases "place_segs p = []")
  case True
  then show ?thesis by (simp add: show_place_def)
next
  case False
  have sep: "CHR ''/'' \<notin> set s" and ne: "s \<noteq> []" if "s \<in> set (place_segs p)" for s
  proof -
    from that have "s = ''..'' \<or> s \<in> set (snd p)" by (auto simp: place_segs_def)
    then have "s = ''..'' \<or> plain_name s" using assms by (auto simp: plain_place_def list_all_iff)
    then show "CHR ''/'' \<notin> set s" "s \<noteq> []" by (auto simp: plain_name_def)
  qed
  obtain x xs where xs: "place_segs p = x # xs" using False by (cases "place_segs p") auto
  with ne have "x \<noteq> []" by simp
  with xs have "show_place p \<noteq> []" by (cases xs) (simp_all add: show_place_def)
  moreover have "str_split CHR ''/'' (show_place p) = place_segs p"
    unfolding show_place_def using False sep by (intro split_join) auto
  ultimately show ?thesis by simp
qed

text \<open>
  \<open>resolve_ref\<close> walks the raw path from the project's directory: \<open>.\<close> and empty segments
  stay, \<open>..\<close> goes up one level, above the root as well, a name goes down.
\<close>

theorem resolve_ref_walks:
  assumes "plain_place p"
  shows "resolve_ref (show_place p) raw = show_place (fold place_step (str_split CHR ''/'' raw) p)"
proof -
  have "\<forall>s \<in> set (str_split CHR ''/'' raw). CHR ''/'' \<notin> set s"
    by (auto dest: split_parts)
  with assms show ?thesis
    unfolding resolve_ref_def split_show_place [OF assms]
    by (simp add: fold_push_seg show_place_def)
qed

theorem resolve_ref_walks_witness:
  "resolve_ref (show_place (0, [''src'', ''A''])) ''../../../Out/./O.csproj'' = ''../Out/O.csproj''"
proof -
  have "plain_place (0, [''src'', ''A''])" by code_simp
  from resolve_ref_walks [OF this, of "''../../../Out/./O.csproj''"]
  show ?thesis by (simp add: place_step_def place_segs_def show_place_def)
qed

section \<open>Scanning a printed project file\<close>

text \<open>
  The elements the scan answers for, as text: a reference, a package, the test flag, a comment,
  and text between the tags.
\<close>

datatype proj_item =
    Project_Ref string
  | Package_Ref string
  | Test_Flag bool
  | Comment_Item string
  | Gap string

definition quoted :: "string \<Rightarrow> string" where
  "quoted r = dquote # r @ [dquote]"

fun item_text :: "proj_item \<Rightarrow> string" where
  "item_text (Project_Ref r) = ''<ProjectReference Include='' @ quoted r @ ''/>''"
| "item_text (Package_Ref p) = ''<PackageReference Include='' @ quoted p @ ''/>''"
| "item_text (Test_Flag b) =
     ''<IsTestProject>'' @ (if b then ''true'' else ''False'') @ ''</IsTestProject>''"
| "item_text (Comment_Item c) = ''<!--'' @ c @ ''-->''"
| "item_text (Gap g) = g"

fun item_ok :: "proj_item \<Rightarrow> bool" where
  "item_ok (Project_Ref r) \<longleftrightarrow> dquote \<notin> set r \<and> CHR ''<'' \<notin> set r"
| "item_ok (Package_Ref p) \<longleftrightarrow> dquote \<notin> set p \<and> CHR ''<'' \<notin> set p"
| "item_ok (Test_Flag b) \<longleftrightarrow> True"
| "item_ok (Comment_Item c) \<longleftrightarrow> str_find (''<!--'' @ c @ ''-->'') ''-->'' = Some (4 + length c)"
| "item_ok (Gap g) \<longleftrightarrow> CHR ''<'' \<notin> set g"

fun item_facts :: "proj_item \<Rightarrow> csproj_facts \<Rightarrow> csproj_facts" where
  "item_facts (Project_Ref r) f =
     f\<lparr>cf_project_refs := cf_project_refs f @ [str_replace_char (CHR 0x5C) CHR ''/'' r]\<rparr>"
| "item_facts (Package_Ref p) f =
     (if p = ''Microsoft.NET.Test.Sdk'' then f\<lparr>cf_has_test_sdk := True\<rparr> else f)"
| "item_facts (Test_Flag b) f = f\<lparr>cf_is_test_project := Some b\<rparr>"
| "item_facts (Comment_Item c) f = f"
| "item_facts (Gap g) f = f"

fun is_comment :: "proj_item \<Rightarrow> bool" where
  "is_comment (Comment_Item c) \<longleftrightarrow> True"
| "is_comment _ \<longleftrightarrow> False"

subsection \<open>Comments\<close>

lemma str_find_Cons:
  "str_find (x # s) n = (if take (length n) (x # s) = n then Some 0 else map_option Suc (str_find s n))"
  by (subst str_find.simps) simp

lemma str_find_append:
  "str_find a n = Some i \<Longrightarrow> str_find (a @ b) n = Some i"
proof (induction a arbitrary: i)
  case Nil
  then have "n = []" by (subst (asm) str_find.simps) (auto split: if_splits)
  with Nil show ?case by (auto simp: str_find.simps)
next
  case (Cons x a)
  show ?case
  proof (cases "take (length n) (x # a) = n")
    case True
    have "length (take (length n) (x # a)) \<le> length (x # a)" by simp
    with True have "length n \<le> length (x # a)" by metis
    with True have "take (length n) (x # a @ b) = n"
      by (metis append_Cons take_append append_take_drop_id length_take min.absorb2 append_Nil2 diff_is_0_eq' take0)
    with True Cons.prems show ?thesis by (simp add: str_find_Cons)
  next
    case False
    with Cons obtain k where k: "str_find a n = Some k" "i = Suc k"
      by (auto simp: str_find_Cons split: if_splits)
    have "take (length n) (x # a @ b) \<noteq> n"
    proof
      assume t: "take (length n) (x # a @ b) = n"
      have "length n \<le> length a" using str_find_le [OF k(1)] by simp
      with t have "take (length n) (x # a) = n" by (cases n) auto
      with False show False by simp
    qed
    with Cons.IH [OF k(1)] k show ?thesis by (simp add: str_find_Cons)
  qed
qed

lemma str_find_here: "str_find (n @ s) n = Some 0"
  by (subst str_find.simps) simp

lemma strip_comment_item:
  assumes "item_ok (Comment_Item c)"
  shows "strip_xml_comments (''<!--'' @ c @ ''-->'' @ s) = strip_xml_comments s"
proof -
  have "str_find ((''<!--'' @ c @ ''-->'') @ s) ''-->'' = Some (4 + length c)"
    using assms unfolding item_ok.simps by (rule str_find_append)
  moreover define w where "w = ''<!--'' @ c @ ''-->'' @ s"
  ultimately have close: "str_find (drop 0 w) ''-->'' = Some (4 + length c)" by simp
  have start: "str_find w ''<!--'' = Some 0" by (simp only: w_def str_find_here)
  have "drop (length (''<!--'' @ c @ ''-->'')) w = s" unfolding w_def append_assoc [symmetric]
    by (rule append_eq_conv_conj [THEN iffD1, THEN conjunct2, symmetric]) (rule refl)
  then have "drop (0 + (4 + length c) + 3) w = s" by (simp add: numeral_eq_Suc)
  with close have "strip_xml_comments w = strip_xml_comments s"
    by (subst strip_xml_comments.simps) (simp only: start option.case take_0 append_Nil)
  then show ?thesis by (simp only: w_def)
qed

lemma strip_keeps_char:
  assumes "take 4 (x # s) \<noteq> ''<!--''"
  shows "strip_xml_comments (x # s) = x # strip_xml_comments s"
proof -
  have find: "str_find (x # s) ''<!--'' = map_option Suc (str_find s ''<!--'')"
    using assms by (subst str_find_Cons) (auto simp: numeral_eq_Suc)
  show ?thesis
    by (subst (1 2) strip_xml_comments.simps)
      (cases "str_find s ''<!--''", simp_all add: find numeral_eq_Suc split: option.splits)
qed

lemma strip_keeps_text: "CHR ''<'' \<notin> set a \<Longrightarrow> strip_xml_comments (a @ s) = a @ strip_xml_comments s"
  by (induction a) (auto simp: strip_keeps_char)

lemma strip_Nil [simp]: "strip_xml_comments [] = []"
  by (subst strip_xml_comments.simps) (simp add: str_find.simps)

lemma strip_keeps_tag:
  assumes "c \<noteq> CHR ''!''" "c \<noteq> CHR ''<''" "CHR ''<'' \<notin> set a"
  shows "strip_xml_comments (CHR ''<'' # c # a @ s) = CHR ''<'' # c # a @ strip_xml_comments s"
  using assms by (simp add: strip_keeps_char strip_keeps_text)

definition doc_text :: "proj_item list \<Rightarrow> string" where
  "doc_text items = concat (map item_text items)"

lemma strip_item:
  assumes "item_ok it"
  shows "strip_xml_comments (item_text it @ s)
    = (if is_comment it then [] else item_text it) @ strip_xml_comments s"
proof (cases it)
  case (Project_Ref r)
  with assms show ?thesis
    using strip_keeps_tag [of "CHR ''P''" "''rojectReference Include='' @ quoted r @ ''/>''" s]
    by (simp add: quoted_def dquote_def)
next
  case (Package_Ref r)
  with assms show ?thesis
    using strip_keeps_tag [of "CHR ''P''" "''ackageReference Include='' @ quoted r @ ''/>''" s]
    by (simp add: quoted_def dquote_def)
next
  case (Test_Flag b)
  then show ?thesis by (cases b) (simp_all add: strip_keeps_char)
next
  case (Comment_Item c)
  with assms show ?thesis using strip_comment_item by simp
next
  case (Gap g)
  with assms show ?thesis by (simp add: strip_keeps_text)
qed

lemma strip_doc:
  "list_all item_ok items \<Longrightarrow>
   strip_xml_comments (doc_text items) = doc_text (filter (\<lambda>it. \<not> is_comment it) items)"
  by (induction items) (simp_all add: doc_text_def strip_item)

subsection \<open>Tags\<close>

lemma str_find_char_hit: "c \<notin> set g \<Longrightarrow> str_find_char (g @ c # s) c = Some (length g)"
  by (induction g) (auto simp: str_find_char_def)

lemma str_find_char_miss: "c \<notin> set g \<Longrightarrow> str_find_char g c = None"
  by (induction g) (auto simp: str_find_char_def)

lemma next_tag_hit:
  assumes doc: "drop pos txt = g @ CHR ''<'' # body @ CHR ''>'' # rest"
    and g: "CHR ''<'' \<notin> set g"
    and close: "tag_end None (body @ CHR ''>'' # rest) = Some (length body)"
  shows "\<exists>pos'. next_tag txt pos = Some (g, parse_tag body, pos') \<and> drop pos' txt = rest"
proof -
  have lt: "drop (pos + length g) txt = CHR ''<'' # body @ CHR ''>'' # rest"
    using doc by (metis add.commute append_eq_conv_conj drop_drop)
  then have body: "drop (Suc (pos + length g)) txt = body @ CHR ''>'' # rest"
    by (metis drop_Suc list.sel(3) tl_drop)
  have s1: "slice pos (pos + length g) txt = g" by (simp add: slice_def doc)
  have s2: "slice (Suc (pos + length g)) (Suc (pos + length g) + length body) txt = body"
    by (simp add: slice_def body)
  have "drop (Suc (pos + length g) + length body + 1) txt = rest"
  proof -
    have "drop (length body + 1) (body @ CHR ''>'' # rest) = rest" by simp
    then show ?thesis by (metis body add.assoc add.commute drop_drop)
  qed
  moreover have "next_tag txt pos = Some (g, parse_tag body, Suc (pos + length g) + length body + 1)"
    using str_find_char_hit [OF g] close s1 s2
    by (simp add: next_tag_def doc body Let_def add.commute)
  ultimately show ?thesis by blast
qed

lemma next_tag_miss: "CHR ''<'' \<notin> set (drop pos txt) \<Longrightarrow> next_tag txt pos = None"
  by (simp add: next_tag_def str_find_char_miss)

text \<open>The closing bracket is not taken inside an attribute value.\<close>

lemma tag_end_in_quote:
  "q \<notin> set r \<Longrightarrow> tag_end (Some q) (r @ q # s) = map_option (\<lambda>i. length r + 1 + i) (tag_end None s)"
  by (cases "tag_end None s"; induction r) auto

definition plain_char :: "char \<Rightarrow> bool" where
  "plain_char c \<longleftrightarrow> c \<noteq> dquote \<and> c \<noteq> squote \<and> c \<noteq> CHR ''>''"

lemma tag_end_plain:
  "list_all plain_char w \<Longrightarrow> tag_end None (w @ s) = map_option (\<lambda>i. length w + i) (tag_end None s)"
  by (cases "tag_end None s"; induction w) (auto simp: plain_char_def)

definition tag_body :: "string \<Rightarrow> string \<Rightarrow> string" where
  "tag_body name r = name @ '' Include='' @ quoted r @ ''/''"

lemma tag_body_end:
  assumes "list_all plain_char name" "dquote \<notin> set r"
  shows "tag_end None (tag_body name r @ CHR ''>'' # rest) = Some (length (tag_body name r))"
proof -
  have inc: "list_all plain_char '' Include=''" by code_simp
  have slash: "tag_end None (''/'' @ CHR ''>'' # rest) = Some 1"
    by (simp add: dquote_def squote_def)
  have q: "tag_end None (quoted r @ s) = map_option (\<lambda>i. length r + 2 + i) (tag_end None s)" for s
    using tag_end_in_quote [of dquote r s] assms(2)
    by (simp add: quoted_def option.map_comp o_def)
  show ?thesis
    unfolding tag_body_def append_assoc tag_end_plain [OF assms(1)] tag_end_plain [OF inc] q slash
    by (simp add: quoted_def)
qed

lemma graphic_dquote: "graphic dquote"
  by (simp add: graphic_def dquote_def byte_def)

lemma graphic_slash: "graphic CHR ''/''"
  by (simp add: graphic_def byte_def)

lemma find_attr_include:
  assumes "dquote \<notin> set r"
  shows "find_attr (''Include='' @ quoted r) ''Include'' = Some r"
proof -
  have find: "str_find (''Include='' @ quoted r) ''Include'' = Some 0"
    using str_find_here [of "''Include''" "''='' @ quoted r"] by simp
  have eq: "trim_start (''='' @ quoted r) = ''='' @ quoted r"
    by (simp add: trim_start_graphic graphic_def byte_def)
  have quote: "trim_start (quoted r) = quoted r"
    by (simp add: quoted_def trim_start_graphic graphic_dquote)
  have found: "str_find_char (r @ [dquote]) dquote = Some (length r)"
    using str_find_char_hit [OF assms, of "[]"] by simp
  have "drop (0 + length ''Include'') (''Include='' @ quoted r) = ''='' @ quoted r" by simp
  then have "attr_value (''Include='' @ quoted r) ''Include'' 0 = Some r"
    unfolding attr_value_def using eq quote found
    by (simp add: strip_prefix_def starts_with_def quoted_def)
  then show ?thesis
    unfolding find_attr_def
    by (subst find_attr_from.simps) (simp only: drop_0 find option.case add_0_left, simp)
qed

lemma parse_tag_body:
  assumes name: "name \<noteq> []" "list_all graphic name" "hd name \<noteq> CHR ''/''"
  shows "parse_tag (tag_body name r) =
    \<lparr>ti_name = name, ti_is_closing = False, ti_self_closing = True, ti_attrs = ''Include='' @ quoted r\<rparr>"
proof -
  define body where "body = name @ CHR '' '' # ''Include='' @ quoted r"
  have tb: "tag_body name r = body @ ''/''" by (simp add: tag_body_def body_def)
  have hd: "hd (tag_body name r) = hd name" "graphic (hd name)"
    using name by (auto simp: tag_body_def list_all_iff)
  have trim: "trim (tag_body name r) = tag_body name r"
    using hd name(1) by (intro trim_graphic) (auto simp: tag_body_def graphic_slash)
  have no_slash: "strip_prefix (tag_body name r) ''/'' = None"
    using name hd(1) by (cases name) (auto simp: strip_prefix_def starts_with_def tag_body_def)
  have ends: "ends_with (tag_body name r) ''/''" by (simp add: ends_with_def tb)
  have take: "take (length (tag_body name r) - 1) (tag_body name r) = body" by (simp add: tb)
  have body_end: "trim_end body = body"
    by (rule trim_end_last) (auto simp: body_def quoted_def graphic_dquote)
  have ws: "find_ws body = Some (length name)"
    unfolding body_def by (rule find_ws_word [OF name(2)])
  have attrs: "trim (drop (length name) body) = ''Include='' @ quoted r"
  proof -
    have ne: "trim_start (''Include='' @ quoted r) = ''Include='' @ quoted r"
      by (simp add: trim_start_graphic graphic_def byte_def)
    have "trim_start (CHR '' '' # ''Include='' @ quoted r) = ''Include='' @ quoted r"
      by (subst trim_start.simps) (simp add: find_ws_space ne [simplified])
    moreover have "trim_end (''Include='' @ quoted r) = ''Include='' @ quoted r"
      by (rule trim_end_last) (auto simp: quoted_def graphic_dquote)
    ultimately show ?thesis by (simp add: trim_def body_def)
  qed
  show ?thesis
    unfolding parse_tag_def Let_def trim no_slash by (simp add: ends take [simplified] body_end ws attrs)
      (simp add: body_def)
qed

lemma scan_tags_miss: "CHR ''<'' \<notin> set (drop pos txt) \<Longrightarrow> scan_tags txt pos awaiting f = f"
  by (subst scan_tags.simps) (simp add: next_tag_miss)

lemma scan_tags_include:
  assumes doc: "drop pos txt = g @ CHR ''<'' # tag_body name r @ CHR ''>'' # rest"
    and g: "CHR ''<'' \<notin> set g" and r: "dquote \<notin> set r"
    and name: "name \<noteq> []" "list_all graphic name" "hd name \<noteq> CHR ''/''" "list_all plain_char name"
  shows "\<exists>pos'. scan_tags txt pos None f =
    (case open_element \<lparr>ti_name = name, ti_is_closing = False, ti_self_closing = True,
                        ti_attrs = ''Include='' @ quoted r\<rparr> f of
       (f', awaiting) \<Rightarrow> scan_tags txt pos' awaiting f') \<and> drop pos' txt = rest"
proof -
  obtain pos' where n: "next_tag txt pos = Some (g, parse_tag (tag_body name r), pos')"
    and d: "drop pos' txt = rest"
    using next_tag_hit [OF doc g tag_body_end [OF name(4) r]] by blast
  show ?thesis
    by (rule exI [of _ pos'], subst scan_tags.simps)
      (simp add: n d parse_tag_body [OF name(1-3)] close_element_def)
qed

lemma scan_tags_flag:
  assumes doc: "drop pos txt = g @ item_text (Test_Flag b) @ rest" and g: "CHR ''<'' \<notin> set g"
  shows "\<exists>pos'. scan_tags txt pos None f = scan_tags txt pos' None (item_facts (Test_Flag b) f)
    \<and> drop pos' txt = rest"
proof -
  define v where "v = (if b then ''true'' else ''False'')"
  have doc1: "drop pos txt = g @ CHR ''<'' # ''IsTestProject'' @ CHR ''>'' # v @ ''</IsTestProject>'' @ rest"
    using doc by (simp add: v_def)
  have "tag_end None (''IsTestProject'' @ CHR ''>'' # v @ ''</IsTestProject>'' @ rest)
      = Some (length ''IsTestProject'')"
    by (simp add: dquote_def squote_def)
  from next_tag_hit [OF doc1 g this] obtain p1 where
    n1: "next_tag txt pos = Some (g, parse_tag ''IsTestProject'', p1)" and
    d1: "drop p1 txt = v @ CHR ''<'' # ''/IsTestProject'' @ CHR ''>'' # rest"
    by auto
  have g2: "CHR ''<'' \<notin> set v" by (simp add: v_def)
  have "tag_end None (''/IsTestProject'' @ CHR ''>'' # rest) = Some (length ''/IsTestProject'')"
    by (simp add: dquote_def squote_def)
  from next_tag_hit [OF d1 g2 this] obtain p2 where
    n2: "next_tag txt p1 = Some (v, parse_tag ''/IsTestProject'', p2)" and d2: "drop p2 txt = rest"
    by auto
  have t1: "parse_tag ''IsTestProject'' = \<lparr>ti_name = ''IsTestProject'', ti_is_closing = False,
      ti_self_closing = False, ti_attrs = []\<rparr>" by code_simp
  have t2: "parse_tag ''/IsTestProject'' = \<lparr>ti_name = ''IsTestProject'', ti_is_closing = True,
      ti_self_closing = False, ti_attrs = []\<rparr>" by code_simp
  have s1: "scan_tags txt pos None f = scan_tags txt p1 (Some ''IsTestProject'') f"
    by (subst scan_tags.simps) (simp add: n1 t1 close_element_def open_element_def)
  have parsed: "trim ''true'' = ''true''" "trim ''False'' = ''False''"
    "eq_ignore_ascii_case ''true'' ''true''" "\<not> eq_ignore_ascii_case ''False'' ''true''"
    "eq_ignore_ascii_case ''False'' ''false''" by code_simp+
  have s2: "scan_tags txt p1 (Some ''IsTestProject'') f = scan_tags txt p2 None (item_facts (Test_Flag b) f)"
    by (subst scan_tags.simps) (cases b; simp add: n2 t2 close_element_def v_def parsed)
  from s1 s2 d2 show ?thesis by auto
qed

lemma item_text_tag:
  "item_text (Project_Ref r) @ rest = CHR ''<'' # tag_body ''ProjectReference'' r @ CHR ''>'' # rest"
  "item_text (Package_Ref r) @ rest = CHR ''<'' # tag_body ''PackageReference'' r @ CHR ''>'' # rest"
  by (simp_all add: tag_body_def)

lemma scan_item:
  assumes doc: "drop pos txt = g @ item_text it @ rest" and ok: "item_ok it" "\<not> is_comment it"
    and g: "CHR ''<'' \<notin> set g"
  shows "\<exists>pos' g'. scan_tags txt pos None f = scan_tags txt pos' None (item_facts it f)
    \<and> drop pos' txt = g' @ rest \<and> CHR ''<'' \<notin> set g'"
proof (cases it)
  case (Project_Ref r)
  have name: "''ProjectReference'' \<noteq> []" "list_all graphic ''ProjectReference''"
    "hd ''ProjectReference'' \<noteq> CHR ''/''" "list_all plain_char ''ProjectReference''" by code_simp+
  have r: "dquote \<notin> set r" using ok Project_Ref by simp
  from scan_tags_include [OF doc [unfolded Project_Ref item_text_tag] g r name, of f]
  show ?thesis
    by (auto simp: Project_Ref open_element_def find_attr_include [OF r, simplified] intro: exI [of _ "[]"])
next
  case (Package_Ref r)
  have name: "''PackageReference'' \<noteq> []" "list_all graphic ''PackageReference''"
    "hd ''PackageReference'' \<noteq> CHR ''/''" "list_all plain_char ''PackageReference''" by code_simp+
  have r: "dquote \<notin> set r" using ok Package_Ref by simp
  from scan_tags_include [OF doc [unfolded Package_Ref item_text_tag] g r name, of f]
  show ?thesis
    by (auto simp: Package_Ref open_element_def find_attr_include [OF r, simplified] intro: exI [of _ "[]"]
        split: if_splits)
next
  case (Test_Flag b)
  from scan_tags_flag [OF doc [unfolded Test_Flag] g, of f] show ?thesis
    unfolding Test_Flag by (metis append_Nil empty_iff empty_set)
next
  case (Comment_Item c)
  with ok show ?thesis by simp
next
  case (Gap h)
  with doc g ok show ?thesis
    by (intro exI [of _ pos] exI [of _ "g @ h"]) simp
qed

lemma scan_items:
  "list_all item_ok items \<Longrightarrow> list_all (\<lambda>it. \<not> is_comment it) items \<Longrightarrow>
   drop pos txt = g @ doc_text items \<Longrightarrow> CHR ''<'' \<notin> set g \<Longrightarrow>
   scan_tags txt pos None f = fold item_facts items f"
proof (induction items arbitrary: pos g f)
  case Nil
  then show ?case by (simp add: doc_text_def scan_tags_miss)
next
  case (Cons it items)
  have ok: "item_ok it" "\<not> is_comment it" and
    doc: "drop pos txt = g @ item_text it @ doc_text items"
    using Cons.prems(1-3) by (simp_all add: doc_text_def)
  obtain pos' g' where s: "scan_tags txt pos None f = scan_tags txt pos' None (item_facts it f)"
    and d: "drop pos' txt = g' @ doc_text items" and g': "CHR ''<'' \<notin> set g'"
    using scan_item [OF doc ok Cons.prems(4), of f] by blast
  have "scan_tags txt pos' None (item_facts it f) = fold item_facts items (item_facts it f)"
    by (rule Cons.IH [OF _ _ d g']) (use Cons.prems in auto)
  with s show ?case by simp
qed

lemma fold_item_facts_comments:
  "fold item_facts (filter (\<lambda>it. \<not> is_comment it) items) f = fold item_facts items f"
proof (induction items arbitrary: f)
  case (Cons it items)
  then show ?case by (cases it) auto
qed simp

text \<open>
  C23. The hand-written scan reads a printed project file back: references, packages and the
  test flag are found in order, and whatever stands in comments, tags included, is not.
\<close>

theorem scan_reads_printed_project:
  "list_all item_ok items \<Longrightarrow>
   scan_csproj (concat (map item_text items)) =
   fold item_facts items \<lparr>cf_project_refs = [], cf_has_test_sdk = False, cf_is_test_project = None\<rparr>"
proof -
  assume ok: "list_all item_ok items"
  define its where "its = filter (\<lambda>it. \<not> is_comment it) items"
  have its: "list_all item_ok its" "list_all (\<lambda>it. \<not> is_comment it) its"
    using ok by (auto simp: its_def list_all_iff)
  have strip: "strip_xml_comments (concat (map item_text items)) = doc_text its"
    using strip_doc [OF ok] by (simp add: its_def doc_text_def)
  show ?thesis
    unfolding scan_csproj_def strip
    by (subst scan_items [OF its, of 0 _ "[]"]) (simp_all add: its_def fold_item_facts_comments)
qed

theorem scan_reads_printed_project_witness:
  "scan_csproj (concat (map item_text
     [Project_Ref ''../B/B.csproj'', Comment_Item ''<ProjectReference Include=...'', Test_Flag True]))
   = \<lparr>cf_project_refs = [''../B/B.csproj''], cf_has_test_sdk = False, cf_is_test_project = Some True\<rparr>"
proof -
  have "list_all item_ok [Project_Ref ''../B/B.csproj'', Comment_Item ''<ProjectReference Include=...'',
    Test_Flag True]" by code_simp
  from scan_reads_printed_project [OF this] show ?thesis by (simp add: str_replace_char_def)
qed

end
