(* ===== verification/Graph.thy ===== *)
theory Graph
  imports Project Suggest
begin

text \<open>
  The graph artifact's types (\<open>src/graph/edge.rs\<close>, \<open>src/graph/def.rs\<close>,
  \<open>src/graph/artifact.rs\<close>), the closed vocabulary of reasons (\<open>src/query/why.rs\<close>) and the
  small folds every query table shares (\<open>src/query/refs_tables.rs\<close>, \<open>src/query/infra.rs\<close>).
  An edge is one constructor per kind with the source's fields in the source's order; the
  statistics block of a graph, which no query reads, is left out of the record.
\<close>

section \<open>Edges\<close>

record candidate =
  cand_id :: string
  cand_file :: string

datatype heuristic_tier = Tier_Ext | Tier_Guess

datatype semantic_provenance = Semantic | Semantic_Discovered

datatype edge =
    Inherits (e_from_file: string) (e_from_line: nat) (e_to: string) (e_to_file: string) (e_heuristic: bool)
  | Uses_Type (e_from_file: string) (e_from_line: nat) (e_to: string) (e_to_file: string) (e_heuristic: bool)
  | Uses_Member (e_from_file: string) (e_from_line: nat) (e_to: string) (e_to_file: string)
      (e_heuristic: bool) (e_tier: "heuristic_tier option") (e_member: "string option")
      (e_source: "semantic_provenance option") (e_overload_signature: "string option")
  | Imports (e_from_file: string) (e_from_line: nat) (e_target: string)
  | Ambiguous (e_origin: string) (e_from_file: string) (e_from_line: nat) (e_raw: string)
      (e_candidates: "candidate list") (e_candidate_count: nat)
  | Ctor_Di (e_from_file: string) (e_from_line: nat) (e_iface: string) (e_resolution: string)
      (e_args: "string list option") (e_ctor_to: "string option") (e_candidates: "candidate list")
  | Import (e_from_file: string) (e_from_line: nat) (e_target: string) (e_to_file: string)
      (e_via: "string option") (e_bound_defs: "string list")
  | Call (e_from_file: string) (e_from_line: nat) (e_to: string) (e_to_file: string)
  | Jsx_Use (e_from_file: string) (e_from_line: nat) (e_to: string) (e_to_file: string)
  | Dispatch (e_from_file: string) (e_from_line: nat) (e_to: string) (e_to_file: string)
  | Implements (e_from_file: string) (e_from_line: nat) (e_to: string) (e_to_file: string)
      (e_member: "string option")
  | Overrides (e_from_file: string) (e_from_line: nat) (e_to: string) (e_to_file: string)
      (e_member: "string option")
  | Bus_Hop (e_from_file: string) (e_from_line: nat) (e_message: string) (e_to: string)
      (e_to_file: string) (e_evidence: string)

fun edge_tier :: "edge \<Rightarrow> heuristic_tier option" where
  "edge_tier (Uses_Member _ _ _ _ _ tier _ _ _) = tier"
| "edge_tier _ = None"

fun is_heuristic :: "edge \<Rightarrow> bool" where
  "is_heuristic (Inherits _ _ _ _ h) \<longleftrightarrow> h"
| "is_heuristic (Uses_Type _ _ _ _ h) \<longleftrightarrow> h"
| "is_heuristic (Uses_Member _ _ _ _ h _ _ _ _) \<longleftrightarrow> h"
| "is_heuristic _ \<longleftrightarrow> False"

definition uses_member ::
  "string \<Rightarrow> nat \<Rightarrow> string \<Rightarrow> string \<Rightarrow> string option \<Rightarrow> heuristic_tier option \<Rightarrow> edge" where
  "uses_member from_file from_line to_def to_file member tier =
     Uses_Member from_file from_line to_def to_file (tier \<noteq> None) tier member None None"

definition uses_member_semantic ::
  "string \<Rightarrow> nat \<Rightarrow> string \<Rightarrow> string \<Rightarrow> string option \<Rightarrow> semantic_provenance \<Rightarrow> string option \<Rightarrow> edge" where
  "uses_member_semantic from_file from_line to_def to_file member prov signature =
     Uses_Member from_file from_line to_def to_file False None member (Some prov) signature"

fun provenance :: "edge \<Rightarrow> semantic_provenance option" where
  "provenance (Uses_Member _ _ _ _ _ _ _ source _) = source"
| "provenance _ = None"

section \<open>Definitions and the graph\<close>

record also_in =
  ai_file :: string
  ai_line :: nat

record graph_def =
  d_id :: string
  d_name :: string
  d_namespace :: string
  d_kind :: string
  d_file :: string
  d_line :: nat
  d_methods :: "string list"
  d_test_methods :: "string list"
  d_also_in :: "also_in list"
  d_end_line :: nat
  d_local :: bool

record graph =
  g_schema_version :: nat
  g_built_at_head :: "string option"
  g_defs :: "graph_def list"
  g_edges :: "edge list"
  g_names :: "graph_name list"
  g_units :: "graph_unit list"

section \<open>Reasons\<close>

datatype why =
    Why_Inherits | Why_Uses_Type | Why_Uses_Member_Precise | Why_Uses_Member_Ext
  | Why_Uses_Member_Guess | Why_Ctor_Di | Why_Imports | Why_Declaration | Why_Test_Attribute
  | Why_Test_Project | Why_Implements | Why_Overrides | Why_Imported_Edge | Why_Bus_Hop
  | Why_Call | Why_Jsx_Use | Why_Dispatch | Why_Import | Why_Test_Path

definition why_ALL :: "why list" where
  "why_ALL =
     [Why_Inherits, Why_Uses_Type, Why_Uses_Member_Precise, Why_Uses_Member_Ext,
      Why_Uses_Member_Guess, Why_Ctor_Di, Why_Imports, Why_Declaration, Why_Test_Attribute,
      Why_Test_Project, Why_Implements, Why_Overrides, Why_Imported_Edge, Why_Bus_Hop,
      Why_Call, Why_Jsx_Use, Why_Dispatch, Why_Import, Why_Test_Path]"

fun why_str :: "why \<Rightarrow> string" where
  "why_str Why_Inherits = ''inherits''"
| "why_str Why_Uses_Type = ''uses-type''"
| "why_str Why_Uses_Member_Precise = ''uses-member-precise''"
| "why_str Why_Uses_Member_Ext = ''uses-member-ext''"
| "why_str Why_Uses_Member_Guess = ''uses-member-guess''"
| "why_str Why_Ctor_Di = ''ctor-di''"
| "why_str Why_Imports = ''imports''"
| "why_str Why_Declaration = ''declaration''"
| "why_str Why_Test_Attribute = ''test-attribute''"
| "why_str Why_Test_Project = ''test-project''"
| "why_str Why_Implements = ''implements''"
| "why_str Why_Overrides = ''overrides''"
| "why_str Why_Imported_Edge = ''imported-edge''"
| "why_str Why_Bus_Hop = ''bus-hop''"
| "why_str Why_Call = ''call''"
| "why_str Why_Jsx_Use = ''jsx-use''"
| "why_str Why_Dispatch = ''dispatch''"
| "why_str Why_Import = ''import''"
| "why_str Why_Test_Path = ''test-path''"

fun why_for_uses_member :: "bool \<Rightarrow> heuristic_tier option \<Rightarrow> why" where
  "why_for_uses_member heuristic tier =
     (if \<not> heuristic then Why_Uses_Member_Precise
      else case tier of Some Tier_Ext \<Rightarrow> Why_Uses_Member_Ext | _ \<Rightarrow> Why_Uses_Member_Guess)"

text \<open>
  \<open>why_for_edge\<close>. The source panics on a \<open>ctor-di\<close> edge (\<open>unreachable!\<close>), the value \<open>None\<close>
  here: no index list the walk reads holds one, which the index theory proves.
\<close>

fun why_for_edge :: "edge \<Rightarrow> why option" where
  "why_for_edge (Inherits _ _ _ _ _) = Some Why_Inherits"
| "why_for_edge (Uses_Type _ _ _ _ _) = Some Why_Uses_Type"
| "why_for_edge (Uses_Member _ _ _ _ heuristic tier _ _ _) = Some (why_for_uses_member heuristic tier)"
| "why_for_edge (Imports _ _ _) = Some Why_Imports"
| "why_for_edge (Implements _ _ _ _ _) = Some Why_Implements"
| "why_for_edge (Overrides _ _ _ _ _) = Some Why_Overrides"
| "why_for_edge (Bus_Hop _ _ _ _ _ _) = Some Why_Bus_Hop"
| "why_for_edge (Call _ _ _ _) = Some Why_Call"
| "why_for_edge (Jsx_Use _ _ _ _) = Some Why_Jsx_Use"
| "why_for_edge (Dispatch _ _ _ _) = Some Why_Dispatch"
| "why_for_edge (Import _ _ _ _ _ _) = Some Why_Import"
| "why_for_edge (Ambiguous origin _ _ _ _ _) =
     Some (if origin = ''inherits'' then Why_Inherits
           else if origin = ''uses-type'' then Why_Uses_Type
           else Why_Uses_Member_Precise)"
| "why_for_edge (Ctor_Di _ _ _ _ _ _ _) = None"

section \<open>Locations, caps and tiers\<close>

definition edge_loc :: "edge \<Rightarrow> string \<times> nat" where
  "edge_loc e = (e_from_file e, e_from_line e)"

definition cap_rows :: "'r list \<Rightarrow> nat \<Rightarrow> 'r list \<times> nat" where
  "cap_rows rows cap =
     (if length rows \<le> cap then (rows, 0) else (take cap rows, length rows - cap))"

definition row_tier :: "bool \<Rightarrow> bool \<Rightarrow> heuristic_tier option" where
  "row_tier heuristic ext_seen =
     (if \<not> heuristic then None else Some (if ext_seen then Tier_Ext else Tier_Guess))"

lemma cap_rows_sum: "cap_rows rows cap = (shown, dropped) \<Longrightarrow> length shown + dropped = length rows"
  by (auto simp: cap_rows_def split: if_splits)

section \<open>Infrastructure files\<close>

definition INFRA_BASENAMES :: "string list" where
  "INFRA_BASENAMES = [''program.cs'', ''startup.cs'']"

definition INFRA_SUFFIXES :: "string list" where
  "INFRA_SUFFIXES =
     [''serviceextensions.cs'', ''servicecollectionextensions.cs'', ''registration.cs'',
      ''testbase.cs'', ''testsbase.cs'', ''basetest.cs'', ''basetests.cs'', ''basefixture.cs'']"

definition INFRA_DIR :: string where
  "INFRA_DIR = ''dependencyresolution/''"

definition COMPOSITION_ROOT :: string where
  "COMPOSITION_ROOT = ''compositionroot''"

text \<open>The last path segment, \<open>&lower[i + 1..]\<close> for the last slash.\<close>

definition base_name :: "string \<Rightarrow> string" where
  "base_name s = (case str_rfind s CHR ''/'' of Some i \<Rightarrow> drop (i + 1) s | None \<Rightarrow> s)"

text \<open>
  \<open>is_infra_file\<close> on the lowercased path; \<open>lowercase\<close> is \<open>str::to_lowercase\<close>, whose Unicode
  tables are not in the source. When \<open>.cs\<close> overlaps the composition root's own name the slice
  would run backwards; the name's letters exclude it.
\<close>

definition is_infra_file :: "(string \<Rightarrow> string) \<Rightarrow> string \<Rightarrow> bool" where
  "is_infra_file lowercase file =
     (let lower = lowercase file; base = base_name lower
      in base \<in> set INFRA_BASENAMES
         \<or> list_ex (\<lambda>sfx. ends_with lower sfx) INFRA_SUFFIXES
         \<or> starts_with lower INFRA_DIR \<or> str_find lower (''/'' @ INFRA_DIR) \<noteq> None
         \<or> (case str_find base COMPOSITION_ROOT of
              None \<Rightarrow> False
            | Some at \<Rightarrow>
                ends_with base ''.cs''
                \<and> list_all is_ascii_alphanumeric
                     (slice (at + length COMPOSITION_ROOT) (length base - 3) base)))"

text \<open>The slice's bounds are in order: the name ends before the extension begins.\<close>

lemma str_find_hit: "str_find h n = Some i \<Longrightarrow> take (length n) (drop i h) = n"
proof (induction h n arbitrary: i rule: str_find.induct)
  case (1 h n)
  show ?case
  proof (cases "take (length n) h = n")
    case True
    with 1(2) show ?thesis by (subst (asm) str_find.simps) auto
  next
    case False
    with 1(2) obtain x t k where "h = x # t" "str_find t n = Some k" "i = Suc k"
      by (subst (asm) str_find.simps) (auto split: list.splits)
    with 1(1) [OF False] show ?thesis by auto
  qed
qed

lemma composition_root_slice:
  assumes "str_find base COMPOSITION_ROOT = Some at" "ends_with base ''.cs''"
  shows "at + length COMPOSITION_ROOT \<le> length base - 3"
proof (rule ccontr)
  assume over: "\<not> ?thesis"
  have fits: "at + length COMPOSITION_ROOT \<le> length base" using str_find_le [OF assms(1)] .
  have len: "length COMPOSITION_ROOT = 15" by (simp add: COMPOSITION_ROOT_def)
  have tail: "3 \<le> length base" "drop (length base - 3) base = ''.cs''"
    using assms(2) by (simp_all add: ends_with_def numeral_eq_Suc)
  then have dot: "base ! (length base - 3) = CHR ''.''"
    using hd_drop_conv_nth [of "length base - 3" base] by auto
  define k where "k = length base - 3 - at"
  have k: "k < 15" "at + k = length base - 3" using over fits tail(1) len by (auto simp: k_def)
  have "COMPOSITION_ROOT ! k = take (length COMPOSITION_ROOT) (drop at base) ! k"
    by (simp only: str_find_hit [OF assms(1)])
  also have "\<dots> = base ! (at + k)" using k len fits by simp
  also have "\<dots> = CHR ''.''" using dot k(2) by simp
  finally have "CHR ''.'' \<in> set COMPOSITION_ROOT" using k(1) len nth_mem by metis
  then show False by (simp add: COMPOSITION_ROOT_def)
qed

text \<open>The vocabulary is closed: \<open>ALL\<close> lists every reason once, and no two share a word.\<close>

lemma why_ALL_complete: "w \<in> set why_ALL"
  by (cases w) (simp_all add: why_ALL_def)

lemma why_words_distinct: "distinct (map why_str why_ALL)"
  by code_simp

end
