(* ===== verification/SeqColl.thy ===== *)
theory SeqColl
  imports Prelude
begin

text \<open>
  \<open>src/query/seq.rs\<close>, the insertion-ordered set and map of the query layer, and the hash maps
  the index is built with. A \<open>SeqSet\<close> is its order vector and its hash set, a \<open>SeqMap\<close> its
  entries and its position index, as in the source. What the walks rely on is stated as two
  locales, an ordered set and an ordered map, and proved there once; the interpretations
  discharge the laws for the code's structures.
\<close>

section \<open>Hash maps\<close>

text \<open>\<open>*map.entry(k).or_default()\<close> updated in place.\<close>

definition entry_update :: "'k \<Rightarrow> 'v \<Rightarrow> ('v \<Rightarrow> 'v) \<Rightarrow> ('k \<Rightarrow> 'v option) \<Rightarrow> 'k \<Rightarrow> 'v option" where
  "entry_update k dflt f m = m(k \<mapsto> f (case m k of Some v \<Rightarrow> v | None \<Rightarrow> dflt))"

definition or_default :: "'v \<Rightarrow> 'v option \<Rightarrow> 'v" where
  "or_default dflt o' = (case o' of Some v \<Rightarrow> v | None \<Rightarrow> dflt)"

lemma or_default_simps [simp]: "or_default d None = d" "or_default d (Some v) = v"
  by (simp_all add: or_default_def)

lemma entry_update_get [simp]:
  "entry_update k dflt f m k = Some (f (or_default dflt (m k)))"
  "k \<noteq> j \<Longrightarrow> entry_update k dflt f m j = m j"
  by (simp_all add: entry_update_def or_default_def)

lemma entry_update_apply:
  "entry_update k dflt f m j = (if j = k then Some (f (or_default dflt (m k))) else m j)"
  by simp

definition push_ordered_unique ::
  "string \<Rightarrow> nat \<Rightarrow> (string \<Rightarrow> nat list option) \<Rightarrow> string \<Rightarrow> nat list option" where
  "push_ordered_unique k v m =
     entry_update k [] (\<lambda>vs. if v \<in> set vs then vs else vs @ [v]) m"

section \<open>The ordered set\<close>

record 'a seq_set =
  ss_order :: "'a list"
  ss_seen :: "'a set"

definition ss_new :: "'a seq_set" where
  "ss_new = \<lparr>ss_order = [], ss_seen = {}\<rparr>"

definition ss_insert :: "'a \<Rightarrow> 'a seq_set \<Rightarrow> 'a seq_set" where
  "ss_insert v s =
     (if v \<in> ss_seen s then s
      else \<lparr>ss_order = ss_order s @ [v], ss_seen = insert v (ss_seen s)\<rparr>)"

definition ss_contains :: "'a seq_set \<Rightarrow> 'a \<Rightarrow> bool" where
  "ss_contains s v \<longleftrightarrow> v \<in> ss_seen s"

definition ss_len :: "'a seq_set \<Rightarrow> nat" where
  "ss_len s = length (ss_order s)"

definition ss_into_vec :: "'a seq_set \<Rightarrow> 'a list" where
  "ss_into_vec s = ss_order s"

definition ss_ok :: "'a seq_set \<Rightarrow> bool" where
  "ss_ok s \<longleftrightarrow> set (ss_order s) = ss_seen s \<and> distinct (ss_order s)"

text \<open>What an insertion-ordered set promises.\<close>

locale ordered_set =
  fixes empty :: "'s"
    and ins :: "'a \<Rightarrow> 's \<Rightarrow> 's"
    and mem :: "'s \<Rightarrow> 'a \<Rightarrow> bool"
    and elems :: "'s \<Rightarrow> 'a list"
    and ok :: "'s \<Rightarrow> bool"
  assumes ok_empty: "ok empty"
    and ok_ins: "ok s \<Longrightarrow> ok (ins x s)"
    and elems_empty: "elems empty = []"
    and elems_ins: "ok s \<Longrightarrow> elems (ins x s) = (if x \<in> set (elems s) then elems s else elems s @ [x])"
    and mem_elems: "ok s \<Longrightarrow> mem s x \<longleftrightarrow> x \<in> set (elems s)"
begin

lemma ok_fold: "ok s \<Longrightarrow> ok (fold ins xs s)"
  by (induction xs arbitrary: s) (auto intro: ok_ins)

lemma set_fold: "ok s \<Longrightarrow> set (elems (fold ins xs s)) = set (elems s) \<union> set xs"
  by (induction xs arbitrary: s) (auto simp: elems_ins ok_ins)

lemma mem_fold: "ok s \<Longrightarrow> mem (fold ins xs s) x \<longleftrightarrow> x \<in> set (elems s) \<or> x \<in> set xs"
  by (simp add: mem_elems ok_fold set_fold)

text \<open>First insertion wins the position: inserting a list keeps its first occurrences in order.\<close>

lemma elems_fold:
  "ok s \<Longrightarrow> elems (fold ins xs s) = elems s @ rev (fold (\<lambda>x acc. if x \<in> set (elems s) \<or> x \<in> set acc then acc else x # acc) xs [])"
proof -
  have *: "ok s \<Longrightarrow> elems s = es @ rev acc \<Longrightarrow>
    elems (fold ins xs s) = es @ rev (fold (\<lambda>x acc. if x \<in> set es \<or> x \<in> set acc then acc else x # acc) xs acc)"
    for es acc
  proof (induction xs arbitrary: s acc)
    case (Cons x xs)
    show ?case
    proof (cases "x \<in> set es \<or> x \<in> set acc")
      case True
      with Cons.prems have "elems (ins x s) = es @ rev acc" by (auto simp: elems_ins)
      with Cons.IH [OF ok_ins [OF Cons.prems(1)] this] True show ?thesis by simp
    next
      case False
      with Cons.prems have "elems (ins x s) = es @ rev (x # acc)" by (simp add: elems_ins)
      with Cons.IH [OF ok_ins [OF Cons.prems(1)] this] False show ?thesis by simp
    qed
  qed simp
  show "ok s \<Longrightarrow> ?thesis" using * [of "elems s" "[]"] by simp
qed

lemma distinct_fold: "ok s \<Longrightarrow> distinct (elems s) \<Longrightarrow> distinct (elems (fold ins xs s))"
  by (induction xs arbitrary: s) (auto simp: elems_ins ok_ins)

end

interpretation ssl: ordered_set ss_new ss_insert ss_contains ss_order ss_ok
  by unfold_locales (auto simp: ss_ok_def ss_new_def ss_insert_def ss_contains_def)

lemma ss_insert_seen [simp]: "ss_seen (ss_insert v s) = insert v (ss_seen s)"
  by (auto simp: ss_insert_def)

lemma ss_new_simps [simp]: "ss_order ss_new = []" "ss_seen ss_new = {}"
  by (simp_all add: ss_new_def)

section \<open>The ordered map\<close>

record 'v seq_map =
  sm_entries :: "(string \<times> 'v) list"
  sm_index :: "string \<Rightarrow> nat option"

definition sm_new :: "'v seq_map" where
  "sm_new = \<lparr>sm_entries = [], sm_index = (\<lambda>_. None)\<rparr>"

definition sm_contains_key :: "'v seq_map \<Rightarrow> string \<Rightarrow> bool" where
  "sm_contains_key m k \<longleftrightarrow> sm_index m k \<noteq> None"

definition sm_push :: "string \<Rightarrow> 'v \<Rightarrow> 'v seq_map \<Rightarrow> 'v seq_map" where
  "sm_push k v m =
     \<lparr>sm_entries = sm_entries m @ [(k, v)], sm_index = (sm_index m)(k \<mapsto> length (sm_entries m))\<rparr>"

definition sm_insert :: "string \<Rightarrow> 'v \<Rightarrow> 'v seq_map \<Rightarrow> 'v seq_map" where
  "sm_insert k v m =
     (case sm_index m k of
        Some i \<Rightarrow> m\<lparr>sm_entries := (sm_entries m)[i := (fst (sm_entries m ! i), v)]\<rparr>
      | None \<Rightarrow> sm_push k v m)"

text \<open>\<open>get_or_insert_default\<close>, with the update made through the returned reference.\<close>

definition sm_update :: "string \<Rightarrow> 'v \<Rightarrow> ('v \<Rightarrow> 'v) \<Rightarrow> 'v seq_map \<Rightarrow> 'v seq_map" where
  "sm_update k dflt f m =
     (case sm_index m k of
        Some i \<Rightarrow> m\<lparr>sm_entries := (sm_entries m)[i := (fst (sm_entries m ! i), f (snd (sm_entries m ! i)))]\<rparr>
      | None \<Rightarrow> sm_push k (f dflt) m)"

definition sm_keys :: "'v seq_map \<Rightarrow> string list" where
  "sm_keys m = map fst (sm_entries m)"

definition sm_get :: "'v seq_map \<Rightarrow> string \<Rightarrow> 'v option" where
  "sm_get m k = map_of (sm_entries m) k"

definition sm_ok :: "'v seq_map \<Rightarrow> bool" where
  "sm_ok m \<longleftrightarrow>
     distinct (sm_keys m) \<and> (\<forall>k i. sm_index m k = Some i \<longleftrightarrow> i < length (sm_entries m) \<and> sm_keys m ! i = k)"

text \<open>What an insertion-ordered map promises.\<close>

locale ordered_map =
  fixes empty :: "'m"
    and upd :: "'k \<Rightarrow> 'v \<Rightarrow> ('v \<Rightarrow> 'v) \<Rightarrow> 'm \<Rightarrow> 'm"
    and has :: "'m \<Rightarrow> 'k \<Rightarrow> bool"
    and entries :: "'m \<Rightarrow> ('k \<times> 'v) list"
    and ok :: "'m \<Rightarrow> bool"
  assumes ok_empty: "ok empty"
    and ok_upd: "ok m \<Longrightarrow> ok (upd k d f m)"
    and entries_empty: "entries empty = []"
    and keys_upd: "ok m \<Longrightarrow> map fst (entries (upd k d f m)) =
      (if k \<in> fst ` set (entries m) then map fst (entries m) else map fst (entries m) @ [k])"
    and get_upd: "ok m \<Longrightarrow> map_of (entries (upd k d f m)) =
      (map_of (entries m))(k \<mapsto> f (case map_of (entries m) k of Some v \<Rightarrow> v | None \<Rightarrow> d))"
    and distinct_keys: "ok m \<Longrightarrow> distinct (map fst (entries m))"
    and has_entries: "ok m \<Longrightarrow> has m k \<longleftrightarrow> k \<in> fst ` set (entries m)"
begin

lemma has_upd: "ok m \<Longrightarrow> has (upd k d f m) j \<longleftrightarrow> j = k \<or> has m j"
proof -
  assume m: "ok m"
  have "fst ` set (entries (upd k d f m)) = set (map fst (entries (upd k d f m)))" by simp
  also have "\<dots> = insert k (fst ` set (entries m))" unfolding keys_upd [OF m] by auto
  finally show ?thesis by (simp add: has_entries m ok_upd)
qed

lemma entry_iff: "ok m \<Longrightarrow> (k, v) \<in> set (entries m) \<longleftrightarrow> map_of (entries m) k = Some v"
  using distinct_keys by (simp add: map_of_eq_Some_iff)

text \<open>Updates at other keys do not disturb an entry.\<close>

lemma get_upd_other: "ok m \<Longrightarrow> j \<noteq> k \<Longrightarrow> map_of (entries (upd k d f m)) j = map_of (entries m) j"
  by (simp add: get_upd)

end

lemma sm_index_iff: "sm_ok m \<Longrightarrow> sm_index m k = Some i \<longleftrightarrow> i < length (sm_entries m) \<and> fst (sm_entries m ! i) = k"
  by (auto simp: sm_ok_def sm_keys_def)

lemma sm_index_None: "sm_ok m \<Longrightarrow> sm_index m k = None \<longleftrightarrow> k \<notin> set (sm_keys m)"
proof -
  assume m: "sm_ok m"
  have "sm_index m k \<noteq> None \<longleftrightarrow> (\<exists>i. i < length (sm_keys m) \<and> sm_keys m ! i = k)"
    using m by (auto simp: sm_ok_def sm_keys_def)
  then show ?thesis by (metis in_set_conv_nth)
qed

lemma sm_push_ok: "sm_ok m \<Longrightarrow> k \<notin> set (sm_keys m) \<Longrightarrow> sm_ok (sm_push k v m)"
proof -
  assume m: "sm_ok m" and k: "k \<notin> set (sm_keys m)"
  have "sm_index (sm_push k v m) j = Some i \<longleftrightarrow>
      i < length (sm_entries (sm_push k v m)) \<and> sm_keys (sm_push k v m) ! i = j" for i j
  proof (cases "i < length (sm_entries m)")
    case True
    with k have "sm_keys m ! i \<noteq> k" by (metis length_map nth_mem sm_keys_def)
    with True m k show ?thesis
      by (auto simp: sm_push_def sm_ok_def sm_keys_def nth_append)
  next
    case False
    with m show ?thesis by (auto simp: sm_push_def sm_ok_def sm_keys_def nth_append)
  qed
  with m k show ?thesis by (auto simp: sm_ok_def sm_push_def sm_keys_def)
qed

lemma map_of_list_update:
  "distinct (map fst es) \<Longrightarrow> i < length es \<Longrightarrow> fst (es ! i) = k \<Longrightarrow>
   map_of (es[i := (k, v)]) = (map_of es)(k \<mapsto> v)"
proof (induction es arbitrary: i)
  case (Cons e es)
  show ?case
  proof (cases i)
    case (Suc n)
    with Cons.prems have "k \<in> fst ` set es" by (auto intro: image_eqI [OF _ nth_mem])
    moreover have "fst e \<notin> fst ` set es" using Cons.prems(1) by simp
    ultimately have "fst e \<noteq> k" by metis
    with Cons Suc show ?thesis by (cases e) (auto simp: fun_eq_iff)
  qed (use Cons.prems in \<open>cases e; auto\<close>)
qed simp

lemma sm_set_value:
  fixes v :: 'v
  assumes m: "sm_ok m" and i: "sm_index m k = Some i"
  defines "m' \<equiv> m\<lparr>sm_entries := (sm_entries m)[i := (fst (sm_entries m ! i), v)]\<rparr>"
  shows "sm_ok m'" "sm_keys m' = sm_keys m" "map_of (sm_entries m') = (map_of (sm_entries m))(k \<mapsto> v)"
proof -
  from m i have il: "i < length (sm_entries m)" "fst (sm_entries m ! i) = k"
    by (simp_all add: sm_index_iff)
  show keys: "sm_keys m' = sm_keys m"
    using il by (simp add: m'_def sm_keys_def map_update) (metis il(2) length_map list_update_id nth_map)
  with m show "sm_ok m'" by (simp add: sm_ok_def m'_def)
  have "distinct (map fst (sm_entries m))" using m by (simp add: sm_ok_def sm_keys_def)
  with il show "map_of (sm_entries m') = (map_of (sm_entries m))(k \<mapsto> v)"
    by (simp add: m'_def map_of_list_update)
qed

lemma sm_update_ok: "sm_ok m \<Longrightarrow> sm_ok (sm_update k d f m)"
  using sm_set_value(1) [of m k] sm_push_ok [of m k]
  by (auto simp: sm_update_def sm_index_None split: option.splits)

lemma sm_update_keys:
  "sm_ok m \<Longrightarrow> sm_keys (sm_update k d f m) = (if k \<in> set (sm_keys m) then sm_keys m else sm_keys m @ [k])"
proof (cases "sm_index m k")
  case None
  assume "sm_ok m"
  then have "k \<notin> set (sm_keys m)" using None sm_index_None by blast
  with None show ?thesis by (simp add: sm_update_def) (simp add: sm_push_def sm_keys_def)
next
  case (Some i)
  assume m: "sm_ok m"
  with Some have "k \<in> set (sm_keys m)" by (metis option.distinct(1) sm_index_None)
  with Some m show ?thesis by (simp add: sm_update_def sm_set_value(2))
qed

lemma sm_update_get:
  "sm_ok m \<Longrightarrow> map_of (sm_entries (sm_update k d f m)) =
     (map_of (sm_entries m))(k \<mapsto> f (case map_of (sm_entries m) k of Some v \<Rightarrow> v | None \<Rightarrow> d))"
proof (cases "sm_index m k")
  case None
  assume m: "sm_ok m"
  with None have "k \<notin> fst ` set (sm_entries m)" by (simp add: sm_index_None sm_keys_def)
  then have "map_of (sm_entries m) k = None" by (simp add: map_of_eq_None_iff)
  with None show ?thesis
    by (auto simp: sm_update_def sm_push_def map_add_def split: option.splits)
next
  case (Some i)
  assume m: "sm_ok m"
  with Some have "i < length (sm_entries m)" "fst (sm_entries m ! i) = k" by (simp_all add: sm_index_iff)
  then have "(k, snd (sm_entries m ! i)) \<in> set (sm_entries m)" by (metis nth_mem prod.collapse)
  then have "map_of (sm_entries m) k = Some (snd (sm_entries m ! i))"
    using m by (simp add: sm_ok_def sm_keys_def)
  moreover have "sm_update k d f m =
      m\<lparr>sm_entries := (sm_entries m)[i := (fst (sm_entries m ! i), f (snd (sm_entries m ! i)))]\<rparr>"
    using Some by (simp add: sm_update_def)
  ultimately show ?thesis using sm_set_value(3) [OF m Some] by simp
qed

interpretation sml: ordered_map sm_new sm_update sm_contains_key sm_entries sm_ok
proof unfold_locales
  fix m :: "'a seq_map" and k d f
  show "sm_ok sm_new" "sm_entries sm_new = []" by (auto simp: sm_ok_def sm_new_def sm_keys_def)
  assume m: "sm_ok m"
  show "sm_ok (sm_update k d f m)" using m by (rule sm_update_ok)
  show "map fst (sm_entries (sm_update k d f m)) =
      (if k \<in> fst ` set (sm_entries m) then map fst (sm_entries m) else map fst (sm_entries m) @ [k])"
    using sm_update_keys [OF m, of k d f] by (simp add: sm_keys_def)
  show "map_of (sm_entries (sm_update k d f m)) =
      (map_of (sm_entries m))(k \<mapsto> f (case map_of (sm_entries m) k of Some v \<Rightarrow> v | None \<Rightarrow> d))"
    using m by (rule sm_update_get)
  show "distinct (map fst (sm_entries m))" using m by (simp add: sm_ok_def sm_keys_def)
  show "sm_contains_key m k \<longleftrightarrow> k \<in> fst ` set (sm_entries m)"
    using m by (simp add: sm_contains_key_def sm_index_None sm_keys_def)
qed

text \<open>\<open>insert\<close> is the update that forgets the old value.\<close>

lemma sm_insert_update: "sm_insert k v m = sm_update k v (\<lambda>_. v) m"
  by (auto simp: sm_insert_def sm_update_def split: option.splits)

end
