(* ===== verification/GraphIndex.thy ===== *)
theory GraphIndex
  imports Graph SeqColl
begin

text \<open>
  The query index (\<open>src/query/index.rs\<close>) with the adjacency pushes it is built from
  (\<open>src/query/dispatch.rs\<close>, \<open>src/query/ts_edges.rs\<close>, \<open>src/query/bus.rs\<close>), the test-file
  vouches (\<open>src/query/test_path.rs\<close>) and the declaring sites of a definition. A hash map is a
  partial function. Reading the manifest is a parameter: \<open>None\<close> when there is none or it does
  not parse, \<open>Some None\<close> when it has no entries object, otherwise the set of its paths;
  \<open>lowercase\<close> is \<open>str::to_lowercase\<close>. The repository root, only used to read source lines, is
  left out.
\<close>

section \<open>Entries\<close>

record ts_kinds =
  tk_call :: "nat list"
  tk_jsx_use :: "nat list"
  tk_dispatch :: "nat list"
  tk_import :: "nat list"

definition ts_default :: ts_kinds where
  "ts_default = \<lparr>tk_call = [], tk_jsx_use = [], tk_dispatch = [], tk_import = []\<rparr>"

definition ts_lists :: "ts_kinds \<Rightarrow> nat list list" where
  "ts_lists k = [tk_call k, tk_jsx_use k, tk_dispatch k, tk_import k]"

record inbound_entry =
  ie_inherits :: "nat list"
  ie_uses_type :: "nat list"
  ie_uses_member :: "nat list"
  ie_implements :: "nat list"
  ie_overrides :: "nat list"
  ie_bus_hop :: "nat list"
  ie_ts :: ts_kinds

definition ie_default :: inbound_entry where
  "ie_default = \<lparr>ie_inherits = [], ie_uses_type = [], ie_uses_member = [], ie_implements = [],
     ie_overrides = [], ie_bus_hop = [], ie_ts = ts_default\<rparr>"

record outbound_entry =
  oe_inherits :: "nat list"
  oe_uses_type :: "nat list"
  oe_uses_member :: "nat list"
  oe_implements :: "nat list"
  oe_overrides :: "nat list"
  oe_bus_hop :: "nat list"
  oe_imports :: "nat list"
  oe_ts :: ts_kinds

definition oe_default :: outbound_entry where
  "oe_default = \<lparr>oe_inherits = [], oe_uses_type = [], oe_uses_member = [], oe_implements = [],
     oe_overrides = [], oe_bus_hop = [], oe_imports = [], oe_ts = ts_default\<rparr>"

record index_options =
  io_include_guesses :: bool
  io_include_dispatch :: bool
  io_include_bus :: bool

definition default_options :: index_options where
  "default_options =
     \<lparr>io_include_guesses = True, io_include_dispatch = True, io_include_bus = True\<rparr>"

text \<open>The maps the build fills, before the two counts are taken.\<close>

record index_maps =
  ix_by_id :: "string \<Rightarrow> nat option"
  ix_by_file :: "string \<Rightarrow> nat list option"
  ix_by_simple_name :: "string \<Rightarrow> nat list option"
  ix_by_lower_name :: "string \<Rightarrow> nat list option"
  ix_test_defs_by_file :: "string \<Rightarrow> nat list option"
  ix_inbound :: "string \<Rightarrow> inbound_entry option"
  ix_outbound_by_file :: "string \<Rightarrow> outbound_entry option"
  ix_ambiguous_by_candidate :: "string \<Rightarrow> nat list option"
  ix_ambiguous_by_file :: "string \<Rightarrow> nat list option"
  ix_heuristic_inbound :: "string \<Rightarrow> inbound_entry option"
  ix_heuristic_outbound_by_file :: "string \<Rightarrow> inbound_entry option"
  ix_flagged_files :: "string set"
  ix_ctor_di_by_to :: "string \<Rightarrow> nat list option"
  ix_ctor_di_sites :: "string \<Rightarrow> (string \<times> nat) set option"
  ix_hub_referrers :: "string \<Rightarrow> string set option"

definition empty_maps :: index_maps where
  "empty_maps =
     \<lparr>ix_by_id = (\<lambda>_. None), ix_by_file = (\<lambda>_. None), ix_by_simple_name = (\<lambda>_. None),
      ix_by_lower_name = (\<lambda>_. None), ix_test_defs_by_file = (\<lambda>_. None), ix_inbound = (\<lambda>_. None),
      ix_outbound_by_file = (\<lambda>_. None), ix_ambiguous_by_candidate = (\<lambda>_. None),
      ix_ambiguous_by_file = (\<lambda>_. None), ix_heuristic_inbound = (\<lambda>_. None),
      ix_heuristic_outbound_by_file = (\<lambda>_. None), ix_flagged_files = {},
      ix_ctor_di_by_to = (\<lambda>_. None), ix_ctor_di_sites = (\<lambda>_. None), ix_hub_referrers = (\<lambda>_. None)\<rparr>"

section \<open>Building\<close>

definition note_file :: "string set option \<Rightarrow> string \<Rightarrow> string set \<Rightarrow> string set" where
  "note_file manifest_paths file flagged =
     (case manifest_paths of
        Some paths \<Rightarrow> if file \<noteq> [] \<and> file \<notin> paths then insert file flagged else flagged
      | None \<Rightarrow> flagged)"

definition push_index :: "string \<Rightarrow> nat \<Rightarrow> (string \<Rightarrow> nat list option) \<Rightarrow> string \<Rightarrow> nat list option" where
  "push_index k i m = entry_update k [] (\<lambda>is. is @ [i]) m"

text \<open>The distinct files of a definition with test methods.\<close>

definition test_files :: "graph_def \<Rightarrow> string list" where
  "test_files d =
     fold (\<lambda>also fs. if ai_file also \<in> set fs then fs else fs @ [ai_file also]) (d_also_in d) [d_file d]"

text \<open>The body of the loop over the definitions.\<close>

definition index_def ::
  "(string \<Rightarrow> string) \<Rightarrow> string set option \<Rightarrow> nat \<times> graph_def \<Rightarrow> index_maps \<Rightarrow> index_maps" where
  "index_def lowercase paths p m =
     (case p of (i, d) \<Rightarrow>
       m\<lparr>ix_by_id := (ix_by_id m)(d_id d \<mapsto> i),
         ix_flagged_files :=
           fold (\<lambda>also. note_file paths (ai_file also)) (d_also_in d)
             (note_file paths (d_file d) (ix_flagged_files m)),
         ix_by_file :=
           fold (\<lambda>also. push_ordered_unique (ai_file also) i) (d_also_in d)
             (push_ordered_unique (d_file d) i (ix_by_file m)),
         ix_test_defs_by_file :=
           (if d_test_methods d = [] then ix_test_defs_by_file m
            else fold (\<lambda>file. push_index file i) (test_files d) (ix_test_defs_by_file m)),
         ix_by_simple_name := push_index (d_name d) i (ix_by_simple_name m),
         ix_by_lower_name := push_index (lowercase (d_name d)) i (ix_by_lower_name m)\<rparr>)"

definition note_dispatch_files ::
  "string set option \<Rightarrow> string \<Rightarrow> string \<Rightarrow> index_maps \<Rightarrow> index_maps" where
  "note_dispatch_files paths from_file to_file m =
     m\<lparr>ix_flagged_files := note_file paths to_file (note_file paths from_file (ix_flagged_files m)),
       ix_hub_referrers :=
         (if to_file \<noteq> [] \<and> from_file \<noteq> [] \<and> to_file \<noteq> from_file
          then entry_update to_file {} (insert from_file) (ix_hub_referrers m)
          else ix_hub_referrers m)\<rparr>"

definition on_inbound :: "string \<Rightarrow> (inbound_entry \<Rightarrow> inbound_entry) \<Rightarrow> index_maps \<Rightarrow> index_maps" where
  "on_inbound k f m = m\<lparr>ix_inbound := entry_update k ie_default f (ix_inbound m)\<rparr>"

definition on_outbound :: "string \<Rightarrow> (outbound_entry \<Rightarrow> outbound_entry) \<Rightarrow> index_maps \<Rightarrow> index_maps" where
  "on_outbound k f m = m\<lparr>ix_outbound_by_file := entry_update k oe_default f (ix_outbound_by_file m)\<rparr>"

definition on_heuristic ::
  "string \<Rightarrow> string \<Rightarrow> (inbound_entry \<Rightarrow> inbound_entry) \<Rightarrow> index_maps \<Rightarrow> index_maps" where
  "on_heuristic from_file to_def f m =
     m\<lparr>ix_heuristic_outbound_by_file := entry_update from_file ie_default f (ix_heuristic_outbound_by_file m),
       ix_heuristic_inbound := entry_update to_def ie_default f (ix_heuristic_inbound m)\<rparr>"

definition record_dispatch_edge ::
  "edge \<Rightarrow> nat \<Rightarrow> string \<Rightarrow> string \<Rightarrow> index_maps \<Rightarrow> index_maps" where
  "record_dispatch_edge e i from_file to_def m =
     (if is_Implements e
      then on_inbound to_def (\<lambda>x. x\<lparr>ie_implements := ie_implements x @ [i]\<rparr>)
             (on_outbound from_file (\<lambda>x. x\<lparr>oe_implements := oe_implements x @ [i]\<rparr>) m)
      else on_inbound to_def (\<lambda>x. x\<lparr>ie_overrides := ie_overrides x @ [i]\<rparr>)
             (on_outbound from_file (\<lambda>x. x\<lparr>oe_overrides := oe_overrides x @ [i]\<rparr>) m))"

definition record_bus_edge :: "nat \<Rightarrow> string \<Rightarrow> string \<Rightarrow> index_maps \<Rightarrow> index_maps" where
  "record_bus_edge i from_file to_def m =
     on_inbound to_def (\<lambda>x. x\<lparr>ie_bus_hop := ie_bus_hop x @ [i]\<rparr>)
       (on_outbound from_file (\<lambda>x. x\<lparr>oe_bus_hop := oe_bus_hop x @ [i]\<rparr>) m)"

text \<open>\<open>Admitted\<close>: source file, named file, targets and the list joined.\<close>

datatype ts_list = TS_Call | TS_Jsx_Use | TS_Dispatch | TS_Import

fun ts_push :: "ts_list \<Rightarrow> nat \<Rightarrow> ts_kinds \<Rightarrow> ts_kinds" where
  "ts_push TS_Call i k = k\<lparr>tk_call := tk_call k @ [i]\<rparr>"
| "ts_push TS_Jsx_Use i k = k\<lparr>tk_jsx_use := tk_jsx_use k @ [i]\<rparr>"
| "ts_push TS_Dispatch i k = k\<lparr>tk_dispatch := tk_dispatch k @ [i]\<rparr>"
| "ts_push TS_Import i k = k\<lparr>tk_import := tk_import k @ [i]\<rparr>"

fun admitted :: "edge \<Rightarrow> (string \<times> string \<times> string list \<times> ts_list) option" where
  "admitted (Call from_file _ to_def to_file) = Some (from_file, to_file, [to_def], TS_Call)"
| "admitted (Jsx_Use from_file _ to_def to_file) = Some (from_file, to_file, [to_def], TS_Jsx_Use)"
| "admitted (Dispatch from_file _ to_def to_file) = Some (from_file, to_file, [to_def], TS_Dispatch)"
| "admitted (Import from_file _ _ to_file _ bound_defs) =
     (if bound_defs \<noteq> [] then Some (from_file, to_file, bound_defs, TS_Import) else None)"
| "admitted _ = None"

definition admitted_targets :: "edge \<Rightarrow> string list option" where
  "admitted_targets e = map_option (\<lambda>(_, _, targets, _). targets) (admitted e)"

definition record_ts_edge ::
  "edge \<Rightarrow> nat \<Rightarrow> index_maps \<Rightarrow> (string \<times> string) option \<times> index_maps" where
  "record_ts_edge e i m =
     (case admitted e of
        None \<Rightarrow> (None, m)
      | Some (from_file, to_file, targets, which) \<Rightarrow>
          (Some (from_file, to_file),
           on_outbound from_file (\<lambda>x. x\<lparr>oe_ts := ts_push which i (oe_ts x)\<rparr>)
             (fold (\<lambda>to_def. on_inbound to_def (\<lambda>x. x\<lparr>ie_ts := ts_push which i (ie_ts x)\<rparr>)) targets m)))"

definition admits :: "index_options \<Rightarrow> edge \<Rightarrow> bool" where
  "admits opts e \<longleftrightarrow> io_include_guesses opts \<or> edge_tier e = Some Tier_Ext"

text \<open>The arms of the kinds that are never guesses.\<close>

definition index_dispatch ::
  "index_options \<Rightarrow> string set option \<Rightarrow> nat \<Rightarrow> edge \<Rightarrow> string \<Rightarrow> string \<Rightarrow> string \<Rightarrow> index_maps \<Rightarrow> index_maps" where
  "index_dispatch opts paths i e from_file to_def to_file m =
     (let m = note_dispatch_files paths from_file to_file m
      in if io_include_dispatch opts then record_dispatch_edge e i from_file to_def m else m)"

definition index_ctor_di ::
  "nat \<Rightarrow> string \<Rightarrow> nat \<Rightarrow> string \<Rightarrow> string option \<Rightarrow> index_maps \<Rightarrow> index_maps" where
  "index_ctor_di i from_file from_line iface to_def m =
     m\<lparr>ix_ctor_di_sites := entry_update iface {} (insert (from_file, from_line)) (ix_ctor_di_sites m),
       ix_ctor_di_by_to :=
         (case to_def of Some t \<Rightarrow> push_index t i (ix_ctor_di_by_to m) | None \<Rightarrow> ix_ctor_di_by_to m)\<rparr>"

definition index_ts :: "string set option \<Rightarrow> nat \<Rightarrow> edge \<Rightarrow> index_maps \<Rightarrow> index_maps" where
  "index_ts paths i e m =
     (case record_ts_edge e i m of
        (Some (from_file, to_file), m') \<Rightarrow> note_dispatch_files paths from_file to_file m'
      | (None, m') \<Rightarrow> m')"

definition index_bus ::
  "index_options \<Rightarrow> string set option \<Rightarrow> nat \<Rightarrow> string \<Rightarrow> string \<Rightarrow> string \<Rightarrow> index_maps \<Rightarrow> index_maps" where
  "index_bus opts paths i from_file to_def to_file m =
     (if io_include_bus opts
      then record_bus_edge i from_file to_def (note_dispatch_files paths from_file to_file m) else m)"

text \<open>The body of the loop over the edges, one arm per kind.\<close>

fun index_edge ::
  "index_options \<Rightarrow> string set option \<Rightarrow> nat \<times> edge \<Rightarrow> index_maps \<Rightarrow> index_maps" where
  "index_edge opts paths (i, Imports from_file l t) m =
     on_outbound from_file (\<lambda>x. x\<lparr>oe_imports := oe_imports x @ [i]\<rparr>)
       (m\<lparr>ix_flagged_files := note_file paths from_file (ix_flagged_files m)\<rparr>)"
| "index_edge opts paths (i, Ambiguous origin from_file l raw cands n) m =
     m\<lparr>ix_flagged_files := note_file paths from_file (ix_flagged_files m),
       ix_ambiguous_by_file := push_index from_file i (ix_ambiguous_by_file m),
       ix_ambiguous_by_candidate :=
         fold (\<lambda>c. push_index (cand_id c) i) cands (ix_ambiguous_by_candidate m)\<rparr>"
| "index_edge opts paths (i, Inherits from_file l to_def to_file h) m =
     (let m = note_dispatch_files paths from_file to_file m
      in if h then
           (if admits opts (Inherits from_file l to_def to_file h)
            then on_heuristic from_file to_def (\<lambda>x. x\<lparr>ie_inherits := ie_inherits x @ [i]\<rparr>) m else m)
         else on_inbound to_def (\<lambda>x. x\<lparr>ie_inherits := ie_inherits x @ [i]\<rparr>)
                (on_outbound from_file (\<lambda>x. x\<lparr>oe_inherits := oe_inherits x @ [i]\<rparr>) m))"
| "index_edge opts paths (i, Uses_Type from_file l to_def to_file h) m =
     (let m = note_dispatch_files paths from_file to_file m
      in if h then
           (if admits opts (Uses_Type from_file l to_def to_file h)
            then on_heuristic from_file to_def (\<lambda>x. x\<lparr>ie_uses_type := ie_uses_type x @ [i]\<rparr>) m else m)
         else on_inbound to_def (\<lambda>x. x\<lparr>ie_uses_type := ie_uses_type x @ [i]\<rparr>)
                (on_outbound from_file (\<lambda>x. x\<lparr>oe_uses_type := oe_uses_type x @ [i]\<rparr>) m))"
| "index_edge opts paths (i, Uses_Member from_file l to_def to_file h tier mem src sig) m =
     (let m = note_dispatch_files paths from_file to_file m
      in if h then
           (if admits opts (Uses_Member from_file l to_def to_file h tier mem src sig)
            then on_heuristic from_file to_def (\<lambda>x. x\<lparr>ie_uses_member := ie_uses_member x @ [i]\<rparr>) m else m)
         else on_inbound to_def (\<lambda>x. x\<lparr>ie_uses_member := ie_uses_member x @ [i]\<rparr>)
                (on_outbound from_file (\<lambda>x. x\<lparr>oe_uses_member := oe_uses_member x @ [i]\<rparr>) m))"
| "index_edge opts paths (i, Implements from_file l to_def to_file mem) m =
     index_dispatch opts paths i (Implements from_file l to_def to_file mem) from_file to_def to_file m"
| "index_edge opts paths (i, Overrides from_file l to_def to_file mem) m =
     index_dispatch opts paths i (Overrides from_file l to_def to_file mem) from_file to_def to_file m"
| "index_edge opts paths (i, Ctor_Di from_file l iface res args to_def cands) m =
     index_ctor_di i from_file l iface to_def m"
| "index_edge opts paths (i, Bus_Hop from_file l msg to_def to_file ev) m =
     index_bus opts paths i from_file to_def to_file m"
| "index_edge opts paths (i, e) m = index_ts paths i e m"

lemmas index_arms = index_dispatch_def index_ctor_di_def index_ts_def index_bus_def

text \<open>\<open>GraphIndex\<close>: the maps with the two counts and the project model.\<close>

record graph_index =
  gi_graph :: graph
  gi_maps :: index_maps
  gi_manifest_present :: bool
  gi_ctor_di_fanin :: "string \<Rightarrow> nat option"
  gi_hub_indegree :: "string \<Rightarrow> nat option"
  gi_project :: "project_model option"

definition finish_index :: "graph \<Rightarrow> bool \<Rightarrow> index_maps \<Rightarrow> graph_index" where
  "finish_index g manifest_present m =
     \<lparr>gi_graph = g, gi_maps = m, gi_manifest_present = manifest_present,
      gi_ctor_di_fanin = (\<lambda>k. map_option card (ix_ctor_di_sites m k)),
      gi_hub_indegree = (\<lambda>k. map_option card (ix_hub_referrers m k)),
      gi_project = (if g_units g = [] then None else Some (from_units (units_from_graph (g_units g))))\<rparr>"

definition load_graph_index_with ::
  "(string \<Rightarrow> string) \<Rightarrow> string set option option \<Rightarrow> graph \<Rightarrow> index_options \<Rightarrow> graph_index" where
  "load_graph_index_with lowercase manifest g opts =
     (let paths = (case manifest of Some p \<Rightarrow> p | None \<Rightarrow> None);
          defs_done = fold (index_def lowercase paths) (zip [0..<length (g_defs g)] (g_defs g)) empty_maps
      in finish_index g (manifest \<noteq> None)
           (fold (index_edge opts paths) (zip [0..<length (g_edges g)] (g_edges g)) defs_done))"

definition load_graph_index ::
  "(string \<Rightarrow> string) \<Rightarrow> string set option option \<Rightarrow> graph \<Rightarrow> graph_index" where
  "load_graph_index lowercase manifest g = load_graph_index_with lowercase manifest g default_options"

section \<open>Reading\<close>

definition gi_def :: "graph_index \<Rightarrow> string \<Rightarrow> graph_def option" where
  "gi_def ix ident = map_option (\<lambda>i. g_defs (gi_graph ix) ! i) (ix_by_id (gi_maps ix) ident)"

definition def_files :: "graph_index \<Rightarrow> string \<Rightarrow> string list" where
  "def_files ix ident =
     (case ix_by_id (gi_maps ix) ident of
        None \<Rightarrow> []
      | Some i \<Rightarrow>
          let d = g_defs (gi_graph ix) ! i
          in ss_order (fold ss_insert (map ai_file (d_also_in d)) (ss_insert (d_file d) ss_new)))"

definition def_sites :: "graph_index \<Rightarrow> string \<Rightarrow> (string \<times> nat) list" where
  "def_sites ix ident =
     (case ix_by_id (gi_maps ix) ident of
        None \<Rightarrow> []
      | Some i \<Rightarrow>
          let d = g_defs (gi_graph ix) ! i
          in (d_file d, d_line d) # map (\<lambda>a. (ai_file a, ai_line a)) (d_also_in d))"

definition inbound_walk_kinds :: "inbound_entry \<Rightarrow> nat list list" where
  "inbound_walk_kinds inb =
     [ie_inherits inb, ie_uses_type inb, ie_uses_member inb, ie_implements inb, ie_overrides inb,
      ie_bus_hop inb] @ ts_lists (ie_ts inb)"

text \<open>One edge of \<open>implemented_interfaces\<close>' loop.\<close>

definition note_interface :: "graph_index \<Rightarrow> nat \<Rightarrow> string seq_set \<Rightarrow> string seq_set" where
  "note_interface ix ei seen =
     (let e = g_edges (gi_graph ix) ! ei
      in if is_Inherits e \<or> is_Implements e then
           (if ss_contains seen (e_to e) then seen
            else if map_option d_kind (gi_def ix (e_to e)) \<noteq> Some ''interface'' then seen
            else ss_insert (e_to e) seen)
         else seen)"

definition implemented_interfaces :: "graph_index \<Rightarrow> string \<Rightarrow> string list" where
  "implemented_interfaces ix def_id =
     ss_into_vec (fold (\<lambda>file seen.
       case ix_outbound_by_file (gi_maps ix) file of
         None \<Rightarrow> seen
       | Some outb \<Rightarrow> fold (note_interface ix) (oe_inherits outb @ oe_implements outb) seen)
       (def_files ix def_id) ss_new)"

section \<open>Test files\<close>

definition TEST_EXTENSIONS :: "string list" where
  "TEST_EXTENSIONS = [''.ts'', ''.tsx'', ''.mts'', ''.cts'', ''.js'', ''.jsx'', ''.mjs'', ''.cjs'']"

definition TEST_SUFFIXES :: "string list" where
  "TEST_SUFFIXES =
     [''.spec.ts'', ''.spec.tsx'', ''.spec.mts'', ''.spec.cts'', ''.spec.js'', ''.spec.jsx'',
      ''.spec.mjs'', ''.spec.cjs'', ''.test.ts'', ''.test.tsx'', ''.test.mts'', ''.test.cts'',
      ''.test.js'', ''.test.jsx'', ''.test.mjs'', ''.test.cjs'']"

definition is_test_path :: "string \<Rightarrow> bool" where
  "is_test_path file \<longleftrightarrow>
     (if \<not> list_ex (\<lambda>ext. ends_with file ext) TEST_EXTENSIONS then False
      else if list_ex (\<lambda>sfx. ends_with file sfx) TEST_SUFFIXES then True
      else ''__tests__'' \<in> set (butlast (str_split CHR ''/'' file)))"

datatype test_via = Via_Attribute | Via_Project | Via_Path

definition find_test_via :: "graph_index \<Rightarrow> string \<Rightarrow> test_via option" where
  "find_test_via ix file =
     (if ix_test_defs_by_file (gi_maps ix) file \<noteq> None then Some Via_Attribute
      else if (case gi_project ix of
                 None \<Rightarrow> False
               | Some p \<Rightarrow>
                   (case unit_of_file p file of Some u \<Rightarrow> u_test (pm_units p ! u) | None \<Rightarrow> False))
        then Some Via_Project
      else if is_test_path file then Some Via_Path else None)"

definition is_test_file :: "graph_index \<Rightarrow> string \<Rightarrow> bool" where
  "is_test_file ix file \<longleftrightarrow> find_test_via ix file \<noteq> None"

section \<open>The adjacency is exactly the graph's edges\<close>

text \<open>
  The specification: under which definitions an edge is listed, kind by kind in the walk's
  order, and the list an inbound entry should then hold, every edge index in graph order.
\<close>

definition at_kind :: "nat \<Rightarrow> string list \<Rightarrow> string list list" where
  "at_kind k ts = map (\<lambda>j. if j = k then ts else []) [0..<10]"

fun inbound_keys :: "index_options \<Rightarrow> edge \<Rightarrow> string list list" where
  "inbound_keys opts (Inherits _ _ t _ h) = at_kind 0 (if h then [] else [t])"
| "inbound_keys opts (Uses_Type _ _ t _ h) = at_kind 1 (if h then [] else [t])"
| "inbound_keys opts (Uses_Member _ _ t _ h _ _ _ _) = at_kind 2 (if h then [] else [t])"
| "inbound_keys opts (Implements _ _ t _ _) = at_kind 3 (if io_include_dispatch opts then [t] else [])"
| "inbound_keys opts (Overrides _ _ t _ _) = at_kind 4 (if io_include_dispatch opts then [t] else [])"
| "inbound_keys opts (Bus_Hop _ _ _ t _ _) = at_kind 5 (if io_include_bus opts then [t] else [])"
| "inbound_keys opts (Call _ _ t _) = at_kind 6 [t]"
| "inbound_keys opts (Jsx_Use _ _ t _) = at_kind 7 [t]"
| "inbound_keys opts (Dispatch _ _ t _) = at_kind 8 [t]"
| "inbound_keys opts (Import _ _ _ _ _ bound) = at_kind 9 bound"
| "inbound_keys opts _ = at_kind 0 []"

definition listed :: "(edge \<Rightarrow> string list) \<Rightarrow> edge list \<Rightarrow> string \<Rightarrow> nat list" where
  "listed keys es d = concat (map (\<lambda>i. replicate (count_list (keys (es ! i)) d) i) [0..<length es])"

definition inbound_spec :: "index_options \<Rightarrow> edge list \<Rightarrow> string \<Rightarrow> nat list list" where
  "inbound_spec opts es d = map (\<lambda>k. listed (\<lambda>e. inbound_keys opts e ! k) es d) [0..<10]"

fun heuristic_keys :: "index_options \<Rightarrow> edge \<Rightarrow> string list list" where
  "heuristic_keys opts (Inherits f l t tf h) =
     at_kind 0 (if h \<and> admits opts (Inherits f l t tf h) then [t] else [])"
| "heuristic_keys opts (Uses_Type f l t tf h) =
     at_kind 1 (if h \<and> admits opts (Uses_Type f l t tf h) then [t] else [])"
| "heuristic_keys opts (Uses_Member f l t tf h tier mem src sig) =
     at_kind 2 (if h \<and> admits opts (Uses_Member f l t tf h tier mem src sig) then [t] else [])"
| "heuristic_keys opts _ = at_kind 0 []"

definition heuristic_spec :: "index_options \<Rightarrow> edge list \<Rightarrow> string \<Rightarrow> nat list list" where
  "heuristic_spec opts es d = map (\<lambda>k. listed (\<lambda>e. heuristic_keys opts e ! k) es d) [0..<10]"

named_theorems ix_frame

definition entry_kinds :: "(string \<Rightarrow> inbound_entry option) \<Rightarrow> string \<Rightarrow> nat list list" where
  "entry_kinds m d = inbound_walk_kinds (or_default ie_default (m d))"

lemma entry_kinds_update:
  "entry_kinds (entry_update k ie_default f m) d =
     (if d = k then inbound_walk_kinds (f (or_default ie_default (m k))) else entry_kinds m d)"
  by (simp add: entry_kinds_def)

lemma ix_frames [ix_frame]:
  "ix_inbound (on_outbound k fo m) = ix_inbound m"
  "ix_inbound (on_heuristic a b fh m) = ix_inbound m"
  "ix_inbound (note_dispatch_files p a b m) = ix_inbound m"
  "ix_inbound (on_inbound k fi m) = entry_update k ie_default fi (ix_inbound m)"
  "ix_heuristic_inbound (on_outbound k fo m) = ix_heuristic_inbound m"
  "ix_heuristic_inbound (on_inbound k fi m) = ix_heuristic_inbound m"
  "ix_heuristic_inbound (note_dispatch_files p a b m) = ix_heuristic_inbound m"
  "ix_heuristic_inbound (on_heuristic a b fh m) = entry_update b ie_default fh (ix_heuristic_inbound m)"
  "ix_outbound_by_file (on_inbound k fi m) = ix_outbound_by_file m"
  "ix_outbound_by_file (on_heuristic a b fh m) = ix_outbound_by_file m"
  "ix_outbound_by_file (note_dispatch_files p a b m) = ix_outbound_by_file m"
  "ix_outbound_by_file (on_outbound k fo m) = entry_update k oe_default fo (ix_outbound_by_file m)"
  by (simp_all add: on_outbound_def on_inbound_def on_heuristic_def note_dispatch_files_def)

lemma upt_10: "[0..<10] = [0, 1, 2, 3, 4, 5, 6, 7, 8, 9::nat]"
  by (simp add: upt_rec)

text \<open>Appending one edge's own occurrences, kind by kind.\<close>

definition append_kinds :: "nat list list \<Rightarrow> nat list list \<Rightarrow> nat list list" where
  "append_kinds xs ys = map2 (@) xs ys"

definition edge_occ :: "string list list \<Rightarrow> string \<Rightarrow> nat \<Rightarrow> nat list list" where
  "edge_occ keys d i = map (\<lambda>ts. replicate (count_list ts d) i) keys"

lemma fold_on_inbound:
  "or_default ie_default (ix_inbound (fold (\<lambda>t. on_inbound t g) ts m) d) =
   (g ^^ count_list ts d) (or_default ie_default (ix_inbound m d))"
  by (induction ts arbitrary: m) (auto simp: ix_frame entry_update_apply funpow_swap1)

lemma replicate_snoc: "replicate n x @ [x] = x # replicate n x"
  by (rule replicate_append_same)

lemma push_times:
  "inbound_walk_kinds (((\<lambda>x. x\<lparr>ie_ts := ts_push which i (ie_ts x)\<rparr>) ^^ n) x) =
   append_kinds (inbound_walk_kinds x)
     (map (\<lambda>ts. replicate (if ts = [] then 0 else n) i)
       (at_kind (case which of TS_Call \<Rightarrow> 6 | TS_Jsx_Use \<Rightarrow> 7 | TS_Dispatch \<Rightarrow> 8 | TS_Import \<Rightarrow> 9) [[]]))"
proof (induction n)
  case 0
  show ?case
    by (simp add: append_kinds_def at_kind_def upt_10 inbound_walk_kinds_def ts_lists_def)
next
  case (Suc n)
  then show ?case
    by (cases which)
      (simp_all add: append_kinds_def at_kind_def upt_10 inbound_walk_kinds_def ts_lists_def
        replicate_append_same [symmetric])
qed

lemma fold_ts_push:
  "entry_kinds (ix_inbound (fold (\<lambda>t. on_inbound t (\<lambda>x. x\<lparr>ie_ts := ts_push which i (ie_ts x)\<rparr>)) ts m)) d =
   append_kinds (entry_kinds (ix_inbound m) d)
     (edge_occ (at_kind (case which of TS_Call \<Rightarrow> 6 | TS_Jsx_Use \<Rightarrow> 7 | TS_Dispatch \<Rightarrow> 8 | TS_Import \<Rightarrow> 9) ts) d i)"
  unfolding entry_kinds_def fold_on_inbound push_times
  by (cases which) (simp_all add: edge_occ_def at_kind_def upt_10)

lemma entry_kinds_frame:
  "entry_kinds (ix_inbound m) d = append_kinds (entry_kinds (ix_inbound m) d) (edge_occ (at_kind k []) d i)"
  by (simp add: edge_occ_def at_kind_def append_kinds_def upt_10 entry_kinds_def inbound_walk_kinds_def ts_lists_def)

lemmas kinds_simps = edge_occ_def at_kind_def append_kinds_def upt_10 inbound_walk_kinds_def ts_lists_def

lemma record_ts_inbound:
  "admitted e = Some (a, b, ts, which) \<Longrightarrow>
   entry_kinds (ix_inbound (snd (record_ts_edge e i m))) d =
   append_kinds (entry_kinds (ix_inbound m) d)
     (edge_occ (at_kind (case which of TS_Call \<Rightarrow> 6 | TS_Jsx_Use \<Rightarrow> 7 | TS_Dispatch \<Rightarrow> 8 | TS_Import \<Rightarrow> 9) ts) d i)"
  by (simp add: record_ts_edge_def ix_frame fold_ts_push)

lemma inbound_step:
  "entry_kinds (ix_inbound (index_edge opts paths (i, e) m)) d =
   append_kinds (entry_kinds (ix_inbound m) d) (edge_occ (inbound_keys opts e) d i)"
proof (cases e)
  case (Import f l t tf v b)
  show ?thesis
  proof (cases "b = []")
    case True
    with Import show ?thesis
      by (simp add: record_ts_edge_def index_arms) (rule entry_kinds_frame)
  next
    case False
    with Import show ?thesis
      using record_ts_inbound [of e f tf b TS_Import i m d]
      by (simp add: record_ts_edge_def index_arms ix_frame split_def)
  qed
qed (auto simp: ix_frame record_ts_edge_def index_arms record_dispatch_edge_def record_bus_edge_def Let_def
      entry_kinds_update entry_kinds_def kinds_simps)

lemma heuristic_step:
  "entry_kinds (ix_heuristic_inbound (index_edge opts paths (i, e) m)) d =
   append_kinds (entry_kinds (ix_heuristic_inbound m) d) (edge_occ (heuristic_keys opts e) d i)"
proof (cases e)
  case (Import f l t tf v b)
  have frame: "ix_heuristic_inbound (fold (\<lambda>t. on_inbound t g) ts m) = ix_heuristic_inbound m" for g ts m
    by (induction ts arbitrary: m) (auto simp: ix_frame)
  show ?thesis unfolding Import
    by (simp add: record_ts_edge_def index_arms ix_frame frame entry_kinds_def kinds_simps)
qed (auto simp: ix_frame record_ts_edge_def index_arms record_dispatch_edge_def record_bus_edge_def Let_def
      entry_kinds_update entry_kinds_def kinds_simps)

lemma length_keys [simp]:
  "length (inbound_keys opts e) = 10" "length (heuristic_keys opts e) = 10"
  by (cases e; simp add: at_kind_def)+

lemma zip_upt_snoc:
  "zip [0..<length (es @ [e])] (es @ [e]) = zip [0..<length es] es @ [(length es, e)]"
  by simp

lemma listed_snoc:
  "listed keys (es @ [e]) d = listed keys es d @ replicate (count_list (keys e) d) (length es)"
proof -
  have eq: "map (\<lambda>i. replicate (count_list (keys ((es @ [e]) ! i)) d) i) [0..<length es]
      = map (\<lambda>i. replicate (count_list (keys (es ! i)) d) i) [0..<length es]"
    by (rule map_cong) (auto simp: nth_append)
  show ?thesis
    unfolding listed_def length_append_singleton upt_Suc_append [OF le0] map_append concat_append eq
    by simp
qed

lemma listed_kinds_snoc:
  assumes "length (keys e) = 10"
  shows "map (\<lambda>k. listed (\<lambda>e. keys e ! k) (es @ [e]) d) [0..<10] =
    append_kinds (map (\<lambda>k. listed (\<lambda>e. keys e ! k) es d) [0..<10]) (edge_occ (keys e) d (length es))"
  by (rule nth_equalityI)
    (use assms in \<open>simp_all add: listed_snoc append_kinds_def edge_occ_def del: upt_Suc\<close>)

lemma index_defs_frame:
  "ix_inbound (fold (index_def lowercase paths) ps m) = ix_inbound m"
  "ix_heuristic_inbound (fold (index_def lowercase paths) ps m) = ix_heuristic_inbound m"
  "ix_outbound_by_file (fold (index_def lowercase paths) ps m) = ix_outbound_by_file m"
  "ix_ambiguous_by_candidate (fold (index_def lowercase paths) ps m) = ix_ambiguous_by_candidate m"
  "ix_ctor_di_by_to (fold (index_def lowercase paths) ps m) = ix_ctor_di_by_to m"
  "ix_ctor_di_sites (fold (index_def lowercase paths) ps m) = ix_ctor_di_sites m"
  "ix_hub_referrers (fold (index_def lowercase paths) ps m) = ix_hub_referrers m"
  by (induction ps arbitrary: m) (auto simp: index_def_def)

lemma empty_kinds: "entry_kinds (\<lambda>_. None) d = map (\<lambda>k. listed (keys k) [] d) [0..<10]"
  by (simp add: entry_kinds_def kinds_simps ie_default_def ts_default_def listed_def)

lemma fold_edges_inbound:
  "ix_inbound m0 = (\<lambda>_. None) \<Longrightarrow>
   entry_kinds (ix_inbound (fold (index_edge opts paths) (zip [0..<length es] es) m0)) d = inbound_spec opts es d"
proof (induction es rule: rev_induct)
  case Nil
  then show ?case by (simp add: inbound_spec_def empty_kinds)
next
  case (snoc e es)
  then show ?case
    unfolding zip_upt_snoc fold_append
    by (simp add: inbound_step inbound_spec_def listed_kinds_snoc del: upt_Suc)
qed

lemma fold_edges_heuristic:
  "ix_heuristic_inbound m0 = (\<lambda>_. None) \<Longrightarrow>
   entry_kinds (ix_heuristic_inbound (fold (index_edge opts paths) (zip [0..<length es] es) m0)) d
   = heuristic_spec opts es d"
proof (induction es rule: rev_induct)
  case Nil
  then show ?case by (simp add: heuristic_spec_def empty_kinds)
next
  case (snoc e es)
  then show ?case
    unfolding zip_upt_snoc fold_append
    by (simp add: heuristic_step heuristic_spec_def listed_kinds_snoc del: upt_Suc)
qed

text \<open>
  C19. The precise adjacency of a definition is the graph's edges to it: for each of the ten
  kinds the walk crosses, in order, the entry lists exactly the edges of that kind naming the
  definition that are no guess and that the options admit, in graph order.
\<close>

theorem inbound_adjacency_exact:
  "inbound_walk_kinds (or_default ie_default
     (ix_inbound (gi_maps (load_graph_index_with lowercase manifest g opts)) d))
   = inbound_spec opts (g_edges g) d"
  using fold_edges_inbound [of _ opts _ "g_edges g" d]
  by (simp add: load_graph_index_with_def finish_index_def Let_def index_defs_frame empty_maps_def flip: entry_kinds_def
      del: upt_Suc)

text \<open>
  The guesses stand in an adjacency of their own: it lists exactly the flagged edges, and
  without \<open>include_guesses\<close> only those of the extension tier.
\<close>

theorem heuristic_adjacency_exact:
  "inbound_walk_kinds (or_default ie_default
     (ix_heuristic_inbound (gi_maps (load_graph_index_with lowercase manifest g opts)) d))
   = heuristic_spec opts (g_edges g) d"
  using fold_edges_heuristic [of _ opts _ "g_edges g" d]
  by (simp add: load_graph_index_with_def finish_index_def Let_def index_defs_frame empty_maps_def flip: entry_kinds_def
      del: upt_Suc)

lemma in_listed: "i \<in> set (listed keys es d) \<longleftrightarrow> i < length es \<and> d \<in> set (keys (es ! i))"
  by (auto simp: listed_def count_list_0_iff split: if_splits)

text \<open>So no precise list holds a guess or a \<open>ctor-di\<close> edge, and every index is in range.\<close>

lemma inbound_keys_kind:
  "k < 10 \<Longrightarrow> d \<in> set (inbound_keys opts e ! k) \<Longrightarrow> \<not> is_heuristic e \<and> \<not> is_Ctor_Di e"
  by (cases e) (auto simp: at_kind_def split: if_splits)

lemma inbound_lists_precise:
  assumes "es' \<in> set (inbound_spec opts es d)" "i \<in> set es'"
  shows "i < length es \<and> \<not> is_heuristic (es ! i) \<and> \<not> is_Ctor_Di (es ! i)"
proof -
  obtain k where k: "k < 10" "es' = listed (\<lambda>e. inbound_keys opts e ! k) es d"
    using assms(1) by (auto simp: inbound_spec_def)
  with assms(2) have "i < length es" "d \<in> set (inbound_keys opts (es ! i) ! k)"
    by (simp_all add: in_listed)
  with inbound_keys_kind [OF k(1)] show ?thesis by blast
qed

section \<open>The hub count\<close>

text \<open>The two files of an edge the hub count sees.\<close>

fun counted_files :: "index_options \<Rightarrow> edge \<Rightarrow> (string \<times> string) option" where
  "counted_files opts (Inherits f _ _ tf _) = Some (f, tf)"
| "counted_files opts (Uses_Type f _ _ tf _) = Some (f, tf)"
| "counted_files opts (Uses_Member f _ _ tf _ _ _ _ _) = Some (f, tf)"
| "counted_files opts (Implements f _ _ tf _) = Some (f, tf)"
| "counted_files opts (Overrides f _ _ tf _) = Some (f, tf)"
| "counted_files opts (Bus_Hop f _ _ _ tf _) = (if io_include_bus opts then Some (f, tf) else None)"
| "counted_files opts (Call f _ _ tf) = Some (f, tf)"
| "counted_files opts (Jsx_Use f _ _ tf) = Some (f, tf)"
| "counted_files opts (Dispatch f _ _ tf) = Some (f, tf)"
| "counted_files opts (Import f _ _ tf _ b) = (if b = [] then None else Some (f, tf))"
| "counted_files opts _ = None"

definition referrers :: "index_options \<Rightarrow> edge list \<Rightarrow> string \<Rightarrow> string set" where
  "referrers opts es f = {f'. f' \<noteq> f \<and> f \<noteq> [] \<and> f' \<noteq> [] \<and> (\<exists>e \<in> set es. counted_files opts e = Some (f', f))}"

definition count_in :: "(string \<times> string) option \<Rightarrow> string \<Rightarrow> string set \<Rightarrow> string set" where
  "count_in p f s =
     (case p of Some (a, b) \<Rightarrow> if b = f \<and> a \<noteq> f \<and> a \<noteq> [] \<and> f \<noteq> [] then insert a s else s | None \<Rightarrow> s)"

lemma hub_frames:
  "ix_hub_referrers (on_inbound k fi m) = ix_hub_referrers m"
  "ix_hub_referrers (on_outbound k fo m) = ix_hub_referrers m"
  "ix_hub_referrers (on_heuristic a b fh m) = ix_hub_referrers m"
  "or_default {} (ix_hub_referrers (note_dispatch_files p a b m) f)
   = count_in (Some (a, b)) f (or_default {} (ix_hub_referrers m f))"
  by (auto simp: on_outbound_def on_inbound_def on_heuristic_def note_dispatch_files_def count_in_def)

lemma hub_fold_inbound: "ix_hub_referrers (fold (\<lambda>t. on_inbound t g) ts m) = ix_hub_referrers m"
  by (induction ts arbitrary: m) (auto simp: hub_frames)

lemma hub_step:
  "or_default {} (ix_hub_referrers (index_edge opts paths (i, e) m) f)
   = count_in (counted_files opts e) f (or_default {} (ix_hub_referrers m f))"
  by (cases e) (simp_all add: hub_frames record_ts_edge_def record_dispatch_edge_def record_bus_edge_def
      index_arms Let_def hub_fold_inbound count_in_def)

lemma referrers_snoc: "referrers opts (es @ [e]) f = count_in (counted_files opts e) f (referrers opts es f)"
  by (cases "counted_files opts e") (auto simp: referrers_def count_in_def split: if_splits)

lemma fold_edges_hub:
  "ix_hub_referrers m0 = (\<lambda>_. None) \<Longrightarrow>
   or_default {} (ix_hub_referrers (fold (index_edge opts paths) (zip [0..<length es] es) m0) f)
   = referrers opts es f"
proof (induction es rule: rev_induct)
  case Nil
  then show ?case by (simp add: referrers_def)
next
  case (snoc e es)
  then show ?case
    unfolding zip_upt_snoc fold_append
    by (simp add: hub_step referrers_snoc del: upt_Suc)
qed

text \<open>
  A file's hub in-degree is the number of distinct other files that refer to it: guesses
  count even when they are left out, a file's own references never do.
\<close>

theorem hub_indegree_counts_referrers:
  "or_default 0 (gi_hub_indegree (load_graph_index_with lowercase manifest g opts) f)
   = card (referrers opts (g_edges g) f)"
proof -
  define m where "m = fold (index_edge opts (case manifest of Some p \<Rightarrow> p | None \<Rightarrow> None))
    (zip [0..<length (g_edges g)] (g_edges g))
    (fold (index_def lowercase (case manifest of Some p \<Rightarrow> p | None \<Rightarrow> None))
      (zip [0..<length (g_defs g)] (g_defs g)) empty_maps)"
  have "or_default {} (ix_hub_referrers m f) = referrers opts (g_edges g) f"
    unfolding m_def by (rule fold_edges_hub) (simp add: index_defs_frame empty_maps_def)
  moreover have "gi_hub_indegree (load_graph_index_with lowercase manifest g opts) f
      = map_option card (ix_hub_referrers m f)"
    by (simp add: load_graph_index_with_def finish_index_def Let_def m_def)
  ultimately show ?thesis by (cases "ix_hub_referrers m f") auto
qed

section \<open>Declaring files\<close>

lemma def_files_set:
  "ix_by_id (gi_maps ix) ident = Some i \<Longrightarrow>
   set (def_files ix ident) =
     insert (d_file (g_defs (gi_graph ix) ! i)) (ai_file ` set (d_also_in (g_defs (gi_graph ix) ! i)))"
  by (simp add: def_files_def Let_def ssl.set_fold [OF ssl.ok_ins [OF ssl.ok_empty]]
      ssl.elems_ins [OF ssl.ok_empty] del: fold.simps)

lemma def_files_distinct: "distinct (def_files ix ident)"
  using ssl.distinct_fold [OF ssl.ok_ins [OF ssl.ok_empty]]
  by (auto simp: def_files_def Let_def ssl.elems_ins [OF ssl.ok_empty] split: option.splits)

lemma def_files_unknown: "ix_by_id (gi_maps ix) ident = None \<Longrightarrow> def_files ix ident = []"
  by (simp add: def_files_def)

text \<open>The interfaces of the interface hop are interfaces, each once.\<close>

lemma fold_note_interface_ok: "ss_ok s \<Longrightarrow> ss_ok (fold (note_interface ix) es s)"
  by (induction es arbitrary: s) (auto simp: note_interface_def Let_def ssl.ok_ins)

lemma note_interface_kind:
  "ss_ok s \<Longrightarrow> x \<in> set (ss_order (note_interface ix ei s)) \<Longrightarrow>
   x \<in> set (ss_order s) \<or> map_option d_kind (gi_def ix x) = Some ''interface''"
  by (auto simp: note_interface_def Let_def ssl.elems_ins split: if_splits)

end
