(* ===== verification/Impact.thy ===== *)
theory Impact
  imports GraphIndex
begin

text \<open>
  The blast radius of a symbol: \<open>src/query/impact.rs\<close> (the reverse walk with its two brakes)
  and \<open>src/query/impact_why.rs\<close> (what the walk records per file). The walk's mutable maps are
  the fields of two records, one for the loop over the frontier and one for the loop over the
  files hit; each loop body is one function, folded in the source's order. A map whose iteration
  order the source sorts away (\<open>braked\<close>, \<open>braked_files\<close>) is an association list. Counters of
  type \<open>u32\<close> are natural numbers: each is bounded by the number of edges.
\<close>

section \<open>What a hit records\<close>

record kind_lines =
  kl_direct :: nat
  kl_direct_amb :: nat
  kl_ctor_di :: nat
  kl_heuristic :: nat
  kl_iface :: nat
  kl_bus :: nat

definition kl_default :: kind_lines where
  "kl_default = \<lparr>kl_direct = 0, kl_direct_amb = 0, kl_ctor_di = 0, kl_heuristic = 0, kl_iface = 0, kl_bus = 0\<rparr>"

definition note_line :: "nat \<Rightarrow> nat \<Rightarrow> nat" where
  "note_line slot line = (if 0 < line \<and> (slot = 0 \<or> line < slot) then line else slot)"

text \<open>\<open>BusOrigin\<close> with its derived order: the fields, lexicographically.\<close>

datatype bus_origin =
  Bus_Origin (bo_file: string) (bo_line: nat) (bo_message: string) (bo_to: string) (bo_to_file: string)

definition bo_key :: "bus_origin \<Rightarrow> string \<times> nat \<times> string \<times> string \<times> string" where
  "bo_key b = (bo_file b, bo_line b, bo_message b, bo_to b, bo_to_file b)"

lemma bo_key_inject: "bo_key a = bo_key b \<longleftrightarrow> a = b"
  by (cases a; cases b) (auto simp: bo_key_def)

instantiation bus_origin :: linorder
begin

definition less_eq_bus_origin :: "bus_origin \<Rightarrow> bus_origin \<Rightarrow> bool" where
  "less_eq_bus_origin a b \<longleftrightarrow> bo_key a \<le> bo_key b"

definition less_bus_origin :: "bus_origin \<Rightarrow> bus_origin \<Rightarrow> bool" where
  "less_bus_origin a b \<longleftrightarrow> bo_key a < bo_key b"

instance
proof
  fix x y z :: bus_origin
  show "x < y \<longleftrightarrow> x \<le> y \<and> \<not> y \<le> x" by (auto simp: less_eq_bus_origin_def less_bus_origin_def)
  show "x \<le> x" by (simp add: less_eq_bus_origin_def)
  show "x \<le> y \<Longrightarrow> y \<le> z \<Longrightarrow> x \<le> z" unfolding less_eq_bus_origin_def by (rule order_trans)
  show "x \<le> y \<Longrightarrow> y \<le> x \<Longrightarrow> x = y"
    unfolding less_eq_bus_origin_def by (metis bo_key_inject order_antisym)
  show "x \<le> y \<or> y \<le> x" unfolding less_eq_bus_origin_def by (rule linear)
qed

end

record why_track =
  wt_direct :: "why option"
  wt_direct_amb :: "why option"
  wt_heuristic :: "why option"
  wt_iface :: "why option"
  wt_bus :: "why option"

definition wt_default :: why_track where
  "wt_default = \<lparr>wt_direct = None, wt_direct_amb = None, wt_heuristic = None, wt_iface = None, wt_bus = None\<rparr>"

record hit =
  h_via_count :: nat
  h_ambiguous_count :: nat
  h_heuristic_count :: nat
  h_ext_count :: nat
  h_symbols :: "string seq_set"
  h_iface_via :: "string seq_set"
  h_lines :: kind_lines
  h_why_track :: why_track
  h_has_non_bus_path :: bool
  h_bus_origin :: "bus_origin option"

definition hit_default :: hit where
  "hit_default =
     \<lparr>h_via_count = 0, h_ambiguous_count = 0, h_heuristic_count = 0, h_ext_count = 0,
      h_symbols = ss_new, h_iface_via = ss_new, h_lines = kl_default, h_why_track = wt_default,
      h_has_non_bus_path = False, h_bus_origin = None\<rparr>"

text \<open>
  \<open>note_line_why\<close> on one line slot and its reason slot. The reason is \<open>why_for_edge\<close>'s
  answer: an edge that would make the source panic leaves \<open>None\<close> here, and none is passed.
\<close>

definition note_line_why :: "nat \<Rightarrow> why option \<Rightarrow> nat \<Rightarrow> why option \<Rightarrow> nat \<times> why option" where
  "note_line_why slot why_slot line reason =
     (if 0 < line \<and> (slot = 0 \<or> line < slot) then (line, reason) else (slot, why_slot))"

definition note_bus_origin :: "bus_origin \<Rightarrow> hit \<Rightarrow> hit" where
  "note_bus_origin origin h =
     (case h_bus_origin h of
        None \<Rightarrow> h\<lparr>h_bus_origin := Some origin\<rparr>
      | Some existing \<Rightarrow> if origin < existing then h\<lparr>h_bus_origin := Some origin\<rparr> else h)"

definition note_taint :: "bus_origin option \<Rightarrow> hit \<Rightarrow> hit" where
  "note_taint origin h =
     (case origin of Some ob \<Rightarrow> note_bus_origin ob h | None \<Rightarrow> h\<lparr>h_has_non_bus_path := True\<rparr>)"

definition note_direct :: "nat \<Rightarrow> edge \<Rightarrow> bus_origin option \<Rightarrow> hit \<Rightarrow> hit" where
  "note_direct line e origin h =
     (case note_line_why (kl_direct (h_lines h)) (wt_direct (h_why_track h)) line (why_for_edge e) of
        (l, w) \<Rightarrow> note_taint origin
          (h\<lparr>h_lines := (h_lines h)\<lparr>kl_direct := l\<rparr>, h_why_track := (h_why_track h)\<lparr>wt_direct := w\<rparr>\<rparr>))"

definition note_direct_amb :: "nat \<Rightarrow> edge \<Rightarrow> bus_origin option \<Rightarrow> hit \<Rightarrow> hit" where
  "note_direct_amb line e origin h =
     (case note_line_why (kl_direct_amb (h_lines h)) (wt_direct_amb (h_why_track h)) line (why_for_edge e) of
        (l, w) \<Rightarrow> note_taint origin
          (h\<lparr>h_lines := (h_lines h)\<lparr>kl_direct_amb := l\<rparr>,
             h_why_track := (h_why_track h)\<lparr>wt_direct_amb := w\<rparr>\<rparr>))"

definition note_iface :: "nat \<Rightarrow> edge \<Rightarrow> bus_origin option \<Rightarrow> hit \<Rightarrow> hit" where
  "note_iface line e origin h =
     (case note_line_why (kl_iface (h_lines h)) (wt_iface (h_why_track h)) line (why_for_edge e) of
        (l, w) \<Rightarrow> note_taint origin
          (h\<lparr>h_lines := (h_lines h)\<lparr>kl_iface := l\<rparr>, h_why_track := (h_why_track h)\<lparr>wt_iface := w\<rparr>\<rparr>))"

definition note_heuristic :: "nat \<Rightarrow> edge \<Rightarrow> bus_origin option \<Rightarrow> hit \<Rightarrow> hit" where
  "note_heuristic line e origin h =
     (case note_line_why (kl_heuristic (h_lines h)) (wt_heuristic (h_why_track h)) line (why_for_edge e) of
        (l, w) \<Rightarrow> note_taint origin
          (h\<lparr>h_lines := (h_lines h)\<lparr>kl_heuristic := l\<rparr>,
             h_why_track := (h_why_track h)\<lparr>wt_heuristic := w\<rparr>\<rparr>))"

definition note_bus :: "nat \<Rightarrow> edge \<Rightarrow> hit \<Rightarrow> hit" where
  "note_bus line e h =
     (case note_line_why (kl_bus (h_lines h)) (wt_bus (h_why_track h)) line (why_for_edge e) of
        (l, w) \<Rightarrow>
          let h' = h\<lparr>h_lines := (h_lines h)\<lparr>kl_bus := l\<rparr>, h_why_track := (h_why_track h)\<lparr>wt_bus := w\<rparr>\<rparr>
          in if is_Bus_Hop e
             then note_bus_origin
                    (Bus_Origin (e_from_file e) (e_from_line e) (e_message e) (e_to e) (e_to_file e)) h'
             else h')"

definition note_kind_edge :: "nat \<Rightarrow> edge \<Rightarrow> bus_origin option \<Rightarrow> hit \<Rightarrow> hit" where
  "note_kind_edge line e origin h =
     (if is_Bus_Hop e then note_bus line e h else note_direct line e origin h)"

definition from_lines_of :: "kind_lines \<Rightarrow> (string \<times> nat) list" where
  "from_lines_of l =
     (let direct = (if kl_direct l \<noteq> 0 then kl_direct l else kl_direct_amb l)
      in (if direct \<noteq> 0 then [(''direct'', direct)] else [])
         @ (if kl_ctor_di l \<noteq> 0 then [(''ctor-di'', kl_ctor_di l)] else [])
         @ (if kl_heuristic l \<noteq> 0 then [(''heuristic'', kl_heuristic l)] else [])
         @ (if kl_iface l \<noteq> 0 then [(''iface'', kl_iface l)] else [])
         @ (if kl_bus l \<noteq> 0 then [(''bus'', kl_bus l)] else []))"

definition primary_why :: "kind_lines \<Rightarrow> why_track \<Rightarrow> why" where
  "primary_why l t =
     (if kl_ctor_di l \<noteq> 0 then Why_Ctor_Di
      else if kl_direct l \<noteq> 0 then or_default Why_Uses_Member_Precise (wt_direct t)
      else if kl_direct_amb l \<noteq> 0 then or_default Why_Uses_Member_Precise (wt_direct_amb t)
      else if kl_iface l \<noteq> 0 then or_default Why_Uses_Member_Precise (wt_iface t)
      else if kl_heuristic l \<noteq> 0 \<or> wt_heuristic t \<noteq> None
        then or_default Why_Uses_Member_Guess (wt_heuristic t)
      else or_default Why_Bus_Hop (wt_bus t))"

record visited_entry =
  ve_hop :: nat
  ve_via_count :: nat
  ve_ambiguous_count :: nat
  ve_heuristic_count :: nat
  ve_ext_count :: nat
  ve_symbols :: "string list"
  ve_iface_via :: "string list"
  ve_lines :: kind_lines
  ve_infra :: bool
  ve_why :: why
  ve_bus_only :: bool
  ve_bus_origin :: "bus_origin option"

definition build_visited_entry :: "nat \<Rightarrow> bool \<Rightarrow> hit \<Rightarrow> visited_entry" where
  "build_visited_entry hop infra h =
     \<lparr>ve_hop = hop, ve_via_count = h_via_count h, ve_ambiguous_count = h_ambiguous_count h,
      ve_heuristic_count = h_heuristic_count h, ve_ext_count = h_ext_count h,
      ve_symbols = ss_into_vec (h_symbols h), ve_iface_via = ss_into_vec (h_iface_via h),
      ve_lines = h_lines h, ve_infra = infra, ve_why = primary_why (h_lines h) (h_why_track h),
      ve_bus_only = (\<not> h_has_non_bus_path h),
      ve_bus_origin = (if h_has_non_bus_path h then None else h_bus_origin h)\<rparr>"

section \<open>One frontier definition\<close>

text \<open>The maps the loop over the frontier writes: \<open>hits\<close>, \<open>fwd_adj\<close> and \<open>braked\<close>.\<close>

record hop_state =
  hs_hits :: "hit seq_map"
  hs_fwd_adj :: "string \<Rightarrow> string set option"
  hs_braked :: "(string \<times> nat) list"

definition hash_insert :: "'k \<Rightarrow> 'v \<Rightarrow> ('k \<times> 'v) list \<Rightarrow> ('k \<times> 'v) list" where
  "hash_insert k v m = filter (\<lambda>p. fst p \<noteq> k) m @ [(k, v)]"

definition add_adj :: "string \<Rightarrow> string \<Rightarrow> (string \<Rightarrow> string set option) \<Rightarrow> string \<Rightarrow> string set option" where
  "add_adj from_file to_file m = entry_update from_file {} (insert to_file) m"

definition on_hit :: "string \<Rightarrow> (hit \<Rightarrow> hit) \<Rightarrow> hop_state \<Rightarrow> hop_state" where
  "on_hit file f st = st\<lparr>hs_hits := sm_update file hit_default f (hs_hits st)\<rparr>"

definition link_files :: "string list \<Rightarrow> string \<Rightarrow> hop_state \<Rightarrow> hop_state" where
  "link_files files to_file st =
     st\<lparr>hs_fwd_adj := fold (\<lambda>sf. add_adj sf to_file) files (hs_fwd_adj st)\<rparr>"

definition count_via :: "string \<Rightarrow> hit \<Rightarrow> hit" where
  "count_via def_id h =
     h\<lparr>h_via_count := h_via_count h + 1, h_symbols := ss_insert def_id (h_symbols h)\<rparr>"

abbreviation edge_at :: "graph_index \<Rightarrow> nat \<Rightarrow> edge" where
  "edge_at ix ei \<equiv> g_edges (gi_graph ix) ! ei"

text \<open>An inbound edge of one of the ten kinds.\<close>

definition walk_inbound ::
  "graph_index \<Rightarrow> string \<Rightarrow> bus_origin option \<Rightarrow> nat \<Rightarrow> hop_state \<Rightarrow> hop_state" where
  "walk_inbound ix def_id taint ei st =
     (case edge_loc (edge_at ix ei) of
        (from_file, line) \<Rightarrow>
          link_files (def_files ix def_id) from_file
            (on_hit from_file (\<lambda>h. note_kind_edge line (edge_at ix ei) taint (count_via def_id h)) st))"

text \<open>An ambiguous edge naming the definition as a candidate.\<close>

definition walk_ambiguous ::
  "graph_index \<Rightarrow> string \<Rightarrow> bus_origin option \<Rightarrow> nat \<Rightarrow> hop_state \<Rightarrow> hop_state" where
  "walk_ambiguous ix def_id taint ei st =
     (case edge_loc (edge_at ix ei) of
        (from_file, line) \<Rightarrow>
          link_files (def_files ix def_id) from_file
            (on_hit from_file (\<lambda>h. note_direct_amb line (edge_at ix ei) taint
               (h\<lparr>h_ambiguous_count := h_ambiguous_count h + 1\<rparr>)) st))"

text \<open>The forward half of a bus hop, from one of the definition's own files.\<close>

definition walk_bus ::
  "graph_index \<Rightarrow> string \<Rightarrow> bus_origin option \<Rightarrow> string \<Rightarrow> nat \<Rightarrow> hop_state \<Rightarrow> hop_state" where
  "walk_bus ix def_id taint file ei st =
     (case edge_at ix ei of
        Bus_Hop _ from_line _ _ to_file _ \<Rightarrow>
          link_files [file] to_file
            (on_hit to_file (\<lambda>h. note_kind_edge from_line (edge_at ix ei) taint (count_via def_id h)) st)
      | _ \<Rightarrow> st)"

text \<open>\<open>brake_fanin\<close>: whether the injected type is braked, and the map with it recorded.\<close>

definition fanin_of :: "graph_index \<Rightarrow> string \<Rightarrow> nat" where
  "fanin_of ix name = or_default 0 (gi_ctor_di_fanin ix name)"

definition brake_fanin ::
  "graph_index \<Rightarrow> nat \<Rightarrow> string \<Rightarrow> (string \<times> nat) list \<Rightarrow> bool \<times> (string \<times> nat) list" where
  "brake_fanin ix iface_max_fanin name braked =
     (if iface_max_fanin = 0 then (False, braked)
      else if fanin_of ix name \<le> iface_max_fanin then (False, braked)
      else (True, hash_insert name (fanin_of ix name) braked))"

text \<open>The interface hop keeps the sites already counted beside the walk's maps.\<close>

type_synonym iface_state = "(string \<times> nat) set \<times> hop_state"

definition walk_ctor_di ::
  "graph_index \<Rightarrow> nat \<Rightarrow> string \<Rightarrow> bus_origin option \<Rightarrow> nat \<Rightarrow> iface_state \<Rightarrow> iface_state" where
  "walk_ctor_di ix iface_max_fanin def_id taint ei s =
     (case s of (seen_sites, st) \<Rightarrow>
       (case edge_at ix ei of
          Ctor_Di from_file from_line iface_name _ _ _ _ \<Rightarrow>
            (case brake_fanin ix iface_max_fanin iface_name (hs_braked st) of
               (True, b) \<Rightarrow> (seen_sites, st\<lparr>hs_braked := b\<rparr>)
             | (False, b) \<Rightarrow>
                 (insert (from_file, from_line) seen_sites,
                  link_files (def_files ix def_id) from_file
                    (on_hit from_file (\<lambda>h.
                       note_taint taint
                         ((count_via def_id h)
                            \<lparr>h_iface_via := ss_insert (iface_name @ '' (ctor-di)'') (h_iface_via h),
                             h_lines := (h_lines h)\<lparr>kl_ctor_di := note_line (kl_ctor_di (h_lines h)) from_line\<rparr>\<rparr>))
                       (st\<lparr>hs_braked := b\<rparr>))))
        | _ \<Rightarrow> (seen_sites, st)))"

definition walk_iface_edge ::
  "graph_index \<Rightarrow> string \<Rightarrow> string \<Rightarrow> bus_origin option \<Rightarrow> nat \<Rightarrow> iface_state \<Rightarrow> iface_state" where
  "walk_iface_edge ix iface_name def_id taint ei s =
     (case s of (seen_sites, st) \<Rightarrow>
       (case edge_loc (edge_at ix ei) of
          (from_file, line) \<Rightarrow>
            if (from_file, line) \<in> seen_sites then (seen_sites, st)
            else (insert (from_file, line) seen_sites,
                  link_files (def_files ix def_id) from_file
                    (on_hit from_file (\<lambda>h.
                       note_iface line (edge_at ix ei) taint
                         ((count_via def_id h)\<lparr>h_iface_via := ss_insert iface_name (h_iface_via h)\<rparr>)) st))))"

definition walk_interface ::
  "graph_index \<Rightarrow> nat \<Rightarrow> string \<Rightarrow> bus_origin option \<Rightarrow> string \<Rightarrow> iface_state \<Rightarrow> iface_state" where
  "walk_interface ix iface_max_fanin def_id taint iface_id s =
     (case s of (seen_sites, st) \<Rightarrow>
       (case ix_inbound (gi_maps ix) iface_id of
          None \<Rightarrow> (seen_sites, st)
        | Some inb \<Rightarrow>
            let iface_name = (case gi_def ix iface_id of Some d \<Rightarrow> d_name d | None \<Rightarrow> iface_id)
            in (case brake_fanin ix iface_max_fanin iface_name (hs_braked st) of
                  (True, b) \<Rightarrow> (seen_sites, st\<lparr>hs_braked := b\<rparr>)
                | (False, b) \<Rightarrow>
                    fold (walk_iface_edge ix iface_name def_id taint)
                      (ie_uses_type inb @ ie_uses_member inb) (seen_sites, st\<lparr>hs_braked := b\<rparr>))))"

text \<open>A guess reaches a file and stops there: no link, no expansion.\<close>

definition walk_heuristic ::
  "graph_index \<Rightarrow> string \<Rightarrow> bus_origin option \<Rightarrow> nat \<Rightarrow> hop_state \<Rightarrow> hop_state" where
  "walk_heuristic ix def_id taint ei st =
     (case edge_loc (edge_at ix ei) of
        (from_file, line) \<Rightarrow>
          on_hit from_file (\<lambda>h. note_heuristic line (edge_at ix ei) taint
            (h\<lparr>h_heuristic_count := h_heuristic_count h + 1,
               h_ext_count := (if edge_tier (edge_at ix ei) = Some Tier_Ext then h_ext_count h + 1 else h_ext_count h),
               h_symbols := ss_insert def_id (h_symbols h)\<rparr>)) st)"

text \<open>The body of \<open>for def_id in frontier.iter()\<close>.\<close>

definition walk_def ::
  "graph_index \<Rightarrow> bool \<Rightarrow> nat \<Rightarrow> (string \<Rightarrow> bus_origin option option) \<Rightarrow> string \<Rightarrow> hop_state \<Rightarrow> hop_state" where
  "walk_def ix iface iface_max_fanin def_taint def_id st =
     (let taint = (case def_taint def_id of Some t \<Rightarrow> t | None \<Rightarrow> None);
          st1 = (case ix_inbound (gi_maps ix) def_id of
                   Some inb \<Rightarrow> fold (walk_inbound ix def_id taint) (concat (inbound_walk_kinds inb)) st
                 | None \<Rightarrow> st);
          st2 = (case ix_ambiguous_by_candidate (gi_maps ix) def_id of
                   Some es \<Rightarrow> fold (walk_ambiguous ix def_id taint) es st1
                 | None \<Rightarrow> st1);
          st3 = fold (\<lambda>file s.
                   case ix_outbound_by_file (gi_maps ix) file of
                     Some outb \<Rightarrow> fold (walk_bus ix def_id taint file) (oe_bus_hop outb) s
                   | None \<Rightarrow> s) (def_files ix def_id) st2;
          st4 = (if iface then
                   snd (fold (walk_interface ix iface_max_fanin def_id taint) (implemented_interfaces ix def_id)
                     (case ix_ctor_di_by_to (gi_maps ix) def_id of
                        Some es \<Rightarrow> fold (walk_ctor_di ix iface_max_fanin def_id taint) es ({}, st3)
                      | None \<Rightarrow> ({}, st3)))
                 else st3)
      in case ix_heuristic_inbound (gi_maps ix) def_id of
           Some hinb \<Rightarrow> fold (walk_heuristic ix def_id taint)
             (ie_inherits hinb @ ie_uses_type hinb @ ie_uses_member hinb) st4
         | None \<Rightarrow> st4)"

section \<open>The files of a hop\<close>

text \<open>The maps the loop over the hits writes.\<close>

record file_state =
  fs_visited :: "visited_entry seq_map"
  fs_braked_files :: "(string \<times> nat) list"
  fs_seen_defs :: "string set"
  fs_next_frontier :: "string seq_set"
  fs_def_taint :: "string \<Rightarrow> bus_origin option option"

definition indegree_of :: "graph_index \<Rightarrow> string \<Rightarrow> nat" where
  "indegree_of ix file = or_default 0 (gi_hub_indegree ix file)"

definition is_hub :: "(string \<Rightarrow> string) \<Rightarrow> graph_index \<Rightarrow> nat \<Rightarrow> string \<Rightarrow> bool" where
  "is_hub lowercase ix hub_max file \<longleftrightarrow>
     is_infra_file lowercase file \<or> 0 < hub_max \<and> hub_max \<le> indegree_of ix file"

definition expand_def :: "graph_index \<Rightarrow> hit \<Rightarrow> nat \<Rightarrow> file_state \<Rightarrow> file_state" where
  "expand_def ix h di st =
     (let def_id = d_id (g_defs (gi_graph ix) ! di)
      in if def_id \<in> fs_seen_defs st then st
         else st\<lparr>fs_seen_defs := insert def_id (fs_seen_defs st),
                 fs_next_frontier := ss_insert def_id (fs_next_frontier st),
                 fs_def_taint := (fs_def_taint st)(def_id \<mapsto>
                   (if h_has_non_bus_path h then None else h_bus_origin h))\<rparr>)"

definition walk_file ::
  "(string \<Rightarrow> string) \<Rightarrow> graph_index \<Rightarrow> nat \<Rightarrow> string seq_set \<Rightarrow> nat \<Rightarrow> nat \<Rightarrow>
   string \<times> hit \<Rightarrow> file_state \<Rightarrow> file_state" where
  "walk_file lowercase ix hub_max seed_files hops hop p st =
     (case p of (file, h) \<Rightarrow>
       let hub = is_hub lowercase ix hub_max file;
           st1 = (if \<not> sm_contains_key (fs_visited st) file \<and> \<not> ss_contains seed_files file
                  then st\<lparr>fs_visited := sm_insert file (build_visited_entry hop hub h) (fs_visited st)\<rparr>
                  else st)
       in if h_via_count h = 0 \<and> h_ambiguous_count h = 0 then st1
          else if hub then
            (if hop < hops
             then st1\<lparr>fs_braked_files := hash_insert file (indegree_of ix file) (fs_braked_files st1)\<rparr>
             else st1)
          else
            (case ix_by_file (gi_maps ix) file of
               Some dis \<Rightarrow> fold (expand_def ix h) dis st1
             | None \<Rightarrow> st1))"

section \<open>The walk\<close>

record walk_state =
  ws_visited :: "visited_entry seq_map"
  ws_fwd_adj :: "string \<Rightarrow> string set option"
  ws_braked :: "(string \<times> nat) list"
  ws_braked_files :: "(string \<times> nat) list"
  ws_seen_defs :: "string set"
  ws_frontier :: "string seq_set"
  ws_def_taint :: "string \<Rightarrow> bus_origin option option"

text \<open>One round of the \<open>while\<close> loop.\<close>

definition walk_hop ::
  "(string \<Rightarrow> string) \<Rightarrow> graph_index \<Rightarrow> bool \<Rightarrow> nat \<Rightarrow> nat \<Rightarrow> string seq_set \<Rightarrow> nat \<Rightarrow> nat \<Rightarrow>
   walk_state \<Rightarrow> walk_state" where
  "walk_hop lowercase ix iface iface_max_fanin hub_max seed_files hops hop ws =
     (let hs = fold (walk_def ix iface iface_max_fanin (ws_def_taint ws)) (ss_order (ws_frontier ws))
                 \<lparr>hs_hits = sm_new, hs_fwd_adj = ws_fwd_adj ws, hs_braked = ws_braked ws\<rparr>;
          fs = fold (walk_file lowercase ix hub_max seed_files hops hop) (sm_entries (hs_hits hs))
                 \<lparr>fs_visited = ws_visited ws, fs_braked_files = ws_braked_files ws,
                  fs_seen_defs = ws_seen_defs ws, fs_next_frontier = ss_new,
                  fs_def_taint = ws_def_taint ws\<rparr>
      in \<lparr>ws_visited = fs_visited fs, ws_fwd_adj = hs_fwd_adj hs, ws_braked = hs_braked hs,
          ws_braked_files = fs_braked_files fs, ws_seen_defs = fs_seen_defs fs,
          ws_frontier = fs_next_frontier fs, ws_def_taint = fs_def_taint fs\<rparr>)"

function walk_loop ::
  "(string \<Rightarrow> string) \<Rightarrow> graph_index \<Rightarrow> bool \<Rightarrow> nat \<Rightarrow> nat \<Rightarrow> string seq_set \<Rightarrow> nat \<Rightarrow> nat \<Rightarrow>
   walk_state \<Rightarrow> walk_state" where
  "walk_loop lowercase ix iface iface_max_fanin hub_max seed_files hops hop ws =
     (if hop \<le> hops \<and> 0 < ss_len (ws_frontier ws)
      then walk_loop lowercase ix iface iface_max_fanin hub_max seed_files hops (hop + 1)
             (walk_hop lowercase ix iface iface_max_fanin hub_max seed_files hops hop ws)
      else ws)"
  by pat_completeness auto
termination
  by (relation "measure (\<lambda>(lowercase, ix, iface, imf, hm, sf, hops, hop, ws). Suc hops - hop)") auto

declare walk_loop.simps [simp del]

record impact_walk_result =
  iw_visited :: "visited_entry seq_map"
  iw_fwd_adj :: "string \<Rightarrow> string set option"
  iw_seed_files :: "string seq_set"
  iw_braked :: "(string \<times> nat) list"
  iw_braked_files :: "(string \<times> nat) list"

text \<open>Widest first, then by name.\<close>

definition sort_braked :: "(string \<times> nat) list \<Rightarrow> (string \<times> nat) list" where
  "sort_braked xs = sort_key (\<lambda>(name, n). (- int n, name)) xs"

definition seed_files_of :: "graph_index \<Rightarrow> string list \<Rightarrow> string seq_set" where
  "seed_files_of ix seed_ids = fold ss_insert (concat (map (def_files ix) seed_ids)) ss_new"

definition initial_walk :: "string list \<Rightarrow> walk_state" where
  "initial_walk seed_ids =
     \<lparr>ws_visited = sm_new, ws_fwd_adj = (\<lambda>_. None), ws_braked = [], ws_braked_files = [],
      ws_seen_defs = set seed_ids, ws_frontier = fold ss_insert seed_ids ss_new,
      ws_def_taint = (\<lambda>_. None)\<rparr>"

definition impact_walk ::
  "(string \<Rightarrow> string) \<Rightarrow> graph_index \<Rightarrow> string list \<Rightarrow> nat \<Rightarrow> bool \<Rightarrow> nat \<Rightarrow> nat \<Rightarrow> impact_walk_result" where
  "impact_walk lowercase ix seed_ids hops iface iface_max_fanin hub_max =
     (let ws = walk_loop lowercase ix iface iface_max_fanin hub_max (seed_files_of ix seed_ids) hops 1
                 (initial_walk seed_ids)
      in \<lparr>iw_visited = ws_visited ws, iw_fwd_adj = ws_fwd_adj ws, iw_seed_files = seed_files_of ix seed_ids,
          iw_braked = sort_braked (ws_braked ws), iw_braked_files = sort_braked (ws_braked_files ws)\<rparr>)"

section \<open>The specification: what a definition reaches\<close>

definition loc_file :: "graph_index \<Rightarrow> nat \<Rightarrow> string" where
  "loc_file ix ei = e_from_file (edge_at ix ei)"

definition inbound_files :: "graph_index \<Rightarrow> string \<Rightarrow> string list" where
  "inbound_files ix d =
     map (loc_file ix) (concat (inbound_walk_kinds (or_default ie_default (ix_inbound (gi_maps ix) d))))"

definition ambiguous_files :: "graph_index \<Rightarrow> string \<Rightarrow> string list" where
  "ambiguous_files ix d = map (loc_file ix) (or_default [] (ix_ambiguous_by_candidate (gi_maps ix) d))"

definition bus_files_of :: "graph_index \<Rightarrow> string \<Rightarrow> string list" where
  "bus_files_of ix file =
     map (\<lambda>ei. e_to_file (edge_at ix ei))
       (filter (\<lambda>ei. is_Bus_Hop (edge_at ix ei))
         (oe_bus_hop (or_default oe_default (ix_outbound_by_file (gi_maps ix) file))))"

definition bus_files :: "graph_index \<Rightarrow> string \<Rightarrow> string list" where
  "bus_files ix d = concat (map (bus_files_of ix) (def_files ix d))"

definition iface_braked :: "graph_index \<Rightarrow> nat \<Rightarrow> string \<Rightarrow> bool" where
  "iface_braked ix iface_max name \<longleftrightarrow> iface_max \<noteq> 0 \<and> iface_max < fanin_of ix name"

definition ctor_files :: "graph_index \<Rightarrow> nat \<Rightarrow> string \<Rightarrow> string list" where
  "ctor_files ix iface_max d =
     map (loc_file ix)
       (filter (\<lambda>ei. is_Ctor_Di (edge_at ix ei) \<and> \<not> iface_braked ix iface_max (e_iface (edge_at ix ei)))
         (or_default [] (ix_ctor_di_by_to (gi_maps ix) d)))"

definition iface_label :: "graph_index \<Rightarrow> string \<Rightarrow> string" where
  "iface_label ix iface_id = (case gi_def ix iface_id of Some d \<Rightarrow> d_name d | None \<Rightarrow> iface_id)"

definition iface_files_of :: "graph_index \<Rightarrow> nat \<Rightarrow> string \<Rightarrow> string list" where
  "iface_files_of ix iface_max iface_id =
     (if iface_braked ix iface_max (iface_label ix iface_id) then []
      else (case ix_inbound (gi_maps ix) iface_id of
              None \<Rightarrow> []
            | Some inb \<Rightarrow> map (loc_file ix) (ie_uses_type inb @ ie_uses_member inb)))"

definition iface_files :: "graph_index \<Rightarrow> nat \<Rightarrow> string \<Rightarrow> string list" where
  "iface_files ix iface_max d = concat (map (iface_files_of ix iface_max) (implemented_interfaces ix d))"

definition firm_files :: "graph_index \<Rightarrow> bool \<Rightarrow> nat \<Rightarrow> string \<Rightarrow> string list" where
  "firm_files ix iface iface_max d =
     inbound_files ix d @ ambiguous_files ix d @ bus_files ix d
     @ (if iface then ctor_files ix iface_max d @ iface_files ix iface_max d else [])"

definition guess_files :: "graph_index \<Rightarrow> string \<Rightarrow> string list" where
  "guess_files ix d =
     (case ix_heuristic_inbound (gi_maps ix) d of
        None \<Rightarrow> []
      | Some hinb \<Rightarrow> map (loc_file ix) (ie_inherits hinb @ ie_uses_type hinb @ ie_uses_member hinb))"

section \<open>How firmly a file is hit\<close>

text \<open>0: not hit; 1: by guesses only; 2: by a precise or ambiguous edge.\<close>

definition firmness :: "hit \<Rightarrow> nat" where
  "firmness h = (if h_via_count h = 0 \<and> h_ambiguous_count h = 0 then 1 else 2)"

definition view :: "hop_state \<Rightarrow> string \<Rightarrow> nat" where
  "view st f = (case map_of (sm_entries (hs_hits st)) f of None \<Rightarrow> 0 | Some h \<Rightarrow> firmness h)"

definition hits_ok :: "hop_state \<Rightarrow> bool" where
  "hits_ok st \<longleftrightarrow> sm_ok (hs_hits st)"

text \<open>A step raises the files of a list to a firmness and leaves every other file alone.\<close>

definition raise :: "nat \<Rightarrow> string list \<Rightarrow> (string \<Rightarrow> nat) \<Rightarrow> string \<Rightarrow> nat" where
  "raise k fs v f = (if f \<in> set fs then max (v f) k else v f)"

definition raises :: "nat \<Rightarrow> string list \<Rightarrow> (hop_state \<Rightarrow> hop_state) \<Rightarrow> bool" where
  "raises k fs step \<longleftrightarrow> (\<forall>st. hits_ok st \<longrightarrow> hits_ok (step st) \<and> view (step st) = raise k fs (view st))"

lemma raisesD:
  "raises k fs step \<Longrightarrow> hits_ok st \<Longrightarrow> hits_ok (step st)"
  "raises k fs step \<Longrightarrow> hits_ok st \<Longrightarrow> view (step st) = raise k fs (view st)"
  by (auto simp: raises_def)

lemma raise_append: "raise k ys (raise k xs v) = raise k (xs @ ys) v"
  by (auto simp: raise_def)

lemma raise_Nil [simp]: "raise k [] v = v"
  by (auto simp: raise_def)

lemma raises_id: "raises k [] (\<lambda>st. st)"
  by (simp add: raises_def)

lemma raises_comp: "raises k xs f \<Longrightarrow> raises k ys g \<Longrightarrow> raises k (xs @ ys) (\<lambda>st. g (f st))"
  by (auto simp: raises_def raise_append)

lemma raises_fold:
  "(\<And>x. x \<in> set xs \<Longrightarrow> raises k (F x) (step x)) \<Longrightarrow> raises k (concat (map F xs)) (fold step xs)"
proof (induction xs)
  case (Cons x xs)
  then have "raises k (F x @ concat (map F xs)) (\<lambda>st. fold step xs (step x st))"
    by (intro raises_comp) auto
  then show ?case by (simp add: comp_def)
qed (simp add: raises_id id_def)

lemma raises_fold_singles:
  "(\<And>x. x \<in> set xs \<Longrightarrow> raises k [F x] (step x)) \<Longrightarrow> raises k (map F xs) (fold step xs)"
  using raises_fold [of xs k "\<lambda>x. [F x]" step] by simp

lemma link_files_view [simp]:
  "view (link_files fs t st) = view st" "hits_ok (link_files fs t st) = hits_ok st"
  by (simp_all add: view_def hits_ok_def link_files_def fun_eq_iff)

lemma braked_view [simp]:
  "view (st\<lparr>hs_braked := b\<rparr>) = view st" "hits_ok (st\<lparr>hs_braked := b\<rparr>) = hits_ok st"
  by (simp_all add: view_def hits_ok_def fun_eq_iff)

lemma raises_on_hit:
  assumes "\<And>h. firmness (F h) = max (firmness h) k" "firmness (F hit_default) = k" "1 \<le> k"
  shows "raises k [file] (\<lambda>st. on_hit file F st)"
  unfolding raises_def
proof (intro allI impI conjI ext)
  fix st f
  assume ok: "hits_ok st"
  then show "hits_ok (on_hit file F st)"
    by (simp add: hits_ok_def on_hit_def sml.ok_upd)
  show "view (on_hit file F st) f = raise k [file] (view st) f"
    using ok assms
    by (auto simp: view_def on_hit_def raise_def hits_ok_def sml.get_upd split: option.splits)
qed

lemma firmness_notes [simp]:
  "firmness (note_bus_origin b h) = firmness h"
  "firmness (note_taint ob h) = firmness h"
  "firmness (note_direct l e ob h) = firmness h"
  "firmness (note_direct_amb l e ob h) = firmness h"
  "firmness (note_iface l e ob h) = firmness h"
  "firmness (note_heuristic l e ob h) = firmness h"
  "firmness (note_bus l e h) = firmness h"
  "firmness (note_kind_edge l e ob h) = firmness h"
proof -
  show bo: "firmness (note_bus_origin b h) = firmness h" for b h
    by (auto simp: note_bus_origin_def firmness_def split: option.splits)
  show nt: "firmness (note_taint ob h) = firmness h" for h
    by (cases ob) (simp_all add: note_taint_def bo, simp add: firmness_def)
  show nd: "firmness (note_direct l e ob h) = firmness h" for h
    by (simp add: note_direct_def nt split: prod.splits) (simp add: firmness_def)
  show "firmness (note_direct_amb l e ob h) = firmness h"
    by (simp add: note_direct_amb_def nt split: prod.splits) (simp add: firmness_def)
  show "firmness (note_iface l e ob h) = firmness h"
    by (simp add: note_iface_def nt split: prod.splits) (simp add: firmness_def)
  show "firmness (note_heuristic l e ob h) = firmness h"
    by (simp add: note_heuristic_def nt split: prod.splits) (simp add: firmness_def)
  show nb: "firmness (note_bus l e h) = firmness h" for h
    by (simp add: note_bus_def bo Let_def split: prod.splits) (simp add: firmness_def)
  show "firmness (note_kind_edge l e ob h) = firmness h"
    by (simp add: note_kind_edge_def nd nb)
qed

lemma firmness_le: "firmness h \<le> 2" "1 \<le> firmness h"
  by (simp_all add: firmness_def)

lemma firmness_count_via [simp]: "firmness (count_via d h) = 2"
  by (simp add: firmness_def count_via_def)

lemma max_firmness [simp]: "max (firmness h) 2 = 2" "max (firmness h) (Suc 0) = firmness h"
  using firmness_le [of h] by auto

lemma raises_linked:
  assumes "raises k fs step"
  shows "raises k fs (\<lambda>st. link_files gs t (step st))"
  using assms by (simp add: raises_def)

lemma firmness_default [simp]: "firmness hit_default = 1"
  by (simp add: firmness_def hit_default_def)

lemma walk_inbound_raises: "raises 2 [loc_file ix ei] (walk_inbound ix d taint ei)"
proof -
  have "walk_inbound ix d taint ei = (\<lambda>st. link_files (def_files ix d) (loc_file ix ei)
      (on_hit (loc_file ix ei)
        (\<lambda>h. note_kind_edge (e_from_line (edge_at ix ei)) (edge_at ix ei) taint (count_via d h)) st))"
    by (simp add: walk_inbound_def edge_loc_def loc_file_def fun_eq_iff)
  then show ?thesis by (simp add: raises_linked raises_on_hit)
qed

lemma walk_ambiguous_raises: "raises 2 [loc_file ix ei] (walk_ambiguous ix d taint ei)"
proof -
  have "walk_ambiguous ix d taint ei = (\<lambda>st. link_files (def_files ix d) (loc_file ix ei)
      (on_hit (loc_file ix ei)
        (\<lambda>h. note_direct_amb (e_from_line (edge_at ix ei)) (edge_at ix ei) taint
           (h\<lparr>h_ambiguous_count := h_ambiguous_count h + 1\<rparr>)) st))"
    by (simp add: walk_ambiguous_def edge_loc_def loc_file_def fun_eq_iff)
  moreover have "firmness (h\<lparr>h_ambiguous_count := h_ambiguous_count h + 1\<rparr>) = 2" for h :: hit
    by (simp add: firmness_def)
  ultimately show ?thesis by (simp add: raises_linked raises_on_hit)
qed

lemma walk_heuristic_raises: "raises 1 [loc_file ix ei] (walk_heuristic ix d taint ei)"
proof -
  have "walk_heuristic ix d taint ei = on_hit (loc_file ix ei)
      (\<lambda>h. note_heuristic (e_from_line (edge_at ix ei)) (edge_at ix ei) taint
         (h\<lparr>h_heuristic_count := h_heuristic_count h + 1,
            h_ext_count := (if edge_tier (edge_at ix ei) = Some Tier_Ext then h_ext_count h + 1 else h_ext_count h),
            h_symbols := ss_insert d (h_symbols h)\<rparr>))"
    by (simp add: walk_heuristic_def edge_loc_def loc_file_def fun_eq_iff)
  moreover have "firmness (h\<lparr>h_heuristic_count := a, h_ext_count := b, h_symbols := s\<rparr>) = firmness h"
    for h :: hit and a b s by (simp add: firmness_def)
  ultimately show ?thesis by (simp add: raises_on_hit)
qed

lemma walk_bus_raises:
  "raises 2 (if is_Bus_Hop (edge_at ix ei) then [e_to_file (edge_at ix ei)] else [])
     (walk_bus ix d taint file ei)"
proof (cases "edge_at ix ei")
  case (Bus_Hop a b c t tf ev)
  then have "walk_bus ix d taint file ei = (\<lambda>st. link_files [file] tf
      (on_hit tf (\<lambda>h. note_kind_edge b (edge_at ix ei) taint (count_via d h)) st))"
    by (simp add: walk_bus_def fun_eq_iff)
  with Bus_Hop show ?thesis by (simp add: raises_linked raises_on_hit)
qed (auto simp: walk_bus_def raises_def)

text \<open>Folding the bus edges of one file.\<close>

lemma concat_map_if:
  "concat (map (\<lambda>x. if P x then [f x] else []) xs) = map f (filter P xs)"
  by (induction xs) auto

lemma walk_bus_file_raises:
  "raises 2 (bus_files_of ix file)
     (\<lambda>s. case ix_outbound_by_file (gi_maps ix) file of
            Some outb \<Rightarrow> fold (walk_bus ix d taint file) (oe_bus_hop outb) s | None \<Rightarrow> s)"
proof (cases "ix_outbound_by_file (gi_maps ix) file")
  case None
  then show ?thesis by (simp add: bus_files_of_def oe_default_def raises_id)
next
  case (Some outb)
  have "raises 2 (concat (map (\<lambda>ei. if is_Bus_Hop (edge_at ix ei) then [e_to_file (edge_at ix ei)] else [])
      (oe_bus_hop outb))) (fold (walk_bus ix d taint file) (oe_bus_hop outb))"
    by (rule raises_fold) (rule walk_bus_raises)
  with Some show ?thesis by (simp add: bus_files_of_def concat_map_if)
qed

section \<open>The interface hop\<close>

text \<open>Every site counted once already stands for a firmly hit file.\<close>

definition sites_ok :: "iface_state \<Rightarrow> bool" where
  "sites_ok s \<longleftrightarrow> hits_ok (snd s) \<and> (\<forall>(f, l) \<in> fst s. 2 \<le> view (snd s) f)"

definition raises_sites :: "string list \<Rightarrow> (iface_state \<Rightarrow> iface_state) \<Rightarrow> bool" where
  "raises_sites fs step \<longleftrightarrow>
     (\<forall>s. sites_ok s \<longrightarrow> sites_ok (step s) \<and> view (snd (step s)) = raise 2 fs (view (snd s)))"

lemma raises_sites_fold:
  "(\<And>x. x \<in> set xs \<Longrightarrow> raises_sites (F x) (step x)) \<Longrightarrow>
   raises_sites (concat (map F xs)) (fold step xs)"
proof (induction xs)
  case (Cons x xs)
  then have x: "raises_sites (F x) (step x)" and xs: "raises_sites (concat (map F xs)) (fold step xs)"
    by auto
  show ?case
    unfolding raises_sites_def
  proof (intro allI impI)
    fix s assume "sites_ok s"
    with x have s1: "sites_ok (step x s)" "view (snd (step x s)) = raise 2 (F x) (view (snd s))"
      unfolding raises_sites_def by blast+
    moreover from s1(1) xs have "sites_ok (fold step xs (step x s))"
      "view (snd (fold step xs (step x s))) = raise 2 (concat (map F xs)) (view (snd (step x s)))"
      unfolding raises_sites_def by blast+
    ultimately show "sites_ok (fold step (x # xs) s)
      \<and> view (snd (fold step (x # xs) s)) = raise 2 (concat (map F (x # xs))) (view (snd s))"
      by (simp add: raise_append)
  qed
qed (simp add: raises_sites_def)

lemma raises_sites_lift:
  assumes r: "raises 2 [f] step"
  shows "raises_sites [f] (\<lambda>(seen, st). (insert (f, l) seen, step st))"
  using raisesD [OF r]
  by (auto simp: raises_sites_def sites_ok_def raise_def split: if_splits)

lemma brake_fanin_fst: "fst (brake_fanin ix imf name b) \<longleftrightarrow> iface_braked ix imf name"
  by (auto simp: brake_fanin_def iface_braked_def)

lemma raises_braked: "raises k fs step \<Longrightarrow> raises k fs (\<lambda>st. step (st\<lparr>hs_braked := B st\<rparr>))"
  by (simp add: raises_def)

lemma sites_ok_braked [simp]: "sites_ok (s, st\<lparr>hs_braked := b\<rparr>) = sites_ok (s, st)"
  by (simp add: sites_ok_def)

lemma walk_ctor_di_raises:
  "raises_sites
     (if is_Ctor_Di (edge_at ix ei) \<and> \<not> iface_braked ix imf (e_iface (edge_at ix ei))
      then [loc_file ix ei] else [])
     (walk_ctor_di ix imf d taint ei)"
proof (cases "edge_at ix ei")
  case (Ctor_Di f l name res args t cands)
  define F where "F = (\<lambda>h. note_taint taint ((count_via d h)
      \<lparr>h_iface_via := ss_insert (name @ '' (ctor-di)'') (h_iface_via h),
       h_lines := (h_lines h)\<lparr>kl_ctor_di := note_line (kl_ctor_di (h_lines h)) l\<rparr>\<rparr>))"
  have "firmness (F h) = 2" for h by (simp add: F_def firmness_def count_via_def)
    (simp add: note_taint_def note_bus_origin_def split: option.splits)
  then have r: "raises 2 [f] (\<lambda>st. link_files (def_files ix d) f (on_hit f F st))"
    by (intro raises_linked raises_on_hit) simp_all
  show ?thesis
  proof (cases "iface_braked ix imf name")
    case True
    define b where "b = (\<lambda>x. snd (brake_fanin ix imf name x))"
    have b: "\<And>x. brake_fanin ix imf name x = (True, b x)"
      using True by (simp add: b_def prod_eq_iff brake_fanin_fst)
    have "walk_ctor_di ix imf d taint ei = (\<lambda>(seen, st). (seen, st\<lparr>hs_braked := b (hs_braked st)\<rparr>))"
      by (simp add: fun_eq_iff walk_ctor_di_def Ctor_Di b)
    with True show ?thesis by (auto simp: Ctor_Di raises_sites_def)
  next
    case False
    have b: "\<And>x. brake_fanin ix imf name x = (False, x)"
      using False by (auto simp: brake_fanin_def iface_braked_def)
    have "walk_ctor_di ix imf d taint ei =
        (\<lambda>(seen, st). (insert (f, l) seen, link_files (def_files ix d) f (on_hit f F st)))"
      by (simp add: fun_eq_iff walk_ctor_di_def Ctor_Di b F_def)
    with False show ?thesis
      using raises_sites_lift [OF r] by (simp add: Ctor_Di loc_file_def)
  qed
qed (auto simp: walk_ctor_di_def raises_sites_def)

lemma raise_known: "2 \<le> v f \<Longrightarrow> raise 2 [f] v = v"
  by (auto simp: raise_def)

lemma walk_iface_edge_raises:
  "raises_sites [loc_file ix ei] (walk_iface_edge ix name d taint ei)"
proof -
  define F where "F = (\<lambda>h. note_iface (e_from_line (edge_at ix ei)) (edge_at ix ei) taint
      ((count_via d h)\<lparr>h_iface_via := ss_insert name (h_iface_via h)\<rparr>))"
  have "firmness (h\<lparr>h_iface_via := s\<rparr>) = firmness h" for h :: hit and s by (simp add: firmness_def)
  then have "firmness (F h) = 2" for h by (simp add: F_def)
  then have r: "raises 2 [loc_file ix ei]
      (\<lambda>st. link_files (def_files ix d) (loc_file ix ei) (on_hit (loc_file ix ei) F st))"
    by (intro raises_linked raises_on_hit) simp_all
  have eq: "walk_iface_edge ix name d taint ei (seen, st) =
      (if (loc_file ix ei, e_from_line (edge_at ix ei)) \<in> seen then (seen, st)
       else (insert (loc_file ix ei, e_from_line (edge_at ix ei)) seen,
             link_files (def_files ix d) (loc_file ix ei) (on_hit (loc_file ix ei) F st)))" for seen st
    by (simp add: walk_iface_edge_def edge_loc_def loc_file_def F_def)
  show ?thesis
    unfolding raises_sites_def
  proof (intro allI impI)
    fix s :: iface_state
    assume ok: "sites_ok s"
    obtain seen st where s: "s = (seen, st)" by (cases s)
    show "sites_ok (walk_iface_edge ix name d taint ei s)
      \<and> view (snd (walk_iface_edge ix name d taint ei s)) = raise 2 [loc_file ix ei] (view (snd s))"
    proof (cases "(loc_file ix ei, e_from_line (edge_at ix ei)) \<in> seen")
      case True
      with ok s have "2 \<le> view st (loc_file ix ei)" by (auto simp: sites_ok_def)
      with True ok s show ?thesis by (simp add: eq raise_known)
    next
      case False
      with ok s show ?thesis
        using raises_sites_lift [OF r, of "e_from_line (edge_at ix ei)"]
        unfolding raises_sites_def by (force simp: eq)
    qed
  qed
qed

lemma walk_interface_raises: "raises_sites (iface_files_of ix imf iface_id) (walk_interface ix imf d taint iface_id)"
proof (cases "ix_inbound (gi_maps ix) iface_id")
  case None
  then show ?thesis by (auto simp: raises_sites_def walk_interface_def iface_files_of_def)
next
  case (Some inb)
  show ?thesis
  proof (cases "iface_braked ix imf (iface_label ix iface_id)")
    case True
    define b where "b = (\<lambda>x. snd (brake_fanin ix imf (iface_label ix iface_id) x))"
    have b: "\<And>x. brake_fanin ix imf (iface_label ix iface_id) x = (True, b x)"
      using True by (simp add: b_def prod_eq_iff brake_fanin_fst)
    have "walk_interface ix imf d taint iface_id = (\<lambda>(seen, st). (seen, st\<lparr>hs_braked := b (hs_braked st)\<rparr>))"
      by (simp add: fun_eq_iff walk_interface_def Some Let_def b flip: iface_label_def)
    with True show ?thesis by (auto simp: iface_files_of_def raises_sites_def)
  next
    case False
    have b: "\<And>x. brake_fanin ix imf (iface_label ix iface_id) x = (False, x)"
      using False by (auto simp: brake_fanin_def iface_braked_def)
    have "walk_interface ix imf d taint iface_id =
        fold (walk_iface_edge ix (iface_label ix iface_id) d taint) (ie_uses_type inb @ ie_uses_member inb)"
      by (simp add: fun_eq_iff walk_interface_def Some Let_def b flip: iface_label_def)
    moreover have "raises_sites (concat (map (\<lambda>ei. [loc_file ix ei]) (ie_uses_type inb @ ie_uses_member inb)))
        (fold (walk_iface_edge ix (iface_label ix iface_id) d taint) (ie_uses_type inb @ ie_uses_member inb))"
      by (rule raises_sites_fold) (rule walk_iface_edge_raises)
    ultimately show ?thesis using False Some by (simp add: iface_files_of_def concat_map_singleton)
  qed
qed

text \<open>The whole interface hop of one definition.\<close>

lemma walk_iface_raises:
  "raises 2 (ctor_files ix imf d @ iface_files ix imf d)
     (\<lambda>st. snd (fold (walk_interface ix imf d taint) (implemented_interfaces ix d)
        (case ix_ctor_di_by_to (gi_maps ix) d of
           Some es \<Rightarrow> fold (walk_ctor_di ix imf d taint) es ({}, st) | None \<Rightarrow> ({}, st))))"
  unfolding raises_def
proof (intro allI impI)
  fix st assume ok: "hits_ok st"
  define es where "es = or_default [] (ix_ctor_di_by_to (gi_maps ix) d)"
  define s1 where "s1 = fold (walk_ctor_di ix imf d taint) es ({}, st)"
  have s1_eq: "(case ix_ctor_di_by_to (gi_maps ix) d of
      Some es \<Rightarrow> fold (walk_ctor_di ix imf d taint) es ({}, st) | None \<Rightarrow> ({}, st)) = s1"
    by (simp add: s1_def es_def split: option.splits)
  have "sites_ok ({}, st)" using ok by (simp add: sites_ok_def)
  moreover have "raises_sites (concat (map (\<lambda>ei.
      if is_Ctor_Di (edge_at ix ei) \<and> \<not> iface_braked ix imf (e_iface (edge_at ix ei)) then [loc_file ix ei] else []) es))
      (fold (walk_ctor_di ix imf d taint) es)"
    by (rule raises_sites_fold) (rule walk_ctor_di_raises)
  ultimately have c: "sites_ok s1" "view (snd s1) = raise 2 (ctor_files ix imf d) (view st)"
    unfolding raises_sites_def s1_def concat_map_if ctor_files_def es_def by force+
  have "raises_sites (iface_files ix imf d) (fold (walk_interface ix imf d taint) (implemented_interfaces ix d))"
    unfolding iface_files_def by (rule raises_sites_fold) (rule walk_interface_raises)
  with c have "sites_ok (fold (walk_interface ix imf d taint) (implemented_interfaces ix d) s1)"
    "view (snd (fold (walk_interface ix imf d taint) (implemented_interfaces ix d) s1))
     = raise 2 (iface_files ix imf d) (view (snd s1))"
    unfolding raises_sites_def by blast+
  with c(2) show "hits_ok (snd (fold (walk_interface ix imf d taint) (implemented_interfaces ix d)
        (case ix_ctor_di_by_to (gi_maps ix) d of
           Some es \<Rightarrow> fold (walk_ctor_di ix imf d taint) es ({}, st) | None \<Rightarrow> ({}, st))))
    \<and> view (snd (fold (walk_interface ix imf d taint) (implemented_interfaces ix d)
        (case ix_ctor_di_by_to (gi_maps ix) d of
           Some es \<Rightarrow> fold (walk_ctor_di ix imf d taint) es ({}, st) | None \<Rightarrow> ({}, st))))
      = raise 2 (ctor_files ix imf d @ iface_files ix imf d) (view st)"
    unfolding s1_eq by (simp add: raise_append sites_ok_def)
qed

text \<open>What one frontier definition does to the hits.\<close>

lemma walk_def_view:
  assumes ok: "hits_ok st"
  shows "hits_ok (walk_def ix iface imf taints d st)"
    and "view (walk_def ix iface imf taints d st) = raise 1 (guess_files ix d) (raise 2 (firm_files ix iface imf d) (view st))"
proof -
  define taint where "taint = (case taints d of Some t \<Rightarrow> t | None \<Rightarrow> None)"
  define i where "i = (\<lambda>st. case ix_inbound (gi_maps ix) d of
    Some inb \<Rightarrow> fold (walk_inbound ix d taint) (concat (inbound_walk_kinds inb)) st | None \<Rightarrow> st)"
  define a where "a = (\<lambda>st. case ix_ambiguous_by_candidate (gi_maps ix) d of
    Some es \<Rightarrow> fold (walk_ambiguous ix d taint) es st | None \<Rightarrow> st)"
  define b where "b = fold (\<lambda>file s. case ix_outbound_by_file (gi_maps ix) file of
    Some outb \<Rightarrow> fold (walk_bus ix d taint file) (oe_bus_hop outb) s | None \<Rightarrow> s) (def_files ix d)"
  define c where "c = (\<lambda>st. if iface then snd (fold (walk_interface ix imf d taint) (implemented_interfaces ix d)
    (case ix_ctor_di_by_to (gi_maps ix) d of
       Some es \<Rightarrow> fold (walk_ctor_di ix imf d taint) es ({}, st) | None \<Rightarrow> ({}, st))) else st)"
  define h where "h = (\<lambda>st. case ix_heuristic_inbound (gi_maps ix) d of
    Some hinb \<Rightarrow> fold (walk_heuristic ix d taint) (ie_inherits hinb @ ie_uses_type hinb @ ie_uses_member hinb) st
  | None \<Rightarrow> st)"
  have eq: "walk_def ix iface imf taints d st = h (c (b (a (i st))))"
    by (simp only: walk_def_def Let_def taint_def i_def a_def b_def c_def h_def)
  have "raises 2 (inbound_files ix d) i"
    unfolding inbound_files_def i_def
    by (cases "ix_inbound (gi_maps ix) d",
        simp add: raises_id inbound_walk_kinds_def ie_default_def ts_lists_def ts_default_def)
      (simp add: raises_fold_singles walk_inbound_raises)
  moreover have "raises 2 (ambiguous_files ix d) a"
    unfolding ambiguous_files_def a_def
    by (cases "ix_ambiguous_by_candidate (gi_maps ix) d")
      (simp_all add: raises_id raises_fold_singles walk_ambiguous_raises)
  moreover have "raises 2 (bus_files ix d) b"
    unfolding bus_files_def b_def by (rule raises_fold) (rule walk_bus_file_raises)
  moreover have "raises 2 (if iface then ctor_files ix imf d @ iface_files ix imf d else []) c"
    unfolding c_def by (cases iface) (simp_all add: walk_iface_raises raises_id)
  ultimately have firm: "raises 2 (firm_files ix iface imf d) (\<lambda>st. c (b (a (i st))))"
    unfolding firm_files_def append_assoc [symmetric] by (intro raises_comp)
  have guess: "raises 1 (guess_files ix d) h"
    unfolding guess_files_def h_def
    by (cases "ix_heuristic_inbound (gi_maps ix) d")
      (simp_all add: raises_id raises_fold_singles walk_heuristic_raises [simplified] del: fold_append map_append)
  show "hits_ok (walk_def ix iface imf taints d st)"
    and "view (walk_def ix iface imf taints d st) = raise 1 (guess_files ix d) (raise 2 (firm_files ix iface imf d) (view st))"
    unfolding eq using raisesD [OF firm ok] raisesD [OF guess] by simp_all
qed

section \<open>One round\<close>

definition frontier_hits ::
  "graph_index \<Rightarrow> bool \<Rightarrow> nat \<Rightarrow> (string \<Rightarrow> bus_origin option option) \<Rightarrow> string list \<Rightarrow> hop_state \<Rightarrow> hop_state" where
  "frontier_hits ix iface imf taints ds st = fold (walk_def ix iface imf taints) ds st"

lemma frontier_view:
  "hits_ok st \<Longrightarrow> hits_ok (frontier_hits ix iface imf taints ds st) \<and>
   view (frontier_hits ix iface imf taints ds st) =
     raise 1 (concat (map (guess_files ix) ds)) (raise 2 (concat (map (firm_files ix iface imf) ds)) (view st))"
proof (induction ds arbitrary: st)
  case (Cons d ds)
  have "hits_ok (walk_def ix iface imf taints d st)" by (rule walk_def_view(1) [OF Cons.prems])
  from Cons.IH [OF this] show ?case
    by (auto simp: frontier_hits_def walk_def_view(2) [OF Cons.prems] raise_def fun_eq_iff)
qed (simp add: frontier_hits_def)

definition reach :: "graph_index \<Rightarrow> bool \<Rightarrow> nat \<Rightarrow> string \<Rightarrow> string set" where
  "reach ix iface imf d = set (firm_files ix iface imf d) \<union> set (guess_files ix d)"

definition firm_reach :: "graph_index \<Rightarrow> bool \<Rightarrow> nat \<Rightarrow> string set \<Rightarrow> string set" where
  "firm_reach ix iface imf ds = (\<Union>d \<in> ds. set (firm_files ix iface imf d))"

lemma hits_of_view:
  assumes "hits_ok st"
  shows "f \<in> fst ` set (sm_entries (hs_hits st)) \<longleftrightarrow> view st f \<noteq> 0"
    and "(f, h) \<in> set (sm_entries (hs_hits st)) \<Longrightarrow> firmness h = view st f"
proof -
  have ok: "sm_ok (hs_hits st)" using assms by (simp add: hits_ok_def)
  show "f \<in> fst ` set (sm_entries (hs_hits st)) \<longleftrightarrow> view st f \<noteq> 0"
  proof -
    have "view st f = 0 \<longleftrightarrow> map_of (sm_entries (hs_hits st)) f = None"
      by (auto simp: view_def firmness_def split: option.splits)
    then show ?thesis by (simp add: map_of_eq_None_iff)
  qed
  show "firmness h = view st f" if "(f, h) \<in> set (sm_entries (hs_hits st))"
    using that sml.entry_iff [OF ok] by (simp add: view_def)
qed

lemma fresh_hits:
  assumes "sm_entries (hs_hits st) = []" "hits_ok st"
    and st': "st' = frontier_hits ix iface imf taints ds st"
  shows "fst ` set (sm_entries (hs_hits st')) = (\<Union>d \<in> set ds. reach ix iface imf d)"
    and "(f, h) \<in> set (sm_entries (hs_hits st')) \<Longrightarrow>
      firmness h = 2 \<longleftrightarrow> f \<in> firm_reach ix iface imf (set ds)"
proof -
  have v0: "view st = (\<lambda>_. 0)" using assms(1) by (simp add: view_def fun_eq_iff)
  have ok: "hits_ok st'" and v: "view st' = raise 1 (concat (map (guess_files ix) ds))
      (raise 2 (concat (map (firm_files ix iface imf) ds)) (\<lambda>_. 0))"
    using frontier_view [OF assms(2)] by (simp_all add: st' v0)
  show "fst ` set (sm_entries (hs_hits st')) = (\<Union>d \<in> set ds. reach ix iface imf d)"
  proof (rule set_eqI)
    fix g
    have "g \<in> fst ` set (sm_entries (hs_hits st')) \<longleftrightarrow> view st' g \<noteq> 0"
      by (rule hits_of_view(1) [OF ok])
    also have "\<dots> \<longleftrightarrow> g \<in> (\<Union>d \<in> set ds. reach ix iface imf d)"
      by (auto simp: v raise_def reach_def)
    finally show "g \<in> fst ` set (sm_entries (hs_hits st')) \<longleftrightarrow> g \<in> (\<Union>d \<in> set ds. reach ix iface imf d)" .
  qed
  show "firmness h = 2 \<longleftrightarrow> f \<in> firm_reach ix iface imf (set ds)"
    if "(f, h) \<in> set (sm_entries (hs_hits st'))"
    using hits_of_view(2) [OF ok that] by (auto simp: v raise_def firm_reach_def)
qed

section \<open>Expanding the files\<close>

definition declared_ids :: "graph_index \<Rightarrow> string \<Rightarrow> string list" where
  "declared_ids ix file =
     map (\<lambda>di. d_id (g_defs (gi_graph ix) ! di)) (or_default [] (ix_by_file (gi_maps ix) file))"

lemma expand_defs:
  "fs_seen_defs (fold (expand_def ix h) dis st) = fs_seen_defs st \<union> (\<lambda>di. d_id (g_defs (gi_graph ix) ! di)) ` set dis"
  "fs_visited (fold (expand_def ix h) dis st) = fs_visited st"
  "fs_braked_files (fold (expand_def ix h) dis st) = fs_braked_files st"
  by (induction dis arbitrary: st) (auto simp: expand_def_def Let_def)

definition frontier_ok :: "string set \<Rightarrow> file_state \<Rightarrow> bool" where
  "frontier_ok seen0 st \<longleftrightarrow> ss_ok (fs_next_frontier st) \<and> seen0 \<subseteq> fs_seen_defs st
     \<and> set (ss_order (fs_next_frontier st)) = fs_seen_defs st - seen0"

lemma expand_def_frontier: "frontier_ok seen0 st \<Longrightarrow> frontier_ok seen0 (expand_def ix h di st)"
  by (auto simp: frontier_ok_def expand_def_def Let_def ssl.ok_ins ssl.elems_ins)

lemma expand_defs_frontier: "frontier_ok seen0 st \<Longrightarrow> frontier_ok seen0 (fold (expand_def ix h) dis st)"
  by (induction dis arbitrary: st) (auto simp: expand_def_frontier)

text \<open>The definitions the loop over the hits adds.\<close>

definition expands :: "(string \<Rightarrow> string) \<Rightarrow> graph_index \<Rightarrow> nat \<Rightarrow> string \<times> hit \<Rightarrow> bool" where
  "expands lowercase ix hub_max p \<longleftrightarrow> firmness (snd p) = 2 \<and> \<not> is_hub lowercase ix hub_max (fst p)"

lemma walk_file_seen:
  "fs_seen_defs (walk_file lowercase ix hm sf hops hop p st) = fs_seen_defs st \<union>
     (if expands lowercase ix hm p then set (declared_ids ix (fst p)) else {})"
  by (cases p) (auto simp: walk_file_def Let_def expands_def firmness_def declared_ids_def expand_defs
      split: option.splits if_splits)

lemma walk_file_frontier:
  "frontier_ok seen0 st \<Longrightarrow> frontier_ok seen0 (walk_file lowercase ix hm sf hops hop p st)"
proof -
  assume ok: "frontier_ok seen0 st"
  have v: "frontier_ok seen0 (st\<lparr>fs_visited := x\<rparr>)" for x using ok by (simp add: frontier_ok_def)
  have vb: "frontier_ok seen0 (st\<lparr>fs_visited := x, fs_braked_files := y\<rparr>)"
    "frontier_ok seen0 (st\<lparr>fs_braked_files := y\<rparr>)" for x y
    using ok by (simp_all add: frontier_ok_def)
  show ?thesis
    using ok v vb by (cases p) (auto simp: walk_file_def Let_def expand_defs_frontier split: option.splits)
qed

lemma walk_files_seen:
  "fs_seen_defs (fold (walk_file lowercase ix hm sf hops hop) ps st) = fs_seen_defs st \<union>
     (\<Union>p \<in> {p \<in> set ps. expands lowercase ix hm p}. set (declared_ids ix (fst p)))"
  by (induction ps arbitrary: st) (auto simp: walk_file_seen)

lemma walk_files_frontier:
  "frontier_ok seen0 st \<Longrightarrow> frontier_ok seen0 (fold (walk_file lowercase ix hm sf hops hop) ps st)"
  by (induction ps arbitrary: st) (auto simp: walk_file_frontier)

lemma walk_file_visited:
  "fs_visited (walk_file lowercase ix hm sf hops hop p st) =
     (if \<not> sm_contains_key (fs_visited st) (fst p) \<and> \<not> ss_contains sf (fst p)
      then sm_insert (fst p) (build_visited_entry hop (is_hub lowercase ix hm (fst p)) (snd p)) (fs_visited st)
      else fs_visited st)"
  by (cases p) (auto simp: walk_file_def Let_def expand_defs split: option.splits)

lemma walk_files_visited_ok:
  "sm_ok (fs_visited st) \<Longrightarrow> sm_ok (fs_visited (fold (walk_file lowercase ix hm sf hops hop) ps st))"
  by (induction ps arbitrary: st) (auto simp: walk_file_visited sm_insert_update sml.ok_upd)

definition hop_of :: "visited_entry seq_map \<Rightarrow> string \<Rightarrow> nat option" where
  "hop_of m f = map_option ve_hop (sm_get m f)"

lemma sm_contains_get: "sm_ok m \<Longrightarrow> sm_contains_key m f \<longleftrightarrow> sm_get m f \<noteq> None"
  by (simp add: sml.has_entries sm_get_def map_of_eq_None_iff)

lemma hop_of_insert:
  "sm_ok m \<Longrightarrow> hop_of (sm_insert k v m) f = (if f = k then Some (ve_hop v) else hop_of m f)"
  by (simp add: hop_of_def sm_get_def sm_insert_update sml.get_upd)

lemma walk_files_visited:
  "sm_ok (fs_visited st) \<Longrightarrow> ss_ok sf \<Longrightarrow>
   hop_of (fs_visited (fold (walk_file lowercase ix hm sf hops hop) ps st)) f =
     (case hop_of (fs_visited st) f of
        Some h \<Rightarrow> Some h
      | None \<Rightarrow> if f \<in> fst ` set ps \<and> f \<notin> set (ss_order sf) then Some hop else None)"
proof (induction ps arbitrary: st)
  case Nil
  then show ?case by (simp split: option.splits)
next
  case (Cons p ps)
  define st1 where "st1 = walk_file lowercase ix hm sf hops hop p st"
  have ok1: "sm_ok (fs_visited st1)"
    using Cons.prems(1) by (simp add: st1_def walk_file_visited sm_insert_update sml.ok_upd)
  have entry: "ve_hop (build_visited_entry hop b h) = hop" for b h
    by (simp add: build_visited_entry_def)
  have known: "sm_contains_key (fs_visited st) g \<longleftrightarrow> hop_of (fs_visited st) g \<noteq> None" for g
    using Cons.prems(1) by (simp add: sm_contains_get hop_of_def)
  have "hop_of (fs_visited st1) f =
      (case hop_of (fs_visited st) f of
         Some h \<Rightarrow> Some h | None \<Rightarrow> if f = fst p \<and> f \<notin> set (ss_order sf) then Some hop else None)"
    using Cons.prems
    by (auto simp: st1_def walk_file_visited hop_of_insert known ssl.mem_elems entry split: option.splits)
  with Cons.IH [OF ok1 Cons.prems(2)] show ?case
    by (auto simp: st1_def split: option.splits)
qed

lemma hash_insert_set: "set (hash_insert k v m) = {p \<in> set m. fst p \<noteq> k} \<union> {(k, v)}"
  by (auto simp: hash_insert_def)

text \<open>A braked file's recorded number is its in-degree, so re-inserting changes nothing.\<close>

definition braked_ok :: "(string \<Rightarrow> nat) \<Rightarrow> (string \<times> nat) list \<Rightarrow> bool" where
  "braked_ok g m \<longleftrightarrow> distinct (map fst m) \<and> (\<forall>p \<in> set m. snd p = g (fst p))"

lemma braked_ok_insert:
  "braked_ok g m \<Longrightarrow> braked_ok g (hash_insert k (g k) m) \<and> fst ` set (hash_insert k (g k) m) = insert k (fst ` set m)"
  by (auto simp: braked_ok_def hash_insert_set) (auto simp: hash_insert_def distinct_map inj_on_def image_iff)

section \<open>The levels of the walk\<close>

text \<open>
  The specification of the walk: level 0 is the seeds; a level's files are those its definitions
  reach; the next level is the definitions, not seen before, of the firmly reached files that
  are no hub.
\<close>

type_synonym level_pair = "string set \<times> string set"

definition level_step ::
  "(string \<Rightarrow> string) \<Rightarrow> graph_index \<Rightarrow> bool \<Rightarrow> nat \<Rightarrow> nat \<Rightarrow> level_pair \<Rightarrow> level_pair" where
  "level_step lowercase ix iface imf hm p =
     (let new = (\<Union>f \<in> {f \<in> firm_reach ix iface imf (fst p). \<not> is_hub lowercase ix hm f}.
                   set (declared_ids ix f)) - snd p
      in (new, snd p \<union> new))"

primrec level ::
  "(string \<Rightarrow> string) \<Rightarrow> graph_index \<Rightarrow> bool \<Rightarrow> nat \<Rightarrow> nat \<Rightarrow> string list \<Rightarrow> nat \<Rightarrow> level_pair" where
  "level lowercase ix iface imf hm seeds 0 = (set seeds, set seeds)"
| "level lowercase ix iface imf hm seeds (Suc n) =
     level_step lowercase ix iface imf hm (level lowercase ix iface imf hm seeds n)"

definition level_files ::
  "(string \<Rightarrow> string) \<Rightarrow> graph_index \<Rightarrow> bool \<Rightarrow> nat \<Rightarrow> nat \<Rightarrow> string list \<Rightarrow> nat \<Rightarrow> string set" where
  "level_files lowercase ix iface imf hm seeds n =
     (\<Union>d \<in> fst (level lowercase ix iface imf hm seeds n). reach ix iface imf d)"

definition ws_ok :: "walk_state \<Rightarrow> bool" where
  "ws_ok ws \<longleftrightarrow> sm_ok (ws_visited ws) \<and> ss_ok (ws_frontier ws)"

definition ws_levels :: "walk_state \<Rightarrow> level_pair" where
  "ws_levels ws = (set (ss_order (ws_frontier ws)), ws_seen_defs ws)"

lemma firm_entries:
  assumes "sm_entries (hs_hits st) = []" "hits_ok st" "st' = frontier_hits ix iface imf taints ds st"
  shows "{f. \<exists>h. (f, h) \<in> set (sm_entries (hs_hits st')) \<and> firmness h = 2} = firm_reach ix iface imf (set ds)"
proof (rule set_eqI, rule iffI)
  fix f assume "f \<in> {f. \<exists>h. (f, h) \<in> set (sm_entries (hs_hits st')) \<and> firmness h = 2}"
  with fresh_hits(2) [OF assms] show "f \<in> firm_reach ix iface imf (set ds)" by blast
next
  fix f assume f: "f \<in> firm_reach ix iface imf (set ds)"
  then have "f \<in> (\<Union>d \<in> set ds. reach ix iface imf d)" by (auto simp: firm_reach_def reach_def)
  then have "f \<in> fst ` set (sm_entries (hs_hits st'))" unfolding fresh_hits(1) [OF assms] .
  then obtain h where "(f, h) \<in> set (sm_entries (hs_hits st'))" by auto
  with fresh_hits(2) [OF assms] f
  show "f \<in> {f. \<exists>h. (f, h) \<in> set (sm_entries (hs_hits st')) \<and> firmness h = 2}" by blast
qed

text \<open>One round of the loop is one step of the specification.\<close>

lemma walk_hop_levels:
  fixes lowercase ix iface imf hm sf hops hop ws
  defines "ws' \<equiv> walk_hop lowercase ix iface imf hm sf hops hop ws"
  assumes ok: "ws_ok ws" and sf: "ss_ok sf"
  shows "ws_ok ws'"
    and "ws_levels ws' = level_step lowercase ix iface imf hm (ws_levels ws)"
    and "hop_of (ws_visited ws') f =
      (case hop_of (ws_visited ws) f of
         Some h \<Rightarrow> Some h
       | None \<Rightarrow> if f \<in> (\<Union>d \<in> fst (ws_levels ws). reach ix iface imf d) \<and> f \<notin> set (ss_order sf)
                then Some hop else None)"
proof -
  define st0 where "st0 = \<lparr>hs_hits = sm_new, hs_fwd_adj = ws_fwd_adj ws, hs_braked = ws_braked ws\<rparr>"
  define hs where "hs = frontier_hits ix iface imf (ws_def_taint ws) (ss_order (ws_frontier ws)) st0"
  define fs0 where "fs0 = \<lparr>fs_visited = ws_visited ws, fs_braked_files = ws_braked_files ws,
    fs_seen_defs = ws_seen_defs ws, fs_next_frontier = ss_new, fs_def_taint = ws_def_taint ws\<rparr>"
  define fs where "fs = fold (walk_file lowercase ix hm sf hops hop) (sm_entries (hs_hits hs)) fs0"
  have ws': "ws_visited ws' = fs_visited fs" "ws_seen_defs ws' = fs_seen_defs fs"
    "ws_frontier ws' = fs_next_frontier fs"
    by (simp_all add: ws'_def walk_hop_def Let_def fs_def hs_def fs0_def st0_def frontier_hits_def)
  have st0: "sm_entries (hs_hits st0) = []" "hits_ok st0"
    by (simp_all add: st0_def sml.entries_empty sml.ok_empty hits_ok_def)
  have f0: "frontier_ok (ws_seen_defs ws) fs0"
    by (simp add: frontier_ok_def fs0_def ssl.ok_empty)
  then have f1: "frontier_ok (ws_seen_defs ws) fs" unfolding fs_def by (rule walk_files_frontier)
  have v0: "sm_ok (fs_visited fs0)" using ok by (simp add: fs0_def ws_ok_def)
  show "ws_ok ws'"
    using f1 walk_files_visited_ok [OF v0] by (simp add: ws_ok_def ws' frontier_ok_def fs_def)
  have "fs_seen_defs fs = ws_seen_defs ws \<union>
      (\<Union>p \<in> {p \<in> set (sm_entries (hs_hits hs)). expands lowercase ix hm p}. set (declared_ids ix (fst p)))"
    unfolding fs_def by (simp add: walk_files_seen) (simp add: fs0_def)
  also have "(\<Union>p \<in> {p \<in> set (sm_entries (hs_hits hs)). expands lowercase ix hm p}. set (declared_ids ix (fst p)))
      = (\<Union>f \<in> {f \<in> {f. \<exists>h. (f, h) \<in> set (sm_entries (hs_hits hs)) \<and> firmness h = 2}.
           \<not> is_hub lowercase ix hm f}. set (declared_ids ix f))"
    by (auto simp: expands_def) blast
  also have "{f. \<exists>h. (f, h) \<in> set (sm_entries (hs_hits hs)) \<and> firmness h = 2}
      = firm_reach ix iface imf (fst (ws_levels ws))"
    using firm_entries [OF st0 hs_def] by (simp add: ws_levels_def)
  finally have seen: "fs_seen_defs fs = ws_seen_defs ws \<union>
    (\<Union>f \<in> {f \<in> firm_reach ix iface imf (fst (ws_levels ws)). \<not> is_hub lowercase ix hm f}. set (declared_ids ix f))" .
  have "set (ss_order (fs_next_frontier fs)) = fs_seen_defs fs - ws_seen_defs ws"
    using f1 by (simp add: frontier_ok_def)
  with seen show "ws_levels ws' = level_step lowercase ix iface imf hm (ws_levels ws)"
    by (auto simp: ws_levels_def ws' level_step_def Let_def)
  show "hop_of (ws_visited ws') f =
      (case hop_of (ws_visited ws) f of
         Some h \<Rightarrow> Some h
       | None \<Rightarrow> if f \<in> (\<Union>d \<in> fst (ws_levels ws). reach ix iface imf d) \<and> f \<notin> set (ss_order sf)
                then Some hop else None)"
    unfolding ws' fs_def walk_files_visited [OF v0 sf] hs_def fresh_hits(1) [OF st0 refl]
    by (cases "hop_of (ws_visited ws) f") (auto simp: fs0_def ws_levels_def)
qed

text \<open>The first hop from \<open>hop\<close> on at which a file is reached.\<close>

definition first_reached :: "(nat \<Rightarrow> string set) \<Rightarrow> nat \<Rightarrow> nat \<Rightarrow> string \<Rightarrow> nat option" where
  "first_reached files hop hops f = List.find (\<lambda>h. f \<in> files (h - 1)) [hop..<Suc hops]"

lemma first_reached_step:
  "hop \<le> hops \<Longrightarrow> first_reached files hop hops f =
     (if f \<in> files (hop - 1) then Some hop else first_reached files (Suc hop) hops f)"
  unfolding first_reached_def by (subst upt_conv_Cons) auto

lemma first_reached_none: "\<forall>h \<ge> hop. f \<notin> files (h - 1) \<Longrightarrow> first_reached files hop hops f = None"
  by (auto simp: first_reached_def find_None_iff)

lemma level_step_empty: "level_step lowercase ix iface imf hm ({}, S) = ({}, S)"
  by (simp add: level_step_def firm_reach_def)

lemma level_empty:
  "fst (level lowercase ix iface imf hm seeds n) = {} \<Longrightarrow> n \<le> k \<Longrightarrow>
   fst (level lowercase ix iface imf hm seeds k) = {}"
proof (induction k)
  case (Suc k)
  then show ?case
  proof (cases "n = Suc k")
    case False
    with Suc have "fst (level lowercase ix iface imf hm seeds k) = {}" by simp
    then show ?thesis
      by (cases "level lowercase ix iface imf hm seeds k") (simp add: level_step_empty)
  qed simp
qed simp

lemma walk_loop_hops:
  assumes "ws_ok ws" "ss_ok sf" "0 < hop"
    "ws_levels ws = level lowercase ix iface imf hm seeds (hop - 1)"
  shows "hop_of (ws_visited (walk_loop lowercase ix iface imf hm sf hops hop ws)) f =
    (case hop_of (ws_visited ws) f of
       Some h \<Rightarrow> Some h
     | None \<Rightarrow> if f \<in> set (ss_order sf) then None
              else first_reached (level_files lowercase ix iface imf hm seeds) hop hops f)"
  using assms
proof (induction lowercase ix iface imf hm sf hops hop ws rule: walk_loop.induct)
  case (1 lowercase ix iface imf hm sf hops hop ws)
  define files where "files = level_files lowercase ix iface imf hm seeds"
  define ws' where "ws' = walk_hop lowercase ix iface imf hm sf hops hop ws"
  have lv: "ws_levels ws = level lowercase ix iface imf hm seeds (hop - 1)" by (rule "1.prems"(4))
  show ?case
  proof (cases "hop \<le> hops \<and> 0 < ss_len (ws_frontier ws)")
    case True
    note step = walk_hop_levels [OF "1.prems"(1,2), of lowercase ix iface imf hm hops hop, folded ws'_def]
    have lv': "ws_levels ws' = level lowercase ix iface imf hm seeds (hop + 1 - 1)"
      using "1.prems"(3) step(2) lv by (cases hop) simp_all
    have files: "files (hop - 1) = (\<Union>d \<in> fst (ws_levels ws). reach ix iface imf d)"
      by (simp add: files_def level_files_def lv)
    have "hop_of (ws_visited (walk_loop lowercase ix iface imf hm sf hops (hop + 1) ws')) f =
        (case hop_of (ws_visited ws') f of
           Some h \<Rightarrow> Some h
         | None \<Rightarrow> if f \<in> set (ss_order sf) then None else first_reached files (hop + 1) hops f)"
      unfolding files_def ws'_def
      by (rule "1.IH" [OF True]) (use step(1) lv' "1.prems" in \<open>simp_all add: ws'_def\<close>)
    then have "hop_of (ws_visited (walk_loop lowercase ix iface imf hm sf hops hop ws)) f =
        (case hop_of (ws_visited ws') f of
           Some h \<Rightarrow> Some h
         | None \<Rightarrow> if f \<in> set (ss_order sf) then None else first_reached files (hop + 1) hops f)"
      using True by (subst walk_loop.simps) (simp add: ws'_def)
    moreover have "first_reached files hop hops f =
        (if f \<in> files (hop - 1) then Some hop else first_reached files (hop + 1) hops f)"
      using first_reached_step [of hop hops files f] True by simp
    ultimately show ?thesis
      unfolding step(3) files [symmetric] files_def [symmetric]
      by (cases "hop_of (ws_visited ws) f") auto
  next
    case False
    have "first_reached files hop hops f = None"
    proof (cases "hop \<le> hops")
      case True
      with False have empty: "fst (ws_levels ws) = {}" by (simp add: ws_levels_def ss_len_def)
      have "fst (level lowercase ix iface imf hm seeds (h - 1)) = {}" if "hop \<le> h" for h
        by (rule level_empty [of _ _ _ _ _ _ "hop - 1"]) (use that lv empty in auto)
      then show ?thesis by (intro first_reached_none) (simp add: files_def level_files_def)
    qed (simp add: first_reached_def)
    with False show ?thesis
      by (subst walk_loop.simps) (auto simp: files_def split: option.splits)
  qed
qed

text \<open>
  C16. The walk records a file exactly when some level within the hop limit reaches it and it is
  no seed file, and records it at the first such hop: the visited map implements the level
  specification, guesses ending a path and hubs stopping it.
\<close>

theorem impact_walk_first_hop:
  "map_option ve_hop (sm_get (iw_visited (impact_walk lowercase ix seeds hops iface imf hm)) f) =
   (if f \<in> (\<Union>d \<in> set seeds. set (def_files ix d)) then None
    else List.find (\<lambda>h. f \<in> level_files lowercase ix iface imf hm seeds (h - 1)) [1..<Suc hops])"
proof -
  have ok: "ws_ok (initial_walk seeds)"
    by (simp add: ws_ok_def initial_walk_def sml.ok_empty ssl.ok_fold ssl.ok_empty)
  have sf: "ss_ok (seed_files_of ix seeds)" "set (ss_order (seed_files_of ix seeds)) = (\<Union>d \<in> set seeds. set (def_files ix d))"
    by (simp_all add: seed_files_of_def ssl.ok_fold ssl.ok_empty ssl.set_fold)
  have lv: "ws_levels (initial_walk seeds) = level lowercase ix iface imf hm seeds (1 - 1)"
    by (simp add: ws_levels_def initial_walk_def ssl.set_fold ssl.ok_empty)
  have "hop_of (ws_visited (initial_walk seeds)) f = None"
    by (simp add: hop_of_def initial_walk_def sm_get_def sml.entries_empty)
  with walk_loop_hops [OF ok sf(1) zero_less_one lv, of hops f] sf(2) show ?thesis
    by (simp add: impact_walk_def Let_def hop_of_def first_reached_def del: upt_Suc)
qed

section \<open>The brakes are reported\<close>

lemma braked_insert_same:
  "braked_ok g m \<Longrightarrow> k \<in> fst ` set m \<Longrightarrow> set (hash_insert k (g k) m) = set m"
  by (fastforce simp: braked_ok_def hash_insert_set)

definition brakes_file ::
  "(string \<Rightarrow> string) \<Rightarrow> graph_index \<Rightarrow> nat \<Rightarrow> nat \<Rightarrow> nat \<Rightarrow> string \<times> hit \<Rightarrow> bool" where
  "brakes_file lowercase ix hm hops hop p \<longleftrightarrow>
     hop < hops \<and> firmness (snd p) = 2 \<and> is_hub lowercase ix hm (fst p)"

lemma walk_file_braked:
  "fs_braked_files (walk_file lowercase ix hm sf hops hop p st) =
     (if brakes_file lowercase ix hm hops hop p
      then hash_insert (fst p) (indegree_of ix (fst p)) (fs_braked_files st) else fs_braked_files st)"
  by (cases p) (auto simp: walk_file_def Let_def brakes_file_def firmness_def expand_defs split: option.splits)

lemma walk_files_braked:
  "braked_ok (indegree_of ix) (fs_braked_files st) \<Longrightarrow>
   braked_ok (indegree_of ix) (fs_braked_files (fold (walk_file lowercase ix hm sf hops hop) ps st)) \<and>
   fst ` set (fs_braked_files (fold (walk_file lowercase ix hm sf hops hop) ps st)) =
     fst ` set (fs_braked_files st) \<union> fst ` {p \<in> set ps. brakes_file lowercase ix hm hops hop p}"
proof (induction ps arbitrary: st)
  case (Cons p ps)
  define st1 where "st1 = walk_file lowercase ix hm sf hops hop p st"
  have one: "braked_ok (indegree_of ix) (fs_braked_files st1)"
    "fst ` set (fs_braked_files st1) = fst ` set (fs_braked_files st)
       \<union> (if brakes_file lowercase ix hm hops hop p then {fst p} else {})"
    using braked_ok_insert [OF Cons.prems] Cons.prems by (auto simp: st1_def walk_file_braked)
  from Cons.IH [OF one(1)] one(2) show ?case by (auto simp: st1_def)
qed simp

text \<open>The hubs a level reaches firmly.\<close>

definition level_hubs ::
  "(string \<Rightarrow> string) \<Rightarrow> graph_index \<Rightarrow> bool \<Rightarrow> nat \<Rightarrow> nat \<Rightarrow> string list \<Rightarrow> nat \<Rightarrow> string set" where
  "level_hubs lowercase ix iface imf hm seeds n =
     {f \<in> firm_reach ix iface imf (fst (level lowercase ix iface imf hm seeds n)). is_hub lowercase ix hm f}"

lemma walk_hop_braked_files:
  assumes "braked_ok (indegree_of ix) (ws_braked_files ws)"
  shows "braked_ok (indegree_of ix) (ws_braked_files (walk_hop lowercase ix iface imf hm sf hops hop ws)) \<and>
    fst ` set (ws_braked_files (walk_hop lowercase ix iface imf hm sf hops hop ws)) =
      fst ` set (ws_braked_files ws) \<union>
      (if hop < hops then {f \<in> firm_reach ix iface imf (fst (ws_levels ws)). is_hub lowercase ix hm f} else {})"
proof -
  define st0 where "st0 = \<lparr>hs_hits = sm_new, hs_fwd_adj = ws_fwd_adj ws, hs_braked = ws_braked ws\<rparr>"
  define hs where "hs = frontier_hits ix iface imf (ws_def_taint ws) (ss_order (ws_frontier ws)) st0"
  define fs0 where "fs0 = \<lparr>fs_visited = ws_visited ws, fs_braked_files = ws_braked_files ws,
    fs_seen_defs = ws_seen_defs ws, fs_next_frontier = ss_new, fs_def_taint = ws_def_taint ws\<rparr>"
  have st0: "sm_entries (hs_hits st0) = []" "hits_ok st0"
    by (simp_all add: st0_def sml.entries_empty sml.ok_empty hits_ok_def)
  have eq: "ws_braked_files (walk_hop lowercase ix iface imf hm sf hops hop ws) =
      fs_braked_files (fold (walk_file lowercase ix hm sf hops hop) (sm_entries (hs_hits hs)) fs0)"
    by (simp add: walk_hop_def Let_def hs_def fs0_def st0_def frontier_hits_def)
  have f0: "braked_ok (indegree_of ix) (fs_braked_files fs0)" using assms by (simp add: fs0_def)
  have "fst ` {p \<in> set (sm_entries (hs_hits hs)). brakes_file lowercase ix hm hops hop p} =
      (if hop < hops then {f \<in> {f. \<exists>h. (f, h) \<in> set (sm_entries (hs_hits hs)) \<and> firmness h = 2}.
        is_hub lowercase ix hm f} else {})"
    by (auto simp: brakes_file_def) force
  also have "{f. \<exists>h. (f, h) \<in> set (sm_entries (hs_hits hs)) \<and> firmness h = 2}
      = firm_reach ix iface imf (fst (ws_levels ws))"
    using firm_entries [OF st0 hs_def] by (simp add: ws_levels_def)
  finally show ?thesis
    unfolding eq using walk_files_braked [OF f0, of lowercase hm sf hops hop "sm_entries (hs_hits hs)"]
    by (simp add: fs0_def)
qed

lemma walk_loop_braked_files:
  assumes "ws_ok ws" "ss_ok sf" "0 < hop" "braked_ok (indegree_of ix) (ws_braked_files ws)"
    "ws_levels ws = level lowercase ix iface imf hm seeds (hop - 1)"
  shows "braked_ok (indegree_of ix) (ws_braked_files (walk_loop lowercase ix iface imf hm sf hops hop ws)) \<and>
    fst ` set (ws_braked_files (walk_loop lowercase ix iface imf hm sf hops hop ws)) =
      fst ` set (ws_braked_files ws) \<union>
      (\<Union>h \<in> {hop..<hops}. level_hubs lowercase ix iface imf hm seeds (h - 1))"
  using assms
proof (induction lowercase ix iface imf hm sf hops hop ws rule: walk_loop.induct)
  case (1 lowercase ix iface imf hm sf hops hop ws)
  define ws' where "ws' = walk_hop lowercase ix iface imf hm sf hops hop ws"
  note prems = "1.prems"
  show ?case
  proof (cases "hop \<le> hops \<and> 0 < ss_len (ws_frontier ws)")
    case True
    note step = walk_hop_levels [OF prems(1,2), of lowercase ix iface imf hm hops hop, folded ws'_def]
    have lv': "ws_levels ws' = level lowercase ix iface imf hm seeds (hop + 1 - 1)"
      using prems(3) step(2) prems(5) by (cases hop) simp_all
    note br = walk_hop_braked_files [OF prems(4), of lowercase iface imf hm sf hops hop, folded ws'_def]
    have IH: "braked_ok (indegree_of ix) (ws_braked_files (walk_loop lowercase ix iface imf hm sf hops (hop + 1) ws')) \<and>
      fst ` set (ws_braked_files (walk_loop lowercase ix iface imf hm sf hops (hop + 1) ws')) =
      fst ` set (ws_braked_files ws') \<union> (\<Union>h \<in> {hop + 1..<hops}. level_hubs lowercase ix iface imf hm seeds (h - 1))"
      unfolding ws'_def
      by (rule "1.IH" [OF True]) (use step(1) lv' br prems in \<open>simp_all add: ws'_def\<close>)
    have here: "(\<Union>h \<in> {hop..<hops}. level_hubs lowercase ix iface imf hm seeds (h - 1)) =
      (if hop < hops then level_hubs lowercase ix iface imf hm seeds (hop - 1) else {})
      \<union> (\<Union>h \<in> {hop + 1..<hops}. level_hubs lowercase ix iface imf hm seeds (h - 1))"
    proof (cases "hop < hops")
      case True
      then have "{hop..<hops} = insert hop {hop + 1..<hops}" by auto
      with True show ?thesis by simp
    qed simp
    have "walk_loop lowercase ix iface imf hm sf hops hop ws =
        walk_loop lowercase ix iface imf hm sf hops (hop + 1) ws'"
      using True by (subst walk_loop.simps) (simp add: ws'_def)
    moreover have "level_hubs lowercase ix iface imf hm seeds (hop - 1) =
        {f \<in> firm_reach ix iface imf (fst (ws_levels ws)). is_hub lowercase ix hm f}"
      by (simp add: level_hubs_def prems(5))
    ultimately show ?thesis using IH br unfolding here by (simp add: Un_assoc)
  next
    case False
    have "(\<Union>h \<in> {hop..<hops}. level_hubs lowercase ix iface imf hm seeds (h - 1)) = {}"
    proof (cases "hop \<le> hops")
      case True
      with False have empty: "fst (ws_levels ws) = {}" by (simp add: ws_levels_def ss_len_def)
      have "fst (level lowercase ix iface imf hm seeds (h - 1)) = {}" if "hop \<le> h" for h
        by (rule level_empty [of _ _ _ _ _ _ "hop - 1"]) (use that prems(5) empty in auto)
      then show ?thesis by (auto simp: level_hubs_def firm_reach_def)
    qed simp
    moreover have "walk_loop lowercase ix iface imf hm sf hops hop ws = ws"
      by (subst walk_loop.simps) (simp only: False if_False)
    ultimately show ?thesis using prems(4) by simp
  qed
qed

lemma braked_ok_set: "braked_ok g m \<Longrightarrow> set m = (\<lambda>k. (k, g k)) ` fst ` set m"
  by (force simp: braked_ok_def)

text \<open>
  Every hub the walk declined to widen through is reported with its in-degree, and nothing
  else is: the hubs firmly reached at a hop before the last.
\<close>

theorem braked_files_reported:
  "set (iw_braked_files (impact_walk lowercase ix seeds hops iface imf hm)) =
   (\<lambda>f. (f, indegree_of ix f)) `
     (\<Union>h \<in> {1..<hops}. level_hubs lowercase ix iface imf hm seeds (h - 1))"
proof -
  have ok: "ws_ok (initial_walk seeds)"
    by (simp add: ws_ok_def initial_walk_def sml.ok_empty ssl.ok_fold ssl.ok_empty)
  have sf: "ss_ok (seed_files_of ix seeds)"
    by (simp add: seed_files_of_def ssl.ok_fold ssl.ok_empty)
  have lv: "ws_levels (initial_walk seeds) = level lowercase ix iface imf hm seeds (1 - 1)"
    by (simp add: ws_levels_def initial_walk_def ssl.set_fold ssl.ok_empty)
  have b: "braked_ok (indegree_of ix) (ws_braked_files (initial_walk seeds))"
    "ws_braked_files (initial_walk seeds) = []"
    by (simp_all add: initial_walk_def braked_ok_def)
  note loop = walk_loop_braked_files [OF ok sf zero_less_one b(1) lv, of hops]
  show ?thesis
    using loop braked_ok_set [OF conjunct1 [OF loop]]
    by (simp add: impact_walk_def Let_def sort_braked_def b(2))
qed

text \<open>The injected types a definition's interface hop declines to widen through.\<close>

definition braked_names :: "graph_index \<Rightarrow> nat \<Rightarrow> string \<Rightarrow> string set" where
  "braked_names ix imf d =
     {n. iface_braked ix imf n \<and>
         (n \<in> (\<lambda>ei. e_iface (edge_at ix ei)) `
            {ei \<in> set (or_default [] (ix_ctor_di_by_to (gi_maps ix) d)). is_Ctor_Di (edge_at ix ei)}
          \<or> n \<in> iface_label ix `
            {i \<in> set (implemented_interfaces ix d). ix_inbound (gi_maps ix) i \<noteq> None})}"

definition records :: "graph_index \<Rightarrow> string set \<Rightarrow> (string \<times> nat) list \<Rightarrow> (string \<times> nat) list \<Rightarrow> bool" where
  "records ix ns b b' \<longleftrightarrow>
     (braked_ok (fanin_of ix) b \<longrightarrow> braked_ok (fanin_of ix) b' \<and> fst ` set b' = fst ` set b \<union> ns)"

lemma notes_same [simp]: "records ix {} b b"
  by (simp add: records_def)

lemma notes_trans: "records ix ms a b \<Longrightarrow> records ix ns b c \<Longrightarrow> records ix (ms \<union> ns) a c"
  by (auto simp: records_def)

lemma notes_fold:
  "(\<And>x s. x \<in> set xs \<Longrightarrow> records ix (N x) (proj s) (proj (step x s))) \<Longrightarrow>
   records ix (\<Union>x \<in> set xs. N x) (proj s) (proj (fold step xs s))"
proof (induction xs arbitrary: s)
  case (Cons x xs)
  have "records ix (N x) (proj s) (proj (step x s))" by (rule Cons.prems) simp
  moreover have "records ix (\<Union>x \<in> set xs. N x) (proj (step x s)) (proj (fold step xs (step x s)))"
    by (rule Cons.IH) (rule Cons.prems, simp)
  ultimately have "records ix (N x \<union> (\<Union>x \<in> set xs. N x)) (proj s) (proj (fold step xs (step x s)))"
    by (rule notes_trans)
  then show ?case by simp
qed simp

lemma hs_braked_frames [simp]:
  "hs_braked (on_hit f F st) = hs_braked st" "hs_braked (link_files fs t st) = hs_braked st"
  by (simp_all add: on_hit_def link_files_def)

lemma brake_fanin_notes:
  "records ix (if iface_braked ix imf n then {n} else {}) b (snd (brake_fanin ix imf n b))"
  using braked_ok_insert [of "fanin_of ix" b n]
  by (auto simp: records_def brake_fanin_def iface_braked_def)

lemma braked_steps:
  "hs_braked (walk_inbound ix d t ei st) = hs_braked st"
  "hs_braked (walk_ambiguous ix d t ei st) = hs_braked st"
  "hs_braked (walk_bus ix d t f ei st) = hs_braked st"
  "hs_braked (walk_heuristic ix d t ei st) = hs_braked st"
  "hs_braked (snd (walk_iface_edge ix n d t ei s)) = hs_braked (snd s)"
  by (simp_all add: walk_inbound_def walk_ambiguous_def walk_bus_def walk_heuristic_def walk_iface_edge_def
      split: prod.splits edge.splits)

lemma fold_braked_same:
  "(\<And>x s. hs_braked (step x s) = hs_braked s) \<Longrightarrow> hs_braked (fold step xs s) = hs_braked s"
  by (induction xs arbitrary: s) auto

lemma fold_braked_same_snd:
  "(\<And>x s. hs_braked (snd (step x s)) = hs_braked (snd s)) \<Longrightarrow> hs_braked (snd (fold step xs s)) = hs_braked (snd s)"
  by (induction xs arbitrary: s) auto

lemma walk_ctor_di_notes:
  "records ix (if is_Ctor_Di (edge_at ix ei) \<and> iface_braked ix imf (e_iface (edge_at ix ei))
             then {e_iface (edge_at ix ei)} else {})
     (hs_braked (snd s)) (hs_braked (snd (walk_ctor_di ix imf d t ei s)))"
proof (cases "edge_at ix ei")
  case (Ctor_Di f l n r a tt c)
  then show ?thesis
    using brake_fanin_notes [of ix imf n "hs_braked (snd s)"]
    by (cases s) (auto simp: walk_ctor_di_def split: prod.splits bool.splits)
qed (simp_all add: walk_ctor_di_def split: prod.splits)

lemma walk_interface_notes:
  "records ix (if ix_inbound (gi_maps ix) i \<noteq> None \<and> iface_braked ix imf (iface_label ix i)
             then {iface_label ix i} else {})
     (hs_braked (snd s)) (hs_braked (snd (walk_interface ix imf d t i s)))"
proof (cases "ix_inbound (gi_maps ix) i")
  case None
  then show ?thesis by (simp add: walk_interface_def split: prod.splits)
next
  case (Some inb)
  obtain seen st where s: "s = (seen, st)" by (cases s)
  obtain brk b where br: "brake_fanin ix imf (iface_label ix i) (hs_braked st) = (brk, b)"
    by (cases "brake_fanin ix imf (iface_label ix i) (hs_braked st)")
  have "hs_braked (snd (walk_interface ix imf d t i s)) = b"
    by (cases brk)
      (simp_all add: walk_interface_def s Some Let_def br fold_braked_same_snd braked_steps
        flip: iface_label_def del: fold_append)
  with br brake_fanin_notes [of ix imf "iface_label ix i" "hs_braked st"] s Some show ?thesis by simp
qed

lemma walk_def_notes:
  "records ix (if iface then braked_names ix imf d else {}) (hs_braked st)
     (hs_braked (walk_def ix iface imf taints d st))"
proof -
  define t where "t = (case taints d of Some t \<Rightarrow> t | None \<Rightarrow> None)"
  define es where "es = or_default [] (ix_ctor_di_by_to (gi_maps ix) d)"
  define st3 where "st3 = fold (\<lambda>file s. case ix_outbound_by_file (gi_maps ix) file of
      Some outb \<Rightarrow> fold (walk_bus ix d t file) (oe_bus_hop outb) s | None \<Rightarrow> s) (def_files ix d)
    (case ix_ambiguous_by_candidate (gi_maps ix) d of
       Some es \<Rightarrow> fold (walk_ambiguous ix d t) es
         (case ix_inbound (gi_maps ix) d of
            Some inb \<Rightarrow> fold (walk_inbound ix d t) (concat (inbound_walk_kinds inb)) st | None \<Rightarrow> st)
     | None \<Rightarrow> (case ix_inbound (gi_maps ix) d of
            Some inb \<Rightarrow> fold (walk_inbound ix d t) (concat (inbound_walk_kinds inb)) st | None \<Rightarrow> st))"
  define s4 where "s4 = fold (walk_interface ix imf d t) (implemented_interfaces ix d)
    (fold (walk_ctor_di ix imf d t) es ({}, st3))"
  have st3: "hs_braked st3 = hs_braked st"
    unfolding st3_def
    by (subst fold_braked_same) (auto simp: fold_braked_same braked_steps split: option.splits)
  have ctor: "(case ix_ctor_di_by_to (gi_maps ix) d of
      Some es \<Rightarrow> fold (walk_ctor_di ix imf d t) es ({}, st3) | None \<Rightarrow> ({}, st3)) =
      fold (walk_ctor_di ix imf d t) es ({}, st3)"
    by (simp add: es_def split: option.splits)
  have "hs_braked (walk_def ix iface imf taints d st) = hs_braked (if iface then snd s4 else st3)"
    unfolding walk_def_def Let_def t_def [symmetric] st3_def [symmetric] ctor s4_def [symmetric]
    by (simp add: fold_braked_same braked_steps del: fold_append split: option.splits)
  moreover have "records ix (braked_names ix imf d) (hs_braked st3) (hs_braked (snd s4))"
  proof -
    have "records ix (\<Union>ei \<in> set es. if is_Ctor_Di (edge_at ix ei) \<and> iface_braked ix imf (e_iface (edge_at ix ei))
        then {e_iface (edge_at ix ei)} else {})
      (hs_braked (snd ({} :: (string \<times> nat) set, st3))) (hs_braked (snd (fold (walk_ctor_di ix imf d t) es ({}, st3))))"
      by (rule notes_fold [where proj = "\<lambda>s. hs_braked (snd s)"]) (rule walk_ctor_di_notes)
    moreover have "records ix (\<Union>i \<in> set (implemented_interfaces ix d).
        if ix_inbound (gi_maps ix) i \<noteq> None \<and> iface_braked ix imf (iface_label ix i) then {iface_label ix i} else {})
      (hs_braked (snd (fold (walk_ctor_di ix imf d t) es ({}, st3)))) (hs_braked (snd s4))"
      unfolding s4_def
      by (rule notes_fold [where proj = "\<lambda>s. hs_braked (snd s)"]) (rule walk_interface_notes)
    ultimately have "records ix ((\<Union>ei \<in> set es. if is_Ctor_Di (edge_at ix ei) \<and> iface_braked ix imf (e_iface (edge_at ix ei))
        then {e_iface (edge_at ix ei)} else {}) \<union> (\<Union>i \<in> set (implemented_interfaces ix d).
        if ix_inbound (gi_maps ix) i \<noteq> None \<and> iface_braked ix imf (iface_label ix i) then {iface_label ix i} else {}))
      (hs_braked st3) (hs_braked (snd s4))"
      using notes_trans by simp
    also have "((\<Union>ei \<in> set es. if is_Ctor_Di (edge_at ix ei) \<and> iface_braked ix imf (e_iface (edge_at ix ei))
        then {e_iface (edge_at ix ei)} else {}) \<union> (\<Union>i \<in> set (implemented_interfaces ix d).
        if ix_inbound (gi_maps ix) i \<noteq> None \<and> iface_braked ix imf (iface_label ix i) then {iface_label ix i} else {}))
      = braked_names ix imf d"
      by (auto simp: braked_names_def es_def split: if_splits)
    finally show ?thesis .
  qed
  ultimately show ?thesis by (simp add: st3)
qed

definition level_braked ::
  "(string \<Rightarrow> string) \<Rightarrow> graph_index \<Rightarrow> bool \<Rightarrow> nat \<Rightarrow> nat \<Rightarrow> string list \<Rightarrow> nat \<Rightarrow> string set" where
  "level_braked lowercase ix iface imf hm seeds n =
     (if iface then \<Union>d \<in> fst (level lowercase ix iface imf hm seeds n). braked_names ix imf d else {})"

lemma walk_hop_records:
  "records ix (if iface then \<Union>d \<in> fst (ws_levels ws). braked_names ix imf d else {}) (ws_braked ws)
     (ws_braked (walk_hop lowercase ix iface imf hm sf hops hop ws))"
proof -
  have "records ix (\<Union>d \<in> set (ss_order (ws_frontier ws)). if iface then braked_names ix imf d else {})
      (hs_braked st) (hs_braked (fold (walk_def ix iface imf taints) (ss_order (ws_frontier ws)) st))" for st taints
    by (rule notes_fold) (rule walk_def_notes)
  from this [of "\<lparr>hs_hits = sm_new, hs_fwd_adj = ws_fwd_adj ws, hs_braked = ws_braked ws\<rparr>" "ws_def_taint ws"]
  show ?thesis by (cases iface) (simp_all add: walk_hop_def Let_def ws_levels_def)
qed

lemma walk_loop_records:
  assumes "ws_ok ws" "ss_ok sf" "0 < hop"
    "ws_levels ws = level lowercase ix iface imf hm seeds (hop - 1)"
  shows "records ix (\<Union>h \<in> {hop..<Suc hops}. level_braked lowercase ix iface imf hm seeds (h - 1))
    (ws_braked ws) (ws_braked (walk_loop lowercase ix iface imf hm sf hops hop ws))"
  using assms
proof (induction lowercase ix iface imf hm sf hops hop ws rule: walk_loop.induct)
  case (1 lowercase ix iface imf hm sf hops hop ws)
  define ws' where "ws' = walk_hop lowercase ix iface imf hm sf hops hop ws"
  define lb where "lb = level_braked lowercase ix iface imf hm seeds"
  note prems = "1.prems"
  show ?case
  proof (cases "hop \<le> hops \<and> 0 < ss_len (ws_frontier ws)")
    case True
    note step = walk_hop_levels [OF prems(1,2), of lowercase ix iface imf hm hops hop, folded ws'_def]
    have lv': "ws_levels ws' = level lowercase ix iface imf hm seeds (hop + 1 - 1)"
      using prems(3) step(2) prems(4) by (cases hop) simp_all
    have "records ix (\<Union>h \<in> {hop + 1..<Suc hops}. lb (h - 1)) (ws_braked ws')
        (ws_braked (walk_loop lowercase ix iface imf hm sf hops (hop + 1) ws'))"
      unfolding ws'_def lb_def
      by (rule "1.IH" [OF True]) (use step(1) lv' prems in \<open>simp_all add: ws'_def\<close>)
    moreover have "records ix (lb (hop - 1)) (ws_braked ws) (ws_braked ws')"
      unfolding lb_def level_braked_def prems(4) [symmetric] ws'_def by (rule walk_hop_records)
    ultimately have "records ix (lb (hop - 1) \<union> (\<Union>h \<in> {hop + 1..<Suc hops}. lb (h - 1))) (ws_braked ws)
        (ws_braked (walk_loop lowercase ix iface imf hm sf hops (hop + 1) ws'))"
      by (rule notes_trans [rotated])
    moreover have "{hop..<Suc hops} = insert hop {hop + 1..<Suc hops}" using True by auto
    moreover have "walk_loop lowercase ix iface imf hm sf hops hop ws =
        walk_loop lowercase ix iface imf hm sf hops (hop + 1) ws'"
      using True by (subst walk_loop.simps) (simp add: ws'_def)
    ultimately show ?thesis by (simp add: lb_def)
  next
    case False
    have "(\<Union>h \<in> {hop..<Suc hops}. lb (h - 1)) = {}"
    proof (cases "hop \<le> hops")
      case True
      with False have empty: "fst (ws_levels ws) = {}" by (simp add: ws_levels_def ss_len_def)
      have "fst (level lowercase ix iface imf hm seeds (h - 1)) = {}" if "hop \<le> h" for h
        by (rule level_empty [of _ _ _ _ _ _ "hop - 1"]) (use that prems(4) empty in auto)
      then show ?thesis by (auto simp: lb_def level_braked_def)
    qed simp
    moreover have "walk_loop lowercase ix iface imf hm sf hops hop ws = ws"
      by (subst walk_loop.simps) (simp only: False if_False)
    ultimately show ?thesis by (simp add: lb_def)
  qed
qed

text \<open>
  Every interface the walk declined to widen through is reported with its fan-in, and
  nothing else is: those injected into more constructors than the limit, met at any hop.
\<close>

theorem braked_interfaces_reported:
  "set (iw_braked (impact_walk lowercase ix seeds hops iface imf hm)) =
   (\<lambda>n. (n, fanin_of ix n)) `
     (\<Union>h \<in> {1..<Suc hops}. level_braked lowercase ix iface imf hm seeds (h - 1))"
proof -
  have ok: "ws_ok (initial_walk seeds)"
    by (simp add: ws_ok_def initial_walk_def sml.ok_empty ssl.ok_fold ssl.ok_empty)
  have sf: "ss_ok (seed_files_of ix seeds)"
    by (simp add: seed_files_of_def ssl.ok_fold ssl.ok_empty)
  have lv: "ws_levels (initial_walk seeds) = level lowercase ix iface imf hm seeds (1 - 1)"
    by (simp add: ws_levels_def initial_walk_def ssl.set_fold ssl.ok_empty)
  have b: "ws_braked (initial_walk seeds) = []" by (simp add: initial_walk_def)
  define m where "m = ws_braked (walk_loop lowercase ix iface imf hm (seed_files_of ix seeds) hops 1 (initial_walk seeds))"
  have "records ix (\<Union>h \<in> {1..<Suc hops}. level_braked lowercase ix iface imf hm seeds (h - 1)) [] m"
    using walk_loop_records [OF ok sf zero_less_one lv, of hops] by (simp add: m_def b)
  then have m: "braked_ok (fanin_of ix) m"
    "fst ` set m = (\<Union>h \<in> {1..<Suc hops}. level_braked lowercase ix iface imf hm seeds (h - 1))"
    by (simp_all add: records_def braked_ok_def)
  have "set (iw_braked (impact_walk lowercase ix seeds hops iface imf hm)) = set m"
    by (simp add: impact_walk_def Let_def sort_braked_def m_def)
  with braked_ok_set [OF m(1)] m(2) show ?thesis by simp
qed

section \<open>What a row says\<close>

lemma find_append:
  "List.find P (xs @ ys) = (case List.find P xs of None \<Rightarrow> List.find P ys | Some x \<Rightarrow> Some x)"
  by (induction xs) auto

text \<open>The edges noted at one file, in order: the line slot holds the lowest line, its reason the edge's.\<close>

lemma note_line_why_fold:
  "fold (\<lambda>(line, reason) (slot, w). note_line_why slot w line reason) ps (0, None) =
   (let qs = filter (\<lambda>p. 0 < fst p) ps
    in if qs = [] then (0, None) else the (List.find (\<lambda>p. fst p = Min (fst ` set qs)) qs))"
proof (induction ps rule: rev_induct)
  case (snoc p ps)
  obtain l w where p: "p = (l, w)" by (cases p)
  define qs where "qs = filter (\<lambda>p. 0 < fst p) ps"
  show ?case
  proof (cases "l = 0")
    case True
    then have "filter (\<lambda>p. 0 < fst p) (ps @ [p]) = qs" by (simp add: p qs_def)
    with snoc True show ?thesis by (simp add: p qs_def note_line_why_def split: prod.splits)
  next
    case False
    then have f: "filter (\<lambda>p. 0 < fst p) (ps @ [p]) = qs @ [p]" by (simp add: p qs_def)
    show ?thesis
    proof (cases "qs = []")
      case True
      with snoc False f show ?thesis by (simp add: p qs_def note_line_why_def)
    next
      case qs: False
      define mn where "mn = Min (fst ` set qs)"
      have "mn \<in> fst ` set qs" unfolding mn_def using qs by (intro Min_in) auto
      then obtain q where q: "List.find (\<lambda>p. fst p = mn) qs = Some q"
        by (cases "List.find (\<lambda>p. fst p = mn) qs") (auto simp: find_None_iff)
      then have qf: "fst q = mn" by (auto simp: find_Some_iff)
      have pos: "0 < mn" using \<open>mn \<in> fst ` set qs\<close> by (auto simp: qs_def)
      have IH: "fold (\<lambda>(line, reason) (slot, w). note_line_why slot w line reason) ps (0, None) = q"
        using snoc qs q by (simp add: qs_def [symmetric] mn_def Let_def)
      have min2: "Min (fst ` set (qs @ [p])) = min mn l"
        using qs by (simp add: p mn_def Min_insert2 min.commute)
      have find2: "List.find (\<lambda>x. fst x = min mn l) (qs @ [p]) = Some (if l < mn then p else q)"
      proof (cases "l < mn")
        case True
        then have "\<forall>x \<in> set qs. fst x \<noteq> l"
          unfolding mn_def by (metis Min_le finite_imageI finite_set imageI leD)
        then have "List.find (\<lambda>x. fst x = l) qs = None" unfolding find_None_iff by blast
        with True show ?thesis by (simp add: p min_def find_append)
      next
        case False
        with q show ?thesis by (simp add: min_def find_append)
      qed
      have "fold (\<lambda>(line, reason) (slot, w). note_line_why slot w line reason) (ps @ [p]) (0, None)
          = (if l < mn then p else q)"
      proof -
        have "fold (\<lambda>(line, reason) (slot, w). note_line_why slot w line reason) (ps @ [p]) (0, None) =
            (case fold (\<lambda>(line, reason) (slot, w). note_line_why slot w line reason) ps (0, None) of
               (slot, w0) \<Rightarrow> note_line_why slot w0 l w)"
          by (simp add: p)
        then show ?thesis
          unfolding IH using False qf pos by (cases q) (simp add: p note_line_why_def)
      qed
      then show ?thesis unfolding f Let_def min2 find2 by simp
    qed
  qed
qed simp

section \<open>A walk on a small graph\<close>

text \<open>
  Two seeds in \<open>s.cs\<close>; \<open>a.cs\<close> publishes a message the first handles, \<open>b.cs\<close> names the second;
  the partial type \<open>D\<close> is declared in both \<open>a.cs\<close> and \<open>b.cs\<close>, and \<open>x.cs\<close> uses it.
\<close>

definition sample_def :: "string \<Rightarrow> string \<Rightarrow> string list \<Rightarrow> graph_def" where
  "sample_def name file also =
     \<lparr>d_id = name, d_name = name, d_namespace = [], d_kind = ''class'', d_file = file, d_line = 1,
      d_methods = [], d_test_methods = [], d_also_in = map (\<lambda>f. \<lparr>ai_file = f, ai_line = 1\<rparr>) also,
      d_end_line = 0, d_local = False\<rparr>"

definition sample_graph :: graph where
  "sample_graph =
     \<lparr>g_schema_version = 3, g_built_at_head = None,
      g_defs = [sample_def ''S'' ''s.cs'' [], sample_def ''T'' ''s.cs'' [],
                sample_def ''D'' ''a.cs'' [''b.cs''], sample_def ''X'' ''x.cs'' []],
      g_edges = [Bus_Hop ''a.cs'' 7 ''M'' ''S'' ''s.cs'' ''base-arg'',
                 Uses_Type ''b.cs'' 4 ''T'' ''s.cs'' False,
                 Uses_Type ''x.cs'' 9 ''D'' ''a.cs'' False],
      g_names = [], g_units = []\<rparr>"

definition sample_walk :: "bool \<Rightarrow> impact_walk_result" where
  "sample_walk bus =
     impact_walk (\<lambda>s. s)
       (load_graph_index_with (\<lambda>s. s) None sample_graph (default_options\<lparr>io_include_bus := bus\<rparr>))
       [''S'', ''T''] 2 True 8 34"


text \<open>
  A file reached through a partial type keeps the possible-route mark of the type's first
  file: here \<open>x.cs\<close> is marked bus-only although the walk that leaves every bus hop out reaches
  it at the same hop.
\<close>

theorem partial_type_keeps_bus_mark:
  "map_option (\<lambda>v. (ve_hop v, ve_bus_only v)) (sm_get (iw_visited (sample_walk True)) ''x.cs'') = Some (2, True)
   \<and> map_option (\<lambda>v. (ve_hop v, ve_bus_only v)) (sm_get (iw_visited (sample_walk False)) ''x.cs'') = Some (2, False)"
  by code_simp

end
