(* ===== verification/Seeds.thy ===== *)
theory Seeds
  imports Impact
begin

text \<open>
  Resolving what the caller typed: the type ladder (\<open>src/query/symbol.rs\<close>), the member seeds
  (\<open>src/query/member.rs\<close>), the seed of the impact walk (\<open>src/query/impact_seed.rs\<close>) and the
  follow-up suggestions filtered through those resolvers (\<open>src/query/next.rs\<close>). The models the
  suggestions are read off are passed as the fields they read.
\<close>

section \<open>The type ladder\<close>

datatype resolution = Resolved string | Res_Ambiguous "string list" | Res_Not_Found

abbreviation def_at :: "graph_index \<Rightarrow> nat \<Rightarrow> graph_def" where
  "def_at ix i \<equiv> g_defs (gi_graph ix) ! i"

definition non_local_step :: "graph_index \<Rightarrow> nat list \<Rightarrow> resolution option" where
  "non_local_step ix candidates =
     (case filter (\<lambda>i. \<not> d_local (def_at ix i)) candidates of
        [] \<Rightarrow> None
      | [i] \<Rightarrow> Some (Resolved (d_id (def_at ix i)))
      | _ \<Rightarrow> Some (Res_Ambiguous (sort (map (\<lambda>i. d_id (def_at ix i)) candidates))))"

definition local_step :: "graph_index \<Rightarrow> nat list \<Rightarrow> resolution option" where
  "local_step ix candidates =
     (case sort (map (\<lambda>i. d_id (def_at ix i)) (filter (\<lambda>i. d_local (def_at ix i)) candidates)) of
        [] \<Rightarrow> None
      | [m] \<Rightarrow> Some (Resolved m)
      | ms \<Rightarrow> Some (Res_Ambiguous ms))"

text \<open>\<open>path.rsplit_once('-')\<close> with a digit tail.\<close>

definition strip_repeat_suffix :: "string \<Rightarrow> string" where
  "strip_repeat_suffix path =
     (case str_rfind path CHR ''-'' of
        None \<Rightarrow> path
      | Some i \<Rightarrow>
          if drop (i + 1) path \<noteq> [] \<and> list_all is_ascii_digit (drop (i + 1) path)
          then take i path else path)"

definition dotted_tail :: "string \<Rightarrow> graph_def \<Rightarrow> bool" where
  "dotted_tail query d \<longleftrightarrow> ends_with (d_id d) (''.'' @ query)"

definition path_tail :: "string \<Rightarrow> graph_def \<Rightarrow> bool" where
  "path_tail query d \<longleftrightarrow>
     (case str_rfind (d_id d) CHR ''#'' of
        None \<Rightarrow> False
      | Some hash \<Rightarrow>
          let path = drop (hash + 1) (d_id d)
          in list_ex (\<lambda>p. p = query \<or> ends_with p (''::'' @ query)) [path, strip_repeat_suffix path])"

text \<open>\<open>graph.defs.iter().enumerate().filter(..)\<close>.\<close>

definition defs_where :: "graph_index \<Rightarrow> (graph_def \<Rightarrow> bool) \<Rightarrow> nat list" where
  "defs_where ix P = filter (\<lambda>i. P (def_at ix i)) [0..<length (g_defs (gi_graph ix))]"

definition resolve_symbol :: "(string \<Rightarrow> string) \<Rightarrow> graph_index \<Rightarrow> string \<Rightarrow> resolution" where
  "resolve_symbol lowercase ix query =
     (if ix_by_id (gi_maps ix) query \<noteq> None then Resolved query
      else
        (let s1 = (case ix_by_simple_name (gi_maps ix) query of Some c \<Rightarrow> non_local_step ix c | None \<Rightarrow> None);
             s2 = (case ix_by_lower_name (gi_maps ix) (lowercase query) of
                     Some c \<Rightarrow> non_local_step ix c | None \<Rightarrow> None);
             s3 = (if str_contains query ''.'' then non_local_step ix (defs_where ix (dotted_tail query)) else None);
             s4 = (if str_contains query ''::'' then non_local_step ix (defs_where ix (path_tail query)) else None)
         in (case s1 of Some r \<Rightarrow> r | None \<Rightarrow>
             (case s2 of Some r \<Rightarrow> r | None \<Rightarrow>
              (case s3 of Some r \<Rightarrow> r | None \<Rightarrow>
               (case s4 of Some r \<Rightarrow> r | None \<Rightarrow> Res_Not_Found))))))"

definition resolve_local_symbol :: "(string \<Rightarrow> string) \<Rightarrow> graph_index \<Rightarrow> string \<Rightarrow> resolution" where
  "resolve_local_symbol lowercase ix query =
     (let s1 = (case ix_by_simple_name (gi_maps ix) query of Some c \<Rightarrow> local_step ix c | None \<Rightarrow> None);
          s2 = (case ix_by_lower_name (gi_maps ix) (lowercase query) of
                  Some c \<Rightarrow> local_step ix c | None \<Rightarrow> None);
          s3 = (if str_contains query ''.''
                then local_step ix (defs_where ix (\<lambda>d. d_local d \<and> dotted_tail query d)) else None)
      in (case s1 of Some r \<Rightarrow> r | None \<Rightarrow>
          (case s2 of Some r \<Rightarrow> r | None \<Rightarrow>
           (case s3 of Some r \<Rightarrow> r | None \<Rightarrow> Res_Not_Found))))"

section \<open>Member seeds\<close>

definition split_member_seed :: "string \<Rightarrow> string \<times> string option" where
  "split_member_seed seed =
     (case str_rfind seed CHR ''.'' of
        Some i \<Rightarrow> (drop (i + 1) seed, Some (take i seed))
      | None \<Rightarrow> (seed, None))"

definition owner_matches_qualifier :: "string \<Rightarrow> string \<Rightarrow> bool" where
  "owner_matches_qualifier owner qualifier \<longleftrightarrow>
     owner = qualifier \<or> ends_with owner (''.'' @ qualifier) \<or> ends_with owner (''#'' @ qualifier)"

definition is_member_row :: "graph_index \<Rightarrow> string \<Rightarrow> graph_name \<Rightarrow> bool" where
  "is_member_row ix name n \<longleftrightarrow>
     gn_name n = name \<and> gn_owner n \<noteq> [] \<and> ix_by_id (gi_maps ix) (gn_owner n) \<noteq> None
     \<and> gn_kind n \<in> set MEMBER_KINDS"

text \<open>
  \<open>qualified_member_owners\<close>: the vector \<open>out\<close> and its index \<open>at\<close> are the two fields of an
  ordered map from owner to sites.
\<close>

definition qualified_member_owners ::
  "graph_index \<Rightarrow> string \<Rightarrow> string option \<Rightarrow> (string \<times> (string \<times> nat) list) list" where
  "qualified_member_owners ix name qualifier =
     sm_entries (fold (\<lambda>n out.
       if \<not> is_member_row ix name n then out
       else if (case qualifier of Some q \<Rightarrow> \<not> owner_matches_qualifier (gn_owner n) q | None \<Rightarrow> False) then out
       else sm_update (gn_owner n) [] (\<lambda>sites. sites @ [(gn_file n, gn_line n)]) out)
     (g_names (gi_graph ix)) sm_new)"

definition exact_member_owner ::
  "graph_index \<Rightarrow> string \<Rightarrow> string \<Rightarrow> (string \<times> (string \<times> nat) list) option" where
  "exact_member_owner ix name owner =
     (let sites = map (\<lambda>n. (gn_file n, gn_line n))
        (filter (\<lambda>n. gn_owner n = owner \<and> is_member_row ix name n) (g_names (gi_graph ix)))
      in if sites = [] then None else Some (owner, sites))"

record member_candidate =
  mc_owner :: string
  mc_name :: string
  mc_file :: string
  mc_line :: nat

definition member_candidates ::
  "(string \<times> (string \<times> nat) list) list \<Rightarrow> string \<Rightarrow> member_candidate list" where
  "member_candidates owners name =
     map (\<lambda>(owner, sites).
       \<lparr>mc_owner = owner, mc_name = name, mc_file = fst (sites ! 0), mc_line = snd (sites ! 0)\<rparr>) owners"

definition qualified_seed :: "member_candidate \<Rightarrow> string" where
  "qualified_seed c = mc_owner c @ ''.'' @ mc_name c"

datatype member_resolution = Member_Resolved string | Member_Ambiguous "member_candidate list" | Member_Not_Found

definition resolve_member_seed :: "graph_index \<Rightarrow> string \<Rightarrow> member_resolution" where
  "resolve_member_seed ix seed =
     (case split_member_seed seed of
        (name, qualifier) \<Rightarrow>
          (let owners = qualified_member_owners ix name qualifier
           in case owners of
                [] \<Rightarrow> Member_Not_Found
              | [p] \<Rightarrow> Member_Resolved (fst p)
              | _ \<Rightarrow> Member_Ambiguous (member_candidates owners name)))"

section \<open>The impact seed\<close>

definition looks_like_file_path :: "string \<Rightarrow> bool" where
  "looks_like_file_path arg =
     (if CHR ''/'' \<in> set arg then True
      else (case str_rfind arg CHR ''.'' of
              Some p \<Rightarrow> drop (p + 1) arg \<noteq> [] \<and> list_all is_ascii_alphanumeric (drop (p + 1) arg)
            | None \<Rightarrow> False))"

datatype seed_kind = Seed_File | Seed_Symbol

datatype seed_resolution =
    Seed_Resolved seed_kind "string list"
  | Seed_Ambiguous seed_kind "string list"
  | Seed_Not_Found seed_kind
  | Seed_Member_Ambiguous "member_candidate list"

definition member_fallback ::
  "(string \<Rightarrow> string) \<Rightarrow> graph_index \<Rightarrow> string \<Rightarrow> seed_kind \<Rightarrow> seed_resolution" where
  "member_fallback lowercase ix arg not_found_kind =
     (case resolve_member_seed ix arg of
        Member_Resolved i \<Rightarrow> Seed_Resolved Seed_Symbol [i]
      | Member_Ambiguous cs \<Rightarrow> Seed_Member_Ambiguous cs
      | Member_Not_Found \<Rightarrow>
          (case resolve_local_symbol lowercase ix arg of
             Resolved i \<Rightarrow> Seed_Resolved Seed_Symbol [i]
           | Res_Ambiguous ids \<Rightarrow> Seed_Ambiguous Seed_Symbol ids
           | Res_Not_Found \<Rightarrow> Seed_Not_Found not_found_kind))"

definition resolve_impact_seed ::
  "(string \<Rightarrow> string) \<Rightarrow> graph_index \<Rightarrow> string \<Rightarrow> seed_resolution" where
  "resolve_impact_seed lowercase ix arg =
     (if ix_by_id (gi_maps ix) arg \<noteq> None then Seed_Resolved Seed_Symbol [arg]
      else if looks_like_file_path arg then
        (case ix_by_file (gi_maps ix) arg of
           Some (i # is) \<Rightarrow> Seed_Resolved Seed_File (map (\<lambda>i. d_id (def_at ix i)) (i # is))
         | _ \<Rightarrow> member_fallback lowercase ix arg Seed_File)
      else
        (case resolve_symbol lowercase ix arg of
           Resolved i \<Rightarrow> Seed_Resolved Seed_Symbol [i]
         | Res_Ambiguous ids \<Rightarrow> Seed_Ambiguous Seed_Symbol ids
         | Res_Not_Found \<Rightarrow> member_fallback lowercase ix arg Seed_Symbol))"

section \<open>Suggestions\<close>

type_synonym next_argv = "string list"

definition argv :: "string \<Rightarrow> string \<Rightarrow> next_argv" where
  "argv verb arg = [verb, arg]"

definition symbol_target_resolves :: "(string \<Rightarrow> string) \<Rightarrow> graph_index \<Rightarrow> string \<Rightarrow> bool" where
  "symbol_target_resolves lowercase ix seed =
     (case resolve_symbol lowercase ix seed of
        Resolved _ \<Rightarrow> True
      | Res_Ambiguous _ \<Rightarrow> False
      | Res_Not_Found \<Rightarrow>
          (case resolve_member_seed ix seed of
             Member_Resolved _ \<Rightarrow> True
           | Member_Ambiguous _ \<Rightarrow> False
           | Member_Not_Found \<Rightarrow>
               (case resolve_local_symbol lowercase ix seed of Resolved _ \<Rightarrow> True | _ \<Rightarrow> False)))"

definition impact_target_resolves :: "(string \<Rightarrow> string) \<Rightarrow> graph_index \<Rightarrow> string \<Rightarrow> bool" where
  "impact_target_resolves lowercase ix seed =
     (case resolve_impact_seed lowercase ix seed of Seed_Resolved _ _ \<Rightarrow> True | _ \<Rightarrow> False)"

definition reads_as_a_seed :: "next_argv \<Rightarrow> bool" where
  "reads_as_a_seed av \<longleftrightarrow> list_all (\<lambda>arg. \<not> starts_with arg ''--'') (drop 1 av)"

definition dedup :: "next_argv list \<Rightarrow> next_argv list" where
  "dedup candidates =
     fold (\<lambda>c out. if reads_as_a_seed c \<and> c \<notin> set out then out @ [c] else out) candidates []"

definition merge_suggestions :: "next_argv list list \<Rightarrow> next_argv list" where
  "merge_suggestions groups = dedup (concat groups)"

definition refs_next ::
  "(string \<Rightarrow> string) \<Rightarrow> graph_index \<Rightarrow> string \<Rightarrow> (string \<times> nat) list \<Rightarrow> next_argv list" where
  "refs_next lowercase ix model_id sites =
     dedup
       ((if symbol_target_resolves lowercase ix model_id then [argv ''tests'' model_id] else [])
        @ (case sites of
             [] \<Rightarrow> []
           | site # _ \<Rightarrow>
               if impact_target_resolves lowercase ix (fst site) then [argv ''impact'' (fst site)] else []))"

definition tests_next :: "(string \<Rightarrow> string) \<Rightarrow> graph_index \<Rightarrow> string \<Rightarrow> next_argv list" where
  "tests_next lowercase ix symbol =
     (case gi_def ix symbol of
        None \<Rightarrow> []
      | Some d \<Rightarrow> if impact_target_resolves lowercase ix (d_file d) then dedup [argv ''impact'' (d_file d)] else [])"

text \<open>\<open>impact_next\<close> reads the first row's top symbol, \<open>None\<close> when there is no row or no symbol.\<close>

definition impact_next :: "(string \<Rightarrow> string) \<Rightarrow> graph_index \<Rightarrow> string option \<Rightarrow> next_argv list" where
  "impact_next lowercase ix top_symbol_id =
     (case top_symbol_id of
        None \<Rightarrow> []
      | Some i \<Rightarrow> if symbol_target_resolves lowercase ix i then dedup [argv ''refs'' i] else [])"

definition declared_def :: "graph_index \<Rightarrow> graph_name \<Rightarrow> graph_def option" where
  "declared_def ix n =
     (case ix_by_file (gi_maps ix) (gn_file n) of
        None \<Rightarrow> None
      | Some is \<Rightarrow>
          List.find (\<lambda>d. d_name d = gn_name n
              \<and> (d_line d = gn_line n
                 \<or> list_ex (\<lambda>s. ai_file s = gn_file n \<and> ai_line s = gn_line n) (d_also_in d)))
            (map (def_at ix) is))"

definition find_next :: "(string \<Rightarrow> string) \<Rightarrow> graph_index \<Rightarrow> graph_name \<Rightarrow> next_argv list" where
  "find_next lowercase ix n =
     (if 1 < kind_rank (gn_kind n) then []
      else
        (case (if gn_owner n = [] then map_option d_id (declared_def ix n) else Some (gn_owner n)) of
           None \<Rightarrow> []
         | Some i \<Rightarrow> if symbol_target_resolves lowercase ix i then dedup [argv ''read'' i] else []))"

section \<open>The name buckets of a loaded index\<close>

lemma name_frames:
  "ix_by_id (on_inbound k fi m) = ix_by_id m" "ix_by_id (on_outbound k fo m) = ix_by_id m"
  "ix_by_id (on_heuristic a b fh m) = ix_by_id m" "ix_by_id (note_dispatch_files p a b m) = ix_by_id m"
  "ix_by_simple_name (on_inbound k fi m) = ix_by_simple_name m"
  "ix_by_simple_name (on_outbound k fo m) = ix_by_simple_name m"
  "ix_by_simple_name (on_heuristic a b fh m) = ix_by_simple_name m"
  "ix_by_simple_name (note_dispatch_files p a b m) = ix_by_simple_name m"
  "ix_by_lower_name (on_inbound k fi m) = ix_by_lower_name m"
  "ix_by_lower_name (on_outbound k fo m) = ix_by_lower_name m"
  "ix_by_lower_name (on_heuristic a b fh m) = ix_by_lower_name m"
  "ix_by_lower_name (note_dispatch_files p a b m) = ix_by_lower_name m"
  by (simp_all add: on_outbound_def on_inbound_def on_heuristic_def note_dispatch_files_def)

lemma name_frames_fold:
  "ix_by_id (fold (\<lambda>t. on_inbound t g) ts m) = ix_by_id m"
  "ix_by_simple_name (fold (\<lambda>t. on_inbound t g) ts m) = ix_by_simple_name m"
  "ix_by_lower_name (fold (\<lambda>t. on_inbound t g) ts m) = ix_by_lower_name m"
  by (induction ts arbitrary: m) (simp_all add: name_frames)

lemma index_edge_names:
  "ix_by_id (index_edge opts paths (i, e) m) = ix_by_id m"
  "ix_by_simple_name (index_edge opts paths (i, e) m) = ix_by_simple_name m"
  "ix_by_lower_name (index_edge opts paths (i, e) m) = ix_by_lower_name m"
  by (cases e; simp add: name_frames name_frames_fold record_ts_edge_def index_arms record_dispatch_edge_def
      record_bus_edge_def Let_def)+

lemma index_edges_names:
  "ix_by_id (fold (index_edge opts paths) ps m) = ix_by_id m"
  "ix_by_simple_name (fold (index_edge opts paths) ps m) = ix_by_simple_name m"
  "ix_by_lower_name (fold (index_edge opts paths) ps m) = ix_by_lower_name m"
  by (induction ps arbitrary: m) (auto simp: index_edge_names)

lemma push_index_get:
  "or_default [] (push_index k i m j) = or_default [] (m j) @ (if j = k then [i] else [])"
  by (simp add: push_index_def entry_update_apply)

lemma index_def_names:
  "ix_by_simple_name (index_def lowercase paths (i, d) m) = push_index (d_name d) i (ix_by_simple_name m)"
  "ix_by_lower_name (index_def lowercase paths (i, d) m)
   = push_index (lowercase (d_name d)) i (ix_by_lower_name m)"
  "ix_by_id (index_def lowercase paths (i, d) m) = (ix_by_id m)(d_id d \<mapsto> i)"
  by (simp_all add: index_def_def Let_def)

lemma defs_simple_names:
  "or_default [] (ix_by_simple_name (fold (index_def lowercase paths) (zip [0..<length ds] ds) empty_maps) n)
   = filter (\<lambda>i. d_name (ds ! i) = n) [0..<length ds]"
proof (induction ds rule: rev_induct)
  case (snoc d ds)
  show ?case
    unfolding zip_upt_snoc fold_append bucket_snoc [of "\<lambda>d. d_name d = n"]
    using snoc by (simp add: index_def_names push_index_get)
qed (simp add: empty_maps_def)

lemma defs_lower_names:
  "or_default [] (ix_by_lower_name (fold (index_def lowercase paths) (zip [0..<length ds] ds) empty_maps) n)
   = filter (\<lambda>i. lowercase (d_name (ds ! i)) = n) [0..<length ds]"
proof (induction ds rule: rev_induct)
  case (snoc d ds)
  show ?case
    unfolding zip_upt_snoc fold_append bucket_snoc [of "\<lambda>d. lowercase (d_name d) = n"]
    using snoc by (simp add: index_def_names push_index_get)
qed (simp add: empty_maps_def)

lemma defs_by_id:
  "ix_by_id (fold (index_def lowercase paths) (zip [0..<length ds] ds) empty_maps) q \<noteq> None
   \<longleftrightarrow> q \<in> d_id ` set ds"
proof (induction ds rule: rev_induct)
  case (snoc d ds)
  then show ?case
    unfolding zip_upt_snoc fold_append by (auto simp: index_def_names)
qed (simp add: empty_maps_def)

lemma loaded_names:
  fixes lowercase manifest g opts
  defines "ix \<equiv> load_graph_index_with lowercase manifest g opts"
  shows "gi_graph ix = g"
    and "or_default [] (ix_by_simple_name (gi_maps ix) n) = defs_where ix (\<lambda>d. d_name d = n)"
    and "or_default [] (ix_by_lower_name (gi_maps ix) n) = defs_where ix (\<lambda>d. lowercase (d_name d) = n)"
    and "ix_by_id (gi_maps ix) q \<noteq> None \<longleftrightarrow> q \<in> d_id ` set (g_defs g)"
  using defs_simple_names [of lowercase _ "g_defs g" n] defs_lower_names [of lowercase _ "g_defs g" n]
    defs_by_id [of lowercase _ "g_defs g" q]
  by (simp_all add: ix_def load_graph_index_with_def finish_index_def Let_def index_edges_names defs_where_def
      del: upt_Suc)

section \<open>The ladder without the index\<close>

text \<open>One rung on the graph alone: the definitions a predicate selects, file-local ones last.\<close>

definition rung :: "graph_def list \<Rightarrow> (graph_def \<Rightarrow> bool) \<Rightarrow> resolution option" where
  "rung ds P =
     (case filter (\<lambda>d. P d \<and> \<not> d_local d) ds of
        [] \<Rightarrow> None
      | [d] \<Rightarrow> Some (Resolved (d_id d))
      | _ \<Rightarrow> Some (Res_Ambiguous (sort (map d_id (filter P ds)))))"

lemma map_defs_where: "map (def_at ix) (defs_where ix P) = filter P (g_defs (gi_graph ix))"
proof -
  have "filter P (map (def_at ix) [0..<length (g_defs (gi_graph ix))])
      = map (def_at ix) (defs_where ix P)"
    by (simp add: defs_where_def filter_map o_def)
  then show ?thesis by (simp add: map_nth)
qed

lemma non_local_step_rung: "non_local_step ix (defs_where ix P) = rung (g_defs (gi_graph ix)) P"
proof -
  have m: "map (def_at ix) (filter (\<lambda>i. \<not> d_local (def_at ix i)) (defs_where ix P))
      = filter (\<lambda>d. P d \<and> \<not> d_local d) (g_defs (gi_graph ix))"
    using map_defs_where [of ix "\<lambda>d. P d \<and> \<not> d_local d"]
    by (simp add: defs_where_def conj_commute)
  have ids: "map (\<lambda>i. d_id (def_at ix i)) (defs_where ix P) = map d_id (filter P (g_defs (gi_graph ix)))"
    by (simp flip: map_defs_where)
  show ?thesis
    unfolding non_local_step_def rung_def ids m [symmetric]
    by (simp split: list.splits)
qed

definition ladder :: "(string \<Rightarrow> string) \<Rightarrow> string \<Rightarrow> (graph_def \<Rightarrow> bool) list" where
  "ladder lowercase query =
     [\<lambda>d. d_name d = query, \<lambda>d. lowercase (d_name d) = lowercase query]
     @ (if str_contains query ''.'' then [dotted_tail query] else [])
     @ (if str_contains query ''::'' then [path_tail query] else [])"

text \<open>
  C21. Resolving a symbol on a loaded index is the ladder over the graph's definitions: an exact
  id, then the first rung some non-local definition stands on, answered by that definition when
  it is alone and by all the rung's ids, sorted, when it is not.
\<close>

theorem resolve_symbol_is_ladder:
  "resolve_symbol lowercase (load_graph_index_with lowercase manifest g opts) query =
   (if query \<in> d_id ` set (g_defs g) then Resolved query
    else or_default Res_Not_Found (first_some (rung (g_defs g)) (ladder lowercase query)))"
proof -
  define ix where "ix = load_graph_index_with lowercase manifest g opts"
  note loaded = loaded_names [of lowercase manifest g opts, folded ix_def]
  have nil: "non_local_step ix [] = None" by (simp add: non_local_step_def)
  have s1: "(case ix_by_simple_name (gi_maps ix) query of Some c \<Rightarrow> non_local_step ix c | None \<Rightarrow> None)
      = rung (g_defs g) (\<lambda>d. d_name d = query)"
    using loaded(2) [of query] non_local_step_rung [of ix "\<lambda>d. d_name d = query"]
    by (auto simp: nil loaded(1) split: option.splits)
  have s2: "(case ix_by_lower_name (gi_maps ix) (lowercase query) of Some c \<Rightarrow> non_local_step ix c | None \<Rightarrow> None)
      = rung (g_defs g) (\<lambda>d. lowercase (d_name d) = lowercase query)"
    using loaded(3) [of "lowercase query"] non_local_step_rung [of ix "\<lambda>d. lowercase (d_name d) = lowercase query"]
    by (auto simp: nil loaded(1) split: option.splits)
  have s34: "non_local_step ix (defs_where ix P) = rung (g_defs g) P" for P
    by (simp add: non_local_step_rung loaded(1))
  show ?thesis
    unfolding resolve_symbol_def ix_def [symmetric] s1 s2 s34 Let_def loaded(4) ladder_def
    by (auto split: option.splits)
qed

section \<open>Which types declare a member\<close>

text \<open>The member rows a seed names: its name, and its qualifier when it has one.\<close>

definition seed_row :: "graph_index \<Rightarrow> string \<Rightarrow> graph_name \<Rightarrow> bool" where
  "seed_row ix seed n \<longleftrightarrow>
     is_member_row ix (fst (split_member_seed seed)) n
     \<and> (case snd (split_member_seed seed) of
          Some q \<Rightarrow> owner_matches_qualifier (gn_owner n) q | None \<Rightarrow> True)"

text \<open>Grouping rows by key through the ordered map: each key once, in first-seen order, with its rows.\<close>

definition group_rows :: "('r \<Rightarrow> string) \<Rightarrow> ('r \<Rightarrow> 'v) \<Rightarrow> 'r list \<Rightarrow> 'v list seq_map" where
  "group_rows key site rows = fold (\<lambda>r. sm_update (key r) [] (\<lambda>vs. vs @ [site r])) rows sm_new"

lemma group_rows_snoc:
  "group_rows key site (rows @ [r]) = sm_update (key r) [] (\<lambda>vs. vs @ [site r]) (group_rows key site rows)"
  by (simp add: group_rows_def)

lemma group_rows_ok: "sm_ok (group_rows key site rows)"
proof (induction rows rule: rev_induct)
  case Nil
  show ?case unfolding group_rows_def by (simp add: sml.ok_empty)
next
  case (snoc r rows)
  then show ?case unfolding group_rows_snoc by (rule sm_update_ok)
qed

lemma group_rows_keys: "set (sm_keys (group_rows key site rows)) = key ` set rows"
proof (induction rows rule: rev_induct)
  case Nil
  show ?case by (simp add: group_rows_def sm_new_def sm_keys_def)
next
  case (snoc r rows)
  then show ?case unfolding group_rows_snoc by (auto simp: sm_update_keys [OF group_rows_ok])
qed

lemma group_rows_get:
  "map_of (sm_entries (group_rows key site rows)) k =
   (if k \<in> key ` set rows then Some (map site (filter (\<lambda>r. key r = k) rows)) else None)"
proof (induction rows rule: rev_induct)
  case Nil
  show ?case by (simp add: group_rows_def sm_new_def)
next
  case (snoc r rows)
  have none: "k \<notin> key ` set rows \<Longrightarrow> filter (\<lambda>r. key r = k) rows = []"
    by (auto simp: filter_empty_conv)
  show ?case
    unfolding group_rows_snoc sm_update_get [OF group_rows_ok]
    using snoc none by auto
qed

lemma group_rows_entry:
  assumes "(k, sites) \<in> set (sm_entries (group_rows key site rows))"
  shows "k \<in> key ` set rows" "sites = map site (filter (\<lambda>r. key r = k) rows)"
proof -
  have "map_of (sm_entries (group_rows key site rows)) k = Some sites"
    using assms by (simp add: sml.entry_iff [OF group_rows_ok])
  then show "k \<in> key ` set rows" "sites = map site (filter (\<lambda>r. key r = k) rows)"
    by (auto simp: group_rows_get split: if_splits)
qed

lemma member_owners_grouped:
  "qualified_member_owners ix (fst (split_member_seed seed)) (snd (split_member_seed seed)) =
   sm_entries (group_rows gn_owner (\<lambda>n. (gn_file n, gn_line n)) (filter (seed_row ix seed) (g_names (gi_graph ix))))"
proof -
  have "fold (\<lambda>n out.
       if \<not> is_member_row ix (fst (split_member_seed seed)) n then out
       else if (case snd (split_member_seed seed) of
           Some q \<Rightarrow> \<not> owner_matches_qualifier (gn_owner n) q | None \<Rightarrow> False) then out
       else sm_update (gn_owner n) [] (\<lambda>sites. sites @ [(gn_file n, gn_line n)]) out) names m =
     fold (\<lambda>n. sm_update (gn_owner n) [] (\<lambda>vs. vs @ [(gn_file n, gn_line n)]))
       (filter (seed_row ix seed) names) m" for names m
    by (induction names arbitrary: m) (auto simp: seed_row_def split: option.splits)
  then show ?thesis by (simp add: qualified_member_owners_def group_rows_def)
qed

lemma find_filter: "List.find P xs = (case filter P xs of [] \<Rightarrow> None | x # _ \<Rightarrow> Some x)"
  by (induction xs) auto

text \<open>The first row a type declares the member in.\<close>

definition first_site :: "graph_index \<Rightarrow> string \<Rightarrow> string \<Rightarrow> (string \<times> nat) option" where
  "first_site ix seed owner =
     map_option (\<lambda>n. (gn_file n, gn_line n))
       (List.find (\<lambda>n. gn_owner n = owner \<and> seed_row ix seed n) (g_names (gi_graph ix)))"

definition seed_owners :: "graph_index \<Rightarrow> string \<Rightarrow> string set" where
  "seed_owners ix seed = gn_owner ` set (filter (seed_row ix seed) (g_names (gi_graph ix)))"

lemma grouped_first_site:
  assumes "(k, sites) \<in> set (sm_entries (group_rows gn_owner (\<lambda>n. (gn_file n, gn_line n))
             (filter (seed_row ix seed) (g_names (gi_graph ix)))))"
  shows "first_site ix seed k = Some (sites ! 0)"
proof -
  note entry = group_rows_entry [OF assms, unfolded filter_filter]
  from entry(1) have "filter (\<lambda>n. gn_owner n = k \<and> seed_row ix seed n) (g_names (gi_graph ix)) \<noteq> []"
    by (auto simp: filter_empty_conv)
  then show ?thesis
    unfolding first_site_def find_filter entry(2)
    by (cases "filter (\<lambda>n. gn_owner n = k \<and> seed_row ix seed n) (g_names (gi_graph ix))")
      (auto simp: conj_commute)
qed

text \<open>
  A member seed is answered by a type exactly when that type alone declares a member the
  seed names, is not found exactly when no type does, and otherwise is answered by one candidate
  per declaring type, at the first row that type declares the member in.
\<close>

theorem member_seed_resolution:
  "case resolve_member_seed ix seed of
     Member_Resolved owner \<Rightarrow> seed_owners ix seed = {owner}
   | Member_Not_Found \<Rightarrow> seed_owners ix seed = {}
   | Member_Ambiguous cs \<Rightarrow>
       2 \<le> card (seed_owners ix seed) \<and> distinct (map mc_owner cs)
       \<and> set (map mc_owner cs) = seed_owners ix seed
       \<and> list_all (\<lambda>c. mc_name c = fst (split_member_seed seed)
            \<and> first_site ix seed (mc_owner c) = Some (mc_file c, mc_line c)) cs"
proof -
  define es where "es = sm_entries (group_rows gn_owner (\<lambda>n. (gn_file n, gn_line n))
      (filter (seed_row ix seed) (g_names (gi_graph ix))))"
  have keys: "fst ` set es = seed_owners ix seed"
    using group_rows_keys [of gn_owner "\<lambda>n. (gn_file n, gn_line n)" "filter (seed_row ix seed) (g_names (gi_graph ix))"]
    by (simp add: sm_keys_def es_def seed_owners_def)
  have dist: "distinct (map fst es)"
    unfolding es_def by (rule sml.distinct_keys [OF group_rows_ok])
  have res: "resolve_member_seed ix seed =
      (case es of [] \<Rightarrow> Member_Not_Found | [p] \<Rightarrow> Member_Resolved (fst p)
       | _ \<Rightarrow> Member_Ambiguous (member_candidates es (fst (split_member_seed seed))))"
    unfolding resolve_member_seed_def Let_def es_def member_owners_grouped [symmetric]
    by (simp add: split_beta)
  let ?cs = "member_candidates es (fst (split_member_seed seed))"
  have owners: "map mc_owner ?cs = map fst es" by (auto simp: member_candidates_def)
  have sites: "list_all (\<lambda>c. mc_name c = fst (split_member_seed seed)
      \<and> first_site ix seed (mc_owner c) = Some (mc_file c, mc_line c)) ?cs"
    using grouped_first_site [of _ _ ix seed, folded es_def] by (auto simp: member_candidates_def list_all_iff)
  consider "es = []" | p where "es = [p]" | p q r where "es = p # q # r"
    by (metis neq_Nil_conv)
  then show ?thesis
  proof cases
    case 3
    have "card (seed_owners ix seed) = length es"
      using distinct_card [OF dist] keys by simp
    with 3 owners dist keys sites show ?thesis
      unfolding res by (simp del: list.map(2))
  qed (use res keys in auto)
qed

section \<open>What a suggestion may say\<close>

lemma dedup_distinct: "distinct (dedup cs)"
  by (induction cs rule: rev_induct) (auto simp: dedup_def)

lemma dedup_set: "set (dedup cs) = {c \<in> set cs. reads_as_a_seed c}"
  by (induction cs rule: rev_induct) (auto simp: dedup_def)

text \<open>The seed a follow-up names resolves through the resolver of the verb it names.\<close>

definition target_resolves :: "(string \<Rightarrow> string) \<Rightarrow> graph_index \<Rightarrow> next_argv \<Rightarrow> bool" where
  "target_resolves lowercase ix av \<longleftrightarrow>
     (\<exists>seed. av = [''impact'', seed] \<and> impact_target_resolves lowercase ix seed)
     \<or> (\<exists>verb seed. verb \<in> {''tests'', ''refs'', ''read''} \<and> av = [verb, seed]
          \<and> symbol_target_resolves lowercase ix seed)"

definition sound_next :: "(string \<Rightarrow> string) \<Rightarrow> graph_index \<Rightarrow> next_argv list \<Rightarrow> bool" where
  "sound_next lowercase ix cs \<longleftrightarrow>
     distinct cs \<and> list_all (\<lambda>c. reads_as_a_seed c \<and> target_resolves lowercase ix c) cs"

lemma sound_dedup: "list_all (target_resolves lowercase ix) cs \<Longrightarrow> sound_next lowercase ix (dedup cs)"
  by (auto simp: sound_next_def dedup_distinct dedup_set list_all_iff)

lemma sound_nil: "sound_next lowercase ix []"
  by (simp add: sound_next_def)

lemma impact_target: "impact_target_resolves lowercase ix seed \<Longrightarrow> target_resolves lowercase ix (argv ''impact'' seed)"
  by (simp add: target_resolves_def argv_def)

lemma symbol_target:
  "symbol_target_resolves lowercase ix seed \<Longrightarrow> verb \<in> {''tests'', ''refs'', ''read''} \<Longrightarrow>
   target_resolves lowercase ix (argv verb seed)"
  by (auto simp: target_resolves_def argv_def)

text \<open>
  Every follow-up the four builders print is read back as a seed, resolves through the verb
  it names, and is printed once; merging builder outputs keeps all of that.
\<close>

theorem suggestions_resolve:
  "sound_next lowercase ix (refs_next lowercase ix model_id sites)
   \<and> sound_next lowercase ix (tests_next lowercase ix symbol)
   \<and> sound_next lowercase ix (impact_next lowercase ix top_id)
   \<and> sound_next lowercase ix (find_next lowercase ix row)
   \<and> sound_next lowercase ix
       (merge_suggestions [refs_next lowercase ix model_id sites, tests_next lowercase ix symbol,
          impact_next lowercase ix top_id, find_next lowercase ix row])"
proof -
  have parts: "sound_next lowercase ix (refs_next lowercase ix model_id sites)"
    "sound_next lowercase ix (tests_next lowercase ix symbol)"
    "sound_next lowercase ix (impact_next lowercase ix top_id)"
    "sound_next lowercase ix (find_next lowercase ix row)"
    unfolding refs_next_def tests_next_def impact_next_def find_next_def
    by (auto intro!: sound_dedup simp: sound_nil impact_target symbol_target split: list.splits option.splits)
  moreover have "sound_next lowercase ix (merge_suggestions gs)" if "list_all (sound_next lowercase ix) gs" for gs
    unfolding merge_suggestions_def using that by (intro sound_dedup) (auto simp: list_all_iff sound_next_def)
  ultimately show ?thesis by simp
qed

section \<open>File seeds\<close>

definition def_paths :: "graph_def \<Rightarrow> string set" where
  "def_paths d = insert (d_file d) (ai_file ` set (d_also_in d))"

lemma push_unique_get:
  "or_default [] (push_ordered_unique k i m f) =
   (let old = or_default [] (m f) in if f = k \<and> i \<notin> set old then old @ [i] else old)"
  by (auto simp: push_ordered_unique_def entry_update_apply Let_def)

lemma fold_push_unique_get:
  "or_default [] (fold (\<lambda>a. push_ordered_unique (ai_file a) i) as m f) =
   (let old = or_default [] (m f) in if f \<in> ai_file ` set as \<and> i \<notin> set old then old @ [i] else old)"
  by (induction as arbitrary: m) (auto simp: push_unique_get Let_def)

lemma index_def_by_file:
  "or_default [] (ix_by_file (index_def lowercase paths (i, d) m) f) =
   (let old = or_default [] (ix_by_file m f) in if f \<in> def_paths d \<and> i \<notin> set old then old @ [i] else old)"
  by (auto simp: index_def_def fold_push_unique_get push_unique_get Let_def def_paths_def)

lemma defs_by_file:
  "or_default [] (ix_by_file (fold (index_def lowercase paths) (zip [0..<length ds] ds) empty_maps) f)
   = filter (\<lambda>i. f \<in> def_paths (ds ! i)) [0..<length ds]"
proof (induction ds rule: rev_induct)
  case (snoc d ds)
  show ?case
    unfolding zip_upt_snoc fold_append bucket_snoc [of "\<lambda>d. f \<in> def_paths d"]
    using snoc by (simp add: index_def_by_file Let_def)
qed (simp add: empty_maps_def)

lemma by_file_frames:
  "ix_by_file (on_inbound k fi m) = ix_by_file m" "ix_by_file (on_outbound k fo m) = ix_by_file m"
  "ix_by_file (on_heuristic a b fh m) = ix_by_file m" "ix_by_file (note_dispatch_files p a b m) = ix_by_file m"
  "ix_by_file (fold (\<lambda>t. on_inbound t g) ts m) = ix_by_file m"
proof -
  show "ix_by_file (fold (\<lambda>t. on_inbound t g) ts m) = ix_by_file m"
    by (induction ts arbitrary: m) (simp_all add: on_inbound_def)
qed (simp_all add: on_outbound_def on_inbound_def on_heuristic_def note_dispatch_files_def)

lemma index_edge_by_file: "ix_by_file (index_edge opts paths (i, e) m) = ix_by_file m"
  by (cases e; simp add: by_file_frames record_ts_edge_def index_arms record_dispatch_edge_def
      record_bus_edge_def Let_def)+

lemma index_edges_by_file: "ix_by_file (fold (index_edge opts paths) ps m) = ix_by_file m"
  by (induction ps arbitrary: m) (auto simp: index_edge_by_file)

lemma loaded_by_file:
  fixes lowercase manifest g opts
  defines "ix \<equiv> load_graph_index_with lowercase manifest g opts"
  shows "or_default [] (ix_by_file (gi_maps ix) f) = defs_where ix (\<lambda>d. f \<in> def_paths d)"
  using defs_by_file [of lowercase _ "g_defs g" f]
  by (simp add: ix_def load_graph_index_with_def finish_index_def Let_def index_edges_by_file defs_where_def
      del: upt_Suc)

text \<open>
  A path some definition stands in is a file seed of the impact walk: it resolves to the ids
  of all the definitions with a site in that file, in graph order, unless the path is itself an
  id.
\<close>

theorem file_seed_resolution:
  assumes "path \<notin> d_id ` set (g_defs g)" and "looks_like_file_path path"
    and "\<exists>d \<in> set (g_defs g). path \<in> def_paths d"
  shows "resolve_impact_seed lowercase (load_graph_index_with lowercase manifest g opts) path
         = Seed_Resolved Seed_File (map d_id (filter (\<lambda>d. path \<in> def_paths d) (g_defs g)))"
proof -
  define ix where "ix = load_graph_index_with lowercase manifest g opts"
  note loaded = loaded_names [of lowercase manifest g opts, folded ix_def]
  note by_file = loaded_by_file [of lowercase manifest g opts path, folded ix_def]
  have ids: "map (\<lambda>i. d_id (def_at ix i)) (defs_where ix (\<lambda>d. path \<in> def_paths d))
      = map d_id (filter (\<lambda>d. path \<in> def_paths d) (g_defs g))"
    unfolding loaded(1) [symmetric] map_defs_where [symmetric] by simp
  have "filter (\<lambda>d. path \<in> def_paths d) (g_defs g) \<noteq> []" using assms(3) by (auto simp: filter_empty_conv)
  with ids have ne: "defs_where ix (\<lambda>d. path \<in> def_paths d) \<noteq> []" by (metis list.map_disc_iff)
  then obtain i rest where rest: "defs_where ix (\<lambda>d. path \<in> def_paths d) = i # rest"
    by (cases "defs_where ix (\<lambda>d. path \<in> def_paths d)") auto
  with by_file rest have some: "ix_by_file (gi_maps ix) path = Some (i # rest)"
    by (cases "ix_by_file (gi_maps ix) path") auto
  have "ix_by_id (gi_maps ix) path = None" using loaded(4) assms(1) by blast
  then show ?thesis
    using assms(2) ids rest by (simp add: resolve_impact_seed_def some flip: ix_def)
qed

definition two_site_graph :: graph where
  "two_site_graph =
     \<lparr>g_schema_version = 1, g_built_at_head = None,
      g_defs =
        [\<lparr>d_id = ''N.A'', d_name = ''A'', d_namespace = ''N'', d_kind = ''class'', d_file = ''src/A.cs'',
          d_line = 1, d_methods = [], d_test_methods = [], d_also_in = [\<lparr>ai_file = ''src/B.cs'', ai_line = 2\<rparr>],
          d_end_line = 9, d_local = False\<rparr>,
         \<lparr>d_id = ''N.B'', d_name = ''B'', d_namespace = ''N'', d_kind = ''class'', d_file = ''src/B.cs'',
          d_line = 3, d_methods = [], d_test_methods = [], d_also_in = [], d_end_line = 5, d_local = False\<rparr>],
      g_edges = [], g_names = [], g_units = []\<rparr>"

theorem file_seed_resolution_witness:
  "resolve_impact_seed (\<lambda>s. s) (load_graph_index_with (\<lambda>s. s) None two_site_graph default_options) ''src/B.cs''
   = Seed_Resolved Seed_File [''N.A'', ''N.B'']"
proof -
  have "map d_id (filter (\<lambda>d. ''src/B.cs'' \<in> def_paths d) (g_defs two_site_graph)) = [''N.A'', ''N.B'']"
    by (simp add: two_site_graph_def def_paths_def)
  then show ?thesis
    using file_seed_resolution [of "''src/B.cs''" two_site_graph "\<lambda>s. s" None default_options]
    by (simp add: two_site_graph_def def_paths_def looks_like_file_path_def)
qed

end
