(* ===== verification/Fragments.thy ===== *)
theory Fragments
  imports Graph SeqColl
begin

text \<open>
  What the C# extractor hands the resolver (\<open>src/graph/fragment_types.rs\<close>,
  \<open>src/graph/call_shape_types.rs\<close>, \<open>src/graph/argument_types.rs\<close>,
  \<open>src/graph/messaging_types.rs\<close>) and the insertion-ordered
  map its tables are (\<open>src/graph/ordered.rs\<close>), which has the entries and the position index of
  the query layer's own ordered map. Every field of the records is kept, in the source's order;
  the serde attributes are not.
\<close>

section \<open>The ordered map of the artifact\<close>

type_synonym 'v omap = "'v seq_map"

definition om_get :: "'v omap \<Rightarrow> string \<Rightarrow> 'v option" where
  "om_get m k = map_option (\<lambda>i. snd (sm_entries m ! i)) (sm_index m k)"

lemma om_get_map_of: "sm_ok m \<Longrightarrow> om_get m k = map_of (sm_entries m) k"
proof -
  assume m: "sm_ok m"
  show ?thesis
  proof (cases "sm_index m k")
    case None
    with m have "k \<notin> fst ` set (sm_entries m)" by (simp add: sm_index_None sm_keys_def)
    then have "map_of (sm_entries m) k = None" by (simp add: map_of_eq_None_iff)
    with None show ?thesis by (simp add: om_get_def)
  next
    case (Some i)
    with m have "i < length (sm_entries m)" "fst (sm_entries m ! i) = k" by (simp_all add: sm_index_iff)
    then have "(k, snd (sm_entries m ! i)) \<in> set (sm_entries m)" by (metis nth_mem prod.collapse)
    then have "map_of (sm_entries m) k = Some (snd (sm_entries m ! i))" by (simp only: sml.entry_iff [OF m])
    with Some show ?thesis by (simp add: om_get_def)
  qed
qed

lemma sm_insert_ok: "sm_ok m \<Longrightarrow> sm_ok (sm_insert k v m)"
  by (simp add: sm_insert_update sm_update_ok)

lemma om_get_insert: "sm_ok m \<Longrightarrow> om_get (sm_insert k v m) = (om_get m)(k \<mapsto> v)"
  by (simp add: fun_eq_iff om_get_map_of sm_insert_ok)
    (simp add: sm_insert_update sm_update_get om_get_map_of)

lemma om_new [simp]: "sm_ok sm_new" "om_get sm_new k = None"
  by (simp_all add: sml.ok_empty om_get_def) (simp add: sm_new_def)

section \<open>Call shapes\<close>

type_synonym frag_overload_sites = "(nat \<times> int) list list"

record frag_lambda_shape =
  flm_value_only :: bool
  flm_implicitly_typed :: bool

record frag_delegate_signature =
  fds_returns :: string
  fds_type_params :: "string list"

datatype frag_arg_type =
    Arg_Known string
  | Arg_Member (arg_owner: string) (arg_member: string) (arg_receiver_args: "string list option") (arg_call: bool)

section \<open>Definitions\<close>

record frag_fact =
  ff_type_name :: string
  ff_args :: "string list option"
  ff_qualified_type :: "string option"

record frag_extension_method =
  fe_name :: string
  fe_this_type :: string
  fe_arity_min :: nat
  fe_arity_max :: int
  fe_this_args :: "string list option"
  fe_type_param_count :: "nat option"

record frag_lambda_slot =
  fl_owner :: string
  fl_member :: string
  fl_arg_count :: nat
  fl_arg_index :: nat
  fl_arity :: nat
  fl_index :: nat

record frag_def =
  fd_id :: string
  fd_name :: string
  fd_namespace :: string
  fd_kind :: string
  fd_line :: nat
  fd_methods :: "string list"
  fd_properties :: "string list"
  fd_fields :: "string list"
  fd_method_returns :: "string omap"
  fd_extension_methods :: "frag_extension_method list"
  fd_bases :: "string list"
  fd_type_params :: "string list"
  fd_base_generic_args :: "string list omap"
  fd_test_methods :: "string list"
  fd_property_types :: "frag_fact omap"
  fd_field_types :: "frag_fact omap"
  fd_method_return_args :: "string list omap"
  fd_non_public_methods :: "string list"
  fd_method_arities :: "(nat \<times> int) list omap"
  fd_method_type_arities :: "nat list omap"
  fd_method_type_param_sites :: "frag_overload_sites list omap"
  fd_method_params :: "string list list omap"
  fd_override_methods :: "string list"
  fd_base_type_args :: "string list omap"
  fd_property_message_args :: "string list"
  fd_array_message_bases :: "string list"
  fd_delegate_signature :: "frag_delegate_signature option"
  fd_end_line :: nat

section \<open>Usings, references and fragments\<close>

datatype frag_using =
    Using_Alias (ua_alias: string) (ua_target: string) (u_global: bool)
  | Using_Plain (up_text: string) (u_global: bool) (up_namespace: string)

record frag_ref =
  fr_kind :: string
  fr_name :: string
  fr_qualified :: "string option"
  fr_member :: "string option"
  fr_line :: nat
  fr_namespace :: "string option"
  fr_type_arg_count :: "nat option"
  fr_generic :: bool
  fr_receiver_type :: "string option"
  fr_arg_count :: "nat option"
  fr_receiver_args :: "string list option"
  fr_outer_types :: "string list"
  fr_args :: "string list option"
  fr_receiver_property_owner :: "string option"
  fr_receiver_call_owner :: "string option"
  fr_receiver_call_member :: "string option"
  fr_receiver_base :: bool
  fr_receiver_awaited :: bool
  fr_receiver_local :: bool
  fr_receiver_lambda :: "frag_lambda_slot option"
  fr_receiver_nullable :: bool
  fr_lambda_arg_arity :: "nat option list option"
  fr_method_type_arg_count :: "nat option"
  fr_lambda_arg_shape :: "frag_lambda_shape option list option"
  fr_receiver_type_qualified :: "string option"
  fr_arg_types :: "frag_arg_type option list option"

text \<open>
  The names a file declares and its messaging facts (\<open>src/graph/messaging_types.rs\<close>): registrations
  of services and handlers, and the calls that publish a message.
\<close>

record frag_name =
  fn_name :: string
  fn_kind :: string
  fn_line :: nat
  fn_owner :: string

record frag_registration =
  rg_service :: string
  rg_implementation :: string
  rg_namespace :: string
  rg_line :: nat

record frag_enclosing_call =
  ec_verb :: string
  ec_arg_position :: nat
  ec_arg_count :: nat

record frag_publish =
  pb_verb :: string
  pb_message :: string
  pb_namespace :: string
  pb_line :: nat
  pb_outer_types :: "string list"
  pb_enclosing_method :: "string option"
  pb_arg_count :: nat
  pb_enclosing_call :: "frag_enclosing_call option"

record frag_handler_registration =
  hr_handler :: string
  hr_namespace :: string
  hr_line :: nat

text \<open>A fragment; only its transport sites, which another stage reads, are left out.\<close>

record fragment =
  fg_defs :: "frag_def list"
  fg_usings :: "frag_using list"
  fg_refs :: "frag_ref list"
  fg_names :: "frag_name list"
  fg_registrations :: "frag_registration list"
  fg_publishes :: "frag_publish list"
  fg_handler_registrations :: "frag_handler_registration list"

text \<open>A fragment of definitions and usings alone.\<close>

definition defs_and_usings :: "frag_def list \<Rightarrow> frag_using list \<Rightarrow> fragment" where
  "defs_and_usings defs usings =
     \<lparr>fg_defs = defs, fg_usings = usings, fg_refs = [], fg_names = [], fg_registrations = [],
      fg_publishes = [], fg_handler_registrations = []\<rparr>"

lemma defs_and_usings_fields [simp]:
  "fg_defs (defs_and_usings defs usings) = defs"
  "fg_usings (defs_and_usings defs usings) = usings"
  by (simp_all add: defs_and_usings_def)

end
