(* ===== verification/DefIndex.thy ===== *)
theory DefIndex
  imports Fragments
begin

text \<open>
  The definition index of the C# resolver (\<open>src/resolve/index.rs\<close>) and the arity tests over it
  (\<open>src/resolve/arity.rs\<close>). One definition per identifier and type-parameter count; the parts of
  a partial type are merged into it in fragment order.
\<close>

section \<open>The index\<close>

record own_type_params =
  otp_count :: nat
  otp_sites :: "(nat \<times> int) list list"

record method_overload_params =
  mo_params :: "string list"
  mo_file :: string
  mo_type_params :: "own_type_params option"
  mo_arity :: "(nat \<times> int) option"

record member_lists =
  ml_properties :: "string list"
  ml_fields :: "string list"
  ml_extension_methods :: "(string \<times> string \<times> nat \<times> int) list"
  ml_bases :: "string list"
  ml_type_params :: "string list"
  ml_base_generic_args :: "(string \<times> string list) list"
  ml_method_returns :: "string omap"
  ml_property_types :: "frag_fact omap"
  ml_field_types :: "frag_fact omap"
  ml_property_type_files :: "string omap"
  ml_field_type_files :: "string omap"
  ml_method_return_args :: "string list omap"
  ml_non_public_methods :: "string list"
  ml_method_arities :: "(nat \<times> int) list omap"
  ml_overload_counts :: "(nat \<times> int \<times> nat) list omap"
  ml_unpaired_overload_names :: "string list"
  ml_method_params :: "string \<Rightarrow> method_overload_params list option"
  ml_override_methods :: "string list"
  ml_delegate_signature :: "frag_delegate_signature option"

record ext_candidate =
  xc_def_idx :: nat
  xc_entry :: frag_extension_method

record def_index =
  di_defs :: "graph_def list"
  di_member_lists :: "member_lists list"
  di_qualified :: "string \<Rightarrow> nat option"
  di_qualified_arity :: "string \<times> nat \<Rightarrow> nat option"
  di_simple :: "string \<Rightarrow> nat list option"
  di_extension :: "string \<Rightarrow> ext_candidate list option"
  di_member_names :: "string \<Rightarrow> nat list option"

definition empty_index :: def_index where
  "empty_index =
     \<lparr>di_defs = [], di_member_lists = [], di_qualified = (\<lambda>_. None), di_qualified_arity = (\<lambda>_. None),
      di_simple = (\<lambda>_. None), di_extension = (\<lambda>_. None), di_member_names = (\<lambda>_. None)\<rparr>"

section \<open>Merging helpers\<close>

text \<open>\<open>if !xs.contains(y) { xs.push(y) }\<close> over the values of a later part.\<close>

definition push_new :: "'a list \<Rightarrow> 'a list \<Rightarrow> 'a list" where
  "push_new xs ys = fold (\<lambda>y xs. if y \<in> set xs then xs else xs @ [y]) ys xs"

definition keep_first :: "'v omap \<Rightarrow> 'v omap \<Rightarrow> 'v omap" where
  "keep_first m news =
     fold (\<lambda>(name, v) m. if om_get m name = None then sm_insert name v m else m) (sm_entries news) m"

definition keep_first_with_file ::
  "string \<Rightarrow> 'v omap \<Rightarrow> 'v omap \<times> string omap \<Rightarrow> 'v omap \<times> string omap" where
  "keep_first_with_file file news mf =
     fold (\<lambda>(name, v) (m, files).
       if om_get m name = None then (sm_insert name v m, sm_insert name file files) else (m, files))
     (sm_entries news) mf"

definition keys_mapped_to_file :: "'v omap \<Rightarrow> string \<Rightarrow> string omap" where
  "keys_mapped_to_file m file = fold (\<lambda>(name, _) out. sm_insert name file out) (sm_entries m) sm_new"

definition union_ranges ::
  "(nat \<times> int) list omap \<Rightarrow> (nat \<times> int) list omap \<Rightarrow> (nat \<times> int) list omap" where
  "union_ranges m news =
     fold (\<lambda>(name, ranges) m. sm_insert name (push_new (or_default [] (om_get m name)) ranges) m)
       (sm_entries news) m"

definition pair_overload_counts :: "frag_def \<Rightarrow> member_lists \<Rightarrow> member_lists" where
  "pair_overload_counts d mls =
     fold (\<lambda>(name, ranges) mls.
       case om_get (fd_method_type_arities d) name of
         None \<Rightarrow> mls\<lparr>ml_unpaired_overload_names := push_new (ml_unpaired_overload_names mls) [name]\<rparr>
       | Some counts \<Rightarrow>
           if length counts \<noteq> length ranges
           then mls\<lparr>ml_unpaired_overload_names := push_new (ml_unpaired_overload_names mls) [name]\<rparr>
           else mls\<lparr>ml_overload_counts :=
             sm_insert name
               (push_new (or_default [] (om_get (ml_overload_counts mls) name))
                 (map (\<lambda>((mn, mx), count). (mn, mx, count)) (zip ranges counts)))
               (ml_overload_counts mls)\<rparr>)
     (sm_entries (fd_method_arities d)) mls"

text \<open>\<open>overloads_of\<close>: a table of another length than the descriptors is as if absent.\<close>

definition same_length :: "'a list \<Rightarrow> 'b list option \<Rightarrow> 'b list option" where
  "same_length xs o' = (case o' of Some ys \<Rightarrow> if length ys = length xs then Some ys else None | None \<Rightarrow> None)"

definition overload_entry ::
  "string \<Rightarrow> nat list option \<Rightarrow> frag_overload_sites list option \<Rightarrow> (nat \<times> int) list option
   \<Rightarrow> nat \<Rightarrow> string list \<Rightarrow> method_overload_params" where
  "overload_entry file counts sites ranges k params =
     \<lparr>mo_params = params, mo_file = file,
      mo_type_params =
        (case (counts, sites) of
           (Some cs, Some ss) \<Rightarrow>
             if length (ss ! k) = length params \<and> list_all (\<lambda>(tp, _). tp < cs ! k) (concat (ss ! k))
             then Some \<lparr>otp_count = cs ! k, otp_sites = ss ! k\<rparr> else None
         | _ \<Rightarrow> None),
      mo_arity = map_option (\<lambda>r. r ! k) ranges\<rparr>"

definition overloads_of :: "frag_def \<Rightarrow> string \<Rightarrow> (string \<times> method_overload_params list) list" where
  "overloads_of d file =
     map (\<lambda>(name, overloads).
       (name,
        map (\<lambda>(k, params).
          overload_entry file
            (same_length overloads (om_get (fd_method_type_arities d) name))
            (same_length overloads (om_get (fd_method_type_param_sites d) name))
            (same_length overloads (om_get (fd_method_arities d) name)) k params)
          (zip [0..<length overloads] overloads)))
     (sm_entries (fd_method_params d))"

definition merge_overloads ::
  "(string \<times> method_overload_params list) list \<Rightarrow> (string \<Rightarrow> method_overload_params list option)
   \<Rightarrow> string \<Rightarrow> method_overload_params list option" where
  "merge_overloads news m =
     fold (\<lambda>(name, overloads).
       entry_update name [] (\<lambda>merged.
         fold (\<lambda>ov merged.
           if list_ex (\<lambda>x. mo_params x = mo_params ov \<and> mo_type_params x = mo_type_params ov) merged
           then merged else merged @ [ov]) overloads merged)) news m"

section \<open>Building\<close>

definition same_range :: "nat \<Rightarrow> frag_extension_method \<Rightarrow> ext_candidate \<Rightarrow> bool" where
  "same_range idx entry c \<longleftrightarrow>
     xc_def_idx c = idx \<and> fe_arity_min (xc_entry c) = fe_arity_min entry
     \<and> fe_arity_max (xc_entry c) = fe_arity_max entry
     \<and> fe_type_param_count (xc_entry c) = fe_type_param_count entry"

definition ext_quad :: "frag_extension_method \<Rightarrow> string \<times> string \<times> nat \<times> int" where
  "ext_quad e = (fe_name e, fe_this_type e, fe_arity_min e, fe_arity_max e)"

definition add_extension_method :: "nat \<Rightarrow> frag_extension_method \<Rightarrow> def_index \<Rightarrow> def_index" where
  "add_extension_method idx entry di =
     (let mls = di_member_lists di ! idx;
          listed = ext_quad entry \<in> set (ml_extension_methods mls);
          k = fe_name entry @ '' '' @ fe_this_type entry;
          bucket = or_default [] (di_extension di k)
      in if listed \<and> list_ex (same_range idx entry) bucket
         then di\<lparr>di_extension := (di_extension di)(k \<mapsto> bucket)\<rparr>
         else di\<lparr>di_member_lists :=
                (if listed then di_member_lists di
                 else (di_member_lists di)[idx := mls\<lparr>ml_extension_methods :=
                        ml_extension_methods mls @ [ext_quad entry]\<rparr>]),
              di_extension :=
                (di_extension di)(k \<mapsto> bucket @ [\<lparr>xc_def_idx = idx, xc_entry = entry\<rparr>])\<rparr>)"

definition first_def :: "string \<Rightarrow> frag_def \<Rightarrow> graph_def" where
  "first_def file d =
     \<lparr>d_id = fd_id d, d_name = fd_name d, d_namespace = fd_namespace d, d_kind = fd_kind d,
      d_file = file, d_line = fd_line d, d_methods = fd_methods d, d_test_methods = fd_test_methods d,
      d_also_in = [], d_end_line = fd_end_line d, d_local = False\<rparr>"

definition first_lists :: "string \<Rightarrow> frag_def \<Rightarrow> member_lists" where
  "first_lists file d =
     \<lparr>ml_properties = fd_properties d, ml_fields = fd_fields d, ml_extension_methods = [],
      ml_bases = fd_bases d, ml_type_params = fd_type_params d,
      ml_base_generic_args = sm_entries (fd_base_generic_args d),
      ml_method_returns = fd_method_returns d, ml_property_types = fd_property_types d,
      ml_field_types = fd_field_types d,
      ml_property_type_files = keys_mapped_to_file (fd_property_types d) file,
      ml_field_type_files = keys_mapped_to_file (fd_field_types d) file,
      ml_method_return_args = fd_method_return_args d,
      ml_non_public_methods = fd_non_public_methods d,
      ml_method_arities = fd_method_arities d, ml_overload_counts = sm_new,
      ml_unpaired_overload_names = [],
      ml_method_params = map_of (rev (overloads_of d file)),
      ml_override_methods = fd_override_methods d,
      ml_delegate_signature = fd_delegate_signature d\<rparr>"

definition def_key :: "frag_def \<Rightarrow> string \<times> nat" where
  "def_key d = (fd_id d, length (fd_type_params d))"

definition add_first :: "string \<Rightarrow> frag_def \<Rightarrow> def_index \<Rightarrow> def_index" where
  "add_first file d di =
     (let idx = length (di_defs di);
          di1 = di\<lparr>di_defs := di_defs di @ [first_def file d],
                  di_member_lists := di_member_lists di @ [pair_overload_counts d (first_lists file d)]\<rparr>;
          di2 = fold (add_extension_method idx) (fd_extension_methods d) di1
      in di2\<lparr>di_qualified :=
               (if di_qualified di2 (fd_id d) = None then (di_qualified di2)(fd_id d \<mapsto> idx)
                else di_qualified di2),
             di_qualified_arity := (di_qualified_arity di2)(def_key d \<mapsto> idx),
             di_simple :=
               (if fd_kind d \<noteq> ''enum-member''
                then entry_update (fd_name d) [] (\<lambda>is. is @ [idx]) (di_simple di2)
                else di_simple di2)\<rparr>)"

definition merge_def :: "string \<Rightarrow> frag_def \<Rightarrow> graph_def \<Rightarrow> graph_def" where
  "merge_def file d g =
     g\<lparr>d_also_in := d_also_in g @ [\<lparr>ai_file = file, ai_line = fd_line d\<rparr>],
       d_methods := push_new (d_methods g) (fd_methods d),
       d_test_methods := push_new (d_test_methods g) (fd_test_methods d)\<rparr>"

definition merge_names :: "frag_def \<Rightarrow> member_lists \<Rightarrow> member_lists" where
  "merge_names d l =
     l\<lparr>ml_properties := push_new (ml_properties l) (fd_properties d),
       ml_fields := push_new (ml_fields l) (fd_fields d),
       ml_non_public_methods := push_new (ml_non_public_methods l) (fd_non_public_methods d),
       ml_override_methods := push_new (ml_override_methods l) (fd_override_methods d)\<rparr>"

definition merge_facts :: "string \<Rightarrow> frag_def \<Rightarrow> member_lists \<Rightarrow> member_lists" where
  "merge_facts file d l =
     (let props = keep_first_with_file file (fd_property_types d) (ml_property_types l, ml_property_type_files l);
          flds = keep_first_with_file file (fd_field_types d) (ml_field_types l, ml_field_type_files l);
          l1 = l\<lparr>ml_bases := push_new (ml_bases l) (fd_bases d),
                 ml_method_returns := keep_first (ml_method_returns l) (fd_method_returns d),
                 ml_property_types := fst props, ml_property_type_files := snd props,
                 ml_field_types := fst flds, ml_field_type_files := snd flds,
                 ml_method_return_args := keep_first (ml_method_return_args l) (fd_method_return_args d),
                 ml_method_arities := union_ranges (ml_method_arities l) (fd_method_arities d)\<rparr>;
          l2 = pair_overload_counts d l1
      in l2\<lparr>ml_method_params := merge_overloads (overloads_of d file) (ml_method_params l2)\<rparr>)"

definition update_lists :: "nat \<Rightarrow> (member_lists \<Rightarrow> member_lists) \<Rightarrow> def_index \<Rightarrow> def_index" where
  "update_lists idx f di = di\<lparr>di_member_lists := (di_member_lists di)[idx := f (di_member_lists di ! idx)]\<rparr>"

definition add_part :: "nat \<Rightarrow> string \<Rightarrow> frag_def \<Rightarrow> def_index \<Rightarrow> def_index" where
  "add_part idx file d di =
     (let di1 = di\<lparr>di_defs := (di_defs di)[idx := merge_def file d (di_defs di ! idx)]\<rparr>;
          di2 = update_lists idx (merge_names d) di1;
          di3 = fold (add_extension_method idx) (fd_extension_methods d) di2
      in update_lists idx (merge_facts file d) di3)"

definition add_def :: "string \<times> frag_def \<Rightarrow> def_index \<Rightarrow> def_index" where
  "add_def p di =
     (case p of (file, d) \<Rightarrow>
       case di_qualified_arity di (def_key d) of
         None \<Rightarrow> add_first file d di
       | Some idx \<Rightarrow> add_part idx file d di)"

definition fragment_parts :: "(string \<times> fragment) list \<Rightarrow> (string \<times> frag_def) list" where
  "fragment_parts fragments = concat (map (\<lambda>(file, frag). map (Pair file) (fg_defs frag)) fragments)"

text \<open>The names one definition vouches for, first occurrence first.\<close>

definition vouched_names :: "def_index \<Rightarrow> nat \<Rightarrow> string list" where
  "vouched_names di idx =
     push_new []
       (d_methods (di_defs di ! idx) @ ml_properties (di_member_lists di ! idx)
        @ ml_fields (di_member_lists di ! idx) @ map fst (ml_extension_methods (di_member_lists di ! idx)))"

definition member_name_buckets :: "def_index \<Rightarrow> string \<Rightarrow> nat list option" where
  "member_name_buckets di =
     fold (\<lambda>idx m. fold (\<lambda>n. entry_update n [] (\<lambda>is. is @ [idx])) (vouched_names di idx) m)
       [0..<length (di_defs di)] (\<lambda>_. None)"

definition build_def_index :: "(string \<times> fragment) list \<Rightarrow> def_index" where
  "build_def_index fragments =
     (let di = fold add_def (fragment_parts fragments) empty_index
      in di\<lparr>di_member_names := member_name_buckets di\<rparr>)"

section \<open>Probes and arities\<close>

definition name_probe :: "string \<Rightarrow> string \<Rightarrow> string list \<Rightarrow> frag_ref" where
  "name_probe name namespace outer_types =
     \<lparr>fr_kind = ''uses-type'', fr_name = name, fr_qualified = None, fr_member = None, fr_line = 0,
      fr_namespace = Some namespace, fr_type_arg_count = None, fr_generic = False,
      fr_receiver_type = None, fr_arg_count = None, fr_receiver_args = None,
      fr_outer_types = outer_types, fr_args = None, fr_receiver_property_owner = None,
      fr_receiver_call_owner = None, fr_receiver_call_member = None, fr_receiver_base = False,
      fr_receiver_awaited = False, fr_receiver_local = False, fr_receiver_lambda = None,
      fr_receiver_nullable = False, fr_lambda_arg_arity = None, fr_method_type_arg_count = None,
      fr_lambda_arg_shape = None, fr_receiver_type_qualified = None, fr_arg_types = None\<rparr>"

definition base_arity :: "def_index \<Rightarrow> nat \<Rightarrow> string \<Rightarrow> nat" where
  "base_arity di idx base =
     (case List.find (\<lambda>(k, _). k = base) (ml_base_generic_args (di_member_lists di ! idx)) of
        None \<Rightarrow> 0 | Some (_, v) \<Rightarrow> length v)"

definition in_range :: "nat \<Rightarrow> int \<Rightarrow> nat \<Rightarrow> bool" where
  "in_range mn mx n \<longleftrightarrow> mn \<le> n \<and> (mx = -1 \<or> int n \<le> mx)"

definition method_arity_admits :: "def_index \<Rightarrow> nat \<Rightarrow> string \<Rightarrow> nat \<Rightarrow> bool" where
  "method_arity_admits di idx member arg_count =
     (case om_get (ml_method_arities (di_member_lists di ! idx)) member of
        Some ranges \<Rightarrow> list_ex (\<lambda>(mn, mx). in_range mn mx arg_count) ranges
      | None \<Rightarrow> True)"

record call_shape =
  ca_values :: nat
  ca_type_args :: "nat option"

definition call_arity :: "frag_ref \<Rightarrow> call_shape option" where
  "call_arity r =
     map_option (\<lambda>n. \<lparr>ca_values = n, ca_type_args = fr_method_type_arg_count r\<rparr>) (fr_arg_count r)"

definition method_call_admits :: "def_index \<Rightarrow> nat \<Rightarrow> string \<Rightarrow> call_shape \<Rightarrow> bool" where
  "method_call_admits di idx member call =
     (let mls = di_member_lists di ! idx;
          by_value = method_arity_admits di idx member (ca_values call)
      in (case ca_type_args call of
            None \<Rightarrow> by_value
          | Some written \<Rightarrow>
              (if member \<in> set (ml_unpaired_overload_names mls) then by_value
               else (case om_get (ml_overload_counts mls) member of
                       None \<Rightarrow> by_value
                     | Some overloads \<Rightarrow>
                         list_ex (\<lambda>(mn, mx, count). count = written \<and> in_range mn mx (ca_values call)) overloads))))"

definition arity_accepts :: "frag_extension_method \<Rightarrow> call_shape \<Rightarrow> bool" where
  "arity_accepts entry call \<longleftrightarrow>
     in_range (fe_arity_min entry) (fe_arity_max entry) (ca_values call)
     \<and> (case (ca_type_args call, fe_type_param_count entry) of
          (Some written, Some declared) \<Rightarrow> written = declared | _ \<Rightarrow> True)"

definition generic_args_unify :: "string list option \<Rightarrow> string list option \<Rightarrow> bool" where
  "generic_args_unify this_args receiver_args =
     (case (this_args, receiver_args) of
        (None, None) \<Rightarrow> True
      | (Some a, Some b) \<Rightarrow>
          length a = length b \<and> list_all (\<lambda>(x, y). x = ''*'' \<or> y = ''*'' \<or> x = y) (zip a b)
      | _ \<Rightarrow> False)"

section \<open>The index groups the parts by key\<close>

text \<open>
  The specification: the keys of the parts in order of first appearance, and per key the first
  part's definition with the later parts merged into it in order.
\<close>

definition part_keys :: "(string \<times> frag_def) list \<Rightarrow> (string \<times> nat) list" where
  "part_keys ps = push_new [] (map (def_key \<circ> snd) ps)"

definition parts_of :: "(string \<times> frag_def) list \<Rightarrow> string \<times> nat \<Rightarrow> (string \<times> frag_def) list" where
  "parts_of ps k = filter (\<lambda>p. def_key (snd p) = k) ps"

definition merge_parts ::
  "(string \<Rightarrow> frag_def \<Rightarrow> 'a) \<Rightarrow> (string \<Rightarrow> frag_def \<Rightarrow> 'a \<Rightarrow> 'a) \<Rightarrow> (string \<times> frag_def) list \<Rightarrow> 'a" where
  "merge_parts one nxt ps =
     fold (\<lambda>p. nxt (fst p) (snd p)) (tl ps) (one (fst (hd ps)) (snd (hd ps)))"

definition add_quads :: "frag_extension_method list \<Rightarrow> member_lists \<Rightarrow> member_lists" where
  "add_quads es l = l\<lparr>ml_extension_methods := push_new (ml_extension_methods l) (map ext_quad es)\<rparr>"

definition lists_first :: "string \<Rightarrow> frag_def \<Rightarrow> member_lists" where
  "lists_first file d = add_quads (fd_extension_methods d) (pair_overload_counts d (first_lists file d))"

definition lists_more :: "string \<Rightarrow> frag_def \<Rightarrow> member_lists \<Rightarrow> member_lists" where
  "lists_more file d l = merge_facts file d (add_quads (fd_extension_methods d) (merge_names d l))"

lemma push_new_nil [simp]: "push_new xs [] = xs"
  by (simp add: push_new_def)

lemma push_new_cons [simp]: "push_new xs (y # ys) = push_new (if y \<in> set xs then xs else xs @ [y]) ys"
  by (simp add: push_new_def)

lemma push_new_snoc:
  "push_new xs (ys @ [y]) = (if y \<in> set (push_new xs ys) then push_new xs ys else push_new xs ys @ [y])"
  by (simp add: push_new_def)

lemma set_push_new [simp]: "set (push_new xs ys) = set xs \<union> set ys"
  by (induction ys arbitrary: xs) auto

lemma distinct_push_new: "distinct xs \<Longrightarrow> distinct (push_new xs ys)"
  by (induction ys arbitrary: xs) auto

lemma part_keys_snoc:
  "part_keys (ps @ [p]) = (if def_key (snd p) \<in> set (part_keys ps) then part_keys ps
     else part_keys ps @ [def_key (snd p)])"
  unfolding part_keys_def map_append list.map push_new_snoc by simp

lemma part_keys_set: "set (part_keys ps) = (def_key \<circ> snd) ` set ps"
  by (simp add: part_keys_def)

lemma part_keys_distinct: "distinct (part_keys ps)"
  by (simp add: part_keys_def distinct_push_new)

lemma parts_of_snoc: "parts_of (ps @ [p]) k = parts_of ps k @ (if def_key (snd p) = k then [p] else [])"
  by (simp add: parts_of_def)

lemma parts_of_new: "k \<notin> set (part_keys ps) \<Longrightarrow> parts_of ps k = []"
  by (auto simp: parts_of_def part_keys_set filter_empty_conv)

lemma parts_of_old: "k \<in> set (part_keys ps) \<Longrightarrow> parts_of ps k \<noteq> []"
  by (auto simp: parts_of_def part_keys_set filter_empty_conv)

lemma merge_parts_one [simp]: "merge_parts one nxt [p] = one (fst p) (snd p)"
  by (simp add: merge_parts_def)

lemma merge_parts_snoc:
  "ps \<noteq> [] \<Longrightarrow> merge_parts one nxt (ps @ [p]) = nxt (fst p) (snd p) (merge_parts one nxt ps)"
  by (cases ps) (simp_all add: merge_parts_def)

text \<open>Grouping a longer list changes the group of the new part's key only.\<close>

lemma grouped_new:
  assumes "def_key (snd p) \<notin> set (part_keys ps)"
  shows "map (\<lambda>k. merge_parts one nxt (parts_of (ps @ [p]) k)) (part_keys (ps @ [p]))
    = map (\<lambda>k. merge_parts one nxt (parts_of ps k)) (part_keys ps) @ [one (fst p) (snd p)]"
proof -
  have "parts_of (ps @ [p]) k = parts_of ps k" if "k \<in> set (part_keys ps)" for k
    using that assms by (auto simp: parts_of_snoc)
  then show ?thesis using assms by (simp add: part_keys_snoc) (simp add: parts_of_snoc parts_of_new)
qed

lemma grouped_old:
  assumes "idx < length (part_keys ps)" and "part_keys ps ! idx = def_key (snd p)"
  shows "map (\<lambda>k. merge_parts one nxt (parts_of (ps @ [p]) k)) (part_keys (ps @ [p]))
    = (map (\<lambda>k. merge_parts one nxt (parts_of ps k)) (part_keys ps))
        [idx := nxt (fst p) (snd p) (map (\<lambda>k. merge_parts one nxt (parts_of ps k)) (part_keys ps) ! idx)]"
proof (rule nth_equalityI)
  have mem: "def_key (snd p) \<in> set (part_keys ps)" using assms by (metis nth_mem)
  then have keys: "part_keys (ps @ [p]) = part_keys ps" by (simp add: part_keys_snoc)
  then show "length (map (\<lambda>k. merge_parts one nxt (parts_of (ps @ [p]) k)) (part_keys (ps @ [p])))
    = length ((map (\<lambda>k. merge_parts one nxt (parts_of ps k)) (part_keys ps))
        [idx := nxt (fst p) (snd p) (map (\<lambda>k. merge_parts one nxt (parts_of ps k)) (part_keys ps) ! idx)])"
    by simp
  fix j assume "j < length (map (\<lambda>k. merge_parts one nxt (parts_of (ps @ [p]) k)) (part_keys (ps @ [p])))"
  then have j: "j < length (part_keys ps)" using keys by simp
  show "map (\<lambda>k. merge_parts one nxt (parts_of (ps @ [p]) k)) (part_keys (ps @ [p])) ! j
    = (map (\<lambda>k. merge_parts one nxt (parts_of ps k)) (part_keys ps))
        [idx := nxt (fst p) (snd p) (map (\<lambda>k. merge_parts one nxt (parts_of ps k)) (part_keys ps) ! idx)] ! j"
  proof (cases "j = idx")
    case True
    with j assms mem show ?thesis
      by (simp add: keys parts_of_snoc merge_parts_snoc parts_of_old)
  next
    case False
    then have "part_keys ps ! j \<noteq> def_key (snd p)"
      using j assms part_keys_distinct by (metis nth_eq_iff_index_eq)
    with False j show ?thesis by (auto simp: keys parts_of_snoc)
  qed
qed

section \<open>What adding a part changes\<close>

lemma add_ext_frames:
  "di_defs (add_extension_method idx e di) = di_defs di"
  "di_qualified (add_extension_method idx e di) = di_qualified di"
  "di_qualified_arity (add_extension_method idx e di) = di_qualified_arity di"
  "di_simple (add_extension_method idx e di) = di_simple di"
  "length (di_member_lists (add_extension_method idx e di)) = length (di_member_lists di)"
  by (auto simp: add_extension_method_def Let_def)

lemma fold_ext_frames [simp]:
  "di_defs (fold (add_extension_method idx) es di) = di_defs di"
  "di_qualified (fold (add_extension_method idx) es di) = di_qualified di"
  "di_qualified_arity (fold (add_extension_method idx) es di) = di_qualified_arity di"
  "di_simple (fold (add_extension_method idx) es di) = di_simple di"
  by (induction es arbitrary: di) (auto simp: add_ext_frames)

lemma add_ext_lists:
  "idx < length (di_member_lists di) \<Longrightarrow>
   di_member_lists (add_extension_method idx e di)
   = (di_member_lists di)[idx := add_quads [e] (di_member_lists di ! idx)]"
  by (auto simp: add_extension_method_def Let_def add_quads_def)

lemma add_quads_nil [simp]: "add_quads [] l = l"
  by (simp add: add_quads_def)

lemma add_quads_cons: "add_quads es (add_quads [e] l) = add_quads (e # es) l"
  by (simp add: add_quads_def)

lemma fold_ext_lists:
  "idx < length (di_member_lists di) \<Longrightarrow>
   di_member_lists (fold (add_extension_method idx) es di)
   = (di_member_lists di)[idx := add_quads es (di_member_lists di ! idx)]"
proof (induction es arbitrary: di)
  case (Cons e es)
  then show ?case by (simp add: add_ext_frames add_ext_lists add_quads_cons)
qed simp

text \<open>The index of a list of parts, as the grouping.\<close>

definition grouped_defs :: "(string \<times> frag_def) list \<Rightarrow> graph_def list" where
  "grouped_defs ps = map (\<lambda>k. merge_parts first_def merge_def (parts_of ps k)) (part_keys ps)"

definition grouped_lists :: "(string \<times> frag_def) list \<Rightarrow> member_lists list" where
  "grouped_lists ps = map (\<lambda>k. merge_parts lists_first lists_more (parts_of ps k)) (part_keys ps)"

definition index_of :: "'a list \<Rightarrow> 'a \<Rightarrow> nat option" where
  "index_of xs x = List.find (\<lambda>i. xs ! i = x) [0..<length xs]"

lemma add_first_parts:
  assumes "length (di_member_lists di) = length (di_defs di)"
  shows "di_defs (add_first file d di) = di_defs di @ [first_def file d]"
    and "di_member_lists (add_first file d di) = di_member_lists di @ [lists_first file d]"
  using assms by (simp_all add: add_first_def Let_def fold_ext_lists lists_first_def nth_append list_update_append)

lemma add_part_parts:
  assumes "idx < length (di_member_lists di)"
  shows "di_defs (add_part idx file d di) = (di_defs di)[idx := merge_def file d (di_defs di ! idx)]"
    and "di_member_lists (add_part idx file d di)
         = (di_member_lists di)[idx := lists_more file d (di_member_lists di ! idx)]"
  using assms by (simp_all add: add_part_def Let_def update_lists_def fold_ext_lists lists_more_def)

lemma add_part_lookups [simp]:
  "di_qualified (add_part idx file d di) = di_qualified di"
  "di_qualified_arity (add_part idx file d di) = di_qualified_arity di"
  "di_simple (add_part idx file d di) = di_simple di"
  by (simp_all add: add_part_def Let_def update_lists_def)

lemma find_upt_snoc:
  "List.find P [0..<length (xs @ [x])] =
   (case List.find P [0..<length xs] of Some i \<Rightarrow> Some i | None \<Rightarrow> if P (length xs) then Some (length xs) else None)"
proof -
  have "List.find P (ys @ [y]) = (case List.find P ys of Some i \<Rightarrow> Some i | None \<Rightarrow> if P y then Some y else None)"
    for ys y by (induction ys) auto
  then show ?thesis unfolding length_append_singleton upt_Suc_append [OF le0] .
qed

lemma find_cong_set: "(\<And>x. x \<in> set xs \<Longrightarrow> P x = Q x) \<Longrightarrow> List.find P xs = List.find Q xs"
  by (induction xs) auto

lemma index_of_snoc:
  "index_of (xs @ [x]) y = (case index_of xs y of Some i \<Rightarrow> Some i | None \<Rightarrow> if x = y then Some (length xs) else None)"
proof -
  have "List.find (\<lambda>i. (xs @ [x]) ! i = y) [0..<length xs] = List.find (\<lambda>i. xs ! i = y) [0..<length xs]"
    by (rule find_cong_set) (auto simp: nth_append)
  then show ?thesis unfolding index_of_def find_upt_snoc by simp
qed

lemma index_of_Some: "distinct xs \<Longrightarrow> index_of xs x = Some i \<longleftrightarrow> i < length xs \<and> xs ! i = x"
  unfolding index_of_def find_Some_iff
  by (auto dest: nth_eq_iff_index_eq [THEN iffD1, rotated 3] simp: nth_eq_iff_index_eq)

lemma index_of_None: "index_of xs x = None \<longleftrightarrow> x \<notin> set xs"
  by (auto simp: index_of_def find_None_iff in_set_conv_nth)

lemma merged_def_frames:
  "ps \<noteq> [] \<Longrightarrow> d_id (merge_parts first_def merge_def ps) = fd_id (snd (hd ps))"
  "ps \<noteq> [] \<Longrightarrow> d_name (merge_parts first_def merge_def ps) = fd_name (snd (hd ps))"
  "ps \<noteq> [] \<Longrightarrow> d_kind (merge_parts first_def merge_def ps) = fd_kind (snd (hd ps))"
proof -
  have "d_id (fold (\<lambda>p. merge_def (fst p) (snd p)) qs g) = d_id g
      \<and> d_name (fold (\<lambda>p. merge_def (fst p) (snd p)) qs g) = d_name g
      \<and> d_kind (fold (\<lambda>p. merge_def (fst p) (snd p)) qs g) = d_kind g" for qs g
    by (induction qs arbitrary: g) (auto simp: merge_def_def)
  then show "ps \<noteq> [] \<Longrightarrow> d_id (merge_parts first_def merge_def ps) = fd_id (snd (hd ps))"
    "ps \<noteq> [] \<Longrightarrow> d_name (merge_parts first_def merge_def ps) = fd_name (snd (hd ps))"
    "ps \<noteq> [] \<Longrightarrow> d_kind (merge_parts first_def merge_def ps) = fd_kind (snd (hd ps))"
    by (simp_all add: merge_parts_def first_def_def)
qed

lemma length_grouped [simp]:
  "length (grouped_defs ps) = length (part_keys ps)" "length (grouped_lists ps) = length (part_keys ps)"
  by (simp_all add: grouped_defs_def grouped_lists_def)

lemma grouped_def_id:
  assumes "i < length (part_keys ps)"
  shows "d_id (grouped_defs ps ! i) = fst (part_keys ps ! i)"
proof -
  let ?k = "part_keys ps ! i"
  have ne: "parts_of ps ?k \<noteq> []" using assms by (simp add: parts_of_old)
  then have "hd (parts_of ps ?k) \<in> set (parts_of ps ?k)" by simp
  then have "def_key (snd (hd (parts_of ps ?k))) = ?k" by (simp add: parts_of_def)
  with ne assms show ?thesis
    by (simp add: grouped_defs_def merged_def_frames) (metis def_key_def fst_conv)
qed

text \<open>The definitions of a name an index lists under it: all but enum members.\<close>

definition simple_pool :: "graph_def list \<Rightarrow> string \<Rightarrow> nat list" where
  "simple_pool ds n = filter (\<lambda>i. d_name (ds ! i) = n \<and> d_kind (ds ! i) \<noteq> ''enum-member'') [0..<length ds]"

lemma simple_pool_snoc:
  "simple_pool (ds @ [d]) n = simple_pool ds n @ (if d_name d = n \<and> d_kind d \<noteq> ''enum-member'' then [length ds] else [])"
  unfolding simple_pool_def by (rule bucket_snoc [of "\<lambda>d. d_name d = n \<and> d_kind d \<noteq> ''enum-member''"])

lemma simple_pool_update:
  assumes "d_name d = d_name (ds ! i)" "d_kind d = d_kind (ds ! i)"
  shows "simple_pool (ds[i := d]) n = simple_pool ds n"
proof -
  have "d_name (ds[i := d] ! x) = d_name (ds ! x) \<and> d_kind (ds[i := d] ! x) = d_kind (ds ! x)"
    if "x < length ds" for x
    using assms that by (cases "x = i") auto
  then show ?thesis unfolding simple_pool_def by (simp, intro filter_cong) auto
qed

definition grouped_ok :: "(string \<times> frag_def) list \<Rightarrow> def_index \<Rightarrow> bool" where
  "grouped_ok ps di \<longleftrightarrow>
     di_defs di = grouped_defs ps \<and> di_member_lists di = grouped_lists ps
     \<and> di_qualified_arity di = index_of (part_keys ps)
     \<and> di_qualified di = index_of (map fst (part_keys ps))
     \<and> (\<forall>n. or_default [] (di_simple di n) = simple_pool (grouped_defs ps) n)"

lemma index_of_known: "x \<in> set xs \<Longrightarrow> index_of (xs @ [y]) x = index_of xs x"
  by (cases "index_of xs x") (auto simp: index_of_snoc index_of_None)

lemma index_of_extended:
  "index_of (xs @ [x]) = (if index_of xs x = None then (index_of xs)(x \<mapsto> length xs) else index_of xs)"
  by (rule ext) (auto simp: index_of_snoc split: option.splits)

lemma grouped_ok_step:
  assumes ok: "grouped_ok ps di"
  shows "grouped_ok (ps @ [p]) (add_def p di)"
proof -
  obtain fl d where p: "p = (fl, d)" by (cases p)
  note inv = ok [unfolded grouped_ok_def]
  show ?thesis
  proof (cases "di_qualified_arity di (def_key d)")
    case None
    then have new: "def_key (snd p) \<notin> set (part_keys ps)"
      using inv by (simp add: p index_of_None)
    note groups = grouped_new [OF new]
    have keys: "part_keys (ps @ [p]) = part_keys ps @ [def_key d]"
      using new by (simp add: part_keys_snoc p)
    have len: "length (di_member_lists di) = length (di_defs di)" using inv by simp
    have step: "add_def p di = add_first fl d di" using None by (simp add: add_def_def p)
    have defs: "grouped_defs (ps @ [p]) = grouped_defs ps @ [first_def fl d]"
      unfolding grouped_defs_def groups by (simp add: p)
    have mls: "grouped_lists (ps @ [p]) = grouped_lists ps @ [lists_first fl d]"
      unfolding grouped_lists_def groups by (simp add: p)
    show ?thesis
      unfolding grouped_ok_def step keys defs mls
      using inv add_first_parts [OF len, of fl d] new
      by (auto simp: add_first_def Let_def index_of_extended simple_pool_snoc first_def_def def_key_def
          entry_update_apply index_of_None p)
  next
    case (Some idx)
    have hit: "idx < length (part_keys ps)" "part_keys ps ! idx = def_key (snd p)"
      using Some inv part_keys_distinct [of ps] by (simp_all add: p index_of_Some)
    note groups = grouped_old [OF hit]
    have keys: "part_keys (ps @ [p]) = part_keys ps"
      using hit by (metis nth_mem part_keys_snoc)
    have len: "idx < length (di_member_lists di)" using inv hit by simp
    have step: "add_def p di = add_part idx fl d di" using Some by (simp add: add_def_def p)
    have defs: "grouped_defs (ps @ [p]) = (grouped_defs ps)[idx := merge_def fl d (grouped_defs ps ! idx)]"
      unfolding grouped_defs_def groups by (simp add: p)
    have mls: "grouped_lists (ps @ [p]) = (grouped_lists ps)[idx := lists_more fl d (grouped_lists ps ! idx)]"
      unfolding grouped_lists_def groups by (simp add: p)
    show ?thesis
      unfolding grouped_ok_def step keys defs mls
      using inv add_part_parts [OF len, of fl d]
      by (simp add: simple_pool_update merge_def_def)
  qed
qed

lemma grouped_ok_fold: "grouped_ok ps (fold add_def ps empty_index)"
proof (induction ps rule: rev_induct)
  case Nil
  show ?case
    by (simp add: grouped_ok_def grouped_defs_def grouped_lists_def part_keys_def empty_index_def
        index_of_def simple_pool_def fun_eq_iff)
next
  case (snoc p ps)
  then show ?case by (simp add: grouped_ok_step)
qed

lemma built_index:
  fixes fragments
  defines "ps \<equiv> fragment_parts fragments"
  shows "di_defs (build_def_index fragments) = grouped_defs ps"
    and "di_member_lists (build_def_index fragments) = grouped_lists ps"
    and "di_qualified_arity (build_def_index fragments) = index_of (part_keys ps)"
    and "di_qualified (build_def_index fragments) = index_of (map fst (part_keys ps))"
    and "or_default [] (di_simple (build_def_index fragments) n) = simple_pool (grouped_defs ps) n"
    and "di_member_names (build_def_index fragments) = member_name_buckets (fold add_def ps empty_index)"
  using grouped_ok_fold [of ps] by (simp_all add: build_def_index_def Let_def grouped_ok_def ps_def)

section \<open>What an index answers\<close>

lemma pair_counts_frames [simp]:
  "ml_type_params (pair_overload_counts d l) = ml_type_params l"
  "ml_method_arities (pair_overload_counts d l) = ml_method_arities l"
  "ml_properties (pair_overload_counts d l) = ml_properties l"
  "ml_fields (pair_overload_counts d l) = ml_fields l"
  "ml_extension_methods (pair_overload_counts d l) = ml_extension_methods l"
proof -
  have "ml_type_params (fold f xs l) = ml_type_params l \<and> ml_method_arities (fold f xs l) = ml_method_arities l
      \<and> ml_properties (fold f xs l) = ml_properties l \<and> ml_fields (fold f xs l) = ml_fields l
      \<and> ml_extension_methods (fold f xs l) = ml_extension_methods l"
    if "\<And>x l. ml_type_params (f x l) = ml_type_params l \<and> ml_method_arities (f x l) = ml_method_arities l
      \<and> ml_properties (f x l) = ml_properties l \<and> ml_fields (f x l) = ml_fields l
      \<and> ml_extension_methods (f x l) = ml_extension_methods l"
    for f :: "string \<times> (nat \<times> int) list \<Rightarrow> member_lists \<Rightarrow> member_lists" and xs
    using that by (induction xs arbitrary: l) auto
  then show "ml_type_params (pair_overload_counts d l) = ml_type_params l"
    "ml_method_arities (pair_overload_counts d l) = ml_method_arities l"
    "ml_properties (pair_overload_counts d l) = ml_properties l"
    "ml_fields (pair_overload_counts d l) = ml_fields l"
    "ml_extension_methods (pair_overload_counts d l) = ml_extension_methods l"
    by (auto simp: pair_overload_counts_def split: prod.splits option.splits)
qed

lemma lists_first_fields [simp]:
  "ml_type_params (lists_first fl d) = fd_type_params d"
  "ml_method_arities (lists_first fl d) = fd_method_arities d"
  "ml_properties (lists_first fl d) = fd_properties d"
  "ml_fields (lists_first fl d) = fd_fields d"
  by (simp_all add: lists_first_def add_quads_def first_lists_def)

lemma lists_more_fields [simp]:
  "ml_type_params (lists_more fl d l) = ml_type_params l"
  "ml_method_arities (lists_more fl d l) = union_ranges (ml_method_arities l) (fd_method_arities d)"
  "ml_properties (lists_more fl d l) = push_new (ml_properties l) (fd_properties d)"
  "ml_fields (lists_more fl d l) = push_new (ml_fields l) (fd_fields d)"
  by (simp_all add: lists_more_def merge_facts_def Let_def add_quads_def merge_names_def)

lemma merge_parts_induct:
  assumes "ps \<noteq> []" and "\<And>p. P [p] (one (fst p) (snd p))"
    and "\<And>ps p x. ps \<noteq> [] \<Longrightarrow> P ps x \<Longrightarrow> P (ps @ [p]) (nxt (fst p) (snd p) x)"
  shows "P ps (merge_parts one nxt ps)"
  using assms(1)
proof (induction ps rule: rev_induct)
  case (snoc p ps)
  then show ?case
    using assms(2,3) by (cases "ps = []") (auto simp: merge_parts_snoc)
qed simp

lemma grouped_type_params:
  assumes "i < length (part_keys ps)"
  shows "length (ml_type_params (grouped_lists ps ! i)) = snd (part_keys ps ! i)"
proof -
  let ?k = "part_keys ps ! i"
  have ne: "parts_of ps ?k \<noteq> []" using assms by (simp add: parts_of_old)
  have "ml_type_params (merge_parts lists_first lists_more (parts_of ps ?k)) = fd_type_params (snd (hd (parts_of ps ?k)))"
    by (rule merge_parts_induct [OF ne]) auto
  moreover have "hd (parts_of ps ?k) \<in> set (parts_of ps ?k)" using ne by simp
  then have "def_key (snd (hd (parts_of ps ?k))) = ?k" by (simp add: parts_of_def)
  ultimately show ?thesis
    using assms by (simp add: grouped_lists_def) (metis def_key_def snd_conv)
qed

lemma grouped_key:
  "i < length (part_keys ps) \<Longrightarrow>
   part_keys ps ! i = (d_id (grouped_defs ps ! i), length (ml_type_params (grouped_lists ps ! i)))"
  by (simp add: grouped_def_id grouped_type_params)

text \<open>
  C1. The definition index is the grouping of the declared parts by identifier and
  type-parameter count, first part first. Its arity table finds exactly the definition with that
  identifier and that many type parameters; its name table the first definition with that
  identifier; its simple-name pool all definitions of that name but enum members, in order.
\<close>

theorem def_index_is_grouping:
  "let di = build_def_index fragments; ps = fragment_parts fragments in
    di_defs di = map (\<lambda>k. merge_parts first_def merge_def (parts_of ps k)) (part_keys ps)
    \<and> di_member_lists di = map (\<lambda>k. merge_parts lists_first lists_more (parts_of ps k)) (part_keys ps)
    \<and> set (part_keys ps) = (def_key \<circ> snd) ` set ps \<and> distinct (part_keys ps)
    \<and> (di_qualified_arity di (q, n) = Some i \<longleftrightarrow>
         i < length (di_defs di) \<and> d_id (di_defs di ! i) = q
         \<and> length (ml_type_params (di_member_lists di ! i)) = n)
    \<and> di_qualified di q = List.find (\<lambda>i. d_id (di_defs di ! i) = q) [0..<length (di_defs di)]
    \<and> or_default [] (di_simple di simple) =
        filter (\<lambda>i. d_name (di_defs di ! i) = simple \<and> d_kind (di_defs di ! i) \<noteq> ''enum-member'')
          [0..<length (di_defs di)]"
proof -
  define di where "di = build_def_index fragments"
  define ps where "ps = fragment_parts fragments"
  note built = built_index [of fragments, folded di_def ps_def]
  have "di_qualified_arity di (q, n) = Some i \<longleftrightarrow>
      i < length (part_keys ps) \<and> part_keys ps ! i = (q, n)"
    by (simp add: built(3) index_of_Some part_keys_distinct)
  also have "\<dots> \<longleftrightarrow> i < length (di_defs di) \<and> d_id (di_defs di ! i) = q
         \<and> length (ml_type_params (di_member_lists di ! i)) = n"
    by (auto simp: built(1,2) grouped_key)
  finally have arity: "di_qualified_arity di (q, n) = Some i \<longleftrightarrow>
      i < length (di_defs di) \<and> d_id (di_defs di ! i) = q
      \<and> length (ml_type_params (di_member_lists di ! i)) = n" .
  have "di_qualified di q = List.find (\<lambda>i. map fst (part_keys ps) ! i = q) [0..<length (part_keys ps)]"
    by (simp add: built(4) index_of_def)
  also have "\<dots> = List.find (\<lambda>i. d_id (di_defs di ! i) = q) [0..<length (di_defs di)]"
    unfolding built(1) length_grouped by (rule find_cong_set) (simp add: grouped_def_id)
  finally have by_name: "di_qualified di q = List.find (\<lambda>i. d_id (di_defs di ! i) = q) [0..<length (di_defs di)]" .
  show ?thesis
    unfolding Let_def di_def [symmetric] ps_def [symmetric]
    using arity by_name part_keys_set [of ps] part_keys_distinct [of ps] built(5) [of simple]
    by (simp add: built(1,2) grouped_defs_def grouped_lists_def simple_pool_def)
qed

text \<open>The declaring sites and member names of a merged definition.\<close>

definition def_sites_of :: "graph_def \<Rightarrow> (string \<times> nat) list" where
  "def_sites_of g = (d_file g, d_line g) # map (\<lambda>a. (ai_file a, ai_line a)) (d_also_in g)"

lemma merged_sites:
  "ps \<noteq> [] \<Longrightarrow> def_sites_of (merge_parts first_def merge_def ps) = map (\<lambda>(f, d). (f, fd_line d)) ps"
  by (erule merge_parts_induct) (auto simp: def_sites_of_def first_def_def merge_def_def)

lemma merged_methods:
  "ps \<noteq> [] \<Longrightarrow> set (d_methods (merge_parts first_def merge_def ps)) = (\<Union>p \<in> set ps. set (fd_methods (snd p)))"
  by (erule merge_parts_induct) (auto simp: first_def_def merge_def_def)

lemma merged_test_methods:
  "ps \<noteq> [] \<Longrightarrow>
   set (d_test_methods (merge_parts first_def merge_def ps)) = (\<Union>p \<in> set ps. set (fd_test_methods (snd p)))"
  by (erule merge_parts_induct) (auto simp: first_def_def merge_def_def)

lemma merged_values:
  "ps \<noteq> [] \<Longrightarrow>
   set (ml_properties (merge_parts lists_first lists_more ps)) = (\<Union>p \<in> set ps. set (fd_properties (snd p)))
   \<and> set (ml_fields (merge_parts lists_first lists_more ps)) = (\<Union>p \<in> set ps. set (fd_fields (snd p)))"
  by (erule merge_parts_induct) auto

lemma parts_of_key_nth: "i < length (part_keys ps) \<Longrightarrow> parts_of ps (part_keys ps ! i) \<noteq> []"
  by (simp add: parts_of_old)

text \<open>
  No part of a partial type is lost: the sites of a definition are the sites of its parts in
  order, and it declares exactly the methods, tests, properties and fields some part declares.
\<close>

theorem partial_type_parts_kept:
  "map def_sites_of (di_defs (build_def_index fragments)) =
     map (\<lambda>k. map (\<lambda>(f, d). (f, fd_line d)) (parts_of (fragment_parts fragments) k))
       (part_keys (fragment_parts fragments))
   \<and> map (set \<circ> d_methods) (di_defs (build_def_index fragments)) =
     map (\<lambda>k. \<Union> ((set \<circ> fd_methods \<circ> snd) ` set (parts_of (fragment_parts fragments) k)))
       (part_keys (fragment_parts fragments))
   \<and> map (set \<circ> d_test_methods) (di_defs (build_def_index fragments)) =
     map (\<lambda>k. \<Union> ((set \<circ> fd_test_methods \<circ> snd) ` set (parts_of (fragment_parts fragments) k)))
       (part_keys (fragment_parts fragments))
   \<and> map (set \<circ> ml_properties) (di_member_lists (build_def_index fragments)) =
     map (\<lambda>k. \<Union> ((set \<circ> fd_properties \<circ> snd) ` set (parts_of (fragment_parts fragments) k)))
       (part_keys (fragment_parts fragments))
   \<and> map (set \<circ> ml_fields) (di_member_lists (build_def_index fragments)) =
     map (\<lambda>k. \<Union> ((set \<circ> fd_fields \<circ> snd) ` set (parts_of (fragment_parts fragments) k)))
       (part_keys (fragment_parts fragments))"
proof -
  have ne: "k \<in> set (part_keys ps) \<Longrightarrow> parts_of ps k \<noteq> []" for k ps by (rule parts_of_old)
  show ?thesis
    unfolding built_index(1,2) grouped_defs_def grouped_lists_def
    by (simp add: ne merged_sites merged_methods merged_test_methods merged_values)
qed

section \<open>Merged overload ranges\<close>

lemma union_ranges_get:
  assumes "sm_ok m"
  shows "sm_ok (union_ranges m news)"
    and "om_get (union_ranges m news) k =
      (if k \<in> fst ` set (sm_entries news)
       then Some (fold (\<lambda>p xs. if fst p = k then push_new xs (snd p) else xs) (sm_entries news)
              (or_default [] (om_get m k)))
       else om_get m k)"
proof -
  have "sm_ok m \<Longrightarrow>
     sm_ok (fold (\<lambda>(name, ranges) m. sm_insert name (push_new (or_default [] (om_get m name)) ranges) m) es m)
     \<and> om_get (fold (\<lambda>(name, ranges) m. sm_insert name (push_new (or_default [] (om_get m name)) ranges) m) es m) k =
      (if k \<in> fst ` set es
       then Some (fold (\<lambda>p xs. if fst p = k then push_new xs (snd p) else xs) es (or_default [] (om_get m k)))
       else om_get m k)" for es
  proof (induction es arbitrary: m)
    case (Cons e es)
    obtain name ranges where e: "e = (name, ranges)" by (cases e)
    let ?m = "sm_insert name (push_new (or_default [] (om_get m name)) ranges) m"
    have same: "fold (\<lambda>p xs. if fst p = k then push_new xs (snd p) else xs) es v = v" if "k \<notin> fst ` set es" for v
      using that by (induction es arbitrary: v) auto
    from Cons.IH [of ?m] Cons.prems same show ?case
      by (auto simp: e sm_insert_ok om_get_insert)
  qed simp
  then show "sm_ok (union_ranges m news)"
    "om_get (union_ranges m news) k =
      (if k \<in> fst ` set (sm_entries news)
       then Some (fold (\<lambda>p xs. if fst p = k then push_new xs (snd p) else xs) (sm_entries news)
              (or_default [] (om_get m k)))
       else om_get m k)"
    using assms by (simp_all add: union_ranges_def)
qed

lemma om_get_dom: "sm_ok m \<Longrightarrow> k \<in> fst ` set (sm_entries m) \<longleftrightarrow> om_get m k \<noteq> None"
  by (metis domIff dom_map_of_conv_image_fst om_get_map_of)

lemma fold_at_key:
  "distinct (map fst es) \<Longrightarrow>
   fold (\<lambda>p xs. if fst p = k then push_new xs (snd p) else xs) es v = push_new v (or_default [] (map_of es k))"
proof (induction es arbitrary: v)
  case (Cons e es)
  have "fold (\<lambda>p xs. if fst p = k then push_new xs (snd p) else xs) es w = w" if "k \<notin> fst ` set es" for w
    using that by (induction es arbitrary: w) auto
  with Cons show ?case by auto
qed simp

lemma union_ranges_ok:
  assumes "sm_ok m" "sm_ok news"
  shows "sm_ok (union_ranges m news)"
    and "om_get (union_ranges m news) k = None \<longleftrightarrow> om_get m k = None \<and> om_get news k = None"
    and "set (or_default [] (om_get (union_ranges m news) k)) =
      set (or_default [] (om_get m k)) \<union> set (or_default [] (om_get news k))"
proof -
  note get = union_ranges_get [OF assms(1), of news]
  show "sm_ok (union_ranges m news)" by (rule get(1))
  have "fold (\<lambda>p xs. if fst p = k then push_new xs (snd p) else xs) (sm_entries news) v
      = push_new v (or_default [] (om_get news k))" for v
    using fold_at_key [OF sml.distinct_keys [OF assms(2)]] by (simp add: om_get_map_of [OF assms(2)])
  then show "om_get (union_ranges m news) k = None \<longleftrightarrow> om_get m k = None \<and> om_get news k = None"
    "set (or_default [] (om_get (union_ranges m news) k)) =
      set (or_default [] (om_get m k)) \<union> set (or_default [] (om_get news k))"
    by (auto simp: get(2) om_get_dom [OF assms(2)])
qed

definition arities_ok :: "(string \<times> frag_def) list \<Rightarrow> bool" where
  "arities_ok ps \<longleftrightarrow> list_all (\<lambda>p. sm_ok (fd_method_arities (snd p))) ps"

text \<open>The ranges a part records for a member.\<close>

definition part_ranges :: "string \<Rightarrow> string \<times> frag_def \<Rightarrow> (nat \<times> int) list option" where
  "part_ranges member p = om_get (fd_method_arities (snd p)) member"

lemma merged_ranges:
  assumes "ps \<noteq> []" "arities_ok ps"
  shows "sm_ok (ml_method_arities (merge_parts lists_first lists_more ps))
    \<and> (om_get (ml_method_arities (merge_parts lists_first lists_more ps)) k = None \<longleftrightarrow>
        (\<forall>p \<in> set ps. part_ranges k p = None))
    \<and> set (or_default [] (om_get (ml_method_arities (merge_parts lists_first lists_more ps)) k)) =
        (\<Union>p \<in> set ps. set (or_default [] (part_ranges k p)))"
proof -
  have "arities_ok ps \<longrightarrow> (sm_ok (ml_method_arities (merge_parts lists_first lists_more ps))
    \<and> (om_get (ml_method_arities (merge_parts lists_first lists_more ps)) k = None \<longleftrightarrow>
        (\<forall>p \<in> set ps. part_ranges k p = None))
    \<and> set (or_default [] (om_get (ml_method_arities (merge_parts lists_first lists_more ps)) k)) =
        (\<Union>p \<in> set ps. set (or_default [] (part_ranges k p))))"
    by (rule merge_parts_induct [OF assms(1)])
      (auto simp: arities_ok_def part_ranges_def union_ranges_ok)
  with assms(2) show ?thesis by blast
qed

text \<open>
  A partial type accepts a call exactly when some part declares an overload that accepts its
  argument count, or no part recorded ranges for the name at all.
\<close>

theorem partial_type_overloads:
  assumes "i < length (di_defs (build_def_index fragments))"
    and "arities_ok (fragment_parts fragments)"
  shows "method_arity_admits (build_def_index fragments) i member n \<longleftrightarrow>
    (let parts = parts_of (fragment_parts fragments) (part_keys (fragment_parts fragments) ! i)
     in list_all (\<lambda>p. part_ranges member p = None) parts
        \<or> list_ex (\<lambda>p. list_ex (\<lambda>(mn, mx). in_range mn mx n) (or_default [] (part_ranges member p))) parts)"
proof -
  let ?ps = "fragment_parts fragments"
  let ?parts = "parts_of ?ps (part_keys ?ps ! i)"
  have i: "i < length (part_keys ?ps)" using assms(1) by (simp add: built_index(1))
  have ok: "arities_ok ?parts" using assms(2) by (auto simp: arities_ok_def parts_of_def list_all_iff)
  note merged = merged_ranges [OF parts_of_key_nth [OF i] ok, of member]
  have at: "di_member_lists (build_def_index fragments) ! i = merge_parts lists_first lists_more ?parts"
    using i by (simp add: built_index(2) grouped_lists_def)
  show ?thesis
  proof (cases "om_get (ml_method_arities (merge_parts lists_first lists_more ?parts)) member")
    case None
    with merged show ?thesis by (simp add: method_arity_admits_def at list_all_iff)
  next
    case (Some ranges)
    with merged have "set ranges = (\<Union>p \<in> set ?parts. set (or_default [] (part_ranges member p)))"
      "\<not> (\<forall>p \<in> set ?parts. part_ranges member p = None)" by auto
    with Some show ?thesis
      unfolding method_arity_admits_def at Let_def list_all_iff list_ex_iff by simp fastforce
  qed
qed

definition sample_def :: "string \<Rightarrow> string \<Rightarrow> nat \<Rightarrow> (nat \<times> int) list \<Rightarrow> frag_def" where
  "sample_def ident name line ranges =
     \<lparr>fd_id = ident, fd_name = name, fd_namespace = [], fd_kind = ''class'', fd_line = line,
      fd_methods = [''Run''], fd_properties = [], fd_fields = [], fd_method_returns = sm_new,
      fd_extension_methods = [], fd_bases = [], fd_type_params = [], fd_base_generic_args = sm_new,
      fd_test_methods = [], fd_property_types = sm_new, fd_field_types = sm_new,
      fd_method_return_args = sm_new, fd_non_public_methods = [],
      fd_method_arities = sm_insert ''Run'' ranges sm_new, fd_method_type_arities = sm_new,
      fd_method_type_param_sites = sm_new, fd_method_params = sm_new, fd_override_methods = [],
      fd_base_type_args = sm_new, fd_property_message_args = [], fd_array_message_bases = [],
      fd_delegate_signature = None, fd_end_line = line\<rparr>"

definition two_parts :: "(string \<times> fragment) list" where
  "two_parts =
     [(''a.cs'', defs_and_usings [sample_def ''Job'' ''Job'' 1 [(0, 0)]] []),
      (''b.cs'', defs_and_usings [sample_def ''Job'' ''Job'' 4 [(2, -1)]] [])]"

theorem partial_type_overloads_witness:
  "method_arity_admits (build_def_index two_parts) 0 ''Run'' 0
   \<and> \<not> method_arity_admits (build_def_index two_parts) 0 ''Run'' 1
   \<and> method_arity_admits (build_def_index two_parts) 0 ''Run'' 7"
proof -
  have parts: "fragment_parts two_parts =
      [(''a.cs'', sample_def ''Job'' ''Job'' 1 [(0, 0)]), (''b.cs'', sample_def ''Job'' ''Job'' 4 [(2, -1)])]"
    by (simp add: fragment_parts_def two_parts_def)
  have keys: "part_keys (fragment_parts two_parts) = [(''Job'', 0)]"
    by (simp add: parts part_keys_def def_key_def sample_def_def)
  have ok: "arities_ok (fragment_parts two_parts)"
    by (simp add: parts arities_ok_def sample_def_def sm_insert_ok)
  have len: "0 < length (di_defs (build_def_index two_parts))"
    by (simp add: built_index(1) keys)
  have ranges: "part_ranges ''Run'' (f, sample_def a b l rs) = Some rs" for f a b l rs
    by (simp add: part_ranges_def sample_def_def om_get_insert)
  have group: "parts_of (fragment_parts two_parts) (''Job'', 0) = fragment_parts two_parts"
    by (simp add: parts parts_of_def def_key_def sample_def_def)
  show ?thesis
    using partial_type_overloads [OF len ok, of "''Run''"]
    by (simp add: keys group) (simp add: parts ranges in_range_def)
qed

section \<open>The member-name pool\<close>

lemma bucket_row:
  "distinct ns \<Longrightarrow>
   or_default [] (fold (\<lambda>n. entry_update n [] (\<lambda>is. is @ [idx])) ns m n) =
   or_default [] (m n) @ (if n \<in> set ns then [idx] else [])"
  by (induction ns arbitrary: m) (auto simp: entry_update_apply)

lemma vouched_distinct: "distinct (vouched_names di idx)"
  by (simp add: vouched_names_def distinct_push_new)

lemma member_buckets:
  "or_default [] (fold (\<lambda>idx m. fold (\<lambda>n. entry_update n [] (\<lambda>is. is @ [idx])) (vouched_names di idx) m) ids m n) =
   or_default [] (m n) @ filter (\<lambda>idx. n \<in> set (vouched_names di idx)) ids"
  by (induction ids arbitrary: m) (auto simp: bucket_row [OF vouched_distinct])

text \<open>
  The uniqueness pool of a member name lists every definition that vouches for the name
  exactly once, in definition order: as a method, a property, a field or an extension method.
\<close>

theorem member_name_pool_exact:
  "or_default [] (di_member_names (build_def_index fragments) name) =
   filter (\<lambda>i. name \<in> set (d_methods (di_defs (build_def_index fragments) ! i))
          \<union> set (ml_properties (di_member_lists (build_def_index fragments) ! i))
          \<union> set (ml_fields (di_member_lists (build_def_index fragments) ! i))
          \<union> fst ` set (ml_extension_methods (di_member_lists (build_def_index fragments) ! i)))
     [0..<length (di_defs (build_def_index fragments))]"
  by (simp add: build_def_index_def Let_def member_name_buckets_def member_buckets)
    (simp add: vouched_names_def Un_assoc)

section \<open>The index of one file\<close>

lemma push_new_distinct: "distinct (ys @ xs) \<Longrightarrow> push_new ys xs = ys @ xs"
proof (induction xs arbitrary: ys)
  case (Cons x xs)
  then have "push_new (ys @ [x]) xs = ys @ x # xs" by simp
  with Cons show ?case by (simp add: push_new_def)
qed (simp add: push_new_def)

lemma filter_key: "distinct (map f xs) \<Longrightarrow> x \<in> set xs \<Longrightarrow> filter (\<lambda>y. f y = f x) xs = [x]"
proof (induction xs)
  case (Cons y ys)
  then show ?case by (cases "x = y") (auto simp: filter_empty_conv image_iff)
qed simp

lemma one_file_index:
  assumes "distinct (map def_key ds)"
  shows "part_keys (fragment_parts [(f, defs_and_usings ds us)]) = map def_key ds"
    and "di_qualified (build_def_index [(f, defs_and_usings ds us)]) = index_of (map fd_id ds)"
    and "di_defs (build_def_index [(f, defs_and_usings ds us)]) = map (first_def f) ds"
    and "di_member_lists (build_def_index [(f, defs_and_usings ds us)]) = map (lists_first f) ds"
proof -
  let ?ps = "fragment_parts [(f, defs_and_usings ds us)]"
  have parts: "?ps = map (Pair f) ds"
    by (simp add: fragment_parts_def)
  show keys: "part_keys ?ps = map def_key ds"
    unfolding parts part_keys_def map_map comp_def snd_conv using assms by (simp add: push_new_distinct)
  have group: "parts_of ?ps (def_key d) = [(f, d)]" if "d \<in> set ds" for d
    unfolding parts parts_of_def using filter_key [OF assms that] by (simp add: filter_map comp_def)
  show "di_qualified (build_def_index [(f, defs_and_usings ds us)]) = index_of (map fd_id ds)"
    by (simp add: built_index(4) keys comp_def def_key_def)
  show "di_defs (build_def_index [(f, defs_and_usings ds us)]) = map (first_def f) ds"
    "di_member_lists (build_def_index [(f, defs_and_usings ds us)]) = map (lists_first f) ds"
    by (simp_all add: built_index(1,2) grouped_defs_def grouped_lists_def keys group merge_parts_def)
qed

lemma one_file_pool:
  assumes "distinct (map def_key ds)" "distinct (map fd_name ds)"
  shows "length (or_default [] (di_simple (build_def_index [(f, defs_and_usings ds us)]) name)) < 2"
proof -
  have "length (or_default [] (di_simple (build_def_index [(f, defs_and_usings ds us)]) name))
      \<le> length (filter (\<lambda>i. fd_name (ds ! i) = name) [0..<length ds])"
    unfolding built_index(5) built_index(1) [symmetric] one_file_index(3) [OF assms(1)] simple_pool_def
    by (auto simp: length_filter_conv_card first_def_def intro!: card_mono)
  also have "\<dots> = card {i. i < length ds \<and> fd_name (ds ! i) = name}"
    by (subst distinct_card [symmetric]) (auto simp: intro: arg_cong [where f = card])
  also have "\<dots> \<le> Suc 0"
    by (subst card_le_Suc0_iff_eq) (use assms(2) in \<open>auto simp: distinct_conv_nth\<close>)
  finally show ?thesis by simp
qed

text \<open>What pairing the overload counts leaves alone, and the tables of a first declaration.\<close>

lemma pair_counts_only:
  "\<exists>counts unpaired. pair_overload_counts d l
     = l\<lparr>ml_overload_counts := counts, ml_unpaired_overload_names := unpaired\<rparr>"
proof -
  have "\<exists>counts unpaired. fold f xs l = l\<lparr>ml_overload_counts := counts, ml_unpaired_overload_names := unpaired\<rparr>"
    if step: "\<And>x l. \<exists>counts unpaired. f x l = l\<lparr>ml_overload_counts := counts, ml_unpaired_overload_names := unpaired\<rparr>"
    for f :: "string \<times> (nat \<times> int) list \<Rightarrow> member_lists \<Rightarrow> member_lists" and xs
  proof (induction xs arbitrary: l)
    case Nil
    show ?case by (intro exI [of _ "ml_overload_counts l"] exI [of _ "ml_unpaired_overload_names l"]) simp
  next
    case (Cons x xs)
    obtain a b where first: "f x l = l\<lparr>ml_overload_counts := a, ml_unpaired_overload_names := b\<rparr>" using step by blast
    from Cons.IH [of "f x l"] obtain c e where
      "fold f xs (f x l) = f x l\<lparr>ml_overload_counts := c, ml_unpaired_overload_names := e\<rparr>" by blast
    then have "fold f (x # xs) l = l\<lparr>ml_overload_counts := c, ml_unpaired_overload_names := e\<rparr>" by (simp add: first)
    then show ?case by blast
  qed
  note folded = this
  have either: "\<exists>counts unpaired. (if c then l\<lparr>ml_unpaired_overload_names := a\<rparr> else l\<lparr>ml_overload_counts := b\<rparr>)
      = l\<lparr>ml_overload_counts := counts, ml_unpaired_overload_names := unpaired\<rparr>" for c a b and l :: member_lists
    by (rule exI [of _ "if c then ml_overload_counts l else b"], rule exI [of _ "if c then a else ml_unpaired_overload_names l"]) simp
  show ?thesis
    unfolding pair_overload_counts_def
    by (rule folded) (use either [of True] either in \<open>auto split: prod.splits option.splits\<close>)
qed

lemma pair_counts_tables:
  "ml_method_params (pair_overload_counts d l) = ml_method_params l"
  "ml_bases (pair_overload_counts d l) = ml_bases l"
  "ml_non_public_methods (pair_overload_counts d l) = ml_non_public_methods l"
  "ml_base_generic_args (pair_overload_counts d l) = ml_base_generic_args l"
  "ml_method_returns (pair_overload_counts d l) = ml_method_returns l"
  "ml_property_types (pair_overload_counts d l) = ml_property_types l"
  "ml_field_types (pair_overload_counts d l) = ml_field_types l"
  "ml_override_methods (pair_overload_counts d l) = ml_override_methods l"
  using pair_counts_only [of d l] by auto

lemma lists_first_tables:
  "ml_method_params (lists_first fl d) = map_of (rev (overloads_of d fl))"
  "ml_bases (lists_first fl d) = fd_bases d"
  "ml_non_public_methods (lists_first fl d) = fd_non_public_methods d"
  "ml_base_generic_args (lists_first fl d) = sm_entries (fd_base_generic_args d)"
  "ml_method_returns (lists_first fl d) = fd_method_returns d"
  "ml_override_methods (lists_first fl d) = fd_override_methods d"
  by (simp_all add: lists_first_def add_quads_def pair_counts_tables first_lists_def)

lemma one_entry: "sm_entries (sm_insert k v sm_new) = [(k, v)]" "sm_entries sm_new = []"
  by (simp_all add: sm_insert_def sm_new_def sm_push_def)

end
