(* ===== verification/Scope.thy ===== *)
theory Scope
  imports DefIndex
begin

text \<open>
  What a file can see without qualification (\<open>src/resolve/scope.rs\<close>, \<open>src/resolve/reach.rs\<close>):
  its using directives by the namespace that declares them, the global ones in scope for it, its
  aliases, and the definitions its project can reference.
\<close>

section \<open>Using directives\<close>

record file_usings =
  fu_all :: "string set"
  fu_by_level :: "string \<Rightarrow> string set option"
  fu_reach :: "bool list option"

definition fu_default :: file_usings where
  "fu_default = \<lparr>fu_all = {}, fu_by_level = (\<lambda>_. None), fu_reach = None\<rparr>"

definition fu_insert :: "string \<Rightarrow> string \<Rightarrow> file_usings \<Rightarrow> file_usings" where
  "fu_insert level t u =
     u\<lparr>fu_all := insert t (fu_all u),
       fu_by_level := entry_update level {} (insert t) (fu_by_level u)\<rparr>"

text \<open>A \<open>BTreeSet\<close> is read in ascending order.\<close>

definition at_level :: "file_usings \<Rightarrow> string \<Rightarrow> string list" where
  "at_level u level = sorted_list_of_set (or_default {} (fu_by_level u level))"

definition set_reach :: "bool list \<Rightarrow> file_usings \<Rightarrow> file_usings" where
  "set_reach reach u = u\<lparr>fu_reach := Some reach\<rparr>"

definition reaches :: "file_usings \<Rightarrow> nat \<Rightarrow> bool" where
  "reaches u d =
     (case fu_reach u of
        None \<Rightarrow> True
      | Some reach \<Rightarrow> if d < length reach then reach ! d else True)"

type_synonym alias_map = "string \<Rightarrow> string option"

record file_context =
  fc_usings :: file_usings
  fc_aliases :: alias_map

type_synonym global_usings = "string set \<times> alias_map"

section \<open>Namespaces\<close>

definition namespace_encloses :: "string \<Rightarrow> string \<Rightarrow> bool" where
  "namespace_encloses outer inner =
     (case strip_prefix inner outer of Some rest \<Rightarrow> starts_with rest ''.'' | None \<Rightarrow> False)"

definition score_candidate :: "string \<Rightarrow> string \<Rightarrow> string set \<Rightarrow> nat" where
  "score_candidate def_namespace ref_namespace usings =
     (if def_namespace = ref_namespace then 3 else if def_namespace \<in> usings then 2 else 1)"

section \<open>Global usings\<close>

text \<open>\<open>unit_of_file.get(file).copied().flatten()\<close>.\<close>

definition owner_unit :: "(string \<Rightarrow> nat option option) \<Rightarrow> string \<Rightarrow> nat option" where
  "owner_unit units f = (case units f of Some u \<Rightarrow> u | None \<Rightarrow> None)"

definition no_globals :: global_usings where
  "no_globals = ({}, \<lambda>_. None)"

text \<open>One global directive into one pool: the first alias of a name wins.\<close>

definition add_global :: "frag_using \<Rightarrow> global_usings \<Rightarrow> global_usings" where
  "add_global u g =
     (case u of
        Using_Alias al target gl \<Rightarrow>
          if gl then (fst g, if snd g al = None then (snd g)(al \<mapsto> target) else snd g) else g
      | Using_Plain t gl ns \<Rightarrow> if gl then (insert t (fst g), snd g) else g)"

definition collect_using ::
  "nat option \<Rightarrow> frag_using \<Rightarrow> global_usings \<times> (nat \<Rightarrow> global_usings option)
   \<Rightarrow> global_usings \<times> (nat \<Rightarrow> global_usings option)" where
  "collect_using unit u st =
     (if u_global u
      then (add_global u (fst st),
            (case unit of
               None \<Rightarrow> snd st
             | Some idx \<Rightarrow> entry_update idx no_globals (add_global u) (snd st)))
      else st)"

definition collect_global_usings_by_unit ::
  "(string \<times> fragment) list \<Rightarrow> (string \<Rightarrow> nat option option)
   \<Rightarrow> global_usings \<times> (nat \<Rightarrow> global_usings option)" where
  "collect_global_usings_by_unit fragments units =
     fold (\<lambda>(f, frag). fold (collect_using (owner_unit units f)) (fg_usings frag)) fragments
       (no_globals, \<lambda>_. None)"

section \<open>File contexts\<close>

definition seed_usings :: "string set \<Rightarrow> file_usings" where
  "seed_usings seed =
     (if seed = {} then fu_default
      else fu_default\<lparr>fu_all := seed, fu_by_level := [[] \<mapsto> seed]\<rparr>)"

definition local_using :: "frag_using \<Rightarrow> file_context \<Rightarrow> file_context" where
  "local_using u c =
     (case u of
        Using_Alias al target gl \<Rightarrow> c\<lparr>fc_aliases := (fc_aliases c)(al \<mapsto> target)\<rparr>
      | Using_Plain t gl ns \<Rightarrow> c\<lparr>fc_usings := fu_insert ns t (fc_usings c)\<rparr>)"

definition context_seed ::
  "global_usings \<Rightarrow> ((string \<Rightarrow> nat option option) \<times> (nat \<Rightarrow> global_usings option)) option
   \<Rightarrow> string \<Rightarrow> global_usings" where
  "context_seed repo_wide by_unit f =
     (case by_unit of
        Some (units, pools) \<Rightarrow>
          (case owner_unit units f of
             Some u \<Rightarrow> or_default no_globals (pools u)
           | None \<Rightarrow> repo_wide)
      | None \<Rightarrow> repo_wide)"

definition file_context_of ::
  "global_usings \<Rightarrow> fragment \<Rightarrow> file_context" where
  "file_context_of seed frag =
     fold local_using (fg_usings frag) \<lparr>fc_usings = seed_usings (fst seed), fc_aliases = snd seed\<rparr>"

definition build_file_contexts ::
  "(string \<times> fragment) list \<Rightarrow> global_usings
   \<Rightarrow> ((string \<Rightarrow> nat option option) \<times> (nat \<Rightarrow> global_usings option)) option
   \<Rightarrow> string \<Rightarrow> file_context option" where
  "build_file_contexts fragments repo_wide by_unit =
     fold (\<lambda>(f, frag) contexts. contexts(f \<mapsto> file_context_of (context_seed repo_wide by_unit f) frag))
       fragments (\<lambda>_. None)"

section \<open>Reach\<close>

text \<open>\<open>collect()\<close> into an \<open>Option\<close>: \<open>None\<close> when some declaring file has no owning project.\<close>

fun all_some :: "'a option list \<Rightarrow> 'a list option" where
  "all_some [] = Some []"
| "all_some (None # xs) = None"
| "all_some (Some x # xs) = map_option (Cons x) (all_some xs)"

definition declaring_units :: "(string \<Rightarrow> nat option option) \<Rightarrow> graph_def \<Rightarrow> nat list option" where
  "declaring_units units d = all_some (map (owner_unit units) (d_file d # map ai_file (d_also_in d)))"

text \<open>
  \<open>attach_reach\<close>. The source computes the reach of a unit once and shares it; the shared value
  depends on the unit only.
\<close>

definition unit_reach ::
  "project_model \<Rightarrow> (string \<Rightarrow> nat option option) \<Rightarrow> def_index \<Rightarrow> nat \<Rightarrow> bool list" where
  "unit_reach model units index site =
     map (\<lambda>d. case declaring_units units d of
            None \<Rightarrow> True | Some us \<Rightarrow> list_ex (\<lambda>u. reachable model site u) us)
       (di_defs index)"

definition attach_reach ::
  "project_model option \<Rightarrow> (string \<Rightarrow> nat option option) \<Rightarrow> def_index
   \<Rightarrow> (string \<Rightarrow> file_context option) \<Rightarrow> string \<Rightarrow> file_context option" where
  "attach_reach model units index contexts =
     (case model of
        None \<Rightarrow> contexts
      | Some m \<Rightarrow>
          (\<lambda>f. map_option (\<lambda>c.
             case owner_unit units f of
               None \<Rightarrow> c
             | Some site \<Rightarrow> c\<lparr>fc_usings := set_reach (unit_reach m units index site) (fc_usings c)\<rparr>)
           (contexts f)))"

text \<open>The contexts of a resolve, as \<open>resolve_graph\<close> sets them up (\<open>src/resolve/assembly.rs\<close>).\<close>

definition units_of_files ::
  "project_model option \<Rightarrow> (string \<times> fragment) list \<Rightarrow> string \<Rightarrow> nat option option" where
  "units_of_files model fragments =
     map_of (map (\<lambda>(f, _). (f, Option.bind model (\<lambda>m. unit_of_file m f))) fragments)"

definition file_contexts ::
  "project_model option \<Rightarrow> (string \<times> fragment) list \<Rightarrow> string \<Rightarrow> file_context option" where
  "file_contexts model fragments =
     (let units = units_of_files model fragments;
          globals = collect_global_usings_by_unit fragments units
      in attach_reach model units (build_def_index fragments)
           (build_file_contexts fragments (fst globals)
             (map_option (\<lambda>_. (units, snd globals)) model)))"

section \<open>What is in scope\<close>

text \<open>The directives of a list of files, and the two sides of scope: own and global.\<close>

definition plain_usings :: "fragment \<Rightarrow> string set" where
  "plain_usings frag = {t. \<exists>gl ns. Using_Plain t gl ns \<in> set (fg_usings frag)}"

definition global_plain_usings :: "fragment \<Rightarrow> string set" where
  "global_plain_usings frag = {t. \<exists>ns. Using_Plain t True ns \<in> set (fg_usings frag)}"

definition usings_flow :: "(string \<Rightarrow> nat option option) \<Rightarrow> bool \<Rightarrow> string \<Rightarrow> string \<Rightarrow> bool" where
  "usings_flow units modelled from to \<longleftrightarrow>
     \<not> modelled \<or> owner_unit units to = None \<or> owner_unit units from = owner_unit units to"

lemma add_global_plain:
  "fst (add_global u g) = fst g \<union> {t. \<exists>ns. u = Using_Plain t True ns}"
  by (cases u) (auto simp: add_global_def)

lemma collect_fold_plain:
  "fst (fst (fold (collect_using unit) us st)) = fst (fst st) \<union> {t. \<exists>ns. Using_Plain t True ns \<in> set us}
   \<and> fst (or_default no_globals (snd (fold (collect_using unit) us st) v)) =
      fst (or_default no_globals (snd st v)) \<union> (if unit = Some v then {t. \<exists>ns. Using_Plain t True ns \<in> set us} else {})"
proof (induction us arbitrary: st)
  case (Cons u us)
  have "fst (fst (collect_using unit u st)) = fst (fst st) \<union> {t. \<exists>ns. u = Using_Plain t True ns}
    \<and> fst (or_default no_globals (snd (collect_using unit u st) v)) =
      fst (or_default no_globals (snd st v)) \<union> (if unit = Some v then {t. \<exists>ns. u = Using_Plain t True ns} else {})"
    by (cases u; cases unit)
      (auto simp: collect_using_def entry_update_apply add_global_def)
  with Cons.IH [of "collect_using unit u st"] show ?case by (auto split: if_splits)
qed simp

lemma collect_globals_plain:
  "fst (fst (collect_global_usings_by_unit fragments units)) = \<Union> (global_plain_usings ` snd ` set fragments)
   \<and> fst (or_default no_globals (snd (collect_global_usings_by_unit fragments units) v)) =
     \<Union> (global_plain_usings ` snd ` {p \<in> set fragments. owner_unit units (fst p) = Some v})"
proof -
  have "fst (fst (fold (\<lambda>(f, frag). fold (collect_using (owner_unit units f)) (fg_usings frag)) fs st))
      = fst (fst st) \<union> \<Union> (global_plain_usings ` snd ` set fs)
    \<and> fst (or_default no_globals (snd (fold (\<lambda>(f, frag). fold (collect_using (owner_unit units f)) (fg_usings frag)) fs st) v))
      = fst (or_default no_globals (snd st v)) \<union> \<Union> (global_plain_usings ` snd ` {p \<in> set fs. owner_unit units (fst p) = Some v})"
    for fs st
  proof (induction fs arbitrary: st)
    case (Cons p fs)
    show ?case
      using Cons.IH [of "fold (collect_using (owner_unit units (fst p))) (fg_usings (snd p)) st"]
        collect_fold_plain [of "owner_unit units (fst p)" "fg_usings (snd p)" st v]
      by (auto simp: global_plain_usings_def split_beta split: if_splits)
  qed simp
  then show ?thesis
    by (simp add: collect_global_usings_by_unit_def) (simp add: no_globals_def)
qed

lemma seed_all: "fu_all (seed_usings s) = s"
  by (simp add: seed_usings_def fu_default_def)

lemma local_fold_plain:
  "fu_all (fc_usings (fold local_using us c)) = fu_all (fc_usings c) \<union> {t. \<exists>gl ns. Using_Plain t gl ns \<in> set us}"
proof (induction us arbitrary: c)
  case (Cons u us)
  then show ?case by (cases u) (auto simp: local_using_def fu_insert_def)
qed simp

lemma built_contexts:
  "distinct (map fst fragments) \<Longrightarrow> (f, frag) \<in> set fragments \<Longrightarrow>
   build_file_contexts fragments repo_wide by_unit f = Some (file_context_of (context_seed repo_wide by_unit f) frag)"
proof -
  have other: "f \<notin> fst ` set fs \<Longrightarrow>
    fold (\<lambda>(f, frag) contexts. contexts(f \<mapsto> file_context_of (context_seed repo_wide by_unit f) frag)) fs m f = m f"
    for fs m by (induction fs arbitrary: m) auto
  have "distinct (map fst fs) \<Longrightarrow> (f, frag) \<in> set fs \<Longrightarrow>
    fold (\<lambda>(f, frag) contexts. contexts(f \<mapsto> file_context_of (context_seed repo_wide by_unit f) frag)) fs m f
    = Some (file_context_of (context_seed repo_wide by_unit f) frag)" for fs m
    by (induction fs arbitrary: m) (auto simp: other)
  then show "distinct (map fst fragments) \<Longrightarrow> (f, frag) \<in> set fragments \<Longrightarrow>
   build_file_contexts fragments repo_wide by_unit f = Some (file_context_of (context_seed repo_wide by_unit f) frag)"
    by (simp add: build_file_contexts_def)
qed

definition file_owner :: "project_model option \<Rightarrow> string \<Rightarrow> nat option" where
  "file_owner model f = Option.bind model (\<lambda>m. unit_of_file m f)"

lemma owner_of_known:
  "f \<in> fst ` set fragments \<Longrightarrow> owner_unit (units_of_files model fragments) f = file_owner model f"
  by (induction fragments) (auto simp: owner_unit_def units_of_files_def file_owner_def)

text \<open>A \<open>global using\<close> flows inside one compilation, and everywhere when there is none to tell.\<close>

definition global_flows :: "project_model option \<Rightarrow> string \<Rightarrow> string \<Rightarrow> bool" where
  "global_flows model src dst \<longleftrightarrow>
     model = None \<or> file_owner model dst = None \<or> file_owner model src = file_owner model dst"

lemma attach_reach_plain:
  "attach_reach model units index contexts f = Some c \<Longrightarrow>
   \<exists>c0. contexts f = Some c0 \<and> fu_all (fc_usings c) = fu_all (fc_usings c0)
     \<and> fc_aliases c = fc_aliases c0 \<and> fu_by_level (fc_usings c) = fu_by_level (fc_usings c0)"
  by (auto simp: attach_reach_def set_reach_def split: option.splits)

text \<open>
  A file imports exactly the namespaces of its own directives and of the \<open>global using\<close>s of
  its own compilation; without a project model, or when no project owns the file, those of the
  whole repository.
\<close>

theorem file_usings_in_scope:
  assumes "distinct (map fst fragments)" and "(f, frag) \<in> set fragments"
  shows "map_option (\<lambda>c. fu_all (fc_usings c)) (file_contexts model fragments f) =
    Some (plain_usings frag
      \<union> \<Union> (global_plain_usings ` snd ` {p \<in> set fragments. global_flows model (fst p) f}))"
proof -
  define units where "units = units_of_files model fragments"
  define globals where "globals = collect_global_usings_by_unit fragments units"
  define by_unit where "by_unit = map_option (\<lambda>_ :: project_model. (units, snd globals)) model"
  let ?contexts = "build_file_contexts fragments (fst globals) by_unit"
  have known: "f \<in> fst ` set fragments" using assms(2) by force
  have owner: "owner_unit units g = file_owner model g" if "g \<in> fst ` set fragments" for g
    unfolding units_def using that by (rule owner_of_known)
  have built: "?contexts f = Some (file_context_of (context_seed (fst globals) by_unit f) frag)"
    by (rule built_contexts [OF assms])
  then obtain c where c: "file_contexts model fragments f = Some c"
    by (cases model) (auto simp: file_contexts_def Let_def attach_reach_def units_def globals_def by_unit_def)
  have "fu_all (fc_usings c) = plain_usings frag \<union> fst (context_seed (fst globals) by_unit f)"
  proof -
    have "attach_reach model units (build_def_index fragments) ?contexts f = Some c"
      using c by (simp add: file_contexts_def Let_def units_def globals_def by_unit_def)
    from attach_reach_plain [OF this] built show ?thesis
      by (auto simp: file_context_of_def local_fold_plain seed_all plain_usings_def)
  qed
  moreover have "fst (context_seed (fst globals) by_unit f) =
      \<Union> (global_plain_usings ` snd ` {p \<in> set fragments. global_flows model (fst p) f})"
  proof -
    have same: "{p \<in> set fragments. owner_unit units (fst p) = Some v} = {p \<in> set fragments. file_owner model (fst p) = Some v}"
      for v using owner by force
    show ?thesis
      using owner [OF known]
      by (cases model; cases "file_owner model f")
        (simp_all add: context_seed_def by_unit_def globals_def collect_globals_plain same global_flows_def
          file_owner_def)
  qed
  ultimately show ?thesis by (simp add: c)
qed

text \<open>The declaring files of an indexed definition are files of the fragments.\<close>

definition declaring_files :: "graph_def \<Rightarrow> string list" where
  "declaring_files d = d_file d # map ai_file (d_also_in d)"

lemma indexed_files:
  assumes "i < length (di_defs (build_def_index fragments))"
  shows "set (declaring_files (di_defs (build_def_index fragments) ! i)) \<subseteq> fst ` set fragments"
proof -
  let ?ps = "fragment_parts fragments"
  have i: "i < length (part_keys ?ps)" using assms by (simp add: built_index(1))
  have "map fst (def_sites_of (di_defs (build_def_index fragments) ! i)) = map fst (parts_of ?ps (part_keys ?ps ! i))"
    using i merged_sites [OF parts_of_key_nth [OF i]]
    by (simp add: built_index(1) grouped_defs_def split_beta)
  moreover have "map fst (def_sites_of d) = declaring_files d" for d
    by (simp add: def_sites_of_def declaring_files_def)
  moreover have "fst ` set (parts_of ?ps k) \<subseteq> fst ` set fragments" for k
    by (auto simp: parts_of_def fragment_parts_def) force
  ultimately show ?thesis by (metis list.set_map)
qed

lemma all_some_None: "all_some xs = None \<longleftrightarrow> None \<in> set xs"
  by (induction xs rule: all_some.induct) auto

lemma all_some_Some: "all_some xs = Some ys \<Longrightarrow> xs = map Some ys"
  by (induction xs arbitrary: ys rule: all_some.induct) auto

text \<open>
  C18. A file sees a definition exactly when no project owns the file, or some declaring file of
  the definition has no owner, or some declaring file belongs to a project the file's project
  references, directly or not.
\<close>

theorem file_reach_exact:
  assumes "file_contexts model fragments f = Some c" and "f \<in> fst ` set fragments"
    and "i < length (di_defs (build_def_index fragments))"
  shows "reaches (fc_usings c) i \<longleftrightarrow>
    (case (model, file_owner model f) of
       (Some m, Some site) \<Rightarrow>
         list_ex (\<lambda>g. case file_owner model g of None \<Rightarrow> True | Some u \<Rightarrow> reachable m site u)
           (declaring_files (di_defs (build_def_index fragments) ! i))
     | _ \<Rightarrow> True)"
proof -
  let ?index = "build_def_index fragments"
  define units where "units = units_of_files model fragments"
  have owner: "owner_unit units g = file_owner model g" if "g \<in> fst ` set fragments" for g
    unfolding units_def using that by (rule owner_of_known)
  have decl: "declaring_units units (di_defs ?index ! i) = all_some (map (file_owner model) (declaring_files (di_defs ?index ! i)))"
    unfolding declaring_units_def declaring_files_def [symmetric]
    using indexed_files [OF assms(3)] owner by (intro arg_cong [of _ _ all_some] map_cong) auto
  have bare: "fu_reach (fc_usings (file_context_of s frag)) = None" for s frag
  proof -
    have "fu_reach (fc_usings (fold local_using us c)) = fu_reach (fc_usings c)" for us c
    proof (induction us arbitrary: c)
      case (Cons u us)
      then show ?case by (cases u) (auto simp: local_using_def fu_insert_def)
    qed simp
    then show ?thesis by (simp add: file_context_of_def seed_usings_def fu_default_def)
  qed
  have bare_built: "build_file_contexts fs rw bu f = Some c0 \<Longrightarrow> fu_reach (fc_usings c0) = None" for fs rw bu c0
  proof -
    have "fold (\<lambda>(f, frag) contexts. contexts(f \<mapsto> file_context_of (context_seed rw bu f) frag)) fs m f = Some c0 \<Longrightarrow>
      m f = Some c0 \<or> fu_reach (fc_usings c0) = None" for m
    proof (induction fs arbitrary: m)
      case (Cons p fs)
      from Cons.IH [of "m(fst p \<mapsto> file_context_of (context_seed rw bu (fst p)) (snd p))"] Cons.prems
      show ?case by (auto simp: split_beta bare split: if_splits)
    qed simp
    then show "build_file_contexts fs rw bu f = Some c0 \<Longrightarrow> fu_reach (fc_usings c0) = None"
      by (fastforce simp: build_file_contexts_def)
  qed
  show ?thesis
  proof (cases model)
    case None
    with assms(1) bare_built show ?thesis
      by (auto simp: file_contexts_def Let_def attach_reach_def reaches_def)
  next
    case (Some m)
    show ?thesis
    proof (cases "file_owner model f")
      case None
      with Some assms(1) owner [OF assms(2)] bare_built show ?thesis
        by (auto simp: file_contexts_def Let_def attach_reach_def reaches_def units_def)
    next
      case (Some site)
      have "fu_reach (fc_usings c) = Some (unit_reach m units ?index site)"
        using \<open>model = Some m\<close> Some assms(1) owner [OF assms(2)]
        by (auto simp: file_contexts_def Let_def attach_reach_def units_def set_reach_def)
      then have "reaches (fc_usings c) i \<longleftrightarrow>
          (case declaring_units units (di_defs ?index ! i) of None \<Rightarrow> True
           | Some us \<Rightarrow> list_ex (reachable m site) us)"
        using assms(3) by (simp add: reaches_def unit_reach_def)
      also have "\<dots> \<longleftrightarrow> list_ex (\<lambda>g. case file_owner model g of None \<Rightarrow> True | Some u \<Rightarrow> reachable m site u)
           (declaring_files (di_defs ?index ! i))"
      proof (cases "all_some (map (file_owner model) (declaring_files (di_defs ?index ! i)))")
        case None
        then obtain g where "g \<in> set (declaring_files (di_defs ?index ! i))" "file_owner model g = None"
          by (auto simp: all_some_None)
        then show ?thesis unfolding decl None by (auto simp: list_ex_iff intro!: bexI [of _ g])
      next
        case (Some us)
        note owners = all_some_Some [OF Some]
        have ex: "list_ex (\<lambda>g. case file_owner model g of None \<Rightarrow> True | Some u \<Rightarrow> reachable m site u) fs
            = list_ex (\<lambda>v. case v of None \<Rightarrow> True | Some u \<Rightarrow> reachable m site u) (map (file_owner model) fs)" for fs
          by (simp add: list_ex_iff)
        show ?thesis unfolding decl Some ex by (simp only: owners) (simp add: list_ex_iff)
      qed
      finally show ?thesis using \<open>model = Some m\<close> Some by simp
    qed
  qed
qed

section \<open>Two projects\<close>

definition two_projects :: project_model where
  "two_projects = from_units
     [\<lparr>u_id = ''p/p.csproj'', u_name = ''p'', u_dir = ''p'', u_refs = [], u_test = False\<rparr>,
      \<lparr>u_id = ''q/q.csproj'', u_name = ''q'', u_dir = ''q'', u_refs = [''p/p.csproj''], u_test = False\<rparr>]"

definition scoped_fragments :: "(string \<times> fragment) list" where
  "scoped_fragments =
     [(''p/a.cs'', defs_and_usings [] [Using_Plain ''X'' True []]),
      (''p/b.cs'', defs_and_usings [] [Using_Plain ''Y'' False ''N'']),
      (''q/c.cs'', defs_and_usings [sample_def ''Q.T'' ''T'' 1 []] [Using_Plain ''Z'' True []])]"

lemma two_projects_owners:
  "file_owner (Some two_projects) ''p/a.cs'' = Some 0"
  "file_owner (Some two_projects) ''p/b.cs'' = Some 0"
  "file_owner (Some two_projects) ''q/c.cs'' = Some 1"
  by code_simp+

theorem file_usings_in_scope_witness:
  "map_option (\<lambda>c. fu_all (fc_usings c)) (file_contexts (Some two_projects) scoped_fragments ''p/b.cs'')
   = Some {''X'', ''Y''}"
proof -
  have "{p \<in> set scoped_fragments. global_flows (Some two_projects) (fst p) ''p/b.cs''} =
      {scoped_fragments ! 0, scoped_fragments ! 1}"
    by (auto simp: scoped_fragments_def global_flows_def two_projects_owners)
  moreover have "\<exists>gl. \<not> gl" by blast
  then have "plain_usings (snd (scoped_fragments ! 1)) = {''Y''}"
    "global_plain_usings (snd (scoped_fragments ! 0)) = {''X''}"
    "global_plain_usings (snd (scoped_fragments ! 1)) = {}"
    by (auto simp: scoped_fragments_def plain_usings_def global_plain_usings_def)
  moreover have "distinct (map fst scoped_fragments)"
    "(''p/b.cs'', snd (scoped_fragments ! 1)) \<in> set scoped_fragments"
    by (simp_all add: scoped_fragments_def)
  ultimately show ?thesis
    using file_usings_in_scope [of scoped_fragments "''p/b.cs''" "snd (scoped_fragments ! 1)" "Some two_projects"]
    by (simp del: One_nat_def)
qed

theorem file_reach_exact_witness:
  "map_option (\<lambda>c. reaches (fc_usings c) 0) (file_contexts (Some two_projects) scoped_fragments ''p/b.cs'') = Some False
   \<and> map_option (\<lambda>c. reaches (fc_usings c) 0) (file_contexts (Some two_projects) scoped_fragments ''q/c.cs'') = Some True"
proof -
  have keys: "part_keys (fragment_parts scoped_fragments) = [(''Q.T'', 0)]"
    by (simp add: fragment_parts_def scoped_fragments_def part_keys_def def_key_def sample_def_def)
  have len: "0 < length (di_defs (build_def_index scoped_fragments))"
    by (simp add: built_index(1) keys)
  have parts: "parts_of (fragment_parts scoped_fragments) (''Q.T'', 0) = [(''q/c.cs'', sample_def ''Q.T'' ''T'' 1 [])]"
    by (simp add: fragment_parts_def scoped_fragments_def parts_of_def def_key_def sample_def_def)
  have decl: "declaring_files (di_defs (build_def_index scoped_fragments) ! 0) = [''q/c.cs'']"
    by (simp add: built_index(1) keys grouped_defs_def parts declaring_files_def first_def_def)
  have reach: "\<not> reachable two_projects 0 1" "reachable two_projects 1 1" by code_simp+
  obtain b c where ctx: "file_contexts (Some two_projects) scoped_fragments ''p/b.cs'' = Some b"
    "file_contexts (Some two_projects) scoped_fragments ''q/c.cs'' = Some c"
    using file_usings_in_scope [of scoped_fragments "''p/b.cs''" "snd (scoped_fragments ! 1)" "Some two_projects"]
      file_usings_in_scope [of scoped_fragments "''q/c.cs''" "snd (scoped_fragments ! 2)" "Some two_projects"]
    by (auto simp: scoped_fragments_def)
  show ?thesis
    using file_reach_exact [OF ctx(1) _ len] file_reach_exact [OF ctx(2) _ len]
    by (simp add: ctx decl two_projects_owners reach del: One_nat_def) (simp add: scoped_fragments_def)
qed

end
