(* ===== verification/Ladder.thy ===== *)
theory Ladder
  imports Scope "HOL-Library.Monad_Syntax"
begin

text \<open>
  The resolution ladder of the C# resolver (\<open>src/resolve/ladder.rs\<close>), with the inheritance walk
  (\<open>src/resolve/members.rs\<close>), the visibility of nested types (\<open>src/resolve/receiver.rs\<close>) and the
  arity-aware entry (\<open>src/resolve/arity.rs\<close>) it recurses through.

  The functions of the source are mutually recursive. Each is a definition that takes the
  recursive call as its argument \<open>rec\<close>; \<open>resolve_type_ref\<close> (the source's \<open>resolve_ref\<close>) ties the knot with fuel, and its answer is
  \<open>None\<close> when the fuel is spent, so that a call that does not return is told from one that
  answers \<open>Ref_External\<close>.
\<close>

section \<open>Resolutions\<close>

datatype via =
  Via_Alias | Via_Nested | Via_Qualified | Via_Usings | Via_Namespace | Via_Suffix | Via_Global

datatype ref_resolution = Ref_Resolved nat via | Ref_Ambiguous "nat list" via | Ref_External

type_synonym resolver = "frag_ref \<Rightarrow> file_usings \<Rightarrow> string \<Rightarrow> alias_map \<Rightarrow> ref_resolution option"

definition AMBIGUOUS_CAP :: nat where
  "AMBIGUOUS_CAP = 5"

section \<open>Admission\<close>

record admission =
  ad_model :: "project_model option"
  ad_unit_of_def :: "nat option list"

definition ad_admits :: "admission \<Rightarrow> nat option \<Rightarrow> nat \<Rightarrow> bool" where
  "ad_admits a site_unit cand =
     (case ad_model a of
        None \<Rightarrow> True
      | Some model \<Rightarrow>
          (case (site_unit, if cand < length (ad_unit_of_def a) then ad_unit_of_def a ! cand else None) of
             (Some site, Some c) \<Rightarrow>
               reachable model site c \<and> \<not> (u_test (pm_units model ! c) \<and> \<not> u_test (pm_units model ! site))
           | _ \<Rightarrow> True))"

definition narrow_by_reachability :: "ref_resolution \<Rightarrow> nat option \<Rightarrow> admission \<Rightarrow> ref_resolution" where
  "narrow_by_reachability res site_unit a =
     (case res of
        Ref_Ambiguous candidates v \<Rightarrow>
          (case filter (ad_admits a site_unit) candidates of
             [] \<Rightarrow> Ref_External
           | [i] \<Rightarrow> Ref_Resolved i v
           | cs \<Rightarrow> Ref_Ambiguous cs v)
      | _ \<Rightarrow> res)"

record narrowed =
  nw_res :: ref_resolution
  nw_narrowed_away :: bool

definition narrow_tracked :: "ref_resolution \<Rightarrow> nat option \<Rightarrow> admission \<Rightarrow> narrowed" where
  "narrow_tracked res site_unit a =
     (let was_ambiguous = (case res of Ref_Ambiguous _ _ \<Rightarrow> True | _ \<Rightarrow> False);
          narrow = narrow_by_reachability res site_unit a
      in \<lparr>nw_res = narrow, nw_narrowed_away = (was_ambiguous \<and> narrow = Ref_External)\<rparr>)"

definition extractor_vouches_instance :: "frag_ref \<Rightarrow> bool" where
  "extractor_vouches_instance r \<longleftrightarrow>
     fr_receiver_type r \<noteq> None \<or> fr_receiver_local r \<or> fr_receiver_property_owner r \<noteq> None
     \<or> fr_receiver_call_owner r \<noteq> None"

definition is_this_shaped_receiver :: "frag_ref \<Rightarrow> bool" where
  "is_this_shaped_receiver r =
     (case fr_receiver_type r of
        None \<Rightarrow> False
      | Some rt \<Rightarrow> fr_outer_types r \<noteq> [] \<and> rt = last (fr_outer_types r))"

definition type_qualifier_arm_admits :: "via \<Rightarrow> string \<Rightarrow> frag_ref \<Rightarrow> bool" where
  "type_qualifier_arm_admits v ident r \<longleftrightarrow>
     (v \<noteq> Via_Global \<or> CHR ''+'' \<in> set ident)
     \<and> (fr_receiver_type r = None \<or> is_this_shaped_receiver r)"

section \<open>Written paths\<close>

text \<open>\<open>s.split_once(c)\<close> and \<open>s.rsplit_once(c)\<close>.\<close>

definition split_once :: "char \<Rightarrow> string \<Rightarrow> (string \<times> string) option" where
  "split_once c s =
     (if c \<in> set s then Some (takeWhile (\<lambda>x. x \<noteq> c) s, tl (dropWhile (\<lambda>x. x \<noteq> c) s)) else None)"

definition rsplit_once :: "char \<Rightarrow> string \<Rightarrow> (string \<times> string) option" where
  "rsplit_once c s = map_option (\<lambda>i. (take i s, drop (i + 1) s)) (str_rfind s c)"

fun strip_angles :: "nat \<Rightarrow> string \<Rightarrow> string" where
  "strip_angles depth [] = []"
| "strip_angles depth (c # cs) =
     (if c = CHR ''<'' then strip_angles (depth + 1) cs
      else if c = CHR ''>'' then strip_angles (depth - 1) cs
      else if depth = 0 then c # strip_angles depth cs
      else strip_angles depth cs)"

definition written_type_path :: "string \<Rightarrow> string" where
  "written_type_path q =
     (let body = (case str_find q ''::'' of Some at \<Rightarrow> drop (at + 2) q | None \<Rightarrow> q)
      in if CHR ''<'' \<notin> set body then body else strip_angles 0 body)"

text \<open>The scan for the last group that opens at depth zero; \<open>None\<close> when a \<open>>\<close> has no opening.\<close>

fun angle_groups :: "nat \<Rightarrow> nat \<Rightarrow> nat option \<Rightarrow> string \<Rightarrow> (nat \<times> nat option) option" where
  "angle_groups i depth open_at [] = Some (depth, open_at)"
| "angle_groups i depth open_at (b # bs) =
     (if b = CHR ''<'' then angle_groups (i + 1) (depth + 1) (if depth = 0 then Some i else open_at) bs
      else if b = CHR ''>'' then
        (if depth = 0 then None else angle_groups (i + 1) (depth - 1) open_at bs)
      else angle_groups (i + 1) depth open_at bs)"

text \<open>The scan of the argument list; \<open>None\<close> for an unbalanced bracket or an empty argument.\<close>

fun argument_count :: "nat \<Rightarrow> nat \<Rightarrow> nat \<Rightarrow> nat \<Rightarrow> bool \<Rightarrow> string \<Rightarrow> nat option" where
  "argument_count angles parens squares n written [] =
     (if angles \<noteq> 0 \<or> parens \<noteq> 0 \<or> squares \<noteq> 0 \<or> \<not> written then None else Some n)"
| "argument_count angles parens squares n written (b # bs) =
     (if b = CHR ''<'' then argument_count (angles + 1) parens squares n written bs
      else if b = CHR ''>'' then
        (if angles = 0 then None else argument_count (angles - 1) parens squares n written bs)
      else if b = CHR ''('' then argument_count angles (parens + 1) squares n written bs
      else if b = CHR '')'' then
        (if parens = 0 then None else argument_count angles (parens - 1) squares n written bs)
      else if b = CHR ''['' then argument_count angles parens (squares + 1) n written bs
      else if b = CHR '']'' then
        (if squares = 0 then None else argument_count angles parens (squares - 1) n written bs)
      else if b = CHR '','' \<and> angles = 0 \<and> parens = 0 \<and> squares = 0 then
        (if \<not> written then None else argument_count angles parens squares (n + 1) False bs)
      else if b = CHR '' '' \<or> b = CHR 0x09 \<or> b = CHR 0x0D \<or> b = CHR 0x0A
        then argument_count angles parens squares n written bs
      else argument_count angles parens squares n True bs)"

definition final_type_argument_list :: "string \<Rightarrow> (string \<times> nat) option" where
  "final_type_argument_list q =
     (if q = [] \<or> last q \<noteq> CHR ''>'' then None
      else (case angle_groups 0 0 None q of
              None \<Rightarrow> None
            | Some (depth, open_at) \<Rightarrow>
                (if depth \<noteq> 0 then None
                 else (case open_at of
                         None \<Rightarrow> None
                       | Some i \<Rightarrow>
                           (let path = take i q
                            in if path = [] \<or> ends_with path ''.''
                                  \<or> list_ex (\<lambda>b. b \<in> set ''<>()[]:, '') path
                               then None
                               else map_option (Pair path)
                                 (argument_count 0 0 0 1 False (slice (i + 1) (length q - 1) q)))))))"

definition def_path_ends_with :: "string \<Rightarrow> string \<Rightarrow> bool" where
  "def_path_ends_with ident written =
     (if length ident < length written then False
      else (let hd_part = take (length ident - length written) ident;
                tl_part = drop (length ident - length written) ident
            in (hd_part = [] \<or> last hd_part = CHR ''.'' \<or> last hd_part = CHR ''+'')
               \<and> list_all (\<lambda>(a, b). a = b \<or> (a = CHR ''+'' \<and> b = CHR ''.'')) (zip tl_part written)))"

definition type_candidate :: "def_index \<Rightarrow> string \<Rightarrow> nat option \<Rightarrow> nat option" where
  "type_candidate index name arity =
     (case arity of Some n \<Rightarrow> di_qualified_arity index (name, n) | None \<Rightarrow> di_qualified index name)"

section \<open>The inheritance walk\<close>

definition resolve_ref_by_arity ::
  "resolver \<Rightarrow> def_index \<Rightarrow> frag_ref \<Rightarrow> nat option \<Rightarrow> file_usings \<Rightarrow> string \<Rightarrow> alias_map
   \<Rightarrow> ref_resolution option" where
  "resolve_ref_by_arity rec index probe arity usings ns aliases =
     (let full = or_default (fr_name probe) (aliases (fr_name probe));
          simple = (case rsplit_once CHR ''.'' full of Some (_, t) \<Rightarrow> t | None \<Rightarrow> full);
          shared = 2 \<le> length (or_default [] (di_simple index simple))
      in (case arity of
            None \<Rightarrow> rec probe usings ns aliases
          | Some n \<Rightarrow>
              (if \<not> shared then rec probe usings ns aliases
               else do {
                 exact \<leftarrow> rec (probe\<lparr>fr_type_arg_count := Some n\<rparr>) usings ns aliases;
                 if exact \<noteq> Ref_External then Some exact
                 else rec (probe\<lparr>fr_type_arg_count := None\<rparr>) usings ns aliases })))"

text \<open>One definition's bases: the unseen ones are pushed, the last pushed is popped first.\<close>

fun push_bases ::
  "resolver \<Rightarrow> def_index \<Rightarrow> file_context \<Rightarrow> nat \<Rightarrow> string list \<Rightarrow> nat set \<times> nat list
   \<Rightarrow> (nat set \<times> nat list) option" where
  "push_bases rec index ctx cur [] st = Some st"
| "push_bases rec index ctx cur (base # bases) st =
     do {
       res \<leftarrow> resolve_ref_by_arity rec index
         (name_probe base (d_namespace (di_defs index ! cur)) []) (Some (base_arity index cur base))
         (fc_usings ctx) (d_namespace (di_defs index ! cur)) (fc_aliases ctx);
       push_bases rec index ctx cur bases
         (case res of
            Ref_Resolved b _ \<Rightarrow> (if b \<in> fst st then st else (insert b (fst st), b # snd st))
          | _ \<Rightarrow> st) }"

text \<open>
  The loop over the stack. Every definition enters the stack at most once, so the number of
  definitions is enough fuel, which the walk's lemmas show.
\<close>

fun walk_loop ::
  "nat \<Rightarrow> resolver \<Rightarrow> def_index \<Rightarrow> (string \<Rightarrow> file_context option) \<Rightarrow> (nat \<Rightarrow> bool option)
   \<Rightarrow> nat set \<times> nat list \<Rightarrow> nat option option" where
  "walk_loop fuel rec index contexts matches (seen, []) = Some None"
| "walk_loop 0 rec index contexts matches (seen, cur # stack) = None"
| "walk_loop (Suc fuel) rec index contexts matches (seen, cur # stack) =
     do {
       found \<leftarrow> matches cur;
       if found then Some (Some cur)
       else (case contexts (d_file (di_defs index ! cur)) of
               None \<Rightarrow> walk_loop fuel rec index contexts matches (seen, stack)
             | Some ctx \<Rightarrow> do {
                 st \<leftarrow> push_bases rec index ctx cur (ml_bases (di_member_lists index ! cur)) (seen, stack);
                 walk_loop fuel rec index contexts matches st }) }"

definition inheritance_walk_find ::
  "resolver \<Rightarrow> def_index \<Rightarrow> (string \<Rightarrow> file_context option) \<Rightarrow> nat \<Rightarrow> (nat \<Rightarrow> bool option) \<Rightarrow> nat option option" where
  "inheritance_walk_find rec index contexts start matches =
     walk_loop (length (di_defs index)) rec index contexts matches ({start}, [start])"

definition inheritance_walk_matches ::
  "resolver \<Rightarrow> def_index \<Rightarrow> (string \<Rightarrow> file_context option) \<Rightarrow> nat \<Rightarrow> (nat \<Rightarrow> bool option) \<Rightarrow> bool option" where
  "inheritance_walk_matches rec index contexts start matches =
     map_option (\<lambda>res. res \<noteq> None) (inheritance_walk_find rec index contexts start matches)"

section \<open>Names in scope\<close>

definition ref_prefixes :: "string \<Rightarrow> string list" where
  "ref_prefixes ns =
     (let segments = (if ns = [] then [] else str_split CHR ''.'' ns)
      in map (\<lambda>i. str_join ''.'' (take i segments)) (rev [0..<Suc (length segments)]))"

definition under :: "string \<Rightarrow> string \<Rightarrow> string" where
  "under prefix name = (if prefix = [] then name else prefix @ ''.'' @ name)"

text \<open>The enclosing types of a reference, innermost chain first.\<close>

definition outer_chains :: "string \<Rightarrow> frag_ref \<Rightarrow> string list" where
  "outer_chains ns r =
     map (\<lambda>i. under ns (str_join ''+'' (take i (fr_outer_types r)))) (rev [1..<Suc (length (fr_outer_types r))])"

definition nested_candidate_visible_from_site ::
  "resolver \<Rightarrow> frag_ref \<Rightarrow> string \<Rightarrow> nat \<Rightarrow> def_index \<Rightarrow> (string \<Rightarrow> file_context option) \<Rightarrow> bool option" where
  "nested_candidate_visible_from_site rec r ns candidate index contexts =
     (case rsplit_once CHR ''+'' (d_id (di_defs index ! candidate)) of
        None \<Rightarrow> Some True
      | Some (enclosing_id, _) \<Rightarrow>
          (case di_qualified index enclosing_id of
             None \<Rightarrow> Some False
           | Some enclosing_candidate \<Rightarrow>
               (case first_some (di_qualified index) (outer_chains ns r) of
                  None \<Rightarrow> Some False
                | Some site_idx \<Rightarrow>
                    inheritance_walk_matches rec index contexts site_idx (\<lambda>i. Some (i = enclosing_candidate)))))"

fun filter_opt :: "('a \<Rightarrow> bool option) \<Rightarrow> 'a list \<Rightarrow> 'a list option" where
  "filter_opt P [] = Some []"
| "filter_opt P (x # xs) =
     do { b \<leftarrow> P x; rest \<leftarrow> filter_opt P xs; Some (if b then x # rest else rest) }"

definition imported_at_level :: "string list \<Rightarrow> string list \<Rightarrow> frag_ref \<Rightarrow> def_index \<Rightarrow> nat list" where
  "imported_at_level directives prefixes r index =
     fst (fold (\<lambda>u (ms, seen).
       case first_some (\<lambda>p. type_candidate index (under p (u @ ''.'' @ fr_name r)) (fr_type_arg_count r)) prefixes of
         None \<Rightarrow> (ms, seen)
       | Some i \<Rightarrow>
           if d_id (di_defs index ! i) \<in> seen then (ms, seen)
           else (ms @ [i], insert (d_id (di_defs index ! i)) seen)) directives ([], {}))"

text \<open>The definitions of a reference's simple name with its type-argument count.\<close>

definition name_pool :: "def_index \<Rightarrow> frag_ref \<Rightarrow> nat list" where
  "name_pool index r =
     filter (\<lambda>i. case fr_type_arg_count r of
         None \<Rightarrow> True | Some n \<Rightarrow> length (ml_type_params (di_member_lists index ! i)) = n)
       (or_default [] (di_simple index (fr_name r)))"

section \<open>The steps\<close>

text \<open>Steps 0 and 0b: the alias short-circuit and the enclosing type chain, bare names only.\<close>

definition bare_steps ::
  "def_index \<Rightarrow> frag_ref \<Rightarrow> string \<Rightarrow> alias_map \<Rightarrow> ref_resolution option" where
  "bare_steps index r ns aliases =
     (case aliases (fr_name r) of
        Some target \<Rightarrow>
          Some (case type_candidate index target (fr_type_arg_count r) of
                  Some i \<Rightarrow> Ref_Resolved i Via_Alias | None \<Rightarrow> Ref_External)
      | None \<Rightarrow>
          map_option (\<lambda>i. Ref_Resolved i Via_Nested)
            (first_some (\<lambda>chain. type_candidate index (chain @ ''+'' @ fr_name r) (fr_type_arg_count r))
              (outer_chains ns r)))"

text \<open>Steps 1 and 1a: the exact qualified name and the rewritten alias head.\<close>

definition exact_step :: "def_index \<Rightarrow> frag_ref \<Rightarrow> string list \<Rightarrow> string \<Rightarrow> nat option" where
  "exact_step index r prefixes q =
     (let arguments = final_type_argument_list q;
          stripped = (case arguments of Some (path, _) \<Rightarrow> path | None \<Rightarrow> q);
          arity = (case arguments of
                     Some (_, count) \<Rightarrow>
                       Some (case fr_type_arg_count r of Some n \<Rightarrow> if 1 \<le> n then n else count | None \<Rightarrow> count)
                   | None \<Rightarrow> fr_type_arg_count r)
      in first_some (\<lambda>p. type_candidate index (under p stripped) arity) prefixes)"

definition expand_alias_head :: "alias_map \<Rightarrow> string \<Rightarrow> string option" where
  "expand_alias_head aliases written =
     (case split_once CHR ''.'' written of
        None \<Rightarrow> None
      | Some (hd_seg, rest) \<Rightarrow> map_option (\<lambda>target. target @ ''.'' @ rest) (aliases hd_seg))"

definition alias_head_step :: "def_index \<Rightarrow> frag_ref \<Rightarrow> alias_map \<Rightarrow> string \<Rightarrow> nat option" where
  "alias_head_step index r aliases q =
     (case expand_alias_head aliases (written_type_path q) of
        None \<Rightarrow> None | Some expanded \<Rightarrow> type_candidate index expanded (fr_type_arg_count r))"

definition expanded_path :: "alias_map \<Rightarrow> string \<Rightarrow> string" where
  "expanded_path aliases q =
     or_default (written_type_path q) (expand_alias_head aliases (written_type_path q))"

text \<open>Step 1b: the dotted suffix, and a nested type named through a derived one.\<close>

definition qualifier_probe :: "frag_ref \<Rightarrow> string \<Rightarrow> string \<Rightarrow> frag_ref" where
  "qualifier_probe r ns qualifier =
     (let ht = (case rsplit_once CHR ''.'' qualifier of
                  Some (_, t) \<Rightarrow> (Some qualifier, t) | None \<Rightarrow> (None, qualifier))
      in (name_probe [] ns (fr_outer_types r))\<lparr>fr_name := snd ht, fr_qualified := fst ht\<rparr>)"

definition derived_matches ::
  "resolver \<Rightarrow> def_index \<Rightarrow> (string \<Rightarrow> file_context option) \<Rightarrow> nat list \<Rightarrow> nat \<Rightarrow> nat list option" where
  "derived_matches rec index contexts pool qidx =
     filter_opt (\<lambda>i.
       case rsplit_once CHR ''+'' (d_id (di_defs index ! i)) of
         None \<Rightarrow> Some False
       | Some (enclosing, _) \<Rightarrow>
           (case di_qualified index enclosing of
              None \<Rightarrow> Some False
            | Some e \<Rightarrow> inheritance_walk_matches rec index contexts qidx (\<lambda>j. Some (j = e)))) pool"

definition suffix_matches ::
  "resolver \<Rightarrow> frag_ref \<Rightarrow> file_usings \<Rightarrow> string \<Rightarrow> def_index \<Rightarrow> alias_map
   \<Rightarrow> (string \<Rightarrow> file_context option) \<Rightarrow> string \<Rightarrow> nat list option" where
  "suffix_matches rec r usings ns index aliases contexts q =
     (let written = expanded_path aliases q;
          pool = name_pool index r;
          matches = filter (\<lambda>i. def_path_ends_with (d_id (di_defs index ! i)) written) pool
      in if matches = [] \<and> list_ex (\<lambda>i. CHR ''+'' \<in> set (d_id (di_defs index ! i))) pool
         then (case rsplit_once CHR ''.'' written of
                 None \<Rightarrow> Some matches
               | Some (qualifier, _) \<Rightarrow> do {
                   res \<leftarrow> rec (qualifier_probe r ns qualifier) usings ns aliases;
                   (case res of
                      Ref_Resolved qidx _ \<Rightarrow> derived_matches rec index contexts pool qidx
                    | _ \<Rightarrow> Some matches) })
         else Some matches)"

definition one_or_many :: "via \<Rightarrow> nat list \<Rightarrow> ref_resolution option" where
  "one_or_many v is =
     (case is of [] \<Rightarrow> None | [i] \<Rightarrow> Some (Ref_Resolved i v) | _ \<Rightarrow> Some (Ref_Ambiguous is v))"

text \<open>Step 1.5: the qualifier walked through nested types, shortest head first.\<close>

fun walk_tail :: "def_index \<Rightarrow> nat option \<Rightarrow> nat \<Rightarrow> string list \<Rightarrow> nat option" where
  "walk_tail index arity cur [] = Some cur"
| "walk_tail index arity cur (seg # segs) =
     (case type_candidate index (d_id (di_defs index ! cur) @ ''+'' @ seg) (if segs = [] then arity else None) of
        Some nx \<Rightarrow> walk_tail index arity nx segs
      | None \<Rightarrow> None)"

definition head_of ::
  "resolver \<Rightarrow> frag_ref \<Rightarrow> file_usings \<Rightarrow> string \<Rightarrow> def_index \<Rightarrow> alias_map \<Rightarrow> string list
   \<Rightarrow> string list \<Rightarrow> nat \<Rightarrow> nat option option" where
  "head_of rec r usings ns index aliases prefixes segs k =
     (if k = 1 then do {
        res \<leftarrow> rec (r\<lparr>fr_name := segs ! 0, fr_qualified := None, fr_type_arg_count := None\<rparr>) usings ns aliases;
        Some (case res of Ref_Resolved i _ \<Rightarrow> Some i | _ \<Rightarrow> None) }
      else Some (first_some (\<lambda>p. type_candidate index (under p (str_join ''.'' (take k segs))) None) prefixes))"

fun try_heads ::
  "(nat \<Rightarrow> nat option option) \<Rightarrow> (nat \<Rightarrow> nat \<Rightarrow> nat option) \<Rightarrow> nat list \<Rightarrow> nat option option" where
  "try_heads hd_at tail_from [] = Some None"
| "try_heads hd_at tail_from (k # ks) =
     do {
       h \<leftarrow> hd_at k;
       (case h of
          None \<Rightarrow> try_heads hd_at tail_from ks
        | Some start \<Rightarrow>
            (case tail_from start k of
               Some i \<Rightarrow> Some (Some i)
             | None \<Rightarrow> try_heads hd_at tail_from ks)) }"

definition nested_walk ::
  "resolver \<Rightarrow> frag_ref \<Rightarrow> file_usings \<Rightarrow> string \<Rightarrow> def_index \<Rightarrow> alias_map \<Rightarrow> string list
   \<Rightarrow> string \<Rightarrow> nat option option" where
  "nested_walk rec r usings ns index aliases prefixes q =
     (let segs = str_split CHR ''.'' q
      in if extractor_vouches_instance r \<or> di_simple index (last segs) = None then Some None
         else try_heads (head_of rec r usings ns index aliases prefixes segs)
                (\<lambda>start k. walk_tail index (fr_type_arg_count r) start (drop k segs)) [1..<length segs])"

text \<open>Steps 2 and 3, one namespace level; step 4, the globally unique simple name.\<close>

definition level_step ::
  "frag_ref \<Rightarrow> file_usings \<Rightarrow> def_index \<Rightarrow> string list \<Rightarrow> string \<Rightarrow> ref_resolution option" where
  "level_step r usings index prefixes prefix =
     (case type_candidate index (under prefix (fr_name r)) (fr_type_arg_count r) of
        Some i \<Rightarrow>
          (if reaches usings i then Some (Ref_Resolved i Via_Namespace)
           else one_or_many Via_Usings
             (filter (reaches usings) (imported_at_level (at_level usings prefix) prefixes r index)))
      | None \<Rightarrow>
          one_or_many Via_Usings
            (filter (reaches usings) (imported_at_level (at_level usings prefix) prefixes r index)))"

definition unique_step ::
  "resolver \<Rightarrow> frag_ref \<Rightarrow> string \<Rightarrow> def_index \<Rightarrow> (string \<Rightarrow> file_context option) \<Rightarrow> ref_resolution option" where
  "unique_step rec r ns index contexts = do {
     matches \<leftarrow> filter_opt (\<lambda>i. nested_candidate_visible_from_site rec r ns i index contexts) (name_pool index r);
     Some (or_default Ref_External (one_or_many Via_Global matches)) }"

definition resolve_dotted ::
  "resolver \<Rightarrow> frag_ref \<Rightarrow> file_usings \<Rightarrow> string \<Rightarrow> def_index \<Rightarrow> alias_map
   \<Rightarrow> (string \<Rightarrow> file_context option) \<Rightarrow> string \<Rightarrow> ref_resolution option" where
  "resolve_dotted rec r usings ns index aliases contexts q =
     (case exact_step index r (ref_prefixes ns) q of
        Some i \<Rightarrow> Some (Ref_Resolved i Via_Qualified)
      | None \<Rightarrow>
          (case alias_head_step index r aliases q of
             Some i \<Rightarrow> Some (Ref_Resolved i Via_Qualified)
           | None \<Rightarrow> do {
               matches \<leftarrow> suffix_matches rec r usings ns index aliases contexts q;
               (case one_or_many Via_Suffix matches of
                  Some res \<Rightarrow> Some res
                | None \<Rightarrow> do {
                    nested \<leftarrow> nested_walk rec r usings ns index aliases (ref_prefixes ns) q;
                    Some (case nested of Some i \<Rightarrow> Ref_Resolved i Via_Qualified | None \<Rightarrow> Ref_External) }) }))"

definition resolve_bare ::
  "resolver \<Rightarrow> frag_ref \<Rightarrow> file_usings \<Rightarrow> string \<Rightarrow> def_index \<Rightarrow> alias_map
   \<Rightarrow> (string \<Rightarrow> file_context option) \<Rightarrow> ref_resolution option" where
  "resolve_bare rec r usings ns index aliases contexts =
     (case bare_steps index r ns aliases of
        Some res \<Rightarrow> Some res
      | None \<Rightarrow>
          (case first_some (level_step r usings index (ref_prefixes ns)) (ref_prefixes ns) of
             Some res \<Rightarrow> Some res
           | None \<Rightarrow> unique_step rec r ns index contexts))"

definition resolve_step ::
  "def_index \<Rightarrow> (string \<Rightarrow> file_context option) \<Rightarrow> resolver \<Rightarrow> resolver" where
  "resolve_step index contexts rec r usings ns aliases =
     (case fr_qualified r of
        Some q \<Rightarrow> resolve_dotted rec r usings ns index aliases contexts q
      | None \<Rightarrow> resolve_bare rec r usings ns index aliases contexts)"

fun resolve_type_ref :: "nat \<Rightarrow> def_index \<Rightarrow> (string \<Rightarrow> file_context option) \<Rightarrow> resolver" where
  "resolve_type_ref 0 index contexts r usings ns aliases = None"
| "resolve_type_ref (Suc fuel) index contexts r usings ns aliases =
     resolve_step index contexts (resolve_type_ref fuel index contexts) r usings ns aliases"

definition capped_candidates :: "def_index \<Rightarrow> nat list \<Rightarrow> candidate list" where
  "capped_candidates index is =
     map (\<lambda>i. \<lparr>cand_id = d_id (di_defs index ! i), cand_file = d_file (di_defs index ! i)\<rparr>)
       (take AMBIGUOUS_CAP (sort_key (\<lambda>i. d_id (di_defs index ! i)) is))"

section \<open>More fuel changes no answer\<close>

text \<open>The order of partial answers: the left side gives none, or the same as the right one.\<close>

definition opt_le :: "'a option \<Rightarrow> 'a option \<Rightarrow> bool" where
  "opt_le x y \<longleftrightarrow> x = None \<or> x = y"

definition rec_le :: "resolver \<Rightarrow> resolver \<Rightarrow> bool" where
  "rec_le rec rec' \<longleftrightarrow> (\<forall>r usings ns aliases. opt_le (rec r usings ns aliases) (rec' r usings ns aliases))"

named_theorems le_intros

lemma opt_le_refl [le_intros, simp]: "opt_le x x"
  by (simp add: opt_le_def)

lemma opt_le_bind [le_intros]:
  "opt_le x y \<Longrightarrow> (\<And>v. opt_le (f v) (g v)) \<Longrightarrow> opt_le (Option.bind x f) (Option.bind y g)"
  by (cases x; cases y) (auto simp: opt_le_def)

lemma opt_le_map [le_intros]: "opt_le x y \<Longrightarrow> opt_le (map_option f x) (map_option f y)"
  by (auto simp: opt_le_def)

lemma le_call: "rec_le rec rec' \<Longrightarrow> opt_le (rec r usings ns aliases) (rec' r usings ns aliases)"
  by (simp add: rec_le_def)

lemma le_by_arity [le_intros]:
  "rec_le rec rec' \<Longrightarrow>
   opt_le (resolve_ref_by_arity rec index probe arity usings ns aliases)
     (resolve_ref_by_arity rec' index probe arity usings ns aliases)"
  unfolding resolve_ref_by_arity_def Let_def
  by (auto split: option.splits intro!: le_intros le_call [where rec = rec and rec' = rec'])

lemma le_push_bases [le_intros]:
  "rec_le rec rec' \<Longrightarrow> opt_le (push_bases rec index ctx cur bases st) (push_bases rec' index ctx cur bases st)"
  by (induction bases arbitrary: st) (simp, simp only: push_bases.simps, blast intro: le_intros)

lemma le_walk_loop [le_intros]:
  "rec_le rec rec' \<Longrightarrow> (\<And>i. opt_le (matches i) (matches' i)) \<Longrightarrow>
   opt_le (walk_loop fuel rec index contexts matches st) (walk_loop fuel rec' index contexts matches' st)"
proof (induction fuel arbitrary: st)
  case 0
  then show ?case by (cases st; cases "snd st") auto
next
  case (Suc fuel)
  obtain seen stack where st: "st = (seen, stack)" by (cases st)
  show ?case
    using Suc by (cases stack) (auto simp: st split: option.splits intro!: le_intros)
qed

lemma le_walk_find [le_intros]:
  "rec_le rec rec' \<Longrightarrow> (\<And>i. opt_le (matches i) (matches' i)) \<Longrightarrow>
   opt_le (inheritance_walk_find rec index contexts start matches)
     (inheritance_walk_find rec' index contexts start matches')"
  unfolding inheritance_walk_find_def by (intro le_intros)

lemma le_walk_matches [le_intros]:
  "rec_le rec rec' \<Longrightarrow> (\<And>i. opt_le (matches i) (matches' i)) \<Longrightarrow>
   opt_le (inheritance_walk_matches rec index contexts start matches)
     (inheritance_walk_matches rec' index contexts start matches')"
  unfolding inheritance_walk_matches_def by (intro le_intros)

lemma le_nested_visible [le_intros]:
  "rec_le rec rec' \<Longrightarrow>
   opt_le (nested_candidate_visible_from_site rec r ns c index contexts)
     (nested_candidate_visible_from_site rec' r ns c index contexts)"
  unfolding nested_candidate_visible_from_site_def by (auto split: option.splits intro!: le_intros)

lemma le_filter_opt [le_intros]:
  "(\<And>x. opt_le (P x) (Q x)) \<Longrightarrow> opt_le (filter_opt P xs) (filter_opt Q xs)"
  by (induction xs) (auto intro!: le_intros)

lemma le_derived [le_intros]:
  "rec_le rec rec' \<Longrightarrow>
   opt_le (derived_matches rec index contexts pool q) (derived_matches rec' index contexts pool q)"
  unfolding derived_matches_def by (intro le_intros) (auto split: option.splits intro!: le_intros)

lemma le_suffix [le_intros]:
  "rec_le rec rec' \<Longrightarrow>
   opt_le (suffix_matches rec r usings ns index aliases contexts q)
     (suffix_matches rec' r usings ns index aliases contexts q)"
  unfolding suffix_matches_def Let_def
  by (auto split: option.splits ref_resolution.splits intro!: le_intros le_call [where rec = rec and rec' = rec'])

lemma le_head_of [le_intros]:
  "rec_le rec rec' \<Longrightarrow>
   opt_le (head_of rec r usings ns index aliases prefixes segs k)
     (head_of rec' r usings ns index aliases prefixes segs k)"
  unfolding head_of_def by (auto intro!: le_intros le_call [where rec = rec and rec' = rec'])

lemma le_try_heads [le_intros]:
  "(\<And>k. opt_le (f k) (g k)) \<Longrightarrow> opt_le (try_heads f t ks) (try_heads g t ks)"
  by (induction ks) (auto intro!: le_intros split: option.splits)

lemma le_nested_walk [le_intros]:
  "rec_le rec rec' \<Longrightarrow>
   opt_le (nested_walk rec r usings ns index aliases prefixes q)
     (nested_walk rec' r usings ns index aliases prefixes q)"
  unfolding nested_walk_def Let_def by (auto intro!: le_intros)

lemma le_unique [le_intros]:
  "rec_le rec rec' \<Longrightarrow> opt_le (unique_step rec r ns index contexts) (unique_step rec' r ns index contexts)"
  unfolding unique_step_def by (intro le_intros)

lemma le_resolve_step:
  "rec_le rec rec' \<Longrightarrow>
   opt_le (resolve_step index contexts rec r usings ns aliases) (resolve_step index contexts rec' r usings ns aliases)"
  unfolding resolve_step_def resolve_dotted_def resolve_bare_def
  by (auto split: option.splits intro!: le_intros)

lemma resolve_ref_le: "rec_le (resolve_type_ref n index contexts) (resolve_type_ref (n + m) index contexts)"
proof (induction n)
  case 0
  show ?case by (simp add: rec_le_def opt_le_def)
next
  case (Suc n)
  then show ?case by (simp add: rec_le_def) (simp add: le_resolve_step rec_le_def)
qed

lemma resolve_ref_mono:
  "resolve_type_ref n index contexts r usings ns aliases = Some res \<Longrightarrow> n \<le> m \<Longrightarrow>
   resolve_type_ref m index contexts r usings ns aliases = Some res"
proof -
  assume some: "resolve_type_ref n index contexts r usings ns aliases = Some res" and le: "n \<le> m"
  have "opt_le (resolve_type_ref n index contexts r usings ns aliases)
      (resolve_type_ref m index contexts r usings ns aliases)"
    using resolve_ref_le [of n index contexts "m - n"] le by (simp add: rec_le_def)
  with some show ?thesis by (simp add: opt_le_def)
qed

section \<open>The walk visits the inheritance closure\<close>

text \<open>
  What the walk needs of the call it recurses through: a bare probe of a base name, which carries
  no enclosing types, is answered, and by a definition of the index.
\<close>

definition base_probe :: "frag_ref \<Rightarrow> bool" where
  "base_probe r \<longleftrightarrow> fr_qualified r = None \<and> fr_outer_types r = []"

lemma name_probe_base: "base_probe (name_probe base ns [])"
  by (simp add: base_probe_def name_probe_def)

definition push_seen :: "nat option \<Rightarrow> nat set \<times> nat list \<Rightarrow> nat set \<times> nat list" where
  "push_seen a st =
     (case a of None \<Rightarrow> st | Some b \<Rightarrow> if b \<in> fst st then st else (insert b (fst st), b # snd st))"

lemma fold_push_seen:
  "\<exists>news. fold push_seen as (seen, stack) = (seen \<union> set news, news @ stack)
    \<and> distinct news \<and> set news \<inter> seen = {} \<and> seen \<union> set news = seen \<union> {b. Some b \<in> set as}"
proof (induction as arbitrary: seen stack)
  case (Cons a as)
  show ?case
  proof (cases "\<exists>b. a = Some b \<and> b \<notin> seen")
    case True
    then obtain b where b: "a = Some b" "b \<notin> seen" by blast
    obtain news where "fold push_seen as (insert b seen, b # stack) = (insert b seen \<union> set news, news @ b # stack)"
      "distinct news" "set news \<inter> insert b seen = {}"
      "insert b seen \<union> set news = insert b seen \<union> {b. Some b \<in> set as}"
      using Cons.IH [of "insert b seen" "b # stack"] by blast
    moreover have "push_seen a (seen, stack) = (insert b seen, b # stack)" using b by (simp add: push_seen_def)
    ultimately show ?thesis using b by (intro exI [of _ "news @ [b]"]) auto
  next
    case False
    then have "push_seen a (seen, stack) = (seen, stack)" by (cases a) (auto simp: push_seen_def)
    with Cons.IH [of seen stack] False show ?thesis by auto
  qed
qed simp

locale base_answers =
  fixes rec :: resolver and index :: def_index and contexts :: "string \<Rightarrow> file_context option"
  assumes answers: "base_probe r \<Longrightarrow> \<exists>res. rec r usings ns aliases = Some res"
    and in_index: "base_probe r \<Longrightarrow> rec r usings ns aliases = Some (Ref_Resolved i v) \<Longrightarrow> i < length (di_defs index)"
begin

lemma by_arity_answers:
  assumes "base_probe probe"
  shows "\<exists>res. resolve_ref_by_arity rec index probe arity usings ns aliases = Some res
    \<and> (\<forall>i v. res = Ref_Resolved i v \<longrightarrow> i < length (di_defs index))"
proof -
  have probes: "base_probe (probe\<lparr>fr_type_arg_count := t\<rparr>)" for t using assms by (simp add: base_probe_def)
  have call: "\<exists>res. rec r usings ns aliases = Some res \<and> (\<forall>i v. res = Ref_Resolved i v \<longrightarrow> i < length (di_defs index))"
    if "base_probe r" for r
    using answers [OF that, of usings ns aliases] in_index [OF that, of usings ns aliases] by metis
  obtain r1 where r1: "rec probe usings ns aliases = Some r1"
      "\<forall>i v. r1 = Ref_Resolved i v \<longrightarrow> i < length (di_defs index)"
    using call [OF assms] by blast
  obtain r2 where r2: "rec (probe\<lparr>fr_type_arg_count := None\<rparr>) usings ns aliases = Some r2"
      "\<forall>i v. r2 = Ref_Resolved i v \<longrightarrow> i < length (di_defs index)"
    using call [OF probes] by blast
  show ?thesis
  proof (cases arity)
    case None
    with r1 show ?thesis by (simp add: resolve_ref_by_arity_def Let_def)
  next
    case (Some n)
    obtain r3 where r3: "rec (probe\<lparr>fr_type_arg_count := Some n\<rparr>) usings ns aliases = Some r3"
        "\<forall>i v. r3 = Ref_Resolved i v \<longrightarrow> i < length (di_defs index)"
      using call [OF probes] by blast
    show ?thesis
      using r1 r2 r3 by (simp add: resolve_ref_by_arity_def Let_def Some)
  qed
qed

text \<open>The definition a base name of a definition resolves to, in the file that declares it.\<close>

definition base_of :: "nat \<Rightarrow> string \<Rightarrow> nat option" where
  "base_of cur base =
     Option.bind (contexts (d_file (di_defs index ! cur))) (\<lambda>ctx.
       case resolve_ref_by_arity rec index (name_probe base (d_namespace (di_defs index ! cur)) [])
              (Some (base_arity index cur base)) (fc_usings ctx) (d_namespace (di_defs index ! cur)) (fc_aliases ctx) of
         Some (Ref_Resolved b _) \<Rightarrow> Some b | _ \<Rightarrow> None)"

definition extends :: "(nat \<times> nat) set" where
  "extends = {(cur, b). \<exists>base \<in> set (ml_bases (di_member_lists index ! cur)). base_of cur base = Some b}"

lemma push_bases_fold:
  assumes "contexts (d_file (di_defs index ! cur)) = Some ctx"
  shows "push_bases rec index ctx cur bases st = Some (fold push_seen (map (base_of cur) bases) st)"
proof (induction bases arbitrary: st)
  case (Cons base bases)
  let ?ns = "d_namespace (di_defs index ! cur)"
  obtain res where res: "resolve_ref_by_arity rec index (name_probe base ?ns [])
      (Some (base_arity index cur base)) (fc_usings ctx) ?ns (fc_aliases ctx) = Some res"
    using by_arity_answers [OF name_probe_base] by blast
  show ?case
    using Cons.IH by (cases res) (simp_all add: res base_of_def assms push_seen_def)
qed simp

lemma base_of_in_index: "base_of cur base = Some b \<Longrightarrow> b < length (di_defs index)"
proof -
  assume b: "base_of cur base = Some b"
  then obtain ctx :: file_context and v where "resolve_ref_by_arity rec index
      (name_probe base (d_namespace (di_defs index ! cur)) []) (Some (base_arity index cur base))
      (fc_usings ctx) (d_namespace (di_defs index ! cur)) (fc_aliases ctx) = Some (Ref_Resolved b v)"
    by (fastforce simp: base_of_def split: Option.bind_splits option.splits ref_resolution.splits)
  with by_arity_answers [OF name_probe_base] show "b < length (di_defs index)"
    by (metis option.inject)
qed

lemma push_bases_ok:
  assumes "contexts (d_file (di_defs index ! cur)) = Some ctx" "distinct stack" "set stack \<subseteq> seen"
    "seen \<subseteq> {..<length (di_defs index)}"
  shows "\<exists>news. push_bases rec index ctx cur (ml_bases (di_member_lists index ! cur)) (seen, stack)
      = Some (seen \<union> set news, news @ stack)
    \<and> distinct (news @ stack) \<and> set news \<inter> seen = {}
    \<and> seen \<union> set news \<subseteq> {..<length (di_defs index)}
    \<and> seen \<union> set news = seen \<union> extends `` {cur}"
proof -
  let ?answers = "map (base_of cur) (ml_bases (di_member_lists index ! cur))"
  have ext: "{b. Some b \<in> set ?answers} = extends `` {cur}" by (auto simp: extends_def) (metis imageI)
  have range: "{b. Some b \<in> set ?answers} \<subseteq> {..<length (di_defs index)}"
    using base_of_in_index by (auto dest: sym)
  obtain news where "fold push_seen ?answers (seen, stack) = (seen \<union> set news, news @ stack)"
    "distinct news" "set news \<inter> seen = {}" "seen \<union> set news = seen \<union> {b. Some b \<in> set ?answers}"
    using fold_push_seen [of ?answers seen stack] by blast
  then have news: "push_bases rec index ctx cur (ml_bases (di_member_lists index ! cur)) (seen, stack)
      = Some (seen \<union> set news, news @ stack)" "distinct news" "set news \<inter> seen = {}"
      "seen \<union> set news = seen \<union> extends `` {cur}" "extends `` {cur} \<subseteq> {..<length (di_defs index)}"
    using range by (simp_all only: push_bases_fold [OF assms(1)] ext)
  moreover have "distinct (news @ stack)" using news(2,3) assms(2,3) by auto
  moreover have "seen \<union> set news \<subseteq> {..<length (di_defs index)}" using news(4,5) assms(4) by blast
  ultimately show ?thesis by blast
qed

text \<open>
  The loop's invariant: the stack is the unvisited rest of the seen definitions, everything seen
  is reachable, and the bases of everything visited are seen.
\<close>

lemma walk_loop_ok:
  assumes m: "\<And>i. i < length (di_defs index) \<Longrightarrow> matches i = Some (P i)"
    and "distinct stack" "set stack \<subseteq> seen" "seen \<subseteq> {..<length (di_defs index)}"
    and "length (di_defs index) - card seen + length stack \<le> fuel"
    and "seen \<subseteq> {b. (start, b) \<in> extends\<^sup>*}" "start \<in> seen"
    and "\<forall>c \<in> seen - set stack. \<not> P c \<and> extends `` {c} \<subseteq> seen"
  shows "\<exists>found. walk_loop fuel rec index contexts matches (seen, stack) = Some found
    \<and> (case found of Some i \<Rightarrow> P i \<and> (start, i) \<in> extends\<^sup>*
       | None \<Rightarrow> \<forall>i. (start, i) \<in> extends\<^sup>* \<longrightarrow> \<not> P i)"
  using assms(2-)
proof (induction fuel arbitrary: seen stack)
  case 0
  then have "stack = []" by simp
  with 0 have closed: "\<forall>c \<in> seen. \<not> P c \<and> extends `` {c} \<subseteq> seen" by simp
  have "i \<in> seen" if "(start, i) \<in> extends\<^sup>*" for i
    using that by (induction rule: rtrancl_induct) (use 0 closed in auto)
  with closed \<open>stack = []\<close> show ?case by auto
next
  case (Suc fuel)
  show ?case
  proof (cases stack)
    case Nil
    with Suc have closed: "\<forall>c \<in> seen. \<not> P c \<and> extends `` {c} \<subseteq> seen" by simp
    have "i \<in> seen" if "(start, i) \<in> extends\<^sup>*" for i
      using that by (induction rule: rtrancl_induct) (use Suc closed in auto)
    with closed Nil show ?thesis by auto
  next
    case (Cons cur rest)
    have cur: "(start, cur) \<in> extends\<^sup>*" using Suc.prems Cons by auto
    have hit [simp]: "matches cur = Some (P cur)" using Suc.prems(2,3) Cons by (intro m) auto
    show ?thesis
    proof (cases "P cur")
      case True
      with cur Cons show ?thesis by simp
    next
      case unmatched: False
      show ?thesis
      proof (cases "contexts (d_file (di_defs index ! cur))")
        case None
        then have none: "extends `` {cur} = {}" by (auto simp: extends_def base_of_def)
        have "\<exists>found. walk_loop fuel rec index contexts matches (seen, rest) = Some found
          \<and> (case found of Some i \<Rightarrow> P i \<and> (start, i) \<in> extends\<^sup>*
             | None \<Rightarrow> \<forall>i. (start, i) \<in> extends\<^sup>* \<longrightarrow> \<not> P i)"
          using Suc.prems Cons none unmatched by (intro Suc.IH) auto
        with Cons None unmatched show ?thesis by simp
      next
        case (Some ctx)
        let ?bases = "ml_bases (di_member_lists index ! cur)"
        have pre: "distinct rest" "set rest \<subseteq> seen" "seen \<subseteq> {..<length (di_defs index)}"
          using Suc.prems Cons by auto
        obtain seen' stack' news where push:
          "push_bases rec index ctx cur ?bases (seen, rest) = Some (seen', stack')" "stack' = news @ rest"
          "distinct stack'" "seen' = seen \<union> set news" "set news \<inter> seen = {}"
          "seen' \<subseteq> {..<length (di_defs index)}" "seen' = seen \<union> extends `` {cur}"
          using push_bases_ok [OF Some pre] by blast
        have fin: "finite seen" using pre(3) finite_subset by auto
        have card: "card seen' = card seen + length news"
          using push(3,4,5) fin by (simp add: push(2) card_Un_disjoint distinct_card Int_commute)
        have bound: "card seen' \<le> length (di_defs index)"
          using card_mono [OF _ push(6)] by simp
        have "\<exists>found. walk_loop fuel rec index contexts matches (seen', stack') = Some found
          \<and> (case found of Some i \<Rightarrow> P i \<and> (start, i) \<in> extends\<^sup>*
             | None \<Rightarrow> \<forall>i. (start, i) \<in> extends\<^sup>* \<longrightarrow> \<not> P i)"
        proof (rule Suc.IH)
          show "distinct stack'" by (rule push(3))
          show "set stack' \<subseteq> seen'" using push(2,4) Suc.prems(2) Cons by auto
          show "seen' \<subseteq> {..<length (di_defs index)}" by (rule push(6))
          show "length (di_defs index) - card seen' + length stack' \<le> fuel"
            using Suc.prems(4) card bound Cons by (simp add: push(2))
          show "seen' \<subseteq> {b. (start, b) \<in> extends\<^sup>*}"
            unfolding push(7) using Suc.prems(5) cur by (auto intro: rtrancl_into_rtrancl)
          show "start \<in> seen'" using Suc.prems(6) push(4) by simp
          show "\<forall>c \<in> seen' - set stack'. \<not> P c \<and> extends `` {c} \<subseteq> seen'"
          proof
            fix c assume c: "c \<in> seen' - set stack'"
            with push(2,4) have "c \<in> seen - set rest" by auto
            then show "\<not> P c \<and> extends `` {c} \<subseteq> seen'"
              unfolding push(7) using Suc.prems(7) Cons unmatched by (cases "c = cur") auto
          qed
        qed
        with Cons Some unmatched push(1) show ?thesis by simp
      qed
    qed
  qed
qed

lemma walk_find_ok:
  assumes "\<And>i. i < length (di_defs index) \<Longrightarrow> matches i = Some (P i)" and "start < length (di_defs index)"
  shows "\<exists>found. inheritance_walk_find rec index contexts start matches = Some found
    \<and> (case found of Some i \<Rightarrow> P i \<and> (start, i) \<in> extends\<^sup>*
       | None \<Rightarrow> \<forall>i. (start, i) \<in> extends\<^sup>* \<longrightarrow> \<not> P i)"
  unfolding inheritance_walk_find_def using assms by (intro walk_loop_ok) auto

lemma walk_matches_exact:
  "(\<And>i. i < length (di_defs index) \<Longrightarrow> matches i = Some (P i)) \<Longrightarrow> start < length (di_defs index) \<Longrightarrow>
   inheritance_walk_matches rec index contexts start matches = Some (\<exists>i. (start, i) \<in> extends\<^sup>* \<and> P i)"
  using walk_find_ok [of matches P start]
  by (auto simp: inheritance_walk_matches_def split: option.splits)

lemmas walk_matches_pure = walk_matches_exact [of "\<lambda>i. Some (P i)" P for P, OF refl]

end

section \<open>Answers are definitions of the index\<close>

definition lookups_ok :: "def_index \<Rightarrow> bool" where
  "lookups_ok index \<longleftrightarrow>
     (\<forall>k i. di_qualified_arity index k = Some i \<longrightarrow> i < length (di_defs index))
     \<and> (\<forall>q i. di_qualified index q = Some i \<longrightarrow> i < length (di_defs index))
     \<and> (\<forall>n. set (or_default [] (di_simple index n)) \<subseteq> {..<length (di_defs index)})"

lemma index_of_range: "index_of xs x = Some i \<Longrightarrow> i < length xs"
  by (auto simp: index_of_def find_Some_iff)

lemma built_lookups_ok: "lookups_ok (build_def_index fragments)"
  by (auto simp: lookups_ok_def built_index simple_pool_def dest!: index_of_range)

lemma type_candidate_range:
  "lookups_ok index \<Longrightarrow> type_candidate index name arity = Some i \<Longrightarrow> i < length (di_defs index)"
  by (cases arity) (auto simp: type_candidate_def lookups_ok_def)

lemma first_some_Some: "first_some f xs = Some y \<Longrightarrow> \<exists>x \<in> set xs. f x = Some y"
  by (induction xs) (auto split: option.splits)

lemma first_some_None: "first_some f xs = None \<longleftrightarrow> (\<forall>x \<in> set xs. f x = None)"
  by (induction xs) (auto split: option.splits)

lemma name_pool_range: "lookups_ok index \<Longrightarrow> i \<in> set (name_pool index r) \<Longrightarrow> i < length (di_defs index)"
  by (auto simp: name_pool_def lookups_ok_def)

lemma filter_opt_total:
  "(\<And>x. x \<in> set xs \<Longrightarrow> P x \<noteq> None) \<Longrightarrow> filter_opt P xs = Some (filter (\<lambda>x. P x = Some True) xs)"
proof (induction xs)
  case (Cons x xs)
  then have rest: "filter_opt P xs = Some (filter (\<lambda>x. P x = Some True) xs)" by simp
  obtain b where "P x = Some b" using Cons.prems [of x] by auto
  with rest show ?case by auto
qed simp

lemma filter_opt_Some: "filter_opt P xs = Some ys \<Longrightarrow> ys = filter (\<lambda>x. P x = Some True) xs"
  by (induction xs arbitrary: ys) (auto split: Option.bind_splits if_splits)

lemma imported_subset:
  assumes found: "\<And>name i. type_candidate index name (fr_type_arg_count r) = Some i \<Longrightarrow> i \<in> S"
  shows "set (imported_at_level directives prefixes r index) \<subseteq> S"
proof -
  have "set (fst (fold (\<lambda>u (ms, seen).
       case first_some (\<lambda>p. type_candidate index (under p (u @ ''.'' @ fr_name r)) (fr_type_arg_count r)) prefixes of
         None \<Rightarrow> (ms, seen)
       | Some i \<Rightarrow>
           if d_id (di_defs index ! i) \<in> seen then (ms, seen)
           else (ms @ [i], insert (d_id (di_defs index ! i)) seen)) us st))
    \<subseteq> set (fst st) \<union> S" for us st
  proof (induction us arbitrary: st)
    case (Cons u us)
    obtain ms seen where st: "st = (ms, seen)" by (cases st)
    show ?case
    proof (cases "first_some (\<lambda>p. type_candidate index (under p (u @ ''.'' @ fr_name r)) (fr_type_arg_count r)) prefixes")
      case None
      then show ?thesis using Cons.IH [of st] by (simp add: st)
    next
      case (Some i)
      then have "i \<in> S" using found by (auto dest: first_some_Some)
      then show ?thesis
        using Cons.IH [of st] Cons.IH [of "(ms @ [i], insert (d_id (di_defs index ! i)) seen)"] Some
        by (auto simp: st)
    qed
  qed simp
  from this [of directives "([], {})"] show ?thesis by (simp add: imported_at_level_def)
qed

lemma imported_range:
  "lookups_ok index \<Longrightarrow> set (imported_at_level directives prefixes r index) \<subseteq> {..<length (di_defs index)}"
  by (rule imported_subset) (simp add: type_candidate_range)

text \<open>The definitions an answer mentions.\<close>

fun answer_defs :: "ref_resolution \<Rightarrow> nat set" where
  "answer_defs (Ref_Resolved i _) = {i}"
| "answer_defs (Ref_Ambiguous is _) = set is"
| "answer_defs Ref_External = {}"

lemma one_or_many_defs: "one_or_many v is = Some res \<Longrightarrow> answer_defs res = set is"
  by (auto simp: one_or_many_def split: list.splits)

lemma level_step_range:
  "lookups_ok index \<Longrightarrow> level_step r usings index prefixes prefix = Some res \<Longrightarrow>
   answer_defs res \<subseteq> {..<length (di_defs index)}"
  using imported_range [of index "at_level usings prefix" prefixes r]
  by (auto simp: level_step_def dest!: one_or_many_defs type_candidate_range split: option.splits if_splits)

lemma bare_steps_range:
  "lookups_ok index \<Longrightarrow> bare_steps index r ns aliases = Some res \<Longrightarrow>
   answer_defs res \<subseteq> {..<length (di_defs index)}"
  by (auto simp: bare_steps_def dest!: first_some_Some type_candidate_range split: option.splits)

lemma unique_step_range:
  "lookups_ok index \<Longrightarrow> unique_step rec r ns index contexts = Some res \<Longrightarrow>
   answer_defs res \<subseteq> {..<length (di_defs index)}"
proof -
  assume ok: "lookups_ok index" and res: "unique_step rec r ns index contexts = Some res"
  then obtain ms where ms: "filter_opt (\<lambda>i. nested_candidate_visible_from_site rec r ns i index contexts)
      (name_pool index r) = Some ms" "res = or_default Ref_External (one_or_many Via_Global ms)"
    by (auto simp: unique_step_def split: Option.bind_splits)
  have "set ms \<subseteq> {..<length (di_defs index)}"
    using filter_opt_Some [OF ms(1)] name_pool_range [OF ok] by auto
  with ms(2) show ?thesis
    by (cases "one_or_many Via_Global ms") (auto dest: one_or_many_defs)
qed

lemma walk_tail_range:
  "lookups_ok index \<Longrightarrow> segs \<noteq> [] \<Longrightarrow> walk_tail index arity cur segs = Some i \<Longrightarrow> i < length (di_defs index)"
proof (induction segs arbitrary: cur)
  case (Cons seg segs)
  then show ?case
    by (cases "segs = []") (auto split: option.splits dest: type_candidate_range)
qed simp

lemma try_heads_Some:
  "try_heads hd_at tail_from ks = Some (Some i) \<Longrightarrow> \<exists>k \<in> set ks. \<exists>start. hd_at k = Some (Some start) \<and> tail_from start k = Some i"
  by (induction ks) (auto split: Option.bind_splits option.splits)

lemma nested_walk_range:
  "lookups_ok index \<Longrightarrow> nested_walk rec r usings ns index aliases prefixes q = Some (Some i) \<Longrightarrow>
   i < length (di_defs index)"
  by (auto simp: nested_walk_def Let_def split: if_splits dest!: try_heads_Some intro: walk_tail_range [rotated 2])

lemma derived_subset: "derived_matches rec index contexts pool q = Some ms \<Longrightarrow> set ms \<subseteq> set pool"
  unfolding derived_matches_def by (drule filter_opt_Some) auto

lemma suffix_subset:
  "suffix_matches rec r usings ns index aliases contexts q = Some ms \<Longrightarrow> set ms \<subseteq> set (name_pool index r)"
  unfolding suffix_matches_def Let_def
  by (auto split: if_splits option.splits Option.bind_splits ref_resolution.splits dest!: derived_subset)

lemma resolve_dotted_range:
  assumes ok: "lookups_ok index" and res: "resolve_dotted rec r usings ns index aliases contexts q = Some res"
  shows "answer_defs res \<subseteq> {..<length (di_defs index)}"
proof -
  have exact: "exact_step index r ps q = Some i \<Longrightarrow> i < length (di_defs index)" for i ps
    unfolding exact_step_def Let_def by (drule first_some_Some) (auto dest: type_candidate_range [OF ok])
  have head: "alias_head_step index r aliases q = Some i \<Longrightarrow> i < length (di_defs index)" for i
    by (auto simp: alias_head_step_def split: option.splits dest: type_candidate_range [OF ok])
  have pool: "suffix_matches rec r usings ns index aliases contexts q = Some ms \<Longrightarrow>
      set ms \<subseteq> {..<length (di_defs index)}" for ms
    using suffix_subset [of rec r usings ns index aliases contexts q ms] name_pool_range [OF ok] by blast
  show ?thesis
    using res unfolding resolve_dotted_def
    by (auto split: option.splits Option.bind_splits
        dest!: exact head nested_walk_range [OF ok] one_or_many_defs pool)
qed

lemma resolve_step_range:
  assumes "lookups_ok index" "resolve_step index contexts rec r usings ns aliases = Some res"
  shows "answer_defs res \<subseteq> {..<length (di_defs index)}"
  using assms
  by (auto simp: resolve_step_def resolve_bare_def split: option.splits
      dest: resolve_dotted_range bare_steps_range unique_step_range)
    (auto dest!: first_some_Some dest: level_step_range)

lemma resolve_type_ref_range:
  "lookups_ok index \<Longrightarrow> resolve_type_ref n index contexts r usings ns aliases = Some res \<Longrightarrow>
   answer_defs res \<subseteq> {..<length (di_defs index)}"
  by (cases n) (auto dest: resolve_step_range)

section \<open>Answers come\<close>

lemma no_outer_chains: "fr_outer_types r = [] \<Longrightarrow> outer_chains ns r = []"
  by (simp add: outer_chains_def)

lemma nested_visible_base:
  "fr_outer_types r = [] \<Longrightarrow> nested_candidate_visible_from_site rec r ns c index contexts \<noteq> None"
  by (auto simp: nested_candidate_visible_from_site_def no_outer_chains split: option.splits)

lemma base_probe_answered:
  "base_probe r \<Longrightarrow> \<exists>res. resolve_type_ref (Suc n) index contexts r usings ns aliases = Some res"
proof -
  assume r: "base_probe r"
  have "\<exists>res. unique_step rec r ns index contexts = Some res" for rec
    unfolding unique_step_def using r
    by (subst filter_opt_total) (auto simp: base_probe_def dest: nested_visible_base)
  with r show ?thesis
    by (auto simp: resolve_step_def resolve_bare_def base_probe_def split: option.splits)
qed

interpretation built: base_answers
  "resolve_type_ref (Suc fuel) (build_def_index fragments) contexts" "build_def_index fragments" contexts
  for fuel fragments contexts
proof
  fix r usings ns aliases i v
  show "base_probe r \<Longrightarrow>
      \<exists>res. resolve_type_ref (Suc fuel) (build_def_index fragments) contexts r usings ns aliases = Some res"
    by (rule base_probe_answered)
  assume "resolve_type_ref (Suc fuel) (build_def_index fragments) contexts r usings ns aliases = Some (Ref_Resolved i v)"
  from resolve_type_ref_range [OF built_lookups_ok this] show "i < length (di_defs (build_def_index fragments))"
    by simp
qed

abbreviation resolve_in :: "nat \<Rightarrow> (string \<times> fragment) list \<Rightarrow> (string \<Rightarrow> file_context option) \<Rightarrow> resolver" where
  "resolve_in n fragments contexts \<equiv> resolve_type_ref n (build_def_index fragments) contexts"

lemma nested_visible_answered:
  "nested_candidate_visible_from_site (resolve_in (Suc n) fragments contexts) r ns c
     (build_def_index fragments) contexts \<noteq> None"
proof -
  have "inheritance_walk_matches (resolve_in (Suc n) fragments contexts) (build_def_index fragments) contexts s (\<lambda>i. Some (P i)) \<noteq> None"
    if "first_some (di_qualified (build_def_index fragments)) chains = Some s" for s P chains
  proof -
    have "s < length (di_defs (build_def_index fragments))"
      using that built_lookups_ok [of fragments] by (auto simp: lookups_ok_def dest!: first_some_Some)
    then show ?thesis by (simp add: built.walk_matches_pure)
  qed
  then show ?thesis by (auto simp: nested_candidate_visible_from_site_def split: option.splits)
qed

lemma bare_answered:
  "fr_qualified r = None \<Longrightarrow> resolve_in (Suc (Suc n)) fragments contexts r usings ns aliases \<noteq> None"
proof -
  assume bare: "fr_qualified r = None"
  have "unique_step (resolve_in (Suc n) fragments contexts) r ns (build_def_index fragments) contexts \<noteq> None"
    unfolding unique_step_def
    by (subst filter_opt_total) (simp_all add: nested_visible_answered [simplified])
  with bare show ?thesis
    by (auto simp: resolve_step_def resolve_bare_def simp del: resolve_type_ref.simps(2) [of "n"] split: option.splits)
qed

lemma derived_answered:
  "q < length (di_defs (build_def_index fragments)) \<Longrightarrow>
   derived_matches (resolve_in (Suc n) fragments contexts) (build_def_index fragments) contexts pool q \<noteq> None"
  unfolding derived_matches_def
  by (subst filter_opt_total) (auto simp: built.walk_matches_pure split: option.splits)

section \<open>When dotted names return\<close>

text \<open>
  A path is settled when the recursion cannot rewrite it again: it has neither an alias qualifier
  nor type arguments left and its first segment is not an alias.
\<close>

definition head_segment :: "string \<Rightarrow> string" where
  "head_segment p = takeWhile (\<lambda>c. c \<noteq> CHR ''.'') p"

definition settled :: "alias_map \<Rightarrow> string \<Rightarrow> bool" where
  "settled aliases p \<longleftrightarrow> CHR '':'' \<notin> set p \<and> CHR ''<'' \<notin> set p \<and> aliases (head_segment p) = None"

lemma str_find_char: "str_find h (c # n) = Some i \<Longrightarrow> c \<in> set h"
proof -
  assume hit: "str_find h (c # n) = Some i"
  from str_find_hit [OF this] have "c \<in> set (take (Suc (length n)) (drop i h))"
    by (metis length_Cons list.set_intros(1))
  then show "c \<in> set h" by (meson in_set_dropD in_set_takeD)
qed

lemma written_plain: "CHR '':'' \<notin> set p \<Longrightarrow> CHR ''<'' \<notin> set p \<Longrightarrow> written_type_path p = p"
  using str_find_char [of p "CHR '':''" "'':''"]
  by (cases "str_find p ''::''") (auto simp: written_type_path_def)

lemma settled_expanded: "settled aliases p \<Longrightarrow> expanded_path aliases p = p"
  by (auto simp: settled_def expanded_path_def written_plain expand_alias_head_def split_once_def
      head_segment_def or_default_def split: option.splits)

lemma rsplit_once_Some:
  "rsplit_once c s = Some (a, b) \<Longrightarrow> s = a @ c # b \<and> c \<notin> set b"
proof -
  assume "rsplit_once c s = Some (a, b)"
  then obtain i where i: "str_rfind s c = Some i" "a = take i s" "b = drop (Suc i) s"
    by (auto simp: rsplit_once_def)
  from str_rfind_Some [OF i(1)] have "i < length s" "s ! i = c" "c \<notin> set (drop (Suc i) s)" by auto
  with i(2,3) show ?thesis by (metis id_take_nth_drop)
qed

lemma rsplit_once_None: "rsplit_once c s = None \<longleftrightarrow> c \<notin> set s"
  by (simp add: rsplit_once_def str_rfind_None)

lemma head_of_qualifier: "rsplit_once CHR ''.'' p = Some (q, t) \<Longrightarrow> CHR ''.'' \<in> set q \<Longrightarrow> head_segment q = head_segment p"
  by (drule rsplit_once_Some) (auto simp: head_segment_def takeWhile_append1)

lemma qualifier_settled:
  "settled aliases p \<Longrightarrow> rsplit_once CHR ''.'' p = Some (q, t) \<Longrightarrow> CHR ''.'' \<in> set q \<Longrightarrow>
   settled aliases q \<and> length q < length p"
  using head_of_qualifier [of p q t] by (auto dest!: rsplit_once_Some simp: settled_def)

lemma probe_fields:
  "fr_qualified (qualifier_probe r ns q) = (if CHR ''.'' \<in> set q then Some q else None)"
  by (cases "rsplit_once CHR ''.'' q")
    (auto simp: qualifier_probe_def Let_def name_probe_def rsplit_once_None [THEN iffD2]
        dest: rsplit_once_Some rsplit_once_None [THEN iffD1])

lemma try_heads_total: "(\<And>k. f k \<noteq> None) \<Longrightarrow> try_heads f t ks \<noteq> None"
proof (induction ks)
  case (Cons k ks)
  obtain h where "f k = Some h" using Cons.prems [of k] by auto
  with Cons show ?case by (auto split: option.splits)
qed simp

lemma dotted_answered:
  assumes "\<And>q' t. rsplit_once CHR ''.'' (expanded_path aliases q) = Some (q', t) \<Longrightarrow>
      resolve_in (Suc (Suc n)) fragments contexts (qualifier_probe r ns q') usings ns aliases \<noteq> None"
  shows "resolve_dotted (resolve_in (Suc (Suc n)) fragments contexts) r usings ns
      (build_def_index fragments) aliases contexts q \<noteq> None"
proof -
  let ?index = "build_def_index fragments" and ?rec = "resolve_in (Suc (Suc n)) fragments contexts"
  have suffix: "suffix_matches ?rec r usings ns ?index aliases contexts q \<noteq> None"
  proof (cases "rsplit_once CHR ''.'' (expanded_path aliases q)")
    case None
    then show ?thesis by (simp add: suffix_matches_def Let_def)
  next
    case (Some p)
    obtain q' t where p: "p = (q', t)" by (cases p)
    obtain res where res: "?rec (qualifier_probe r ns q') usings ns aliases = Some res"
      using assms [OF Some [unfolded p]] by blast
    have "derived_matches ?rec ?index contexts pool i \<noteq> None" if "res = Ref_Resolved i v" for i v pool
      using resolve_type_ref_range [OF built_lookups_ok res] that by (intro derived_answered) simp
    then show ?thesis
      using res by (auto simp: suffix_matches_def Let_def Some p split: ref_resolution.splits)
  qed
  have head: "head_of ?rec r usings ns ?index aliases prefixes segs k \<noteq> None" for prefixes segs k
    using bare_answered [of "r\<lparr>fr_name := segs ! 0, fr_qualified := None, fr_type_arg_count := None\<rparr>" n
        fragments contexts usings ns aliases]
    unfolding head_of_def by auto
  have heads: "try_heads (head_of ?rec r usings ns ?index aliases prefixes segs) t ks \<noteq> None"
    for prefixes segs t ks
    by (rule try_heads_total) (rule head)
  have nested: "nested_walk ?rec r usings ns ?index aliases prefixes q \<noteq> None" for prefixes
    using heads unfolding nested_walk_def Let_def by auto
  obtain ms where "suffix_matches ?rec r usings ns ?index aliases contexts q = Some ms" using suffix by blast
  moreover obtain found where "nested_walk ?rec r usings ns ?index aliases (ref_prefixes ns) q = Some found"
    using nested by blast
  ultimately show ?thesis unfolding resolve_dotted_def by (simp split: option.splits)
qed

lemma settled_answered:
  "settled aliases q \<Longrightarrow> fr_qualified r = Some q \<Longrightarrow> length q + 2 \<le> n \<Longrightarrow>
   resolve_in (Suc n) fragments contexts r usings ns aliases \<noteq> None"
proof (induction "length q" arbitrary: q r n rule: less_induct)
  case less
  obtain m where m: "n = Suc (Suc m)" using less.prems(3) by (metis add_2_eq_Suc' le_Suc_ex add_Suc)
  have "resolve_in (Suc (Suc m)) fragments contexts (qualifier_probe r ns q') usings ns aliases \<noteq> None"
    if "rsplit_once CHR ''.'' (expanded_path aliases q) = Some (q', t)" for q' t
  proof (cases "CHR ''.'' \<in> set q'")
    case True
    have split: "rsplit_once CHR ''.'' q = Some (q', t)"
      using that settled_expanded [OF less.prems(1)] by simp
    from qualifier_settled [OF less.prems(1) split True]
    show ?thesis using less.prems(3) True m by (intro less.hyps [of q']) (auto simp: probe_fields)
  next
    case False
    then show ?thesis by (intro bare_answered) (simp add: probe_fields)
  qed
  from dotted_answered [OF this] show ?case
    using less.prems(2) by (simp add: m resolve_step_def)
qed

text \<open>
  C17. Resolving returns: a bare name within two levels of recursion, and a dotted name whose path,
  once its leading alias is replaced, is settled, within a depth bounded by the path's length; and
  the answer is the same for every larger depth, and names only definitions of the index.
\<close>

theorem resolve_returns:
  assumes "case fr_qualified r of None \<Rightarrow> True | Some q \<Rightarrow> settled aliases (expanded_path aliases q)"
  shows "\<exists>res. (\<forall>n \<ge> (case fr_qualified r of None \<Rightarrow> 2 | Some q \<Rightarrow> length (expanded_path aliases q) + 4).
        resolve_in n fragments contexts r usings ns aliases = Some res)
      \<and> answer_defs res \<subseteq> {..<length (di_defs (build_def_index fragments))}"
proof -
  let ?bound = "case fr_qualified r of None \<Rightarrow> 2 | Some q \<Rightarrow> length (expanded_path aliases q) + 4"
  have "resolve_in ?bound fragments contexts r usings ns aliases \<noteq> None"
  proof (cases "fr_qualified r")
    case None
    then show ?thesis using bare_answered [OF None, of 0] by (simp add: numeral_2_eq_2)
  next
    case (Some q)
    let ?w = "expanded_path aliases q"
    have w: "settled aliases ?w" using assms Some by simp
    have "resolve_in (Suc (Suc (length ?w + 1))) fragments contexts (qualifier_probe r ns q') usings ns aliases \<noteq> None"
      if "rsplit_once CHR ''.'' ?w = Some (q', t)" for q' t
    proof (cases "CHR ''.'' \<in> set q'")
      case True
      from qualifier_settled [OF w that True]
      show ?thesis using True by (intro settled_answered [of aliases q']) (auto simp: probe_fields)
    next
      case False
      then show ?thesis by (intro bare_answered) (simp add: probe_fields)
    qed
    from dotted_answered [OF this] show ?thesis
      using Some by (simp add: resolve_step_def eval_nat_numeral)
  qed
  then obtain res where res: "resolve_in ?bound fragments contexts r usings ns aliases = Some res" by blast
  have "\<forall>n \<ge> ?bound. resolve_in n fragments contexts r usings ns aliases = Some res"
    using resolve_ref_mono [OF res] by blast
  with resolve_type_ref_range [OF built_lookups_ok res] show ?thesis by blast
qed

section \<open>An alias into its own namespace\<close>

text \<open>
  One file that declares a nested type \<open>X+B\<close> and the alias \<open>using A = A.B;\<close>, which C# allows: the
  alias target is read without the alias.
\<close>

definition self_alias_file :: fragment where
  "self_alias_file =
     defs_and_usings [sample_def ''X'' ''X'' 1 [], sample_def ''X+B'' ''B'' 2 []] [Using_Alias ''A'' ''A.B'' False]"

definition self_alias_fragments :: "(string \<times> fragment) list" where
  "self_alias_fragments = [(''a.cs'', self_alias_file)]"

lemma self_alias_keys: "part_keys (fragment_parts self_alias_fragments) = [(''X'', 0), (''X+B'', 0)]"
  by (simp add: part_keys_def fragment_parts_def self_alias_fragments_def self_alias_file_def def_key_def sample_def_def)

lemma self_alias_qualified: "di_qualified (build_def_index self_alias_fragments) = index_of [''X'', ''X+B'']"
  by (simp add: built_index(4) self_alias_keys)

lemma self_alias_defs:
  "di_defs (build_def_index self_alias_fragments) =
     [first_def ''a.cs'' (sample_def ''X'' ''X'' 1 []), first_def ''a.cs'' (sample_def ''X+B'' ''B'' 2 [])]"
  by (simp add: built_index(1) grouped_defs_def self_alias_keys)
    (simp add: parts_of_def fragment_parts_def self_alias_fragments_def self_alias_file_def def_key_def sample_def_def)

lemma self_alias_simple: "or_default [] (di_simple (build_def_index self_alias_fragments) ''B'') = [1]"
  unfolding built_index(5) using self_alias_defs
  by (simp add: built_index(1) simple_pool_def first_def_def sample_def_def)

lemma self_alias_context:
  "map_option fc_aliases (file_contexts None self_alias_fragments ''a.cs'') = Some [''A'' \<mapsto> ''A.B'']"
  by (simp add: file_contexts_def Let_def attach_reach_def build_file_contexts_def self_alias_fragments_def
      file_context_of_def self_alias_file_def local_using_def context_seed_def
      collect_global_usings_by_unit_def collect_using_def no_globals_def fun_eq_iff)

text \<open>The reference \<open>A.B\<close>: a dotted name without type arguments.\<close>

definition dotted_ref :: "string \<Rightarrow> string \<Rightarrow> frag_ref" where
  "dotted_ref q name = (name_probe name [] [])\<lparr>fr_qualified := Some q\<rparr>"

lemma str_find_none: "c \<notin> set h \<Longrightarrow> str_find h (c # n) = None"
  using str_find_char [of h c n] by (cases "str_find h (c # n)") auto

lemma self_alias_paths:
  "expand_alias_head [''A'' \<mapsto> ''A.B''] (written_type_path ''A.B'') = Some ''A.B.B''"
  "final_type_argument_list ''A.B'' = None"
  "rsplit_once CHR ''.'' ''A.B.B'' = Some (''A.B'', ''B'')"
  by (simp_all add: written_plain expand_alias_head_def split_once_def final_type_argument_list_def
      rsplit_once_def)

lemma self_alias_step:
  assumes "fr_qualified r = Some ''A.B''" "fr_name r = ''B''" "fr_type_arg_count r = None" "fr_outer_types r = []"
    and stuck: "\<And>r. fr_qualified r = Some ''A.B'' \<Longrightarrow> fr_name r = ''B'' \<Longrightarrow> fr_type_arg_count r = None \<Longrightarrow>
        fr_outer_types r = [] \<Longrightarrow> rec r usings [] [''A'' \<mapsto> ''A.B''] = None"
  shows "resolve_step (build_def_index self_alias_fragments) contexts rec r usings [] [''A'' \<mapsto> ''A.B''] = None"
proof -
  let ?index = "build_def_index self_alias_fragments"
  have lookups: "type_candidate ?index ''A.B'' None = None" "type_candidate ?index ''A.B.B'' None = None"
    by (simp_all add: type_candidate_def self_alias_qualified index_of_None)
  have exact: "exact_step ?index r (ref_prefixes []) ''A.B'' = None"
    using assms(3) lookups(1) by (simp add: exact_step_def self_alias_paths ref_prefixes_def under_def Let_def)
  have head: "alias_head_step ?index r [''A'' \<mapsto> ''A.B''] ''A.B'' = None"
    using assms(3) lookups(2) by (simp add: alias_head_step_def self_alias_paths)
  have pool: "name_pool ?index r = [1]"
    using assms(2,3) self_alias_simple by (simp add: name_pool_def)
  have probe: "rec (qualifier_probe r [] ''A.B'') usings [] [''A'' \<mapsto> ''A.B''] = None"
    using assms(4)
    by (intro stuck) (simp_all add: qualifier_probe_def Let_def rsplit_once_def name_probe_def)
  have "suffix_matches rec r usings [] ?index [''A'' \<mapsto> ''A.B''] contexts ''A.B'' = None"
    using probe
    by (simp add: suffix_matches_def Let_def expanded_path_def self_alias_paths pool self_alias_defs
        first_def_def sample_def_def def_path_ends_with_def)
  then show ?thesis
    using assms(1) by (simp add: resolve_step_def resolve_dotted_def exact head)
qed

text \<open>
  C22. Resolving does not always return: on a file with \<open>using A = A.B;\<close>, the reference \<open>A.B\<close>
  recurses into itself at every depth when some nested type is called \<open>B\<close>, whatever the other
  files hold.
\<close>

theorem self_alias_never_returns:
  "resolve_in n self_alias_fragments (file_contexts None self_alias_fragments) (dotted_ref ''A.B'' ''B'')
     usings [] (or_default (\<lambda>_. None)
       (map_option fc_aliases (file_contexts None self_alias_fragments ''a.cs''))) = None"
proof -
  have "fr_qualified r = Some ''A.B'' \<Longrightarrow> fr_name r = ''B'' \<Longrightarrow> fr_type_arg_count r = None \<Longrightarrow>
      fr_outer_types r = [] \<Longrightarrow>
      resolve_in n self_alias_fragments contexts r usings [] [''A'' \<mapsto> ''A.B''] = None" for r contexts
  proof (induction n arbitrary: r)
    case (Suc n)
    show ?case
      unfolding resolve_type_ref.simps by (rule self_alias_step [where rec = "resolve_in n self_alias_fragments contexts", OF Suc.prems])
        (rule Suc.IH)
  qed simp
  then show ?thesis
    unfolding self_alias_context by (simp add: dotted_ref_def name_probe_def)
qed

section \<open>A name that returns\<close>

theorem resolve_returns_witness:
  "\<exists>res. (\<forall>n \<ge> 7. resolve_in n self_alias_fragments (file_contexts None self_alias_fragments)
        (dotted_ref ''C.B'' ''B'') fu_default [] [''A'' \<mapsto> ''A.B''] = Some res)
     \<and> answer_defs res \<subseteq> {..<length (di_defs (build_def_index self_alias_fragments))}"
proof -
  have w: "expanded_path [''A'' \<mapsto> ''A.B''] ''C.B'' = ''C.B''"
    by (simp add: expanded_path_def written_plain expand_alias_head_def split_once_def)
  have "settled [''A'' \<mapsto> ''A.B''] ''C.B''"
    by (simp add: settled_def head_segment_def)
  then show ?thesis
    using resolve_returns [where r = "dotted_ref ''C.B'' ''B''" and aliases = "[''A'' \<mapsto> ''A.B'']"
        and fragments = self_alias_fragments and contexts = "file_contexts None self_alias_fragments"
        and usings = fu_default and ns = "[]"]
    by (simp add: dotted_ref_def name_probe_def w)
qed

end
