(* ===== verification/LadderFacts.thy ===== *)
theory LadderFacts
  imports Ladder
begin

text \<open>
  What the answers of the resolution ladder certify: the arity that was written, real ambiguities,
  the dotted-suffix step, the inheritance closure, and the reading of written type-argument lists.
\<close>

section \<open>What an answer certifies\<close>

definition has_arity :: "def_index \<Rightarrow> nat \<Rightarrow> nat \<Rightarrow> bool" where
  "has_arity index n i \<longleftrightarrow> length (ml_type_params (di_member_lists index ! i)) = n"

definition arity_lookups_ok :: "def_index \<Rightarrow> bool" where
  "arity_lookups_ok index \<longleftrightarrow> (\<forall>q n i. di_qualified_arity index (q, n) = Some i \<longrightarrow> has_arity index n i)"

lemma built_arity_ok: "arity_lookups_ok (build_def_index fragments)"
proof -
  have "has_arity (build_def_index fragments) n i"
    if "di_qualified_arity (build_def_index fragments) (q, n) = Some i" for q n i
  proof -
    from that have i: "i < length (part_keys (fragment_parts fragments))"
      "part_keys (fragment_parts fragments) ! i = (q, n)"
      by (simp_all add: built_index(3) index_of_Some part_keys_distinct)
    then show ?thesis by (simp add: has_arity_def built_index(2) grouped_type_params)
  qed
  then show ?thesis by (simp add: arity_lookups_ok_def)
qed

lemma type_candidate_arity:
  "arity_lookups_ok index \<Longrightarrow> type_candidate index name (Some n) = Some i \<Longrightarrow> has_arity index n i"
  by (simp add: type_candidate_def arity_lookups_ok_def)

lemma name_pool_arity: "fr_type_arg_count r = Some n \<Longrightarrow> i \<in> set (name_pool index r) \<Longrightarrow> has_arity index n i"
  by (simp add: name_pool_def has_arity_def)

lemma level_step_all:
  assumes "\<And>name i. type_candidate index name (fr_type_arg_count r) = Some i \<Longrightarrow> P i"
  shows "level_step r usings index prefixes prefix = Some res \<Longrightarrow> \<forall>i \<in> answer_defs res. P i \<and> reaches usings i"
proof -
  have "set (imported_at_level (at_level usings prefix) prefixes r index) \<subseteq> {i. P i}"
    by (rule imported_subset) (simp add: assms)
  then show "level_step r usings index prefixes prefix = Some res \<Longrightarrow> \<forall>i \<in> answer_defs res. P i \<and> reaches usings i"
    by (auto simp: level_step_def dest!: one_or_many_defs dest: assms split: option.splits if_splits)
qed

lemma unique_step_pool:
  "unique_step rec r ns index contexts = Some res \<Longrightarrow> answer_defs res \<subseteq> set (name_pool index r)"
  by (auto simp: unique_step_def split: Option.bind_splits dest!: filter_opt_Some)
    (metis (no_types, lifting) answer_defs.simps(3) emptyE filter_is_subset in_mono one_or_many_defs
      or_default_simps not_Some_eq)

lemma walk_tail_arity:
  "arity_lookups_ok index \<Longrightarrow> segs \<noteq> [] \<Longrightarrow> walk_tail index (Some n) cur segs = Some i \<Longrightarrow> has_arity index n i"
proof (induction segs arbitrary: cur)
  case (Cons seg segs)
  then show ?case by (cases "segs = []") (auto split: option.splits dest: type_candidate_arity)
qed simp

lemma resolve_step_arity:
  assumes ok: "arity_lookups_ok index" and n: "fr_type_arg_count r = Some n"
    and some: "1 \<le> n \<or> fr_qualified r = None"
    and res: "resolve_step index contexts rec r usings ns aliases = Some res"
  shows "\<forall>i \<in> answer_defs res. has_arity index n i"
proof (cases "fr_qualified r")
  case None
  have bare: "bare_steps index r ns aliases = Some res \<Longrightarrow> \<forall>i \<in> answer_defs res. has_arity index n i"
    by (auto simp: bare_steps_def n dest!: first_some_Some dest: type_candidate_arity [OF ok] split: option.splits)
  have level: "first_some (level_step r usings index (ref_prefixes ns)) (ref_prefixes ns) = Some res \<Longrightarrow>
      \<forall>i \<in> answer_defs res. has_arity index n i"
    using level_step_all [of index r "has_arity index n"] type_candidate_arity [OF ok]
    by (fastforce simp: n dest!: first_some_Some)
  have unique: "unique_step rec r ns index contexts = Some res \<Longrightarrow> \<forall>i \<in> answer_defs res. has_arity index n i"
    using unique_step_pool name_pool_arity [OF n] by blast
  show ?thesis
    using res None bare level unique
    by (auto simp: resolve_step_def resolve_bare_def split: option.splits)
next
  case (Some q)
  with some have pos: "1 \<le> n" by simp
  have exact: "exact_step index r ps q = Some i \<Longrightarrow> has_arity index n i" for ps i
    using pos unfolding exact_step_def Let_def
    by (drule_tac first_some_Some) (auto simp: n dest: type_candidate_arity [OF ok] split: option.splits)
  have head: "alias_head_step index r aliases q = Some i \<Longrightarrow> has_arity index n i" for i
    by (auto simp: alias_head_step_def n split: option.splits dest: type_candidate_arity [OF ok])
  have pool: "suffix_matches rec r usings ns index aliases contexts q = Some ms \<Longrightarrow>
      \<forall>i \<in> set ms. has_arity index n i" for ms
    using suffix_subset [of rec r usings ns index aliases contexts q ms] name_pool_arity [OF n] by blast
  have nested: "nested_walk rec r usings ns index aliases ps q = Some (Some i) \<Longrightarrow> has_arity index n i" for ps i
    by (auto simp: nested_walk_def Let_def n split: if_splits dest!: try_heads_Some
        intro: walk_tail_arity [OF ok, rotated])
  show ?thesis
    using res Some unfolding resolve_step_def resolve_dotted_def
    by (auto split: option.splits Option.bind_splits dest: exact head nested dest!: one_or_many_defs pool)
qed

text \<open>
  A reference written with type arguments is only ever answered by definitions with exactly
  that many type parameters; so is a bare one written without any, when that was recorded.
\<close>

theorem answers_have_written_arity:
  assumes "resolve_in fuel fragments contexts r usings ns aliases = Some res"
    and "fr_type_arg_count r = Some n" and "1 \<le> n \<or> fr_qualified r = None"
  shows "answer_defs res \<subseteq> {i. has_arity (build_def_index fragments) n i}"
  using assms resolve_step_arity [OF built_arity_ok]
  by (cases fuel) auto

definition two_boxes :: "(string \<times> fragment) list" where
  "two_boxes =
     [(''a.cs'', defs_and_usings [sample_def ''N.Box'' ''Box'' 1 [], (sample_def ''N.Box'' ''Box'' 2 [])\<lparr>fd_type_params := [''T'']\<rparr>] [])]"

lemma two_boxes_keys: "part_keys (fragment_parts two_boxes) = [(''N.Box'', 0), (''N.Box'', 1)]"
  by (simp add: part_keys_def fragment_parts_def two_boxes_def def_key_def sample_def_def)

theorem answers_have_written_arity_witness:
  "resolve_in 2 two_boxes (\<lambda>_. None) ((name_probe ''Box'' ''N'' [])\<lparr>fr_type_arg_count := Some 1\<rparr>) fu_default ''N'' (\<lambda>_. None)
     = Some (Ref_Resolved 1 Via_Namespace)
   \<and> has_arity (build_def_index two_boxes) 1 1"
proof -
  let ?r = "(name_probe ''Box'' ''N'' [])\<lparr>fr_type_arg_count := Some 1\<rparr>"
  have "type_candidate (build_def_index two_boxes) ''N.Box'' (Some 1) = Some 1"
    by (simp add: type_candidate_def built_index(3) two_boxes_keys index_of_Some)
  then have res: "resolve_in 2 two_boxes (\<lambda>_. None) ?r fu_default ''N'' (\<lambda>_. None) = Some (Ref_Resolved 1 Via_Namespace)"
    by (simp add: numeral_2_eq_2 resolve_step_def resolve_bare_def name_probe_def bare_steps_def outer_chains_def
        ref_prefixes_def level_step_def under_def reaches_def fu_default_def)
  have "fr_type_arg_count ?r = Some 1" "1 \<le> (1 :: nat) \<or> fr_qualified ?r = None"
    by simp_all
  from answers_have_written_arity [OF res this] res show ?thesis by simp
qed

section \<open>Ambiguities\<close>

lemma imported_distinct: "distinct (imported_at_level directives prefixes r index)"
proof -
  have "distinct (fst st) \<and> (\<lambda>i. d_id (di_defs index ! i)) ` set (fst st) \<subseteq> snd st \<Longrightarrow>
    distinct (fst (fold (\<lambda>u (ms, seen).
       case first_some (\<lambda>p. type_candidate index (under p (u @ ''.'' @ fr_name r)) (fr_type_arg_count r)) prefixes of
         None \<Rightarrow> (ms, seen)
       | Some i \<Rightarrow>
           if d_id (di_defs index ! i) \<in> seen then (ms, seen)
           else (ms @ [i], insert (d_id (di_defs index ! i)) seen)) us st))" for us st
  proof (induction us arbitrary: st)
    case (Cons u us)
    obtain ms seen where st: "st = (ms, seen)" by (cases st)
    show ?case
    proof (cases "first_some (\<lambda>p. type_candidate index (under p (u @ ''.'' @ fr_name r)) (fr_type_arg_count r)) prefixes")
      case None
      then show ?thesis using Cons.IH [OF Cons.prems] by (simp add: st)
    next
      case (Some i)
      show ?thesis
      proof (cases "d_id (di_defs index ! i) \<in> seen")
        case True
        then show ?thesis using Cons.IH [OF Cons.prems] Some by (simp add: st)
      next
        case False
        with Cons.prems have "distinct (ms @ [i])"
          "(\<lambda>i. d_id (di_defs index ! i)) ` set (ms @ [i]) \<subseteq> insert (d_id (di_defs index ! i)) seen"
          by (auto simp: st)
        then have "distinct (fst (ms @ [i], insert (d_id (di_defs index ! i)) seen))
          \<and> (\<lambda>i. d_id (di_defs index ! i)) ` set (fst (ms @ [i], insert (d_id (di_defs index ! i)) seen))
            \<subseteq> snd (ms @ [i], insert (d_id (di_defs index ! i)) seen)" by simp
        from Cons.IH [OF this] Some False show ?thesis by (simp add: st)
      qed
    qed
  qed simp
  moreover have "distinct (fst ([] :: nat list, {} :: string set))
    \<and> (\<lambda>i. d_id (di_defs index ! i)) ` set (fst ([] :: nat list, {} :: string set)) \<subseteq> snd ([] :: nat list, {} :: string set)"
    by simp
  ultimately show ?thesis unfolding imported_at_level_def by blast
qed

definition real_ambiguity :: "ref_resolution \<Rightarrow> bool" where
  "real_ambiguity res =
     (case res of
        Ref_Ambiguous is v \<Rightarrow> distinct is \<and> 2 \<le> length is \<and> v \<in> {Via_Suffix, Via_Usings, Via_Global}
      | _ \<Rightarrow> True)"

lemma one_or_many_real:
  "one_or_many v is = Some res \<Longrightarrow> distinct is \<Longrightarrow> v \<in> {Via_Suffix, Via_Usings, Via_Global} \<Longrightarrow> real_ambiguity res"
  by (auto simp: one_or_many_def real_ambiguity_def split: list.splits)

lemma real_trivial [simp]: "real_ambiguity (Ref_Resolved i v)" "real_ambiguity Ref_External"
  by (simp_all add: real_ambiguity_def)

lemma name_pool_distinct: "distinct (name_pool (build_def_index fragments) r)"
  by (simp add: name_pool_def built_index(5) simple_pool_def)

lemma level_step_real: "level_step r usings index prefixes prefix = Some res \<Longrightarrow> real_ambiguity res"
  by (auto simp: level_step_def split: option.splits if_splits
      dest!: one_or_many_real intro: distinct_filter imported_distinct)

lemma filter_opt_distinct: "filter_opt P xs = Some ys \<Longrightarrow> distinct xs \<Longrightarrow> distinct ys"
  by (drule filter_opt_Some) simp

lemma suffix_distinct:
  "suffix_matches rec r usings ns (build_def_index fragments) aliases contexts q = Some ms \<Longrightarrow> distinct ms"
  unfolding suffix_matches_def Let_def derived_matches_def
  by (auto split: if_splits option.splits Option.bind_splits ref_resolution.splits
      simp: name_pool_distinct dest!: filter_opt_distinct [OF _ name_pool_distinct])

lemma resolve_step_real:
  assumes "resolve_step (build_def_index fragments) contexts rec r usings ns aliases = Some res"
  shows "real_ambiguity res"
proof -
  have bare: "bare_steps index r ns aliases = Some res \<Longrightarrow> real_ambiguity res" for index
    by (auto simp: bare_steps_def split: option.splits)
  have unique: "unique_step rec r ns (build_def_index fragments) contexts = Some res \<Longrightarrow> real_ambiguity res"
  proof -
    assume "unique_step rec r ns (build_def_index fragments) contexts = Some res"
    then obtain ms where "distinct ms" "res = or_default Ref_External (one_or_many Via_Global ms)"
      by (auto simp: unique_step_def split: Option.bind_splits dest: filter_opt_distinct [OF _ name_pool_distinct])
    then show "real_ambiguity res"
      by (cases "one_or_many Via_Global ms") (auto dest: one_or_many_real)
  qed
  show ?thesis
    using assms
    unfolding resolve_step_def resolve_bare_def resolve_dotted_def
    by (auto split: option.splits Option.bind_splits
        dest: bare unique first_some_Some level_step_real one_or_many_real [OF _ suffix_distinct])
qed

text \<open>
  An ambiguity lists at least two different definitions and comes from the dotted-suffix, the
  usings or the unique-name step; without a project model narrowing leaves every answer as it is
  and never reports a candidate narrowed away.
\<close>

theorem ambiguity_is_real:
  assumes "resolve_in fuel fragments contexts r usings ns aliases = Some res"
  shows "real_ambiguity res
    \<and> narrow_tracked res site_unit \<lparr>ad_model = None, ad_unit_of_def = units\<rparr>
      = \<lparr>nw_res = res, nw_narrowed_away = False\<rparr>"
proof -
  have real: "real_ambiguity res"
    using assms by (cases fuel) (auto dest: resolve_step_real)
  have "narrow_by_reachability res site_unit \<lparr>ad_model = None, ad_unit_of_def = units\<rparr> = res"
    using real
    by (auto simp: narrow_by_reachability_def real_ambiguity_def ad_admits_def split: ref_resolution.splits list.splits)
  with real show ?thesis by (auto simp: narrow_tracked_def Let_def)
qed

definition two_names :: "(string \<times> fragment) list" where
  "two_names =
     [(''a.cs'', defs_and_usings [sample_def ''P.T'' ''T'' 1 [], sample_def ''Q.T'' ''T'' 2 []] [])]"

lemma two_names_keys: "part_keys (fragment_parts two_names) = [(''P.T'', 0), (''Q.T'', 0)]"
  by (simp add: part_keys_def fragment_parts_def two_names_def def_key_def sample_def_def)

lemma two_names_index:
  "di_qualified (build_def_index two_names) = index_of [''P.T'', ''Q.T'']"
  "di_defs (build_def_index two_names) = [first_def ''a.cs'' (sample_def ''P.T'' ''T'' 1 []), first_def ''a.cs'' (sample_def ''Q.T'' ''T'' 2 [])]"
proof -
  note keys = two_names_keys
  show "di_qualified (build_def_index two_names) = index_of [''P.T'', ''Q.T'']"
    by (simp add: built_index(4) keys)
  show "di_defs (build_def_index two_names) = [first_def ''a.cs'' (sample_def ''P.T'' ''T'' 1 []), first_def ''a.cs'' (sample_def ''Q.T'' ''T'' 2 [])]"
    by (simp add: built_index(1) grouped_defs_def keys)
      (simp add: parts_of_def fragment_parts_def two_names_def def_key_def sample_def_def)
qed

lemma two_names_ambiguous:
  "resolve_in 2 two_names contexts (name_probe ''T'' [] []) fu_default [] (\<lambda>_. None)
   = Some (Ref_Ambiguous [0, 1] Via_Global)"
proof -
  let ?index = "build_def_index two_names" and ?r = "name_probe ''T'' [] []"
  have pool: "name_pool ?index ?r = [0, 1]"
    using two_names_index(2)
    by (simp add: name_pool_def built_index(5) simple_pool_def name_probe_def)
      (simp add: built_index(1) first_def_def sample_def_def two_names_keys upt_rec)
  have plain: "rsplit_once CHR ''+'' (d_id (di_defs ?index ! i)) = None" if "i \<in> {0, 1}" for i
    using that by (auto simp: two_names_index rsplit_once_None first_def_def sample_def_def)
  have visible: "nested_candidate_visible_from_site rec ?r [] i ?index contexts = Some True" if "i \<in> {0, 1}" for i rec
    using plain [OF that] by (simp add: nested_candidate_visible_from_site_def)
  have "type_candidate ?index ''T'' None = None"
    by (simp add: type_candidate_def two_names_index index_of_None)
  then show ?thesis
    using visible [of 0] visible [of 1]
    by (simp add: numeral_2_eq_2 resolve_step_def resolve_bare_def bare_steps_def name_probe_def outer_chains_def
        ref_prefixes_def level_step_def under_def fu_default_def at_level_def imported_at_level_def
        one_or_many_def unique_step_def pool [unfolded name_probe_def])
qed

theorem ambiguity_is_real_witness:
  "real_ambiguity (Ref_Ambiguous [0, 1] Via_Global)
   \<and> narrow_tracked (Ref_Ambiguous [0, 1] Via_Global) (Some 0) \<lparr>ad_model = None, ad_unit_of_def = []\<rparr>
      = \<lparr>nw_res = Ref_Ambiguous [0, 1] Via_Global, nw_narrowed_away = False\<rparr>"
  by (rule ambiguity_is_real [OF two_names_ambiguous [of "\<lambda>_. None"]])

section \<open>The dotted suffix\<close>

text \<open>A definition's path: its identifier with \<open>+\<close> read as a dot.\<close>

definition dotted_path :: "string \<Rightarrow> string" where
  "dotted_path ident = map (\<lambda>c. if c = CHR ''+'' then CHR ''.'' else c) ident"

lemma zip_dots:
  "CHR ''+'' \<notin> set w \<Longrightarrow> length t = length w \<Longrightarrow>
   list_all (\<lambda>(a, b). a = b \<or> (a = CHR ''+'' \<and> b = CHR ''.'')) (zip t w) \<longleftrightarrow> dotted_path t = w"
proof (induction t w rule: list_induct2')
  case (4 x xs y ys)
  then show ?case by (auto simp: dotted_path_def)
qed (auto simp: dotted_path_def)

text \<open>
  The suffix test, which compares bytes in place, is the test on the path: a definition's
  identifier, with \<open>+\<close> read as a dot, is the written path or ends with it after a dot.
\<close>

theorem def_path_suffix_exact:
  assumes "CHR ''+'' \<notin> set written"
  shows "def_path_ends_with ident written \<longleftrightarrow>
    dotted_path ident = written \<or> ends_with (dotted_path ident) (''.'' @ written)"
proof -
  let ?n = "length ident - length written"
  have len [simp]: "length (dotted_path s) = length s" for s by (simp add: dotted_path_def)
  have drop: "dotted_path (drop k s) = drop k (dotted_path s)" for k s by (simp add: dotted_path_def drop_map)
  have dot: "last (take ?n ident) = CHR ''.'' \<or> last (take ?n ident) = CHR ''+'' \<longleftrightarrow> dotted_path ident ! (?n - 1) = CHR ''.''"
    if "0 < ?n"
  proof -
    have "last (take ?n ident) = ident ! (?n - 1)" using that by (subst last_conv_nth) auto
    with that show ?thesis by (auto simp: dotted_path_def)
  qed
  show ?thesis
  proof (cases "length written \<le> length ident")
    case False
    then have "dotted_path ident \<noteq> written" by (metis len le_refl)
    with False show ?thesis by (auto simp: def_path_ends_with_def ends_with_def)
  next
    case True
    then have tail: "list_all (\<lambda>(a, b). a = b \<or> (a = CHR ''+'' \<and> b = CHR ''.'')) (zip (drop ?n ident) written)
        \<longleftrightarrow> drop ?n (dotted_path ident) = written"
      using zip_dots [OF assms, of "drop ?n ident"] by (simp add: drop)
    show ?thesis
    proof (cases "?n = 0")
      case True
      then have "length ident = length written" using \<open>length written \<le> length ident\<close> by simp
      with tail show ?thesis by (auto simp: def_path_ends_with_def Let_def ends_with_def)
    next
      case False
      then obtain m where m: "?n = Suc m" by (cases ?n) auto
      then have lens: "m < length ident" "length ident - Suc (length written) = m" "length written = length ident - Suc m"
        using True by auto
      have cut: "drop m (dotted_path ident) = dotted_path ident ! m # drop ?n (dotted_path ident)"
        using Cons_nth_drop_Suc [of m "dotted_path ident"] lens(1) by (simp add: m)
      have ends: "ends_with (dotted_path ident) (''.'' @ written) \<longleftrightarrow> drop m (dotted_path ident) = CHR ''.'' # written"
        using lens by (auto simp: ends_with_def)
      have "def_path_ends_with ident written \<longleftrightarrow>
          dotted_path ident ! m = CHR ''.'' \<and> drop ?n (dotted_path ident) = written"
        using True lens dot tail by (auto simp: def_path_ends_with_def Let_def m)
      moreover have "dotted_path ident \<noteq> written" using False by (metis len diff_self_eq_0)
      ultimately show ?thesis using cut ends by auto
    qed
  qed
qed

theorem def_path_suffix_exact_witness:
  "def_path_ends_with ''App.Outer+Inner'' ''Outer.Inner'' \<and> \<not> def_path_ends_with ''App.Outer+Inner'' ''ter.Inner''"
  using def_path_suffix_exact [of "''Outer.Inner''" "''App.Outer+Inner''"]
    def_path_suffix_exact [of "''ter.Inner''" "''App.Outer+Inner''"]
  by (simp add: dotted_path_def ends_with_def)

section \<open>Inheritance\<close>

declare resolve_type_ref.simps(2) [simp del]

text \<open>
  The declared bases of the index: a definition extends what its base names resolve to, in the
  context of the file that declares it, at any depth of recursion.
\<close>

definition inheritance :: "(string \<times> fragment) list \<Rightarrow> (string \<Rightarrow> file_context option) \<Rightarrow> (nat \<times> nat) set" where
  "inheritance fragments contexts =
     base_answers.extends (resolve_in 1 fragments contexts) (build_def_index fragments) contexts"

lemma base_probe_depth:
  "base_probe r \<Longrightarrow>
   resolve_in (Suc n) fragments contexts r usings ns aliases = resolve_in 1 fragments contexts r usings ns aliases"
proof -
  assume "base_probe r"
  from base_probe_answered [OF this, of 0] obtain res where
    "resolve_in (Suc 0) fragments contexts r usings ns aliases = Some res" by blast
  from resolve_ref_mono [OF this, of "Suc n"] this show ?thesis by (simp only: One_nat_def)
qed

lemma base_arity_depth:
  assumes "base_probe probe"
  shows "resolve_ref_by_arity (resolve_in (Suc n) fragments contexts) index probe arity usings ns aliases
    = resolve_ref_by_arity (resolve_in 1 fragments contexts) index probe arity usings ns aliases"
proof -
  have "base_probe (probe\<lparr>fr_type_arg_count := t\<rparr>)" for t using assms by (simp add: base_probe_def)
  note depths = base_probe_depth [OF this] base_probe_depth [OF assms]
  show ?thesis unfolding resolve_ref_by_arity_def Let_def depths ..
qed

lemma extends_depth:
  "base_answers.extends (resolve_in (Suc n) fragments contexts) (build_def_index fragments) contexts
   = inheritance fragments contexts"
proof -
  note one = built.extends_def [of 0, folded One_nat_def] built.base_of_def [of 0, folded One_nat_def]
  show ?thesis
    unfolding inheritance_def built.extends_def built.base_of_def one base_arity_depth [OF name_probe_base] ..
qed

lemma walk_is_inheritance:
  "start < length (di_defs (build_def_index fragments)) \<Longrightarrow>
   inheritance_walk_matches (resolve_in (Suc n) fragments contexts) (build_def_index fragments) contexts start (\<lambda>i. Some (P i))
   = Some (\<exists>i. (start, i) \<in> (inheritance fragments contexts)\<^sup>* \<and> P i)"
  by (simp add: built.walk_matches_pure extends_depth)

text \<open>The definition that encloses a nested one.\<close>

definition encloser :: "def_index \<Rightarrow> nat \<Rightarrow> nat option" where
  "encloser index i =
     (case rsplit_once CHR ''+'' (d_id (di_defs index ! i)) of
        None \<Rightarrow> None | Some (enclosing, _) \<Rightarrow> di_qualified index enclosing)"

definition nested_in_bases :: "(string \<times> fragment) list \<Rightarrow> (string \<Rightarrow> file_context option) \<Rightarrow> nat \<Rightarrow> nat \<Rightarrow> bool" where
  "nested_in_bases fragments contexts start i \<longleftrightarrow>
     (\<exists>e. encloser (build_def_index fragments) i = Some e \<and> (start, e) \<in> (inheritance fragments contexts)\<^sup>*)"

lemma derived_exact:
  assumes "q < length (di_defs (build_def_index fragments))"
  shows "derived_matches (resolve_in (Suc n) fragments contexts) (build_def_index fragments) contexts pool q =
    Some (filter (nested_in_bases fragments contexts q) pool)"
proof -
  have "(case rsplit_once CHR ''+'' (d_id (di_defs (build_def_index fragments) ! i)) of
         None \<Rightarrow> Some False
       | Some (enclosing, _) \<Rightarrow>
           (case di_qualified (build_def_index fragments) enclosing of
              None \<Rightarrow> Some False
            | Some e \<Rightarrow> inheritance_walk_matches (resolve_in (Suc n) fragments contexts)
                 (build_def_index fragments) contexts q (\<lambda>j. Some (j = e))))
      = Some (nested_in_bases fragments contexts q i)" for i
    by (auto simp: nested_in_bases_def encloser_def walk_is_inheritance [OF assms] split: option.splits)
  then show ?thesis unfolding derived_matches_def by (subst filter_opt_total) auto
qed

text \<open>The type the qualifier of a dotted name resolves to.\<close>

definition qualifier_type ::
  "nat \<Rightarrow> (string \<times> fragment) list \<Rightarrow> (string \<Rightarrow> file_context option) \<Rightarrow> frag_ref \<Rightarrow> file_usings \<Rightarrow> string
   \<Rightarrow> alias_map \<Rightarrow> string \<Rightarrow> nat option" where
  "qualifier_type n fragments contexts r usings ns aliases q =
     (case rsplit_once CHR ''.'' (expanded_path aliases q) of
        None \<Rightarrow> None
      | Some (qualifier, _) \<Rightarrow>
          (case resolve_in n fragments contexts (qualifier_probe r ns qualifier) usings ns aliases of
             Some (Ref_Resolved start _) \<Rightarrow> Some start | _ \<Rightarrow> None))"

text \<open>
  C2. The dotted-suffix step binds a dotted name only to a definition whose path ends with the
  written path, or to a nested type whose enclosing type is in the inheritance closure of the type
  the qualifier resolves to. The bare-name steps never answer a dotted name.
\<close>

theorem dotted_names_certified:
  assumes "resolve_in (Suc (Suc n)) fragments contexts r usings ns aliases = Some res"
    and "fr_qualified r = Some q"
  shows "(\<exists>i. res = Ref_Resolved i Via_Qualified) \<or> res = Ref_External
    \<or> (res = Ref_Ambiguous (sorted_list_of_set (answer_defs res)) Via_Suffix \<or> (\<exists>i. res = Ref_Resolved i Via_Suffix))
      \<and> answer_defs res \<subseteq> {i. def_path_ends_with (d_id (di_defs (build_def_index fragments) ! i)) (expanded_path aliases q)
          \<or> (\<exists>start. qualifier_type (Suc n) fragments contexts r usings ns aliases q = Some start
                \<and> nested_in_bases fragments contexts start i)}"
proof -
  let ?index = "build_def_index fragments" and ?rec = "resolve_in (Suc n) fragments contexts"
  let ?ok = "{i. def_path_ends_with (d_id (di_defs ?index ! i)) (expanded_path aliases q)
      \<or> (\<exists>start. qualifier_type (Suc n) fragments contexts r usings ns aliases q = Some start
                \<and> nested_in_bases fragments contexts start i)}"
  have pool: "set ms \<subseteq> ?ok \<and> sorted ms \<and> distinct ms"
    if ms: "suffix_matches ?rec r usings ns ?index aliases contexts q = Some ms" for ms
  proof -
    have order: "sorted (name_pool ?index r)" "distinct (name_pool ?index r)"
      by (simp_all add: name_pool_def built_index(5) simple_pool_def sorted_wrt_filter)
    have derived: "set ms \<subseteq> ?ok \<and> sorted ms \<and> distinct ms"
      if "rsplit_once CHR ''.'' (expanded_path aliases q) = Some (qualifier, t)"
        "?rec (qualifier_probe r ns qualifier) usings ns aliases = Some (Ref_Resolved start w)"
        "derived_matches ?rec ?index contexts (name_pool ?index r) start = Some ms" for qualifier t start w
    proof -
      have "start < length (di_defs ?index)"
        using resolve_type_ref_range [OF built_lookups_ok that(2)] by simp
      from derived_exact [OF this, of n contexts "name_pool ?index r"] that(3)
      have "ms = filter (nested_in_bases fragments contexts start) (name_pool ?index r)" by simp
      moreover have "qualifier_type (Suc n) fragments contexts r usings ns aliases q = Some start"
        by (simp add: qualifier_type_def that(1,2))
      ultimately show ?thesis using order by (auto simp: sorted_wrt_filter)
    qed
    show ?thesis
      using ms derived order unfolding suffix_matches_def Let_def
      by (fastforce split: if_splits option.splits Option.bind_splits ref_resolution.splits simp: sorted_wrt_filter)
  qed
  have suffix: "(res = Ref_Ambiguous (sorted_list_of_set (answer_defs res)) Via_Suffix
        \<or> (\<exists>i. res = Ref_Resolved i Via_Suffix)) \<and> answer_defs res \<subseteq> ?ok"
    if "suffix_matches ?rec r usings ns ?index aliases contexts q = Some ms" "one_or_many Via_Suffix ms = Some res" for ms
  proof -
    from pool [OF that(1)] have "sorted_list_of_set (set ms) = ms" by (simp add: sorted_list_of_set.idem_if_sorted_distinct)
    with pool [OF that(1)] that(2) show ?thesis by (auto simp: one_or_many_def split: list.splits)
  qed
  have "resolve_dotted ?rec r usings ns ?index aliases contexts q = Some res"
    using assms by (simp add: resolve_step_def resolve_type_ref.simps(2) [of "Suc n"])
  then have "(\<exists>i. res = Ref_Resolved i Via_Qualified) \<or> res = Ref_External
      \<or> (\<exists>ms. suffix_matches ?rec r usings ns ?index aliases contexts q = Some ms \<and> one_or_many Via_Suffix ms = Some res)"
    unfolding resolve_dotted_def by (auto split: option.splits Option.bind_splits)
  then show ?thesis using suffix by blast
qed

theorem dotted_names_certified_witness:
  "resolve_in 2 self_alias_fragments (\<lambda>_. None) (dotted_ref ''X.B'' ''B'') fu_default [] (\<lambda>_. None)
     = Some (Ref_Resolved 1 Via_Suffix)
   \<and> def_path_ends_with (d_id (di_defs (build_def_index self_alias_fragments) ! 1)) ''X.B''"
proof -
  let ?index = "build_def_index self_alias_fragments" and ?r = "dotted_ref ''X.B'' ''B''"
  have path: "expanded_path (\<lambda>_. None) ''X.B'' = ''X.B''"
    by (simp add: expanded_path_def written_plain expand_alias_head_def split_once_def)
  have none: "type_candidate ?index ''X.B'' None = None" "fr_type_arg_count ?r = None" "final_type_argument_list ''X.B'' = None"
    by (simp_all add: type_candidate_def self_alias_qualified index_of_None dotted_ref_def name_probe_def
        final_type_argument_list_def)
  have exact: "exact_step ?index ?r (ref_prefixes []) ''X.B'' = None"
    by (simp add: exact_step_def none ref_prefixes_def under_def Let_def)
  have head: "alias_head_step ?index ?r (\<lambda>_. None) ''X.B'' = None"
    by (simp add: alias_head_step_def expand_alias_head_def split: option.splits)
  have hit: "def_path_ends_with (d_id (di_defs ?index ! 1)) ''X.B''"
    by (simp add: self_alias_defs first_def_def sample_def_def def_path_ends_with_def)
  have pool: "name_pool ?index ?r = [1]"
    using self_alias_simple by (simp add: name_pool_def dotted_ref_def name_probe_def)
  have q: "fr_qualified ?r = Some ''X.B''" by (simp add: dotted_ref_def)
  have res: "resolve_in (Suc (Suc 0)) self_alias_fragments (\<lambda>_. None) ?r fu_default [] (\<lambda>_. None) = Some (Ref_Resolved 1 Via_Suffix)"
    using hit
    by (simp add: resolve_type_ref.simps(2) [of "Suc 0"] resolve_step_def resolve_dotted_def q exact head
        suffix_matches_def Let_def path pool one_or_many_def del: One_nat_def)
  have "(\<exists>start. qualifier_type (Suc 0) self_alias_fragments (\<lambda>_. None) ?r fu_default [] (\<lambda>_. None) ''X.B'' = Some start
        \<and> nested_in_bases self_alias_fragments (\<lambda>_. None) start 1)
      \<or> def_path_ends_with (d_id (di_defs ?index ! 1)) ''X.B''"
    using dotted_names_certified [OF res q] by (simp add: path del: One_nat_def) blast
  with res hit show ?thesis by (simp add: numeral_2_eq_2 del: One_nat_def)
qed

section \<open>Written type-argument lists\<close>

text \<open>What a type argument looks like: a name, a constructed type, an array or a tuple.\<close>

datatype type_arg =
    TA_Name string
  | TA_Gen string "type_arg list"
  | TA_Array type_arg
  | TA_Tuple "type_arg list"

definition arg_name_ok :: "string \<Rightarrow> bool" where
  "arg_name_ok s \<longleftrightarrow> s \<noteq> [] \<and> list_all (\<lambda>c. c \<notin> set ''<>()[], '' \<and> c \<notin> {CHR 0x09, CHR 0x0A, CHR 0x0D}) s"

fun type_arg_ok :: "type_arg \<Rightarrow> bool" where
  "type_arg_ok (TA_Name s) \<longleftrightarrow> arg_name_ok s"
| "type_arg_ok (TA_Gen s ts) \<longleftrightarrow> arg_name_ok s \<and> list_all type_arg_ok ts"
| "type_arg_ok (TA_Array t) \<longleftrightarrow> type_arg_ok t"
| "type_arg_ok (TA_Tuple ts) \<longleftrightarrow> ts \<noteq> [] \<and> list_all type_arg_ok ts"

fun print_arg :: "type_arg \<Rightarrow> string" where
  "print_arg (TA_Name s) = s"
| "print_arg (TA_Gen s ts) = s @ ''<'' @ str_join '', '' (map print_arg ts) @ ''>''"
| "print_arg (TA_Array t) = print_arg t @ ''[]''"
| "print_arg (TA_Tuple ts) = ''('' @ str_join '', '' (map print_arg ts) @ '')''"

definition print_args :: "type_arg list \<Rightarrow> string" where
  "print_args ts = str_join '', '' (map print_arg ts)"

lemma print_args_simps:
  "print_args [] = []" "print_args [t] = print_arg t"
  "print_args (t # u # ts) = print_arg t @ '', '' @ print_args (u # ts)"
  by (simp_all add: print_args_def)

lemma count_name:
  "list_all (\<lambda>c. c \<notin> set ''<>()[], '' \<and> c \<notin> {CHR 0x09, CHR 0x0A, CHR 0x0D}) s \<Longrightarrow>
   argument_count a p q n w (s @ rest) = argument_count a p q n (w \<or> s \<noteq> []) rest"
  by (induction s arbitrary: w) auto

lemma count_nested_args:
  "0 < a + p + q \<Longrightarrow>
   (\<And>t a p q w rest. t \<in> set ts \<Longrightarrow> argument_count a p q n w (print_arg t @ rest) = argument_count a p q n True rest) \<Longrightarrow>
   argument_count a p q n w (print_args ts @ rest) = argument_count a p q n (w \<or> ts \<noteq> []) rest"
proof (induction ts arbitrary: w rule: induct_list012)
  case (3 t u ts)
  have "argument_count a p q n True (print_args (u # ts) @ rest) = argument_count a p q n True rest"
    using 3(2) [of True] 3(3,4) by auto
  with 3(3,4) show ?case by (auto simp: print_args_simps)
qed (auto simp: print_args_simps)

lemma count_arg:
  "type_arg_ok t \<Longrightarrow> argument_count a p q n w (print_arg t @ rest) = argument_count a p q n True rest"
proof (induction t arbitrary: a p q w rest)
  case (TA_Name s)
  then show ?case by (simp add: arg_name_ok_def count_name)
next
  case (TA_Gen s ts)
  have "argument_count (a + 1) p q n True (print_args ts @ ''>'' @ rest) = argument_count (a + 1) p q n True (''>'' @ rest)"
    using TA_Gen by (subst count_nested_args) (auto simp: list_all_iff)
  with TA_Gen.prems show ?case by (simp add: arg_name_ok_def count_name print_args_def)
next
  case (TA_Array t)
  then show ?case by simp
next
  case (TA_Tuple ts)
  have "argument_count a (p + 1) q n w (print_args ts @ '')'' @ rest) = argument_count a (p + 1) q n True ('')'' @ rest)"
    using TA_Tuple by (subst count_nested_args) (auto simp: list_all_iff)
  with TA_Tuple.prems show ?case by (simp add: print_args_def)
qed

lemma count_args:
  "ts \<noteq> [] \<Longrightarrow> list_all type_arg_ok ts \<Longrightarrow> argument_count 0 0 0 n False (print_args ts) = Some (n + length ts - 1)"
proof (induction ts arbitrary: n rule: induct_list012)
  case (2 t)
  then show ?case using count_arg [of t 0 0 0 n False "[]"] by (simp add: print_args_simps)
next
  case (3 t u ts)
  from 3(2) [of "n + 1"] 3(4) show ?case by (simp add: print_args_simps count_arg)
qed simp

lemma groups_plain:
  "CHR ''<'' \<notin> set s \<Longrightarrow> CHR ''>'' \<notin> set s \<Longrightarrow> angle_groups i d op (s @ rest) = angle_groups (i + length s) d op rest"
  by (induction s arbitrary: i) auto

lemma groups_nested_args:
  "0 < d \<Longrightarrow>
   (\<And>t i d rest. t \<in> set ts \<Longrightarrow> 0 < d \<Longrightarrow> angle_groups i d op (print_arg t @ rest) = angle_groups (i + length (print_arg t)) d op rest) \<Longrightarrow>
   angle_groups i d op (print_args ts @ rest) = angle_groups (i + length (print_args ts)) d op rest"
proof (induction ts arbitrary: i rule: induct_list012)
  case (3 t u ts)
  have "angle_groups j d op (print_args (u # ts) @ rest) = angle_groups (j + length (print_args (u # ts))) d op rest" for j
    using 3(2) [of j] 3(3,4) by auto
  with 3(3,4) show ?case by (simp add: print_args_simps add.assoc)
qed (auto simp: print_args_simps)

lemma groups_arg:
  "type_arg_ok t \<Longrightarrow> 0 < d \<Longrightarrow>
   angle_groups i d op (print_arg t @ rest) = angle_groups (i + length (print_arg t)) d op rest"
proof (induction t arbitrary: i d rest)
  case (TA_Name s)
  then show ?case by (intro groups_plain [THEN trans]) (auto simp: arg_name_ok_def list_all_iff)
next
  case (TA_Gen s ts)
  have name: "CHR ''<'' \<notin> set s" "CHR ''>'' \<notin> set s"
    using TA_Gen.prems by (auto simp: arg_name_ok_def list_all_iff)
  have "angle_groups j (d + 1) op (print_args ts @ ''>'' @ rest) = angle_groups (j + length (print_args ts)) (d + 1) op (''>'' @ rest)" for j
    using TA_Gen by (intro groups_nested_args) (auto simp: list_all_iff)
  with TA_Gen.prems show ?case by (simp add: groups_plain [OF name] print_args_def add.assoc)
next
  case (TA_Array t)
  then show ?case by simp
next
  case (TA_Tuple ts)
  have "angle_groups j d op (print_args ts @ '')'' @ rest) = angle_groups (j + length (print_args ts)) d op ('')'' @ rest)" for j
    using TA_Tuple by (intro groups_nested_args) (auto simp: list_all_iff)
  then show ?case by (simp add: print_args_def add.assoc)
qed

definition path_segment_ok :: "string \<Rightarrow> bool" where
  "path_segment_ok path \<longleftrightarrow> path \<noteq> [] \<and> last path \<noteq> CHR ''.'' \<and> list_all (\<lambda>b. b \<notin> set ''<>()[]:, '') path"

text \<open>
  A dotted path written with a final type-argument list, nested lists, arrays and tuples
  included, is read back as its path and the number of top-level arguments.
\<close>

theorem type_argument_list_roundtrip:
  assumes "path_segment_ok path" and "ts \<noteq> []" and "list_all type_arg_ok ts"
  shows "final_type_argument_list (path @ ''<'' @ print_args ts @ ''>'') = Some (path, length ts)"
proof -
  let ?q = "path @ ''<'' @ print_args ts @ ''>''"
  have plain: "CHR ''<'' \<notin> set path" "CHR ''>'' \<notin> set path"
    using assms(1) by (auto simp: path_segment_ok_def list_all_iff)
  have args: "angle_groups j 1 op (print_args ts @ rest) = angle_groups (j + length (print_args ts)) 1 op rest" for j op rest
    using assms(3) by (intro groups_nested_args) (auto simp: list_all_iff groups_arg)
  have groups: "angle_groups 0 0 None ?q = Some (0, Some (length path))"
    using args by (simp add: groups_plain [OF plain])
  have dot: "\<not> ends_with path ''.''"
  proof
    assume e: "ends_with path ''.''"
    have "path = butlast path @ [last path]" using assms(1) by (simp add: path_segment_ok_def)
    with e have "last path = CHR ''.''"
      by (metis One_nat_def append_butlast_last_id assms(1) ends_with_def last_drop last_ConsL length_Cons
          diff_less length_greater_0_conv list.size(3) path_segment_ok_def zero_less_one)
    with assms(1) show False by (simp add: path_segment_ok_def)
  qed
  have "slice (length path + 1) (length ?q - 1) ?q = print_args ts"
    by (simp add: slice_def)
  then show ?thesis
    using assms dot count_args [OF assms(2,3), of 1] groups
    by (auto simp: final_type_argument_list_def path_segment_ok_def Let_def list_ex_iff list_all_iff)
qed

theorem type_argument_list_roundtrip_witness:
  "final_type_argument_list ''App.Map<string, List<(int, A[])>>'' = Some (''App.Map'', 2)"
  using type_argument_list_roundtrip [of "''App.Map''"
      "[TA_Name ''string'', TA_Gen ''List'' [TA_Tuple [TA_Name ''int'', TA_Array (TA_Name ''A'')]]]"]
  by (simp add: path_segment_ok_def arg_name_ok_def print_args_def)

end
