(* ===== verification/Descriptors.thy ===== *)
theory Descriptors
  imports LadderFacts
begin

text \<open>
  Type descriptors, the texts in which the C# extractor records parameter and argument types
  (\<open>Map<string,List<int>>[]\<close>): their heads and arguments (\<open>src/resolve/receiver.rs\<close>), their
  names and primitive keywords (\<open>src/resolve/argument_compatibility.rs\<close>), and the binding of a
  receiver's type argument (\<open>src/resolve/argument_types.rs\<close>).
\<close>

section \<open>Heads and arguments\<close>

definition descriptor_head :: "string \<Rightarrow> string" where
  "descriptor_head text' = takeWhile (\<lambda>c. c \<notin> set ''<[?'') text'"

text \<open>The split at the commas of depth zero; \<open>cur\<close> is the argument read so far.\<close>

fun split_top :: "nat \<Rightarrow> string \<Rightarrow> string \<Rightarrow> string list" where
  "split_top depth cur [] = [cur]"
| "split_top depth cur (c # cs) =
     (if c = CHR ''<'' then split_top (depth + 1) (cur @ [c]) cs
      else if c = CHR ''>'' then split_top (depth - 1) (cur @ [c]) cs
      else if c = CHR '','' \<and> depth = 0 then cur # split_top depth [] cs
      else split_top depth (cur @ [c]) cs)"

definition descriptor_args :: "string \<Rightarrow> string list" where
  "descriptor_args text' =
     (case str_find_char text' CHR ''<'' of
        None \<Rightarrow> []
      | Some i \<Rightarrow>
          (if \<not> ends_with text' ''>'' then []
           else split_top 0 [] (slice (i + 1) (length text' - 1) text')))"

definition is_name_char :: "char \<Rightarrow> bool" where
  "is_name_char c \<longleftrightarrow> is_ascii_alphanumeric c \<or> c = CHR ''_'' \<or> c = CHR ''.''"

definition is_array_suffix :: "string \<Rightarrow> bool" where
  "is_array_suffix s \<longleftrightarrow> list_all (\<lambda>c. c = CHR ''['' \<or> c = CHR '']'') s"

definition bare_head :: "string \<Rightarrow> string" where
  "bare_head s = (case rsplit_once CHR ''.'' s of Some (_, t) \<Rightarrow> t | None \<Rightarrow> s)"

text \<open>The argument list of \<open>split_descriptor\<close>, from its opening bracket on.\<close>

fun split_list :: "nat \<Rightarrow> string \<Rightarrow> string list \<Rightarrow> string \<Rightarrow> (string list \<times> string) option" where
  "split_list depth cur args [] = None"
| "split_list depth cur args (c # cs) =
     (if c = CHR ''<'' then split_list (depth + 1) (if depth = 0 then cur else cur @ [c]) args cs
      else if c = CHR ''>'' then
        (if depth = 0 then None
         else if depth = 1 then
           (if cur = [] then None
            else if is_array_suffix cs then Some (args @ [cur], cs) else None)
         else split_list (depth - 1) (cur @ [c]) args cs)
      else if c = CHR '','' \<and> depth = 1 then
        (if cur = [] then None else split_list depth [] (args @ [cur]) cs)
      else split_list depth (cur @ [c]) args cs)"

definition split_descriptor :: "string \<Rightarrow> (string \<times> string list \<times> string) option" where
  "split_descriptor descriptor =
     (let at = (case str_find_char descriptor CHR ''<'' of
                  Some i \<Rightarrow> i | None \<Rightarrow> or_default (length descriptor) (str_find_char descriptor CHR ''[''));
          hd_part = take at descriptor; rest = drop at descriptor
      in if hd_part = [] \<or> \<not> list_all is_name_char hd_part then None
         else if \<not> starts_with rest ''<'' then
           (if is_array_suffix rest then Some (hd_part, [], rest) else None)
         else map_option (Pair hd_part) (split_list 0 [] [] rest))"

section \<open>Names and primitive types\<close>

definition numeric :: "string \<Rightarrow> bool" where
  "numeric name \<longleftrightarrow>
     name \<in> {''sbyte'', ''byte'', ''short'', ''ushort'', ''int'', ''uint'', ''long'', ''ulong'', ''float'',
       ''double'', ''decimal'', ''char''}"

definition fixed_bcl :: "string \<Rightarrow> string option" where
  "fixed_bcl name =
     (if name \<in> {''string'', ''bool'', ''char'', ''Type'', ''DateTime'', ''TimeSpan'', ''Uri'',
        ''CancellationToken'', ''int'', ''long'', ''double'', ''decimal''} then Some name else None)"

definition CLR_PRIMITIVES :: "(string \<times> string) list" where
  "CLR_PRIMITIVES =
     [(''SByte'', ''sbyte''), (''Byte'', ''byte''), (''Int16'', ''short''), (''UInt16'', ''ushort''),
      (''Int32'', ''int''), (''UInt32'', ''uint''), (''Int64'', ''long''), (''UInt64'', ''ulong''),
      (''Single'', ''float''), (''Double'', ''double''), (''Decimal'', ''decimal''), (''Char'', ''char''),
      (''Boolean'', ''bool''), (''String'', ''string''), (''Object'', ''object'')]"

definition primitive_keyword :: "string \<Rightarrow> string option" where
  "primitive_keyword token =
     map_of CLR_PRIMITIVES (or_default token (strip_prefix token ''System.''))"

definition graph_declares_primitive_name :: "def_index \<Rightarrow> bool" where
  "graph_declares_primitive_name index \<longleftrightarrow>
     list_ex (\<lambda>(name, _). di_simple index name \<noteq> None) CLR_PRIMITIVES"

function rewrite_names :: "(string \<Rightarrow> string) \<Rightarrow> string \<Rightarrow> string" where
  "rewrite_names rename rest =
     (if rest = [] then []
      else if takeWhile is_name_char rest \<noteq> [] then
        rename (takeWhile is_name_char rest) @ rewrite_names rename (dropWhile is_name_char rest)
      else hd rest # rewrite_names rename (tl rest))"
  by pat_completeness auto
termination
proof (relation "measure (\<lambda>(_, rest). length rest)", goal_cases)
  case (2 rename rest)
  then have "length (dropWhile is_name_char rest) < length rest"
    by (cases rest) (auto simp: le_imp_less_Suc length_dropWhile_le split: if_splits)
  then show ?case by simp
qed auto

declare rewrite_names.simps [simp del]

definition canonical_primitives :: "string \<Rightarrow> string" where
  "canonical_primitives descriptor = rewrite_names (\<lambda>t. or_default t (primitive_keyword t)) descriptor"

text \<open>\<open>s.chars().filter(|c| !c.is_whitespace())\<close>.\<close>

function drop_ws :: "string \<Rightarrow> string" where
  "drop_ws s =
     (if s = [] then [] else if ws_head s \<noteq> 0 then drop_ws (drop (ws_head s) s) else hd s # drop_ws (tl s))"
  by pat_completeness auto
termination
  by (relation "measure length") (use ws_head_length in auto)

declare drop_ws.simps [simp del]

fun balanced_from :: "nat \<Rightarrow> bool \<Rightarrow> string \<Rightarrow> bool" where
  "balanced_from depth e [] = (depth = 0)"
| "balanced_from depth e (c # cs) =
     (if c = CHR ''<'' then balanced_from (depth + 1) True cs
      else if c = CHR '','' \<and> 0 < depth then (if e then False else balanced_from depth True cs)
      else if c = CHR ''>'' then
        (if e then False else if depth = 0 then False else balanced_from (depth - 1) e cs)
      else balanced_from depth False cs)"

definition balanced_arguments :: "string \<Rightarrow> bool" where
  "balanced_arguments descriptor = balanced_from 0 False (drop_ws descriptor)"

section \<open>Alias targets\<close>

datatype reading = Keyword | In_Graph

definition flush_segment :: "reading \<Rightarrow> string \<Rightarrow> string \<Rightarrow> string" where
  "flush_segment reading token out =
     (if token = [] then out
      else out @ or_default (bare_head token)
        (if reading = In_Graph \<and> starts_with token ''System.'' then primitive_keyword token else None))"

text \<open>
  The cut after the last character that is not of a name: \<open>None\<close> is the panic of \<open>truncate\<close>
  inside a character of more than one byte.
\<close>

definition drop_last_segment :: "string \<Rightarrow> string option" where
  "drop_last_segment out =
     (let kept = rev (dropWhile is_name_char (rev out))
      in if kept = [] \<or> is_ascii (last kept) then Some kept else None)"

function normalize_from :: "reading \<Rightarrow> string \<Rightarrow> string \<Rightarrow> string \<Rightarrow> string option" where
  "normalize_from reading out token chars =
     (case chars of
        [] \<Rightarrow> Some (flush_segment reading token out)
      | c # cs \<Rightarrow>
          (if is_name_char c then normalize_from reading out (token @ [c]) cs
           else if c = CHR '':'' then
             (case drop_last_segment out of
                None \<Rightarrow> None
              | Some out' \<Rightarrow> normalize_from reading out' [] (dropWhile (\<lambda>x. x = CHR '':'') cs))
           else if ws_head chars \<noteq> 0 then normalize_from reading out token (drop (ws_head chars) chars)
           else normalize_from reading (flush_segment reading token out @ [c]) [] cs))"
  by pat_completeness auto
termination
  by (relation "measure (\<lambda>(_, _, _, chars). length chars)")
    (use ws_head_length in \<open>auto simp: length_dropWhile_le le_imp_less_Suc\<close>)

declare normalize_from.simps [simp del]

definition normalize_alias_target :: "string \<Rightarrow> reading \<Rightarrow> string option" where
  "normalize_alias_target target reading =
     map_option (\<lambda>out. case reading of Keyword \<Rightarrow> canonical_primitives out | In_Graph \<Rightarrow> out)
       (normalize_from reading [] [] target)"

section \<open>Receiver arguments\<close>

definition substitute_receiver_type :: "string \<Rightarrow> string list option \<Rightarrow> nat \<Rightarrow> string option" where
  "substitute_receiver_type descriptor receiver_args type_params =
     (if CHR ''*'' \<notin> set descriptor then Some descriptor
      else if type_params \<noteq> 1 then None
      else (case receiver_args of
              Some (replacement # _) \<Rightarrow>
                (if CHR ''*'' \<in> set replacement \<or> replacement = ''?'' then None
                 else Some (concat (map (\<lambda>c. if c = CHR ''*'' then replacement else [c]) descriptor)))
            | _ \<Rightarrow> None))"

definition special_type :: "method_overload_params list option \<Rightarrow> string option" where
  "special_type overloads =
     (case overloads of
        Some (o1 # os) \<Rightarrow>
          (case mo_params o1 of
             [] \<Rightarrow> None
           | first # _ \<Rightarrow>
               (if list_all (\<lambda>e. mo_params e = [first]) (o1 # os) then Some first else None))
      | _ \<Rightarrow> None)"

definition bcl_member_type :: "string \<Rightarrow> string \<Rightarrow> bool \<Rightarrow> string option" where
  "bcl_member_type owner member call =
     (if CHR ''.'' \<in> set owner \<and> \<not> starts_with owner ''System.'' then None
      else (let bare = bare_head owner
            in if bare = ''TimeSpan'' \<and> call
                  \<and> member \<in> {''FromSeconds'', ''FromMinutes'', ''FromHours'', ''FromDays'', ''FromMilliseconds''}
               then Some ''TimeSpan''
               else if bare = ''CancellationToken'' \<and> member = ''None'' \<and> \<not> call then Some ''CancellationToken''
               else if bare = ''Exception'' \<and> member = ''Message'' \<and> \<not> call then Some ''string''
               else None))"

end
