(* ===== verification/CallShapes.thy ===== *)
theory CallShapes
  imports Descriptors
begin

text \<open>
  Whether a call's arguments fit an overload: the types of its arguments
  (\<open>src/resolve/argument_types.rs\<close>), the delegates its lambdas convert to
  (\<open>src/resolve/delegate_shape.rs\<close>, \<open>src/resolve/lambda_arity.rs\<close>), and the comparison of an
  argument's type with a parameter's (\<open>src/resolve/argument_compatibility.rs\<close>).

  The functions resolve names through the ladder, which is their argument \<open>rec\<close>; \<open>None\<close> as the
  value of the whole call means that the call does not return.
\<close>

section \<open>Types named from a place\<close>

type_synonym contexts = "string \<Rightarrow> file_context option"

definition type_probe :: "string \<Rightarrow> string \<Rightarrow> string list \<Rightarrow> frag_ref" where
  "type_probe raw ns outer_types =
     (case rsplit_once CHR ''.'' raw of
        Some (_, t) \<Rightarrow> (name_probe t ns outer_types)\<lparr>fr_qualified := Some raw\<rparr>
      | None \<Rightarrow> name_probe raw ns outer_types)"

definition resolve_type ::
  "resolver \<Rightarrow> contexts \<Rightarrow> string \<Rightarrow> string \<Rightarrow> string list \<Rightarrow> string \<Rightarrow> nat option option" where
  "resolve_type rec contexts file' ns outer name =
     (case contexts file' of
        None \<Rightarrow> Some None
      | Some ctx \<Rightarrow> do {
          res \<leftarrow> rec (type_probe name ns outer) (fc_usings ctx) ns (fc_aliases ctx);
          Some (case res of Ref_Resolved found _ \<Rightarrow> Some found | _ \<Rightarrow> None) })"

definition def_outer_types :: "graph_def \<Rightarrow> string list" where
  "def_outer_types d =
     (let chain = (if d_namespace d = [] then d_id d
                   else or_default (d_name d) (strip_prefix (d_id d) (d_namespace d @ ''.'')))
      in str_split CHR ''+'' chain)"

definition or_empty :: "string option \<Rightarrow> string" where
  "or_empty s = or_default [] s"

definition with_args :: "string \<Rightarrow> string list option \<Rightarrow> string" where
  "with_args head' args =
     (case args of None \<Rightarrow> head' | Some as \<Rightarrow> head' @ ''<'' @ str_join '','' as @ ''>'')"

text \<open>The type of a member read off the tables of the type \<open>idx\<close> that declares it.\<close>

definition called_member_type :: "member_lists \<Rightarrow> string \<Rightarrow> string option" where
  "called_member_type mls member =
     (case special_type (ml_method_params mls (''@result:'' @ member)) of
        Some recorded \<Rightarrow> Some recorded
      | None \<Rightarrow>
          (case ml_method_params mls member of
             Some overloads \<Rightarrow>
               (if length overloads \<noteq> 1 then None
                else map_option (\<lambda>t. with_args t (om_get (ml_method_return_args mls) member))
                  (om_get (ml_method_returns mls) member))
           | None \<Rightarrow>
               map_option (\<lambda>t. with_args t (om_get (ml_method_return_args mls) member))
                 (om_get (ml_method_returns mls) member)))"

definition own_type_params_open :: "member_lists \<Rightarrow> string \<Rightarrow> bool" where
  "own_type_params_open mls member \<longleftrightarrow>
     (case ml_method_params mls member of
        None \<Rightarrow> True
      | Some overloads \<Rightarrow>
          list_ex (\<lambda>o'. case mo_type_params o' of None \<Rightarrow> True | Some own \<Rightarrow> 0 < otp_count own) overloads)"

definition first_of :: "'a option \<Rightarrow> 'a option \<Rightarrow> 'a option" where
  "first_of a b = (case a of Some _ \<Rightarrow> a | None \<Rightarrow> b)"

definition read_member_type :: "member_lists \<Rightarrow> string \<Rightarrow> string option" where
  "read_member_type mls member =
     (case first_of (special_type (ml_method_params mls (''@property:'' @ member)))
             (special_type (ml_method_params mls (''@field:'' @ member))) of
        Some recorded \<Rightarrow> Some recorded
      | None \<Rightarrow>
          map_option (\<lambda>ft. with_args (ff_type_name ft) (ff_args ft))
            (first_of (om_get (ml_property_types mls) member) (om_get (ml_field_types mls) member)))"

definition member_type :: "member_lists \<Rightarrow> string \<Rightarrow> bool \<Rightarrow> string list option \<Rightarrow> string option" where
  "member_type mls member call receiver_args =
     (case (if call then called_member_type mls member else read_member_type mls member) of
        None \<Rightarrow> None
      | Some descriptor \<Rightarrow>
          (if call \<and> CHR ''*'' \<in> set descriptor \<and> own_type_params_open mls member then None
           else substitute_receiver_type descriptor receiver_args (length (ml_type_params mls))))"

definition materialize ::
  "resolver \<Rightarrow> def_index \<Rightarrow> contexts \<Rightarrow> frag_arg_type \<Rightarrow> string \<Rightarrow> frag_ref \<Rightarrow> string option option" where
  "materialize rec index contexts arg source_file r =
     (case arg of
        Arg_Known name \<Rightarrow> Some (Some name)
      | Arg_Member owner member receiver_args call \<Rightarrow>
          (case contexts source_file of
             None \<Rightarrow> Some None
           | Some ctx \<Rightarrow> do {
               res \<leftarrow> rec (type_probe owner (or_empty (fr_namespace r)) (fr_outer_types r))
                 (fc_usings ctx) (or_empty (fr_namespace r)) (fc_aliases ctx);
               Some (case res of
                       Ref_Resolved idx _ \<Rightarrow> member_type (di_member_lists index ! idx) member call receiver_args
                     | Ref_External \<Rightarrow> bcl_member_type owner member call
                     | Ref_Ambiguous _ _ \<Rightarrow> None) }))"

section \<open>Delegates and lambdas\<close>

record delegate_shape_rec =
  ds_params :: "string list"
  ds_returns_void :: "bool option"
  ds_input_args :: "bool list option"

definition in_graph_delegate ::
  "resolver \<Rightarrow> def_index \<Rightarrow> contexts \<Rightarrow> string \<Rightarrow> nat \<Rightarrow> string \<Rightarrow> nat option option" where
  "in_graph_delegate rec index contexts head' declaring_def declaring_file =
     (case contexts declaring_file of
        None \<Rightarrow> Some None
      | Some ctx \<Rightarrow>
          (let d = di_defs index ! declaring_def in do {
             res \<leftarrow> rec (name_probe head' (d_namespace d) (def_outer_types d)) (fc_usings ctx) (d_namespace d) (fc_aliases ctx);
             Some (case res of
                     Ref_Resolved didx _ \<Rightarrow> if d_kind (di_defs index ! didx) = ''delegate'' then Some didx else None
                   | _ \<Rightarrow> None) }))"

text \<open>The shape of an in-graph delegate: its \<open>Invoke\<close> parameters and its signature fact.\<close>

definition declared_shape :: "member_lists \<Rightarrow> nat \<Rightarrow> delegate_shape_rec option" where
  "declared_shape mls arg_count =
     (case ml_method_params mls ''Invoke'' of
        Some (o1 # _) \<Rightarrow>
          Some \<lparr>ds_params = mo_params o1,
                ds_returns_void = map_option (\<lambda>s. fds_returns s = ''void'') (ml_delegate_signature mls),
                ds_input_args =
                  (case ml_delegate_signature mls of
                     None \<Rightarrow> None
                   | Some s \<Rightarrow> if length (fds_type_params s) = arg_count
                       then Some (map (\<lambda>u. u = ''params'') (fds_type_params s)) else None)\<rparr>
      | _ \<Rightarrow> None)"

definition invoke_shape ::
  "resolver \<Rightarrow> def_index \<Rightarrow> contexts \<Rightarrow> nat \<Rightarrow> string \<Rightarrow> string \<Rightarrow> delegate_shape_rec option option" where
  "invoke_shape rec index contexts declaring_def declaring_file text' =
     (let hd_part = descriptor_head text'; args = descriptor_args text'
      in if ends_with text' '']'' then Some None
         else if hd_part = ''Action'' \<and> args \<noteq> [] then
           Some (Some \<lparr>ds_params = args, ds_returns_void = Some True,
                       ds_input_args = Some (replicate (length args) True)\<rparr>)
         else if hd_part = ''Func'' \<and> 2 \<le> length args then
           Some (Some \<lparr>ds_params = butlast args, ds_returns_void = Some False,
                       ds_input_args = Some (replicate (length args - 1) True @ [False])\<rparr>)
         else if hd_part = ''Predicate'' \<and> length args = 1 then
           Some (Some \<lparr>ds_params = args, ds_returns_void = Some False, ds_input_args = Some [True]\<rparr>)
         else if hd_part \<in> {''Action'', ''Func'', ''Predicate'', []} then Some None
         else do {
           found \<leftarrow> in_graph_delegate rec index contexts hd_part declaring_def declaring_file;
           Some (case found of
                   None \<Rightarrow> None
                 | Some didx \<Rightarrow> declared_shape (di_member_lists index ! didx) (length args)) })"

definition delegate_shape ::
  "resolver \<Rightarrow> def_index \<Rightarrow> contexts \<Rightarrow> nat \<Rightarrow> string \<Rightarrow> string \<Rightarrow> delegate_shape_rec option option" where
  "delegate_shape rec index contexts declaring_def declaring_file text' =
     (if ends_with text' '']'' then Some None
      else if descriptor_head text' = ''Expression'' \<and> length (descriptor_args text') = 1
        then invoke_shape rec index contexts declaring_def declaring_file (hd (descriptor_args text'))
      else invoke_shape rec index contexts declaring_def declaring_file text')"

record lambda_call =
  lc_arities :: "nat option list"
  lc_shapes :: "frag_lambda_shape option list"
  lc_type_args_written :: bool

definition flat_get :: "'a option list \<Rightarrow> nat \<Rightarrow> 'a option" where
  "flat_get xs i = (if i < length xs then xs ! i else None)"

definition lc_positions :: "lambda_call \<Rightarrow> nat" where
  "lc_positions call = max (length (lc_arities call)) (length (lc_shapes call))"

definition lc_arity :: "lambda_call \<Rightarrow> nat \<Rightarrow> nat option" where
  "lc_arity call i = flat_get (lc_arities call) i"

definition lc_shape :: "lambda_call \<Rightarrow> nat \<Rightarrow> frag_lambda_shape option" where
  "lc_shape call i = flat_get (lc_shapes call) i"

definition only_in_lambda_inputs ::
  "lambda_call \<Rightarrow> delegate_shape_rec option list \<Rightarrow> nat \<Rightarrow> int \<Rightarrow> bool" where
  "only_in_lambda_inputs call delegates i site =
     ((case lc_shape call i of Some s \<Rightarrow> flm_implicitly_typed s | None \<Rightarrow> False)
      \<and> (case flat_get delegates i of
            None \<Rightarrow> False
          | Some d \<Rightarrow>
              (case ds_input_args d of
                 None \<Rightarrow> False
               | Some inputs \<Rightarrow>
                   0 \<le> site \<and> nat site < length inputs \<and> inputs ! nat site)))"

definition uninferable :: "method_overload_params \<Rightarrow> lambda_call \<Rightarrow> delegate_shape_rec option list \<Rightarrow> bool" where
  "uninferable overload call delegates =
     (case mo_type_params overload of
        None \<Rightarrow> False
      | Some own \<Rightarrow>
          list_ex (\<lambda>tp.
            (let sites = concat (map (\<lambda>(i, param). map (\<lambda>(_, site). (i, site)) (filter (\<lambda>(k, _). k = tp) param))
                           (enumerate 0 (otp_sites own)))
             in sites \<noteq> [] \<and> list_all (\<lambda>(i, site). only_in_lambda_inputs call delegates i site) sites))
            [0..<otp_count own])"

fun map_opt :: "('a \<Rightarrow> 'b option) \<Rightarrow> 'a list \<Rightarrow> 'b list option" where
  "map_opt f [] = Some []"
| "map_opt f (x # xs) = do { y \<leftarrow> f x; ys \<leftarrow> map_opt f xs; Some (y # ys) }"

definition lambda_delegates ::
  "resolver \<Rightarrow> def_index \<Rightarrow> contexts \<Rightarrow> nat \<Rightarrow> method_overload_params \<Rightarrow> lambda_call
   \<Rightarrow> delegate_shape_rec option list option" where
  "lambda_delegates rec index contexts idx overload call =
     map_opt (\<lambda>i.
       if lc_arity call i = None \<and> lc_shape call i = None then Some None
       else if i < length (mo_params overload)
         then delegate_shape rec index contexts idx (mo_file overload) (mo_params overload ! i)
       else Some None) [0..<lc_positions call]"

definition lambda_converts :: "lambda_call \<Rightarrow> delegate_shape_rec option list \<Rightarrow> nat \<Rightarrow> bool" where
  "lambda_converts call delegates i =
     ((case lc_arity call i of
         None \<Rightarrow> True
       | Some want \<Rightarrow> (case delegates ! i of Some d \<Rightarrow> length (ds_params d) = want | None \<Rightarrow> False))
      \<and> (case lc_shape call i of
           None \<Rightarrow> True
         | Some shape \<Rightarrow>
             \<not> flm_value_only shape
             \<or> (case delegates ! i of None \<Rightarrow> True | Some d \<Rightarrow> ds_returns_void d \<noteq> Some True)))"

definition overload_admits ::
  "resolver \<Rightarrow> def_index \<Rightarrow> contexts \<Rightarrow> nat \<Rightarrow> method_overload_params \<Rightarrow> lambda_call \<Rightarrow> bool option" where
  "overload_admits rec index contexts idx overload call =
     do {
       delegates \<leftarrow> lambda_delegates rec index contexts idx overload call;
       Some (list_all (lambda_converts call delegates) [0..<lc_positions call]
             \<and> (lc_type_args_written call \<or> \<not> uninferable overload call delegates)) }"

definition lambda_call_of :: "frag_ref \<Rightarrow> lambda_call" where
  "lambda_call_of r =
     \<lparr>lc_arities = or_default [] (fr_lambda_arg_arity r), lc_shapes = or_default [] (fr_lambda_arg_shape r),
      lc_type_args_written = (fr_method_type_arg_count r \<noteq> None)\<rparr>"

definition lambda_overload_admits ::
  "resolver \<Rightarrow> def_index \<Rightarrow> contexts \<Rightarrow> nat \<Rightarrow> method_overload_params \<Rightarrow> frag_ref \<Rightarrow> bool option" where
  "lambda_overload_admits rec index contexts idx overload r =
     overload_admits rec index contexts idx overload (lambda_call_of r)"

text \<open>\<open>any\<close> and \<open>all\<close> with a test that may not return: the rest is not tested once it is settled.\<close>

fun ex_opt :: "('a \<Rightarrow> bool option) \<Rightarrow> 'a list \<Rightarrow> bool option" where
  "ex_opt f [] = Some False"
| "ex_opt f (x # xs) = do { b \<leftarrow> f x; if b then Some True else ex_opt f xs }"

fun all_opt :: "('a \<Rightarrow> bool option) \<Rightarrow> 'a list \<Rightarrow> bool option" where
  "all_opt f [] = Some True"
| "all_opt f (x # xs) = do { b \<leftarrow> f x; if b then all_opt f xs else Some False }"

definition lambda_arity_admits ::
  "resolver \<Rightarrow> def_index \<Rightarrow> contexts \<Rightarrow> nat \<Rightarrow> string option \<Rightarrow> frag_ref \<Rightarrow> bool option" where
  "lambda_arity_admits rec index contexts idx member r =
     (case member of
        None \<Rightarrow> Some True
      | Some m \<Rightarrow>
          (if list_all (\<lambda>a. a = None) (or_default [] (fr_lambda_arg_arity r))
              \<and> list_all (\<lambda>s. s = None) (or_default [] (fr_lambda_arg_shape r)) then Some True
           else (case ml_method_params (di_member_lists index ! idx) m of
                   None \<Rightarrow> Some True
                 | Some overloads \<Rightarrow>
                     ex_opt (\<lambda>o'. overload_admits rec index contexts idx o' (lambda_call_of r)) overloads)))"

end
