(* ===== verification/ArgCompat.thy ===== *)
theory ArgCompat
  imports CallShapes
begin

text \<open>
  The comparison of an argument's type with a parameter's and the test whether a call fits an
  overload of a member (\<open>src/resolve/argument_compatibility.rs\<close>). The test declines only what it
  can tell apart: whatever it cannot read, it admits.
\<close>

section \<open>Canonical types\<close>

record compare_context =
  cx_index :: def_index
  cx_contexts :: contexts
  cx_source_file :: string
  cx_param_file :: string
  cx_reference :: frag_ref
  cx_owner_idx :: nat
  cx_reading :: reading

datatype side = Argument | Parameter

definition cx_scope :: "compare_context \<Rightarrow> side \<Rightarrow> string \<times> string \<times> string list" where
  "cx_scope cx s =
     (case s of
        Argument \<Rightarrow> (cx_source_file cx, or_empty (fr_namespace (cx_reference cx)), fr_outer_types (cx_reference cx))
      | Parameter \<Rightarrow> (cx_param_file cx, d_namespace (di_defs (cx_index cx) ! cx_owner_idx cx), []))"

definition resolve_in_scope ::
  "resolver \<Rightarrow> compare_context \<Rightarrow> side \<Rightarrow> string \<Rightarrow> nat option option" where
  "resolve_in_scope rec cx s name =
     (case cx_scope cx s of (f, ns, outer) \<Rightarrow> resolve_type rec (cx_contexts cx) f ns outer name)"

definition has_conversion :: "def_index \<Rightarrow> nat \<Rightarrow> bool" where
  "has_conversion index idx \<longleftrightarrow> ml_method_params (di_member_lists index ! idx) ''@implicit-conversion'' \<noteq> None"

datatype canon = Canon_Placeholder | Canon_Generic string "canon list" string

function (sequential) same_as :: "canon \<Rightarrow> canon \<Rightarrow> bool" where
  "same_as Canon_Placeholder c = True"
| "same_as c Canon_Placeholder = True"
| "same_as (Canon_Generic h as suffix) (Canon_Generic h' as' suffix') \<longleftrightarrow>
     h = h' \<and> suffix = suffix' \<and> length as = length as' \<and> list_all (\<lambda>(x, y). same_as x y) (zip as as')"
  by pat_completeness auto
termination
proof (relation "measure (size \<circ> fst)", goal_cases)
  case (2 h as suffix h' as' suffix' z x y)
  then have "x \<in> set as" by (auto dest: set_zip_leftD)
  then have "size x < Suc (size_list size as)"
    by (meson le_imp_less_Suc order.refl size_list_estimation')
  with 2 show ?case by auto
qed simp

text \<open>
  The arguments of a descriptor are rewritten one by one and the first that is no type ends the
  rewriting. The alias of a name that no type answers is rewritten in its place, so the recursion
  is on neither the descriptor nor anything it holds, and \<open>canonical\<close> has fuel.
\<close>

fun collect_opt :: "('a \<Rightarrow> 'b option option) \<Rightarrow> 'a list \<Rightarrow> 'b list option option" where
  "collect_opt f [] = Some (Some [])"
| "collect_opt f (x # xs) =
     do {
       y \<leftarrow> f x;
       case y of
         None \<Rightarrow> Some None
       | Some v \<Rightarrow> map_option (map_option (Cons v)) (collect_opt f xs) }"

definition alias_in :: "contexts \<Rightarrow> string \<Rightarrow> string \<Rightarrow> string option" where
  "alias_in contexts f name = (case contexts f of None \<Rightarrow> None | Some ctx \<Rightarrow> fc_aliases ctx name)"

definition canon_name :: "string \<Rightarrow> canon list \<Rightarrow> string \<Rightarrow> canon" where
  "canon_name hd_part args suffix =
     (if bare_head hd_part = ''Nullable'' \<and> length args = 1 \<and> suffix = [] then hd args
      else if bare_head hd_part = ''dynamic'' then Canon_Generic ''object'' [] []
      else Canon_Generic (or_default hd_part (primitive_keyword hd_part)) args suffix)"

fun canonical ::
  "nat \<Rightarrow> resolver \<Rightarrow> compare_context \<Rightarrow> side \<Rightarrow> string \<Rightarrow> canon option option" where
  "canonical 0 rec cx s descriptor = None"
| "canonical (Suc fuel) rec cx s descriptor =
     (if trim descriptor = ''?'' \<or> trim descriptor = ''*'' then Some (Some Canon_Placeholder)
      else (case split_descriptor (trim descriptor) of
              None \<Rightarrow> Some None
            | Some (hd_part, arguments, suffix) \<Rightarrow> do {
                args \<leftarrow> collect_opt (canonical fuel rec cx s) arguments;
                (case args of
                   None \<Rightarrow> Some None
                 | Some as \<Rightarrow> do {
                     found \<leftarrow> resolve_in_scope rec cx s hd_part;
                     (case found of
                        Some idx \<Rightarrow>
                          Some (Some (Canon_Generic (''@'' @ d_id (di_defs (cx_index cx) ! idx)) as suffix))
                      | None \<Rightarrow>
                          (case alias_in (cx_contexts cx) (fst (cx_scope cx s)) hd_part of
                             Some target \<Rightarrow> do {
                               text' \<leftarrow> normalize_alias_target target (cx_reading cx);
                               canonical fuel rec cx s text' }
                           | None \<Rightarrow> Some (Some (canon_name hd_part as suffix)))) }) }))"

section \<open>Accepting an argument\<close>

definition canonically_equal ::
  "nat \<Rightarrow> resolver \<Rightarrow> compare_context \<Rightarrow> string \<Rightarrow> string \<Rightarrow> bool option" where
  "canonically_equal fuel rec cx arg param =
     do {
       argument \<leftarrow> canonical fuel rec cx Argument arg;
       parameter \<leftarrow> canonical fuel rec cx Parameter param;
       Some (case (argument, parameter) of (Some a, Some p) \<Rightarrow> same_as a p | _ \<Rightarrow> False) }"

definition count_char :: "char \<Rightarrow> string \<Rightarrow> nat" where
  "count_char c s = length (filter (\<lambda>x. x = c) s)"

definition same_head_admits ::
  "nat \<Rightarrow> resolver \<Rightarrow> compare_context \<Rightarrow> string \<Rightarrow> string \<Rightarrow> string \<Rightarrow> bool option" where
  "same_head_admits fuel rec cx arg param hd_part =
     (if CHR ''<'' \<notin> set arg \<or> CHR ''<'' \<notin> set param then Some True
      else if count_char CHR ''<'' param < count_char CHR ''<'' arg then Some True
      else do {
        a \<leftarrow> resolve_in_scope rec cx Argument hd_part;
        p \<leftarrow> resolve_in_scope rec cx Parameter hd_part;
        let declines =
          (case (a, p) of
             (Some i, Some j) \<Rightarrow>
               i = j \<and> ml_type_params (di_member_lists (cx_index cx) ! i) \<noteq> []
               \<and> ml_method_params (di_member_lists (cx_index cx) ! i) ''@variant'' = None
               \<and> \<not> has_conversion (cx_index cx) i
           | _ \<Rightarrow> False);
        if \<not> declines then Some True else canonically_equal fuel rec cx arg param })"

definition known_types_accept ::
  "def_index \<Rightarrow> nat option \<Rightarrow> nat option \<Rightarrow> string \<Rightarrow> string \<Rightarrow> bool" where
  "known_types_accept index arg_def param_def arg_head param_head =
     (case (arg_def, param_def) of
        (None, Some p) \<Rightarrow>
          \<not> (fixed_bcl arg_head \<noteq> None \<and> \<not> numeric arg_head \<and> \<not> has_conversion index p)
      | (Some a, None) \<Rightarrow>
          \<not> (fixed_bcl param_head \<noteq> None \<and> \<not> has_conversion index a
             \<and> ml_bases (di_member_lists index ! a) = [])
      | (None, None) \<Rightarrow>
          (case (fixed_bcl arg_head, fixed_bcl param_head) of (Some a, Some p) \<Rightarrow> a = p | _ \<Rightarrow> True)
      | _ \<Rightarrow> True)"

definition accepts :: "nat \<Rightarrow> resolver \<Rightarrow> compare_context \<Rightarrow> string \<Rightarrow> string \<Rightarrow> bool option" where
  "accepts fuel rec cx arg param =
     (let index = cx_index cx; arg_head = descriptor_head arg; param_head = descriptor_head param
      in if arg = param \<or> arg = ''?'' \<or> param = ''?'' \<or> CHR ''*'' \<in> set arg \<or> CHR ''*'' \<in> set param then Some True
         else if param = ''object'' \<or> param = ''dynamic'' \<or> arg = ''dynamic'' then Some True
         else if arg = ''null'' then Some True
         else if arg_head = param_head then same_head_admits fuel rec cx arg param arg_head
         else if numeric arg_head \<and> numeric param_head then Some True
         else do {
           arg_def \<leftarrow> resolve_in_scope rec cx Argument arg_head;
           param_def \<leftarrow> resolve_in_scope rec cx Parameter param_head;
           case (arg_def, param_def) of
             (Some a, Some p) \<Rightarrow> do {
               found \<leftarrow> inheritance_walk_find rec index (cx_contexts cx) a (\<lambda>c. Some (c = p));
               Some (found \<noteq> None \<or> has_conversion index a \<or> has_conversion index p
                     \<or> ml_bases (di_member_lists index ! a) \<noteq> []
                     \<or> CHR ''<'' \<in> set arg \<or> CHR ''<'' \<in> set param) }
           | _ \<Rightarrow> Some (known_types_accept index arg_def param_def arg_head param_head) })"

text \<open>The in-graph reading of one side: a name that some type answers keeps its spelling.\<close>

function rewrite_opt :: "(string \<Rightarrow> string option) \<Rightarrow> string \<Rightarrow> string option" where
  "rewrite_opt rename rest =
     (if rest = [] then Some []
      else if takeWhile is_name_char rest \<noteq> [] then do {
        name \<leftarrow> rename (takeWhile is_name_char rest);
        map_option (append name) (rewrite_opt rename (dropWhile is_name_char rest)) }
      else map_option (Cons (hd rest)) (rewrite_opt rename (tl rest)))"
  by pat_completeness auto
termination
proof (relation "measure (\<lambda>(_, rest). length rest)", goal_cases)
  case (2 rename rest)
  then have "length (dropWhile is_name_char rest) < length rest"
    by (cases rest) (auto simp: le_imp_less_Suc length_dropWhile_le split: if_splits)
  then show ?case by simp
qed auto

declare rewrite_opt.simps [simp del]

definition in_graph_name :: "resolver \<Rightarrow> compare_context \<Rightarrow> side \<Rightarrow> string \<Rightarrow> string option" where
  "in_graph_name rec cx s token =
     (case primitive_keyword token of
        None \<Rightarrow> Some token
      | Some keyword \<Rightarrow>
          (if starts_with token ''System.'' then Some keyword
           else do {
             found \<leftarrow> resolve_in_scope rec cx s token;
             Some (if found = None then keyword else token) }))"

definition in_graph_primitives ::
  "resolver \<Rightarrow> compare_context \<Rightarrow> string \<Rightarrow> side \<Rightarrow> string option option" where
  "in_graph_primitives rec cx descriptor s =
     (if \<not> balanced_arguments descriptor then Some None
      else map_option Some (rewrite_opt (in_graph_name rec cx s) descriptor))"

definition can_accept :: "nat \<Rightarrow> resolver \<Rightarrow> compare_context \<Rightarrow> string \<Rightarrow> string \<Rightarrow> bool option" where
  "can_accept fuel rec cx arg param =
     do {
       first \<leftarrow> accepts fuel rec cx (canonical_primitives arg) (canonical_primitives param);
       if first then Some True
       else if \<not> graph_declares_primitive_name (cx_index cx) then Some False
       else do {
         arg' \<leftarrow> in_graph_primitives rec cx arg Argument;
         param' \<leftarrow> in_graph_primitives rec cx param Parameter;
         case (arg', param') of
           (Some a, Some p) \<Rightarrow> accepts fuel rec (cx\<lparr>cx_reading := In_Graph\<rparr>) a p
         | _ \<Rightarrow> Some False } }"

section \<open>Fitting an overload\<close>

definition overload_count_admits :: "method_overload_params \<Rightarrow> nat \<Rightarrow> nat option \<Rightarrow> bool" where
  "overload_count_admits overload values type_args \<longleftrightarrow>
     (case mo_arity overload of None \<Rightarrow> True | Some (mn, mx) \<Rightarrow> in_range mn mx values)
     \<and> (case type_args of
          None \<Rightarrow> True
        | Some written \<Rightarrow>
            (case mo_type_params overload of None \<Rightarrow> True | Some own \<Rightarrow> otp_count own = written))"

definition INTERPOLATED_ARG_DESCRIPTOR :: string where
  "INTERPOLATED_ARG_DESCRIPTOR = ''@interpolated-string''"

definition INTERPOLATED_HANDLER_MARK :: string where
  "INTERPOLATED_HANDLER_MARK = ''@interpolated-string-handler''"

definition marked_handler ::
  "resolver \<Rightarrow> def_index \<Rightarrow> contexts \<Rightarrow> string \<Rightarrow> string \<Rightarrow> string \<Rightarrow> bool option" where
  "marked_handler rec index contexts param_file ns param =
     do {
       found \<leftarrow> resolve_type rec contexts param_file ns [] (descriptor_head param);
       Some (case found of
               None \<Rightarrow> False
             | Some idx \<Rightarrow> ml_method_params (di_member_lists index ! idx) INTERPOLATED_HANDLER_MARK \<noteq> None) }"

definition receiver_binding :: "def_index \<Rightarrow> nat \<Rightarrow> frag_ref \<Rightarrow> string list option" where
  "receiver_binding index idx r =
     (if fr_receiver_type r = Some (d_name (di_defs index ! idx)) \<or> fr_name r = d_name (di_defs index ! idx)
      then fr_receiver_args r else None)"

text \<open>The wildcard of a parameter may stand for a type parameter of the method itself.\<close>

definition wildcard_open :: "method_overload_params \<Rightarrow> nat \<Rightarrow> string \<Rightarrow> bool" where
  "wildcard_open overload site param \<longleftrightarrow>
     CHR ''*'' \<in> set param
     \<and> (case mo_type_params overload of
          None \<Rightarrow> True
        | Some own \<Rightarrow> \<not> site < length (otp_sites own) \<or> otp_sites own ! site \<noteq> [])"

definition position_admits ::
  "nat \<Rightarrow> resolver \<Rightarrow> def_index \<Rightarrow> contexts \<Rightarrow> nat \<Rightarrow> method_overload_params \<Rightarrow> frag_ref \<Rightarrow> string
   \<Rightarrow> nat \<times> frag_arg_type option \<Rightarrow> bool option" where
  "position_admits fuel rec index contexts idx overload r source_file p =
     (case p of
        (site, None) \<Rightarrow> Some True
      | (site, Some arg) \<Rightarrow>
          (if \<not> site < length (mo_params overload) then Some True
           else if (case mo_arity overload of None \<Rightarrow> False
                    | Some (_, mx) \<Rightarrow> mx = -1 \<and> length (mo_params overload) \<le> site + 1) then Some True
           else do {
             arg_type \<leftarrow> materialize rec index contexts arg source_file r;
             case arg_type of
               None \<Rightarrow> Some True
             | Some at' \<Rightarrow>
                 (let param = mo_params overload ! site in
                  if wildcard_open overload site param then Some True
                  else (case substitute_receiver_type param (receiver_binding index idx r)
                               (length (ml_type_params (di_member_lists index ! idx))) of
                          None \<Rightarrow> Some True
                        | Some param_type \<Rightarrow> do {
                            handler \<leftarrow> (if at' = INTERPOLATED_ARG_DESCRIPTOR
                              then marked_handler rec index contexts (mo_file overload)
                                     (d_namespace (di_defs index ! idx)) param_type
                              else Some False);
                            if handler then Some True
                            else can_accept fuel rec
                              \<lparr>cx_index = index, cx_contexts = contexts, cx_source_file = source_file,
                               cx_param_file = mo_file overload, cx_reference = r, cx_owner_idx = idx,
                               cx_reading = Keyword\<rparr>
                              (if at' = INTERPOLATED_ARG_DESCRIPTOR then ''string'' else at') param_type })) }))"

definition argument_positions_admit ::
  "nat \<Rightarrow> resolver \<Rightarrow> def_index \<Rightarrow> contexts \<Rightarrow> nat \<Rightarrow> method_overload_params \<Rightarrow> frag_ref \<Rightarrow> string \<Rightarrow> bool option" where
  "argument_positions_admit fuel rec index contexts idx overload r source_file =
     (case fr_arg_types r of
        None \<Rightarrow> Some True
      | Some args \<Rightarrow>
          all_opt (position_admits fuel rec index contexts idx overload r source_file) (enumerate 0 args))"

text \<open>\<open>a && b && c\<close> where each test may not return.\<close>

definition and_opt :: "bool option \<Rightarrow> bool option \<Rightarrow> bool option" where
  "and_opt a b = do { x \<leftarrow> a; if x then b else Some False }"

definition call_fits ::
  "nat \<Rightarrow> resolver \<Rightarrow> def_index \<Rightarrow> contexts \<Rightarrow> nat \<Rightarrow> frag_ref \<Rightarrow> string \<Rightarrow> call_shape
   \<Rightarrow> method_overload_params \<Rightarrow> bool option" where
  "call_fits fuel rec index contexts idx r source_file call overload =
     and_opt (Some (overload_count_admits overload (ca_values call) (ca_type_args call)))
       (and_opt (lambda_overload_admits rec index contexts idx overload r)
         (argument_positions_admit fuel rec index contexts idx overload r source_file))"

definition call_admits ::
  "nat \<Rightarrow> resolver \<Rightarrow> def_index \<Rightarrow> contexts \<Rightarrow> nat \<Rightarrow> frag_ref \<Rightarrow> string \<Rightarrow> bool option" where
  "call_admits fuel rec index contexts idx r source_file =
     (case call_arity r of
        None \<Rightarrow> Some True
      | Some call \<Rightarrow>
          (case fr_member r of
             None \<Rightarrow> Some False
           | Some member \<Rightarrow>
               (case ml_method_params (di_member_lists index ! idx) member of
                  None \<Rightarrow>
                    and_opt (Some (method_call_admits index idx member call))
                      (lambda_arity_admits rec index contexts idx (Some member) r)
                | Some overloads \<Rightarrow>
                    ex_opt (call_fits fuel rec index contexts idx r source_file call) overloads)))"

end
