(* ===== verification/ArgFacts.thy ===== *)
theory ArgFacts
  imports ArgCompat
begin

text \<open>
  What the comparison of types reads: the canonical form of every written type, and a name it
  rewrites for ever.
\<close>

section \<open>Types as they are written\<close>

text \<open>A written type: its head, its type arguments and its array brackets.\<close>

datatype written_type = Written (w_head: string) (w_args: "written_type list") (w_suffix: string)

fun print_type :: "written_type \<Rightarrow> string" where
  "print_type (Written h [] suffix) = h @ suffix"
| "print_type (Written h (t # ts) suffix) =
     h @ ''<'' @ print_type t @ concat (map (\<lambda>u. '','' @ print_type u) ts) @ ''>'' @ suffix"

fun type_ok :: "written_type \<Rightarrow> bool" where
  "type_ok (Written h ts suffix) \<longleftrightarrow>
     h \<noteq> [] \<and> list_all is_name_char h \<and> is_array_suffix suffix
     \<and> (suffix = [] \<or> hd suffix = CHR ''['') \<and> list_all type_ok ts"

fun type_heads :: "written_type \<Rightarrow> string set" where
  "type_heads (Written h ts suffix) = insert h (\<Union> (type_heads ` set ts))"

fun type_depth :: "written_type \<Rightarrow> nat" where
  "type_depth (Written h ts suffix) = Suc (Max (insert 0 (type_depth ` set ts)))"

lemma name_char_plain [simp]:
  "\<not> is_name_char CHR ''<''" "\<not> is_name_char CHR ''>''" "\<not> is_name_char CHR '',''"
  "\<not> is_name_char CHR ''[''" "\<not> is_name_char CHR '']''" "\<not> is_name_char CHR ''?''"
  "\<not> is_name_char CHR ''*''" "\<not> is_name_char CHR ''@''"
  by (simp_all add: is_name_char_def ascii_defs)

lemma name_char_graphic: "is_name_char c \<Longrightarrow> graphic c"
  by (auto simp: is_name_char_def ascii_defs graphic_def)

lemma name_char_neq:
  assumes "is_name_char c"
  shows "c \<noteq> CHR ''<''" "c \<noteq> CHR ''>''" "c \<noteq> CHR '',''" "c \<noteq> CHR ''[''" "c \<noteq> CHR '']''"
  using assms name_char_plain by metis+

lemma split_list_plain:
  "list_all (\<lambda>c. c \<noteq> CHR ''<'' \<and> c \<noteq> CHR ''>'' \<and> c \<noteq> CHR '','') s \<Longrightarrow>
   split_list (Suc d) cur args (s @ rest) = split_list (Suc d) (cur @ s) args rest"
  by (induction s arbitrary: cur) auto

lemma name_plain: "list_all is_name_char h \<Longrightarrow> list_all (\<lambda>c. c \<noteq> CHR ''<'' \<and> c \<noteq> CHR ''>'' \<and> c \<noteq> CHR '','') h"
  by (auto simp: list_all_iff dest: name_char_neq)

lemma suffix_plain: "is_array_suffix s \<Longrightarrow> list_all (\<lambda>c. c \<noteq> CHR ''<'' \<and> c \<noteq> CHR ''>'' \<and> c \<noteq> CHR '','') s"
  by (auto simp: is_array_suffix_def list_all_iff)

text \<open>A whole type inside an argument list is read as one piece of the current argument.\<close>

lemma split_list_type:
  "type_ok t \<Longrightarrow> split_list (Suc d) cur args (print_type t @ rest) = split_list (Suc d) (cur @ print_type t) args rest"
proof (induction t arbitrary: d cur rest)
  case (Written h ts suffix)
  have inner: "split_list (Suc (Suc d)) c args (concat (map (\<lambda>u. '','' @ print_type u) us) @ r)
      = split_list (Suc (Suc d)) (c @ concat (map (\<lambda>u. '','' @ print_type u) us)) args r"
    if "set us \<subseteq> set ts" for us c r
    using that
  proof (induction us arbitrary: c)
    case (Cons u us)
    then have "type_ok u" "u \<in> set ts" using Written.prems by (auto simp: list_all_iff)
    with Cons Written.IH [of u "Suc d"] show ?case by simp
  qed simp
  show ?case
  proof (cases ts)
    case Nil
    with Written.prems show ?thesis
      by (simp add: split_list_plain [OF name_plain] split_list_plain [OF suffix_plain])
  next
    case (Cons t us)
    with Written.prems have ok: "list_all is_name_char h" "is_array_suffix suffix" "type_ok t" by auto
    have t: "split_list (Suc (Suc d)) c args (print_type t @ r) = split_list (Suc (Suc d)) (c @ print_type t) args r" for c r
      using Written.IH [of t "Suc d"] ok Cons by simp
    show ?thesis
      using Cons inner [of us]
      by (simp add: split_list_plain [OF name_plain [OF ok(1)]] split_list_plain [OF suffix_plain [OF ok(2)]] t subset_insertI)
  qed
qed

lemma print_not_Nil: "type_ok t \<Longrightarrow> print_type t \<noteq> []"
  by (cases t rule: print_type.cases) auto

lemma split_list_args:
  "type_ok t \<Longrightarrow> list_all type_ok ts \<Longrightarrow> is_array_suffix suffix \<Longrightarrow>
   split_list 1 [] args (print_type t @ concat (map (\<lambda>u. '','' @ print_type u) ts) @ ''>'' @ suffix)
   = Some (args @ map print_type (t # ts), suffix)"
proof (induction ts arbitrary: t args)
  case Nil
  then show ?case by (simp add: split_list_type [of _ 0, simplified] print_not_Nil)
next
  case (Cons u ts)
  from Cons.IH [of u "args @ [print_type t]"] Cons.prems show ?case
    by (simp add: split_list_type [of _ 0, simplified] print_not_Nil)
qed

lemma find_char_None: "str_find_char s c = None \<longleftrightarrow> c \<notin> set s"
  by (auto simp: str_find_char_def position_facts)

lemma find_char_hd: "str_find_char (c # s) c = Some 0"
  by (simp add: str_find_char_def)

lemma find_char_append: "c \<notin> set s \<Longrightarrow> str_find_char (s @ r) c = map_option (\<lambda>i. length s + i) (str_find_char r c)"
  unfolding str_find_char_def
  by (cases "position ((=) c) r"; induction s) auto

lemma split_printed:
  assumes "type_ok (Written h ts suffix)"
  shows "split_descriptor (print_type (Written h ts suffix)) = Some (h, map print_type ts, suffix)"
proof -
  have h: "h \<noteq> []" "list_all is_name_char h" "CHR ''<'' \<notin> set h" "CHR ''['' \<notin> set h"
    using assms by (auto simp: list_all_iff dest: name_char_neq)
  have s: "is_array_suffix suffix" "CHR ''<'' \<notin> set suffix"
    using assms by (auto simp: is_array_suffix_def list_all_iff)
  show ?thesis
  proof (cases ts)
    case (Cons t us)
    then have "split_list 0 [] [] (CHR ''<'' # print_type t @ concat (map (\<lambda>u. '','' @ print_type u) us) @ CHR ''>'' # suffix)
        = Some (map print_type ts, suffix)"
      using split_list_args [of t us suffix "[]"] assms by simp
    with Cons h show ?thesis
      by (simp add: split_descriptor_def Let_def find_char_append find_char_hd starts_with_def del: split_list.simps)
  next
    case Nil
    have none: "str_find_char (h @ suffix) CHR ''<'' = None" using h s by (simp add: find_char_None)
    have "or_default (length (h @ suffix)) (str_find_char (h @ suffix) CHR ''['') = length h"
    proof (cases suffix)
      case Nil
      have "str_find_char h CHR ''['' = None" using h by (simp add: find_char_None)
      with Nil show ?thesis by simp
    next
      case (Cons b bs)
      with assms have "b = CHR ''[''" by simp
      with Cons h show ?thesis by (simp add: find_char_append find_char_hd)
    qed
    moreover have "\<not> starts_with suffix ''<''" using s by (cases suffix) (auto simp: starts_with_def)
    ultimately show ?thesis
      using Nil h s none by (simp add: split_descriptor_def)
  qed
qed


section \<open>The canonical form of a written type\<close>

fun type_meaning :: "resolver \<Rightarrow> compare_context \<Rightarrow> side \<Rightarrow> written_type \<Rightarrow> canon" where
  "type_meaning rec cx s (Written h ts suffix) =
     (case resolve_in_scope rec cx s h of
        Some (Some idx) \<Rightarrow>
          Canon_Generic (''@'' @ d_id (di_defs (cx_index cx) ! idx)) (map (type_meaning rec cx s) ts) suffix
      | _ \<Rightarrow> canon_name h (map (type_meaning rec cx s) ts) suffix)"

text \<open>The name is answered by a type of the index, or by nothing and is no alias.\<close>

definition head_settled :: "resolver \<Rightarrow> compare_context \<Rightarrow> side \<Rightarrow> string \<Rightarrow> bool" where
  "head_settled rec cx s h \<longleftrightarrow>
     (case resolve_in_scope rec cx s h of
        None \<Rightarrow> False
      | Some (Some _) \<Rightarrow> True
      | Some None \<Rightarrow> alias_in (cx_contexts cx) (fst (cx_scope cx s)) h = None)"

lemma hd_print: "type_ok t \<Longrightarrow> is_name_char (hd (print_type t))"
  by (cases t rule: print_type.cases) (auto simp: list_all_iff)

lemma graphic_bracket [simp]: "graphic CHR ''>''" "graphic CHR ''[''" "graphic CHR '']''"
  by (simp_all add: graphic_def byte_def)

lemma last_append_graphic:
  "graphic (last pre) \<Longrightarrow> (suffix \<noteq> [] \<Longrightarrow> graphic (last suffix)) \<Longrightarrow> graphic (last (pre @ suffix))"
  by (cases "suffix = []") simp_all

lemma last_print:
  assumes "type_ok t"
  shows "graphic (last (print_type t))"
proof (cases t)
  case (Written h ts suffix)
  then have ok: "h \<noteq> []" "list_all is_name_char h" "is_array_suffix suffix" using assms by simp_all
  have "last h \<in> set h" using ok(1) by simp
  with ok(2) have h: "graphic (last h)" by (intro name_char_graphic) (simp add: list_all_iff)
  have suffix: "graphic (last suffix)" if "suffix \<noteq> []"
  proof -
    have "last suffix \<in> set suffix" using that by simp
    with ok(3) have "last suffix = CHR ''['' \<or> last suffix = CHR '']''" by (simp add: is_array_suffix_def list_all_iff)
    then show ?thesis by auto
  qed
  show ?thesis
  proof (cases ts)
    case Nil
    then have "print_type t = h @ suffix" by (simp add: Written)
    then show ?thesis using last_append_graphic [OF h suffix] by simp
  next
    case (Cons u us)
    let ?pre = "h @ ''<'' @ print_type u @ concat (map (\<lambda>v. '','' @ print_type v) us) @ ''>''"
    have p: "print_type t = ?pre @ suffix" by (simp add: Written Cons)
    have "graphic (last ?pre)" by (simp only: last_append) simp
    then show ?thesis unfolding p by (rule last_append_graphic) (rule suffix)
  qed
qed

lemma trim_printed: "type_ok t \<Longrightarrow> trim (print_type t) = print_type t"
  by (rule trim_graphic) (simp_all add: print_not_Nil last_print name_char_graphic [OF hd_print])

lemma print_is_type: "type_ok t \<Longrightarrow> print_type t \<noteq> ''?'' \<and> print_type t \<noteq> ''*''"
  using hd_print [of t] by auto

lemma collect_opt_all:
  "(\<And>x. x \<in> set xs \<Longrightarrow> f (g x) = Some (Some (h x))) \<Longrightarrow> collect_opt f (map g xs) = Some (Some (map h xs))"
  by (induction xs) auto

lemma type_depth_arg: "t \<in> set ts \<Longrightarrow> type_depth (Written h ts suffix) \<le> Suc fuel \<Longrightarrow> type_depth t \<le> fuel"
  using Max_ge [of "insert 0 (type_depth ` set ts)" "type_depth t"] by simp

text \<open>
  C27. A written type with arguments, nested ones and arrays included, is read back as its tree, provided each of its
  heads is settled: it resolves to a type of the index, or it does not and is no alias of the file either. The
  canonical form then names, at every node, the type of the index the head resolves to, or the head itself in its
  canonical spelling. A head that is an alias of a type outside the index is not settled: it is replaced by the last
  name of its target and read again, which need not end (\<open>same_named_alias_never_returns\<close>).
\<close>

theorem canonical_reads_types:
  assumes "type_ok t" and "\<forall>h \<in> type_heads t. head_settled rec cx s h" and "type_depth t \<le> fuel"
  shows "canonical fuel rec cx s (print_type t) = Some (Some (type_meaning rec cx s t))"
  using assms
proof (induction t arbitrary: fuel)
  case (Written h ts suffix)
  let ?t = "Written h ts suffix"
  obtain n where n: "fuel = Suc n" using Written.prems(3) by (cases fuel) auto
  have args: "collect_opt (canonical n rec cx s) (map print_type ts) = Some (Some (map (type_meaning rec cx s) ts))"
  proof (rule collect_opt_all)
    fix u assume u: "u \<in> set ts"
    show "canonical n rec cx s (print_type u) = Some (Some (type_meaning rec cx s u))"
    proof (rule Written.IH [OF u])
      show "type_ok u" using Written.prems(1) u by (simp add: list_all_iff)
      show "\<forall>h \<in> type_heads u. head_settled rec cx s h" using Written.prems(2) u by auto
      show "type_depth u \<le> n" using type_depth_arg [OF u] Written.prems(3) n by blast
    qed
  qed
  have "head_settled rec cx s h" using Written.prems(2) by simp
  then show ?case
    using print_is_type [OF Written.prems(1)]
    by (auto simp: n trim_printed [OF Written.prems(1)] split_printed [OF Written.prems(1)] args head_settled_def
      split: option.splits)
qed

section \<open>An alias for an external type of the same name\<close>

text \<open>
  One file with \<open>using Task = System.Threading.Tasks.Task;\<close>, a generic type \<open>Box\<close>, a type with the
  overloads \<open>Run(Box<string>)\<close> and \<open>Run(Box<Task>)\<close>, and a call of \<open>Run\<close> with a \<open>Box<Task>\<close>.
\<close>

definition task_box :: frag_def where
  "task_box = (sample_def ''Box'' ''Box'' 1 [])\<lparr>fd_type_params := [''T'']\<rparr>"

definition task_store :: frag_def where
  "task_store = (sample_def ''Store'' ''Store'' 2 [(1, 1), (1, 1)])\<lparr>fd_method_params :=
     sm_insert ''Run'' [[''Box<string>''], [''Box<Task>'']] sm_new\<rparr>"

definition task_fragments :: "(string \<times> fragment) list" where
  "task_fragments =
     [(''a.cs'', defs_and_usings [task_box, task_store] [Using_Alias ''Task'' ''System.Threading.Tasks.Task'' False])]"

definition task_call :: frag_ref where
  "task_call = (name_probe ''store'' [] [])\<lparr>fr_member := Some ''Run'', fr_arg_count := Some 1,
     fr_arg_types := Some [Some (Arg_Known ''Box<Task>'')]\<rparr>"

lemma task_distinct: "distinct (map def_key [task_box, task_store])"
  by (simp add: task_box_def task_store_def def_key_def sample_def_def)

lemmas task_index = one_file_index [OF task_distinct, of "''a.cs''" "[Using_Alias ''Task'' ''System.Threading.Tasks.Task'' False]",
    folded task_fragments_def]

lemma task_qualified: "di_qualified (build_def_index task_fragments) = index_of [''Box'', ''Store'']"
  unfolding task_index by (simp add: task_box_def task_store_def sample_def_def)

lemma task_lists:
  "di_member_lists (build_def_index task_fragments) = [lists_first ''a.cs'' task_box, lists_first ''a.cs'' task_store]"
  "di_defs (build_def_index task_fragments) = [first_def ''a.cs'' task_box, first_def ''a.cs'' task_store]"
  by (simp_all add: task_index)

lemma task_overloads:
  "ml_method_params (lists_first ''a.cs'' task_store) ''Run'' =
     Some [\<lparr>mo_params = [''Box<string>''], mo_file = ''a.cs'', mo_type_params = None, mo_arity = Some (1, 1)\<rparr>,
           \<lparr>mo_params = [''Box<Task>''], mo_file = ''a.cs'', mo_type_params = None, mo_arity = Some (1, 1)\<rparr>]"
  "ml_method_params (lists_first ''a.cs'' task_box) name = None"
  "ml_type_params (lists_first ''a.cs'' task_box) = [''T'']"
  by (simp_all add: lists_first_tables overloads_of_def task_store_def
     task_box_def sample_def_def same_length_def overload_entry_def om_get_insert one_entry upt_rec)

definition task_context :: file_context where
  "task_context = \<lparr>fc_usings = fu_default, fc_aliases = [''Task'' \<mapsto> ''System.Threading.Tasks.Task'']\<rparr>"

lemma task_contexts: "file_contexts None task_fragments ''a.cs'' = Some task_context"
  by (simp add: file_contexts_def Let_def attach_reach_def build_file_contexts_def task_fragments_def
      file_context_of_def local_using_def context_seed_def task_context_def seed_usings_def
      collect_global_usings_by_unit_def collect_using_def no_globals_def add_global_def)

abbreviation "task_index \<equiv> build_def_index task_fragments"

abbreviation "task_resolver n \<equiv> resolve_in n task_fragments (file_contexts None task_fragments)"

lemma task_lookups:
  "di_qualified task_index ''Box'' = Some 0" "di_qualified task_index ''System.Threading.Tasks.Task'' = None"
  by (simp_all add: task_qualified index_of_Some index_of_None)

lemma task_resolves:
  assumes "fr_qualified r = None" "fr_outer_types r = []" "fr_type_arg_count r = None"
  shows "fr_name r = ''Box'' \<Longrightarrow> task_resolver (Suc n) r fu_default [] (fc_aliases task_context) = Some (Ref_Resolved 0 Via_Namespace)"
    and "fr_name r = ''Task'' \<Longrightarrow> task_resolver (Suc n) r fu_default [] (fc_aliases task_context) = Some Ref_External"
  using assms
  by (simp_all add: resolve_type_ref.simps(2) [of n] resolve_step_def resolve_bare_def bare_steps_def outer_chains_def ref_prefixes_def level_step_def
     under_def reaches_def fu_default_def task_context_def type_candidate_def task_lookups)


definition task_compare :: compare_context where
  "task_compare = \<lparr>cx_index = task_index, cx_contexts = file_contexts None task_fragments, cx_source_file = ''a.cs'',
     cx_param_file = ''a.cs'', cx_reference = task_call, cx_owner_idx = 1, cx_reading = Keyword\<rparr>"

lemma task_fields:
  "cx_index task_compare = task_index" "cx_contexts task_compare = file_contexts None task_fragments"
  "cx_reading task_compare = Keyword"
  by (simp_all add: task_compare_def)

lemma task_scope:
  "cx_scope task_compare Argument = (''a.cs'', [], [])" "cx_scope task_compare Parameter = (''a.cs'', [], [])"
  by (simp_all add: task_compare_def cx_scope_def task_call_def name_probe_def or_empty_def task_lists first_def_def task_store_def sample_def_def)

lemma task_names:
  "resolve_in_scope (task_resolver (Suc n)) task_compare s ''Box'' = Some (Some 0)"
  "resolve_in_scope (task_resolver (Suc n)) task_compare s ''Task'' = Some None"
  "alias_in (cx_contexts task_compare) (fst (cx_scope task_compare s)) ''Task'' = Some ''System.Threading.Tasks.Task''"
proof -
  have scope: "cx_scope task_compare s = (''a.cs'', [], [])" by (cases s) (simp_all only: task_scope)
  have u: "fc_usings task_context = fu_default" by (simp add: task_context_def)
  have p: "fr_qualified (type_probe x [] []) = None" "fr_outer_types (type_probe x [] []) = []"
    "fr_type_arg_count (type_probe x [] []) = None" "fr_name (type_probe x [] []) = x" if "CHR ''.'' \<notin> set x" for x
    using that by (simp_all add: type_probe_def rsplit_once_def str_rfind_None [THEN iffD2] name_probe_def)
  show "resolve_in_scope (task_resolver (Suc n)) task_compare s ''Box'' = Some (Some 0)"
    "resolve_in_scope (task_resolver (Suc n)) task_compare s ''Task'' = Some None"
    unfolding resolve_in_scope_def scope prod.case resolve_type_def
    by (simp_all add: task_contexts task_fields u p task_resolves)
  show "alias_in (cx_contexts task_compare) (fst (cx_scope task_compare s)) ''Task'' = Some ''System.Threading.Tasks.Task''"
    unfolding scope by (simp add: alias_in_def task_contexts task_fields) (simp add: task_context_def)
qed

lemma task_descriptors:
  "normalize_alias_target ''System.Threading.Tasks.Task'' Keyword = Some ''Task''"
  "trim ''Task'' = ''Task''" "split_descriptor ''Task'' = Some (''Task'', [], [])"
  "trim ''Box<Task>'' = ''Box<Task>''" "split_descriptor ''Box<Task>'' = Some (''Box'', [''Task''], [])"
  "canonical_primitives ''Box<Task>'' = ''Box<Task>''" "canonical_primitives ''Box<string>'' = ''Box<string>''"
  by code_simp+

lemma task_loop: "canonical fuel (task_resolver (Suc n)) task_compare s ''Task'' = None"
proof (induction fuel)
  case (Suc fuel)
  then show ?case
    unfolding canonical.simps
    by (simp add: task_descriptors task_names task_fields(3))
qed simp


text \<open>
  Comparing an argument's type does not always return: with \<open>using Task =
  System.Threading.Tasks.Task;\<close> and no type of that name in the graph, deciding whether the first of
  the overloads \<open>Run(Box<string>)\<close> and \<open>Run(Box<Task>)\<close> fits a \<open>Box<Task>\<close> rewrites the alias to its
  own name for ever.
\<close>

theorem same_named_alias_never_returns:
  "call_admits fuel (resolve_in n task_fragments (file_contexts None task_fragments)) (build_def_index task_fragments)
     (file_contexts None task_fragments) 1 task_call ''a.cs'' = None"
proof -
  let ?rec = "task_resolver n"
  have member: "fr_member task_call = Some ''Run''"
    "call_arity task_call = Some \<lparr>ca_values = 1, ca_type_args = None\<rparr>"
    "fr_arg_types task_call = Some [Some (Arg_Known ''Box<Task>'')]"
    "lambda_call_of task_call = \<lparr>lc_arities = [], lc_shapes = [], lc_type_args_written = False\<rparr>"
    by (simp_all add: task_call_def name_probe_def call_arity_def lambda_call_of_def)
  have heads: "descriptor_head ''Box<Task>'' = ''Box''" "descriptor_head ''Box<string>'' = ''Box''"
    "count_char CHR ''<'' ''Box<Task>'' = 1" "count_char CHR ''<'' ''Box<string>'' = 1"
    by (simp_all add: descriptor_head_def count_char_def)
  have "same_head_admits fuel ?rec task_compare ''Box<Task>'' ''Box<string>'' ''Box'' = None"
  proof (cases n)
    case 0
    have "resolve_in_scope ?rec task_compare Argument ''Box'' = None"
      by (simp add: resolve_in_scope_def task_scope resolve_type_def task_fields task_contexts 0)
    then show ?thesis by (simp add: same_head_admits_def heads)
  next
    case (Suc m)
    have "canonical fuel ?rec task_compare Argument ''Box<Task>'' = None"
      by (cases fuel) (simp_all add: Suc task_descriptors task_loop)
    then show ?thesis
      by (simp add: same_head_admits_def heads Suc task_names task_fields task_lists task_overloads task_box_def [THEN arg_cong [where f = fd_type_params]] has_conversion_def
          canonically_equal_def)
  qed
  then have loop: "can_accept fuel ?rec task_compare ''Box<Task>'' ''Box<string>'' = None"
    by (simp add: can_accept_def accepts_def heads task_descriptors Let_def)
  have fields: "d_namespace (di_defs task_index ! 1) = []"
    by (simp add: task_lists first_def_def task_store_def sample_def_def)
  have "position_admits fuel ?rec task_index (file_contexts None task_fragments) 1
      \<lparr>mo_params = [''Box<string>''], mo_file = ''a.cs'', mo_type_params = None, mo_arity = Some (1, 1)\<rparr>
      task_call ''a.cs'' (0, Some (Arg_Known ''Box<Task>'')) = None"
    using loop
    by (simp add: position_admits_def materialize_def wildcard_open_def substitute_receiver_type_def
        INTERPOLATED_ARG_DESCRIPTOR_def task_compare_def del: One_nat_def)
  then show ?thesis
    using member
    by (simp add: call_admits_def task_lists task_overloads call_fits_def and_opt_def overload_count_admits_def in_range_def
        lambda_overload_admits_def overload_admits_def lambda_delegates_def lc_positions_def uninferable_def
        argument_positions_admit_def enumerate_eq_zip)
qed

lemma task_owner:
  "resolve_in_scope (task_resolver (Suc n)) task_compare s ''Store'' = Some (Some 1)"
proof -
  have scope: "cx_scope task_compare s = (''a.cs'', [], [])" by (cases s) (simp_all only: task_scope)
  have "di_qualified task_index ''Store'' = Some 1"
    by (simp add: task_qualified index_of_Some)
  then show ?thesis
    by (simp add: resolve_in_scope_def scope resolve_type_def task_contexts task_fields type_probe_def rsplit_once_def
        str_rfind_None [THEN iffD2] name_probe_def resolve_type_ref.simps(2) [of n] resolve_step_def resolve_bare_def
        bare_steps_def outer_chains_def ref_prefixes_def level_step_def under_def reaches_def fu_default_def
        task_context_def type_candidate_def)
qed

theorem canonical_reads_types_witness:
  "canonical 2 (resolve_in 1 task_fragments (file_contexts None task_fragments)) task_compare Argument ''Box<Store[]>''
     = Some (Some (Canon_Generic ''@Box'' [Canon_Generic ''@Store'' [] ''[]''] []))"
proof -
  let ?t = "Written ''Box'' [Written ''Store'' [] ''[]''] []"
  have names: "resolve_in_scope (task_resolver 1) task_compare Argument ''Box'' = Some (Some 0)"
    "resolve_in_scope (task_resolver 1) task_compare Argument ''Store'' = Some (Some 1)"
    using task_names(1) [of 0] task_owner [of 0] by simp_all
  have ids: "d_id (di_defs (cx_index task_compare) ! 0) = ''Box''" "d_id (di_defs (cx_index task_compare) ! 1) = ''Store''"
    by (simp_all add: task_fields task_lists first_def_def task_box_def task_store_def sample_def_def)
  have "type_ok ?t" by code_simp
  moreover have "\<forall>h \<in> type_heads ?t. head_settled (task_resolver 1) task_compare Argument h"
    using names by (simp add: head_settled_def)
  moreover have "type_depth ?t \<le> 2" by simp
  ultimately have "canonical 2 (task_resolver 1) task_compare Argument (print_type ?t)
      = Some (Some (type_meaning (task_resolver 1) task_compare Argument ?t))"
    by (rule canonical_reads_types)
  then show ?thesis using names ids by simp
qed

section \<open>An extern alias outside ASCII\<close>

text \<open>
  A target with an extern alias whose name ends in a two-byte character (here the bytes of a Latin
  letter) makes the segment before \<open>::\<close> be cut inside that character, which panics.
\<close>

lemma extern_alias_cut_panics: "normalize_alias_target (CHR 0xC3 # CHR 0xA9 # ''::Store'') Keyword = None"
  by code_simp

end
