(* ===== verification/Members.thy ===== *)
theory Members
  imports ArgFacts
begin

text \<open>
  Which type declares a member (\<open>src/resolve/members.rs\<close>): the membership tests, the search
  through the bases of a type and the choice among the declarations it finds.

  A closure the source passes as \<open>FnMut\<close> is a function of the definition and of the closure's own
  state, which it returns; \<open>None\<close> is a call that does not return.
\<close>

section \<open>Membership\<close>

definition declares_member :: "def_index \<Rightarrow> nat \<Rightarrow> string option \<Rightarrow> call_shape option \<Rightarrow> bool" where
  "declares_member index idx member call =
     (case member of
        None \<Rightarrow> False
      | Some m \<Rightarrow>
          (case call of
             Some c \<Rightarrow> m \<in> set (d_methods (di_defs index ! idx)) \<and> method_call_admits index idx m c
           | None \<Rightarrow>
               m \<in> set (d_methods (di_defs index ! idx))
               \<or> m \<in> set (ml_properties (di_member_lists index ! idx))
               \<or> m \<in> set (ml_fields (di_member_lists index ! idx))))"

definition declares_member_any_visibility ::
  "def_index \<Rightarrow> nat \<Rightarrow> string option \<Rightarrow> call_shape option \<Rightarrow> bool" where
  "declares_member_any_visibility index idx member call =
     (if declares_member index idx member call then True
      else (case member of
              None \<Rightarrow> False
            | Some m \<Rightarrow>
                (if m \<notin> set (ml_non_public_methods (di_member_lists index ! idx)) then False
                 else (case call of Some c \<Rightarrow> method_call_admits index idx m c | None \<Rightarrow> True))))"

definition declares_visible :: "bool \<Rightarrow> def_index \<Rightarrow> nat \<Rightarrow> frag_ref \<Rightarrow> bool" where
  "declares_visible any_visibility index idx r =
     (if any_visibility then declares_member_any_visibility index idx (fr_member r) (call_arity r)
      else declares_member index idx (fr_member r) (call_arity r))"

definition declares_here_for_ref ::
  "nat \<Rightarrow> resolver \<Rightarrow> def_index \<Rightarrow> contexts \<Rightarrow> nat \<Rightarrow> frag_ref \<Rightarrow> bool \<Rightarrow> string \<Rightarrow> bool option" where
  "declares_here_for_ref fuel rec index contexts idx r this_shaped source_file =
     and_opt (Some (declares_visible this_shaped index idx r)) (call_admits fuel rec index contexts idx r source_file)"

datatype member_shape = Shape_Call | Shape_Read

definition member_shape_of :: "frag_ref \<Rightarrow> member_shape" where
  "member_shape_of r = (if fr_arg_count r \<noteq> None then Shape_Call else Shape_Read)"

definition instance_vouches :: "def_index \<Rightarrow> nat \<Rightarrow> string \<Rightarrow> member_shape \<Rightarrow> bool" where
  "instance_vouches index idx member shape =
     (case shape of
        Shape_Call \<Rightarrow> member \<in> set (d_methods (di_defs index ! idx))
      | Shape_Read \<Rightarrow> declares_member index idx (Some member) None)"

definition member_vouched :: "def_index \<Rightarrow> nat \<Rightarrow> string option \<Rightarrow> member_shape \<Rightarrow> bool" where
  "member_vouched index idx member shape =
     (case member of
        None \<Rightarrow> False
      | Some m \<Rightarrow>
          instance_vouches index idx m shape
          \<or> list_ex (\<lambda>(name, _). name = m) (ml_extension_methods (di_member_lists index ! idx)))"

definition inherited_member_declared ::
  "nat \<Rightarrow> resolver \<Rightarrow> def_index \<Rightarrow> contexts \<Rightarrow> nat \<Rightarrow> frag_ref \<Rightarrow> string \<Rightarrow> bool option" where
  "inherited_member_declared fuel rec index contexts start r source_file =
     inheritance_walk_matches rec index contexts start
       (\<lambda>idx. and_opt (Some (declares_member index idx (fr_member r) (call_arity r)))
         (call_admits fuel rec index contexts idx r source_file))"

section \<open>The search through the bases\<close>

text \<open>The in-graph bases of a definition, in declaration order.\<close>

fun resolved_bases ::
  "resolver \<Rightarrow> def_index \<Rightarrow> file_context \<Rightarrow> nat \<Rightarrow> string list \<Rightarrow> nat list option" where
  "resolved_bases rec index ctx cur [] = Some []"
| "resolved_bases rec index ctx cur (base # bases) =
     do {
       res \<leftarrow> resolve_ref_by_arity rec index
         (name_probe base (d_namespace (di_defs index ! cur)) []) (Some (base_arity index cur base))
         (fc_usings ctx) (d_namespace (di_defs index ! cur)) (fc_aliases ctx);
       bs \<leftarrow> resolved_bases rec index ctx cur bases;
       Some (case res of Ref_Resolved b _ \<Rightarrow> b # bs | _ \<Rightarrow> bs) }"

definition is_interface :: "def_index \<Rightarrow> nat \<Rightarrow> bool" where
  "is_interface index i \<longleftrightarrow> d_kind (di_defs index ! i) = ''interface''"

text \<open>Classes before interfaces; no interface at all under \<open>skip_interfaces\<close>.\<close>

definition by_kind :: "def_index \<Rightarrow> bool \<Rightarrow> nat list \<Rightarrow> nat list" where
  "by_kind index skip_interfaces bs =
     filter (\<lambda>b. \<not> is_interface index b) bs @ (if skip_interfaces then [] else filter (is_interface index) bs)"

text \<open>The bases not seen yet, each once.\<close>

definition fresh :: "nat set \<Rightarrow> nat list \<Rightarrow> nat list" where
  "fresh seen bs = fold (\<lambda>b news. if b \<in> seen \<or> b \<in> set news then news else news @ [b]) bs []"

type_synonym 's search = "nat option \<times> nat set \<times> 's"

fun search_list :: "(nat \<Rightarrow> nat set \<Rightarrow> 's \<Rightarrow> 's search option) \<Rightarrow> nat list \<Rightarrow> nat set \<Rightarrow> 's \<Rightarrow> 's search option" where
  "search_list f [] seen s = Some (None, seen, s)"
| "search_list f (b # bs) seen s =
     do {
       (found, seen', s') \<leftarrow> f b seen s;
       case found of Some i \<Rightarrow> Some (Some i, seen', s') | None \<Rightarrow> search_list f bs seen' s' }"

fun declares_in_base_closure ::
  "nat \<Rightarrow> resolver \<Rightarrow> def_index \<Rightarrow> contexts \<Rightarrow> bool \<Rightarrow> (nat \<Rightarrow> 's \<Rightarrow> (bool \<times> 's) option)
   \<Rightarrow> nat \<Rightarrow> nat set \<Rightarrow> 's \<Rightarrow> 's search option" where
  "declares_in_base_closure 0 rec index contexts skip_interfaces declares cur seen s = None"
| "declares_in_base_closure (Suc fuel) rec index contexts skip_interfaces declares cur seen s =
     do {
       (hit, s') \<leftarrow> declares cur s;
       if hit then Some (Some cur, seen, s')
       else (case contexts (d_file (di_defs index ! cur)) of
               None \<Rightarrow> Some (None, seen, s')
             | Some ctx \<Rightarrow> do {
                 bs \<leftarrow> resolved_bases rec index ctx cur (ml_bases (di_member_lists index ! cur));
                 search_list (declares_in_base_closure fuel rec index contexts skip_interfaces declares)
                   (by_kind index skip_interfaces (fresh seen bs)) (seen \<union> set (fresh seen bs)) s' }) }"

text \<open>Each direct base is searched with its own set of seen definitions, which holds \<open>start\<close>.\<close>

fun search_branches ::
  "(nat \<Rightarrow> nat set \<Rightarrow> 's \<Rightarrow> 's search option) \<Rightarrow> nat \<Rightarrow> nat list \<Rightarrow> 's \<Rightarrow> (nat option \<times> 's) option" where
  "search_branches f start [] s = Some (None, s)"
| "search_branches f start (b # bs) s =
     do {
       (found, _, s') \<leftarrow> f b {start, b} s;
       case found of Some i \<Rightarrow> Some (Some i, s') | None \<Rightarrow> search_branches f start bs s' }"

definition first_base_declaring ::
  "resolver \<Rightarrow> def_index \<Rightarrow> contexts \<Rightarrow> nat \<Rightarrow> bool \<Rightarrow> (nat \<Rightarrow> 's \<Rightarrow> (bool \<times> 's) option) \<Rightarrow> 's
   \<Rightarrow> (nat option \<times> 's) option" where
  "first_base_declaring rec index contexts start skip_interfaces declares s =
     (case contexts (d_file (di_defs index ! start)) of
        None \<Rightarrow> Some (None, s)
      | Some ctx \<Rightarrow> do {
          bs \<leftarrow> resolved_bases rec index ctx start (ml_bases (di_member_lists index ! start));
          search_branches
            (declares_in_base_closure (length (di_defs index)) rec index contexts skip_interfaces declares)
            start (by_kind index skip_interfaces bs) s })"

text \<open>A test without state of its own.\<close>

definition stateless :: "(nat \<Rightarrow> bool option) \<Rightarrow> nat \<Rightarrow> unit \<Rightarrow> (bool \<times> unit) option" where
  "stateless P i u = map_option (\<lambda>b. (b, ())) (P i)"

definition first_base_where ::
  "resolver \<Rightarrow> def_index \<Rightarrow> contexts \<Rightarrow> nat \<Rightarrow> bool \<Rightarrow> (nat \<Rightarrow> bool option) \<Rightarrow> nat option option" where
  "first_base_where rec index contexts start skip_interfaces P =
     map_option fst (first_base_declaring rec index contexts start skip_interfaces (stateless P) ())"

definition base_member_declared ::
  "resolver \<Rightarrow> def_index \<Rightarrow> contexts \<Rightarrow> nat \<Rightarrow> string option \<Rightarrow> call_shape option \<Rightarrow> nat option option" where
  "base_member_declared rec index contexts start member call =
     first_base_where rec index contexts start True
       (\<lambda>idx. Some (declares_member_any_visibility index idx member call))"

definition base_member_for_ref ::
  "nat \<Rightarrow> resolver \<Rightarrow> def_index \<Rightarrow> contexts \<Rightarrow> nat \<Rightarrow> frag_ref \<Rightarrow> string \<Rightarrow> nat option option" where
  "base_member_for_ref fuel rec index contexts start r source_file =
     first_base_where rec index contexts start True
       (\<lambda>idx. and_opt (Some (declares_member_any_visibility index idx (fr_member r) (call_arity r)))
         (call_admits fuel rec index contexts idx r source_file))"

section \<open>Hidden declarations\<close>

text \<open>The closure that notes which of the declaring definitions it meets, and answers no.\<close>

definition note_declaring :: "nat list \<Rightarrow> nat \<Rightarrow> nat set \<Rightarrow> (bool \<times> nat set) option" where
  "note_declaring declaring idx hidden =
     Some (False, if idx \<in> set declaring then insert idx hidden else hidden)"

definition redeclares :: "def_index \<Rightarrow> string \<Rightarrow> nat \<Rightarrow> bool" where
  "redeclares index member idx \<longleftrightarrow>
     member \<in> set (ml_properties (di_member_lists index ! idx)) \<or> member \<in> set (ml_fields (di_member_lists index ! idx))"

fun hidden_by ::
  "resolver \<Rightarrow> def_index \<Rightarrow> contexts \<Rightarrow> string \<Rightarrow> nat list \<Rightarrow> nat list \<Rightarrow> nat set \<Rightarrow> nat set option" where
  "hidden_by rec index contexts member declaring [] hidden = Some hidden"
| "hidden_by rec index contexts member declaring (hider # hiders) hidden =
     (if \<not> redeclares index member hider then hidden_by rec index contexts member declaring hiders hidden
      else do {
        (_, hidden') \<leftarrow> first_base_declaring rec index contexts hider False (note_declaring declaring) hidden;
        hidden_by rec index contexts member declaring hiders hidden' })"

definition first_unhidden_declaration ::
  "resolver \<Rightarrow> def_index \<Rightarrow> contexts \<Rightarrow> nat list \<Rightarrow> string option \<Rightarrow> nat option option" where
  "first_unhidden_declaration rec index contexts declaring member =
     (case declaring of
        [] \<Rightarrow> Some None
      | first # rest \<Rightarrow>
          (case member of
             None \<Rightarrow> Some (Some first)
           | Some m \<Rightarrow>
               (if rest = [] then Some (Some first)
                else do {
                  hidden \<leftarrow> hidden_by rec index contexts m declaring declaring {};
                  Some (first_of (List.find (\<lambda>idx. idx \<notin> hidden) declaring) (Some first)) })))"

text \<open>The closure that collects every admitted definition, and answers no.\<close>

definition collect_admitted :: "(nat \<Rightarrow> bool option) \<Rightarrow> nat \<Rightarrow> nat list \<Rightarrow> (bool \<times> nat list) option" where
  "collect_admitted admits' idx declaring =
     do { a \<leftarrow> admits' idx; Some (False, if a \<and> idx \<notin> set declaring then declaring @ [idx] else declaring) }"

definition typed_receiver_base_member ::
  "nat \<Rightarrow> resolver \<Rightarrow> def_index \<Rightarrow> contexts \<Rightarrow> nat \<Rightarrow> frag_ref \<Rightarrow> bool \<Rightarrow> string \<Rightarrow> nat option option" where
  "typed_receiver_base_member fuel rec index contexts start r any_visibility source_file =
     (let skip_interfaces = \<not> is_interface index start;
          admits' = (\<lambda>idx. and_opt (Some (declares_visible any_visibility index idx r))
            (call_admits fuel rec index contexts idx r source_file))
      in if skip_interfaces \<or> fr_arg_count r \<noteq> None
         then first_base_where rec index contexts start skip_interfaces admits'
         else do {
           (_, declaring) \<leftarrow> first_base_declaring rec index contexts start False (collect_admitted admits') [];
           first_unhidden_declaration rec index contexts declaring (fr_member r) })"

definition nullable_unwrap_owns_member :: "string \<Rightarrow> string option \<Rightarrow> bool" where
  "nullable_unwrap_owns_member kind member \<longleftrightarrow>
     (kind = ''struct'' \<or> kind = ''enum'')
     \<and> member \<in> {Some ''Value'', Some ''HasValue'', Some ''GetValueOrDefault''}"

definition typed_receiver_precise_target ::
  "nat \<Rightarrow> resolver \<Rightarrow> def_index \<Rightarrow> contexts \<Rightarrow> nat \<Rightarrow> frag_ref \<Rightarrow> bool \<Rightarrow> bool \<Rightarrow> string
   \<Rightarrow> (nat option \<times> bool) option" where
  "typed_receiver_precise_target fuel rec index contexts ridx r this_shaped receiver_nullable source_file =
     (if receiver_nullable \<and> nullable_unwrap_owns_member (d_kind (di_defs index ! ridx)) (fr_member r)
      then Some (None, True)
      else do {
        here \<leftarrow> declares_here_for_ref fuel rec index contexts ridx r this_shaped source_file;
        target \<leftarrow> (if here then Some (Some ridx)
          else typed_receiver_base_member fuel rec index contexts ridx r this_shaped source_file);
        Some (target, False) })"

section \<open>Extension methods of a closure\<close>

text \<open>The key one definition of the closure offers, with the type arguments it was matched with.\<close>

definition own_extension_key :: "def_index \<Rightarrow> string \<Rightarrow> nat \<Rightarrow> (string \<times> string list option) option" where
  "own_extension_key index member idx =
     (let own_key = member @ '' '' @ d_name (di_defs index ! idx);
          mls = di_member_lists index ! idx
      in if di_extension index own_key \<noteq> None then
           Some (own_key, if ml_type_params mls = [] then None else Some (replicate (length (ml_type_params mls)) ''*''))
         else first_some (\<lambda>base.
           if di_extension index (member @ '' '' @ base) \<noteq> None
           then Some (member @ '' '' @ base, map_option snd (List.find (\<lambda>(k, _). k = base) (ml_base_generic_args mls)))
           else None) (ml_bases mls))"

definition extension_closure_key ::
  "resolver \<Rightarrow> def_index \<Rightarrow> contexts \<Rightarrow> nat \<Rightarrow> string \<Rightarrow> (string \<times> string list option) option option" where
  "extension_closure_key rec index contexts start member =
     do {
       found \<leftarrow> inheritance_walk_find rec index contexts start (\<lambda>idx. Some (own_extension_key index member idx \<noteq> None));
       Some (case found of None \<Rightarrow> None | Some idx \<Rightarrow> own_extension_key index member idx) }"

end
