(* ===== verification/MemberFacts.thy ===== *)
theory MemberFacts
  imports Members
begin

text \<open>What the search through the bases finds, for every resolver that answers base names.\<close>

section \<open>The search is exhaustive\<close>

lemma fresh_set: "set (fresh seen bs) = set bs - seen"
proof -
  have "set (fold (\<lambda>b news. if b \<in> seen \<or> b \<in> set news then news else news @ [b]) bs news) = set news \<union> (set bs - seen)" for news
    by (induction bs arbitrary: news) auto
  then show ?thesis by (simp add: fresh_def)
qed

definition usable :: "def_index \<Rightarrow> bool \<Rightarrow> nat \<Rightarrow> bool" where
  "usable index skip_interfaces b \<longleftrightarrow> \<not> (skip_interfaces \<and> is_interface index b)"

lemma by_kind_set: "set (by_kind index skip bs) = {b \<in> set bs. usable index skip b}"
  by (auto simp: by_kind_def usable_def)

text \<open>The steps that enter no definition seen before.\<close>

definition avoiding :: "nat set \<Rightarrow> (nat \<times> nat) set \<Rightarrow> (nat \<times> nat) set" where
  "avoiding seen steps = {(x, y) \<in> steps. y \<notin> seen}"

lemma avoiding_mono: "seen \<subseteq> seen' \<Longrightarrow> (b, i) \<in> (avoiding seen' steps)\<^sup>* \<Longrightarrow> (b, i) \<in> (avoiding seen steps)\<^sup>*"
  by (erule rtrancl_mono [THEN subsetD, rotated]) (auto simp: avoiding_def)

lemma avoiding_steps: "(b, i) \<in> (avoiding seen steps)\<^sup>* \<Longrightarrow> (b, i) \<in> steps\<^sup>*"
  by (erule rtrancl_mono [THEN subsetD, rotated]) (auto simp: avoiding_def)

lemma avoiding_end: "(b, i) \<in> (avoiding seen steps)\<^sup>* \<Longrightarrow> i = b \<or> i \<notin> seen"
  by (erule rtranclE) (auto simp: avoiding_def)

text \<open>What one search leaves behind: a declaring definition, reached without entering a definition that was
  seen before, or a set without one that is closed.\<close>

definition searched ::
  "(nat \<times> nat) set \<Rightarrow> (nat \<Rightarrow> bool) \<Rightarrow> (nat \<Rightarrow> bool) \<Rightarrow> nat set \<Rightarrow> nat set \<Rightarrow> nat option \<times> nat set \<times> unit \<Rightarrow> bool" where
  "searched steps p u roots seen res \<longleftrightarrow>
     (case res of (found, seen', _) \<Rightarrow>
        seen \<subseteq> seen'
        \<and> (case found of
             Some i \<Rightarrow> p i \<and> (\<exists>b \<in> roots. (b, i) \<in> (avoiding seen steps)\<^sup>*)
           | None \<Rightarrow> \<forall>x \<in> roots \<union> (seen' - seen). x \<in> roots \<or> u x \<longrightarrow> \<not> p x \<and> steps `` {x} \<subseteq> seen'))"

lemma searched_roots:
  "searched steps p u roots seen (Some i, seen', ()) \<Longrightarrow> roots \<subseteq> roots' \<Longrightarrow> searched steps p u roots' seen (Some i, seen', ())"
  by (auto simp: searched_def)

text \<open>One list of roots, when the search of each of them is as it should be.\<close>

lemma search_list_ok:
  assumes f: "\<And>b seen. b \<in> set bs \<Longrightarrow> seen0 \<subseteq> seen \<Longrightarrow> seen \<subseteq> U \<Longrightarrow>
      \<exists>res. f b seen () = Some res \<and> fst (snd res) \<subseteq> U \<and> searched steps p u {b} seen res"
    and "seen0 \<subseteq> seen" "seen \<subseteq> U"
  shows "\<exists>res. search_list f bs seen () = Some res \<and> fst (snd res) \<subseteq> U \<and> searched steps p u (set bs) seen res"
  using assms
proof (induction bs arbitrary: seen)
  case Nil
  then show ?case by (simp add: searched_def)
next
  case (Cons b bs)
  obtain found seen' where one: "f b seen () = Some (found, seen', ())" "seen' \<subseteq> U"
      "searched steps p u {b} seen (found, seen', ())"
    using Cons.prems(1) [of b seen] Cons.prems(2,3) by fastforce
  then have sub: "seen \<subseteq> seen'" by (simp add: searched_def)
  show ?case
  proof (cases found)
    case (Some i)
    with one show ?thesis by (auto intro: searched_roots)
  next
    case None
    have "\<exists>res. search_list f bs seen' () = Some res \<and> fst (snd res) \<subseteq> U \<and> searched steps p u (set bs) seen' res"
    proof (rule Cons.IH)
      show "\<exists>res. f c s () = Some res \<and> fst (snd res) \<subseteq> U \<and> searched steps p u {c} s res"
        if "c \<in> set bs" "seen0 \<subseteq> s" "s \<subseteq> U" for c s
        using Cons.prems(1) that by simp
      show "seen0 \<subseteq> seen'" "seen' \<subseteq> U" using Cons.prems(2) sub one(2) by auto
    qed
    then obtain found' seen'' where rest: "search_list f bs seen' () = Some (found', seen'', ())" "seen'' \<subseteq> U"
        "searched steps p u (set bs) seen' (found', seen'', ())" by fastforce
    have "searched steps p u (set (b # bs)) seen (found', seen'', ())"
    proof (cases found')
      case (Some i)
      with rest sub show ?thesis by (auto simp: searched_def dest: avoiding_mono [OF sub])
    next
      case none: None
      have done1: "\<not> p x \<and> steps `` {x} \<subseteq> seen'" if "x = b \<or> x \<in> seen' - seen \<and> u x" for x
        using one(3) None that by (auto simp: searched_def)
      have done2: "\<not> p x \<and> steps `` {x} \<subseteq> seen''" if "x \<in> set bs \<or> x \<in> seen'' - seen' \<and> u x" for x
        using rest(3) none that by (auto simp: searched_def)
      have sub': "seen' \<subseteq> seen''" using rest(3) none by (simp add: searched_def)
      show ?thesis
        using sub sub' done1 done2 none by (auto simp: searched_def) blast+
    qed
    with None one(1) rest show ?thesis by simp
  qed
qed

text \<open>The types a base lookup is about: those inherited from, and the start itself only as its own base.\<close>

definition base_reach :: "(nat \<times> nat) set \<Rightarrow> nat \<Rightarrow> nat set" where
  "base_reach r start = {i. if i = start then (start, start) \<in> r else (start, i) \<in> r\<^sup>+}"

context base_answers
begin

definition steps :: "bool \<Rightarrow> (nat \<times> nat) set" where
  "steps skip = {(c, b) \<in> extends. usable index skip b}"

lemma resolved_bases_ok:
  assumes "contexts (d_file (di_defs index ! cur)) = Some ctx"
  shows "\<exists>bs. resolved_bases rec index ctx cur (ml_bases (di_member_lists index ! cur)) = Some bs
    \<and> set bs = extends `` {cur} \<and> set bs \<subseteq> {..<length (di_defs index)}"
proof -
  have "\<exists>bs. resolved_bases rec index ctx cur bases = Some bs \<and> set bs = {b. \<exists>base \<in> set bases. base_of cur base = Some b}"
    for bases
  proof (induction bases)
    case (Cons base bases)
    let ?ns = "d_namespace (di_defs index ! cur)"
    obtain res where res: "resolve_ref_by_arity rec index (name_probe base ?ns [])
        (Some (base_arity index cur base)) (fc_usings ctx) ?ns (fc_aliases ctx) = Some res"
      using by_arity_answers [OF name_probe_base] by blast
    have "base_of cur base = (case res of Ref_Resolved b _ \<Rightarrow> Some b | _ \<Rightarrow> None)"
      by (simp add: base_of_def assms res split: ref_resolution.splits)
    with res Cons.IH show ?case by (cases res) auto
  qed simp
  then obtain bs where bs: "resolved_bases rec index ctx cur (ml_bases (di_member_lists index ! cur)) = Some bs"
      "set bs = {b. \<exists>base \<in> set (ml_bases (di_member_lists index ! cur)). base_of cur base = Some b}" by blast
  have "set bs = extends `` {cur}" unfolding bs(2) by (auto simp: extends_def)
  moreover have "set bs \<subseteq> {..<length (di_defs index)}" unfolding bs(2) using base_of_in_index by auto
  ultimately show ?thesis using bs(1) by blast
qed

lemma no_context_no_bases: "contexts (d_file (di_defs index ! cur)) = None \<Longrightarrow> extends `` {cur} = {}"
  by (auto simp: extends_def base_of_def)

lemma closure_ok:
  assumes P: "\<And>i. i < length (di_defs index) \<Longrightarrow> P i = Some (p i)"
    and "cur \<in> seen" "seen \<subseteq> {..<length (di_defs index)}" "length (di_defs index) - card seen < fuel"
  shows "\<exists>res. declares_in_base_closure fuel rec index contexts skip (stateless P) cur seen () = Some res
    \<and> fst (snd res) \<subseteq> {..<length (di_defs index)} \<and> searched (steps skip) p (usable index skip) {cur} seen res"
  using assms(2-)
proof (induction fuel arbitrary: cur seen)
  case (Suc fuel)
  let ?N = "length (di_defs index)" and ?u = "usable index skip"
  have cur: "cur < ?N" using Suc.prems by auto
  then have test: "stateless P cur () = Some (p cur, ())" by (simp add: stateless_def P)
  show ?case
  proof (cases "p cur")
    case True
    with test Suc.prems show ?thesis by (simp add: searched_def)
  next
    case miss: False
    show ?thesis
    proof (cases "contexts (d_file (di_defs index ! cur))")
      case None
      with no_context_no_bases [OF None] test miss Suc.prems show ?thesis
        by (auto simp: searched_def steps_def)
    next
      case (Some ctx)
      obtain bs where bs: "resolved_bases rec index ctx cur (ml_bases (di_member_lists index ! cur)) = Some bs"
          "set bs = extends `` {cur}" "set bs \<subseteq> {..<?N}"
        using resolved_bases_ok [OF Some] by blast
      define news where "news = by_kind index skip (fresh seen bs)"
      define seen1 where "seen1 = seen \<union> set (fresh seen bs)"
      have news: "set news = {b \<in> set bs - seen. ?u b}" by (simp add: news_def by_kind_set fresh_set)
      have seen1: "seen1 = seen \<union> set bs" by (auto simp: seen1_def fresh_set)
      have fin: "finite seen1" "seen1 \<subseteq> {..<?N}" using Suc.prems(2) bs(3) finite_subset by (auto simp: seen1)
      have "\<exists>res. search_list (declares_in_base_closure fuel rec index contexts skip (stateless P)) news seen1 () = Some res
          \<and> fst (snd res) \<subseteq> {..<?N} \<and> searched (steps skip) p ?u (set news) seen1 res"
      proof (rule search_list_ok [where seen0 = seen1])
        fix b s assume b: "b \<in> set news" and s: "seen1 \<subseteq> s" "s \<subseteq> {..<?N}"
        have "seen \<subset> seen1" using b by (auto simp: news seen1)
        then have "card seen < card s"
          using s by (meson finite_lessThan finite_subset psubset_card_mono psubset_subset_trans)
        moreover have "card s \<le> ?N" using s(2) card_mono [of "{..<?N}" s] by simp
        ultimately have "?N - card s < fuel" using Suc.prems(3) by linarith
        with b s show "\<exists>res. declares_in_base_closure fuel rec index contexts skip (stateless P) b s () = Some res
            \<and> fst (snd res) \<subseteq> {..<?N} \<and> searched (steps skip) p ?u {b} s res"
          by (intro Suc.IH) (auto simp: news seen1)
      qed (use fin in auto)
      then obtain found seen' where res: "search_list (declares_in_base_closure fuel rec index contexts skip (stateless P))
            news seen1 () = Some (found, seen', ())" "seen' \<subseteq> {..<?N}"
          "searched (steps skip) p ?u (set news) seen1 (found, seen', ())" by fastforce
      have "searched (steps skip) p ?u {cur} seen (found, seen', ())"
      proof (cases found)
        case (Some i)
        then obtain b where b: "b \<in> set news" "(b, i) \<in> (avoiding seen1 (steps skip))\<^sup>*" "p i" "seen1 \<subseteq> seen'"
          using res(3) by (auto simp: searched_def)
        have "(b, i) \<in> (avoiding seen (steps skip))\<^sup>*" by (rule avoiding_mono [OF _ b(2)]) (simp add: seen1)
        moreover have "(cur, b) \<in> avoiding seen (steps skip)" using b(1) bs(2) by (auto simp: news steps_def avoiding_def)
        ultimately show ?thesis using Some b by (auto simp: searched_def seen1 intro: converse_rtrancl_into_rtrancl)
      next
        case none: None
        then have sub: "seen1 \<subseteq> seen'"
          and closed: "\<And>x. x \<in> set news \<or> x \<in> seen' - seen1 \<and> ?u x \<Longrightarrow> \<not> p x \<and> steps skip `` {x} \<subseteq> seen'"
          using res(3) by (auto simp: searched_def)
        have "steps skip `` {cur} \<subseteq> seen'" using bs(2) sub by (auto simp: steps_def seen1)
        moreover have "\<not> p x \<and> steps skip `` {x} \<subseteq> seen'" if "x \<in> seen' - seen" "?u x" for x
          using that by (intro closed) (auto simp: news seen1)
        ultimately show ?thesis using none sub miss by (auto simp: searched_def seen1)
      qed
      with res test miss Some bs(1) show ?thesis by (auto simp: news_def seen1_def)
    qed
  qed
qed simp

lemma branches_ok:
  assumes P: "\<And>i. i < length (di_defs index) \<Longrightarrow> P i = Some (p i)" and start: "start < length (di_defs index)"
    and "set bs \<subseteq> {..<length (di_defs index)}"
  shows "\<exists>found. search_branches
      (declares_in_base_closure (length (di_defs index)) rec index contexts skip (stateless P)) start bs () = Some (found, ())
    \<and> (case found of
         Some i \<Rightarrow> p i \<and> (\<exists>b \<in> set bs. (b, i) \<in> (avoiding {start, b} (steps skip))\<^sup>*)
       | None \<Rightarrow> \<forall>b \<in> set bs. \<exists>seen'. searched (steps skip) p (usable index skip) {b} {start, b} (None, seen', ()))"
  using assms(3)
proof (induction bs)
  case (Cons b bs)
  let ?N = "length (di_defs index)"
  have "finite {start, b}" "card {start, b} \<noteq> 0" by (simp_all add: card_insert_if)
  then have "?N - card {start, b} < ?N" using start by linarith
  then obtain found seen' where one: "declares_in_base_closure ?N rec index contexts skip (stateless P) b {start, b} ()
        = Some (found, seen', ())" "searched (steps skip) p (usable index skip) {b} {start, b} (found, seen', ())"
    using closure_ok [of P p b "{start, b}" ?N skip] P Cons.prems start by fastforce
  show ?case
  proof (cases found)
    case (Some i)
    with one show ?thesis by (auto simp: searched_def)
  next
    case None
    obtain found' where rest: "search_branches
        (declares_in_base_closure ?N rec index contexts skip (stateless P)) start bs () = Some (found', ())"
      "case found' of
         Some i \<Rightarrow> p i \<and> (\<exists>b \<in> set bs. (b, i) \<in> (avoiding {start, b} (steps skip))\<^sup>*)
       | None \<Rightarrow> \<forall>b \<in> set bs. \<exists>seen'. searched (steps skip) p (usable index skip) {b} {start, b} (None, seen', ())"
      using Cons.IH Cons.prems by auto
    with one None show ?thesis by (auto split: option.splits)
  qed
qed simp

text \<open>A way from \<open>start\<close> can be cut at its last visit of \<open>start\<close>.\<close>

lemma last_departure:
  "(start, i) \<in> r\<^sup>+ \<Longrightarrow> i \<noteq> start \<Longrightarrow>
   \<exists>b. (start, b) \<in> r \<and> b \<noteq> start \<and> (b, i) \<in> (r \<inter> {(x, y). y \<noteq> start})\<^sup>*"
proof (induction rule: trancl_induct)
  case (step y z)
  show ?case
  proof (cases "y = start")
    case True
    with step show ?thesis by blast
  next
    case False
    with step.IH obtain b where "(start, b) \<in> r" "b \<noteq> start" "(b, y) \<in> (r \<inter> {(x, y). y \<noteq> start})\<^sup>*" by blast
    with step show ?thesis by (blast intro: rtrancl_into_rtrancl)
  qed
qed blast

lemma searched_closed:
  assumes "searched r p u {b} {start, b} (None, seen', ())" "(b, i) \<in> (r \<inter> {(x, y). y \<noteq> start})\<^sup>*"
    and "\<And>x y. (x, y) \<in> r \<Longrightarrow> u y"
  shows "\<not> p i"
proof -
  have closed: "\<not> p x \<and> r `` {x} \<subseteq> seen'" if "x = b \<or> x \<in> seen' - {start, b} \<and> u x" for x
    using assms(1) that by (auto simp: searched_def)
  have "i = b \<or> i \<in> seen' - {start, b} \<and> u i"
    using assms(2)
  proof (induction rule: rtrancl_induct)
    case (step y z)
    then have "z \<in> seen'" "z \<noteq> start" "u z" using closed [of y] assms(3) by auto
    then show ?case by blast
  qed simp
  with closed show ?thesis by blast
qed

lemma first_base_exact:
  assumes P: "\<And>i. i < length (di_defs index) \<Longrightarrow> P i = Some (p i)" and start: "start < length (di_defs index)"
  shows "\<exists>found. first_base_where rec index contexts start skip P = Some found
    \<and> (case found of
         Some i \<Rightarrow> p i \<and> i \<in> base_reach (steps skip) start
       | None \<Rightarrow> \<forall>i \<in> base_reach (steps skip) start. \<not> p i)"
proof (cases "contexts (d_file (di_defs index ! start))")
  case None
  from no_context_no_bases [OF this] have "i \<notin> base_reach (steps skip) start" for i
    by (auto simp: base_reach_def steps_def dest: tranclD)
  with None show ?thesis by (simp add: first_base_where_def first_base_declaring_def Ball_def)
next
  case (Some ctx)
  obtain bs where bs: "resolved_bases rec index ctx start (ml_bases (di_member_lists index ! start)) = Some bs"
      "set bs = extends `` {start}" "set bs \<subseteq> {..<length (di_defs index)}"
    using resolved_bases_ok [OF Some] by blast
  have roots: "set (by_kind index skip bs) = steps skip `` {start}"
    using bs(2) by (auto simp: by_kind_set steps_def)
  have sub: "set (by_kind index skip bs) \<subseteq> {..<length (di_defs index)}" using bs(3) by (auto simp: by_kind_set)
  have "\<exists>found. search_branches
      (declares_in_base_closure (length (di_defs index)) rec index contexts skip (stateless P)) start
        (by_kind index skip bs) () = Some (found, ())
    \<and> (case found of
         Some i \<Rightarrow> p i \<and> (\<exists>b \<in> set (by_kind index skip bs). (b, i) \<in> (avoiding {start, b} (steps skip))\<^sup>*)
       | None \<Rightarrow> \<forall>b \<in> set (by_kind index skip bs). \<exists>seen'. searched (steps skip) p (usable index skip) {b} {start, b} (None, seen', ()))"
    by (rule branches_ok) (use P start sub in auto)
  then obtain found where found: "search_branches
      (declares_in_base_closure (length (di_defs index)) rec index contexts skip (stateless P)) start
        (by_kind index skip bs) () = Some (found, ())"
    "case found of
       Some i \<Rightarrow> p i \<and> (\<exists>b \<in> steps skip `` {start}. (b, i) \<in> (avoiding {start, b} (steps skip))\<^sup>*)
     | None \<Rightarrow> \<forall>b \<in> steps skip `` {start}. \<exists>seen'. searched (steps skip) p (usable index skip) {b} {start, b} (None, seen', ())"
    unfolding roots by blast
  have "\<not> p i" if none: "found = None" and i: "(start, i) \<in> (steps skip)\<^sup>+" "i \<noteq> start" for i
  proof -
    obtain b where b: "(start, b) \<in> steps skip" "(b, i) \<in> (steps skip \<inter> {(x, y). y \<noteq> start})\<^sup>*"
      using last_departure [OF i] by blast
    with found(2) none obtain seen' where "searched (steps skip) p (usable index skip) {b} {start, b} (None, seen', ())" by auto
    from searched_closed [OF this b(2)] show ?thesis by (auto simp: steps_def)
  qed
  moreover have "\<not> p start" if "found = None" "(start, start) \<in> steps skip"
    using found(2) that by (fastforce simp: searched_def)
  moreover have "p i \<and> i \<in> base_reach (steps skip) start" if hit: "found = Some i" for i
  proof -
    obtain b where b: "(start, b) \<in> steps skip" "(b, i) \<in> (avoiding {start, b} (steps skip))\<^sup>*" "p i"
      using found(2) hit by auto
    then have "(start, i) \<in> (steps skip)\<^sup>+" by (blast intro: rtrancl_into_trancl2 avoiding_steps)
    with b avoiding_end [OF b(2)] show ?thesis by (auto simp: base_reach_def)
  qed
  ultimately show ?thesis
    using Some bs(1) found(1)
    by (auto simp: first_base_where_def first_base_declaring_def base_reach_def split: option.splits if_splits)
qed

end

section \<open>Members of a base\<close>

text \<open>The inheritance relation without its steps to interfaces.\<close>

definition class_inheritance :: "(string \<times> fragment) list \<Rightarrow> contexts \<Rightarrow> (nat \<times> nat) set" where
  "class_inheritance fragments contexts =
     {(c, b) \<in> inheritance fragments contexts. \<not> is_interface (build_def_index fragments) b}"

text \<open>
  C25. The lookup of \<open>base.M\<close> always returns, and it answers exactly when there is something to answer: a class the
  start inherits from, over bases that are no interfaces, which declares the member with a fitting argument count.
  The start itself counts among these types only when one of the bases it lists resolves to it, as for a class that
  extends a generic namesake the graph does not have; no cycle of other types makes it its own base.
\<close>

theorem base_member_exact:
  assumes "start < length (di_defs (build_def_index fragments))"
  shows "\<exists>found. base_member_declared (resolve_in (Suc n) fragments contexts) (build_def_index fragments) contexts
      start member call = Some found
    \<and> (case found of
         Some i \<Rightarrow> declares_member_any_visibility (build_def_index fragments) i member call
           \<and> i \<in> base_reach (class_inheritance fragments contexts) start
       | None \<Rightarrow> \<forall>i \<in> base_reach (class_inheritance fragments contexts) start.
           \<not> declares_member_any_visibility (build_def_index fragments) i member call)"
proof -
  have steps: "built.steps n fragments contexts True = class_inheritance fragments contexts"
    by (auto simp: built.steps_def class_inheritance_def usable_def extends_depth)
  show ?thesis
    unfolding base_member_declared_def
    by (rule built.first_base_exact [where skip = True and fuel = n and fragments = fragments and contexts = contexts, unfolded steps]) (use assms in simp_all)
qed

section \<open>A type that extends its generic namesake\<close>

text \<open>One file with the classes of \<open>rows\<close>, each with its base and the type arguments it writes for it.\<close>

definition class_of :: "string \<times> string \<times> string list \<Rightarrow> frag_def" where
  "class_of row =
     (case row of (name, base, args) \<Rightarrow>
        (sample_def name name 1 [])\<lparr>fd_bases := if base = [] then [] else [base],
           fd_base_generic_args := if args = [] then sm_new else sm_insert base args sm_new\<rparr>)"

definition classes_file :: "(string \<times> string \<times> string list) list \<Rightarrow> (string \<times> fragment) list" where
  "classes_file rows = [(''a.cs'', defs_and_usings (map class_of rows) [])]"

lemma classes_context: "file_contexts None (classes_file rows) ''a.cs'' = Some \<lparr>fc_usings = fu_default, fc_aliases = \<lambda>_. None\<rparr>"
  by (simp add: file_contexts_def Let_def attach_reach_def build_file_contexts_def classes_file_def
      file_context_of_def context_seed_def seed_usings_def collect_global_usings_by_unit_def no_globals_def)

lemma plain_name_resolves:
  "di_qualified index name = Some i \<Longrightarrow>
   resolve_type_ref (Suc n) index contexts (name_probe name [] []) fu_default [] (\<lambda>_. None) = Some (Ref_Resolved i Via_Namespace)"
  by (simp add: resolve_type_ref.simps(2) [of n] resolve_step_def resolve_bare_def bare_steps_def outer_chains_def
      ref_prefixes_def level_step_def under_def reaches_def fu_default_def type_candidate_def name_probe_def)

lemma unshared_name_resolves:
  "CHR ''.'' \<notin> set name \<Longrightarrow> length (or_default [] (di_simple index name)) < 2 \<Longrightarrow> di_qualified index name = Some i \<Longrightarrow>
   resolve_ref_by_arity (resolve_type_ref (Suc n) index contexts) index (name_probe name [] []) (Some k) fu_default []
     (\<lambda>_. None) = Some (Ref_Resolved i Via_Namespace)"
  using plain_name_resolves [of index name i n contexts]
  by (simp add: resolve_ref_by_arity_def Let_def rsplit_once_def str_rfind_None [THEN iffD2])
    (simp add: name_probe_def rsplit_once_def str_rfind_None [THEN iffD2])

lemma class_of_fields [simp]:
  "def_key (class_of r) = (fst r, 0)" "fd_name (class_of r) = fst r" "fd_id (class_of r) = fst r"
  by (cases r; simp add: class_of_def def_key_def sample_def_def)+

lemma classes_keys: "distinct (map fst rows) \<Longrightarrow> distinct (map def_key (map class_of rows))"
  by (auto simp: distinct_map inj_on_def)

lemma classes_index:
  assumes "distinct (map fst rows)"
  shows "di_qualified (build_def_index (classes_file rows)) = index_of (map fst rows)"
    and "di_defs (build_def_index (classes_file rows)) = map (\<lambda>r. first_def ''a.cs'' (class_of r)) rows"
    and "di_member_lists (build_def_index (classes_file rows)) = map (\<lambda>r. lists_first ''a.cs'' (class_of r)) rows"
  by (simp_all add: classes_file_def one_file_index [OF classes_keys [OF assms]] comp_def)

lemma classes_pool:
  assumes "distinct (map fst rows)"
  shows "length (or_default [] (di_simple (build_def_index (classes_file rows)) name)) < 2"
  unfolding classes_file_def
  by (rule one_file_pool [OF classes_keys [OF assms]]) (use assms in \<open>simp add: comp_def\<close>)

lemma classes_base:
  assumes rows: "distinct (map fst rows)" and i: "i < length rows" "rows ! i = (name, base, args)" and base: "base \<noteq> []" "CHR ''.'' \<notin> set base"
    and j: "index_of (map fst rows) base = Some j"
  shows "(i, j) \<in> inheritance (classes_file rows) (file_contexts None (classes_file rows))"
proof -
  let ?fs = "classes_file rows"
  have lists: "di_member_lists (build_def_index ?fs) ! i = lists_first ''a.cs'' (class_of (name, base, args))"
    "di_defs (build_def_index ?fs) ! i = first_def ''a.cs'' (class_of (name, base, args))"
    using i by (simp_all add: classes_index [OF rows])
  have bases: "ml_bases (di_member_lists (build_def_index ?fs) ! i) = [base]"
    unfolding lists by (simp add: lists_first_tables class_of_def base)
  have "d_file (di_defs (build_def_index ?fs) ! i) = ''a.cs''" "d_namespace (di_defs (build_def_index ?fs) ! i) = []"
    by (simp_all add: lists first_def_def class_of_def sample_def_def)
  then have "built.base_of 0 ?fs (file_contexts None ?fs) i base = Some j"
    using unshared_name_resolves [OF base(2) classes_pool [OF rows]] j
    by (simp add: built.base_of_def classes_context classes_index(1) [OF rows])
  then show ?thesis
    unfolding inheritance_def One_nat_def built.extends_def using bases by auto
qed

abbreviation "derived_classes \<equiv> classes_file [(''Derived'', ''Base'', []), (''Base'', [], [])]"

lemma class_declares_run:
  assumes "distinct (map fst rows)" "i < length rows"
  shows "declares_member_any_visibility (build_def_index (classes_file rows)) i (Some ''Run'') None"
    and "\<not> is_interface (build_def_index (classes_file rows)) i"
  using assms
  by (simp_all add: declares_member_any_visibility_def declares_member_def is_interface_def classes_index first_def_def
      class_of_def sample_def_def case_prod_unfold)

theorem base_member_exact_witness:
  "base_member_declared (resolve_in 1 derived_classes (file_contexts None derived_classes)) (build_def_index derived_classes)
      (file_contexts None derived_classes) 0 (Some ''Run'') None \<noteq> Some None"
proof -
  let ?rows = "[(''Derived'', ''Base'', []), (''Base'', [], [])] :: (string \<times> string \<times> string list) list"
  have rows: "distinct (map fst ?rows)" by simp
  have "(0, 1) \<in> inheritance (classes_file ?rows) (file_contexts None (classes_file ?rows))"
    by (rule classes_base [OF rows, of 0 "''Derived''" "''Base''" "[]"]) (simp_all add: index_of_Some)
  then have "1 \<in> base_reach (class_inheritance derived_classes (file_contexts None derived_classes)) 0"
    using class_declares_run(2) [OF rows, of 1] by (auto simp: base_reach_def class_inheritance_def)
  moreover have "0 < length (di_defs (build_def_index derived_classes))" by (simp add: classes_index [OF rows])
  note base_member_exact [OF this, of 0 "file_contexts None derived_classes" "Some ''Run''" None]
  ultimately show ?thesis
    using class_declares_run(1) [OF rows, of 1] by (auto simp: One_nat_def split: option.splits)
qed

text \<open>
  The start is not out of bounds: in \<open>class Command : Command<int>\<close>, whose generic namesake is
  not in the graph, the base resolves to the class itself and \<open>base.Run()\<close> is answered by it.
\<close>

theorem self_base_answers_start:
  "base_member_declared (resolve_in (Suc n) (classes_file [(''Command'', ''Command'', [''int''])])
       (file_contexts None (classes_file [(''Command'', ''Command'', [''int''])])))
     (build_def_index (classes_file [(''Command'', ''Command'', [''int''])]))
     (file_contexts None (classes_file [(''Command'', ''Command'', [''int''])])) 0 (Some ''Run'') None
   = Some (Some 0)"
proof -
  let ?rows = "[(''Command'', ''Command'', [''int''])] :: (string \<times> string \<times> string list) list"
  let ?fs = "classes_file ?rows" and ?contexts = "file_contexts None (classes_file [(''Command'', ''Command'', [''int''])])"
  have rows: "distinct (map fst ?rows)" by simp
  have lists: "di_member_lists (build_def_index ?fs) = [lists_first ''a.cs'' (class_of (''Command'', ''Command'', [''int'']))]"
    "di_defs (build_def_index ?fs) = [first_def ''a.cs'' (class_of (''Command'', ''Command'', [''int'']))]"
    by (simp_all add: classes_index [OF rows])
  have fields: "ml_bases (lists_first ''a.cs'' (class_of (''Command'', ''Command'', [''int'']))) = [''Command'']"
    "d_file (first_def ''a.cs'' (class_of (''Command'', ''Command'', [''int'']))) = ''a.cs''" "d_namespace (first_def ''a.cs'' (class_of (''Command'', ''Command'', [''int'']))) = []"
    by (simp_all add: lists_first_tables first_def_def class_of_def sample_def_def)
  have base: "resolve_ref_by_arity (resolve_in (Suc n) ?fs ?contexts) (build_def_index ?fs) (name_probe ''Command'' [] [])
      (Some k) fu_default [] (\<lambda>_. None) = Some (Ref_Resolved 0 Via_Namespace)" for k
    by (rule unshared_name_resolves [OF _ classes_pool [OF rows]]) (simp_all add: classes_index [OF rows] index_of_Some)
  have test: "declares_member_any_visibility (build_def_index ?fs) 0 (Some ''Run'') None"
    "\<not> is_interface (build_def_index ?fs) 0"
    using class_declares_run [OF rows, of 0] by simp_all
  show ?thesis
    using test base
    by (simp add: base_member_declared_def first_base_where_def first_base_declaring_def lists fields classes_context
        by_kind_def stateless_def)
qed

end
