(* ===== verification/Receivers.thy ===== *)
theory Receivers
  imports MemberFacts
begin

text \<open>
  What the receiver of a member access is (\<open>src/resolve/receiver.rs\<close>): its type read off the fields
  and properties of the enclosing type, off the delegate parameter a lambda fills, or off a property
  of another receiver (\<open>src/resolve/property_hop.rs\<close>), and which scored candidates it admits.
\<close>

section \<open>The type of a receiver\<close>

text \<open>\<open>resolve_receiver_type\<close> of \<open>src/resolve/arity.rs\<close>: a written arity is final when several
  definitions share the name.\<close>

definition resolve_receiver_type ::
  "resolver \<Rightarrow> def_index \<Rightarrow> frag_ref \<Rightarrow> nat option \<Rightarrow> file_usings \<Rightarrow> string \<Rightarrow> alias_map
   \<Rightarrow> ref_resolution option" where
  "resolve_receiver_type rec index probe arity usings ns aliases =
     (if fr_qualified probe \<noteq> None then rec (probe\<lparr>fr_type_arg_count := arity\<rparr>) usings ns aliases
      else (let full = or_default (fr_name probe) (aliases (fr_name probe));
                shared = 2 \<le> length (or_default [] (di_simple index (bare_head full)))
            in if (case arity of Some n \<Rightarrow> 1 \<le> n | None \<Rightarrow> False) \<and> shared
               then rec (probe\<lparr>fr_type_arg_count := arity\<rparr>) usings ns aliases
               else resolve_ref_by_arity rec index probe arity usings ns aliases))"

definition receiver_type_and_nullable :: "frag_ref \<Rightarrow> string option \<times> bool" where
  "receiver_type_and_nullable r = (fr_receiver_type r, fr_receiver_nullable r)"

definition declared_field_or_property_type :: "def_index \<Rightarrow> nat \<Rightarrow> string \<Rightarrow> (frag_fact \<times> string) option" where
  "declared_field_or_property_type index idx name =
     (let mls = di_member_lists index ! idx; own_file = d_file (di_defs index ! idx)
      in case om_get (ml_field_types mls) name of
           Some ft \<Rightarrow> Some (ft, or_default own_file (om_get (ml_field_type_files mls) name))
         | None \<Rightarrow>
             (case om_get (ml_property_types mls) name of
                None \<Rightarrow> None
              | Some ft \<Rightarrow> Some (ft, or_default own_file (om_get (ml_property_type_files mls) name))))"

record receiver_field_type =
  rf_type_name :: string
  rf_qualified_type :: "string option"
  rf_declaring_def :: nat
  rf_declaring_file :: string

datatype bare_member_lookup = Type_Priority | Receiver_Fallback

definition field_type_at :: "def_index \<Rightarrow> string \<Rightarrow> nat \<Rightarrow> receiver_field_type option" where
  "field_type_at index name idx =
     map_option (\<lambda>(ft, f). \<lparr>rf_type_name = ff_type_name ft, rf_qualified_type = ff_qualified_type ft,
         rf_declaring_def = idx, rf_declaring_file = f\<rparr>)
       (declared_field_or_property_type index idx name)"

text \<open>Each base in declaration order, followed by its own inheritance walk.\<close>

fun inherited_field_type ::
  "resolver \<Rightarrow> def_index \<Rightarrow> contexts \<Rightarrow> file_context \<Rightarrow> bool \<Rightarrow> string \<Rightarrow> nat \<Rightarrow> string list
   \<Rightarrow> receiver_field_type option option" where
  "inherited_field_type rec index contexts ctx skip_interfaces name start [] = Some None"
| "inherited_field_type rec index contexts ctx skip_interfaces name start (base # bases) =
     (let ns = d_namespace (di_defs index ! start) in do {
        res \<leftarrow> resolve_ref_by_arity rec index (name_probe base ns []) (Some (base_arity index start base))
          (fc_usings ctx) ns (fc_aliases ctx);
        case res of
          Ref_Resolved b _ \<Rightarrow> do {
            found \<leftarrow> inheritance_walk_find rec index contexts b
              (\<lambda>i. Some (\<not> (skip_interfaces \<and> is_interface index i) \<and> field_type_at index name i \<noteq> None));
            case found of
              Some i \<Rightarrow> Some (field_type_at index name i)
            | None \<Rightarrow> inherited_field_type rec index contexts ctx skip_interfaces name start bases }
        | _ \<Rightarrow> inherited_field_type rec index contexts ctx skip_interfaces name start bases })"

definition bare_receiver_field_or_property_type ::
  "resolver \<Rightarrow> def_index \<Rightarrow> contexts \<Rightarrow> string \<Rightarrow> frag_ref \<Rightarrow> file_usings \<Rightarrow> alias_map \<Rightarrow> bare_member_lookup
   \<Rightarrow> receiver_field_type option option" where
  "bare_receiver_field_or_property_type rec index contexts ns r usings aliases use_kind =
     (if fr_outer_types r = [] then Some None
      else do {
        res \<leftarrow> rec (name_probe (last (fr_outer_types r)) ns (fr_outer_types r)) usings ns aliases;
        case res of
          Ref_Resolved start _ \<Rightarrow>
            (let skip_interfaces = (use_kind = Type_Priority \<and> \<not> is_interface index start)
             in case field_type_at index (fr_name r) start of
                  Some rf \<Rightarrow> Some (Some rf)
                | None \<Rightarrow>
                    (case contexts (d_file (di_defs index ! start)) of
                       None \<Rightarrow> Some None
                     | Some ctx \<Rightarrow>
                         inherited_field_type rec index contexts ctx skip_interfaces (fr_name r) start
                           (ml_bases (di_member_lists index ! start))))
        | _ \<Rightarrow> Some None })"

section \<open>The parameter a lambda fills\<close>

definition descriptor_meaning ::
  "resolver \<Rightarrow> def_index \<Rightarrow> contexts \<Rightarrow> nat \<Rightarrow> string \<Rightarrow> string \<Rightarrow> string option" where
  "descriptor_meaning rec index contexts declaring_def declaring_file hd_part =
     (let d = di_defs index ! declaring_def
      in case contexts declaring_file of
           None \<Rightarrow> Some (''?'' @ hd_part)
         | Some ctx \<Rightarrow> do {
             res \<leftarrow> rec (name_probe hd_part (d_namespace d) (def_outer_types d)) (fc_usings ctx) (d_namespace d) (fc_aliases ctx);
             Some (case res of
                     Ref_Resolved didx _ \<Rightarrow> d_id (di_defs index ! didx)
                   | _ \<Rightarrow> ''?'' @ hd_part) })"

text \<open>An overload that may take the lambda, its declaring definition and the lambda's position in it.\<close>

type_synonym lambda_taker = "method_overload_params \<times> nat \<times> nat"

definition owner_takers ::
  "resolver \<Rightarrow> def_index \<Rightarrow> contexts \<Rightarrow> frag_lambda_slot \<Rightarrow> nat option \<Rightarrow> lambda_taker list option" where
  "owner_takers rec index contexts slot owner =
     (case owner of
        None \<Rightarrow> Some []
      | Some oidx \<Rightarrow> do {
          declaring \<leftarrow> (if ml_method_params (di_member_lists index ! oidx) (fl_member slot) \<noteq> None then Some (Some oidx)
            else base_member_declared rec index contexts oidx (Some (fl_member slot)) None);
          Some (case declaring of
                  None \<Rightarrow> []
                | Some didx \<Rightarrow>
                    map (\<lambda>o'. (o', didx, fl_arg_index slot))
                      (or_default [] (ml_method_params (di_member_lists index ! didx) (fl_member slot)))) })"

definition takes_this :: "string \<Rightarrow> method_overload_params \<Rightarrow> bool" where
  "takes_this this_type overload =
     (case mo_params overload of
        [] \<Rightarrow> False
      | p # _ \<Rightarrow> (case strip_prefix p ''this '' of None \<Rightarrow> False | Some t \<Rightarrow> descriptor_head t = this_type))"

definition extension_takers ::
  "resolver \<Rightarrow> def_index \<Rightarrow> contexts \<Rightarrow> frag_lambda_slot \<Rightarrow> nat option \<Rightarrow> lambda_taker list option" where
  "extension_takers rec index contexts slot owner =
     do {
       key \<leftarrow> (case owner of
         Some oidx \<Rightarrow> map_option (map_option fst) (extension_closure_key rec index contexts oidx (fl_member slot))
       | None \<Rightarrow> Some (Some (fl_member slot @ '' '' @ fl_owner slot)));
       Some (case key of
               None \<Rightarrow> []
             | Some k \<Rightarrow>
                 concat (map (\<lambda>cand.
                   map (\<lambda>o'. (o', xc_def_idx cand, fl_arg_index slot + 1))
                     (filter (takes_this (fe_this_type (xc_entry cand)))
                       (or_default [] (ml_method_params (di_member_lists index ! xc_def_idx cand) (fl_member slot)))))
                   (or_default [] (di_extension index k)))) }"

text \<open>
  What one taker says of the lambda's parameter: nothing, that its type cannot be read, or the head
  of its type and what that means where it was written.
\<close>

datatype taker_answer = Not_A_Taker | Blocks | Says string string

definition taker_answer ::
  "resolver \<Rightarrow> def_index \<Rightarrow> contexts \<Rightarrow> frag_lambda_slot \<Rightarrow> lambda_taker \<Rightarrow> taker_answer option" where
  "taker_answer rec index contexts slot taker =
     (case taker of (overload, declaring_def, place) \<Rightarrow>
        (let params = mo_params overload; shift = place - fl_arg_index slot
         in if length params < fl_arg_count slot + shift \<or> length params \<le> place then Some Not_A_Taker
            else do {
              shape \<leftarrow> delegate_shape rec index contexts declaring_def (mo_file overload)
                (or_default (params ! place) (strip_prefix (params ! place) ''this ''));
              (case shape of
                 None \<Rightarrow> Some Not_A_Taker
               | Some d \<Rightarrow>
                   (if length (ds_params d) \<noteq> fl_arity slot \<or> length (ds_params d) \<le> fl_index slot
                    then Some Not_A_Taker
                    else (let hd_part = descriptor_head (ds_params d ! fl_index slot)
                          in if hd_part = [] \<or> hd_part = ''*'' then Some Blocks
                             else map_option (Says hd_part)
                               (descriptor_meaning rec index contexts declaring_def (mo_file overload) hd_part)))) }))"

fun agreed_type ::
  "(lambda_taker \<Rightarrow> taker_answer option) \<Rightarrow> lambda_taker list \<Rightarrow> (string \<times> receiver_field_type) option
   \<Rightarrow> receiver_field_type option option" where
  "agreed_type answer [] agreed = Some (map_option snd agreed)"
| "agreed_type answer (taker # takers) agreed =
     do {
       a \<leftarrow> answer taker;
       case a of
         Not_A_Taker \<Rightarrow> agreed_type answer takers agreed
       | Blocks \<Rightarrow> Some None
       | Says hd_part meaning \<Rightarrow>
           (case agreed of
              Some (known, _) \<Rightarrow> if known \<noteq> meaning then Some None else agreed_type answer takers agreed
            | None \<Rightarrow>
                agreed_type answer takers
                  (Some (meaning, \<lparr>rf_type_name = hd_part, rf_qualified_type = None,
                     rf_declaring_def = fst (snd taker), rf_declaring_file = mo_file (fst taker)\<rparr>))) }"

definition lambda_takers ::
  "resolver \<Rightarrow> def_index \<Rightarrow> contexts \<Rightarrow> string \<Rightarrow> file_usings \<Rightarrow> alias_map \<Rightarrow> frag_ref \<Rightarrow> frag_lambda_slot
   \<Rightarrow> lambda_taker list option" where
  "lambda_takers rec index contexts ns usings aliases r slot =
     do {
       res \<leftarrow> rec (name_probe (fl_owner slot) ns (fr_outer_types r)) usings ns aliases;
       let owner = (case res of Ref_Resolved oidx _ \<Rightarrow> Some oidx | _ \<Rightarrow> None);
       own \<leftarrow> owner_takers rec index contexts slot owner;
       if own = [] then extension_takers rec index contexts slot owner else Some own }"

definition lambda_slot_receiver_type ::
  "resolver \<Rightarrow> def_index \<Rightarrow> contexts \<Rightarrow> string \<Rightarrow> file_usings \<Rightarrow> alias_map \<Rightarrow> frag_ref \<Rightarrow> frag_lambda_slot
   \<Rightarrow> receiver_field_type option option" where
  "lambda_slot_receiver_type rec index contexts ns usings aliases r slot =
     do {
       takers \<leftarrow> lambda_takers rec index contexts ns usings aliases r slot;
       agreed_type (taker_answer rec index contexts slot) takers None }"

section \<open>Candidates the receiver admits\<close>

definition nominal_match :: "def_index \<Rightarrow> string \<Rightarrow> string list option \<Rightarrow> bool \<Rightarrow> nat \<Rightarrow> bool" where
  "nominal_match index type_name receiver_args args_known idx \<longleftrightarrow>
     d_name (di_defs index ! idx) = type_name
       \<and> (\<not> args_known
          \<or> length (ml_type_params (di_member_lists index ! idx)) = (case receiver_args of None \<Rightarrow> 0 | Some as \<Rightarrow> length as))
     \<or> list_ex (\<lambda>b. b = type_name
         \<and> (\<not> args_known
            \<or> generic_args_unify
                (map_option snd (List.find (\<lambda>(k, _). k = b) (ml_base_generic_args (di_member_lists index ! idx))))
                receiver_args))
         (ml_bases (di_member_lists index ! idx))"

definition nominally_assignable ::
  "resolver \<Rightarrow> def_index \<Rightarrow> contexts \<Rightarrow> nat \<Rightarrow> string \<Rightarrow> string list option \<Rightarrow> bool \<Rightarrow> bool option" where
  "nominally_assignable rec index contexts start type_name receiver_args args_known =
     inheritance_walk_matches rec index contexts start
       (\<lambda>idx. Some (nominal_match index type_name receiver_args args_known idx))"

type_synonym assignability_cache = "nat \<times> string \<times> string list option \<times> bool \<Rightarrow> bool option"

definition nominally_assignable_cached ::
  "resolver \<Rightarrow> def_index \<Rightarrow> contexts \<Rightarrow> nat \<Rightarrow> string \<Rightarrow> string list option \<Rightarrow> bool \<Rightarrow> assignability_cache
   \<Rightarrow> (bool \<times> assignability_cache) option" where
  "nominally_assignable_cached rec index contexts start type_name receiver_args args_known cache =
     (case cache (start, type_name, receiver_args, args_known) of
        Some answer \<Rightarrow> Some (answer, cache)
      | None \<Rightarrow> do {
          answer \<leftarrow> nominally_assignable rec index contexts start type_name receiver_args args_known;
          Some (answer, cache((start, type_name, receiver_args, args_known) \<mapsto> answer)) })"

definition extension_admits :: "def_index \<Rightarrow> nat \<Rightarrow> string \<Rightarrow> call_shape option \<Rightarrow> string \<Rightarrow> string list option \<Rightarrow> bool" where
  "extension_admits index candidate' member call receiver_type receiver_args \<longleftrightarrow>
     list_ex (\<lambda>c. xc_def_idx c = candidate'
         \<and> (case call of None \<Rightarrow> True | Some cl \<Rightarrow> arity_accepts (xc_entry c) cl)
         \<and> generic_args_unify (fe_this_args (xc_entry c)) receiver_args)
       (or_default [] (di_extension index (member @ '' '' @ receiver_type)))"

definition receiver_admits_candidate ::
  "resolver \<Rightarrow> def_index \<Rightarrow> contexts \<Rightarrow> nat \<Rightarrow> string \<Rightarrow> member_shape \<Rightarrow> call_shape option \<Rightarrow> string
   \<Rightarrow> string list option \<Rightarrow> bool \<Rightarrow> assignability_cache \<Rightarrow> (bool \<times> assignability_cache) option" where
  "receiver_admits_candidate rec index contexts candidate' member shape call receiver_type receiver_args args_known cache =
     do {
       (assignable, cache') \<leftarrow>
         (if instance_vouches index candidate' member shape
          then nominally_assignable_cached rec index contexts candidate' receiver_type receiver_args args_known cache
          else Some (False, cache));
       Some (assignable \<or> extension_admits index candidate' member call receiver_type receiver_args, cache') }"

section \<open>The hop through a property\<close>

definition property_hop_target ::
  "nat \<Rightarrow> resolver \<Rightarrow> def_index \<Rightarrow> contexts \<Rightarrow> frag_ref \<Rightarrow> file_usings \<Rightarrow> string \<Rightarrow> alias_map \<Rightarrow> string
   \<Rightarrow> nat option option" where
  "property_hop_target fuel rec index contexts r usings ns aliases source_file =
     (case fr_receiver_property_owner r of
        None \<Rightarrow> Some None
      | Some owner \<Rightarrow> do {
          res \<leftarrow> rec (name_probe owner ns (fr_outer_types r)) usings ns aliases;
          case res of
            Ref_Resolved owner_idx _ \<Rightarrow>
              (case om_get (ml_property_types (di_member_lists index ! owner_idx)) (fr_name r) of
                 None \<Rightarrow> Some None
               | Some ft \<Rightarrow> do {
                   target \<leftarrow> resolve_receiver_type rec index (name_probe (ff_type_name ft) ns (fr_outer_types r))
                     (map_option length (ff_args ft)) usings ns aliases;
                   case target of
                     Ref_Resolved target_idx _ \<Rightarrow> do {
                       here \<leftarrow> declares_here_for_ref fuel rec index contexts target_idx r False source_file;
                       Some (if here then Some target_idx else None) }
                   | _ \<Rightarrow> Some None })
          | _ \<Rightarrow> Some None })"

end
