(* ===== verification/ReceiverFacts.thy ===== *)
theory ReceiverFacts
  imports Receivers
begin

text \<open>What a receiver's type rests on, and that the memo of assignability changes no answer.\<close>

section \<open>The overloads agree\<close>

lemma agreed_type_answers:
  assumes "agreed_type answer takers agreed = Some (Some rf)"
  shows "\<exists>meaning.
      (\<forall>t \<in> set takers. answer t = Some Not_A_Taker \<or> (\<exists>h. answer t = Some (Says h meaning)))
      \<and> (case agreed of
           Some (known, rf') \<Rightarrow> known = meaning \<and> rf' = rf
         | None \<Rightarrow> \<exists>t \<in> set takers. answer t = Some (Says (rf_type_name rf) meaning)
             \<and> rf_declaring_def rf = fst (snd t) \<and> rf_declaring_file rf = mo_file (fst t))"
  using assms
proof (induction takers arbitrary: agreed)
  case (Cons taker takers)
  obtain a where a: "answer taker = Some a" using Cons.prems by (auto split: Option.bind_splits)
  show ?case
  proof (cases a)
    case Not_A_Taker
    then have "agreed_type answer takers agreed = Some (Some rf)" using Cons.prems a by simp
    from Cons.IH [OF this] a Not_A_Taker show ?thesis by (cases agreed) auto
  next
    case Blocks
    with Cons.prems a show ?thesis by simp
  next
    case (Says h meaning)
    show ?thesis
    proof (cases agreed)
      case None
      then have "agreed_type answer takers (Some (meaning, \<lparr>rf_type_name = h, rf_qualified_type = None,
            rf_declaring_def = fst (snd taker), rf_declaring_file = mo_file (fst taker)\<rparr>)) = Some (Some rf)"
        using Cons.prems a Says by simp
      from Cons.IH [OF this] None a Says show ?thesis by auto
    next
      case (Some kr)
      then obtain rf' where kr: "agreed = Some (meaning, rf')" "agreed_type answer takers agreed = Some (Some rf)"
        using Cons.prems a Says by (cases kr) (auto split: if_splits)
      from Cons.IH [OF kr(2)] a Says kr(1) show ?thesis by auto
    qed
  qed
next
  case Nil
  then show ?case by (cases agreed) auto
qed

text \<open>
  C26. The parameter of an untyped lambda is given a type only when all overloads that can take the
  lambda mean the same type by it: every one answers with that meaning or is no candidate, and the
  name and the file it is read in are those of one of them.
\<close>

theorem lambda_parameter_agreed:
  assumes "lambda_slot_receiver_type rec index contexts ns usings aliases r slot = Some (Some rf)"
  shows "\<exists>takers meaning.
      lambda_takers rec index contexts ns usings aliases r slot = Some takers
      \<and> (\<forall>t \<in> set takers. taker_answer rec index contexts slot t \<in>
            {Some Not_A_Taker} \<union> range (\<lambda>h. Some (Says h meaning)))
      \<and> (\<exists>t \<in> set takers. taker_answer rec index contexts slot t = Some (Says (rf_type_name rf) meaning)
            \<and> rf_declaring_def rf = fst (snd t) \<and> rf_declaring_file rf = mo_file (fst t))"
proof -
  obtain takers where takers: "lambda_takers rec index contexts ns usings aliases r slot = Some takers"
      "agreed_type (taker_answer rec index contexts slot) takers None = Some (Some rf)"
    using assms by (auto simp: lambda_slot_receiver_type_def split: Option.bind_splits)
  from agreed_type_answers [OF takers(2)] obtain meaning where
    "\<forall>t \<in> set takers. taker_answer rec index contexts slot t = Some Not_A_Taker
       \<or> (\<exists>h. taker_answer rec index contexts slot t = Some (Says h meaning))"
    "\<exists>t \<in> set takers. taker_answer rec index contexts slot t = Some (Says (rf_type_name rf) meaning)
       \<and> rf_declaring_def rf = fst (snd t) \<and> rf_declaring_file rf = mo_file (fst t)"
    by auto
  with takers(1) show ?thesis by blast
qed

text \<open>A file with \<open>Register(Action<Options>)\<close> and a lambda passed to it.\<close>

definition registrar_types :: "frag_def list" where
  "registrar_types =
     [sample_def ''Options'' ''Options'' 1 [],
      (sample_def ''Registrar'' ''Registrar'' 2 [])\<lparr>fd_method_params :=
         sm_insert ''Register'' [[''Action<Options>'']] sm_new\<rparr>]"

abbreviation "registrar_file \<equiv> [(''a.cs'', defs_and_usings registrar_types [])]"

definition register_slot :: frag_lambda_slot where
  "register_slot = \<lparr>fl_owner = ''Registrar'', fl_member = ''Register'', fl_arg_count = 1, fl_arg_index = 0,
     fl_arity = 1, fl_index = 0\<rparr>"

lemma registrar_keys: "distinct (map def_key registrar_types)"
  by (simp add: registrar_types_def def_key_def sample_def_def)

lemma registrar_names:
  "di_qualified (build_def_index registrar_file) ''Options'' = Some 0"
  "di_qualified (build_def_index registrar_file) ''Registrar'' = Some 1"
  unfolding one_file_index(2) [OF registrar_keys]
  by (simp_all add: registrar_types_def sample_def_def index_of_Some)

lemma registrar_overloads:
  "ml_method_params (di_member_lists (build_def_index registrar_file) ! 1) ''Register'' =
     Some [\<lparr>mo_params = [''Action<Options>''], mo_file = ''a.cs'', mo_type_params = None, mo_arity = None\<rparr>]"
  unfolding one_file_index(4) [OF registrar_keys]
  by (simp add: registrar_types_def lists_first_tables)
    (simp add: overloads_of_def sample_def_def same_length_def overload_entry_def om_get_insert one_entry)

lemma one_file_context:
  "file_contexts None [(f, defs_and_usings ds [])] f = Some \<lparr>fc_usings = fu_default, fc_aliases = \<lambda>_. None\<rparr>"
  by (simp add: file_contexts_def Let_def attach_reach_def build_file_contexts_def
      file_context_of_def context_seed_def seed_usings_def collect_global_usings_by_unit_def no_globals_def)

lemma registrar_nested: "di_qualified (build_def_index registrar_file) ''Registrar+Options'' = None"
  unfolding one_file_index(2) [OF registrar_keys]
  by (simp add: registrar_types_def sample_def_def index_of_None)

lemma registrar_options:
  "resolve_in 1 registrar_file contexts (name_probe ''Options'' [] [''Registrar'']) fu_default [] (\<lambda>_. None)
     = Some (Ref_Resolved 0 Via_Namespace)"
proof -
  have chains: "outer_chains [] (name_probe ''Options'' [] [''Registrar'']) = [''Registrar'']"
    by (simp add: outer_chains_def name_probe_def under_def)
  show ?thesis
    using registrar_names registrar_nested chains
    by (simp add: resolve_type_ref.simps(2) [of 0] resolve_step_def resolve_bare_def bare_steps_def
        ref_prefixes_def level_step_def under_def reaches_def fu_default_def type_candidate_def name_probe_def)
qed

lemma registrar_slot_type:
  "lambda_slot_receiver_type (resolve_in 1 registrar_file (file_contexts None registrar_file)) (build_def_index registrar_file)
     (file_contexts None registrar_file) [] fu_default (\<lambda>_. None) (name_probe ''o'' [] []) register_slot
   = Some (Some \<lparr>rf_type_name = ''Options'', rf_qualified_type = None, rf_declaring_def = 1, rf_declaring_file = ''a.cs''\<rparr>)"
proof -
  let ?fs = registrar_file and ?contexts = "file_contexts None registrar_file"
  let ?rec = "resolve_in 1 ?fs ?contexts" and ?index = "build_def_index registrar_file"
  let ?o = "\<lparr>mo_params = [''Action<Options>''], mo_file = ''a.cs'', mo_type_params = None, mo_arity = None\<rparr>"
  have defs: "d_namespace (di_defs ?index ! 1) = []" "def_outer_types (di_defs ?index ! 1) = [''Registrar'']"
    "d_id (di_defs ?index ! 0) = ''Options''"
    unfolding one_file_index(3) [OF registrar_keys]
    by (simp_all add: registrar_types_def first_def_def sample_def_def def_outer_types_def)
  have probe: "?rec (name_probe ''Registrar'' [] []) fu_default [] (\<lambda>_. None) = Some (Ref_Resolved 1 Via_Namespace)"
    using plain_name_resolves [OF registrar_names(2), of 0 ?contexts] by simp
  have takers: "lambda_takers ?rec ?index ?contexts [] fu_default (\<lambda>_. None) (name_probe ''o'' [] []) register_slot
      = Some [(?o, 1, 0)]"
    using probe registrar_overloads
    by (simp add: lambda_takers_def owner_takers_def register_slot_def name_probe_def [of "''o''"])
  have shape: "descriptor_head ''Action<Options>'' = ''Action''" "descriptor_args ''Action<Options>'' = [''Options'']"
    "descriptor_head ''Options'' = ''Options''"
    by code_simp+
  have options: "?rec (name_probe ''Options'' [] [''Registrar'']) fu_default [] (\<lambda>_. None) = Some (Ref_Resolved 0 Via_Namespace)"
    by (rule registrar_options)
  have "taker_answer ?rec ?index ?contexts register_slot (?o, 1, 0) = Some (Says ''Options'' ''Options'')"
    using options
    by (simp add: taker_answer_def register_slot_def delegate_shape_def invoke_shape_def shape strip_prefix_def
        starts_with_def ends_with_def descriptor_meaning_def defs [unfolded One_nat_def] one_file_context Let_def)
  with takers show ?thesis
    by (simp add: lambda_slot_receiver_type_def)
qed

theorem lambda_parameter_agreed_witness:
  "\<exists>t meaning. taker_answer (resolve_in 1 registrar_file (file_contexts None registrar_file))
      (build_def_index registrar_file) (file_contexts None registrar_file) register_slot t = Some (Says ''Options'' meaning)
      \<and> 1 = fst (snd t) \<and> ''a.cs'' = mo_file (fst t)"
proof -
  note agreed = lambda_parameter_agreed [OF registrar_slot_type, unfolded receiver_field_type.simps]
  from agreed show ?thesis by blast
qed

section \<open>The memo\<close>

definition cache_ok :: "resolver \<Rightarrow> def_index \<Rightarrow> contexts \<Rightarrow> assignability_cache \<Rightarrow> bool" where
  "cache_ok rec index contexts cache \<longleftrightarrow>
     (\<forall>start type_name args known a. cache (start, type_name, args, known) = Some a \<longrightarrow>
        nominally_assignable rec index contexts start type_name args known = Some a)"

lemma cache_ok_empty: "cache_ok rec index contexts (\<lambda>_. None)"
  by (simp add: cache_ok_def)

lemma cached_assignable:
  assumes "cache_ok rec index contexts cache"
  shows "map_option fst (nominally_assignable_cached rec index contexts start type_name args known cache)
      = nominally_assignable rec index contexts start type_name args known"
    and "nominally_assignable_cached rec index contexts start type_name args known cache = Some (a, cache')
      \<Longrightarrow> cache_ok rec index contexts cache'"
  using assms
  by (auto simp: nominally_assignable_cached_def cache_ok_def split: option.splits Option.bind_splits if_splits)

text \<open>The rule without the memo.\<close>

definition admits_candidate ::
  "resolver \<Rightarrow> def_index \<Rightarrow> contexts \<Rightarrow> nat \<Rightarrow> string \<Rightarrow> member_shape \<Rightarrow> call_shape option \<Rightarrow> string
   \<Rightarrow> string list option \<Rightarrow> bool \<Rightarrow> bool option" where
  "admits_candidate rec index contexts c member shape call receiver_type receiver_args args_known =
     (if instance_vouches index c member shape
      then map_option (\<lambda>b. b \<or> extension_admits index c member call receiver_type receiver_args)
        (nominally_assignable rec index contexts c receiver_type receiver_args args_known)
      else Some (extension_admits index c member call receiver_type receiver_args))"

lemma receiver_admits_memo:
  assumes "cache_ok rec index contexts cache"
  shows "map_option fst (receiver_admits_candidate rec index contexts c member shape call receiver_type
        receiver_args args_known cache)
      = admits_candidate rec index contexts c member shape call receiver_type receiver_args args_known"
    and "receiver_admits_candidate rec index contexts c member shape call receiver_type receiver_args args_known cache
        = Some (b, cache') \<Longrightarrow> cache_ok rec index contexts cache'"
proof -
  note cached = cached_assignable [OF assms, of c receiver_type receiver_args args_known]
  show "map_option fst (receiver_admits_candidate rec index contexts c member shape call receiver_type
        receiver_args args_known cache)
      = admits_candidate rec index contexts c member shape call receiver_type receiver_args args_known"
    using cached(1)
    by (cases "nominally_assignable_cached rec index contexts c receiver_type receiver_args args_known cache")
      (auto simp: receiver_admits_candidate_def admits_candidate_def dest: sym)
  show "receiver_admits_candidate rec index contexts c member shape call receiver_type receiver_args args_known cache
        = Some (b, cache') \<Longrightarrow> cache_ok rec index contexts cache'"
    using cached(2) assms by (auto simp: receiver_admits_candidate_def split: Option.bind_splits if_splits)
qed

end
