(* ===== verification/EdgeRules.thy ===== *)
theory EdgeRules
  imports ReceiverFacts
begin

text \<open>
  The rules one edge is made by (\<open>src/resolve/edges.rs\<close>): the implementor of a constructor
  parameter, the edge of a type reference, the identity of a guessed edge, and the symbol table of
  the artifact.
\<close>

section \<open>Decimal numbers\<close>

fun decimal :: "nat \<Rightarrow> string" where
  "decimal n =
     (if n < 10 then [char_of (48 + n)] else decimal (n div 10) @ [char_of (48 + n mod 10)])"

declare decimal.simps [simp del]

lemma of_digit: "k < 10 \<Longrightarrow> of_char (char_of (48 + k) :: char) = (48 + k :: nat)"
  by (simp add: take_bit_eq_mod)

lemma digit_inject: "a < 10 \<Longrightarrow> b < 10 \<Longrightarrow> char_of (48 + a) = (char_of (48 + b) :: char) \<longleftrightarrow> a = b"
  for a b :: nat
  by (metis add_left_cancel of_digit)

lemma decimal_last: "\<exists>ds. decimal n = ds @ [char_of (48 + n mod 10)] \<and> (ds = [] \<longleftrightarrow> n < 10) \<and> (10 \<le> n \<longrightarrow> ds = decimal (n div 10))"
  by (subst decimal.simps) (auto simp: decimal.simps [of "n div 10"])

lemma decimal_inject [simp]: "decimal a = decimal b \<longleftrightarrow> a = b"
proof
  show "decimal a = decimal b \<Longrightarrow> a = b"
  proof (induction a arbitrary: b rule: decimal.induct)
    case (1 a)
    obtain ds where ds: "decimal a = ds @ [char_of (48 + a mod 10)]" "ds = [] \<longleftrightarrow> a < 10" "10 \<le> a \<longrightarrow> ds = decimal (a div 10)"
      using decimal_last by blast
    obtain es where es: "decimal b = es @ [char_of (48 + b mod 10)]" "es = [] \<longleftrightarrow> b < 10" "10 \<le> b \<longrightarrow> es = decimal (b div 10)"
      using decimal_last by blast
    have eq: "ds = es" "a mod 10 = b mod 10"
      using "1.prems" ds(1) es(1) digit_inject [of "a mod 10" "b mod 10"] by simp_all
    show ?case
    proof (cases "a < 10")
      case True
      with eq ds(2) es(2) show ?thesis by simp
    next
      case False
      with eq ds(2) es(2) have "\<not> b < 10" by blast
      with False eq(1) ds(3) es(3) have "decimal (a div 10) = decimal (b div 10)" by simp
      from "1.IH" [OF False this] have "a div 10 = b div 10" .
      with eq(2) show ?thesis by (metis div_mult_mod_eq)
    qed
  qed
qed simp

lemma decimal_no_space: "CHR '' '' \<notin> set (decimal n)"
proof (induction n rule: decimal.induct)
  case (1 n)
  have digit: "CHR '' '' \<noteq> char_of (48 + k)" if "k < 10" for k :: nat
  proof
    assume "CHR '' '' = char_of (48 + k)"
    then have "(48 + k :: nat) = of_char CHR '' ''" using of_digit [OF that] by metis
    then show False by simp
  qed
  show ?case using 1 digit [of n] digit [of "n mod 10"] by (subst decimal.simps) (auto split: if_splits)
qed

section \<open>Constructor parameters\<close>

definition build_implementor_index :: "def_index \<Rightarrow> string \<Rightarrow> nat list option" where
  "build_implementor_index index =
     fold (\<lambda>(idx, lists'). fold (\<lambda>base. entry_update base [] (\<lambda>is. is @ [idx])) (ml_bases lists'))
       (enumerate 0 (di_member_lists index)) (\<lambda>_. None)"

definition is_infra_namespace :: "string \<Rightarrow> bool" where
  "is_infra_namespace name \<longleftrightarrow>
     name = ''System'' \<or> name = ''Microsoft'' \<or> starts_with name ''System.'' \<or> starts_with name ''Microsoft.''"

datatype ctor_di_resolution =
    Di_Plain nat
  | Di_Closed nat
  | Di_Open_Generic nat
  | Di_Ambiguous "nat list"
  | Di_Infra
  | Di_Unresolved

definition edge_parts :: "def_index \<Rightarrow> ctor_di_resolution \<Rightarrow> string \<times> string option \<times> candidate list" where
  "edge_parts index res =
     (case res of
        Di_Plain i \<Rightarrow> (''plain'', Some (d_id (di_defs index ! i)), [])
      | Di_Closed i \<Rightarrow> (''closed'', Some (d_id (di_defs index ! i)), [])
      | Di_Open_Generic i \<Rightarrow> (''open-generic'', Some (d_id (di_defs index ! i)), [])
      | Di_Ambiguous is \<Rightarrow> (''ambiguous'', None, capped_candidates index is)
      | Di_Infra \<Rightarrow> (''infra'', None, [])
      | Di_Unresolved \<Rightarrow> (''unresolved'', None, []))"

text \<open>
  One candidate of the base name: \<open>Some True\<close> when it implements the interface with a type argument
  of its own left open, \<open>Some False\<close> when it implements it closed or without arguments.
\<close>

definition implementor_kind ::
  "resolver \<Rightarrow> def_index \<Rightarrow> contexts \<Rightarrow> frag_ref \<Rightarrow> nat \<Rightarrow> nat \<Rightarrow> bool option option" where
  "implementor_kind rec index contexts r iface cand =
     (if cand = iface then Some None
      else (case contexts (d_file (di_defs index ! cand)) of
              None \<Rightarrow> Some None
            | Some ctx \<Rightarrow> do {
                res \<leftarrow> rec (name_probe (fr_name r) (d_namespace (di_defs index ! cand)) []) (fc_usings ctx)
                  (d_namespace (di_defs index ! cand)) (fc_aliases ctx);
                (let cand_args = map_option snd (List.find (\<lambda>(k, _). k = fr_name r)
                       (ml_base_generic_args (di_member_lists index ! cand)))
                 in case res of
                      Ref_Resolved resolved_iface _ \<Rightarrow>
                        Some (if resolved_iface \<noteq> iface \<or> \<not> generic_args_unify cand_args (fr_args r) then None
                              else Some (case cand_args of None \<Rightarrow> False | Some as \<Rightarrow> ''*'' \<in> set as))
                    | _ \<Rightarrow> Some None) }))"

fun split_implementors ::
  "(nat \<Rightarrow> bool option option) \<Rightarrow> nat list \<Rightarrow> (nat list \<times> nat list) option" where
  "split_implementors kind [] = Some ([], [])"
| "split_implementors kind (cand # cands) =
     do {
       k \<leftarrow> kind cand;
       (closed_or_plain, open_generic) \<leftarrow> split_implementors kind cands;
       Some (case k of
               None \<Rightarrow> (closed_or_plain, open_generic)
             | Some True \<Rightarrow> (closed_or_plain, cand # open_generic)
             | Some False \<Rightarrow> (cand # closed_or_plain, open_generic)) }"

definition choose_implementor :: "frag_ref \<Rightarrow> nat list \<Rightarrow> nat list \<Rightarrow> ctor_di_resolution" where
  "choose_implementor r closed_or_plain open_generic =
     (if length closed_or_plain = 1
      then (if fr_args r \<noteq> None then Di_Closed (hd closed_or_plain) else Di_Plain (hd closed_or_plain))
      else if 1 < length closed_or_plain then Di_Ambiguous closed_or_plain
      else if length open_generic = 1 then Di_Open_Generic (hd open_generic)
      else if 1 < length open_generic then Di_Ambiguous open_generic
      else Di_Unresolved)"

definition resolve_ctor_param ::
  "resolver \<Rightarrow> def_index \<Rightarrow> contexts \<Rightarrow> (string \<Rightarrow> nat list option) \<Rightarrow> frag_ref \<Rightarrow> file_usings \<Rightarrow> string \<Rightarrow> alias_map
   \<Rightarrow> ctor_di_resolution option" where
  "resolve_ctor_param rec index contexts implementors r usings ns aliases =
     do {
       res \<leftarrow> rec r usings ns aliases;
       case res of
         Ref_Ambiguous is _ \<Rightarrow> Some (Di_Ambiguous is)
       | Ref_External \<Rightarrow> Some (if \<exists>u \<in> fu_all usings. is_infra_namespace u then Di_Infra else Di_Unresolved)
       | Ref_Resolved iface _ \<Rightarrow> do {
           (closed_or_plain, open_generic) \<leftarrow>
             split_implementors (implementor_kind rec index contexts r iface)
               (or_default [] (implementors (fr_name r)));
           Some (choose_implementor r closed_or_plain open_generic) } }"

section \<open>Edges and names\<close>

definition type_edge :: "string \<Rightarrow> string \<Rightarrow> nat \<Rightarrow> graph_def \<Rightarrow> edge" where
  "type_edge kind f line target =
     (if kind = ''inherits'' then Inherits f line (d_id target) (d_file target) False
      else Uses_Type f line (d_id target) (d_file target) False)"

text \<open>The fields joined with spaces, the tier and the member \<open>-\<close> where there is none.\<close>

definition key_of ::
  "string \<Rightarrow> string \<Rightarrow> nat \<Rightarrow> string \<Rightarrow> string \<Rightarrow> heuristic_tier option \<Rightarrow> string option \<Rightarrow> string" where
  "key_of kind f line target target_file tier member =
     str_join '' '' [kind, f, decimal line, target, target_file,
       (case tier of Some Tier_Ext \<Rightarrow> ''ext'' | Some Tier_Guess \<Rightarrow> ''guess'' | None \<Rightarrow> ''-''),
       or_default ''-'' member]"

fun heuristic_edge_key :: "edge \<Rightarrow> string option" where
  "heuristic_edge_key (Inherits f line target target_file heuristic) =
     (if heuristic then Some (key_of ''inherits'' f line target target_file None None) else None)"
| "heuristic_edge_key (Uses_Type f line target target_file heuristic) =
     (if heuristic then Some (key_of ''uses-type'' f line target target_file None None) else None)"
| "heuristic_edge_key (Uses_Member f line target target_file heuristic tier member _ _) =
     (if heuristic then Some (key_of ''uses-member'' f line target target_file tier member) else None)"
| "heuristic_edge_key _ = None"

text \<open>\<open>is_markup\<close> of \<open>src/markup.rs\<close>.\<close>

definition is_resource :: "string \<Rightarrow> bool" where
  "is_resource rel \<longleftrightarrow> ends_with rel ''.resw'' \<or> ends_with rel ''.resx''"

definition is_markup :: "string \<Rightarrow> bool" where
  "is_markup rel \<longleftrightarrow> ends_with rel ''.xaml'' \<or> is_resource rel"

definition build_graph_names :: "(string \<times> fragment) list \<Rightarrow> graph_name list" where
  "build_graph_names fragments =
     concat (map (\<lambda>(f, frag).
       (if is_markup f then []
        else map (\<lambda>d. \<lparr>gn_name = fd_name d, gn_kind = fd_kind d, gn_file = f, gn_line = fd_line d, gn_owner = []\<rparr>)
          (fg_defs frag))
       @ map (\<lambda>n. \<lparr>gn_name = fn_name n, gn_kind = fn_kind n, gn_file = f, gn_line = fn_line n, gn_owner = fn_owner n\<rparr>)
          (fg_names frag)) fragments)"

end
