(* ===== verification/EdgeFacts.thy ===== *)
theory EdgeFacts
  imports EdgeRules
begin

text \<open>Which implementor a constructor parameter is given, and when two guesses are the same edge.\<close>

section \<open>The implementors of a base name\<close>

lemma fold_entry_push:
  "or_default [] (fold (\<lambda>base. entry_update base [] (\<lambda>is. is @ [i])) bases m name)
     = or_default [] (m name) @ replicate (count_list bases name) i"
  by (induction bases arbitrary: m) (auto simp: entry_update_def replicate_app_Cons_same split: option.splits)

lemma implementor_index_lists:
  "or_default [] (build_implementor_index index name) =
     concat (map (\<lambda>(i, mls). replicate (count_list (ml_bases mls) name) i) (enumerate 0 (di_member_lists index)))"
proof -
  have "or_default [] (fold (\<lambda>(idx, lists'). fold (\<lambda>base. entry_update base [] (\<lambda>is. is @ [idx])) (ml_bases lists')) rows m name)
      = or_default [] (m name) @ concat (map (\<lambda>(i, mls). replicate (count_list (ml_bases mls) name) i) rows)" for rows m
    by (induction rows arbitrary: m) (auto simp: fold_entry_push)
  from this [of _ "\<lambda>_. None"] show ?thesis unfolding build_implementor_index_def by simp
qed

lemma count_list_distinct: "distinct xs \<Longrightarrow> count_list xs x = (if x \<in> set xs then 1 else 0)"
  by (induction xs) auto

lemma implementors_once:
  assumes "list_all (\<lambda>mls. distinct (ml_bases mls)) (di_member_lists index)"
  shows "or_default [] (build_implementor_index index name) =
     filter (\<lambda>i. name \<in> set (ml_bases (di_member_lists index ! i))) [0..<length (di_member_lists index)]"
proof -
  have once: "replicate (count_list (ml_bases mls) name) i = (if name \<in> set (ml_bases mls) then [i] else [])"
    if "mls \<in> set (di_member_lists index)" for mls and i :: nat
    using assms that by (auto simp: list_all_iff count_list_distinct)
  have "concat (map (\<lambda>(i, mls). replicate (count_list (ml_bases mls) name) i) (enumerate k ls)) =
      filter (\<lambda>i. name \<in> set (ml_bases (ls ! (i - k)))) [k..<k + length ls]"
    if "set ls \<subseteq> set (di_member_lists index)" for ls k
    using that
  proof (induction ls arbitrary: k)
    case (Cons mls ls)
    have shift: "filter (\<lambda>i. name \<in> set (ml_bases ((mls # ls) ! (i - k)))) [Suc k..<Suc k + length ls]
        = filter (\<lambda>i. name \<in> set (ml_bases (ls ! (i - Suc k)))) [Suc k..<Suc k + length ls]"
      by (rule filter_cong) (auto simp: nth_Cons')
    have "[k..<k + length (mls # ls)] = k # [Suc k..<Suc k + length ls]"
      using upt_conv_Cons [of k "k + length (mls # ls)"] by (simp del: upt_Suc)
    then show ?case
      using Cons.IH [of "Suc k"] Cons.prems once [of mls k] shift by (simp del: upt_Suc)
  qed simp
  from this [of "di_member_lists index" 0] show ?thesis by (simp add: implementor_index_lists)
qed

lemma split_implementors_filter:
  "split_implementors kind cands = Some (closed, opens) \<Longrightarrow>
     closed = filter (\<lambda>c. kind c = Some (Some False)) cands \<and> opens = filter (\<lambda>c. kind c = Some (Some True)) cands"
proof (induction cands arbitrary: closed opens)
  case (Cons cand cands)
  obtain k cs os where "kind cand = Some k" "split_implementors kind cands = Some (cs, os)"
      "(closed, opens) = (case k of None \<Rightarrow> (cs, os) | Some True \<Rightarrow> (cs, cand # os) | Some False \<Rightarrow> (cand # cs, os))"
    using Cons.prems by (auto split: Option.bind_splits)
  with Cons.IH [of cs os] show ?case by (auto split: option.splits bool.splits)
qed simp

text \<open>The definitions that list the parameter's type as a base and implement it, openly or not.\<close>

definition implementors_of ::
  "resolver \<Rightarrow> def_index \<Rightarrow> contexts \<Rightarrow> frag_ref \<Rightarrow> nat \<Rightarrow> bool \<Rightarrow> nat set" where
  "implementors_of rec index contexts r iface opened =
     {c. c < length (di_member_lists index) \<and> fr_name r \<in> set (ml_bases (di_member_lists index ! c))
         \<and> implementor_kind rec index contexts r iface c = Some (Some opened)}"

lemma sole_element: "length xs = 1 \<Longrightarrow> set xs = {hd xs}"
  by (cases xs) auto

text \<open>
  C15. A constructor parameter of a resolved interface is bound to a definition only when that is the
  sole closed implementor, or the sole open one when no closed one exists; two or more are reported
  as ambiguous, all of them, and none as unresolved.
\<close>

theorem ctor_param_sole_implementor:
  assumes "list_all (\<lambda>mls. distinct (ml_bases mls)) (di_member_lists index)"
    and "rec r usings ns aliases = Some (Ref_Resolved iface v)"
    and "resolve_ctor_param rec index contexts (build_implementor_index index) r usings ns aliases = Some answer"
  shows "case answer of
      Di_Plain i \<Rightarrow> fr_args r = None \<and> implementors_of rec index contexts r iface False = {i}
    | Di_Closed i \<Rightarrow> fr_args r \<noteq> None \<and> implementors_of rec index contexts r iface False = {i}
    | Di_Open_Generic i \<Rightarrow> implementors_of rec index contexts r iface False = {}
        \<and> implementors_of rec index contexts r iface True = {i}
    | Di_Ambiguous is \<Rightarrow> distinct is \<and> 1 < length is
        \<and> (set is = implementors_of rec index contexts r iface False
           \<or> implementors_of rec index contexts r iface False = {} \<and> set is = implementors_of rec index contexts r iface True)
    | Di_Infra \<Rightarrow> False
    | Di_Unresolved \<Rightarrow> implementors_of rec index contexts r iface False = {}
        \<and> implementors_of rec index contexts r iface True = {}"
proof -
  let ?kind = "implementor_kind rec index contexts r iface"
  let ?cands = "or_default [] (build_implementor_index index (fr_name r))"
  obtain closed opens where split: "split_implementors ?kind ?cands = Some (closed, opens)"
      and answer: "answer = choose_implementor r closed opens"
    using assms(2, 3) by (auto simp: resolve_ctor_param_def split: Option.bind_splits)
  have sets: "set closed = implementors_of rec index contexts r iface False" "set opens = implementors_of rec index contexts r iface True"
    and distinct: "distinct closed" "distinct opens"
    using split_implementors_filter [OF split] unfolding implementors_once [OF assms(1)] by (auto simp: implementors_of_def)
  have empty: "xs = [] \<longleftrightarrow> set xs = {}" for xs :: "nat list" by simp
  show ?thesis
    unfolding answer choose_implementor_def sets [symmetric]
    using distinct sole_element [of closed] sole_element [of opens]
    by (auto simp: not_less le_Suc_eq)
qed

text \<open>\<open>class Repo : IRepo\<close> and a parameter of type \<open>IRepo\<close>.\<close>

definition repo_rows :: "(string \<times> string \<times> string list) list" where
  "repo_rows = [(''Repo'', ''IRepo'', []), (''IRepo'', [], [])]"

abbreviation "repo_index \<equiv> build_def_index (classes_file repo_rows)"
abbreviation "repo_resolver \<equiv> resolve_in 1 (classes_file repo_rows) (file_contexts None (classes_file repo_rows))"

lemma repo_keys: "distinct (map fst repo_rows)"
  by (simp add: repo_rows_def)

lemma repo_param:
  "repo_resolver (name_probe ''IRepo'' [] []) fu_default [] (\<lambda>_. None) = Some (Ref_Resolved 1 Via_Namespace)"
  using plain_name_resolves [of repo_index "''IRepo''" 1 0 "file_contexts None (classes_file repo_rows)"]
  by (simp add: classes_index(1) [OF repo_keys]) (simp add: repo_rows_def index_of_Some)

lemma repo_lists:
  "di_member_lists repo_index = map (\<lambda>r. lists_first ''a.cs'' (class_of r)) repo_rows"
  "di_defs repo_index = map (\<lambda>r. first_def ''a.cs'' (class_of r)) repo_rows"
  by (simp_all add: classes_index [OF repo_keys])

lemma repo_tables:
  "map ml_bases (di_member_lists repo_index) = [[''IRepo''], []]"
  "map ml_base_generic_args (di_member_lists repo_index) = [[], []]"
  "map d_file (di_defs repo_index) = [''a.cs'', ''a.cs'']" "map d_namespace (di_defs repo_index) = [[], []]"
  unfolding repo_lists
  by (simp_all add: repo_rows_def lists_first_tables one_entry class_of_def first_def_def sample_def_def)

lemma repo_bases_once: "list_all (\<lambda>mls. distinct (ml_bases mls)) (di_member_lists repo_index)"
proof -
  have "list_all distinct (map ml_bases (di_member_lists repo_index))" by (simp add: repo_tables)
  then show ?thesis by (simp add: list.pred_map comp_def)
qed

lemma nth_of_map: "map f xs = ys \<Longrightarrow> i < length ys \<Longrightarrow> f (xs ! i) = ys ! i"
  by auto

lemma repo_answer:
  "resolve_ctor_param repo_resolver repo_index (file_contexts None (classes_file repo_rows))
     (build_implementor_index repo_index) (name_probe ''IRepo'' [] []) fu_default [] (\<lambda>_. None) = Some (Di_Plain 0)"
proof -
  note tables = repo_tables [THEN nth_of_map, of 0, simplified] repo_tables [THEN nth_of_map, of 1, simplified]
  have "length (di_member_lists repo_index) = 2" using repo_tables(1) by (metis length_map length_Cons list.size(3) Suc_1 One_nat_def)
  then have "or_default [] (build_implementor_index repo_index ''IRepo'') = [0]"
    using tables by (simp add: implementors_once [OF repo_bases_once] upt_rec numeral_2_eq_2)
  moreover have "implementor_kind repo_resolver repo_index (file_contexts None (classes_file repo_rows))
      (name_probe ''IRepo'' [] []) 1 0 = Some (Some False)"
    using repo_param tables
    by (simp add: implementor_kind_def classes_context name_probe_def generic_args_unify_def)
  ultimately show ?thesis
    using repo_param by (simp add: resolve_ctor_param_def choose_implementor_def name_probe_def)
qed

theorem ctor_param_sole_implementor_witness:
  "implementors_of repo_resolver repo_index (file_contexts None (classes_file repo_rows)) (name_probe ''IRepo'' [] []) 1 False = {0}"
  using ctor_param_sole_implementor [OF repo_bases_once repo_param repo_answer] by simp

section \<open>The identity of a guess\<close>

definition unspaced :: "string \<Rightarrow> bool" where
  "unspaced s \<longleftrightarrow> CHR '' '' \<notin> set s"

definition plain_member :: "string option \<Rightarrow> bool" where
  "plain_member member \<longleftrightarrow> (case member of None \<Rightarrow> True | Some m \<Rightarrow> unspaced m \<and> m \<noteq> ''-'')"

text \<open>
  A guess the resolver emits, with no space in its names and no member written \<open>-\<close>. The semantic
  fields are those of \<open>uses_member\<close>.
\<close>

fun plain_guess :: "edge \<Rightarrow> bool" where
  "plain_guess (Inherits f line target target_file heuristic) \<longleftrightarrow>
     heuristic \<and> unspaced f \<and> unspaced target \<and> unspaced target_file"
| "plain_guess (Uses_Type f line target target_file heuristic) \<longleftrightarrow>
     heuristic \<and> unspaced f \<and> unspaced target \<and> unspaced target_file"
| "plain_guess (Uses_Member f line target target_file heuristic tier member source signature) \<longleftrightarrow>
     heuristic \<and> unspaced f \<and> unspaced target \<and> unspaced target_file
     \<and> plain_member member \<and> source = None \<and> signature = None"
| "plain_guess _ \<longleftrightarrow> False"

lemma tier_text_inject:
  "(case t of Some Tier_Ext \<Rightarrow> ''ext'' | Some Tier_Guess \<Rightarrow> ''guess'' | None \<Rightarrow> ''-'')
     = (case u of Some Tier_Ext \<Rightarrow> ''ext'' | Some Tier_Guess \<Rightarrow> ''guess'' | None \<Rightarrow> ''-'') \<longleftrightarrow> t = u"
  "CHR '' '' \<notin> set (case t of Some Tier_Ext \<Rightarrow> ''ext'' | Some Tier_Guess \<Rightarrow> ''guess'' | None \<Rightarrow> ''-'')"
  by (auto split: option.splits heuristic_tier.splits)

lemma plain_member_text:
  "plain_member a \<Longrightarrow> plain_member b \<Longrightarrow> or_default ''-'' a = or_default ''-'' b \<longleftrightarrow> a = b"
  "plain_member a \<Longrightarrow> CHR '' '' \<notin> set (or_default ''-'' a)"
  by (auto simp: plain_member_def unspaced_def split: option.splits)

lemma key_of_split:
  "unspaced kind \<Longrightarrow> unspaced f \<Longrightarrow> unspaced target \<Longrightarrow> unspaced tfile \<Longrightarrow> plain_member member \<Longrightarrow>
     str_split CHR '' '' (key_of kind f line target tfile tier member) =
       [kind, f, decimal line, target, tfile,
        (case tier of Some Tier_Ext \<Rightarrow> ''ext'' | Some Tier_Guess \<Rightarrow> ''guess'' | None \<Rightarrow> ''-''), or_default ''-'' member]"
  unfolding key_of_def
  by (rule split_join)
    (simp_all add: unspaced_def decimal_no_space tier_text_inject plain_member_text)

lemma key_of_inject:
  assumes "unspaced kind" "unspaced f" "unspaced target" "unspaced tfile" "plain_member member"
    and "unspaced kind'" "unspaced f'" "unspaced target'" "unspaced tfile'" "plain_member member'"
  shows "key_of kind f line target tfile tier member = key_of kind' f' line' target' tfile' tier' member' \<longleftrightarrow>
     (kind, f, line, target, tfile, tier, member) = (kind', f', line', target', tfile', tier', member')"
proof
  assume "key_of kind f line target tfile tier member = key_of kind' f' line' target' tfile' tier' member'"
  then have "str_split CHR '' '' (key_of kind f line target tfile tier member)
      = str_split CHR '' '' (key_of kind' f' line' target' tfile' tier' member')" by simp
  then show "(kind, f, line, target, tfile, tier, member) = (kind', f', line', target', tfile', tier', member')"
    unfolding key_of_split [OF assms(1-5)] key_of_split [OF assms(6-10)]
    by (simp add: tier_text_inject plain_member_text(1) [OF assms(5, 10)])
qed simp

text \<open>The edge with the given fields of a key.\<close>

definition guess_of ::
  "string \<Rightarrow> string \<Rightarrow> nat \<Rightarrow> string \<Rightarrow> string \<Rightarrow> heuristic_tier option \<Rightarrow> string option \<Rightarrow> edge" where
  "guess_of kind f line target tfile tier member =
     (if kind = ''inherits'' then Inherits f line target tfile True
      else if kind = ''uses-type'' then Uses_Type f line target tfile True
      else Uses_Member f line target tfile True tier member None None)"

lemma plain_guess_fields:
  assumes "plain_guess e"
  obtains kind f line target tfile tier member where "unspaced kind" "unspaced f" "unspaced target" "unspaced tfile"
    "plain_member member" "heuristic_edge_key e = Some (key_of kind f line target tfile tier member)"
    "e = guess_of kind f line target tfile tier member"
proof -
  have kinds: "plain_member None" "unspaced ''inherits''" "unspaced ''uses-type''" "unspaced ''uses-member''"
    by (simp_all add: unspaced_def plain_member_def)
  show thesis
  proof (cases e)
    case (Inherits f l t tf h)
    show thesis by (rule that [of "''inherits''" f t tf None l None]) (use assms Inherits kinds in \<open>simp_all add: guess_of_def\<close>)
  next
    case (Uses_Type f l t tf h)
    show thesis by (rule that [of "''uses-type''" f t tf None l None]) (use assms Uses_Type kinds in \<open>simp_all add: guess_of_def\<close>)
  next
    case (Uses_Member f l t tf h tier m src sig)
    show thesis by (rule that [of "''uses-member''" f t tf m l tier]) (use assms Uses_Member kinds in \<open>simp_all add: guess_of_def\<close>)
  qed (use assms in simp_all)
qed

lemma guess_key_inject:
  assumes "plain_guess a" "plain_guess b"
  shows "heuristic_edge_key a = heuristic_edge_key b \<longleftrightarrow> a = b"
proof
  assume same: "heuristic_edge_key a = heuristic_edge_key b"
  show "a = b"
    by (rule plain_guess_fields [OF assms(1)], rule plain_guess_fields [OF assms(2)]) (use same in \<open>simp add: key_of_inject\<close>)
qed simp

end
