(* ===== verification/Counters.thy ===== *)
theory Counters
  imports EdgeFacts "HOL-Library.AList"
begin

text \<open>
  The ledger a resolve run keeps (\<open>EdgesByKind\<close> and \<open>HeuristicByTier\<close> of \<open>src/graph/edge.rs\<close> and the
  counters of \<open>src/resolve/assembly.rs\<close>), and the dispatch edges of registered implementations
  (\<open>src/resolve/dispatch.rs\<close>). A decrement of a counter at zero panics, the value \<open>None\<close>.
\<close>

section \<open>Counters\<close>

record edges_by_kind =
  ek_inherits :: nat
  ek_uses_type :: nat
  ek_imports :: nat
  ek_uses_member :: nat
  ek_ctor_di :: nat
  ek_implements :: nat
  ek_overrides :: nat
  ek_import :: "nat option"
  ek_call :: "nat option"
  ek_jsx_use :: "nat option"
  ek_dispatch :: "nat option"
  ek_bus_hop :: "nat option"

definition no_edges :: edges_by_kind where
  "no_edges = \<lparr>ek_inherits = 0, ek_uses_type = 0, ek_imports = 0, ek_uses_member = 0, ek_ctor_di = 0, ek_implements = 0,
     ek_overrides = 0, ek_import = None, ek_call = None, ek_jsx_use = None, ek_dispatch = None, ek_bus_hop = None\<rparr>"

record heuristic_by_tier =
  bt_ext :: nat
  bt_guess :: nat

record ledger =
  lg_edges :: "edge list"
  lg_by_kind :: edges_by_kind
  lg_ambiguous :: nat
  lg_external :: nat
  lg_heuristic :: nat
  lg_by_tier :: heuristic_by_tier

definition empty_ledger :: ledger where
  "empty_ledger = \<lparr>lg_edges = [], lg_by_kind = no_edges, lg_ambiguous = 0, lg_external = 0, lg_heuristic = 0,
     lg_by_tier = \<lparr>bt_ext = 0, bt_guess = 0\<rparr>\<rparr>"

definition dec :: "nat \<Rightarrow> nat option" where
  "dec n = (if n = 0 then None else Some (n - 1))"

definition sub_opt :: "nat \<Rightarrow> nat \<Rightarrow> nat option" where
  "sub_opt n k = (if n < k then None else Some (n - k))"

text \<open>The decrements for one guessed edge that is taken back.\<close>

definition drop_heuristic :: "heuristic_tier option \<Rightarrow> ledger \<Rightarrow> ledger option" where
  "drop_heuristic tier lg =
     do {
       n \<leftarrow> dec (lg_heuristic lg);
       by_tier \<leftarrow> (case tier of
         Some Tier_Ext \<Rightarrow> map_option (\<lambda>x. (lg_by_tier lg)\<lparr>bt_ext := x\<rparr>) (dec (bt_ext (lg_by_tier lg)))
       | Some Tier_Guess \<Rightarrow> map_option (\<lambda>x. (lg_by_tier lg)\<lparr>bt_guess := x\<rparr>) (dec (bt_guess (lg_by_tier lg)))
       | None \<Rightarrow> Some (lg_by_tier lg));
       Some (lg\<lparr>lg_heuristic := n, lg_by_tier := by_tier\<rparr>) }"

definition push_edge :: "edge \<Rightarrow> ledger \<Rightarrow> ledger" where
  "push_edge e lg = lg\<lparr>lg_edges := lg_edges lg @ [e]\<rparr>"

section \<open>Registered implementations\<close>

record resolved_registration =
  rr_implementation :: nat
  rr_service :: nat

definition resolve_registered_type :: "resolver \<Rightarrow> string \<Rightarrow> string \<Rightarrow> file_context \<Rightarrow> nat option option" where
  "resolve_registered_type rec raw ns ctx =
     do {
       res \<leftarrow> rec (type_probe raw ns []) (fc_usings ctx) ns (fc_aliases ctx);
       Some (case res of Ref_Resolved idx _ \<Rightarrow> Some idx | _ \<Rightarrow> None) }"

definition implements_edge :: "def_index \<Rightarrow> resolved_registration \<Rightarrow> string option \<Rightarrow> edge" where
  "implements_edge index reg member =
     (let impl = di_defs index ! rr_implementation reg; service = di_defs index ! rr_service reg
      in Implements (d_file impl) (d_line impl) (d_id service) (d_file service) member)"

definition resolve_registration :: "resolver \<Rightarrow> file_context \<Rightarrow> frag_registration \<Rightarrow> resolved_registration option option" where
  "resolve_registration rec ctx reg =
     do {
       service \<leftarrow> resolve_registered_type rec (rg_service reg) (rg_namespace reg) ctx;
       case service of
         None \<Rightarrow> Some None
       | Some s \<Rightarrow> do {
           impl \<leftarrow> resolve_registered_type rec (rg_implementation reg) (rg_namespace reg) ctx;
           Some (map_option (\<lambda>i. \<lparr>rr_implementation = i, rr_service = s\<rparr>) impl) } }"

definition resolve_registrations ::
  "resolver \<Rightarrow> def_index \<Rightarrow> contexts \<Rightarrow> (string \<times> fragment) list \<Rightarrow> (edge list \<times> resolved_registration list) option" where
  "resolve_registrations rec index contexts fragments =
     do {
       found \<leftarrow> map_opt (\<lambda>(f, frag).
         if fg_registrations frag = [] then Some []
         else (case contexts f of
                 None \<Rightarrow> Some []
               | Some ctx \<Rightarrow> map_opt (resolve_registration rec ctx) (fg_registrations frag))) fragments;
       (let resolved = List.map_filter (\<lambda>x. x) (concat found)
        in Some (map (\<lambda>reg. implements_edge index reg None) resolved, resolved)) }"

definition matching_overload_count :: "def_index \<Rightarrow> nat \<Rightarrow> nat \<Rightarrow> string \<Rightarrow> nat" where
  "matching_overload_count index source target member =
     (case (om_get (ml_method_arities (di_member_lists index ! source)) member,
            om_get (ml_method_arities (di_member_lists index ! target)) member) of
        (Some source_ranges, Some target_ranges) \<Rightarrow>
          sum_list (map (\<lambda>r. length (filter (\<lambda>t. t = r) target_ranges)) source_ranges)
      | _ \<Rightarrow> 0)"

definition resolve_member_implements :: "def_index \<Rightarrow> resolved_registration \<Rightarrow> edge list \<times> nat" where
  "resolve_member_implements index reg =
     fold (\<lambda>member (es, count).
       if matching_overload_count index (rr_implementation reg) (rr_service reg) member \<noteq> 1 then (es, count)
       else (es @ [implements_edge index reg (Some member)], count + 1))
     (d_methods (di_defs index ! rr_service reg)) ([], 0)"

fun member_overrides ::
  "resolver \<Rightarrow> def_index \<Rightarrow> contexts \<Rightarrow> nat \<Rightarrow> string list \<Rightarrow> edge list \<times> nat \<Rightarrow> (edge list \<times> nat) option" where
  "member_overrides rec index contexts impl [] st = Some st"
| "member_overrides rec index contexts impl (member # members) (es, count) =
     do {
       base \<leftarrow> first_base_where rec index contexts impl False (\<lambda>i. Some (declares_member index i (Some member) None));
       member_overrides rec index contexts impl members
         (case base of
            None \<Rightarrow> (es, count)
          | Some b \<Rightarrow>
              (if matching_overload_count index impl b member \<noteq> 1 then (es, count)
               else (es @ [Overrides (d_file (di_defs index ! impl)) (d_line (di_defs index ! impl))
                             (d_id (di_defs index ! b)) (d_file (di_defs index ! b)) (Some member)], count + 1))) }"

definition resolve_member_overrides ::
  "resolver \<Rightarrow> def_index \<Rightarrow> contexts \<Rightarrow> nat \<Rightarrow> (edge list \<times> nat) option" where
  "resolve_member_overrides rec index contexts impl =
     member_overrides rec index contexts impl (ml_override_methods (di_member_lists index ! impl)) ([], 0)"

fun member_dispatch ::
  "resolver \<Rightarrow> def_index \<Rightarrow> contexts \<Rightarrow> resolved_registration list \<Rightarrow> nat set \<Rightarrow> edge list \<times> nat \<times> nat
   \<Rightarrow> (edge list \<times> nat \<times> nat) option" where
  "member_dispatch rec index contexts [] seen st = Some st"
| "member_dispatch rec index contexts (reg # regs) seen (es, implements, overrides) =
     (case resolve_member_implements index reg of (member_edges, member_count) \<Rightarrow>
        (if rr_implementation reg \<in> seen
         then member_dispatch rec index contexts regs seen (es @ member_edges, implements + member_count, overrides)
         else do {
           (override_edges, override_count) \<leftarrow> resolve_member_overrides rec index contexts (rr_implementation reg);
           member_dispatch rec index contexts regs (insert (rr_implementation reg) seen)
             (es @ member_edges @ override_edges, implements + member_count, overrides + override_count) }))"

definition resolve_member_dispatch ::
  "resolver \<Rightarrow> def_index \<Rightarrow> contexts \<Rightarrow> resolved_registration list \<Rightarrow> (edge list \<times> nat \<times> nat) option" where
  "resolve_member_dispatch rec index contexts regs = member_dispatch rec index contexts regs {} ([], 0, 0)"

definition append_dispatch_edges ::
  "resolver \<Rightarrow> def_index \<Rightarrow> contexts \<Rightarrow> (string \<times> fragment) list \<Rightarrow> ledger \<Rightarrow> ledger option" where
  "append_dispatch_edges rec index contexts fragments lg =
     do {
       (registration_edges, resolved) \<leftarrow> resolve_registrations rec index contexts fragments;
       (member_edges, implements, overrides) \<leftarrow> resolve_member_dispatch rec index contexts resolved;
       Some (lg\<lparr>lg_edges := lg_edges lg @ registration_edges @ member_edges,
                lg_by_kind := (lg_by_kind lg)\<lparr>
                  ek_implements := ek_implements (lg_by_kind lg) + length registration_edges + implements,
                  ek_overrides := ek_overrides (lg_by_kind lg) + overrides\<rparr>\<rparr>) }"

end
