(* ===== verification/Semantics.thy ===== *)
theory Semantics
  imports Counters
begin

text \<open>
  The compiler facts a resolve run may consult (\<open>src/semantic\<close>): how far one fact is trusted
  (\<open>uncertainty.rs\<close>), whether the artifact is fresh (\<open>freshness.rs\<close>), the lookup of a site
  (\<open>layer.rs\<close>), the override of the resolver's own edges (\<open>precedence.rs\<close>) and the sites only the
  compiler saw (\<open>discovered.rs\<close>). Reading and parsing the artifact is not modelled; the identity of a compilation is a
  JSON value that is only compared, here a type variable. The state of the working tree and the
  digests of files are arguments.
\<close>

section \<open>Trust\<close>

datatype uncertainty =
    Confirmed | Candidate | Ambiguous_Fact | Unresolved | Unsupported | Excluded
  | Stale string | Incomplete string

definition uncertainty_reason :: "uncertainty \<Rightarrow> string" where
  "uncertainty_reason u =
     (case u of
        Confirmed \<Rightarrow> ''confirmed'' | Candidate \<Rightarrow> ''unrecognised-resolution'' | Ambiguous_Fact \<Rightarrow> ''compiler-ambiguous''
      | Unresolved \<Rightarrow> ''compiler-unresolved'' | Unsupported \<Rightarrow> ''dynamic-dispatch'' | Excluded \<Rightarrow> ''inaccessible''
      | Stale reason \<Rightarrow> reason | Incomplete reason \<Rightarrow> reason)"

definition is_confirmed :: "uncertainty \<Rightarrow> bool" where
  "is_confirmed u \<longleftrightarrow> u = Confirmed"

definition from_resolution :: "string \<Rightarrow> uncertainty" where
  "from_resolution resolution =
     (if resolution = ''confirmed'' then Confirmed
      else if resolution = ''ambiguous'' then Ambiguous_Fact
      else if resolution = ''unresolved'' then Unresolved
      else if resolution = ''dynamic'' then Unsupported
      else if resolution = ''inaccessible'' then Excluded
      else Candidate)"

definition from_compilation_state :: "string \<Rightarrow> string \<Rightarrow> uncertainty option" where
  "from_compilation_state state reason =
     (if state = ''complete'' then None
      else if state = ''unsupported'' then Some Unsupported
      else Some (Incomplete reason))"

datatype freshness = Fresh | Stale_Because string

definition is_fresh :: "freshness \<Rightarrow> bool" where
  "is_fresh f \<longleftrightarrow> f = Fresh"

definition stale_reason :: "freshness \<Rightarrow> string option" where
  "stale_reason f = (case f of Fresh \<Rightarrow> None | Stale_Because reason \<Rightarrow> Some reason)"

definition IMPORT_FILE_CHANGED :: string where
  "IMPORT_FILE_CHANGED = ''import-file-changed:''"

definition IMPORT_FILE_MISSING :: string where
  "IMPORT_FILE_MISSING = ''import-file-missing:''"

definition EXTERNAL_FILE_PREFIX :: string where
  "EXTERNAL_FILE_PREFIX = ''external-file:''"

definition is_import_trigger :: "freshness \<Rightarrow> bool" where
  "is_import_trigger f =
     (case stale_reason f of
        None \<Rightarrow> False
      | Some reason \<Rightarrow> starts_with reason IMPORT_FILE_CHANGED \<or> starts_with reason IMPORT_FILE_MISSING)"

record import_ref =
  ir_identity :: string
  ir_hash :: string

text \<open>\<open>digest rel\<close> is the digest of a file's bytes now, \<open>None\<close> when it cannot be read.\<close>

fun check_imports :: "(string \<Rightarrow> string option) \<Rightarrow> import_ref list \<Rightarrow> string option" where
  "check_imports digest [] = None"
| "check_imports digest (import # imports) =
     (case strip_prefix (ir_identity import) EXTERNAL_FILE_PREFIX of
        None \<Rightarrow> check_imports digest imports
      | Some rel \<Rightarrow>
          (case digest rel of
             None \<Rightarrow> Some (IMPORT_FILE_MISSING @ ir_identity import)
           | Some current \<Rightarrow>
               (if current \<noteq> ir_hash import then Some (IMPORT_FILE_CHANGED @ ir_identity import)
                else check_imports digest imports)))"

definition evaluate ::
  "bool \<Rightarrow> string option \<Rightarrow> (string \<Rightarrow> string option) \<Rightarrow> string option \<Rightarrow> bool \<Rightarrow> import_ref list \<Rightarrow> freshness" where
  "evaluate tree_dirty git_head digest admitted_head_sha admitted_dirty imports =
     (if admitted_dirty then Stale_Because ''source-snapshot-dirty-at-admission''
      else (case admitted_head_sha of
              None \<Rightarrow> Stale_Because ''source-snapshot-missing''
            | Some admitted_head \<Rightarrow>
                (if tree_dirty then Stale_Because ''working-tree-dirty''
                 else (case git_head of
                         None \<Rightarrow> Stale_Because ''source-head-unavailable''
                       | Some current \<Rightarrow>
                           (if current \<noteq> admitted_head then Stale_Because ''source-head-mismatch''
                            else (case check_imports digest imports of
                                    Some reason \<Rightarrow> Stale_Because reason
                                  | None \<Rightarrow> Fresh))))))"

section \<open>The artifact\<close>

record 'j raw_occurrence =
  oc_file :: string
  oc_name_line :: nat
  oc_resolution :: string
  oc_target_type :: "string option"
  oc_target_member :: "string option"
  oc_compilation_identity :: 'j
  oc_target_overload_signature :: "string option"

record 'j raw_compilation =
  cm_identity :: 'j
  cm_state :: string
  cm_reason :: string
  cm_imports :: "import_ref list"

record semantic_target =
  st_to_def_id :: string
  st_to_file :: string
  st_overload_signature :: "string option"

datatype lookup_outcome =
    No_Fact
  | Confirmed_One semantic_target
  | Other_Fact uncertainty
  | Confirmed_Many "semantic_target list"

type_synonym site_key = "string \<times> nat \<times> string"

record 'j semantic_layer =
  sl_freshness :: freshness
  sl_by_site :: "(site_key \<times> nat list) list"
  sl_occurrences :: "'j raw_occurrence list"
  sl_compilations :: "'j raw_compilation list"

text \<open>The layer of an admitted artifact, after its bytes were parsed.\<close>

definition load_layer ::
  "bool \<Rightarrow> string option \<Rightarrow> (string \<Rightarrow> string option) \<Rightarrow> string option \<Rightarrow> bool \<Rightarrow> 'j raw_compilation list
   \<Rightarrow> 'j raw_occurrence list \<Rightarrow> 'j semantic_layer" where
  "load_layer tree_dirty git_head digest source_head_sha source_dirty compilations occurrences =
     \<lparr>sl_freshness = evaluate tree_dirty git_head digest source_head_sha source_dirty (concat (map cm_imports compilations)),
      sl_by_site = fold (\<lambda>(i, occ) m.
        (case oc_target_member occ of
           None \<Rightarrow> m
         | Some member \<Rightarrow> AList.map_default (oc_file occ, oc_name_line occ, member) [i] (\<lambda>is. is @ [i]) m))
        (enumerate 0 occurrences) [],
      sl_occurrences = occurrences,
      sl_compilations = compilations\<rparr>"

definition compilation_state :: "'j semantic_layer \<Rightarrow> 'j \<Rightarrow> (string \<times> string) option" where
  "compilation_state layer identity =
     map_option (\<lambda>c. (cm_state c, cm_reason c)) (List.find (\<lambda>c. cm_identity c = identity) (sl_compilations layer))"

fun top_commas :: "int \<Rightarrow> string \<Rightarrow> nat" where
  "top_commas depth [] = 0"
| "top_commas depth (c # cs) =
     (if c = CHR ''<'' \<or> c = CHR ''('' \<or> c = CHR ''['' then top_commas (depth + 1) cs
      else if c = CHR ''>'' \<or> c = CHR '')'' \<or> c = CHR '']'' then top_commas (depth - 1) cs
      else if c = CHR '','' \<and> depth = 0 then Suc (top_commas depth cs)
      else top_commas depth cs)"

definition overload_arg_count :: "string \<Rightarrow> nat option" where
  "overload_arg_count signature =
     (case strip_prefix signature ''('' of
        None \<Rightarrow> None
      | Some after_open \<Rightarrow>
          (case str_find after_open '')->'' of
             None \<Rightarrow> None
           | Some close \<Rightarrow>
               (let params = take close after_open
                in if trim params = [] then Some 0 else Some (Suc (top_commas 0 params)))))"

text \<open>A rendered type is cut at its dots outside type arguments; the arguments are dropped.\<close>

fun qualified_segments :: "int \<Rightarrow> string \<Rightarrow> string \<Rightarrow> string list" where
  "qualified_segments depth current [] = (if current = [] then [] else [current])"
| "qualified_segments depth current (c # cs) =
     (if c = CHR ''<'' then qualified_segments (depth + 1) (current @ [c]) cs
      else if c = CHR ''>'' then qualified_segments (depth - 1) (current @ [c]) cs
      else if c = CHR ''.'' \<and> depth = 0 then current # qualified_segments depth [] cs
      else qualified_segments depth (current @ [c]) cs)"

definition split_qualified_type :: "string \<Rightarrow> string list" where
  "split_qualified_type raw = map (takeWhile (\<lambda>c. c \<noteq> CHR ''<'')) (qualified_segments 0 [] raw)"

fun nested_def :: "def_index \<Rightarrow> nat \<Rightarrow> string list \<Rightarrow> nat option" where
  "nested_def index cur [] = Some cur"
| "nested_def index cur (seg # segs) =
     (case di_qualified index (d_id (di_defs index ! cur) @ ''+'' @ seg) of
        None \<Rightarrow> None
      | Some nxt \<Rightarrow> nested_def index nxt segs)"

definition translate_type_id :: "string \<Rightarrow> def_index \<Rightarrow> nat option" where
  "translate_type_id raw index =
     (let segments = split_qualified_type raw
      in first_some (\<lambda>k. case di_qualified index (str_join ''.'' (take k segments)) of
             None \<Rightarrow> None
           | Some start \<Rightarrow> nested_def index start (drop k segments)) [1..<Suc (length segments)])"

definition resolve_target :: "nat \<Rightarrow> string \<Rightarrow> string option \<Rightarrow> def_index \<Rightarrow> semantic_target" where
  "resolve_target type_idx member signature index =
     (let d = di_defs index ! type_idx;
          member_def = (if d_kind d = ''enum'' then di_qualified index (d_id d @ ''.'' @ member) else None);
          target = (case member_def of Some m \<Rightarrow> di_defs index ! m | None \<Rightarrow> d)
      in \<lparr>st_to_def_id = d_id target, st_to_file = d_file target, st_overload_signature = signature\<rparr>)"

section \<open>Looking a site up\<close>

definition narrowed_indices :: "'j semantic_layer \<Rightarrow> nat option \<Rightarrow> nat list \<Rightarrow> nat list" where
  "narrowed_indices layer caller_arg_count indices =
     (if 1 < length indices then
        (case caller_arg_count of
           None \<Rightarrow> indices
         | Some want \<Rightarrow>
             (let matching = filter (\<lambda>i. Option.bind (oc_target_overload_signature (sl_occurrences layer ! i))
                    overload_arg_count = Some want) indices
              in if length matching = 1 then matching else indices))
      else indices)"

definition occurrence_fact ::
  "'j semantic_layer \<Rightarrow> def_index \<Rightarrow> string \<Rightarrow> nat \<Rightarrow> semantic_target + uncertainty" where
  "occurrence_fact layer index member i =
     (let occ = sl_occurrences layer ! i;
          trust = (case compilation_state layer (oc_compilation_identity occ) of
            Some (cstate, creason) \<Rightarrow>
              or_default (from_resolution (oc_resolution occ)) (from_compilation_state cstate creason)
          | None \<Rightarrow> from_resolution (oc_resolution occ))
      in if is_confirmed trust
         then (case Option.bind (oc_target_type occ) (\<lambda>t. translate_type_id t index) of
                 Some type_idx \<Rightarrow> Inl (resolve_target type_idx member (oc_target_overload_signature occ) index)
               | None \<Rightarrow> Inr Candidate)
         else Inr trust)"

definition layer_lookup ::
  "'j semantic_layer \<Rightarrow> def_index \<Rightarrow> string \<Rightarrow> nat \<Rightarrow> string \<Rightarrow> nat option \<Rightarrow> lookup_outcome" where
  "layer_lookup layer index f line member caller_arg_count =
     (case stale_reason (sl_freshness layer) of
        Some reason \<Rightarrow> Other_Fact (Stale reason)
      | None \<Rightarrow>
          (case map_of (sl_by_site layer) (f, line, member) of
             None \<Rightarrow> No_Fact
           | Some indices \<Rightarrow>
               (let facts = map (occurrence_fact layer index member) (narrowed_indices layer caller_arg_count indices);
                    targets = remdups_adj (List.map_filter (\<lambda>x. case x of Inl t \<Rightarrow> Some t | Inr _ \<Rightarrow> None) facts);
                    others = List.map_filter (\<lambda>x. case x of Inl _ \<Rightarrow> None | Inr u \<Rightarrow> Some u) facts
                in case targets of
                     [] \<Rightarrow> (case others of [] \<Rightarrow> No_Fact | u # _ \<Rightarrow> Other_Fact u)
                   | [t] \<Rightarrow> Confirmed_One t
                   | _ \<Rightarrow> Confirmed_Many targets)))"

section \<open>Overrides\<close>

record semantic_override =
  so_target :: semantic_target
  so_displaced :: "string option"

definition decide :: "lookup_outcome \<Rightarrow> edge list \<Rightarrow> semantic_override option" where
  "decide outcome ladder_pushed =
     (case outcome of
        Confirmed_One target \<Rightarrow>
          Some \<lparr>so_target = target,
            so_displaced = first_some (\<lambda>e. case e of
                Uses_Member _ _ target_id _ _ _ _ _ _ \<Rightarrow>
                  (if target_id \<noteq> st_to_def_id target then Some target_id else None)
              | _ \<Rightarrow> None) ladder_pushed\<rparr>
      | _ \<Rightarrow> None)"

record semantic_diagnostics =
  sd_confirmed :: nat
  sd_disagreements :: nat

definition record_override :: "semantic_override \<Rightarrow> semantic_diagnostics \<Rightarrow> semantic_diagnostics" where
  "record_override ovr diag =
     \<lparr>sd_confirmed = sd_confirmed diag + 1,
      sd_disagreements = sd_disagreements diag + (if so_displaced ovr \<noteq> None then 1 else 0)\<rparr>"

definition track_reference :: "'j semantic_layer option \<Rightarrow> site_key set \<Rightarrow> string \<Rightarrow> frag_ref \<Rightarrow> site_key set" where
  "track_reference layer sites f r =
     (case (layer, fr_member r) of (Some _, Some member) \<Rightarrow> insert (f, fr_line r, member) sites | _ \<Rightarrow> sites)"

fun drop_pushed :: "edge list \<Rightarrow> nat \<Rightarrow> ledger \<Rightarrow> (nat \<times> ledger) option" where
  "drop_pushed [] n lg = Some (n, lg)"
| "drop_pushed (e # es) n lg =
     (case e of
        Uses_Member _ _ _ _ _ tier _ _ _ \<Rightarrow>
          (case tier of
             Some t \<Rightarrow> Option.bind (drop_heuristic (Some t) lg) (drop_pushed es n)
           | None \<Rightarrow> drop_pushed es (n + 1) lg)
      | _ \<Rightarrow> drop_pushed es n lg)"

definition apply_layer ::
  "'j semantic_layer option \<Rightarrow> def_index \<Rightarrow> nat \<Rightarrow> string \<Rightarrow> frag_ref \<Rightarrow> ledger \<times> semantic_diagnostics
   \<Rightarrow> (ledger \<times> semantic_diagnostics) option" where
  "apply_layer layer index pre_len f r st =
     (case (layer, fr_member r) of
        (Some layer, Some member) \<Rightarrow>
          (case decide (layer_lookup layer index f (fr_line r) member (fr_arg_count r)) (drop pre_len (lg_edges (fst st))) of
             None \<Rightarrow> Some st
           | Some ovr \<Rightarrow> do {
               (precise_truncated, lg) \<leftarrow> drop_pushed (drop pre_len (lg_edges (fst st))) 0 (fst st);
               uses_member' \<leftarrow> sub_opt (ek_uses_member (lg_by_kind lg)) precise_truncated;
               Some (lg\<lparr>lg_edges := take pre_len (lg_edges lg) @
                          [uses_member_semantic f (fr_line r) (st_to_def_id (so_target ovr)) (st_to_file (so_target ovr))
                             (Some member) Semantic (st_overload_signature (so_target ovr))],
                        lg_by_kind := (lg_by_kind lg)\<lparr>ek_uses_member := uses_member' + 1\<rparr>\<rparr>,
                     record_override ovr (snd st)) })
      | _ \<Rightarrow> Some st)"

section \<open>Sites only the compiler saw\<close>

definition site_keys :: "'j semantic_layer \<Rightarrow> site_key list" where
  "site_keys layer = map fst (sl_by_site layer)"

definition discovered_edge :: "site_key \<Rightarrow> semantic_target \<Rightarrow> edge" where
  "discovered_edge key target =
     (case key of (f, line, member) \<Rightarrow>
        uses_member_semantic f line (st_to_def_id target) (st_to_file target) (Some member) Semantic_Discovered
          (st_overload_signature target))"

definition discovered_targets :: "'j semantic_layer \<Rightarrow> def_index \<Rightarrow> site_key \<Rightarrow> semantic_target list" where
  "discovered_targets layer index key =
     (case key of (f, line, member) \<Rightarrow>
        (case layer_lookup layer index f line member None of
           Confirmed_One target \<Rightarrow> [target]
         | Confirmed_Many targets \<Rightarrow>
             (if list_all (\<lambda>t. (st_to_def_id t, st_to_file t) = (st_to_def_id (hd targets), st_to_file (hd targets))) targets
              then targets else [])
         | _ \<Rightarrow> []))"

definition discovered_edges :: "'j semantic_layer \<Rightarrow> def_index \<Rightarrow> site_key set \<Rightarrow> edge list" where
  "discovered_edges layer index referenced_sites =
     concat (map (\<lambda>key. if key \<in> referenced_sites then []
                         else map (discovered_edge key) (discovered_targets layer index key))
       (sort (site_keys layer)))"

definition project_discovered ::
  "'j semantic_layer \<Rightarrow> def_index \<Rightarrow> site_key set \<Rightarrow> edge list \<Rightarrow> edge list \<times> nat" where
  "project_discovered layer index referenced_sites es =
     (let news = discovered_edges layer index referenced_sites in (es @ news, length news))"

record semantic_stats =
  ss_confirmed :: nat
  ss_disagreements :: nat
  ss_discovered :: nat

definition finish_layer ::
  "'j semantic_layer option \<Rightarrow> def_index \<Rightarrow> site_key set \<Rightarrow> edge list \<Rightarrow> semantic_diagnostics
   \<Rightarrow> edge list \<times> semantic_stats option" where
  "finish_layer layer index sites es diag =
     (case layer of
        None \<Rightarrow> (es, None)
      | Some l \<Rightarrow>
          (case project_discovered l index sites es of (es', n) \<Rightarrow>
             (es', Some \<lparr>ss_confirmed = sd_confirmed diag, ss_disagreements = sd_disagreements diag, ss_discovered = n\<rparr>)))"

end
