(* ===== verification/BusNames.thy ===== *)
theory BusNames
  imports Semantics
begin

text \<open>
  The message bus: the seed vocabulary (\<open>src/bus_seed.rs\<close>), the vocabulary a repository teaches
  (\<open>src/resolve/bus_vocab.rs\<close>). Message types are resolved by the ladder, so the functions that need it are
  optional as it is. A \<open>HashMap\<close> of overloads is searched in the order of its keys; the source's order is
  unspecified, and the answer does not depend on it.
\<close>

section \<open>The seed\<close>

definition PUBLISH_VERBS :: "string list" where
  "PUBLISH_VERBS = [''Publish'', ''PublishAsync'', ''SubmitJob'', ''Reply'', ''Send'']"

definition DISPATCH_ROOTS :: "string list" where
  "DISPATCH_ROOTS = [''Publish'', ''Send'', ''Submit'', ''Reply'', ''Dispatch'', ''Enqueue'', ''Emit'', ''Post'', ''Raise'', ''Notify'']"

definition DISPATCH_GUARDS :: "string list" where
  "DISPATCH_GUARDS = [''Get'', ''Cancel'', ''Connect'', ''Can'', ''Is'', ''Has'']"

definition CONSUMER_BASES :: "string list" where
  "CONSUMER_BASES = [''IConsumer'', ''BaseConsumer'', ''IAmInitiatedBy'', ''IWorkHandler'', ''IRequestHandler'']"

definition word_ends_here :: "string \<Rightarrow> bool" where
  "word_ends_here suffix \<longleftrightarrow>
     suffix = [] \<or> is_ascii_upper (hd suffix) \<or> is_ascii_digit (hd suffix) \<or> hd suffix = CHR ''_''"

text \<open>What follows each match of \<open>root\<close>, the matches taken from the left without overlap.\<close>

function match_tails :: "string \<Rightarrow> string \<Rightarrow> string list" where
  "match_tails root s =
     (if root = [] then []
      else (case str_find s root of
              None \<Rightarrow> []
            | Some i \<Rightarrow> drop (i + length root) s # match_tails root (drop (i + length root) s)))"
  by pat_completeness auto
termination
proof (relation "measure (\<lambda>(root, s). length s)")
  fix root s :: string and i
  assume "root \<noteq> []" "str_find s root = Some i"
  moreover from this have "i + length root \<le> length s" by (simp add: str_find_le)
  moreover have "0 < length root" using \<open>root \<noteq> []\<close> by simp
  ultimately have "length s - (i + length root) < length s" by linarith
  then show "((root, drop (i + length root) s), root, s) \<in> measure (\<lambda>(root, s). length s)" by simp
qed simp

declare match_tails.simps [simp del]

definition has_dispatch_root :: "string \<Rightarrow> bool" where
  "has_dispatch_root verb =
     (let first = (case strip_prefix verb ''Try'' of
            Some tl_part \<Rightarrow> (if tl_part \<noteq> [] \<and> is_ascii_upper (hd tl_part) then tl_part else verb)
          | None \<Rightarrow> verb)
      in if list_ex (\<lambda>guard. case strip_prefix first guard of Some rest \<Rightarrow> word_ends_here rest | None \<Rightarrow> False) DISPATCH_GUARDS
         then False
         else list_ex (\<lambda>root. list_ex word_ends_here (match_tails root verb)) DISPATCH_ROOTS)"

definition is_publish_verb :: "string \<Rightarrow> bool" where
  "is_publish_verb verb \<longleftrightarrow> verb \<in> set PUBLISH_VERBS"

section \<open>Messages\<close>

record message_identity =
  mi_def_idx :: nat
  mi_rank :: nat

definition plain_identity :: "nat \<Rightarrow> message_identity" where
  "plain_identity def_idx = \<lparr>mi_def_idx = def_idx, mi_rank = 0\<rparr>"

definition rendered_id :: "def_index \<Rightarrow> message_identity \<Rightarrow> string" where
  "rendered_id index m = d_id (di_defs index ! mi_def_idx m) @ concat (replicate (mi_rank m) ''[]'')"

text \<open>The rank is a saturating byte.\<close>

function array_suffix :: "string \<Rightarrow> nat \<Rightarrow> string \<times> nat" where
  "array_suffix rest rank =
     (case strip_suffix rest ''[]'' of
        None \<Rightarrow> (rest, rank)
      | Some stripped \<Rightarrow> array_suffix stripped (min 255 (rank + 1)))"
  by pat_completeness auto
termination
  by (relation "measure (\<lambda>(rest, rank). length rest)") (auto simp: strip_suffix_def ends_with_def split: if_splits)

declare array_suffix.simps [simp del]

definition split_array_suffix :: "string \<Rightarrow> string \<times> nat" where
  "split_array_suffix s = array_suffix s 0"

definition resolve_type_text :: "resolver \<Rightarrow> string \<Rightarrow> string \<Rightarrow> string list \<Rightarrow> file_context \<Rightarrow> nat option option" where
  "resolve_type_text rec raw ns outer_types ctx =
     do {
       res \<leftarrow> rec (type_probe raw ns outer_types) (fc_usings ctx) ns (fc_aliases ctx);
       Some (case res of Ref_Resolved idx _ \<Rightarrow> Some idx | _ \<Rightarrow> None) }"

definition resolve_message_identity ::
  "resolver \<Rightarrow> string \<Rightarrow> string \<Rightarrow> string list \<Rightarrow> file_context \<Rightarrow> message_identity option option" where
  "resolve_message_identity rec raw ns outer_types ctx =
     (case split_array_suffix raw of (element, rank) \<Rightarrow> do {
        idx \<leftarrow> resolve_type_text rec element ns outer_types ctx;
        Some (map_option (\<lambda>i. \<lparr>mi_def_idx = i, mi_rank = rank\<rparr>) idx) })"

definition simple_name :: "string \<Rightarrow> string" where
  "simple_name ident =
     (let tl_part = (case rsplit_once CHR ''.'' ident of Some (_, t) \<Rightarrow> t | None \<Rightarrow> ident)
      in case rsplit_once CHR ''+'' tl_part of Some (_, t) \<Rightarrow> t | None \<Rightarrow> tl_part)"

fun top_level_args :: "int \<Rightarrow> string \<Rightarrow> string \<Rightarrow> string list" where
  "top_level_args depth cur [] = [cur]"
| "top_level_args depth cur (c # cs) =
     (if c = CHR ''<'' then top_level_args (depth + 1) (cur @ [c]) cs
      else if c = CHR ''>'' then top_level_args (depth - 1) (cur @ [c]) cs
      else if c = CHR '','' \<and> depth = 0 then cur # top_level_args depth [] cs
      else top_level_args depth (cur @ [c]) cs)"

definition split_top_level_args :: "string \<Rightarrow> string list" where
  "split_top_level_args inner = top_level_args 0 [] inner"

text \<open>What stands between the first \<open><\<close> and a closing \<open>></\<close> at the end.\<close>

definition bracketed :: "string \<Rightarrow> (string \<times> string) option" where
  "bracketed descriptor =
     (case str_find_char descriptor CHR ''<'' of
        None \<Rightarrow> None
      | Some at \<Rightarrow>
          (if ends_with descriptor ''>''
           then Some (take at descriptor, slice (at + 1) (length descriptor - 1) descriptor) else None))"

definition single_nested_argument :: "string \<Rightarrow> string option" where
  "single_nested_argument descriptor =
     (case bracketed descriptor of
        None \<Rightarrow> None
      | Some (_, inner) \<Rightarrow>
          (case split_top_level_args inner of
             [single] \<Rightarrow> if single \<noteq> [] then Some single else None
           | _ \<Rightarrow> None))"

definition concrete_base_argument ::
  "string list option \<Rightarrow> string list \<Rightarrow> bool \<Rightarrow> (string \<times> bool) option" where
  "concrete_base_argument nested flat first_arg_is_array =
     (case flat of
        [] \<Rightarrow> None
      | first_flat # _ \<Rightarrow>
          (if first_flat = ''*'' then None
           else (case Option.bind (case nested of Some (d # _) \<Rightarrow> Some d | _ \<Rightarrow> None) single_nested_argument of
                   Some inner \<Rightarrow> Some (inner, True)
                 | None \<Rightarrow> Some (if first_arg_is_array then first_flat @ ''[]'' else first_flat, False))))"

section \<open>Verbs\<close>

definition harvest_wrappers :: "(string \<times> fragment) list \<Rightarrow> string set \<Rightarrow> string set" where
  "harvest_wrappers fragments seed =
     fold (\<lambda>(_, frag). fold (\<lambda>publish verbs.
       case pb_enclosing_method publish of
         None \<Rightarrow> verbs
       | Some m \<Rightarrow> if pb_verb publish \<in> seed then insert m verbs else verbs) (fg_publishes frag)) fragments seed"

definition derive_publish_verbs :: "(string \<times> fragment) list \<Rightarrow> string set" where
  "derive_publish_verbs fragments = harvest_wrappers fragments (set PUBLISH_VERBS)"

section \<open>Messages bound and received\<close>

text \<open>Every declared part, with its file, in order.\<close>

definition part_defs :: "(string \<times> fragment) list \<Rightarrow> frag_def list" where
  "part_defs fragments = concat (map (\<lambda>(_, frag). fg_defs frag) fragments)"

definition part_index :: "def_index \<Rightarrow> frag_def \<Rightarrow> nat option" where
  "part_index index d = di_qualified_arity index (def_key d)"

definition property_messages_by_def :: "(string \<times> fragment) list \<Rightarrow> def_index \<Rightarrow> nat \<Rightarrow> string list option" where
  "property_messages_by_def fragments index =
     fold (\<lambda>d m.
       if fd_property_message_args d = [] then m
       else (case part_index index d of
               None \<Rightarrow> m
             | Some i \<Rightarrow> entry_update i [] (\<lambda>ms. ms @ fd_property_message_args d) m)) (part_defs fragments) (\<lambda>_. None)"

definition def_binds_sent_message ::
  "resolver \<Rightarrow> def_index \<Rightarrow> contexts \<Rightarrow> (nat \<Rightarrow> string list option) \<Rightarrow> message_identity set \<Rightarrow> nat \<Rightarrow> bool option" where
  "def_binds_sent_message rec index contexts property_messages sent def_idx =
     (case property_messages def_idx of
        None \<Rightarrow> Some False
      | Some messages \<Rightarrow>
          (let d = di_defs index ! def_idx
           in case contexts (d_file d) of
                None \<Rightarrow> Some False
              | Some ctx \<Rightarrow>
                  ex_opt (\<lambda>message. map_option (\<lambda>m. case m of Some i \<Rightarrow> i \<in> sent | None \<Rightarrow> False)
                    (resolve_message_identity rec message (d_namespace d) (def_outer_types d) ctx)) messages))"

text \<open>The loop over a stack whose top is the head of the list.\<close>

lemma top_level_args_length: "sum_list (map (\<lambda>p. Suc (length p)) (top_level_args depth cur cs)) = Suc (length cur + length cs)"
  by (induction depth cur cs rule: top_level_args.induct) auto

lemma bracketed_length: "bracketed s = Some (h, inner) \<Longrightarrow> Suc (length inner) < length s"
proof -
  assume b: "bracketed s = Some (h, inner)"
  then obtain at where at: "position ((=) CHR ''<'') s = Some at" "ends_with s ''>''"
      "inner = slice (at + 1) (length s - 1) s"
    by (auto simp: bracketed_def str_find_char_def split: option.splits if_splits)
  then have "s = take (length s - 1) s @ ''>''" by (metis append_take_drop_id ends_with_def One_nat_def length_Cons list.size(3))
  then obtain t where "s = t @ ''>''" by blast
  with at position_SomeD [OF at(1)] show ?thesis by (cases t) (auto simp: slice_def nth_append split: if_splits)
qed

function type_texts :: "string list \<Rightarrow> string list" where
  "type_texts [] = []"
| "type_texts (candidate # stack) =
     (case bracketed candidate of
        Some (hd_part, inner) \<Rightarrow> hd_part # type_texts (rev (split_top_level_args inner) @ stack)
      | None \<Rightarrow> candidate # type_texts stack)"
  by pat_completeness auto
termination
  by (relation "measure (\<lambda>stack. sum_list (map (\<lambda>p. Suc (length p)) stack))")
    (auto simp: split_top_level_args_def top_level_args_length rev_map [symmetric] sum_list_rev dest!: bracketed_length)

declare type_texts.simps [simp del]

definition descriptor_type_texts :: "string \<Rightarrow> string list" where
  "descriptor_type_texts descriptor = type_texts [or_default descriptor (strip_prefix descriptor ''this '')]"

end
