(* ===== verification/Bus.thy ===== *)
theory Bus
  imports BusNames
begin

text \<open>
  The message bus, second part: the handler bases registrations teach and their closure
  (\<open>src/resolve/bus_vocab.rs\<close>), the consumers and the publish sites, and the hops between them
  (\<open>src/resolve/bus.rs\<close>). The loop of the closure takes fuel; \<open>closure_rounds\<close>, one round for
  every name that may enter one of the two sets and one more, is enough, which the facts show.
\<close>

fun fold_opt :: "('a \<Rightarrow> 's \<Rightarrow> 's option) \<Rightarrow> 'a list \<Rightarrow> 's \<Rightarrow> 's option" where
  "fold_opt f [] s = Some s"
| "fold_opt f (x # xs) s = do { s' \<leftarrow> f x s; fold_opt f xs s' }"

section \<open>What registrations teach\<close>

definition is_reserved_method_params_key :: "string \<Rightarrow> bool" where
  "is_reserved_method_params_key key \<longleftrightarrow>
     list_ex (starts_with key) [''@result:'', ''@property:'', ''@field:'']
     \<or> key \<in> {''@variant'', ''@implicit-conversion'', INTERPOLATED_HANDLER_MARK}"

definition overload_receives ::
  "resolver \<Rightarrow> contexts \<Rightarrow> message_identity \<Rightarrow> string \<Rightarrow> string list \<Rightarrow> method_overload_params \<Rightarrow> bool option" where
  "overload_receives rec contexts message ns outer_types overload =
     (case contexts (mo_file overload) of
        None \<Rightarrow> Some False
      | Some ctx \<Rightarrow>
          ex_opt (\<lambda>descriptor. ex_opt (\<lambda>text'.
              map_option (\<lambda>m. m = Some message) (resolve_message_identity rec text' ns outer_types ctx))
            (descriptor_type_texts descriptor)) (mo_params overload))"

definition def_receives_message ::
  "resolver \<Rightarrow> def_index \<Rightarrow> contexts \<Rightarrow> nat \<Rightarrow> message_identity \<Rightarrow> bool option" where
  "def_receives_message rec index contexts def_idx message =
     (let d = di_defs index ! def_idx; params = ml_method_params (di_member_lists index ! def_idx);
          declared = filter (\<lambda>key. \<not> is_reserved_method_params_key key) (sorted_list_of_set (dom params))
      in ex_opt (\<lambda>key. ex_opt (overload_receives rec contexts message (d_namespace d) (def_outer_types d))
           (or_default [] (params key))) declared)"

text \<open>The consumer bases, the bases that only bind, and whether a registration taught any.\<close>

type_synonym bases = "string set \<times> string set \<times> bool"

definition learn_base ::
  "resolver \<Rightarrow> def_index \<Rightarrow> contexts \<Rightarrow> message_identity set \<Rightarrow> file_context \<Rightarrow> nat \<Rightarrow> bool \<Rightarrow> frag_def
   \<Rightarrow> string \<Rightarrow> bases \<Rightarrow> bases option" where
  "learn_base rec index contexts sent r_ctx def_idx receives_bound d base st =
     (case st of (consumers, binding_only, contributed) \<Rightarrow>
        (if base \<in> consumers then Some st
         else (case Option.bind (om_get (fd_base_generic_args d) base) (\<lambda>flat.
                 concrete_base_argument (om_get (fd_base_type_args d) base) flat (base \<in> set (fd_array_message_bases d))) of
                 None \<Rightarrow> Some st
               | Some (message_text, _) \<Rightarrow>
                   (let r = di_defs index ! def_idx in do {
                      message \<leftarrow> resolve_message_identity rec message_text (d_namespace r) (def_outer_types r) r_ctx;
                      argument_admits \<leftarrow> (case message of
                          None \<Rightarrow> Some False
                        | Some m \<Rightarrow> if m \<in> sent then def_receives_message rec index contexts def_idx m else Some False);
                      Some (if argument_admits then (insert base consumers, binding_only, True)
                            else if receives_bound \<and> base \<notin> binding_only
                              then (consumers, insert base binding_only, True)
                            else st) }))))"

definition learn_registration ::
  "resolver \<Rightarrow> def_index \<Rightarrow> contexts \<Rightarrow> message_identity set \<Rightarrow> (string \<times> fragment) list \<Rightarrow> file_context
   \<Rightarrow> frag_handler_registration \<Rightarrow> bases \<Rightarrow> bases option" where
  "learn_registration rec index contexts sent fragments ctx reg st =
     do {
       handler \<leftarrow> resolve_type_text rec (hr_handler reg) (hr_namespace reg) [] ctx;
       case handler of
         None \<Rightarrow> Some st
       | Some def_idx \<Rightarrow>
           (if plain_identity def_idx \<in> sent then Some st
            else (case contexts (d_file (di_defs index ! def_idx)) of
                    None \<Rightarrow> Some st
                  | Some r_ctx \<Rightarrow> do {
                      receives_bound \<leftarrow> def_binds_sent_message rec index contexts
                        (property_messages_by_def fragments index) sent def_idx;
                      fold_opt (\<lambda>d. fold_opt (learn_base rec index contexts sent r_ctx def_idx receives_bound d) (fd_bases d))
                        (filter (\<lambda>d. fd_id d = d_id (di_defs index ! def_idx)) (part_defs fragments)) st })) }"

definition harvest_registrations ::
  "resolver \<Rightarrow> def_index \<Rightarrow> contexts \<Rightarrow> message_identity set \<Rightarrow> (string \<times> fragment) list \<Rightarrow> bases \<Rightarrow> bases option" where
  "harvest_registrations rec index contexts sent fragments st =
     fold_opt (\<lambda>(f, frag) st.
       if fg_handler_registrations frag = [] then Some st
       else (case contexts f of
               None \<Rightarrow> Some st
             | Some ctx \<Rightarrow>
                 fold_opt (learn_registration rec index contexts sent fragments ctx) (fg_handler_registrations frag) st))
       fragments st"

section \<open>Bases of bases\<close>

definition passes_through :: "frag_def \<Rightarrow> string \<Rightarrow> bool" where
  "passes_through d base \<longleftrightarrow> (case om_get (fd_base_generic_args d) base of Some (first # _) \<Rightarrow> first = ''*'' | _ \<Rightarrow> False)"

text \<open>One definition of a round; the last component notes that something was added.\<close>

definition close_def :: "def_index \<Rightarrow> frag_def \<Rightarrow> string set \<times> string set \<times> bool \<Rightarrow> string set \<times> string set \<times> bool" where
  "close_def index d st =
     (case st of (consumers, binding_only, added) \<Rightarrow>
        (let name = simple_name (fd_id d)
         in if part_index index d = None \<or> name \<in> consumers then st
            else if list_ex (\<lambda>base. passes_through d base \<and> base \<in> consumers) (fd_bases d)
              then (insert name consumers, binding_only, True)
            else if list_ex (\<lambda>base. passes_through d base \<and> base \<notin> consumers \<and> base \<in> binding_only) (fd_bases d)
                    \<and> name \<notin> binding_only
              then (consumers, insert name binding_only, True)
            else st))"

definition close_round :: "def_index \<Rightarrow> frag_def list \<Rightarrow> string set \<times> string set \<Rightarrow> string set \<times> string set \<times> bool" where
  "close_round index ds st = fold (close_def index) ds (fst st, snd st, False)"

fun close_loop :: "nat \<Rightarrow> def_index \<Rightarrow> frag_def list \<Rightarrow> string set \<times> string set \<Rightarrow> (string set \<times> string set) option" where
  "close_loop 0 index ds st = None"
| "close_loop (Suc fuel) index ds st =
     (case close_round index ds st of (consumers, binding_only, added) \<Rightarrow>
        if added then close_loop fuel index ds (consumers, binding_only) else Some (consumers, binding_only))"

definition closure_rounds :: "frag_def list \<Rightarrow> nat" where
  "closure_rounds ds = 2 * length ds + 1"

definition close_over_intermediates ::
  "def_index \<Rightarrow> (string \<times> fragment) list \<Rightarrow> string set \<times> string set \<Rightarrow> (string set \<times> string set) option" where
  "close_over_intermediates index fragments st =
     close_loop (closure_rounds (part_defs fragments)) index (part_defs fragments) st"

record bus_vocabulary =
  bv_consumer_bases :: "string set"
  bv_binding_only_bases :: "string set"

definition derive_consumer_bases ::
  "resolver \<Rightarrow> def_index \<Rightarrow> contexts \<Rightarrow> message_identity set \<Rightarrow> (string \<times> fragment) list \<Rightarrow> (bus_vocabulary \<times> bool) option" where
  "derive_consumer_bases rec index contexts sent fragments =
     do {
       (consumers, binding_only, contributed) \<leftarrow>
         harvest_registrations rec index contexts sent fragments (set CONSUMER_BASES, {}, False);
       (consumers', binding_only') \<leftarrow> close_over_intermediates index fragments (consumers, binding_only);
       Some (\<lparr>bv_consumer_bases = consumers', bv_binding_only_bases = binding_only' - consumers'\<rparr>, contributed) }"

section \<open>Calls that hand over no message\<close>

definition structural_non_dispatch ::
  "resolver \<Rightarrow> def_index \<Rightarrow> string \<Rightarrow> nat \<Rightarrow> message_identity \<Rightarrow> string \<Rightarrow> string list \<Rightarrow> file_context \<Rightarrow> bool option" where
  "structural_non_dispatch rec index verb arg_count message ns outer_types ctx =
     (case di_member_names index verb of
        None \<Rightarrow> Some False
      | Some candidate_defs \<Rightarrow>
          (let overloads = concat (map (\<lambda>i. filter (\<lambda>overload. length (mo_params overload) = arg_count)
                 (or_default [] (ml_method_params (di_member_lists index ! i) verb))) candidate_defs)
           in do {
             takers \<leftarrow> ex_opt (\<lambda>overload. map_option (\<lambda>takes. \<not> takes) (ex_opt (\<lambda>descriptor.
                 map_option (\<lambda>m. m = Some message) (resolve_message_identity rec descriptor ns outer_types ctx))
               (mo_params overload))) overloads;
             Some (\<not> takers \<and> overloads \<noteq> []) }))"

record verb_overload =
  vo_required :: nat
  vo_total :: nat
  vo_params :: "string list"

definition USIZE_MAX :: nat where
  "USIZE_MAX = 2 ^ 64 - 1"

text \<open>The declared parts of one definition, and the overloads of a verb they declare.\<close>

definition records_of :: "(string \<times> fragment) list \<Rightarrow> def_index \<Rightarrow> nat \<Rightarrow> frag_def list" where
  "records_of fragments index i = filter (\<lambda>d. part_index index d = Some i) (part_defs fragments)"

definition part_overloads :: "string \<Rightarrow> frag_def \<Rightarrow> verb_overload list" where
  "part_overloads verb d =
     (case om_get (fd_method_params d) verb of
        None \<Rightarrow> []
      | Some overload_params \<Rightarrow>
          map (\<lambda>(k, params).
            (case Option.bind (om_get (fd_method_arities d) verb) (\<lambda>ranges. get ranges k) of
               Some (r, t) \<Rightarrow> \<lparr>vo_required = r, vo_total = (if t < 0 then USIZE_MAX else nat t), vo_params = params\<rparr>
             | None \<Rightarrow> \<lparr>vo_required = length params, vo_total = length params, vo_params = params\<rparr>))
          (enumerate 0 overload_params))"

definition verb_overloads :: "(string \<times> fragment) list \<Rightarrow> def_index \<Rightarrow> string \<Rightarrow> verb_overload list" where
  "verb_overloads fragments index verb =
     concat (map (\<lambda>i. concat (map (part_overloads verb) (records_of fragments index i)))
       (or_default [] (di_member_names index verb)))"

definition TEST_DOUBLE_DIRECT_VERBS :: "string list" where
  "TEST_DOUBLE_DIRECT_VERBS =
     [''Setup'', ''SetupGet'', ''SetupSet'', ''SetupSequence'', ''SetupAllProperties'', ''Verify'', ''VerifyGet'',
      ''VerifySet'', ''VerifyAll'', ''VerifyNoOtherCalls'']"

definition expression_at :: "verb_overload \<Rightarrow> nat \<Rightarrow> bool" where
  "expression_at overload i = (case get (vo_params overload) i of Some d \<Rightarrow> starts_with d ''Expression<'' | None \<Rightarrow> False)"

text \<open>Whether the lambda's parameter is an expression tree, for each way an overload lines up with the call.\<close>

definition alignments :: "nat \<Rightarrow> nat \<Rightarrow> verb_overload \<Rightarrow> bool list" where
  "alignments arg_position outer_arg_count overload =
     (let this_extension = (case vo_params overload of [] \<Rightarrow> False | p # _ \<Rightarrow> starts_with p ''this '');
          in_range' = (\<lambda>n. vo_required overload \<le> n \<and> n \<le> vo_total overload)
      in (if in_range' outer_arg_count \<and> \<not> (this_extension \<and> arg_position = 0)
          then [expression_at overload arg_position] else [])
         @ (if this_extension \<and> in_range' (outer_arg_count + 1) then [expression_at overload (arg_position + 1)] else []))"

definition is_test_double_lambda :: "string \<Rightarrow> nat \<Rightarrow> nat \<Rightarrow> (string \<Rightarrow> verb_overload list) \<Rightarrow> bool" where
  "is_test_double_lambda outer_verb arg_position outer_arg_count overloads =
     (let found = concat (map (alignments arg_position outer_arg_count) (overloads outer_verb))
      in if found \<noteq> [] then list_all (\<lambda>b. b) found else outer_verb \<in> set TEST_DOUBLE_DIRECT_VERBS)"

section \<open>Consumers\<close>

definition EVIDENCE_BASE_ARG :: string where "EVIDENCE_BASE_ARG = ''base-arg''"
definition EVIDENCE_NESTED_BASE_ARG :: string where "EVIDENCE_NESTED_BASE_ARG = ''nested-base-arg''"
definition EVIDENCE_MEDIATOR_REQUEST :: string where "EVIDENCE_MEDIATOR_REQUEST = ''mediator-request''"
definition EVIDENCE_PROPERTY_ARG :: string where "EVIDENCE_PROPERTY_ARG = ''property-arg''"

record raw_consumer =
  rc_def_idx :: nat
  rc_message :: string
  rc_evidence :: string

record resolved_consumer =
  sc_def_idx :: nat
  sc_message :: message_identity
  sc_evidence :: string

definition base_message :: "string list option \<Rightarrow> string list option \<Rightarrow> bool \<Rightarrow> (string \<times> string) option" where
  "base_message nested flat first_arg_is_array =
     (case flat of
        None \<Rightarrow> None
      | Some fl \<Rightarrow>
          map_option (\<lambda>(message, from_nested).
            (message, if from_nested then EVIDENCE_NESTED_BASE_ARG
                      else if 2 \<le> length fl then EVIDENCE_MEDIATOR_REQUEST else EVIDENCE_BASE_ARG))
          (concrete_base_argument nested fl first_arg_is_array))"

text \<open>The consumers so far, the pairs seen and the definitions recognised.\<close>

type_synonym consumer_state = "raw_consumer list \<times> (nat \<times> string) set \<times> nat set"

definition consumer_base :: "bus_vocabulary \<Rightarrow> nat \<Rightarrow> frag_def \<Rightarrow> string \<Rightarrow> consumer_state \<Rightarrow> consumer_state" where
  "consumer_base vocabulary def_idx d base st =
     (case st of (out, seen, recognized) \<Rightarrow>
        (if base \<in> bv_consumer_bases vocabulary then
           (if (def_idx, base) \<in> seen then st
            else (case base_message (om_get (fd_base_type_args d) base) (om_get (fd_base_generic_args d) base)
                         (base \<in> set (fd_array_message_bases d)) of
                    Some (message, evidence) \<Rightarrow>
                      (out @ [\<lparr>rc_def_idx = def_idx, rc_message = message, rc_evidence = evidence\<rparr>],
                       insert (def_idx, base) seen, insert def_idx recognized)
                  | None \<Rightarrow> (out, insert (def_idx, base) seen, recognized)))
         else if base \<in> bv_binding_only_bases vocabulary then (out, seen, insert def_idx recognized)
         else st))"

definition append_property_messages :: "def_index \<Rightarrow> frag_def list \<Rightarrow> consumer_state \<Rightarrow> consumer_state" where
  "append_property_messages index ds st =
     fold (\<lambda>d (out, seen, recognized).
       case part_index index d of
         None \<Rightarrow> (out, seen, recognized)
       | Some i \<Rightarrow>
           (if i \<notin> recognized then (out, seen, recognized)
            else fold (\<lambda>message (out, seen, recognized).
                   if (i, message) \<in> seen then (out, seen, recognized)
                   else (out @ [\<lparr>rc_def_idx = i, rc_message = message, rc_evidence = EVIDENCE_PROPERTY_ARG\<rparr>],
                         insert (i, message) seen, recognized))
                 (fd_property_message_args d) (out, seen, recognized))) ds st"

definition raw_consumers :: "(string \<times> fragment) list \<Rightarrow> def_index \<Rightarrow> bus_vocabulary \<Rightarrow> raw_consumer list" where
  "raw_consumers fragments index vocabulary =
     fst (append_property_messages index (part_defs fragments)
       (fold (\<lambda>d st. case part_index index d of
            None \<Rightarrow> st
          | Some i \<Rightarrow> fold (consumer_base vocabulary i d) (fd_bases d) st) (part_defs fragments) ([], {}, {})))"

fun resolve_consumers ::
  "resolver \<Rightarrow> def_index \<Rightarrow> contexts \<Rightarrow> (nat \<times> message_identity) set \<Rightarrow> raw_consumer list \<Rightarrow> resolved_consumer list option" where
  "resolve_consumers rec index contexts seen [] = Some []"
| "resolve_consumers rec index contexts seen (c # cs) =
     (let d = di_defs index ! rc_def_idx c
      in case contexts (d_file d) of
           None \<Rightarrow> resolve_consumers rec index contexts seen cs
         | Some ctx \<Rightarrow> do {
             message \<leftarrow> resolve_message_identity rec (rc_message c) (d_namespace d) (def_outer_types d) ctx;
             (case message of
                None \<Rightarrow> resolve_consumers rec index contexts seen cs
              | Some m \<Rightarrow>
                  (if (rc_def_idx c, m) \<in> seen then resolve_consumers rec index contexts seen cs
                   else map_option (Cons \<lparr>sc_def_idx = rc_def_idx c, sc_message = m, sc_evidence = rc_evidence c\<rparr>)
                     (resolve_consumers rec index contexts (insert (rc_def_idx c, m) seen) cs))) })"

definition resolved_consumers ::
  "resolver \<Rightarrow> def_index \<Rightarrow> contexts \<Rightarrow> (string \<times> fragment) list \<Rightarrow> bus_vocabulary \<Rightarrow> resolved_consumer list option" where
  "resolved_consumers rec index contexts fragments vocabulary =
     resolve_consumers rec index contexts {} (raw_consumers fragments index vocabulary)"

section \<open>Publish sites and hops\<close>

record kept_publish =
  kp_file :: string
  kp_line :: nat
  kp_message :: message_identity

definition keep_publish ::
  "resolver \<Rightarrow> def_index \<Rightarrow> string set \<Rightarrow> (string \<Rightarrow> verb_overload list) \<Rightarrow> string \<Rightarrow> file_context \<Rightarrow> frag_publish
   \<Rightarrow> kept_publish option option" where
  "keep_publish rec index publish_verbs overloads f ctx publish =
     (if pb_enclosing_method publish \<noteq> None then Some None
      else if pb_verb publish \<notin> publish_verbs \<and> \<not> has_dispatch_root (pb_verb publish) then Some None
      else do {
        message \<leftarrow> resolve_message_identity rec (pb_message publish) (pb_namespace publish) (pb_outer_types publish) ctx;
        case message of
          None \<Rightarrow> Some None
        | Some m \<Rightarrow> do {
            non_dispatch \<leftarrow> structural_non_dispatch rec index (pb_verb publish) (pb_arg_count publish) m
              (pb_namespace publish) (pb_outer_types publish) ctx;
            Some (if non_dispatch
                    \<or> (case pb_enclosing_call publish of
                         None \<Rightarrow> False
                       | Some c \<Rightarrow> is_test_double_lambda (ec_verb c) (ec_arg_position c) (ec_arg_count c) overloads)
                  then None
                  else Some \<lparr>kp_file = f, kp_line = pb_line publish, kp_message = m\<rparr>) } })"

definition kept_publish_sites ::
  "resolver \<Rightarrow> def_index \<Rightarrow> contexts \<Rightarrow> (string \<times> fragment) list \<Rightarrow> string set \<Rightarrow> (string \<Rightarrow> verb_overload list)
   \<Rightarrow> kept_publish list option" where
  "kept_publish_sites rec index contexts fragments publish_verbs overloads =
     do {
       kept \<leftarrow> map_opt (\<lambda>(f, frag).
         if fg_publishes frag = [] then Some []
         else (case contexts f of
                 None \<Rightarrow> Some []
               | Some ctx \<Rightarrow> map_opt (keep_publish rec index publish_verbs overloads f ctx) (fg_publishes frag))) fragments;
       Some (List.map_filter (\<lambda>x. x) (concat kept)) }"

definition bus_hop :: "def_index \<Rightarrow> kept_publish \<Rightarrow> resolved_consumer \<Rightarrow> edge" where
  "bus_hop index publish consumer =
     (let target = di_defs index ! sc_def_idx consumer
      in Bus_Hop (kp_file publish) (kp_line publish) (rendered_id index (kp_message publish)) (d_id target)
           (d_file target) (sc_evidence consumer))"

definition bus_hops :: "def_index \<Rightarrow> kept_publish list \<Rightarrow> resolved_consumer list \<Rightarrow> edge list" where
  "bus_hops index kept consumers =
     concat (map (\<lambda>publish. map (bus_hop index publish)
       (filter (\<lambda>consumer. sc_message consumer = kp_message publish) consumers)) kept)"

definition append_bus_edges ::
  "resolver \<Rightarrow> def_index \<Rightarrow> contexts \<Rightarrow> (string \<times> fragment) list \<Rightarrow> ledger \<Rightarrow> (ledger \<times> bool option) option" where
  "append_bus_edges rec index contexts fragments lg =
     (if list_all (\<lambda>(_, frag). fg_publishes frag = []) fragments then Some (lg, None)
      else do {
        kept \<leftarrow> kept_publish_sites rec index contexts fragments (derive_publish_verbs fragments)
          (verb_overloads fragments index);
        (vocabulary, derived) \<leftarrow> derive_consumer_bases rec index contexts (kp_message ` set kept) fragments;
        consumers \<leftarrow> resolved_consumers rec index contexts fragments vocabulary;
        (let hops = bus_hops index kept consumers
         in Some (if consumers = [] \<or> hops = [] then (lg, None)
                  else (lg\<lparr>lg_edges := lg_edges lg @ hops,
                           lg_by_kind := (lg_by_kind lg)\<lparr>ek_bus_hop := Some (length hops)\<rparr>\<rparr>, Some derived))) })"

end
