(* ===== verification/BusFacts.thy ===== *)
theory BusFacts
  imports Bus
begin

text \<open>What the vocabulary of the bus closes over, and that a consumer takes a message once.\<close>

section \<open>The closure over intermediate bases\<close>

text \<open>A base passes its message on to the type that derives from it with its own type parameter.\<close>

definition forwards :: "def_index \<Rightarrow> frag_def list \<Rightarrow> (string \<times> string) set" where
  "forwards index ds =
     {(base, simple_name (fd_id d)) | base d. d \<in> set ds \<and> part_index index d \<noteq> None \<and> base \<in> set (fd_bases d)
        \<and> passes_through d base}"

lemma forwards_iff:
  "(base, name) \<in> forwards index ds \<longleftrightarrow>
     (\<exists>d \<in> set ds. part_index index d \<noteq> None \<and> base \<in> set (fd_bases d) \<and> passes_through d base \<and> name = simple_name (fd_id d))"
  by (auto simp: forwards_def)

text \<open>What one step may change.\<close>

definition grows :: "def_index \<Rightarrow> frag_def list \<Rightarrow> string set \<times> string set \<times> bool \<Rightarrow> string set \<times> string set \<times> bool \<Rightarrow> bool" where
  "grows index ds s t \<longleftrightarrow>
     (case (s, t) of ((c, b, a), (c', b', a')) \<Rightarrow>
        c \<subseteq> c' \<and> b \<subseteq> b' \<and> (a \<longrightarrow> a')
        \<and> (\<forall>C0. c \<subseteq> (forwards index ds)\<^sup>* `` C0 \<longrightarrow> c' \<subseteq> (forwards index ds)\<^sup>* `` C0)
        \<and> (\<forall>B0. b \<subseteq> (forwards index ds)\<^sup>* `` B0 \<longrightarrow> b' \<subseteq> (forwards index ds)\<^sup>* `` B0)
        \<and> (\<not> a' \<longrightarrow> c' = c \<and> b' = b)
        \<and> (a' \<longrightarrow> a \<or> (\<exists>n \<in> (simple_name \<circ> fd_id) ` set ds. n \<in> c' - c \<or> n \<in> b' - b)))"

lemma forwards_image: "(x, y) \<in> R \<Longrightarrow> x \<in> R\<^sup>* `` A \<Longrightarrow> y \<in> R\<^sup>* `` A"
  by (auto intro: rtrancl_into_rtrancl)

lemma grows_refl: "grows index ds s s"
  by (cases s) (auto simp: grows_def)

lemma grows_trans:
  assumes "grows index ds s t" "grows index ds t u"
  shows "grows index ds s u"
proof -
  obtain c b a c' b' a' c'' b'' a'' where [simp]: "s = (c, b, a)" "t = (c', b', a')" "u = (c'', b'', a'')"
    by (cases s; cases t; cases u)
  have *: "c \<subseteq> c'" "b \<subseteq> b'" "c' \<subseteq> c''" "b' \<subseteq> b''" "a' \<longrightarrow> a''" "a \<longrightarrow> a'"
    "\<not> a'' \<longrightarrow> c'' = c' \<and> b'' = b'" "\<not> a' \<longrightarrow> c' = c \<and> b' = b"
    "a'' \<longrightarrow> a' \<or> (\<exists>n \<in> (simple_name \<circ> fd_id) ` set ds. n \<in> c'' - c' \<or> n \<in> b'' - b')"
    "a' \<longrightarrow> a \<or> (\<exists>n \<in> (simple_name \<circ> fd_id) ` set ds. n \<in> c' - c \<or> n \<in> b' - b)"
    and C: "\<And>C0. c \<subseteq> (forwards index ds)\<^sup>* `` C0 \<Longrightarrow> c' \<subseteq> (forwards index ds)\<^sup>* `` C0"
      "\<And>C0. c' \<subseteq> (forwards index ds)\<^sup>* `` C0 \<Longrightarrow> c'' \<subseteq> (forwards index ds)\<^sup>* `` C0"
    and B: "\<And>B0. b \<subseteq> (forwards index ds)\<^sup>* `` B0 \<Longrightarrow> b' \<subseteq> (forwards index ds)\<^sup>* `` B0"
      "\<And>B0. b' \<subseteq> (forwards index ds)\<^sup>* `` B0 \<Longrightarrow> b'' \<subseteq> (forwards index ds)\<^sup>* `` B0"
    using assms by (simp_all add: grows_def)
  have "a'' \<longrightarrow> a \<or> (\<exists>n \<in> (simple_name \<circ> fd_id) ` set ds. n \<in> c'' - c \<or> n \<in> b'' - b)"
    using * by blast
  with * C B show ?thesis by (simp add: grows_def) blast
qed

lemma close_def_grows: "d \<in> set ds \<Longrightarrow> grows index ds s (close_def index d s)"
proof -
  assume d: "d \<in> set ds"
  obtain c b a where s: "s = (c, b, a)" by (cases s)
  let ?n = "simple_name (fd_id d)"
  have n: "?n \<in> (simple_name \<circ> fd_id) ` set ds" using d by auto
  let ?consumer = "\<exists>base \<in> set (fd_bases d). passes_through d base \<and> base \<in> c"
  let ?binding = "(\<exists>base \<in> set (fd_bases d). passes_through d base \<and> base \<notin> c \<and> base \<in> b) \<and> ?n \<notin> b"
  have step: "close_def index d s =
      (if part_index index d = None \<or> ?n \<in> c then s
       else if ?consumer then (insert ?n c, b, True)
       else if ?binding then (c, insert ?n b, True) else s)"
    by (simp only: s close_def_def Let_def list_ex_iff prod.case)
  consider (same) "close_def index d s = s"
    | (consumer) base where "base \<in> set (fd_bases d)" "passes_through d base" "base \<in> c" "?n \<notin> c" "part_index index d \<noteq> None"
        "close_def index d s = (insert ?n c, b, True)"
    | (binding) base where "base \<in> set (fd_bases d)" "passes_through d base" "base \<in> b" "?n \<notin> b" "part_index index d \<noteq> None"
        "close_def index d s = (c, insert ?n b, True)"
  proof (cases "part_index index d = None \<or> ?n \<in> c")
    case True
    show thesis by (rule same [OF trans [OF step if_P [OF True]]])
  next
    case outside: False
    note step = step [unfolded if_not_P [OF outside]]
    show thesis
    proof (cases ?consumer)
      case True
      have "close_def index d s = (insert ?n c, b, True)" by (rule trans [OF step if_P [OF True]])
      with True outside consumer show thesis by blast
    next
      case False
      note step = step [unfolded if_not_P [OF False]]
      show thesis
      proof (cases ?binding)
        case True
        have "close_def index d s = (c, insert ?n b, True)" by (rule trans [OF step if_P [OF True]])
        with True outside binding show thesis by blast
      next
        case False
        show thesis by (rule same [OF trans [OF step if_not_P [OF False]]])
      qed
    qed
  qed
  then show ?thesis
  proof cases
    case same
    then show ?thesis by (simp add: grows_refl)
  next
    case consumer
    then have "(base, ?n) \<in> forwards index ds" using d by (auto simp: forwards_iff)
    with consumer n show ?thesis by (auto simp: s grows_def dest: forwards_image)
  next
    case binding
    then have "(base, ?n) \<in> forwards index ds" using d by (auto simp: forwards_iff)
    with binding n show ?thesis by (auto simp: s grows_def dest: forwards_image)
  qed
qed

lemma close_fold_grows: "set es \<subseteq> set ds \<Longrightarrow> grows index ds s (fold (close_def index) es s)"
proof (induction es arbitrary: s)
  case (Cons d es)
  then show ?case using grows_trans [OF close_def_grows [of d ds index s]] by simp
qed (simp add: grows_refl)

lemma close_fold_fixed:
  assumes "set es \<subseteq> set ds" "fold (close_def index) es (c, b, False) = (c', b', False)" "d \<in> set es"
  shows "close_def index d (c, b, False) = (c, b, False)"
  using assms
proof (induction es)
  case (Cons e es)
  obtain c1 b1 a1 where first: "close_def index e (c, b, False) = (c1, b1, a1)" by (cases "close_def index e (c, b, False)")
  have "grows index ds (c1, b1, a1) (c', b', False)"
    using close_fold_grows [of es ds index "(c1, b1, a1)"] Cons.prems first by simp
  then have a1: "\<not> a1" by (simp add: grows_def)
  moreover have "grows index ds (c, b, False) (c1, b1, a1)"
    using close_def_grows [of e ds index "(c, b, False)"] Cons.prems first by simp
  ultimately have "c1 = c" "b1 = b" by (simp_all add: grows_def)
  with first a1 Cons show ?case by auto
qed simp

lemma close_round_fixed:
  assumes "close_round index ds (c, b) = (c', b', False)"
  shows "c' = c" "b' = b" "forwards index ds `` c \<subseteq> c" "forwards index ds `` (b - c) \<subseteq> b \<union> c"
proof -
  have fold: "fold (close_def index) ds (c, b, False) = (c', b', False)" using assms by (simp add: close_round_def)
  with close_fold_grows [of ds ds index "(c, b, False)"] show "c' = c" "b' = b" by (simp_all add: grows_def)
  have fixed: "close_def index d (c, b, False) = (c, b, False)" if "d \<in> set ds" for d
    by (rule close_fold_fixed [OF subset_refl fold that])
  have "simple_name (fd_id d) \<in> c \<or> (base \<notin> c \<and> (base \<in> b \<longrightarrow> simple_name (fd_id d) \<in> b))"
    if "d \<in> set ds" "part_index index d \<noteq> None" "base \<in> set (fd_bases d)" "passes_through d base" for d base
    using fixed [OF that(1)] that(2-) by (auto simp: close_def_def Let_def list_ex_iff split: if_splits)
  then show "forwards index ds `` c \<subseteq> c" "forwards index ds `` (b - c) \<subseteq> b \<union> c"
    by (auto simp: forwards_iff) blast+
qed

text \<open>The names that may still enter one of the sets.\<close>

definition open_names :: "frag_def list \<Rightarrow> string set \<times> string set \<Rightarrow> nat" where
  "open_names ds st = card ((simple_name \<circ> fd_id) ` set ds - fst st) + card ((simple_name \<circ> fd_id) ` set ds - snd st)"

lemma close_round_open:
  assumes "close_round index ds (c, b) = (c', b', True)"
  shows "open_names ds (c', b') < open_names ds (c, b)"
proof -
  let ?N = "(simple_name \<circ> fd_id) ` set ds"
  have "grows index ds (c, b, False) (c', b', True)"
    using close_fold_grows [of ds ds index "(c, b, False)"] assms by (simp add: close_round_def)
  then have g: "c \<subseteq> c'" "b \<subseteq> b'" "\<exists>n \<in> ?N. n \<in> c' - c \<or> n \<in> b' - b" by (simp_all add: grows_def)
  have le: "card (?N - c') \<le> card (?N - c)" "card (?N - b') \<le> card (?N - b)"
    using g(1, 2) by (auto intro!: card_mono)
  from g(3) obtain n where n: "n \<in> ?N" "n \<in> c' - c \<or> n \<in> b' - b" by blast
  have "card (?N - c') < card (?N - c) \<or> card (?N - b') < card (?N - b)"
    using n(2)
  proof
    assume "n \<in> c' - c"
    then have "?N - c' \<subset> ?N - c" using n(1) g(1) by blast
    then show ?thesis by (simp add: psubset_card_mono)
  next
    assume "n \<in> b' - b"
    then have "?N - b' \<subset> ?N - b" using n(1) g(2) by blast
    then show ?thesis by (simp add: psubset_card_mono)
  qed
  with le show ?thesis by (auto simp: open_names_def)
qed

lemma close_loop_exact:
  assumes "open_names ds (c, b) < fuel" and "c \<subseteq> (forwards index ds)\<^sup>* `` C0" "b \<subseteq> (forwards index ds)\<^sup>* `` B0" "C0 \<subseteq> c" "B0 \<subseteq> b"
  shows "\<exists>b'. close_loop fuel index ds (c, b) = Some ((forwards index ds)\<^sup>* `` C0, b')
    \<and> b' - (forwards index ds)\<^sup>* `` C0 = (forwards index ds)\<^sup>* `` B0 - (forwards index ds)\<^sup>* `` C0"
  using assms
proof (induction fuel arbitrary: c b)
  case (Suc fuel)
  let ?R = "forwards index ds"
  obtain c' b' a where round: "close_round index ds (c, b) = (c', b', a)" by (cases "close_round index ds (c, b)")
  have g: "grows index ds (c, b, False) (c', b', a)"
    using close_fold_grows [of ds ds index "(c, b, False)"] round by (simp add: close_round_def)
  show ?case
  proof (cases a)
    case True
    with g Suc.prems have "c' \<subseteq> ?R\<^sup>* `` C0" "b' \<subseteq> ?R\<^sup>* `` B0" "C0 \<subseteq> c'" "B0 \<subseteq> b'"
      by (auto simp: grows_def)
    moreover have "open_names ds (c', b') < fuel"
      using close_round_open [of index ds c b c' b'] round True Suc.prems(1) by simp
    ultimately show ?thesis using Suc.IH [of c' b'] round True by simp
  next
    case False
    note fixed = close_round_fixed [of index ds c b c' b']
    have closed: "?R `` c \<subseteq> c" "?R `` (b - c) \<subseteq> b \<union> c" "c' = c" "b' = b" using fixed round False by simp_all
    have "?R\<^sup>* `` C0 \<subseteq> c" using Suc.prems(4) closed(1) by (metis Image_closed_trancl Image_mono subset_refl subset_trans)
    then have c: "c = ?R\<^sup>* `` C0" using Suc.prems(2) by blast
    have "?R `` (b \<union> c) \<subseteq> b \<union> c" using closed(1, 2) by blast
    then have "?R\<^sup>* `` B0 \<subseteq> b \<union> c" using Suc.prems(5) by (metis Image_closed_trancl Image_mono subset_refl subset_trans le_supI1)
    then have "b - c = ?R\<^sup>* `` B0 - c" using Suc.prems(3) by blast
    then show ?thesis using round False closed(3, 4) c by auto
  qed
qed simp

text \<open>
  C28. The closure over intermediate bases always returns. It makes a consumer base of exactly the
  types that pass their message on from a consumer base through any number of intermediate bases, and
  the bases that only bind are those reached from one that binds and from no consumer.
\<close>

theorem intermediate_bases_exact:
  "\<exists>binding_only'. close_over_intermediates index fragments (consumers, binding_only) =
       Some ((forwards index (part_defs fragments))\<^sup>* `` consumers, binding_only')
     \<and> binding_only' - (forwards index (part_defs fragments))\<^sup>* `` consumers =
       (forwards index (part_defs fragments))\<^sup>* `` binding_only - (forwards index (part_defs fragments))\<^sup>* `` consumers"
proof -
  let ?ds = "part_defs fragments"
  have card: "card ((simple_name \<circ> fd_id) ` set ?ds - A) \<le> length ?ds" for A
    by (meson List.finite_set card_Diff1_le card_image_le card_length card_mono Diff_subset finite_imageI le_trans)
  have "open_names ?ds (consumers, binding_only) < closure_rounds ?ds"
    using card [of consumers] card [of binding_only] by (simp add: open_names_def closure_rounds_def)
  from close_loop_exact [OF this, of index consumers binding_only] show ?thesis
    by (auto simp: close_over_intermediates_def)
qed

end
