(* ===== verification/Assembly.thy ===== *)
theory Assembly
  imports BusFacts
begin

text \<open>
  The resolve run (\<open>src/resolve/assembly.rs\<close>): every reference of every fragment through the tiers
  of its kind, the dispatch and bus edges, the removal of duplicate guesses, and the graph with its
  statistics. The mutable locals of the loop body are the record \<open>member_walk\<close>, what the closure
  captures is \<open>env\<close>, and one tier is one definition. \<open>None\<close> is a call that does not return, a
  counter below zero or the \<open>expect\<close> of the scored tier. The percentage of ambiguous references, a
  floating-point number, and the TypeScript stage are left out.
\<close>

section \<open>Environment and state\<close>

definition SCORED_UNIQUENESS_CAP :: nat where "SCORED_UNIQUENESS_CAP = 3"
definition SCORED_EMIT_CAP :: nat where "SCORED_EMIT_CAP = 3"

record env =
  ev_fuel :: nat
  ev_rec :: resolver
  ev_index :: def_index
  ev_contexts :: contexts
  ev_admission :: admission
  ev_implementors :: "string \<Rightarrow> nat list option"

text \<open>A reference with the file it stands in.\<close>

record site =
  si_file :: string
  si_unit :: "nat option"
  si_usings :: file_usings
  si_aliases :: alias_map
  si_ref :: frag_ref

definition si_ns :: "site \<Rightarrow> string" where
  "si_ns s = or_empty (fr_namespace (si_ref s))"

record member_walk =
  mw_emitted :: bool
  mw_field :: "receiver_field_type option"
  mw_type_name :: "string option"
  mw_receiver_def :: "nat option"
  mw_receiver_result :: "ref_resolution option"
  mw_narrowed_away :: bool
  mw_ledger :: ledger

definition member_edge :: "env \<Rightarrow> site \<Rightarrow> heuristic_tier option \<Rightarrow> nat \<Rightarrow> edge" where
  "member_edge ev s tier target =
     (let d = di_defs (ev_index ev) ! target
      in uses_member (si_file s) (fr_line (si_ref s)) (d_id d) (d_file d) (fr_member (si_ref s)) tier)"

definition push_precise :: "env \<Rightarrow> site \<Rightarrow> nat \<Rightarrow> ledger \<Rightarrow> ledger" where
  "push_precise ev s target lg =
     (push_edge (member_edge ev s None target) lg)\<lparr>
       lg_by_kind := (lg_by_kind lg)\<lparr>ek_uses_member := ek_uses_member (lg_by_kind lg) + 1\<rparr>\<rparr>"

definition push_ext :: "env \<Rightarrow> site \<Rightarrow> nat \<Rightarrow> ledger \<Rightarrow> ledger" where
  "push_ext ev s target lg =
     (push_edge (member_edge ev s (Some Tier_Ext) target) lg)\<lparr>
       lg_heuristic := lg_heuristic lg + 1, lg_by_tier := (lg_by_tier lg)\<lparr>bt_ext := bt_ext (lg_by_tier lg) + 1\<rparr>\<rparr>"

definition push_guess :: "env \<Rightarrow> site \<Rightarrow> nat \<Rightarrow> ledger \<Rightarrow> ledger" where
  "push_guess ev s target lg =
     (push_edge (member_edge ev s (Some Tier_Guess) target) lg)\<lparr>
       lg_heuristic := lg_heuristic lg + 1, lg_by_tier := (lg_by_tier lg)\<lparr>bt_guess := bt_guess (lg_by_tier lg) + 1\<rparr>\<rparr>"

text \<open>A precise edge is pushed and the reference is answered.\<close>

definition answer :: "env \<Rightarrow> site \<Rightarrow> nat \<Rightarrow> member_walk \<Rightarrow> member_walk" where
  "answer ev s target w = w\<lparr>mw_emitted := True, mw_ledger := push_precise ev s target (mw_ledger w)\<rparr>"

section \<open>The base and the qualifier\<close>

definition base_tier :: "env \<Rightarrow> site \<Rightarrow> ref_resolution \<Rightarrow> member_walk \<Rightarrow> member_walk option" where
  "base_tier ev s result w =
     (case result of
        Ref_Resolved start _ \<Rightarrow> do {
          found \<leftarrow> base_member_for_ref (ev_fuel ev) (ev_rec ev) (ev_index ev) (ev_contexts ev) start (si_ref s) (si_file s);
          Some (case found of Some target \<Rightarrow> answer ev s target w | None \<Rightarrow> w\<lparr>mw_emitted := True\<rparr>) }
      | _ \<Rightarrow> Some (w\<lparr>mw_emitted := True\<rparr>))"

definition bare_field :: "env \<Rightarrow> site \<Rightarrow> bare_member_lookup \<Rightarrow> receiver_field_type option option" where
  "bare_field ev s use_kind =
     bare_receiver_field_or_property_type (ev_rec ev) (ev_index ev) (ev_contexts ev) (si_ns s) (si_ref s) (si_usings s)
       (si_aliases s) use_kind"

text \<open>A bare name that also names a type is first read as a field or property of the site.\<close>

definition type_priority_field :: "env \<Rightarrow> site \<Rightarrow> nat \<Rightarrow> via \<Rightarrow> receiver_field_type option option" where
  "type_priority_field ev s idx v =
     (if fr_qualified (si_ref s) = None \<and> \<not> fr_generic (si_ref s) \<and> \<not> extractor_vouches_instance (si_ref s)
         \<and> fr_receiver_lambda (si_ref s) = None
         \<and> type_qualifier_arm_admits v (d_id (di_defs (ev_index ev) ! idx)) (si_ref s)
      then bare_field ev s Type_Priority else Some None)"

definition enum_member :: "env \<Rightarrow> site \<Rightarrow> nat \<Rightarrow> nat option" where
  "enum_member ev s idx =
     di_qualified (ev_index ev) (d_id (di_defs (ev_index ev) ! idx) @ ''.'' @ or_empty (fr_member (si_ref s)))"

definition names_nested_type :: "env \<Rightarrow> site \<Rightarrow> nat \<Rightarrow> bool" where
  "names_nested_type ev s idx \<longleftrightarrow>
     \<not> extractor_vouches_instance (si_ref s)
     \<and> (case fr_member (si_ref s) of
          None \<Rightarrow> False
        | Some m \<Rightarrow> type_candidate (ev_index ev) (d_id (di_defs (ev_index ev) ! idx) @ ''+'' @ m) None \<noteq> None)"

definition qualifier_target :: "env \<Rightarrow> site \<Rightarrow> nat \<Rightarrow> via \<Rightarrow> nat option option" where
  "qualifier_target ev s idx v =
     (let r = si_ref s; this_shaped = is_this_shaped_receiver r in do {
        here \<leftarrow> declares_here_for_ref (ev_fuel ev) (ev_rec ev) (ev_index ev) (ev_contexts ev) idx r this_shaped (si_file s);
        if here then Some (Some idx)
        else do {
          base \<leftarrow> typed_receiver_base_member (ev_fuel ev) (ev_rec ev) (ev_index ev) (ev_contexts ev) idx r this_shaped (si_file s);
          Some (case base of
                  Some target \<Rightarrow> Some target
                | None \<Rightarrow>
                    (if (fr_generic r \<and> fr_qualified r = None) \<or> (fr_qualified r \<noteq> None \<and> v = Via_Qualified)
                     then Some idx else None)) } })"

definition qualifier_tier :: "env \<Rightarrow> site \<Rightarrow> nat \<Rightarrow> via \<Rightarrow> member_walk \<Rightarrow> member_walk option" where
  "qualifier_tier ev s idx v w =
     do {
       field \<leftarrow> type_priority_field ev s idx v;
       let w = w\<lparr>mw_field := field\<rparr>;
       if field = None \<and> type_qualifier_arm_admits v (d_id (di_defs (ev_index ev) ! idx)) (si_ref s) then
         (if d_kind (di_defs (ev_index ev) ! idx) = ''enum''
          then Some (case enum_member ev s idx of Some m \<Rightarrow> answer ev s m w | None \<Rightarrow> w)
          else if names_nested_type ev s idx then Some (w\<lparr>mw_emitted := True\<rparr>)
          else do {
            target \<leftarrow> qualifier_target ev s idx v;
            Some (case target of Some t \<Rightarrow> answer ev s t w | None \<Rightarrow> w) })
       else Some w }"

section \<open>The receiver's type\<close>

text \<open>The return type of the call the receiver is, one level of an awaited task unwrapped.\<close>

definition call_result_type :: "env \<Rightarrow> site \<Rightarrow> string \<Rightarrow> string \<Rightarrow> string option option" where
  "call_result_type ev s owner member =
     (let r = si_ref s; index = ev_index ev in do {
        res \<leftarrow> ev_rec ev (name_probe owner (si_ns s) (fr_outer_types r)) (si_usings s) (si_ns s) (si_aliases s);
        case res of
          Ref_Resolved oidx _ \<Rightarrow> do {
            hop_owner \<leftarrow> (if fr_receiver_base r
              then base_member_declared (ev_rec ev) index (ev_contexts ev) oidx (Some member) None
              else Some (Some oidx));
            (let returns = Option.bind hop_owner (\<lambda>i. om_get (ml_method_returns (di_member_lists index ! i)) member);
                 args = Option.bind hop_owner (\<lambda>i. om_get (ml_method_return_args (di_member_lists index ! i)) member)
             in Some (if fr_receiver_awaited r \<and> (returns = Some ''Task'' \<or> returns = Some ''ValueTask'')
                      then (case args of Some [arg] \<Rightarrow> (if arg \<noteq> ''*'' then Some arg else returns) | _ \<Rightarrow> returns)
                      else returns)) }
        | _ \<Rightarrow> Some None })"

definition receiver_name :: "env \<Rightarrow> site \<Rightarrow> member_walk \<Rightarrow> member_walk option" where
  "receiver_name ev s w =
     (let r = si_ref s;
          written = (case fr_receiver_type r of Some t \<Rightarrow> Some t | None \<Rightarrow> map_option rf_type_name (mw_field w))
      in if written \<noteq> None then Some (w\<lparr>mw_type_name := written\<rparr>)
         else (case (fr_receiver_call_owner r, fr_receiver_call_member r) of
                 (Some owner, Some member) \<Rightarrow>
                   map_option (\<lambda>t. w\<lparr>mw_type_name := t\<rparr>) (call_result_type ev s owner member)
               | _ \<Rightarrow>
                   (case fr_receiver_lambda r of
                      Some slot \<Rightarrow> do {
                        field \<leftarrow> lambda_slot_receiver_type (ev_rec ev) (ev_index ev) (ev_contexts ev) (si_ns s) (si_usings s)
                          (si_aliases s) r slot;
                        Some (w\<lparr>mw_field := field, mw_type_name := map_option rf_type_name field\<rparr>) }
                    | None \<Rightarrow>
                        (if fr_qualified r = None \<and> \<not> fr_generic r \<and> \<not> fr_receiver_local r
                         then do {
                           field \<leftarrow> bare_field ev s Receiver_Fallback;
                           Some (w\<lparr>mw_field := field, mw_type_name := map_option rf_type_name field\<rparr>) }
                         else Some w))))"

text \<open>A type read off a declaration is resolved in the file that declares it.\<close>

definition probe_scope :: "env \<Rightarrow> site \<Rightarrow> receiver_field_type option \<Rightarrow> file_usings \<times> string \<times> alias_map \<times> string list" where
  "probe_scope ev s field =
     (case field of
        Some f \<Rightarrow>
          (case ev_contexts ev (rf_declaring_file f) of
             Some ctx \<Rightarrow>
               (let d = di_defs (ev_index ev) ! rf_declaring_def f
                in (fc_usings ctx, d_namespace d, fc_aliases ctx, def_outer_types d))
           | None \<Rightarrow> (si_usings s, si_ns s, si_aliases s, fr_outer_types (si_ref s)))
      | None \<Rightarrow> (si_usings s, si_ns s, si_aliases s, fr_outer_types (si_ref s)))"

definition typed_receiver_tier :: "env \<Rightarrow> site \<Rightarrow> string \<Rightarrow> member_walk \<Rightarrow> member_walk option" where
  "typed_receiver_tier ev s receiver_type w =
     (case probe_scope ev s (mw_field w) of (usings, ns, aliases, outer) \<Rightarrow>
        (let r = si_ref s;
             qualified = first_of (Option.bind (mw_field w) rf_qualified_type) (fr_receiver_type_qualified r);
             probe = (name_probe receiver_type ns outer)\<lparr>fr_qualified := qualified\<rparr>;
             arity = map_option (\<lambda>_. case fr_receiver_args r of None \<Rightarrow> 0 | Some as \<Rightarrow> length as) (fr_receiver_type r)
         in do {
           res \<leftarrow> resolve_receiver_type (ev_rec ev) (ev_index ev) probe arity usings ns aliases;
           let narrow = narrow_tracked res (si_unit s) (ev_admission ev);
           let w = w\<lparr>mw_narrowed_away := nw_narrowed_away narrow, mw_receiver_result := Some (nw_res narrow)\<rparr>;
           case nw_res narrow of
             Ref_Resolved ridx _ \<Rightarrow> do {
               (target, nullable_veto) \<leftarrow> typed_receiver_precise_target (ev_fuel ev) (ev_rec ev) (ev_index ev) (ev_contexts ev)
                 ridx r (is_this_shaped_receiver r) (fr_receiver_nullable r) (si_file s);
               let w = w\<lparr>mw_receiver_def := Some ridx\<rparr>;
               Some (case target of
                       Some t \<Rightarrow> answer ev s t w
                     | None \<Rightarrow> (if nullable_veto then w\<lparr>mw_emitted := True\<rparr> else w)) }
           | _ \<Rightarrow> Some w }))"

text \<open>A receiver that is a call whose type is not known answers nothing.\<close>

definition chain_tail_guard :: "site \<Rightarrow> member_walk \<Rightarrow> member_walk" where
  "chain_tail_guard s w =
     (if \<not> mw_emitted w \<and> fr_receiver_call_owner (si_ref s) \<noteq> None \<and> fr_receiver_call_member (si_ref s) \<noteq> None
         \<and> mw_type_name w = None
      then w\<lparr>mw_emitted := True\<rparr> else w)"

definition property_hop_tier :: "env \<Rightarrow> site \<Rightarrow> member_walk \<Rightarrow> member_walk option" where
  "property_hop_tier ev s w =
     (if mw_emitted w then Some w
      else do {
        hop \<leftarrow> property_hop_target (ev_fuel ev) (ev_rec ev) (ev_index ev) (ev_contexts ev) (si_ref s) (si_usings s) (si_ns s)
          (si_aliases s) (si_file s);
        Some (case hop of Some t \<Rightarrow> answer ev s t w | None \<Rightarrow> w) })"

section \<open>Guesses\<close>

text \<open>The extension candidates in scope whose arity and type arguments fit, each definition once.\<close>

definition extension_in_scope :: "env \<Rightarrow> site \<Rightarrow> call_shape \<Rightarrow> string list option \<Rightarrow> ext_candidate \<Rightarrow> bool" where
  "extension_in_scope ev s arg_count unify_args c \<longleftrightarrow>
     arity_accepts (xc_entry c) arg_count
     \<and> generic_args_unify (fe_this_args (xc_entry c)) unify_args
     \<and> (let def_ns = d_namespace (di_defs (ev_index ev) ! xc_def_idx c)
        in def_ns \<in> fu_all (si_usings s) \<or> def_ns = si_ns s \<or> namespace_encloses def_ns (si_ns s))
     \<and> ad_admits (ev_admission ev) (si_unit s) (xc_def_idx c)"

definition extension_key :: "env \<Rightarrow> site \<Rightarrow> string \<Rightarrow> string \<Rightarrow> nat option \<Rightarrow> (string \<times> string list option) option" where
  "extension_key ev s receiver_type member receiver_def =
     (let exact = member @ '' '' @ receiver_type
      in if di_extension (ev_index ev) exact \<noteq> None then Some (exact, fr_receiver_args (si_ref s))
         else do {
           widened \<leftarrow> (case receiver_def of
             None \<Rightarrow> Some None
           | Some ridx \<Rightarrow> extension_closure_key (ev_rec ev) (ev_index ev) (ev_contexts ev) ridx member);
           Some (or_default (exact, fr_receiver_args (si_ref s)) widened) })"

definition push_distinct_idx :: "nat \<Rightarrow> nat list \<Rightarrow> nat list" where
  "push_distinct_idx i is = (if i \<in> set is then is else is @ [i])"

definition extension_tier :: "env \<Rightarrow> site \<Rightarrow> member_walk \<Rightarrow> member_walk option" where
  "extension_tier ev s w =
     (if mw_emitted w then Some w
      else (case (mw_type_name w, fr_member (si_ref s), call_arity (si_ref s)) of
              (Some receiver_type, Some member, Some arg_count) \<Rightarrow> do {
                (key, unify_args) \<leftarrow> extension_key ev s receiver_type member (mw_receiver_def w);
                let found = fold (\<lambda>c. push_distinct_idx (xc_def_idx c))
                  (filter (extension_in_scope ev s arg_count unify_args) (or_default [] (di_extension (ev_index ev) key))) [];
                vetoed \<leftarrow> (case mw_receiver_def w of
                  Some ridx \<Rightarrow> inherited_member_declared (ev_fuel ev) (ev_rec ev) (ev_index ev) (ev_contexts ev) ridx
                    (si_ref s) (si_file s)
                | None \<Rightarrow> Some False);
                Some (case found of
                        [didx] \<Rightarrow>
                          (if vetoed then w
                           else w\<lparr>mw_emitted := True, mw_ledger := push_ext ev s didx (mw_ledger w)\<rparr>)
                      | _ \<Rightarrow> w) }
            | _ \<Rightarrow> Some w))"

definition scored_pool :: "env \<Rightarrow> site \<Rightarrow> ref_resolution \<Rightarrow> bool \<Rightarrow> nat list option" where
  "scored_pool ev s source narrowed_away =
     (let r = si_ref s; vouched = (\<lambda>d. member_vouched (ev_index ev) d (fr_member r) (member_shape_of r))
      in case source of
           Ref_Ambiguous candidates _ \<Rightarrow> Some (filter vouched candidates)
         | Ref_External \<Rightarrow>
             (if narrowed_away then Some []
              else (let named = or_default [] (Option.bind (fr_member r) (di_member_names (ev_index ev)))
                    in if length named \<le> SCORED_UNIQUENESS_CAP then Some (filter vouched named) else None))
         | Ref_Resolved _ _ \<Rightarrow> None)"

text \<open>The receiver's own test of each candidate, the memo threaded through.\<close>

fun filter_admitted ::
  "(nat \<Rightarrow> assignability_cache \<Rightarrow> (bool \<times> assignability_cache) option) \<Rightarrow> nat list \<Rightarrow> assignability_cache
   \<Rightarrow> (nat list \<times> assignability_cache) option" where
  "filter_admitted f [] cache = Some ([], cache)"
| "filter_admitted f (d # ds) cache =
     do {
       (admitted', cache') \<leftarrow> f d cache;
       (rest, cache'') \<leftarrow> filter_admitted f ds cache';
       Some (if admitted' then d # rest else rest, cache'') }"

definition receiver_pool ::
  "env \<Rightarrow> site \<Rightarrow> string option \<Rightarrow> ref_resolution \<Rightarrow> nat list option \<Rightarrow> assignability_cache
   \<Rightarrow> (nat list option \<times> assignability_cache) option" where
  "receiver_pool ev s type_name source pool cache =
     (case (type_name, source, fr_member (si_ref s), pool) of
        (Some receiver_type, Ref_External, Some member, Some candidates) \<Rightarrow>
          map_option (\<lambda>(ds, cache'). (Some ds, cache'))
            (filter_admitted (\<lambda>d. receiver_admits_candidate (ev_rec ev) (ev_index ev) (ev_contexts ev) d member
                 (member_shape_of (si_ref s)) (call_arity (si_ref s)) receiver_type (fr_receiver_args (si_ref s))
                 (fr_receiver_type (si_ref s) \<noteq> None)) candidates cache)
      | _ \<Rightarrow> Some (pool, cache))"

definition rank_key :: "env \<Rightarrow> site \<Rightarrow> nat \<Rightarrow> int \<times> string" where
  "rank_key ev s d =
     (- int (score_candidate (d_namespace (di_defs (ev_index ev) ! d)) (si_ns s) (fu_all (si_usings s))),
      d_id (di_defs (ev_index ev) ! d))"

definition scored_guesses :: "env \<Rightarrow> site \<Rightarrow> nat list \<Rightarrow> nat list" where
  "scored_guesses ev s pool =
     filter (\<lambda>d. CHR ''+'' \<notin> set (d_id (di_defs (ev_index ev) ! d)) \<or> d_file (di_defs (ev_index ev) ! d) = si_file s)
       (take SCORED_EMIT_CAP (sort_key (rank_key ev s) pool))"

definition scored_tier ::
  "env \<Rightarrow> site \<Rightarrow> narrowed \<Rightarrow> member_walk \<times> assignability_cache \<Rightarrow> (member_walk \<times> assignability_cache) option" where
  "scored_tier ev s result st =
     (case st of (w, cache) \<Rightarrow>
        (if mw_emitted w then Some (w, cache)
         else do {
           source \<leftarrow> (if mw_type_name w \<noteq> None then mw_receiver_result w else Some (nw_res result));
           let pool = scored_pool ev s source
             (if mw_type_name w \<noteq> None then mw_narrowed_away w else nw_narrowed_away result);
           (pool', cache') \<leftarrow> receiver_pool ev s (mw_type_name w) source pool cache;
           Some (case pool' of
                   None \<Rightarrow> (w, cache')
                 | Some ds \<Rightarrow>
                     (w\<lparr>mw_ledger := fold (push_guess ev s)
                          (scored_guesses ev s (filter (ad_admits (ev_admission ev) (si_unit s)) ds)) (mw_ledger w)\<rparr>, cache')) }))"

section \<open>One member reference\<close>

definition qualifier_step :: "env \<Rightarrow> site \<Rightarrow> ref_resolution \<Rightarrow> member_walk \<Rightarrow> member_walk option" where
  "qualifier_step ev s result w =
     (if fr_receiver_base (si_ref s) \<and> fr_receiver_call_owner (si_ref s) = None then base_tier ev s result w
      else (case result of Ref_Resolved idx v \<Rightarrow> qualifier_tier ev s idx v w | _ \<Rightarrow> Some w))"

definition typed_receiver_step :: "env \<Rightarrow> site \<Rightarrow> member_walk \<Rightarrow> member_walk option" where
  "typed_receiver_step ev s w =
     (if mw_emitted w then Some w
      else (case mw_type_name w of None \<Rightarrow> Some w | Some receiver_type \<Rightarrow> typed_receiver_tier ev s receiver_type w))"

definition start_walk :: "ledger \<Rightarrow> member_walk" where
  "start_walk lg =
     \<lparr>mw_emitted = False, mw_field = None, mw_type_name = None, mw_receiver_def = None, mw_receiver_result = None,
      mw_narrowed_away = False, mw_ledger = lg\<rparr>"

definition member_reference ::
  "env \<Rightarrow> site \<Rightarrow> ledger \<times> assignability_cache \<Rightarrow> (ledger \<times> assignability_cache) option" where
  "member_reference ev s st =
     do {
       res \<leftarrow> ev_rec ev (si_ref s) (si_usings s) (si_ns s) (si_aliases s);
       let result = narrow_tracked res (si_unit s) (ev_admission ev);
       w1 \<leftarrow> qualifier_step ev s (nw_res result) (start_walk (fst st));
       w2 \<leftarrow> receiver_name ev s w1;
       w3 \<leftarrow> typed_receiver_step ev s w2;
       w4 \<leftarrow> property_hop_tier ev s (chain_tail_guard s w3);
       w5 \<leftarrow> extension_tier ev s w4;
       (w6, cache) \<leftarrow> scored_tier ev s result (w5, snd st);
       Some (mw_ledger w6, cache) }"

section \<open>The other references\<close>

definition count_kind :: "(edges_by_kind \<Rightarrow> edges_by_kind) \<Rightarrow> edge \<Rightarrow> ledger \<Rightarrow> ledger" where
  "count_kind bump e lg = (push_edge e lg)\<lparr>lg_by_kind := bump (lg_by_kind lg)\<rparr>"

definition imports_reference :: "site \<Rightarrow> ledger \<Rightarrow> ledger" where
  "imports_reference s =
     count_kind (\<lambda>k. k\<lparr>ek_imports := ek_imports k + 1\<rparr>) (Imports (si_file s) (fr_line (si_ref s)) (fr_name (si_ref s)))"

definition ctor_reference :: "env \<Rightarrow> site \<Rightarrow> ledger \<Rightarrow> ledger option" where
  "ctor_reference ev s lg =
     do {
       classification \<leftarrow> resolve_ctor_param (ev_rec ev) (ev_index ev) (ev_contexts ev) (ev_implementors ev) (si_ref s)
         (si_usings s) (si_ns s) (si_aliases s);
       (case edge_parts (ev_index ev) classification of (resolution, target, candidates) \<Rightarrow>
          Some (count_kind (\<lambda>k. k\<lparr>ek_ctor_di := ek_ctor_di k + 1\<rparr>)
            (Ctor_Di (si_file s) (fr_line (si_ref s)) (fr_name (si_ref s)) resolution (fr_args (si_ref s)) target candidates)
            lg)) }"

definition type_reference :: "env \<Rightarrow> site \<Rightarrow> ledger \<Rightarrow> ledger option" where
  "type_reference ev s lg =
     (let r = si_ref s in do {
        res \<leftarrow> ev_rec ev r (si_usings s) (si_ns s) (si_aliases s);
        Some (case narrow_by_reachability res (si_unit s) (ev_admission ev) of
                Ref_Resolved idx _ \<Rightarrow>
                  count_kind (\<lambda>k.
                      if fr_kind r = ''inherits'' then k\<lparr>ek_inherits := ek_inherits k + 1\<rparr>
                      else if fr_kind r = ''uses-type'' then k\<lparr>ek_uses_type := ek_uses_type k + 1\<rparr>
                      else k)
                    (type_edge (fr_kind r) (si_file s) (fr_line r) (di_defs (ev_index ev) ! idx)) lg
              | Ref_Ambiguous candidates _ \<Rightarrow>
                  (push_edge (Ambiguous (fr_kind r) (si_file s) (fr_line r) (fr_name r)
                     (capped_candidates (ev_index ev) candidates) (length candidates)) lg)\<lparr>
                    lg_ambiguous := lg_ambiguous lg + 1\<rparr>
              | Ref_External \<Rightarrow> lg\<lparr>lg_external := lg_external lg + 1\<rparr>) })"

section \<open>The run\<close>

record run_state =
  rn_ledger :: ledger
  rn_cache :: assignability_cache
  rn_diag :: semantic_diagnostics
  rn_sites :: "site_key set"

definition reference_step :: "'j semantic_layer option \<Rightarrow> env \<Rightarrow> site \<Rightarrow> run_state \<Rightarrow> run_state option" where
  "reference_step layer ev s st =
     (let r = si_ref s
      in if fr_kind r = ''imports'' then Some (st\<lparr>rn_ledger := imports_reference s (rn_ledger st)\<rparr>)
         else if fr_kind r = ''uses-member'' then do {
           let sites = track_reference layer (rn_sites st) (si_file s) r;
           (lg, cache) \<leftarrow> member_reference ev s (rn_ledger st, rn_cache st);
           (lg', diag) \<leftarrow> apply_layer layer (ev_index ev) (length (lg_edges (rn_ledger st))) (si_file s) r (lg, rn_diag st);
           Some \<lparr>rn_ledger = lg', rn_cache = cache, rn_diag = diag, rn_sites = sites\<rparr> }
         else if fr_kind r = ''ctor-param'' then
           map_option (\<lambda>lg. st\<lparr>rn_ledger := lg\<rparr>) (ctor_reference ev s (rn_ledger st))
         else map_option (\<lambda>lg. st\<lparr>rn_ledger := lg\<rparr>) (type_reference ev s (rn_ledger st)))"

definition file_step ::
  "'j semantic_layer option \<Rightarrow> env \<Rightarrow> (string \<Rightarrow> nat option option) \<Rightarrow> string \<times> fragment \<Rightarrow> run_state \<Rightarrow> run_state option" where
  "file_step layer ev units entry st =
     (case entry of (f, frag) \<Rightarrow>
        (case ev_contexts ev f of
           None \<Rightarrow> None
         | Some ctx \<Rightarrow>
             fold_opt (\<lambda>r. reference_step layer ev \<lparr>si_file = f, si_unit = owner_unit units f, si_usings = fc_usings ctx,
                 si_aliases = fc_aliases ctx, si_ref = r\<rparr>) (fg_refs frag) st))"

text \<open>Each guess is kept once, the counters taken back for the others.\<close>

fun dedup_guesses :: "string set \<Rightarrow> edge list \<Rightarrow> ledger \<Rightarrow> (edge list \<times> ledger) option" where
  "dedup_guesses seen [] lg = Some ([], lg)"
| "dedup_guesses seen (e # es) lg =
     (case heuristic_edge_key e of
        None \<Rightarrow> map_option (\<lambda>(kept, lg'). (e # kept, lg')) (dedup_guesses seen es lg)
      | Some key \<Rightarrow>
          (if key \<notin> seen
           then map_option (\<lambda>(kept, lg'). (e # kept, lg')) (dedup_guesses (insert key seen) es lg)
           else Option.bind (drop_heuristic (edge_tier e) lg) (dedup_guesses seen es)))"

definition dedup_ledger :: "ledger \<Rightarrow> ledger option" where
  "dedup_ledger lg = map_option (\<lambda>(kept, lg'). lg'\<lparr>lg_edges := kept\<rparr>) (dedup_guesses {} (lg_edges lg) lg)"

record stats =
  sx_def_count :: nat
  sx_file_count :: nat
  sx_edges_by_kind :: edges_by_kind
  sx_ambiguous_count :: nat
  sx_unresolved_external_count :: nat
  sx_heuristic_edge_count :: nat
  sx_test_def_count :: nat
  sx_heuristic_by_tier :: heuristic_by_tier
  sx_bus_vocabulary_derived :: "bool option"
  sx_semantic :: "semantic_stats option"

definition GRAPH_SCHEMA_VERSION :: nat where "GRAPH_SCHEMA_VERSION = 3"

definition resolve_env :: "nat \<Rightarrow> nat \<Rightarrow> (string \<times> fragment) list \<Rightarrow> project_model option \<Rightarrow> env" where
  "resolve_env n fuel fragments model =
     (let index = build_def_index fragments; contexts = file_contexts model fragments;
          units = units_of_files model fragments
      in \<lparr>ev_fuel = fuel, ev_rec = resolve_type_ref n index contexts, ev_index = index, ev_contexts = contexts,
          ev_admission = \<lparr>ad_model = model, ad_unit_of_def = map (\<lambda>d. owner_unit units (d_file d)) (di_defs index)\<rparr>,
          ev_implementors = build_implementor_index index\<rparr>)"

definition start_run :: run_state where
  "start_run = \<lparr>rn_ledger = empty_ledger, rn_cache = (\<lambda>_. None),
     rn_diag = \<lparr>sd_confirmed = 0, sd_disagreements = 0\<rparr>, rn_sites = {}\<rparr>"

definition resolve_run ::
  "nat \<Rightarrow> nat \<Rightarrow> (string \<times> fragment) list \<Rightarrow> project_model option \<Rightarrow> 'j semantic_layer option \<Rightarrow> run_state option" where
  "resolve_run n fuel fragments model layer =
     fold_opt (file_step layer (resolve_env n fuel fragments model) (units_of_files model fragments)) fragments start_run"

text \<open>\<open>head\<close> is the commit the tree is at, and \<open>ts_files\<close> the number of TypeScript fragments.\<close>

definition resolve_graph_with_model ::
  "nat \<Rightarrow> nat \<Rightarrow> string option \<Rightarrow> nat \<Rightarrow> (string \<times> fragment) list \<Rightarrow> project_model option \<Rightarrow> 'j semantic_layer option
   \<Rightarrow> (stats \<times> graph) option" where
  "resolve_graph_with_model n fuel head ts_files fragments model layer =
     (let ev = resolve_env n fuel fragments model; index = ev_index ev in do {
        st \<leftarrow> resolve_run n fuel fragments model layer;
        lg1 \<leftarrow> append_dispatch_edges (ev_rec ev) index (ev_contexts ev) fragments (rn_ledger st);
        (lg2, derived) \<leftarrow> append_bus_edges (ev_rec ev) index (ev_contexts ev) fragments lg1;
        let (es, semantic) = finish_layer layer index (rn_sites st) (lg_edges lg2) (rn_diag st);
        lg \<leftarrow> dedup_ledger (lg2\<lparr>lg_edges := es\<rparr>);
        Some (\<lparr>sx_def_count = length (di_defs index), sx_file_count = length fragments + ts_files,
               sx_edges_by_kind = lg_by_kind lg, sx_ambiguous_count = lg_ambiguous lg,
               sx_unresolved_external_count = lg_external lg, sx_heuristic_edge_count = lg_heuristic lg,
               sx_test_def_count = length (filter (\<lambda>d. d_test_methods d \<noteq> []) (di_defs index)),
               sx_heuristic_by_tier = lg_by_tier lg, sx_bus_vocabulary_derived = derived, sx_semantic = semantic\<rparr>,
              \<lparr>g_schema_version = GRAPH_SCHEMA_VERSION, g_built_at_head = head, g_defs = di_defs index,
               g_edges = lg_edges lg, g_names = build_graph_names fragments,
               g_units = (case model of Some m \<Rightarrow> graph_units m | None \<Rightarrow> [])\<rparr>) })"

end
