(* ===== verification/AssemblyFacts.thy ===== *)
theory AssemblyFacts
  imports Assembly
begin

text \<open>The statistics agree with the edges, and what the tiers of a member reference may answer.\<close>

section \<open>Counting edges\<close>

definition cnt :: "('a \<Rightarrow> bool) \<Rightarrow> 'a list \<Rightarrow> nat" where
  "cnt P xs = length (filter P xs)"

lemma cnt_simps [simp]:
  "cnt P [] = 0" "cnt P (x # xs) = (if P x then Suc (cnt P xs) else cnt P xs)" "cnt P (xs @ ys) = cnt P xs + cnt P ys"
  by (simp_all add: cnt_def)

lemma cnt_zero: "\<forall>x \<in> set xs. \<not> P x \<Longrightarrow> cnt P xs = 0"
  by (simp add: cnt_def filter_empty_conv)

lemma cnt_all: "\<forall>x \<in> set xs. P x \<Longrightarrow> cnt P xs = length xs"
  by (simp add: cnt_def filter_id_conv [THEN iffD2])

abbreviation is_precise_member :: "edge \<Rightarrow> bool" where
  "is_precise_member e \<equiv> is_Uses_Member e \<and> \<not> is_heuristic e"

abbreviation has_tier :: "heuristic_tier \<Rightarrow> edge \<Rightarrow> bool" where
  "has_tier t e \<equiv> edge_tier e = Some t"

text \<open>The counters recomputed from the edges.\<close>

definition tally :: "edge list \<Rightarrow> edges_by_kind" where
  "tally es =
     \<lparr>ek_inherits = cnt is_Inherits es, ek_uses_type = cnt is_Uses_Type es, ek_imports = cnt is_Imports es,
      ek_uses_member = cnt is_precise_member es, ek_ctor_di = cnt is_Ctor_Di es, ek_implements = cnt is_Implements es,
      ek_overrides = cnt is_Overrides es, ek_import = None, ek_call = None, ek_jsx_use = None, ek_dispatch = None,
      ek_bus_hop = (if cnt is_Bus_Hop es = 0 then None else Some (cnt is_Bus_Hop es))\<rparr>"

definition guesses_tiered :: "edge list \<Rightarrow> bool" where
  "guesses_tiered es \<longleftrightarrow> (\<forall>e \<in> set es. is_heuristic e \<longleftrightarrow> edge_tier e \<noteq> None)"

definition guesses_counted :: "ledger \<Rightarrow> bool" where
  "guesses_counted lg \<longleftrightarrow>
     lg_heuristic lg = cnt is_heuristic (lg_edges lg)
     \<and> bt_ext (lg_by_tier lg) = cnt (has_tier Tier_Ext) (lg_edges lg)
     \<and> bt_guess (lg_by_tier lg) = cnt (has_tier Tier_Guess) (lg_edges lg)
     \<and> guesses_tiered (lg_edges lg)"

definition ledger_ok :: "ledger \<Rightarrow> bool" where
  "ledger_ok lg \<longleftrightarrow>
     lg_by_kind lg = tally (lg_edges lg) \<and> lg_ambiguous lg = cnt is_Ambiguous (lg_edges lg) \<and> guesses_counted lg"

lemma tiers_sum: "guesses_tiered es \<Longrightarrow> cnt is_heuristic es = cnt (has_tier Tier_Ext) es + cnt (has_tier Tier_Guess) es"
proof (induction es)
  case (Cons e es)
  then have "is_heuristic e \<longleftrightarrow> edge_tier e \<noteq> None" "guesses_tiered es" by (simp_all add: guesses_tiered_def)
  with Cons.IH show ?case by (cases "edge_tier e"; cases "the (edge_tier e)") auto
qed simp

lemma ledger_ok_empty: "ledger_ok empty_ledger"
  by (simp add: ledger_ok_def empty_ledger_def no_edges_def tally_def guesses_counted_def guesses_tiered_def)

section \<open>Taking guesses back\<close>

text \<open>\<open>lg'\<close> is \<open>lg\<close> with the guesses of \<open>es\<close> that are not in \<open>kept\<close> no longer counted.\<close>

definition taken_back :: "edge list \<Rightarrow> edge list \<Rightarrow> ledger \<Rightarrow> ledger \<Rightarrow> bool" where
  "taken_back es kept lg lg' \<longleftrightarrow>
     lg_heuristic lg + cnt is_heuristic kept = lg_heuristic lg' + cnt is_heuristic es
     \<and> bt_ext (lg_by_tier lg) + cnt (has_tier Tier_Ext) kept = bt_ext (lg_by_tier lg') + cnt (has_tier Tier_Ext) es
     \<and> bt_guess (lg_by_tier lg) + cnt (has_tier Tier_Guess) kept = bt_guess (lg_by_tier lg') + cnt (has_tier Tier_Guess) es
     \<and> lg_edges lg' = lg_edges lg \<and> lg_by_kind lg' = lg_by_kind lg \<and> lg_ambiguous lg' = lg_ambiguous lg
     \<and> lg_external lg' = lg_external lg"

definition covers :: "ledger \<Rightarrow> edge list \<Rightarrow> bool" where
  "covers lg es \<longleftrightarrow>
     cnt is_heuristic es \<le> lg_heuristic lg \<and> cnt (has_tier Tier_Ext) es \<le> bt_ext (lg_by_tier lg)
     \<and> cnt (has_tier Tier_Guess) es \<le> bt_guess (lg_by_tier lg)"

lemma drop_one:
  assumes "covers lg (e # es)" "is_heuristic e"
  shows "\<exists>lg'. drop_heuristic (edge_tier e) lg = Some lg' \<and> taken_back [e] [] lg lg' \<and> covers lg' es"
proof (cases "edge_tier e")
  case None
  with assms show ?thesis by (auto simp: drop_heuristic_def dec_def covers_def taken_back_def)
next
  case (Some t)
  with assms show ?thesis
    by (cases t) (auto simp: drop_heuristic_def dec_def covers_def taken_back_def)
qed

lemma taken_back_trans:
  "taken_back [e] [] lg lg1 \<Longrightarrow> taken_back es kept lg1 lg2 \<Longrightarrow> taken_back (e # es) kept lg lg2"
  by (auto simp: taken_back_def split: if_splits)

lemma taken_back_keep: "taken_back es kept lg lg' \<Longrightarrow> taken_back (e # es) (e # kept) lg lg'"
  by (auto simp: taken_back_def)

lemma drop_pushed_counts:
  assumes "covers lg es" "guesses_tiered es"
  shows "\<exists>lg'. drop_pushed es n lg = Some (n + cnt is_precise_member es, lg') \<and> taken_back es [] lg lg'"
  using assms
proof (induction es arbitrary: n lg)
  case (Cons e es)
  have tiered: "is_heuristic e \<longleftrightarrow> edge_tier e \<noteq> None" "guesses_tiered es"
    using Cons.prems(2) by (simp_all add: guesses_tiered_def)
  show ?case
  proof (cases "is_heuristic e")
    case True
    then obtain t where t: "edge_tier e = Some t" using tiered(1) by auto
    obtain lg1 where lg1: "drop_heuristic (Some t) lg = Some lg1" "taken_back [e] [] lg lg1" "covers lg1 es"
      using drop_one [OF Cons.prems(1) True] t by auto
    from Cons.IH [OF lg1(3) tiered(2), of n] obtain lg2 where
      "drop_pushed es n lg1 = Some (n + cnt is_precise_member es, lg2)" "taken_back es [] lg1 lg2" by blast
    with lg1 t True taken_back_trans [OF lg1(2)] show ?thesis by (cases e) auto
  next
    case False
    then have "covers lg es" "edge_tier e = None" using Cons.prems(1) tiered(1) by (auto simp: covers_def)
    then have same: "taken_back es [] lg lg' \<Longrightarrow> taken_back (e # es) [] lg lg'" for lg'
      using False by (simp add: taken_back_def)
    let ?k = "if is_precise_member e then 1 else 0 :: nat"
    have "drop_pushed (e # es) n lg = drop_pushed es (n + ?k) lg"
      using False \<open>edge_tier e = None\<close> by (cases e) simp_all
    moreover obtain lg' where "drop_pushed es (n + ?k) lg = Some (n + ?k + cnt is_precise_member es, lg')" "taken_back es [] lg lg'"
      using Cons.IH [OF \<open>covers lg es\<close> tiered(2), of "n + ?k"] by blast
    ultimately show ?thesis using same by auto
  qed
qed (simp add: taken_back_def)


text \<open>A key is given to guesses only, so a graph loses nothing else.\<close>

lemma key_iff_heuristic: "heuristic_edge_key e \<noteq> None \<longleftrightarrow> is_heuristic e"
  by (cases e) simp_all

lemma dedup_counts:
  assumes "covers lg es"
  shows "\<exists>kept lg'. dedup_guesses seen es lg = Some (kept, lg') \<and> taken_back es kept lg lg'
    \<and> filter (\<lambda>e. \<not> is_heuristic e) kept = filter (\<lambda>e. \<not> is_heuristic e) es \<and> set kept \<subseteq> set es"
  using assms
proof (induction es arbitrary: seen lg)
  case Nil
  show ?case by (simp add: taken_back_def)
next
  case (Cons e es)
  show ?case
  proof (cases "heuristic_edge_key e")
    case None
    then have e: "\<not> is_heuristic e" using key_iff_heuristic [of e] by simp
    with Cons.prems have "covers lg es" by (auto simp: covers_def split: if_splits)
    from Cons.IH [OF this, of seen] obtain kept lg' where
      "dedup_guesses seen es lg = Some (kept, lg')" "taken_back es kept lg lg'"
      "filter (\<lambda>e. \<not> is_heuristic e) kept = filter (\<lambda>e. \<not> is_heuristic e) es" "set kept \<subseteq> set es" by blast
    with None e taken_back_keep [of es kept lg lg' e] show ?thesis by auto
  next
    case (Some key)
    then have e: "is_heuristic e" using key_iff_heuristic [of e] by auto
    show ?thesis
    proof (cases "key \<in> seen")
      case False
      from Cons.prems have "covers lg es" by (auto simp: covers_def split: if_splits)
      from Cons.IH [OF this, of "insert key seen"] obtain kept lg' where
        "dedup_guesses (insert key seen) es lg = Some (kept, lg')" "taken_back es kept lg lg'"
        "filter (\<lambda>e. \<not> is_heuristic e) kept = filter (\<lambda>e. \<not> is_heuristic e) es" "set kept \<subseteq> set es" by blast
      with Some False e taken_back_keep [of es kept lg lg' e] show ?thesis by auto
    next
      case True
      obtain lg1 where lg1: "drop_heuristic (edge_tier e) lg = Some lg1" "taken_back [e] [] lg lg1" "covers lg1 es"
        using drop_one [OF Cons.prems e] by blast
      from Cons.IH [OF lg1(3), of seen] obtain kept lg' where
        "dedup_guesses seen es lg1 = Some (kept, lg')" "taken_back es kept lg1 lg'"
        "filter (\<lambda>e. \<not> is_heuristic e) kept = filter (\<lambda>e. \<not> is_heuristic e) es" "set kept \<subseteq> set es" by blast
      with Some True e lg1(1) taken_back_trans [OF lg1(2)] show ?thesis by auto
    qed
  qed
qed


section \<open>What a search through the bases answers\<close>

lemma search_list_answer:
  assumes f: "\<And>b seen s found seen' s'. f b seen s = Some (found, seen', s') \<Longrightarrow> I s \<Longrightarrow> I s' \<and> (\<forall>i. found = Some i \<longrightarrow> Q i)"
    and "search_list f bs seen s = Some (found, seen', s')" "I s"
  shows "I s' \<and> (\<forall>i. found = Some i \<longrightarrow> Q i)"
  using assms(2-)
proof (induction bs arbitrary: seen s)
  case (Cons b bs)
  obtain found1 seen1 s1 where one: "f b seen s = Some (found1, seen1, s1)" using Cons.prems(1) by (auto split: Option.bind_splits)
  with f [OF one Cons.prems(2)] Cons show ?case by (cases found1) auto
qed simp

lemma search_branches_answer:
  assumes f: "\<And>b seen s found seen' s'. f b seen s = Some (found, seen', s') \<Longrightarrow> I s \<Longrightarrow> I s' \<and> (\<forall>i. found = Some i \<longrightarrow> Q i)"
    and "search_branches f start bs s = Some (found, s')" "I s"
  shows "I s' \<and> (\<forall>i. found = Some i \<longrightarrow> Q i)"
  using assms(2-)
proof (induction bs arbitrary: s)
  case (Cons b bs)
  obtain found1 seen1 s1 where one: "f b {start, b} s = Some (found1, seen1, s1)" using Cons.prems(1) by (auto split: Option.bind_splits)
  with f [OF one Cons.prems(2)] Cons show ?case by (cases found1) auto
qed simp

lemma closure_answer:
  assumes hit: "\<And>i s s'. declares i s = Some (True, s') \<Longrightarrow> I s \<Longrightarrow> Q i"
    and keep: "\<And>i s b s'. declares i s = Some (b, s') \<Longrightarrow> I s \<Longrightarrow> I s'"
    and "declares_in_base_closure fuel rec index contexts skip declares cur seen s = Some (found, seen', s')" "I s"
  shows "I s' \<and> (\<forall>i. found = Some i \<longrightarrow> Q i)"
  using assms(3-)
proof (induction fuel arbitrary: cur seen s found seen' s')
  case (Suc fuel)
  obtain b s1 where one: "declares cur s = Some (b, s1)" using Suc.prems(1) by (auto split: Option.bind_splits)
  have s1: "I s1" using keep [OF one Suc.prems(2)] .
  show ?case
  proof (cases b)
    case True
    with Suc.prems one hit [of cur s s1] s1 show ?thesis by auto
  next
    case False
    show ?thesis
    proof (cases "contexts (d_file (di_defs index ! cur))")
      case None
      with Suc.prems one False s1 show ?thesis by simp
    next
      case (Some ctx)
      then obtain bs where
        "search_list (declares_in_base_closure fuel rec index contexts skip declares) (by_kind index skip (fresh seen bs))
           (seen \<union> set (fresh seen bs)) s1 = Some (found, seen', s')"
        using Suc.prems(1) one False by (auto split: Option.bind_splits)
      note searched = this
      show ?thesis
        by (rule search_list_answer [where f = "declares_in_base_closure fuel rec index contexts skip declares" and I = I and Q = Q,
              OF _ searched s1]) (rule Suc.IH)
    qed
  qed
qed simp

lemma first_base_answer:
  assumes "\<And>i s s'. declares i s = Some (True, s') \<Longrightarrow> I s \<Longrightarrow> Q i"
    and "\<And>i s b s'. declares i s = Some (b, s') \<Longrightarrow> I s \<Longrightarrow> I s'"
    and "first_base_declaring rec index contexts start skip declares s = Some (found, s')" "I s"
  shows "I s' \<and> (\<forall>i. found = Some i \<longrightarrow> Q i)"
proof (cases "contexts (d_file (di_defs index ! start))")
  case None
  with assms(3, 4) show ?thesis by (simp add: first_base_declaring_def)
next
  case (Some ctx)
  then obtain bs where
    "search_branches (declares_in_base_closure (length (di_defs index)) rec index contexts skip declares) start
       (by_kind index skip bs) s = Some (found, s')"
    using assms(3) by (auto simp: first_base_declaring_def split: Option.bind_splits)
  note branches = this
  show ?thesis
    by (rule search_branches_answer [where I = I and Q = Q
          and f = "declares_in_base_closure (length (di_defs index)) rec index contexts skip declares", OF _ branches assms(4)],
        rule closure_answer [where declares = declares and I = I and Q = Q, OF assms(1, 2)])
qed

lemma first_base_where_answer: "first_base_where rec index contexts start skip P = Some (Some i) \<Longrightarrow> P i = Some True"
proof -
  assume "first_base_where rec index contexts start skip P = Some (Some i)"
  then have found: "first_base_declaring rec index contexts start skip (stateless P) () = Some (Some i, ())"
    by (auto simp: first_base_where_def)
  have "\<forall>j. Some i = Some j \<longrightarrow> P j = Some True"
    by (rule conjunct2, rule first_base_answer [OF _ _ found, where I = "\<lambda>_. True"]) (auto simp: stateless_def)
  then show ?thesis by simp
qed

text \<open>The member a reference names is declared by the definition, and a call fits one of its overloads.\<close>

definition fits_member :: "env \<Rightarrow> site \<Rightarrow> bool \<Rightarrow> nat \<Rightarrow> bool" where
  "fits_member ev s any_visibility t \<longleftrightarrow>
     declares_visible any_visibility (ev_index ev) t (si_ref s)
     \<and> call_admits (ev_fuel ev) (ev_rec ev) (ev_index ev) (ev_contexts ev) t (si_ref s) (si_file s) = Some True"

lemma and_opt_True: "and_opt (Some a) b = Some True \<longleftrightarrow> a \<and> b = Some True"
  by (cases b) (auto simp: and_opt_def)

lemma find_in_set: "List.find P xs = Some x \<Longrightarrow> x \<in> set xs"
  by (induction xs) (auto split: if_splits)

lemma unhidden_declares:
  assumes "first_unhidden_declaration rec index contexts declaring member = Some (Some t)"
  shows "t \<in> set declaring"
proof (cases declaring)
  case (Cons first rest)
  have found: "first_of (List.find P declaring) (Some first) = Some t \<Longrightarrow> t \<in> set declaring" for P
    using Cons find_in_set [of P declaring t] by (cases "List.find P declaring") (simp_all add: first_of_def)
  show ?thesis
    using assms Cons found by (cases member) (auto simp: first_unhidden_declaration_def split: Option.bind_splits if_splits)
qed (use assms in \<open>simp add: first_unhidden_declaration_def\<close>)

lemma receiver_base_answer:
  assumes "typed_receiver_base_member (ev_fuel ev) (ev_rec ev) (ev_index ev) (ev_contexts ev) start (si_ref s) any_visibility (si_file s)
      = Some (Some t)"
  shows "fits_member ev s any_visibility t"
proof -
  let ?admits = "\<lambda>idx. and_opt (Some (declares_visible any_visibility (ev_index ev) idx (si_ref s)))
      (call_admits (ev_fuel ev) (ev_rec ev) (ev_index ev) (ev_contexts ev) idx (si_ref s) (si_file s))"
  have fits: "?admits i = Some True \<Longrightarrow> fits_member ev s any_visibility i" for i
    by (simp add: and_opt_True fits_member_def)
  show ?thesis
  proof (cases "\<not> is_interface (ev_index ev) start \<or> fr_arg_count (si_ref s) \<noteq> None")
    case True
    with assms have "first_base_where (ev_rec ev) (ev_index ev) (ev_contexts ev) start (\<not> is_interface (ev_index ev) start) ?admits = Some (Some t)"
      by (simp add: typed_receiver_base_member_def Let_def)
    from fits [OF first_base_where_answer [OF this]] show ?thesis .
  next
    case False
    with assms obtain u declaring where
      declaring: "first_base_declaring (ev_rec ev) (ev_index ev) (ev_contexts ev) start False (collect_admitted ?admits) [] = Some (u, declaring)"
      and first: "first_unhidden_declaration (ev_rec ev) (ev_index ev) (ev_contexts ev) declaring (fr_member (si_ref s)) = Some (Some t)"
      by (auto simp: typed_receiver_base_member_def Let_def split: Option.bind_splits)
    have "\<forall>i \<in> set declaring. ?admits i = Some True"
      by (rule conjunct1, rule first_base_answer [OF _ _ declaring, where Q = "\<lambda>_. True"])
        (auto simp: collect_admitted_def split: Option.bind_splits if_splits)
    with unhidden_declares [OF first] fits show ?thesis by blast
  qed
qed

end
