(* ===== verification/TierFacts.thy ===== *)
theory TierFacts
  imports AssemblyFacts
begin

text \<open>What the tiers of a member reference push, and why.\<close>

section \<open>Precise answers\<close>

text \<open>
  A precise edge goes to a definition that declares the member with a fitting overload, to the enum
  member of that name, or to the type itself. The last is a fallback: the site writes the type as a
  generic or a fully qualified name, and neither the type nor a base of it declares the member.
\<close>

definition type_itself :: "env \<Rightarrow> site \<Rightarrow> ref_resolution \<Rightarrow> nat \<Rightarrow> bool" where
  "type_itself ev s res t \<longleftrightarrow>
     (\<exists>v. res = Ref_Resolved t v \<and> (fr_generic (si_ref s) \<and> fr_qualified (si_ref s) = None
           \<or> fr_qualified (si_ref s) \<noteq> None \<and> v = Via_Qualified))
     \<and> \<not> fits_member ev s (is_this_shaped_receiver (si_ref s)) t
     \<and> typed_receiver_base_member (ev_fuel ev) (ev_rec ev) (ev_index ev) (ev_contexts ev) t (si_ref s)
         (is_this_shaped_receiver (si_ref s)) (si_file s) = Some None"

definition vouched :: "env \<Rightarrow> site \<Rightarrow> ref_resolution \<Rightarrow> nat \<Rightarrow> bool" where
  "vouched ev s res t \<longleftrightarrow>
     (\<exists>any_visibility. fits_member ev s any_visibility t)
     \<or> (\<exists>idx v. res = Ref_Resolved idx v \<and> d_kind (di_defs (ev_index ev) ! idx) = ''enum'' \<and> enum_member ev s idx = Some t)
     \<or> type_itself ev s res t"

definition walk_inv :: "env \<Rightarrow> site \<Rightarrow> ref_resolution \<Rightarrow> ledger \<Rightarrow> member_walk \<Rightarrow> bool" where
  "walk_inv ev s res lg w \<longleftrightarrow>
     mw_ledger w = lg \<or> mw_emitted w \<and> (\<exists>t. vouched ev s res t \<and> mw_ledger w = push_precise ev s t lg)"

lemma walk_inv_ledger: "walk_inv ev s res lg w \<Longrightarrow> \<not> mw_emitted w \<Longrightarrow> mw_ledger w = lg"
  by (auto simp: walk_inv_def)

lemma answer_inv: "mw_ledger w = lg \<Longrightarrow> vouched ev s res t \<Longrightarrow> walk_inv ev s res lg (answer ev s t w)"
  by (auto simp: walk_inv_def answer_def)

lemma same_inv: "mw_ledger w = lg \<Longrightarrow> walk_inv ev s res lg w"
  by (simp add: walk_inv_def)

lemma answer_emitted [simp]: "mw_emitted (answer ev s t w)"
  by (simp add: answer_def)

lemma fits_vouched: "fits_member ev s any_visibility t \<Longrightarrow> vouched ev s res t"
  by (auto simp: vouched_def)

lemma base_tier_inv:
  assumes "base_tier ev s res w = Some w'" "mw_ledger w = lg"
  shows "walk_inv ev s res lg w'"
proof -
  have "vouched ev s res' t"
    if "base_member_for_ref (ev_fuel ev) (ev_rec ev) (ev_index ev) (ev_contexts ev) start (si_ref s) (si_file s) = Some (Some t)" for start t res'
    using first_base_where_answer [OF that [unfolded base_member_for_ref_def]] fits_vouched [of ev s True t res']
    by (simp add: and_opt_True fits_member_def declares_visible_def)
  with assms show ?thesis
    by (auto simp: base_tier_def intro: answer_inv same_inv split: ref_resolution.splits Option.bind_splits option.splits)
qed

lemma qualifier_target_vouched:
  assumes "qualifier_target ev s idx v = Some (Some t)"
  shows "vouched ev s (Ref_Resolved idx v) t"
proof -
  let ?here = "declares_here_for_ref (ev_fuel ev) (ev_rec ev) (ev_index ev) (ev_contexts ev) idx (si_ref s)
      (is_this_shaped_receiver (si_ref s)) (si_file s)"
  obtain here where here: "?here = Some here" using assms by (auto simp: qualifier_target_def Let_def split: Option.bind_splits)
  show ?thesis
  proof (cases here)
    case True
    with here have "fits_member ev s (is_this_shaped_receiver (si_ref s)) idx"
      by (simp add: declares_here_for_ref_def and_opt_True fits_member_def)
    moreover have "t = idx" using assms here True by (simp add: qualifier_target_def Let_def)
    ultimately show ?thesis using fits_vouched by blast
  next
    case False
    then obtain base where base: "typed_receiver_base_member (ev_fuel ev) (ev_rec ev) (ev_index ev) (ev_contexts ev) idx (si_ref s)
        (is_this_shaped_receiver (si_ref s)) (si_file s) = Some base"
      using assms here by (auto simp: qualifier_target_def Let_def split: Option.bind_splits)
    show ?thesis
    proof (cases base)
      case None
      then have t: "t = idx" "fr_generic (si_ref s) \<and> fr_qualified (si_ref s) = None
          \<or> fr_qualified (si_ref s) \<noteq> None \<and> v = Via_Qualified"
        using assms here False base by (auto simp: qualifier_target_def Let_def split: if_splits)
      have "\<not> fits_member ev s (is_this_shaped_receiver (si_ref s)) idx"
        using here False by (auto simp: declares_here_for_ref_def fits_member_def and_opt_def split: option.splits if_splits)
      then have "type_itself ev s (Ref_Resolved idx v) idx"
        using t(2) base unfolding None type_itself_def by blast
      with t(1) show ?thesis unfolding vouched_def by blast
    next
      case (Some b)
      with assms here False base have "b = t" by (simp add: qualifier_target_def Let_def)
      with receiver_base_answer base Some fits_vouched show ?thesis by blast
    qed
  qed
qed

lemma qualifier_tier_inv:
  assumes "qualifier_tier ev s idx v w = Some w'" "mw_ledger w = lg"
  shows "walk_inv ev s (Ref_Resolved idx v) lg w'"
proof -
  obtain field where field: "type_priority_field ev s idx v = Some field"
    using assms(1) by (auto simp: qualifier_tier_def split: Option.bind_splits)
  have enum: "d_kind (di_defs (ev_index ev) ! idx) = ''enum'' \<Longrightarrow> enum_member ev s idx = Some t \<Longrightarrow> vouched ev s (Ref_Resolved idx v) t" for t
    by (auto simp: vouched_def)
  show ?thesis
    using assms enum qualifier_target_vouched [of ev s idx v]
    by (auto simp: qualifier_tier_def field Let_def intro: answer_inv same_inv split: if_splits option.splits Option.bind_splits)
qed

lemma qualifier_step_inv:
  assumes "qualifier_step ev s res w = Some w'" "mw_ledger w = lg"
  shows "walk_inv ev s res lg w'"
  using assms base_tier_inv qualifier_tier_inv
  by (auto simp: qualifier_step_def intro: same_inv split: if_splits ref_resolution.splits)

lemma receiver_name_keeps:
  "receiver_name ev s w = Some w' \<Longrightarrow> mw_ledger w' = mw_ledger w \<and> mw_emitted w' = mw_emitted w"
  by (auto simp: receiver_name_def Let_def split: if_splits option.splits Option.bind_splits)

lemma precise_target_fits:
  assumes "typed_receiver_precise_target (ev_fuel ev) (ev_rec ev) (ev_index ev) (ev_contexts ev) ridx (si_ref s) this_shaped nullable
      (si_file s) = Some (Some t, veto)"
  shows "fits_member ev s this_shaped t"
  using assms receiver_base_answer [of ev ridx s this_shaped t]
  by (auto simp: typed_receiver_precise_target_def declares_here_for_ref_def and_opt_True fits_member_def
      split: if_splits Option.bind_splits)

lemma typed_receiver_step_inv:
  assumes "typed_receiver_step ev s w = Some w'" "walk_inv ev s res lg w"
  shows "walk_inv ev s res lg w'"
    and "\<not> mw_emitted w' \<Longrightarrow> mw_type_name w' \<noteq> None \<Longrightarrow> mw_receiver_result w' \<noteq> None"
proof -
  have "walk_inv ev s res lg w' \<and> (\<not> mw_emitted w' \<longrightarrow> mw_type_name w' \<noteq> None \<longrightarrow> mw_receiver_result w' \<noteq> None)"
  proof (cases "mw_emitted w \<or> mw_type_name w = None")
    case True
    with assms show ?thesis by (auto simp: typed_receiver_step_def split: option.splits)
  next
    case False
    then obtain rt where rt: "mw_type_name w = Some rt" "mw_ledger w = lg" "typed_receiver_tier ev s rt w = Some w'"
      using assms walk_inv_ledger [OF assms(2)] by (auto simp: typed_receiver_step_def)
    have "vouched ev s res t" if "typed_receiver_precise_target (ev_fuel ev) (ev_rec ev) (ev_index ev) (ev_contexts ev) ridx
        (si_ref s) this_shaped nullable (si_file s) = Some (Some t, veto)" for ridx this_shaped nullable t veto
      using precise_target_fits [OF that] by (rule fits_vouched)
    with rt(2, 3) show ?thesis
      by (auto simp: typed_receiver_tier_def Let_def intro: answer_inv same_inv split: prod.splits Option.bind_splits ref_resolution.splits option.splits if_splits)
  qed
  then show "walk_inv ev s res lg w'"
    and "\<not> mw_emitted w' \<Longrightarrow> mw_type_name w' \<noteq> None \<Longrightarrow> mw_receiver_result w' \<noteq> None" by blast+
qed


lemma chain_tail_guard_keeps:
  "mw_ledger (chain_tail_guard s w) = mw_ledger w" "mw_emitted w \<Longrightarrow> mw_emitted (chain_tail_guard s w)"
  "mw_type_name (chain_tail_guard s w) = mw_type_name w" "mw_receiver_result (chain_tail_guard s w) = mw_receiver_result w"
  "mw_receiver_def (chain_tail_guard s w) = mw_receiver_def w" "\<not> mw_emitted (chain_tail_guard s w) \<Longrightarrow> \<not> mw_emitted w"
  by (auto simp: chain_tail_guard_def)

lemma chain_tail_guard_inv: "walk_inv ev s res lg w \<Longrightarrow> walk_inv ev s res lg (chain_tail_guard s w)"
  unfolding walk_inv_def chain_tail_guard_keeps(1) using chain_tail_guard_keeps(2) by blast

lemma property_hop_fits:
  assumes "property_hop_target (ev_fuel ev) (ev_rec ev) (ev_index ev) (ev_contexts ev) (si_ref s) usings ns aliases (si_file s) = Some (Some t)"
  shows "fits_member ev s False t"
  using assms
  by (auto simp: property_hop_target_def declares_here_for_ref_def and_opt_True fits_member_def
      split: option.splits Option.bind_splits ref_resolution.splits if_splits)

lemma property_hop_inv:
  assumes "property_hop_tier ev s w = Some w'" "walk_inv ev s res lg w"
  shows "walk_inv ev s res lg w'"
    and "\<not> mw_emitted w' \<Longrightarrow> w' = w"
proof -
  have "walk_inv ev s res lg w' \<and> (\<not> mw_emitted w' \<longrightarrow> w' = w)"
  proof (cases "mw_emitted w")
    case False
    have "vouched ev s res t" if "property_hop_target (ev_fuel ev) (ev_rec ev) (ev_index ev) (ev_contexts ev) (si_ref s) (si_usings s)
        (si_ns s) (si_aliases s) (si_file s) = Some (Some t)" for t
      using property_hop_fits [OF that] by (rule fits_vouched)
    with assms False walk_inv_ledger [OF assms(2)] show ?thesis
      by (auto simp: property_hop_tier_def intro: answer_inv same_inv split: option.splits Option.bind_splits)
  qed (use assms in \<open>simp add: property_hop_tier_def\<close>)
  then show "walk_inv ev s res lg w'" and "\<not> mw_emitted w' \<Longrightarrow> w' = w" by blast+
qed


section \<open>Guesses\<close>

text \<open>
  What the site says of its receiver: the declaration of the field, property or lambda parameter it names, if any;
  the type written there, or by the site, or returned by the call the receiver is; and the definition that type
  resolves to where it is written, if the projects of the site may see one.
\<close>

definition receiver_field :: "env \<Rightarrow> site \<Rightarrow> receiver_field_type option \<Rightarrow> bool" where
  "receiver_field ev s field \<longleftrightarrow>
     field = None \<or> bare_field ev s Type_Priority = Some field \<or> bare_field ev s Receiver_Fallback = Some field
     \<or> (\<exists>slot. fr_receiver_lambda (si_ref s) = Some slot
          \<and> lambda_slot_receiver_type (ev_rec ev) (ev_index ev) (ev_contexts ev) (si_ns s) (si_usings s) (si_aliases s)
              (si_ref s) slot = Some field)"

definition receiver_named :: "env \<Rightarrow> site \<Rightarrow> receiver_field_type option \<Rightarrow> string \<Rightarrow> bool" where
  "receiver_named ev s field type_name \<longleftrightarrow>
     (case fr_receiver_type (si_ref s) of
        Some t \<Rightarrow> type_name = t
      | None \<Rightarrow>
          map_option rf_type_name field = Some type_name
          \<or> (\<exists>owner member. fr_receiver_call_owner (si_ref s) = Some owner \<and> fr_receiver_call_member (si_ref s) = Some member
               \<and> call_result_type ev s owner member = Some (Some type_name)))"

definition receiver_definition :: "env \<Rightarrow> site \<Rightarrow> receiver_field_type option \<Rightarrow> string \<Rightarrow> nat option \<Rightarrow> bool" where
  "receiver_definition ev s field type_name d \<longleftrightarrow>
     (\<exists>usings ns aliases outer res.
        probe_scope ev s field = (usings, ns, aliases, outer)
        \<and> resolve_receiver_type (ev_rec ev) (ev_index ev)
            ((name_probe type_name ns outer)\<lparr>fr_qualified :=
               first_of (Option.bind field rf_qualified_type) (fr_receiver_type_qualified (si_ref s))\<rparr>)
            (map_option (\<lambda>_. case fr_receiver_args (si_ref s) of None \<Rightarrow> 0 | Some as \<Rightarrow> length as)
               (fr_receiver_type (si_ref s))) usings ns aliases = Some res
        \<and> d = (case nw_res (narrow_tracked res (si_unit s) (ev_admission ev)) of Ref_Resolved i _ \<Rightarrow> Some i | _ \<Rightarrow> None))"

text \<open>
  An extension edge goes to the only definition in scope with an extension method of that name, whose
  receiver parameter fits, under the key of the receiver's type or of a base of it; the receiver's
  own type has no such member.
\<close>

definition sole_extension :: "env \<Rightarrow> site \<Rightarrow> nat \<Rightarrow> bool" where
  "sole_extension ev s d \<longleftrightarrow>
     (\<exists>field receiver_type member receiver_def key args arg_count candidates.
        receiver_field ev s field \<and> receiver_named ev s field receiver_type
        \<and> receiver_definition ev s field receiver_type receiver_def
        \<and> fr_member (si_ref s) = Some member \<and> call_arity (si_ref s) = Some arg_count
        \<and> extension_key ev s receiver_type member receiver_def = Some (key, args)
        \<and> di_extension (ev_index ev) key = Some candidates
        \<and> {xc_def_idx c |c. c \<in> set candidates \<and> extension_in_scope ev s arg_count args c} = {d}
        \<and> (\<forall>ridx. receiver_def = Some ridx \<longrightarrow>
             inherited_member_declared (ev_fuel ev) (ev_rec ev) (ev_index ev) (ev_contexts ev) ridx (si_ref s) (si_file s)
               = Some False))"

text \<open>What the walk knows of the receiver after each of its steps.\<close>

definition reads_receiver :: "env \<Rightarrow> site \<Rightarrow> member_walk \<Rightarrow> bool" where
  "reads_receiver ev s w \<longleftrightarrow>
     receiver_field ev s (mw_field w)
     \<and> (\<forall>rt. mw_type_name w = Some rt \<longrightarrow> receiver_named ev s (mw_field w) rt)"

definition knows_receiver :: "env \<Rightarrow> site \<Rightarrow> member_walk \<Rightarrow> bool" where
  "knows_receiver ev s w \<longleftrightarrow>
     reads_receiver ev s w
     \<and> (\<forall>rt. mw_type_name w = Some rt \<longrightarrow> receiver_definition ev s (mw_field w) rt (mw_receiver_def w))"

lemma answer_keeps:
  "mw_field (answer ev s t w) = mw_field w" "mw_type_name (answer ev s t w) = mw_type_name w"
  "mw_receiver_def (answer ev s t w) = mw_receiver_def w"
  by (simp_all add: answer_def)

lemma qualifier_step_reads:
  assumes "qualifier_step ev s res (start_walk lg) = Some w"
  shows "receiver_field ev s (mw_field w) \<and> mw_type_name w = None \<and> mw_receiver_def w = None"
proof -
  have base: "base_tier ev s res w = Some w' \<Longrightarrow> mw_field w' = mw_field w \<and> mw_type_name w' = mw_type_name w
      \<and> mw_receiver_def w' = mw_receiver_def w" for w w'
    by (auto simp: base_tier_def answer_keeps split: ref_resolution.splits Option.bind_splits option.splits)
  have field: "type_priority_field ev s idx v = Some f \<Longrightarrow> receiver_field ev s f" for idx v f
    by (auto simp: type_priority_field_def receiver_field_def split: if_splits)
  have tier: "qualifier_tier ev s idx v w = Some w' \<Longrightarrow> receiver_field ev s (mw_field w') \<and> mw_type_name w' = mw_type_name w
      \<and> mw_receiver_def w' = mw_receiver_def w" for idx v w w'
    by (auto simp: qualifier_tier_def Let_def answer_keeps field split: Option.bind_splits if_splits option.splits)
  have start: "receiver_field ev s None" by (simp add: receiver_field_def)
  from assms base tier start show ?thesis
    by (fastforce simp: qualifier_step_def start_walk_def split: if_splits ref_resolution.splits)
qed

lemma receiver_name_reads:
  assumes "receiver_name ev s w = Some w'" "receiver_field ev s (mw_field w)" "mw_type_name w = None"
  shows "reads_receiver ev s w' \<and> mw_receiver_def w' = mw_receiver_def w"
proof (cases "fr_receiver_type (si_ref s)")
  case (Some t)
  with assms show ?thesis
    by (auto simp: receiver_name_def Let_def reads_receiver_def receiver_named_def)
next
  case None
  show ?thesis
  proof (cases "mw_field w")
    case (Some f)
    with None assms show ?thesis
      by (auto simp: receiver_name_def Let_def reads_receiver_def receiver_named_def)
  next
    case none: None
    with None assms show ?thesis
      by (auto simp: receiver_name_def Let_def reads_receiver_def receiver_named_def receiver_field_def
          split: option.splits Option.bind_splits if_splits)
  qed
qed

lemma typed_receiver_step_knows:
  assumes "typed_receiver_step ev s w = Some w'" "reads_receiver ev s w" "\<not> mw_emitted w'" "mw_receiver_def w = None"
  shows "knows_receiver ev s w'"
proof (cases "mw_emitted w \<or> mw_type_name w = None")
  case True
  with assms show ?thesis by (auto simp: typed_receiver_step_def knows_receiver_def split: option.splits)
next
  case False
  then obtain rt where rt: "mw_type_name w = Some rt" "typed_receiver_tier ev s rt w = Some w'"
    using assms by (auto simp: typed_receiver_step_def)
  obtain usings ns aliases outer where scope: "probe_scope ev s (mw_field w) = (usings, ns, aliases, outer)"
    by (cases "probe_scope ev s (mw_field w)") auto
  from rt(2) obtain res where res: "resolve_receiver_type (ev_rec ev) (ev_index ev)
            ((name_probe rt ns outer)\<lparr>fr_qualified :=
               first_of (Option.bind (mw_field w) rf_qualified_type) (fr_receiver_type_qualified (si_ref s))\<rparr>)
            (map_option (\<lambda>_. case fr_receiver_args (si_ref s) of None \<Rightarrow> 0 | Some as \<Rightarrow> length as)
               (fr_receiver_type (si_ref s))) usings ns aliases = Some res"
    by (auto simp: typed_receiver_tier_def Let_def scope split: Option.bind_splits)
  have keeps: "mw_field w' = mw_field w" "mw_type_name w' = mw_type_name w"
    and d: "mw_receiver_def w' = (case nw_res (narrow_tracked res (si_unit s) (ev_admission ev)) of Ref_Resolved i _ \<Rightarrow> Some i | _ \<Rightarrow> None)"
    using rt(2) assms(3,4) res
    by (auto simp: typed_receiver_tier_def Let_def scope answer_keeps split: Option.bind_splits ref_resolution.splits option.splits if_splits)
  have "receiver_definition ev s (mw_field w) rt (mw_receiver_def w')"
    unfolding receiver_definition_def using scope res d by blast
  with assms(2) rt(1) keeps show ?thesis by (simp add: knows_receiver_def reads_receiver_def)
qed

text \<open>A guess vouches for the member by name and shape, and the projects of the site may see it.\<close>

definition guessable :: "env \<Rightarrow> site \<Rightarrow> nat \<Rightarrow> bool" where
  "guessable ev s d \<longleftrightarrow>
     member_vouched (ev_index ev) d (fr_member (si_ref s)) (member_shape_of (si_ref s))
     \<and> ad_admits (ev_admission ev) (si_unit s) d
     \<and> (CHR ''+'' \<notin> set (d_id (di_defs (ev_index ev) ! d)) \<or> d_file (di_defs (ev_index ev) ! d) = si_file s)"

lemma fold_push_distinct_set: "set (fold (\<lambda>c. push_distinct_idx (f c)) cs is) = set is \<union> f ` set cs"
  by (induction cs arbitrary: "is") (auto simp: push_distinct_idx_def)

lemma extension_tier_cases:
  assumes "extension_tier ev s w = Some w'" "\<not> mw_emitted w \<Longrightarrow> knows_receiver ev s w"
  shows "w' = w \<or> \<not> mw_emitted w \<and> mw_emitted w'
    \<and> (\<exists>d. sole_extension ev s d \<and> mw_ledger w' = push_ext ev s d (mw_ledger w))"
proof (cases "w' = w")
  case False
  obtain receiver_type member arg_count key args d where
    known: "mw_type_name w = Some receiver_type" "fr_member (si_ref s) = Some member" "call_arity (si_ref s) = Some arg_count"
    and key: "extension_key ev s receiver_type member (mw_receiver_def w) = Some (key, args)"
    and found: "fold (\<lambda>c. push_distinct_idx (xc_def_idx c))
      (filter (extension_in_scope ev s arg_count args) (or_default [] (di_extension (ev_index ev) key))) [] = [d]"
    and w': "\<not> mw_emitted w" "mw_emitted w'" "mw_ledger w' = push_ext ev s d (mw_ledger w)"
    and own: "\<And>ridx. mw_receiver_def w = Some ridx \<Longrightarrow> inherited_member_declared (ev_fuel ev) (ev_rec ev) (ev_index ev)
      (ev_contexts ev) ridx (si_ref s) (si_file s) = Some False"
    using assms(1) False
    by (auto simp: extension_tier_def Let_def split: if_splits option.splits Option.bind_splits prod.splits list.splits)
  from found have set_eq: "xc_def_idx ` {c \<in> set (or_default [] (di_extension (ev_index ev) key)). extension_in_scope ev s arg_count args c} = {d}"
    using fold_push_distinct_set [of xc_def_idx "filter (extension_in_scope ev s arg_count args) (or_default [] (di_extension (ev_index ev) key))" "[]"]
    by simp
  then obtain candidates where "di_extension (ev_index ev) key = Some candidates"
    by (cases "di_extension (ev_index ev) key") auto
  moreover have "{xc_def_idx c |c. c \<in> set candidates \<and> extension_in_scope ev s arg_count args c} = {d}"
    if "di_extension (ev_index ev) key = Some candidates" for candidates
    using set_eq that by (auto simp: image_def)
  ultimately have "sole_extension ev s d"
    using assms(2) [OF w'(1)] known key own unfolding sole_extension_def knows_receiver_def reads_receiver_def by blast
  with w' show ?thesis by blast
qed simp

lemma filter_admitted_subset: "filter_admitted f ds cache = Some (kept, cache') \<Longrightarrow> set kept \<subseteq> set ds"
  by (induction ds arbitrary: cache kept cache') (fastforce split: Option.bind_splits prod.splits if_splits)+

lemma scored_pool_vouched:
  "scored_pool ev s source away = Some ds \<Longrightarrow>
    \<forall>d \<in> set ds. member_vouched (ev_index ev) d (fr_member (si_ref s)) (member_shape_of (si_ref s))"
  by (auto simp: scored_pool_def Let_def split: ref_resolution.splits if_splits)

lemma receiver_pool_subset:
  assumes "receiver_pool ev s tn source pool cache = Some (Some ds, cache')"
  shows "\<exists>all. pool = Some all \<and> set ds \<subseteq> set all"
  using assms filter_admitted_subset
  by (fastforce simp: receiver_pool_def split: option.splits ref_resolution.splits)

lemma scored_tier_cases:
  assumes "scored_tier ev s result (w, cache) = Some (w', cache')"
  shows "\<exists>ds. length ds \<le> SCORED_EMIT_CAP \<and> (\<forall>d \<in> set ds. guessable ev s d) \<and> (mw_emitted w \<longrightarrow> ds = [])
    \<and> mw_ledger w' = fold (push_guess ev s) ds (mw_ledger w)"
proof (cases "mw_emitted w")
  case True
  with assms show ?thesis by (intro exI [of _ "[]"]) (simp add: scored_tier_def)
next
  case False
  obtain source pool' where
    source: "(if mw_type_name w \<noteq> None then mw_receiver_result w else Some (nw_res result)) = Some source"
    and pool: "receiver_pool ev s (mw_type_name w) source (scored_pool ev s source
      (if mw_type_name w \<noteq> None then mw_narrowed_away w else nw_narrowed_away result)) cache = Some (pool', cache')"
    and w': "w' = (case pool' of None \<Rightarrow> w | Some ds \<Rightarrow> w\<lparr>mw_ledger := fold (push_guess ev s)
          (scored_guesses ev s (filter (ad_admits (ev_admission ev) (si_unit s)) ds)) (mw_ledger w)\<rparr>)"
    using assms False by (auto simp: scored_tier_def Let_def split: Option.bind_splits option.splits prod.splits)
  show ?thesis
  proof (cases pool')
    case None
    with w' show ?thesis by (intro exI [of _ "[]"]) simp
  next
    case (Some ds)
    let ?ds = "scored_guesses ev s (filter (ad_admits (ev_admission ev) (si_unit s)) ds)"
    from pool Some receiver_pool_subset scored_pool_vouched have
      vouch: "\<forall>d \<in> set ds. member_vouched (ev_index ev) d (fr_member (si_ref s)) (member_shape_of (si_ref s))" by blast
    have "length ?ds \<le> SCORED_EMIT_CAP"
      unfolding scored_guesses_def by (rule le_trans [OF length_filter_le]) simp
    moreover have "\<forall>d \<in> set ?ds. guessable ev s d"
      using vouch by (auto simp: scored_guesses_def guessable_def dest: in_set_takeD)
    ultimately show ?thesis using w' Some False by (intro exI [of _ ?ds]) simp
  qed
qed

text \<open>What a member reference may push.\<close>

definition pushes :: "env \<Rightarrow> site \<Rightarrow> ref_resolution \<Rightarrow> ledger \<Rightarrow> ledger \<Rightarrow> bool" where
  "pushes ev s res lg lg' \<longleftrightarrow>
     (\<exists>t. vouched ev s res t \<and> lg' = push_precise ev s t lg)
     \<or> (\<exists>d. sole_extension ev s d \<and> lg' = push_ext ev s d lg)
     \<or> (\<exists>ds. length ds \<le> 3 \<and> (\<forall>d \<in> set ds. guessable ev s d) \<and> lg' = fold (push_guess ev s) ds lg)"

lemma member_reference_pushed:
  assumes "member_reference ev s (lg, cache) = Some (lg', cache')"
    and "ev_rec ev (si_ref s) (si_usings s) (si_ns s) (si_aliases s) = Some res"
  shows "pushes ev s (nw_res (narrow_tracked res (si_unit s) (ev_admission ev))) lg lg'"
proof -
  let ?result = "narrow_tracked res (si_unit s) (ev_admission ev)"
  let ?res = "nw_res ?result"
  obtain w1 w2 w3 w4 w5 w6 where
    steps: "qualifier_step ev s ?res (start_walk lg) = Some w1" "receiver_name ev s w1 = Some w2"
      "typed_receiver_step ev s w2 = Some w3" "property_hop_tier ev s (chain_tail_guard s w3) = Some w4"
      "extension_tier ev s w4 = Some w5" "scored_tier ev s ?result (w5, cache) = Some (w6, cache')" and "lg' = mw_ledger w6"
    using assms by (auto simp: member_reference_def Let_def split: Option.bind_splits)
  have "walk_inv ev s ?res lg w1" by (rule qualifier_step_inv [OF steps(1)]) (simp add: start_walk_def)
  then have "walk_inv ev s ?res lg w2" using receiver_name_keeps [OF steps(2)] by (simp add: walk_inv_def)
  then have "walk_inv ev s ?res lg w3" by (rule typed_receiver_step_inv [OF steps(3)])
  then have "walk_inv ev s ?res lg (chain_tail_guard s w3)" by (rule chain_tail_guard_inv)
  then have w4: "walk_inv ev s ?res lg w4" by (rule property_hop_inv [OF steps(4)])
  obtain ds where ds: "length ds \<le> SCORED_EMIT_CAP" "\<forall>d \<in> set ds. guessable ev s d" "mw_emitted w5 \<Longrightarrow> ds = []"
    "lg' = fold (push_guess ev s) ds (mw_ledger w5)"
    using scored_tier_cases [OF steps(6)] \<open>lg' = mw_ledger w6\<close> by auto
  have knows: "knows_receiver ev s w4" if unanswered: "\<not> mw_emitted w4"
  proof -
    have same: "w4 = chain_tail_guard s w3" using property_hop_inv(2) [OF steps(4) \<open>walk_inv ev s ?res lg (chain_tail_guard s w3)\<close>] unanswered by simp
    then have "\<not> mw_emitted w3" "w4 = w3" using unanswered same by (auto simp: chain_tail_guard_def split: if_splits)
    moreover have "reads_receiver ev s w2 \<and> mw_receiver_def w2 = None"
      using receiver_name_reads [OF steps(2)] qualifier_step_reads [OF steps(1)] by simp
    ultimately show ?thesis using typed_receiver_step_knows [OF steps(3)] by simp
  qed
  from w4 extension_tier_cases [OF steps(5) knows] ds show ?thesis
    by (auto simp: pushes_def walk_inv_def SCORED_EMIT_CAP_def)
qed

text \<open>
  C3. A member reference adds at most one precise edge, to a definition that declares the member with a
  fitting overload, to the enum member, or, where the site writes a generic or fully qualified type name
  and neither that type nor a base of it declares the member, to the type itself; or one extension edge,
  to the only definition in scope whose extension method goes with the type the site gives its receiver,
  when that type has no such member of its own; or at most three guesses, each vouching for the member by
  name and shape and within the reach of the site's project; never a mixture.
\<close>

theorem member_reference_answers:
  assumes "member_reference ev s (lg, cache) = Some (lg', cache')"
    and "ev_rec ev (si_ref s) (si_usings s) (si_ns s) (si_aliases s) = Some res"
  shows "pushes ev s (nw_res (narrow_tracked res (si_unit s) (ev_admission ev))) lg lg'"
  using member_reference_pushed [OF assms] .

end
