(* ===== verification/StatFacts.thy ===== *)
theory StatFacts
  imports TierFacts
begin

text \<open>The statistics of a resolve run are the counts of the edges it leaves.\<close>

section \<open>Single pushes\<close>

definition run_ok :: "ledger \<Rightarrow> bool" where
  "run_ok lg \<longleftrightarrow> ledger_ok lg \<and> cnt is_Bus_Hop (lg_edges lg) = 0"

lemmas ledger_simps = run_ok_def ledger_ok_def tally_def guesses_counted_def guesses_tiered_def push_edge_def

lemma run_ok_empty: "run_ok empty_ledger"
  using ledger_ok_empty by (simp add: run_ok_def empty_ledger_def)

lemma member_edge_facts:
  "is_Uses_Member (member_edge ev s tier t)" "is_heuristic (member_edge ev s tier t) \<longleftrightarrow> tier \<noteq> None"
  "edge_tier (member_edge ev s tier t) = tier"
  by (simp_all add: member_edge_def Let_def uses_member_def)

lemma uses_member_only:
  assumes "is_Uses_Member e"
  shows "\<not> is_Inherits e" "\<not> is_Uses_Type e" "\<not> is_Imports e" "\<not> is_Ctor_Di e" "\<not> is_Implements e" "\<not> is_Overrides e"
    "\<not> is_Bus_Hop e" "\<not> is_Ambiguous e"
  using assms by (cases e; simp)+

lemmas member_edge_kind = member_edge_facts uses_member_only [OF member_edge_facts(1)]

lemma run_ok_precise: "run_ok lg \<Longrightarrow> run_ok (push_precise ev s t lg)"
  by (simp add: ledger_simps push_precise_def member_edge_kind)

lemma run_ok_ext: "run_ok lg \<Longrightarrow> run_ok (push_ext ev s t lg)"
  by (simp add: ledger_simps push_ext_def member_edge_kind)

lemma run_ok_guess: "run_ok lg \<Longrightarrow> run_ok (push_guess ev s t lg)"
  by (simp add: ledger_simps push_guess_def member_edge_kind)

lemma run_ok_guesses: "run_ok lg \<Longrightarrow> run_ok (fold (push_guess ev s) ds lg)"
  by (induction ds arbitrary: lg) (simp_all add: run_ok_guess)

lemma pushes_ok: "pushes ev s res lg lg' \<Longrightarrow> run_ok lg \<Longrightarrow> run_ok lg'"
  by (auto simp: pushes_def intro: run_ok_precise run_ok_ext run_ok_guesses)

text \<open>A member reference only adds edges to members.\<close>

definition extends_by :: "(edge \<Rightarrow> bool) \<Rightarrow> ledger \<Rightarrow> ledger \<Rightarrow> bool" where
  "extends_by P lg lg' \<longleftrightarrow> (\<exists>es. lg_edges lg' = lg_edges lg @ es \<and> (\<forall>e \<in> set es. P e))"

lemma extends_by_trans: "extends_by P lg lg1 \<Longrightarrow> extends_by P lg1 lg2 \<Longrightarrow> extends_by P lg lg2"
  by (fastforce simp: extends_by_def)

lemma push_extends:
  "extends_by is_Uses_Member lg (push_precise ev s t lg)" "extends_by is_Uses_Member lg (push_ext ev s t lg)"
  "extends_by is_Uses_Member lg (push_guess ev s t lg)"
  by (simp_all add: extends_by_def push_precise_def push_ext_def push_guess_def push_edge_def member_edge_facts)

lemma guesses_extend: "extends_by is_Uses_Member lg (fold (push_guess ev s) ds lg)"
proof (induction ds arbitrary: lg)
  case (Cons d ds)
  show ?case using extends_by_trans [OF push_extends(3) Cons.IH] by simp
qed (simp add: extends_by_def)

lemma pushes_extend: "pushes ev s res lg lg' \<Longrightarrow> extends_by is_Uses_Member lg lg'"
  by (auto simp: pushes_def push_extends guesses_extend)

section \<open>The compiler's answer\<close>

lemma cnt_split: "cnt P (take n es) + cnt P (drop n es) = cnt P es"
  by (metis append_take_drop_id cnt_simps(3))

lemma cnt_members:
  assumes "\<forall>e \<in> set es. is_Uses_Member e"
  shows "cnt is_Inherits es = 0" "cnt is_Uses_Type es = 0" "cnt is_Imports es = 0" "cnt is_Ctor_Di es = 0"
    "cnt is_Implements es = 0" "cnt is_Overrides es = 0" "cnt is_Bus_Hop es = 0" "cnt is_Ambiguous es = 0"
  using assms uses_member_only by (auto intro!: cnt_zero)

lemma guesses_tiered_part: "guesses_tiered es \<Longrightarrow> guesses_tiered (take n es) \<and> guesses_tiered (drop n es)"
  by (auto simp: guesses_tiered_def dest: in_set_takeD in_set_dropD)

lemma apply_layer_ok:
  assumes "run_ok lg" "\<forall>e \<in> set (drop pre (lg_edges lg)). is_Uses_Member e"
    and "apply_layer layer index pre f r (lg, diag) = Some (lg', diag')"
  shows "run_ok lg'"
proof (cases "lg' = lg")
  case False
  let ?gone = "drop pre (lg_edges lg)" and ?kept = "take pre (lg_edges lg)"
  from assms(3) False obtain l member ovr where "layer = Some l" "fr_member r = Some member"
    "decide (layer_lookup l index f (fr_line r) member (fr_arg_count r)) ?gone = Some ovr"
    by (auto simp: apply_layer_def split: option.splits)
  note known = this
  then obtain n lg1 where drop: "drop_pushed ?gone 0 lg = Some (n, lg1)"
    using assms(3) by (auto simp: apply_layer_def split: Option.bind_splits)
  with known obtain u where u: "sub_opt (ek_uses_member (lg_by_kind lg1)) n = Some u"
    using assms(3) by (auto simp: apply_layer_def split: Option.bind_splits)
  have lg': "lg' = lg1\<lparr>lg_edges := take pre (lg_edges lg1) @
        [uses_member_semantic f (fr_line r) (st_to_def_id (so_target ovr)) (st_to_file (so_target ovr))
           (Some member) Semantic (st_overload_signature (so_target ovr))],
        lg_by_kind := (lg_by_kind lg1)\<lparr>ek_uses_member := u + 1\<rparr>\<rparr>"
    using assms(3) known drop u by (simp add: apply_layer_def)
  have cut: "cnt P (lg_edges lg) = cnt P ?kept + cnt P ?gone" for P by (simp add: cnt_split)
  have "covers lg ?gone" using assms(1) by (simp add: ledger_simps covers_def cut)
  moreover have "guesses_tiered ?gone" using assms(1) guesses_tiered_part by (simp add: run_ok_def ledger_ok_def guesses_counted_def)
  ultimately have n: "n = cnt is_precise_member ?gone" and taken: "taken_back ?gone [] lg lg1"
    using drop_pushed_counts [of lg ?gone 0] drop by auto
  have u': "u = cnt is_precise_member ?kept"
    using u taken assms(1) by (auto simp: sub_opt_def n taken_back_def run_ok_def ledger_ok_def tally_def cut split: if_splits)
  have tiered: "guesses_tiered ?kept" using assms(1) guesses_tiered_part by (simp add: run_ok_def ledger_ok_def guesses_counted_def)
  have edges: "lg_edges lg' = ?kept @ [uses_member_semantic f (fr_line r) (st_to_def_id (so_target ovr)) (st_to_file (so_target ovr))
           (Some member) Semantic (st_overload_signature (so_target ovr))]"
    using taken by (simp add: lg' taken_back_def)
  show ?thesis
    using assms(1) taken tiered
    unfolding run_ok_def ledger_ok_def guesses_counted_def edges
    by (simp add: lg' u' taken_back_def tally_def cut cnt_members [OF assms(2)] uses_member_semantic_def guesses_tiered_def)
qed (use assms(1) in simp)

section \<open>Every reference\<close>

definition known_kind :: "frag_ref \<Rightarrow> bool" where
  "known_kind r \<longleftrightarrow> fr_kind r \<in> {''imports'', ''uses-member'', ''ctor-param'', ''inherits'', ''uses-type''}"

lemma member_reference_pushes:
  assumes "member_reference ev s (lg, cache) = Some (lg', cache')"
  shows "\<exists>res. pushes ev s res lg lg'"
proof -
  obtain res where "ev_rec ev (si_ref s) (si_usings s) (si_ns s) (si_aliases s) = Some res"
    using assms by (auto simp: member_reference_def split: Option.bind_splits)
  with member_reference_pushed [OF assms] show ?thesis by blast
qed

lemma imports_reference_ok: "run_ok lg \<Longrightarrow> run_ok (imports_reference s lg)"
  by (simp add: ledger_simps imports_reference_def count_kind_def)

lemma ctor_reference_ok: "ctor_reference ev s lg = Some lg' \<Longrightarrow> run_ok lg \<Longrightarrow> run_ok lg'"
  by (auto simp: ledger_simps ctor_reference_def count_kind_def split: Option.bind_splits prod.splits)

lemma type_reference_ok:
  assumes "type_reference ev s lg = Some lg'" "fr_kind (si_ref s) \<in> {''inherits'', ''uses-type''}" "run_ok lg"
  shows "run_ok lg'"
  using assms
  by (auto simp: ledger_simps type_reference_def Let_def count_kind_def type_edge_def split: Option.bind_splits ref_resolution.splits)

lemma reference_step_ok:
  assumes "reference_step layer ev s st = Some st'" "known_kind (si_ref s)" "run_ok (rn_ledger st)"
  shows "run_ok (rn_ledger st')"
proof -
  let ?lg = "rn_ledger st"
  consider "fr_kind (si_ref s) = ''imports''" | "fr_kind (si_ref s) = ''uses-member''" | "fr_kind (si_ref s) = ''ctor-param''"
    | "fr_kind (si_ref s) \<in> {''inherits'', ''uses-type''}"
    using assms(2) by (auto simp: known_kind_def)
  then show ?thesis
  proof cases
    case 1
    with assms show ?thesis by (auto simp: reference_step_def imports_reference_ok)
  next
    case 2
    with assms(1) obtain lg cache lg' diag where
      walk: "member_reference ev s (?lg, rn_cache st) = Some (lg, cache)"
      and applied: "apply_layer layer (ev_index ev) (length (lg_edges ?lg)) (si_file s) (si_ref s) (lg, rn_diag st) = Some (lg', diag)"
      and st': "rn_ledger st' = lg'"
      by (auto simp: reference_step_def Let_def split: Option.bind_splits)
    obtain res where "pushes ev s res ?lg lg" using member_reference_pushes [OF walk] by blast
    with pushes_ok pushes_extend assms(3) have "run_ok lg" "extends_by is_Uses_Member ?lg lg" by blast+
    then have "\<forall>e \<in> set (drop (length (lg_edges ?lg)) (lg_edges lg)). is_Uses_Member e"
      by (auto simp: extends_by_def)
    with apply_layer_ok [OF \<open>run_ok lg\<close> _ applied] st' show ?thesis by simp
  next
    case 3
    with assms show ?thesis by (auto simp: reference_step_def intro: ctor_reference_ok)
  next
    case 4
    then have "reference_step layer ev s st = map_option (\<lambda>lg. st\<lparr>rn_ledger := lg\<rparr>) (type_reference ev s ?lg)"
      by (auto simp: reference_step_def)
    with assms 4 show ?thesis by (auto intro: type_reference_ok)
  qed
qed

lemma fold_opt_keeps:
  "(\<And>x s s'. x \<in> set xs \<Longrightarrow> f x s = Some s' \<Longrightarrow> I s \<Longrightarrow> I s') \<Longrightarrow> fold_opt f xs s = Some s' \<Longrightarrow> I s \<Longrightarrow> I s'"
proof (induction xs arbitrary: s)
  case (Cons x xs)
  then obtain s1 where "f x s = Some s1" "fold_opt f xs s1 = Some s'" by (auto split: Option.bind_splits)
  with Cons.prems(1) [of x s s1] Cons.prems(3) Cons.IH [of s1] Cons.prems(1) show ?case by auto
qed simp

definition known_kinds :: "(string \<times> fragment) list \<Rightarrow> bool" where
  "known_kinds fragments \<longleftrightarrow> (\<forall>(f, frag) \<in> set fragments. \<forall>r \<in> set (fg_refs frag). known_kind r)"

lemma file_step_ok:
  assumes "file_step layer ev units entry st = Some st'" "\<forall>r \<in> set (fg_refs (snd entry)). known_kind r" "run_ok (rn_ledger st)"
  shows "run_ok (rn_ledger st')"
proof -
  obtain f frag where entry: "entry = (f, frag)" by (cases entry)
  with assms(1) obtain ctx where "ev_contexts ev f = Some ctx"
    by (auto simp: file_step_def split: option.splits)
  with assms(1) entry have
    steps: "fold_opt (\<lambda>r. reference_step layer ev \<lparr>si_file = f, si_unit = owner_unit units f, si_usings = fc_usings ctx,
        si_aliases = fc_aliases ctx, si_ref = r\<rparr>) (fg_refs frag) st = Some st'"
    by (simp add: file_step_def)
  show ?thesis
    by (rule fold_opt_keeps [where I = "\<lambda>st. run_ok (rn_ledger st)", OF _ steps assms(3)])
      (rule reference_step_ok, assumption, use assms(2) entry in auto)
qed

lemma resolve_run_ok:
  assumes "resolve_run n fuel fragments model layer = Some st" "known_kinds fragments"
  shows "run_ok (rn_ledger st)"
  unfolding resolve_run_def
proof (rule fold_opt_keeps [where I = "\<lambda>st. run_ok (rn_ledger st)", OF _ assms(1) [unfolded resolve_run_def]])
  show "run_ok (rn_ledger start_run)" by (simp add: start_run_def run_ok_empty)
qed (rule file_step_ok, assumption, use assms(2) in \<open>auto simp: known_kinds_def\<close>)

section \<open>Dispatch and bus edges\<close>

definition registered :: "edge \<Rightarrow> bool" where
  "registered e \<longleftrightarrow> is_Implements e \<or> is_Overrides e"

definition dispatch_counted :: "edge list \<times> nat \<times> nat \<Rightarrow> bool" where
  "dispatch_counted st =
     (case st of (es, implements, overrides) \<Rightarrow>
        cnt is_Implements es = implements \<and> cnt is_Overrides es = overrides \<and> (\<forall>e \<in> set es. registered e))"

lemma implements_edge_kind: "is_Implements (implements_edge index reg m)" "\<not> is_Overrides (implements_edge index reg m)"
  by (simp_all add: implements_edge_def Let_def)

lemma member_implements_counted:
  assumes "resolve_member_implements index reg = (es, n)"
  shows "length es = n \<and> (\<forall>e \<in> set es. is_Implements e)"
proof -
  let ?P = "\<lambda>st. length (fst st) = snd st \<and> (\<forall>e \<in> set (fst st). is_Implements e)"
  have "?P (resolve_member_implements index reg)"
    unfolding resolve_member_implements_def
    by (rule fold_invariant [where Q = "\<lambda>_. True" and P = ?P]) (auto simp: implements_edge_kind split: if_splits)
  with assms show ?thesis by simp
qed

lemma member_overrides_counted:
  assumes "member_overrides rec index contexts impl members (es, n) = Some (es', n')"
    and "length es = n" "\<forall>e \<in> set es. is_Overrides e"
  shows "length es' = n' \<and> (\<forall>e \<in> set es'. is_Overrides e)"
  using assms
proof (induction members arbitrary: es n)
  case (Cons m ms)
  obtain base where base: "first_base_where rec index contexts impl False (\<lambda>i. Some (declares_member index i (Some m) None)) = Some base"
    using Cons.prems(1) by (auto split: Option.bind_splits)
  show ?case
  proof (cases "base = None \<or> matching_overload_count index impl (the base) m \<noteq> 1")
    case True
    with Cons.prems(1) base have "member_overrides rec index contexts impl ms (es, n) = Some (es', n')"
      by (auto split: option.splits)
    from Cons.IH [OF this Cons.prems(2, 3)] show ?thesis .
  next
    case False
    then obtain b where b: "base = Some b" "matching_overload_count index impl b m = 1" by auto
    let ?e = "Overrides (d_file (di_defs index ! impl)) (d_line (di_defs index ! impl))
        (d_id (di_defs index ! b)) (d_file (di_defs index ! b)) (Some m)"
    have "member_overrides rec index contexts impl ms (es @ [?e], n + 1) = Some (es', n')"
      using Cons.prems(1) base b by simp
    from Cons.IH [OF this] Cons.prems(2, 3) show ?thesis by auto
  qed
qed simp

lemma kind_counts:
  "\<forall>e \<in> set es. is_Implements e \<Longrightarrow> cnt is_Implements es = length es \<and> cnt is_Overrides es = 0 \<and> (\<forall>e \<in> set es. registered e)"
  "\<forall>e \<in> set es. is_Overrides e \<Longrightarrow> cnt is_Overrides es = length es \<and> cnt is_Implements es = 0 \<and> (\<forall>e \<in> set es. registered e)"
proof -
  have "is_Implements e \<Longrightarrow> \<not> is_Overrides e" for e by (cases e) simp_all
  then show "\<forall>e \<in> set es. is_Implements e \<Longrightarrow> cnt is_Implements es = length es \<and> cnt is_Overrides es = 0 \<and> (\<forall>e \<in> set es. registered e)"
    "\<forall>e \<in> set es. is_Overrides e \<Longrightarrow> cnt is_Overrides es = length es \<and> cnt is_Implements es = 0 \<and> (\<forall>e \<in> set es. registered e)"
    by (auto simp: registered_def intro!: cnt_all cnt_zero)
qed

lemma dispatch_counted_add:
  "dispatch_counted (es, i, n) \<Longrightarrow> dispatch_counted (es', i', n') \<Longrightarrow> dispatch_counted (es @ es', i + i', n + n')"
  by (auto simp: dispatch_counted_def)

lemma implements_counted: "resolve_member_implements index reg = (es, n) \<Longrightarrow> dispatch_counted (es, n, 0)"
  using member_implements_counted kind_counts(1) by (fastforce simp: dispatch_counted_def)

lemma overrides_counted: "resolve_member_overrides rec index contexts impl = Some (es, n) \<Longrightarrow> dispatch_counted (es, 0, n)"
  using member_overrides_counted [of rec index contexts impl _ "[]" 0 es n] kind_counts(2) [of es]
  by (simp add: dispatch_counted_def resolve_member_overrides_def)

lemma member_dispatch_counted:
  assumes "member_dispatch rec index contexts regs seen (es, i, n) = Some st" "dispatch_counted (es, i, n)"
  shows "dispatch_counted st"
  using assms
proof (induction regs arbitrary: seen es i n)
  case (Cons reg regs)
  obtain mes mc where mes: "resolve_member_implements index reg = (mes, mc)" by fastforce
  have one: "dispatch_counted (es @ mes, i + mc, n)"
    using dispatch_counted_add [OF Cons.prems(2) implements_counted [OF mes]] by simp
  show ?case
  proof (cases "rr_implementation reg \<in> seen")
    case True
    with Cons.prems(1) mes have "member_dispatch rec index contexts regs seen (es @ mes, i + mc, n) = Some st" by simp
    from Cons.IH [OF this one] show ?thesis .
  next
    case False
    with Cons.prems(1) mes obtain oes oc where oes: "resolve_member_overrides rec index contexts (rr_implementation reg) = Some (oes, oc)"
      by (auto split: Option.bind_splits)
    with Cons.prems(1) mes False have
      "member_dispatch rec index contexts regs (insert (rr_implementation reg) seen) ((es @ mes) @ oes, i + mc, n + oc) = Some st"
      by simp
    moreover have "dispatch_counted ((es @ mes) @ oes, i + mc, n + oc)"
      using dispatch_counted_add [OF one overrides_counted [OF oes]] by simp
    ultimately show ?thesis by (rule Cons.IH)
  qed
qed simp

lemma registered_only:
  assumes "registered e"
  shows "\<not> is_Inherits e" "\<not> is_Uses_Type e" "\<not> is_Imports e" "\<not> is_Ctor_Di e" "\<not> is_Uses_Member e"
    "\<not> is_Bus_Hop e" "\<not> is_Ambiguous e" "\<not> is_heuristic e" "edge_tier e = None"
  using assms unfolding registered_def by (cases e; simp)+

lemma cnt_registered:
  assumes "\<forall>e \<in> set es. registered e"
  shows "cnt is_Inherits es = 0" "cnt is_Uses_Type es = 0" "cnt is_Imports es = 0" "cnt is_Ctor_Di es = 0"
    "cnt is_precise_member es = 0" "cnt is_Bus_Hop es = 0" "cnt is_Ambiguous es = 0" "cnt is_heuristic es = 0"
    "cnt (has_tier t) es = 0" "guesses_tiered es"
  using assms registered_only by (auto intro!: cnt_zero simp: guesses_tiered_def)

lemma guesses_tiered_append: "guesses_tiered (es @ es') \<longleftrightarrow> guesses_tiered es \<and> guesses_tiered es'"
  by (auto simp: guesses_tiered_def)

lemma append_dispatch_ok:
  assumes "append_dispatch_edges rec index contexts fragments lg = Some lg'" "run_ok lg"
  shows "run_ok lg'"
proof -
  obtain regs resolved mes i n where
    regs: "resolve_registrations rec index contexts fragments = Some (regs, resolved)"
    and mes: "resolve_member_dispatch rec index contexts resolved = Some (mes, i, n)"
    and lg': "lg' = lg\<lparr>lg_edges := lg_edges lg @ regs @ mes,
                lg_by_kind := (lg_by_kind lg)\<lparr>
                  ek_implements := ek_implements (lg_by_kind lg) + length regs + i,
                  ek_overrides := ek_overrides (lg_by_kind lg) + n\<rparr>\<rparr>"
    using assms(1) by (auto simp: append_dispatch_edges_def split: Option.bind_splits prod.splits)
  have "\<forall>e \<in> set regs. is_Implements e"
    using regs by (auto simp: resolve_registrations_def Let_def implements_edge_kind split: Option.bind_splits)
  then have "dispatch_counted (regs, length regs, 0)" using kind_counts(1) [of regs] by (simp add: dispatch_counted_def)
  moreover have "dispatch_counted (mes, i, n)"
    using mes member_dispatch_counted [of rec index contexts resolved "{}" "[]" 0 0]
    by (simp add: resolve_member_dispatch_def dispatch_counted_def)
  ultimately have counted: "dispatch_counted (regs @ mes, length regs + i, n)" using dispatch_counted_add by fastforce
  then have only: "\<forall>e \<in> set (regs @ mes). registered e" by (simp add: dispatch_counted_def)
  show ?thesis
    using assms(2) counted cnt_registered [OF only]
    by (simp add: lg' run_ok_def ledger_ok_def tally_def guesses_counted_def guesses_tiered_append dispatch_counted_def)
qed

lemma bus_hop_only:
  assumes "is_Bus_Hop e"
  shows "\<not> is_Inherits e" "\<not> is_Uses_Type e" "\<not> is_Imports e" "\<not> is_Ctor_Di e" "\<not> is_Uses_Member e"
    "\<not> is_Implements e" "\<not> is_Overrides e" "\<not> is_Ambiguous e" "\<not> is_heuristic e" "edge_tier e = None"
  using assms by (cases e; simp)+

lemma cnt_hops:
  assumes "\<forall>e \<in> set es. is_Bus_Hop e"
  shows "cnt is_Inherits es = 0" "cnt is_Uses_Type es = 0" "cnt is_Imports es = 0" "cnt is_Ctor_Di es = 0"
    "cnt is_precise_member es = 0" "cnt is_Implements es = 0" "cnt is_Overrides es = 0" "cnt is_Ambiguous es = 0"
    "cnt is_heuristic es = 0" "cnt (has_tier t) es = 0" "guesses_tiered es" "cnt is_Bus_Hop es = length es"
  using assms bus_hop_only by (auto intro!: cnt_zero cnt_all simp: guesses_tiered_def)

lemma append_bus_ok:
  assumes "append_bus_edges rec index contexts fragments lg = Some (lg', derived)" "run_ok lg"
  shows "ledger_ok lg' \<and> (derived \<noteq> None \<longleftrightarrow> ek_bus_hop (lg_by_kind lg') \<noteq> None)"
proof -
  have none: "ek_bus_hop (lg_by_kind lg) = None" using assms(2) by (simp add: run_ok_def ledger_ok_def tally_def)
  show ?thesis
  proof (cases "derived = None")
    case True
    with assms(1) have "lg' = lg"
      by (auto simp: append_bus_edges_def Let_def split: if_splits Option.bind_splits prod.splits)
    with True assms(2) none show ?thesis by (simp add: run_ok_def)
  next
    case False
    with assms(1) obtain kept consumers where hops: "bus_hops index kept consumers \<noteq> []"
      and lg': "lg' = lg\<lparr>lg_edges := lg_edges lg @ bus_hops index kept consumers,
                           lg_by_kind := (lg_by_kind lg)\<lparr>ek_bus_hop := Some (length (bus_hops index kept consumers))\<rparr>\<rparr>"
      by (auto simp: append_bus_edges_def Let_def split: if_splits Option.bind_splits prod.splits)
    have "\<forall>e \<in> set (bus_hops index kept consumers). is_Bus_Hop e"
      by (auto simp: bus_hops_def bus_hop_def Let_def)
    from cnt_hops [OF this] hops assms(2) False show ?thesis
      by (simp add: lg' run_ok_def ledger_ok_def tally_def guesses_counted_def guesses_tiered_append)
  qed
qed

section \<open>The graph\<close>

definition untiered :: "edge \<Rightarrow> bool" where
  "untiered e \<longleftrightarrow> is_precise_member e \<and> edge_tier e = None"

lemma discovered_untiered: "\<forall>e \<in> set (discovered_edges layer index sites). untiered e"
  by (auto simp: discovered_edges_def discovered_edge_def uses_member_semantic_def untiered_def split: if_splits prod.splits)

lemma cnt_untiered:
  assumes "\<forall>e \<in> set es. untiered e"
  shows "cnt is_precise_member es = length es" "cnt is_heuristic es = 0" "cnt (has_tier t) es = 0" "guesses_tiered es"
    "\<forall>e \<in> set es. is_Uses_Member e"
  using assms by (auto intro!: cnt_zero cnt_all simp: guesses_tiered_def untiered_def)

lemma guess_is_member: "guesses_tiered es \<Longrightarrow> e \<in> set es \<Longrightarrow> is_heuristic e \<Longrightarrow> is_Uses_Member e"
  by (cases e) (auto simp: guesses_tiered_def)

lemma cnt_kept:
  assumes "filter (\<lambda>e. \<not> is_heuristic e) kept = filter (\<lambda>e. \<not> is_heuristic e) es" "set kept \<subseteq> set es"
    and "\<forall>e \<in> set es. P e \<longrightarrow> \<not> is_heuristic e"
  shows "cnt P kept = cnt P es"
proof -
  have "filter P xs = filter P (filter (\<lambda>e. \<not> is_heuristic e) xs)" if "\<forall>e \<in> set xs. P e \<longrightarrow> \<not> is_heuristic e" for xs
    using that by (induction xs) auto
  from this [of kept] this [of es] assms show ?thesis unfolding cnt_def by (metis subsetD)
qed

lemma dedup_ledger_ok:
  assumes "guesses_counted lg"
  shows "\<exists>lg'. dedup_ledger lg = Some lg' \<and> guesses_counted lg' \<and> tally (lg_edges lg') = tally (lg_edges lg)
    \<and> cnt is_Ambiguous (lg_edges lg') = cnt is_Ambiguous (lg_edges lg) \<and> lg_by_kind lg' = lg_by_kind lg
    \<and> lg_ambiguous lg' = lg_ambiguous lg"
proof -
  let ?es = "lg_edges lg"
  have tiered: "guesses_tiered ?es" using assms by (simp add: guesses_counted_def)
  have "covers lg ?es" using assms by (simp add: covers_def guesses_counted_def)
  from dedup_counts [OF this, of "{}"] obtain kept lg' where
    dedup: "dedup_guesses {} ?es lg = Some (kept, lg')" and took: "taken_back ?es kept lg lg'"
    and same: "filter (\<lambda>e. \<not> is_heuristic e) kept = filter (\<lambda>e. \<not> is_heuristic e) ?es" and part: "set kept \<subseteq> set ?es" by blast
  have counts: "cnt P kept = cnt P ?es" if "\<And>e. is_Uses_Member e \<Longrightarrow> \<not> P e" for P
    using guess_is_member [OF tiered] that by (intro cnt_kept [OF same part]) blast
  have precise: "cnt is_precise_member kept = cnt is_precise_member ?es" by (intro cnt_kept [OF same part]) simp
  have "tally kept = tally ?es" by (simp add: tally_def counts uses_member_only precise)
  moreover have "guesses_tiered kept" using tiered part by (auto simp: guesses_tiered_def)
  ultimately show ?thesis
    using dedup took assms
    by (simp add: dedup_ledger_def guesses_counted_def taken_back_def counts uses_member_only)
qed

text \<open>The edges the compiler's facts added are not counted by kind, but on their own.\<close>

definition discovered_count :: "stats \<Rightarrow> nat" where
  "discovered_count sx = (case sx_semantic sx of None \<Rightarrow> 0 | Some s \<Rightarrow> ss_discovered s)"

definition counts_match :: "stats \<Rightarrow> edge list \<Rightarrow> bool" where
  "counts_match sx es \<longleftrightarrow>
     (sx_edges_by_kind sx)\<lparr>ek_uses_member := ek_uses_member (sx_edges_by_kind sx) + discovered_count sx\<rparr> = tally es
     \<and> sx_ambiguous_count sx = cnt is_Ambiguous es
     \<and> sx_heuristic_edge_count sx = cnt is_heuristic es
     \<and> bt_ext (sx_heuristic_by_tier sx) = cnt (has_tier Tier_Ext) es
     \<and> bt_guess (sx_heuristic_by_tier sx) = cnt (has_tier Tier_Guess) es
     \<and> sx_heuristic_edge_count sx = bt_ext (sx_heuristic_by_tier sx) + bt_guess (sx_heuristic_by_tier sx)
     \<and> (sx_bus_vocabulary_derived sx \<noteq> None \<longleftrightarrow> ek_bus_hop (sx_edges_by_kind sx) \<noteq> None)
     \<and> ek_bus_hop (sx_edges_by_kind sx) \<noteq> Some 0"

lemma finish_layer_ok:
  assumes "finish_layer layer index sites (lg_edges lg) diag = (es, semantic)" "ledger_ok lg"
    and d: "d = (case semantic of None \<Rightarrow> 0 | Some s \<Rightarrow> ss_discovered s)"
  shows "guesses_counted (lg\<lparr>lg_edges := es\<rparr>)" "(lg_by_kind lg)\<lparr>ek_uses_member := ek_uses_member (lg_by_kind lg) + d\<rparr> = tally es"
    "lg_ambiguous lg = cnt is_Ambiguous es"
proof -
  obtain news where es: "es = lg_edges lg @ news" and news: "\<forall>e \<in> set news. untiered e" and d': "d = length news"
  proof (cases layer)
    case None
    with assms that [of "[]"] show ?thesis by (simp add: finish_layer_def)
  next
    case (Some l)
    have "es = lg_edges lg @ discovered_edges l index sites" "d = length (discovered_edges l index sites)"
      using assms Some by (auto simp: finish_layer_def project_discovered_def Let_def)
    from that [OF this(1) discovered_untiered this(2)] show ?thesis .
  qed
  show "guesses_counted (lg\<lparr>lg_edges := es\<rparr>)"
    using assms(2) cnt_untiered [OF news] by (simp add: es ledger_ok_def guesses_counted_def guesses_tiered_append)
  note member = cnt_untiered(5) [OF news]
  show "(lg_by_kind lg)\<lparr>ek_uses_member := ek_uses_member (lg_by_kind lg) + d\<rparr> = tally es"
    using assms(2) cnt_untiered(1) [OF news] by (simp add: es d' ledger_ok_def tally_def cnt_members [OF member])
  show "lg_ambiguous lg = cnt is_Ambiguous es"
    using assms(2) by (simp add: es ledger_ok_def cnt_members [OF member])
qed

text \<open>
  C13. The statistics of a resolve run count the edges of its graph: the counters by kind, once the edges
  the compiler's facts discovered are added to the member edges, the ambiguous references, the guesses
  and their two tiers, which sum to all guesses, whatever the duplicates and overridden edges taken
  back; and the bus key is there only with at least one hop.
\<close>

theorem stats_count_edges:
  assumes "resolve_graph_with_model n fuel head ts_files fragments model layer = Some (sx, g)" "known_kinds fragments"
  shows "counts_match sx (g_edges g)"
proof -
  let ?ev = "resolve_env n fuel fragments model"
  obtain st lg1 lg2 derived es semantic lg where
    st: "resolve_run n fuel fragments model layer = Some st"
    and lg1: "append_dispatch_edges (ev_rec ?ev) (ev_index ?ev) (ev_contexts ?ev) fragments (rn_ledger st) = Some lg1"
    and lg2: "append_bus_edges (ev_rec ?ev) (ev_index ?ev) (ev_contexts ?ev) fragments lg1 = Some (lg2, derived)"
    and es: "finish_layer layer (ev_index ?ev) (rn_sites st) (lg_edges lg2) (rn_diag st) = (es, semantic)"
    and lg: "dedup_ledger (lg2\<lparr>lg_edges := es\<rparr>) = Some lg"
    and sx: "sx_edges_by_kind sx = lg_by_kind lg" "sx_ambiguous_count sx = lg_ambiguous lg" "sx_heuristic_edge_count sx = lg_heuristic lg"
      "sx_heuristic_by_tier sx = lg_by_tier lg" "sx_bus_vocabulary_derived sx = derived" "sx_semantic sx = semantic" "g_edges g = lg_edges lg"
    using assms(1) by (auto simp: resolve_graph_with_model_def Let_def split: Option.bind_splits prod.splits)
  note bus = append_bus_ok [OF lg2 append_dispatch_ok [OF lg1 resolve_run_ok [OF st assms(2)]]]
  note finish = finish_layer_ok [OF es conjunct1 [OF bus] refl]
  from dedup_ledger_ok [OF finish(1)] lg have dedup: "guesses_counted lg" "tally (lg_edges lg) = tally es"
    "cnt is_Ambiguous (lg_edges lg) = cnt is_Ambiguous es" "lg_by_kind lg = lg_by_kind lg2" "lg_ambiguous lg = lg_ambiguous lg2" by auto
  have "ek_bus_hop (lg_by_kind lg2) \<noteq> Some 0" using conjunct1 [OF bus] by (simp add: ledger_ok_def tally_def)
  then show ?thesis
    using finish(2, 3) dedup conjunct2 [OF bus] tiers_sum [of "lg_edges lg"]
    by (simp add: counts_match_def discovered_count_def sx guesses_counted_def)
qed

end
