(* ===== verification/RunFacts.thy ===== *)
theory RunFacts
  imports StatFacts "HOL-Library.Sublist"
begin

text \<open>The duplicates a run removes, and a small run carried out.\<close>

section \<open>A run\<close>

text \<open>One file with a class, an import and a call of the class's method.\<close>

definition import_ref :: frag_ref where
  "import_ref = (name_probe ''System'' [] [])\<lparr>fr_kind := ''imports'', fr_line := 1\<rparr>"

definition call_ref :: frag_ref where
  "call_ref = (name_probe ''Repo'' [] [])\<lparr>fr_kind := ''uses-member'', fr_member := Some ''Run'', fr_line := 4\<rparr>"

definition call_file :: "(string \<times> fragment) list" where
  "call_file = [(''a.cs'', (defs_and_usings [class_of (''Repo'', [], [])] [])\<lparr>fg_refs := [import_ref, call_ref]\<rparr>)]"

abbreviation "call_class \<equiv> classes_file [(''Repo'', [], [])]"

lemma call_index: "build_def_index call_file = build_def_index call_class"
  by (simp add: build_def_index_def fragment_parts_def call_file_def classes_file_def)

lemma call_context: "file_contexts None call_file ''a.cs'' = Some \<lparr>fc_usings = fu_default, fc_aliases = \<lambda>_. None\<rparr>"
  by (simp add: file_contexts_def Let_def attach_reach_def build_file_contexts_def call_file_def
      file_context_of_def context_seed_def seed_usings_def collect_global_usings_by_unit_def no_globals_def)

definition call_env :: env where
  "call_env = resolve_env 1 0 call_file None"

definition call_site :: "frag_ref \<Rightarrow> site" where
  "call_site r = \<lparr>si_file = ''a.cs'', si_unit = None, si_usings = fu_default, si_aliases = \<lambda>_. None, si_ref = r\<rparr>"

lemma call_env_index: "ev_index call_env = build_def_index call_class"
  by (simp add: call_env_def resolve_env_def Let_def call_index)

lemma call_names:
  "di_qualified (build_def_index call_class) ''Repo'' = Some 0" "di_qualified (build_def_index call_class) ''Repo+Run'' = None"
  by (simp_all add: classes_index(1) index_of_Some index_of_None)

lemma call_defs: "di_defs (build_def_index call_class) = [first_def ''a.cs'' (class_of (''Repo'', [], []))]"
  "d_id (first_def ''a.cs'' (class_of (''Repo'', [], []))) = ''Repo''"
  "d_kind (first_def ''a.cs'' (class_of (''Repo'', [], []))) = ''class''"
  "d_file (first_def ''a.cs'' (class_of (''Repo'', [], []))) = ''a.cs''"
  "d_methods (first_def ''a.cs'' (class_of (''Repo'', [], []))) = [''Run'']"
  by (simp_all add: classes_index(2) first_def_def class_of_def sample_def_def)

lemma call_resolves: "ev_rec call_env call_ref fu_default [] (\<lambda>_. None) = Some (Ref_Resolved 0 Via_Namespace)"
  using call_names(1)
  by (simp add: call_env_def resolve_env_def Let_def call_index resolve_type_ref.simps(2) [of 0] resolve_step_def resolve_bare_def bare_steps_def
      outer_chains_def ref_prefixes_def level_step_def under_def reaches_def fu_default_def type_candidate_def call_ref_def name_probe_def)

lemmas call_ref_fields = call_ref_def name_probe_def call_site_def si_ns_def

lemma call_site_resolves:
  "ev_rec call_env (si_ref (call_site call_ref)) (si_usings (call_site call_ref)) (si_ns (call_site call_ref))
     (si_aliases (call_site call_ref)) = Some (Ref_Resolved 0 Via_Namespace)"
  using call_resolves by (simp add: call_site_def si_ns_def) (simp add: call_ref_def name_probe_def or_empty_def)

lemma call_qualifier:
  "qualifier_step call_env (call_site call_ref) (Ref_Resolved 0 Via_Namespace) (start_walk lg)
     = Some (answer call_env (call_site call_ref) 0 (start_walk lg))"
proof -
  let ?s = "call_site call_ref"
  have field: "type_priority_field call_env ?s 0 Via_Namespace = Some None"
    by (simp add: type_priority_field_def bare_field_def bare_receiver_field_or_property_type_def call_ref_fields)
  have admits: "type_qualifier_arm_admits Via_Namespace ident (si_ref ?s)" for ident
    by (simp add: type_qualifier_arm_admits_def call_ref_fields)
  have target: "qualifier_target call_env ?s 0 Via_Namespace = Some (Some 0)"
    by (simp add: qualifier_target_def Let_def declares_here_for_ref_def and_opt_def declares_visible_def is_this_shaped_receiver_def
        declares_member_def call_admits_def call_arity_def call_env_index call_defs call_ref_fields)
  have "\<not> names_nested_type call_env ?s 0"
    by (simp add: names_nested_type_def type_candidate_def call_names call_env_index call_defs call_ref_fields)
  then have "qualifier_tier call_env ?s 0 Via_Namespace (start_walk lg) = Some (answer call_env ?s 0 (start_walk lg))"
    using admits by (simp add: qualifier_tier_def Let_def field target call_env_index call_defs start_walk_def)
  then show ?thesis by (simp add: qualifier_step_def call_ref_fields)
qed

lemma call_answered:
  "member_reference call_env (call_site call_ref) (lg, cache) = Some (push_precise call_env (call_site call_ref) 0 lg, cache)"
proof -
  let ?s = "call_site call_ref" and ?w = "answer call_env (call_site call_ref) 0 (start_walk lg)"
  have name: "receiver_name call_env ?s ?w = Some ?w"
    by (simp add: receiver_name_def Let_def bare_field_def bare_receiver_field_or_property_type_def call_ref_fields answer_def start_walk_def)
  have rest: "typed_receiver_step call_env ?s ?w = Some ?w" "chain_tail_guard ?s ?w = ?w" "property_hop_tier call_env ?s ?w = Some ?w"
    "extension_tier call_env ?s ?w = Some ?w" "scored_tier call_env ?s res (?w, cache) = Some (?w, cache)" for res
    by (simp_all add: typed_receiver_step_def chain_tail_guard_def property_hop_tier_def extension_tier_def scored_tier_def)
  show ?thesis
    by (simp add: member_reference_def call_site_resolves narrow_tracked_def narrow_by_reachability_def call_qualifier name rest)
      (simp add: answer_def start_walk_def)
qed

theorem member_reference_answers_witness:
  "pushes call_env (call_site call_ref) (Ref_Resolved 0 Via_Namespace) empty_ledger
     (push_precise call_env (call_site call_ref) 0 empty_ledger)"
  using member_reference_answers [OF call_answered [of empty_ledger "\<lambda>_. None"] call_site_resolves]
  by (simp add: narrow_tracked_def narrow_by_reachability_def)

lemma call_step:
  "reference_step (None :: nat semantic_layer option) call_env (call_site import_ref) st
     = Some (st\<lparr>rn_ledger := imports_reference (call_site import_ref) (rn_ledger st)\<rparr>)"
  "reference_step (None :: nat semantic_layer option) call_env (call_site call_ref) st
     = Some (st\<lparr>rn_ledger := push_precise call_env (call_site call_ref) 0 (rn_ledger st)\<rparr>)"
proof -
  have kinds: "fr_kind import_ref = ''imports''" "fr_kind call_ref = ''uses-member''" "fr_member call_ref = Some ''Run''"
    by (simp_all add: import_ref_def call_ref_def)
  show "reference_step (None :: nat semantic_layer option) call_env (call_site import_ref) st
     = Some (st\<lparr>rn_ledger := imports_reference (call_site import_ref) (rn_ledger st)\<rparr>)"
    by (simp add: reference_step_def call_site_def kinds)
  show "reference_step (None :: nat semantic_layer option) call_env (call_site call_ref) st
     = Some (st\<lparr>rn_ledger := push_precise call_env (call_site call_ref) 0 (rn_ledger st)\<rparr>)"
    using call_answered [of "rn_ledger st" "rn_cache st"]
    by (simp add: reference_step_def Let_def kinds track_reference_def apply_layer_def) (simp add: call_site_def kinds)
qed

lemma call_units: "owner_unit (units_of_files None call_file) ''a.cs'' = None"
  by (simp add: owner_unit_def units_of_files_def call_file_def)

definition call_ledger :: ledger where
  "call_ledger = push_precise call_env (call_site call_ref) 0 (imports_reference (call_site import_ref) empty_ledger)"

lemma call_run: "resolve_run 1 0 call_file None (None :: nat semantic_layer option) = Some (start_run\<lparr>rn_ledger := call_ledger\<rparr>)"
proof -
  have contexts: "ev_contexts call_env ''a.cs'' = Some \<lparr>fc_usings = fu_default, fc_aliases = \<lambda>_. None\<rparr>"
    by (simp add: call_env_def resolve_env_def Let_def call_context del: One_nat_def)
  have refs: "call_file = [(''a.cs'', frag)] \<Longrightarrow> fg_refs frag = [import_ref, call_ref]" for frag
    by (auto simp: call_file_def)
  obtain frag where frag: "call_file = [(''a.cs'', frag)]" by (simp add: call_file_def)
  have "file_step (None :: nat semantic_layer option) call_env (units_of_files None call_file) (''a.cs'', frag) start_run
      = Some (start_run\<lparr>rn_ledger := call_ledger\<rparr>)"
    by (simp add: call_step file_step_def contexts refs [OF frag] call_units call_site_def [symmetric] call_ledger_def start_run_def)
  moreover have "xs = [x] \<Longrightarrow> f x st = Some st' \<Longrightarrow> fold_opt f xs st = Some st'" for f xs and x :: "string \<times> fragment" and st st' :: run_state
    by simp
  ultimately show ?thesis unfolding resolve_run_def call_env_def [symmetric] using frag by blast
qed


lemma call_graph:
  "\<exists>sx g. resolve_graph_with_model 1 0 None 0 call_file None (None :: nat semantic_layer option) = Some (sx, g)
     \<and> g_edges g = lg_edges call_ledger"
proof -
  have dispatch: "append_dispatch_edges rec index contexts call_file lg = Some lg" for rec index contexts lg
    by (simp add: append_dispatch_edges_def resolve_registrations_def call_file_def resolve_member_dispatch_def
        defs_and_usings_def)
  have bus: "append_bus_edges rec index contexts call_file lg = Some (lg, None)" for rec index contexts lg
    by (simp add: append_bus_edges_def call_file_def defs_and_usings_def)
  have "dedup_ledger (call_ledger\<lparr>lg_edges := lg_edges call_ledger\<rparr>) = Some call_ledger"
    by (simp add: dedup_ledger_def call_ledger_def push_precise_def imports_reference_def count_kind_def push_edge_def empty_ledger_def
        member_edge_def Let_def uses_member_def)
  then show ?thesis
    by (simp add: resolve_graph_with_model_def Let_def call_run [unfolded One_nat_def] dispatch bus finish_layer_def)
qed

theorem stats_count_edges_witness:
  "\<exists>sx g. resolve_graph_with_model 1 0 None 0 call_file None (None :: nat semantic_layer option) = Some (sx, g)
     \<and> counts_match sx (g_edges g) \<and> length (g_edges g) = 2"
proof -
  have known: "known_kinds call_file"
    by (simp add: known_kinds_def call_file_def known_kind_def import_ref_def call_ref_def)
  have two: "length (lg_edges call_ledger) = 2"
    by (simp add: call_ledger_def push_precise_def imports_reference_def count_kind_def push_edge_def empty_ledger_def)
  obtain sx g where run: "resolve_graph_with_model 1 0 None 0 call_file None (None :: nat semantic_layer option) = Some (sx, g)"
    "g_edges g = lg_edges call_ledger"
    using call_graph by blast
  with stats_count_edges [OF run(1) known] two show ?thesis by auto
qed

section \<open>Duplicates\<close>

lemma dedup_by_key:
  assumes "dedup_guesses seen es lg = Some (kept, lg')"
  shows "subseq kept es" "filter (\<lambda>e. \<not> is_heuristic e) kept = filter (\<lambda>e. \<not> is_heuristic e) es"
    and "distinct (map heuristic_edge_key (filter is_heuristic kept))"
    and "heuristic_edge_key ` {e \<in> set kept. is_heuristic e} = heuristic_edge_key ` {e \<in> set es. is_heuristic e} - Some ` seen"
proof -
  have "subseq kept es \<and> filter (\<lambda>e. \<not> is_heuristic e) kept = filter (\<lambda>e. \<not> is_heuristic e) es
    \<and> distinct (map heuristic_edge_key (filter is_heuristic kept))
    \<and> heuristic_edge_key ` {e \<in> set kept. is_heuristic e} = heuristic_edge_key ` {e \<in> set es. is_heuristic e} - Some ` seen"
    using assms
  proof (induction es arbitrary: seen lg kept)
    case (Cons e es)
    show ?case
    proof (cases "heuristic_edge_key e")
      case None
      then have e: "\<not> is_heuristic e" using key_iff_heuristic [of e] by simp
      from None Cons.prems obtain kept1 where kept: "kept = e # kept1" "dedup_guesses seen es lg = Some (kept1, lg')" by auto
      have "{x \<in> set (e # xs). is_heuristic x} = {x \<in> set xs. is_heuristic x}" for xs using e by auto
      with Cons.IH [OF kept(2)] e kept(1) show ?thesis by simp
    next
      case (Some key)
      then have e: "is_heuristic e" using key_iff_heuristic [of e] by auto
      have split_e: "{x \<in> set (e # xs). is_heuristic x} = insert e {x \<in> set xs. is_heuristic x}" for xs using e by auto
      show ?thesis
      proof (cases "key \<in> seen")
        case True
        with Some Cons.prems obtain lg1 where "dedup_guesses seen es lg1 = Some (kept, lg')" by (auto split: Option.bind_splits)
        from Cons.IH [OF this] e True Some show ?thesis unfolding split_e by auto
      next
        case False
        with Some Cons.prems obtain kept1 where kept: "kept = e # kept1" "dedup_guesses (insert key seen) es lg = Some (kept1, lg')" by auto
        have keys: "heuristic_edge_key ` {x \<in> set kept1. is_heuristic x}
            = heuristic_edge_key ` {x \<in> set es. is_heuristic x} - Some ` insert key seen"
          using Cons.IH [OF kept(2)] by blast
        then have "Some key \<notin> heuristic_edge_key ` {x \<in> set kept1. is_heuristic x}" by blast
        then have "heuristic_edge_key e \<notin> set (map heuristic_edge_key (filter is_heuristic kept1))" by (simp add: Some)
        moreover have "heuristic_edge_key ` {x \<in> set kept. is_heuristic x} = heuristic_edge_key ` {x \<in> set (e # es). is_heuristic x} - Some ` seen"
          unfolding kept(1) split_e using keys Some False by auto
        ultimately show ?thesis using Cons.IH [OF kept(2)] e kept(1) by simp
      qed
    qed
  qed simp
  then show "subseq kept es" "filter (\<lambda>e. \<not> is_heuristic e) kept = filter (\<lambda>e. \<not> is_heuristic e) es"
    "distinct (map heuristic_edge_key (filter is_heuristic kept))"
    "heuristic_edge_key ` {e \<in> set kept. is_heuristic e} = heuristic_edge_key ` {e \<in> set es. is_heuristic e} - Some ` seen"
    by blast+
qed

text \<open>
  Removing the duplicate guesses leaves the edges in order and loses none: every edge is still
  there, what is not a guess as often as before, and no guess twice, when the paths, identifiers and
  member names of the guesses have no space, which the keys join them with.
\<close>

theorem duplicate_guesses_removed:
  assumes "dedup_ledger lg = Some lg'" "\<forall>e \<in> set (lg_edges lg). is_heuristic e \<longrightarrow> plain_guess e"
  shows "subseq (lg_edges lg') (lg_edges lg) \<and> set (lg_edges lg') = set (lg_edges lg)
    \<and> filter (\<lambda>e. \<not> is_heuristic e) (lg_edges lg') = filter (\<lambda>e. \<not> is_heuristic e) (lg_edges lg)
    \<and> distinct (filter is_heuristic (lg_edges lg'))"
proof -
  let ?es = "lg_edges lg" and ?kept = "lg_edges lg'"
  obtain lg1 where dedup: "dedup_guesses {} ?es lg = Some (?kept, lg1)"
    using assms(1) by (auto simp: dedup_ledger_def)
  note facts = dedup_by_key [OF dedup]
  have part: "set ?kept \<subseteq> set ?es" using facts(1) by (auto dest: list_emb_set)
  have "{e \<in> set ?es. is_heuristic e} \<subseteq> set ?kept"
  proof
    fix e assume e: "e \<in> {e \<in> set ?es. is_heuristic e}"
    then have "heuristic_edge_key e \<in> heuristic_edge_key ` {e \<in> set ?kept. is_heuristic e}" unfolding facts(4) by blast
    then obtain e' where e': "e' \<in> set ?kept" "is_heuristic e'" "heuristic_edge_key e = heuristic_edge_key e'" by blast
    with e part assms(2) guess_key_inject [of e e'] show "e \<in> set ?kept" by auto
  qed
  moreover have "{e \<in> set ?es. \<not> is_heuristic e} \<subseteq> set ?kept" using arg_cong [OF facts(2), of set] by auto
  ultimately have "set ?kept = set ?es" using part by blast
  with facts(1-3) show ?thesis by (auto simp: distinct_map)
qed

definition twice_guessed :: ledger where
  "twice_guessed =
     (let g = Uses_Member ''a.cs'' 3 ''Repo'' ''b.cs'' True (Some Tier_Guess) (Some ''Run'') None None
      in empty_ledger\<lparr>lg_edges := [g, Imports ''a.cs'' 1 ''System'', g], lg_heuristic := 2,
           lg_by_tier := \<lparr>bt_ext = 0, bt_guess = 2\<rparr>\<rparr>)"

theorem duplicate_guesses_removed_witness:
  "\<exists>lg'. dedup_ledger twice_guessed = Some lg' \<and> distinct (filter is_heuristic (lg_edges lg'))
     \<and> \<not> distinct (filter is_heuristic (lg_edges twice_guessed))"
proof -
  have plain: "\<forall>e \<in> set (lg_edges twice_guessed). is_heuristic e \<longrightarrow> plain_guess e"
    by (simp add: twice_guessed_def Let_def unspaced_def plain_member_def)
  have "guesses_counted twice_guessed"
    by (simp add: guesses_counted_def guesses_tiered_def twice_guessed_def Let_def)
  from dedup_ledger_ok [OF this] obtain lg' where run: "dedup_ledger twice_guessed = Some lg'" by blast
  moreover have "\<not> distinct (filter is_heuristic (lg_edges twice_guessed))" by (simp add: twice_guessed_def Let_def)
  ultimately show ?thesis using duplicate_guesses_removed [OF run plain] by blast
qed

end
