(* ===== verification/LayerFacts.thy ===== *)
theory LayerFacts
  imports RunFacts
begin

text \<open>What the compiler's facts may change in a run.\<close>

section \<open>The sites of an artifact\<close>

definition site_of :: "'j raw_occurrence \<Rightarrow> site_key option" where
  "site_of occ = map_option (\<lambda>m. (oc_file occ, oc_name_line occ, m)) (oc_target_member occ)"

lemma site_rows:
  "map_of (fold (\<lambda>(i, occ) m.
        (case oc_target_member occ of
           None \<Rightarrow> m
         | Some member \<Rightarrow> AList.map_default (oc_file occ, oc_name_line occ, member) [i] (\<lambda>is. is @ [i]) m))
        (enumerate 0 occs) []) key
   = (let rows = filter (\<lambda>i. site_of (occs ! i) = Some key) [0..<length occs] in if rows = [] then None else Some rows)"
proof (induction occs rule: rev_induct)
  case (snoc occ occs)
  have rows: "filter (\<lambda>i. site_of ((occs @ [occ]) ! i) = Some key) [0..<length (occs @ [occ])]
      = filter (\<lambda>i. site_of (occs ! i) = Some key) [0..<length occs] @ (if site_of occ = Some key then [length occs] else [])"
    by (auto simp: nth_append intro: filter_cong)
  show ?case
  proof (cases "oc_target_member occ")
    case None
    then have "site_of occ = None" by (simp add: site_of_def)
    with None snoc.IH show ?thesis unfolding rows by (simp add: enumerate_append_eq)
  next
    case (Some m)
    then have "site_of occ = Some (oc_file occ, oc_name_line occ, m)" by (simp add: site_of_def)
    with Some snoc.IH show ?thesis unfolding rows
      by (auto simp: enumerate_append_eq map_of_map_default Let_def split: if_splits)
  qed
qed simp

text \<open>
  A confirmed fact of the site whose type is a definition, from a compilation the artifact records as complete,
  or from one it has no record of: a compilation that is recorded with any other state confirms nothing.
\<close>

definition trusted_compilation :: "'j semantic_layer \<Rightarrow> 'j \<Rightarrow> bool" where
  "trusted_compilation layer identity \<longleftrightarrow>
     (case compilation_state layer identity of Some (state, _) \<Rightarrow> state = ''complete'' | None \<Rightarrow> True)"

definition confirmed_by :: "'j semantic_layer \<Rightarrow> def_index \<Rightarrow> site_key \<Rightarrow> semantic_target \<Rightarrow> bool" where
  "confirmed_by layer index key t \<longleftrightarrow>
     sl_freshness layer = Fresh
     \<and> (\<exists>occ \<in> set (sl_occurrences layer). \<exists>type_id idx.
          site_of occ = Some key \<and> oc_resolution occ = ''confirmed''
          \<and> trusted_compilation layer (oc_compilation_identity occ)
          \<and> oc_target_type occ = Some type_id \<and> translate_type_id type_id index = Some idx
          \<and> t = resolve_target idx (snd (snd key)) (oc_target_overload_signature occ) index)"

lemma from_resolution_confirmed: "from_resolution r = Confirmed \<longleftrightarrow> r = ''confirmed''"
  by (simp add: from_resolution_def)

lemma from_state_confirmed: "from_compilation_state st reason \<noteq> Some Confirmed"
  by (simp add: from_compilation_state_def)

lemma occurrence_confirmed:
  assumes "occurrence_fact layer index member i = Inl t" "i < length (sl_occurrences layer)"
    and "site_of (sl_occurrences layer ! i) = Some (f, line, member)" "sl_freshness layer = Fresh"
  shows "confirmed_by layer index (f, line, member) t"
proof -
  let ?occ = "sl_occurrences layer ! i"
  let ?state = "compilation_state layer (oc_compilation_identity ?occ)"
  let ?trust = "case ?state of Some (cstate, creason) \<Rightarrow>
      or_default (from_resolution (oc_resolution ?occ)) (from_compilation_state cstate creason)
    | None \<Rightarrow> from_resolution (oc_resolution ?occ)"
  have trust: "is_confirmed ?trust" using assms(1) by (auto simp: occurrence_fact_def Let_def split: if_splits)
  have complete: "from_resolution (oc_resolution ?occ) = Confirmed \<and> (\<forall>st reason. ?state = Some (st, reason) \<longrightarrow> st = ''complete'')"
  proof (cases ?state)
    case None
    with trust show ?thesis by (simp add: is_confirmed_def)
  next
    case (Some sr)
    obtain st reason where sr: "sr = (st, reason)" by fastforce
    with trust Some have "or_default (from_resolution (oc_resolution ?occ)) (from_compilation_state st reason) = Confirmed"
      by (simp add: is_confirmed_def)
    with from_state_confirmed [of st reason] have "from_compilation_state st reason = None"
      "from_resolution (oc_resolution ?occ) = Confirmed"
      by (cases "from_compilation_state st reason"; simp)+
    with Some sr show ?thesis by (simp add: from_compilation_state_def split: if_splits)
  qed
  from assms(1) trust obtain type_id idx where "oc_target_type ?occ = Some type_id" "translate_type_id type_id index = Some idx"
    "t = resolve_target idx member (oc_target_overload_signature ?occ) index"
    by (auto simp: occurrence_fact_def Let_def split: if_splits option.splits Option.bind_splits)
  moreover have "trusted_compilation layer (oc_compilation_identity ?occ)"
    using complete by (auto simp: trusted_compilation_def split: option.split)
  ultimately show ?thesis
    using complete assms(2-4) nth_mem [OF assms(2)] unfolding confirmed_by_def from_resolution_confirmed by fastforce
qed

definition loaded :: "'j semantic_layer \<Rightarrow> bool" where
  "loaded layer \<longleftrightarrow> (\<exists>dirty head digest sha was_dirty compilations occurrences.
     layer = load_layer dirty head digest sha was_dirty compilations occurrences)"

lemma loaded_rows:
  assumes "loaded layer" "map_of (sl_by_site layer) key = Some rows"
  shows "\<forall>i \<in> set rows. i < length (sl_occurrences layer) \<and> site_of (sl_occurrences layer ! i) = Some key"
  using assms by (auto simp: loaded_def load_layer_def site_rows Let_def split: if_splits)

lemma map_filter_mem: "x \<in> set (List.map_filter f xs) \<longleftrightarrow> (\<exists>y \<in> set xs. f y = Some x)"
  by (induction xs) (auto simp: map_filter_simps split: option.splits)

lemma left_answer: "(case x of Inl t \<Rightarrow> Some t | Inr _ \<Rightarrow> None) = Some t \<longleftrightarrow> x = Inl t"
  by (cases x) auto

definition outcome_targets :: "lookup_outcome \<Rightarrow> semantic_target list" where
  "outcome_targets outcome = (case outcome of Confirmed_One t \<Rightarrow> [t] | Confirmed_Many ts \<Rightarrow> ts | _ \<Rightarrow> [])"

lemma lookup_confirmed:
  assumes "loaded layer" "t \<in> set (outcome_targets (layer_lookup layer index f line member argc))"
  shows "confirmed_by layer index (f, line, member) t"
proof -
  from assms(2) have fresh: "sl_freshness layer = Fresh"
    by (auto simp: layer_lookup_def outcome_targets_def stale_reason_def split: freshness.splits)
  from assms(2) fresh obtain rows where rows: "map_of (sl_by_site layer) (f, line, member) = Some rows"
    by (auto simp: layer_lookup_def outcome_targets_def stale_reason_def split: option.splits)
  let ?facts = "map (occurrence_fact layer index member) (narrowed_indices layer argc rows)"
  let ?targets = "remdups_adj (List.map_filter (\<lambda>x. case x of Inl t \<Rightarrow> Some t | Inr _ \<Rightarrow> None) ?facts)"
  have "set (outcome_targets (layer_lookup layer index f line member argc)) \<subseteq> set ?targets"
    using fresh rows by (auto simp: layer_lookup_def Let_def outcome_targets_def stale_reason_def simp del: remdups_adj_set split: list.splits)
  from subsetD [OF this assms(2)] obtain i where i: "i \<in> set (narrowed_indices layer argc rows)" "occurrence_fact layer index member i = Inl t"
    by (auto simp: map_filter_mem left_answer)
  then have "i \<in> set rows" by (auto simp: narrowed_indices_def Let_def split: if_splits option.splits)
  with loaded_rows [OF assms(1) rows] occurrence_confirmed [OF i(2)] fresh show ?thesis by blast
qed

lemma drop_heuristic_edges: "drop_heuristic tier lg = Some lg' \<Longrightarrow> lg_edges lg' = lg_edges lg"
  by (auto simp: drop_heuristic_def split: Option.bind_splits)

lemma drop_pushed_edges: "drop_pushed es n lg = Some (m, lg') \<Longrightarrow> lg_edges lg' = lg_edges lg"
proof (induction es arbitrary: n lg)
  case (Cons e es)
  show ?case
  proof (cases e)
    case (Uses_Member f l t tf h tier mem src sig)
    show ?thesis
    proof (cases tier)
      case None
      with Cons Uses_Member show ?thesis by simp
    next
      case (Some tr)
      with Cons.prems Uses_Member obtain lg1 where "drop_heuristic (Some tr) lg = Some lg1" "drop_pushed es n lg1 = Some (m, lg')"
        by (auto split: Option.bind_splits)
      with Cons.IH drop_heuristic_edges show ?thesis by fastforce
    qed
  qed (use Cons in simp_all)
qed simp

text \<open>
  C14. Compiler facts change a graph only where the artifact is fresh and a confirmed occurrence of the
  same file, line and member names a type with a definition: each discovered edge is such a fact of a
  site no reference covers, and a reference's own edges are either left alone or replaced by one such
  edge. An occurrence whose compilation the artifact records as partial, failed, unsupported or anything
  but complete confirms nothing; one whose compilation has no record is trusted like one of a complete
  compilation (\<open>unrecorded_compilation_confirms\<close>).
\<close>

theorem compiler_edges_confirmed:
  assumes "loaded layer"
  shows "(\<forall>e \<in> set (discovered_edges layer index sites).
        \<exists>key t. key \<notin> sites \<and> e = discovered_edge key t \<and> confirmed_by layer index key t)
    \<and> (apply_layer (Some layer) index pre f r (lg, diag) = Some (lg', diag') \<longrightarrow>
       lg' = lg \<or> (\<exists>member t. fr_member r = Some member \<and> confirmed_by layer index (f, fr_line r, member) t
         \<and> lg_edges lg' = take pre (lg_edges lg) @ [uses_member_semantic f (fr_line r) (st_to_def_id t) (st_to_file t)
             (Some member) Semantic (st_overload_signature t)]))"
proof (intro conjI impI ballI)
  fix e assume "e \<in> set (discovered_edges layer index sites)"
  then obtain key t where key: "key \<notin> sites" "e = discovered_edge key t" "t \<in> set (discovered_targets layer index key)"
    by (auto simp: discovered_edges_def split: if_splits)
  obtain f line member where k: "key = (f, line, member)" by (cases key)
  from key(3) have "t \<in> set (outcome_targets (layer_lookup layer index f line member None))"
    by (auto simp: k discovered_targets_def outcome_targets_def split: lookup_outcome.splits if_splits)
  from lookup_confirmed [OF assms this] key(1, 2) k show
    "\<exists>key t. key \<notin> sites \<and> e = discovered_edge key t \<and> confirmed_by layer index key t" by blast
next
  assume applied: "apply_layer (Some layer) index pre f r (lg, diag) = Some (lg', diag')"
  show "lg' = lg \<or> (\<exists>member t. fr_member r = Some member \<and> confirmed_by layer index (f, fr_line r, member) t
         \<and> lg_edges lg' = take pre (lg_edges lg) @ [uses_member_semantic f (fr_line r) (st_to_def_id t) (st_to_file t)
             (Some member) Semantic (st_overload_signature t)])"
  proof (cases "lg' = lg")
    case False
    with applied obtain member ovr where known: "fr_member r = Some member"
      "decide (layer_lookup layer index f (fr_line r) member (fr_arg_count r)) (drop pre (lg_edges lg)) = Some ovr"
      by (auto simp: apply_layer_def split: option.splits)
    then have "so_target ovr \<in> set (outcome_targets (layer_lookup layer index f (fr_line r) member (fr_arg_count r)))"
      by (auto simp: decide_def outcome_targets_def split: lookup_outcome.splits)
    moreover have "lg_edges lg' = take pre (lg_edges lg) @ [uses_member_semantic f (fr_line r) (st_to_def_id (so_target ovr))
        (st_to_file (so_target ovr)) (Some member) Semantic (st_overload_signature (so_target ovr))]"
      using applied known drop_pushed_edges by (fastforce simp: apply_layer_def split: Option.bind_splits)
    ultimately show ?thesis using lookup_confirmed [OF assms] known(1) by blast
  qed simp
qed

section \<open>A stale artifact\<close>

definition forget :: "run_state \<Rightarrow> run_state" where
  "forget st = st\<lparr>rn_sites := {}\<rparr>"

lemma stale_lookup:
  "stale_reason (sl_freshness layer) = Some reason \<Longrightarrow> layer_lookup layer index f line member argc = Other_Fact (Stale reason)"
  by (simp add: layer_lookup_def)

lemma stale_apply: "stale_reason (sl_freshness layer) = Some reason \<Longrightarrow> apply_layer (Some layer) index pre f r st = Some st"
  by (simp add: apply_layer_def stale_lookup decide_def split: option.splits)

lemma stale_discovered: "stale_reason (sl_freshness layer) = Some reason \<Longrightarrow> discovered_edges layer index sites = []"
  by (auto simp: discovered_edges_def discovered_targets_def stale_lookup split: prod.splits)

lemma fold_opt_map:
  "(\<And>x s. map_option h (f x s) = g x (h s)) \<Longrightarrow> map_option h (fold_opt f xs s) = fold_opt g xs (h s)"
proof (induction xs arbitrary: s)
  case (Cons x xs)
  from Cons.prems [of x s] Cons.IH [OF Cons.prems] show ?case by (cases "f x s") (auto simp flip: Cons.prems)
qed simp

lemma no_layer_step: "track_reference None sites f r = sites" "apply_layer None index pre f r st = Some st"
  by (simp_all add: track_reference_def apply_layer_def)

lemma sites_last: "st\<lparr>rn_sites := {}, rn_ledger := z\<rparr> = st\<lparr>rn_ledger := z, rn_sites := {}\<rparr>"
  by simp

lemma stale_step:
  fixes layer :: "'j semantic_layer"
  assumes "stale_reason (sl_freshness layer) = Some reason"
  shows "map_option forget (reference_step (Some layer) ev s st) = reference_step (None :: 'j semantic_layer option) ev s (forget st)"
  by (simp add: reference_step_def forget_def Let_def stale_apply [OF assms] no_layer_step option.map_comp comp_def map_option_bind
      case_prod_unfold sites_last)

lemma stale_run:
  fixes layer :: "'j semantic_layer"
  assumes "stale_reason (sl_freshness layer) = Some reason"
  shows "map_option forget (resolve_run n fuel fs model (Some layer)) = resolve_run n fuel fs model (None :: 'j semantic_layer option)"
proof -
  let ?ev = "resolve_env n fuel fs model" and ?units = "units_of_files model fs"
  have "map_option forget (file_step (Some layer) ?ev ?units entry st)
      = file_step (None :: 'j semantic_layer option) ?ev ?units entry (forget st)" for entry st
    by (cases entry) (auto simp: file_step_def split: option.splits intro!: fold_opt_map stale_step [OF assms])
  moreover have "forget start_run = start_run" by (simp add: forget_def start_run_def)
  ultimately show ?thesis unfolding resolve_run_def by (simp add: fold_opt_map)
qed

lemma no_layer_diag:
  "resolve_run n fuel fs model (None :: 'j semantic_layer option) = Some st \<Longrightarrow> rn_diag st = \<lparr>sd_confirmed = 0, sd_disagreements = 0\<rparr>"
proof -
  let ?I = "\<lambda>st. rn_diag st = \<lparr>sd_confirmed = 0, sd_disagreements = 0\<rparr>"
  have step: "reference_step (None :: 'j semantic_layer option) ev s st = Some st' \<Longrightarrow> ?I st \<Longrightarrow> ?I st'" for ev s st st'
    by (auto simp: reference_step_def Let_def no_layer_step split: if_splits Option.bind_splits)
  have files: "file_step (None :: 'j semantic_layer option) ev units entry st = Some st' \<Longrightarrow> ?I st \<Longrightarrow> ?I st'" for ev units entry st st'
    by (cases entry) (auto simp: file_step_def split: option.splits elim!: fold_opt_keeps [where I = ?I, rotated] dest: step)
  assume run: "resolve_run n fuel fs model (None :: 'j semantic_layer option) = Some st"
  show ?thesis
    by (rule fold_opt_keeps [where I = ?I, OF _ run [unfolded resolve_run_def]]) (auto simp: start_run_def dest: files)
qed

text \<open>
  An artifact that is stale changes nothing: the run with it gives the graph and the statistics of
  the run without, with zeros for what the artifact contributed.
\<close>

theorem stale_layer_changes_nothing:
  fixes layer :: "'j semantic_layer"
  assumes "sl_freshness layer = Stale_Because reason"
  shows "resolve_graph_with_model n fuel head ts_files fs model (Some layer) =
    map_option (\<lambda>(sx, g). (sx\<lparr>sx_semantic := Some \<lparr>ss_confirmed = 0, ss_disagreements = 0, ss_discovered = 0\<rparr>\<rparr>, g))
      (resolve_graph_with_model n fuel head ts_files fs model (None :: 'j semantic_layer option))"
proof -
  have stale: "stale_reason (sl_freshness layer) = Some reason" using assms by (simp add: stale_reason_def)
  note run = stale_run [OF stale, of n fuel fs model]
  show ?thesis
  proof (cases "resolve_run n fuel fs model (Some layer)")
    case None
    with run show ?thesis by (simp add: resolve_graph_with_model_def Let_def)
  next
    case (Some st)
    with run have plain: "resolve_run n fuel fs model (None :: 'j semantic_layer option) = Some (forget st)" by simp
    have diag: "rn_diag st = \<lparr>sd_confirmed = 0, sd_disagreements = 0\<rparr>" using no_layer_diag [OF plain] by (simp add: forget_def)
    show ?thesis
      by (simp add: resolve_graph_with_model_def Let_def Some plain forget_def finish_layer_def project_discovered_def
          stale_discovered [OF stale] diag map_option_bind case_prod_unfold option.map_comp comp_def)
  qed
qed

section \<open>One file in two compilations\<close>

text \<open>Two overloads of \<open>Run\<close> called on one line, in a file that two compilations contain.\<close>

definition run_fact :: "nat \<Rightarrow> string \<Rightarrow> nat raw_occurrence" where
  "run_fact compilation signature =
     \<lparr>oc_file = ''a.cs'', oc_name_line = 4, oc_resolution = ''confirmed'', oc_target_type = Some ''Repo'',
      oc_target_member = Some ''Run'', oc_compilation_identity = compilation, oc_target_overload_signature = Some signature\<rparr>"

definition complete_compilation :: "nat \<Rightarrow> nat raw_compilation" where
  "complete_compilation c = \<lparr>cm_identity = c, cm_state = ''complete'', cm_reason = [], cm_imports = []\<rparr>"

definition run_layer :: "bool \<Rightarrow> nat list \<Rightarrow> nat semantic_layer" where
  "run_layer dirty compilations =
     load_layer dirty (Some ''head'') (\<lambda>_. None) (Some ''head'') False (map complete_compilation compilations)
       (concat (map (\<lambda>c. [run_fact c ''()->void'', run_fact c ''(int)->void'']) compilations))"

definition run_target :: "string \<Rightarrow> semantic_target" where
  "run_target signature = \<lparr>st_to_def_id = ''Repo'', st_to_file = ''a.cs'', st_overload_signature = Some signature\<rparr>"

lemma run_layer_loaded: "loaded (run_layer dirty cs)"
  unfolding loaded_def run_layer_def by blast

lemma repo_translated: "translate_type_id ''Repo'' (build_def_index call_class) = Some 0"
proof -
  have "split_qualified_type ''Repo'' = [''Repo'']" by code_simp
  moreover have "str_join ''.'' [''Repo''] = ''Repo''" by simp
  ultimately show ?thesis by (simp add: translate_type_id_def call_names)
qed

lemma run_occurrence:
  assumes "c \<in> set cs" "i < length (sl_occurrences (run_layer False cs))"
    and "sl_occurrences (run_layer False cs) ! i = run_fact c signature"
  shows "occurrence_fact (run_layer False cs) (build_def_index call_class) ''Run'' i = Inl (run_target signature)"
proof -
  have "List.find (\<lambda>k. cm_identity k = c) (map complete_compilation cs) = Some (complete_compilation c)"
    using assms(1) by (induction cs) (auto simp: complete_compilation_def)
  then have "compilation_state (run_layer False cs) c = Some (''complete'', [])"
    by (simp add: compilation_state_def run_layer_def load_layer_def complete_compilation_def)
  then show ?thesis
    using assms(3) repo_translated
    by (simp add: occurrence_fact_def Let_def run_fact_def from_compilation_state_def from_resolution_def is_confirmed_def
        resolve_target_def run_target_def call_defs)
qed

lemma signature_arity: "overload_arg_count ''()->void'' = Some 0" "overload_arg_count ''(int)->void'' = Some 1"
  by code_simp+

lemma run_layer_fresh: "sl_freshness (run_layer False cs) = Fresh"
proof -
  have no_imports: "concat (map (cm_imports \<circ> complete_compilation) cs) = []"
    by (simp add: complete_compilation_def)
  show ?thesis by (simp add: run_layer_def load_layer_def evaluate_def no_imports)
qed

lemma one_compilation:
  "sl_occurrences (run_layer False [0]) = [run_fact 0 ''()->void'', run_fact 0 ''(int)->void'']"
  "sl_by_site (run_layer False [0]) = [((''a.cs'', 4, ''Run''), [0, 1])]"
  by (simp_all add: run_layer_def load_layer_def) (simp add: run_fact_def)

lemma one_compilation_facts:
  "occurrence_fact (run_layer False [0]) (build_def_index call_class) ''Run'' 0 = Inl (run_target ''()->void'')"
  "occurrence_fact (run_layer False [0]) (build_def_index call_class) ''Run'' 1 = Inl (run_target ''(int)->void'')"
  by (rule run_occurrence [of 0]; simp add: one_compilation)+

lemma run_fact_signature: "oc_target_overload_signature (run_fact c signature) = Some signature"
  by (simp add: run_fact_def)

text \<open>
  Facts of one site are only compared with their neighbours: when a file belongs to two
  compilations, a call that the facts of the first compilation alone answer with the overload of its
  argument count has no answer with both, and each overload is listed twice.
\<close>

theorem second_compilation_hides_answer:
  "layer_lookup (run_layer False [0]) (build_def_index call_class) ''a.cs'' 4 ''Run'' (Some 0) = Confirmed_One (run_target ''()->void'')
   \<and> layer_lookup (run_layer False [0, 1]) (build_def_index call_class) ''a.cs'' 4 ''Run'' (Some 0)
     = Confirmed_Many [run_target ''()->void'', run_target ''(int)->void'', run_target ''()->void'', run_target ''(int)->void'']"
proof -
  let ?index = "build_def_index call_class"
  have two: "sl_occurrences (run_layer False [0, 1]) =
      [run_fact 0 ''()->void'', run_fact 0 ''(int)->void'', run_fact 1 ''()->void'', run_fact 1 ''(int)->void'']"
    "map_of (sl_by_site (run_layer False [0, 1])) (''a.cs'', 4, ''Run'') = Some [0, 1, 2, 3]"
    by (simp_all add: run_layer_def load_layer_def) (simp add: run_fact_def)
  note fresh = run_layer_fresh and signature = run_fact_signature
  have first: "layer_lookup (run_layer False [0]) ?index ''a.cs'' 4 ''Run'' (Some 0) = Confirmed_One (run_target ''()->void'')"
    by (simp add: one_compilation_facts(1) layer_lookup_def fresh stale_reason_def one_compilation narrowed_indices_def signature signature_arity map_filter_simps)
  have fact0: "occurrence_fact (run_layer False [0, 1]) ?index ''Run'' 0 = Inl (run_target ''()->void'')"
    by (rule run_occurrence [of 0]) (simp_all add: two [unfolded One_nat_def])
  have fact1: "occurrence_fact (run_layer False [0, 1]) ?index ''Run'' 1 = Inl (run_target ''(int)->void'')"
    by (rule run_occurrence [of 0]) (simp_all add: two [unfolded One_nat_def])
  have fact2: "occurrence_fact (run_layer False [0, 1]) ?index ''Run'' 2 = Inl (run_target ''()->void'')"
    by (rule run_occurrence [of 1]) (simp_all add: two [unfolded One_nat_def])
  have fact3: "occurrence_fact (run_layer False [0, 1]) ?index ''Run'' 3 = Inl (run_target ''(int)->void'')"
    by (rule run_occurrence [of 1]) (simp_all add: two [unfolded One_nat_def])
  have "run_target ''()->void'' \<noteq> run_target ''(int)->void''" by (simp add: run_target_def)
  then have "layer_lookup (run_layer False [0, 1]) ?index ''a.cs'' 4 ''Run'' (Some 0)
     = Confirmed_Many [run_target ''()->void'', run_target ''(int)->void'', run_target ''()->void'', run_target ''(int)->void'']"
    by (simp add: fact0 [unfolded One_nat_def] fact1 [unfolded One_nat_def] fact2 [unfolded One_nat_def] fact3 [unfolded One_nat_def] layer_lookup_def fresh stale_reason_def two [unfolded One_nat_def] narrowed_indices_def signature signature_arity map_filter_simps)
  with first show ?thesis by simp
qed

lemma one_compilation_edges:
  "discovered_edge (''a.cs'', 4, ''Run'') (run_target ''()->void'')
     \<in> set (discovered_edges (run_layer False [0]) (build_def_index call_class) {})"
proof -
  have "run_target ''()->void'' \<noteq> run_target ''(int)->void''" by (simp add: run_target_def)
  then have "layer_lookup (run_layer False [0]) (build_def_index call_class) ''a.cs'' 4 ''Run'' None
      = Confirmed_Many [run_target ''()->void'', run_target ''(int)->void'']"
    by (simp add: one_compilation_facts [unfolded One_nat_def] layer_lookup_def run_layer_fresh stale_reason_def
        one_compilation [unfolded One_nat_def] narrowed_indices_def map_filter_simps)
  then show ?thesis
    by (simp add: discovered_edges_def site_keys_def one_compilation discovered_targets_def) (simp add: run_target_def)
qed

text \<open>
  An artifact without a record of the compilation of an occurrence: the fact is taken as confirmed although
  nothing says that its compilation is complete.
\<close>

theorem unrecorded_compilation_confirms:
  "layer_lookup (load_layer False (Some ''head'') (\<lambda>_. None) (Some ''head'') False [] [run_fact 0 ''()->void''])
     (build_def_index call_class) ''a.cs'' 4 ''Run'' None = Confirmed_One (run_target ''()->void'')"
proof -
  let ?layer = "load_layer False (Some ''head'') (\<lambda>_. None) (Some ''head'') False [] [run_fact 0 ''()->void'']"
  have fields: "sl_freshness ?layer = Fresh" "sl_occurrences ?layer = [run_fact 0 ''()->void'']"
    "sl_by_site ?layer = [((''a.cs'', 4, ''Run''), [0])]" "sl_compilations ?layer = []"
    by (simp_all add: load_layer_def evaluate_def) (simp add: run_fact_def)
  have "occurrence_fact ?layer (build_def_index call_class) ''Run'' 0 = Inl (run_target ''()->void'')"
    using repo_translated
    by (simp add: occurrence_fact_def Let_def fields compilation_state_def) (simp add: run_fact_def from_resolution_def
        is_confirmed_def resolve_target_def run_target_def call_defs)
  then show ?thesis by (simp add: layer_lookup_def fields stale_reason_def narrowed_indices_def map_filter_simps)
qed

theorem compiler_edges_confirmed_witness:
  "\<exists>key t. key \<notin> {} \<and> discovered_edge (''a.cs'', 4, ''Run'') (run_target ''()->void'') = discovered_edge key t
     \<and> confirmed_by (run_layer False [0]) (build_def_index call_class) key t"
  using compiler_edges_confirmed [OF run_layer_loaded [of False "[0]"], of "build_def_index call_class" "{}"] one_compilation_edges
  by blast

theorem stale_layer_changes_nothing_witness:
  "\<exists>sx g. resolve_graph_with_model 1 0 None 0 call_file None (Some (run_layer True [0])) = Some (sx, g)
     \<and> sx_semantic sx = Some \<lparr>ss_confirmed = 0, ss_disagreements = 0, ss_discovered = 0\<rparr>"
proof -
  have "sl_freshness (run_layer True [0]) = Stale_Because ''working-tree-dirty''"
    by (simp add: run_layer_def load_layer_def evaluate_def)
  note stale = stale_layer_changes_nothing [OF this, of 1 0 None 0 call_file None]
  obtain sx g where "resolve_graph_with_model 1 0 None 0 call_file None (None :: nat semantic_layer option) = Some (sx, g)"
    using call_graph by blast
  with stale show ?thesis by simp
qed

end
