(* ===== verification/TsPaths.thy ===== *)
theory TsPaths
  imports Assembly
begin

text \<open>
  How a TypeScript specifier is placed in the repository (\<open>src/tsgraph.rs\<close>): paths and the probe
  order, comments of configuration files, \<open>tsconfig\<close> chains and their aliases, the alias scope of a
  file, and the resolution of a specifier. Reading a file is the argument \<open>read\<close>, and \<open>serde\<close>'s
  reading of a document the argument \<open>parse\<close>; the memos of the owner search are left out, since both
  are functions of the directory.
\<close>

section \<open>Paths\<close>

definition DEF_SEPARATOR :: char where "DEF_SEPARATOR = CHR ''#''"

definition PROBE_EXTENSIONS :: "string list" where
  "PROBE_EXTENSIONS = [''.ts'', ''.tsx'', ''.mts'', ''.cts'', ''.js'', ''.jsx'', ''.mjs'', ''.cjs'']"

definition OUTPUT_EXTENSION_SOURCES :: "(string \<times> string list) list" where
  "OUTPUT_EXTENSION_SOURCES =
     [(''.js'', [''.ts'', ''.tsx'']), (''.jsx'', [''.tsx'']), (''.mjs'', [''.mts'', ''.ts'']), (''.cjs'', [''.cts'', ''.ts''])]"

definition TSCONFIG_CHAIN_LIMIT :: nat where "TSCONFIG_CHAIN_LIMIT = 4"

definition TSCONFIG_ROOTS :: "string list" where
  "TSCONFIG_ROOTS = [''tsconfig.json'', ''tsconfig.base.json'']"

definition BARREL_HOPS :: nat where "BARREL_HOPS = 8"

definition ts_def_id :: "string \<Rightarrow> string \<Rightarrow> string" where
  "ts_def_id f name = f @ DEF_SEPARATOR # name"

definition dir_of :: "string \<Rightarrow> string" where
  "dir_of rel = (case str_rfind rel CHR ''/'' of None \<Rightarrow> [] | Some i \<Rightarrow> take i rel)"

fun join_segs :: "string list \<Rightarrow> string list \<Rightarrow> string list option" where
  "join_segs parts [] = Some parts"
| "join_segs parts (seg # segs) =
     (if seg = [] \<or> seg = ''.'' then join_segs parts segs
      else if seg = ''..'' then (if parts = [] then None else join_segs (butlast parts) segs)
      else join_segs (parts @ [seg]) segs)"

definition join_rel :: "string \<Rightarrow> string \<Rightarrow> string option" where
  "join_rel base rest = map_option (str_join ''/'') (join_segs [] (str_split CHR ''/'' (base @ ''/'' @ rest)))"

definition last_index :: "string \<Rightarrow> char \<Rightarrow> int" where
  "last_index s c = (case str_rfind s c of None \<Rightarrow> -1 | Some i \<Rightarrow> int i)"

definition extension_of :: "string \<Rightarrow> string" where
  "extension_of rel =
     (if last_index rel CHR ''.'' > last_index rel CHR ''/'' then drop (nat (last_index rel CHR ''.'')) rel else [])"

definition probe_candidates :: "string \<Rightarrow> string list" where
  "probe_candidates base =
     base
     # (case map_of OUTPUT_EXTENSION_SOURCES (extension_of base) of
          None \<Rightarrow> []
        | Some sources \<Rightarrow> map (\<lambda>s. take (length base - length (extension_of base)) base @ s) sources)
     @ map (\<lambda>e. base @ e) PROBE_EXTENSIONS
     @ map (\<lambda>e. base @ ''/index'' @ e) PROBE_EXTENSIONS"

definition probe_file :: "string option \<Rightarrow> string set \<Rightarrow> string option" where
  "probe_file base files = Option.bind base (\<lambda>b. List.find (\<lambda>c. c \<in> files) (probe_candidates b))"

section \<open>Comments\<close>

text \<open>What follows the end of a block comment, nothing when it has none.\<close>

fun after_block :: "string \<Rightarrow> string" where
  "after_block [] = []"
| "after_block (c # cs) = (if c = CHR ''*'' \<and> take 1 cs = ''/'' then tl cs else after_block cs)"

lemma after_block_length: "length (after_block s) \<le> length s"
proof (induction s)
  case (Cons c cs)
  have "length (tl cs) \<le> Suc (length cs)" by simp
  with Cons show ?case by (simp only: after_block.simps split: if_split) simp
qed simp

definition BACKSLASH :: char where "BACKSLASH = char_of (92 :: nat)"
definition QUOTE :: char where "QUOTE = char_of (34 :: nat)"
definition NEWLINE :: char where "NEWLINE = char_of (10 :: nat)"

function strip_comments :: "bool \<Rightarrow> string \<Rightarrow> string" where
  "strip_comments in_string [] = []"
| "strip_comments in_string (c # cs) =
     (if in_string then
        (if c = BACKSLASH then c # take 1 cs @ strip_comments True (drop 1 cs)
         else c # strip_comments (c \<noteq> QUOTE) cs)
      else if c = QUOTE then c # strip_comments True cs
      else if c = CHR ''/'' \<and> take 1 cs = ''/'' then strip_comments False (dropWhile (\<lambda>x. x \<noteq> NEWLINE) cs)
      else if c = CHR ''/'' \<and> take 1 cs = ''*'' then strip_comments False (after_block (drop 1 cs))
      else c # strip_comments False cs)"
  by pat_completeness auto
termination
proof (relation "measure (\<lambda>(_, s). length s)")
  fix c :: char and cs :: string
  show "((False, dropWhile (\<lambda>x. x \<noteq> NEWLINE) cs), b, c # cs) \<in> measure (\<lambda>(_, s). length s)" for b
    using length_dropWhile_le [of "\<lambda>x. x \<noteq> NEWLINE" cs] by simp
  show "((False, after_block (drop 1 cs)), b, c # cs) \<in> measure (\<lambda>(_, s). length s)" for b
    using after_block_length [of "drop 1 cs"] by simp
qed auto

lemma trim_start_length: "length (trim_start s) \<le> length s"
proof (induction s rule: trim_start.induct)
  case (1 s)
  show ?case
  proof (cases "ws_head s = 0")
    case False
    with 1 have "length (trim_start (drop (ws_head s) s)) \<le> length s" by fastforce
    with False show ?thesis by (subst trim_start.simps) simp
  qed (simp add: trim_start.simps [of s])
qed

function drop_trailing_commas :: "string \<Rightarrow> string" where
  "drop_trailing_commas [] = []"
| "drop_trailing_commas (c # cs) =
     (if c \<noteq> CHR '','' then c # drop_trailing_commas cs
      else (case trim_start cs of
              [] \<Rightarrow> c # drop_trailing_commas cs
            | d # ds \<Rightarrow>
                (if d = CHR ''}'' \<or> d = CHR '']''
                 then take (length cs - length (d # ds)) cs @ d # drop_trailing_commas ds
                 else c # drop_trailing_commas cs)))"
  by pat_completeness auto
termination
proof (relation "measure length")
  fix c d :: char and cs ds :: string
  assume "trim_start cs = d # ds"
  moreover have "length (trim_start cs) \<le> length cs" by (rule trim_start_length)
  ultimately show "(ds, c # cs) \<in> measure length" by simp
qed auto

declare strip_comments.simps [simp del] drop_trailing_commas.simps [simp del]

definition strip_jsonc :: "string \<Rightarrow> string" where
  "strip_jsonc s = drop_trailing_commas (strip_comments False s)"

section \<open>Configuration chains\<close>

text \<open>Of a number only whether it is zero is ever read.\<close>

datatype json =
    J_Null | J_Bool bool | J_Number bool | J_String string | J_Array "json list" | J_Object "(string \<times> json) list"

fun as_str :: "json \<Rightarrow> string option" where
  "as_str (J_String s) = Some s"
| "as_str _ = None"

fun as_array :: "json \<Rightarrow> json list option" where
  "as_array (J_Array vs) = Some vs"
| "as_array _ = None"

datatype paths_field = Paths_Map "(string \<times> json) list" | Paths_Other json

record compiler_options =
  co_base_url :: "json option"
  co_paths :: "paths_field option"

record ts_config_doc =
  tc_extends :: "json option"
  tc_options :: "compiler_options option"

definition doc_base_url :: "ts_config_doc \<Rightarrow> string option" where
  "doc_base_url cfg = do { o' \<leftarrow> tc_options cfg; u \<leftarrow> co_base_url o'; as_str u }"

definition doc_paths :: "ts_config_doc \<Rightarrow> (string \<times> json) list option" where
  "doc_paths cfg =
     do { o' \<leftarrow> tc_options cfg; p \<leftarrow> co_paths o'; (case p of Paths_Map m \<Rightarrow> Some m | Paths_Other _ \<Rightarrow> None) }"

definition declares_paths :: "ts_config_doc \<Rightarrow> bool" where
  "declares_paths cfg =
     (case Option.bind (tc_options cfg) co_paths of
        None \<Rightarrow> False
      | Some (Paths_Map _) \<Rightarrow> True
      | Some (Paths_Other v) \<Rightarrow>
          (case v of
             J_Bool b \<Rightarrow> b
           | J_Number nonzero \<Rightarrow> nonzero
           | J_String s \<Rightarrow> s \<noteq> []
           | J_Null \<Rightarrow> False
           | _ \<Rightarrow> True))"

record chain_link =
  cl_dir :: string
  cl_cfg :: ts_config_doc

type_synonym file_reader = "string \<Rightarrow> string option"

text \<open>Only a relative \<open>extends\<close> is followed.\<close>

definition spelled_config :: "string \<Rightarrow> string" where
  "spelled_config ext = (if ends_with ext ''.json'' then ext else ext @ ''.json'')"

definition next_config :: "string \<Rightarrow> ts_config_doc \<Rightarrow> string option" where
  "next_config d cfg =
     (case Option.bind (tc_extends cfg) as_str of
        None \<Rightarrow> None
      | Some ext \<Rightarrow> (if starts_with ext ''.'' then join_rel d (spelled_config ext) else None))"

fun chain_from ::
  "file_reader \<Rightarrow> (string \<Rightarrow> ts_config_doc option) \<Rightarrow> nat \<Rightarrow> string set \<Rightarrow> string \<Rightarrow> chain_link list" where
  "chain_from read parse 0 seen rel = []"
| "chain_from read parse (Suc n) seen rel =
     (if rel \<in> seen then []
      else (case Option.bind (read rel) (\<lambda>t. parse (strip_jsonc t)) of
              None \<Rightarrow> []
            | Some cfg \<Rightarrow>
                \<lparr>cl_dir = dir_of rel, cl_cfg = cfg\<rparr>
                # (case next_config (dir_of rel) cfg of
                     None \<Rightarrow> []
                   | Some next_rel \<Rightarrow> chain_from read parse n (insert rel seen) next_rel)))"

definition read_tsconfig_chain :: "file_reader \<Rightarrow> (string \<Rightarrow> ts_config_doc option) \<Rightarrow> string \<Rightarrow> chain_link list" where
  "read_tsconfig_chain read parse start = chain_from read parse TSCONFIG_CHAIN_LIMIT {} start"

section \<open>Aliases\<close>

record alias_target =
  at_prefix :: "string option"
  at_suffix :: string

record ts_alias =
  ta_exact :: "string option"
  ta_prefix :: string
  ta_suffix :: string
  ta_targets :: "alias_target list"
  ta_wildcard :: bool

record ts_path_aliases =
  pa_aliases :: "ts_alias list"
  pa_base_url_dir :: "string option"

record ts_alias_scopes =
  as_root :: ts_path_aliases
  as_nested :: "(string \<times> ts_path_aliases) list"

definition no_aliases :: ts_path_aliases where
  "no_aliases = \<lparr>pa_aliases = [], pa_base_url_dir = None\<rparr>"

definition resolved_target :: "string option \<Rightarrow> string \<Rightarrow> alias_target" where
  "resolved_target base t =
     (let b = or_default [] base
      in case str_find_char t CHR ''*'' of
           None \<Rightarrow> \<lparr>at_prefix = join_rel b t, at_suffix = []\<rparr>
         | Some star \<Rightarrow> \<lparr>at_prefix = Some (or_default [] (join_rel b (take star t))), at_suffix = drop (star + 1) t\<rparr>)"

definition alias_of_pattern :: "string \<Rightarrow> alias_target list \<Rightarrow> ts_alias" where
  "alias_of_pattern pattern targets =
     (case str_find_char pattern CHR ''*'' of
        None \<Rightarrow> \<lparr>ta_exact = Some pattern, ta_prefix = pattern, ta_suffix = [], ta_targets = targets, ta_wildcard = False\<rparr>
      | Some star \<Rightarrow>
          \<lparr>ta_exact = None, ta_prefix = take star pattern, ta_suffix = drop (star + 1) pattern, ta_targets = targets,
           ta_wildcard = True\<rparr>)"

definition alias_rows :: "string option \<Rightarrow> (string \<times> json) list \<Rightarrow> ts_alias list" where
  "alias_rows base paths =
     List.map_filter (\<lambda>(pattern, targets).
       map_option (\<lambda>vs. alias_of_pattern pattern (map (resolved_target base) (List.map_filter as_str vs))) (as_array targets))
       paths"

definition alias_order :: "ts_alias \<Rightarrow> int \<times> string" where
  "alias_order a = (- int (length (ta_prefix a)), ta_prefix a)"

definition aliases_from_chain :: "chain_link list \<Rightarrow> ts_path_aliases" where
  "aliases_from_chain chain =
     (let paths_from = List.find (\<lambda>c. doc_paths (cl_cfg c) \<noteq> None) chain;
          base_url_from = List.find (\<lambda>c. doc_base_url (cl_cfg c) \<noteq> None) chain;
          base_url_dir = Option.bind base_url_from (\<lambda>c. join_rel (cl_dir c) (or_default [] (doc_base_url (cl_cfg c))));
          aliases = (case paths_from of
             None \<Rightarrow> []
           | Some pf \<Rightarrow>
               alias_rows
                 (case doc_base_url (cl_cfg pf) of
                    Some own \<Rightarrow> join_rel (cl_dir pf) own
                  | None \<Rightarrow> first_of base_url_dir (Some (cl_dir pf)))
                 (or_default [] (doc_paths (cl_cfg pf))))
      in \<lparr>pa_aliases = sort_key alias_order aliases, pa_base_url_dir = base_url_dir\<rparr>)"

fun pick_chain :: "chain_link list \<Rightarrow> chain_link list list \<Rightarrow> chain_link list" where
  "pick_chain chain [] = chain"
| "pick_chain chain (candidate # rest) =
     (if candidate = [] then pick_chain chain rest
      else if list_ex (\<lambda>c. declares_paths (cl_cfg c)) candidate then candidate
      else pick_chain (if chain = [] then candidate else chain) rest)"

definition read_ts_path_aliases :: "file_reader \<Rightarrow> (string \<Rightarrow> ts_config_doc option) \<Rightarrow> ts_path_aliases" where
  "read_ts_path_aliases read parse =
     aliases_from_chain (pick_chain [] (map (read_tsconfig_chain read parse) TSCONFIG_ROOTS))"

text \<open>The aliases of the config a directory holds, when it declares any or a base.\<close>

definition own_aliases :: "file_reader \<Rightarrow> (string \<Rightarrow> ts_config_doc option) \<Rightarrow> string \<Rightarrow> ts_path_aliases option" where
  "own_aliases read parse d =
     (let config = d @ ''/tsconfig.json''
      in if read config = None then None
         else (let aliases = aliases_from_chain (read_tsconfig_chain read parse config)
               in if pa_aliases aliases \<noteq> [] \<or> pa_base_url_dir aliases \<noteq> None then Some aliases else None))"

lemma dir_of_shorter: "d \<noteq> [] \<Longrightarrow> length (dir_of d) < length d"
  by (auto simp: dir_of_def split: option.splits dest: str_rfind_Some)

function owning_tsconfig_dir :: "(string \<Rightarrow> ts_path_aliases option) \<Rightarrow> string \<Rightarrow> string option" where
  "owning_tsconfig_dir own d =
     (if d = [] then None
      else if own d \<noteq> None then Some d
      else owning_tsconfig_dir own (dir_of d))"
  by pat_completeness auto
termination
  by (relation "measure (\<lambda>(_, d). length d)") (auto intro: dir_of_shorter)

declare owning_tsconfig_dir.simps [simp del]

definition read_ts_alias_scopes ::
  "file_reader \<Rightarrow> (string \<Rightarrow> ts_config_doc option) \<Rightarrow> string list \<Rightarrow> ts_alias_scopes" where
  "read_ts_alias_scopes read parse files =
     (let own = own_aliases read parse;
          owners = remdups (List.map_filter (\<lambda>f. owning_tsconfig_dir own (dir_of f)) files)
      in \<lparr>as_root = read_ts_path_aliases read parse,
          as_nested = List.map_filter (\<lambda>d. map_option (Pair d) (own d))
            (sort_key (\<lambda>d. (- int (length d), d)) owners)\<rparr>)"

definition scope_for :: "string \<Rightarrow> ts_alias_scopes \<Rightarrow> ts_path_aliases" where
  "scope_for from_file scopes =
     (case List.find (\<lambda>(d, _). length d < length from_file \<and> starts_with from_file d \<and> from_file ! length d = CHR ''/'')
             (as_nested scopes) of
        Some (_, aliases) \<Rightarrow> aliases
      | None \<Rightarrow> as_root scopes)"

definition matched_target :: "string \<Rightarrow> alias_target \<Rightarrow> string option" where
  "matched_target mid t = Option.bind (at_prefix t) (\<lambda>p. join_rel p (mid @ at_suffix t))"

fun alias_targets :: "string \<Rightarrow> ts_alias list \<Rightarrow> string option list" where
  "alias_targets spec [] = []"
| "alias_targets spec (a # as) =
     (if \<not> ta_wildcard a then
        (if ta_exact a = Some spec then map at_prefix (ta_targets a) else alias_targets spec as)
      else (case Option.bind (strip_prefix spec (ta_prefix a)) (\<lambda>rest. strip_suffix rest (ta_suffix a)) of
              None \<Rightarrow> alias_targets spec as
            | Some mid \<Rightarrow> map (matched_target mid) (ta_targets a)))"

definition resolve_specifier :: "string \<Rightarrow> string \<Rightarrow> string set \<Rightarrow> ts_alias_scopes \<Rightarrow> string option" where
  "resolve_specifier from_file spec files scopes =
     (if starts_with spec ''.'' then probe_file (join_rel (dir_of from_file) spec) files
      else (let scope = scope_for from_file scopes
            in first_of (first_some (\<lambda>candidate. probe_file candidate files) (alias_targets spec (pa_aliases scope)))
                 (Option.bind (pa_base_url_dir scope) (\<lambda>base. probe_file (join_rel base spec) files))))"

end
