(* ===== verification/TsConfig.thy ===== *)
theory TsConfig
  imports TsPaths
begin

text \<open>
  The declared module settings of a repository (\<open>src/tsgraph/modes.rs\<close>, \<open>packages.rs\<close>,
  \<open>package_map.rs\<close>, \<open>workspaces.rs\<close>, \<open>build_output.rs\<close>, \<open>disclosure.rs\<close>): resolution modes with the
  documents refused, packages, the selection in an exports or imports map, workspace members, and
  build outputs. The walk over the file tree is an argument (the documents found, by directory), and so
  are reading a file (\<open>None\<close> no file, \<open>Some None\<close> unreadable) and parsing JSON. A panic is \<open>None\<close>.
\<close>

section \<open>Reasons\<close>

datatype ts_reason =
    Bare_Package_Outside_Workspace | Esm_Extension_Required | Directory_Import_Not_Allowed
  | Exports_Subpath_Not_Matched | Imports_Specifier_Not_Matched | No_Matching_Condition
  | Build_Output_Without_Source_Mapping | Declaration_Only_Target | Target_Not_Indexed
  | Ambiguous_Workspace_Name | Configuration_Refused

fun reason_str :: "ts_reason \<Rightarrow> string" where
  "reason_str Bare_Package_Outside_Workspace = ''bare-package-outside-workspace''"
| "reason_str Esm_Extension_Required = ''esm-extension-required''"
| "reason_str Directory_Import_Not_Allowed = ''directory-import-not-allowed''"
| "reason_str Exports_Subpath_Not_Matched = ''exports-subpath-not-matched''"
| "reason_str Imports_Specifier_Not_Matched = ''imports-specifier-not-matched''"
| "reason_str No_Matching_Condition = ''no-matching-condition''"
| "reason_str Build_Output_Without_Source_Mapping = ''build-output-without-source-mapping''"
| "reason_str Declaration_Only_Target = ''declaration-only-target''"
| "reason_str Target_Not_Indexed = ''target-not-indexed''"
| "reason_str Ambiguous_Workspace_Name = ''ambiguous-workspace-name''"
| "reason_str Configuration_Refused = ''configuration-refused''"

definition REASONS :: "ts_reason list" where
  "REASONS =
     [Bare_Package_Outside_Workspace, Esm_Extension_Required, Directory_Import_Not_Allowed,
      Exports_Subpath_Not_Matched, Imports_Specifier_Not_Matched, No_Matching_Condition,
      Build_Output_Without_Source_Mapping, Declaration_Only_Target, Target_Not_Indexed,
      Ambiguous_Workspace_Name, Configuration_Refused]"

record refused_config =
  rf_file :: string
  rf_field :: string

section \<open>Resolution modes\<close>

datatype ts_mode = Node10 | Node16 | Node_Next | Bundler | Classic

record mode_scope =
  ms_config :: string
  ms_mode :: ts_mode
  ms_conditions :: "string list"

definition lower :: "string \<Rightarrow> string" where
  "lower s = map ascii_lower s"

definition parse_mode :: "string \<Rightarrow> ts_mode option" where
  "parse_mode value' =
     map_of [(''node'', Node10), (''node10'', Node10), (''node16'', Node16), (''nodenext'', Node_Next),
       (''bundler'', Bundler), (''classic'', Classic)] (lower value')"

definition valid_module :: "string \<Rightarrow> bool" where
  "valid_module value' \<longleftrightarrow>
     lower value' \<in> {''none'', ''commonjs'', ''amd'', ''system'', ''umd'', ''es6'', ''es2015'', ''es2020'', ''es2022'',
       ''esnext'', ''node16'', ''node18'', ''node20'', ''nodenext'', ''preserve''}"

definition implied_mode :: "string option \<Rightarrow> ts_mode option" where
  "implied_mode module' =
     Option.bind module' (map_of [(''node16'', Node16), (''node18'', Node16), (''node20'', Node16),
       (''nodenext'', Node_Next), (''preserve'', Bundler)])"

fun json_object :: "json \<Rightarrow> (string \<times> json) list option" where
  "json_object (J_Object m) = Some m"
| "json_object _ = None"

fun as_bool :: "json \<Rightarrow> bool option" where
  "as_bool (J_Bool b) = Some b"
| "as_bool _ = None"

definition json_get :: "json \<Rightarrow> string \<Rightarrow> json option" where
  "json_get v key = Option.bind (json_object v) (\<lambda>m. map_of m key)"

definition all_strings :: "json list \<Rightarrow> string list option" where
  "all_strings items = all_some (map as_str items)"

text \<open>The first option whose value has the wrong shape.\<close>

definition invalid_field :: "(string \<times> json) list \<Rightarrow> string option" where
  "invalid_field options' =
     (let opt = map_of options'; bad_path = (\<lambda>key. case opt key of None \<Rightarrow> False | Some v \<Rightarrow> as_str v = None \<or> as_str v = Some [])
      in if (case opt ''moduleResolution'' of None \<Rightarrow> False | Some v \<Rightarrow> Option.bind (as_str v) parse_mode = None)
         then Some ''compilerOptions.moduleResolution''
         else if (case opt ''module'' of None \<Rightarrow> False | Some v \<Rightarrow> (case as_str v of None \<Rightarrow> True | Some m \<Rightarrow> \<not> valid_module m))
         then Some ''compilerOptions.module''
         else if (case opt ''customConditions'' of
                    None \<Rightarrow> False
                  | Some v \<Rightarrow> (case as_array v of None \<Rightarrow> True | Some items \<Rightarrow> all_strings items = None))
         then Some ''compilerOptions.customConditions''
         else if bad_path ''outDir'' then Some ''compilerOptions.outDir''
         else if bad_path ''rootDir'' then Some ''compilerOptions.rootDir''
         else if (case opt ''composite'' of None \<Rightarrow> False | Some v \<Rightarrow> as_bool v = None) then Some ''compilerOptions.composite''
         else None)"

record mode_facts =
  mf_mode :: "ts_mode option"
  mf_module :: "string option"
  mf_conditions :: "string list option"

definition add_options :: "(string \<times> json) list \<Rightarrow> mode_facts \<Rightarrow> mode_facts" where
  "add_options options' facts =
     (let opt = (\<lambda>key. map_of options' key)
      in \<lparr>mf_mode = first_of (mf_mode facts) (Option.bind (Option.bind (opt ''moduleResolution'') as_str) parse_mode),
          mf_module = first_of (mf_module facts) (map_option lower (Option.bind (opt ''module'') as_str)),
          mf_conditions = first_of (mf_conditions facts)
            (map_option (List.map_filter as_str) (Option.bind (opt ''customConditions'') as_array))\<rparr>)"

type_synonym doc_reader = "string \<Rightarrow> string option option"

definition next_extends :: "string \<Rightarrow> json \<Rightarrow> string option" where
  "next_extends rel v =
     (case Option.bind (json_get v ''extends'') as_str of
        None \<Rightarrow> None
      | Some ext \<Rightarrow> (if starts_with ext ''.'' then join_rel (dir_of rel) (spelled_config ext) else None))"

fun mode_chain ::
  "doc_reader \<Rightarrow> (string \<Rightarrow> json option) \<Rightarrow> nat \<Rightarrow> string set \<Rightarrow> string \<Rightarrow> mode_facts \<Rightarrow> refused_config + mode_facts" where
  "mode_chain read parse 0 seen rel facts = Inr facts"
| "mode_chain read parse (Suc n) seen rel facts =
     (if rel \<in> seen then Inr facts
      else (case read rel of
              None \<Rightarrow> Inr facts
            | Some content \<Rightarrow>
                (case Option.bind content (\<lambda>t. parse (strip_jsonc t)) of
                   None \<Rightarrow> Inl \<lparr>rf_file = rel, rf_field = ''document''\<rparr>
                 | Some v \<Rightarrow>
                     (let options' = Option.bind (json_get v ''compilerOptions'') json_object
                      in case Option.bind options' invalid_field of
                           Some field \<Rightarrow> Inl \<lparr>rf_file = rel, rf_field = field\<rparr>
                         | None \<Rightarrow>
                             (let facts = (case options' of None \<Rightarrow> facts | Some o' \<Rightarrow> add_options o' facts)
                              in case next_extends rel v of
                                   None \<Rightarrow> Inr facts
                                 | Some next_rel \<Rightarrow> mode_chain read parse n (insert rel seen) next_rel facts)))))"

definition read_mode_chain ::
  "doc_reader \<Rightarrow> (string \<Rightarrow> json option) \<Rightarrow> string \<Rightarrow> mode_scope option \<times> refused_config list" where
  "read_mode_chain read parse start =
     (case mode_chain read parse TSCONFIG_CHAIN_LIMIT {} start \<lparr>mf_mode = None, mf_module = None, mf_conditions = None\<rparr> of
        Inl refused \<Rightarrow> (None, [refused])
      | Inr facts \<Rightarrow>
          (map_option (\<lambda>m. \<lparr>ms_config = start, ms_mode = m, ms_conditions = or_default [] (mf_conditions facts)\<rparr>)
             (first_of (mf_mode facts) (implied_mode (mf_module facts))), []))"

function ancestor_dirs :: "string \<Rightarrow> string list" where
  "ancestor_dirs d = (if d = [] then [] else d # ancestor_dirs (dir_of d))"
  by pat_completeness auto
termination
  by (relation "measure length") (auto intro: dir_of_shorter)

declare ancestor_dirs.simps [simp del]

text \<open>The first candidate that declares a mode, and what was refused on the way.\<close>

fun first_scope ::
  "(string \<Rightarrow> mode_scope option \<times> refused_config list) \<Rightarrow> string list \<Rightarrow> mode_scope option \<times> refused_config list" where
  "first_scope chain [] = (None, [])"
| "first_scope chain (candidate # candidates) =
     (case chain candidate of
        (Some scope, refused) \<Rightarrow> (Some scope, refused)
      | (None, refused) \<Rightarrow> (case first_scope chain candidates of (scope, rest) \<Rightarrow> (scope, refused @ rest)))"

definition file_scope ::
  "doc_reader \<Rightarrow> (string \<Rightarrow> json option) \<Rightarrow> string \<Rightarrow> mode_scope option \<times> refused_config list" where
  "file_scope read parse f =
     first_scope (read_mode_chain read parse)
       (map (\<lambda>d. d @ ''/tsconfig.json'') (ancestor_dirs (dir_of f)) @ TSCONFIG_ROOTS)"

text \<open>One refused field of each file, the files in order.\<close>

function one_per_file :: "refused_config list \<Rightarrow> refused_config list" where
  "one_per_file [] = []"
| "one_per_file (r # rs) = r # one_per_file (dropWhile (\<lambda>x. rf_file x = rf_file r) rs)"
  by pat_completeness auto
termination
  by (relation "measure length") (auto simp: length_dropWhile_le le_imp_less_Suc)

definition sorted_refusals :: "refused_config list \<Rightarrow> refused_config list" where
  "sorted_refusals rs = one_per_file (sort_key (\<lambda>r. (rf_file r, rf_field r)) rs)"

record mode_scopes =
  mo_by_file :: "(string \<times> mode_scope) list"
  mo_refused :: "refused_config list"

definition read_modes :: "doc_reader \<Rightarrow> (string \<Rightarrow> json option) \<Rightarrow> string list \<Rightarrow> mode_scopes" where
  "read_modes read parse files =
     \<lparr>mo_by_file = List.map_filter (\<lambda>f. map_option (Pair f) (fst (file_scope read parse f))) files,
      mo_refused = sorted_refusals (concat (map (\<lambda>f. snd (file_scope read parse f)) files))\<rparr>"

section \<open>Packages\<close>

record ts_package =
  pk_dir :: string
  pk_name :: "string option"
  pk_module_type :: "string option"
  pk_main :: "string option"
  pk_exports :: "json option"
  pk_imports :: "json option"
  pk_workspaces :: "string list option"

record ts_packages =
  ps_by_dir :: "(string \<times> ts_package) list"
  ps_refused :: "refused_config list"
  ps_refused_dirs :: "string list"

function nearest_package_from :: "(string \<times> ts_package) list \<Rightarrow> string \<Rightarrow> ts_package option" where
  "nearest_package_from by_dir d =
     (case map_of by_dir d of
        Some p \<Rightarrow> Some p
      | None \<Rightarrow> (if d = [] then None else nearest_package_from by_dir (dir_of d)))"
  by pat_completeness auto
termination
  by (relation "measure (\<lambda>(_, d). length d)") (auto intro: dir_of_shorter)

function nearest_refused_from :: "ts_packages \<Rightarrow> string \<Rightarrow> bool" where
  "nearest_refused_from ps d \<longleftrightarrow>
     (if d \<in> set (ps_refused_dirs ps) then True
      else if map_of (ps_by_dir ps) d \<noteq> None \<or> d = [] then False
      else nearest_refused_from ps (dir_of d))"
  by pat_completeness auto
termination
  by (relation "measure (\<lambda>(_, d). length d)") (auto intro: dir_of_shorter)

declare nearest_package_from.simps [simp del] nearest_refused_from.simps [simp del]

definition nearest_package :: "ts_packages \<Rightarrow> string \<Rightarrow> ts_package option" where
  "nearest_package ps f = nearest_package_from (ps_by_dir ps) (dir_of f)"

definition nearest_refused :: "ts_packages \<Rightarrow> string \<Rightarrow> bool" where
  "nearest_refused ps f = nearest_refused_from ps (dir_of f)"

definition field_string :: "(string \<times> json) list \<Rightarrow> string \<Rightarrow> string + string option" where
  "field_string object name =
     (case map_of object name of
        None \<Rightarrow> Inr None
      | Some v \<Rightarrow> (case as_str v of None \<Rightarrow> Inl name | Some s \<Rightarrow> Inr (Some s)))"

fun valid_map :: "json \<Rightarrow> bool" where
  "valid_map J_Null \<longleftrightarrow> True"
| "valid_map (J_String _) \<longleftrightarrow> True"
| "valid_map (J_Array items) \<longleftrightarrow> list_all valid_map items"
| "valid_map (J_Object m) \<longleftrightarrow> list_all (\<lambda>kv. valid_map (snd kv)) m"
| "valid_map _ \<longleftrightarrow> False"

definition mixed_exports :: "json \<Rightarrow> bool" where
  "mixed_exports v =
     (case json_object v of
        None \<Rightarrow> False
      | Some m \<Rightarrow> list_ex (\<lambda>(k, _). starts_with k ''.'') m \<and> list_ex (\<lambda>(k, _). \<not> starts_with k ''.'') m)"

definition parse_workspaces :: "json option \<Rightarrow> string + string list option" where
  "parse_workspaces v =
     (let strings = (\<lambda>items. case all_strings items of None \<Rightarrow> Inl ''workspaces'' | Some ss \<Rightarrow> Inr (Some ss))
      in case v of
           None \<Rightarrow> Inr None
         | Some (J_Array items) \<Rightarrow> strings items
         | Some (J_Object m) \<Rightarrow>
             (case Option.bind (map_of m ''packages'') as_array of Some items \<Rightarrow> strings items | None \<Rightarrow> Inl ''workspaces'')
         | _ \<Rightarrow> Inl ''workspaces'')"

text \<open>\<open>object\<close> is the parsed document, \<open>None\<close> when it is no object.\<close>

definition parse_package :: "string \<Rightarrow> (string \<times> json) list option \<Rightarrow> string + ts_package" where
  "parse_package d object =
     (case object of
        None \<Rightarrow> Inl ''document''
      | Some m \<Rightarrow>
          (case (field_string m ''name'', field_string m ''type'', field_string m ''main'', parse_workspaces (map_of m ''workspaces'')) of
             (Inl e, _) \<Rightarrow> Inl e
           | (Inr name, type', main, workspaces) \<Rightarrow>
               (if name = Some [] then Inl ''name''
                else (case type' of
                        Inl e \<Rightarrow> Inl e
                      | Inr t \<Rightarrow>
                          (if t \<noteq> None \<and> t \<noteq> Some ''module'' \<and> t \<noteq> Some ''commonjs'' then Inl ''type''
                           else (case main of
                                   Inl e \<Rightarrow> Inl e
                                 | Inr mn \<Rightarrow>
                                     (let exports = map_of m ''exports''; imports' = map_of m ''imports''
                                      in if (case exports of None \<Rightarrow> False | Some v \<Rightarrow> \<not> valid_map v \<or> mixed_exports v) then Inl ''exports''
                                         else if (case imports' of None \<Rightarrow> False | Some v \<Rightarrow> \<not> valid_map v) then Inl ''imports''
                                         else (case workspaces of
                                                 Inl e \<Rightarrow> Inl e
                                               | Inr ws \<Rightarrow>
                                                   Inr \<lparr>pk_dir = d, pk_name = name, pk_module_type = t, pk_main = mn,
                                                     pk_exports = exports, pk_imports = imports', pk_workspaces = ws\<rparr>))))))))"

text \<open>\<open>rows\<close> are the directories with a \<open>package.json\<close> and its text, \<open>None\<close> when it is unreadable.\<close>

definition read_packages ::
  "(string \<Rightarrow> (string \<times> json) list option) \<Rightarrow> (string \<times> string option) list \<Rightarrow> ts_packages" where
  "read_packages parse rows =
     (let parsed = map (\<lambda>(d, t). (d, parse_package d (Option.bind t parse))) rows
      in \<lparr>ps_by_dir = List.map_filter (\<lambda>(d, r). case r of Inr p \<Rightarrow> Some (d, p) | Inl _ \<Rightarrow> None) parsed,
          ps_refused = sort_key rf_file (List.map_filter (\<lambda>(d, r).
             case r of Inl field \<Rightarrow> Some \<lparr>rf_file = or_default ''package.json'' (join_rel d ''package.json''), rf_field = field\<rparr>
             | Inr _ \<Rightarrow> None) parsed),
          ps_refused_dirs = List.map_filter (\<lambda>(d, r). case r of Inl _ \<Rightarrow> Some d | Inr _ \<Rightarrow> None) parsed\<rparr>)"

end
