(* ===== verification/TsModules.thy ===== *)
theory TsModules
  imports TsConfig
begin

text \<open>
  Package maps, workspaces, build outputs and the resolver of declared modes
  (\<open>src/tsgraph/package_map.rs\<close>, \<open>workspaces.rs\<close>, \<open>build_output.rs\<close>, \<open>config.rs\<close>, \<open>declared.rs\<close>).
\<close>

section \<open>Package maps\<close>

datatype map_match = Not_Matched | No_Condition | Targets "string list"

definition replace_star :: "string \<Rightarrow> string \<Rightarrow> string" where
  "replace_star capture path = concat (map (\<lambda>c. if c = CHR ''*'' then capture else [c]) path)"

definition substituted :: "string \<Rightarrow> string \<Rightarrow> string" where
  "substituted capture path =
     (if CHR ''*'' \<in> set path then replace_star capture path
      else if capture \<noteq> [] \<and> ends_with path ''/'' then path @ capture
      else path)"

definition condition_holds' :: "string \<Rightarrow> ts_mode \<Rightarrow> string list \<Rightarrow> string \<Rightarrow> bool" where
  "condition_holds' usage mode custom condition \<longleftrightarrow>
     condition \<noteq> ''types''
     \<and> (condition = ''default'' \<or> condition = usage \<or> condition = ''node'' \<and> mode \<noteq> Bundler \<or> condition \<in> set custom)"

fun match_targets :: "map_match \<Rightarrow> string list" where
  "match_targets (Targets ts) = ts"
| "match_targets _ = []"

fun map_target :: "string \<Rightarrow> ts_mode \<Rightarrow> string list \<Rightarrow> string \<Rightarrow> json \<Rightarrow> map_match"
  and first_condition :: "string \<Rightarrow> ts_mode \<Rightarrow> string list \<Rightarrow> string \<Rightarrow> (string \<times> json) list \<Rightarrow> map_match"
  and array_targets :: "string \<Rightarrow> ts_mode \<Rightarrow> string list \<Rightarrow> string \<Rightarrow> json list \<Rightarrow> string list" where
  "map_target usage mode custom capture J_Null = No_Condition"
| "map_target usage mode custom capture (J_String path) = Targets [substituted capture path]"
| "map_target usage mode custom capture (J_Array vs) =
     (case array_targets usage mode custom capture vs of [] \<Rightarrow> No_Condition | ts \<Rightarrow> Targets ts)"
| "map_target usage mode custom capture (J_Object m) = first_condition usage mode custom capture m"
| "map_target usage mode custom capture _ = No_Condition"
| "first_condition usage mode custom capture [] = No_Condition"
| "first_condition usage mode custom capture ((condition, v) # m) =
     (if condition_holds' usage mode custom condition then map_target usage mode custom capture v
      else first_condition usage mode custom capture m)"
| "array_targets usage mode custom capture [] = []"
| "array_targets usage mode custom capture (v # vs) =
     match_targets (map_target usage mode custom capture v) @ array_targets usage mode custom capture vs"

record pattern_hit =
  ph_prefix :: nat
  ph_suffix :: nat
  ph_capture :: string
  ph_value :: json

definition pattern_hit_of :: "string \<Rightarrow> string \<times> json \<Rightarrow> pattern_hit option" where
  "pattern_hit_of spec entry =
     (case entry of (key, v) \<Rightarrow>
        (case str_find_char key CHR ''*'' of
           None \<Rightarrow> None
         | Some star \<Rightarrow>
             (let prefix' = take star key; suffix' = drop (star + 1) key
              in if starts_with spec prefix' \<and> ends_with spec suffix' \<and> length prefix' + length suffix' \<le> length spec
                 then Some \<lparr>ph_prefix = length prefix', ph_suffix = length suffix',
                        ph_capture = slice (length prefix') (length spec - length suffix') spec, ph_value = v\<rparr>
                 else None)))"

definition hit_order :: "pattern_hit \<Rightarrow> int \<times> int" where
  "hit_order h = (- int (ph_prefix h), - int (ph_suffix h))"

definition select_key :: "json \<Rightarrow> string \<Rightarrow> string \<Rightarrow> ts_mode \<Rightarrow> string list \<Rightarrow> map_match" where
  "select_key v spec usage mode custom =
     (case json_object v of
        None \<Rightarrow> Not_Matched
      | Some object \<Rightarrow>
          (case map_of object spec of
             Some target \<Rightarrow> map_target usage mode custom [] target
           | None \<Rightarrow>
               (case sort_key hit_order (List.map_filter (pattern_hit_of spec) object) of
                  [] \<Rightarrow> Not_Matched
                | h # _ \<Rightarrow> map_target usage mode custom (ph_capture h) (ph_value h))))"

definition map_exports :: "json \<Rightarrow> string \<Rightarrow> string \<Rightarrow> ts_mode \<Rightarrow> string list \<Rightarrow> map_match" where
  "map_exports v subpath usage mode custom =
     (if (case json_object v of None \<Rightarrow> False | Some m \<Rightarrow> list_ex (\<lambda>(k, _). starts_with k ''.'') m)
      then select_key v subpath usage mode custom
      else if subpath \<noteq> ''.'' then Not_Matched
      else map_target usage mode custom [] v)"

section \<open>Workspaces\<close>

record ts_workspace =
  ws_dir :: string
  ws_members :: "string \<Rightarrow> string list option"
  ws_refused :: bool

record ts_workspaces =
  wk_roots :: "ts_workspace list"
  wk_refused :: "refused_config list"

definition nearest_workspace :: "ts_workspaces \<Rightarrow> string \<Rightarrow> ts_workspace option" where
  "nearest_workspace ws f = List.find (\<lambda>w. ws_dir w = [] \<or> starts_with f (ws_dir w @ ''/'')) (wk_roots ws)"

definition valid_pattern :: "string \<Rightarrow> bool" where
  "valid_pattern pattern \<longleftrightarrow> pattern \<noteq> [] \<and> list_all (\<lambda>c. c \<notin> set ''?[]{}'') pattern"

fun middle_pieces :: "string \<Rightarrow> string list \<Rightarrow> bool" where
  "middle_pieces remaining [] = True"
| "middle_pieces remaining (piece # pieces) =
     (case str_find remaining piece of
        None \<Rightarrow> False
      | Some i \<Rightarrow> middle_pieces (drop (i + length piece) remaining) pieces)"

definition segment_matches :: "string \<Rightarrow> string \<Rightarrow> bool" where
  "segment_matches pattern s \<longleftrightarrow>
     (if pattern = ''*'' then True
      else (let pieces = str_split CHR ''*'' pattern
            in if length pieces = 1 then pattern = s
               else if \<not> starts_with s (hd pieces) \<or> \<not> ends_with s (last pieces) then False
               else middle_pieces (drop (length (hd pieces)) s) (butlast (tl pieces))))"

function glob_segments :: "string list \<Rightarrow> string list \<Rightarrow> bool" where
  "glob_segments [] b = (b = [])"
| "glob_segments (first # rest) b =
     (if first = ''**''
      then (if glob_segments rest b then True else if b = [] then False else glob_segments (first # rest) (tl b))
      else if b = [] then False
      else if segment_matches first (hd b) then glob_segments rest (tl b) else False)"
  by pat_completeness auto
termination
  by (relation "measure (\<lambda>(a, b). length a + length b)") (auto simp: neq_Nil_conv)

declare glob_segments.simps(2) [simp del]

definition glob_matches :: "string \<Rightarrow> string \<Rightarrow> bool" where
  "glob_matches pattern path = glob_segments (str_split CHR ''/'' pattern) (str_split CHR ''/'' path)"

text \<open>A scalar of the member list. Unquoting a lone quote slices backwards.\<close>

definition SINGLE_QUOTE :: char where "SINGLE_QUOTE = char_of (39 :: nat)"

definition scalar :: "string \<Rightarrow> (string + string) option" where
  "scalar v =
     (if v = [] \<or> starts_with v ''!'' \<or> hd v \<in> set ''&*|>'' then Some (Inl ''packages'')
      else if (hd v = QUOTE \<and> last v = QUOTE) \<or> (hd v = SINGLE_QUOTE \<and> last v = SINGLE_QUOTE)
      then (if length v < 2 then None
            else (let unquoted = slice 1 (length v - 1) v in Some (if unquoted = [] then Inl ''packages'' else Inr unquoted)))
      else Some (Inr v))"

fun scalars :: "string list \<Rightarrow> (string + string list) option" where
  "scalars [] = Some (Inr [])"
| "scalars (v # vs) =
     do {
       first \<leftarrow> scalar (trim v);
       (case first of
          Inl e \<Rightarrow> Some (Inl e)
        | Inr s \<Rightarrow> do {
            rest \<leftarrow> scalars vs;
            Some (case rest of Inl e \<Rightarrow> Inl e | Inr ss \<Rightarrow> Inr (s # ss)) }) }"

record pnpm_state =
  pn_found :: bool
  pn_in_packages :: bool
  pn_patterns :: "string list"
  pn_document :: nat
  pn_seen_content :: bool

definition text_lines :: "string \<Rightarrow> string list" where
  "text_lines s =
     (let ls = str_split NEWLINE s; ls' = (if last ls = [] then butlast ls else ls)
      in map (\<lambda>l. if l \<noteq> [] \<and> last l = char_of (13 :: nat) then butlast l else l) ls')"

definition pnpm_content :: "string \<Rightarrow> string \<Rightarrow> pnpm_state \<Rightarrow> (string + pnpm_state) option" where
  "pnpm_content line trimmed st =
     (let st = st\<lparr>pn_seen_content := True\<rparr>
      in case strip_prefix line ''packages:'' of
           Some rest \<Rightarrow>
             (if pn_found st then Some (Inl ''packages'')
              else (let st = st\<lparr>pn_found := True, pn_in_packages := True\<rparr>; tail = trim rest
                    in if tail = [] then Some (Inr st)
                       else if \<not> starts_with tail ''['' \<or> \<not> ends_with tail '']'' then Some (Inl ''packages'')
                       else map_option (map_sum id (\<lambda>ss. st\<lparr>pn_patterns := pn_patterns st @ ss, pn_in_packages := False\<rparr>))
                              (scalars (str_split CHR '','' (slice 1 (length tail - 1) tail)))))
         | None \<Rightarrow>
             (if pn_in_packages st \<and> starts_with trimmed ''- ''
              then map_option (map_sum id (\<lambda>s. st\<lparr>pn_patterns := pn_patterns st @ [s]\<rparr>)) (scalar (trim (drop 2 trimmed)))
              else if \<not> starts_with line '' '' then Some (Inr (st\<lparr>pn_in_packages := False\<rparr>))
              else if pn_in_packages st then Some (Inl ''packages'')
              else Some (Inr st)))"

definition pnpm_line :: "string \<Rightarrow> pnpm_state \<Rightarrow> (string + pnpm_state) option" where
  "pnpm_line line st =
     (let trimmed = trim line
      in if char_of (9 :: nat) \<in> set (take (length line - length (trim_start line)) line) then Some (Inl ''document'')
         else if trimmed = [] \<or> starts_with trimmed ''#'' then Some (Inr st)
         else if trimmed = ''---'' then
           (if 1 < pn_document st + 1 \<or> pn_seen_content st then Some (Inl ''document'')
            else Some (Inr (st\<lparr>pn_document := pn_document st + 1\<rparr>)))
         else pnpm_content line trimmed st)"

fun pnpm_lines :: "string list \<Rightarrow> pnpm_state \<Rightarrow> (string + string list) option" where
  "pnpm_lines [] st = Some (Inr (pn_patterns st))"
| "pnpm_lines (l # ls) st =
     do { r \<leftarrow> pnpm_line l st; (case r of Inl e \<Rightarrow> Some (Inl e) | Inr st' \<Rightarrow> pnpm_lines ls st') }"

definition parse_pnpm :: "string \<Rightarrow> (string + string list) option" where
  "parse_pnpm text' =
     pnpm_lines (text_lines text')
       \<lparr>pn_found = False, pn_in_packages = False, pn_patterns = [], pn_document = 0, pn_seen_content = False\<rparr>"

text \<open>The member lists a directory declares: the patterns, the file and the field they stand in.\<close>

type_synonym member_decl = "string list \<times> string \<times> string"

definition package_inputs :: "ts_packages \<Rightarrow> (string \<times> member_decl list) list" where
  "package_inputs ps =
     fold (\<lambda>(d, p) m.
       case pk_workspaces p of
         None \<Rightarrow> m
       | Some patterns \<Rightarrow>
           (let row = (patterns, or_default [] (join_rel (pk_dir p) ''package.json''), ''workspaces'')
            in AList.map_default (pk_dir p) [row] (\<lambda>rows. rows @ [row]) m)) (ps_by_dir ps) []"

text \<open>\<open>pnpm\<close> are the directories with a \<open>pnpm-workspace.yaml\<close> and its text.\<close>

fun add_pnpm_inputs ::
  "(string \<times> string option) list \<Rightarrow> (string \<times> member_decl list) list \<times> refused_config list \<times> string list
   \<Rightarrow> ((string \<times> member_decl list) list \<times> refused_config list \<times> string list) option" where
  "add_pnpm_inputs [] st = Some st"
| "add_pnpm_inputs ((d, content) # rows) (inputs, refused, bad_dirs) =
     (let f = or_default ''pnpm-workspace.yaml'' (join_rel d ''pnpm-workspace.yaml'') in do {
        parsed \<leftarrow> (case content of None \<Rightarrow> Some (Inl ''document'') | Some t \<Rightarrow> parse_pnpm t);
        add_pnpm_inputs rows
          (case parsed of
             Inr patterns \<Rightarrow>
               (AList.map_default d [(patterns, f, ''packages'')] (\<lambda>ds. ds @ [(patterns, f, ''packages'')]) inputs, refused, bad_dirs)
           | Inl field \<Rightarrow> (inputs, refused @ [\<lparr>rf_file = f, rf_field = field\<rparr>], List.insert d bad_dirs)) })"

fun trim_slashes :: "string \<Rightarrow> string" where
  "trim_slashes s = rev (dropWhile (\<lambda>c. c = CHR ''/'') (rev s))"

definition clean_pattern :: "string \<Rightarrow> bool \<times> string" where
  "clean_pattern pattern =
     (let (negated, raw) = (case strip_prefix pattern ''!'' of None \<Rightarrow> (False, pattern) | Some p \<Rightarrow> (True, p))
      in (negated, trim_slashes (or_default raw (strip_prefix raw ''./''))))"

definition pattern_selects :: "string \<Rightarrow> string \<Rightarrow> string \<Rightarrow> bool" where
  "pattern_selects d clean package_dir =
     (case (if d = [] then Some package_dir else strip_prefix package_dir (d @ ''/'')) of
        None \<Rightarrow> False
      | Some relative \<Rightarrow> glob_matches clean relative)"

definition build_root ::
  "ts_packages \<Rightarrow> string \<times> member_decl list \<Rightarrow> ts_workspace \<times> refused_config list" where
  "build_root ps input =
     (case input of (d, declarations) \<Rightarrow>
        (let valid = (\<lambda>(patterns, _, _). list_all valid_pattern patterns);
             refused = map (\<lambda>(_, f, field). \<lparr>rf_file = f, rf_field = field\<rparr>) (filter (\<lambda>x. \<not> valid x) declarations);
             bad = list_ex (\<lambda>x. \<not> valid x) declarations;
             patterns = map clean_pattern (concat (map fst (filter valid declarations)));
             included = (\<lambda>pd. list_ex (\<lambda>(negated, clean). \<not> negated \<and> pattern_selects d clean pd) patterns);
             excluded = (\<lambda>pd. list_ex (\<lambda>(negated, clean). negated \<and> pattern_selects d clean pd) patterns);
             dirs = (\<lambda>name. sort (map fst (filter (\<lambda>(pd, p). included pd \<and> \<not> excluded pd \<and> pk_name p = Some name) (ps_by_dir ps))))
         in (\<lparr>ws_dir = d, ws_members = (\<lambda>name. if bad \<or> dirs name = [] then None else Some (dirs name)), ws_refused = bad\<rparr>, refused)))"

definition root_order :: "ts_workspace \<Rightarrow> int \<times> string" where
  "root_order w = (- int (length (ws_dir w)), ws_dir w)"

definition read_workspaces :: "ts_packages \<Rightarrow> (string \<times> string option) list \<Rightarrow> ts_workspaces option" where
  "read_workspaces ps pnpm =
     do {
       (inputs, refused, bad_dirs) \<leftarrow> add_pnpm_inputs pnpm (package_inputs ps, [], []);
       let built = map (build_root ps) inputs;
       let roots = map (\<lambda>(w, _). w\<lparr>ws_refused := ws_refused w \<or> ws_dir w \<in> set bad_dirs\<rparr>) built;
       let bare = map (\<lambda>d. \<lparr>ws_dir = d, ws_members = (\<lambda>_. None), ws_refused = True\<rparr>)
         (filter (\<lambda>d. d \<notin> set (map fst inputs)) bad_dirs);
       Some \<lparr>wk_roots = sort_key root_order (roots @ bare),
             wk_refused = sort_key rf_file (refused @ concat (map snd built))\<rparr> }"

end
