(* ===== verification/TsResolver.thy ===== *)
theory TsResolver
  imports TsModules
begin

text \<open>
  Build outputs, the module configuration as a whole, and the resolver of a file whose mode is
  declared (\<open>src/tsgraph/build_output.rs\<close>, \<open>config.rs\<close>, \<open>declared.rs\<close>). The resolver answers a file,
  a reason out of the closed vocabulary, or that the specifier is external under the old rules.
\<close>

section \<open>Build outputs\<close>

record build_mapping =
  bm_out_dir :: string
  bm_root_dir :: "string option"

record build_outputs =
  bo_mappings :: "string \<Rightarrow> build_mapping option"
  bo_refused :: "refused_config list"

definition output_sources :: "string \<Rightarrow> string list" where
  "output_sources suffix =
     (if suffix = ''.mjs'' then [''.mts'', ''.mjs'']
      else if suffix = ''.cjs'' then [''.cts'', ''.cjs'']
      else [''.ts'', ''.tsx'', ''.js'', ''.jsx''])"

text \<open>The first candidate that is indexed; a candidate that leaves the repository ends the search.\<close>

fun first_output :: "string \<Rightarrow> string \<Rightarrow> string set \<Rightarrow> string list \<Rightarrow> string option" where
  "first_output root_dir stem files [] = None"
| "first_output root_dir stem files (e # es) =
     (case join_rel root_dir (stem @ e) of
        None \<Rightarrow> None
      | Some candidate \<Rightarrow> (if candidate \<in> files then Some candidate else first_output root_dir stem files es))"

definition output_source :: "build_outputs \<Rightarrow> string \<Rightarrow> string \<Rightarrow> string set \<Rightarrow> string option" where
  "output_source bo package_dir t files =
     do {
       mapping \<leftarrow> bo_mappings bo package_dir;
       root_dir \<leftarrow> bm_root_dir mapping;
       relative \<leftarrow> strip_prefix t (bm_out_dir mapping @ ''/'');
       let stem = (case str_rfind relative CHR ''.'' of None \<Rightarrow> relative | Some i \<Rightarrow> take i relative);
       first_output root_dir stem files (output_sources (drop (length stem) relative)) }"

definition output_covers :: "build_outputs \<Rightarrow> string \<Rightarrow> string \<Rightarrow> bool" where
  "output_covers bo package_dir t \<longleftrightarrow>
     (case bo_mappings bo package_dir of None \<Rightarrow> False | Some mapping \<Rightarrow> starts_with t (bm_out_dir mapping @ ''/''))"

record mapping_facts =
  mp_out_dir :: "string option"
  mp_root_dir :: "string option"
  mp_composite :: "bool option"

text \<open>A directory option of one config: what was known stands, and a value of the wrong shape is refused.\<close>

definition dir_option :: "string \<Rightarrow> (string \<times> json) list \<Rightarrow> string \<Rightarrow> string option \<Rightarrow> refused_config + string option" where
  "dir_option rel options' key known =
     (case (known, map_of options' key) of
        (None, Some input) \<Rightarrow>
          (case as_str input of
             None \<Rightarrow> Inl \<lparr>rf_file = rel, rf_field = ''compilerOptions.'' @ key\<rparr>
           | Some path \<Rightarrow>
               (if path = [] then Inl \<lparr>rf_file = rel, rf_field = ''compilerOptions.'' @ key\<rparr>
                else Inr (join_rel (dir_of rel) path)))
      | _ \<Rightarrow> Inr known)"

definition mapping_options :: "string \<Rightarrow> (string \<times> json) list option \<Rightarrow> mapping_facts \<Rightarrow> refused_config + mapping_facts" where
  "mapping_options rel options' facts =
     (case options' of
        None \<Rightarrow> Inr facts
      | Some o' \<Rightarrow>
          (case dir_option rel o' ''outDir'' (mp_out_dir facts) of
             Inl r \<Rightarrow> Inl r
           | Inr out_dir \<Rightarrow>
               (case dir_option rel o' ''rootDir'' (mp_root_dir facts) of
                  Inl r \<Rightarrow> Inl r
                | Inr root_dir \<Rightarrow>
                    Inr \<lparr>mp_out_dir = out_dir, mp_root_dir = root_dir,
                      mp_composite = first_of (mp_composite facts) (Option.bind (map_of o' ''composite'') as_bool)\<rparr>)))"

fun mapping_chain ::
  "doc_reader \<Rightarrow> (string \<Rightarrow> json option) \<Rightarrow> nat \<Rightarrow> string set \<Rightarrow> string \<Rightarrow> mapping_facts \<Rightarrow> refused_config + mapping_facts" where
  "mapping_chain read parse 0 seen rel facts = Inr facts"
| "mapping_chain read parse (Suc n) seen rel facts =
     (if rel \<in> seen then Inr facts
      else (case Option.bind (Option.bind (read rel) id) (\<lambda>t. parse (strip_jsonc t)) of
              None \<Rightarrow> Inr facts
            | Some v \<Rightarrow>
                (case mapping_options rel (Option.bind (json_get v ''compilerOptions'') json_object) facts of
                   Inl r \<Rightarrow> Inl r
                 | Inr facts \<Rightarrow>
                     (case next_extends rel v of
                        None \<Rightarrow> Inr facts
                      | Some next_rel \<Rightarrow> mapping_chain read parse n (insert rel seen) next_rel facts))))"

definition read_mapping :: "doc_reader \<Rightarrow> (string \<Rightarrow> json option) \<Rightarrow> string \<Rightarrow> build_mapping option \<times> refused_config list" where
  "read_mapping read parse start =
     (case mapping_chain read parse TSCONFIG_CHAIN_LIMIT {} start
             \<lparr>mp_out_dir = None, mp_root_dir = None, mp_composite = None\<rparr> of
        Inl r \<Rightarrow> (None, [r])
      | Inr facts \<Rightarrow>
          (map_option (\<lambda>out_dir.
             \<lparr>bm_out_dir = out_dir,
              bm_root_dir = first_of (mp_root_dir facts) (if mp_composite facts = Some True then Some (dir_of start) else None)\<rparr>)
             (mp_out_dir facts), []))"

text \<open>The config that governs a package: the first ancestor directory that has one.\<close>

function governing_config :: "doc_reader \<Rightarrow> string \<Rightarrow> string option" where
  "governing_config read d =
     (let config = or_default [] (join_rel d ''tsconfig.json'')
      in if read config \<noteq> None then Some config
         else if d = [] then None
         else governing_config read (dir_of d))"
  by pat_completeness auto
termination
  by (relation "measure (\<lambda>(_, d). length d)") (auto intro: dir_of_shorter)

declare governing_config.simps [simp del]

definition read_build_outputs :: "doc_reader \<Rightarrow> (string \<Rightarrow> json option) \<Rightarrow> ts_packages \<Rightarrow> build_outputs" where
  "read_build_outputs read parse ps =
     (let mapping = (\<lambda>p. case governing_config read (pk_dir p) of None \<Rightarrow> (None, []) | Some config \<Rightarrow> read_mapping read parse config)
      in \<lparr>bo_mappings = (\<lambda>d. Option.bind (map_of (ps_by_dir ps) d) (\<lambda>p. fst (mapping p))),
          bo_refused = one_per_file (sort_key rf_file (concat (map (\<lambda>(_, p). snd (mapping p)) (ps_by_dir ps))))\<rparr>)"

section \<open>The module configuration\<close>

record module_config =
  mc_modes :: mode_scopes
  mc_packages :: "ts_packages option"
  mc_workspaces :: "ts_workspaces option"
  mc_build_outputs :: "build_outputs option"
  mc_refused :: "refused_config list"

definition empty_config :: module_config where
  "empty_config =
     \<lparr>mc_modes = \<lparr>mo_by_file = [], mo_refused = []\<rparr>, mc_packages = None, mc_workspaces = None,
      mc_build_outputs = None, mc_refused = []\<rparr>"

definition inert :: "module_config \<Rightarrow> bool" where
  "inert config \<longleftrightarrow> mo_by_file (mc_modes config) = []"

definition config_mode :: "module_config \<Rightarrow> string \<Rightarrow> mode_scope option" where
  "config_mode config f = map_of (mo_by_file (mc_modes config)) f"

text \<open>
  What is read from disk: a document by its path, the \<open>package.json\<close> and \<open>pnpm-workspace.yaml\<close> found by the
  walk with their directories, and \<open>serde\<close>'s readings of a document.
\<close>

record disk =
  dk_document :: doc_reader
  dk_packages :: "(string \<times> string option) list"
  dk_pnpm :: "(string \<times> string option) list"
  dk_parse_chain :: "string \<Rightarrow> ts_config_doc option"
  dk_parse :: "string \<Rightarrow> json option"

definition declared_config :: "disk \<Rightarrow> mode_scopes \<Rightarrow> module_config option" where
  "declared_config dk modes =
     (let packages = read_packages (\<lambda>t. Option.bind (dk_parse dk t) json_object) (dk_packages dk);
          build = read_build_outputs (dk_document dk) (dk_parse dk) packages
      in do {
        workspaces \<leftarrow> read_workspaces packages (dk_pnpm dk);
        Some \<lparr>mc_modes = modes, mc_packages = Some packages, mc_workspaces = Some workspaces,
              mc_build_outputs = Some build,
              mc_refused = sorted_refusals (mo_refused modes @ ps_refused packages @ wk_refused workspaces @ bo_refused build)\<rparr> })"

definition read_ts_resolution :: "disk \<Rightarrow> string list \<Rightarrow> (ts_alias_scopes \<times> module_config) option" where
  "read_ts_resolution dk files =
     (let alias = read_ts_alias_scopes (\<lambda>rel. Option.bind (dk_document dk rel) id) (dk_parse_chain dk) files;
          modes = read_modes (dk_document dk) (dk_parse dk) files
      in if mo_by_file modes = []
         then Some (alias, empty_config\<lparr>mc_modes := modes, mc_refused := filter (\<lambda>r. rf_field r = ''document'') (mo_refused modes)\<rparr>)
         else map_option (Pair alias) (declared_config dk modes))"

section \<open>Resolving under a declared mode\<close>

datatype ts_usage = Use_Import | Use_Require

fun usage_condition :: "ts_usage \<Rightarrow> string" where
  "usage_condition Use_Import = ''import''"
| "usage_condition Use_Require = ''require''"

datatype resolution = Resolved string | Unresolved ts_reason | Legacy_External

record ts_resolver =
  tr_files :: "string set"
  tr_alias :: ts_alias_scopes
  tr_config :: module_config

definition file_format :: "ts_resolver \<Rightarrow> string \<Rightarrow> ts_usage" where
  "file_format rv f =
     (if ends_with f ''.mts'' \<or> ends_with f ''.mjs'' then Use_Import
      else if ends_with f ''.cts'' \<or> ends_with f ''.cjs'' then Use_Require
      else (let package = Option.bind (mc_packages (tr_config rv)) (\<lambda>ps. nearest_package ps f)
            in if Option.bind package pk_module_type = Some ''module'' then Use_Import else Use_Require))"

definition is_node :: "ts_mode \<Rightarrow> bool" where
  "is_node mode \<longleftrightarrow> mode = Node16 \<or> mode = Node_Next"

definition static_usage :: "ts_resolver \<Rightarrow> string \<Rightarrow> ts_usage" where
  "static_usage rv f =
     (case config_mode (tr_config rv) f of
        None \<Rightarrow> Use_Import
      | Some scope \<Rightarrow>
          (if is_node (ms_mode scope) then file_format rv f
           else if ms_mode scope = Bundler \<and> (ends_with f ''.cts'' \<or> ends_with f ''.cjs'') then Use_Require
           else Use_Import))"

definition is_declaration :: "string \<Rightarrow> bool" where
  "is_declaration path \<longleftrightarrow> list_ex (\<lambda>d. ends_with path d) [''.d.ts'', ''.d.mts'', ''.d.cts'']"

definition is_output :: "string \<Rightarrow> bool" where
  "is_output e \<longleftrightarrow> e \<in> {''.js'', ''.jsx'', ''.mjs'', ''.cjs''}"

definition declared_suffixes :: "string \<Rightarrow> string list" where
  "declared_suffixes extension =
     (if extension = ''.js'' then [''.ts'', ''.tsx'', ''.js'', ''.jsx'']
      else if extension = ''.jsx'' then [''.tsx'', ''.ts'', ''.jsx'', ''.js'']
      else if extension = ''.mjs'' then [''.mts'', ''.mjs'']
      else if extension = ''.cjs'' then [''.cts'', ''.cjs'']
      else if extension = [] then [''.ts'', ''.tsx'', ''.js'', ''.jsx'']
      else [''.ts'', ''.tsx'', ''.js'', ''.jsx'', extension])"

definition declared_candidates :: "string \<Rightarrow> string list" where
  "declared_candidates path =
     (let extension = extension_of path;
          stem = (if extension = [] \<or> \<not> is_output extension then path else take (length path - length extension) path)
      in map (\<lambda>suffix. if suffix = extension \<and> extension \<noteq> [] \<and> stem = path then path else stem @ suffix)
           (declared_suffixes extension))"

definition declared_probe_file :: "ts_resolver \<Rightarrow> string \<Rightarrow> bool \<Rightarrow> string option" where
  "declared_probe_file rv path strict =
     (let extension = extension_of path
      in if (strict \<or> extension \<in> {''.ts'', ''.tsx'', ''.mts'', ''.cts''}) \<and> \<not> is_output extension
         then (if \<not> is_declaration path \<and> path \<in> tr_files rv then Some path else None)
         else List.find (\<lambda>c. \<not> is_declaration c \<and> c \<in> tr_files rv) (declared_candidates path))"

definition probe_directory :: "ts_resolver \<Rightarrow> string \<Rightarrow> string option" where
  "probe_directory rv path =
     first_of
       (do {
          packages \<leftarrow> mc_packages (tr_config rv);
          package \<leftarrow> map_of (ps_by_dir packages) path;
          main \<leftarrow> pk_main package;
          candidate \<leftarrow> join_rel path main;
          declared_probe_file rv candidate False })
       (declared_probe_file rv (path @ ''/index'') False)"

definition declared_probe :: "ts_resolver \<Rightarrow> string \<Rightarrow> bool \<Rightarrow> bool \<Rightarrow> string option" where
  "declared_probe rv path directory strict =
     first_of (declared_probe_file rv path strict) (if directory then probe_directory rv path else None)"

definition package_name :: "string \<Rightarrow> string \<times> string" where
  "package_name spec =
     (let n = (if starts_with spec ''@'' then 2 else 1); parts = str_split CHR ''/'' spec;
          rest = str_join ''/'' (drop n parts)
      in (str_join ''/'' (take n parts), if rest = [] then ''.'' else ''./'' @ rest))"

definition relative_file :: "ts_resolver \<Rightarrow> string \<Rightarrow> string \<Rightarrow> ts_mode \<Rightarrow> ts_usage \<Rightarrow> resolution" where
  "relative_file rv f spec mode usage =
     (let answer = (\<lambda>r. case r of None \<Rightarrow> Unresolved Target_Not_Indexed | Some t \<Rightarrow> Resolved t)
      in case join_rel (dir_of f) spec of
           None \<Rightarrow> Unresolved Target_Not_Indexed
         | Some path \<Rightarrow>
             (if \<not> (is_node mode \<and> usage = Use_Import) then answer (declared_probe rv path True False)
              else if extension_of path \<noteq> [] then answer (declared_probe rv path False True)
              else if declared_probe_file rv path False \<noteq> None then Unresolved Esm_Extension_Required
              else if probe_directory rv path \<noteq> None then Unresolved Directory_Import_Not_Allowed
              else Unresolved Target_Not_Indexed))"

definition package_file :: "ts_resolver \<Rightarrow> ts_package \<Rightarrow> string \<Rightarrow> bool \<Rightarrow> bool \<Rightarrow> resolution" where
  "package_file rv package t directory strict =
     (case Option.bind (mc_build_outputs (tr_config rv)) (\<lambda>bo. output_source bo (pk_dir package) t (tr_files rv)) of
        Some hit \<Rightarrow> Resolved hit
      | None \<Rightarrow>
          (case declared_probe rv t directory strict of
             Some hit \<Rightarrow> Resolved hit
           | None \<Rightarrow>
               (if is_declaration t then Unresolved Declaration_Only_Target
                else if (case mc_build_outputs (tr_config rv) of None \<Rightarrow> False | Some bo \<Rightarrow> output_covers bo (pk_dir package) t)
                then Unresolved Build_Output_Without_Source_Mapping
                else Unresolved Target_Not_Indexed)))"

fun first_target :: "ts_resolver \<Rightarrow> ts_package \<Rightarrow> bool \<Rightarrow> ts_reason \<Rightarrow> string list \<Rightarrow> resolution" where
  "first_target rv package strict latest [] = Unresolved latest"
| "first_target rv package strict latest (t # ts) =
     (if \<not> starts_with t ''./'' then first_target rv package strict latest ts
      else (case join_rel (pk_dir package) t of
              None \<Rightarrow> first_target rv package strict latest ts
            | Some path \<Rightarrow>
                (case package_file rv package path False strict of
                   Resolved hit \<Rightarrow> Resolved hit
                 | Unresolved reason \<Rightarrow> first_target rv package strict reason ts
                 | Legacy_External \<Rightarrow> first_target rv package strict latest ts)))"

definition selected_target :: "ts_resolver \<Rightarrow> ts_package \<Rightarrow> map_match \<Rightarrow> bool \<Rightarrow> bool \<Rightarrow> resolution" where
  "selected_target rv package selected from_imports strict =
     (case selected of
        Not_Matched \<Rightarrow> Unresolved (if from_imports then Imports_Specifier_Not_Matched else Exports_Subpath_Not_Matched)
      | No_Condition \<Rightarrow> Unresolved No_Matching_Condition
      | Targets ts \<Rightarrow> first_target rv package strict Target_Not_Indexed ts)"

definition package_target ::
  "ts_resolver \<Rightarrow> ts_package \<Rightarrow> string \<Rightarrow> ts_mode \<Rightarrow> ts_usage \<Rightarrow> string list \<Rightarrow> resolution" where
  "package_target rv package subpath mode usage conditions =
     (case (if mode \<noteq> Node10 then pk_exports package else None) of
        Some m \<Rightarrow>
          selected_target rv package (map_exports m subpath (usage_condition usage) mode conditions) False
            (is_node mode \<and> usage = Use_Import)
      | None \<Rightarrow>
          (case join_rel (pk_dir package)
                  (if subpath = ''.'' then or_default ''index'' (pk_main package)
                   else or_default subpath (strip_prefix subpath ''./'')) of
             None \<Rightarrow> Unresolved Target_Not_Indexed
           | Some t \<Rightarrow> package_file rv package t True False))"

definition package_import :: "ts_resolver \<Rightarrow> string \<Rightarrow> string \<Rightarrow> mode_scope \<Rightarrow> ts_usage \<Rightarrow> resolution" where
  "package_import rv f spec scope usage =
     (case Option.bind (mc_packages (tr_config rv)) (\<lambda>ps. nearest_package ps f) of
        None \<Rightarrow> Unresolved Imports_Specifier_Not_Matched
      | Some package \<Rightarrow>
          (case pk_imports package of
             None \<Rightarrow> Unresolved Imports_Specifier_Not_Matched
           | Some m \<Rightarrow>
               selected_target rv package (select_key m spec (usage_condition usage) (ms_mode scope) (ms_conditions scope)) True
                 (is_node (ms_mode scope) \<and> usage = Use_Import)))"

definition workspace_member ::
  "ts_resolver \<Rightarrow> string \<Rightarrow> string \<Rightarrow> string \<Rightarrow> mode_scope \<Rightarrow> ts_usage \<Rightarrow> resolution" where
  "workspace_member rv f name subpath scope usage =
     (case Option.bind (mc_workspaces (tr_config rv)) (\<lambda>ws. nearest_workspace ws f) of
        None \<Rightarrow> Unresolved Bare_Package_Outside_Workspace
      | Some workspace \<Rightarrow>
          (if ws_refused workspace then Unresolved Configuration_Refused
           else (case ws_members workspace name of
                   None \<Rightarrow> Unresolved Bare_Package_Outside_Workspace
                 | Some members \<Rightarrow>
                     (if 1 < length members then Unresolved Ambiguous_Workspace_Name
                      else (case Option.bind (mc_packages (tr_config rv)) (\<lambda>ps. map_of (ps_by_dir ps) (hd members)) of
                              None \<Rightarrow> Unresolved Configuration_Refused
                            | Some package \<Rightarrow>
                                package_target rv package subpath (ms_mode scope) usage (ms_conditions scope))))))"

text \<open>A bare name: the package's own exports before its workspace's members.\<close>

definition bare_package :: "ts_resolver \<Rightarrow> string \<Rightarrow> string \<Rightarrow> mode_scope \<Rightarrow> ts_usage \<Rightarrow> resolution" where
  "bare_package rv f spec scope usage =
     (case package_name spec of (name, subpath) \<Rightarrow>
        (case (if ms_mode scope \<noteq> Node10
               then Option.bind (mc_packages (tr_config rv)) (\<lambda>ps. nearest_package ps f) else None) of
           None \<Rightarrow> workspace_member rv f name subpath scope usage
         | Some own \<Rightarrow>
             (if pk_name own = Some name \<and> pk_exports own \<noteq> None
              then package_target rv own subpath (ms_mode scope) usage (ms_conditions scope)
              else workspace_member rv f name subpath scope usage)))"

text \<open>The aliases of the file's scope: its targets, and its base when no alias matches.\<close>

definition declared_alias :: "ts_resolver \<Rightarrow> string \<Rightarrow> string \<Rightarrow> bool \<Rightarrow> string option" where
  "declared_alias rv f spec strict =
     (let aliases = scope_for f (tr_alias rv); targets = alias_targets spec (pa_aliases aliases);
          probe = (\<lambda>path. declared_probe rv path (\<not> strict) strict)
      in first_of (first_some probe (List.map_filter id targets))
           (if targets \<noteq> [] then None
            else do { base \<leftarrow> pa_base_url_dir aliases; path \<leftarrow> join_rel base spec; probe path }))"

definition resolve_legacy :: "ts_resolver \<Rightarrow> string \<Rightarrow> string \<Rightarrow> resolution" where
  "resolve_legacy rv f spec =
     (case resolve_specifier f spec (tr_files rv) (tr_alias rv) of None \<Rightarrow> Legacy_External | Some t \<Rightarrow> Resolved t)"

definition resolve :: "ts_resolver \<Rightarrow> string \<Rightarrow> string \<Rightarrow> ts_usage \<Rightarrow> resolution" where
  "resolve rv f spec usage =
     (case config_mode (tr_config rv) f of
        None \<Rightarrow> resolve_legacy rv f spec
      | Some scope \<Rightarrow>
          (if ms_mode scope = Classic then resolve_legacy rv f spec
           else if is_node (ms_mode scope)
                \<and> (case mc_packages (tr_config rv) of None \<Rightarrow> False | Some ps \<Rightarrow> nearest_refused ps f)
           then Unresolved Configuration_Refused
           else if starts_with spec ''.'' then relative_file rv f spec (ms_mode scope) usage
           else (case declared_alias rv f spec (is_node (ms_mode scope) \<and> usage = Use_Import) of
                   Some t \<Rightarrow> Resolved t
                 | None \<Rightarrow>
                     (if starts_with spec ''#'' \<and> ms_mode scope \<noteq> Node10 then package_import rv f spec scope usage
                      else if CHR '':'' \<in> set spec then Unresolved Bare_Package_Outside_Workspace
                      else bare_package rv f spec scope usage))))"

end
