(* ===== verification/TsGraph.thy ===== *)
theory TsGraph
  imports TsResolver
begin

text \<open>
  The TypeScript graph (\<open>src/extract/ts_fragment_types.rs\<close>, \<open>src/tsgraph/bindings.rs\<close>,
  \<open>src/tsgraph/disclosure.rs\<close>, \<open>src/tsgraph.rs\<close>): what a file says, the exports of every file, the lookup that
  follows re-export barrels, the import edges of a file, and the graph. The lookup's depth is bounded
  by \<open>BARREL_HOPS\<close>, and its recursion ends by that bound and by the rows of each file. The two
  fields of a fragment only the template join reads are left out.
\<close>

section \<open>What a file says\<close>

record ts_fragment_def =
  td_name :: string
  td_kind :: string
  td_line :: nat
  td_end_line :: nat
  td_local :: bool

record ts_binding =
  tb_local :: string
  tb_imported :: string

record ts_import =
  ti_spec :: string
  ti_line :: nat
  ti_bindings :: "ts_binding list"
  ti_require :: bool

record ts_reexport_name =
  rn_exported :: string
  rn_imported :: string

record ts_reexport =
  rx_spec :: string
  rx_line :: nat
  rx_star :: bool
  rx_names :: "ts_reexport_name list"
  rx_namespace :: "string option"

record ts_dynamic_import =
  dy_spec :: string
  dy_line :: nat

record ts_ref =
  tf_kind :: string
  tf_name :: string
  tf_member :: "string option"
  tf_line :: nat

record ts_fragment =
  fr_defs :: "ts_fragment_def list"
  fr_imports :: "ts_import list"
  fr_reexports :: "ts_reexport list"
  fr_refs :: "ts_ref list"
  fr_default :: "string option"
  fr_export_equals :: "string option"
  fr_dynamic_imports :: "ts_dynamic_import list"
  fr_non_literal_dynamic_imports :: nat

definition empty_ts_fragment :: ts_fragment where
  "empty_ts_fragment =
     \<lparr>fr_defs = [], fr_imports = [], fr_reexports = [], fr_refs = [], fr_default = None, fr_export_equals = None,
      fr_dynamic_imports = [], fr_non_literal_dynamic_imports = 0\<rparr>"

section \<open>Exports and re-exports\<close>

record resolved_reexport =
  rr_spec :: string
  rr_line :: nat
  rr_star :: bool
  rr_names :: "(string \<times> string) list"
  rr_namespace :: "string option"
  rr_to :: "string option"
  rr_reason :: "ts_reason option"

record ts_exports =
  ex_by_file :: "string \<Rightarrow> (string \<Rightarrow> nat option) option"
  ex_reexports :: "string \<Rightarrow> resolved_reexport list option"

definition resolved_row :: "ts_resolver \<Rightarrow> string \<Rightarrow> ts_reexport \<Rightarrow> resolved_reexport" where
  "resolved_row rv f rx =
     (let (target, reason) =
        (case resolve rv f (rx_spec rx) (static_usage rv f) of
           Resolved t \<Rightarrow> (Some t, None)
         | Unresolved r \<Rightarrow> (None, Some r)
         | Legacy_External \<Rightarrow> (None, None))
      in \<lparr>rr_spec = rx_spec rx, rr_line = rx_line rx, rr_star = rx_star rx,
          rr_names = map (\<lambda>n. (rn_exported n, rn_imported n)) (rx_names rx),
          rr_namespace = rx_namespace rx, rr_to = target, rr_reason = reason\<rparr>)"

definition resolve_reexports :: "ts_resolver \<Rightarrow> (string \<times> ts_fragment) list \<Rightarrow> string \<Rightarrow> resolved_reexport list option" where
  "resolve_reexports rv fragments = map_of (rev (map (\<lambda>(f, frag). (f, map (resolved_row rv f) (fr_reexports frag))) fragments))"

definition own_export :: "ts_exports \<Rightarrow> string \<Rightarrow> string \<Rightarrow> nat option" where
  "own_export ex f name = Option.bind (ex_by_file ex f) (\<lambda>m. m name)"

definition reexport_rows :: "ts_exports \<Rightarrow> string \<Rightarrow> resolved_reexport list" where
  "reexport_rows ex f = or_default [] (ex_reexports ex f)"

definition namespace_row :: "ts_exports \<Rightarrow> string \<Rightarrow> string \<Rightarrow> bool" where
  "namespace_row ex f name \<longleftrightarrow> list_ex (\<lambda>row. rr_namespace row = Some name) (reexport_rows ex f)"

text \<open>Where one row sends a name, and where a file's rows send it, in order.\<close>

definition row_steps :: "string \<Rightarrow> resolved_reexport \<Rightarrow> (string \<times> string) list" where
  "row_steps name row =
     (case rr_to row of
        None \<Rightarrow> []
      | Some t \<Rightarrow>
          (if rr_star row then [(t, name)]
           else map (\<lambda>(_, imported). (t, imported)) (filter (\<lambda>(exported, _). exported = name) (rr_names row))))"

definition barrel_steps :: "ts_exports \<Rightarrow> string \<Rightarrow> string \<Rightarrow> (string \<times> string) list" where
  "barrel_steps ex f name = concat (map (row_steps name) (reexport_rows ex f))"

type_synonym visited = "string \<times> string \<Rightarrow> nat option"

text \<open>\<open>lookup_export\<close>, and its loop over the rows as \<open>lookup_steps\<close>; the visited map is threaded through.\<close>

function lookup_export :: "ts_exports \<Rightarrow> string \<Rightarrow> string \<Rightarrow> nat \<Rightarrow> visited \<Rightarrow> nat option \<times> visited"
  and lookup_steps :: "ts_exports \<Rightarrow> (string \<times> string) list \<Rightarrow> nat \<Rightarrow> visited \<Rightarrow> nat option \<times> visited" where
  "lookup_export ex f name hops visited =
     (if (case visited (f, name) of None \<Rightarrow> False | Some seen \<Rightarrow> seen \<le> hops) then (None, visited)
      else (let visited = visited((f, name) \<mapsto> hops)
            in case own_export ex f name of
                 Some own \<Rightarrow> (Some own, visited)
               | None \<Rightarrow>
                   (if BARREL_HOPS \<le> hops then (None, visited)
                    else if namespace_row ex f name then (None, visited)
                    else lookup_steps ex (barrel_steps ex f name) (hops + 1) visited)))"
| "lookup_steps ex [] hops visited = (None, visited)"
| "lookup_steps ex (s # ss) hops visited =
     (case lookup_export ex (fst s) (snd s) hops visited of
        (Some hit, visited) \<Rightarrow> (Some hit, visited)
      | (None, visited) \<Rightarrow> lookup_steps ex ss hops visited)"
  by pat_completeness auto
termination
  by (relation "measures [\<lambda>x. case x of Inl (_, _, _, h, _) \<Rightarrow> Suc BARREL_HOPS - h | Inr (_, _, h, _) \<Rightarrow> Suc BARREL_HOPS - h,
       \<lambda>x. case x of Inl _ \<Rightarrow> 0 | Inr (_, ss, _, _) \<Rightarrow> Suc (length ss)]") auto

declare lookup_export.simps [simp del] lookup_steps.simps [simp del]

definition lookup :: "ts_exports \<Rightarrow> string \<Rightarrow> string \<Rightarrow> nat option" where
  "lookup ex f name = fst (lookup_export ex f name 0 (\<lambda>_. None))"

text \<open>The file a name stands for as a namespace: the first row of each sort that fits.\<close>

function namespace_target_in ::
  "ts_exports \<Rightarrow> string \<Rightarrow> string \<Rightarrow> nat \<Rightarrow> string set \<Rightarrow> string option \<times> string set"
  and namespace_stars :: "ts_exports \<Rightarrow> string list \<Rightarrow> string \<Rightarrow> nat \<Rightarrow> string set \<Rightarrow> string option \<times> string set" where
  "namespace_target_in ex f name hops visited =
     (if BARREL_HOPS \<le> hops \<or> f \<in> visited then (None, visited)
      else (let visited = insert f visited; rows = reexport_rows ex f
            in if own_export ex f name \<noteq> None then (None, visited)
               else (case List.find (\<lambda>row. rr_namespace row = Some name) rows of
                       Some row \<Rightarrow> (rr_to row, visited)
                     | None \<Rightarrow>
                         (case List.find (\<lambda>row. list_ex (\<lambda>(exported, _). exported = name) (rr_names row)) rows of
                            Some row \<Rightarrow>
                              (case rr_to row of
                                 None \<Rightarrow> (None, visited)
                               | Some t \<Rightarrow>
                                   namespace_target_in ex t (or_default [] (map_of (rr_names row) name)) (hops + 1) visited)
                          | None \<Rightarrow> namespace_stars ex (List.map_filter rr_to (filter rr_star rows)) name (hops + 1) visited))))"
| "namespace_stars ex [] name hops visited = (None, visited)"
| "namespace_stars ex (t # ts) name hops visited =
     (case namespace_target_in ex t name hops visited of
        (Some hit, visited) \<Rightarrow> (Some hit, visited)
      | (None, visited) \<Rightarrow> namespace_stars ex ts name hops visited)"
  by pat_completeness auto
termination
  by (relation "measures [\<lambda>x. case x of Inl (_, _, _, h, _) \<Rightarrow> Suc BARREL_HOPS - h | Inr (_, _, _, h, _) \<Rightarrow> Suc BARREL_HOPS - h,
       \<lambda>x. case x of Inl _ \<Rightarrow> 0 | Inr (_, ss, _, _, _) \<Rightarrow> Suc (length ss)]") auto

declare namespace_target_in.simps [simp del] namespace_stars.simps [simp del]

definition namespace_target :: "ts_exports \<Rightarrow> string \<Rightarrow> string \<Rightarrow> string option" where
  "namespace_target ex f name = fst (namespace_target_in ex f name 0 {})"

definition lookup_member :: "ts_exports \<Rightarrow> string \<Rightarrow> string \<Rightarrow> string option \<Rightarrow> nat option" where
  "lookup_member ex f name member =
     first_of (do { m \<leftarrow> member; ns \<leftarrow> namespace_target ex f name; lookup ex ns m }) (lookup ex f name)"

section \<open>The import edges of a file\<close>

record unresolved_import =
  ui_from_file :: string
  ui_from_line :: nat
  ui_target :: string
  ui_reason :: string

definition unresolved_row :: "string \<Rightarrow> nat \<Rightarrow> string \<Rightarrow> ts_reason \<Rightarrow> unresolved_import" where
  "unresolved_row f line spec reason =
     \<lparr>ui_from_file = f, ui_from_line = line, ui_target = spec, ui_reason = reason_str reason\<rparr>"

fun bind_def :: "string \<Rightarrow> edge \<Rightarrow> edge" where
  "bind_def i (Import f line t to_file via bound) = Import f line t to_file via (if i \<in> set bound then bound else bound @ [i])"
| "bind_def i e = e"

record file_imports =
  fi_edges :: "edge list"
  fi_external :: nat
  fi_bindings :: "(string \<times> string \<times> string) list"
  fi_unresolved :: "unresolved_import list"

definition no_imports :: file_imports where
  "no_imports = \<lparr>fi_edges = [], fi_external = 0, fi_bindings = [], fi_unresolved = []\<rparr>"

text \<open>A specifier that found no file of the index.\<close>

definition add_unresolved :: "string \<Rightarrow> nat \<Rightarrow> string \<Rightarrow> ts_reason option \<Rightarrow> file_imports \<Rightarrow> file_imports" where
  "add_unresolved f line spec reason out =
     out\<lparr>fi_external := fi_external out + 1,
         fi_unresolved := fi_unresolved out @ (case reason of None \<Rightarrow> [] | Some r \<Rightarrow> [unresolved_row f line spec r])\<rparr>"

text \<open>
  One binding of a statement: \<open>edges\<close> are the statement's, its own edge first and then one per declaring
  file reached through the barrel, whose place \<open>via_edge\<close> holds.
\<close>

definition bind_export ::
  "graph_def list \<Rightarrow> ts_exports \<Rightarrow> string \<Rightarrow> nat \<Rightarrow> string \<Rightarrow> string \<Rightarrow> ts_binding \<Rightarrow> edge list \<times> (string \<times> nat) list
   \<Rightarrow> edge list \<times> (string \<times> nat) list" where
  "bind_export defs ex f line spec t b st =
     (case st of (edges, via_edge) \<Rightarrow>
        (if tb_imported b = ''*'' then
           (case lookup ex t ''export='' of
              None \<Rightarrow> (edges, via_edge)
            | Some i \<Rightarrow> (edges[0 := bind_def (d_id (defs ! i)) (edges ! 0)], via_edge))
         else
           (case lookup ex t (tb_imported b) of
              None \<Rightarrow> (edges, via_edge)
            | Some i \<Rightarrow>
                (let target_file = d_file (defs ! i); id' = d_id (defs ! i)
                 in if target_file = t then (edges[0 := bind_def id' (edges ! 0)], via_edge)
                    else (case map_of via_edge target_file of
                            Some slot \<Rightarrow> (edges[slot := bind_def id' (edges ! slot)], via_edge)
                          | None \<Rightarrow>
                              (edges @ [bind_def id' (Import f line spec target_file (Some t) [])],
                               (target_file, length edges) # via_edge))))))"

definition statement_edges ::
  "graph_def list \<Rightarrow> ts_exports \<Rightarrow> string \<Rightarrow> ts_import \<Rightarrow> string \<Rightarrow> edge list" where
  "statement_edges defs ex f imp t =
     fst (fold (bind_export defs ex f (ti_line imp) (ti_spec imp) t) (ti_bindings imp)
            ([Import f (ti_line imp) (ti_spec imp) t None []], []))"

definition first_binding :: "string \<Rightarrow> ts_binding \<Rightarrow> (string \<times> string \<times> string) list \<Rightarrow> (string \<times> string \<times> string) list" where
  "first_binding t b bindings =
     (if map_of bindings (tb_local b) \<noteq> None then bindings else bindings @ [(tb_local b, t, tb_imported b)])"

definition import_statement ::
  "ts_resolver \<Rightarrow> graph_def list \<Rightarrow> ts_exports \<Rightarrow> string \<Rightarrow> ts_import \<Rightarrow> file_imports \<Rightarrow> file_imports" where
  "import_statement rv defs ex f imp out =
     (case resolve rv f (ti_spec imp) (if ti_require imp then Use_Require else static_usage rv f) of
        Resolved t \<Rightarrow>
          out\<lparr>fi_edges := fi_edges out @ statement_edges defs ex f imp t,
              fi_bindings := fold (first_binding t) (ti_bindings imp) (fi_bindings out)\<rparr>
      | Unresolved reason \<Rightarrow> add_unresolved f (ti_line imp) (ti_spec imp) (Some reason) out
      | Legacy_External \<Rightarrow> add_unresolved f (ti_line imp) (ti_spec imp) None out)"

definition dynamic_import :: "ts_resolver \<Rightarrow> string \<Rightarrow> ts_dynamic_import \<Rightarrow> file_imports \<Rightarrow> file_imports" where
  "dynamic_import rv f imp out =
     (case resolve rv f (dy_spec imp) Use_Import of
        Resolved t \<Rightarrow> out\<lparr>fi_edges := fi_edges out @ [Import f (dy_line imp) (dy_spec imp) t None []]\<rparr>
      | Unresolved reason \<Rightarrow> add_unresolved f (dy_line imp) (dy_spec imp) (Some reason) out
      | Legacy_External \<Rightarrow> add_unresolved f (dy_line imp) (dy_spec imp) None out)"

definition bind_named :: "graph_def list \<Rightarrow> ts_exports \<Rightarrow> string \<Rightarrow> string \<times> string \<Rightarrow> edge \<Rightarrow> edge" where
  "bind_named defs ex t name e =
     (case lookup ex t (snd name) of
        None \<Rightarrow> e
      | Some i \<Rightarrow> (if d_file (defs ! i) = t then bind_def (d_id (defs ! i)) e else e))"

definition reexport_statement ::
  "graph_def list \<Rightarrow> ts_exports \<Rightarrow> string \<Rightarrow> resolved_reexport \<Rightarrow> file_imports \<Rightarrow> file_imports" where
  "reexport_statement defs ex f row out =
     (case rr_to row of
        None \<Rightarrow> add_unresolved f (rr_line row) (rr_spec row) (rr_reason row) out
      | Some t \<Rightarrow>
          out\<lparr>fi_edges := fi_edges out
                @ [fold (bind_named defs ex t) (if rr_star row then [] else rr_names row)
                     (Import f (rr_line row) (rr_spec row) t None [])]\<rparr>)"

definition file_imports_of ::
  "ts_resolver \<Rightarrow> graph_def list \<Rightarrow> ts_exports \<Rightarrow> string \<Rightarrow> ts_fragment \<Rightarrow> file_imports" where
  "file_imports_of rv defs ex f frag =
     fold (reexport_statement defs ex f) (reexport_rows ex f)
       (fold (dynamic_import rv f) (fr_dynamic_imports frag)
          (fold (import_statement rv defs ex f) (fr_imports frag) no_imports))"

section \<open>The definitions of every file\<close>

record ts_defs =
  tt_defs :: "graph_def list"
  tt_names :: "graph_name list"
  tt_exports :: "string \<Rightarrow> (string \<Rightarrow> nat option) option"
  tt_scopes :: "string \<Rightarrow> (string \<Rightarrow> nat option) option"

record file_scopes =
  fs_scope :: "string \<Rightarrow> nat option"
  fs_importable :: "string \<Rightarrow> nat option"
  fs_names :: "graph_name list"
  fs_defs :: "graph_def list"

definition ts_def_of :: "string \<Rightarrow> ts_fragment_def \<Rightarrow> graph_def" where
  "ts_def_of f d =
     \<lparr>d_id = ts_def_id f (td_name d), d_name = td_name d, d_namespace = dir_of f, d_kind = td_kind d, d_file = f,
      d_line = td_line d, d_methods = [], d_test_methods = [], d_also_in = [], d_end_line = td_end_line d,
      d_local = td_local d\<rparr>"

definition declare_def :: "string \<Rightarrow> ts_fragment_def \<Rightarrow> file_scopes \<Rightarrow> file_scopes" where
  "declare_def f d fs =
     (if fs_scope fs (td_name d) \<noteq> None then fs
      else (let i = length (fs_defs fs)
            in \<lparr>fs_scope = (fs_scope fs)(td_name d \<mapsto> i),
                fs_importable = (if td_local d then fs_importable fs else (fs_importable fs)(td_name d \<mapsto> i)),
                fs_names = fs_names fs
                  @ [\<lparr>gn_name = td_name d, gn_kind = td_kind d, gn_file = f, gn_line = td_line d, gn_owner = []\<rparr>],
                fs_defs = fs_defs fs @ [ts_def_of f d]\<rparr>))"

definition default_exports :: "ts_fragment \<Rightarrow> (string \<Rightarrow> nat option) \<Rightarrow> (string \<Rightarrow> nat option) \<Rightarrow> string \<Rightarrow> nat option" where
  "default_exports frag scope importable =
     (let importable =
        (case Option.bind (fr_default frag) scope of None \<Rightarrow> importable | Some i \<Rightarrow> importable(''default'' \<mapsto> i))
      in case Option.bind (fr_export_equals frag) scope of
           None \<Rightarrow> importable
         | Some i \<Rightarrow>
             (if importable ''default'' = None then importable(''default'' \<mapsto> i) else importable)(''export='' \<mapsto> i))"

definition declare_file :: "string \<times> ts_fragment \<Rightarrow> ts_defs \<Rightarrow> ts_defs" where
  "declare_file row td =
     (case row of (f, frag) \<Rightarrow>
        (let fs = fold (declare_def f) (fr_defs frag)
               \<lparr>fs_scope = (\<lambda>_. None), fs_importable = (\<lambda>_. None), fs_names = tt_names td, fs_defs = tt_defs td\<rparr>
         in \<lparr>tt_defs = fs_defs fs, tt_names = fs_names fs,
             tt_exports = (tt_exports td)(f \<mapsto> default_exports frag (fs_scope fs) (fs_importable fs)),
             tt_scopes = (tt_scopes td)(f \<mapsto> fs_scope fs)\<rparr>))"

definition declare_all :: "(string \<times> ts_fragment) list \<Rightarrow> ts_defs" where
  "declare_all fragments =
     fold declare_file fragments \<lparr>tt_defs = [], tt_names = [], tt_exports = (\<lambda>_. None), tt_scopes = (\<lambda>_. None)\<rparr>"

section \<open>The graph\<close>

record ts_edge_counts =
  te_import :: nat
  te_call :: nat
  te_jsx_use :: nat
  te_dispatch :: nat

record ts_stats =
  xs_file_count :: nat
  xs_def_count :: nat
  xs_external_import_count :: nat
  xs_unresolved_ref_count :: nat
  xs_unresolved_import_reasons :: "(string \<times> nat) list"
  xs_unsupported_mode_scopes :: "(string \<times> string) list"
  xs_refused_config :: "refused_config list"
  xs_non_literal_dynamic_import_count :: nat
  xs_template_unsupported_count :: nat

record ts_graph =
  tg_defs :: "graph_def list"
  tg_names :: "graph_name list"
  tg_edges :: "edge list"
  tg_edges_by_kind :: ts_edge_counts
  tg_stats :: ts_stats
  tg_unresolved_imports :: "unresolved_import list"

definition ref_target ::
  "ts_exports \<Rightarrow> (string \<Rightarrow> nat option) option \<Rightarrow> (string \<times> string \<times> string) list \<Rightarrow> ts_ref \<Rightarrow> nat option" where
  "ref_target ex scope bindings r =
     (case map_of bindings (tf_name r) of
        Some (t, imported) \<Rightarrow>
          (if imported = ''*''
           then (case tf_member r of Some m \<Rightarrow> lookup ex t m | None \<Rightarrow> lookup ex t ''export='')
           else lookup_member ex t imported (tf_member r))
      | None \<Rightarrow> (if tf_member r = None then Option.bind scope (\<lambda>m. m (tf_name r)) else None))"

record ref_state =
  rs_edges :: "edge list"
  rs_counts :: ts_edge_counts
  rs_unresolved :: nat

definition emit_ref ::
  "graph_def list \<Rightarrow> ts_exports \<Rightarrow> (string \<Rightarrow> nat option) option \<Rightarrow> (string \<times> string \<times> string) list \<Rightarrow> string \<Rightarrow> ts_ref
   \<Rightarrow> ref_state \<Rightarrow> ref_state" where
  "emit_ref defs ex scope bindings f r st =
     (case ref_target ex scope bindings r of
        None \<Rightarrow> st\<lparr>rs_unresolved := rs_unresolved st + 1\<rparr>
      | Some i \<Rightarrow>
          (let d = defs ! i; c = rs_counts st
           in if tf_kind r = ''call''
              then st\<lparr>rs_edges := rs_edges st @ [Call f (tf_line r) (d_id d) (d_file d)], rs_counts := c\<lparr>te_call := te_call c + 1\<rparr>\<rparr>
              else if tf_kind r = ''jsx-use''
              then st\<lparr>rs_edges := rs_edges st @ [Jsx_Use f (tf_line r) (d_id d) (d_file d)], rs_counts := c\<lparr>te_jsx_use := te_jsx_use c + 1\<rparr>\<rparr>
              else if tf_kind r = ''dispatch''
              then st\<lparr>rs_edges := rs_edges st @ [Dispatch f (tf_line r) (d_id d) (d_file d)], rs_counts := c\<lparr>te_dispatch := te_dispatch c + 1\<rparr>\<rparr>
              else st\<lparr>rs_unresolved := rs_unresolved st + 1\<rparr>))"

record ts_state =
  tz_refs :: ref_state
  tz_external :: nat
  tz_unresolved :: "unresolved_import list"

definition resolve_file ::
  "ts_resolver \<Rightarrow> ts_defs \<Rightarrow> ts_exports \<Rightarrow> string \<times> ts_fragment \<Rightarrow> ts_state \<Rightarrow> ts_state" where
  "resolve_file rv td ex row st =
     (case row of (f, frag) \<Rightarrow>
        (let fi = file_imports_of rv (tt_defs td) ex f frag; rs = tz_refs st; c = rs_counts rs;
             rs = rs\<lparr>rs_edges := rs_edges rs @ fi_edges fi, rs_counts := c\<lparr>te_import := te_import c + length (fi_edges fi)\<rparr>\<rparr>
         in \<lparr>tz_refs = fold (emit_ref (tt_defs td) ex (tt_scopes td f) (fi_bindings fi) f) (fr_refs frag) rs,
             tz_external = tz_external st + fi_external fi,
             tz_unresolved = tz_unresolved st @ fi_unresolved fi\<rparr>))"

definition reason_counts :: "unresolved_import list \<Rightarrow> (string \<times> nat) list" where
  "reason_counts rows =
     filter (\<lambda>(_, n). 0 < n) (map (\<lambda>r. (reason_str r, length (filter (\<lambda>row. ui_reason row = reason_str r) rows))) REASONS)"

definition classic_scopes :: "module_config \<Rightarrow> (string \<times> string) list" where
  "classic_scopes config =
     map (\<lambda>c. (c, ''classic''))
       (remdups_adj (sort (map (\<lambda>(_, s). ms_config s) (filter (\<lambda>(_, s). ms_mode s = Classic) (mo_by_file (mc_modes config))))))"

definition ts_exports_of :: "ts_resolver \<Rightarrow> (string \<times> ts_fragment) list \<Rightarrow> ts_defs \<Rightarrow> ts_exports" where
  "ts_exports_of rv fragments td = \<lparr>ex_by_file = tt_exports td, ex_reexports = resolve_reexports rv fragments\<rparr>"

definition empty_refs :: ref_state where
  "empty_refs =
     \<lparr>rs_edges = [], rs_counts = \<lparr>te_import = 0, te_call = 0, te_jsx_use = 0, te_dispatch = 0\<rparr>, rs_unresolved = 0\<rparr>"

definition ts_resolver_of :: "(string \<times> ts_fragment) list \<Rightarrow> ts_alias_scopes \<Rightarrow> module_config \<Rightarrow> ts_resolver" where
  "ts_resolver_of fragments alias config =
     \<lparr>tr_files = set (map fst fragments), tr_alias = alias, tr_config = config\<rparr>"

definition resolve_ts_graph_in :: "(string \<times> ts_fragment) list \<Rightarrow> ts_alias_scopes \<Rightarrow> module_config \<Rightarrow> ts_graph" where
  "resolve_ts_graph_in fragments alias config =
     (let rv = ts_resolver_of fragments alias config;
          td = declare_all fragments;
          ex = ts_exports_of rv fragments td;
          st = fold (resolve_file rv td ex) fragments \<lparr>tz_refs = empty_refs, tz_external = 0, tz_unresolved = []\<rparr>
      in \<lparr>tg_defs = tt_defs td, tg_names = tt_names td, tg_edges = rs_edges (tz_refs st),
          tg_edges_by_kind = rs_counts (tz_refs st),
          tg_stats =
            \<lparr>xs_file_count = length fragments, xs_def_count = length (tt_defs td), xs_external_import_count = tz_external st,
             xs_unresolved_ref_count = rs_unresolved (tz_refs st), xs_unresolved_import_reasons = reason_counts (tz_unresolved st),
             xs_unsupported_mode_scopes = classic_scopes config, xs_refused_config = mc_refused config,
             xs_non_literal_dynamic_import_count = sum_list (map (\<lambda>(_, frag). fr_non_literal_dynamic_imports frag) fragments),
             xs_template_unsupported_count = 0\<rparr>,
          tg_unresolved_imports = tz_unresolved st\<rparr>)"

definition resolve_ts_graph :: "(string \<times> ts_fragment) list \<Rightarrow> ts_alias_scopes \<Rightarrow> ts_graph" where
  "resolve_ts_graph fragments alias = resolve_ts_graph_in fragments alias empty_config"

end
