(* ===== verification/TsBarrels.thy ===== *)
theory TsBarrels
  imports TsGraph
begin

text \<open>
  The lookup through re-export barrels is exact: it answers just when a file that declares the name is
  at most \<open>BARREL_HOPS\<close> re-exports away, whatever cycles the barrels have and whatever the depth at
  which a pair was first met. The search for a namespace has no such guarantee, which a concrete pair
  of files shows.
\<close>

section \<open>The reference\<close>

text \<open>\<open>declared_within ex k f name i\<close>: definition \<open>i\<close> is what the name means, at most \<open>k\<close> re-exports away.\<close>

inductive declared_within :: "ts_exports \<Rightarrow> nat \<Rightarrow> string \<Rightarrow> string \<Rightarrow> nat \<Rightarrow> bool" for ex where
  declared: "own_export ex f name = Some i \<Longrightarrow> declared_within ex k f name i"
| reexported:
    "\<lbrakk> own_export ex f name = None; \<not> namespace_row ex f name; (g, m) \<in> set (barrel_steps ex f name);
       declared_within ex k g m i \<rbrakk> \<Longrightarrow> declared_within ex (Suc k) f name i"

inductive_cases declared_withinE: "declared_within ex k f name i"

section \<open>What the walk has settled\<close>

text \<open>
  A pair outside the stack \<open>A\<close> that was walked without an answer declares nothing, and everything it
  re-exports was walked at most one hop deeper.
\<close>

definition settled_pair :: "ts_exports \<Rightarrow> visited \<Rightarrow> string \<times> string \<Rightarrow> nat \<Rightarrow> bool" where
  "settled_pair ex v p d \<longleftrightarrow>
     own_export ex (fst p) (snd p) = None
     \<and> (d < BARREL_HOPS \<longrightarrow> \<not> namespace_row ex (fst p) (snd p)
        \<longrightarrow> (\<forall>q \<in> set (barrel_steps ex (fst p) (snd p)). \<exists>e \<le> Suc d. v q = Some e))"

definition settled :: "ts_exports \<Rightarrow> visited \<Rightarrow> (string \<times> string) set \<Rightarrow> bool" where
  "settled ex v A \<longleftrightarrow> (\<forall>p d. v p = Some d \<longrightarrow> p \<notin> A \<longrightarrow> settled_pair ex v p d)"

definition shallower :: "visited \<Rightarrow> visited \<Rightarrow> bool" where
  "shallower v w \<longleftrightarrow> (\<forall>p d. v p = Some d \<longrightarrow> (\<exists>e \<le> d. w p = Some e))"

lemma shallower_refl [simp]: "shallower v v"
  by (auto simp: shallower_def)

lemma shallower_trans: "shallower u v \<Longrightarrow> shallower v w \<Longrightarrow> shallower u w"
  unfolding shallower_def by (meson le_trans)

lemma shallowerD: "shallower v w \<Longrightarrow> v p = Some d \<Longrightarrow> \<exists>e \<le> d. w p = Some e"
  unfolding shallower_def by blast

text \<open>The pairs on the stack, all met at fewer hops than the walk has now.\<close>

definition stacked :: "visited \<Rightarrow> (string \<times> string) set \<Rightarrow> nat \<Rightarrow> bool" where
  "stacked v A h \<longleftrightarrow> (\<forall>p \<in> A. \<exists>d < h. v p = Some d)"

definition kept :: "visited \<Rightarrow> visited \<Rightarrow> (string \<times> string) set \<Rightarrow> bool" where
  "kept v w A \<longleftrightarrow> (\<forall>p \<in> A. w p = v p)"

lemma kept_refl [simp]: "kept v v A"
  by (simp add: kept_def)

lemma stacked_kept: "stacked v A h \<Longrightarrow> kept v w A \<Longrightarrow> stacked w A h"
  by (auto simp: stacked_def kept_def)

lemma kept_trans: "kept u v A \<Longrightarrow> kept v w A \<Longrightarrow> kept u w A"
  by (auto simp: kept_def)

text \<open>What one failed search of a pair, and of a list of pairs, leaves behind.\<close>

definition after_miss ::
  "ts_exports \<Rightarrow> (string \<times> string) list \<Rightarrow> nat \<Rightarrow> visited \<Rightarrow> visited \<Rightarrow> (string \<times> string) set \<Rightarrow> bool" where
  "after_miss ex ss h v w A \<longleftrightarrow>
     settled ex w A \<and> shallower v w \<and> kept v w A \<and> (\<forall>s \<in> set ss. \<exists>d \<le> h. w s = Some d)"

lemma after_missI:
  "settled ex w A \<Longrightarrow> shallower v w \<Longrightarrow> kept v w A \<Longrightarrow> \<forall>s \<in> set ss. \<exists>d \<le> h. w s = Some d \<Longrightarrow> after_miss ex ss h v w A"
  by (simp add: after_miss_def)

lemma after_miss_Cons:
  assumes "after_miss ex [s] h u v A" "after_miss ex ss h v w A"
  shows "after_miss ex (s # ss) h u w A"
proof (rule after_missI)
  show "settled ex w A" using assms(2) by (simp add: after_miss_def)
  show "shallower u w" using assms by (auto simp: after_miss_def intro: shallower_trans)
  show "kept u w A" using assms by (auto simp: after_miss_def intro: kept_trans)
  from assms(1) obtain d where d: "d \<le> h" "v s = Some d" by (auto simp: after_miss_def)
  from assms(2) have "shallower v w" by (simp add: after_miss_def)
  from shallowerD [OF this d(2)] d(1) obtain e where "e \<le> h" "w s = Some e" by (meson le_trans)
  with assms(2) show "\<forall>x \<in> set (s # ss). \<exists>d \<le> h. w x = Some d" by (auto simp: after_miss_def)
qed

text \<open>Walking a pair anew, at fewer hops than before, unsettles no other pair.\<close>

lemma settled_enter:
  assumes "settled ex v A" "case v p of None \<Rightarrow> True | Some seen \<Rightarrow> h < seen"
  shows "settled ex (v(p \<mapsto> h)) (insert p A)" "shallower v (v(p \<mapsto> h))"
proof -
  show less: "shallower v (v(p \<mapsto> h))"
    using assms(2) by (auto simp: shallower_def less_imp_le split: option.splits)
  show "settled ex (v(p \<mapsto> h)) (insert p A)"
    unfolding settled_def
  proof (intro allI impI)
    fix q d assume q: "(v(p \<mapsto> h)) q = Some d" "q \<notin> insert p A"
    then have "v q = Some d" "q \<notin> A" by auto
    with assms(1) have "settled_pair ex v q d" unfolding settled_def by blast
    then show "settled_pair ex (v(p \<mapsto> h)) q d"
      using less unfolding settled_pair_def shallower_def by (meson le_trans)
  qed
qed

lemma settled_leave:
  assumes "settled ex w (insert p A)" "w p = Some h" "settled_pair ex w p h"
  shows "settled ex w A"
  using assms unfolding settled_def by (metis insert_iff option.inject)

text \<open>One call of the search, for a pair that was not met this near before.\<close>

definition met :: "visited \<Rightarrow> string \<times> string \<Rightarrow> nat \<Rightarrow> bool" where
  "met v p h \<longleftrightarrow> (case v p of None \<Rightarrow> False | Some seen \<Rightarrow> seen \<le> h)"

lemma lookup_met: "met v (f, name) h \<Longrightarrow> lookup_export ex f name h v = (None, v)"
  by (simp add: lookup_export.simps met_def)

lemma lookup_own:
  "\<not> met v (f, name) h \<Longrightarrow> own_export ex f name = Some i \<Longrightarrow> lookup_export ex f name h v = (Some i, v((f, name) \<mapsto> h))"
  by (simp add: lookup_export.simps met_def)

lemma lookup_stops:
  "\<not> met v (f, name) h \<Longrightarrow> own_export ex f name = None \<Longrightarrow> BARREL_HOPS \<le> h \<or> namespace_row ex f name
     \<Longrightarrow> lookup_export ex f name h v = (None, v((f, name) \<mapsto> h))"
  by (cases "BARREL_HOPS \<le> h") (simp_all add: lookup_export.simps met_def)

lemma lookup_follows:
  "\<not> met v (f, name) h \<Longrightarrow> own_export ex f name = None \<Longrightarrow> \<not> (BARREL_HOPS \<le> h \<or> namespace_row ex f name)
     \<Longrightarrow> lookup_export ex f name h v = lookup_steps ex (barrel_steps ex f name) (h + 1) (v((f, name) \<mapsto> h))"
  by (simp add: lookup_export.simps met_def)

theorem miss_settles:
  "lookup_export ex f name h v = (None, w) \<Longrightarrow> settled ex v A \<Longrightarrow> stacked v A h
     \<Longrightarrow> after_miss ex [(f, name)] h v w A"
  "lookup_steps ex ss h v = (None, w) \<Longrightarrow> settled ex v A \<Longrightarrow> stacked v A h \<Longrightarrow> after_miss ex ss h v w A"
proof (induction ex f name h v and ex ss h v arbitrary: A w and A w rule: lookup_export_lookup_steps.induct)
  case (1 ex f name h v)
  show ?case
  proof (cases "met v (f, name) h")
    case True
    then have "w = v" using 1(2) by (simp add: lookup_met)
    then show ?thesis using True 1(3) by (auto simp: after_miss_def met_def split: option.splits)
  next
    case False
    define u where "u = v((f, name) \<mapsto> h)"
    have fresh: "case v (f, name) of None \<Rightarrow> True | Some seen \<Rightarrow> h < seen"
      using False by (auto simp: met_def split: option.splits)
    have notin: "(f, name) \<notin> A" using 1(4) fresh by (auto simp: stacked_def split: option.splits)
    note enter = settled_enter [OF 1(3) fresh, folded u_def]
    have keep: "kept v u A" using notin by (auto simp: kept_def u_def)
    have own: "own_export ex f name = None"
      using 1(2) lookup_own [OF False] by (cases "own_export ex f name") auto
    show ?thesis
    proof (cases "BARREL_HOPS \<le> h \<or> namespace_row ex f name")
      case stop: True
      then have "w = u" using 1(2) lookup_stops [OF False own] by (simp add: u_def)
      moreover have "settled_pair ex u (f, name) h" using stop own by (auto simp: settled_pair_def)
      ultimately show ?thesis
        using enter keep settled_leave [of ex u "(f, name)" A h] unfolding after_miss_def
        by (metis empty_iff empty_set fun_upd_same le_refl set_ConsD u_def)
    next
      case go: False
      then have steps: "lookup_steps ex (barrel_steps ex f name) (h + 1) u = (None, w)"
        using 1(2) lookup_follows [OF False own] by (simp add: u_def)
      have "stacked u (insert (f, name) A) (h + 1)"
        using 1(4) notin unfolding stacked_def u_def by (metis fun_upd_apply insert_iff less_SucI Suc_eq_plus1 lessI)
      with 1(1) [OF _ u_def own _ _ steps enter(1)] go False
      have miss: "after_miss ex (barrel_steps ex f name) (h + 1) u w (insert (f, name) A)" by (simp add: met_def)
      then have "w (f, name) = Some h" by (simp add: after_miss_def kept_def u_def)
      moreover have "settled_pair ex w (f, name) h"
        using miss own by (simp add: settled_pair_def after_miss_def)
      ultimately have "settled ex w A"
        using settled_leave miss by (metis after_miss_def)
      moreover have "shallower v w" using miss enter(2) by (auto simp: after_miss_def intro: shallower_trans)
      moreover have "kept v w A" using miss keep by (auto simp: after_miss_def kept_def)
      ultimately show ?thesis using \<open>w (f, name) = Some h\<close> by (auto simp: after_miss_def)
    qed
  qed
next
  case (2 ex h v)
  then show ?case by (simp add: lookup_steps.simps after_miss_def)
next
  case (3 ex s ss h v)
  obtain r u where first: "lookup_export ex (fst s) (snd s) h v = (r, u)" by fastforce
  with 3(3) have r: "r = None" and rest: "lookup_steps ex ss h u = (None, w)"
    by (auto simp: lookup_steps.simps split: option.splits)
  have miss: "after_miss ex [s] h v u A" using 3(1) [OF _ 3(4,5)] first r by simp
  then have "settled ex u A" "stacked u A h"
    using stacked_kept [OF 3(5)] by (auto simp: after_miss_def)
  from 3(2) [OF first [unfolded r, symmetric] refl rest this] miss show ?case by (rule after_miss_Cons [rotated])
qed

section \<open>The equivalence\<close>

lemma hit_is_declared:
  "lookup_export ex f name h v = (Some i, w) \<Longrightarrow> declared_within ex (BARREL_HOPS - h) f name i"
  "lookup_steps ex ss h v = (Some i, w) \<Longrightarrow> \<exists>(g, m) \<in> set ss. declared_within ex (BARREL_HOPS - h) g m i"
proof (induction ex f name h v and ex ss h v arbitrary: w and w rule: lookup_export_lookup_steps.induct)
  case (1 ex f name h v)
  have fresh: "\<not> met v (f, name) h" using 1(2) lookup_met by fastforce
  show ?case
  proof (cases "own_export ex f name")
    case (Some own)
    with 1(2) lookup_own [OF fresh] have "own = i" by simp
    with Some show ?thesis by (auto intro: declared)
  next
    case None
    have go: "\<not> (BARREL_HOPS \<le> h \<or> namespace_row ex f name)"
      using 1(2) lookup_stops [OF fresh None] by fastforce
    then have steps: "lookup_steps ex (barrel_steps ex f name) (h + 1) (v((f, name) \<mapsto> h)) = (Some i, w)"
      using 1(2) lookup_follows [OF fresh None] by simp
    from 1(1) [OF _ refl None _ _ steps] go fresh obtain g m
      where "(g, m) \<in> set (barrel_steps ex f name)" "declared_within ex (BARREL_HOPS - (h + 1)) g m i"
      by (auto simp: met_def)
    with reexported [OF None] go have "declared_within ex (Suc (BARREL_HOPS - (h + 1))) f name i" by blast
    moreover have "Suc (BARREL_HOPS - (h + 1)) = BARREL_HOPS - h" using go by auto
    ultimately show ?thesis by simp
  qed
next
  case (2 ex h v)
  then show ?case by (simp add: lookup_steps.simps)
next
  case (3 ex s ss h v)
  obtain r u where first: "lookup_export ex (fst s) (snd s) h v = (r, u)" by fastforce
  show ?case
  proof (cases r)
    case None
    with 3(3) first have "lookup_steps ex ss h u = (Some i, w)" by (simp add: lookup_steps.simps)
    with 3(2) [OF first [unfolded None, symmetric] refl] show ?thesis by auto
  next
    case (Some j)
    with 3(3) first have "j = i" by (simp add: lookup_steps.simps)
    with 3(1) first Some show ?thesis by (cases s) auto
  qed
qed

lemma lookup_declared:
  assumes "lookup ex f name = Some i"
  shows "declared_within ex BARREL_HOPS f name i"
proof -
  obtain w where "lookup_export ex f name 0 (\<lambda>_. None) = (Some i, w)"
    using assms by (cases "lookup_export ex f name 0 (\<lambda>_. None)") (simp add: lookup_def)
  from hit_is_declared(1) [OF this] show ?thesis by simp
qed

lemma settled_declares_nothing:
  assumes "declared_within ex k f name i" "settled ex v {}" "v (f, name) = Some d" "d + k \<le> BARREL_HOPS"
  shows False
  using assms
proof (induction arbitrary: d)
  case (declared f name i k)
  then show ?case by (auto simp: settled_def settled_pair_def)
next
  case (reexported f name g m k i)
  have "settled_pair ex v (f, name) d" using reexported.prems by (simp add: settled_def)
  moreover have "d < BARREL_HOPS" using reexported.prems(3) by simp
  ultimately obtain e where "e \<le> Suc d" "v (g, m) = Some e"
    using reexported.hyps(2,3) by (auto simp: settled_pair_def)
  with reexported.IH reexported.prems(1,3) show ?case by fastforce
qed

text \<open>
  C9. Looking a name up through re-export barrels is exact. The answer is a definition at most eight
  re-exports away, and when there is no answer then no definition is that near: neither the cycles of the
  barrels nor the pairs the walk skips because it met them before, even when it met them where the hop cap
  cut them short, hide one.
\<close>

theorem barrel_lookup_exact:
  "case lookup ex f name of
     Some i \<Rightarrow> declared_within ex BARREL_HOPS f name i
   | None \<Rightarrow> \<not> (\<exists>i. declared_within ex BARREL_HOPS f name i)"
proof (cases "lookup ex f name")
  case None
  then obtain w where "lookup_export ex f name 0 (\<lambda>_. None) = (None, w)"
    by (cases "lookup_export ex f name 0 (\<lambda>_. None)") (simp add: lookup_def)
  then have "after_miss ex [(f, name)] 0 (\<lambda>_. None) w {}"
    by (auto intro!: miss_settles(1) simp: settled_def stacked_def)
  then have "settled ex w {}" "w (f, name) = Some 0" by (auto simp: after_miss_def)
  then have "\<not> declared_within ex BARREL_HOPS f name i" for i
    using settled_declares_nothing [of ex BARREL_HOPS f name i w 0] by auto
  with None show ?thesis by simp
qed (simp add: lookup_declared)

section \<open>A namespace behind a name of the same file\<close>

text \<open>
  \<open>f\<close> says \<open>export * as x from './m'; export {x as y} from './g'\<close>, and \<open>g\<close> says \<open>export * from './f'\<close>: the
  name \<open>y\<close> of \<open>f\<close> is \<open>x\<close> of \<open>g\<close>, which is \<open>x\<close> of \<open>f\<close>, the namespace of \<open>m\<close>.
\<close>

definition namespace_exports :: ts_exports where
  "namespace_exports =
     \<lparr>ex_by_file = (\<lambda>_. None),
      ex_reexports = map_of
        [(''f'', [\<lparr>rr_spec = ''./m'', rr_line = 1, rr_star = False, rr_names = [], rr_namespace = Some ''x'', rr_to = Some ''m'', rr_reason = None\<rparr>,
                  \<lparr>rr_spec = ''./g'', rr_line = 2, rr_star = False, rr_names = [(''y'', ''x'')], rr_namespace = None, rr_to = Some ''g'', rr_reason = None\<rparr>]),
         (''g'', [\<lparr>rr_spec = ''./f'', rr_line = 1, rr_star = True, rr_names = [], rr_namespace = None, rr_to = Some ''f'', rr_reason = None\<rparr>])]\<rparr>"

text \<open>
  C0. The search for a namespace remembers files where the search for a definition remembers pairs of a
  file and a name, so it misses a namespace that is two re-exports away: the name \<open>y\<close> of the file above
  finds none, although each of its two steps, \<open>y\<close> to \<open>x\<close> of \<open>g\<close> and \<open>x\<close> of \<open>g\<close> to \<open>x\<close> of \<open>f\<close>, is one the search
  itself follows and answers.
\<close>

theorem namespace_search_misses:
  "namespace_target namespace_exports ''f'' ''y'' = None
   \<and> set (barrel_steps namespace_exports ''f'' ''y'') = {(''g'', ''x'')}
   \<and> namespace_target namespace_exports ''g'' ''x'' = Some ''m''
   \<and> namespace_target namespace_exports ''f'' ''x'' = Some ''m''"
  by code_simp

end
