(* ===== verification/TsFacts.thy ===== *)
theory TsFacts
  imports TsBarrels
begin

text \<open>
  What the TypeScript side promises of its answers: a specifier resolves to an indexed file only, a file
  resolves through the nearest config that owns it, and the graph is closed and its counts are those of
  its edges.
\<close>

section \<open>Specifiers resolve to indexed files\<close>

lemma first_of_Some: "first_of a b = Some x \<longleftrightarrow> a = Some x \<or> a = None \<and> b = Some x"
  by (auto simp: first_of_def split: option.splits)

lemma find_holds: "List.find P xs = Some x \<Longrightarrow> P x"
  by (auto simp: find_Some_iff)

lemma first_some_answers: "first_some p xs = Some y \<Longrightarrow> \<exists>x. p x = Some y"
  by (auto simp: first_some_def split: option.splits)

lemma probe_file_indexed: "probe_file base files = Some t \<Longrightarrow> t \<in> files"
  by (auto simp: probe_file_def bind_eq_Some_conv dest: find_holds)

lemma specifier_indexed: "resolve_specifier f spec files scopes = Some t \<Longrightarrow> t \<in> files"
  by (auto simp: resolve_specifier_def Let_def first_of_Some bind_eq_Some_conv probe_file_indexed
      dest: first_some_answers split: if_splits)

lemma declared_probe_file_indexed: "declared_probe_file rv path strict = Some t \<Longrightarrow> t \<in> tr_files rv"
  by (auto simp: declared_probe_file_def Let_def dest: find_holds split: if_splits)

lemma declared_probe_indexed: "declared_probe rv path directory strict = Some t \<Longrightarrow> t \<in> tr_files rv"
  by (auto simp: declared_probe_def probe_directory_def first_of_Some bind_eq_Some_conv
      intro: declared_probe_file_indexed split: if_splits)

lemma first_output_indexed: "first_output root_dir stem files es = Some t \<Longrightarrow> t \<in> files"
  by (induction es) (auto split: option.splits if_splits)

lemma output_source_indexed: "output_source bo d t files = Some hit \<Longrightarrow> hit \<in> files"
  by (auto simp: output_source_def Let_def bind_eq_Some_conv intro: first_output_indexed split: option.splits)

lemma package_file_indexed: "package_file rv package t directory strict = Resolved hit \<Longrightarrow> hit \<in> tr_files rv"
  by (auto simp: package_file_def bind_eq_Some_conv intro: output_source_indexed declared_probe_indexed
      split: option.splits if_splits)

lemma first_target_indexed: "first_target rv package strict latest ts = Resolved hit \<Longrightarrow> hit \<in> tr_files rv"
  by (induction ts arbitrary: latest)
     (auto intro: package_file_indexed split: if_splits option.splits resolution.splits)

lemma selected_target_indexed: "selected_target rv package m imp strict = Resolved hit \<Longrightarrow> hit \<in> tr_files rv"
  by (auto simp: selected_target_def intro: first_target_indexed split: map_match.splits)

lemma package_target_indexed: "package_target rv package subpath mode usage cs = Resolved hit \<Longrightarrow> hit \<in> tr_files rv"
  by (auto simp: package_target_def intro: selected_target_indexed package_file_indexed split: option.splits if_splits)

lemma package_import_indexed: "package_import rv f spec scope usage = Resolved hit \<Longrightarrow> hit \<in> tr_files rv"
  by (auto simp: package_import_def intro: selected_target_indexed split: option.splits)

lemma relative_file_indexed: "relative_file rv f spec mode usage = Resolved hit \<Longrightarrow> hit \<in> tr_files rv"
  by (auto simp: relative_file_def Let_def intro: declared_probe_indexed split: option.splits if_splits)

lemma workspace_member_indexed: "workspace_member rv f name subpath scope usage = Resolved hit \<Longrightarrow> hit \<in> tr_files rv"
  by (auto simp: workspace_member_def intro: package_target_indexed split: option.splits if_splits)

lemma bare_package_indexed: "bare_package rv f spec scope usage = Resolved hit \<Longrightarrow> hit \<in> tr_files rv"
  by (auto simp: bare_package_def intro: workspace_member_indexed package_target_indexed
      split: prod.splits option.splits if_splits)

lemma declared_alias_indexed: "declared_alias rv f spec strict = Some hit \<Longrightarrow> hit \<in> tr_files rv"
  by (auto simp: declared_alias_def Let_def first_of_Some bind_eq_Some_conv intro: declared_probe_indexed
      dest!: first_some_answers split: if_splits)

lemma resolve_legacy_indexed: "resolve_legacy rv f spec = Resolved hit \<Longrightarrow> hit \<in> tr_files rv"
  by (auto simp: resolve_legacy_def intro: specifier_indexed split: option.splits)

lemma resolved_indexed: "resolve rv f spec usage = Resolved hit \<Longrightarrow> hit \<in> tr_files rv"
  by (auto simp: resolve_def intro: resolve_legacy_indexed declared_alias_indexed package_import_indexed
      bare_package_indexed relative_file_indexed split: option.splits if_splits)

section \<open>Every index stands for a definition\<close>

text \<open>\<open>within m n\<close>: the indices a name map holds are below \<open>n\<close>.\<close>

definition within :: "nat \<Rightarrow> (string \<Rightarrow> nat option) \<Rightarrow> bool" where
  "within n m \<longleftrightarrow> (\<forall>i \<in> ran m. i < n)"

lemma within_empty [simp]: "within n (\<lambda>_. None)"
  by (simp add: within_def)

lemma within_upd: "within n m \<Longrightarrow> i < n \<Longrightarrow> within n (m(k \<mapsto> i))"
  by (auto simp: within_def ran_def)

lemma within_mono: "within n m \<Longrightarrow> n \<le> n' \<Longrightarrow> within n' m"
  by (fastforce simp: within_def)

lemma withinD: "within n m \<Longrightarrow> m k = Some i \<Longrightarrow> i < n"
  by (auto simp: within_def ran_def)

definition scopes_ok :: "file_scopes \<Rightarrow> bool" where
  "scopes_ok fs \<longleftrightarrow> within (length (fs_defs fs)) (fs_scope fs) \<and> within (length (fs_defs fs)) (fs_importable fs)"

lemma declare_def_ok: "scopes_ok fs \<Longrightarrow> scopes_ok (declare_def f d fs)"
  by (auto simp: declare_def_def scopes_ok_def Let_def intro!: within_upd intro: within_mono [of "length (fs_defs fs)"])

lemma declare_def_defs:
  "length (fs_defs fs) \<le> length (fs_defs (declare_def f d fs))
   \<and> (list_all P (fs_defs fs) \<longrightarrow> (\<forall>d. P (ts_def_of f d)) \<longrightarrow> list_all P (fs_defs (declare_def f d fs)))"
  by (auto simp: declare_def_def Let_def)

lemma default_exports_within:
  "within n scope \<Longrightarrow> within n importable \<Longrightarrow> within n (default_exports frag scope importable)"
  by (auto simp: default_exports_def Let_def bind_eq_Some_conv dest: withinD intro!: within_upd split: option.splits)

definition tables_ok :: "string set \<Rightarrow> ts_defs \<Rightarrow> bool" where
  "tables_ok files td \<longleftrightarrow>
     (\<forall>f m. tt_exports td f = Some m \<longrightarrow> within (length (tt_defs td)) m)
     \<and> (\<forall>f m. tt_scopes td f = Some m \<longrightarrow> within (length (tt_defs td)) m)
     \<and> list_all (\<lambda>d. d_file d \<in> files) (tt_defs td)"

lemma declare_defs_ok:
  "scopes_ok fs \<Longrightarrow> scopes_ok (fold (declare_def f) ds fs) \<and> length (fs_defs fs) \<le> length (fs_defs (fold (declare_def f) ds fs))"
proof (induction ds arbitrary: fs)
  case (Cons d ds)
  from Cons.IH [OF declare_def_ok [OF Cons.prems, of f d]] show ?case
    using declare_def_defs [of fs f d] by (auto intro: le_trans)
qed simp

lemma declare_defs_files:
  "list_all (\<lambda>d. d_file d \<in> files) (fs_defs fs) \<Longrightarrow> f \<in> files
     \<Longrightarrow> list_all (\<lambda>d. d_file d \<in> files) (fs_defs (fold (declare_def f) ds fs))"
  by (induction ds arbitrary: fs) (simp_all add: declare_def_defs ts_def_of_def)

lemma declare_file_ok:
  assumes "tables_ok files td" "fst row \<in> files"
  shows "tables_ok files (declare_file row td)"
proof -
  obtain f frag where row: "row = (f, frag)" by (cases row)
  define fs where "fs = fold (declare_def f) (fr_defs frag)
    \<lparr>fs_scope = (\<lambda>_. None), fs_importable = (\<lambda>_. None), fs_names = tt_names td, fs_defs = tt_defs td\<rparr>"
  have ok: "scopes_ok fs" and grows: "length (tt_defs td) \<le> length (fs_defs fs)"
    using declare_defs_ok [of "\<lparr>fs_scope = (\<lambda>_. None), fs_importable = (\<lambda>_. None), fs_names = tt_names td, fs_defs = tt_defs td\<rparr>"
        f "fr_defs frag"] by (simp_all add: scopes_ok_def fs_def)
  have files: "list_all (\<lambda>d. d_file d \<in> files) (fs_defs fs)"
    using assms row by (auto simp: fs_def tables_ok_def intro!: declare_defs_files)
  have eq: "declare_file row td = \<lparr>tt_defs = fs_defs fs, tt_names = fs_names fs,
      tt_exports = (tt_exports td)(f \<mapsto> default_exports frag (fs_scope fs) (fs_importable fs)),
      tt_scopes = (tt_scopes td)(f \<mapsto> fs_scope fs)\<rparr>"
    by (simp only: declare_file_def row fs_def prod.case Let_def)
  have old: "within (length (fs_defs fs)) m" if "tt_exports td g = Some m \<or> tt_scopes td g = Some m" for g m
  proof (rule within_mono [OF _ grows])
    show "within (length (tt_defs td)) m" using that assms(1) by (auto simp: tables_ok_def)
  qed
  show ?thesis
    unfolding eq tables_ok_def
    using ok files by (auto simp: scopes_ok_def default_exports_within intro: old)
qed

lemma declare_all_ok: "tables_ok (set (map fst fragments)) (declare_all fragments)"
  unfolding declare_all_def
  by (rule fold_invariant [where Q = "\<lambda>row. fst row \<in> set (map fst fragments)"])
     (simp_all add: declare_file_ok, simp_all add: tables_ok_def)

lemma declared_within_own: "declared_within ex k f name i \<Longrightarrow> \<exists>g m. own_export ex g m = Some i"
  by (induction rule: declared_within.induct) auto

lemma lookup_own_export: "lookup ex f name = Some i \<Longrightarrow> \<exists>g m. own_export ex g m = Some i"
  by (drule lookup_declared) (rule declared_within_own)

lemma lookup_in_range:
  "tables_ok files td \<Longrightarrow> lookup (ts_exports_of rv fragments td) f name = Some i \<Longrightarrow> i < length (tt_defs td)"
  by (fastforce dest!: lookup_own_export
      simp: own_export_def ts_exports_of_def bind_eq_Some_conv tables_ok_def dest: withinD)

section \<open>The graph is closed\<close>

text \<open>The definitions an identifier may name, those of any file and those of one.\<close>

definition declares_id :: "graph_def list \<Rightarrow> string \<Rightarrow> bool" where
  "declares_id defs i \<longleftrightarrow> list_ex (\<lambda>d. d_id d = i) defs"

definition declares_in :: "graph_def list \<Rightarrow> string \<Rightarrow> string \<Rightarrow> bool" where
  "declares_in defs f i \<longleftrightarrow> list_ex (\<lambda>d. d_id d = i \<and> d_file d = f) defs"

fun closed_edge :: "string set \<Rightarrow> graph_def list \<Rightarrow> edge \<Rightarrow> bool" where
  "closed_edge files defs (Import f line t to_file via bound) \<longleftrightarrow>
     to_file \<in> files \<and> list_all (declares_id defs) bound
     \<and> (case via of None \<Rightarrow> True | Some b \<Rightarrow> b \<in> files \<and> list_all (declares_in defs to_file) bound)"
| "closed_edge files defs (Call f line t to_file) \<longleftrightarrow> to_file \<in> files \<and> declares_in defs to_file t"
| "closed_edge files defs (Jsx_Use f line t to_file) \<longleftrightarrow> to_file \<in> files \<and> declares_in defs to_file t"
| "closed_edge files defs (Dispatch f line t to_file) \<longleftrightarrow> to_file \<in> files \<and> declares_in defs to_file t"
| "closed_edge files defs _ \<longleftrightarrow> False"

lemma indexed_declares:
  "i < length defs \<Longrightarrow> declares_in defs (d_file (defs ! i)) (d_id (defs ! i)) \<and> declares_id defs (d_id (defs ! i))"
  by (auto simp: declares_in_def declares_id_def list_ex_iff intro!: bexI [of _ "defs ! i"])

lemma closed_bind:
  assumes "closed_edge files defs e" "i < length defs" "e_via e = None \<or> d_file (defs ! i) = e_to_file e"
  shows "closed_edge files defs (bind_def (d_id (defs ! i)) e)"
  using assms indexed_declares [OF assms(2)] by (cases e) (auto split: option.splits)

lemma bind_keeps [simp]:
  "closed_edge files defs e \<Longrightarrow> e_via (bind_def i e) = e_via e"
  "closed_edge files defs e \<Longrightarrow> e_to_file (bind_def i e) = e_to_file e"
  by (cases e; simp)+

text \<open>The edges of one statement, and the places the map of declaring files points at.\<close>

definition statement_ok :: "string set \<Rightarrow> graph_def list \<Rightarrow> edge list \<times> (string \<times> nat) list \<Rightarrow> bool" where
  "statement_ok files defs st \<longleftrightarrow>
     fst st \<noteq> [] \<and> e_via (hd (fst st)) = None \<and> list_all (closed_edge files defs) (fst st)
     \<and> list_all (\<lambda>(f, slot). slot < length (fst st) \<and> e_to_file (fst st ! slot) = f) (snd st)"

lemma list_all_update: "list_all P xs \<Longrightarrow> (i < length xs \<Longrightarrow> P y) \<Longrightarrow> list_all P (xs[i := y])"
  by (cases "i < length xs") (auto simp: list_all_length nth_list_update)

lemma updated_edge:
  assumes "closed_edge files defs (edges ! slot)" "slot < length edges"
  shows "e_via (edges[slot := bind_def i (edges ! slot)] ! k) = e_via (edges ! k)"
    "e_to_file (edges[slot := bind_def i (edges ! slot)] ! k) = e_to_file (edges ! k)"
  using assms by (cases "k = slot"; simp)+

lemma statement_bind:
  assumes "statement_ok files defs (edges, via_edge)" "slot < length edges" "i < length defs"
    and "slot = 0 \<or> d_file (defs ! i) = e_to_file (edges ! slot)"
  shows "statement_ok files defs (edges[slot := bind_def (d_id (defs ! i)) (edges ! slot)], via_edge)"
proof -
  have closed: "closed_edge files defs (edges ! slot)"
    using assms(1,2) by (simp add: statement_ok_def list_all_length)
  have head: "edges \<noteq> []" "e_via (edges ! 0) = None" using assms(1) by (auto simp: statement_ok_def hd_conv_nth)
  then have "closed_edge files defs (bind_def (d_id (defs ! i)) (edges ! slot))"
    using assms(3,4) closed by (auto intro: closed_bind)
  then show ?thesis
    using assms(1) head closed
    by (simp add: statement_ok_def hd_conv_nth updated_edge [OF closed assms(2)] list_all_update)
qed

lemma statement_append:
  assumes "statement_ok files defs (edges, via_edge)" "t \<in> files" "i < length defs" "d_file (defs ! i) \<in> files"
  shows "statement_ok files defs
    (edges @ [Import f line spec (d_file (defs ! i)) (Some t) [d_id (defs ! i)]],
     (d_file (defs ! i), length edges) # via_edge)"
  using assms indexed_declares [OF assms(3)]
  by (auto simp: statement_ok_def hd_append list_all_iff nth_append)

lemma bind_export_ok:
  assumes "statement_ok files defs st" "t \<in> files" "list_all (\<lambda>d. d_file d \<in> files) defs"
    and "\<And>f name i. lookup ex f name = Some i \<Longrightarrow> i < length defs"
  shows "statement_ok files defs (bind_export defs ex f line spec t b st)"
proof -
  obtain edges via_edge where st: "st = (edges, via_edge)" by (cases st)
  then have zero: "0 < length edges" using assms(1) by (auto simp: statement_ok_def)
  have slot: "slot < length edges \<and> e_to_file (edges ! slot) = g" if "map_of via_edge g = Some slot" for g slot
    using map_of_SomeD [OF that] assms(1) st by (auto simp: statement_ok_def list_all_iff)
  have files: "d_file (defs ! i) \<in> files" if "i < length defs" for i
    using that assms(3) by (simp add: list_all_length)
  show ?thesis
    using assms(1,2) zero st
    by (auto simp: bind_export_def Let_def split: option.splits
        intro!: statement_bind statement_append dest!: assms(4) dest: slot intro: files)
qed

lemma statement_edges_ok:
  assumes "t \<in> files" "list_all (\<lambda>d. d_file d \<in> files) defs"
    and "\<And>f name i. lookup ex f name = Some i \<Longrightarrow> i < length defs"
  shows "list_all (closed_edge files defs) (statement_edges defs ex f imp t)"
proof -
  have "statement_ok files defs (fold (bind_export defs ex f (ti_line imp) (ti_spec imp) t) (ti_bindings imp)
    ([Import f (ti_line imp) (ti_spec imp) t None []], []))"
    by (rule fold_invariant [where Q = "\<lambda>_. True"])
       (auto intro: bind_export_ok assms, simp add: statement_ok_def assms(1))
  then show ?thesis by (simp add: statement_edges_def statement_ok_def)
qed

text \<open>What a file's statements add: import edges, and closed ones.\<close>

definition imports_ok :: "string set \<Rightarrow> graph_def list \<Rightarrow> file_imports \<Rightarrow> bool" where
  "imports_ok files defs fi \<longleftrightarrow> list_all (\<lambda>e. is_Import e \<and> closed_edge files defs e) (fi_edges fi)"

lemma add_unresolved_ok [simp]: "imports_ok files defs (add_unresolved f line spec reason fi) \<longleftrightarrow> imports_ok files defs fi"
  by (simp add: imports_ok_def add_unresolved_def)

lemma bind_is_Import [simp]: "is_Import (bind_def i e) = is_Import e"
  by (cases e) auto

lemma updated_imports: "list_all is_Import xs \<Longrightarrow> list_all is_Import (xs[i := bind_def d (xs ! i)])"
  by (rule list_all_update) (simp_all add: list_all_length)

lemma bind_export_imports: "list_all is_Import (fst st) \<Longrightarrow> list_all is_Import (fst (bind_export defs ex f line spec t b st))"
  by (cases st) (simp add: bind_export_def Let_def updated_imports split: option.splits)

lemma statement_edges_imports: "list_all is_Import (statement_edges defs ex f imp t)"
  unfolding statement_edges_def
  by (rule fold_invariant [where Q = "\<lambda>_. True" and P = "\<lambda>st. list_all is_Import (fst st)"])
     (simp_all add: bind_export_imports)

lemma import_statement_ok:
  assumes "imports_ok (tr_files rv) defs fi" "list_all (\<lambda>d. d_file d \<in> tr_files rv) defs"
    and "\<And>f name i. lookup ex f name = Some i \<Longrightarrow> i < length defs"
  shows "imports_ok (tr_files rv) defs (import_statement rv defs ex f imp fi)"
proof (cases "resolve rv f (ti_spec imp) (if ti_require imp then Use_Require else static_usage rv f)")
  case (Resolved t)
  then have "t \<in> tr_files rv" by (rule resolved_indexed)
  from statement_edges_ok [OF this assms(2,3)] statement_edges_imports [of defs ex f imp t] assms(1) Resolved
  show ?thesis by (auto simp: import_statement_def imports_ok_def list_all_iff)
qed (simp_all add: import_statement_def assms(1))

lemma dynamic_import_ok:
  "imports_ok (tr_files rv) defs fi \<Longrightarrow> imports_ok (tr_files rv) defs (dynamic_import rv f imp fi)"
  by (cases "resolve rv f (dy_spec imp) Use_Import")
     (auto simp: dynamic_import_def imports_ok_def [of _ _ "_\<lparr>fi_edges := _\<rparr>"] imports_ok_def [of _ _ fi] dest: resolved_indexed)

lemma bind_named_ok:
  assumes "is_Import e \<and> e_via e = None \<and> closed_edge files defs e"
    and "\<And>f name i. lookup ex f name = Some i \<Longrightarrow> i < length defs"
  shows "is_Import (bind_named defs ex t n e) \<and> e_via (bind_named defs ex t n e) = None
    \<and> closed_edge files defs (bind_named defs ex t n e)"
  using assms by (auto simp: bind_named_def intro!: closed_bind split: option.splits)

lemma reexport_statement_ok:
  assumes "imports_ok files defs fi" "rr_to row = None \<or> the (rr_to row) \<in> files"
    and "\<And>f name i. lookup ex f name = Some i \<Longrightarrow> i < length defs"
  shows "imports_ok files defs (reexport_statement defs ex f row fi)"
proof (cases "rr_to row")
  case (Some t)
  let ?P = "\<lambda>e. is_Import e \<and> e_via e = None \<and> closed_edge files defs e"
  have "?P (fold (bind_named defs ex t) (if rr_star row then [] else rr_names row)
     (Import f (rr_line row) (rr_spec row) t None []))"
    using assms(2) Some
    by (intro fold_invariant [where Q = "\<lambda>_. True" and P = ?P] bind_named_ok) (simp_all add: assms(3))
  with Some assms(1) show ?thesis by (simp add: reexport_statement_def imports_ok_def)
qed (simp add: reexport_statement_def assms(1))

lemma resolved_row_indexed: "rr_to (resolved_row rv f rx) = None \<or> the (rr_to (resolved_row rv f rx)) \<in> tr_files rv"
  by (cases "resolve rv f (rx_spec rx) (static_usage rv f)") (simp_all add: resolved_row_def resolved_indexed)

lemma reexport_rows_indexed:
  assumes "row \<in> set (reexport_rows (ts_exports_of rv fragments td) f)"
  shows "rr_to row = None \<or> the (rr_to row) \<in> tr_files rv"
proof -
  have "\<exists>g rx. row = resolved_row rv g rx"
  proof -
    let ?rows = "map (\<lambda>(f, frag). (f, map (resolved_row rv f) (fr_reexports frag))) fragments"
    from assms obtain rows where "map_of (rev ?rows) f = Some rows" "row \<in> set rows"
      by (cases "map_of (rev ?rows) f") (auto simp: reexport_rows_def ts_exports_of_def resolve_reexports_def)
    from map_of_SomeD [OF this(1)] this(2) obtain rx where "row = resolved_row rv f rx" by auto
    then show ?thesis by blast
  qed
  then show ?thesis using resolved_row_indexed by metis
qed

lemma file_imports_ok:
  assumes "tables_ok (tr_files rv) td"
  shows "imports_ok (tr_files rv) (tt_defs td) (file_imports_of rv (tt_defs td) (ts_exports_of rv fragments td) f frag)"
proof -
  note range = lookup_in_range [OF assms]
  have files: "list_all (\<lambda>d. d_file d \<in> tr_files rv) (tt_defs td)" using assms by (simp add: tables_ok_def)
  let ?P = "imports_ok (tr_files rv) (tt_defs td)"
  show ?thesis
    unfolding file_imports_of_def
  proof (rule fold_invariant [where P = ?P and Q = "\<lambda>row. rr_to row = None \<or> the (rr_to row) \<in> tr_files rv"])
    show "?P (fold (dynamic_import rv f) (fr_dynamic_imports frag)
        (fold (import_statement rv (tt_defs td) (ts_exports_of rv fragments td) f) (fr_imports frag) no_imports))"
    proof (rule fold_invariant [where P = ?P and Q = "\<lambda>_. True"])
      show "?P (fold (import_statement rv (tt_defs td) (ts_exports_of rv fragments td) f) (fr_imports frag) no_imports)"
        by (rule fold_invariant [where P = ?P and Q = "\<lambda>_. True"])
           (simp_all add: import_statement_ok files range, simp add: imports_ok_def no_imports_def)
    qed (simp_all add: dynamic_import_ok)
  qed (simp_all add: reexport_rows_indexed reexport_statement_ok range)
qed

text \<open>The references of a file, and the counters.\<close>

definition refs_ok :: "string set \<Rightarrow> graph_def list \<Rightarrow> nat \<Rightarrow> ref_state \<Rightarrow> bool" where
  "refs_ok files defs n rs \<longleftrightarrow>
     list_all (closed_edge files defs) (rs_edges rs)
     \<and> te_import (rs_counts rs) = length (filter is_Import (rs_edges rs))
     \<and> te_call (rs_counts rs) = length (filter is_Call (rs_edges rs))
     \<and> te_jsx_use (rs_counts rs) = length (filter is_Jsx_Use (rs_edges rs))
     \<and> te_dispatch (rs_counts rs) = length (filter is_Dispatch (rs_edges rs))
     \<and> te_call (rs_counts rs) + te_jsx_use (rs_counts rs) + te_dispatch (rs_counts rs) + rs_unresolved rs = n"

lemma emit_ref_ok:
  assumes "refs_ok files defs n rs" "list_all (\<lambda>d. d_file d \<in> files) defs"
    and "\<And>i. ref_target ex scope bindings r = Some i \<Longrightarrow> i < length defs"
  shows "refs_ok files defs (Suc n) (emit_ref defs ex scope bindings f r rs)"
proof (cases "ref_target ex scope bindings r")
  case None
  with assms(1) show ?thesis by (simp add: emit_ref_def refs_ok_def)
next
  case (Some i)
  with assms(3) have "i < length defs" .
  with assms(2) indexed_declares [OF this]
  have "d_file (defs ! i) \<in> files" "declares_in defs (d_file (defs ! i)) (d_id (defs ! i))"
    by (auto simp: list_all_length)
  with assms(1) Some show ?thesis by (auto simp: emit_ref_def Let_def refs_ok_def)
qed

lemma lookup_member_in_range:
  assumes "lookup_member ex f name member = Some i" "\<And>f name i. lookup ex f name = Some i \<Longrightarrow> i < n"
  shows "i < n"
  using assms by (auto simp: lookup_member_def first_of_Some bind_eq_Some_conv)

lemma ref_target_in_range:
  assumes "tables_ok files td" "ref_target (ts_exports_of rv fragments td) (tt_scopes td f) bindings r = Some i"
  shows "i < length (tt_defs td)"
proof -
  note range = lookup_in_range [OF assms(1)]
  have "i < length (tt_defs td)" if "tt_scopes td f = Some m" "m name = Some i" for m name
    using that assms(1) unfolding tables_ok_def by (blast intro: withinD)
  with assms(2) show ?thesis
    by (auto simp: ref_target_def bind_eq_Some_conv dest: range lookup_member_in_range [OF _ range]
        split: option.splits if_splits)
qed

lemma emit_refs_ok:
  assumes "refs_ok files (tt_defs td) n rs" "tables_ok files td"
  shows "refs_ok files (tt_defs td) (n + length refs)
    (fold (emit_ref (tt_defs td) (ts_exports_of rv fragments td) (tt_scopes td f) bindings f) refs rs)"
  using assms(1)
proof (induction refs arbitrary: rs n)
  case (Cons r refs)
  have "list_all (\<lambda>d. d_file d \<in> files) (tt_defs td)" using assms(2) by (simp add: tables_ok_def)
  from Cons.IH [OF emit_ref_ok [OF Cons.prems this ref_target_in_range [OF assms(2)]]] show ?case by simp
qed simp

lemma add_imports_ok:
  assumes "refs_ok files defs n rs" "imports_ok files defs fi"
  shows "refs_ok files defs n (rs\<lparr>rs_edges := rs_edges rs @ fi_edges fi,
    rs_counts := (rs_counts rs)\<lparr>te_import := te_import (rs_counts rs) + length (fi_edges fi)\<rparr>\<rparr>)"
proof -
  have only: "filter is_Import (fi_edges fi) = fi_edges fi" "filter is_Call (fi_edges fi) = []"
    "filter is_Jsx_Use (fi_edges fi) = []" "filter is_Dispatch (fi_edges fi) = []"
    using assms(2) by (auto simp: imports_ok_def list_all_iff filter_empty_conv filter_id_conv is_Import_def)
  have "list_all (closed_edge files defs) (fi_edges fi)" using assms(2) by (auto simp: imports_ok_def list_all_iff)
  with assms(1) only show ?thesis by (simp add: refs_ok_def)
qed

lemma resolve_file_ok:
  assumes "refs_ok (tr_files rv) (tt_defs td) n (tz_refs st)" "tables_ok (tr_files rv) td"
  shows "refs_ok (tr_files rv) (tt_defs td) (n + length (fr_refs (snd row)))
    (tz_refs (resolve_file rv td (ts_exports_of rv fragments td) row st))"
  using emit_refs_ok [OF add_imports_ok [OF assms(1) file_imports_ok [OF assms(2)]] assms(2)]
  by (cases row) (simp add: resolve_file_def Let_def)

lemma resolve_files_ok:
  assumes "refs_ok (tr_files rv) (tt_defs td) n (tz_refs st)" "tables_ok (tr_files rv) td"
  shows "refs_ok (tr_files rv) (tt_defs td) (n + sum_list (map (\<lambda>(_, frag). length (fr_refs frag)) rows))
    (tz_refs (fold (resolve_file rv td (ts_exports_of rv fragments td)) rows st))"
  using assms(1)
proof (induction rows arbitrary: st n)
  case (Cons row rows)
  from Cons.IH [OF resolve_file_ok [OF Cons.prems assms(2), of row]] show ?case
    by (simp add: add.assoc case_prod_beta)
qed simp

text \<open>
  C10. The TypeScript graph is closed and its counters are exact: every edge leads to an indexed file, the
  target of a call, a JSX use and a dispatch is a definition of that very file, every name an import binds is
  a definition, and on an edge that comes through a barrel it is one of the file the edge leads to. The four
  counters are the numbers of edges of their kinds, and every reference is an edge or counted unresolved.
\<close>

theorem ts_graph_closed:
  "let g = resolve_ts_graph_in fragments alias config; c = tg_edges_by_kind g
   in list_all (closed_edge (set (map fst fragments)) (tg_defs g)) (tg_edges g)
      \<and> te_import c = length (filter is_Import (tg_edges g)) \<and> te_call c = length (filter is_Call (tg_edges g))
      \<and> te_jsx_use c = length (filter is_Jsx_Use (tg_edges g)) \<and> te_dispatch c = length (filter is_Dispatch (tg_edges g))
      \<and> te_call c + te_jsx_use c + te_dispatch c + xs_unresolved_ref_count (tg_stats g)
         = sum_list (map (\<lambda>(_, frag). length (fr_refs frag)) fragments)"
proof -
  let ?rv = "ts_resolver_of fragments alias config" and ?td = "declare_all fragments"
  have tables: "tables_ok (tr_files ?rv) ?td" using declare_all_ok [of fragments] by (simp add: ts_resolver_of_def)
  have "refs_ok (tr_files ?rv) (tt_defs ?td) 0 (tz_refs \<lparr>tz_refs = empty_refs, tz_external = 0, tz_unresolved = []\<rparr>)"
    by (simp add: refs_ok_def empty_refs_def)
  from resolve_files_ok [OF this tables, of fragments fragments] show ?thesis
    by (simp add: resolve_ts_graph_in_def Let_def refs_ok_def, simp add: ts_resolver_of_def)
qed

end
