(* ===== verification/TsScopes.thy ===== *)
theory TsScopes
  imports TsFacts
begin

text \<open>
  A file resolves its specifiers through the config of its nearest directory that owns aliases, the root's
  when there is none; and what the code does with an exact alias, a glob and a member list at the edges.
\<close>

section \<open>Ancestor directories\<close>

text \<open>\<open>above d e\<close>: the directory \<open>d\<close> is \<open>e\<close> or holds it, names compared segment by segment.\<close>

definition above :: "string \<Rightarrow> string \<Rightarrow> bool" where
  "above d e \<longleftrightarrow> d = e \<or> (length d < length e \<and> starts_with e d \<and> e ! length d = CHR ''/'')"

lemma above_dir_of:
  assumes "above d e" "d \<noteq> e"
  shows "above d (dir_of e)"
proof -
  have d: "length d < length e" "take (length d) e = d" "e ! length d = CHR ''/''"
    using assms by (auto simp: above_def starts_with_def)
  then obtain i where i: "str_rfind e CHR ''/'' = Some i"
    using nth_mem [of "length d" e] by (metis option.exhaust str_rfind_None)
  note last = str_rfind_Some [OF i]
  have "length d \<le> i"
  proof (rule ccontr)
    assume "\<not> length d \<le> i"
    then have "Suc i + (length d - Suc i) = length d" by simp
    then have "drop (Suc i) e ! (length d - Suc i) = e ! length d" using d(1) by (metis nth_drop less_imp_le Suc_leI \<open>\<not> length d \<le> i\<close> last not_le)
    moreover have "length d - Suc i < length (drop (Suc i) e)" using d(1) \<open>\<not> length d \<le> i\<close> by simp
    ultimately have "e ! length d \<in> set (drop (Suc i) e)" by (metis nth_mem)
    with last d(3) show False by simp
  qed
  moreover have "dir_of e = take i e" using i by (simp add: dir_of_def)
  ultimately show ?thesis
    using d last by (cases "length d = i") (auto simp: above_def starts_with_def min_def)
qed

lemma dir_of_above: "e \<noteq> [] \<Longrightarrow> dir_of e \<noteq> [] \<Longrightarrow> above (dir_of e) e"
  by (auto simp: dir_of_def above_def starts_with_def min_def dest: str_rfind_Some split: option.splits)

lemma above_length: "above d e \<Longrightarrow> length d \<le> length e"
  by (auto simp: above_def)

lemma above_take: "above d e \<Longrightarrow> take (length d) e = d"
  by (auto simp: above_def starts_with_def)

lemma above_trans:
  assumes "above c d" "above d e"
  shows "above c e"
proof (cases "c = d \<or> d = e")
  case False
  then have c: "length c < length d" "take (length c) d = c" "d ! length c = CHR ''/''"
    and d: "length d < length e" "take (length d) e = d"
    using assms by (auto simp: above_def starts_with_def)
  have "take (length c) e = c" using c d by (metis min.absorb1 less_imp_le take_take)
  moreover have "e ! length c = CHR ''/''" using c d by (metis nth_take)
  ultimately show ?thesis using c d by (simp add: above_def starts_with_def)
qed (use assms in auto)

section \<open>The owner\<close>

lemma owner_sound:
  "owning_tsconfig_dir own e = Some d \<Longrightarrow> d \<noteq> [] \<and> own d \<noteq> None \<and> above d e"
proof (induction own e rule: owning_tsconfig_dir.induct)
  case (1 own e)
  show ?case
  proof (cases "e = [] \<or> own e \<noteq> None")
    case True
    with 1(2) show ?thesis by (subst (asm) owning_tsconfig_dir.simps) (auto simp: above_def split: if_splits)
  next
    case False
    with 1(2) have "owning_tsconfig_dir own (dir_of e) = Some d" by (subst (asm) owning_tsconfig_dir.simps) simp
    with 1(1) False have d: "d \<noteq> [] \<and> own d \<noteq> None \<and> above d (dir_of e)" by simp
    then have "dir_of e \<noteq> []" by (auto simp: above_def)
    with False d show ?thesis by (blast intro: above_trans dir_of_above)
  qed
qed

lemma owner_nearest:
  "c \<noteq> [] \<Longrightarrow> own c \<noteq> None \<Longrightarrow> above c e \<Longrightarrow> \<exists>d. owning_tsconfig_dir own e = Some d \<and> length c \<le> length d"
proof (induction own e rule: owning_tsconfig_dir.induct)
  case (1 own e)
  then have e: "e \<noteq> []" by (auto simp: above_def)
  show ?case
  proof (cases "own e = None")
    case True
    with 1(3,4) have "above c (dir_of e)" by (metis above_dir_of)
    with 1(1) [OF e _ 1(2,3)] True e show ?thesis by (subst owning_tsconfig_dir.simps) simp
  next
    case False
    with e 1(4) show ?thesis by (subst owning_tsconfig_dir.simps) (simp add: above_length)
  qed
qed

text \<open>A file and its directory have the same ancestors.\<close>

definition holds_file :: "string \<Rightarrow> string \<Rightarrow> bool" where
  "holds_file d f \<longleftrightarrow> length d < length f \<and> starts_with f d \<and> f ! length d = CHR ''/''"

lemma holds_file_iff: "d \<noteq> [] \<Longrightarrow> holds_file d f \<longleftrightarrow> above d (dir_of f)"
proof
  assume "holds_file d f"
  then show "above d (dir_of f)" by (intro above_dir_of) (auto simp: above_def holds_file_def)
next
  assume d: "d \<noteq> []" "above d (dir_of f)"
  then have "dir_of f \<noteq> []" by (auto simp: above_def)
  then have "f \<noteq> []" by (auto simp: dir_of_def)
  with \<open>dir_of f \<noteq> []\<close> d(2) have "above d f" by (blast intro: above_trans dir_of_above)
  moreover have "length d < length f" using above_length [OF d(2)] dir_of_shorter [OF \<open>f \<noteq> []\<close>] by simp
  ultimately show "holds_file d f" by (auto simp: above_def holds_file_def)
qed

section \<open>The scope of a file\<close>

lemma first_longest:
  assumes "sorted (map (\<lambda>d. (- int (length d), d)) ds)" "List.find P ds = Some d" "c \<in> set ds" "P c"
  shows "length c \<le> length d"
proof -
  obtain us vs where ds: "ds = us @ d # vs" "P d" "\<forall>u \<in> set us. \<not> P u"
    using assms(2) by (metis append_take_drop_id find_Some_iff2 in_set_takeD in_set_conv_nth length_take less_imp_le min.absorb2 nth_take id_take_nth_drop)
  with assms(3,4) have "c = d \<or> c \<in> set vs" by auto
  with assms(1) ds(1) show ?thesis by (auto simp: sorted_append less_eq_prod_def)
qed

definition scope_order :: "string \<Rightarrow> int \<times> string" where
  "scope_order d = (- int (length d), d)"

lemma nested_dirs:
  assumes "\<forall>d \<in> set ds. own d \<noteq> None"
  shows "List.map_filter (\<lambda>d. map_option (Pair d) (own d)) ds = map (\<lambda>d. (d, the (own d))) ds"
  using assms by (induction ds) (auto simp: List.map_filter_def)

lemma find_map: "List.find P (map g xs) = map_option g (List.find (P \<circ> g) xs)"
  by (induction xs) auto

lemma set_filtered: "set (List.map_filter g xs) = {y. \<exists>x \<in> set xs. g x = Some y}"
  unfolding List.map_filter_def by force

text \<open>
  A file takes the aliases of its nearest directory whose config declares some: whatever files were
  handed to the reader besides it, its scope is what the walk up from its own directory finds, and the
  root's aliases when that walk finds nothing.
\<close>

theorem scope_is_nearest_owner:
  assumes "f \<in> set files"
  shows "scope_for f (read_ts_alias_scopes read parse files) =
    (case owning_tsconfig_dir (own_aliases read parse) (dir_of f) of
       Some d \<Rightarrow> the (own_aliases read parse d)
     | None \<Rightarrow> read_ts_path_aliases read parse)"
proof -
  define own where "own = own_aliases read parse"
  define owners where "owners = remdups (List.map_filter (\<lambda>f. owning_tsconfig_dir own (dir_of f)) files)"
  define ds where "ds = sort_key scope_order owners"
  have owner: "d \<noteq> [] \<and> own d \<noteq> None" if "d \<in> set ds" for d
    using that owner_sound by (fastforce simp: ds_def owners_def set_filtered)
  have nested: "as_nested (read_ts_alias_scopes read parse files) = map (\<lambda>d. (d, the (own d))) ds"
    using owner nested_dirs [of ds own]
    by (simp add: read_ts_alias_scopes_def Let_def own_def owners_def ds_def scope_order_def [abs_def])
  have root: "as_root (read_ts_alias_scopes read parse files) = read_ts_path_aliases read parse"
    by (simp add: read_ts_alias_scopes_def Let_def)
  have scope: "scope_for f (read_ts_alias_scopes read parse files) =
      (case List.find (\<lambda>d. holds_file d f) ds of Some d \<Rightarrow> the (own d) | None \<Rightarrow> read_ts_path_aliases read parse)"
    by (simp add: scope_for_def nested root find_map comp_def holds_file_def split: option.splits)
  show ?thesis
  proof (cases "owning_tsconfig_dir own (dir_of f)")
    case None
    have "\<not> holds_file d f" if "d \<in> set ds" for d
      using owner [OF that] None owner_nearest [of d own "dir_of f"] holds_file_iff [of d f] by auto
    then have "List.find (\<lambda>d. holds_file d f) ds = None" by (simp add: find_None_iff)
    with None scope show ?thesis by (simp add: own_def)
  next
    case (Some d)
    then have d: "d \<in> set ds" using assms by (auto simp: ds_def owners_def set_filtered intro!: bexI [of _ f])
    have held: "holds_file d f" using owner_sound [OF Some] holds_file_iff by blast
    then obtain c where c: "List.find (\<lambda>d. holds_file d f) ds = Some c"
      using d by (metis find_None_iff option.exhaust)
    have cs: "holds_file c f" "c \<in> set ds" using c by (auto simp: find_Some_iff)
    have "length d \<le> length c"
      using first_longest [OF _ c d held] by (simp add: ds_def scope_order_def [abs_def] sorted_sort_key [where f = "\<lambda>d. (- int (length d), d)"])
    moreover have "length c \<le> length d"
      using owner [OF cs(2)] cs(1) owner_nearest [of c own "dir_of f"] holds_file_iff [of c f] Some by auto
    ultimately have "c = d" using cs(1) held by (metis holds_file_def le_antisym starts_with_def)
    with c scope Some show ?thesis by (simp add: own_def)
  qed
qed

text \<open>A repository with one config, in \<open>a\<close>, that declares a base.\<close>

definition owned_disk :: file_reader where
  "owned_disk rel = (if rel = ''a/tsconfig.json'' then Some ''{}'' else None)"

definition owned_doc :: "string \<Rightarrow> ts_config_doc option" where
  "owned_doc t = Some \<lparr>tc_extends = None, tc_options = Some \<lparr>co_base_url = Some (J_String ''.''), co_paths = None\<rparr>\<rparr>"

theorem scope_is_nearest_owner_witness:
  "scope_for ''a/b/c.ts'' (read_ts_alias_scopes owned_disk owned_doc [''a/b/c.ts'', ''d.ts''])
   = \<lparr>pa_aliases = [], pa_base_url_dir = Some ''a''\<rparr>"
proof -
  have listed: "''a/b/c.ts'' \<in> set [''a/b/c.ts'', ''d.ts'']" by simp
  have "(case owning_tsconfig_dir (own_aliases owned_disk owned_doc) (dir_of ''a/b/c.ts'') of
       Some d \<Rightarrow> the (own_aliases owned_disk owned_doc d)
     | None \<Rightarrow> read_ts_path_aliases owned_disk owned_doc) = \<lparr>pa_aliases = [], pa_base_url_dir = Some ''a''\<rparr>"
    by code_simp
  with scope_is_nearest_owner [OF listed, of owned_disk owned_doc] show ?thesis by simp
qed

section \<open>At the edges\<close>

text \<open>
  Aliases are ordered by the length of the prefix and then by the prefix itself, so an exact alias and a
  wildcard one with the same prefix are tied: the exact alias is never asked when the wildcard was declared
  first, and always when it was declared first itself.
\<close>

definition wildcard_alias :: ts_alias where
  "wildcard_alias =
     alias_of_pattern ''foo*'' [\<lparr>at_prefix = Some ''wild'', at_suffix = []\<rparr>]"

definition exact_alias :: ts_alias where
  "exact_alias = alias_of_pattern ''foo'' [\<lparr>at_prefix = Some ''exact'', at_suffix = []\<rparr>]"

lemma tied_aliases_keep_their_order:
  "alias_targets ''foo'' (sort_key alias_order [wildcard_alias, exact_alias]) = [Some ''wild'']
   \<and> alias_targets ''foo'' (sort_key alias_order [exact_alias, wildcard_alias]) = [Some ''exact'']"
  by code_simp

text \<open>The ends of a glob segment may overlap in the name: \<open>a*a\<close> takes the name \<open>a\<close>.\<close>

lemma overlapping_ends: "segment_matches ''a*a'' ''a'' \<and> glob_matches ''packages/ab*ba'' ''packages/aba''"
  by code_simp

text \<open>A member list item that is a lone quote is sliced backwards, a panic.\<close>

lemma lone_quote_panics: "parse_pnpm (''packages:'' @ NEWLINE # ''- '' @ [QUOTE]) = None"
  by code_simp

text \<open>
  A namespace import through a barrel: \<open>export =\<close> of the file behind it is bound to the statement's edge,
  which leads to the barrel.
\<close>

definition barrel_exports :: ts_exports where
  "barrel_exports =
     \<lparr>ex_by_file = map_of [(''lib.ts'', [''export='' \<mapsto> 0])],
      ex_reexports = map_of [(''index.ts'', [\<lparr>rr_spec = ''./lib'', rr_line = 1, rr_star = True, rr_names = [],
        rr_namespace = None, rr_to = Some ''lib.ts'', rr_reason = None\<rparr>])]\<rparr>"

definition barrel_defs :: "graph_def list" where
  "barrel_defs = [ts_def_of ''lib.ts'' \<lparr>td_name = ''Foo'', td_kind = ''class'', td_line = 1, td_end_line = 1, td_local = False\<rparr>]"

lemma namespace_import_binds_on_barrel:
  "statement_edges barrel_defs barrel_exports ''app.ts''
     \<lparr>ti_spec = ''.'', ti_line = 1, ti_bindings = [\<lparr>tb_local = ''ns'', tb_imported = ''*''\<rparr>], ti_require = False\<rparr> ''index.ts''
   = [Import ''app.ts'' 1 ''.'' ''index.ts'' None [''lib.ts#Foo'']]
   \<and> map d_file barrel_defs = [''lib.ts'']"
  by code_simp

end
