(* ===== verification/NgExpr.thy ===== *)
theory NgExpr
  imports TsScopes
begin

text \<open>
  Angular template expressions (\<open>src/ngtemplate/expr.rs\<close>, \<open>src/ngtemplate/micro.rs\<close>): the lexer, the recursive
  descent parser that keeps the root identifiers an expression reads, and the microsyntax of structural
  directives. A text is its bytes. \<open>None\<close> is a refusal, as \<open>Err(())\<close> is. The parser's recursion is on the
  nesting levels left, of \<open>MAX_DEPTH\<close>; its loops have one more round than there are tokens, which is
  enough since every round that goes on takes a token (\<open>NgFacts\<close>).
\<close>

section \<open>Tokens\<close>

datatype ng_tok = Tok_Ident string | Tok_Literal | Tok_Punct string

type_synonym ng_token = "ng_tok \<times> nat"

type_synonym ng_read = "string \<times> nat"

definition PUNCTS :: "string list" where
  "PUNCTS =
     [''==='', ''!=='', ''**='', ''&&='', ''||='', ''??='', ''?.'', ''??'', ''=='', ''!='', ''<='', ''>='', ''&&'', ''||'', ''**'',
      ''+='', ''-='', ''*='', ''/='', ''%='', ''+'', ''-'', ''*'', ''/'', ''%'', ''<'', ''>'', ''!'', ''='', ''?'', '':'', ''.'', '','',
      '';'', ''|'', ''('', '')'', ''['', '']'', ''{'', ''}'']"

definition BINARY_OPS :: "string list" where
  "BINARY_OPS =
     [''==='', ''!=='', ''??'', ''=='', ''!='', ''<='', ''>='', ''&&'', ''||'', ''**'', ''+'', ''-'', ''*'', ''/'', ''%'', ''<'', ''>'']"

definition ASSIGN_OPS :: "string list" where
  "ASSIGN_OPS = [''='', ''+='', ''-='', ''*='', ''/='', ''%='', ''**='', ''&&='', ''||='', ''??='']"

definition NOT_READS :: "string list" where
  "NOT_READS = [''true'', ''false'', ''null'', ''undefined'', ''this'', ''$any'']"

definition MAX_DEPTH :: nat where "MAX_DEPTH = 64"

definition is_ident_start :: "char \<Rightarrow> bool" where
  "is_ident_start c \<longleftrightarrow> is_ascii_alphabetic c \<or> c = CHR ''_'' \<or> c = CHR ''$''"

definition is_ident_part :: "char \<Rightarrow> bool" where
  "is_ident_part c \<longleftrightarrow> is_ident_start c \<or> is_ascii_digit c"

text \<open>\<open>u8::is_ascii_whitespace\<close>.\<close>

definition is_ascii_space :: "char \<Rightarrow> bool" where
  "is_ascii_space c \<longleftrightarrow> byte c \<in> {32, 9, 10, 12, 13}"

text \<open>The text after the closing quote and the line there; a string that never closes is refused.\<close>

fun skip_string :: "char \<Rightarrow> string \<Rightarrow> nat \<Rightarrow> (string \<times> nat) option" where
  "skip_string quote [] line = None"
| "skip_string quote (c # cs) line =
     (if c = BACKSLASH then (case cs of [] \<Rightarrow> None | _ # rest \<Rightarrow> skip_string quote rest line)
      else if c = NEWLINE then skip_string quote cs (line + 1)
      else if c = quote then Some (cs, line)
      else skip_string quote cs line)"

lemma skip_string_length: "skip_string quote s line = Some (rest, line') \<Longrightarrow> length rest < length s"
  by (induction quote s line rule: skip_string.induct) (force split: if_splits list.splits)+

lemma punct_length: "List.find (starts_with s) PUNCTS = Some p \<Longrightarrow> s \<noteq> [] \<Longrightarrow> length (drop (length p) s) < length s"
proof -
  assume found: "List.find (starts_with s) PUNCTS = Some p" and "s \<noteq> []"
  from found have "p \<in> set PUNCTS" by (auto simp: find_Some_iff)
  moreover have "list_all (\<lambda>p. p \<noteq> []) PUNCTS" by code_simp
  ultimately have "p \<noteq> []" by (auto simp: list_all_iff)
  with \<open>s \<noteq> []\<close> show ?thesis by simp
qed

function lex :: "string \<Rightarrow> nat \<Rightarrow> ng_token list option" where
  "lex [] line = Some []"
| "lex (c # cs) line =
     (if c = NEWLINE then lex cs (line + 1)
      else if is_ascii_space c then lex cs line
      else if is_ident_start c then
        map_option (Cons (Tok_Ident (takeWhile is_ident_part (c # cs)), line)) (lex (dropWhile is_ident_part cs) line)
      else if is_ascii_digit c then
        map_option (Cons (Tok_Literal, line)) (lex (dropWhile (\<lambda>x. is_ascii_alphanumeric x \<or> x = CHR ''.'') cs) line)
      else if c = SINGLE_QUOTE \<or> c = QUOTE then
        (case skip_string c cs line of
           None \<Rightarrow> None
         | Some (rest, line') \<Rightarrow> map_option (Cons (Tok_Literal, line)) (lex rest line'))
      else
        (case List.find (starts_with (c # cs)) PUNCTS of
           None \<Rightarrow> None
         | Some p \<Rightarrow> map_option (Cons (Tok_Punct p, line)) (lex (drop (length p) (c # cs)) line)))"
  by pat_completeness auto
termination
proof (relation "measure (\<lambda>(s, _). length s)")
  fix c :: char and cs rest :: string and line line' :: nat and p :: string and y
  show "skip_string c cs line = Some y \<Longrightarrow> (rest, line') = y \<Longrightarrow> ((rest, line'), c # cs, line) \<in> measure (\<lambda>(s, _). length s)"
    using skip_string_length [of c cs line rest line'] by auto
  show "List.find (starts_with (c # cs)) PUNCTS = Some p
    \<Longrightarrow> ((drop (length p) (c # cs), line), c # cs, line) \<in> measure (\<lambda>(s, _). length s)"
    using punct_length [of "c # cs" p] by simp
qed (simp_all add: length_dropWhile_le le_imp_less_Suc)

declare lex.simps [simp del]

section \<open>The parser\<close>

text \<open>The tokens left and the reads so far; the depth is the argument of the levels below.\<close>

record ng_parser =
  np_toks :: "ng_token list"
  np_reads :: "ng_read list"

definition peek :: "ng_parser \<Rightarrow> ng_tok option" where
  "peek p = (case np_toks p of [] \<Rightarrow> None | (t, _) # _ \<Rightarrow> Some t)"

definition peek_punct :: "ng_parser \<Rightarrow> string \<Rightarrow> bool" where
  "peek_punct p s \<longleftrightarrow> peek p = Some (Tok_Punct s)"

definition peek_ident :: "ng_parser \<Rightarrow> string \<Rightarrow> bool" where
  "peek_ident p word \<longleftrightarrow> peek p = Some (Tok_Ident word)"

definition peek_op :: "ng_parser \<Rightarrow> string list \<Rightarrow> bool" where
  "peek_op p ops \<longleftrightarrow> (case peek p of Some (Tok_Punct s) \<Rightarrow> s \<in> set ops | _ \<Rightarrow> False)"

definition advance :: "ng_parser \<Rightarrow> ng_parser" where
  "advance p = p\<lparr>np_toks := tl (np_toks p)\<rparr>"

definition expect_punct :: "string \<Rightarrow> ng_parser \<Rightarrow> ng_parser option" where
  "expect_punct s p = (if peek_punct p s then Some (advance p) else None)"

definition eat_ident :: "ng_parser \<Rightarrow> (string \<times> ng_parser) option" where
  "eat_ident p = (case peek p of Some (Tok_Ident name) \<Rightarrow> Some (name, advance p) | _ \<Rightarrow> None)"

definition skip_ident :: "ng_parser \<Rightarrow> ng_parser option" where
  "skip_ident p = map_option snd (eat_ident p)"

definition read :: "string \<Rightarrow> nat \<Rightarrow> ng_parser \<Rightarrow> ng_parser" where
  "read name line p = (if name \<in> set NOT_READS then p else p\<lparr>np_reads := np_reads p @ [(name, line)]\<rparr>)"

text \<open>A loop of the parser: a round that goes on, or the last one.\<close>

datatype 's round = Again 's | Done 's

fun rounds :: "nat \<Rightarrow> ('s \<Rightarrow> 's round option) \<Rightarrow> 's \<Rightarrow> 's option" where
  "rounds 0 body s = None"
| "rounds (Suc n) body s =
     (case body s of
        None \<Rightarrow> None
      | Some (Done s') \<Rightarrow> Some s'
      | Some (Again s') \<Rightarrow> rounds n body s')"

definition loop :: "(ng_parser \<Rightarrow> ng_parser round option) \<Rightarrow> ng_parser \<Rightarrow> ng_parser option" where
  "loop body p = rounds (Suc (length (np_toks p))) body p"

type_synonym ng_step = "ng_parser \<Rightarrow> ng_parser option"

definition binary_round :: "ng_step \<Rightarrow> ng_parser \<Rightarrow> ng_parser round option" where
  "binary_round un p = (if peek_op p BINARY_OPS then map_option Again (un (advance p)) else Some (Done p))"

definition binary :: "ng_step \<Rightarrow> ng_step" where
  "binary un p = do { p \<leftarrow> un p; loop (binary_round un) p }"

definition conditional :: "ng_step \<Rightarrow> ng_step \<Rightarrow> ng_step" where
  "conditional un pi p =
     do {
       p \<leftarrow> binary un p;
       if \<not> peek_punct p ''?'' then Some p
       else do { p \<leftarrow> pi (advance p); p \<leftarrow> expect_punct '':'' p; pi p } }"

definition assign_round :: "bool \<Rightarrow> ng_step \<Rightarrow> ng_step \<Rightarrow> ng_parser \<Rightarrow> ng_parser round option" where
  "assign_round allow_assign un pi p =
     do {
       p \<leftarrow> conditional un pi p;
       Some (if allow_assign \<and> peek_op p ASSIGN_OPS then Again (advance p) else Done p) }"

definition assign :: "bool \<Rightarrow> ng_step \<Rightarrow> ng_step \<Rightarrow> ng_step" where
  "assign allow_assign un pi p = loop (assign_round allow_assign un pi) p"

definition pipe_argument :: "bool \<Rightarrow> ng_step \<Rightarrow> ng_step \<Rightarrow> ng_parser \<Rightarrow> ng_parser round option" where
  "pipe_argument allow_assign un pi p =
     (if peek_punct p '':'' then map_option Again (assign allow_assign un pi (advance p)) else Some (Done p))"

definition pipe_name :: "bool \<Rightarrow> ng_step \<Rightarrow> ng_step \<Rightarrow> ng_parser \<Rightarrow> ng_parser round option" where
  "pipe_name allow_assign un pi p =
     (if peek_punct p ''|''
      then do { p \<leftarrow> skip_ident (advance p); p \<leftarrow> loop (pipe_argument allow_assign un pi) p; Some (Again p) }
      else Some (Done p))"

definition pipe_body :: "bool \<Rightarrow> ng_step \<Rightarrow> ng_step \<Rightarrow> ng_step" where
  "pipe_body allow_assign un pi p = do { p \<leftarrow> assign allow_assign un pi p; loop (pipe_name allow_assign un pi) p }"

text \<open>Comma-separated expressions up to \<open>close\<close>, which is taken.\<close>

definition list_round :: "ng_step \<Rightarrow> string \<Rightarrow> ng_parser \<Rightarrow> ng_parser round option" where
  "list_round pi close p =
     do {
       p \<leftarrow> pi p;
       if peek_punct p '','' then Some (Again (advance p)) else map_option Done (expect_punct close p) }"

definition expr_list :: "ng_step \<Rightarrow> string \<Rightarrow> ng_step" where
  "expr_list pi close p = (if peek_punct p close then Some (advance p) else loop (list_round pi close) p)"

text \<open>The member after \<open>this.\<close> is a root.\<close>

definition this_member :: "ng_parser \<Rightarrow> ng_parser" where
  "this_member p =
     (case np_toks p of
        (Tok_Punct s, _) # (Tok_Ident name, line) # rest \<Rightarrow>
          (if s = ''.'' \<or> s = ''?.'' then read name line (p\<lparr>np_toks := rest\<rparr>) else p)
      | _ \<Rightarrow> p)"

definition object_entry :: "ng_step \<Rightarrow> ng_step" where
  "object_entry pi p =
     (case np_toks p of
        (Tok_Ident key, line) # rest \<Rightarrow>
          (let p = advance p in if peek_punct p '':'' then pi (advance p) else Some (read key line p))
      | (Tok_Literal, _) # rest \<Rightarrow> do { p \<leftarrow> expect_punct '':'' (advance p); pi p }
      | _ \<Rightarrow> None)"

definition object_round :: "ng_step \<Rightarrow> ng_parser \<Rightarrow> ng_parser round option" where
  "object_round pi p =
     do {
       p \<leftarrow> object_entry pi p;
       if peek_punct p '',''
       then (let p = advance p in Some (if peek_punct p ''}'' then Done (advance p) else Again p))
       else map_option Done (expect_punct ''}'' p) }"

definition object :: "ng_step \<Rightarrow> ng_step" where
  "object pi p = (if peek_punct p ''}'' then Some (advance p) else loop (object_round pi) p)"

definition primary :: "ng_step \<Rightarrow> ng_step" where
  "primary pi p =
     (case np_toks p of
        (Tok_Ident name, line) # _ \<Rightarrow>
          Some (if name = ''this'' then this_member (advance p) else read name line (advance p))
      | (Tok_Literal, _) # _ \<Rightarrow> Some (advance p)
      | (Tok_Punct s, _) # _ \<Rightarrow>
          (if s = ''('' then do { p \<leftarrow> pi (advance p); expect_punct '')'' p }
           else if s = ''['' then expr_list pi '']'' (advance p)
           else if s = ''{'' then object pi (advance p)
           else None)
      | [] \<Rightarrow> None)"

definition postfix_round :: "ng_step \<Rightarrow> ng_parser \<Rightarrow> ng_parser round option" where
  "postfix_round pi p =
     (if peek_punct p ''.'' then map_option Again (skip_ident (advance p))
      else if peek_punct p ''?.'' then
        (let p = advance p
         in case eat_ident p of
              Some (_, p') \<Rightarrow> Some (Again p')
            | None \<Rightarrow> (if peek_punct p ''['' \<or> peek_punct p ''('' then Some (Again p) else None))
      else if peek_punct p ''['' then do { p \<leftarrow> pi (advance p); p \<leftarrow> expect_punct '']'' p; Some (Again p) }
      else if peek_punct p ''('' then map_option Again (expr_list pi '')'' (advance p))
      else if peek_punct p ''!'' then Some (Again (advance p))
      else Some (Done p))"

definition postfix_expr :: "ng_step \<Rightarrow> ng_step" where
  "postfix_expr pi p = do { p \<leftarrow> primary pi p; loop (postfix_round pi) p }"

definition is_prefix_op :: "ng_parser \<Rightarrow> bool" where
  "is_prefix_op p \<longleftrightarrow> peek_op p [''!'', ''-'', ''+''] \<or> peek_ident p ''typeof'' \<or> peek_ident p ''void''"

text \<open>\<open>levels\<close> is how many more levels may be entered: \<open>MAX_DEPTH\<close> less the depth.\<close>

fun pipe_expr :: "bool \<Rightarrow> nat \<Rightarrow> ng_step"
  and unary :: "bool \<Rightarrow> nat \<Rightarrow> ng_step" where
  "pipe_expr allow_assign 0 p = None"
| "pipe_expr allow_assign (Suc levels) p =
     pipe_body allow_assign (unary allow_assign levels) (pipe_expr allow_assign levels) p"
| "unary allow_assign 0 p = None"
| "unary allow_assign (Suc levels) p =
     (if is_prefix_op p then unary allow_assign levels (advance p)
      else postfix_expr (pipe_expr allow_assign levels) p)"

definition new_parser :: "ng_token list \<Rightarrow> ng_parser" where
  "new_parser toks = \<lparr>np_toks = toks, np_reads = []\<rparr>"

definition at_end :: "ng_parser \<Rightarrow> bool" where
  "at_end p \<longleftrightarrow> np_toks p = []"

definition whole_pipe :: "bool \<Rightarrow> ng_step" where
  "whole_pipe allow_assign = pipe_expr allow_assign MAX_DEPTH"

definition parse_binding_tokens :: "ng_token list \<Rightarrow> ng_read list option" where
  "parse_binding_tokens toks =
     do {
       p \<leftarrow> (if toks = [] then Some (new_parser toks) else whole_pipe False (new_parser toks));
       if at_end p then Some (np_reads p) else None }"

definition parse_binding :: "string \<Rightarrow> nat \<Rightarrow> ng_read list option" where
  "parse_binding text' first_line = do { toks \<leftarrow> lex text' first_line; parse_binding_tokens toks }"

definition action_round :: "ng_parser \<Rightarrow> ng_parser round option" where
  "action_round p =
     (if at_end p then Some (Done p)
      else if peek_punct p '';'' then Some (Again (advance p))
      else do {
        p \<leftarrow> whole_pipe True p;
        if at_end p then Some (Again p) else map_option Again (expect_punct '';'' p) })"

definition parse_action :: "string \<Rightarrow> nat \<Rightarrow> ng_read list option" where
  "parse_action text' first_line =
     do { toks \<leftarrow> lex text' first_line; p \<leftarrow> loop action_round (new_parser toks); Some (np_reads p) }"

section \<open>Microsyntax\<close>

record micro =
  mi_locals :: "string list"
  mi_reads :: "ng_read list"

record micro_state =
  ms_parser :: ng_parser
  ms_locals :: "string list"
  ms_first :: bool

fun skip_separators :: "ng_token list \<Rightarrow> ng_token list" where
  "skip_separators ((Tok_Punct s, line) # toks) =
     (if s = '';'' \<or> s = '','' then skip_separators toks else (Tok_Punct s, line) # toks)"
| "skip_separators toks = toks"

text \<open>An optional \<open>as v\<close>: whether it was there, and the state with its local.\<close>

definition export_as :: "micro_state \<Rightarrow> (bool \<times> micro_state) option" where
  "export_as st =
     (if \<not> peek_ident (ms_parser st) ''as'' then Some (False, st)
      else do {
        (name, p) \<leftarrow> eat_ident (advance (ms_parser st));
        Some (True, st\<lparr>ms_parser := p, ms_locals := ms_locals st @ [name]\<rparr>) })"

definition micro_expr :: "micro_state \<Rightarrow> micro_state option" where
  "micro_expr st = do { p \<leftarrow> whole_pipe False (ms_parser st); map_option snd (export_as (st\<lparr>ms_parser := p\<rparr>)) }"

definition let_item :: "micro_state \<Rightarrow> micro_state option" where
  "let_item st =
     do {
       (name, p) \<leftarrow> eat_ident (advance (ms_parser st));
       p \<leftarrow> (if peek_punct p ''='' then skip_ident (advance p) else Some p);
       Some (st\<lparr>ms_parser := p, ms_locals := ms_locals st @ [name]\<rparr>) }"

definition keyed_item :: "micro_state \<Rightarrow> micro_state option" where
  "keyed_item st =
     do {
       p \<leftarrow> skip_ident (ms_parser st);
       (exported, st) \<leftarrow> export_as (st\<lparr>ms_parser := p\<rparr>);
       if exported then Some st
       else micro_expr (if peek_punct (ms_parser st) '':'' then st\<lparr>ms_parser := advance (ms_parser st)\<rparr> else st) }"

definition micro_round :: "micro_state \<Rightarrow> micro_state round option" where
  "micro_round st =
     (let st = st\<lparr>ms_parser := (ms_parser st)\<lparr>np_toks := skip_separators (np_toks (ms_parser st))\<rparr>\<rparr>
      in if at_end (ms_parser st) then Some (Done st)
         else map_option (\<lambda>st. Again (st\<lparr>ms_first := False\<rparr>))
           (if peek_ident (ms_parser st) ''let'' then let_item st
            else if ms_first st then micro_expr st
            else keyed_item st))"

definition parse_micro :: "string \<Rightarrow> nat \<Rightarrow> micro option" where
  "parse_micro text' first_line =
     do {
       toks \<leftarrow> lex text' first_line;
       st \<leftarrow> rounds (Suc (length toks)) micro_round \<lparr>ms_parser = new_parser toks, ms_locals = [], ms_first = True\<rparr>;
       Some \<lparr>mi_locals = ms_locals st, mi_reads = np_reads (ms_parser st)\<rparr> }"

end
