(* ===== verification/NgTemplate.thy ===== *)
theory NgTemplate
  imports NgExpr
begin

text \<open>
  The Angular template scan (\<open>src/ngtemplate.rs\<close>, \<open>src/ngtemplate/markup.rs\<close>, \<open>src/ngtemplate/scope.rs\<close>):
  one pass that turns the text into element, interpolation and gap events, and the walk that judges the
  reads of every event against the locals in scope. A cursor is the text left and its line.
\<close>

section \<open>Results\<close>

datatype gap_reason =
    Control_Flow_Block | Unparsed_Expression | Template_Url_Unresolved | Template_Url_Non_Literal
  | Unknown_Member | Inline_Template_Substitution

record template_read =
  tr_name :: string
  tr_line :: nat

record template_gap =
  tg_line :: nat
  tg_reason :: gap_reason

record template_scan =
  tn_reads :: "template_read list"
  tn_gaps :: "template_gap list"

section \<open>Markup\<close>

record ng_attr =
  na_name :: string
  na_line :: nat
  na_value :: "(string \<times> nat) option"

datatype ng_event =
    Ev_Open string "ng_attr list" bool
  | Ev_Close string
  | Ev_Interp string nat
  | Ev_Gap nat gap_reason

definition VOID_ELEMENTS :: "string list" where
  "VOID_ELEMENTS =
     [''area'', ''base'', ''br'', ''col'', ''embed'', ''hr'', ''img'', ''input'', ''link'', ''meta'', ''param'', ''source'',
      ''track'', ''wbr'']"

definition RAW_TEXT_ELEMENTS :: "string list" where
  "RAW_TEXT_ELEMENTS = [''script'', ''style'']"

definition BLOCK_KEYWORDS :: "string list" where
  "BLOCK_KEYWORDS =
     [''if'', ''else'', ''for'', ''empty'', ''switch'', ''case'', ''default'', ''defer'', ''placeholder'', ''loading'', ''error'', ''let'']"

definition is_name_char :: "char \<Rightarrow> bool" where
  "is_name_char c \<longleftrightarrow> is_ascii_alphanumeric c \<or> c \<in> set ''-_:.''"

definition newlines :: "string \<Rightarrow> nat" where
  "newlines s = length (filter (\<lambda>c. c = NEWLINE) s)"

text \<open>\<open>find\<close> on the text from the cursor on.\<close>

definition find_ci :: "string \<Rightarrow> string \<Rightarrow> nat option" where
  "find_ci s needle = str_find (map ascii_lower s) (map ascii_lower needle)"

record cursor =
  cu_rest :: string
  cu_line :: nat

text \<open>The byte \<open>k\<close> places ahead, zero at the end of the text.\<close>

definition NUL :: char where "NUL = char_of (0 :: nat)"

definition peek_byte :: "string \<Rightarrow> nat \<Rightarrow> char" where
  "peek_byte s k = (case drop k s of [] \<Rightarrow> NUL | c # _ \<Rightarrow> c)"

definition starts_markup :: "string \<Rightarrow> bool" where
  "starts_markup s \<longleftrightarrow>
     is_ascii_alphabetic (peek_byte s 1) \<or> peek_byte s 1 \<in> set ''!?''
     \<or> (peek_byte s 1 = CHR ''/'' \<and> is_ascii_alphabetic (peek_byte s 2))"

definition advance_by :: "nat \<Rightarrow> cursor \<Rightarrow> cursor" where
  "advance_by n cu = \<lparr>cu_rest = drop n (cu_rest cu), cu_line = cu_line cu + newlines (take n (cu_rest cu))\<rparr>"

text \<open>Past the needle, or to the end of the text.\<close>

definition advance_past :: "string \<Rightarrow> cursor \<Rightarrow> cursor" where
  "advance_past needle cu =
     advance_by (case find_ci (cu_rest cu) needle of None \<Rightarrow> length (cu_rest cu) | Some e \<Rightarrow> e + length needle) cu"

definition skip_space :: "cursor \<Rightarrow> cursor" where
  "skip_space cu = advance_by (length (takeWhile is_ascii_space (cu_rest cu))) cu"

fun attr_name :: "string \<Rightarrow> string" where
  "attr_name [] = []"
| "attr_name (c # cs) =
     (if is_ascii_space c \<or> c = CHR ''='' \<or> c = CHR ''>'' \<or> (c = CHR ''/'' \<and> peek_byte cs 0 = CHR ''>'') then []
      else c # attr_name cs)"

text \<open>The value after \<open>=\<close> at the cursor: \<open>Inl\<close> the line of a quoted value that never closes.\<close>

definition attr_value :: "cursor \<Rightarrow> nat + (string \<times> nat) \<times> cursor" where
  "attr_value cu =
     (let cu = skip_space (advance_by 1 cu); value_line = cu_line cu; quote = peek_byte (cu_rest cu) 0
      in if quote = QUOTE \<or> quote = SINGLE_QUOTE then
           (case find_ci (drop 1 (cu_rest cu)) [quote] of
              None \<Rightarrow> Inl value_line
            | Some e \<Rightarrow> Inr ((take e (drop 1 (cu_rest cu)), value_line), advance_by (e + 2) cu))
         else (let v = takeWhile (\<lambda>c. \<not> is_ascii_space c \<and> c \<noteq> CHR ''>'') (cu_rest cu)
               in Inr ((v, value_line), cu\<lparr>cu_rest := drop (length v) (cu_rest cu)\<rparr>)))"

definition attr :: "cursor \<Rightarrow> nat + ng_attr \<times> cursor" where
  "attr cu =
     (let n = max 1 (length (attr_name (cu_rest cu)));
          name = take n (cu_rest cu);
          cu' = skip_space (cu\<lparr>cu_rest := drop n (cu_rest cu)\<rparr>)
      in if peek_byte (cu_rest cu') 0 \<noteq> CHR ''='' then Inr (\<lparr>na_name = name, na_line = cu_line cu, na_value = None\<rparr>, cu')
         else (case attr_value cu' of
                 Inl line \<Rightarrow> Inl line
               | Inr (v, cu'') \<Rightarrow> Inr (\<lparr>na_name = name, na_line = cu_line cu, na_value = Some v\<rparr>, cu'')))"

lemma advance_by_rest [simp]: "cu_rest (advance_by n cu) = drop n (cu_rest cu)"
  by (simp add: advance_by_def)

lemma skip_space_length: "length (cu_rest (skip_space cu)) \<le> length (cu_rest cu)"
  by (simp add: skip_space_def)

lemma attr_value_length: "attr_value cu = Inr (v, cu') \<Longrightarrow> length (cu_rest cu') \<le> length (cu_rest cu)"
  using skip_space_length [of "advance_by 1 cu"]
  by (auto simp: attr_value_def Let_def split: if_splits option.splits)

lemma attr_length: "attr cu = Inr (a, cu') \<Longrightarrow> cu_rest cu \<noteq> [] \<Longrightarrow> length (cu_rest cu') < length (cu_rest cu)"
proof -
  assume run: "attr cu = Inr (a, cu')" and "cu_rest cu \<noteq> []"
  define n where "n = max 1 (length (attr_name (cu_rest cu)))"
  define cu1 where "cu1 = skip_space (cu\<lparr>cu_rest := drop n (cu_rest cu)\<rparr>)"
  have "length (cu_rest cu1) \<le> length (drop n (cu_rest cu))"
    using skip_space_length [of "cu\<lparr>cu_rest := drop n (cu_rest cu)\<rparr>"] by (simp add: cu1_def)
  moreover have "length (drop n (cu_rest cu)) < length (cu_rest cu)" using \<open>cu_rest cu \<noteq> []\<close> by (simp add: n_def)
  moreover have "length (cu_rest cu') \<le> length (cu_rest cu1)"
    using run [unfolded attr_def Let_def, folded n_def, folded cu1_def]
    by (auto dest: attr_value_length split: if_splits sum.splits)
  ultimately show ?thesis by simp
qed

text \<open>The attributes of a start tag, and whether it closes itself. \<open>Inl\<close> is the line of the gap that stops the scan.\<close>

function tag_attrs :: "ng_attr list \<Rightarrow> bool \<Rightarrow> cursor \<Rightarrow> nat + ng_attr list \<times> bool \<times> cursor" where
  "tag_attrs attrs closes cu =
     (let cu = skip_space cu; c = peek_byte (cu_rest cu) 0
      in if c = NUL then Inr (attrs, closes, cu)
         else if c = CHR ''>'' then Inr (attrs, closes, advance_by 1 cu)
         else if c = CHR ''/'' then
           (if peek_byte (cu_rest cu) 1 = CHR ''>'' then Inr (attrs, True, advance_by 2 cu)
            else tag_attrs attrs closes (advance_by 1 cu))
         else (case attr cu of
                 Inl line \<Rightarrow> Inl line
               | Inr (a, cu) \<Rightarrow> tag_attrs (attrs @ [a]) closes cu))"
  by pat_completeness auto
termination
proof (relation "measure (\<lambda>(_, _, cu). length (cu_rest cu))")
  fix attrs :: "ng_attr list" and closes :: bool and cu cu1 cu2 :: cursor and c and y and a
  assume cu1: "cu1 = skip_space cu" and c: "c = peek_byte (cu_rest cu1) 0" "c \<noteq> NUL"
  then have some: "cu_rest cu1 \<noteq> []" by (auto simp: peek_byte_def)
  have le: "length (cu_rest cu1) \<le> length (cu_rest cu)" using skip_space_length cu1 by simp
  show "((attrs, closes, advance_by 1 cu1), attrs, closes, cu) \<in> measure (\<lambda>(_, _, cu). length (cu_rest cu))"
    using some le by (cases "cu_rest cu1") auto
  assume "attr cu1 = Inr y" "(a, cu2) = y"
  then have "attr cu1 = Inr (a, cu2)" by simp
  from attr_length [OF this some] have "length (cu_rest cu2) < length (cu_rest cu1)" .
  with le show "((attrs @ [a], closes, cu2), attrs, closes, cu) \<in> measure (\<lambda>(_, _, cu). length (cu_rest cu))" by simp
qed auto

declare tag_attrs.simps [simp del]

text \<open>One construct at the cursor, which stands on \<open><\<close>: the events and where it ends, \<open>None\<close> when the scan stops.\<close>

definition start_tag :: "cursor \<Rightarrow> ng_event list \<times> cursor option" where
  "start_tag cu =
     (let cu = advance_by 1 cu; tag = takeWhile is_name_char (cu_rest cu); lower' = map ascii_lower tag
      in case tag_attrs [] (lower' \<in> set VOID_ELEMENTS) (advance_by (length tag) cu) of
           Inl line \<Rightarrow> ([Ev_Gap line Unparsed_Expression], None)
         | Inr (attrs, closes, cu) \<Rightarrow>
             ([Ev_Open tag attrs closes],
              Some (if \<not> closes \<and> lower' \<in> set RAW_TEXT_ELEMENTS
                    then advance_by (or_default (length (cu_rest cu)) (find_ci (cu_rest cu) (''</'' @ lower'))) cu
                    else cu)))"

definition markup :: "cursor \<Rightarrow> ng_event list \<times> cursor option" where
  "markup cu =
     (let s = cu_rest cu
      in if starts_with s ''<!--'' then ([], Some (advance_past ''-->'' (advance_by 4 cu)))
         else if peek_byte s 1 \<in> set ''!?'' then ([], Some (advance_past ''>'' cu))
         else if peek_byte s 1 = CHR ''/'' then
           (let cu = advance_by 2 cu; tag = takeWhile is_name_char (cu_rest cu)
            in ([Ev_Close tag], Some (advance_past ''>'' (advance_by (length tag) cu))))
         else start_tag cu)"

section \<open>Text\<close>

text \<open>\<open>Inl\<close> is the line of an opening that never closes.\<close>

function interpolations :: "string \<Rightarrow> nat \<Rightarrow> (nat + string \<times> nat) list" where
  "interpolations s line =
     (case find_ci s ''{{'' of
        None \<Rightarrow> []
      | Some op \<Rightarrow>
          (let line = line + newlines (take op s)
           in case find_ci (drop (op + 2) s) ''}}'' of
                None \<Rightarrow> [Inl line]
              | Some len \<Rightarrow>
                  Inr (take len (drop (op + 2) s), line)
                  # interpolations (drop (op + 2 + len + 2) s) (line + newlines (take (2 + len) (drop op s)))))"
  by pat_completeness auto
termination
proof (relation "measure (\<lambda>(s, _). length s)")
  fix s :: string and line line' op len :: nat
  assume "find_ci s ''{{'' = Some op"
  then have "op + 2 \<le> length s" using str_find_le [of "map ascii_lower s" "map ascii_lower ''{{''" op] by (simp add: find_ci_def)
  then show "((drop (op + 2 + len + 2) s, line' + newlines (take (2 + len) (drop op s))), s, line)
    \<in> measure (\<lambda>(s, _). length s)" by simp
qed simp

declare interpolations.simps [simp del]

text \<open>The lines that open a block; \<open>previous\<close> is the byte before, and a line is listed once.\<close>

definition opens_block :: "string \<Rightarrow> bool" where
  "opens_block after \<longleftrightarrow>
     (let word = takeWhile is_ascii_alphabetic after; rest = drop (length word) after
      in word \<in> set BLOCK_KEYWORDS \<and> (rest = [] \<or> is_ascii_space (hd rest) \<or> hd rest \<in> set ''({;''))"

fun block_lines_from :: "char option \<Rightarrow> string \<Rightarrow> nat \<Rightarrow> nat list \<Rightarrow> nat list" where
  "block_lines_from previous [] line out = out"
| "block_lines_from previous (c # cs) line out =
     (if c = NEWLINE then block_lines_from (Some c) cs (line + 1) out
      else if c \<noteq> CHR ''@'' \<or> (case previous of None \<Rightarrow> False | Some b \<Rightarrow> is_name_char b)
      then block_lines_from (Some c) cs line out
      else block_lines_from (Some c) cs line
             (if opens_block cs \<and> (out = [] \<or> last out \<noteq> line) then out @ [line] else out))"

definition block_lines :: "string \<Rightarrow> nat \<Rightarrow> nat list" where
  "block_lines s line = block_lines_from None s line []"

definition interp_event :: "nat + string \<times> nat \<Rightarrow> ng_event" where
  "interp_event piece =
     (case piece of Inl line \<Rightarrow> Ev_Gap line Unparsed_Expression | Inr (expr, line) \<Rightarrow> Ev_Interp expr line)"

definition text_events :: "string \<Rightarrow> nat \<Rightarrow> ng_event list" where
  "text_events s line =
     (if s = [] then []
      else map (\<lambda>l. Ev_Gap l Control_Flow_Block) (block_lines s line) @ map interp_event (interpolations s line))"

text \<open>The main loop: \<open>run\<close> is the text since the last construct and \<open>text_line\<close> the line it starts on.\<close>

lemma advance_past_length: "length (cu_rest (advance_past needle cu)) \<le> length (cu_rest cu)"
  by (simp add: advance_past_def)

lemma tag_attrs_length: "tag_attrs attrs closes cu = Inr (attrs', closes', cu') \<Longrightarrow> length (cu_rest cu') \<le> length (cu_rest cu)"
proof (induction attrs closes cu rule: tag_attrs.induct)
  case (1 attrs closes cu)
  define cu1 where "cu1 = skip_space cu"
  define c where "c = peek_byte (cu_rest cu1) 0"
  have le: "length (cu_rest cu1) \<le> length (cu_rest cu)" by (simp add: cu1_def skip_space_length)
  note run = 1(3) [unfolded tag_attrs.simps [of attrs closes cu] Let_def, folded cu1_def, folded c_def]
  show ?case
  proof (cases "c = NUL \<or> c = CHR ''>''")
    case True
    with run le show ?thesis by (auto split: if_splits)
  next
    case False
    then have some: "cu_rest cu1 \<noteq> []" by (auto simp: c_def peek_byte_def)
    show ?thesis
    proof (cases "c = CHR ''/''")
      case slash: True
      show ?thesis
      proof (cases "peek_byte (cu_rest cu1) 1 = CHR ''>''")
        case True
        with run slash False le show ?thesis by auto
      next
        case other: False
        with run slash False have "tag_attrs attrs closes (advance_by 1 cu1) = Inr (attrs', closes', cu')" by simp
        from 1(1) [OF cu1_def c_def _ _ slash other this] False le show ?thesis by simp
      qed
    next
      case noslash: False
      obtain a cu2 where a: "attr cu1 = Inr (a, cu2)" using run False noslash by (cases "attr cu1") auto
      with run False noslash have "tag_attrs (attrs @ [a]) closes cu2 = Inr (attrs', closes', cu')" by simp
      from 1(2) [OF cu1_def c_def _ _ noslash a refl this] False attr_length [OF a some] le show ?thesis by simp
    qed
  qed
qed

lemma start_tag_length:
  assumes "start_tag cu = (evs, Some cu')" "cu_rest cu \<noteq> []"
  shows "length (cu_rest cu') < length (cu_rest cu)"
proof -
  define tag where "tag = takeWhile is_name_char (cu_rest (advance_by 1 cu))"
  define cu1 where "cu1 = advance_by (length tag) (advance_by 1 cu)"
  obtain attrs closes cu2 where attrs: "tag_attrs [] (map ascii_lower tag \<in> set VOID_ELEMENTS) cu1 = Inr (attrs, closes, cu2)"
    and le: "length (cu_rest cu') \<le> length (cu_rest cu2)"
    using assms(1) [unfolded start_tag_def Let_def, folded tag_def, folded cu1_def]
    by (auto split: sum.splits prod.splits if_splits)
  have "length (cu_rest cu1) < length (cu_rest cu)" using assms(2) by (cases "cu_rest cu") (auto simp: cu1_def)
  with le tag_attrs_length [OF attrs] show ?thesis by simp
qed

lemma markup_length:
  assumes "markup cu = (evs, Some cu')" "cu_rest cu \<noteq> []"
  shows "length (cu_rest cu') < length (cu_rest cu)"
proof -
  have past: "length (cu_rest (advance_past ''>'' cu)) < length (cu_rest cu)"
    using assms(2) by (auto simp: advance_past_def split: option.splits)
  have "length (cu_rest (advance_past n (advance_by (Suc k) c))) < length (cu_rest c)" if "cu_rest c \<noteq> []" for n k c
    using advance_past_length [of n "advance_by (Suc k) c"] that by (cases "cu_rest c") auto
  note step = this [of cu _ 3, simplified] and end_tag = advance_past_length [of "''>''"]
  show ?thesis
    using assms start_tag_length [OF _ assms(2)] past step [of "''-->''"]
      end_tag [of "advance_by (length (takeWhile is_name_char (cu_rest (advance_by 2 cu)))) (advance_by 2 cu)"]
    by (cases "cu_rest cu") (auto simp: markup_def Let_def numeral_eq_Suc split: if_splits)
qed

function scan :: "string \<Rightarrow> nat \<Rightarrow> cursor \<Rightarrow> ng_event list" where
  "scan run text_line cu =
     (case cu_rest cu of
        [] \<Rightarrow> text_events run text_line
      | c # cs \<Rightarrow>
          (if c \<noteq> CHR ''<'' \<or> \<not> starts_markup (c # cs) then scan (run @ [c]) text_line (advance_by 1 cu)
           else text_events run text_line
             @ (case markup cu of
                  (evs, None) \<Rightarrow> evs
                | (evs, Some cu') \<Rightarrow> evs @ scan [] (cu_line cu') cu')))"
  by pat_completeness auto
termination
  by (relation "measure (\<lambda>(_, _, cu). length (cu_rest cu))") (auto dest!: sym [of _ "markup _"] dest: markup_length)

declare scan.simps [simp del]

definition events :: "string \<Rightarrow> nat \<Rightarrow> ng_event list" where
  "events s first_line = scan [] first_line \<lparr>cu_rest = s, cu_line = first_line\<rparr>"

section \<open>Scope\<close>

datatype ng_binding = Structural | Event | Two_Way | Property | Ref | Let_Local | Plain

definition wrapped :: "string \<Rightarrow> string \<Rightarrow> string \<Rightarrow> bool" where
  "wrapped name op cl \<longleftrightarrow> starts_with name op \<and> ends_with name cl"

definition binding_of :: "string \<Rightarrow> string \<Rightarrow> ng_binding" where
  "binding_of tag name =
     (if starts_with name ''*'' then Structural
      else if starts_with name ''#'' \<or> starts_with name ''ref-'' then Ref
      else if wrapped name ''[('' '')]'' \<or> starts_with name ''bindon-'' then Two_Way
      else if wrapped name ''['' '']'' \<or> starts_with name ''bind-'' then Property
      else if wrapped name ''('' '')'' \<or> starts_with name ''on-'' then Event
      else if starts_with name ''let-'' \<and> map ascii_lower tag = ''ng-template'' then Let_Local
      else Plain)"

definition ref_name :: "string \<Rightarrow> string" where
  "ref_name name = or_default name (first_of (strip_prefix name ''#'') (strip_prefix name ''ref-''))"

record ng_walk =
  wk_refs :: "string set"
  wk_frames :: "(string \<times> string list) list"
  wk_out :: template_scan

definition hidden :: "ng_walk \<Rightarrow> string \<Rightarrow> bool" where
  "hidden w name \<longleftrightarrow> name \<in> wk_refs w \<or> list_ex (\<lambda>(_, locals). name \<in> set locals) (wk_frames w)"

definition keep :: "ng_read list \<Rightarrow> bool \<Rightarrow> ng_walk \<Rightarrow> ng_walk" where
  "keep reads event_local w =
     w\<lparr>wk_out := (wk_out w)\<lparr>tn_reads := tn_reads (wk_out w)
         @ map (\<lambda>(name, line). \<lparr>tr_name = name, tr_line = line\<rparr>)
             (filter (\<lambda>(name, _). \<not> (event_local \<and> name = ''$event'' \<or> hidden w name)) reads)\<rparr>\<rparr>"

definition gap :: "nat \<Rightarrow> gap_reason \<Rightarrow> ng_walk \<Rightarrow> ng_walk" where
  "gap line reason w = w\<lparr>wk_out := (wk_out w)\<lparr>tn_gaps := tn_gaps (wk_out w) @ [\<lparr>tg_line = line, tg_reason = reason\<rparr>]\<rparr>\<rparr>"

definition judge :: "bool \<Rightarrow> nat \<Rightarrow> ng_read list option \<Rightarrow> ng_walk \<Rightarrow> ng_walk" where
  "judge event_local line parsed w =
     (case parsed of Some reads \<Rightarrow> keep reads event_local w | None \<Rightarrow> gap line Unparsed_Expression w)"

definition attr_text :: "ng_attr \<Rightarrow> string \<times> nat" where
  "attr_text a = or_default ([], na_line a) (na_value a)"

definition plain_piece :: "nat + string \<times> nat \<Rightarrow> ng_walk \<Rightarrow> ng_walk" where
  "plain_piece piece w =
     (case piece of
        Inl at \<Rightarrow> gap at Unparsed_Expression w
      | Inr (expr, at) \<Rightarrow> judge False at (parse_binding expr at) w)"

definition walk_attr :: "string \<Rightarrow> ng_attr \<Rightarrow> ng_walk \<Rightarrow> ng_walk" where
  "walk_attr tag a w =
     (case attr_text a of (s, line) \<Rightarrow>
        (case binding_of tag (na_name a) of
           Structural \<Rightarrow> judge False line (map_option mi_reads (parse_micro s line)) w
         | Event \<Rightarrow> judge True line (parse_action s line) w
         | Two_Way \<Rightarrow> judge True line (parse_binding s line) w
         | Property \<Rightarrow> judge False line (parse_binding s line) w
         | Ref \<Rightarrow> judge False line (Some []) w
         | Let_Local \<Rightarrow> judge False line (Some []) w
         | Plain \<Rightarrow> fold plain_piece (interpolations s line) w))"

definition attr_locals :: "string \<Rightarrow> ng_attr \<Rightarrow> string list" where
  "attr_locals tag a =
     (case binding_of tag (na_name a) of
        Structural \<Rightarrow> (case attr_text a of (s, line) \<Rightarrow> (case parse_micro s line of None \<Rightarrow> [] | Some m \<Rightarrow> mi_locals m))
      | Let_Local \<Rightarrow> [drop 4 (na_name a)]
      | _ \<Rightarrow> [])"

definition walk_open :: "string \<Rightarrow> ng_attr list \<Rightarrow> bool \<Rightarrow> ng_walk \<Rightarrow> ng_walk" where
  "walk_open tag attrs closes w =
     (let w = w\<lparr>wk_frames := wk_frames w @ [(tag, concat (map (attr_locals tag) attrs))]\<rparr>;
          w = fold (walk_attr tag) attrs w
      in if closes then w\<lparr>wk_frames := butlast (wk_frames w)\<rparr> else w)"

definition walk_close :: "string \<Rightarrow> ng_walk \<Rightarrow> ng_walk" where
  "walk_close tag w =
     (let fits = (\<lambda>(op, _). map ascii_lower op = map ascii_lower tag);
          matching = filter (\<lambda>i. fits (wk_frames w ! i)) [0..<length (wk_frames w)]
      in if matching = [] then w else w\<lparr>wk_frames := take (last matching) (wk_frames w)\<rparr>)"

definition walk_event :: "ng_event \<Rightarrow> ng_walk \<Rightarrow> ng_walk" where
  "walk_event e w =
     (case e of
        Ev_Open tag attrs closes \<Rightarrow> walk_open tag attrs closes w
      | Ev_Close tag \<Rightarrow> walk_close tag w
      | Ev_Interp expr line \<Rightarrow> judge False line (parse_binding expr line) w
      | Ev_Gap line reason \<Rightarrow> gap line reason w)"

definition template_refs :: "ng_event list \<Rightarrow> string set" where
  "template_refs evs =
     set (concat (map (\<lambda>e. case e of
       Ev_Open _ attrs _ \<Rightarrow>
         map (\<lambda>a. ref_name (na_name a)) (filter (\<lambda>a. starts_with (na_name a) ''#'' \<or> starts_with (na_name a) ''ref-'') attrs)
     | _ \<Rightarrow> []) evs))"

definition walk :: "ng_event list \<Rightarrow> template_scan" where
  "walk evs =
     wk_out (fold walk_event evs \<lparr>wk_refs = template_refs evs, wk_frames = [], wk_out = \<lparr>tn_reads = [], tn_gaps = []\<rparr>\<rparr>)"

definition scan_template :: "string \<Rightarrow> nat \<Rightarrow> template_scan" where
  "scan_template s first_line = walk (events s first_line)"

end
