(* ===== verification/TsTemplates.thy ===== *)
theory TsTemplates
  imports NgTemplate
begin

text \<open>
  The template join (\<open>src/tsgraph/templates.rs\<close>, with the component facts of \<open>src/extract/ts_component.rs\<close>
  and the template fragment of \<open>src/graph/fragment_types.rs\<close>) and the graph with the TypeScript side added
  (\<open>src/tsgraph/extend.rs\<close>). The rows without an edge are a set in the source that is listed in order: here
  the list is sorted, its repetitions dropped.
\<close>

record ts_member =
  tm_name :: string
  tm_kind :: string
  tm_line :: nat

record ts_template_url =
  tu_spec :: string
  tu_line :: nat

record ts_component =
  tc_name :: string
  tc_members :: "ts_member list"
  tc_template_url :: "ts_template_url option"
  tc_inline :: "template_scan option"
  tc_gaps :: "template_gap list"

record html_fragment =
  hf_reads :: "template_read list"
  hf_gaps :: "template_gap list"

record template_unsupported =
  tx_file :: string
  tx_line :: nat
  tx_reason :: gap_reason

record template_join =
  tj_names :: "graph_name list"
  tj_edges :: "edge list"
  tj_seen :: "(string \<times> nat \<times> string \<times> string) set"
  tj_rows :: "template_unsupported list"

definition join_row :: "string \<Rightarrow> nat \<Rightarrow> gap_reason \<Rightarrow> template_join \<Rightarrow> template_join" where
  "join_row f line reason j =
     (let row = \<lparr>tx_file = f, tx_line = line, tx_reason = reason\<rparr>
      in if row \<in> set (tj_rows j) then j else j\<lparr>tj_rows := tj_rows j @ [row]\<rparr>)"

definition join_gaps :: "string \<Rightarrow> template_gap list \<Rightarrow> template_join \<Rightarrow> template_join" where
  "join_gaps f gaps j = fold (\<lambda>g. join_row f (tg_line g) (tg_reason g)) gaps j"

definition join_read :: "ts_component \<Rightarrow> string \<Rightarrow> string \<Rightarrow> string \<Rightarrow> template_read \<Rightarrow> template_join \<Rightarrow> template_join" where
  "join_read component owner owner_file from' r j =
     (if \<not> list_ex (\<lambda>m. tm_name m = tr_name r) (tc_members component) then join_row from' (tr_line r) Unknown_Member j
      else (let key = (from', tr_line r, owner, tr_name r)
            in if key \<in> tj_seen j then j
               else j\<lparr>tj_seen := insert key (tj_seen j),
                      tj_edges := tj_edges j @ [uses_member from' (tr_line r) owner owner_file (Some (tr_name r)) None]\<rparr>))"

definition join_template ::
  "ts_component \<Rightarrow> string \<Rightarrow> string \<Rightarrow> string \<Rightarrow> template_read list \<Rightarrow> template_gap list \<Rightarrow> template_join \<Rightarrow> template_join" where
  "join_template component owner owner_file from' reads gaps j =
     fold (join_read component owner owner_file from') reads (join_gaps from' gaps j)"

definition url_target :: "string \<Rightarrow> (string \<Rightarrow> html_fragment option) \<Rightarrow> ts_template_url \<Rightarrow> (string \<times> html_fragment) option" where
  "url_target f templates url =
     do { rel \<leftarrow> join_rel (dir_of f) (tu_spec url); html \<leftarrow> templates rel; Some (rel, html) }"

definition join_component :: "(string \<Rightarrow> html_fragment option) \<Rightarrow> string \<Rightarrow> ts_component \<Rightarrow> template_join \<Rightarrow> template_join" where
  "join_component templates f component j =
     (let owner = ts_def_id f (tc_name component);
          j = j\<lparr>tj_names := tj_names j
            @ map (\<lambda>m. \<lparr>gn_name = tm_name m, gn_kind = tm_kind m, gn_file = f, gn_line = tm_line m, gn_owner = owner\<rparr>) (tc_members component)\<rparr>;
          j = join_gaps f (tc_gaps component) j;
          j = (case tc_inline component of
                 None \<Rightarrow> j
               | Some sc \<Rightarrow> join_template component owner f f (tn_reads sc) (tn_gaps sc) j)
      in case tc_template_url component of
           None \<Rightarrow> j
         | Some url \<Rightarrow>
             (case url_target f templates url of
                Some (rel, html) \<Rightarrow> join_template component owner f rel (hf_reads html) (hf_gaps html) j
              | None \<Rightarrow> join_row f (tu_line url) Template_Url_Unresolved j))"

definition empty_join :: template_join where
  "empty_join = \<lparr>tj_names = [], tj_edges = [], tj_seen = {}, tj_rows = []\<rparr>"

definition join_all ::
  "string set \<Rightarrow> (string \<Rightarrow> html_fragment option) \<Rightarrow> (string \<times> ts_component list) list \<Rightarrow> template_join" where
  "join_all ids templates rows =
     fold (\<lambda>(f, components).
       fold (join_component templates f) (filter (\<lambda>c. ts_def_id f (tc_name c) \<in> ids) components)) rows empty_join"

fun reason_rank :: "gap_reason \<Rightarrow> nat" where
  "reason_rank Control_Flow_Block = 0"
| "reason_rank Unparsed_Expression = 1"
| "reason_rank Template_Url_Unresolved = 2"
| "reason_rank Template_Url_Non_Literal = 3"
| "reason_rank Unknown_Member = 4"
| "reason_rank Inline_Template_Substitution = 5"

definition row_order :: "template_unsupported \<Rightarrow> string \<times> nat \<times> nat" where
  "row_order r = (tx_file r, tx_line r, reason_rank (tx_reason r))"

text \<open>\<open>append_templates\<close>: the graph's names and edges, the edges counted as \<open>uses-member\<close>, and the unsupported rows.\<close>

record joined_graph =
  jg_graph :: graph
  jg_edges_by_kind :: edges_by_kind
  jg_ts_stats :: "ts_stats option"
  jg_unsupported :: "template_unsupported list"

definition append_templates ::
  "(string \<times> ts_component list) list \<Rightarrow> (string \<times> html_fragment) list \<Rightarrow> joined_graph \<Rightarrow> joined_graph" where
  "append_templates ts html jg =
     (let g = jg_graph jg; j = join_all (set (map d_id (g_defs g))) (map_of (rev html)) ts
      in \<lparr>jg_graph = g\<lparr>g_names := g_names g @ tj_names j, g_edges := g_edges g @ tj_edges j\<rparr>,
          jg_edges_by_kind = (jg_edges_by_kind jg)\<lparr>ek_uses_member := ek_uses_member (jg_edges_by_kind jg) + length (tj_edges j)\<rparr>,
          jg_ts_stats = map_option (\<lambda>st. st\<lparr>xs_template_unsupported_count := length (tj_rows j)\<rparr>) (jg_ts_stats jg),
          jg_unsupported = sort_key row_order (tj_rows j)\<rparr>)"

text \<open>\<open>extend_graph\<close>: nothing changes without a TypeScript file. The statistics the TypeScript side has of its own are returned.\<close>

definition extend_graph ::
  "(string \<times> ts_fragment) list \<Rightarrow> ts_alias_scopes \<Rightarrow> module_config \<Rightarrow> graph \<Rightarrow> stats
   \<Rightarrow> graph \<times> stats \<times> (ts_stats \<times> unresolved_import list) option" where
  "extend_graph fragments alias config g st =
     (if fragments = [] then (g, st, None)
      else (let ts = resolve_ts_graph_in fragments alias config; c = tg_edges_by_kind ts; defs = g_defs g @ tg_defs ts
            in (g\<lparr>g_defs := defs, g_names := g_names g @ tg_names ts, g_edges := g_edges g @ tg_edges ts\<rparr>,
                st\<lparr>sx_def_count := length defs,
                   sx_edges_by_kind := (sx_edges_by_kind st)\<lparr>ek_import := Some (te_import c), ek_call := Some (te_call c),
                     ek_jsx_use := Some (te_jsx_use c), ek_dispatch := Some (te_dispatch c)\<rparr>\<rparr>,
                Some (tg_stats ts, tg_unresolved_imports ts))))"

end
