(* ===== verification/NgFacts.thy ===== *)
theory NgFacts
  imports TsTemplates
begin

text \<open>
  What the template scan promises: the rounds of the parser's loops are enough, its reads are root
  identifiers of the text in order, no read is hidden by a reference of the template, and the join gives
  every read of a template an edge or a row.
\<close>

section \<open>The loops\<close>

abbreviation remaining :: "ng_parser \<Rightarrow> nat" where
  "remaining p \<equiv> length (np_toks p)"

text \<open>Every round that goes on takes a token, and the last one gives none back.\<close>

definition progressing :: "(ng_parser \<Rightarrow> ng_parser round option) \<Rightarrow> bool" where
  "progressing body \<longleftrightarrow>
     (\<forall>p q. (body p = Some (Again q) \<longrightarrow> remaining q < remaining p) \<and> (body p = Some (Done q) \<longrightarrow> remaining q \<le> remaining p))"

lemma progressingI:
  "(\<And>p q. body p = Some (Again q) \<Longrightarrow> remaining q < remaining p)
   \<Longrightarrow> (\<And>p q. body p = Some (Done q) \<Longrightarrow> remaining q \<le> remaining p) \<Longrightarrow> progressing body"
  by (simp add: progressing_def)

lemma progressingD:
  "progressing body \<Longrightarrow> body p = Some (Again q) \<Longrightarrow> remaining q < remaining p"
  "progressing body \<Longrightarrow> body p = Some (Done q) \<Longrightarrow> remaining q \<le> remaining p"
  by (simp_all add: progressing_def)

lemma rounds_enough:
  "progressing body \<Longrightarrow> remaining p < n \<Longrightarrow> remaining p < m \<Longrightarrow> rounds n body p = rounds m body p"
proof (induction n arbitrary: m p)
  case (Suc n)
  then obtain k where m: "m = Suc k" by (cases m) auto
  have "rounds n body q = rounds k body q" if "body p = Some (Again q)" for q
    using progressingD(1) [OF Suc.prems(1) that] Suc.prems m by (intro Suc.IH) auto
  then show ?case by (simp add: m split: option.split round.split)
qed simp

text \<open>The loop without its rounds: what the source's loop says.\<close>

lemma loop_unfold:
  assumes "progressing body"
  shows "loop body p =
    (case body p of None \<Rightarrow> None | Some (Done q) \<Rightarrow> Some q | Some (Again q) \<Rightarrow> loop body q)"
proof -
  have "rounds (remaining p) body q = rounds (Suc (remaining q)) body q" if "body p = Some (Again q)" for q
    using progressingD(1) [OF assms that] by (intro rounds_enough [OF assms]) auto
  then show ?thesis by (simp add: loop_def split: option.split round.split)
qed

lemma rounds_length: "progressing body \<Longrightarrow> rounds n body p = Some q \<Longrightarrow> remaining q \<le> remaining p"
proof (induction n arbitrary: p)
  case (Suc n)
  have "remaining q \<le> remaining r" if "body p = Some (Again r)" "rounds n body r = Some q" for r
    using Suc.IH [OF Suc.prems(1) that(2)] .
  then show ?case
    using Suc.prems progressingD [OF Suc.prems(1), of p]
    by (auto split: option.splits round.splits dest: less_imp_le intro: le_trans)
qed simp

lemma loop_length: "progressing body \<Longrightarrow> loop body p = Some q \<Longrightarrow> remaining q \<le> remaining p"
  unfolding loop_def by (rule rounds_length)

text \<open>A loop whose rounds keep a property ends with what its last round gives.\<close>

definition keeps :: "(ng_parser \<Rightarrow> bool) \<Rightarrow> (ng_parser \<Rightarrow> ng_parser round option) \<Rightarrow> (ng_parser \<Rightarrow> bool) \<Rightarrow> bool" where
  "keeps I body J \<longleftrightarrow> (\<forall>p q. I p \<longrightarrow> (body p = Some (Again q) \<longrightarrow> I q) \<and> (body p = Some (Done q) \<longrightarrow> J q))"

lemma keepsI:
  "(\<And>p q. body p = Some (Again q) \<Longrightarrow> I p \<Longrightarrow> I q) \<Longrightarrow> (\<And>p q. body p = Some (Done q) \<Longrightarrow> I p \<Longrightarrow> J q) \<Longrightarrow> keeps I body J"
  by (simp add: keeps_def)

lemma rounds_keep: "keeps I body J \<Longrightarrow> I p \<Longrightarrow> rounds n body p = Some q \<Longrightarrow> J q"
  by (induction n arbitrary: p) (auto simp: keeps_def split: option.splits round.splits)

lemma loop_keep: "loop body p = Some q \<Longrightarrow> keeps I body J \<Longrightarrow> I p \<Longrightarrow> J q"
  unfolding loop_def by (rule rounds_keep)

section \<open>Every part of the parser takes tokens\<close>

lemma peek_some: "peek p = Some t \<Longrightarrow> remaining (advance p) < remaining p"
  by (auto simp: peek_def advance_def split: list.splits)

lemma advance_length:
  "peek_punct p s \<Longrightarrow> remaining (advance p) < remaining p"
  "peek_op p ops \<Longrightarrow> remaining (advance p) < remaining p"
  "peek_ident p s \<Longrightarrow> remaining (advance p) < remaining p"
  by (auto simp: peek_punct_def peek_op_def peek_ident_def intro: peek_some split: option.splits)

lemma read_toks [simp]: "np_toks (read name line p) = np_toks p"
  by (simp add: read_def)

lemma advance_le: "remaining (advance p) \<le> remaining p"
  by (simp add: advance_def)

lemma expect_length: "expect_punct s p = Some q \<Longrightarrow> remaining q < remaining p"
  by (auto simp: expect_punct_def dest: advance_length split: if_splits)

lemma eat_ident_length: "eat_ident p = Some (name, q) \<Longrightarrow> remaining q < remaining p"
  by (auto simp: eat_ident_def intro: peek_some split: option.splits ng_tok.splits)

lemma skip_ident_length: "skip_ident p = Some q \<Longrightarrow> remaining q < remaining p"
  by (auto simp: skip_ident_def dest: eat_ident_length)

lemma this_member_length: "remaining (this_member p) \<le> remaining p"
  by (auto simp: this_member_def split: list.splits ng_tok.splits prod.splits)

lemmas taken = advance_length expect_length eat_ident_length skip_ident_length

text \<open>What the parts of one level need of the levels below.\<close>

locale ng_level =
  fixes un pi :: ng_step and allow_assign :: bool
  assumes un_length: "un p = Some q \<Longrightarrow> remaining q < remaining p"
    and pi_length: "pi p = Some q \<Longrightarrow> remaining q < remaining p"
begin

lemma binary_progressing: "progressing (binary_round un)"
  by (rule progressingI) (auto simp: binary_round_def dest!: taken un_length taken split: if_splits)

lemma binary_length: "binary un p = Some q \<Longrightarrow> remaining q < remaining p"
  by (auto simp: binary_def bind_eq_Some_conv dest!: taken un_length loop_length [OF binary_progressing])

lemma conditional_length: "conditional un pi p = Some q \<Longrightarrow> remaining q < remaining p"
  by (auto simp: conditional_def bind_eq_Some_conv dest!: taken binary_length pi_length split: if_splits)

lemma assign_round_length:
  assumes "assign_round allow_assign un pi p = Some r"
  shows "(case r of Again q \<Rightarrow> remaining q | Done q \<Rightarrow> remaining q) < remaining p"
proof -
  obtain c where "conditional un pi p = Some c" "r = Again (advance c) \<or> r = Done c"
    using assms by (auto simp: assign_round_def bind_eq_Some_conv split: if_splits)
  with conditional_length advance_le [of c] show ?thesis by fastforce
qed

lemma assign_progressing: "progressing (assign_round allow_assign un pi)"
  by (rule progressingI) (auto dest!: assign_round_length)

lemma assign_length: "assign allow_assign un pi p = Some q \<Longrightarrow> remaining q < remaining p"
  unfolding assign_def loop_unfold [OF assign_progressing, of p]
  by (auto split: option.splits round.splits dest!: taken assign_round_length loop_length [OF assign_progressing])

lemma argument_progressing: "progressing (pipe_argument allow_assign un pi)"
  by (rule progressingI) (auto simp: pipe_argument_def dest!: taken assign_length split: if_splits)

lemma name_progressing: "progressing (pipe_name allow_assign un pi)"
  by (rule progressingI)
     (auto simp: pipe_name_def bind_eq_Some_conv split: if_splits dest!: taken loop_length [OF argument_progressing])

lemma pipe_body_length: "pipe_body allow_assign un pi p = Some q \<Longrightarrow> remaining q < remaining p"
  by (auto simp: pipe_body_def bind_eq_Some_conv dest!: taken assign_length loop_length [OF name_progressing])

lemma list_progressing: "progressing (list_round pi cl)"
  by (rule progressingI) (auto simp: list_round_def bind_eq_Some_conv dest!: taken pi_length split: if_splits)

lemma expr_list_length: "expr_list pi cl p = Some q \<Longrightarrow> remaining q \<le> remaining p"
  by (auto simp: expr_list_def split: if_splits dest!: taken loop_length [OF list_progressing])

lemma object_entry_length: "object_entry pi p = Some q \<Longrightarrow> remaining q < remaining p"
proof -
  assume run: "object_entry pi p = Some q"
  then obtain t rest where p: "np_toks p = t # rest" by (auto simp: object_entry_def split: list.splits)
  then have "remaining (advance p) < remaining p" by (simp add: advance_def)
  with run p show ?thesis
    by (cases t; cases "fst t") (auto simp: object_entry_def Let_def bind_eq_Some_conv split: if_splits dest!: taken pi_length)
qed

lemma object_progressing: "progressing (object_round pi)"
  by (rule progressingI)
     (auto simp: object_round_def bind_eq_Some_conv Let_def dest!: taken object_entry_length split: if_splits)

lemma object_length: "object pi p = Some q \<Longrightarrow> remaining q \<le> remaining p"
  by (auto simp: object_def split: if_splits dest!: taken loop_length [OF object_progressing])

lemma primary_length: "primary pi p = Some q \<Longrightarrow> remaining q < remaining p"
proof -
  assume run: "primary pi p = Some q"
  then obtain t rest where p: "np_toks p = t # rest" by (auto simp: primary_def split: list.splits)
  then have "remaining (advance p) < remaining p" by (simp add: advance_def)
  with run p this_member_length [of "advance p"] show ?thesis
    by (cases t; cases "fst t")
       (auto simp: primary_def bind_eq_Some_conv split: if_splits dest!: taken pi_length expr_list_length object_length)
qed

lemma postfix_progressing: "progressing (postfix_round pi)"
  by (rule progressingI)
     (auto simp: postfix_round_def bind_eq_Some_conv Let_def split: if_splits option.splits
       dest!: taken pi_length expr_list_length)

lemma postfix_length: "postfix_expr pi p = Some q \<Longrightarrow> remaining q < remaining p"
  by (auto simp: postfix_expr_def bind_eq_Some_conv dest!: taken primary_length loop_length [OF postfix_progressing])

end

lemma levels_length:
  "pipe_expr a n p = Some q \<Longrightarrow> remaining q < remaining p"
  "unary a n p = Some q \<Longrightarrow> remaining q < remaining p"
proof (induction n arbitrary: p q)
  case (Suc n)
  note level = ng_level.intro [of "unary a n" "pipe_expr a n", OF Suc.IH(2) Suc.IH(1)]
  { case 1 then show ?case using ng_level.pipe_body_length [OF level] by simp
  next
    case 2 then show ?case
      using ng_level.postfix_length [OF level] Suc.IH(2) [of "advance p" q]
      by (auto simp: is_prefix_op_def dest!: taken split: if_splits) }
qed simp_all

interpretation level: ng_level "unary a n" "pipe_expr a n" a for a n
  by unfold_locales (auto dest: levels_length)

lemma action_progressing: "progressing action_round"
  by (rule progressingI)
     (auto simp: action_round_def whole_pipe_def bind_eq_Some_conv split: if_splits dest!: taken levels_length(1))

section \<open>Reads are roots\<close>

text \<open>
  A token is a root when it is a name that may be read and does not follow a dot or a pipe bar, the dot of
  \<open>this.\<close> apart.
\<close>

definition after_member :: "ng_token list \<Rightarrow> nat \<Rightarrow> bool" where
  "after_member toks i \<longleftrightarrow> 0 < i \<and> fst (toks ! (i - 1)) \<in> {Tok_Punct ''.'', Tok_Punct ''?.'', Tok_Punct ''|''}"

definition is_root :: "ng_token list \<Rightarrow> nat \<Rightarrow> bool" where
  "is_root toks i \<longleftrightarrow>
     i < length toks \<and> (\<exists>name. fst (toks ! i) = Tok_Ident name \<and> name \<notin> set NOT_READS)
     \<and> (after_member toks i \<longrightarrow> 2 \<le> i \<and> fst (toks ! (i - 2)) = Tok_Ident ''this'' \<and> fst (toks ! (i - 1)) \<noteq> Tok_Punct ''|'')"

fun token_read :: "ng_token \<Rightarrow> ng_read" where
  "token_read (Tok_Ident name, line) = (name, line)"
| "token_read (_, line) = ([], line)"

text \<open>The parser stands at position \<open>k\<close> of the text and has read roots before it, in order.\<close>

definition at_token :: "ng_token list \<Rightarrow> nat \<Rightarrow> ng_parser \<Rightarrow> bool" where
  "at_token toks k p \<longleftrightarrow>
     k \<le> length toks \<and> np_toks p = drop k toks
     \<and> (\<exists>ps. sorted_wrt (<) ps \<and> list_all (\<lambda>i. i < k \<and> is_root toks i) ps \<and> np_reads p = map (\<lambda>i. token_read (toks ! i)) ps)"

definition sound :: "ng_token list \<Rightarrow> ng_parser \<Rightarrow> bool" where
  "sound toks p \<longleftrightarrow> (\<exists>k. at_token toks k p)"

definition fresh :: "ng_token list \<Rightarrow> ng_parser \<Rightarrow> bool" where
  "fresh toks p \<longleftrightarrow> (\<exists>k. at_token toks k p \<and> \<not> after_member toks k)"

lemma fresh_sound: "fresh toks p \<Longrightarrow> sound toks p"
  by (auto simp: fresh_def sound_def)

lemma at_peek:
  assumes "at_token toks k p" "np_toks p = (tok, line) # rest"
  shows "k < length toks" "toks ! k = (tok, line)" "rest = drop (Suc k) toks"
proof -
  have d: "drop k toks = (tok, line) # rest" using assms by (simp add: at_token_def)
  then show "k < length toks" by (metis drop_eq_Nil2 list.distinct(1) not_le)
  then have "drop k toks = toks ! k # drop (Suc k) toks" by (rule Cons_nth_drop_Suc [symmetric])
  with d show "toks ! k = (tok, line)" "rest = drop (Suc k) toks" by simp_all
qed

lemma at_skip:
  assumes "at_token toks k p" "k < length toks"
  shows "at_token toks (Suc k) (p\<lparr>np_toks := drop (Suc k) toks\<rparr>)"
proof -
  from assms(1) obtain ps where ps: "sorted_wrt (<) ps" "list_all (\<lambda>i. i < k \<and> is_root toks i) ps"
      "np_reads p = map (\<lambda>i. token_read (toks ! i)) ps"
    by (auto simp: at_token_def)
  then have "list_all (\<lambda>i. i < Suc k \<and> is_root toks i) ps" by (auto simp: list_all_iff)
  with ps assms(2) show ?thesis by (auto simp: at_token_def)
qed

lemma at_read:
  assumes "at_token toks (Suc k) p" "toks ! k = (Tok_Ident name, line)" "k < length toks"
    and "after_member toks k \<Longrightarrow> 2 \<le> k \<and> fst (toks ! (k - 2)) = Tok_Ident ''this'' \<and> fst (toks ! (k - 1)) \<noteq> Tok_Punct ''|''"
    and "\<And>i. i \<in> set ps \<Longrightarrow> i < k" "np_reads p = map (\<lambda>i. token_read (toks ! i)) ps" "sorted_wrt (<) ps"
    and "list_all (is_root toks) ps"
  shows "at_token toks (Suc k) (read name line p)"
proof (cases "name \<in> set NOT_READS")
  case True
  with assms(1) show ?thesis by (simp add: read_def)
next
  case False
  then have "is_root toks k" using assms(2,3,4) by (auto simp: is_root_def)
  with False assms show ?thesis
    unfolding at_token_def
    by (intro conjI exI [of _ "ps @ [k]"]) (auto simp: read_def at_token_def sorted_wrt_append list_all_iff less_Suc_eq)
qed

text \<open>Taking a token, with or without reading it.\<close>

lemma sound_advance: "sound toks p \<Longrightarrow> sound toks (advance p)"
proof (cases "np_toks p")
  case (Cons t rest)
  assume "sound toks p"
  then obtain k where k: "at_token toks k p" by (auto simp: sound_def)
  obtain tok line where "t = (tok, line)" by (cases t)
  with at_peek [OF k] Cons at_skip [OF k] show ?thesis by (auto simp: advance_def sound_def)
next
  case Nil
  then have "advance p = p" by (simp add: advance_def)
  then show "sound toks p \<Longrightarrow> sound toks (advance p)" by simp
qed

lemma fresh_advance:
  assumes "sound toks p" "peek p = Some (Tok_Punct s)" "s \<notin> {''.'', ''?.'', ''|''}"
  shows "fresh toks (advance p)"
proof -
  obtain k where k: "at_token toks k p" using assms(1) by (auto simp: sound_def)
  obtain line rest where p: "np_toks p = (Tok_Punct s, line) # rest"
    using assms(2) by (auto simp: peek_def split: list.splits)
  note at = at_peek [OF k p]
  have "\<not> after_member toks (Suc k)" using at(2) assms(3) by (simp add: after_member_def)
  with at_skip [OF k at(1)] at(3) p show ?thesis by (auto simp: fresh_def advance_def)
qed

lemma fresh_punct: "sound toks p \<Longrightarrow> peek_punct p s \<Longrightarrow> s \<notin> {''.'', ''?.'', ''|''} \<Longrightarrow> fresh toks (advance p)"
  unfolding peek_punct_def by (rule fresh_advance)

lemma fresh_op: "sound toks p \<Longrightarrow> peek_op p ops \<Longrightarrow> set ops \<inter> {''.'', ''?.'', ''|''} = {} \<Longrightarrow> fresh toks (advance p)"
  by (auto simp: peek_op_def intro!: fresh_advance split: option.splits ng_tok.splits)

lemma fresh_word:
  assumes "sound toks p" "peek_ident p word"
  shows "fresh toks (advance p)"
proof -
  obtain k where k: "at_token toks k p" using assms(1) by (auto simp: sound_def)
  obtain line rest where p: "np_toks p = (Tok_Ident word, line) # rest"
    using assms(2) by (auto simp: peek_ident_def peek_def split: list.splits)
  note at = at_peek [OF k p]
  have "\<not> after_member toks (Suc k)" using at(2) by (simp add: after_member_def)
  with at_skip [OF k at(1)] at(3) p show ?thesis by (auto simp: fresh_def advance_def)
qed

lemma sound_read:
  assumes "fresh toks p" "np_toks p = (Tok_Ident name, line) # rest"
  shows "sound toks (read name line (advance p))"
proof -
  obtain k where k: "at_token toks k p" "\<not> after_member toks k" using assms(1) by (auto simp: fresh_def)
  note at = at_peek [OF k(1) assms(2)]
  obtain ps where ps: "sorted_wrt (<) ps" "list_all (\<lambda>i. i < k \<and> is_root toks i) ps" "np_reads p = map (\<lambda>i. token_read (toks ! i)) ps"
    using k(1) by (auto simp: at_token_def)
  have "at_token toks (Suc k) (advance p)" using at_skip [OF k(1) at(1)] at(3) assms(2) by (simp add: advance_def)
  from at_read [OF this at(2,1), of ps] k(2) ps show ?thesis
    by (auto simp: sound_def advance_def list_all_iff)
qed

lemma sound_this:
  assumes "sound toks p" "np_toks p = (Tok_Ident ''this'', line) # rest"
  shows "sound toks (this_member (advance p))"
proof -
  obtain k where k: "at_token toks k p" using assms(1) by (auto simp: sound_def)
  note at = at_peek [OF k assms(2)]
  have next_at: "at_token toks (Suc k) (advance p)" using at_skip [OF k at(1)] at(3) assms(2) by (simp add: advance_def)
  have here: "np_toks (advance p) = drop (Suc k) toks" using next_at by (simp add: at_token_def)
  show ?thesis
  proof (cases "this_member (advance p) = advance p")
    case True
    with next_at show ?thesis by (auto simp: sound_def)
  next
    case False
    then obtain s l name line' rest' where two: "drop (Suc k) toks = (Tok_Punct s, l) # (Tok_Ident name, line') # rest'"
      and dot: "s = ''.'' \<or> s = ''?.''"
      by (auto simp: this_member_def here split: list.splits prod.splits ng_tok.splits if_splits)
    from at_peek [OF next_at here [unfolded two]]
    have k1: "Suc k < length toks" "toks ! Suc k = (Tok_Punct s, l)" "(Tok_Ident name, line') # rest' = drop (Suc (Suc k)) toks" by simp_all
    note at2 = at_skip [OF next_at k1(1)]
    from at_peek [OF at2, of "Tok_Ident name" line' rest'] k1(3)
    have k2: "Suc (Suc k) < length toks" "toks ! Suc (Suc k) = (Tok_Ident name, line')" "rest' = drop (Suc (Suc (Suc k))) toks" by simp_all
    note at3 = at_skip [OF at2 k2(1)]
    obtain ps where ps: "sorted_wrt (<) ps" "list_all (\<lambda>i. i < Suc k \<and> is_root toks i) ps" "np_reads (advance p) = map (\<lambda>i. token_read (toks ! i)) ps"
      using next_at by (auto simp: at_token_def)
    have "at_token toks (Suc (Suc (Suc k))) (read name line' (advance p\<lparr>np_toks := rest'\<rparr>))"
    proof (rule at_read [OF _ k2(2,1), of _ ps])
      show "at_token toks (Suc (Suc (Suc k))) (advance p\<lparr>np_toks := rest'\<rparr>)" using at3 k2(3) by simp
      show "i < Suc (Suc k)" if "i \<in> set ps" for i using that ps(2) by (auto simp: list_all_iff)
    qed (use ps at(2) k1(2) dot in \<open>auto simp: list_all_iff\<close>)
    moreover have "this_member (advance p) = read name line' (advance p\<lparr>np_toks := rest'\<rparr>)"
      using dot by (auto simp: this_member_def here two)
    ultimately show ?thesis by (auto simp: sound_def)
  qed
qed

text \<open>The parts of one level keep this, when the levels below do.\<close>

lemma sound_expect: "expect_punct s p = Some q \<Longrightarrow> sound toks p \<Longrightarrow> sound toks q"
  by (auto simp: expect_punct_def intro: sound_advance split: if_splits)

lemma sound_eat: "eat_ident p = Some (name, q) \<Longrightarrow> sound toks p \<Longrightarrow> sound toks q"
  by (auto simp: eat_ident_def intro: sound_advance split: option.splits ng_tok.splits)

lemma sound_skip: "skip_ident p = Some q \<Longrightarrow> sound toks p \<Longrightarrow> sound toks q"
  by (auto simp: skip_ident_def intro: sound_eat)

lemma fresh_expect: "expect_punct s p = Some q \<Longrightarrow> sound toks p \<Longrightarrow> s \<notin> {''.'', ''?.'', ''|''} \<Longrightarrow> fresh toks q"
  by (auto simp: expect_punct_def intro: fresh_punct split: if_splits)

locale ng_sound =
  fixes un pi :: ng_step and allow_assign :: bool and toks :: "ng_token list"
  assumes un_sound: "un p = Some q \<Longrightarrow> fresh toks p \<Longrightarrow> sound toks q"
    and pi_sound: "pi p = Some q \<Longrightarrow> fresh toks p \<Longrightarrow> sound toks q"
begin

lemma binary_sound: "binary un p = Some q \<Longrightarrow> fresh toks p \<Longrightarrow> sound toks q"
proof -
  assume "binary un p = Some q" and p: "fresh toks p"
  then obtain r where r: "un p = Some r" "loop (binary_round un) r = Some q" by (auto simp: binary_def bind_eq_Some_conv)
  have "keeps (sound toks) (binary_round un) (sound toks)"
  proof (rule keepsI)
    fix p q assume "binary_round un p = Some (Again q)" "sound toks p"
    then have op: "peek_op p BINARY_OPS" and un: "un (advance p) = Some q" by (auto simp: binary_round_def split: if_splits)
    from fresh_op [OF \<open>sound toks p\<close> op] have "fresh toks (advance p)" by (simp add: BINARY_OPS_def)
    with un show "sound toks q" by (rule un_sound)
  qed (auto simp: binary_round_def split: if_splits)
  from loop_keep [OF r(2) this un_sound [OF r(1) p]] show ?thesis .
qed

lemma conditional_sound: "conditional un pi p = Some q \<Longrightarrow> fresh toks p \<Longrightarrow> sound toks q"
proof -
  assume run: "conditional un pi p = Some q" and p: "fresh toks p"
  then obtain r where r: "binary un p = Some r" by (auto simp: conditional_def bind_eq_Some_conv)
  note sound = binary_sound [OF r p]
  show ?thesis
  proof (cases "peek_punct r ''?''")
    case True
    with run r obtain a b where ab: "pi (advance r) = Some a" "expect_punct '':'' a = Some b" "pi b = Some q"
      by (auto simp: conditional_def bind_eq_Some_conv)
    have "fresh toks (advance r)" using fresh_punct [OF sound True] by simp
    with ab(1) have "sound toks a" by (rule pi_sound)
    with ab(2) have "fresh toks b" using fresh_expect by simp
    with ab(3) show ?thesis by (rule pi_sound)
  qed (use run r sound in \<open>simp add: conditional_def\<close>)
qed

lemma assign_sound: "assign allow_assign un pi p = Some q \<Longrightarrow> fresh toks p \<Longrightarrow> sound toks q"
  unfolding assign_def
proof (erule loop_keep)
  show "keeps (fresh toks) (assign_round allow_assign un pi) (sound toks)"
  proof (rule keepsI)
    fix p q assume "assign_round allow_assign un pi p = Some (Again q)" "fresh toks p"
    then obtain r where r: "conditional un pi p = Some r" "peek_op r ASSIGN_OPS" "q = advance r"
      by (auto simp: assign_round_def bind_eq_Some_conv split: if_splits)
    from fresh_op [OF conditional_sound [OF r(1) \<open>fresh toks p\<close>] r(2)] r(3) show "fresh toks q" by (simp add: ASSIGN_OPS_def)
  qed (auto simp: assign_round_def bind_eq_Some_conv dest: conditional_sound split: if_splits)
qed

lemma argument_keeps: "keeps (sound toks) (pipe_argument allow_assign un pi) (sound toks)"
proof (rule keepsI)
  fix p q assume "pipe_argument allow_assign un pi p = Some (Again q)" "sound toks p"
  then have "assign allow_assign un pi (advance p) = Some q" "peek_punct p '':''"
    by (auto simp: pipe_argument_def split: if_splits)
  with fresh_punct [OF \<open>sound toks p\<close>, of "'':''"] show "sound toks q" by (auto intro: assign_sound)
qed (auto simp: pipe_argument_def split: if_splits)

lemma name_keeps: "keeps (sound toks) (pipe_name allow_assign un pi) (sound toks)"
proof (rule keepsI)
  fix p q assume "pipe_name allow_assign un pi p = Some (Again q)" "sound toks p"
  then obtain r where r: "skip_ident (advance p) = Some r" "loop (pipe_argument allow_assign un pi) r = Some q"
    by (auto simp: pipe_name_def bind_eq_Some_conv split: if_splits)
  from loop_keep [OF r(2) argument_keeps sound_skip [OF r(1) sound_advance [OF \<open>sound toks p\<close>]]] show "sound toks q" .
qed (auto simp: pipe_name_def bind_eq_Some_conv split: if_splits)

lemma pipe_sound: "pipe_body allow_assign un pi p = Some q \<Longrightarrow> fresh toks p \<Longrightarrow> sound toks q"
  by (auto simp: pipe_body_def bind_eq_Some_conv dest!: assign_sound intro: loop_keep [OF _ name_keeps])

lemma list_keeps: "keeps (fresh toks) (list_round pi cl) (sound toks)"
proof (rule keepsI)
  fix p q assume "list_round pi cl p = Some (Again q)" "fresh toks p"
  then obtain r where "pi p = Some r" "peek_punct r '',''" "q = advance r"
    by (auto simp: list_round_def bind_eq_Some_conv split: if_splits)
  with fresh_punct [OF pi_sound [OF \<open>pi p = Some r\<close> \<open>fresh toks p\<close>]] show "fresh toks q" by simp
qed (auto simp: list_round_def bind_eq_Some_conv dest!: pi_sound intro: sound_expect split: if_splits)

lemma list_sound: "expr_list pi cl p = Some q \<Longrightarrow> fresh toks p \<Longrightarrow> sound toks q"
  by (cases "peek_punct p cl") (auto simp: expr_list_def intro: sound_advance fresh_sound loop_keep [OF _ list_keeps])

lemma entry_sound: "object_entry pi p = Some q \<Longrightarrow> fresh toks p \<Longrightarrow> sound toks q"
proof -
  assume run: "object_entry pi p = Some q" and p: "fresh toks p"
  then obtain tok line rest where t: "np_toks p = (tok, line) # rest" by (auto simp: object_entry_def split: list.splits)
  have next_sound: "sound toks (advance p)" using p by (intro sound_advance fresh_sound)
  show ?thesis
  proof (cases tok)
    case (Tok_Ident key)
    show ?thesis
    proof (cases "peek_punct (advance p) '':''")
      case True
      with run t Tok_Ident have "pi (advance (advance p)) = Some q" by (simp add: object_entry_def)
      with fresh_punct [OF next_sound True] show ?thesis by (simp add: pi_sound)
    next
      case False
      with run t Tok_Ident sound_read [OF p, of key line rest] show ?thesis by (simp add: object_entry_def)
    qed
  next
    case Tok_Literal
    with run t obtain r where "expect_punct '':'' (advance p) = Some r" "pi r = Some q"
      by (auto simp: object_entry_def bind_eq_Some_conv)
    with fresh_expect [OF _ next_sound] show ?thesis by (auto intro: pi_sound)
  qed (use run t in \<open>simp add: object_entry_def\<close>)
qed

lemma object_keeps: "keeps (fresh toks) (object_round pi) (sound toks)"
proof (rule keepsI)
  fix p q assume "object_round pi p = Some (Again q)" "fresh toks p"
  then obtain r where "object_entry pi p = Some r" "peek_punct r '',''" "q = advance r"
    by (auto simp: object_round_def bind_eq_Some_conv Let_def split: if_splits)
  with fresh_punct [OF entry_sound [OF \<open>object_entry pi p = Some r\<close> \<open>fresh toks p\<close>]] show "fresh toks q" by simp
next
  fix p q assume "object_round pi p = Some (Done q)" "fresh toks p"
  then show "sound toks q"
    by (auto simp: object_round_def bind_eq_Some_conv Let_def dest!: entry_sound intro: sound_expect sound_advance split: if_splits)
qed

lemma object_sound: "object pi p = Some q \<Longrightarrow> fresh toks p \<Longrightarrow> sound toks q"
  by (cases "peek_punct p ''}''") (auto simp: object_def intro: sound_advance fresh_sound loop_keep [OF _ object_keeps])

lemma primary_sound: "primary pi p = Some q \<Longrightarrow> fresh toks p \<Longrightarrow> sound toks q"
proof -
  assume run: "primary pi p = Some q" and p: "fresh toks p"
  then obtain tok line rest where t: "np_toks p = (tok, line) # rest" by (auto simp: primary_def split: list.splits)
  show ?thesis
  proof (cases tok)
    case (Tok_Punct s)
    then have "peek_punct p s" using t by (simp add: peek_punct_def peek_def)
    from fresh_punct [OF fresh_sound [OF p] this] have fresh_next: "fresh toks (advance p)" if "s \<in> {''('', ''['', ''{''}"
      using that by auto
    consider r where "s = ''(''" "pi (advance p) = Some r" "expect_punct '')'' r = Some q"
      | "s = ''[''" "expr_list pi '']'' (advance p) = Some q" | "s = ''{''" "object pi (advance p) = Some q"
      using run t Tok_Punct by (auto simp: primary_def bind_eq_Some_conv split: if_splits)
    then show ?thesis
    proof cases
      case (1 r)
      with fresh_next pi_sound [of "advance p" r] show ?thesis by (auto intro: sound_expect)
    qed (use fresh_next in \<open>auto intro: list_sound object_sound\<close>)
  next
    case (Tok_Ident name)
    with run t sound_this [OF fresh_sound [OF p], of line rest] sound_read [OF p, of name line rest] show ?thesis
      by (auto simp: primary_def split: if_splits)
  next
    case Tok_Literal
    with run t p show ?thesis by (auto simp: primary_def intro: sound_advance fresh_sound)
  qed
qed

lemma postfix_keeps: "keeps (sound toks) (postfix_round pi) (sound toks)"
proof (rule keepsI)
  fix p q assume run: "postfix_round pi p = Some (Again q)" and p: "sound toks p"
  note next_sound = sound_advance [OF p]
  consider "skip_ident (advance p) = Some q" | name where "eat_ident (advance p) = Some (name, q)" | "q = advance p"
    | r where "peek_punct p ''[''" "pi (advance p) = Some r" "expect_punct '']'' r = Some q"
    | "peek_punct p ''(''" "expr_list pi '')'' (advance p) = Some q"
    using run by (auto simp: postfix_round_def Let_def bind_eq_Some_conv split: if_splits option.splits)
  then show "sound toks q"
  proof cases
    case (4 r)
    with fresh_punct [OF p 4(1)] have "sound toks r" by (auto intro: pi_sound)
    with 4 show ?thesis by (auto intro: sound_expect)
  next
    case 5
    with fresh_punct [OF p 5(1)] show ?thesis by (auto intro: list_sound)
  qed (use next_sound in \<open>auto intro: sound_skip sound_eat\<close>)
qed (auto simp: postfix_round_def Let_def bind_eq_Some_conv split: if_splits option.splits)

lemma postfix_sound: "postfix_expr pi p = Some q \<Longrightarrow> fresh toks p \<Longrightarrow> sound toks q"
  by (auto simp: postfix_expr_def bind_eq_Some_conv dest!: primary_sound intro: loop_keep [OF _ postfix_keeps])

end

lemma levels_sound:
  "pipe_expr a n p = Some q \<Longrightarrow> fresh toks p \<Longrightarrow> sound toks q"
  "unary a n p = Some q \<Longrightarrow> fresh toks p \<Longrightarrow> sound toks q"
proof (induction n arbitrary: p q)
  case (Suc n)
  note level = ng_sound.intro [of "unary a n" toks "pipe_expr a n", OF Suc.IH(2) Suc.IH(1)]
  { case 1 then show ?case using ng_sound.pipe_sound [OF level] by simp
  next
    case 2
    then have "fresh toks (advance p)" if "is_prefix_op p"
      using that fresh_op [of toks p "[''!'', ''-'', ''+'']"] fresh_word [of toks p] by (auto simp: is_prefix_op_def intro: fresh_sound)
    with 2 show ?case
      using ng_sound.postfix_sound [OF level] Suc.IH(2) [of "advance p" q] by (auto split: if_splits) }
qed simp_all

interpretation level: ng_sound "unary a n" "pipe_expr a n" a toks for a n toks
  by unfold_locales (auto dest: levels_sound)

lemma fresh_new: "fresh toks (new_parser toks)"
  by (auto simp: fresh_def at_token_def new_parser_def after_member_def intro!: exI [of _ 0] exI [of _ "[]"])

lemma action_keeps: "keeps (\<lambda>p. fresh toks p \<or> sound toks p \<and> at_end p) action_round (sound toks)"
proof (rule keepsI)
  fix p q assume run: "action_round p = Some (Again q)" and p: "fresh toks p \<or> sound toks p \<and> at_end p"
  then have going: "\<not> at_end p" "fresh toks p" by (auto simp: action_round_def)
  then have p_sound: "sound toks p" by (simp add: fresh_sound)
  consider "peek_punct p '';''" "q = advance p"
    | r where "whole_pipe True p = Some r" "at_end r \<and> q = r \<or> expect_punct '';'' r = Some q"
    using run going(1) by (auto simp: action_round_def bind_eq_Some_conv split: if_splits)
  then show "fresh toks q \<or> sound toks q \<and> at_end q"
  proof cases
    case 1
    with fresh_punct [OF p_sound] show ?thesis by simp
  next
    case (2 r)
    with levels_sound(1) going(2) have "sound toks r" by (auto simp: whole_pipe_def)
    with 2 fresh_expect show ?thesis by auto
  qed
next
  fix p q assume "action_round p = Some (Done q)" "fresh toks p \<or> sound toks p \<and> at_end p"
  then show "sound toks q" by (auto simp: action_round_def bind_eq_Some_conv intro: fresh_sound split: if_splits)
qed

lemma sound_reads:
  assumes "sound toks p"
  shows "\<exists>ps. sorted_wrt (<) ps \<and> list_all (is_root toks) ps \<and> np_reads p = map (\<lambda>i. token_read (toks ! i)) ps"
  using assms by (fastforce simp: sound_def at_token_def list_all_iff)

text \<open>
  What a template expression reads are root identifiers of its text, once each and in order: every read is
  a name token that is no literal word, that names no member of what stands before a dot (that of \<open>this.\<close>
  apart) and no pipe, with the line of that very token. This holds of a binding and of an action.
\<close>

theorem template_reads_are_roots:
  assumes "lex s line = Some toks" "parse_binding s line = Some reads \<or> parse_action s line = Some reads"
  shows "\<exists>ps. sorted_wrt (<) ps \<and> list_all (is_root toks) ps \<and> reads = map (\<lambda>i. token_read (toks ! i)) ps"
proof -
  have "\<exists>p. sound toks p \<and> np_reads p = reads" if "parse_binding s line = Some reads"
  proof -
    from that assms(1) obtain p where p: "(if toks = [] then Some (new_parser toks) else whole_pipe False (new_parser toks)) = Some p"
      and "np_reads p = reads"
      by (auto simp: parse_binding_def parse_binding_tokens_def bind_eq_Some_conv split: if_splits)
    moreover have "sound toks p"
      using p fresh_new [of toks] levels_sound(1) by (auto simp: whole_pipe_def intro: fresh_sound split: if_splits)
    ultimately show ?thesis by auto
  qed
  moreover have "\<exists>p. sound toks p \<and> np_reads p = reads" if "parse_action s line = Some reads"
    using that assms(1) loop_keep [OF _ action_keeps, of "new_parser toks" _ toks] fresh_new [of toks]
    by (auto simp: parse_action_def bind_eq_Some_conv)
  ultimately obtain p where "sound toks p" "np_reads p = reads" using assms(2) by auto
  with sound_reads [OF this(1)] show ?thesis by simp
qed

theorem template_reads_are_roots_witness:
  "(\<exists>ps. sorted_wrt (<) ps \<and> list_all (is_root (the (lex ''a.b(c) | f : this.d'' 1))) ps
      \<and> [(''a'', 1), (''c'', 1), (''d'', 1)] = map (\<lambda>i. token_read (the (lex ''a.b(c) | f : this.d'' 1) ! i)) ps)"
proof -
  have toks: "lex ''a.b(c) | f : this.d'' 1 = Some (the (lex ''a.b(c) | f : this.d'' 1))" by code_simp
  have "parse_binding ''a.b(c) | f : this.d'' 1 = Some [(''a'', 1), (''c'', 1), (''d'', 1)]" by code_simp
  from template_reads_are_roots [OF toks disjI1 [OF this]] show ?thesis .
qed

text \<open>A backslash at the end of a line skips the line break without counting it, and the tokens after the string get the line before.\<close>

lemma escaped_newline_uncounted:
  "lex (SINGLE_QUOTE # BACKSLASH # NEWLINE # SINGLE_QUOTE # ''a'') 1 = Some [(Tok_Literal, 1), (Tok_Ident ''a'', 1)]"
  by code_simp

section \<open>Locals\<close>

text \<open>Events in which every element that opens is closed.\<close>

inductive balanced :: "ng_event list \<Rightarrow> bool" where
  nothing: "balanced []"
| interpolation: "balanced evs \<Longrightarrow> balanced (Ev_Interp s line # evs)"
| a_gap: "balanced evs \<Longrightarrow> balanced (Ev_Gap line reason # evs)"
| void_element: "balanced evs \<Longrightarrow> balanced (Ev_Open tag attrs True # evs)"
| element: "balanced inner \<Longrightarrow> balanced evs \<Longrightarrow> map ascii_lower tag = map ascii_lower tag'
    \<Longrightarrow> balanced (Ev_Open tag attrs False # inner @ Ev_Close tag' # evs)"

text \<open>\<open>shown w v\<close>: from \<open>w\<close> to \<open>v\<close> only reads were added that \<open>w\<close> does not hide.\<close>

definition shown :: "ng_walk \<Rightarrow> ng_walk \<Rightarrow> bool" where
  "shown w v \<longleftrightarrow>
     wk_refs v = wk_refs w
     \<and> (\<exists>rs. tn_reads (wk_out v) = tn_reads (wk_out w) @ rs \<and> list_all (\<lambda>r. \<not> hidden w (tr_name r)) rs)"

lemma shown_refl [simp]: "shown w w"
  by (simp add: shown_def)

lemma shown_trans:
  assumes "shown u v" "shown v w" "set (wk_frames u) \<subseteq> set (wk_frames v)"
  shows "shown u w"
proof -
  have "hidden v name" if "hidden u name" for name
    using that assms(1,3) by (auto simp: hidden_def shown_def list_ex_iff)
  with assms(1,2) show ?thesis unfolding shown_def list_all_iff by (metis UnE append.assoc set_append)
qed

lemma judge_frames [simp]: "wk_frames (judge e line parsed w) = wk_frames w"
  by (simp add: judge_def keep_def gap_def split: option.split)

lemma judge_shown [simp]: "shown w (judge e line parsed w)"
  by (auto simp: judge_def keep_def gap_def shown_def list_all_iff split: option.split)

lemma gap_frames [simp]: "wk_frames (gap line reason w) = wk_frames w" "shown w (gap line reason w)"
  by (simp_all add: gap_def shown_def)

lemma pieces_frames: "wk_frames (fold plain_piece ps w) = wk_frames w \<and> shown w (fold plain_piece ps w)"
proof (induction ps arbitrary: w)
  case (Cons a ps)
  have one: "wk_frames (plain_piece a w) = wk_frames w \<and> shown w (plain_piece a w)"
    by (simp add: plain_piece_def split: sum.split prod.split)
  with Cons [of "plain_piece a w"] show ?case by (auto intro: shown_trans)
qed simp

lemma attr_frames: "wk_frames (walk_attr tag a w) = wk_frames w \<and> shown w (walk_attr tag a w)"
  using pieces_frames by (auto simp: walk_attr_def split: prod.split ng_binding.split)

lemma attrs_frames: "wk_frames (fold (walk_attr tag) as w) = wk_frames w \<and> shown w (fold (walk_attr tag) as w)"
proof (induction as arbitrary: w)
  case (Cons a as)
  from attr_frames [of tag a w] Cons [of "walk_attr tag a w"] show ?case by (auto intro: shown_trans)
qed simp

text \<open>An element's own frame, and the walk through its attributes.\<close>

definition frame_of :: "string \<Rightarrow> ng_attr list \<Rightarrow> string \<times> string list" where
  "frame_of tag attrs = (tag, concat (map (attr_locals tag) attrs))"

lemma open_shown:
  "shown (w\<lparr>wk_frames := wk_frames w @ [frame_of tag attrs]\<rparr>) (walk_open tag attrs closes w)"
  "wk_frames (walk_open tag attrs closes w) = (if closes then wk_frames w else wk_frames w @ [frame_of tag attrs])"
  using attrs_frames [of tag attrs "w\<lparr>wk_frames := wk_frames w @ [frame_of tag attrs]\<rparr>"]
  by (auto simp: walk_open_def Let_def frame_of_def [symmetric] shown_def)

lemma frame_shown: "shown w (w\<lparr>wk_frames := wk_frames w @ [fr]\<rparr>)"
  by (simp add: shown_def)

lemma close_last:
  assumes "wk_frames w = frames @ [(tag, locals)]" "map ascii_lower tag = map ascii_lower tag'"
  shows "wk_frames (walk_close tag' w) = frames" "shown w (walk_close tag' w)"
proof -
  have "walk_close tag' w = w\<lparr>wk_frames := frames\<rparr>"
    using assms by (simp add: walk_close_def Let_def nth_append upt_Suc_append [simplified])
  then show "wk_frames (walk_close tag' w) = frames" "shown w (walk_close tag' w)" by (simp_all add: shown_def)
qed

lemma walk_event_simps [simp]:
  "walk_event (Ev_Open tag attrs closes) w = walk_open tag attrs closes w"
  "walk_event (Ev_Close tag) w = walk_close tag w"
  "walk_event (Ev_Interp s line) w = judge False line (parse_binding s line) w"
  "walk_event (Ev_Gap line reason) w = gap line reason w"
  by (simp_all add: walk_event_def)

lemma balanced_shown: "balanced evs \<Longrightarrow> wk_frames (fold walk_event evs w) = wk_frames w \<and> shown w (fold walk_event evs w)"
proof (induction evs arbitrary: w rule: balanced.induct)
  case (element inner evs tag tag' attrs)
  define a where "a = walk_open tag attrs False w"
  define b where "b = fold walk_event inner a"
  define c where "c = walk_close tag' b"
  have a: "wk_frames a = wk_frames w @ [frame_of tag attrs]" "shown w a"
    using open_shown [where w = w and tag = tag and attrs = attrs and closes = False] frame_shown [of w "frame_of tag attrs"] by (auto simp: a_def intro: shown_trans)
  have b: "wk_frames b = wk_frames a" "shown a b" using element.IH(1) [of a] by (simp_all add: b_def)
  have c: "wk_frames c = wk_frames w" "shown b c"
    using close_last [of b "wk_frames w" tag "concat (map (attr_locals tag) attrs)" tag'] a b element.hyps(3)
    by (simp_all add: c_def frame_of_def)
  have "shown w c" using shown_trans [OF shown_trans [OF a(2) b(2)] c(2)] a b by auto
  moreover have "fold walk_event (Ev_Open tag attrs False # inner @ Ev_Close tag' # evs) w = fold walk_event evs c"
    by (simp add: a_def b_def c_def)
  ultimately show ?case using element.IH(2) [of c] c(1) by (auto intro: shown_trans)
next
  case (void_element evs tag attrs)
  define a where "a = walk_open tag attrs True w"
  have a: "wk_frames a = wk_frames w" "shown w a"
    using open_shown [where w = w and tag = tag and attrs = attrs and closes = True] frame_shown [of w "frame_of tag attrs"] by (auto simp: a_def intro: shown_trans)
  with void_element.IH [of a] show ?case by (auto simp: a_def intro: shown_trans)
next
  case (interpolation evs s line)
  from interpolation.IH [of "judge False line (parse_binding s line) w"] show ?case
    by (auto intro: shown_trans [OF judge_shown])
next
  case (a_gap evs line reason)
  from a_gap.IH [of "gap line reason w"] show ?case
    by (auto intro: shown_trans [OF gap_frames(2)])
qed simp

text \<open>
  What an element declares, and what the template names with a reference, hides inside the element: from
  its start tag through its balanced content to its end tag no read is kept whose name is a local of one of
  its attributes, a local of an element around it or a reference, and after the end tag the locals in
  scope are those from before.
\<close>

theorem element_locals_hide:
  assumes "balanced inner" "map ascii_lower tag = map ascii_lower tag'"
  shows "\<exists>rs. tn_reads (wk_out (fold walk_event (Ev_Open tag attrs False # inner @ [Ev_Close tag']) w)) = tn_reads (wk_out w) @ rs
    \<and> list_all (\<lambda>r. tr_name r \<notin> set (concat (map (attr_locals tag) attrs)) \<and> \<not> hidden w (tr_name r)) rs
    \<and> wk_frames (fold walk_event (Ev_Open tag attrs False # inner @ [Ev_Close tag']) w) = wk_frames w"
proof -
  let ?in = "w\<lparr>wk_frames := wk_frames w @ [frame_of tag attrs]\<rparr>"
  define a where "a = walk_open tag attrs False w"
  define b where "b = fold walk_event inner a"
  define c where "c = walk_close tag' b"
  have a: "wk_frames a = wk_frames ?in" "shown ?in a" using open_shown [where w = w and tag = tag and attrs = attrs and closes = False] by (simp_all add: a_def)
  have b: "wk_frames b = wk_frames a" "shown a b" using balanced_shown [OF assms(1), of a] by (simp_all add: b_def)
  have c: "wk_frames c = wk_frames w" "shown b c"
    using close_last [of b "wk_frames w" tag "concat (map (attr_locals tag) attrs)" tag'] a b assms(2)
    by (simp_all add: c_def frame_of_def)
  have "shown ?in c" using shown_trans [OF shown_trans [OF a(2) b(2)] c(2)] a b by auto
  then have "\<exists>rs. tn_reads (wk_out c) = tn_reads (wk_out w) @ rs \<and> list_all (\<lambda>r. \<not> hidden ?in (tr_name r)) rs"
    by (simp add: shown_def)
  moreover have "hidden ?in name \<longleftrightarrow> name \<in> set (concat (map (attr_locals tag) attrs)) \<or> hidden w name" for name
    by (auto simp: hidden_def frame_of_def)
  moreover have "fold walk_event (Ev_Open tag attrs False # inner @ [Ev_Close tag']) w = c"
    by (simp add: a_def b_def c_def)
  ultimately show ?thesis using c(1) by simp
qed

text \<open>\<open><li *ngFor="let x of xs">{{ x }}{{ y }}</li>\<close>: the directive's own value is read, its local is not.\<close>

definition list_item :: "ng_attr list" where
  "list_item = [\<lparr>na_name = ''*ngFor'', na_line = 1, na_value = Some (''let x of xs'', 1)\<rparr>]"

definition empty_walk :: ng_walk where
  "empty_walk = \<lparr>wk_refs = {}, wk_frames = [], wk_out = \<lparr>tn_reads = [], tn_gaps = []\<rparr>\<rparr>"

theorem element_locals_hide_witness:
  "(\<exists>rs. [\<lparr>tr_name = ''xs'', tr_line = 1\<rparr>, \<lparr>tr_name = ''y'', tr_line = 1\<rparr>] = rs
      \<and> list_all (\<lambda>r. tr_name r \<notin> set (concat (map (attr_locals ''li'') list_item)) \<and> \<not> hidden empty_walk (tr_name r)) rs)
   \<and> concat (map (attr_locals ''li'') list_item) = [''x'']"
proof -
  have inner: "balanced [Ev_Interp ''x'' 1, Ev_Interp ''y'' 1]" by (intro balanced.intros)
  have "tn_reads (wk_out (fold walk_event (Ev_Open ''li'' list_item False # [Ev_Interp ''x'' 1, Ev_Interp ''y'' 1] @ [Ev_Close ''LI'']) empty_walk))
    = [\<lparr>tr_name = ''xs'', tr_line = 1\<rparr>, \<lparr>tr_name = ''y'', tr_line = 1\<rparr>]" by code_simp
  moreover have "map ascii_lower ''li'' = map ascii_lower ''LI''" by code_simp
  moreover have "concat (map (attr_locals ''li'') list_item) = [''x'']" by code_simp
  ultimately show ?thesis
    using element_locals_hide [OF inner, of "''li''" "''LI''" list_item empty_walk] by (simp add: empty_walk_def)
qed

section \<open>The join\<close>

text \<open>The templates a component reads through, each with the file it is in and its reads.\<close>

definition component_sources ::
  "(string \<Rightarrow> html_fragment option) \<Rightarrow> string \<Rightarrow> ts_component \<Rightarrow> (string \<times> template_read list) list" where
  "component_sources templates f c =
     (case tc_inline c of None \<Rightarrow> [] | Some sc \<Rightarrow> [(f, tn_reads sc)])
     @ (case Option.bind (tc_template_url c) (url_target f templates) of None \<Rightarrow> [] | Some (rel, html) \<Rightarrow> [(rel, hf_reads html)])"

definition has_member :: "ts_component \<Rightarrow> string \<Rightarrow> bool" where
  "has_member c name \<longleftrightarrow> list_ex (\<lambda>m. tm_name m = name) (tc_members c)"

definition read_key :: "edge \<Rightarrow> string \<times> nat \<times> string \<times> string" where
  "read_key e = (e_from_file e, e_from_line e, e_to e, the (e_member e))"

lemma read_key_uses [simp]: "read_key (uses_member f line i g (Some name) t) = (f, line, i, name)"
  by (simp add: read_key_def uses_member_def)

text \<open>A read of a member has an edge from its line to the class, any other read a row.\<close>

definition accounted :: "string \<Rightarrow> string \<Rightarrow> ts_component \<Rightarrow> template_read \<Rightarrow> template_join \<Rightarrow> bool" where
  "accounted from' f c r j \<longleftrightarrow>
     (if has_member c (tr_name r)
      then list_ex (\<lambda>e. read_key e = (from', tr_line r, ts_def_id f (tc_name c), tr_name r)) (tj_edges j)
      else \<lparr>tx_file = from', tx_line = tr_line r, tx_reason = Unknown_Member\<rparr> \<in> set (tj_rows j))"

definition join_ok :: "template_join \<Rightarrow> bool" where
  "join_ok j \<longleftrightarrow> read_key ` set (tj_edges j) = tj_seen j \<and> distinct (map read_key (tj_edges j)) \<and> distinct (tj_rows j)"

definition grows :: "template_join \<Rightarrow> template_join \<Rightarrow> bool" where
  "grows j k \<longleftrightarrow> set (tj_edges j) \<subseteq> set (tj_edges k) \<and> set (tj_rows j) \<subseteq> set (tj_rows k)"

lemma view_grows_refl [simp]: "grows j j"
  by (simp add: grows_def)

lemma view_grows_trans: "grows i j \<Longrightarrow> grows j k \<Longrightarrow> grows i k"
  by (auto simp: grows_def)

lemma accounted_grows: "accounted from' f c r j \<Longrightarrow> grows j k \<Longrightarrow> accounted from' f c r k"
  by (auto simp: accounted_def grows_def list_ex_iff split: if_splits)

text \<open>A step that keeps the join right, adds to it, and establishes what it is there for.\<close>

definition joins :: "(template_join \<Rightarrow> bool) \<Rightarrow> (template_join \<Rightarrow> template_join) \<Rightarrow> bool" where
  "joins Q step \<longleftrightarrow> (\<forall>j. join_ok j \<longrightarrow> join_ok (step j) \<and> grows j (step j) \<and> Q (step j))"

lemma joins_fold:
  assumes "\<And>x. x \<in> set xs \<Longrightarrow> joins (Q x) (step x)" "\<And>x j k. Q x j \<Longrightarrow> grows j k \<Longrightarrow> Q x k"
  shows "joins (\<lambda>j. \<forall>x \<in> set xs. Q x j) (fold step xs)"
  using assms(1)
proof (induction xs)
  case Nil
  then show ?case by (simp add: joins_def)
next
  case (Cons x xs)
  show ?case
    unfolding joins_def
  proof (intro allI impI)
    fix j assume "join_ok j"
    then have one: "join_ok (step x j)" "grows j (step x j)" "Q x (step x j)"
      using Cons.prems [of x] by (auto simp: joins_def)
    then have rest: "join_ok (fold step xs (step x j))" "grows (step x j) (fold step xs (step x j))"
      "\<forall>y \<in> set xs. Q y (fold step xs (step x j))"
      using Cons.IH Cons.prems by (auto simp: joins_def)
    from assms(2) [OF one(3) rest(2)] one rest
    show "join_ok (fold step (x # xs) j) \<and> grows j (fold step (x # xs) j) \<and> (\<forall>y \<in> set (x # xs). Q y (fold step (x # xs) j))"
      by (auto intro: view_grows_trans)
  qed
qed

lemma joins_comp: "joins P f \<Longrightarrow> joins Q g \<Longrightarrow> (\<And>j k. P j \<Longrightarrow> grows j k \<Longrightarrow> P k) \<Longrightarrow> joins (\<lambda>j. P j \<and> Q j) (\<lambda>j. g (f j))"
  unfolding joins_def by (blast intro: view_grows_trans)

lemma joins_weaken: "joins P f \<Longrightarrow> (\<And>j. P j \<Longrightarrow> Q j) \<Longrightarrow> joins Q f"
  by (simp add: joins_def)

lemma row_joins: "joins (\<lambda>j. \<lparr>tx_file = f, tx_line = line, tx_reason = reason\<rparr> \<in> set (tj_rows j)) (join_row f line reason)"
  by (auto simp: joins_def join_row_def Let_def join_ok_def grows_def)

lemma gaps_joins: "joins (\<lambda>_. True) (join_gaps f gaps)"
proof -
  have "joins (\<lambda>j. \<forall>g \<in> set gaps. True) (fold (\<lambda>g. join_row f (tg_line g) (tg_reason g)) gaps)"
    by (rule joins_fold) (auto intro: joins_weaken [OF row_joins])
  then show ?thesis by (simp add: join_gaps_def [abs_def])
qed

lemma read_joins: "joins (accounted from' f c r) (join_read c (ts_def_id f (tc_name c)) f from' r)"
proof -
  have "joins (accounted from' f c r) (join_row from' (tr_line r) Unknown_Member)" if "\<not> has_member c (tr_name r)"
    using that by (intro joins_weaken [OF row_joins]) (simp add: accounted_def)
  moreover have "\<exists>e \<in> set (tj_edges j). read_key e = k" if "join_ok j" "k \<in> tj_seen j" for j k
  proof -
    from that have "k \<in> read_key ` set (tj_edges j)" by (simp add: join_ok_def)
    then show ?thesis by auto
  qed
  ultimately show ?thesis
    unfolding joins_def join_read_def has_member_def [symmetric]
    by (auto simp: Let_def join_ok_def grows_def accounted_def list_ex_iff)
qed

lemma template_joins:
  "joins (\<lambda>j. \<forall>r \<in> set reads. accounted from' f c r j) (join_template c (ts_def_id f (tc_name c)) f from' reads gaps)"
proof -
  have reads: "joins (\<lambda>j. \<forall>r \<in> set reads. accounted from' f c r j) (fold (join_read c (ts_def_id f (tc_name c)) f from') reads)"
    by (rule joins_fold) (auto intro: read_joins accounted_grows)
  from joins_comp [OF gaps_joins reads] show ?thesis by (simp add: join_template_def [abs_def])
qed

text \<open>What a component's step is there for: every read of its sources is accounted for.\<close>

definition component_accounted :: "(string \<Rightarrow> html_fragment option) \<Rightarrow> string \<Rightarrow> ts_component \<Rightarrow> template_join \<Rightarrow> bool" where
  "component_accounted templates f c j \<longleftrightarrow>
     (\<forall>(from', reads) \<in> set (component_sources templates f c). \<forall>r \<in> set reads. accounted from' f c r j)"

lemma component_accounted_grows:
  "component_accounted templates f c j \<Longrightarrow> grows j k \<Longrightarrow> component_accounted templates f c k"
  by (fastforce simp: component_accounted_def intro: accounted_grows)

lemma component_joins: "joins (component_accounted templates f c) (join_component templates f c)"
proof -
  define owner where "owner = ts_def_id f (tc_name c)"
  define add where "add = (\<lambda>j :: template_join. j\<lparr>tj_names := tj_names j @ map (\<lambda>m. \<lparr>gn_name = tm_name m, gn_kind = tm_kind m, gn_file = f,
    gn_line = tm_line m, gn_owner = owner\<rparr>) (tc_members c)\<rparr>)"
  define own where "own = (\<lambda>j. case tc_inline c of None \<Rightarrow> j | Some sc \<Rightarrow> join_template c owner f f (tn_reads sc) (tn_gaps sc) j)"
  define outer where "outer = (\<lambda>j. case tc_template_url c of
      None \<Rightarrow> j
    | Some url \<Rightarrow> (case url_target f templates url of
        Some (rel, html) \<Rightarrow> join_template c owner f rel (hf_reads html) (hf_gaps html) j
      | None \<Rightarrow> join_row f (tu_line url) Template_Url_Unresolved j))"
  let ?own = "\<lambda>j. \<forall>(from', reads) \<in> set (case tc_inline c of None \<Rightarrow> [] | Some sc \<Rightarrow> [(f, tn_reads sc)]). \<forall>r \<in> set reads. accounted from' f c r j"
  let ?ext = "\<lambda>j. \<forall>(from', reads) \<in> set (case Option.bind (tc_template_url c) (url_target f templates) of
      None \<Rightarrow> [] | Some (rel, html) \<Rightarrow> [(rel, hf_reads html)]). \<forall>r \<in> set reads. accounted from' f c r j"
  have a: "joins (\<lambda>_. True) add" by (simp add: joins_def add_def join_ok_def grows_def)
  have o: "joins ?own own"
    using template_joins [where f = f and c = c]
    by (cases "tc_inline c") (simp_all add: own_def owner_def joins_def)
  have e: "joins ?ext outer"
  proof (cases "Option.bind (tc_template_url c) (url_target f templates)")
    case None
    then show ?thesis using joins_weaken [OF row_joins, of f _ Template_Url_Unresolved]
      by (cases "tc_template_url c") (simp_all add: outer_def, simp add: joins_def)
  next
    case (Some hit)
    then obtain url where "tc_template_url c = Some url" "url_target f templates url = Some hit"
      by (auto simp: bind_eq_Some_conv)
    then show ?thesis using template_joins [where f = f and c = c] by (cases hit) (simp add: outer_def owner_def)
  qed
  have mono: "?own j \<Longrightarrow> grows j k \<Longrightarrow> ?own k" for j k by (fastforce intro: accounted_grows)
  have first: "joins (\<lambda>_. True) (\<lambda>j. join_gaps f (tc_gaps c) (add j))"
    by (rule joins_weaken [OF joins_comp [OF a gaps_joins]]) simp_all
  have second: "joins ?own (\<lambda>j. own (join_gaps f (tc_gaps c) (add j)))"
    by (rule joins_weaken [OF joins_comp [OF first o]]) simp_all
  have "joins (\<lambda>j. ?own j \<and> ?ext j) (\<lambda>j. outer (own (join_gaps f (tc_gaps c) (add j))))"
    by (rule joins_comp [OF second e mono])
  moreover have "(\<lambda>j. outer (own (join_gaps f (tc_gaps c) (add j)))) = join_component templates f c"
    unfolding join_component_def [abs_def] Let_def outer_def own_def add_def owner_def by (rule refl)
  moreover have "(\<lambda>j. ?own j \<and> ?ext j) = component_accounted templates f c"
    by (simp only: component_accounted_def [abs_def] component_sources_def set_append ball_Un)
  ultimately show ?thesis by simp
qed

text \<open>
  C31. Nothing a template reads is lost. For every component that is a definition, each read of its inline
  template and of the template file it names has an edge to the component, when the component has a member
  of that name, and otherwise a row that says so; no edge and no row is there twice.
\<close>

theorem template_reads_accounted:
  "let j = join_all ids templates rows
   in distinct (map read_key (tj_edges j)) \<and> distinct (tj_rows j)
      \<and> list_all (\<lambda>(f, cs). list_all (\<lambda>c. component_accounted templates f c j)
            (filter (\<lambda>c. ts_def_id f (tc_name c) \<in> ids) cs)) rows"
proof -
  have per_file: "joins (\<lambda>j. \<forall>c \<in> set (filter (\<lambda>c. ts_def_id f (tc_name c) \<in> ids) cs). component_accounted templates f c j)
      (fold (join_component templates f) (filter (\<lambda>c. ts_def_id f (tc_name c) \<in> ids) cs))" for f cs
    by (rule joins_fold) (auto intro: component_joins component_accounted_grows)
  let ?Q = "\<lambda>row j. \<forall>c \<in> set (filter (\<lambda>c. ts_def_id (fst row) (tc_name c) \<in> ids) (snd row)). component_accounted templates (fst row) c j"
  have "joins (\<lambda>j. \<forall>row \<in> set rows. ?Q row j)
      (fold (\<lambda>(f, cs). fold (join_component templates f) (filter (\<lambda>c. ts_def_id f (tc_name c) \<in> ids) cs)) rows)"
    by (rule joins_fold) (use per_file in \<open>auto simp: case_prod_beta intro: component_accounted_grows\<close>)
  moreover have "join_ok empty_join" by (simp add: join_ok_def empty_join_def)
  ultimately have "join_ok (join_all ids templates rows)" "\<forall>row \<in> set rows. ?Q row (join_all ids templates rows)"
    unfolding joins_def join_all_def by blast+
  then show ?thesis by (auto simp: join_ok_def Let_def list_all_iff)
qed

end
