(* ===== verification/RsCrates.thy ===== *)
theory RsCrates
  imports TsModules Ladder
begin

text \<open>
  The Cargo packages of the mapped scope (\<open>src/rsgraph/crates.rs\<close>): the line scan of a \<open>Cargo.toml\<close>, the
  crate roots cargo's conventions give, and the model of every package. The walk's list of files, the
  reader of a manifest, the lossy decoding of its bytes and the digest are parameters.
\<close>

section \<open>Packages\<close>

datatype root_kind = Root_Lib | Root_Bin | Root_Test | Root_Example | Root_Bench | Root_Build

text \<open>The derived order: the declaration order of the kinds.\<close>

fun root_rank :: "root_kind \<Rightarrow> nat" where
  "root_rank Root_Lib = 0"
| "root_rank Root_Bin = 1"
| "root_rank Root_Test = 2"
| "root_rank Root_Example = 3"
| "root_rank Root_Bench = 4"
| "root_rank Root_Build = 5"

instantiation root_kind :: linorder
begin

definition less_eq_root_kind :: "root_kind \<Rightarrow> root_kind \<Rightarrow> bool" where
  "less_eq_root_kind a b \<longleftrightarrow> root_rank a \<le> root_rank b"

definition less_root_kind :: "root_kind \<Rightarrow> root_kind \<Rightarrow> bool" where
  "less_root_kind a b \<longleftrightarrow> root_rank a < root_rank b"

instance
proof
  fix a b :: root_kind
  show "a \<le> b \<Longrightarrow> b \<le> a \<Longrightarrow> a = b"
    by (cases a; cases b) (simp_all add: less_eq_root_kind_def)
qed (auto simp: less_eq_root_kind_def less_root_kind_def)

end

record crate_root =
  cr_file :: string
  cr_kind :: root_kind

record rust_package =
  rp_dir :: string
  rp_name :: string
  rp_lib :: "string option"
  rp_roots :: "crate_root list"

section \<open>The line scan\<close>

record cargo_manifest =
  cm_package :: "string option"
  cm_lib_name :: "string option"
  cm_lib_path :: "string option"
  cm_targets :: "(root_kind \<times> string) list"

fun array_kind :: "string \<Rightarrow> root_kind option" where
  "array_kind section =
     (if section = ''bin'' then Some Root_Bin
      else if section = ''test'' then Some Root_Test
      else if section = ''example'' then Some Root_Example
      else if section = ''bench'' then Some Root_Bench
      else None)"

text \<open>A line up to its \<open>#\<close> comment; a \<open>#\<close> inside a string stays.\<close>

fun before_comment :: "char option \<Rightarrow> string \<Rightarrow> string" where
  "before_comment quote [] = []"
| "before_comment None (c # cs) =
     (if c = QUOTE \<or> c = SINGLE_QUOTE then c # before_comment (Some c) cs
      else if c = CHR ''#'' then []
      else c # before_comment None cs)"
| "before_comment (Some q) (c # cs) = c # before_comment (if c = q then None else Some q) cs"

definition strip_comment :: "string \<Rightarrow> string" where
  "strip_comment line = before_comment None line"

definition key_value :: "string \<Rightarrow> (string \<times> string) option" where
  "key_value line =
     Option.bind (split_once CHR ''='' line) (\<lambda>(key, value).
       case trim value of
         [] \<Rightarrow> None
       | quote # rest \<Rightarrow>
           (if quote = QUOTE \<or> quote = SINGLE_QUOTE
            then map_option (\<lambda>inner. (trim key, inner)) (strip_suffix rest [quote])
            else None))"

text \<open>\<open>trim_matches\<close> over brackets and blanks, and \<open>trim_end_matches\<close> of one character.\<close>

definition trim_header :: "string \<Rightarrow> string" where
  "trim_header s =
     (let drops = dropWhile (\<lambda>c. c = CHR ''['' \<or> c = CHR '']'' \<or> c = CHR '' '') in rev (drops (rev (drops s))))"

definition trim_end_char :: "char \<Rightarrow> string \<Rightarrow> string" where
  "trim_end_char c s = rev (dropWhile (\<lambda>x. x = c) (rev s))"

record scan_state =
  sc_manifest :: cargo_manifest
  sc_section :: string
  sc_has_package :: bool

definition scan_line :: "string \<Rightarrow> scan_state \<Rightarrow> scan_state" where
  "scan_line raw st =
     (let line = trim (strip_comment (trim_end_char (char_of (13 :: nat)) raw)); m = sc_manifest st; s = sc_section st
      in case strip_prefix line ''['' of
           Some header \<Rightarrow>
             (let s' = trim_header header
              in st\<lparr>sc_section := s', sc_has_package := sc_has_package st \<or> s' = ''package''\<rparr>)
         | None \<Rightarrow>
             (case key_value line of
                None \<Rightarrow> st
              | Some (key, value) \<Rightarrow>
                  (if s = ''package'' \<and> key = ''name'' then st\<lparr>sc_manifest := m\<lparr>cm_package := Some value\<rparr>\<rparr>
                   else if s = ''lib'' \<and> key = ''name'' then st\<lparr>sc_manifest := m\<lparr>cm_lib_name := Some value\<rparr>\<rparr>
                   else if s = ''lib'' \<and> key = ''path'' then st\<lparr>sc_manifest := m\<lparr>cm_lib_path := Some value\<rparr>\<rparr>
                   else if key = ''path''
                   then (case array_kind s of
                           Some kind \<Rightarrow> st\<lparr>sc_manifest := m\<lparr>cm_targets := cm_targets m @ [(kind, value)]\<rparr>\<rparr>
                         | None \<Rightarrow> st)
                   else st)))"

definition no_manifest :: cargo_manifest where
  "no_manifest = \<lparr>cm_package = None, cm_lib_name = None, cm_lib_path = None, cm_targets = []\<rparr>"

definition scan_manifest :: "string \<Rightarrow> cargo_manifest" where
  "scan_manifest s =
     (let st = fold scan_line (text_lines s) \<lparr>sc_manifest = no_manifest, sc_section = [], sc_has_package = False\<rparr>
      in if sc_has_package st then sc_manifest st else (sc_manifest st)\<lparr>cm_package := None\<rparr>)"

section \<open>The roots of a package\<close>

text \<open>\<open>join\<close>: the path resolved lexically below \<open>dir\<close>, \<open>None\<close> when it leaves it.\<close>

definition crate_join :: "string \<Rightarrow> string \<Rightarrow> string option" where
  "crate_join dir path =
     (if starts_with path ''/'' then None
      else map_option (\<lambda>parts. let rel = str_join ''/'' parts in if dir = [] then rel else dir @ ''/'' @ rel)
             (join_segs [] (str_split CHR ''/'' path)))"

definition is_default_target :: "string \<Rightarrow> bool" where
  "is_default_target rest =
     (case split_once CHR ''/'' rest of
        None \<Rightarrow> ends_with rest ''.rs''
      | Some (name, f) \<Rightarrow> name \<noteq> [] \<and> f = ''main.rs'')"

definition add_root :: "string list \<Rightarrow> root_kind \<times> string option \<Rightarrow> crate_root list \<Rightarrow> crate_root list" where
  "add_root walked entry roots =
     (case entry of
        (kind, Some f) \<Rightarrow>
          (if f \<in> set walked \<and> \<not> list_ex (\<lambda>r. cr_file r = f) roots
           then roots @ [\<lparr>cr_file = f, cr_kind = kind\<rparr>] else roots)
      | (kind, None) \<Rightarrow> roots)"

text \<open>The default targets of one folder, in path order. \<open>walked\<close> is a set in the source.\<close>

definition default_targets :: "string \<Rightarrow> string list \<Rightarrow> string \<times> root_kind \<Rightarrow> (root_kind \<times> string option) list" where
  "default_targets dir walked entry =
     (case entry of (folder, kind) \<Rightarrow>
        (let prefix = (case crate_join dir folder of Some p \<Rightarrow> p @ ''/'' | None \<Rightarrow> [])
         in map (\<lambda>f. (kind, Some f))
              (sort (filter (\<lambda>f. case strip_prefix f prefix of Some rest \<Rightarrow> is_default_target rest | None \<Rightarrow> False)
                       (remdups walked)))))"

definition root_entries :: "string \<Rightarrow> string list \<Rightarrow> cargo_manifest \<Rightarrow> (root_kind \<times> string option) list" where
  "root_entries dir walked m =
     (Root_Lib, crate_join dir (case cm_lib_path m of Some p \<Rightarrow> p | None \<Rightarrow> ''src/lib.rs''))
     # map (\<lambda>(kind, path). (kind, crate_join dir path)) (cm_targets m)
     @ (Root_Bin, crate_join dir ''src/main.rs'')
     # concat (map (default_targets dir walked)
         [(''tests'', Root_Test), (''examples'', Root_Example), (''benches'', Root_Bench)])
     @ [(Root_Build, crate_join dir ''build.rs'')]"

definition package_of :: "string \<Rightarrow> string \<Rightarrow> string list \<Rightarrow> rust_package option" where
  "package_of dir manifest walked =
     (let m = scan_manifest manifest
      in map_option (\<lambda>name.
           let roots = sort_key (\<lambda>r. (cr_kind r, cr_file r)) (fold (add_root walked) (root_entries dir walked m) [])
           in \<lparr>rp_dir = dir, rp_name = name,
               rp_lib = (if list_ex (\<lambda>r. cr_kind r = Root_Lib) roots
                         then Some (case cm_lib_name m of Some n \<Rightarrow> n | None \<Rightarrow> str_replace_char CHR ''-'' CHR ''_'' name)
                         else None),
               rp_roots = roots\<rparr>) (cm_package m))"

section \<open>Discovery\<close>

definition manifest_dir :: "string \<Rightarrow> string" where
  "manifest_dir rel = trim_end_char CHR ''/'' (case strip_suffix rel ''Cargo.toml'' of Some d \<Rightarrow> d | None \<Rightarrow> [])"

record discovery =
  dy_packages :: "rust_package list"
  dy_digests :: "(string \<times> string) list"

definition discover_manifest ::
  "(string \<Rightarrow> string option) \<Rightarrow> (string \<Rightarrow> string) \<Rightarrow> (string \<Rightarrow> string) \<Rightarrow> string list \<Rightarrow> string \<Rightarrow> discovery \<Rightarrow> discovery" where
  "discover_manifest read lossy digest walked rel st =
     (if rel \<noteq> ''Cargo.toml'' \<and> \<not> ends_with rel ''/Cargo.toml'' then st
      else case read rel of
             None \<Rightarrow> st
           | Some bytes \<Rightarrow>
               (let st' = st\<lparr>dy_digests := AList.update rel (digest bytes) (dy_digests st)\<rparr>
                in case package_of (manifest_dir rel) (lossy bytes) walked of
                     Some p \<Rightarrow> st'\<lparr>dy_packages := dy_packages st' @ [p]\<rparr>
                   | None \<Rightarrow> st'))"

definition discover_with_digests ::
  "(string \<Rightarrow> string option) \<Rightarrow> (string \<Rightarrow> string) \<Rightarrow> (string \<Rightarrow> string) \<Rightarrow> string list \<Rightarrow> string list \<Rightarrow> (string \<times> string) list
   \<Rightarrow> rust_package list option \<times> (string \<times> string) list" where
  "discover_with_digests read lossy digest toml_files walked digests =
     (let st = fold (discover_manifest read lossy digest walked) toml_files \<lparr>dy_packages = [], dy_digests = digests\<rparr>;
          packages = sort_key rp_dir (dy_packages st)
      in (if packages = [] then None else Some packages, dy_digests st))"

text \<open>\<open>sidecar_differs\<close>; \<open>to_vec\<close> is the serializer, \<open>None\<close> when it fails.\<close>

definition sidecar_differs ::
  "(rust_package list \<Rightarrow> string option) \<Rightarrow> string option \<Rightarrow> rust_package list option \<Rightarrow> bool" where
  "sidecar_differs to_vec existing crates =
     (case (existing, crates) of
        (None, None) \<Rightarrow> False
      | (Some bytes, Some c) \<Rightarrow> (case to_vec c of None \<Rightarrow> True | Some out \<Rightarrow> bytes \<noteq> out)
      | _ \<Rightarrow> True)"

section \<open>What a root is\<close>

text \<open>The join stays below the directory: no \<open>..\<close> segment is left in what it appends.\<close>

lemma join_segs_plain:
  "join_segs parts segs = Some out \<Longrightarrow> list_all (\<lambda>p. p \<noteq> [] \<and> p \<noteq> ''.'' \<and> p \<noteq> ''..'') parts
     \<Longrightarrow> list_all (\<lambda>p. p \<noteq> [] \<and> p \<noteq> ''.'' \<and> p \<noteq> ''..'') out"
proof (induction segs arbitrary: parts)
  case (Cons seg segs)
  show ?case
  proof (cases "seg = [] \<or> seg = ''.'' \<or> seg = ''..''")
    case True
    have "list_all P (butlast xs)" if "list_all P xs" for P and xs :: "string list"
      using that by (auto simp: list_all_iff dest: in_set_butlastD)
    with True Cons show ?thesis by (auto split: if_splits)
  qed (use Cons in auto)
qed simp

lemma add_root_from:
  "r \<in> set (add_root walked e roots) \<Longrightarrow> r \<in> set roots \<or> e = (cr_kind r, Some (cr_file r)) \<and> cr_file r \<in> set walked"
  by (cases e; cases "snd e") (auto simp: add_root_def split: if_splits)

lemma add_roots_from:
  "r \<in> set (fold (add_root walked) es roots)
     \<Longrightarrow> r \<in> set roots \<or> (cr_kind r, Some (cr_file r)) \<in> set es \<and> cr_file r \<in> set walked"
proof (induction es arbitrary: roots)
  case (Cons e es)
  from Cons.IH [of "add_root walked e roots"] Cons.prems add_root_from [of r walked e roots] show ?case by auto
qed simp

lemma add_root_distinct:
  "distinct (map cr_file roots) \<Longrightarrow> distinct (map cr_file (add_root walked e roots))"
  by (cases e; cases "snd e") (auto simp: add_root_def list_ex_iff)

end
