(* ===== verification/RsTree.thy ===== *)
theory RsTree
  imports RsCrates
begin

text \<open>
  What a Rust file says (\<open>src/extract/rs_fragment_types.rs\<close>, \<open>src/extract/rs_facts_types.rs\<close>) and the module tree
  over every file (\<open>src/rsgraph/modtree.rs\<close>). A vector indexed by file number is a map from file numbers;
  the tree's nodes are a list, and a node's number is its place. The breadth-first walk of a crate ends because
  each file it queues had no node before and has one from then on.
\<close>

section \<open>What a file says\<close>

record rs_item =
  it_name :: string
  it_kind :: string
  it_path :: string
  it_line :: nat
  it_name_line :: nat
  it_end_line :: nat

record rs_impl =
  im_scope :: string
  im_self_type :: string
  im_items :: "string list"

record rs_mod_path =
  mp_item :: string
  mp_path :: "string option"

record rs_use =
  us_scope :: string
  us_block :: "nat option"
  us_path :: string
  us_name :: string
  us_line :: nat

datatype rs_role = Role_Call | Role_Value | Role_Type | Role_Lit | Role_Impl | Role_Pat

record rs_site =
  rt_role :: rs_role
  rt_path :: string
  rt_line :: nat
  rt_lines :: "nat list"
  rt_scope :: string
  rt_block :: "nat option"
  rt_self_impl :: "nat option"
  rt_self_trait :: "string option"
  rt_mac :: bool

record rs_fragment =
  rg_items :: "rs_item list"
  rg_mod_files :: "string list"
  rg_ctors :: "string list"
  rg_tests :: "string list"
  rg_impls :: "rs_impl list"
  rg_uses :: "rs_use list"
  rg_blocks :: "nat option list"
  rg_sites :: "rs_site list"
  rg_opaque_scopes :: "string list"
  rg_mod_paths :: "rs_mod_path list"

definition empty_rs_fragment :: rs_fragment where
  "empty_rs_fragment =
     \<lparr>rg_items = [], rg_mod_files = [], rg_ctors = [], rg_tests = [], rg_impls = [], rg_uses = [], rg_blocks = [],
      rg_sites = [], rg_opaque_scopes = [], rg_mod_paths = []\<rparr>"

type_synonym rs_files = "(string \<times> rs_fragment) list"

section \<open>Paths\<close>

text \<open>\<open>path.split("::")\<close> and \<open>path.rfind("::")\<close>.\<close>

fun path_segments :: "string \<Rightarrow> string list" where
  "path_segments [] = [[]]"
| "path_segments (c # cs) =
     (if starts_with (c # cs) ''::'' then [] # path_segments (drop 1 cs)
      else case path_segments cs of [] \<Rightarrow> [[c]] | p # ps \<Rightarrow> (c # p) # ps)"

fun rfind_colons :: "string \<Rightarrow> nat option" where
  "rfind_colons [] = None"
| "rfind_colons (c # cs) =
     (case rfind_colons cs of
        Some i \<Rightarrow> Some (Suc i)
      | None \<Rightarrow> if starts_with (c # cs) ''::'' then Some 0 else None)"

definition split_last :: "string \<Rightarrow> string \<times> string" where
  "split_last path = (case rfind_colons path of Some i \<Rightarrow> (take i path, drop (i + 2) path) | None \<Rightarrow> ([], path))"

definition segment_lines :: "rs_site \<Rightarrow> nat list" where
  "segment_lines s =
     (let n = length (path_segments (rt_path s))
      in if length (rt_lines s) = n then rt_lines s else replicate n (rt_line s))"

section \<open>The tree\<close>

record mod_node =
  mn_file :: nat
  mn_parent :: "nat option"
  mn_root :: nat
  mn_children :: "string \<Rightarrow> nat option"

record mod_tree =
  mt_nodes :: "mod_node list"
  mt_by_scope :: "nat \<times> string \<Rightarrow> nat option"
  mt_extern_lib :: "nat \<Rightarrow> (string \<times> nat) option"

definition node_of :: "mod_tree \<Rightarrow> nat \<Rightarrow> string \<Rightarrow> nat option" where
  "node_of t f scope = mt_by_scope t (f, scope)"

definition extern_of :: "mod_tree \<Rightarrow> nat \<Rightarrow> (string \<times> nat) option" where
  "extern_of t node = mt_extern_lib t (mn_root (mt_nodes t ! node))"

record builder =
  bd_tree :: mod_tree
  bd_file_node :: "nat \<Rightarrow> nat option"
  bd_path_owned :: "nat \<Rightarrow> bool"

text \<open>The files by path; the last of two rows of one path stays.\<close>

definition file_index :: "rs_files \<Rightarrow> string \<Rightarrow> nat option" where
  "file_index fs = map_of (rev (zip (map fst fs) [0..<length fs]))"

definition new_node :: "nat \<Rightarrow> string \<Rightarrow> nat option \<Rightarrow> nat option \<Rightarrow> builder \<Rightarrow> nat \<times> builder" where
  "new_node f prefix parent root b =
     (let t = bd_tree b; i = length (mt_nodes t)
      in (i, b\<lparr>bd_tree := t\<lparr>
        mt_nodes := mt_nodes t @ [\<lparr>mn_file = f, mn_parent = parent, mn_root = (case root of Some r \<Rightarrow> r | None \<Rightarrow> i), mn_children = (\<lambda>_. None)\<rparr>],
        mt_by_scope := (mt_by_scope t)((f, prefix) \<mapsto> i)\<rparr>\<rparr>))"

definition default_folder :: "rs_files \<Rightarrow> builder \<Rightarrow> nat \<Rightarrow> string \<Rightarrow> nat \<Rightarrow> string" where
  "default_folder fs b f prefix root =
     (let path = fst (fs ! f);
          (dir, base) = (case str_rfind path CHR ''/'' of Some i \<Rightarrow> (take i path, drop (i + 1) path) | None \<Rightarrow> ([], path));
          owns_dir = (base = ''mod.rs'' \<or> bd_file_node b f = Some root \<or> bd_path_owned b f);
          stem = (case strip_suffix base ''.rs'' of Some s \<Rightarrow> s | None \<Rightarrow> base)
      in str_join ''/''
           ((if dir = [] then [] else [dir]) @ (if owns_dir then [] else [stem])
            @ filter (\<lambda>p. p \<noteq> []) (path_segments prefix)))"

definition module_file :: "rs_files \<Rightarrow> builder \<Rightarrow> nat \<Rightarrow> string \<Rightarrow> string \<Rightarrow> nat \<Rightarrow> nat option" where
  "module_file fs b f prefix name root =
     (let folder = default_folder fs b f prefix root;
          under = (\<lambda>tail. if folder = [] then tail else folder @ ''/'' @ tail);
          flat = file_index fs (under (name @ ''.rs''));
          nested = file_index fs (under (name @ ''/mod.rs''))
      in case (flat, nested) of
           (Some t, None) \<Rightarrow> Some t
         | (None, Some t) \<Rightarrow> Some t
         | _ \<Rightarrow> None)"

definition attribute_file :: "rs_files \<Rightarrow> builder \<Rightarrow> nat \<Rightarrow> string \<Rightarrow> string \<Rightarrow> nat \<Rightarrow> nat option" where
  "attribute_file fs b f prefix literal root =
     (let end_part = last (str_split CHR ''/'' literal)
      in if starts_with literal ''/'' \<or> end_part \<in> {[], ''.'', ''..''} then None
         else let folder = (if prefix = [] then dir_of (fst (fs ! f)) else default_folder fs b f prefix root);
                  joined = (if folder = [] then literal else folder @ ''/'' @ literal)
              in Option.bind (crate_join [] joined) (file_index fs))"

text \<open>
  One \<open>mod x;\<close> declaration, the fields of \<open>Decl\<close> as arguments: \<open>path\<close> is \<open>None\<close> without a path
  attribute, \<open>Some None\<close> when its value cannot be read.
\<close>

definition declared_target ::
  "rs_files \<Rightarrow> builder \<Rightarrow> nat \<Rightarrow> string \<Rightarrow> string \<Rightarrow> string option option \<Rightarrow> nat \<Rightarrow> nat option" where
  "declared_target fs b f prefix name path root =
     (case path of
        Some literal \<Rightarrow> Option.bind literal (\<lambda>l. attribute_file fs b f prefix l root)
      | None \<Rightarrow> module_file fs b f prefix name root)"

definition declared_file ::
  "rs_files \<Rightarrow> nat \<Rightarrow> string \<Rightarrow> string \<Rightarrow> string option option \<Rightarrow> nat \<Rightarrow> nat \<Rightarrow> builder \<times> nat list
   \<Rightarrow> nat option \<times> builder \<times> nat list" where
  "declared_file fs f prefix name path parent root st =
     (case st of (b, queue) \<Rightarrow>
        case declared_target fs b f prefix name path root of
          None \<Rightarrow> (None, b, queue)
        | Some t \<Rightarrow>
            (case bd_file_node b t of
               Some existing \<Rightarrow> (Some existing, b, queue)
             | None \<Rightarrow>
                 (case new_node t [] (Some parent) (Some root) b of (node, b') \<Rightarrow>
                    (Some node,
                     b'\<lparr>bd_file_node := (bd_file_node b')(t \<mapsto> node),
                        bd_path_owned := (bd_path_owned b')(t := path \<noteq> None)\<rparr>,
                     queue @ [node]))))"

definition add_child :: "nat \<Rightarrow> string \<Rightarrow> nat \<Rightarrow> builder \<Rightarrow> builder" where
  "add_child parent name child b =
     (let t = bd_tree b; n = mt_nodes t ! parent
      in b\<lparr>bd_tree := t\<lparr>mt_nodes := (mt_nodes t)[parent :=
           n\<lparr>mn_children := (case mn_children n name of Some _ \<Rightarrow> mn_children n | None \<Rightarrow> (mn_children n)(name \<mapsto> child))\<rparr>]\<rparr>\<rparr>)"

definition item_path_fact :: "rs_fragment \<Rightarrow> string \<Rightarrow> string option option" where
  "item_path_fact frag path = map_of (rev (map (\<lambda>m. (mp_item m, mp_path m)) (rg_mod_paths frag))) path"

definition expand_item ::
  "rs_files \<Rightarrow> nat \<Rightarrow> nat \<Rightarrow> rs_fragment \<Rightarrow> rs_item \<Rightarrow> builder \<times> nat list \<Rightarrow> builder \<times> nat list" where
  "expand_item fs f root frag item st =
     (let prefix = fst (split_last (it_path item))
      in case node_of (bd_tree (fst st)) f prefix of
           None \<Rightarrow> st
         | Some parent \<Rightarrow>
             (case (if it_path item \<in> set (rg_mod_files frag)
                    then declared_file fs f prefix (it_name item) (item_path_fact frag (it_path item)) parent root st
                    else case new_node f (it_path item) (Some parent) (Some root) (fst st) of
                           (node, b) \<Rightarrow> (Some node, b, snd st)) of
                (Some child, b, queue) \<Rightarrow> (add_child parent (it_name item) child b, queue)
              | (None, b, queue) \<Rightarrow> (b, queue)))"

definition expand_file :: "rs_files \<Rightarrow> nat \<Rightarrow> builder \<times> nat list \<Rightarrow> builder \<times> nat list" where
  "expand_file fs file_root st =
     (let n = mt_nodes (bd_tree (fst st)) ! file_root; frag = snd (fs ! mn_file n)
      in fold (expand_item fs (mn_file n) (mn_root n) frag) (filter (\<lambda>i. it_kind i = ''mod'') (rg_items frag)) st)"

section \<open>The walk ends\<close>

definition unplaced :: "rs_files \<Rightarrow> builder \<Rightarrow> nat set" where
  "unplaced fs b = {f. f < length fs \<and> bd_file_node b f = None}"

definition walk_left :: "rs_files \<Rightarrow> builder \<times> nat list \<Rightarrow> nat" where
  "walk_left fs st = card (unplaced fs (fst st)) + length (snd st)"

lemma file_index_less: "file_index fs rel = Some f \<Longrightarrow> f < length fs \<and> fst (fs ! f) = rel"
  by (auto simp: file_index_def dest!: map_of_SomeD simp: set_zip)

lemma declared_target_less:
  "declared_target fs b f prefix name path root = Some t \<Longrightarrow> t < length fs"
  by (auto simp: declared_target_def attribute_file_def module_file_def Let_def bind_eq_Some_conv
      dest: file_index_less split: option.splits if_splits)

lemma finite_unplaced [simp]: "finite (unplaced fs b)"
  by (simp add: unplaced_def)

lemma unplaced_new_node [simp]: "unplaced fs (snd (new_node f prefix parent root b)) = unplaced fs b"
  by (simp add: new_node_def unplaced_def Let_def)

lemma unplaced_add_child [simp]: "unplaced fs (add_child parent name child b) = unplaced fs b"
  by (simp add: add_child_def unplaced_def Let_def)

lemma declared_file_left:
  "declared_file fs f prefix name path parent root st = (child, st') \<Longrightarrow> walk_left fs st' \<le> walk_left fs st"
proof -
  assume eq: "declared_file fs f prefix name path parent root st = (child, st')"
  obtain b queue where st: "st = (b, queue)" by (cases st)
  show ?thesis
  proof (cases "declared_target fs b f prefix name path root")
    case (Some t)
    show ?thesis
    proof (cases "bd_file_node b t")
      case None
      obtain node b' where nn: "new_node t [] (Some parent) (Some root) b = (node, b')"
        by (cases "new_node t [] (Some parent) (Some root) b")
      from nn have same: "bd_file_node b' = bd_file_node b" by (auto simp: new_node_def Let_def)
      have "unplaced fs (b'\<lparr>bd_file_node := (bd_file_node b')(t \<mapsto> node), bd_path_owned := ow\<rparr>) = unplaced fs b - {t}" for ow
        using same by (auto simp: unplaced_def)
      moreover have "t \<in> unplaced fs b" using declared_target_less [OF Some] None by (simp add: unplaced_def)
      moreover have "0 < card (unplaced fs b)" using calculation(2) by (auto simp: card_gt_0_iff)
      ultimately show ?thesis using eq st Some None nn by (auto simp: declared_file_def walk_left_def)
    qed (use eq st Some in \<open>simp add: declared_file_def\<close>)
  qed (use eq st in \<open>simp add: declared_file_def\<close>)
qed

lemma expand_item_left: "walk_left fs (expand_item fs f root frag item st) \<le> walk_left fs st"
proof -
  have nn: "walk_left fs (b, snd st) = walk_left fs st"
    if "new_node f p q r (fst st) = (node, b)" for p q r node b
    using that unplaced_new_node [of fs f p q r "fst st"] by (simp add: walk_left_def)
  have ac: "walk_left fs (add_child parent name child b, q) = walk_left fs (b, q)" for parent name child b q
    by (simp add: walk_left_def)
  show ?thesis
    by (auto simp: expand_item_def Let_def ac split: option.splits prod.splits if_splits dest: declared_file_left nn)
qed

lemma expand_file_left: "walk_left fs (expand_file fs node st) \<le> walk_left fs st"
proof -
  have "walk_left fs (fold (expand_item fs f root frag) items st) \<le> walk_left fs st" for f root frag items
  proof (induction items arbitrary: st)
    case (Cons i items)
    from Cons [of "expand_item fs f root frag i st"] expand_item_left [of fs f root frag i st] show ?case by simp
  qed simp
  then show ?thesis by (simp add: expand_file_def Let_def)
qed

function walk_queue :: "rs_files \<Rightarrow> nat list \<Rightarrow> builder \<Rightarrow> builder" where
  "walk_queue fs [] b = b"
| "walk_queue fs (node # queue) b = (case expand_file fs node (b, queue) of (b', queue') \<Rightarrow> walk_queue fs queue' b')"
  by pat_completeness auto
termination
proof (relation "measure (\<lambda>(fs, queue, b). walk_left fs (b, queue))", goal_cases)
  case (2 fs node queue b b' queue')
  then have "expand_file fs node (b, queue) = (b', queue')" by simp
  with expand_file_left [of fs node "(b, queue)"] show ?case by (simp add: walk_left_def)
qed simp

declare walk_queue.simps [simp del]

section \<open>Building\<close>

definition walk_root :: "rs_files \<Rightarrow> nat \<Rightarrow> builder \<Rightarrow> nat \<times> builder" where
  "walk_root fs f b =
     (case new_node f [] None None b of (root, b') \<Rightarrow>
        (root, walk_queue fs [root] (b'\<lparr>bd_file_node := (bd_file_node b')(f \<mapsto> root)\<rparr>)))"

text \<open>The roots in walking order, each with the library its package names for it.\<close>

definition is_root_name :: "string \<Rightarrow> bool" where
  "is_root_name rel \<longleftrightarrow> last (str_split CHR ''/'' rel) \<in> {''lib.rs'', ''main.rs''}"

definition package_roots :: "rs_files \<Rightarrow> rust_package \<Rightarrow> (nat \<times> (string \<times> nat) option) list" where
  "package_roots fs p =
     (let lib_file = Option.bind (List.find (\<lambda>r. cr_kind r = Root_Lib) (rp_roots p)) (\<lambda>r. file_index fs (cr_file r))
      in List.map_filter (\<lambda>r.
           map_option (\<lambda>f.
             (f, case (rp_lib p, lib_file) of
                   (Some name, Some lib) \<Rightarrow>
                     if cr_kind r \<in> {Root_Bin, Root_Test, Root_Example, Root_Bench} then Some (name, lib) else None
                 | _ \<Rightarrow> None)) (file_index fs (cr_file r))) (rp_roots p))"

definition declared_roots :: "rs_files \<Rightarrow> rust_package list option \<Rightarrow> (nat \<times> (string \<times> nat) option) list" where
  "declared_roots fs crates =
     (case crates of
        None \<Rightarrow> map (\<lambda>f. (f, None)) (sort_key (\<lambda>f. fst (fs ! f)) (filter (\<lambda>f. is_root_name (fst (fs ! f))) [0..<length fs]))
      | Some packages \<Rightarrow> concat (map (package_roots fs) packages))"

definition walk_declared :: "rs_files \<Rightarrow> nat \<times> (string \<times> nat) option \<Rightarrow> builder \<Rightarrow> builder" where
  "walk_declared fs entry b =
     (case entry of (f, lib) \<Rightarrow>
        if bd_file_node b f \<noteq> None then b
        else case walk_root fs f b of (root, b') \<Rightarrow>
          (case lib of
             None \<Rightarrow> b'
           | Some l \<Rightarrow> b'\<lparr>bd_tree := (bd_tree b')\<lparr>mt_extern_lib := (mt_extern_lib (bd_tree b'))(root \<mapsto> l)\<rparr>\<rparr>))"

definition resolve_externs :: "builder \<Rightarrow> builder" where
  "resolve_externs b =
     b\<lparr>bd_tree := (bd_tree b)\<lparr>mt_extern_lib :=
        (\<lambda>root. case mt_extern_lib (bd_tree b) root of
                  None \<Rightarrow> None
                | Some (name, lib_file) \<Rightarrow> map_option (\<lambda>node. (name, node)) (bd_file_node b lib_file))\<rparr>\<rparr>"

definition walk_orphan :: "rs_files \<Rightarrow> nat \<Rightarrow> builder \<Rightarrow> builder" where
  "walk_orphan fs f b = (if bd_file_node b f = None then snd (walk_root fs f b) else b)"

definition empty_builder :: builder where
  "empty_builder =
     \<lparr>bd_tree = \<lparr>mt_nodes = [], mt_by_scope = (\<lambda>_. None), mt_extern_lib = (\<lambda>_. None)\<rparr>,
      bd_file_node = (\<lambda>_. None), bd_path_owned = (\<lambda>_. False)\<rparr>"

definition build_all :: "rs_files \<Rightarrow> rust_package list option \<Rightarrow> builder" where
  "build_all fs crates =
     fold (walk_orphan fs) (sort_key (\<lambda>f. fst (fs ! f)) [0..<length fs])
       (resolve_externs (fold (walk_declared fs) (declared_roots fs crates) empty_builder))"

definition build_tree :: "rs_files \<Rightarrow> rust_package list option \<Rightarrow> mod_tree" where
  "build_tree fs crates = bd_tree (build_all fs crates)"

end
