(* ===== verification/RsScope.thy ===== *)
theory RsScope
  imports RsTree TsScopes
begin

text \<open>
  The Rust name tables (\<open>src/rsgraph/scope.rs\<close>): what each module and each recorded block binds, and the lookup of
  a name inside a module, through its globs, and in the blocks around a place. A table indexed by module
  number is a map from module numbers. A lookup returns with its answer the modules it consulted,
  which the source appends to a caller's list. The search through globs ends because a module is looked into once.
\<close>

section \<open>Targets and tables\<close>

datatype target = T_Module nat | T_Def nat

datatype ns = Ns_Type | Ns_Value

record def_ref =
  rd_file :: nat
  rd_rel :: string
  rd_id :: string
  rd_name :: string
  rd_kind :: string
  rd_path :: string

definition TYPE_KINDS :: "string list" where
  "TYPE_KINDS = [''struct'', ''enum'', ''union'', ''trait'', ''type'']"

definition is_type :: "def_ref \<Rightarrow> bool" where
  "is_type d \<longleftrightarrow> rd_kind d \<in> set TYPE_KINDS"

record bound =
  bn_types :: "target list"
  bn_values :: "target list"

definition no_bound :: bound where
  "no_bound = \<lparr>bn_types = [], bn_values = []\<rparr>"

fun bound_get :: "ns \<Rightarrow> bound \<Rightarrow> target list" where
  "bound_get Ns_Type b = bn_types b"
| "bound_get Ns_Value b = bn_values b"

fun bound_push :: "ns \<Rightarrow> target \<Rightarrow> bound \<Rightarrow> bound" where
  "bound_push Ns_Type t b = (if t \<in> set (bn_types b) then b else b\<lparr>bn_types := bn_types b @ [t]\<rparr>)"
| "bound_push Ns_Value t b = (if t \<in> set (bn_values b) then b else b\<lparr>bn_values := bn_values b @ [t]\<rparr>)"

definition bound_empty :: "bound \<Rightarrow> bool" where
  "bound_empty b \<longleftrightarrow> bn_types b = [] \<and> bn_values b = []"

record leaf =
  lf_file :: nat
  lf_module :: nat
  lf_block :: "nat option"
  lf_segments :: "string list"
  lf_name :: string

definition is_glob :: "leaf \<Rightarrow> bool" where
  "is_glob l \<longleftrightarrow> lf_name l = ''*''"

datatype level = Level_Found "target list" | Level_Shadowed | Level_Empty

record tables =
  tb_defs :: "def_ref list"
  tb_def_by_path :: "nat \<times> string \<Rightarrow> nat option"
  tb_items :: "nat \<Rightarrow> string \<Rightarrow> bound option"
  tb_leaves :: "leaf list"
  tb_module_named :: "nat \<Rightarrow> string \<Rightarrow> nat list option"
  tb_module_globs :: "nat \<Rightarrow> nat list"
  tb_block_named :: "nat \<times> nat \<Rightarrow> string \<Rightarrow> nat list option"
  tb_block_globs :: "nat \<times> nat \<Rightarrow> nat list option"
  tb_block_parent :: "nat option list list"
  tb_resolved :: "bound list"
  tb_assoc :: "nat \<Rightarrow> string \<Rightarrow> nat list option"
  tb_impl_self :: "nat \<times> nat \<Rightarrow> nat option"
  tb_opaque_modules :: "nat \<Rightarrow> bool"

section \<open>Building the tables\<close>

definition rs_def_id :: "string \<Rightarrow> string \<Rightarrow> string" where
  "rs_def_id f path = f @ ''#'' @ path"

text \<open>The binding one item adds to its module's table.\<close>

definition item_bound :: "mod_tree \<Rightarrow> nat \<Rightarrow> string list \<Rightarrow> rs_item \<Rightarrow> nat \<Rightarrow> bound \<Rightarrow> bound" where
  "item_bound tree module ctors item i b =
     (if it_kind item = ''mod''
      then (case mn_children (mt_nodes tree ! module) (it_name item) of
              Some child \<Rightarrow> bound_push Ns_Type (T_Module child) b
            | None \<Rightarrow> b)
      else if it_kind item \<in> set TYPE_KINDS
      then (let b' = bound_push Ns_Type (T_Def i) b
            in if it_path item \<in> set ctors then bound_push Ns_Value (T_Def i) b' else b')
      else if it_kind item \<in> {''fn'', ''const'', ''static''} then bound_push Ns_Value (T_Def i) b
      else b)"

definition add_item :: "mod_tree \<Rightarrow> nat \<Rightarrow> string \<Rightarrow> rs_fragment \<Rightarrow> rs_item \<Rightarrow> tables \<Rightarrow> tables" where
  "add_item tree f rel frag item t =
     (let i = length (tb_defs t);
          t' = t\<lparr>tb_defs := tb_defs t @ [\<lparr>rd_file = f, rd_rel = rel, rd_id = rs_def_id rel (it_path item),
                   rd_name = it_name item, rd_kind = it_kind item, rd_path = it_path item\<rparr>],
                 tb_def_by_path := (tb_def_by_path t)((f, it_path item) \<mapsto> i)\<rparr>
      in case node_of tree f (fst (split_last (it_path item))) of
           None \<Rightarrow> t'
         | Some module \<Rightarrow>
             (let row = tb_items t' module;
                  entry = (case row (it_name item) of Some b \<Rightarrow> b | None \<Rightarrow> no_bound)
              in t'\<lparr>tb_items := (tb_items t')(module :=
                   row(it_name item \<mapsto> item_bound tree module (rg_ctors frag) item i entry))\<rparr>))"

text \<open>Pushing onto a list a table holds under a key, a new list when it holds none.\<close>

definition push_at :: "'k \<Rightarrow> nat \<Rightarrow> ('k \<Rightarrow> nat list option) \<Rightarrow> ('k \<Rightarrow> nat list option)" where
  "push_at k i m = m(k \<mapsto> (case m k of Some xs \<Rightarrow> xs @ [i] | None \<Rightarrow> [i]))"

definition add_leaf :: "mod_tree \<Rightarrow> nat \<Rightarrow> rs_use \<Rightarrow> tables \<Rightarrow> tables" where
  "add_leaf tree f u t =
     (case node_of tree f (us_scope u) of
        None \<Rightarrow> t
      | Some module \<Rightarrow>
          (let i = length (tb_leaves t);
               t' = t\<lparr>tb_leaves := tb_leaves t @ [\<lparr>lf_file = f, lf_module = module, lf_block = us_block u,
                        lf_segments = path_segments (us_path u), lf_name = us_name u\<rparr>]\<rparr>
           in case (us_block u, us_name u = ''*'') of
                (None, True) \<Rightarrow> t'\<lparr>tb_module_globs := (tb_module_globs t')(module := tb_module_globs t' module @ [i])\<rparr>
              | (None, False) \<Rightarrow>
                  t'\<lparr>tb_module_named := (tb_module_named t')(module := push_at (us_name u) i (tb_module_named t' module))\<rparr>
              | (Some b, True) \<Rightarrow> t'\<lparr>tb_block_globs := push_at (f, b) i (tb_block_globs t')\<rparr>
              | (Some b, False) \<Rightarrow>
                  t'\<lparr>tb_block_named := (tb_block_named t')((f, b) := push_at (us_name u) i (tb_block_named t' (f, b)))\<rparr>))"

definition add_opaque :: "mod_tree \<Rightarrow> nat \<Rightarrow> string \<Rightarrow> tables \<Rightarrow> tables" where
  "add_opaque tree f scope t =
     (case node_of tree f scope of
        Some module \<Rightarrow> t\<lparr>tb_opaque_modules := (tb_opaque_modules t)(module := True)\<rparr>
      | None \<Rightarrow> t)"

definition add_fragment :: "mod_tree \<Rightarrow> nat \<times> string \<times> rs_fragment \<Rightarrow> tables \<Rightarrow> tables" where
  "add_fragment tree row t =
     (case row of (f, rel, frag) \<Rightarrow>
        fold (add_opaque tree f) (rg_opaque_scopes frag)
          (fold (add_leaf tree f) (rg_uses frag) (fold (add_item tree f rel frag) (rg_items frag) t)))"

definition empty_tables :: "rs_files \<Rightarrow> tables" where
  "empty_tables fs =
     \<lparr>tb_defs = [], tb_def_by_path = (\<lambda>_. None), tb_items = (\<lambda>_ _. None), tb_leaves = [],
      tb_module_named = (\<lambda>_ _. None), tb_module_globs = (\<lambda>_. []), tb_block_named = (\<lambda>_ _. None),
      tb_block_globs = (\<lambda>_. None), tb_block_parent = map (\<lambda>(_, frag). rg_blocks frag) fs, tb_resolved = [],
      tb_assoc = (\<lambda>_ _. None), tb_impl_self = (\<lambda>_. None), tb_opaque_modules = (\<lambda>_. False)\<rparr>"

text \<open>The rows of every file with its number, \<open>enumerate()\<close>.\<close>

definition numbered :: "rs_files \<Rightarrow> (nat \<times> string \<times> rs_fragment) list" where
  "numbered fs = zip [0..<length fs] fs"

definition scope_tables :: "rs_files \<Rightarrow> mod_tree \<Rightarrow> tables" where
  "scope_tables fs tree =
     (let t = fold (add_fragment tree) (numbered fs) (empty_tables fs)
      in t\<lparr>tb_resolved := replicate (length (tb_leaves t)) no_bound\<rparr>)"

section \<open>One level\<close>

definition extend_unique :: "target list \<Rightarrow> target list \<Rightarrow> target list" where
  "extend_unique out more_targets = fold (\<lambda>t out. if t \<in> set out then out else out @ [t]) more_targets out"

text \<open>What a leaf is resolved to; a leaf number the tables hold is in range.\<close>

definition leaf_bound :: "tables \<Rightarrow> nat \<Rightarrow> bound" where
  "leaf_bound t l = (if l < length (tb_resolved t) then tb_resolved t ! l else no_bound)"

definition level_of :: "tables \<Rightarrow> ns \<Rightarrow> nat list \<Rightarrow> target list \<Rightarrow> level" where
  "level_of t ns leaves found =
     (let found' = fold (\<lambda>l out. extend_unique out (bound_get ns (leaf_bound t l))) leaves found;
          shadow = list_ex (\<lambda>l. bound_empty (leaf_bound t l)) leaves
      in if found' \<noteq> [] then Level_Found found' else if shadow then Level_Shadowed else Level_Empty)"

definition explicit :: "tables \<Rightarrow> nat \<Rightarrow> string \<Rightarrow> ns \<Rightarrow> level" where
  "explicit t module name ns =
     level_of t ns (case tb_module_named t module name of Some ls \<Rightarrow> ls | None \<Rightarrow> [])
       (case tb_items t module name of Some b \<Rightarrow> bound_get ns b | None \<Rightarrow> [])"

section \<open>Through globs\<close>

fun target_module :: "target \<Rightarrow> nat option" where
  "target_module (T_Module m) = Some m"
| "target_module (T_Def _) = None"

definition glob_modules :: "tables \<Rightarrow> nat \<Rightarrow> nat list" where
  "glob_modules t g = List.map_filter target_module (bn_types (leaf_bound t g))"

definition glob_targets :: "tables \<Rightarrow> nat list \<Rightarrow> nat list \<times> bool" where
  "glob_targets t globs = (concat (map (glob_modules t) globs), list_ex (\<lambda>g. glob_modules t g = []) globs)"

record glob_state =
  gl_found :: "target list"
  gl_opaque :: bool
  gl_probes :: "nat list"

text \<open>One module of the queue: what it adds to the answer, and the modules its own globs lead to.\<close>

definition glob_step :: "tables \<Rightarrow> string \<Rightarrow> ns \<Rightarrow> nat \<Rightarrow> glob_state \<Rightarrow> nat list \<times> glob_state" where
  "glob_step t name ns m st =
     (let st = st\<lparr>gl_probes := gl_probes st @ [m]\<rparr>
      in case explicit t m name ns of
           Level_Found v \<Rightarrow> ([], st\<lparr>gl_found := extend_unique (gl_found st) v\<rparr>)
         | Level_Shadowed \<Rightarrow> ([], st\<lparr>gl_opaque := True\<rparr>)
         | Level_Empty \<Rightarrow>
             (case glob_targets t (tb_module_globs t m) of (next_modules, unlisted) \<Rightarrow>
                (next_modules, st\<lparr>gl_opaque := gl_opaque st \<or> tb_opaque_modules t m \<or> unlisted\<rparr>)))"

definition bound_modules :: "tables \<Rightarrow> nat set" where
  "bound_modules t = (\<Union>b \<in> set (tb_resolved t). set (List.map_filter target_module (bn_types b)))"

lemma glob_modules_bound: "set (glob_modules t g) \<subseteq> bound_modules t"
  by (force simp: glob_modules_def leaf_bound_def bound_modules_def no_bound_def set_filtered)

lemma glob_targets_bound: "set (fst (glob_targets t globs)) \<subseteq> bound_modules t"
  using glob_modules_bound by (fastforce simp: glob_targets_def)

lemma glob_step_bound: "set (fst (glob_step t name ns m st)) \<subseteq> bound_modules t"
  using glob_targets_bound [of t "tb_module_globs t m"]
  by (auto simp: glob_step_def Let_def split: level.splits prod.splits)

lemma finite_bound_modules [simp]: "finite (bound_modules t)"
  by (simp add: bound_modules_def)

function glob_search :: "tables \<Rightarrow> string \<Rightarrow> ns \<Rightarrow> nat list \<Rightarrow> nat set \<Rightarrow> glob_state \<Rightarrow> glob_state" where
  "glob_search t name ns [] seen st = st"
| "glob_search t name ns (m # queue) seen st =
     (if m \<in> seen then glob_search t name ns queue seen st
      else case glob_step t name ns m st of (next_modules, st') \<Rightarrow> glob_search t name ns (queue @ next_modules) (insert m seen) st')"
  by pat_completeness auto
termination
proof (relation "measures [\<lambda>(t, name, ns, queue, seen, st). card ((bound_modules t \<union> set queue) - seen),
                           \<lambda>(t, name, ns, queue, seen, st). length queue]", goal_cases)
  case (2 t name ns m queue seen st)
  then have "(bound_modules t \<union> set (m # queue)) - seen = (bound_modules t \<union> set queue) - seen" by auto
  then show ?case by simp
next
  case (3 t name ns m queue seen st next_modules st')
  from glob_step_bound [of t name ns m st] 3 have "set next_modules \<subseteq> bound_modules t"
    by (metis fst_conv)
  then have "(bound_modules t \<union> set (queue @ next_modules)) - insert m seen \<subset> (bound_modules t \<union> set (m # queue)) - seen"
    using 3(1) by auto
  then show ?case by (simp add: psubset_card_mono)
qed simp

declare glob_search.simps [simp del]

text \<open>
  \<open>through_globs\<close> without its cache; the record holds the answer and the modules consulted.
\<close>

definition through_globs :: "tables \<Rightarrow> nat list \<Rightarrow> string \<Rightarrow> ns \<Rightarrow> glob_state" where
  "through_globs t globs name ns =
     (case glob_targets t globs of (queue, unlisted) \<Rightarrow>
        glob_search t name ns queue {} \<lparr>gl_found = [], gl_opaque = unlisted, gl_probes = []\<rparr>)"

text \<open>The cache: an answer is kept under the place of its globs, the namespace and the name.\<close>

datatype glob_root = Glob_Module nat | Glob_Block nat nat

type_synonym glob_cache = "glob_root \<times> ns \<times> string \<Rightarrow> glob_state option"

fun root_globs :: "tables \<Rightarrow> glob_root \<Rightarrow> nat list" where
  "root_globs t (Glob_Module m) = tb_module_globs t m"
| "root_globs t (Glob_Block f b) = (case tb_block_globs t (f, b) of Some gs \<Rightarrow> gs | None \<Rightarrow> [])"

definition cached_globs :: "tables \<Rightarrow> glob_root \<Rightarrow> string \<Rightarrow> ns \<Rightarrow> glob_cache \<Rightarrow> glob_state \<times> glob_cache" where
  "cached_globs t root name ns cache =
     (case cache (root, ns, name) of
        Some hit \<Rightarrow> (hit, cache)
      | None \<Rightarrow> (let out = through_globs t (root_globs t root) name ns in (out, cache((root, ns, name) \<mapsto> out))))"

definition cache_ok :: "tables \<Rightarrow> glob_cache \<Rightarrow> bool" where
  "cache_ok t cache \<longleftrightarrow>
     (\<forall>root ns name out. cache (root, ns, name) = Some out \<longrightarrow> out = through_globs t (root_globs t root) name ns)"

text \<open>
  As long as the tables stay, the cache changes no answer; it is emptied when a leaf's binding changes, so the
  model's lookups leave it out.
\<close>

lemma cached_globs_exact:
  assumes "cache_ok t cache"
  shows "fst (cached_globs t root name ns cache) = through_globs t (root_globs t root) name ns
    \<and> cache_ok t (snd (cached_globs t root name ns cache))"
  using assms by (auto simp: cached_globs_def cache_ok_def Let_def split: option.splits)

lemma emptied_cache_ok: "cache_ok t (\<lambda>_. None)"
  by (simp add: cache_ok_def)

section \<open>In a module and in blocks\<close>

definition globbed :: "glob_state \<Rightarrow> bool \<Rightarrow> target list option" where
  "globbed g imported =
     (if gl_opaque g then (if imported \<and> gl_found g = [] then None else Some [])
      else if gl_found g \<noteq> [] then Some (gl_found g) else None)"

definition in_module :: "tables \<Rightarrow> nat \<Rightarrow> string \<Rightarrow> ns \<Rightarrow> bool \<Rightarrow> target list option \<times> nat list" where
  "in_module t module name ns imported =
     (case explicit t module name ns of
        Level_Found v \<Rightarrow> (Some v, [module])
      | Level_Shadowed \<Rightarrow> (Some [], [module])
      | Level_Empty \<Rightarrow>
          (if tb_opaque_modules t module then (if imported then None else Some [], [module])
           else let g = through_globs t (tb_module_globs t module) name ns
                in (globbed g imported, module # gl_probes g)))"

text \<open>\<open>n\<close> is the number of rounds the guard leaves.\<close>

fun blocks_from ::
  "tables \<Rightarrow> nat \<Rightarrow> nat \<Rightarrow> nat option \<Rightarrow> string \<Rightarrow> ns \<Rightarrow> bool \<Rightarrow> target list option \<times> nat list" where
  "blocks_from t f n None name ns imported = (None, [])"
| "blocks_from t f 0 (Some b) name ns imported = (None, [])"
| "blocks_from t f (Suc n) (Some b) name ns imported =
     (case level_of t ns (case tb_block_named t (f, b) name of Some ls \<Rightarrow> ls | None \<Rightarrow> []) [] of
        Level_Found v \<Rightarrow> (Some v, [])
      | Level_Shadowed \<Rightarrow> (Some [], [])
      | Level_Empty \<Rightarrow>
          (let (hit, probes) =
             (case tb_block_globs t (f, b) of
                Some globs \<Rightarrow> (let g = through_globs t globs name ns in (globbed g imported, gl_probes g))
              | None \<Rightarrow> (None, []));
             parent = (case get (tb_block_parent t ! f) b of Some p \<Rightarrow> p | None \<Rightarrow> None)
           in case hit of
                Some v \<Rightarrow> (Some v, probes)
              | None \<Rightarrow> (case blocks_from t f n parent name ns imported of (v, more_probes) \<Rightarrow> (v, probes @ more_probes))))"

definition in_blocks ::
  "tables \<Rightarrow> nat \<Rightarrow> nat option \<Rightarrow> string \<Rightarrow> ns \<Rightarrow> bool \<Rightarrow> target list option \<times> nat list" where
  "in_blocks t f block name ns imported =
     blocks_from t f (Suc (length (tb_block_parent t ! f))) block name ns imported"

end
