(* ===== verification/RsBind.thy ===== *)
theory RsBind
  imports RsScope
begin

text \<open>
  Path binding (\<open>src/rsgraph/bind.rs\<close>): a path's segments bound one after the other, the \<open>use\<close> leaves
  resolved by a worklist within its budget, the associated items of types and traits. What a lookup consulted is
  returned beside its answer. The table of dependents holds a set of leaves per module.
\<close>

section \<open>A path\<close>

datatype bind_step = Step_Skip | Step_Bound target | Step_Ambiguous "target list" | Step_Nothing

record bind_from =
  bf_module :: nat
  bf_file :: nat
  bf_block :: "nat option"
  bf_self_def :: "nat option"
  bf_import :: bool

definition extern_named :: "mod_tree \<Rightarrow> nat \<Rightarrow> string \<Rightarrow> nat option" where
  "extern_named tree module name =
     (case extern_of tree module of
        Some (lib, root) \<Rightarrow> if lib = name then Some root else None
      | None \<Rightarrow> None)"

definition parent_targets :: "mod_tree \<Rightarrow> nat \<Rightarrow> target list" where
  "parent_targets tree module =
     (case mn_parent (mt_nodes tree ! module) of Some p \<Rightarrow> [T_Module p] | None \<Rightarrow> [])"

definition in_scope :: "mod_tree \<Rightarrow> tables \<Rightarrow> bind_from \<Rightarrow> string \<Rightarrow> ns \<Rightarrow> target list \<times> nat list" where
  "in_scope tree t fr name ns =
     (case in_blocks t (bf_file fr) (bf_block fr) name ns (bf_import fr) of
        (Some v, probes) \<Rightarrow> (v, probes)
      | (None, probes) \<Rightarrow>
          (case in_module t (bf_module fr) name ns (bf_import fr) of
             (Some v, more_probes) \<Rightarrow> (v, probes @ more_probes)
           | (None, more_probes) \<Rightarrow>
               (case (ns, extern_named tree (bf_module fr) name) of
                  (Ns_Type, Some root) \<Rightarrow> [T_Module root]
                | _ \<Rightarrow> [], probes @ more_probes)))"

definition associated :: "tables \<Rightarrow> nat \<Rightarrow> string \<Rightarrow> ns \<Rightarrow> target list" where
  "associated t d name ns =
     (let r = tb_defs t ! d
      in if \<not> is_type r \<or> rd_kind r = ''type'' then []
         else case tb_assoc t d name of
                None \<Rightarrow> []
              | Some items \<Rightarrow>
                  map T_Def (filter (\<lambda>i. if rd_kind (tb_defs t ! i) = ''type'' then ns = Ns_Type else ns = Ns_Value) items))"

definition bind_segment ::
  "mod_tree \<Rightarrow> tables \<Rightarrow> bind_from \<Rightarrow> target option \<Rightarrow> string \<Rightarrow> ns \<Rightarrow> target list \<times> nat list" where
  "bind_segment tree t fr current name ns =
     (case current of
        None \<Rightarrow>
          (if name = ''crate'' then ([T_Module (mn_root (mt_nodes tree ! bf_module fr))], [])
           else if name = ''self'' then ([T_Module (bf_module fr)], [])
           else if name = ''super'' then (parent_targets tree (bf_module fr), [])
           else if name = ''Self'' then (case bf_self_def fr of Some d \<Rightarrow> [T_Def d] | None \<Rightarrow> [], [])
           else in_scope tree t fr name ns)
      | Some (T_Module m) \<Rightarrow>
          (if name = ''super'' then (parent_targets tree m, [])
           else case in_module t m name ns False of (v, probes) \<Rightarrow> (case v of Some out \<Rightarrow> out | None \<Rightarrow> [], probes))
      | Some (T_Def d) \<Rightarrow> (associated t d name ns, []))"

fun bind_segments ::
  "mod_tree \<Rightarrow> tables \<Rightarrow> bind_from \<Rightarrow> ns \<Rightarrow> target option \<Rightarrow> string list \<Rightarrow> bind_step list \<times> nat list" where
  "bind_segments tree t fr last_ns current [] = ([], [])"
| "bind_segments tree t fr last_ns current (seg # segs) =
     (case bind_segment tree t fr current seg (if segs = [] then last_ns else Ns_Type) of
        ([], probes) \<Rightarrow> ([Step_Nothing], probes)
      | ([one], probes) \<Rightarrow>
          (case bind_segments tree t fr last_ns (Some one) segs of
             (steps, more_probes) \<Rightarrow> (Step_Bound one # steps, probes @ more_probes))
      | (several, probes) \<Rightarrow> ([Step_Ambiguous several], probes))"

definition bind_walk :: "mod_tree \<Rightarrow> tables \<Rightarrow> bind_from \<Rightarrow> string list \<Rightarrow> ns \<Rightarrow> bind_step list \<times> nat list" where
  "bind_walk tree t fr segs last_ns =
     (if segs \<noteq> [] \<and> hd segs = []
      then (case Option.bind (get segs 1) (extern_named tree (bf_module fr)) of
              Some root \<Rightarrow>
                (case bind_segments tree t fr last_ns (Some (T_Module root)) (drop 2 segs) of
                   (steps, probes) \<Rightarrow> (Step_Skip # Step_Bound (T_Module root) # steps, probes))
            | None \<Rightarrow> ([Step_Skip, Step_Nothing], []))
      else bind_segments tree t fr last_ns None segs)"

section \<open>Leaves\<close>

text \<open>What a walk ends with when it bound every segment: the target, or the candidates of the last one.\<close>

definition whole_targets :: "string list \<Rightarrow> bind_step list \<Rightarrow> target list" where
  "whole_targets segs steps =
     (if steps \<noteq> [] \<and> length steps = length segs
      then (case last steps of Step_Bound t \<Rightarrow> [t] | Step_Ambiguous v \<Rightarrow> v | _ \<Rightarrow> [])
      else [])"

definition leaf_from :: "leaf \<Rightarrow> bind_from" where
  "leaf_from l =
     \<lparr>bf_module = lf_module l, bf_file = lf_file l, bf_block = lf_block l, bf_self_def = None, bf_import = True\<rparr>"

definition resolve_leaf :: "mod_tree \<Rightarrow> tables \<Rightarrow> leaf \<Rightarrow> bound \<times> nat list" where
  "resolve_leaf tree t l =
     (let segs = lf_segments l; (steps, probes) = bind_walk tree t (leaf_from l) segs Ns_Type
      in if is_glob l
         then (\<lparr>bn_types = filter (\<lambda>x. target_module x \<noteq> None) (whole_targets segs steps), bn_values = []\<rparr>, probes)
         else (let (steps', probes') = bind_walk tree t (leaf_from l) segs Ns_Value
               in (\<lparr>bn_types = whole_targets segs steps, bn_values = whole_targets segs steps'\<rparr>, probes @ probes')))"

text \<open>The worklist: the queue, the leaves in it, who consulted which module, and the tables.\<close>

record worklist =
  wl_queue :: "nat list"
  wl_queued :: "nat set"
  wl_dependents :: "nat \<Rightarrow> nat set"
  wl_tables :: tables

definition requeue :: "nat list \<Rightarrow> worklist \<Rightarrow> worklist" where
  "requeue ls w =
     fold (\<lambda>l w. if l \<in> wl_queued w then w
                 else w\<lparr>wl_queued := insert l (wl_queued w), wl_queue := wl_queue w @ [l]\<rparr>) ls w"

definition note_probes :: "nat \<Rightarrow> nat list \<Rightarrow> (nat \<Rightarrow> nat set) \<Rightarrow> (nat \<Rightarrow> nat set)" where
  "note_probes l probes deps = fold (\<lambda>m deps. deps(m := insert l (deps m))) probes deps"

definition work_leaf :: "mod_tree \<Rightarrow> nat \<Rightarrow> worklist \<Rightarrow> worklist" where
  "work_leaf tree l w =
     (let t = wl_tables w; leaf = tb_leaves t ! l;
          (result, probes) = resolve_leaf tree t leaf;
          w = w\<lparr>wl_dependents := note_probes l probes (wl_dependents w)\<rparr>
      in if result = tb_resolved t ! l then w
         else requeue (sorted_list_of_set (wl_dependents w (lf_module leaf)))
                (w\<lparr>wl_tables := t\<lparr>tb_resolved := (tb_resolved t)[l := result]\<rparr>\<rparr>))"

fun run_worklist :: "mod_tree \<Rightarrow> nat \<Rightarrow> worklist \<Rightarrow> worklist" where
  "run_worklist tree budget w =
     (case wl_queue w of
        [] \<Rightarrow> w
      | l # queue \<Rightarrow>
          (let w = w\<lparr>wl_queue := queue, wl_queued := wl_queued w - {l}\<rparr>
           in case budget of
                0 \<Rightarrow> w
              | Suc n \<Rightarrow> run_worklist tree n (work_leaf tree l w)))"

declare run_worklist.simps [simp del]

definition module_leaves :: "tables \<Rightarrow> nat list" where
  "module_leaves t = filter (\<lambda>l. lf_block (tb_leaves t ! l) = None) [0..<length (tb_leaves t)]"

definition block_leaves :: "tables \<Rightarrow> nat list" where
  "block_leaves t = filter (\<lambda>l. lf_block (tb_leaves t ! l) \<noteq> None) [0..<length (tb_leaves t)]"

definition start_worklist :: "tables \<Rightarrow> worklist" where
  "start_worklist t =
     \<lparr>wl_queue = module_leaves t, wl_queued = set (module_leaves t), wl_dependents = (\<lambda>_. {}), wl_tables = t\<rparr>"

text \<open>The product saturates at the machine word in the source; the number of leaves is far below it.\<close>

definition work_budget :: "tables \<Rightarrow> nat" where
  "work_budget t = length (module_leaves t) * 64 + 64"

definition work_block_leaf :: "mod_tree \<Rightarrow> nat \<Rightarrow> bool \<times> tables \<Rightarrow> bool \<times> tables" where
  "work_block_leaf tree l st =
     (case st of (changed, t) \<Rightarrow>
        (let result = fst (resolve_leaf tree t (tb_leaves t ! l))
         in if result = tb_resolved t ! l then (changed, t)
            else (True, t\<lparr>tb_resolved := (tb_resolved t)[l := result]\<rparr>)))"

fun block_rounds :: "mod_tree \<Rightarrow> nat list \<Rightarrow> nat \<Rightarrow> tables \<Rightarrow> tables" where
  "block_rounds tree ls 0 t = t"
| "block_rounds tree ls (Suc n) t =
     (case fold (work_block_leaf tree) ls (False, t) of
        (changed, t') \<Rightarrow> if changed then block_rounds tree ls n t' else t')"

definition resolve_block_leaves :: "mod_tree \<Rightarrow> tables \<Rightarrow> tables" where
  "resolve_block_leaves tree t = block_rounds tree (block_leaves t) 8 t"

definition resolve_leaves :: "mod_tree \<Rightarrow> tables \<Rightarrow> tables" where
  "resolve_leaves tree t =
     resolve_block_leaves tree (wl_tables (run_worklist tree (work_budget t) (start_worklist t)))"

section \<open>Associated items\<close>

definition add_associated :: "nat \<Rightarrow> nat \<Rightarrow> tables \<Rightarrow> tables" where
  "add_associated owner item t =
     (let name = rd_name (tb_defs t ! item); row = tb_assoc t owner;
          items = (case row name of Some is \<Rightarrow> is | None \<Rightarrow> [])
      in t\<lparr>tb_assoc := (tb_assoc t)(owner := row(name \<mapsto> (if item \<in> set items then items else items @ [item])))\<rparr>)"

definition impl_owner :: "mod_tree \<Rightarrow> tables \<Rightarrow> nat \<Rightarrow> rs_impl \<Rightarrow> nat option" where
  "impl_owner tree t f imp =
     (case node_of tree f (im_scope imp) of
        None \<Rightarrow> None
      | Some module \<Rightarrow>
          (let segs = path_segments (im_self_type imp);
               steps = fst (bind_walk tree t
                 \<lparr>bf_module = module, bf_file = f, bf_block = None, bf_self_def = None, bf_import = False\<rparr> segs Ns_Type)
           in if steps \<noteq> [] \<and> length steps = length segs
              then (case last steps of
                      Step_Bound (T_Def d) \<Rightarrow>
                        if is_type (tb_defs t ! d) \<and> rd_kind (tb_defs t ! d) \<noteq> ''type'' then Some d else None
                    | _ \<Rightarrow> None)
              else None))"

definition index_impl :: "mod_tree \<Rightarrow> nat \<Rightarrow> nat \<times> rs_impl \<Rightarrow> tables \<Rightarrow> tables" where
  "index_impl tree f row t =
     (case row of (k, imp) \<Rightarrow>
        case impl_owner tree t f imp of
          None \<Rightarrow> t
        | Some owner \<Rightarrow>
            fold (\<lambda>path t. case tb_def_by_path t (f, path) of Some item \<Rightarrow> add_associated owner item t | None \<Rightarrow> t)
              (im_items imp) (t\<lparr>tb_impl_self := (tb_impl_self t)((f, k) \<mapsto> owner)\<rparr>))"

definition index_trait_item :: "nat \<Rightarrow> tables \<Rightarrow> tables" where
  "index_trait_item item t =
     (let d = tb_defs t ! item; parent = fst (split_last (rd_path d))
      in if parent = [] then t
         else case tb_def_by_path t (rd_file d, parent) of
                None \<Rightarrow> t
              | Some owner \<Rightarrow> if rd_kind (tb_defs t ! owner) = ''trait'' then add_associated owner item t else t)"

definition index_file_impls :: "mod_tree \<Rightarrow> nat \<times> string \<times> rs_fragment \<Rightarrow> tables \<Rightarrow> tables" where
  "index_file_impls tree row t =
     (case row of (f, _, frag) \<Rightarrow> fold (index_impl tree f) (enumerate 0 (rg_impls frag)) t)"

definition index_associated :: "mod_tree \<Rightarrow> rs_files \<Rightarrow> tables \<Rightarrow> tables" where
  "index_associated tree fs t =
     (let t' = fold (index_file_impls tree) (numbered fs) t
      in fold index_trait_item [0..<length (tb_defs t')] t')"

end
