(* ===== verification/RsEmit.thy ===== *)
theory RsEmit
  imports RsBind Assembly
begin

text \<open>
  The Rust part of the graph (\<open>src/rsgraph/emit.rs\<close>, \<open>src/rsgraph.rs\<close>): the edges bound reference sites give,
  the rows of the items, and the counters both add to. The statistics, which the graph record leaves
  out, are a record beside it.
\<close>

section \<open>Edges\<close>

datatype edge_kind = Kind_Uses_Member | Kind_Uses_Type | Kind_Implements

fun kind_label :: "edge_kind \<Rightarrow> string" where
  "kind_label Kind_Uses_Member = ''uses-member''"
| "kind_label Kind_Uses_Type = ''uses-type''"
| "kind_label Kind_Implements = ''implements''"

fun role_last_ns :: "rs_role \<Rightarrow> ns" where
  "role_last_ns Role_Call = Ns_Value"
| "role_last_ns Role_Value = Ns_Value"
| "role_last_ns Role_Type = Ns_Type"
| "role_last_ns Role_Lit = Ns_Type"
| "role_last_ns Role_Impl = Ns_Type"
| "role_last_ns Role_Pat = Ns_Type"

definition site_self_def :: "tables \<Rightarrow> nat \<Rightarrow> rs_site \<Rightarrow> nat option" where
  "site_self_def t f s =
     (case rt_self_impl s of
        Some k \<Rightarrow> tb_impl_self t (f, k)
      | None \<Rightarrow> Option.bind (rt_self_trait s) (\<lambda>path. tb_def_by_path t (f, path)))"

fun last_kind :: "def_ref \<Rightarrow> rs_role \<Rightarrow> edge_kind option" where
  "last_kind d Role_Call =
     (if rd_kind d = ''fn'' then Some Kind_Uses_Member
      else if rd_kind d = ''struct'' then Some Kind_Uses_Type else None)"
| "last_kind d Role_Value = (if rd_kind d = ''struct'' then Some Kind_Uses_Type else None)"
| "last_kind d Role_Type = (if is_type d then Some Kind_Uses_Type else None)"
| "last_kind d Role_Lit = (if is_type d then Some Kind_Uses_Type else None)"
| "last_kind d Role_Impl = (if rd_kind d = ''trait'' then Some Kind_Implements else None)"
| "last_kind d Role_Pat = None"

definition kind_of :: "tables \<Rightarrow> nat \<Rightarrow> rs_role \<Rightarrow> bool \<Rightarrow> edge_kind option" where
  "kind_of t i role is_last =
     (let d = tb_defs t ! i
      in if \<not> is_last then if is_type d then Some Kind_Uses_Type else None
         else last_kind d role)"

definition bound_edge :: "tables \<Rightarrow> edge_kind \<Rightarrow> string \<Rightarrow> nat \<Rightarrow> nat \<Rightarrow> edge" where
  "bound_edge t kind rel line i =
     (let d = tb_defs t ! i
      in case kind of
           Kind_Uses_Member \<Rightarrow> uses_member rel line (rd_id d) (rd_rel d) (Some (rd_name d)) None
         | Kind_Uses_Type \<Rightarrow> Uses_Type rel line (rd_id d) (rd_rel d) False
         | Kind_Implements \<Rightarrow> Implements rel line (rd_id d) (rd_rel d) None)"

fun count_edge :: "edge_kind \<Rightarrow> edges_by_kind \<Rightarrow> edges_by_kind" where
  "count_edge Kind_Uses_Member c = c\<lparr>ek_uses_member := ek_uses_member c + 1\<rparr>"
| "count_edge Kind_Uses_Type c = c\<lparr>ek_uses_type := ek_uses_type c + 1\<rparr>"
| "count_edge Kind_Implements c = c\<lparr>ek_implements := ek_implements c + 1\<rparr>"

text \<open>\<open>dedup_by\<close>: an element goes when its key is that of the one kept before it.\<close>

fun dedup_on :: "('a \<Rightarrow> 'k) \<Rightarrow> 'a list \<Rightarrow> 'a list" where
  "dedup_on key [] = []"
| "dedup_on key [x] = [x]"
| "dedup_on key (x # y # ys) = (if key x = key y then dedup_on key (x # ys) else x # dedup_on key (y # ys))"

fun target_def :: "target \<Rightarrow> nat option" where
  "target_def (T_Def d) = Some d"
| "target_def (T_Module _) = None"

definition ambiguous_edge ::
  "tables \<Rightarrow> target list \<Rightarrow> rs_role \<Rightarrow> bool \<Rightarrow> string \<Rightarrow> nat \<Rightarrow> string list \<Rightarrow> edge option" where
  "ambiguous_edge t targets role is_last rel line written =
     (let id_of = (\<lambda>d. rd_id (tb_defs t ! d));
          ds = dedup_on id_of (sort_key id_of (List.map_filter target_def targets))
      in map_option (\<lambda>origin.
           Ambiguous (kind_label origin) rel line (str_join ''::'' written)
             (map (\<lambda>d. \<lparr>cand_id = rd_id (tb_defs t ! d), cand_file = rd_rel (tb_defs t ! d)\<rparr>) (take AMBIGUOUS_CAP ds))
             (length ds))
           (first_some (\<lambda>d. kind_of t d role is_last) ds))"

text \<open>One step of a site, the segment at \<open>i\<close>.\<close>

definition step_edge ::
  "tables \<Rightarrow> string \<Rightarrow> rs_site \<Rightarrow> string list \<Rightarrow> nat list \<Rightarrow> nat \<times> bind_step
   \<Rightarrow> edge list \<times> edges_by_kind \<Rightarrow> edge list \<times> edges_by_kind" where
  "step_edge t rel s segs lines row st =
     (case (row, st) of ((i, bstep), out, counts) \<Rightarrow>
        (let is_last = (i + 1 = length segs); line = (case get lines i of Some n \<Rightarrow> n | None \<Rightarrow> rt_line s)
         in case bstep of
              Step_Bound (T_Def d) \<Rightarrow>
                (if segs ! i = ''Self'' then st
                 else case kind_of t d (rt_role s) is_last of
                        Some kind \<Rightarrow> (out @ [bound_edge t kind rel line d], count_edge kind counts)
                      | None \<Rightarrow> st)
            | Step_Ambiguous targets \<Rightarrow>
                (case ambiguous_edge t targets (rt_role s) is_last rel line (take (i + 1) segs) of
                   Some e \<Rightarrow> (out @ [e], counts)
                 | None \<Rightarrow> st)
            | _ \<Rightarrow> st))"

definition site_edges ::
  "mod_tree \<Rightarrow> tables \<Rightarrow> nat \<Rightarrow> string \<Rightarrow> rs_site \<Rightarrow> edge list \<times> edges_by_kind \<Rightarrow> edge list \<times> edges_by_kind" where
  "site_edges tree t f rel s st =
     (case node_of tree f (rt_scope s) of
        None \<Rightarrow> st
      | Some module \<Rightarrow>
          (let segs = path_segments (rt_path s);
               steps = fst (bind_walk tree t
                 \<lparr>bf_module = module, bf_file = f, bf_block = rt_block s, bf_self_def = site_self_def t f s, bf_import = False\<rparr>
                 segs (role_last_ns (rt_role s)))
           in fold (step_edge t rel s segs (segment_lines s)) (enumerate 0 steps) st))"

definition rust_edges :: "mod_tree \<Rightarrow> tables \<Rightarrow> rs_files \<Rightarrow> edge list \<times> edges_by_kind" where
  "rust_edges tree t fs =
     fold (\<lambda>(f, rel, frag) st. fold (site_edges tree t f rel) (rg_sites frag) st) (numbered fs) ([], no_edges)"

section \<open>The graph\<close>

definition rs_namespace :: "string \<Rightarrow> string \<Rightarrow> string" where
  "rs_namespace f path =
     (case rfind_colons path of Some i \<Rightarrow> rs_def_id f (take i path) | None \<Rightarrow> f)"

definition item_def :: "string \<Rightarrow> rs_fragment \<Rightarrow> rs_item \<Rightarrow> graph_def" where
  "item_def f frag item =
     \<lparr>d_id = rs_def_id f (it_path item), d_name = it_name item, d_namespace = rs_namespace f (it_path item),
      d_kind = it_kind item, d_file = f, d_line = it_line item, d_methods = [],
      d_test_methods = (if it_path item \<in> set (rg_tests frag) then [it_name item] else []), d_also_in = [],
      d_end_line = it_end_line item, d_local = False\<rparr>"

definition item_name :: "string \<Rightarrow> rs_item \<Rightarrow> graph_name" where
  "item_name f item =
     \<lparr>gn_name = it_name item, gn_kind = it_kind item, gn_file = f, gn_line = it_name_line item, gn_owner = []\<rparr>"

definition append_rust :: "rs_files \<Rightarrow> graph \<times> stats \<Rightarrow> graph \<times> stats" where
  "append_rust fs gs =
     (if fs = [] then gs
      else case gs of (g, s) \<Rightarrow>
        (let rows = concat (map (\<lambda>(f, frag). map (Pair (f, frag)) (rg_items frag)) fs);
             added = map (\<lambda>((f, frag), item). item_def f frag item) rows
         in (g\<lparr>g_defs := g_defs g @ added, g_names := g_names g @ map (\<lambda>((f, frag), item). item_name f item) rows\<rparr>,
             s\<lparr>sx_def_count := sx_def_count s + length rows, sx_file_count := sx_file_count s + length fs,
               sx_test_def_count := sx_test_def_count s + length (filter (\<lambda>d. d_test_methods d \<noteq> []) added)\<rparr>)))"

definition rust_binder :: "rs_files \<Rightarrow> rust_package list option \<Rightarrow> mod_tree \<times> tables" where
  "rust_binder fs crates =
     (let tree = build_tree fs crates in (tree, index_associated tree fs (resolve_leaves tree (scope_tables fs tree))))"

definition append_rust_edges :: "rs_files \<Rightarrow> rust_package list option \<Rightarrow> graph \<times> stats \<Rightarrow> graph \<times> stats" where
  "append_rust_edges fs crates gs =
     (if fs = [] then gs
      else case gs of (g, s) \<Rightarrow>
        (let (tree, t) = rust_binder fs crates; (es, counts) = rust_edges tree t fs; k = sx_edges_by_kind s
         in (g\<lparr>g_edges := g_edges g @ es\<rparr>,
             s\<lparr>sx_edges_by_kind :=
               k\<lparr>ek_uses_member := ek_uses_member k + ek_uses_member counts,
                 ek_uses_type := ek_uses_type k + ek_uses_type counts,
                 ek_implements := ek_implements k + ek_implements counts\<rparr>\<rparr>)))"

end
