(* ===== verification/RsTreeFacts.thy ===== *)
theory RsTreeFacts
  imports RsTree TsScopes
begin

text \<open>
  What the module tree promises: every file has its module, a module's parent comes before it in the same
  crate, and the chain of parents ends in the crate's root. The crate roots of a package are walked files of its
  own directory.
\<close>

section \<open>The spine of a tree\<close>

text \<open>A node without its children: its file, its parent and its root.\<close>

definition spine :: "builder \<Rightarrow> (nat \<times> nat option \<times> nat) list" where
  "spine b = map (\<lambda>n. (mn_file n, mn_parent n, mn_root n)) (mt_nodes (bd_tree b))"

definition spine_ok :: "nat \<Rightarrow> (nat \<times> nat option \<times> nat) list \<Rightarrow> bool" where
  "spine_ok n sp \<longleftrightarrow>
     (\<forall>i f p r. i < length sp \<longrightarrow> sp ! i = (f, p, r) \<longrightarrow>
        f < n \<and> (case p of None \<Rightarrow> r = i | Some q \<Rightarrow> q < i \<and> snd (snd (sp ! q)) = r)
        \<and> (\<forall>j < length sp. fst (sp ! j) = f \<longrightarrow> snd (snd (sp ! j)) = r))"

definition index_ok :: "builder \<Rightarrow> bool" where
  "index_ok b \<longleftrightarrow>
     (\<forall>f s i. mt_by_scope (bd_tree b) (f, s) = Some i \<longrightarrow> i < length (spine b) \<and> fst (spine b ! i) = f)
     \<and> (\<forall>f i. bd_file_node b f = Some i \<longrightarrow> mt_by_scope (bd_tree b) (f, []) \<noteq> None)
     \<and> (\<forall>i < length (spine b). bd_file_node b (fst (spine b ! i)) \<noteq> None)
     \<and> (\<forall>f i. bd_file_node b f = Some i \<longrightarrow> i < length (spine b) \<and> fst (spine b ! i) = f)"

definition children_ok :: "builder \<Rightarrow> bool" where
  "children_ok b \<longleftrightarrow> (\<forall>n \<in> set (mt_nodes (bd_tree b)). \<forall>name c. mn_children n name = Some c \<longrightarrow> c < length (spine b))"

definition tree_ok :: "rs_files \<Rightarrow> builder \<Rightarrow> bool" where
  "tree_ok fs b \<longleftrightarrow> spine_ok (length fs) (spine b) \<and> index_ok b \<and> children_ok b"

lemma spine_length [simp]: "length (spine b) = length (mt_nodes (bd_tree b))"
  by (simp add: spine_def)

lemma spine_new_node:
  "spine (snd (new_node f prefix parent root b))
     = spine b @ [(f, parent, case root of Some r \<Rightarrow> r | None \<Rightarrow> length (spine b))]"
  by (simp add: spine_def new_node_def Let_def split: option.split)

lemma spine_add_child [simp]: "spine (add_child parent name child b) = spine b"
proof (cases "parent < length (mt_nodes (bd_tree b))")
  case True
  then show ?thesis
    by (auto simp: spine_def add_child_def Let_def map_update intro!: nth_equalityI simp: nth_list_update)
next
  case False
  then show ?thesis by (simp add: spine_def add_child_def Let_def list_update_beyond)
qed

lemma spine_upd [simp]:
  "spine (b\<lparr>bd_file_node := m\<rparr>) = spine b" "spine (b\<lparr>bd_path_owned := o'\<rparr>) = spine b"
  by (simp_all add: spine_def)

lemma new_node_fst [simp]: "fst (new_node f prefix parent root b) = length (spine b)"
  by (simp add: new_node_def Let_def)

text \<open>A node appended to the spine: the root of a new crate, a new file of a crate, or an inline module.\<close>

lemma spine_ok_append:
  assumes "spine_ok n sp" "f < n"
    and "case p of None \<Rightarrow> r = length sp | Some q \<Rightarrow> q < length sp \<and> snd (snd (sp ! q)) = r"
    and "\<forall>j < length sp. fst (sp ! j) = f \<longrightarrow> snd (snd (sp ! j)) = r"
  shows "spine_ok n (sp @ [(f, p, r)])"
  unfolding spine_ok_def
proof (intro allI impI)
  fix i f' p' r'
  assume i: "i < length (sp @ [(f, p, r)])" "(sp @ [(f, p, r)]) ! i = (f', p', r')"
  show "f' < n \<and> (case p' of None \<Rightarrow> r' = i | Some q \<Rightarrow> q < i \<and> snd (snd ((sp @ [(f, p, r)]) ! q)) = r')
      \<and> (\<forall>j < length (sp @ [(f, p, r)]). fst ((sp @ [(f, p, r)]) ! j) = f' \<longrightarrow> snd (snd ((sp @ [(f, p, r)]) ! j)) = r')"
  proof (cases "i < length sp")
    case True
    with i have at: "sp ! i = (f', p', r')" by (simp add: nth_append)
    from assms(1) True at have "f' < n" "case p' of None \<Rightarrow> r' = i | Some q \<Rightarrow> q < i \<and> snd (snd (sp ! q)) = r'"
      and same: "\<And>j. j < length sp \<Longrightarrow> fst (sp ! j) = f' \<Longrightarrow> snd (snd (sp ! j)) = r'"
      unfolding spine_ok_def by blast+
    moreover have "r = r'" if "f = f'" using that assms(4) True at by auto
    ultimately show ?thesis using True by (auto simp: nth_append less_Suc_eq split: option.splits)
  next
    case False
    with i have "i = length sp" "f' = f" "p' = p" "r' = r" by (auto simp: nth_append)
    with assms show ?thesis by (auto simp: nth_append less_Suc_eq split: option.splits)
  qed
qed

lemma index_ok_inline:
  assumes "index_ok b" "q < length (spine b)" "fst (spine b ! q) = f"
  shows "index_ok (snd (new_node f prefix (Some q) (Some r) b))"
  using assms unfolding index_ok_def spine_new_node
  by (auto simp: new_node_def Let_def nth_append less_Suc_eq)

lemma index_ok_file:
  assumes "index_ok b"
  shows "index_ok ((snd (new_node f [] parent root b))\<lparr>bd_file_node := (bd_file_node b)(f \<mapsto> length (spine b)), bd_path_owned := ow\<rparr>)"
proof -
  define nb where "nb = snd (new_node f [] parent root b)"
  have sp: "spine nb = spine b @ [(f, parent, case root of Some r \<Rightarrow> r | None \<Rightarrow> length (spine b))]"
    by (simp only: nb_def spine_new_node)
  have sc: "mt_by_scope (bd_tree nb) = (mt_by_scope (bd_tree b))((f, []) \<mapsto> length (spine b))"
    by (simp add: nb_def new_node_def Let_def)
  show ?thesis
    using assms unfolding index_ok_def spine_upd nb_def [symmetric] sp
    by (auto simp: sc nth_append less_Suc_eq)
qed

lemma children_new_node:
  "children_ok b \<Longrightarrow> children_ok (snd (new_node f prefix parent root b))"
  by (fastforce simp: children_ok_def new_node_def Let_def spine_def)

lemma children_add:
  assumes "children_ok b" "child < length (spine b)"
  shows "children_ok (add_child parent name child b)"
proof -
  let ?ns = "mt_nodes (bd_tree b)"
  define n' where "n' = (?ns ! parent)\<lparr>mn_children := (case mn_children (?ns ! parent) name of
      Some _ \<Rightarrow> mn_children (?ns ! parent) | None \<Rightarrow> (mn_children (?ns ! parent))(name \<mapsto> child))\<rparr>"
  have ns: "mt_nodes (bd_tree (add_child parent name child b)) = ?ns[parent := n']"
    by (simp add: add_child_def n'_def Let_def)
  have "\<forall>nm c. mn_children n' nm = Some c \<longrightarrow> c < length (spine b)" if "parent < length ?ns"
  proof -
    have "\<forall>nm c. mn_children (?ns ! parent) nm = Some c \<longrightarrow> c < length (spine b)"
      using assms(1) nth_mem [OF that] unfolding children_ok_def by blast
    with assms(2) show ?thesis by (auto simp: n'_def split: option.splits if_splits)
  qed
  with assms(1) show ?thesis
    unfolding children_ok_def ns spine_add_child
    by (cases "parent < length ?ns") (auto dest: set_update_subset_insert [THEN subsetD] simp: list_update_beyond)
qed

lemma index_add_child [simp]: "index_ok (add_child parent name child b) \<longleftrightarrow> index_ok b"
  by (simp add: index_ok_def) (simp add: add_child_def Let_def)

section \<open>The walk keeps the tree in order\<close>

text \<open>The state while \<open>f\<close> is expanded: its node, and the queue below the number of nodes.\<close>

definition walking :: "rs_files \<Rightarrow> nat \<Rightarrow> nat \<Rightarrow> builder \<times> nat list \<Rightarrow> bool" where
  "walking fs f root st \<longleftrightarrow>
     tree_ok fs (fst st) \<and> (\<exists>i < length (spine (fst st)). \<exists>p. spine (fst st) ! i = (f, p, root))
     \<and> (\<forall>x \<in> set (snd st). x < length (spine (fst st)))"

lemma walking_append:
  assumes "walking fs f root (b, q)" "tree_ok fs b'" "spine b' = spine b @ xs"
    and "\<forall>x \<in> set q'. x \<in> set q \<or> x < length (spine b')"
  shows "walking fs f root (b', q')"
proof -
  from assms(1) obtain i p where i: "i < length (spine b)" "spine b ! i = (f, p, root)"
    and q: "\<forall>x \<in> set q. x < length (spine b)" by (auto simp: walking_def)
  have "i < length (spine b')" "spine b' ! i = (f, p, root)" using i assms(3) by (simp_all add: nth_append)
  moreover have "length (spine b) \<le> length (spine b')" using assms(3) by simp
  ultimately show ?thesis using assms(2,4) q unfolding walking_def by (fastforce intro: less_le_trans)
qed

lemma walking_root:
  assumes "walking fs f root st" "node_of (bd_tree (fst st)) f prefix = Some parent"
  shows "parent < length (spine (fst st))" "fst (spine (fst st) ! parent) = f" "snd (snd (spine (fst st) ! parent)) = root"
proof -
  show at: "parent < length (spine (fst st))" "fst (spine (fst st) ! parent) = f"
    using assms by (auto simp: walking_def tree_ok_def index_ok_def node_of_def)
  from assms(1) obtain i p where "i < length (spine (fst st))" "spine (fst st) ! i = (f, p, root)"
    "spine_ok (length fs) (spine (fst st))" by (auto simp: walking_def tree_ok_def)
  with at show "snd (snd (spine (fst st) ! parent)) = root" unfolding spine_ok_def by blast
qed

lemma place_file:
  assumes "tree_ok fs b" "t < length fs" "bd_file_node b t = None"
    and "case root of None \<Rightarrow> parent = None | Some r \<Rightarrow> \<exists>q. parent = Some q \<and> q < length (spine b) \<and> snd (snd (spine b ! q)) = r"
  shows "tree_ok fs ((snd (new_node t [] parent root b))\<lparr>bd_file_node := (bd_file_node b)(t \<mapsto> length (spine b)), bd_path_owned := ow\<rparr>)"
proof -
  have "\<forall>j < length (spine b). fst (spine b ! j) \<noteq> t" using assms(1,3) by (auto simp: tree_ok_def index_ok_def)
  then have "spine_ok (length fs) (spine (snd (new_node t [] parent root b)))"
    using assms unfolding spine_new_node
    by (intro spine_ok_append) (auto simp: tree_ok_def split: option.splits)
  moreover have "children_ok (snd (new_node t [] parent root b))" using assms(1) by (simp add: tree_ok_def children_new_node)
  ultimately show ?thesis using assms(1) index_ok_file unfolding tree_ok_def spine_upd
    by (simp add: children_ok_def)
qed

lemma declared_file_walking:
  assumes "walking fs f root st" "parent < length (spine (fst st))" "snd (snd (spine (fst st) ! parent)) = root"
    and "declared_file fs f prefix name path parent root st = (child, st')"
  shows "walking fs f root st' \<and> (\<forall>c. child = Some c \<longrightarrow> c < length (spine (fst st')))"
proof -
  obtain b q where st: "st = (b, q)" by (cases st)
  have ok: "tree_ok fs b" using assms(1) st by (simp add: walking_def)
  show ?thesis
  proof (cases "declared_target fs b f prefix name path root")
    case (Some t)
    show ?thesis
    proof (cases "bd_file_node b t")
      case None
      define nb where "nb = (snd (new_node t [] (Some parent) (Some root) b))\<lparr>
        bd_file_node := (bd_file_node b)(t \<mapsto> length (spine b)),
        bd_path_owned := (bd_path_owned b)(t := path \<noteq> None)\<rparr>"
      have own: "bd_path_owned (snd (new_node t [] (Some parent) (Some root) b)) = bd_path_owned b"
        "bd_file_node (snd (new_node t [] (Some parent) (Some root) b)) = bd_file_node b"
        by (simp_all add: new_node_def Let_def)
      have eq: "child = Some (length (spine b))" "st' = (nb, q @ [length (spine b)])"
        using assms(4) own st Some None by (auto simp: declared_file_def nb_def case_prod_beta)
      have "tree_ok fs nb" unfolding nb_def
        using place_file [OF ok declared_target_less [OF Some] None, where root = "Some root" and parent = "Some parent"] assms(2,3) st by simp
      moreover have "spine nb = spine b @ [(t, Some parent, root)]" unfolding nb_def spine_upd spine_new_node by simp
      ultimately show ?thesis using eq assms(1) st walking_append [of fs f root b q nb _ "q @ [length (spine b)]"] by auto
    next
      case (Some e)
      then have "e < length (spine b)" using ok by (auto simp: tree_ok_def index_ok_def)
      with assms st Some \<open>declared_target fs b f prefix name path root = Some t\<close> show ?thesis
        by (auto simp: declared_file_def)
    qed
  qed (use assms st in \<open>auto simp: declared_file_def\<close>)
qed

lemma add_child_walking:
  "walking fs f root (b, q) \<Longrightarrow> child < length (spine b) \<Longrightarrow> walking fs f root (add_child parent name child b, q)"
  by (auto simp: walking_def tree_ok_def children_add)

lemma inline_walking:
  assumes "walking fs f root (b, q)" "parent < length (spine b)" "fst (spine b ! parent) = f" "snd (snd (spine b ! parent)) = root"
  shows "walking fs f root (snd (new_node f prefix (Some parent) (Some root) b), q)"
proof -
  have ok: "tree_ok fs b" using assms(1) by (simp add: walking_def)
  have "f < length fs" "\<forall>j < length (spine b). fst (spine b ! j) = f \<longrightarrow> snd (snd (spine b ! j)) = root"
  proof -
    obtain p where at: "spine b ! parent = (f, p, root)" using assms(3,4) by (cases "spine b ! parent") auto
    have "spine_ok (length fs) (spine b)" using ok by (simp add: tree_ok_def)
    with at assms(2) show "f < length fs" "\<forall>j < length (spine b). fst (spine b ! j) = f \<longrightarrow> snd (snd (spine b ! j)) = root"
      unfolding spine_ok_def by blast+
  qed
  then have "spine_ok (length fs) (spine b @ [(f, Some parent, root)])"
    using ok assms(2,4) by (intro spine_ok_append) (auto simp: tree_ok_def)
  then have "tree_ok fs (snd (new_node f prefix (Some parent) (Some root) b))"
    using ok assms(2,3) by (simp add: tree_ok_def spine_new_node index_ok_inline children_new_node)
  with assms(1) show ?thesis by (rule walking_append) (auto simp: spine_new_node)
qed

lemma expand_item_walking:
  assumes "walking fs f root st"
  shows "walking fs f root (expand_item fs f root frag item st)"
proof (cases "node_of (bd_tree (fst st)) f (fst (split_last (it_path item)))")
  case (Some parent)
  note at = walking_root [OF assms Some]
  show ?thesis
  proof (cases "it_path item \<in> set (rg_mod_files frag)")
    case True
    obtain child b q where d: "declared_file fs f (fst (split_last (it_path item))) (it_name item)
        (item_path_fact frag (it_path item)) parent root st = (child, b, q)"
      by (metis prod_cases3)
    with declared_file_walking [OF assms at(1,3) d] Some True show ?thesis
      by (auto simp: expand_item_def Let_def split: option.splits intro: add_child_walking)
  next
    case False
    obtain b q where st: "st = (b, q)" by (cases st)
    obtain node nb where nn: "new_node f (it_path item) (Some parent) (Some root) b = (node, nb)"
      by (cases "new_node f (it_path item) (Some parent) (Some root) b")
    from inline_walking [of fs f root b q parent "it_path item"] assms at st nn
    have "walking fs f root (nb, q)" by simp
    moreover have "node < length (spine nb)"
      using arg_cong [OF nn, of fst] arg_cong [OF nn, of snd] spine_new_node [of f "it_path item" "Some parent" "Some root" b]
      by auto
    ultimately have "walking fs f root (add_child parent (it_name item) node nb, q)" by (rule add_child_walking)
    then show ?thesis using Some False st nn by (simp add: expand_item_def Let_def)
  qed
qed (use assms in \<open>simp add: expand_item_def Let_def\<close>)

definition queue_ok :: "rs_files \<Rightarrow> builder \<times> nat list \<Rightarrow> bool" where
  "queue_ok fs st \<longleftrightarrow> tree_ok fs (fst st) \<and> (\<forall>x \<in> set (snd st). x < length (spine (fst st)))"

lemma expand_file_ok:
  assumes "queue_ok fs (b, node # queue)"
  shows "queue_ok fs (expand_file fs node (b, queue))"
proof -
  let ?n = "mt_nodes (bd_tree b) ! node"
  have "node < length (spine b)" using assms by (simp add: queue_ok_def)
  then have "walking fs (mn_file ?n) (mn_root ?n) (b, queue)"
    using assms by (auto simp: walking_def queue_ok_def spine_def intro!: exI [of _ node])
  then have "walking fs (mn_file ?n) (mn_root ?n)
      (fold (expand_item fs (mn_file ?n) (mn_root ?n) frag) items (b, queue))" for frag items
    by (rule fold_invariant [where Q = "\<lambda>_. True", rotated]) (simp_all add: expand_item_walking)
  then show ?thesis by (simp add: expand_file_def Let_def queue_ok_def walking_def)
qed

lemma walk_queue_ok: "queue_ok fs (b, queue) \<Longrightarrow> tree_ok fs (walk_queue fs queue b)"
proof (induction fs queue b rule: walk_queue.induct)
  case (1 fs b)
  then show ?case by (simp add: walk_queue.simps queue_ok_def)
next
  case (2 fs node queue b)
  obtain b' q' where e: "expand_file fs node (b, queue) = (b', q')" by (cases "expand_file fs node (b, queue)")
  with 2(1) [OF e [symmetric]] expand_file_ok [OF 2(2)] show ?case by (simp add: walk_queue.simps)
qed

lemma walk_root_ok:
  assumes "tree_ok fs b" "f < length fs" "bd_file_node b f = None"
  shows "tree_ok fs (snd (walk_root fs f b))"
proof -
  obtain root nb where nn: "new_node f [] None None b = (root, nb)" by (cases "new_node f [] None None b")
  have own: "root = length (spine b)" "nb = snd (new_node f [] None None b)" "bd_file_node nb = bd_file_node b"
    using nn arg_cong [OF nn, of fst] by (auto simp: new_node_def Let_def)
  have "tree_ok fs (nb\<lparr>bd_file_node := (bd_file_node b)(f \<mapsto> root), bd_path_owned := bd_path_owned nb\<rparr>)"
    using place_file [OF assms, where root = None and parent = None and ow = "bd_path_owned nb"] own by simp
  then have "tree_ok fs (nb\<lparr>bd_file_node := (bd_file_node nb)(f \<mapsto> root)\<rparr>)" using own by simp
  moreover have "root < length (spine (nb\<lparr>bd_file_node := (bd_file_node nb)(f \<mapsto> root)\<rparr>))"
    using own spine_new_node [of f "[]" None None b] by simp
  ultimately show ?thesis using nn by (simp add: walk_root_def walk_queue_ok queue_ok_def)
qed

section \<open>Every file is placed\<close>

lemma declared_file_places:
  "declared_file fs f prefix name path parent root st = (child, st') \<Longrightarrow> unplaced fs (fst st') \<subseteq> unplaced fs (fst st)"
  by (cases st)
     (auto simp: declared_file_def unplaced_def new_node_def Let_def split: option.splits prod.splits if_splits)

lemma expand_item_places: "unplaced fs (fst (expand_item fs f root frag item st)) \<subseteq> unplaced fs (fst st)"
proof (cases "node_of (bd_tree (fst st)) f (fst (split_last (it_path item)))")
  case (Some parent)
  show ?thesis
  proof (cases "it_path item \<in> set (rg_mod_files frag)")
    case True
    obtain child b q where d: "declared_file fs f (fst (split_last (it_path item))) (it_name item)
        (item_path_fact frag (it_path item)) parent root st = (child, b, q)"
      by (metis prod_cases3)
    with declared_file_places [OF d] Some True show ?thesis
      by (auto simp: expand_item_def Let_def split: option.splits)
  next
    case False
    with Some show ?thesis
      using unplaced_new_node [of fs f "it_path item" "Some parent" "Some root" "fst st"]
      by (auto simp: expand_item_def Let_def case_prod_beta simp del: unplaced_new_node)
  qed
qed (simp add: expand_item_def Let_def)

lemma expand_file_places: "unplaced fs (fst (expand_file fs node st)) \<subseteq> unplaced fs (fst st)"
proof -
  have "unplaced fs (fst (fold (expand_item fs f root frag) items st)) \<subseteq> unplaced fs (fst st)" for f root frag items
  proof (induction items arbitrary: st)
    case (Cons i items)
    from Cons [of "expand_item fs f root frag i st"] expand_item_places [of fs f root frag i st] show ?case by auto
  qed simp
  then show ?thesis by (simp add: expand_file_def Let_def)
qed

lemma walk_queue_places: "unplaced fs (walk_queue fs queue b) \<subseteq> unplaced fs b"
proof (induction fs queue b rule: walk_queue.induct)
  case (2 fs node queue b)
  obtain b' q' where e: "expand_file fs node (b, queue) = (b', q')" by (cases "expand_file fs node (b, queue)")
  with 2 [OF e [symmetric]] expand_file_places [of fs node "(b, queue)"] show ?case by (auto simp: walk_queue.simps)
qed (simp add: walk_queue.simps)

lemma walk_root_places: "unplaced fs (snd (walk_root fs f b)) \<subseteq> unplaced fs b - {f}"
proof -
  obtain root nb where nn: "new_node f [] None None b = (root, nb)" by (cases "new_node f [] None None b")
  have "unplaced fs (nb\<lparr>bd_file_node := (bd_file_node nb)(f \<mapsto> root)\<rparr>) = unplaced fs b - {f}"
    using nn by (auto simp: new_node_def Let_def unplaced_def)
  with walk_queue_places [of fs "[root]" "nb\<lparr>bd_file_node := (bd_file_node nb)(f \<mapsto> root)\<rparr>"] nn
  show ?thesis by (simp add: walk_root_def)
qed

lemma walk_orphan_ok: "tree_ok fs b \<Longrightarrow> f < length fs \<Longrightarrow> tree_ok fs (walk_orphan fs f b)"
  by (simp add: walk_orphan_def walk_root_ok)

lemma walk_orphan_places: "unplaced fs (walk_orphan fs f b) \<subseteq> unplaced fs b - {f}"
  using walk_root_places [of fs f b] by (auto simp: walk_orphan_def unplaced_def)

lemma tree_ok_extern [simp]: "tree_ok fs (b\<lparr>bd_tree := (bd_tree b)\<lparr>mt_extern_lib := e\<rparr>\<rparr>) \<longleftrightarrow> tree_ok fs b"
  by (simp add: tree_ok_def spine_def index_ok_def children_ok_def)

lemma walk_declared_ok:
  assumes "tree_ok fs b" "fst entry < length fs"
  shows "tree_ok fs (walk_declared fs entry b)"
proof (cases "bd_file_node b (fst entry)")
  case None
  obtain root b' where w: "walk_root fs (fst entry) b = (root, b')" by (cases "walk_root fs (fst entry) b")
  with walk_root_ok [OF assms None] have "tree_ok fs b'" by simp
  with None w show ?thesis by (cases entry) (simp add: walk_declared_def split: option.split)
next
  case (Some node)
  with assms(1) show ?thesis by (cases entry) (simp add: walk_declared_def)
qed

lemma package_roots_less: "entry \<in> set (package_roots fs p) \<Longrightarrow> fst entry < length fs"
  by (auto simp: package_roots_def Let_def set_filtered dest: file_index_less)

lemma declared_roots_less: "entry \<in> set (declared_roots fs crates) \<Longrightarrow> fst entry < length fs"
  by (auto simp: declared_roots_def dest: package_roots_less split: option.splits)

lemma tree_ok_empty: "tree_ok fs empty_builder"
  by (simp add: tree_ok_def spine_ok_def index_ok_def children_ok_def empty_builder_def spine_def)

lemma build_ok: "tree_ok fs (build_all fs crates)"
proof -
  let ?roots = "fold (walk_declared fs) (declared_roots fs crates) empty_builder"
  have "tree_ok fs ?roots"
    by (rule fold_invariant [where Q = "\<lambda>e. fst e < length fs"])
       (simp_all add: declared_roots_less tree_ok_empty walk_declared_ok)
  then have "tree_ok fs (resolve_externs ?roots)" by (simp add: resolve_externs_def)
  then show ?thesis
    unfolding build_all_def
    by (rule fold_invariant [where Q = "\<lambda>f. f < length fs", rotated]) (simp_all add: walk_orphan_ok)
qed

lemma orphans_placed: "unplaced fs (fold (walk_orphan fs) files b) \<subseteq> unplaced fs b - set files"
proof (induction files arbitrary: b)
  case (Cons f files)
  from Cons [of "walk_orphan fs f b"] walk_orphan_places [of fs f b] show ?case by auto
qed simp

lemma all_placed: "unplaced fs (build_all fs crates) = {}"
  using orphans_placed [of fs "sort_key (\<lambda>f. fst (fs ! f)) [0..<length fs]"]
  by (fastforce simp: build_all_def unplaced_def)

lemma spine_nth: "i < length (mt_nodes (bd_tree b)) \<Longrightarrow>
    spine b ! i = (mn_file (mt_nodes (bd_tree b) ! i), mn_parent (mt_nodes (bd_tree b) ! i), mn_root (mt_nodes (bd_tree b) ! i))"
  by (simp add: spine_def)

lemma file_module:
  assumes "f < length fs"
  shows "\<exists>i < length (mt_nodes (build_tree fs crates)). node_of (build_tree fs crates) f [] = Some i
    \<and> mn_file (mt_nodes (build_tree fs crates) ! i) = f"
proof -
  let ?b = "build_all fs crates"
  have index: "index_ok ?b" using build_ok [of fs crates] by (simp add: tree_ok_def)
  have "bd_file_node ?b f \<noteq> None" using all_placed [of fs crates] assms by (auto simp: unplaced_def)
  with index obtain i where i: "mt_by_scope (bd_tree ?b) (f, []) = Some i" unfolding index_ok_def by blast
  with index have "i < length (spine ?b)" "fst (spine ?b ! i) = f" unfolding index_ok_def by blast+
  with i show ?thesis by (auto simp: node_of_def spine_nth build_tree_def)
qed

definition module_ok :: "rs_files \<Rightarrow> mod_node list \<Rightarrow> nat \<Rightarrow> bool" where
  "module_ok fs ns i \<longleftrightarrow>
     mn_file (ns ! i) < length fs
     \<and> (case mn_parent (ns ! i) of
          None \<Rightarrow> mn_root (ns ! i) = i
        | Some p \<Rightarrow> p < i \<and> mn_root (ns ! p) = mn_root (ns ! i))
     \<and> (\<forall>j < length ns. mn_file (ns ! j) = mn_file (ns ! i) \<longrightarrow> mn_root (ns ! j) = mn_root (ns ! i))
     \<and> (\<forall>name c. mn_children (ns ! i) name = Some c \<longrightarrow> c < length ns)"

lemma tree_modules:
  assumes "tree_ok fs b" "i < length (mt_nodes (bd_tree b))"
  shows "module_ok fs (mt_nodes (bd_tree b)) i"
proof -
  let ?ns = "mt_nodes (bd_tree b)"
  have "i < length (spine b)" using assms(2) by simp
  note row = assms(1) [unfolded tree_ok_def, THEN conjunct1, unfolded spine_ok_def, rule_format, OF this spine_nth [OF assms(2)]]
  have same: "mn_root (?ns ! j) = mn_root (?ns ! i)" if "j < length ?ns" "mn_file (?ns ! j) = mn_file (?ns ! i)" for j
  proof -
    have "fst (spine b ! j) = mn_file (?ns ! i)" using that spine_nth [OF that(1)] by simp
    with row that(1) have "snd (snd (spine b ! j)) = mn_root (?ns ! i)" by simp
    then show ?thesis using spine_nth [OF that(1)] by simp
  qed
  have up: "case mn_parent (?ns ! i) of None \<Rightarrow> mn_root (?ns ! i) = i | Some p \<Rightarrow> p < i \<and> mn_root (?ns ! p) = mn_root (?ns ! i)"
  proof (cases "mn_parent (?ns ! i)")
    case (Some p)
    with row have "p < i" "snd (snd (spine b ! p)) = mn_root (?ns ! i)" by auto
    with Some spine_nth [of p b] assms(2) show ?thesis by simp
  qed (use row in simp)
  have "\<forall>name c. mn_children (?ns ! i) name = Some c \<longrightarrow> c < length ?ns"
    using assms(1) nth_mem [OF assms(2)] unfolding tree_ok_def children_ok_def spine_length by blast
  with row same up show ?thesis unfolding module_ok_def by blast
qed

text \<open>
  C8. The module tree is complete and sound. Every file has a module of its own, found under the empty inline
  path; a module's parent stands before it in the tree and belongs to the same crate root, and a module without a
  parent is its crate's root, so that repeated \<open>super\<close> ends at \<open>crate\<close>; every module belongs to a walked file,
  all modules of one file share their crate, and every child a module names is a module of the tree.
\<close>

theorem module_tree_sound:
  "(\<forall>f < length fs. \<exists>i < length (mt_nodes (build_tree fs crates)).
      node_of (build_tree fs crates) f [] = Some i \<and> mn_file (mt_nodes (build_tree fs crates) ! i) = f)
   \<and> (\<forall>i < length (mt_nodes (build_tree fs crates)). module_ok fs (mt_nodes (build_tree fs crates)) i)"
  using file_module tree_modules [OF build_ok] unfolding build_tree_def by blast

definition cart_files :: rs_files where
  "cart_files =
     [(''src/lib.rs'', empty_rs_fragment\<lparr>
         rg_items := [\<lparr>it_name = ''wheel'', it_kind = ''mod'', it_path = ''wheel'', it_line = 1, it_name_line = 1, it_end_line = 1\<rparr>],
         rg_mod_files := [''wheel'']\<rparr>),
      (''src/wheel.rs'', empty_rs_fragment)]"

lemma cart_modules:
  "length cart_files = 2" "length (mt_nodes (build_tree cart_files None)) = 2"
  "map (\<lambda>n. (mn_file n, mn_parent n, mn_root n)) (mt_nodes (build_tree cart_files None)) = [(0, None, 0), (1, Some 0, 0)]"
  "mn_children (mt_nodes (build_tree cart_files None) ! 0) ''wheel'' = Some 1"
  by code_simp+

theorem module_tree_sound_witness:
  "(\<exists>i < 2. node_of (build_tree cart_files None) 1 [] = Some i \<and> mn_file (mt_nodes (build_tree cart_files None) ! i) = 1)
   \<and> module_ok cart_files (mt_nodes (build_tree cart_files None)) 1"
  using module_tree_sound [of cart_files None] by (simp add: cart_modules)

section \<open>Crate roots\<close>

lemma join_below: "crate_join dir path = Some f \<Longrightarrow> dir = [] \<or> starts_with f (dir @ ''/'')"
  by (auto simp: crate_join_def Let_def starts_with_def split: if_splits)

lemma starts_with_append: "starts_with s (p @ q) \<Longrightarrow> starts_with s p"
  by (simp add: starts_with_def) (metis append_eq_conv_conj append_take_drop_id append_assoc)

lemma plain_join: "crate_join dir folder = Some p \<Longrightarrow> dir = [] \<or> starts_with p (dir @ ''/'')"
  by (rule join_below)

lemma default_target_below:
  assumes "(kind, Some f) \<in> set (default_targets dir walked (folder, k))" "crate_join dir folder \<noteq> None"
  shows "dir = [] \<or> starts_with f (dir @ ''/'')"
proof -
  from assms(2) obtain p where p: "crate_join dir folder = Some p" by auto
  with assms(1) have "starts_with f (p @ ''/'')"
    by (auto simp: default_targets_def strip_prefix_def Let_def split: option.splits if_splits)
  then have f: "starts_with f p" by (rule starts_with_append)
  from join_below [OF p] show ?thesis
  proof
    assume "starts_with p (dir @ ''/'')"
    then obtain r where "p = (dir @ ''/'') @ r" by (metis append_take_drop_id starts_with_def)
    with f have "starts_with f ((dir @ ''/'') @ r)" by simp
    then show ?thesis by (blast intro: starts_with_append)
  qed simp
qed

lemma root_entry_below:
  assumes "(kind, Some f) \<in> set (root_entries dir walked m)"
  shows "dir = [] \<or> starts_with f (dir @ ''/'')"
proof -
  have folders: "crate_join dir folder \<noteq> None" if "folder \<in> {''tests'', ''examples'', ''benches''}" for folder
    using that by (auto simp: crate_join_def starts_with_def)
  from assms consider p where "crate_join dir p = Some f"
    | folder k where "folder \<in> {''tests'', ''examples'', ''benches''}" "(kind, Some f) \<in> set (default_targets dir walked (folder, k))"
    by (auto simp: root_entries_def)
  then show ?thesis
  proof cases
    case 1
    then show ?thesis by (rule join_below)
  next
    case 2
    then show ?thesis using default_target_below [OF 2(2)] folders by blast
  qed
qed

text \<open>
  C32. The crate roots of a package are files the walk listed, each once, inside the package's own directory, in
  the order of their kinds and then of their paths; the package has a library name exactly when it has a library
  root. A manifest cannot name a root outside its directory.
\<close>

theorem crate_roots_inside:
  assumes "package_of dir manifest walked = Some p"
  shows "(\<forall>r \<in> set (rp_roots p). cr_file r \<in> set walked \<and> (dir = [] \<or> starts_with (cr_file r) (dir @ ''/'')))
    \<and> distinct (map cr_file (rp_roots p)) \<and> sorted (map (\<lambda>r. (cr_kind r, cr_file r)) (rp_roots p))
    \<and> (rp_lib p \<noteq> None \<longleftrightarrow> (\<exists>r \<in> set (rp_roots p). cr_kind r = Root_Lib))"
proof -
  let ?added = "fold (add_root walked) (root_entries dir walked (scan_manifest manifest)) []"
  have roots: "rp_roots p = sort_key (\<lambda>r. (cr_kind r, cr_file r)) ?added"
    and lib: "rp_lib p \<noteq> None \<longleftrightarrow> (\<exists>r \<in> set (rp_roots p). cr_kind r = Root_Lib)"
    using assms by (auto simp: package_of_def Let_def list_ex_iff split: if_splits)
  have "distinct (map cr_file ?added)"
    by (rule fold_invariant [where Q = "\<lambda>_. True" and P = "\<lambda>rs. distinct (map cr_file rs)"]) (simp_all add: add_root_distinct)
  then have "distinct (map cr_file (rp_roots p))" by (simp add: roots distinct_map)
  moreover have "cr_file r \<in> set walked \<and> (dir = [] \<or> starts_with (cr_file r) (dir @ ''/''))" if "r \<in> set (rp_roots p)" for r
    using add_roots_from [of r walked "root_entries dir walked (scan_manifest manifest)" "[]"] that
    by (auto simp: roots dest: root_entry_below)
  moreover have "sorted (map (\<lambda>r. (cr_kind r, cr_file r)) (rp_roots p))" by (simp add: roots)
  ultimately show ?thesis using lib by blast
qed

definition tool_manifest :: string where
  "tool_manifest = ''[package]'' @ [NEWLINE] @ ''name = '' @ [QUOTE] @ ''my-tool'' @ [QUOTE] @ [NEWLINE] @ ''[lib]'' @ [NEWLINE]
     @ ''path = '' @ [QUOTE] @ ''../other/lib.rs'' @ [QUOTE]"

lemma tool_package:
  "package_of ''tool'' tool_manifest [''tool/src/main.rs'', ''tool/tests/a.rs'', ''other/lib.rs''] =
     Some \<lparr>rp_dir = ''tool'', rp_name = ''my-tool'', rp_lib = None,
       rp_roots = [\<lparr>cr_file = ''tool/src/main.rs'', cr_kind = Root_Bin\<rparr>, \<lparr>cr_file = ''tool/tests/a.rs'', cr_kind = Root_Test\<rparr>]\<rparr>"
  by code_simp

theorem crate_roots_inside_witness:
  "distinct [''tool/src/main.rs'', ''tool/tests/a.rs''] \<and> starts_with ''tool/src/main.rs'' ''tool/''"
  using crate_roots_inside [OF tool_package] by simp

end
