(* ===== verification/RsEdgeFacts.thy ===== *)
theory RsEdgeFacts
  imports RsFacts
begin

text \<open>
  The Rust edges are closed: an edge starts in a walked file and leads to a definition the same files add to the
  graph, of a kind the edge may lead to, and the counters are exact.
\<close>

section \<open>Edges to definitions\<close>

definition declares_kind :: "graph_def list \<Rightarrow> string \<Rightarrow> string \<Rightarrow> (graph_def \<Rightarrow> bool) \<Rightarrow> bool" where
  "declares_kind defs i f P \<longleftrightarrow> (\<exists>d \<in> set defs. d_id d = i \<and> d_file d = f \<and> P d)"

fun closed_rust_edge :: "string set \<Rightarrow> graph_def list \<Rightarrow> edge \<Rightarrow> bool" where
  "closed_rust_edge files defs (Uses_Member f line i to_file heuristic tier member prov sig) \<longleftrightarrow>
     f \<in> files \<and> \<not> heuristic \<and> tier = None
     \<and> declares_kind defs i to_file (\<lambda>d. d_kind d = ''fn'' \<and> member = Some (d_name d))"
| "closed_rust_edge files defs (Uses_Type f line i to_file heuristic) \<longleftrightarrow>
     f \<in> files \<and> \<not> heuristic \<and> declares_kind defs i to_file (\<lambda>d. d_kind d \<in> set TYPE_KINDS)"
| "closed_rust_edge files defs (Implements f line i to_file member) \<longleftrightarrow>
     f \<in> files \<and> declares_kind defs i to_file (\<lambda>d. d_kind d = ''trait'')"
| "closed_rust_edge files defs (Ambiguous origin f line raw cands n) \<longleftrightarrow>
     f \<in> files \<and> origin \<in> {''uses-member'', ''uses-type'', ''implements''} \<and> 1 \<le> n \<and> length cands = min AMBIGUOUS_CAP n
     \<and> distinct (map cand_id cands) \<and> sorted (map cand_id cands)
     \<and> list_all (\<lambda>c. declares_kind defs (cand_id c) (cand_file c) (\<lambda>_. True)) cands"
| "closed_rust_edge files defs _ \<longleftrightarrow> False"

definition rust_tally :: "edge list \<Rightarrow> edges_by_kind" where
  "rust_tally es = no_edges\<lparr>ek_uses_member := length (filter is_Uses_Member es),
     ek_uses_type := length (filter is_Uses_Type es), ek_implements := length (filter is_Implements es)\<rparr>"

definition edges_ok :: "string set \<Rightarrow> graph_def list \<Rightarrow> edge list \<times> edges_by_kind \<Rightarrow> bool" where
  "edges_ok files defs st \<longleftrightarrow> list_all (closed_rust_edge files defs) (fst st) \<and> snd st = rust_tally (fst st)"

text \<open>The definitions of the graph hold a row of the tables.\<close>

definition rows_declared :: "graph_def list \<Rightarrow> tables \<Rightarrow> bool" where
  "rows_declared defs t \<longleftrightarrow>
     (\<forall>r \<in> set (tb_defs t). \<exists>d \<in> set defs. d_id d = rd_id r \<and> d_file d = rd_rel r \<and> d_kind d = rd_kind r \<and> d_name d = rd_name r)"

lemma row_declared:
  "rows_declared defs t \<Longrightarrow> i < length (tb_defs t)
     \<Longrightarrow> \<exists>d \<in> set defs. d_id d = rd_id (tb_defs t ! i) \<and> d_file d = rd_rel (tb_defs t ! i) \<and> d_kind d = rd_kind (tb_defs t ! i)
           \<and> d_name d = rd_name (tb_defs t ! i)"
  by (simp add: rows_declared_def)

lemma kind_of_cases:
  assumes "kind_of t i role is_last = Some kind"
  shows "case kind of
      Kind_Uses_Member \<Rightarrow> rd_kind (tb_defs t ! i) = ''fn''
    | Kind_Uses_Type \<Rightarrow> rd_kind (tb_defs t ! i) \<in> set TYPE_KINDS
    | Kind_Implements \<Rightarrow> rd_kind (tb_defs t ! i) = ''trait''"
  using assms by (cases role) (auto simp: kind_of_def Let_def is_type_def TYPE_KINDS_def split: if_splits)

lemma bound_edge_closed:
  assumes "kind_of t i role is_last = Some kind" "rows_declared defs t" "i < length (tb_defs t)" "rel \<in> files"
  shows "closed_rust_edge files defs (bound_edge t kind rel line i)"
proof -
  from row_declared [OF assms(2,3)] kind_of_cases [OF assms(1)] assms(4)
  show ?thesis
    by (cases kind) (auto simp: bound_edge_def uses_member_def declares_kind_def Let_def)
qed

lemma bound_edge_tally: "rust_tally (out @ [bound_edge t kind rel line i]) = count_edge kind (rust_tally out)"
  by (cases kind) (simp_all add: bound_edge_def uses_member_def rust_tally_def Let_def)

lemma ambiguous_tally: "rust_tally (out @ [Ambiguous origin rel line raw cands n]) = rust_tally out"
  by (simp add: rust_tally_def)

text \<open>The kept elements of \<open>dedup_on\<close>: a subset with the same keys, in order.\<close>

lemma dedup_on_set: "set (dedup_on key xs) \<subseteq> set xs"
  by (induction key xs rule: dedup_on.induct) auto

lemma dedup_on_Nil [simp]: "dedup_on key xs = [] \<longleftrightarrow> xs = []"
  by (induction key xs rule: dedup_on.induct) auto

lemma dedup_on_sorted:
  "sorted (map key xs) \<Longrightarrow> sorted (map key (dedup_on key xs)) \<and> distinct (map key (dedup_on key xs))"
proof (induction key xs rule: dedup_on.induct)
  case (3 key x y ys)
  show ?case
  proof (cases "key x = key y")
    case False
    have sub: "set (dedup_on key (y # ys)) \<subseteq> set (y # ys)" by (rule dedup_on_set)
    have "key y \<le> key z" if "z \<in> set (y # ys)" for z using 3(3) that by auto
    moreover have "key x \<le> key y" using 3(3) by simp
    ultimately have less: "key x < key z" if "z \<in> set (dedup_on key (y # ys))" for z
      using that sub False by (metis order_le_imp_less_or_eq order_less_le_trans subsetD)
    with 3(2) [OF False] 3(3) False show ?thesis by (auto dest: less)
  qed (use 3 in simp)
qed simp_all

lemma first_some_witness: "first_some p xs = Some y \<Longrightarrow> xs \<noteq> []"
  by (auto simp: first_some_def)

lemma ambiguous_closed:
  assumes "ambiguous_edge t targets role is_last rel line written = Some e"
    and "targets_ok (length (tb_defs t)) targets" "rows_declared defs t" "rel \<in> files"
  shows "closed_rust_edge files defs e \<and> rust_tally (out @ [e]) = rust_tally out"
proof -
  define id_of where "id_of = (\<lambda>d. rd_id (tb_defs t ! d))"
  define ds where "ds = dedup_on id_of (sort_key id_of (List.map_filter target_def targets))"
  define cands where "cands = map (\<lambda>d. \<lparr>cand_id = rd_id (tb_defs t ! d), cand_file = rd_rel (tb_defs t ! d)\<rparr>) (take AMBIGUOUS_CAP ds)"
  from assms(1) obtain kind where kind: "first_some (\<lambda>d. kind_of t d role is_last) ds = Some kind"
    and e: "e = Ambiguous (kind_label kind) rel line (str_join ''::'' written) cands (length ds)"
    unfolding ambiguous_edge_def id_of_def [symmetric] Let_def ds_def [symmetric] cands_def [symmetric] by blast
  have "1 \<le> length ds" using first_some_witness [OF kind] by (cases ds) simp_all
  moreover have "length cands = min AMBIGUOUS_CAP (length ds)" by (simp add: cands_def)
  moreover have keys: "map cand_id cands = take AMBIGUOUS_CAP (map id_of ds)" by (simp add: cands_def id_of_def take_map)
  have "sorted (map id_of ds) \<and> distinct (map id_of ds)" unfolding ds_def by (rule dedup_on_sorted) simp
  then have "distinct (map cand_id cands)" "sorted (map cand_id cands)" by (simp_all add: keys sorted_wrt_take)
  moreover have "list_all (\<lambda>c. declares_kind defs (cand_id c) (cand_file c) (\<lambda>_. True)) cands"
  proof -
    have "d < length (tb_defs t)" if "d \<in> set ds" for d
      using that dedup_on_set [of id_of "sort_key id_of (List.map_filter target_def targets)"] assms(2)
      by (auto simp: ds_def set_filtered targets_ok_def elim!: target_def.elims)
    then show ?thesis
      using row_declared [OF assms(3)]
      by (fastforce simp: cands_def list_all_iff declares_kind_def dest: in_set_takeD)
  qed
  moreover have "kind_label kind \<in> {''uses-member'', ''uses-type'', ''implements''}" by (cases kind) simp_all
  ultimately show ?thesis using assms(4) by (simp add: e ambiguous_tally)
qed

lemma step_edge_ok:
  assumes "edges_ok files defs st" "step_ok (length (tb_defs t)) (snd row)" "rows_declared defs t" "rel \<in> files"
  shows "edges_ok files defs (step_edge t rel s segs lines row st)"
proof -
  obtain i bstep out counts where rows: "row = (i, bstep)" "st = (out, counts)" by (cases row; cases st)
  let ?last = "i + 1 = length segs" let ?line = "case get lines i of Some n \<Rightarrow> n | None \<Rightarrow> rt_line s"
  show ?thesis
  proof (cases bstep)
    case (Step_Bound x)
    show ?thesis
    proof (cases x)
      case (T_Def d)
      with assms(2) rows Step_Bound have "d < length (tb_defs t)" by (simp add: step_ok_def)
      from bound_edge_closed [OF _ assms(3) this assms(4)] assms(1) rows Step_Bound T_Def
      show ?thesis by (auto simp: step_edge_def Let_def edges_ok_def bound_edge_tally split: option.splits)
    qed (use assms(1) rows Step_Bound in \<open>simp add: step_edge_def Let_def\<close>)
  next
    case (Step_Ambiguous targets)
    show ?thesis
    proof (cases "ambiguous_edge t targets (rt_role s) ?last rel ?line (take (i + 1) segs)")
      case (Some e)
      from ambiguous_closed [OF Some _ assms(3,4), of out] assms(1,2) rows Step_Ambiguous Some
      show ?thesis by (simp add: step_edge_def Let_def edges_ok_def step_ok_def)
    qed (use assms(1) rows Step_Ambiguous in \<open>simp add: step_edge_def Let_def\<close>)
  qed (use assms(1) rows in \<open>simp_all add: step_edge_def Let_def\<close>)
qed

lemma site_edges_ok:
  assumes "edges_ok files defs st" "tables_in_range t" "rows_declared defs t" "rel \<in> files"
  shows "edges_ok files defs (site_edges tree t f rel s st)"
proof (cases "node_of tree f (rt_scope s)")
  case (Some module)
  define fr where "fr = \<lparr>bf_module = module, bf_file = f, bf_block = rt_block s, bf_self_def = site_self_def t f s, bf_import = False\<rparr>"
  define steps where "steps = fst (bind_walk tree t fr (path_segments (rt_path s)) (role_last_ns (rt_role s)))"
  have "d < length (tb_defs t)" if "site_self_def t f s = Some d" for d
    using that assms(2) by (auto simp: site_self_def_def tables_in_range_def bind_eq_Some_conv split: option.splits)
  then have "list_all (step_ok (length (tb_defs t))) steps"
    unfolding steps_def by (intro bind_walk_ok assms(2)) (simp add: fr_def)
  then have ok: "step_ok (length (tb_defs t)) (snd row)" if "row \<in> set (enumerate 0 steps)" for row
    using that by (cases row) (auto simp: in_set_enumerate_eq list_all_length)
  have "edges_ok files defs (fold (step_edge t rel s (path_segments (rt_path s)) (segment_lines s)) (enumerate 0 steps) st)"
    using ok assms(1)
    by (intro fold_invariant [where Q = "\<lambda>row. step_ok (length (tb_defs t)) (snd row)" and P = "edges_ok files defs"])
       (simp_all add: step_edge_ok assms(3,4))
  with Some show ?thesis unfolding site_edges_def fr_def steps_def Let_def by simp
qed (simp add: site_edges_def assms(1))

lemma rust_edges_ok:
  assumes "tables_in_range t" "rows_declared defs t"
  shows "edges_ok (set (map fst fs)) defs (rust_edges tree t fs)"
proof -
  let ?files = "set (map fst fs)"
  have each: "edges_ok ?files defs (fold (site_edges tree t f rel) sites st)"
    if "edges_ok ?files defs st" "rel \<in> ?files" for f rel sites st
    using that(1) by (intro fold_keeps [where P = "edges_ok ?files defs"] site_edges_ok assms that(2))
  show ?thesis
    unfolding rust_edges_def
  proof (rule fold_invariant [where Q = "\<lambda>row. fst (snd row) \<in> ?files" and P = "edges_ok ?files defs"])
    show "fst (snd row) \<in> ?files" if "row \<in> set (numbered fs)" for row
      using that by (auto simp: numbered_def set_zip)
    show "edges_ok ?files defs ([], no_edges)" by (simp add: edges_ok_def rust_tally_def no_edges_def)
    show "edges_ok ?files defs ((\<lambda>(f, rel, frag) st. fold (site_edges tree t f rel) (rg_sites frag) st) row st)"
      if "fst (snd row) \<in> ?files" "edges_ok ?files defs st" for row st
      using that by (cases row) (simp add: each del: set_map)
  qed
qed

section \<open>The definitions added\<close>

lemma append_defs:
  "g_defs (fst (append_rust fs gs)) = g_defs (fst gs) @ concat (map (\<lambda>(f, frag). map (item_def f frag) (rg_items frag)) fs)"
proof -
  have "map (\<lambda>((f, frag), item). item_def f frag item) (concat (map (\<lambda>(f, frag). map (Pair (f, frag)) (rg_items frag)) rows))
      = concat (map (\<lambda>(f, frag). map (item_def f frag) (rg_items frag)) rows)" for rows :: rs_files
    by (induction rows) auto
  then show ?thesis by (cases gs) (simp add: append_rust_def Let_def)
qed

lemma item_rows_declared:
  assumes "set (tb_defs t) \<subseteq> item_rows fs" "set (concat (map (\<lambda>(f, frag). map (item_def f frag) (rg_items frag)) fs)) \<subseteq> set defs"
  shows "rows_declared defs t"
  unfolding rows_declared_def
proof
  fix r assume "r \<in> set (tb_defs t)"
  with assms(1) obtain f rel frag item where at: "f < length fs" "fs ! f = (rel, frag)" "item \<in> set (rg_items frag)"
    and r: "r = item_row f rel item" by (auto simp: item_rows_def)
  from at(1,2) have "(rel, frag) \<in> set fs" by (metis nth_mem)
  with at(3) assms(2) have "item_def rel frag item \<in> set defs" by force
  then show "\<exists>d \<in> set defs. d_id d = rd_id r \<and> d_file d = rd_rel r \<and> d_kind d = rd_kind r \<and> d_name d = rd_name r"
    by (intro bexI [of _ "item_def rel frag item"]) (simp_all add: r item_row_def item_def_def)
qed

text \<open>
  C6. The Rust part of the graph is closed. Appending the rows and then the edges leaves what the graph held in
  front; every edge added starts in a walked file and leads to a definition of the graph under the very file it
  names: a \<open>uses-member\<close> to a function, with its name as the member and never as a guess, a \<open>uses-type\<close> to a type,
  an \<open>implements\<close> to a trait, an \<open>ambiguous\<close> edge to at most \<open>AMBIGUOUS_CAP\<close> definitions in the order of their
  distinct ids. The three counters grow by the numbers of edges of their kinds, and no other changes.
\<close>

theorem rust_graph_closed:
  "let out = append_rust_edges fs crates (append_rust fs gs) in
   \<exists>es. g_edges (fst out) = g_edges (fst gs) @ es
    \<and> list_all (closed_rust_edge (set (map fst fs)) (g_defs (fst out))) es
    \<and> sx_edges_by_kind (snd out) = (sx_edges_by_kind (snd gs))\<lparr>
         ek_uses_member := ek_uses_member (sx_edges_by_kind (snd gs)) + length (filter is_Uses_Member es),
         ek_uses_type := ek_uses_type (sx_edges_by_kind (snd gs)) + length (filter is_Uses_Type es),
         ek_implements := ek_implements (sx_edges_by_kind (snd gs)) + length (filter is_Implements es)\<rparr>"
proof (cases "fs = []")
  case True
  then show ?thesis by (simp add: append_rust_edges_def append_rust_def)
next
  case False
  define out where "out = append_rust_edges fs crates (append_rust fs gs)"
  obtain tree t where b: "rust_binder fs crates = (tree, t)" by (cases "rust_binder fs crates")
  obtain es counts where es: "rust_edges tree t fs = (es, counts)" by (cases "rust_edges tree t fs")
  obtain g s where gs: "gs = (g, s)" by (cases gs)
  obtain g' s' where gs': "append_rust fs gs = (g', s')" by (cases "append_rust fs gs")
  have same: "g_edges g' = g_edges g" "sx_edges_by_kind s' = sx_edges_by_kind s"
    using gs' gs False by (auto simp: append_rust_def Let_def)
  have defs: "g_defs (fst out) = g_defs g'"
    using False b es gs' by (simp add: out_def append_rust_edges_def Let_def)
  have "rows_declared (g_defs g') t"
    using item_rows_declared [OF binder_tables(2) [OF b]] append_defs [of fs gs] gs' by simp
  from rust_edges_ok [OF binder_tables(1) [OF b] this, of fs tree] es
  have ok: "list_all (closed_rust_edge (set (map fst fs)) (g_defs g')) es" "counts = rust_tally es"
    by (simp_all add: edges_ok_def)
  with False b es gs' show ?thesis
    unfolding Let_def out_def [symmetric] defs
    by (intro exI [of _ es]) (simp add: out_def append_rust_edges_def same gs rust_tally_def no_edges_def Let_def)
qed

end
