(* ===== verification/RsWorklist.thy ===== *)
theory RsWorklist
  imports RsEdgeFacts
begin

text \<open>
  The worklist of \<open>resolve_leaves\<close> as a state machine. A lookup reads a leaf's binding only in a module it reports as
  consulted, so a leaf that is not queued keeps the binding its path now has: whenever the queue runs empty, the
  bindings are a fixed point. The lists of a module hold that module's leaves only, the law of the locale below.
\<close>

section \<open>A lookup reads what it reports\<close>

text \<open>\<open>changed_in M t t'\<close>: of the module-level leaves, the bindings differ at those of module \<open>M\<close> only.\<close>

definition changed_in :: "nat \<Rightarrow> tables \<Rightarrow> tables \<Rightarrow> bool" where
  "changed_in M t t' \<longleftrightarrow>
     (\<exists>rs. t' = t\<lparr>tb_resolved := rs\<rparr>) \<and> (\<forall>k. leaf_bound t' k \<noteq> leaf_bound t k \<longrightarrow> lf_block (tb_leaves t ! k) = None \<longrightarrow> lf_module (tb_leaves t ! k) = M)"

definition leaf_in :: "tables \<Rightarrow> nat \<Rightarrow> nat \<Rightarrow> bool" where
  "leaf_in t m k \<longleftrightarrow> lf_module (tb_leaves t ! k) = m \<and> lf_block (tb_leaves t ! k) = None"

definition own_leaves :: "tables \<Rightarrow> bool" where
  "own_leaves t \<longleftrightarrow>
     (\<forall>m name ls. tb_module_named t m name = Some ls \<longrightarrow> (\<forall>k \<in> set ls. leaf_in t m k))
     \<and> (\<forall>m. \<forall>k \<in> set (tb_module_globs t m). leaf_in t m k)"

locale one_module_changed =
  fixes M :: nat and t t' :: tables
  assumes changed: "changed_in M t t'" and own: "own_leaves t"
begin

lemma tables_same:
  "tb_items t' = tb_items t" "tb_module_named t' = tb_module_named t" "tb_module_globs t' = tb_module_globs t"
  "tb_opaque_modules t' = tb_opaque_modules t" "tb_defs t' = tb_defs t" "tb_assoc t' = tb_assoc t"
  "tb_leaves t' = tb_leaves t"
  using changed by (auto simp: changed_in_def)

lemma leaf_same: "leaf_in t m k \<Longrightarrow> m \<noteq> M \<Longrightarrow> leaf_bound t' k = leaf_bound t k"
  using changed by (auto simp: changed_in_def leaf_in_def)

lemma level_same:
  assumes "\<forall>k \<in> set ls. leaf_in t m k" "m \<noteq> M"
  shows "level_of t' ns ls found = level_of t ns ls found"
proof -
  have same: "leaf_bound t' k = leaf_bound t k" if "k \<in> set ls" for k using leaf_same assms that by blast
  have "fold (\<lambda>l out. extend_unique out (bound_get ns (leaf_bound t' l))) ls found
      = fold (\<lambda>l out. extend_unique out (bound_get ns (leaf_bound t l))) ls found"
    by (intro fold_cong) (simp_all add: same)
  moreover have "list_ex (\<lambda>l. bound_empty (leaf_bound t' l)) ls = list_ex (\<lambda>l. bound_empty (leaf_bound t l)) ls"
    by (auto simp: list_ex_iff same)
  ultimately show ?thesis by (simp add: level_of_def)
qed

lemma explicit_same:
  assumes "m \<noteq> M"
  shows "explicit t' m name ns = explicit t m name ns"
proof -
  have "\<forall>k \<in> set (case tb_module_named t m name of Some ls \<Rightarrow> ls | None \<Rightarrow> []). leaf_in t m k"
    using own by (cases "tb_module_named t m name") (auto simp: own_leaves_def)
  then show ?thesis unfolding explicit_def tables_same using assms by (rule level_same)
qed

lemma glob_targets_same:
  assumes "m \<noteq> M"
  shows "glob_targets t' (tb_module_globs t m) = glob_targets t (tb_module_globs t m)"
proof -
  have "glob_modules t' g = glob_modules t g" if "g \<in> set (tb_module_globs t m)" for g
  proof -
    have "leaf_in t m g" using own that by (simp add: own_leaves_def)
    with assms show ?thesis by (simp add: glob_modules_def leaf_same)
  qed
  then show ?thesis by (simp add: glob_targets_def list_ex_iff cong: map_cong)
qed

lemma glob_step_same: "m \<noteq> M \<Longrightarrow> glob_step t' name ns m st = glob_step t name ns m st"
  unfolding glob_step_def tables_same
  by (cases "explicit t m name ns") (simp_all add: explicit_same glob_targets_same)

end

lemma glob_step_probes: "gl_probes (snd (glob_step t name ns m st)) = gl_probes st @ [m]"
  by (auto simp: glob_step_def Let_def split: level.split prod.split)

lemma glob_search_probes: "set (gl_probes st) \<subseteq> set (gl_probes (glob_search t name ns queue seen st))"
proof (induction t name ns queue seen st rule: glob_search.induct)
  case (2 t name ns m queue seen st)
  show ?case
  proof (cases "m \<in> seen")
    case False
    obtain nx st' where s: "glob_step t name ns m st = (nx, st')" by (cases "glob_step t name ns m st")
    have "set (gl_probes st) \<subseteq> set (gl_probes st')" using glob_step_probes [of t name ns m st] s by auto
    with 2(2) [OF False s [symmetric]] False s show ?thesis by (auto simp: glob_search.simps)
  qed (use 2(1) in \<open>simp add: glob_search.simps\<close>)
qed (simp add: glob_search.simps)

context one_module_changed
begin

lemma glob_search_at:
  "u = t \<Longrightarrow> M \<notin> set (gl_probes (glob_search u name ns queue seen st))
     \<Longrightarrow> glob_search t' name ns queue seen st = glob_search u name ns queue seen st"
proof (induction u name ns queue seen st rule: glob_search.induct)
  case (2 u name ns m queue seen st)
  show ?case
  proof (cases "m \<in> seen")
    case True
    with 2 show ?thesis by (simp add: glob_search.simps)
  next
    case False
    obtain nx st' where s: "glob_step u name ns m st = (nx, st')" by (cases "glob_step u name ns m st")
    have rest: "glob_search u name ns (m # queue) seen st = glob_search u name ns (queue @ nx) (insert m seen) st'"
      using False s by (simp add: glob_search.simps)
    have "m \<in> set (gl_probes st')" using glob_step_probes [of u name ns m st] s by simp
    then have "m \<noteq> M" using 2(4) glob_search_probes [of st' u name ns "queue @ nx" "insert m seen"] rest by auto
    then have "glob_step t' name ns m st = (nx, st')" using s 2(3) by (simp add: glob_step_same)
    then have "glob_search t' name ns (m # queue) seen st = glob_search t' name ns (queue @ nx) (insert m seen) st'"
      using False by (simp add: glob_search.simps)
    with 2(2) [OF False s [symmetric] 2(3)] 2(4) rest show ?thesis by simp
  qed
qed (simp add: glob_search.simps)

lemmas glob_search_same = glob_search_at [OF refl]

lemma through_globs_same:
  assumes "m \<noteq> M" "M \<notin> set (gl_probes (through_globs t (tb_module_globs t m) name ns))"
  shows "through_globs t' (tb_module_globs t m) name ns = through_globs t (tb_module_globs t m) name ns"
  using assms(2) unfolding through_globs_def glob_targets_same [OF assms(1)]
  by (simp add: case_prod_beta glob_search_same)

lemma in_module_same:
  assumes "M \<notin> set (snd (in_module t m name ns imp))"
  shows "in_module t' m name ns imp = in_module t m name ns imp"
proof -
  have "m \<noteq> M" using assms by (auto simp: in_module_def Let_def split: level.splits if_splits)
  then show ?thesis
    using assms unfolding in_module_def tables_same
    by (auto simp: explicit_same Let_def through_globs_same split: level.split if_splits)
qed

lemma in_scope_same:
  assumes "bf_block fr = None" "M \<notin> set (snd (in_scope tree t fr name ns))"
  shows "in_scope tree t' fr name ns = in_scope tree t fr name ns"
proof -
  have "in_blocks u f None name ns imp = (None, [])" for u f imp by (simp add: in_blocks_def)
  with assms show ?thesis
    by (auto simp: in_scope_def in_module_same split: prod.splits option.splits)
qed

lemma associated_same: "associated t' d name ns = associated t d name ns"
  unfolding associated_def tables_same by (rule refl)

lemma bind_segment_same:
  assumes "bf_block fr = None" "M \<notin> set (snd (bind_segment tree t fr current name ns))"
  shows "bind_segment tree t' fr current name ns = bind_segment tree t fr current name ns"
  using assms
  by (auto simp: bind_segment_def in_scope_same associated_same case_prod_beta in_module_same split: option.splits target.splits if_splits)

lemma bind_segments_same:
  assumes "bf_block fr = None"
  shows "M \<notin> set (snd (bind_segments tree t fr last_ns current segs))
    \<Longrightarrow> bind_segments tree t' fr last_ns current segs = bind_segments tree t fr last_ns current segs"
proof (induction segs arbitrary: current)
  case (Cons seg segs)
  obtain ts probes where b: "bind_segment tree t fr current seg (if segs = [] then last_ns else Ns_Type) = (ts, probes)"
    by (cases "bind_segment tree t fr current seg (if segs = [] then last_ns else Ns_Type)")
  consider "ts = []" | one where "ts = [one]" | x y zs where "ts = x # y # zs" by (metis remdups_adj.cases)
  then show ?case
  proof cases
    case 1
    with Cons.prems b bind_segment_same [OF assms, of tree current seg] show ?thesis by simp
  next
    case 2
    with Cons.prems b have "M \<notin> set probes" "M \<notin> set (snd (bind_segments tree t fr last_ns (Some one) segs))"
      by (auto simp: case_prod_beta)
    with 2 b Cons.IH bind_segment_same [OF assms, of tree current seg] show ?thesis by simp
  next
    case 3
    with Cons.prems b bind_segment_same [OF assms, of tree current seg] show ?thesis by simp
  qed
qed simp

lemma bind_walk_same:
  assumes "bf_block fr = None" "M \<notin> set (snd (bind_walk tree t fr segs last_ns))"
  shows "bind_walk tree t' fr segs last_ns = bind_walk tree t fr segs last_ns"
  using assms by (auto simp: bind_walk_def bind_segments_same case_prod_beta split: option.splits if_splits)

lemma resolve_leaf_same:
  assumes "lf_block l = None" "M \<notin> set (snd (resolve_leaf tree t l))"
  shows "resolve_leaf tree t' l = resolve_leaf tree t l"
proof -
  have "bf_block (leaf_from l) = None" using assms(1) by (simp add: leaf_from_def)
  with assms(2) show ?thesis
    by (auto simp: resolve_leaf_def Let_def case_prod_beta bind_walk_same split: if_splits)
qed

end

section \<open>The lists of a module\<close>

text \<open>The scan registers a leaf under its own module; a binding changed at one leaf meets the law.\<close>

definition leaves_listed :: "tables \<Rightarrow> bool" where
  "leaves_listed t \<longleftrightarrow>
     own_leaves t
     \<and> (\<forall>m name ls. tb_module_named t m name = Some ls \<longrightarrow> (\<forall>k \<in> set ls. k < length (tb_leaves t)))
     \<and> (\<forall>m. \<forall>k \<in> set (tb_module_globs t m). k < length (tb_leaves t))"

lemma push_at_keys:
  "push_at key i m k = Some ls \<Longrightarrow> x \<in> set ls \<Longrightarrow> k = key \<and> x = i \<or> (\<exists>old. m k = Some old \<and> x \<in> set old)"
  by (auto simp: push_at_def split: if_splits option.splits)

lemma add_item_leaves:
  "leaves_listed (add_item tree f rel frag item t) \<longleftrightarrow> leaves_listed t"
  by (simp add: leaves_listed_def own_leaves_def leaf_in_def add_item_def Let_def split: option.split)

lemma add_opaque_leaves: "leaves_listed (add_opaque tree f s t) \<longleftrightarrow> leaves_listed t"
  by (simp add: leaves_listed_def own_leaves_def leaf_in_def add_opaque_def split: option.split)

lemma listed_grow:
  assumes "leaves_listed t" "tb_module_named t m name = Some ls \<and> k \<in> set ls \<or> k \<in> set (tb_module_globs t m)"
    and "tb_leaves t' = tb_leaves t @ [l]"
  shows "leaf_in t' m k" "k < length (tb_leaves t')"
proof -
  from assms(1,2) have "leaf_in t m k" "k < length (tb_leaves t)" unfolding leaves_listed_def own_leaves_def by blast+
  with assms(3) show "leaf_in t' m k" "k < length (tb_leaves t')" by (simp_all add: leaf_in_def nth_append)
qed

lemma leaves_listedI:
  assumes "\<And>m name ls k. tb_module_named t m name = Some ls \<Longrightarrow> k \<in> set ls \<Longrightarrow> leaf_in t m k \<and> k < length (tb_leaves t)"
    and "\<And>m k. k \<in> set (tb_module_globs t m) \<Longrightarrow> leaf_in t m k \<and> k < length (tb_leaves t)"
  shows "leaves_listed t"
  using assms unfolding leaves_listed_def own_leaves_def by blast

lemma add_leaf_listed:
  assumes "leaves_listed t"
  shows "leaves_listed (add_leaf tree f u t)"
proof (cases "node_of tree f (us_scope u)")
  case (Some module)
  define l where "l = \<lparr>lf_file = f, lf_module = module, lf_block = us_block u, lf_segments = path_segments (us_path u), lf_name = us_name u\<rparr>"
  define t' where "t' = add_leaf tree f u t"
  have leaves: "tb_leaves t' = tb_leaves t @ [l]"
    using Some by (auto simp: t'_def l_def add_leaf_def Let_def split: option.split bool.split)
  have old: "leaf_in t' m k" "k < length (tb_leaves t')"
    if "tb_module_named t m name = Some ls \<and> k \<in> set ls \<or> k \<in> set (tb_module_globs t m)" for m name ls k
    using listed_grow [OF assms that leaves] by simp_all
  have new: "leaf_in t' module (length (tb_leaves t)) \<and> length (tb_leaves t) < length (tb_leaves t')" if "us_block u = None"
    using that by (simp add: leaf_in_def leaves l_def)
  have named: "leaf_in t' m k \<and> k < length (tb_leaves t')" if at: "tb_module_named t' m name = Some ls" "k \<in> set ls" for m name ls k
  proof -
    have "tb_module_named t m name = Some ls
        \<or> us_block u = None \<and> m = module
          \<and> push_at (us_name u) (length (tb_leaves t)) (tb_module_named t module) name = Some ls"
      using at(1) Some by (auto simp: t'_def add_leaf_def Let_def split: option.splits bool.splits if_splits)
    then show ?thesis
    proof
      assume "us_block u = None \<and> m = module
          \<and> push_at (us_name u) (length (tb_leaves t)) (tb_module_named t module) name = Some ls"
      then have u: "us_block u = None" "m = module"
        and p: "push_at (us_name u) (length (tb_leaves t)) (tb_module_named t module) name = Some ls" by simp_all
      from push_at_keys [OF p at(2)] u new old [of m name _ k] show ?thesis by auto
    qed (use at(2) old in blast)
  qed
  have globs: "leaf_in t' m k \<and> k < length (tb_leaves t')" if at: "k \<in> set (tb_module_globs t' m)" for m k
  proof -
    have "k \<in> set (tb_module_globs t m) \<or> us_block u = None \<and> m = module \<and> k = length (tb_leaves t)"
      using at Some by (auto simp: t'_def add_leaf_def Let_def split: option.splits bool.splits if_splits)
    with new old [of m _ _ k] show ?thesis by auto
  qed
  show ?thesis unfolding t'_def [symmetric] using named globs by (rule leaves_listedI)
qed (use assms in \<open>simp add: add_leaf_def\<close>)

lemma scope_tables_listed: "own_leaves (scope_tables fs tree)"
proof -
  have "leaves_listed (empty_tables fs)" by (simp add: leaves_listed_def own_leaves_def empty_tables_def)
  moreover have "leaves_listed t \<Longrightarrow> leaves_listed (add_fragment tree row t)" for row t
    by (cases row)
       (auto simp: add_fragment_def intro!: fold_keeps [where P = leaves_listed]
          simp: add_opaque_leaves add_leaf_listed add_item_leaves)
  ultimately have "leaves_listed (fold (add_fragment tree) (numbered fs) (empty_tables fs))"
    by (intro fold_keeps [where P = leaves_listed])
  then show ?thesis by (simp add: leaves_listed_def scope_tables_def Let_def own_leaves_def leaf_in_def)
qed

lemma own_leaves_resolved [simp]: "own_leaves (t\<lparr>tb_resolved := rs\<rparr>) \<longleftrightarrow> own_leaves t"
  by (simp add: own_leaves_def leaf_in_def)

lemma changed_at:
  "changed_in (lf_module (tb_leaves t ! l)) (t\<lparr>tb_resolved := rs\<rparr>) (t\<lparr>tb_resolved := rs[l := b]\<rparr>)"
proof -
  have "rs[l := b] ! k = rs ! k" if "k \<noteq> l" for k using that by simp
  then have "k = l" if "leaf_bound (t\<lparr>tb_resolved := rs[l := b]\<rparr>) k \<noteq> leaf_bound (t\<lparr>tb_resolved := rs\<rparr>) k" for k
    using that by (cases "k = l") (simp_all add: leaf_bound_def)
  then show ?thesis unfolding changed_in_def by auto
qed

interpretation rebound: one_module_changed "lf_module (tb_leaves (scope_tables fs tree) ! l)"
  "(scope_tables fs tree)\<lparr>tb_resolved := rs\<rparr>" "(scope_tables fs tree)\<lparr>tb_resolved := rs[l := b]\<rparr>"
  for fs tree l rs b
  by unfold_locales (simp_all add: changed_at scope_tables_listed)

section \<open>The worklist\<close>

text \<open>A leaf is settled when its binding is what its path has now and the table of dependents holds what it read.\<close>

definition settled :: "mod_tree \<Rightarrow> tables \<Rightarrow> (nat \<Rightarrow> nat set) \<Rightarrow> nat \<Rightarrow> bool" where
  "settled tree t deps l \<longleftrightarrow>
     fst (resolve_leaf tree t (tb_leaves t ! l)) = tb_resolved t ! l
     \<and> (\<forall>m \<in> set (snd (resolve_leaf tree t (tb_leaves t ! l))). l \<in> deps m)"

text \<open>The state of the loop over the scanned tables \<open>s\<close>; \<open>open_leaves\<close> are those still to be settled.\<close>

definition work_ok :: "mod_tree \<Rightarrow> tables \<Rightarrow> nat set \<Rightarrow> worklist \<Rightarrow> bool" where
  "work_ok tree s open_leaves w \<longleftrightarrow>
     wl_tables w = s\<lparr>tb_resolved := tb_resolved (wl_tables w)\<rparr>
     \<and> length (tb_resolved (wl_tables w)) = length (tb_leaves s)
     \<and> wl_queued w = set (wl_queue w) \<and> distinct (wl_queue w) \<and> set (wl_queue w) \<subseteq> set (module_leaves s)
     \<and> (\<forall>m. wl_dependents w m \<subseteq> set (module_leaves s))
     \<and> (\<forall>l \<in> set (module_leaves s) - open_leaves. settled tree (wl_tables w) (wl_dependents w) l)"

lemma note_probes_at: "note_probes l probes deps m = (if m \<in> set probes then insert l (deps m) else deps m)"
  unfolding note_probes_def by (induction probes arbitrary: deps) auto

lemma requeue_ok:
  "wl_queued w = set (wl_queue w) \<Longrightarrow> distinct (wl_queue w)
     \<Longrightarrow> wl_queued (requeue ls w) = set (wl_queue (requeue ls w)) \<and> distinct (wl_queue (requeue ls w))
       \<and> set (wl_queue (requeue ls w)) = set (wl_queue w) \<union> set ls \<and> wl_dependents (requeue ls w) = wl_dependents w"
  unfolding requeue_def by (induction ls arbitrary: w) auto

lemma settled_other:
  assumes "settled tree (s\<lparr>tb_resolved := rs\<rparr>) deps k" "k \<notin> deps (lf_module (tb_leaves s ! l))" "k \<noteq> l"
    and "s = scope_tables fs tree" "lf_block (tb_leaves s ! k) = None"
  shows "settled tree (s\<lparr>tb_resolved := rs[l := b]\<rparr>) deps k"
proof -
  have "lf_module (tb_leaves s ! l) \<notin> set (snd (resolve_leaf tree (s\<lparr>tb_resolved := rs\<rparr>) (tb_leaves s ! k)))"
    using assms(1,2) by (auto simp: settled_def)
  from rebound.resolve_leaf_same [OF assms(5) [unfolded assms(4)] this [unfolded assms(4)]] assms(1,3,4)
  show ?thesis by (simp add: settled_def)
qed

lemma module_leaves_iff: "l \<in> set (module_leaves t) \<longleftrightarrow> l < length (tb_leaves t) \<and> lf_block (tb_leaves t ! l) = None"
  by (auto simp: module_leaves_def)

lemma work_leaf_ok:
  assumes "work_ok tree s (insert l (wl_queued w)) w" "l \<in> set (module_leaves s)" "s = scope_tables fs tree"
  shows "work_ok tree s (wl_queued (work_leaf tree l w)) (work_leaf tree l w)"
proof -
  define rs where "rs = tb_resolved (wl_tables w)"
  have t: "wl_tables w = s\<lparr>tb_resolved := rs\<rparr>" and len: "length rs = length (tb_leaves s)"
    and queue: "wl_queued w = set (wl_queue w)" "distinct (wl_queue w)" "set (wl_queue w) \<subseteq> set (module_leaves s)"
    and old_deps: "\<And>m. wl_dependents w m \<subseteq> set (module_leaves s)"
    and old: "\<And>k. k \<in> set (module_leaves s) - insert l (wl_queued w) \<Longrightarrow> settled tree (s\<lparr>tb_resolved := rs\<rparr>) (wl_dependents w) k"
    using assms(1) unfolding work_ok_def rs_def by auto
  have l: "l < length rs" "lf_block (tb_leaves s ! l) = None" using assms(2) len by (simp_all add: module_leaves_iff)
  obtain result probes where r: "resolve_leaf tree (s\<lparr>tb_resolved := rs\<rparr>) (tb_leaves s ! l) = (result, probes)"
    by (cases "resolve_leaf tree (s\<lparr>tb_resolved := rs\<rparr>) (tb_leaves s ! l)")
  define deps where "deps = note_probes l probes (wl_dependents w)"
  have deps: "deps m \<subseteq> set (module_leaves s)" for m using old_deps [of m] assms(2) by (auto simp: deps_def note_probes_at)
  have kept: "settled tree (s\<lparr>tb_resolved := rs\<rparr>) deps k" if "k \<in> set (module_leaves s) - insert l (wl_queued w)" for k
    using old [OF that] by (auto simp: settled_def deps_def note_probes_at)
  have noted: "\<forall>m \<in> set probes. l \<in> deps m" by (simp add: deps_def note_probes_at)
  show ?thesis
  proof (cases "result = rs ! l")
    case True
    then have w: "work_leaf tree l w = w\<lparr>wl_dependents := deps\<rparr>" using r t by (simp add: work_leaf_def Let_def deps_def)
    have "settled tree (s\<lparr>tb_resolved := rs\<rparr>) deps l" using r noted True by (simp add: settled_def)
    with kept show ?thesis unfolding work_ok_def w using t len queue deps by auto
  next
    case False
    let ?M = "lf_module (tb_leaves s ! l)"
    let ?w = "w\<lparr>wl_dependents := deps, wl_tables := s\<lparr>tb_resolved := rs[l := result]\<rparr>\<rparr>"
    have w: "work_leaf tree l w = requeue (sorted_list_of_set (deps ?M)) ?w"
      using r t False by (simp add: work_leaf_def Let_def deps_def)
    have fin: "finite (deps ?M)" using deps [of ?M] by (rule finite_subset) simp
    have rq: "wl_queued (work_leaf tree l w) = set (wl_queue (work_leaf tree l w))" "distinct (wl_queue (work_leaf tree l w))"
      "set (wl_queue (work_leaf tree l w)) = set (wl_queue w) \<union> deps ?M" "wl_dependents (work_leaf tree l w) = deps"
      unfolding w using requeue_ok [of ?w "sorted_list_of_set (deps ?M)"] queue(1,2) fin by simp_all
    have tables: "wl_tables (work_leaf tree l w) = s\<lparr>tb_resolved := rs[l := result]\<rparr>" unfolding w by simp
    have "settled tree (s\<lparr>tb_resolved := rs[l := result]\<rparr>) deps k"
      if k: "k \<in> set (module_leaves s)" "k \<notin> set (wl_queue w) \<union> deps ?M" for k
    proof (cases "k = l")
      case True
      with k noted have "?M \<notin> set probes" by blast
      with r have "?M \<notin> set (snd (resolve_leaf tree (s\<lparr>tb_resolved := rs\<rparr>) (tb_leaves s ! l)))" by simp
      from rebound.resolve_leaf_same [OF l(2) [unfolded assms(3)] this [unfolded assms(3)]] r assms(3)
      have "resolve_leaf tree (s\<lparr>tb_resolved := rs[l := result]\<rparr>) (tb_leaves s ! l) = (result, probes)" by simp
      with True l noted show ?thesis by (simp add: settled_def)
    next
      case False
      with k queue(1) have "settled tree (s\<lparr>tb_resolved := rs\<rparr>) deps k" by (intro kept) simp
      then show ?thesis
        by (rule settled_other) (use False k assms(3) in \<open>simp_all add: module_leaves_iff\<close>)
    qed
    with rq tables len queue(3) deps [of ?M] deps show ?thesis unfolding work_ok_def by auto
  qed
qed

text \<open>The queue runs empty before the budget does.\<close>

fun settles :: "mod_tree \<Rightarrow> nat \<Rightarrow> worklist \<Rightarrow> bool" where
  "settles tree budget w =
     (case wl_queue w of
        [] \<Rightarrow> True
      | l # queue \<Rightarrow>
          (case budget of
             0 \<Rightarrow> False
           | Suc n \<Rightarrow> settles tree n (work_leaf tree l (w\<lparr>wl_queue := queue, wl_queued := wl_queued w - {l}\<rparr>))))"

declare settles.simps [simp del]

lemma run_worklist_ok:
  assumes "work_ok tree s (wl_queued w) w" "s = scope_tables fs tree" "settles tree n w"
  shows "work_ok tree s {} (run_worklist tree n w)"
  using assms(1,3)
proof (induction n arbitrary: w)
  case 0
  then show ?case
    by (cases "wl_queue w") (auto simp: run_worklist.simps settles.simps work_ok_def)
next
  case (Suc n)
  show ?case
  proof (cases "wl_queue w")
    case Nil
    with Suc.prems(1) show ?thesis by (auto simp: run_worklist.simps work_ok_def)
  next
    case (Cons l queue)
    let ?w = "w\<lparr>wl_queue := queue, wl_queued := wl_queued w - {l}\<rparr>"
    have l: "l \<in> set (module_leaves s)" using Suc.prems(1) Cons by (simp add: work_ok_def)
    have "wl_queued w = insert l (wl_queued ?w)" "l \<notin> set queue" using Suc.prems(1) Cons by (auto simp: work_ok_def)
    then have "work_ok tree s (insert l (wl_queued ?w)) ?w" using Suc.prems(1) Cons by (auto simp: work_ok_def)
    from Suc.IH [OF work_leaf_ok [OF this l assms(2)]] Suc.prems(2) Cons show ?thesis
      by (simp add: run_worklist.simps [of tree "Suc n"] settles.simps [of tree "Suc n"])
  qed
qed

section \<open>The bindings are a fixed point\<close>

lemma block_leaf_unread:
  assumes "lf_block (tb_leaves s ! l) \<noteq> None" "lf_block (tb_leaves s ! k) = None" "own_leaves s"
  shows "resolve_leaf tree (s\<lparr>tb_resolved := rs[l := b]\<rparr>) (tb_leaves s ! k) = resolve_leaf tree (s\<lparr>tb_resolved := rs\<rparr>) (tb_leaves s ! k)"
proof -
  obtain M where M: "M \<notin> set (snd (resolve_leaf tree (s\<lparr>tb_resolved := rs\<rparr>) (tb_leaves s ! k)))"
    using ex_new_if_finite [OF infinite_UNIV_nat finite_set] by blast
  have same: "leaf_bound (s\<lparr>tb_resolved := rs[l := b]\<rparr>) j = leaf_bound (s\<lparr>tb_resolved := rs\<rparr>) j" if "j \<noteq> l" for j
    using that by (simp add: leaf_bound_def)
  have "one_module_changed M (s\<lparr>tb_resolved := rs\<rparr>) (s\<lparr>tb_resolved := rs[l := b]\<rparr>)"
  proof
    show "changed_in M (s\<lparr>tb_resolved := rs\<rparr>) (s\<lparr>tb_resolved := rs[l := b]\<rparr>)"
      unfolding changed_in_def
    proof (intro conjI allI impI)
      fix j assume "leaf_bound (s\<lparr>tb_resolved := rs[l := b]\<rparr>) j \<noteq> leaf_bound (s\<lparr>tb_resolved := rs\<rparr>) j"
        "lf_block (tb_leaves (s\<lparr>tb_resolved := rs\<rparr>) ! j) = None"
      moreover from calculation(1) have "j = l" using same by blast
      ultimately show "lf_module (tb_leaves (s\<lparr>tb_resolved := rs\<rparr>) ! j) = M" using assms(1) by simp
    qed auto
  qed (simp add: assms(3))
  from one_module_changed.resolve_leaf_same [OF this assms(2) M] show ?thesis .
qed

definition fixed_leaves :: "mod_tree \<Rightarrow> tables \<Rightarrow> tables \<Rightarrow> bool" where
  "fixed_leaves tree s t \<longleftrightarrow>
     t = s\<lparr>tb_resolved := tb_resolved t\<rparr>
     \<and> (\<forall>l \<in> set (module_leaves s). fst (resolve_leaf tree t (tb_leaves s ! l)) = tb_resolved t ! l)"

lemma work_block_fixed:
  assumes "fixed_leaves tree s (snd st)" "l \<in> set (block_leaves s)" "own_leaves s"
  shows "fixed_leaves tree s (snd (work_block_leaf tree l st))"
proof -
  obtain changed t where st: "st = (changed, t)" by (cases st)
  define rs where "rs = tb_resolved t"
  have t: "t = s\<lparr>tb_resolved := rs\<rparr>" and fixed: "\<And>k. k \<in> set (module_leaves s) \<Longrightarrow> fst (resolve_leaf tree t (tb_leaves s ! k)) = rs ! k"
    using assms(1) st unfolding fixed_leaves_def rs_def by auto
  have block: "lf_block (tb_leaves s ! l) \<noteq> None" using assms(2) by (simp add: block_leaves_def)
  have "fst (resolve_leaf tree (s\<lparr>tb_resolved := rs[l := b]\<rparr>) (tb_leaves s ! k)) = rs[l := b] ! k"
    if k: "k \<in> set (module_leaves s)" for k b
  proof -
    have "lf_block (tb_leaves s ! k) = None" using k by (simp add: module_leaves_iff)
    moreover have "k \<noteq> l" using calculation block by blast
    ultimately show ?thesis using fixed [OF k] block_leaf_unread [OF block _ assms(3)] t by simp
  qed
  then have "fixed_leaves tree s (s\<lparr>tb_resolved := rs[l := b]\<rparr>)" for b by (simp add: fixed_leaves_def)
  moreover have "fixed_leaves tree s t" using assms(1) st by simp
  moreover have "snd (work_block_leaf tree l st) = t \<or> (\<exists>b. snd (work_block_leaf tree l st) = s\<lparr>tb_resolved := rs[l := b]\<rparr>)"
    using st t by (auto simp: work_block_leaf_def Let_def)
  ultimately show ?thesis by auto
qed

lemma block_rounds_fixed:
  assumes "fixed_leaves tree s t" "set ls \<subseteq> set (block_leaves s)" "own_leaves s"
  shows "fixed_leaves tree s (block_rounds tree ls n t)"
  using assms(1)
proof (induction n arbitrary: t)
  case (Suc n)
  obtain changed t' where p: "fold (work_block_leaf tree) ls (False, t) = (changed, t')"
    by (cases "fold (work_block_leaf tree) ls (False, t)")
  have "fixed_leaves tree s (snd (fold (work_block_leaf tree) ls (False, t)))"
    using assms(2,3) Suc.prems
    by (intro fold_invariant [where Q = "\<lambda>l. l \<in> set (block_leaves s)" and P = "\<lambda>st. fixed_leaves tree s (snd st)"])
       (auto simp: work_block_fixed)
  with Suc.IH [of t'] p show ?case by simp
qed simp

lemma start_ok: "s = scope_tables fs tree \<Longrightarrow> work_ok tree s (wl_queued (start_worklist s)) (start_worklist s)"
  by (auto simp: work_ok_def start_worklist_def module_leaves_def scope_tables_def Let_def)

text \<open>
  C7. The bindings of the module-level \<open>use\<close> leaves are a fixed point: when the queue of the worklist runs empty
  within its budget, then in the tables the edges are bound with, every module-level leaf is bound to exactly what
  its path resolves to in those very tables. The leaves inside blocks, resolved afterwards, change none of them.
\<close>

theorem use_leaves_fixed:
  assumes "settles tree (work_budget (scope_tables fs tree)) (start_worklist (scope_tables fs tree))"
  shows "\<forall>l < length (tb_leaves (scope_tables fs tree)).
    lf_block (tb_leaves (scope_tables fs tree) ! l) = None \<longrightarrow>
    fst (resolve_leaf tree (resolve_leaves tree (scope_tables fs tree)) (tb_leaves (scope_tables fs tree) ! l))
      = tb_resolved (resolve_leaves tree (scope_tables fs tree)) ! l"
proof -
  let ?s = "scope_tables fs tree"
  let ?t = "wl_tables (run_worklist tree (work_budget ?s) (start_worklist ?s))"
  have ok: "work_ok tree ?s {} (run_worklist tree (work_budget ?s) (start_worklist ?s))"
    by (rule run_worklist_ok [OF start_ok [OF refl] refl assms])
  then have t: "?t = ?s\<lparr>tb_resolved := tb_resolved ?t\<rparr>"
    and settled: "\<forall>l \<in> set (module_leaves ?s). fst (resolve_leaf tree ?t (tb_leaves ?t ! l)) = tb_resolved ?t ! l"
    unfolding work_ok_def settled_def by blast+
  have leaves: "tb_leaves ?t = tb_leaves ?s" by (subst t) simp
  have "fixed_leaves tree ?s ?t" unfolding fixed_leaves_def using t settled leaves by simp
  then have "fixed_leaves tree ?s (resolve_leaves tree ?s)"
    unfolding resolve_leaves_def resolve_block_leaves_def
    by (rule block_rounds_fixed) (simp_all add: scope_tables_listed leaves block_leaves_def)
  then show ?thesis by (simp add: fixed_leaves_def module_leaves_iff)
qed

definition rs_item_at :: "string \<Rightarrow> string \<Rightarrow> string \<Rightarrow> rs_item" where
  "rs_item_at kind name path =
     \<lparr>it_name = name, it_kind = kind, it_path = path, it_line = 1, it_name_line = 1, it_end_line = 1\<rparr>"

definition oven_files :: rs_files where
  "oven_files = [(''src/lib.rs'', empty_rs_fragment\<lparr>
     rg_items := [rs_item_at ''mod'' ''a'' ''a'', rs_item_at ''struct'' ''T'' ''a::T''],
     rg_uses := [\<lparr>us_scope = [], us_block = None, us_path = ''a::T'', us_name = ''T'', us_line = 1\<rparr>]\<rparr>)]"

definition oven_tree :: mod_tree where
  "oven_tree = build_tree oven_files None"

definition oven_tables :: tables where
  "oven_tables = scope_tables oven_files oven_tree"

lemma oven_settles: "settles oven_tree (work_budget oven_tables) (start_worklist oven_tables)"
  by code_simp

lemma oven_leaf: "length (tb_leaves oven_tables) = 1" "lf_block (tb_leaves oven_tables ! 0) = None"
  by code_simp+

lemma oven_bound: "tb_resolved (resolve_leaves oven_tree oven_tables) ! 0 = \<lparr>bn_types = [T_Def 1], bn_values = []\<rparr>"
  by code_simp

theorem use_leaves_fixed_witness:
  "fst (resolve_leaf oven_tree (resolve_leaves oven_tree oven_tables) (tb_leaves oven_tables ! 0))
     = \<lparr>bn_types = [T_Def 1], bn_values = []\<rparr>"
  using use_leaves_fixed [OF oven_settles [unfolded oven_tables_def]] oven_leaf oven_bound by (simp add: oven_tables_def)

end
