(* ===== verification/QueryTables.thy ===== *)
theory QueryTables
  imports GraphIndex Offsets TsPaths
begin

text \<open>
  The tables of an answer (\<open>src/query/refs_tables.rs\<close>, \<open>src/query/occurrence.rs\<close>, \<open>src/query/refs_member.rs\<close>) and
  the source line a row shows (\<open>src/query/refs.rs\<close>). Reading a file is an argument; the per-file line cache, a memo
  of it within one query, is left out.
\<close>

section \<open>Tables\<close>

definition DEFAULT_CAP :: nat where "DEFAULT_CAP = 50"
definition INBOUND_CAP :: nat where "INBOUND_CAP = 30"
definition OUTBOUND_CAP :: nat where "OUTBOUND_CAP = 30"
definition SOURCE_MAX :: nat where "SOURCE_MAX = 120"

record 'r table =
  tab_total :: nat
  tab_dropped :: nat
  tab_rows :: "'r list"

definition empty_table :: "'r table" where
  "empty_table = \<lparr>tab_total = 0, tab_dropped = 0, tab_rows = []\<rparr>"

record 'r ts_tables =
  tx_call :: "'r table"
  tx_jsx_use :: "'r table"
  tx_dispatch :: "'r table"
  tx_import :: "'r table"

definition empty_ts_tables :: "'r ts_tables" where
  "empty_ts_tables = \<lparr>tx_call = empty_table, tx_jsx_use = empty_table, tx_dispatch = empty_table, tx_import = empty_table\<rparr>"

definition ts_named :: "'r ts_tables \<Rightarrow> (string \<times> 'r table) list" where
  "ts_named t =
     [(''call'', tx_call t), (''jsx-use'', tx_jsx_use t), (''dispatch'', tx_dispatch t), (''import'', tx_import t)]"

record inbound_row =
  ir_file :: string
  ir_line :: nat
  ir_heuristic :: bool
  ir_tier :: "heuristic_tier option"
  ir_source :: string
  ir_occurrence :: "nat option"

record outbound_row =
  or_file :: string
  or_line :: nat
  or_to_file :: string
  or_to :: string
  or_heuristic :: bool
  or_tier :: "heuristic_tier option"
  or_source :: string
  or_occurrence :: "nat option"

record import_row =
  mr_file :: string
  mr_line :: nat
  mr_target :: string
  mr_source :: string

record ambiguous_row =
  ar_file :: string
  ar_line :: nat
  ar_origin :: string
  ar_raw :: string
  ar_candidate_count :: nat

record inbound_tables =
  in_inherits :: "inbound_row table"
  in_uses_type :: "inbound_row table"
  in_uses_member :: "inbound_row table"
  in_implements :: "inbound_row table"
  in_overrides :: "inbound_row table"
  in_ts :: "inbound_row ts_tables"

record outbound_tables =
  ot_inherits :: "outbound_row table"
  ot_uses_type :: "outbound_row table"
  ot_uses_member :: "outbound_row table"
  ot_implements :: "outbound_row table"
  ot_overrides :: "outbound_row table"
  ot_imports :: "import_row table"
  ot_ts :: "outbound_row ts_tables"

record ambiguous_tables =
  at_inbound :: "ambiguous_row table"
  at_outbound :: "ambiguous_row table"

text \<open>\<open>loc_cmp\<close> compares by file and then by line.\<close>

definition loc_order :: "edge list \<Rightarrow> nat \<Rightarrow> string \<times> nat" where
  "loc_order edges e = edge_loc (edges ! e)"

definition build_table :: "nat list \<Rightarrow> edge list \<Rightarrow> nat \<Rightarrow> (edge \<Rightarrow> 'r option) \<Rightarrow> 'r table option" where
  "build_table idxs edges cap map_row =
     (let sorted_idxs = sort_key (loc_order edges) idxs; (shown, dropped) = cap_rows sorted_idxs cap
      in map_option (\<lambda>rows. \<lparr>tab_total = length sorted_idxs, tab_dropped = dropped, tab_rows = rows\<rparr>)
           (all_some (map (\<lambda>i. map_row (edges ! i)) shown)))"

text \<open>\<open>None\<close> is the panic of \<open>unreachable!\<close>.\<close>

fun ambiguous_row_of :: "edge \<Rightarrow> ambiguous_row option" where
  "ambiguous_row_of (Ambiguous origin f line raw cands n) =
     Some \<lparr>ar_file = f, ar_line = line, ar_origin = origin, ar_raw = raw, ar_candidate_count = n\<rparr>"
| "ambiguous_row_of _ = None"

definition inbound_reference_counts :: "inbound_tables \<Rightarrow> nat \<times> nat" where
  "inbound_reference_counts t =
     fold (\<lambda>tab (total, shown). (total + tab_total tab, shown + length (tab_rows tab)))
       ([in_inherits t, in_uses_type t, in_uses_member t, in_implements t, in_overrides t]
        @ map snd (ts_named (in_ts t))) (0, 0)"

section \<open>Occurrences\<close>

definition inbound_collide :: "inbound_row \<Rightarrow> inbound_row \<Rightarrow> bool" where
  "inbound_collide a b \<longleftrightarrow>
     ir_file a = ir_file b \<and> ir_line a = ir_line b \<and> ir_heuristic a = ir_heuristic b \<and> ir_tier a = ir_tier b
     \<and> ir_source a = ir_source b"

definition outbound_collide :: "outbound_row \<Rightarrow> outbound_row \<Rightarrow> bool" where
  "outbound_collide a b \<longleftrightarrow>
     or_file a = or_file b \<and> or_line a = or_line b \<and> or_to_file a = or_to_file b \<and> or_to a = or_to b
     \<and> or_heuristic a = or_heuristic b \<and> or_tier a = or_tier b \<and> or_source a = or_source b"

definition occurrence_round ::
  "('r \<Rightarrow> 'r \<Rightarrow> bool) \<Rightarrow> 'r list \<Rightarrow> nat \<Rightarrow> nat option list \<Rightarrow> nat option list" where
  "occurrence_round same rows i assigned =
     (if assigned ! i \<noteq> None then assigned
      else let group = filter (\<lambda>j. same (rows ! i) (rows ! j)) [i..<length rows]
           in if length group < 2 then assigned
              else fold (\<lambda>(pos, j) xs. xs[j := Some pos]) (enumerate 0 group) assigned)"

definition assign_occurrence_indices :: "('r \<Rightarrow> 'r \<Rightarrow> bool) \<Rightarrow> 'r list \<Rightarrow> nat option list" where
  "assign_occurrence_indices same rows =
     fold (occurrence_round same rows) [0..<length rows] (replicate (length rows) None)"

definition tag_inbound_rows :: "inbound_row list \<Rightarrow> inbound_row list" where
  "tag_inbound_rows rows =
     map2 (\<lambda>r o'. r\<lparr>ir_occurrence := o'\<rparr>) rows (assign_occurrence_indices inbound_collide rows)"

definition tag_outbound_rows :: "outbound_row list \<Rightarrow> outbound_row list" where
  "tag_outbound_rows rows =
     map2 (\<lambda>r o'. r\<lparr>or_occurrence := o'\<rparr>) rows (assign_occurrence_indices outbound_collide rows)"

section \<open>Source lines\<close>

type_synonym file_text = "string \<Rightarrow> string option"

definition project_of :: "string \<Rightarrow> string" where
  "project_of f = (case str_find_char f CHR ''/'' of Some i \<Rightarrow> take i f | None \<Rightarrow> [])"

definition trim_byte :: "char \<Rightarrow> bool" where
  "trim_byte c \<longleftrightarrow> byte c \<in> {32, 9, 13, 10, 11, 12}"

definition trim_source :: "string \<Rightarrow> string" where
  "trim_source s = rev (dropWhile trim_byte (rev (dropWhile trim_byte s)))"

definition BOM :: string where
  "BOM = map char_of [239, 187, 191 :: nat]"

definition line_text :: "string \<Rightarrow> nat \<Rightarrow> string" where
  "line_text body line =
     (let lines = str_split NEWLINE body
      in if line < 1 \<or> line > length lines then []
         else let raw = lines ! (line - 1)
              in trim_source (if line = 1 then (case strip_prefix raw BOM of Some r \<Rightarrow> r | None \<Rightarrow> raw) else raw))"

definition cached_line :: "file_text \<Rightarrow> string \<Rightarrow> nat \<Rightarrow> string" where
  "cached_line read f line = (case read f of None \<Rightarrow> [] | Some body \<Rightarrow> line_text body line)"

definition REPLACEMENT :: string where
  "REPLACEMENT = map char_of [239, 191, 189 :: nat]"

text \<open>The first \<open>n\<close> UTF-16 units, decoded lossily: a pair cut in two becomes the replacement character.\<close>

function clip_units :: "nat \<Rightarrow> string \<Rightarrow> string" where
  "clip_units n s =
     (if s = [] \<or> n = 0 then []
      else case utf8_head s of
             None \<Rightarrow> []
           | Some k \<Rightarrow>
               (if n < len_utf16 k then REPLACEMENT
                else take k s @ clip_units (n - len_utf16 k) (drop k s)))"
  by pat_completeness auto
termination
  by (relation "measure (\<lambda>(n, s). length s)") (auto dest: utf8_head_pos)

declare clip_units.simps [simp del]

definition TAB :: char where "TAB = char_of (9 :: nat)"

definition clip_source :: "string \<Rightarrow> string" where
  "clip_source s =
     (let t = str_replace_char TAB CHR '' '' s in if utf16_len t > SOURCE_MAX then clip_units SOURCE_MAX t else t)"

definition hit_source :: "file_text \<Rightarrow> string \<Rightarrow> nat \<Rightarrow> string" where
  "hit_source read f line = clip_source (cached_line read f line)"

definition is_word_byte :: "char \<Rightarrow> bool" where
  "is_word_byte c \<longleftrightarrow> is_ascii_alphanumeric c \<or> c = CHR ''_''"

definition token_at :: "string \<Rightarrow> string \<Rightarrow> nat \<Rightarrow> bool" where
  "token_at hay needle i \<longleftrightarrow>
     slice i (i + length needle) hay = needle
     \<and> (i = 0 \<or> \<not> is_word_byte (hay ! (i - 1)))
     \<and> (i + length needle \<ge> length hay \<or> \<not> is_word_byte (hay ! (i + length needle)))"

definition line_has_token :: "string \<Rightarrow> string \<Rightarrow> bool" where
  "line_has_token hay needle \<longleftrightarrow>
     needle \<noteq> [] \<and> length needle \<le> length hay
     \<and> list_ex (token_at hay needle) [0..<length hay - length needle + 1]"

section \<open>Members of an enum\<close>

record member_refs =
  mx_total :: nat
  mx_member_count :: nat
  mx_members :: "(string \<times> nat) list"
  mx_dropped :: nat

definition MEMBER_NAME_CAP :: nat where "MEMBER_NAME_CAP = 5"

definition enum_members :: "graph_index \<Rightarrow> string \<Rightarrow> graph_def list" where
  "enum_members ix ident =
     filter (\<lambda>d. d_kind d = ''enum-member'' \<and> starts_with (d_id d) (ident @ ''.'')) (g_defs (gi_graph ix))"

definition uses_member_of :: "(string \<Rightarrow> inbound_entry option) \<Rightarrow> string \<Rightarrow> nat list" where
  "uses_member_of m ident = (case m ident of Some e \<Rightarrow> ie_uses_member e | None \<Rightarrow> [])"

definition enum_member_refs :: "graph_index \<Rightarrow> string \<Rightarrow> member_refs option" where
  "enum_member_refs ix ident =
     (let counted = map (\<lambda>d. (d_name d, length (uses_member_of (ix_inbound (gi_maps ix)) (d_id d))
                                 + length (uses_member_of (ix_heuristic_inbound (gi_maps ix)) (d_id d))))
                      (enum_members ix ident);
          members = filter (\<lambda>(_, n). n \<noteq> 0) counted;
          total = sum_list (map snd members)
      in if total = 0 then None
         else Some \<lparr>mx_total = total, mx_member_count = length members, mx_members = take MEMBER_NAME_CAP members,
                    mx_dropped = length members - MEMBER_NAME_CAP\<rparr>)"

end
