(* ===== verification/QueryRefs.thy ===== *)
theory QueryRefs
  imports QueryTables Seeds
begin

text \<open>
  The answer of \<open>refs\<close> (\<open>src/query/symbol_refs.rs\<close>, \<open>src/query/refs.rs\<close>, \<open>src/query/refs_outbound.rs\<close>, with the row
  builders of \<open>src/query/dispatch.rs\<close> and \<open>src/query/bus.rs\<close>). A panic (\<open>unreachable!\<close>, \<open>expect\<close>, a missing map key)
  is \<open>None\<close>; an index into the graph's edges is in range by construction of the index. No cap is \<open>None\<close>, the code's
  \<open>usize::MAX\<close>. Vectors indexed by a kind are read off the ranked list by a filter on the kind.
\<close>

section \<open>The edges of a symbol\<close>

record symbol_lists =
  sr_inbound :: inbound_entry
  sr_outbound :: outbound_entry
  sr_heuristic_inbound :: inbound_entry
  sr_heuristic_outbound :: inbound_entry
  sr_ambiguous_inbound :: "nat list"
  sr_ambiguous_outbound :: "nat list"

definition ts_extend :: "ts_kinds \<Rightarrow> ts_kinds \<Rightarrow> ts_kinds" where
  "ts_extend a b =
     \<lparr>tk_call = tk_call a @ tk_call b, tk_jsx_use = tk_jsx_use a @ tk_jsx_use b,
      tk_dispatch = tk_dispatch a @ tk_dispatch b, tk_import = tk_import a @ tk_import b\<rparr>"

text \<open>The loop of an enum query over its members.\<close>

definition with_members ::
  "graph_index \<Rightarrow> string \<Rightarrow> (string \<Rightarrow> inbound_entry option) \<Rightarrow> nat list \<Rightarrow> nat list" where
  "with_members ix def_id m uses =
     (case gi_def ix def_id of
        Some d \<Rightarrow>
          (if d_kind d = ''enum''
           then uses @ concat (map (\<lambda>d'. uses_member_of m (d_id d')) (enum_members ix def_id)) else uses)
      | None \<Rightarrow> uses)"

text \<open>The lists of one adjacency. The record keeps the bus hops too, which nothing below reads.\<close>

definition inbound_half :: "graph_index \<Rightarrow> string \<Rightarrow> (string \<Rightarrow> inbound_entry option) \<Rightarrow> inbound_entry" where
  "inbound_half ix def_id m =
     (let base = or_default ie_default (m def_id)
      in base\<lparr>ie_uses_member := with_members ix def_id m (ie_uses_member base)\<rparr>)"

definition extend_outbound :: "outbound_entry \<Rightarrow> outbound_entry \<Rightarrow> outbound_entry" where
  "extend_outbound a b =
     \<lparr>oe_inherits = oe_inherits a @ oe_inherits b, oe_uses_type = oe_uses_type a @ oe_uses_type b,
      oe_uses_member = oe_uses_member a @ oe_uses_member b, oe_implements = oe_implements a @ oe_implements b,
      oe_overrides = oe_overrides a @ oe_overrides b, oe_bus_hop = oe_bus_hop a @ oe_bus_hop b,
      oe_imports = oe_imports a @ oe_imports b, oe_ts = ts_extend (oe_ts a) (oe_ts b)\<rparr>"

definition extend_heuristic :: "inbound_entry \<Rightarrow> inbound_entry \<Rightarrow> inbound_entry" where
  "extend_heuristic a b =
     a\<lparr>ie_inherits := ie_inherits a @ ie_inherits b, ie_uses_type := ie_uses_type a @ ie_uses_type b,
       ie_uses_member := ie_uses_member a @ ie_uses_member b\<rparr>"

definition over_files :: "('e \<Rightarrow> 'e \<Rightarrow> 'e) \<Rightarrow> 'e \<Rightarrow> (string \<Rightarrow> 'e option) \<Rightarrow> string list \<Rightarrow> 'e" where
  "over_files join e0 m files =
     fold (\<lambda>f acc. case m f of Some e \<Rightarrow> join acc e | None \<Rightarrow> acc) files e0"

definition symbol_refs :: "graph_index \<Rightarrow> string \<Rightarrow> symbol_lists" where
  "symbol_refs ix def_id =
     (let m = gi_maps ix; files = def_files ix def_id
      in \<lparr>sr_inbound = inbound_half ix def_id (ix_inbound m),
          sr_outbound = over_files extend_outbound oe_default (ix_outbound_by_file m) files,
          sr_heuristic_inbound = inbound_half ix def_id (ix_heuristic_inbound m),
          sr_heuristic_outbound = over_files extend_heuristic ie_default (ix_heuristic_outbound_by_file m) files,
          sr_ambiguous_inbound = or_default [] (ix_ambiguous_by_candidate m def_id),
          sr_ambiguous_outbound = concat (map (\<lambda>f. or_default [] (ix_ambiguous_by_file m f)) files)\<rparr>)"

section \<open>Bus rows\<close>

datatype bus_direction = Bus_In | Bus_Out

fun bus_direction_str :: "bus_direction \<Rightarrow> string" where
  "bus_direction_str Bus_In = ''in''"
| "bus_direction_str Bus_Out = ''out''"

record bus_hop_row =
  bh_file :: string
  bh_line :: nat
  bh_message :: string
  bh_to :: string
  bh_to_file :: string
  bh_evidence :: string
  bh_direction :: bus_direction
  bh_message_handlers :: nat

definition handlers_by_message :: "edge list \<Rightarrow> string \<Rightarrow> string set option" where
  "handlers_by_message edges =
     fold (\<lambda>e m. if is_Bus_Hop e then entry_update (e_message e) {} (insert (e_to e)) m else m) edges (\<lambda>_. None)"

fun bus_hop_row_of :: "edge \<Rightarrow> bus_direction \<Rightarrow> (string \<Rightarrow> string set option) \<Rightarrow> bus_hop_row option" where
  "bus_hop_row_of (Bus_Hop f l msg to_def to_file ev) dir handlers =
     Some \<lparr>bh_file = f, bh_line = l, bh_message = msg, bh_to = to_def, bh_to_file = to_file, bh_evidence = ev,
           bh_direction = dir, bh_message_handlers = (case handlers msg of Some s \<Rightarrow> card s | None \<Rightarrow> 0)\<rparr>"
| "bus_hop_row_of _ dir handlers = None"

definition cap_or_all :: "'r list \<Rightarrow> nat option \<Rightarrow> 'r list \<times> nat" where
  "cap_or_all rows cap = (case cap of Some c \<Rightarrow> cap_rows rows c | None \<Rightarrow> (rows, 0))"

definition symbol_bus_rows :: "graph_index \<Rightarrow> string \<Rightarrow> nat option \<Rightarrow> bus_hop_row table option" where
  "symbol_bus_rows ix def_id cap =
     (let edges = g_edges (gi_graph ix);
          inb = sort_key (loc_order edges)
            (case ix_inbound (gi_maps ix) def_id of Some e \<Rightarrow> ie_bus_hop e | None \<Rightarrow> []);
          outb = sort_key (loc_order edges)
            (concat (map (\<lambda>f. case ix_outbound_by_file (gi_maps ix) f of Some e \<Rightarrow> oe_bus_hop e | None \<Rightarrow> [])
               (def_files ix def_id)));
          handlers = handlers_by_message edges
      in map_option (\<lambda>combined.
           case cap_or_all combined cap of (rows, dropped) \<Rightarrow>
             \<lparr>tab_total = length combined, tab_dropped = dropped, tab_rows = rows\<rparr>)
         (all_some (map (\<lambda>e. bus_hop_row_of (edges ! e) Bus_In handlers) inb
            @ map (\<lambda>e. bus_hop_row_of (edges ! e) Bus_Out handlers) outb)))"

section \<open>Dispatch rows of a member\<close>

fun edge_dispatch_member :: "edge \<Rightarrow> string option" where
  "edge_dispatch_member (Implements _ _ _ _ member) = member"
| "edge_dispatch_member (Overrides _ _ _ _ member) = member"
| "edge_dispatch_member _ = None"

definition member_dispatch_edges :: "symbol_lists \<Rightarrow> edge list \<Rightarrow> string \<Rightarrow> nat list" where
  "member_dispatch_edges r edges name =
     sort_key (loc_order edges)
       (filter (\<lambda>e. edge_dispatch_member (edges ! e) = Some name)
          (ie_implements (sr_inbound r) @ ie_overrides (sr_inbound r)))"

definition dispatch_table :: "inbound_row list \<Rightarrow> inbound_row table" where
  "dispatch_table rows = \<lparr>tab_total = length rows, tab_dropped = 0, tab_rows = rows\<rparr>"

definition split_dispatch_rows ::
  "edge list \<Rightarrow> nat list \<Rightarrow> (nat \<Rightarrow> inbound_row) \<Rightarrow> (inbound_row list \<times> inbound_row list) option" where
  "split_dispatch_rows edges dispatch row_of =
     (if list_all (\<lambda>e. is_Implements (edges ! e) \<or> is_Overrides (edges ! e)) dispatch
      then Some (map row_of (filter (\<lambda>e. is_Implements (edges ! e)) dispatch),
                 map row_of (filter (\<lambda>e. is_Overrides (edges ! e)) dispatch))
      else None)"

section \<open>The outbound tables\<close>

definition K_INHERITS :: nat where "K_INHERITS = 0"
definition K_USES_TYPE :: nat where "K_USES_TYPE = 1"
definition K_USES_MEMBER :: nat where "K_USES_MEMBER = 2"
definition K_IMPLEMENTS :: nat where "K_IMPLEMENTS = 3"
definition K_OVERRIDES :: nat where "K_OVERRIDES = 4"
definition K_IMPORTS :: nat where "K_IMPORTS = 5"
definition K_TS_CALL :: nat where "K_TS_CALL = 6"
definition K_TS_JSX_USE :: nat where "K_TS_JSX_USE = 7"
definition K_TS_DISPATCH :: nat where "K_TS_DISPATCH = 8"
definition K_TS_IMPORT :: nat where "K_TS_IMPORT = 9"

lemmas kinds = K_INHERITS_def K_USES_TYPE_def K_USES_MEMBER_def K_IMPLEMENTS_def K_OVERRIDES_def K_IMPORTS_def
  K_TS_CALL_def K_TS_JSX_USE_def K_TS_DISPATCH_def K_TS_IMPORT_def

record ranked_outbound =
  ro_kind :: nat
  ro_edge :: nat
  ro_heuristic :: bool
  ro_part :: nat

definition push_ranked :: "nat \<Rightarrow> nat list \<Rightarrow> nat list \<Rightarrow> ranked_outbound list" where
  "push_ranked kind precise guessed =
     map (\<lambda>e. \<lparr>ro_kind = kind, ro_edge = e, ro_heuristic = False, ro_part = 0\<rparr>) precise
     @ map (\<lambda>e. \<lparr>ro_kind = kind, ro_edge = e, ro_heuristic = True, ro_part = 0\<rparr>) guessed"

fun import_parts :: "edge \<Rightarrow> nat" where
  "import_parts (Import _ _ _ _ _ bound_defs) = length bound_defs"
| "import_parts _ = 0"

definition push_ts_imports :: "nat list \<Rightarrow> edge list \<Rightarrow> ranked_outbound list" where
  "push_ts_imports imports edges =
     concat (map (\<lambda>e. map (\<lambda>part. \<lparr>ro_kind = K_TS_IMPORT, ro_edge = e, ro_heuristic = False, ro_part = part\<rparr>)
       [0..<import_parts (edges ! e)]) imports)"

definition ranked_outbound_of :: "symbol_lists \<Rightarrow> edge list \<Rightarrow> ranked_outbound list" where
  "ranked_outbound_of r edges =
     (let outb = sr_outbound r; guessed = sr_heuristic_outbound r
      in push_ranked K_INHERITS (oe_inherits outb) (ie_inherits guessed)
         @ push_ranked K_USES_TYPE (oe_uses_type outb) (ie_uses_type guessed)
         @ push_ranked K_USES_MEMBER (oe_uses_member outb) (ie_uses_member guessed)
         @ push_ranked K_IMPLEMENTS (oe_implements outb) []
         @ push_ranked K_OVERRIDES (oe_overrides outb) []
         @ push_ranked K_IMPORTS (oe_imports outb) []
         @ push_ranked K_TS_CALL (tk_call (oe_ts outb)) []
         @ push_ranked K_TS_JSX_USE (tk_jsx_use (oe_ts outb)) []
         @ push_ranked K_TS_DISPATCH (tk_dispatch (oe_ts outb)) []
         @ push_ts_imports (tk_import (oe_ts outb)) edges)"

text \<open>The file an edge of a reference kind names; \<open>None\<close> is the \<open>unreachable!\<close> arm.\<close>

fun named_to_file :: "edge \<Rightarrow> string option" where
  "named_to_file (Inherits _ _ _ to_file _) = Some to_file"
| "named_to_file (Uses_Type _ _ _ to_file _) = Some to_file"
| "named_to_file (Uses_Member _ _ _ to_file _ _ _ _ _) = Some to_file"
| "named_to_file (Implements _ _ _ to_file _) = Some to_file"
| "named_to_file (Overrides _ _ _ to_file _) = Some to_file"
| "named_to_file (Call _ _ _ to_file) = Some to_file"
| "named_to_file (Jsx_Use _ _ _ to_file) = Some to_file"
| "named_to_file (Dispatch _ _ _ to_file) = Some to_file"
| "named_to_file (Import _ _ _ to_file _ _) = Some to_file"
| "named_to_file _ = None"

definition outbound_foreign :: "string \<Rightarrow> edge list \<Rightarrow> ranked_outbound \<Rightarrow> nat option" where
  "outbound_foreign def_project edges r =
     (if ro_kind r = K_IMPORTS then Some 1
      else map_option (\<lambda>f. of_bool (project_of f \<noteq> def_project)) (named_to_file (edges ! ro_edge r)))"

definition outbound_order :: "string \<Rightarrow> edge list \<Rightarrow> ranked_outbound \<Rightarrow> bool \<times> nat \<times> string \<times> nat" where
  "outbound_order def_project edges r =
     (ro_heuristic r, or_default 0 (outbound_foreign def_project edges r), loc_order edges (ro_edge r))"

text \<open>The target a shown row names; \<open>None\<close> is \<open>unreachable!\<close> or an index out of the bound definitions.\<close>

fun row_target :: "edge \<Rightarrow> nat \<Rightarrow> string option" where
  "row_target (Inherits _ _ t _ _) part = Some t"
| "row_target (Uses_Type _ _ t _ _) part = Some t"
| "row_target (Uses_Member _ _ t _ _ _ _ _ _) part = Some t"
| "row_target (Implements _ _ t _ _) part = Some t"
| "row_target (Overrides _ _ t _ _) part = Some t"
| "row_target (Call _ _ t _) part = Some t"
| "row_target (Jsx_Use _ _ t _) part = Some t"
| "row_target (Dispatch _ _ t _) part = Some t"
| "row_target (Import _ _ _ _ _ bound) part = get bound part"
| "row_target _ part = None"

definition outbound_row_of :: "file_text \<Rightarrow> edge list \<Rightarrow> ranked_outbound \<Rightarrow> outbound_row option" where
  "outbound_row_of read edges r =
     (let e = edges ! ro_edge r
      in case (named_to_file e, row_target e (ro_part r)) of
           (Some to_file, Some to_def) \<Rightarrow>
             Some \<lparr>or_file = fst (edge_loc e), or_line = snd (edge_loc e), or_to_file = to_file, or_to = to_def,
               or_heuristic = ro_heuristic r, or_tier = row_tier (ro_heuristic r) (edge_tier e = Some Tier_Ext),
               or_source = hit_source read (fst (edge_loc e)) (snd (edge_loc e)), or_occurrence = None\<rparr>
         | _ \<Rightarrow> None)"

definition import_row_of :: "file_text \<Rightarrow> edge list \<Rightarrow> ranked_outbound \<Rightarrow> import_row option" where
  "import_row_of read edges r =
     (let e = edges ! ro_edge r
      in if is_Imports e
         then Some \<lparr>mr_file = fst (edge_loc e), mr_line = snd (edge_loc e), mr_target = e_target e,
                mr_source = hit_source read (fst (edge_loc e)) (snd (edge_loc e))\<rparr>
         else None)"

definition of_kind :: "('r \<Rightarrow> nat) \<Rightarrow> nat \<Rightarrow> 'r list \<Rightarrow> 'r list" where
  "of_kind kind k rs = filter (\<lambda>r. kind r = k) rs"

definition kind_table :: "nat \<Rightarrow> 'r list \<Rightarrow> 'r table" where
  "kind_table n rows = \<lparr>tab_total = n, tab_dropped = n - length rows, tab_rows = rows\<rparr>"

definition outbound_kind ::
  "file_text \<Rightarrow> edge list \<Rightarrow> ranked_outbound list \<Rightarrow> ranked_outbound list \<Rightarrow> nat \<Rightarrow> outbound_row table option" where
  "outbound_kind read edges ranked shown k =
     map_option (\<lambda>rows. kind_table (length (of_kind ro_kind k ranked)) (tag_outbound_rows rows))
       (all_some (map (outbound_row_of read edges) (of_kind ro_kind k shown)))"

text \<open>
  The sort compares \<open>outbound_foreign\<close> of its entries. Which entries it compares depends on the algorithm, so an entry
  on which the comparison would panic is counted as a panic of the whole.
\<close>

definition build_outbound_tables ::
  "symbol_lists \<Rightarrow> string \<Rightarrow> edge list \<Rightarrow> file_text \<Rightarrow> nat option \<Rightarrow> outbound_tables option" where
  "build_outbound_tables r def_project edges read cap =
     (let ranked = ranked_outbound_of r edges;
          shown = fst (cap_or_all (sort_key (outbound_order def_project edges) ranked) cap);
          tab = outbound_kind read edges ranked shown
      in if \<exists>x \<in> set ranked. outbound_foreign def_project edges x = None then None
         else case (tab K_INHERITS, tab K_USES_TYPE, tab K_USES_MEMBER, tab K_IMPLEMENTS, tab K_OVERRIDES,
                    all_some (map (import_row_of read edges) (of_kind ro_kind K_IMPORTS shown)),
                    tab K_TS_CALL, tab K_TS_JSX_USE, tab K_TS_DISPATCH, tab K_TS_IMPORT) of
           (Some inh, Some ut, Some um, Some imp, Some ovr, Some imports, Some cl, Some jx, Some di, Some im) \<Rightarrow>
             Some \<lparr>ot_inherits = inh, ot_uses_type = ut, ot_uses_member = um, ot_implements = imp, ot_overrides = ovr,
               ot_imports = kind_table (length (of_kind ro_kind K_IMPORTS ranked)) imports,
               ot_ts = \<lparr>tx_call = cl, tx_jsx_use = jx, tx_dispatch = di, tx_import = im\<rparr>\<rparr>
         | _ \<Rightarrow> None)"

end
