(* ===== verification/QueryAnswer.thy ===== *)
theory QueryAnswer
  imports QueryRefs
begin

text \<open>
  The model of a \<open>refs\<close> answer (\<open>src/query/refs.rs\<close>): the inbound tables under one cap and one ranking, the outbound
  and ambiguous tables, the bus rows, and the answer of a member seed over the owners that verify.
\<close>

section \<open>Results\<close>

record refs_model =
  rm_query :: string
  rm_id :: string
  rm_kind :: string
  rm_sites :: "(string \<times> nat) list"
  rm_inbound :: inbound_tables
  rm_outbound :: "outbound_tables option"
  rm_ambiguous :: ambiguous_tables
  rm_bus :: "bus_hop_row table"
  rm_manifest_gap :: nat
  rm_member_refs :: "member_refs option"

datatype refs_result =
    Refs_Resolved refs_model
  | Refs_Ambiguous "string list"
  | Refs_Members "refs_model list"
  | Refs_Member_Ambiguous "member_candidate list"
  | Refs_Not_Found

datatype member_refs_outcome = Models "refs_model list" | Owners_Ambiguous "member_candidate list"

section \<open>A member seed\<close>

datatype ts_grammar = Grammar_Typescript | Grammar_Tsx | Grammar_Javascript

definition ts_grammar_for :: "string \<Rightarrow> ts_grammar option" where
  "ts_grammar_for rel =
     (case str_rfind rel CHR ''.'' of
        None \<Rightarrow> None
      | Some dot \<Rightarrow>
          (let ext = drop dot rel
           in if ext \<in> {''.ts'', ''.mts'', ''.cts''} then Some Grammar_Typescript
              else if ext = ''.tsx'' then Some Grammar_Tsx
              else if ext \<in> {''.js'', ''.jsx'', ''.mjs'', ''.cjs''} then Some Grammar_Javascript
              else None))"

fun edge_member :: "edge \<Rightarrow> string option" where
  "edge_member (Uses_Member _ _ _ _ _ _ member _ _) = member"
| "edge_member _ = None"

definition member_edge_kept :: "file_text \<Rightarrow> bool \<Rightarrow> string \<Rightarrow> edge \<Rightarrow> bool" where
  "member_edge_kept read by_member name e \<longleftrightarrow>
     \<not> (by_member \<and> edge_member e \<noteq> Some name)
     \<and> line_has_token (cached_line read (fst (edge_loc e)) (snd (edge_loc e))) name"

definition foreign_to :: "string \<Rightarrow> edge \<Rightarrow> nat" where
  "foreign_to project e = of_bool (project_of (fst (edge_loc e)) \<noteq> project)"

definition hit_order :: "string \<Rightarrow> edge list \<Rightarrow> nat \<times> bool \<Rightarrow> bool \<times> nat \<times> string \<times> nat" where
  "hit_order project edges hit =
     (snd hit, foreign_to project (edges ! fst hit), loc_order edges (fst hit))"

text \<open>\<open>None\<close> when the owner is no definition of the index, which the indexing panics on.\<close>

definition verified_member_edges ::
  "graph_index \<Rightarrow> file_text \<Rightarrow> string \<Rightarrow> string \<Rightarrow> (nat \<times> bool) list option" where
  "verified_member_edges ix read owner name =
     map_option (\<lambda>d.
       let edges = g_edges (gi_graph ix); r = symbol_refs ix owner;
           by_member = (ts_grammar_for (d_file d) \<noteq> None)
       in sort_key (hit_order (project_of (d_file d)) edges)
            (filter (\<lambda>(e, _). member_edge_kept read by_member name (edges ! e))
               (map (\<lambda>e. (e, False)) (ie_uses_member (sr_inbound r))
                @ map (\<lambda>e. (e, True)) (ie_uses_member (sr_heuristic_inbound r)))))
     (gi_def ix owner)"

definition inbound_row_of :: "file_text \<Rightarrow> edge list \<Rightarrow> nat \<times> bool \<Rightarrow> inbound_row" where
  "inbound_row_of read edges hit =
     (let e = edges ! fst hit
      in \<lparr>ir_file = fst (edge_loc e), ir_line = snd (edge_loc e), ir_heuristic = snd hit,
          ir_tier = row_tier (snd hit) (edge_tier e = Some Tier_Ext),
          ir_source = hit_source read (fst (edge_loc e)) (snd (edge_loc e)), ir_occurrence = None\<rparr>)"

text \<open>A dispatch row is never a guess and has no tier.\<close>

definition dispatch_row_of :: "file_text \<Rightarrow> edge list \<Rightarrow> nat \<Rightarrow> inbound_row" where
  "dispatch_row_of read edges e =
     \<lparr>ir_file = fst (edge_loc (edges ! e)), ir_line = snd (edge_loc (edges ! e)), ir_heuristic = False, ir_tier = None,
      ir_source = clip_source (cached_line read (fst (edge_loc (edges ! e))) (snd (edge_loc (edges ! e)))),
      ir_occurrence = None\<rparr>"

type_synonym member_group = "string \<times> (string \<times> nat) list \<times> (nat \<times> bool) list \<times> nat list"

definition member_group_model ::
  "graph_index \<Rightarrow> file_text \<Rightarrow> string \<Rightarrow> string \<Rightarrow> member_group \<Rightarrow> nat \<Rightarrow> (refs_model \<times> nat) option" where
  "member_group_model ix read seed name grp budget =
     (case grp of (owner, sites, kept, dispatch) \<Rightarrow>
       let edges = g_edges (gi_graph ix);
           n = min budget (length kept);
           rows = tag_inbound_rows (map (inbound_row_of read edges) (take n kept))
       in map_option (\<lambda>(implements_rows, overrides_rows).
            (\<lparr>rm_query = seed, rm_id = owner @ ''.'' @ name, rm_kind = ''member'', rm_sites = sites,
              rm_inbound = \<lparr>in_inherits = empty_table, in_uses_type = empty_table,
                in_uses_member = \<lparr>tab_total = length kept, tab_dropped = length kept - length rows, tab_rows = rows\<rparr>,
                in_implements = dispatch_table (tag_inbound_rows implements_rows),
                in_overrides = dispatch_table (tag_inbound_rows overrides_rows), in_ts = empty_ts_tables\<rparr>,
              rm_outbound = None, rm_ambiguous = \<lparr>at_inbound = empty_table, at_outbound = empty_table\<rparr>,
              rm_bus = empty_table, rm_manifest_gap = card (ix_flagged_files (gi_maps ix)), rm_member_refs = None\<rparr>,
             budget - n))
          (split_dispatch_rows edges dispatch (dispatch_row_of read edges)))"

fun member_models ::
  "graph_index \<Rightarrow> file_text \<Rightarrow> string \<Rightarrow> string \<Rightarrow> member_group list \<Rightarrow> nat \<Rightarrow> refs_model list option" where
  "member_models ix read seed name [] budget = Some []"
| "member_models ix read seed name (g # gs) budget =
     (case member_group_model ix read seed name g budget of
        None \<Rightarrow> None
      | Some (m, left) \<Rightarrow> map_option ((#) m) (member_models ix read seed name gs left))"

definition owner_group ::
  "graph_index \<Rightarrow> file_text \<Rightarrow> string \<Rightarrow> string \<times> (string \<times> nat) list \<Rightarrow> member_group option" where
  "owner_group ix read name p =
     (case p of (owner, sites) \<Rightarrow>
        map_option (\<lambda>kept.
          (owner, sites, kept, member_dispatch_edges (symbol_refs ix owner) (g_edges (gi_graph ix)) name))
        (verified_member_edges ix read owner name))"

definition group_answers :: "member_group \<Rightarrow> bool" where
  "group_answers g \<longleftrightarrow> (case g of (_, _, kept, hits) \<Rightarrow> kept \<noteq> [] \<or> hits \<noteq> [])"

definition answering_groups :: "member_group list \<Rightarrow> member_group list" where
  "answering_groups groups = (if list_ex group_answers groups then filter group_answers groups else groups)"

definition group_candidate :: "string \<Rightarrow> member_group \<Rightarrow> member_candidate option" where
  "group_candidate name g =
     (case g of (owner, sites, _, _) \<Rightarrow>
        map_option (\<lambda>(f, l). \<lparr>mc_owner = owner, mc_name = name, mc_file = f, mc_line = l\<rparr>) (get sites 0))"

text \<open>The outer option is the panic, the inner one the code's own \<open>None\<close>.\<close>

definition member_refs_from_owners ::
  "graph_index \<Rightarrow> file_text \<Rightarrow> string \<Rightarrow> string \<Rightarrow> (string \<times> (string \<times> nat) list) list \<Rightarrow> nat
   \<Rightarrow> member_refs_outcome option option" where
  "member_refs_from_owners ix read seed name owners inbound_cap =
     (if owners = [] then Some None
      else case all_some (map (owner_group ix read name) owners) of
             None \<Rightarrow> None
           | Some groups \<Rightarrow>
               (let left = answering_groups groups
                in if 1 < length left
                   then map_option (\<lambda>cs. Some (Owners_Ambiguous cs)) (all_some (map (group_candidate name) left))
                   else map_option (\<lambda>ms. Some (Models ms)) (member_models ix read seed name left inbound_cap)))"

definition build_member_refs_models ::
  "graph_index \<Rightarrow> file_text \<Rightarrow> string \<Rightarrow> nat \<Rightarrow> member_refs_outcome option option" where
  "build_member_refs_models ix read seed inbound_cap =
     (case split_member_seed seed of (name, qualifier) \<Rightarrow>
        member_refs_from_owners ix read seed name (qualified_member_owners ix name qualifier) inbound_cap)"

section \<open>The inbound tables\<close>

record ranked_inbound =
  ri_kind :: nat
  ri_edge :: nat
  ri_heuristic :: bool

text \<open>The nine pairs of precise and guessed lists, in kind order.\<close>

definition inbound_pairs :: "symbol_lists \<Rightarrow> (nat list \<times> nat list) list" where
  "inbound_pairs r =
     (let i = sr_inbound r; h = sr_heuristic_inbound r
      in [(ie_inherits i, ie_inherits h), (ie_uses_type i, ie_uses_type h), (ie_uses_member i, ie_uses_member h),
          (ie_implements i, []), (ie_overrides i, []), (tk_call (ie_ts i), []), (tk_jsx_use (ie_ts i), []),
          (tk_dispatch (ie_ts i), []), (tk_import (ie_ts i), [])])"

definition is_self_inbound :: "bool \<Rightarrow> graph_def \<Rightarrow> edge \<Rightarrow> bool" where
  "is_self_inbound exclude d e \<longleftrightarrow>
     exclude \<and> d_line d \<le> d_end_line d \<and> fst (edge_loc e) = d_file d
     \<and> d_line d \<le> snd (edge_loc e) \<and> snd (edge_loc e) \<le> d_end_line d"

definition ranked_inbound_of :: "bool \<Rightarrow> graph_def \<Rightarrow> edge list \<Rightarrow> symbol_lists \<Rightarrow> ranked_inbound list" where
  "ranked_inbound_of exclude d edges r =
     concat (map (\<lambda>(k, precise, guessed).
       map (\<lambda>e. \<lparr>ri_kind = k, ri_edge = e, ri_heuristic = False\<rparr>)
         (filter (\<lambda>e. \<not> is_self_inbound exclude d (edges ! e)) precise)
       @ map (\<lambda>e. \<lparr>ri_kind = k, ri_edge = e, ri_heuristic = True\<rparr>)
           (filter (\<lambda>e. \<not> is_self_inbound exclude d (edges ! e)) guessed))
     (enumerate 0 (inbound_pairs r)))"

definition inbound_order :: "string \<Rightarrow> edge list \<Rightarrow> ranked_inbound \<Rightarrow> bool \<times> nat \<times> string \<times> nat" where
  "inbound_order project edges r = hit_order project edges (ri_edge r, ri_heuristic r)"

definition inbound_kind ::
  "file_text \<Rightarrow> edge list \<Rightarrow> ranked_inbound list \<Rightarrow> ranked_inbound list \<Rightarrow> nat \<Rightarrow> inbound_row table" where
  "inbound_kind read edges ranked shown k =
     kind_table (length (of_kind ri_kind k ranked))
       (tag_inbound_rows (map (\<lambda>r. inbound_row_of read edges (ri_edge r, ri_heuristic r)) (of_kind ri_kind k shown)))"

definition inbound_of ::
  "file_text \<Rightarrow> edge list \<Rightarrow> ranked_inbound list \<Rightarrow> ranked_inbound list \<Rightarrow> inbound_tables" where
  "inbound_of read edges ranked shown =
     (let tab = inbound_kind read edges ranked shown
      in \<lparr>in_inherits = tab 0, in_uses_type = tab 1, in_uses_member = tab 2, in_implements = tab 3,
          in_overrides = tab 4,
          in_ts = \<lparr>tx_call = tab 5, tx_jsx_use = tab 6, tx_dispatch = tab 7, tx_import = tab 8\<rparr>\<rparr>)"

definition build_inbound_tables ::
  "bool \<Rightarrow> graph_def \<Rightarrow> edge list \<Rightarrow> symbol_lists \<Rightarrow> file_text \<Rightarrow> nat option \<Rightarrow> inbound_tables" where
  "build_inbound_tables exclude d edges r read cap =
     (let ranked = ranked_inbound_of exclude d edges r
      in inbound_of read edges ranked
           (fst (cap_or_all (sort_key (inbound_order (project_of (d_file d)) edges) ranked) cap)))"

section \<open>The answer\<close>

datatype seed_answer = Seed_Id string | Seed_Answer refs_result

definition refs_seed ::
  "(string \<Rightarrow> string) \<Rightarrow> graph_index \<Rightarrow> file_text \<Rightarrow> string \<Rightarrow> nat \<Rightarrow> seed_answer option" where
  "refs_seed lowercase ix read query inbound_cap =
     (case resolve_symbol lowercase ix query of
        Resolved ident \<Rightarrow> Some (Seed_Id ident)
      | Res_Ambiguous ids \<Rightarrow> Some (Seed_Answer (Refs_Ambiguous ids))
      | Res_Not_Found \<Rightarrow>
          (case build_member_refs_models ix read query inbound_cap of
             None \<Rightarrow> None
           | Some (Some (Models ms)) \<Rightarrow> Some (Seed_Answer (Refs_Members ms))
           | Some (Some (Owners_Ambiguous cs)) \<Rightarrow> Some (Seed_Answer (Refs_Member_Ambiguous cs))
           | Some None \<Rightarrow>
               (case resolve_local_symbol lowercase ix query of
                  Resolved ident \<Rightarrow> Some (Seed_Id ident)
                | Res_Ambiguous ids \<Rightarrow> Some (Seed_Answer (Refs_Ambiguous ids))
                | Res_Not_Found \<Rightarrow> Some (Seed_Answer Refs_Not_Found))))"

record refs_caps =
  rc_cap :: nat
  rc_inbound :: nat
  rc_outbound :: nat
  rc_all_out :: bool

definition cap_unless_all :: "bool \<Rightarrow> nat \<Rightarrow> nat option" where
  "cap_unless_all all_out n = (if all_out then None else Some n)"

definition resolved_model ::
  "graph_index \<Rightarrow> file_text \<Rightarrow> string \<Rightarrow> bool \<Rightarrow> refs_caps \<Rightarrow> bool \<Rightarrow> string \<Rightarrow> refs_model option" where
  "resolved_model ix read query out caps exclude ident =
     (case gi_def ix ident of
        None \<Rightarrow> None
      | Some d \<Rightarrow>
          (let edges = g_edges (gi_graph ix); r = symbol_refs ix ident
           in case (if out then map_option Some (build_outbound_tables r (project_of (d_file d)) edges read
                                  (cap_unless_all (rc_all_out caps) (rc_outbound caps)))
                    else Some None,
                    build_table (sr_ambiguous_inbound r) edges (rc_cap caps) ambiguous_row_of,
                    build_table (sr_ambiguous_outbound r) edges (rc_cap caps) ambiguous_row_of,
                    symbol_bus_rows ix ident (Some (rc_cap caps))) of
                (Some outb, Some amb_in, Some amb_out, Some bus) \<Rightarrow>
                  Some \<lparr>rm_query = query, rm_id = ident, rm_kind = d_kind d, rm_sites = def_sites ix ident,
                    rm_inbound = build_inbound_tables exclude d edges r read
                      (cap_unless_all (rc_all_out caps) (rc_inbound caps)),
                    rm_outbound = outb, rm_ambiguous = \<lparr>at_inbound = amb_in, at_outbound = amb_out\<rparr>, rm_bus = bus,
                    rm_manifest_gap = card (ix_flagged_files (gi_maps ix)),
                    rm_member_refs = (if d_kind d = ''enum'' then enum_member_refs ix ident else None)\<rparr>
              | _ \<Rightarrow> None))"

definition build_refs_model_inner ::
  "(string \<Rightarrow> string) \<Rightarrow> graph_index \<Rightarrow> file_text \<Rightarrow> string \<Rightarrow> bool \<Rightarrow> refs_caps \<Rightarrow> bool \<Rightarrow> refs_result option" where
  "build_refs_model_inner lowercase ix read query out caps exclude =
     (case refs_seed lowercase ix read query (rc_inbound caps) of
        None \<Rightarrow> None
      | Some (Seed_Answer a) \<Rightarrow> Some a
      | Some (Seed_Id ident) \<Rightarrow> map_option Refs_Resolved (resolved_model ix read query out caps exclude ident))"

definition build_refs_model ::
  "(string \<Rightarrow> string) \<Rightarrow> graph_index \<Rightarrow> file_text \<Rightarrow> string \<Rightarrow> bool \<Rightarrow> refs_caps \<Rightarrow> refs_result option" where
  "build_refs_model lowercase ix read query out caps =
     build_refs_model_inner lowercase ix read query out caps False"

end
