(* ===== verification/QueryFacts.thy ===== *)
theory QueryFacts
  imports QueryAnswer
begin

text \<open>
  What a \<open>refs\<close> answer promises: no two rows of a table are equal, the nine inbound tables share one budget that
  goes to precise references first, a shown source line keeps its bound, and no branch that would panic is reached
  on a loaded index.
\<close>

section \<open>Occurrence indices\<close>

definition same_rows :: "('r \<Rightarrow> 'r \<Rightarrow> bool) \<Rightarrow> 'r list \<Rightarrow> nat \<Rightarrow> nat list" where
  "same_rows same rows i = filter (\<lambda>j. same (rows ! i) (rows ! j)) [0..<length rows]"

definition occurrence_spec :: "('r \<Rightarrow> 'r \<Rightarrow> bool) \<Rightarrow> 'r list \<Rightarrow> nat \<Rightarrow> nat option" where
  "occurrence_spec same rows i =
     (if length (same_rows same rows i) < 2 then None
      else Some (length (filter (\<lambda>j. same (rows ! i) (rows ! j)) [0..<i])))"

text \<open>What the loop has settled after the rounds below \<open>k\<close>: the classes that start below \<open>k\<close>.\<close>

definition settled_upto :: "('r \<Rightarrow> 'r \<Rightarrow> bool) \<Rightarrow> 'r list \<Rightarrow> nat \<Rightarrow> nat option list" where
  "settled_upto same rows k =
     map (\<lambda>j. if \<exists>i < k. same (rows ! i) (rows ! j) then occurrence_spec same rows j else None) [0..<length rows]"

lemma assign_fold_nth:
  "distinct (map snd ps) \<Longrightarrow> j < length xs \<Longrightarrow>
   fold (\<lambda>(pos, j) xs. xs[j := Some pos]) ps xs ! j
   = (case map_of (map prod.swap ps) j of Some p \<Rightarrow> Some p | None \<Rightarrow> xs ! j)"
proof (induction ps arbitrary: xs)
  case (Cons a ps)
  obtain p0 j0 where a: "a = (p0, j0)" by (cases a)
  with Cons.prems have "map_of (map prod.swap ps) j0 = None" by (force simp: map_of_eq_None_iff)
  with Cons a show ?case by (auto simp: nth_list_update split: option.splits)
qed simp

lemma map_of_enumerate_swap:
  "distinct ys \<Longrightarrow> map_of (map prod.swap (enumerate n ys)) j
     = (if j \<in> set ys then Some (n + length (takeWhile (\<lambda>y. y \<noteq> j) ys)) else None)"
  by (induction ys arbitrary: n) auto

lemma upt_split: "i \<le> j \<Longrightarrow> j \<le> k \<Longrightarrow> [i..<k] = [i..<j] @ [j..<k]"
  by (metis le_add_diff_inverse upt_add_eq_append)

lemma filter_upt_split: "i \<le> n \<Longrightarrow> filter P [0..<n] = filter P [0..<i] @ filter P [i..<n]"
  by (simp add: upt_split [of 0 i n])

lemma takeWhile_filter_upt:
  assumes "i \<le> j" "j < n" "P j"
  shows "takeWhile (\<lambda>y. y \<noteq> j) (filter P [i..<n]) = filter P [i..<j]"
proof -
  have "filter P [i..<n] = filter P [i..<j] @ j # filter P [Suc j..<n]"
    using assms by (simp add: upt_split [of i j n] upt_conv_Cons [of j n])
  moreover have "takeWhile (\<lambda>y. y \<noteq> j) (filter P [i..<j] @ ys) = filter P [i..<j] @ takeWhile (\<lambda>y. y \<noteq> j) ys" for ys
    by (rule takeWhile_append2) auto
  ultimately show ?thesis by simp
qed

lemma two_members: "i \<in> set xs \<Longrightarrow> k \<in> set xs \<Longrightarrow> i \<noteq> k \<Longrightarrow> \<not> length xs < 2"
  using card_length [of xs] card_mono [of "set xs" "{i, k}"] by auto

locale row_equality =
  fixes same :: "'r \<Rightarrow> 'r \<Rightarrow> bool"
  assumes same_refl: "same a a"
    and same_sym: "same a b \<Longrightarrow> same b a"
    and same_trans: "same a b \<Longrightarrow> same b c \<Longrightarrow> same a c"
begin

lemma same_iff: "same a b \<Longrightarrow> same a c \<longleftrightarrow> same b c"
  using same_sym same_trans by blast

lemma spec_cong:
  assumes "same (rows ! i) (rows ! j)"
  shows "same_rows same rows i = same_rows same rows j"
  using same_iff [OF assms] by (simp add: same_rows_def)

lemma class_starts_here:
  assumes "k < length rows" "\<not> (\<exists>i < k. same (rows ! i) (rows ! k))"
  shows "filter (\<lambda>j. same (rows ! k) (rows ! j)) [0..<k] = []"
    and "same_rows same rows k = filter (\<lambda>j. same (rows ! k) (rows ! j)) [k..<length rows]"
proof -
  show below: "filter (\<lambda>j. same (rows ! k) (rows ! j)) [0..<k] = []"
    using assms(2) same_sym by (auto simp: filter_empty_conv)
  show "same_rows same rows k = filter (\<lambda>j. same (rows ! k) (rows ! j)) [k..<length rows]"
    unfolding same_rows_def filter_upt_split [OF less_imp_le [OF assms(1)]] below by simp
qed

lemma position_in_class:
  assumes k: "k < length rows" "\<not> (\<exists>i < k. same (rows ! i) (rows ! k))" and j: "j < length rows" "same (rows ! k) (rows ! j)"
  shows "takeWhile (\<lambda>y. y \<noteq> j) (same_rows same rows k) = filter (\<lambda>m. same (rows ! j) (rows ! m)) [0..<j]"
proof -
  note start = class_starts_here [OF k]
  have "k \<le> j"
  proof (rule ccontr)
    assume "\<not> k \<le> j"
    with j(2) have "j \<in> set (filter (\<lambda>j. same (rows ! k) (rows ! j)) [0..<k])" by simp
    with start(1) show False by simp
  qed
  have "takeWhile (\<lambda>y. y \<noteq> j) (same_rows same rows k) = filter (\<lambda>m. same (rows ! k) (rows ! m)) [k..<j]"
    unfolding start(2) by (rule takeWhile_filter_upt) (use \<open>k \<le> j\<close> j in auto)
  also have "\<dots> = filter (\<lambda>m. same (rows ! k) (rows ! m)) [0..<j]"
    unfolding filter_upt_split [OF \<open>k \<le> j\<close>] start(1) by simp
  finally show ?thesis using same_iff [OF j(2)] by simp
qed

lemma settled_later:
  assumes "k < length rows" "\<not> (\<exists>i < k. same (rows ! i) (rows ! k))" "j < length rows"
  shows "settled_upto same rows (Suc k) ! j =
    (if same (rows ! k) (rows ! j) then occurrence_spec same rows j else settled_upto same rows k ! j)"
  using assms by (auto simp: settled_upto_def less_Suc_eq)

lemma length_assign_fold: "length (fold (\<lambda>(pos, j) xs. xs[j := Some pos]) ps xs) = length xs"
  by (induction ps arbitrary: xs) (auto simp: split_beta)

lemma first_of_class_round:
  assumes k: "k < length rows" "\<not> (\<exists>i < k. same (rows ! i) (rows ! k))"
  shows "occurrence_round same rows k (settled_upto same rows k) = settled_upto same rows (Suc k)"
proof -
  let ?s = "settled_upto same rows"
  have none: "?s k ! k = None" using k by (auto simp: settled_upto_def)
  have spec: "occurrence_spec same rows j =
      (if length (same_rows same rows k) < 2 then None else Some (length (takeWhile (\<lambda>y. y \<noteq> j) (same_rows same rows k))))"
    if "j < length rows" "same (rows ! k) (rows ! j)" for j
    using position_in_class [OF k that] spec_cong [OF that(2)] by (simp add: occurrence_spec_def)
  show ?thesis
  proof (cases "length (same_rows same rows k) < 2")
    case True
    have "?s (Suc k) ! j = ?s k ! j" if "j < length rows" for j
      unfolding settled_later [OF k that] using spec [OF that] True that
      by (auto simp: settled_upto_def)
    then have "?s (Suc k) = ?s k" by (intro nth_equalityI) (auto simp: settled_upto_def)
    with True none show ?thesis by (simp add: occurrence_round_def class_starts_here(2) [OF k, symmetric])
  next
    case False
    let ?assign = "fold (\<lambda>(pos, j) xs. xs[j := Some pos]) (enumerate 0 (same_rows same rows k)) (?s k)"
    have "?assign = ?s (Suc k)"
    proof (rule nth_equalityI)
      show "length ?assign = length (?s (Suc k))" unfolding length_assign_fold by (simp add: settled_upto_def)
      fix j assume "j < length ?assign"
      then have j: "j < length rows" unfolding length_assign_fold by (simp add: settled_upto_def)
      have dist: "distinct (same_rows same rows k)" by (simp add: same_rows_def)
      have in_class: "j \<in> set (same_rows same rows k) \<longleftrightarrow> same (rows ! k) (rows ! j)" using j by (auto simp: same_rows_def)
      have "?assign ! j = (if same (rows ! k) (rows ! j)
          then Some (length (takeWhile (\<lambda>y. y \<noteq> j) (same_rows same rows k))) else ?s k ! j)"
        using j dist by (subst assign_fold_nth) (auto simp: map_of_enumerate_swap in_class settled_upto_def)
      with spec [OF j] False settled_later [OF k j] show "?assign ! j = ?s (Suc k) ! j" by simp
    qed
    with False none show ?thesis
      unfolding occurrence_round_def Let_def class_starts_here(2) [OF k, symmetric] by simp
  qed
qed

lemma occurrence_round_settles:
  assumes k: "k < length rows"
  shows "occurrence_round same rows k (settled_upto same rows k) = settled_upto same rows (Suc k)"
proof (cases "\<exists>i < k. same (rows ! i) (rows ! k)")
  case True
  then obtain i where i: "i < k" "same (rows ! i) (rows ! k)" by blast
  have more: "(\<exists>i < Suc k. same (rows ! i) (rows ! j)) \<longleftrightarrow> (\<exists>i < k. same (rows ! i) (rows ! j))" for j
  proof -
    have "\<exists>i < k. same (rows ! i) (rows ! j)" if "same (rows ! k) (rows ! j)"
      using i same_trans [OF i(2) that] by blast
    then show ?thesis by (auto simp: less_Suc_eq)
  qed
  then have later: "settled_upto same rows (Suc k) = settled_upto same rows k"
    by (simp add: settled_upto_def)
  have "i \<in> set (same_rows same rows k)" "k \<in> set (same_rows same rows k)"
    using i k same_sym same_refl by (auto simp: same_rows_def)
  with i(1) have "\<not> length (same_rows same rows k) < 2" using two_members [of i _ k] by simp
  then have "settled_upto same rows k ! k \<noteq> None" using k True by (simp add: settled_upto_def occurrence_spec_def)
  then show ?thesis by (simp add: occurrence_round_def later)
next
  case False
  show ?thesis by (rule first_of_class_round [OF k False])
qed

lemma occurrence_rounds: "k \<le> length rows \<Longrightarrow>
    fold (occurrence_round same rows) [0..<k] (replicate (length rows) None) = settled_upto same rows k"
proof (induction k)
  case 0
  show ?case by (simp add: settled_upto_def map_replicate_trivial)
next
  case (Suc k)
  then show ?case by (simp add: occurrence_round_settles)
qed

lemma assigned: "assign_occurrence_indices same rows = map (occurrence_spec same rows) [0..<length rows]"
  using occurrence_rounds [of "length rows" rows] same_refl
  by (auto simp: assign_occurrence_indices_def settled_upto_def)

lemma occurrence_less:
  assumes "i < j" "j < length rows" "same (rows ! i) (rows ! j)"
  shows "occurrence_spec same rows i \<noteq> occurrence_spec same rows j"
proof -
  let ?P = "\<lambda>m. same (rows ! i) (rows ! m)"
  have both: "same_rows same rows i = same_rows same rows j" by (rule spec_cong [OF assms(3)])
  have "filter ?P [0..<j] = filter ?P [0..<i] @ i # filter ?P [Suc i..<j]"
    using assms(1) filter_upt_split [of i j ?P] upt_conv_Cons [of i j] same_refl by simp
  then have "length (filter ?P [0..<i]) < length (filter ?P [0..<j])" by simp
  moreover have "filter ?P [0..<j] = filter (\<lambda>m. same (rows ! j) (rows ! m)) [0..<j]"
    using same_iff [OF assms(3)] by simp
  moreover have "i \<in> set (same_rows same rows i)" "j \<in> set (same_rows same rows i)"
    using assms same_refl by (auto simp: same_rows_def)
  with assms(1) have "\<not> length (same_rows same rows i) < 2" using two_members [of i _ j] by simp
  ultimately show ?thesis using both by (simp add: occurrence_spec_def)
qed

text \<open>Tagging by a setter that keeps \<open>same\<close> in and out of the tag apart makes the rows distinct.\<close>

lemma tagged_distinct:
  assumes eq: "\<And>a b o1 o2. tag a o1 = tag b o2 \<Longrightarrow> same a b \<and> o1 = o2"
  shows "distinct (map2 tag rows (assign_occurrence_indices same rows))"
proof -
  have "map2 tag rows (assign_occurrence_indices same rows) ! i \<noteq> map2 tag rows (assign_occurrence_indices same rows) ! j"
    if "i < j" "j < length rows" for i j
    using occurrence_less [of i j rows] eq that by (fastforce simp: assigned)
  then show ?thesis
    by (auto simp: distinct_conv_nth assigned) (metis linorder_neqE_nat)
qed

end

interpretation inbound_rows: row_equality inbound_collide
  by unfold_locales (auto simp: inbound_collide_def)

interpretation outbound_rows: row_equality outbound_collide
  by unfold_locales (auto simp: outbound_collide_def)

lemma tag_inbound_distinct: "distinct (tag_inbound_rows rows)"
  unfolding tag_inbound_rows_def
proof (rule inbound_rows.tagged_distinct)
  fix a b :: inbound_row and o1 o2
  assume "a\<lparr>ir_occurrence := o1\<rparr> = b\<lparr>ir_occurrence := o2\<rparr>"
  then show "inbound_collide a b \<and> o1 = o2" by (cases a; cases b) (simp add: inbound_collide_def)
qed

lemma tag_outbound_distinct: "distinct (tag_outbound_rows rows)"
  unfolding tag_outbound_rows_def
proof (rule outbound_rows.tagged_distinct)
  fix a b :: outbound_row and o1 o2
  assume "a\<lparr>or_occurrence := o1\<rparr> = b\<lparr>or_occurrence := o2\<rparr>"
  then show "outbound_collide a b \<and> o1 = o2" by (cases a; cases b) (simp add: outbound_collide_def)
qed

text \<open>
  Rows that agree on everything a reader sees are numbered by their position among their likes, rows without a
  like are not numbered, and so no two rows of a tagged table are equal.
\<close>

theorem rows_told_apart:
  "assign_occurrence_indices inbound_collide rows = map (occurrence_spec inbound_collide rows) [0..<length rows]
   \<and> assign_occurrence_indices outbound_collide rows2 = map (occurrence_spec outbound_collide rows2) [0..<length rows2]
   \<and> distinct (tag_inbound_rows rows) \<and> distinct (tag_outbound_rows rows2)"
  using inbound_rows.assigned outbound_rows.assigned tag_inbound_distinct tag_outbound_distinct by blast

section \<open>The inbound budget\<close>

lemma kinds_sum:
  "\<forall>r \<in> set rs. kind r < n \<Longrightarrow> sum_list (map (\<lambda>k. length (of_kind kind k rs)) [0..<n]) = length rs"
proof (induction rs)
  case Nil
  show ?case by (simp add: of_kind_def)
next
  case (Cons r rs)
  have one: "sum_list (map (\<lambda>k. of_bool (kind r = k)) [0..<n]) = (1 :: nat)"
    using Cons.prems sum_list_distinct_conv_sum_set [of "[0..<n]" "\<lambda>k. of_bool (kind r = k) :: nat"]
      sum.delta' [of "{0..<n}" "kind r" "\<lambda>_. 1 :: nat"] by (simp add: of_bool_def)
  have "length (of_kind kind k (r # rs)) = of_bool (kind r = k) + length (of_kind kind k rs)" for k
    by (simp add: of_kind_def)
  then show ?case using Cons one by (simp only: sum_list_addf) simp
qed

lemma take_precise:
  "sorted_wrt (\<lambda>a b. h a \<longrightarrow> h b) xs \<Longrightarrow> filter (\<lambda>x. \<not> h x) (take n xs) = take n (filter (\<lambda>x. \<not> h x) xs)"
proof (induction xs arbitrary: n)
  case (Cons x xs)
  show ?case
  proof (cases n)
    case (Suc m)
    show ?thesis
    proof (cases "h x")
      case True
      with Cons.prems have all: "\<forall>y \<in> set (x # xs). h y" by auto
      then have "filter (\<lambda>x. \<not> h x) (x # xs) = []" by (simp only: filter_empty_conv) blast
      moreover have "filter (\<lambda>x. \<not> h x) (take n (x # xs)) = []"
        using all unfolding filter_empty_conv by (blast dest: in_set_takeD)
      ultimately show ?thesis by (simp only: take_Nil)
    next
      case False
      with Suc Cons show ?thesis by simp
    qed
  qed simp
qed simp

lemma sorted_hits: "sorted_wrt (\<lambda>a b. ri_heuristic a \<longrightarrow> ri_heuristic b) (sort_key (inbound_order p edges) rs)"
proof -
  have "sorted_wrt (\<lambda>a b. inbound_order p edges a \<le> inbound_order p edges b) (sort_key (inbound_order p edges) rs)"
    using sorted_sort_key [of "inbound_order p edges" rs] by (simp add: sorted_map)
  then show ?thesis
    by (rule sorted_wrt_mono_rel [rotated]) (auto simp: inbound_order_def hit_order_def)
qed

definition cap_length :: "nat option \<Rightarrow> nat \<Rightarrow> nat" where
  "cap_length cap n = (case cap of Some c \<Rightarrow> min c n | None \<Rightarrow> n)"

definition cap_at :: "nat option \<Rightarrow> 'r list \<Rightarrow> 'r list" where
  "cap_at cap rows = (case cap of Some c \<Rightarrow> take c rows | None \<Rightarrow> rows)"

lemma cap_shown: "fst (cap_or_all rows cap) = cap_at cap rows" "length (cap_at cap rows) = cap_length cap (length rows)"
  by (auto simp: cap_or_all_def cap_rows_def cap_at_def cap_length_def split: option.splits)

lemma cap_at_subset: "set (cap_at cap rows) \<subseteq> set rows"
  by (auto simp: cap_at_def dest: in_set_takeD split: option.splits)

lemma length_filter_cap: "length (filter P (cap_at cap rows)) \<le> length (filter P rows)"
proof (cases cap)
  case (Some c)
  have "length (filter P rows) = length (filter P (take c rows)) + length (filter P (drop c rows))"
    by (simp flip: length_append filter_append)
  with Some show ?thesis by (simp add: cap_at_def)
qed (simp add: cap_at_def)

definition inbound_table_list :: "inbound_tables \<Rightarrow> inbound_row table list" where
  "inbound_table_list t =
     [in_inherits t, in_uses_type t, in_uses_member t, in_implements t, in_overrides t] @ map snd (ts_named (in_ts t))"

lemma counts_sum:
  "fold (\<lambda>tab (n, m). (n + tab_total tab, m + length (tab_rows tab))) tabs (a, b)
   = (a + sum_list (map tab_total tabs), b + sum_list (map (\<lambda>tab. length (tab_rows tab)) tabs))"
  by (induction tabs arbitrary: a b) auto

lemma reference_counts:
  "inbound_reference_counts t =
     (sum_list (map tab_total (inbound_table_list t)), sum_list (map (\<lambda>tab. length (tab_rows tab)) (inbound_table_list t)))"
  unfolding inbound_reference_counts_def inbound_table_list_def counts_sum by simp

lemma upt_9: "[0..<9] = [0, 1, 2, 3, 4, 5, 6, 7, 8 :: nat]"
  by (simp add: upt_rec)

lemma inbound_tables_of: "inbound_table_list (inbound_of read edges ranked shown) = map (inbound_kind read edges ranked shown) [0..<9]"
  by (simp add: inbound_table_list_def inbound_of_def ts_named_def upt_9 Let_def)

lemma length_tagged [simp]:
  "length (tag_inbound_rows rows) = length rows" "length (tag_outbound_rows rows2) = length rows2"
  by (simp_all add: tag_inbound_rows_def tag_outbound_rows_def inbound_rows.assigned outbound_rows.assigned)

lemma tagged_heuristic: "map ir_heuristic (tag_inbound_rows rows) = map ir_heuristic rows"
  by (rule nth_equalityI) (simp_all add: tag_inbound_rows_def inbound_rows.assigned)

lemma precise_rows:
  "length (filter (\<lambda>r. \<not> ir_heuristic r) (tag_inbound_rows rows)) = length (filter (\<lambda>r. \<not> ir_heuristic r) rows)"
proof -
  have count: "length (filter (\<lambda>r. \<not> ir_heuristic r) xs) = length (filter Not (map ir_heuristic xs))" for xs
    by (simp add: filter_map o_def)
  show ?thesis unfolding count tagged_heuristic ..
qed

lemma inbound_kind_precise:
  "length (filter (\<lambda>r. \<not> ir_heuristic r) (tab_rows (inbound_kind read edges ranked shown k)))
   = length (of_kind ri_kind k (filter (\<lambda>r. \<not> ri_heuristic r) shown))"
  by (simp add: inbound_kind_def kind_table_def precise_rows filter_map o_def of_kind_def inbound_row_of_def Let_def conj_commute)

lemma ranked_kinds: "r \<in> set (ranked_inbound_of exclude d edges rf) \<Longrightarrow> ri_kind r < 9"
  by (auto simp: ranked_inbound_of_def inbound_pairs_def Let_def)

text \<open>The references of a symbol that the answer counts: all of them, less its own span when \<open>exclude\<close> is set.\<close>

definition counted_refs :: "bool \<Rightarrow> graph_def \<Rightarrow> edge list \<Rightarrow> nat list \<Rightarrow> nat list" where
  "counted_refs exclude d edges es = filter (\<lambda>e. \<not> is_self_inbound exclude d (edges ! e)) es"

lemma ranked_length:
  "length (ranked_inbound_of exclude d edges rf) =
     sum_list (map (\<lambda>(p, g). length (counted_refs exclude d edges p) + length (counted_refs exclude d edges g)) (inbound_pairs rf))"
  by (simp add: ranked_inbound_of_def inbound_pairs_def counted_refs_def Let_def)

lemma ranked_precise_length:
  "length (filter (\<lambda>r. \<not> ri_heuristic r) (ranked_inbound_of exclude d edges rf)) =
     sum_list (map (\<lambda>(p, g). length (counted_refs exclude d edges p)) (inbound_pairs rf))"
  by (simp add: ranked_inbound_of_def inbound_pairs_def counted_refs_def Let_def)

text \<open>
  C12. The nine inbound tables share one budget. Their totals add up to every inbound reference of the symbol, their
  rows to as many as the cap admits, each table accounts for its own references as shown or dropped, and precise
  references come first: a guess is shown only when the budget has room after every precise reference.
\<close>

theorem inbound_budget:
  "let t = build_inbound_tables exclude d edges rf read cap; pairs = inbound_pairs rf;
       precise = sum_list (map (\<lambda>(p, g). length (counted_refs exclude d edges p)) pairs);
       guessed = sum_list (map (\<lambda>(p, g). length (counted_refs exclude d edges g)) pairs)
   in inbound_reference_counts t = (precise + guessed, cap_length cap (precise + guessed))
      \<and> list_all (\<lambda>tab. tab_total tab = length (tab_rows tab) + tab_dropped tab) (inbound_table_list t)
      \<and> length (filter (\<lambda>r. \<not> ir_heuristic r) (concat (map tab_rows (inbound_table_list t)))) = cap_length cap precise"
proof -
  let ?ranked = "ranked_inbound_of exclude d edges rf"
  let ?sorted = "sort_key (inbound_order (project_of (d_file d)) edges) ?ranked"
  let ?shown = "cap_at cap ?sorted"
  have tabs: "inbound_table_list (build_inbound_tables exclude d edges rf read cap)
      = map (inbound_kind read edges ?ranked ?shown) [0..<9]"
    by (simp add: build_inbound_tables_def inbound_tables_of cap_shown(1) Let_def)
  have shown_kinds: "\<forall>r \<in> set ?shown. ri_kind r < 9"
    using cap_at_subset [of cap ?sorted] ranked_kinds by fastforce
  have precise_kinds: "\<forall>r \<in> set (filter (\<lambda>r. \<not> ri_heuristic r) ?shown). ri_kind r < 9"
    using shown_kinds by simp
  have split_all: "length ?ranked = sum_list (map (\<lambda>(p, g). length (counted_refs exclude d edges p)) (inbound_pairs rf))
      + sum_list (map (\<lambda>(p, g). length (counted_refs exclude d edges g)) (inbound_pairs rf))"
    unfolding ranked_length case_prod_unfold sum_list_addf ..
  have totals: "sum_list (map (\<lambda>k. tab_total (inbound_kind read edges ?ranked ?shown k)) [0..<9]) = length ?ranked"
    using kinds_sum [of ?ranked ri_kind 9] ranked_kinds by (simp add: inbound_kind_def kind_table_def)
  have rows: "sum_list (map (\<lambda>k. length (tab_rows (inbound_kind read edges ?ranked ?shown k))) [0..<9]) = length ?shown"
    using kinds_sum [OF shown_kinds] by (simp add: inbound_kind_def kind_table_def)
  have fits: "length (of_kind ri_kind k ?shown) \<le> length (of_kind ri_kind k ?ranked)" for k
  proof -
    have "length (of_kind ri_kind k ?sorted) = length (of_kind ri_kind k ?ranked)"
      by (simp add: of_kind_def filter_sort)
    then show ?thesis using length_filter_cap [of "\<lambda>r. ri_kind r = k" cap ?sorted] by (simp add: of_kind_def)
  qed
  have "length (filter (\<lambda>r. \<not> ir_heuristic r) (concat (map (\<lambda>k. tab_rows (inbound_kind read edges ?ranked ?shown k)) [0..<9])))
      = sum_list (map (\<lambda>k. length (filter (\<lambda>r. \<not> ir_heuristic r) (tab_rows (inbound_kind read edges ?ranked ?shown k)))) [0..<9])"
    by (simp add: filter_concat length_concat o_def)
  also have "\<dots> = length (filter (\<lambda>r. \<not> ri_heuristic r) ?shown)"
    unfolding inbound_kind_precise by (rule kinds_sum [OF precise_kinds])
  also have "\<dots> = cap_length cap (length (filter (\<lambda>r. \<not> ri_heuristic r) ?ranked))"
    by (simp add: cap_at_def cap_length_def take_precise [OF sorted_hits] filter_sort min.commute split: option.split)
  finally show ?thesis
    using totals rows fits
    by (simp add: Let_def reference_counts tabs o_def split_all cap_shown(2) ranked_precise_length list_all_iff
        inbound_kind_def kind_table_def del: upt_Suc)
qed

section \<open>Shown lines\<close>

lemma utf16_len_head:
  assumes "utf8_head s = Some k" "s \<noteq> []"
  shows "utf16_len s = len_utf16 k + utf16_len (drop k s)"
proof -
  from assms have "char_lens 0 s = (0, k) # char_lens k (drop k s)" by (subst char_lens.simps) simp
  then show ?thesis using utf16_len_start [of k "drop k s"] by (simp add: utf16_len_def)
qed

lemma head_take:
  assumes "utf8_head s = Some k" "s \<noteq> []"
  shows "utf8_head (take k s @ ys) = Some k" "length (take k s) = k"
proof -
  show len: "length (take k s) = k" using utf8_head_bytes(1) [OF assms] by simp
  then have "\<forall>i < k. utf8_byte (take k s @ ys) i = utf8_byte s i" by (auto simp: utf8_byte_def nth_append)
  with assms(1) show "utf8_head (take k s @ ys) = Some k" by (rule utf8_head_cong)
qed

lemma utf16_replacement: "utf16_len REPLACEMENT = 1"
  by code_simp

lemma clip_units_bound: "utf16_len (clip_units n s) \<le> n"
proof (induction n s rule: clip_units.induct)
  case (1 n s)
  show ?case
  proof (cases "s = [] \<or> n = 0")
    case True
    then show ?thesis by (simp add: clip_units.simps [of n s] utf16_len_def char_lens.simps)
  next
    case False
    show ?thesis
    proof (cases "utf8_head s")
      case None
      with False show ?thesis by (simp add: clip_units.simps [of n s] utf16_len_def char_lens.simps)
    next
      case (Some k)
      show ?thesis
      proof (cases "n < len_utf16 k")
        case True
        with False Some show ?thesis by (simp add: clip_units.simps [of n s] utf16_replacement)
      next
        case fits: False
        let ?rest = "clip_units (n - len_utf16 k) (drop k s)"
        have "utf16_len (take k s @ ?rest) = len_utf16 k + utf16_len ?rest"
          using utf16_len_head [OF head_take(1) [OF Some]] head_take(2) [OF Some] utf8_head_pos [OF Some] False by simp
        with 1 False Some fits show ?thesis by (simp add: clip_units.simps [of n s])
      qed
    qed
  qed
qed

lemma clip_units_prefix: "\<exists>m. clip_units n s = take m s \<or> clip_units n s = take m s @ REPLACEMENT"
proof (induction n s rule: clip_units.induct)
  case (1 n s)
  show ?case
  proof (cases "s = [] \<or> n = 0 \<or> utf8_head s = None")
    case True
    then have "clip_units n s = take 0 s" by (auto simp: clip_units.simps [of n s])
    then show ?thesis by blast
  next
    case False
    then obtain k where k: "utf8_head s = Some k" by auto
    show ?thesis
    proof (cases "n < len_utf16 k")
      case True
      with False k have "clip_units n s = take 0 s @ REPLACEMENT" by (simp add: clip_units.simps [of n s])
      then show ?thesis by blast
    next
      case fits: False
      then obtain m where "clip_units (n - len_utf16 k) (drop k s) = take m (drop k s)
          \<or> clip_units (n - len_utf16 k) (drop k s) = take m (drop k s) @ REPLACEMENT"
        using 1 False k by blast
      moreover have "take k s @ take m (drop k s) = take (k + m) s" by (simp add: take_add)
      ultimately have "clip_units n s = take (k + m) s \<or> clip_units n s = take (k + m) s @ REPLACEMENT"
        using False k fits by (auto simp: clip_units.simps [of n s] simp flip: append_assoc)
      then show ?thesis by blast
    qed
  qed
qed

text \<open>
  The source line of a hit is at most \<open>SOURCE_MAX\<close> UTF-16 units long, whatever the file holds, and it is the
  trimmed line with its tabs as spaces: the whole of it when that fits, otherwise a prefix, closed by a replacement
  character when the cut falls inside a surrogate pair.
\<close>

theorem shown_line_bounded:
  "let shown = hit_source read f line; whole = str_replace_char TAB CHR '' '' (cached_line read f line)
   in utf16_len shown \<le> SOURCE_MAX
      \<and> (if utf16_len whole \<le> SOURCE_MAX then shown = whole
         else \<exists>m. shown = take m whole \<or> shown = take m whole @ REPLACEMENT)"
  using clip_units_bound [of SOURCE_MAX] clip_units_prefix [of SOURCE_MAX]
  by (auto simp: Let_def hit_source_def clip_source_def)

end
