(* ===== verification/QueryTotal.thy ===== *)
theory QueryTotal
  imports QueryFacts
begin

text \<open>
  The lists of a loaded index hold edges of the kinds their readers expect, so no \<open>unreachable!\<close> of the answer is
  ever reached, and every name an answer looks up is there.
\<close>

section \<open>The kinds of the listed edges\<close>

definition names_def :: "edge \<Rightarrow> bool" where
  "names_def e \<longleftrightarrow> named_to_file e \<noteq> None \<and> \<not> is_Import e"

definition all_at :: "edge list \<Rightarrow> (edge \<Rightarrow> bool) \<Rightarrow> nat list \<Rightarrow> bool" where
  "all_at edges P is \<longleftrightarrow> (\<forall>i \<in> set is. P (edges ! i))"

lemma all_at_simps [simp]:
  "all_at edges P []" "all_at edges P (is @ js) \<longleftrightarrow> all_at edges P is \<and> all_at edges P js"
  "all_at edges P [i] \<longleftrightarrow> P (edges ! i)"
  by (auto simp: all_at_def)

definition outbound_ok :: "edge list \<Rightarrow> outbound_entry \<Rightarrow> bool" where
  "outbound_ok edges x \<longleftrightarrow>
     all_at edges names_def (oe_inherits x) \<and> all_at edges names_def (oe_uses_type x)
     \<and> all_at edges names_def (oe_uses_member x) \<and> all_at edges names_def (oe_implements x)
     \<and> all_at edges names_def (oe_overrides x) \<and> all_at edges names_def (tk_call (oe_ts x))
     \<and> all_at edges names_def (tk_jsx_use (oe_ts x)) \<and> all_at edges names_def (tk_dispatch (oe_ts x))
     \<and> all_at edges is_Import (tk_import (oe_ts x))
     \<and> all_at edges is_Imports (oe_imports x) \<and> all_at edges is_Bus_Hop (oe_bus_hop x)"

definition guessed_ok :: "edge list \<Rightarrow> inbound_entry \<Rightarrow> bool" where
  "guessed_ok edges x \<longleftrightarrow>
     all_at edges names_def (ie_inherits x) \<and> all_at edges names_def (ie_uses_type x)
     \<and> all_at edges names_def (ie_uses_member x)"

definition bus_ok :: "edge list \<Rightarrow> inbound_entry \<Rightarrow> bool" where
  "bus_ok edges x \<longleftrightarrow> all_at edges is_Bus_Hop (ie_bus_hop x)"

definition entries :: "('v \<Rightarrow> bool) \<Rightarrow> ('k \<Rightarrow> 'v option) \<Rightarrow> bool" where
  "entries P m \<longleftrightarrow> (\<forall>k v. m k = Some v \<longrightarrow> P v)"

lemma entries_empty [simp]: "entries P (\<lambda>_. None)"
  by (simp add: entries_def)

lemma entries_update:
  "entries P m \<Longrightarrow> P dflt \<Longrightarrow> (\<And>v. P v \<Longrightarrow> P (f v)) \<Longrightarrow> entries P (entry_update k dflt f m)"
  by (auto simp: entries_def entry_update_apply or_default_def split: option.splits)

lemma entries_default: "entries P m \<Longrightarrow> P dflt \<Longrightarrow> P (or_default dflt (m k))"
  by (cases "m k") (auto simp: entries_def or_default_def)

definition index_kinds :: "edge list \<Rightarrow> index_maps \<Rightarrow> bool" where
  "index_kinds edges m \<longleftrightarrow>
     entries (outbound_ok edges) (ix_outbound_by_file m)
     \<and> entries (guessed_ok edges) (ix_heuristic_outbound_by_file m)
     \<and> entries (bus_ok edges) (ix_inbound m)
     \<and> entries (all_at edges is_Ambiguous) (ix_ambiguous_by_file m)
     \<and> entries (all_at edges is_Ambiguous) (ix_ambiguous_by_candidate m)"

lemma kinds_defaults [simp]: "outbound_ok edges oe_default" "guessed_ok edges ie_default" "bus_ok edges ie_default"
  by (simp_all add: outbound_ok_def guessed_ok_def bus_ok_def oe_default_def ie_default_def ts_default_def)

lemma kinds_note [simp]: "index_kinds edges (note_dispatch_files p a b m) = index_kinds edges m"
  by (simp add: index_kinds_def note_dispatch_files_def)

lemma kinds_flagged: "index_kinds edges m \<Longrightarrow> index_kinds edges (m\<lparr>ix_flagged_files := fs\<rparr>)"
  by (simp add: index_kinds_def)

lemma kinds_outbound:
  "index_kinds edges m \<Longrightarrow> (\<And>x. outbound_ok edges x \<Longrightarrow> outbound_ok edges (f x)) \<Longrightarrow> index_kinds edges (on_outbound k f m)"
  by (auto simp: index_kinds_def on_outbound_def intro!: entries_update)

lemma kinds_inbound:
  "index_kinds edges m \<Longrightarrow> (\<And>x. bus_ok edges x \<Longrightarrow> bus_ok edges (f x)) \<Longrightarrow> index_kinds edges (on_inbound k f m)"
  by (auto simp: index_kinds_def on_inbound_def intro!: entries_update)

lemma kinds_guessed:
  "index_kinds edges m \<Longrightarrow> (\<And>x. guessed_ok edges x \<Longrightarrow> guessed_ok edges (f x)) \<Longrightarrow> index_kinds edges (on_heuristic a b f m)"
  by (auto simp: index_kinds_def on_heuristic_def intro!: entries_update)

lemma entries_push: "entries (all_at edges P) m \<Longrightarrow> P (edges ! i) \<Longrightarrow> entries (all_at edges P) (push_index k i m)"
  unfolding push_index_def by (rule entries_update) auto

lemma entries_push_all:
  "entries (all_at edges P) m \<Longrightarrow> P (edges ! i) \<Longrightarrow> entries (all_at edges P) (fold (\<lambda>c. push_index (key c) i) cs m)"
  by (induction cs arbitrary: m) (auto simp: entries_push)

lemma kinds_fold_inbound:
  "index_kinds edges m \<Longrightarrow> (\<And>x. bus_ok edges x \<Longrightarrow> bus_ok edges (f x)) \<Longrightarrow>
   index_kinds edges (fold (\<lambda>t. on_inbound t f) ts m)"
  by (induction ts arbitrary: m) (auto simp: kinds_inbound)

lemmas kinds_intros = kinds_outbound kinds_inbound kinds_guessed kinds_fold_inbound

lemma pushed_ok:
  "outbound_ok edges (x\<lparr>oe_inherits := oe_inherits x @ [i]\<rparr>) \<longleftrightarrow> outbound_ok edges x \<and> names_def (edges ! i)"
  "outbound_ok edges (x\<lparr>oe_uses_type := oe_uses_type x @ [i]\<rparr>) \<longleftrightarrow> outbound_ok edges x \<and> names_def (edges ! i)"
  "outbound_ok edges (x\<lparr>oe_uses_member := oe_uses_member x @ [i]\<rparr>) \<longleftrightarrow> outbound_ok edges x \<and> names_def (edges ! i)"
  "outbound_ok edges (x\<lparr>oe_implements := oe_implements x @ [i]\<rparr>) \<longleftrightarrow> outbound_ok edges x \<and> names_def (edges ! i)"
  "outbound_ok edges (x\<lparr>oe_overrides := oe_overrides x @ [i]\<rparr>) \<longleftrightarrow> outbound_ok edges x \<and> names_def (edges ! i)"
  "outbound_ok edges (x\<lparr>oe_imports := oe_imports x @ [i]\<rparr>) \<longleftrightarrow> outbound_ok edges x \<and> is_Imports (edges ! i)"
  "outbound_ok edges (x\<lparr>oe_bus_hop := oe_bus_hop x @ [i]\<rparr>) \<longleftrightarrow> outbound_ok edges x \<and> is_Bus_Hop (edges ! i)"
  "guessed_ok edges (y\<lparr>ie_inherits := ie_inherits y @ [i]\<rparr>) \<longleftrightarrow> guessed_ok edges y \<and> names_def (edges ! i)"
  "guessed_ok edges (y\<lparr>ie_uses_type := ie_uses_type y @ [i]\<rparr>) \<longleftrightarrow> guessed_ok edges y \<and> names_def (edges ! i)"
  "guessed_ok edges (y\<lparr>ie_uses_member := ie_uses_member y @ [i]\<rparr>) \<longleftrightarrow> guessed_ok edges y \<and> names_def (edges ! i)"
  "bus_ok edges (y\<lparr>ie_bus_hop := ie_bus_hop y @ [i]\<rparr>) \<longleftrightarrow> bus_ok edges y \<and> is_Bus_Hop (edges ! i)"
  by (simp_all add: outbound_ok_def guessed_ok_def bus_ok_def conj_ac)

lemma pushed_same:
  "bus_ok edges (y\<lparr>ie_inherits := a\<rparr>) = bus_ok edges y" "bus_ok edges (y\<lparr>ie_uses_type := a\<rparr>) = bus_ok edges y"
  "bus_ok edges (y\<lparr>ie_uses_member := a\<rparr>) = bus_ok edges y" "bus_ok edges (y\<lparr>ie_implements := a\<rparr>) = bus_ok edges y"
  "bus_ok edges (y\<lparr>ie_overrides := a\<rparr>) = bus_ok edges y" "bus_ok edges (y\<lparr>ie_ts := k\<rparr>) = bus_ok edges y"
  by (simp_all add: bus_ok_def)

lemma pushed_ts:
  "which \<noteq> TS_Import \<Longrightarrow> outbound_ok edges (x\<lparr>oe_ts := ts_push which i (oe_ts x)\<rparr>) \<longleftrightarrow> outbound_ok edges x \<and> names_def (edges ! i)"
  "outbound_ok edges (x\<lparr>oe_ts := ts_push TS_Import i (oe_ts x)\<rparr>) \<longleftrightarrow> outbound_ok edges x \<and> is_Import (edges ! i)"
  by (cases which; simp add: outbound_ok_def conj_ac; blast)+

lemma kinds_ts:
  assumes "index_kinds edges m" "\<And>f t ts which. admitted (edges ! i) = Some (f, t, ts, which) \<Longrightarrow>
      (if which = TS_Import then is_Import (edges ! i) else names_def (edges ! i))"
  shows "index_kinds edges (index_ts paths i (edges ! i) m)"
proof (cases "admitted (edges ! i)")
  case (Some a)
  obtain f t ts which where a: "a = (f, t, ts, which)" by (cases a)
  show ?thesis
    using assms(2) [OF Some [unfolded a]] assms(1) Some a
    by (cases "which = TS_Import")
      (simp_all add: index_ts_def record_ts_edge_def pushed_ts pushed_same kinds_outbound kinds_fold_inbound
        del: ts_push.simps)
qed (use assms in \<open>simp add: index_ts_def record_ts_edge_def\<close>)

lemma kinds_arms:
  "index_kinds edges m \<Longrightarrow> names_def (edges ! i) \<Longrightarrow> index_kinds edges (index_dispatch opts paths i (edges ! i) f t tf m)"
  "index_kinds edges m \<Longrightarrow> is_Bus_Hop (edges ! i) \<Longrightarrow> index_kinds edges (index_bus opts paths i f t tf m)"
  by (simp_all add: index_dispatch_def index_bus_def record_dispatch_edge_def record_bus_edge_def Let_def
      kinds_outbound kinds_inbound pushed_ok pushed_same)

lemma kinds_step:
  assumes e: "edges ! i = e" and ok: "index_kinds edges m"
  shows "index_kinds edges (index_edge opts paths (i, e) m)"
proof (cases e)
  case (Ambiguous origin f l raw cands n)
  with assms show ?thesis by (auto simp: index_kinds_def intro!: entries_push entries_push_all)
next
  case (Ctor_Di f l iface res args t cands)
  with assms show ?thesis by (simp add: index_arms index_kinds_def)
next
  case (Imports f l t)
  with assms show ?thesis by (simp add: pushed_ok kinds_outbound kinds_flagged)
next
  case (Inherits f l t tf h)
  with assms show ?thesis
    by (simp add: Let_def kinds_outbound kinds_inbound kinds_guessed pushed_ok pushed_same names_def_def)
next
  case (Uses_Type f l t tf h)
  with assms show ?thesis
    by (simp add: Let_def kinds_outbound kinds_inbound kinds_guessed pushed_ok pushed_same names_def_def)
next
  case (Uses_Member f l t tf h tier mem src sig)
  with assms show ?thesis
    by (simp add: Let_def kinds_outbound kinds_inbound kinds_guessed pushed_ok pushed_same names_def_def)
next
  case (Implements f l t tf mem)
  then show ?thesis using kinds_arms(1) [OF ok, of i opts paths f t tf] by (simp add: e names_def_def)
next
  case (Overrides f l t tf mem)
  then show ?thesis using kinds_arms(1) [OF ok, of i opts paths f t tf] by (simp add: e names_def_def)
next
  case (Bus_Hop f l msg t tf ev)
  with assms show ?thesis by (simp add: kinds_arms)
next
  case (Import f l t tf v b)
  have "index_kinds edges (index_ts paths i (edges ! i) m)"
    by (rule kinds_ts [OF ok]) (auto simp: e Import split: if_splits)
  with Import e show ?thesis by simp
qed (use kinds_ts [OF ok, of i paths] in \<open>simp add: e names_def_def\<close>)+

lemma kinds_fold: "index_kinds edges m \<Longrightarrow> \<forall>(i, e) \<in> set ps. edges ! i = e \<Longrightarrow>
    index_kinds edges (fold (index_edge opts paths) ps m)"
  by (induction ps arbitrary: m) (auto simp: kinds_step)

lemma kinds_def_step: "index_kinds edges (index_def lowercase paths p m) = index_kinds edges m"
  by (cases p) (simp add: index_kinds_def index_def_def)

lemma kinds_defs: "index_kinds edges (fold (index_def lowercase paths) ps m) = index_kinds edges m"
  by (induction ps arbitrary: m) (simp_all add: kinds_def_step)

lemma loaded_kinds: "index_kinds (g_edges g) (gi_maps (load_graph_index_with lowercase manifest g opts))"
proof -
  have "index_kinds (g_edges g) empty_maps" by (simp add: index_kinds_def empty_maps_def)
  then show ?thesis
    by (simp add: load_graph_index_with_def finish_index_def Let_def)
      (rule kinds_fold, auto simp: kinds_defs set_zip)
qed

section \<open>No panic\<close>

lemma outbound_join: "outbound_ok edges a \<Longrightarrow> outbound_ok edges b \<Longrightarrow> outbound_ok edges (extend_outbound a b)"
  by (simp add: outbound_ok_def extend_outbound_def ts_extend_def)

lemma guessed_join: "guessed_ok edges a \<Longrightarrow> guessed_ok edges b \<Longrightarrow> guessed_ok edges (extend_heuristic a b)"
  by (simp add: guessed_ok_def extend_heuristic_def)

lemma over_files_ok:
  assumes "entries P m" "P e0" "\<And>a b. P a \<Longrightarrow> P b \<Longrightarrow> P (join a b)"
  shows "P (over_files join e0 m files)"
  unfolding over_files_def
  by (rule fold_invariant [where Q = "\<lambda>_. True"]) (use assms in \<open>auto simp: entries_def split: option.split\<close>)

definition lists_ok :: "edge list \<Rightarrow> symbol_lists \<Rightarrow> bool" where
  "lists_ok edges r \<longleftrightarrow>
     outbound_ok edges (sr_outbound r) \<and> guessed_ok edges (sr_heuristic_outbound r)
     \<and> all_at edges is_Ambiguous (sr_ambiguous_inbound r) \<and> all_at edges is_Ambiguous (sr_ambiguous_outbound r)"

lemma all_at_concat: "(\<And>x. x \<in> set xs \<Longrightarrow> all_at edges P (f x)) \<Longrightarrow> all_at edges P (concat (map f xs))"
  by (auto simp: all_at_def)

lemma symbol_lists_ok:
  assumes ok: "index_kinds edges (gi_maps ix)"
  shows "lists_ok edges (symbol_refs ix def_id)"
proof -
  note parts = ok [unfolded index_kinds_def]
  have "outbound_ok edges (over_files extend_outbound oe_default (ix_outbound_by_file (gi_maps ix)) fs)"
    "guessed_ok edges (over_files extend_heuristic ie_default (ix_heuristic_outbound_by_file (gi_maps ix)) fs)" for fs
    using parts by (simp_all add: over_files_ok outbound_join guessed_join)
  moreover have "all_at edges is_Ambiguous (or_default [] (ix_ambiguous_by_candidate (gi_maps ix) def_id))"
    "all_at edges is_Ambiguous (concat (map (\<lambda>f. or_default [] (ix_ambiguous_by_file (gi_maps ix) f)) fs))" for fs
    using parts by (simp_all add: entries_default all_at_concat)
  ultimately show ?thesis by (simp add: lists_ok_def symbol_refs_def Let_def)
qed

lemma all_mapped: "all_some (map f xs) \<noteq> None \<longleftrightarrow> (\<forall>x \<in> set xs. f x \<noteq> None)"
  unfolding all_some_None set_map by (metis image_iff)

lemma ambiguous_row_Some: "is_Ambiguous e \<Longrightarrow> ambiguous_row_of e \<noteq> None"
  by (cases e) auto

lemma ambiguous_table:
  assumes "all_at edges is_Ambiguous is"
  shows "build_table is edges cap ambiguous_row_of \<noteq> None"
proof -
  obtain shown dropped where cut: "cap_rows (sort_key (loc_order edges) is) cap = (shown, dropped)" by fastforce
  then have "set shown \<subseteq> set is" by (auto simp: cap_rows_def dest: in_set_takeD split: if_splits)
  with assms have "all_some (map (\<lambda>i. ambiguous_row_of (edges ! i)) shown) \<noteq> None"
    unfolding all_mapped all_at_def using ambiguous_row_Some by blast
  then show ?thesis by (simp add: build_table_def Let_def cut)
qed

lemma bus_row: "is_Bus_Hop e \<Longrightarrow> bus_hop_row_of e dir handlers \<noteq> None"
  by (cases e) auto

lemma bus_rows:
  assumes ok: "index_kinds (g_edges (gi_graph ix)) (gi_maps ix)"
  shows "symbol_bus_rows ix def_id cap \<noteq> None"
proof -
  let ?edges = "g_edges (gi_graph ix)"
  let ?in = "case ix_inbound (gi_maps ix) def_id of Some e \<Rightarrow> ie_bus_hop e | None \<Rightarrow> []"
  let ?out = "\<lambda>f. case ix_outbound_by_file (gi_maps ix) f of Some e \<Rightarrow> oe_bus_hop e | None \<Rightarrow> []"
  have "all_at ?edges is_Bus_Hop ?in" "all_at ?edges is_Bus_Hop (?out f)" for f
    using ok by (auto simp: index_kinds_def entries_def bus_ok_def outbound_ok_def split: option.split)
  then have lists: "\<forall>i \<in> set ?in. is_Bus_Hop (?edges ! i)"
    "\<forall>i \<in> set (concat (map ?out fs)). is_Bus_Hop (?edges ! i)" for fs
    by (auto simp: all_at_def)
  have mapped: "None \<notin> set (map (\<lambda>e. bus_hop_row_of (?edges ! e) dir h) (sort_key (loc_order ?edges) is))"
    if "\<forall>i \<in> set is. is_Bus_Hop (?edges ! i)" for "is" dir h
  proof
    assume "None \<in> set (map (\<lambda>e. bus_hop_row_of (?edges ! e) dir h) (sort_key (loc_order ?edges) is))"
    then obtain i where "i \<in> set is" "bus_hop_row_of (?edges ! i) dir h = None" by auto
    with that bus_row show False by blast
  qed
  show ?thesis
    unfolding symbol_bus_rows_def Let_def option.map_disc_iff all_some_None set_append Un_iff de_Morgan_disj
    by (intro conjI mapped lists)
qed

text \<open>What every ranked outbound entry is: an edge that names a definition, a bound part of an import, or an import.\<close>

definition ranked_ok :: "edge list \<Rightarrow> ranked_outbound \<Rightarrow> bool" where
  "ranked_ok edges r \<longleftrightarrow>
     (let e = edges ! ro_edge r
      in if ro_kind r = K_IMPORTS then is_Imports e else names_def e \<or> (is_Import e \<and> ro_part r < import_parts e))"

lemma push_named:
  "k \<noteq> K_IMPORTS \<Longrightarrow> all_at edges names_def a \<Longrightarrow> all_at edges names_def b \<Longrightarrow> list_all (ranked_ok edges) (push_ranked k a b)"
  by (auto simp: list_all_iff push_ranked_def ranked_ok_def all_at_def Let_def)

lemma push_imports: "all_at edges is_Imports a \<Longrightarrow> list_all (ranked_ok edges) (push_ranked K_IMPORTS a [])"
  by (auto simp: list_all_iff push_ranked_def ranked_ok_def all_at_def Let_def)

lemma other_kinds:
  "K_INHERITS \<noteq> K_IMPORTS" "K_USES_TYPE \<noteq> K_IMPORTS" "K_USES_MEMBER \<noteq> K_IMPORTS" "K_IMPLEMENTS \<noteq> K_IMPORTS"
  "K_OVERRIDES \<noteq> K_IMPORTS" "K_TS_CALL \<noteq> K_IMPORTS" "K_TS_JSX_USE \<noteq> K_IMPORTS" "K_TS_DISPATCH \<noteq> K_IMPORTS"
  "K_TS_IMPORT \<noteq> K_IMPORTS"
  by (simp_all add: kinds)

lemma push_ts_ok: "all_at edges is_Import is \<Longrightarrow> list_all (ranked_ok edges) (push_ts_imports is edges)"
  by (auto simp: list_all_iff push_ts_imports_def ranked_ok_def all_at_def Let_def kinds)

lemma ranked_outbound_ok:
  assumes "lists_ok edges rf"
  shows "\<forall>r \<in> set (ranked_outbound_of rf edges). ranked_ok edges r"
proof -
  note parts = assms [unfolded lists_ok_def outbound_ok_def guessed_ok_def]
  have "list_all (ranked_ok edges) (ranked_outbound_of rf edges)"
    unfolding ranked_outbound_of_def Let_def list_all_append
    using parts by (simp only: push_named push_imports push_ts_ok other_kinds all_at_simps simp_thms not_False_eq_True)
  then show ?thesis by (simp add: list_all_iff)
qed

lemma named_row:
  assumes "ranked_ok edges r" "ro_kind r \<noteq> K_IMPORTS"
  shows "outbound_row_of read edges r \<noteq> None" "outbound_foreign p edges r \<noteq> None"
proof -
  let ?e = "edges ! ro_edge r"
  from assms have ok: "names_def ?e \<or> (is_Import ?e \<and> ro_part r < import_parts ?e)" by (simp add: ranked_ok_def Let_def)
  have "named_to_file ?e \<noteq> None \<and> row_target ?e (ro_part r) \<noteq> None"
    using ok by (cases ?e) (auto simp: names_def_def get_def)
  then show "outbound_row_of read edges r \<noteq> None" "outbound_foreign p edges r \<noteq> None"
    using assms(2) by (auto simp: outbound_row_of_def outbound_foreign_def Let_def)
qed

lemma import_row: "ranked_ok edges r \<Longrightarrow> ro_kind r = K_IMPORTS \<Longrightarrow> import_row_of read edges r \<noteq> None"
  by (simp add: ranked_ok_def import_row_of_def Let_def)

lemma foreign_known: "ranked_ok edges r \<Longrightarrow> outbound_foreign p edges r \<noteq> None"
  using named_row(2) [of edges r p] by (cases "ro_kind r = K_IMPORTS") (simp_all add: outbound_foreign_def)

lemma outbound_kind_known:
  assumes "\<forall>r \<in> set shown. ranked_ok edges r" "k \<noteq> K_IMPORTS"
  shows "outbound_kind read edges ranked shown k \<noteq> None"
proof -
  have "outbound_row_of read edges r \<noteq> None" if "r \<in> set (of_kind ro_kind k shown)" for r
    using that assms named_row(1) [of edges r] by (auto simp: of_kind_def)
  then show ?thesis unfolding outbound_kind_def option.map_disc_iff all_mapped by blast
qed

lemma outbound_known:
  assumes "lists_ok edges rf"
  shows "build_outbound_tables rf p edges read cap \<noteq> None"
proof -
  let ?ranked = "ranked_outbound_of rf edges"
  let ?shown = "cap_at cap (sort_key (outbound_order p edges) ?ranked)"
  note ranked = ranked_outbound_ok [OF assms]
  then have shown: "\<forall>r \<in> set ?shown. ranked_ok edges r"
    using cap_at_subset [of cap "sort_key (outbound_order p edges) ?ranked"] by (metis set_sort subsetD)
  have "import_row_of read edges r \<noteq> None" if "r \<in> set (of_kind ro_kind K_IMPORTS ?shown)" for r
    using that shown import_row [of edges r] by (auto simp: of_kind_def)
  then have import_rows: "all_some (map (import_row_of read edges) (of_kind ro_kind K_IMPORTS ?shown)) \<noteq> None"
    unfolding all_mapped by blast
  have comparable: "\<not> (\<exists>x \<in> set ?ranked. outbound_foreign p edges x = None)" using ranked foreign_known by blast
  note tabs = outbound_kind_known [OF shown other_kinds(1), of read ?ranked] outbound_kind_known [OF shown other_kinds(2), of read ?ranked]
    outbound_kind_known [OF shown other_kinds(3), of read ?ranked] outbound_kind_known [OF shown other_kinds(4), of read ?ranked]
    outbound_kind_known [OF shown other_kinds(5), of read ?ranked] outbound_kind_known [OF shown other_kinds(6), of read ?ranked]
    outbound_kind_known [OF shown other_kinds(7), of read ?ranked] outbound_kind_known [OF shown other_kinds(8), of read ?ranked]
    outbound_kind_known [OF shown other_kinds(9), of read ?ranked]
  show ?thesis
    unfolding build_outbound_tables_def Let_def cap_shown(1) if_not_P [OF comparable]
    using tabs import_rows by (auto simp del: not_None_eq simp: split: option.split)
qed

section \<open>Member seeds and resolved ids\<close>

lemma member_owner:
  assumes "(owner, sites) \<in> set (qualified_member_owners ix (fst (split_member_seed seed)) (snd (split_member_seed seed)))"
  shows "gi_def ix owner \<noteq> None" "sites \<noteq> []"
proof -
  note entry = group_rows_entry [OF assms [unfolded member_owners_grouped]]
  from entry(1) obtain n where n: "n \<in> set (filter (seed_row ix seed) (g_names (gi_graph ix)))" "gn_owner n = owner" by auto
  then show "gi_def ix owner \<noteq> None" by (auto simp: seed_row_def is_member_row_def gi_def_def)
  from n have "n \<in> set (filter (\<lambda>r. gn_owner r = owner) (filter (seed_row ix seed) (g_names (gi_graph ix))))" by simp
  then show "sites \<noteq> []" unfolding entry(2) by (auto simp: filter_empty_conv)
qed

lemma dispatch_kinds: "i \<in> set (member_dispatch_edges rf edges name) \<Longrightarrow> is_Implements (edges ! i) \<or> is_Overrides (edges ! i)"
  by (cases "edges ! i") (auto simp: member_dispatch_edges_def)

definition group_ok :: "graph_index \<Rightarrow> member_group \<Rightarrow> bool" where
  "group_ok ix g \<longleftrightarrow> (case g of (_, sites, _, hits) \<Rightarrow>
     sites \<noteq> [] \<and> list_all (\<lambda>e. is_Implements (g_edges (gi_graph ix) ! e) \<or> is_Overrides (g_edges (gi_graph ix) ! e)) hits)"

lemma group_model: "group_ok ix g \<Longrightarrow> member_group_model ix read seed name g budget \<noteq> None"
  by (cases g) (simp add: group_ok_def member_group_model_def Let_def split_dispatch_rows_def split_beta)

lemma group_models: "list_all (group_ok ix) gs \<Longrightarrow> member_models ix read seed name gs budget \<noteq> None"
proof (induction gs arbitrary: budget)
  case (Cons g gs)
  then obtain m left where "member_group_model ix read seed name g budget = Some (m, left)"
    using group_model [of ix g read seed name budget] by auto
  with Cons show ?case by simp
qed simp

lemma owner_group_ok: "sites \<noteq> [] \<Longrightarrow> owner_group ix read name (owner, sites) = Some g \<Longrightarrow> group_ok ix g"
  by (auto simp: owner_group_def group_ok_def list_all_iff dest: dispatch_kinds)

lemma owners_known:
  assumes "\<forall>(owner, sites) \<in> set owners. gi_def ix owner \<noteq> None \<and> sites \<noteq> []"
  shows "member_refs_from_owners ix read seed name owners cap \<noteq> None"
proof (cases "owners = []")
  case False
  have "owner_group ix read name p \<noteq> None" if "p \<in> set owners" for p
    using that assms by (cases p) (auto simp: owner_group_def verified_member_edges_def simp del: not_None_eq)
  then obtain groups where groups: "all_some (map (owner_group ix read name) owners) = Some groups"
    using all_mapped [of "owner_group ix read name" owners] by blast
  have "group_ok ix g" if "g \<in> set groups" for g
  proof -
    have "Some g \<in> set (map (owner_group ix read name) owners)"
      using that unfolding all_some_Some [OF groups] by simp
    then obtain owner sites where p: "(owner, sites) \<in> set owners" "owner_group ix read name (owner, sites) = Some g"
      unfolding set_map image_iff by (metis surj_pair)
    from p(1) assms have "sites \<noteq> []" by blast
    from owner_group_ok [OF this p(2)] show ?thesis .
  qed
  then have ok: "list_all (group_ok ix) (answering_groups groups)" by (simp add: answering_groups_def list_all_iff)
  have "group_candidate name g \<noteq> None" if "group_ok ix g" for g
    using that by (cases g) (simp add: group_candidate_def group_ok_def get_def)
  then have "all_some (map (group_candidate name) (answering_groups groups)) \<noteq> None"
    using ok unfolding all_mapped list_all_iff by blast
  with False show ?thesis
    using group_models [OF ok] by (simp add: member_refs_from_owners_def groups Let_def)
qed (simp add: member_refs_from_owners_def)

lemma candidate_ids:
  assumes "\<forall>i \<in> set c. d_id (def_at ix i) \<in> D"
  shows "non_local_step ix c = Some (Resolved ident) \<Longrightarrow> ident \<in> D" "local_step ix c = Some (Resolved ident) \<Longrightarrow> ident \<in> D"
proof -
  assume "non_local_step ix c = Some (Resolved ident)"
  then obtain i where "filter (\<lambda>i. \<not> d_local (def_at ix i)) c = [i]" "ident = d_id (def_at ix i)"
    by (auto simp: non_local_step_def split: list.splits)
  moreover from this(1) have "i \<in> set c" by (metis filter_is_subset list.set_intros(1) subsetD)
  ultimately show "ident \<in> D" using assms by blast
next
  assume "local_step ix c = Some (Resolved ident)"
  then have "sort (map (\<lambda>i. d_id (def_at ix i)) (filter (\<lambda>i. d_local (def_at ix i)) c)) = [ident]"
    by (auto simp: local_step_def split: list.splits)
  then have "ident \<in> set (map (\<lambda>i. d_id (def_at ix i)) (filter (\<lambda>i. d_local (def_at ix i)) c))"
    by (metis list.set_intros(1) set_sort)
  then show "ident \<in> D" using assms by auto
qed

lemma defs_where_ids: "\<forall>i \<in> set (defs_where ix P). d_id (def_at ix i) \<in> d_id ` set (g_defs (gi_graph ix))"
  by (auto simp: defs_where_def)

lemma resolved_known:
  assumes ix: "ix = load_graph_index_with lowercase manifest g opts"
    and "resolve_symbol lowercase ix query = Resolved ident \<or> resolve_local_symbol lowercase ix query = Resolved ident"
  shows "gi_def ix ident \<noteq> None"
proof -
  note loaded = loaded_names [of lowercase manifest g opts, folded ix]
  have simple: "\<forall>i \<in> set c. d_id (def_at ix i) \<in> d_id ` set (g_defs g)" if "ix_by_simple_name (gi_maps ix) n = Some c" for n c
    using loaded(2) [of n] that defs_where_ids [of ix] loaded(1) by (simp add: or_default_def)
  have lower: "\<forall>i \<in> set c. d_id (def_at ix i) \<in> d_id ` set (g_defs g)" if "ix_by_lower_name (gi_maps ix) n = Some c" for n c
    using loaded(3) [of n] that defs_where_ids [of ix] loaded(1) by (simp add: or_default_def)
  note tails = candidate_ids [OF defs_where_ids [of ix], unfolded loaded(1)]
  have "ident \<in> d_id ` set (g_defs g)"
    using assms(2)
  proof
    assume "resolve_symbol lowercase ix query = Resolved ident"
    then show ?thesis
      using loaded(4) [of query] tails(1)
      by (auto simp: resolve_symbol_def Let_def simp del: image_iff split: if_splits option.splits
          dest: candidate_ids(1) [OF simple] candidate_ids(1) [OF lower])
  next
    assume "resolve_local_symbol lowercase ix query = Resolved ident"
    then show ?thesis
      using tails(2)
      by (auto simp: resolve_local_symbol_def Let_def simp del: image_iff split: if_splits option.splits
          dest: candidate_ids(2) [OF simple] candidate_ids(2) [OF lower])
  qed
  then show ?thesis using loaded(4) [of ident] by (simp add: gi_def_def)
qed

lemma resolved_model_known:
  assumes "index_kinds (g_edges (gi_graph ix)) (gi_maps ix)" "gi_def ix ident \<noteq> None"
  shows "resolved_model ix read query out caps exclude ident \<noteq> None"
proof -
  let ?r = "symbol_refs ix ident"
  have ok: "lists_ok (g_edges (gi_graph ix)) ?r" by (rule symbol_lists_ok [OF assms(1)])
  then have amb: "build_table (sr_ambiguous_inbound ?r) (g_edges (gi_graph ix)) cap ambiguous_row_of \<noteq> None"
    "build_table (sr_ambiguous_outbound ?r) (g_edges (gi_graph ix)) cap ambiguous_row_of \<noteq> None" for cap
    unfolding lists_ok_def by - (rule ambiguous_table, blast)+
  show ?thesis
    using assms(2) amb [of "rc_cap caps"] bus_rows [OF assms(1), of ident "Some (rc_cap caps)"]
      outbound_known [OF ok, of _ read "cap_unless_all (rc_all_out caps) (rc_outbound caps)"]
    by (auto simp: resolved_model_def Let_def simp del: not_None_eq split: option.split)
qed

text \<open>
  C11. A \<open>refs\<close> query never panics. On an index loaded from any graph, with any manifest and options, every query
  has an answer: no reader meets an edge of a kind it does not expect, and every id it looks up is a definition.
\<close>

theorem refs_never_panics:
  "build_refs_model lowercase (load_graph_index_with lowercase manifest g opts) read query out caps \<noteq> None"
proof -
  define ix where "ix = load_graph_index_with lowercase manifest g opts"
  have kinds_ok: "index_kinds (g_edges (gi_graph ix)) (gi_maps ix)"
    using loaded_kinds [of g lowercase manifest opts] loaded_names(1) [of lowercase manifest g opts] by (simp add: ix_def)
  have "\<forall>(owner, sites) \<in> set (qualified_member_owners ix (fst (split_member_seed query)) (snd (split_member_seed query))).
      gi_def ix owner \<noteq> None \<and> sites \<noteq> []"
    using member_owner [of _ _ ix query] by blast
  from owners_known [OF this] have member: "build_member_refs_models ix read query cap \<noteq> None" for cap
    by (simp add: build_member_refs_models_def split_beta)
  have "refs_seed lowercase ix read query (rc_inbound caps) \<noteq> None"
    using member [of "rc_inbound caps"]
    by (auto simp: refs_seed_def split: resolution.splits option.splits member_refs_outcome.splits)
  moreover have "gi_def ix ident \<noteq> None" if "refs_seed lowercase ix read query (rc_inbound caps) = Some (Seed_Id ident)" for ident
    using that resolved_known [OF ix_def, of query ident]
    by (auto simp: refs_seed_def split: resolution.splits option.splits member_refs_outcome.splits)
  ultimately show ?thesis
    using resolved_model_known [OF kinds_ok]
    by (auto simp: build_refs_model_def build_refs_model_inner_def simp flip: ix_def simp del: not_None_eq
        split: option.split seed_answer.split)
qed

end
