(* ===== verification/QueryImpact.thy ===== *)
theory QueryImpact
  imports Impact Seeds QueryTables Complex_Main
begin

text \<open>
  Ranking and the model around the impact walk (\<open>src/query/rank.rs\<close>, \<open>src/query/impact.rs\<close>) and the reach of
  imported edges (\<open>src/query/imported.rs\<close>, \<open>src/graph/imports.rs\<close>). The arithmetic of \<open>f64\<close> is an argument, a
  record of its operations: the model fixes the order in which they are applied, the rounding is theirs.
\<close>

section \<open>PageRank\<close>

record 'f floats =
  fp_zero :: 'f
  fp_one :: 'f
  fp_add :: "'f \<Rightarrow> 'f \<Rightarrow> 'f"
  fp_sub :: "'f \<Rightarrow> 'f \<Rightarrow> 'f"
  fp_mul :: "'f \<Rightarrow> 'f \<Rightarrow> 'f"
  fp_div :: "'f \<Rightarrow> 'f \<Rightarrow> 'f"
  fp_of_nat :: "nat \<Rightarrow> 'f"
  fp_less :: "'f \<Rightarrow> 'f \<Rightarrow> bool"
  fp_equal :: "'f \<Rightarrow> 'f \<Rightarrow> bool"
  fp_damping :: 'f

definition DEFAULT_ITERATIONS :: nat where "DEFAULT_ITERATIONS = 20"

definition node_index :: "string list \<Rightarrow> string \<Rightarrow> nat option" where
  "node_index nodes = map_of (rev (zip nodes [0..<length nodes]))"

definition note_seed :: "'f floats \<Rightarrow> string list \<Rightarrow> string \<Rightarrow> 'f list \<times> 'f \<Rightarrow> 'f list \<times> 'f" where
  "note_seed fl nodes s st =
     (case st of (teleport, wsum) \<Rightarrow>
       (case node_index nodes s of
          Some i \<Rightarrow> (teleport[i := fp_one fl], fp_add fl wsum (fp_one fl))
        | None \<Rightarrow> (teleport, wsum)))"

definition teleport_of :: "'f floats \<Rightarrow> string list \<Rightarrow> string list \<Rightarrow> 'f list" where
  "teleport_of fl nodes seeds =
     (case fold (note_seed fl nodes) seeds (replicate (length nodes) (fp_zero fl), fp_zero fl) of
        (teleport, wsum) \<Rightarrow>
          if fp_equal fl wsum (fp_zero fl)
          then map (\<lambda>_. fp_div fl (fp_one fl) (fp_of_nat fl (length nodes))) teleport
          else map (\<lambda>t. fp_div fl t wsum) teleport)"

text \<open>
  The targets of a node that are nodes themselves. The source reads them off an unordered set; every target gets one
  addition, so their order does not show, and they stand here in index order.
\<close>

definition out_list :: "string list \<Rightarrow> (string \<Rightarrow> string set option) \<Rightarrow> string \<Rightarrow> nat list" where
  "out_list nodes fwd_adj ident =
     (case fwd_adj ident of
        None \<Rightarrow> []
      | Some s \<Rightarrow> filter (\<lambda>j. nodes ! j \<in> s \<and> node_index nodes (nodes ! j) = Some j) [0..<length nodes])"

definition spread ::
  "'f floats \<Rightarrow> 'f \<Rightarrow> 'f list \<Rightarrow> 'f list \<Rightarrow> nat \<times> nat list \<Rightarrow> 'f list \<Rightarrow> 'f list" where
  "spread fl damping teleport rank p nxt =
     (case p of (i, outs) \<Rightarrow>
       let r = rank ! i
       in if fp_equal fl r (fp_zero fl) then nxt
          else if outs = [] then map2 (\<lambda>x t. fp_add fl x (fp_mul fl (fp_mul fl damping r) t)) nxt teleport
          else let share = fp_div fl (fp_mul fl damping r) (fp_of_nat fl (length outs))
               in fold (\<lambda>j xs. xs[j := fp_add fl (xs ! j) share]) outs nxt)"

definition rank_round :: "'f floats \<Rightarrow> 'f \<Rightarrow> 'f list \<Rightarrow> nat list list \<Rightarrow> 'f list \<Rightarrow> 'f list" where
  "rank_round fl damping teleport out_lists rank =
     map2 (\<lambda>x t. fp_add fl x (fp_mul fl (fp_sub fl (fp_one fl) damping) t))
       (fold (spread fl damping teleport rank) (enumerate 0 out_lists) (replicate (length rank) (fp_zero fl))) teleport"

definition rank_vector ::
  "'f floats \<Rightarrow> string list \<Rightarrow> (string \<Rightarrow> string set option) \<Rightarrow> string list \<Rightarrow> 'f \<Rightarrow> nat \<Rightarrow> 'f list" where
  "rank_vector fl nodes fwd_adj seeds damping iterations =
     (let teleport = teleport_of fl nodes seeds
      in (rank_round fl damping teleport (map (out_list nodes fwd_adj) nodes) ^^ iterations) teleport)"

definition personalized_page_rank ::
  "'f floats \<Rightarrow> string list \<Rightarrow> (string \<Rightarrow> string set option) \<Rightarrow> string list \<Rightarrow> 'f \<Rightarrow> nat \<Rightarrow> string \<Rightarrow> 'f option" where
  "personalized_page_rank fl nodes fwd_adj seeds damping iterations =
     (if nodes = [] then (\<lambda>_. None)
      else map_of (rev (zip nodes (rank_vector fl nodes fwd_adj seeds damping iterations))))"

section \<open>The impact model\<close>

record 'f impact_row =
  ip_file :: string
  ip_hop :: nat
  ip_via_count :: nat
  ip_ambiguous_count :: nat
  ip_top_symbols :: "string list"
  ip_top_symbol_id :: "string option"
  ip_top_symbols_more :: nat
  ip_score :: 'f
  ip_heuristic_count :: nat
  ip_heuristic :: bool
  ip_tier :: "heuristic_tier option"
  ip_iface_via :: "string list"
  ip_from_lines :: "(string \<times> nat) list"
  ip_infra :: bool
  ip_why :: why
  ip_bus_only :: bool
  ip_bus_origin :: "bus_origin option"

record 'f impact_model =
  imd_kind :: seed_kind
  imd_seed_files :: "string list"
  imd_hops :: nat
  imd_total_affected :: nat
  imd_rows :: "'f impact_row list"
  imd_dropped :: nat
  imd_manifest_gap :: nat
  imd_heuristic_affected :: nat
  imd_tests_affected :: nat
  imd_braked :: "(string \<times> nat) list"
  imd_braked_files :: "(string \<times> nat) list"

datatype 'f impact_result =
    Impact_Resolved "'f impact_model"
  | Impact_Ambiguous seed_kind "string list"
  | Impact_Not_Found seed_kind
  | Impact_Member_Ambiguous "member_candidate list"

definition display_name :: "graph_index \<Rightarrow> string \<Rightarrow> string" where
  "display_name ix ident = (case gi_def ix ident of Some d \<Rightarrow> d_name d | None \<Rightarrow> ident)"

definition impact_row_of ::
  "'f floats \<Rightarrow> graph_index \<Rightarrow> (string \<Rightarrow> 'f option) \<Rightarrow> string \<times> visited_entry \<Rightarrow> 'f impact_row" where
  "impact_row_of fl ix rank p =
     (case p of (file, h) \<Rightarrow>
       let names = map (display_name ix) (ve_symbols h);
           heuristic = (ve_via_count h = 0 \<and> ve_ambiguous_count h = 0)
       in \<lparr>ip_file = file, ip_hop = ve_hop h, ip_via_count = ve_via_count h, ip_ambiguous_count = ve_ambiguous_count h,
           ip_top_symbols = take 3 names, ip_top_symbol_id = get (ve_symbols h) 0,
           ip_top_symbols_more = length names - 3, ip_score = or_default (fp_zero fl) (rank file),
           ip_heuristic_count = (if heuristic then ve_heuristic_count h else 0), ip_heuristic = heuristic,
           ip_tier = row_tier heuristic (0 < ve_ext_count h), ip_iface_via = ve_iface_via h,
           ip_from_lines = from_lines_of (ve_lines h), ip_infra = ve_infra h, ip_why = ve_why h,
           ip_bus_only = ve_bus_only h, ip_bus_origin = ve_bus_origin h\<rparr>)"

text \<open>
  A stable sort by a comparison: \<open>not_after x y\<close> says that \<open>x\<close> does not compare greater than \<open>y\<close>.
\<close>

fun insert_by :: "('r \<Rightarrow> 'r \<Rightarrow> bool) \<Rightarrow> 'r \<Rightarrow> 'r list \<Rightarrow> 'r list" where
  "insert_by not_after x [] = [x]"
| "insert_by not_after x (y # ys) = (if not_after x y then x # y # ys else y # insert_by not_after x ys)"

definition stable_sort :: "('r \<Rightarrow> 'r \<Rightarrow> bool) \<Rightarrow> 'r list \<Rightarrow> 'r list" where
  "stable_sort not_after rows = foldr (insert_by not_after) rows []"

text \<open>Precise rows first, then the higher score (scores that do not compare count as equal), the hop and the file.\<close>

definition row_not_after :: "'f floats \<Rightarrow> 'f impact_row \<Rightarrow> 'f impact_row \<Rightarrow> bool" where
  "row_not_after fl a b \<longleftrightarrow>
     (if ip_heuristic a \<noteq> ip_heuristic b then \<not> ip_heuristic a
      else if fp_less fl (ip_score b) (ip_score a) then True
      else if fp_less fl (ip_score a) (ip_score b) then False
      else (ip_hop a, ip_file a) \<le> (ip_hop b, ip_file b))"

definition impact_nodes :: "impact_walk_result \<Rightarrow> string list" where
  "impact_nodes w =
     ss_into_vec (fold ss_insert (sm_keys (iw_visited w)) (fold ss_insert (ss_into_vec (iw_seed_files w)) ss_new))"

definition impact_ranks :: "'f floats \<Rightarrow> impact_walk_result \<Rightarrow> string \<Rightarrow> 'f option" where
  "impact_ranks fl w =
     personalized_page_rank fl (impact_nodes w) (iw_fwd_adj w) (ss_into_vec (iw_seed_files w)) (fp_damping fl)
       DEFAULT_ITERATIONS"

definition impact_rows :: "'f floats \<Rightarrow> graph_index \<Rightarrow> impact_walk_result \<Rightarrow> 'f impact_row list" where
  "impact_rows fl ix w =
     stable_sort (row_not_after fl) (map (impact_row_of fl ix (impact_ranks fl w)) (sm_entries (iw_visited w)))"

record impact_options =
  mo_hops :: nat
  mo_cap :: nat
  mo_iface :: bool
  mo_iface_max_fanin :: nat
  mo_hub_max_indegree :: nat

definition impact_model_for_seed ::
  "'f floats \<Rightarrow> (string \<Rightarrow> string) \<Rightarrow> graph_index \<Rightarrow> seed_kind \<Rightarrow> string list \<Rightarrow> impact_options \<Rightarrow> 'f impact_result" where
  "impact_model_for_seed fl lowercase ix kind seed_ids opts =
     (let w = impact_walk lowercase ix seed_ids (mo_hops opts) (mo_iface opts) (mo_iface_max_fanin opts)
                (mo_hub_max_indegree opts);
          rows = impact_rows fl ix w;
          heuristic_affected = length (filter ip_heuristic rows)
      in case cap_rows rows (mo_cap opts) of (shown, dropped) \<Rightarrow>
           Impact_Resolved
             \<lparr>imd_kind = kind, imd_seed_files = ss_into_vec (iw_seed_files w), imd_hops = mo_hops opts,
              imd_total_affected = length rows - heuristic_affected, imd_rows = shown, imd_dropped = dropped,
              imd_manifest_gap = card (ix_flagged_files (gi_maps ix)), imd_heuristic_affected = heuristic_affected,
              imd_tests_affected = length (filter (\<lambda>r. \<not> ip_heuristic r \<and> is_test_file ix (ip_file r)) rows),
              imd_braked = iw_braked w, imd_braked_files = iw_braked_files w\<rparr>)"

definition build_impact_model ::
  "'f floats \<Rightarrow> (string \<Rightarrow> string) \<Rightarrow> graph_index \<Rightarrow> string \<Rightarrow> impact_options \<Rightarrow> 'f impact_result" where
  "build_impact_model fl lowercase ix arg opts =
     (case resolve_impact_seed lowercase ix arg of
        Seed_Resolved kind ids \<Rightarrow> impact_model_for_seed fl lowercase ix kind ids opts
      | Seed_Ambiguous kind ids \<Rightarrow> Impact_Ambiguous kind ids
      | Seed_Not_Found kind \<Rightarrow> Impact_Not_Found kind
      | Seed_Member_Ambiguous cs \<Rightarrow> Impact_Member_Ambiguous cs)"

section \<open>The imported-edges artifact\<close>

datatype json_value =
    V_Null | V_Bool bool | V_Nat nat | V_Number | V_String string | V_Array "json_value list"
  | V_Object "(string \<times> json_value) list"

record edge_end =
  ed_repo :: "string option"
  ed_reference :: "string option"
  ed_file :: "string option"
  ed_line :: "nat option"

record import_record =
  rec_kind :: string
  rec_from :: edge_end
  rec_to :: edge_end
  rec_key :: "string option"

record import_provenance =
  pv_id :: string
  pv_producer :: string
  pv_format_version :: nat

record imported_edges =
  xe_schema_version :: nat
  xe_mapped_repo :: string
  xe_provenance :: import_provenance
  xe_edges :: "import_record list"

definition IMPORTED_EDGES_FORMAT :: string where "IMPORTED_EDGES_FORMAT = ''flowtrace-edges''"
definition IMPORTED_EDGES_SCHEMA_VERSION :: nat where "IMPORTED_EDGES_SCHEMA_VERSION = 1"
definition IMPORTED_EDGES_ARTIFACT_SCHEMA_VERSION :: nat where "IMPORTED_EDGES_ARTIFACT_SCHEMA_VERSION = 1"
definition IMPORTED_EDGE_KINDS :: "string list" where
  "IMPORTED_EDGE_KINDS = [''calls'', ''consumes'', ''enqueues'', ''publishes'', ''tests'']"

text \<open>
  What the code asks of \<open>serde_json\<close>: the text as a value, and the two derived decoders. The messages keep what they
  name, without the punctuation around it.
\<close>

record decoders =
  de_value :: "string \<Rightarrow> json_value option"
  de_end :: "json_value \<Rightarrow> edge_end option"
  de_provenance :: "json_value \<Rightarrow> import_provenance option"

datatype import_error =
    Malformed_Json
  | Unsupported_Format "string option"
  | Unsupported_Schema "json_value option"
  | Missing_Provenance
  | Malformed_Provenance
  | Missing_Edges
  | Not_An_Object nat
  | Missing_Field nat string
  | Unknown_Kind nat string
  | Malformed_End nat string

definition field :: "(string \<times> json_value) list \<Rightarrow> string \<Rightarrow> json_value option" where
  "field obj k = map_of obj k"

fun value_str :: "json_value \<Rightarrow> string option" where
  "value_str (V_String s) = Some s"
| "value_str _ = None"

fun value_u64 :: "json_value \<Rightarrow> nat option" where
  "value_u64 (V_Nat n) = Some n"
| "value_u64 _ = None"

fun value_array :: "json_value \<Rightarrow> json_value list option" where
  "value_array (V_Array vs) = Some vs"
| "value_array _ = None"

definition field_str :: "(string \<times> json_value) list \<Rightarrow> string \<Rightarrow> string option" where
  "field_str obj k = Option.bind (field obj k) value_str"

fun parse_record :: "decoders \<Rightarrow> nat \<times> json_value \<Rightarrow> import_error + import_record" where
  "parse_record de (i, V_Object obj) =
     (case field_str obj ''kind'' of
        None \<Rightarrow> Inl (Missing_Field i ''kind'')
      | Some kind \<Rightarrow>
          if kind \<notin> set IMPORTED_EDGE_KINDS then Inl (Unknown_Kind i kind)
          else (case field obj ''from'' of
                  None \<Rightarrow> Inl (Missing_Field i ''from'')
                | Some fv \<Rightarrow>
                    (case field obj ''to'' of
                       None \<Rightarrow> Inl (Missing_Field i ''to'')
                     | Some tv \<Rightarrow>
                         (case de_end de fv of
                            None \<Rightarrow> Inl (Malformed_End i ''from'')
                          | Some f \<Rightarrow>
                              (case de_end de tv of
                                 None \<Rightarrow> Inl (Malformed_End i ''to'')
                               | Some t \<Rightarrow>
                                   Inr \<lparr>rec_kind = kind, rec_from = f, rec_to = t, rec_key = field_str obj ''key''\<rparr>)))))"
| "parse_record de (i, _) = Inl (Not_An_Object i)"

fun parse_records :: "decoders \<Rightarrow> (nat \<times> json_value) list \<Rightarrow> import_error + import_record list" where
  "parse_records de [] = Inr []"
| "parse_records de (r # rs) =
     (case parse_record de r of
        Inl e \<Rightarrow> Inl e
      | Inr x \<Rightarrow> (case parse_records de rs of Inl e \<Rightarrow> Inl e | Inr xs \<Rightarrow> Inr (x # xs)))"

definition parse_imported_edges :: "decoders \<Rightarrow> string \<Rightarrow> string \<Rightarrow> import_error + imported_edges" where
  "parse_imported_edges de bytes mapped_repo =
     (case de_value de bytes of
        Some (V_Object obj) \<Rightarrow>
          (if field_str obj ''format'' \<noteq> Some IMPORTED_EDGES_FORMAT then Inl (Unsupported_Format (field_str obj ''format''))
           else if Option.bind (field obj ''schemaVersion'') value_u64 \<noteq> Some IMPORTED_EDGES_SCHEMA_VERSION
             then Inl (Unsupported_Schema (field obj ''schemaVersion''))
           else (case field obj ''provenance'' of
                   None \<Rightarrow> Inl Missing_Provenance
                 | Some pvv \<Rightarrow>
                     (case de_provenance de pvv of
                        None \<Rightarrow> Inl Malformed_Provenance
                      | Some prov \<Rightarrow>
                          (case Option.bind (field obj ''edges'') value_array of
                             None \<Rightarrow> Inl Missing_Edges
                           | Some vs \<Rightarrow>
                               (case parse_records de (enumerate 0 vs) of
                                  Inl e \<Rightarrow> Inl e
                                | Inr es \<Rightarrow>
                                    Inr \<lparr>xe_schema_version = IMPORTED_EDGES_ARTIFACT_SCHEMA_VERSION,
                                      xe_mapped_repo = mapped_repo, xe_provenance = prov, xe_edges = es\<rparr>)))))
      | _ \<Rightarrow> Inl Malformed_Json)"

section \<open>Imported reach\<close>

record imported_row =
  isr_file :: string
  isr_repo :: string
  isr_hop :: nat
  isr_kind :: string
  isr_why :: why

record imported_section =
  iss_rows :: "imported_row list"
  iss_dropped :: nat
  iss_affected :: nat

text \<open>\<open>entry(..).or_insert(..)\<close> keeps the first value of a key.\<close>

definition local_hops :: "'f impact_model \<Rightarrow> string \<Rightarrow> nat option" where
  "local_hops m =
     map_of (map (\<lambda>f. (f, 0)) (imd_seed_files m) @ map (\<lambda>r. (ip_file r, ip_hop r)) (imd_rows m))"

definition is_mapped :: "edge_end \<Rightarrow> string \<Rightarrow> bool" where
  "is_mapped e mapped_repo \<longleftrightarrow> ed_repo e = Some mapped_repo"

type_synonym reach_state = "(string \<times> string) set \<times> imported_row list"

definition add_imported :: "string \<Rightarrow> edge_end \<Rightarrow> nat \<Rightarrow> reach_state \<Rightarrow> reach_state" where
  "add_imported kind foreign_end hop st =
     (case (ed_repo foreign_end, ed_file foreign_end, st) of
        (Some repo, Some file, seen, rows) \<Rightarrow>
          if (repo, file) \<in> seen then st
          else (insert (repo, file) seen,
                rows @ [\<lparr>isr_file = file, isr_repo = repo, isr_hop = hop + 1, isr_kind = kind, isr_why = Why_Imported_Edge\<rparr>])
      | _ \<Rightarrow> st)"

definition direct_row :: "string \<Rightarrow> (string \<Rightarrow> nat option) \<Rightarrow> import_record \<Rightarrow> reach_state \<Rightarrow> reach_state" where
  "direct_row mapped_repo hops r st =
     (if is_mapped (rec_from r) mapped_repo \<or> \<not> is_mapped (rec_to r) mapped_repo then st
      else case Option.bind (ed_file (rec_to r)) hops of
             None \<Rightarrow> st
           | Some hop \<Rightarrow> add_imported (rec_kind r) (rec_from r) hop st)"

definition direct_rows :: "imported_edges \<Rightarrow> (string \<Rightarrow> nat option) \<Rightarrow> reach_state \<Rightarrow> reach_state" where
  "direct_rows edges hops = fold (direct_row (xe_mapped_repo edges) hops) (xe_edges edges)"

definition consumes_message :: "string \<Rightarrow> string \<Rightarrow> edge_end \<Rightarrow> string \<Rightarrow> import_record \<Rightarrow> bool" where
  "consumes_message mapped_repo msg_key pub_end pub_file con \<longleftrightarrow>
     rec_kind con \<in> {''consumes'', ''enqueues''} \<and> rec_key con = Some msg_key \<and> \<not> is_mapped (rec_to con) mapped_repo
     \<and> \<not> (ed_file (rec_to con) = Some pub_file \<and> ed_line (rec_to con) = ed_line pub_end)"

definition composed_row :: "imported_edges \<Rightarrow> (string \<Rightarrow> nat option) \<Rightarrow> import_record \<Rightarrow> reach_state \<Rightarrow> reach_state" where
  "composed_row edges hops pub st =
     (if rec_kind pub \<noteq> ''publishes'' \<or> \<not> is_mapped (rec_from pub) (xe_mapped_repo edges) then st
      else case ed_file (rec_from pub) of
             None \<Rightarrow> st
           | Some pub_file \<Rightarrow>
               (case (hops pub_file, rec_key pub) of
                  (Some hop, Some msg_key) \<Rightarrow>
                    fold (\<lambda>con. add_imported (rec_kind con) (rec_to con) hop)
                      (filter (consumes_message (xe_mapped_repo edges) msg_key (rec_from pub) pub_file) (xe_edges edges)) st
                | _ \<Rightarrow> st))"

definition composed_rows :: "imported_edges \<Rightarrow> (string \<Rightarrow> nat option) \<Rightarrow> reach_state \<Rightarrow> reach_state" where
  "composed_rows edges hops = fold (composed_row edges hops) (xe_edges edges)"

definition build_imported_section :: "'f impact_model \<Rightarrow> imported_edges \<Rightarrow> nat \<Rightarrow> imported_section" where
  "build_imported_section m edges cap =
     (let hops = local_hops m;
          rows = sort_key (\<lambda>r. (isr_hop r, isr_repo r, isr_file r))
            (snd (composed_rows edges hops (direct_rows edges hops ({}, []))))
      in \<lparr>iss_rows = take cap rows, iss_dropped = length rows - cap, iss_affected = length rows\<rparr>)"

end
