(* ===== verification/QueryVerbs.thy ===== *)
theory QueryVerbs
  imports QueryTotal QueryImpact
begin

text \<open>
  The other verbs: \<open>tests\<close> (\<open>src/query/coverage.rs\<close>, \<open>src/query/name_hint.rs\<close>), \<open>read\<close> (\<open>src/query/read.rs\<close>),
  \<open>find\<close> (\<open>src/query/find.rs\<close>), the answer of a picked candidate (\<open>src/query/pick.rs\<close>) and the outcome words
  (\<open>src/query/outcome.rs\<close>). \<open>lower_chars\<close> lowers each character of a text by itself; splitting a query at white
  space is \<open>words\<close>. A panic is \<open>None\<close>.
\<close>

section \<open>Test coverage\<close>

record test_row =
  tw_file :: string
  tw_test_defs :: "string list"
  tw_lines :: "nat list"
  tw_ref_count :: nat
  tw_heuristic :: bool
  tw_tier :: "heuristic_tier option"
  tw_via :: test_via

record name_hint_row =
  nh_file :: string
  nh_references :: "string list"
  nh_reference_total :: nat

record tests_model =
  tsm_query :: string
  tsm_symbol :: string
  tsm_def_files :: "string list"
  tsm_rows :: "test_row list"
  tsm_test_file_count :: nat
  tsm_ref_count :: nat
  tsm_heuristic_file_count :: nat
  tsm_heuristic_ref_count :: nat
  tsm_bus :: "bus_hop_row table"
  tsm_name_hint :: "name_hint_row list"

datatype tests_result =
    Tests_Resolved tests_model
  | Tests_Ambiguous "string list"
  | Tests_Member_Ambiguous "member_candidate list"
  | Tests_Not_Found

text \<open>The slot of a file: a file has at most one row, so the map from files to slots is the place of its row.\<close>

definition row_slot :: "test_row list \<Rightarrow> string \<Rightarrow> nat option" where
  "row_slot rows f = position (\<lambda>r. tw_file r = f) rows"

definition new_test_row :: "graph_index \<Rightarrow> bool \<Rightarrow> string \<Rightarrow> test_via \<Rightarrow> test_row" where
  "new_test_row ix heuristic f via =
     \<lparr>tw_file = f,
      tw_test_defs = map (\<lambda>d. d_id (def_at ix d)) (or_default [] (ix_test_defs_by_file (gi_maps ix) f)),
      tw_lines = [], tw_ref_count = 0, tw_heuristic = heuristic, tw_tier = row_tier heuristic False, tw_via = via\<rparr>"

definition note_test_ref :: "bool \<Rightarrow> edge \<Rightarrow> test_row \<Rightarrow> test_row" where
  "note_test_ref heuristic e r =
     r\<lparr>tw_tier := (if edge_tier e = Some Tier_Ext then row_tier heuristic True else tw_tier r),
       tw_lines := tw_lines r @ [snd (edge_loc e)], tw_ref_count := tw_ref_count r + 1\<rparr>"

definition collect_test_ref :: "graph_index \<Rightarrow> bool \<Rightarrow> nat \<Rightarrow> test_row list \<Rightarrow> test_row list" where
  "collect_test_ref ix heuristic i rows =
     (let e = edge_at ix i; f = fst (edge_loc e)
      in case find_test_via ix f of
           None \<Rightarrow> rows
         | Some via \<Rightarrow>
             (let rows' = (if row_slot rows f = None then rows @ [new_test_row ix heuristic f via] else rows)
              in case row_slot rows' f of
                   Some slot \<Rightarrow> rows'[slot := note_test_ref heuristic e (rows' ! slot)]
                 | None \<Rightarrow> rows'))"

definition collect_test_rows :: "graph_index \<Rightarrow> nat list list \<Rightarrow> bool \<Rightarrow> test_row list" where
  "collect_test_rows ix kinds heuristic =
     map (\<lambda>r. r\<lparr>tw_lines := sort (tw_lines r)\<rparr>) (fold (collect_test_ref ix heuristic) (concat kinds) [])"

definition test_bus_rows :: "graph_index \<Rightarrow> string \<Rightarrow> bus_hop_row table option" where
  "test_bus_rows ix ident =
     map_option (\<lambda>t.
       let filtered = filter (\<lambda>r. bh_direction r = Bus_In \<and> is_test_file ix (bh_file r)) (tab_rows t)
       in case cap_rows filtered DEFAULT_CAP of (rows, dropped) \<Rightarrow>
            \<lparr>tab_total = length filtered, tab_dropped = dropped, tab_rows = rows\<rparr>)
     (symbol_bus_rows ix ident None)"

section \<open>Name hints\<close>

definition NAME_HINT_REFERENCE_CAP :: nat where "NAME_HINT_REFERENCE_CAP = 5"

definition AFFIXES :: "string list" where
  "AFFIXES = [''tests'', ''test'', ''spec'']"

definition normalize_name :: "(string \<Rightarrow> string) \<Rightarrow> string \<Rightarrow> string" where
  "normalize_name lower_chars s = lower_chars (filter (\<lambda>c. c \<notin> {CHR ''-'', CHR ''_'', CHR ''.''}) s)"

definition file_stem :: "string \<Rightarrow> string option" where
  "file_stem f =
     (let segment = last (str_split CHR ''/'' f)
      in case str_rfind segment CHR ''.'' of
           Some dot \<Rightarrow> (if 0 < dot then Some (take dot segment) else None)
         | None \<Rightarrow> None)"

definition stem_matches :: "(string \<Rightarrow> string) \<Rightarrow> string \<Rightarrow> string \<Rightarrow> bool" where
  "stem_matches lower_chars name f =
     (case file_stem f of
        None \<Rightarrow> False
      | Some stem \<Rightarrow>
          list_ex (\<lambda>affix. strip_suffix (normalize_name lower_chars stem) affix = Some (normalize_name lower_chars name))
            AFFIXES)"

fun edge_targets :: "edge \<Rightarrow> string list" where
  "edge_targets (Inherits _ _ t _ _) = [t]"
| "edge_targets (Uses_Type _ _ t _ _) = [t]"
| "edge_targets (Uses_Member _ _ t _ _ _ _ _ _) = [t]"
| "edge_targets (Implements _ _ t _ _) = [t]"
| "edge_targets (Overrides _ _ t _ _) = [t]"
| "edge_targets e = or_default [] (admitted_targets e)"

definition is_production_target :: "graph_index \<Rightarrow> string \<Rightarrow> bool" where
  "is_production_target ix t = (case gi_def ix t of Some d \<Rightarrow> \<not> is_test_file ix (d_file d) | None \<Rightarrow> False)"

text \<open>
  The keys of the four maps, in order. A partial function has no key list, so the keys are looked for among the
  paths the graph mentions, of which they are a part.
\<close>

definition graph_files :: "graph \<Rightarrow> string list" where
  "graph_files g = concat (map (\<lambda>d. d_file d # map ai_file (d_also_in d)) (g_defs g)) @ map e_from_file (g_edges g)"

definition known_file :: "graph_index \<Rightarrow> string \<Rightarrow> bool" where
  "known_file ix f \<longleftrightarrow>
     ix_by_file (gi_maps ix) f \<noteq> None \<or> ix_test_defs_by_file (gi_maps ix) f \<noteq> None
     \<or> ix_outbound_by_file (gi_maps ix) f \<noteq> None \<or> ix_heuristic_outbound_by_file (gi_maps ix) f \<noteq> None"

definition candidate_files :: "graph_index \<Rightarrow> string list" where
  "candidate_files ix = sort (remdups (filter (known_file ix) (graph_files (gi_graph ix))))"

definition precise_outbound :: "outbound_entry \<Rightarrow> nat list" where
  "precise_outbound outb =
     oe_inherits outb @ oe_uses_type outb @ oe_uses_member outb @ oe_implements outb @ oe_overrides outb
     @ tk_call (oe_ts outb) @ tk_jsx_use (oe_ts outb) @ tk_dispatch (oe_ts outb) @ tk_import (oe_ts outb)"

definition production_refs :: "graph_index \<Rightarrow> string \<Rightarrow> string list" where
  "production_refs ix f =
     (case ix_outbound_by_file (gi_maps ix) f of
        None \<Rightarrow> []
      | Some outb \<Rightarrow>
          filter (is_production_target ix) (concat (map (\<lambda>i. edge_targets (edge_at ix i)) (precise_outbound outb))))"

text \<open>The counts are a multiset of the targets; the order by count and then by id is total on its distinct members.\<close>

definition name_hint_row_of :: "graph_index \<Rightarrow> string \<Rightarrow> name_hint_row" where
  "name_hint_row_of ix f =
     (let targets = production_refs ix f;
          ranked = sort_key (\<lambda>t. (- int (count_list targets t), t)) (remdups targets)
      in \<lparr>nh_file = f, nh_references = take NAME_HINT_REFERENCE_CAP ranked, nh_reference_total = length ranked\<rparr>)"

definition name_hint_rows :: "(string \<Rightarrow> string) \<Rightarrow> graph_index \<Rightarrow> string \<Rightarrow> name_hint_row list" where
  "name_hint_rows lower_chars ix ident =
     (case gi_def ix ident of
        None \<Rightarrow> []
      | Some d \<Rightarrow>
          map (name_hint_row_of ix)
            (filter (\<lambda>f. f \<notin> set (def_files ix ident) \<and> stem_matches lower_chars (d_name d) f \<and> find_test_via ix f \<noteq> None)
               (candidate_files ix)))"

section \<open>The tests model\<close>

definition tests_model_for_id ::
  "(string \<Rightarrow> string) \<Rightarrow> graph_index \<Rightarrow> string \<Rightarrow> string \<Rightarrow> tests_result option" where
  "tests_model_for_id lower_chars ix ident query_echo =
     (let r = symbol_refs ix ident;
          precise = collect_test_rows ix (map fst (inbound_pairs r)) False;
          guessed = collect_test_rows ix (map snd (inbound_pairs r)) True
      in map_option (\<lambda>bus.
           Tests_Resolved
             \<lparr>tsm_query = query_echo, tsm_symbol = ident, tsm_def_files = def_files ix ident, tsm_rows = precise @ guessed,
              tsm_test_file_count = length precise, tsm_ref_count = sum_list (map tw_ref_count precise),
              tsm_heuristic_file_count = length guessed, tsm_heuristic_ref_count = sum_list (map tw_ref_count guessed),
              tsm_bus = bus,
              tsm_name_hint = (if precise @ guessed = [] \<and> tab_total bus = 0 then name_hint_rows lower_chars ix ident else [])\<rparr>)
         (test_bus_rows ix ident))"

definition build_tests_model ::
  "(string \<Rightarrow> string) \<Rightarrow> (string \<Rightarrow> string) \<Rightarrow> graph_index \<Rightarrow> string \<Rightarrow> tests_result option" where
  "build_tests_model lowercase lower_chars ix query =
     (case resolve_symbol lowercase ix query of
        Resolved ident \<Rightarrow> tests_model_for_id lower_chars ix ident query
      | Res_Ambiguous ids \<Rightarrow> Some (Tests_Ambiguous ids)
      | Res_Not_Found \<Rightarrow>
          (case resolve_member_seed ix query of
             Member_Resolved ident \<Rightarrow> tests_model_for_id lower_chars ix ident query
           | Member_Ambiguous cs \<Rightarrow> Some (Tests_Member_Ambiguous cs)
           | Member_Not_Found \<Rightarrow>
               (case resolve_local_symbol lowercase ix query of
                  Resolved ident \<Rightarrow> tests_model_for_id lower_chars ix ident query
                | Res_Ambiguous ids \<Rightarrow> Some (Tests_Ambiguous ids)
                | Res_Not_Found \<Rightarrow> Some Tests_Not_Found)))"

section \<open>Reading a declaration\<close>

record read_span =
  sp_file :: string
  sp_start_line :: nat
  sp_end_line :: nat
  sp_source :: string

record read_model =
  rdm_refs :: refs_model
  rdm_span :: "read_span option"

datatype read_result =
    Read_Resolved read_model
  | Read_Members "refs_model list"
  | Read_Ambiguous "string list"
  | Read_Member_Ambiguous "member_candidate list"
  | Read_Not_Found

definition read_span_of :: "file_text \<Rightarrow> refs_model \<Rightarrow> nat \<Rightarrow> read_span option" where
  "read_span_of read m end_line =
     (case rm_sites m of
        [] \<Rightarrow> None
      | (f, line) # _ \<Rightarrow>
          if end_line < line then None
          else (case read f of
                  None \<Rightarrow> None
                | Some body \<Rightarrow>
                    (let ls = str_split NEWLINE body
                     in if line < 1 \<or> line > length ls then None
                        else let last_line = min end_line (length ls);
                                 raw = ls ! (line - 1);
                                 start_text = (if line = 1 then (case strip_prefix raw BOM of Some r \<Rightarrow> r | None \<Rightarrow> raw) else raw)
                             in Some \<lparr>sp_file = f, sp_start_line = line, sp_end_line = last_line,
                                  sp_source = concat (start_text # map ((#) NEWLINE) (slice line last_line ls))\<rparr>)))"

definition read_result_from_refs :: "graph_index \<Rightarrow> file_text \<Rightarrow> refs_result \<Rightarrow> read_result" where
  "read_result_from_refs ix read refs =
     (case refs of
        Refs_Resolved m \<Rightarrow>
          (let end_line = (case gi_def ix (rm_id m) of Some d \<Rightarrow> d_end_line d | None \<Rightarrow> 0)
           in Read_Resolved \<lparr>rdm_refs = m, rdm_span = (if 0 < end_line then read_span_of read m end_line else None)\<rparr>)
      | Refs_Members ms \<Rightarrow> Read_Members ms
      | Refs_Ambiguous ids \<Rightarrow> Read_Ambiguous ids
      | Refs_Member_Ambiguous cs \<Rightarrow> Read_Member_Ambiguous cs
      | Refs_Not_Found \<Rightarrow> Read_Not_Found)"

definition default_caps :: refs_caps where
  "default_caps = \<lparr>rc_cap = DEFAULT_CAP, rc_inbound = INBOUND_CAP, rc_outbound = OUTBOUND_CAP, rc_all_out = False\<rparr>"

definition build_read_model :: "(string \<Rightarrow> string) \<Rightarrow> graph_index \<Rightarrow> file_text \<Rightarrow> string \<Rightarrow> read_result option" where
  "build_read_model lowercase ix read query =
     map_option (read_result_from_refs ix read) (build_refs_model_inner lowercase ix read query False default_caps True)"

section \<open>Finding names\<close>

definition source_line :: "file_text \<Rightarrow> string \<Rightarrow> nat \<Rightarrow> string" where
  "source_line read f line = (case read f of None \<Rightarrow> [] | Some body \<Rightarrow> line_text body line)"

definition find_names ::
  "(string \<Rightarrow> string) \<Rightarrow> (string \<Rightarrow> string list) \<Rightarrow> graph \<Rightarrow> string \<Rightarrow> graph_name list" where
  "find_names lowercase words g query =
     (let tokens = words (lowercase query)
      in if tokens = [] then []
         else filter (\<lambda>n. list_all (\<lambda>t. str_contains (lowercase (gn_name n)) t) tokens) (g_names g))"

definition first_decl_line_by_file :: "graph \<Rightarrow> string \<Rightarrow> nat option" where
  "first_decl_line_by_file g =
     fold (\<lambda>n m. m(gn_file n \<mapsto> (case m (gn_file n) of Some l \<Rightarrow> min l (gn_line n) | None \<Rightarrow> gn_line n))) (g_names g) (\<lambda>_. None)"

text \<open>The two files of an edge that counts.\<close>

fun counted_ends :: "edge \<Rightarrow> (string \<times> string) option" where
  "counted_ends (Inherits f _ _ t h) = (if h then None else Some (f, t))"
| "counted_ends (Uses_Type f _ _ t h) = (if h then None else Some (f, t))"
| "counted_ends (Uses_Member f _ _ t h _ _ _ _) = (if h then None else Some (f, t))"
| "counted_ends (Call f _ _ t) = Some (f, t)"
| "counted_ends (Jsx_Use f _ _ t) = Some (f, t)"
| "counted_ends (Dispatch f _ _ t) = Some (f, t)"
| "counted_ends _ = None"

definition file_inbound_counts :: "graph \<Rightarrow> string \<Rightarrow> nat option" where
  "file_inbound_counts g =
     fold (\<lambda>e m. case counted_ends e of
         Some (f, t) \<Rightarrow> if f = t then m else entry_update t 0 Suc m
       | None \<Rightarrow> m) (g_edges g) (\<lambda>_. None)"

definition name_tier :: "string \<Rightarrow> nat" where
  "name_tier kind = (let rank = kind_rank kind in if rank \<le> 1 then 1 else rank)"

section \<open>Picked candidates\<close>

datatype picked_seed = Picked_Member member_candidate | Picked_Type string

text \<open>\<open>show_nat\<close> prints a line number.\<close>

definition type_candidate_row :: "(nat \<Rightarrow> string) \<Rightarrow> string \<Rightarrow> graph_def \<Rightarrow> string" where
  "type_candidate_row show_nat ident d = ident @ ''  '' @ d_file d @ '':'' @ show_nat (d_line d) @ ''  '' @ d_kind d"

definition member_candidate_row :: "(nat \<Rightarrow> string) \<Rightarrow> member_candidate \<Rightarrow> string" where
  "member_candidate_row show_nat c = mc_owner c @ ''.'' @ mc_name c @ ''  '' @ mc_file c @ '':'' @ show_nat (mc_line c)"

definition type_candidates_in_refusal_order :: "(nat \<Rightarrow> string) \<Rightarrow> graph_index \<Rightarrow> string list \<Rightarrow> string list option" where
  "type_candidates_in_refusal_order show_nat ix ids =
     map_option (\<lambda>rows. map snd (sort_key fst rows))
       (all_some (map (\<lambda>ident. map_option (\<lambda>d. (type_candidate_row show_nat ident d, ident)) (gi_def ix ident)) ids))"

definition owner_list :: "'a option \<Rightarrow> 'a list" where
  "owner_list o' = (case o' of Some x \<Rightarrow> [x] | None \<Rightarrow> [])"

definition member_refs_for_candidate ::
  "graph_index \<Rightarrow> file_text \<Rightarrow> member_candidate \<Rightarrow> nat \<Rightarrow> member_refs_outcome option option" where
  "member_refs_for_candidate ix read c inbound_cap =
     member_refs_from_owners ix read (qualified_seed c) (mc_name c)
       (owner_list (exact_member_owner ix (mc_name c) (mc_owner c))) inbound_cap"

definition pick_refs ::
  "(string \<Rightarrow> string) \<Rightarrow> graph_index \<Rightarrow> file_text \<Rightarrow> picked_seed \<Rightarrow> bool \<Rightarrow> refs_caps \<Rightarrow> refs_result option" where
  "pick_refs lowercase ix read picked out caps =
     (case picked of
        Picked_Type ident \<Rightarrow> build_refs_model lowercase ix read ident out caps
      | Picked_Member c \<Rightarrow>
          map_option (\<lambda>o'. case o' of
              Some (Models ms) \<Rightarrow> Refs_Members ms
            | Some (Owners_Ambiguous cs) \<Rightarrow> Refs_Member_Ambiguous cs
            | None \<Rightarrow> Refs_Not_Found) (member_refs_for_candidate ix read c (rc_inbound caps)))"

definition pick_read :: "(string \<Rightarrow> string) \<Rightarrow> graph_index \<Rightarrow> file_text \<Rightarrow> picked_seed \<Rightarrow> read_result option" where
  "pick_read lowercase ix read picked =
     (case picked of
        Picked_Type ident \<Rightarrow> build_read_model lowercase ix read ident
      | Picked_Member c \<Rightarrow> map_option (read_result_from_refs ix read) (pick_refs lowercase ix read picked False default_caps))"

definition pick_tests :: "(string \<Rightarrow> string) \<Rightarrow> graph_index \<Rightarrow> picked_seed \<Rightarrow> tests_result option" where
  "pick_tests lower_chars ix picked =
     (case picked of
        Picked_Type ident \<Rightarrow> tests_model_for_id lower_chars ix ident ident
      | Picked_Member c \<Rightarrow>
          (case exact_member_owner ix (mc_name c) (mc_owner c) of
             Some (owner, _) \<Rightarrow> tests_model_for_id lower_chars ix owner (qualified_seed c)
           | None \<Rightarrow> Some Tests_Not_Found))"

definition pick_impact ::
  "'f floats \<Rightarrow> (string \<Rightarrow> string) \<Rightarrow> graph_index \<Rightarrow> picked_seed \<Rightarrow> impact_options \<Rightarrow> 'f impact_result" where
  "pick_impact fl lowercase ix picked opts =
     (case (case picked of
              Picked_Type ident \<Rightarrow> Some ident
            | Picked_Member c \<Rightarrow> map_option fst (exact_member_owner ix (mc_name c) (mc_owner c))) of
        Some ident \<Rightarrow> impact_model_for_seed fl lowercase ix Seed_Symbol [ident] opts
      | None \<Rightarrow> Impact_Not_Found Seed_Symbol)"

section \<open>Outcomes\<close>

definition SCHEMA_VERSION :: nat where "SCHEMA_VERSION = 1"

datatype outcome = Outcome_Hit | Outcome_Zero_Hit | Outcome_Ambiguous | Outcome_Fallback_Advised

definition outcome_ALL :: "outcome list" where
  "outcome_ALL = [Outcome_Hit, Outcome_Zero_Hit, Outcome_Ambiguous, Outcome_Fallback_Advised]"

fun outcome_str :: "outcome \<Rightarrow> string" where
  "outcome_str Outcome_Hit = ''hit''"
| "outcome_str Outcome_Zero_Hit = ''zero-hit''"
| "outcome_str Outcome_Ambiguous = ''ambiguous''"
| "outcome_str Outcome_Fallback_Advised = ''fallback-advised''"

end
