(* ===== verification/QueryImpactFacts.thy ===== *)
theory QueryImpactFacts
  imports QueryImpact
begin

text \<open>
  What the ranking and the models around the walk keep: in exact arithmetic the ranks are a distribution over the
  nodes, every visited file has one row, precise rows come first, and the imported section lists exactly the foreign
  files a record reaches.
\<close>

section \<open>The ranks are a distribution\<close>

text \<open>Exact arithmetic in place of \<open>f64\<close>: what the power iteration computes before rounding.\<close>

definition exact_floats :: "real floats" where
  "exact_floats =
     \<lparr>fp_zero = 0, fp_one = 1, fp_add = (+), fp_sub = (-), fp_mul = (*), fp_div = (/), fp_of_nat = real,
      fp_less = (<), fp_equal = (=), fp_damping = 85 / 100\<rparr>"

lemma exact_simps [simp]:
  "fp_zero exact_floats = 0" "fp_one exact_floats = 1" "fp_add exact_floats = (+)" "fp_sub exact_floats = (-)"
  "fp_mul exact_floats = (*)" "fp_div exact_floats = (/)" "fp_of_nat exact_floats = real"
  "fp_less exact_floats = (<)" "fp_equal exact_floats = (=)" "fp_damping exact_floats = 85 / 100"
  by (simp_all add: exact_floats_def)

definition spread_mass :: "real \<Rightarrow> nat \<Rightarrow> real list \<Rightarrow> bool" where
  "spread_mass m n xs \<longleftrightarrow> length xs = n \<and> sum_list xs = m \<and> list_all (\<lambda>x. 0 \<le> x) xs"

lemma sum_update: "j < length xs \<Longrightarrow> sum_list (xs[j := x]) = sum_list xs + x - (xs ! j :: real)"
  by (induction xs arbitrary: j) (auto split: nat.split)

lemma node_index_nth: "node_index nodes s = Some i \<Longrightarrow> i < length nodes \<and> nodes ! i = s"
  by (auto simp: node_index_def dest!: map_of_SomeD simp: set_zip)

lemma note_seeds_mass:
  assumes "distinct seeds" "fold (note_seed exact_floats nodes) seeds (replicate (length nodes) 0, 0) = (xs, w)"
  shows "spread_mass w (length nodes) xs \<and> (\<forall>i < length nodes. xs ! i \<noteq> 0 \<longrightarrow> nodes ! i \<in> set seeds)"
  using assms
proof (induction seeds arbitrary: xs w rule: rev_induct)
  case Nil
  then show ?case by (auto simp: spread_mass_def sum_list_replicate list_all_iff)
next
  case (snoc s seeds)
  obtain ys v where prev: "fold (note_seed exact_floats nodes) seeds (replicate (length nodes) 0, 0) = (ys, v)" by fastforce
  with snoc.prems(2) have step: "note_seed exact_floats nodes s (ys, v) = (xs, w)" by simp
  from prev snoc have ih: "spread_mass v (length nodes) ys" "\<forall>i < length nodes. ys ! i \<noteq> 0 \<longrightarrow> nodes ! i \<in> set seeds" by auto
  show ?case
  proof (cases "node_index nodes s")
    case None
    with step ih show ?thesis by (auto simp: note_seed_def)
  next
    case (Some i)
    with step have out: "xs = ys[i := 1]" "w = v + 1" by (auto simp: note_seed_def)
    note at = node_index_nth [OF Some]
    with ih(2) snoc.prems(1) have "ys ! i = 0" by auto
    moreover have len: "length ys = length nodes" using ih(1) by (simp add: spread_mass_def)
    ultimately have "spread_mass w (length nodes) xs"
      using ih(1) at set_update_subset_insert [of ys i 1]
      by (auto simp: out spread_mass_def sum_update list_all_iff)
    moreover have "\<forall>j < length nodes. xs ! j \<noteq> 0 \<longrightarrow> nodes ! j \<in> set (seeds @ [s])"
      using ih(2) at len by (auto simp: out nth_list_update split: if_splits)
    ultimately show ?thesis by blast
  qed
qed

lemma sum_scaled: "sum_list (map (\<lambda>x. x / (c :: real)) xs) = sum_list xs / c"
  by (induction xs) (simp_all add: add_divide_distrib)

lemma teleport_mass:
  assumes "nodes \<noteq> []" "distinct seeds"
  shows "spread_mass 1 (length nodes) (teleport_of exact_floats nodes seeds)"
proof -
  obtain xs w where st: "fold (note_seed exact_floats nodes) seeds (replicate (length nodes) 0, 0) = (xs, w)" by fastforce
  note m = note_seeds_mass [OF assms(2) st, THEN conjunct1, unfolded spread_mass_def]
  have "0 \<le> w" using m sum_list_nonneg [of xs] by (auto simp: list_all_iff)
  with m assms(1) st show ?thesis
    by (auto simp: teleport_of_def spread_mass_def sum_scaled list_all_iff map_replicate_const sum_list_replicate)
qed

lemma add_scaled_mass:
  assumes "spread_mass a n xs" "spread_mass b n ts" "0 \<le> c"
  shows "spread_mass (a + c * b) n (map2 (\<lambda>x t. x + c * t) xs ts)"
proof -
  have "length xs = length ts" using assms by (simp add: spread_mass_def)
  then have "sum_list (map2 (\<lambda>x t. x + c * t) xs ts) = sum_list xs + c * sum_list ts"
    by (induction xs ts rule: list_induct2) (simp_all add: algebra_simps)
  moreover have "list_all (\<lambda>x. 0 \<le> x) (map2 (\<lambda>x t. x + c * t) xs ts)"
    using assms by (auto simp: spread_mass_def list_all_iff intro!: add_nonneg_nonneg mult_nonneg_nonneg dest: set_zip_leftD set_zip_rightD)
  ultimately show ?thesis using assms by (simp add: spread_mass_def)
qed

lemma add_at_mass:
  assumes "spread_mass a n xs" "0 \<le> c" "j < n"
  shows "spread_mass (a + c) n (xs[j := xs ! j + c])"
  using assms set_update_subset_insert [of xs j "xs ! j + c"]
  by (auto simp: spread_mass_def list_all_iff sum_update)

lemma add_all_mass:
  "spread_mass a n xs \<Longrightarrow> 0 \<le> c \<Longrightarrow> \<forall>j \<in> set outs. j < n \<Longrightarrow>
   spread_mass (a + real (length outs) * c) n (fold (\<lambda>j xs. xs[j := xs ! j + c]) outs xs)"
proof (induction outs arbitrary: a xs)
  case (Cons j outs)
  have "spread_mass (a + c + real (length outs) * c) n (fold (\<lambda>j xs. xs[j := xs ! j + c]) outs (xs[j := xs ! j + c]))"
    by (rule Cons.IH) (use Cons.prems add_at_mass in auto)
  then show ?case by (simp add: algebra_simps)
qed simp

lemma spread_step_mass:
  assumes "spread_mass a n xs" "spread_mass 1 n ts" "spread_mass 1 n rank" "0 \<le> d" "i < n" "\<forall>j \<in> set outs. j < n"
  shows "spread_mass (a + d * (rank ! i)) n (spread exact_floats d ts rank (i, outs) xs)"
proof -
  have r: "0 \<le> d * (rank ! i)" using assms(3,4,5) by (simp add: spread_mass_def list_all_length)
  consider "rank ! i = 0" | "rank ! i \<noteq> 0" "outs = []" | "rank ! i \<noteq> 0" "outs \<noteq> []" by blast
  then show ?thesis
  proof cases
    case 1
    with assms(1) show ?thesis by (simp add: spread_def)
  next
    case 2
    with add_scaled_mass [OF assms(1,2) r] show ?thesis by (simp add: spread_def mult.assoc)
  next
    case 3
    have "0 \<le> d * (rank ! i) / real (length outs)" using r by simp
    from add_all_mass [OF assms(1) this assms(6)] 3 show ?thesis by (simp add: spread_def Let_def)
  qed
qed

lemma spread_all_mass:
  assumes "spread_mass 1 n ts" "spread_mass 1 n rank" "0 \<le> d"
  shows "spread_mass a n xs \<Longrightarrow> \<forall>(i, outs) \<in> set ps. i < n \<and> (\<forall>j \<in> set outs. j < n) \<Longrightarrow>
    spread_mass (a + sum_list (map (\<lambda>p. d * (rank ! fst p)) ps)) n (fold (spread exact_floats d ts rank) ps xs)"
proof (induction ps arbitrary: a xs)
  case (Cons p ps)
  obtain i outs where p: "p = (i, outs)" by (cases p)
  with Cons.prems have "spread_mass (a + d * (rank ! i)) n (spread exact_floats d ts rank p xs)"
    by (auto intro: spread_step_mass [OF _ assms])
  from Cons.IH [OF this] Cons.prems p show ?case by (simp add: add.assoc)
qed simp

lemma round_mass:
  assumes "spread_mass 1 n ts" "spread_mass 1 n rank" "0 \<le> d" "d \<le> 1" "length outs = n" "\<forall>os \<in> set outs. \<forall>j \<in> set os. j < n"
  shows "spread_mass 1 n (rank_round exact_floats d ts outs rank)"
proof -
  let ?ps = "enumerate 0 outs"
  have rank: "length rank = n" "sum_list rank = 1" using assms(2) by (simp_all add: spread_mass_def)
  have "map (\<lambda>p. d * (rank ! fst p)) ?ps = map (\<lambda>i. d * (rank ! i)) (map fst ?ps)" by (simp only: map_map o_def)
  also have "map fst ?ps = [0..<n]" using assms(5) by (simp add: enumerate_eq_zip)
  finally have "sum_list (map (\<lambda>p. d * (rank ! fst p)) ?ps) = d * sum_list (map (\<lambda>i. rank ! i) [0..<n])"
    by (simp add: sum_list_const_mult)
  also have "map (\<lambda>i. rank ! i) [0..<n] = rank" using rank(1) by (metis map_nth)
  finally have total: "sum_list (map (\<lambda>p. d * (rank ! fst p)) ?ps) = d" using rank(2) by simp
  have zero: "spread_mass 0 n (replicate n 0)" by (simp add: spread_mass_def sum_list_replicate list_all_iff)
  have "\<forall>(i, os) \<in> set ?ps. i < n \<and> (\<forall>j \<in> set os. j < n)"
    using assms(5,6) by (auto simp: enumerate_eq_zip set_zip)
  from spread_all_mass [OF assms(1-3) zero this] have "spread_mass d n (fold (spread exact_floats d ts rank) ?ps (replicate n 0))"
    by (simp add: total)
  from add_scaled_mass [OF this assms(1), of "1 - d"] assms(4) show ?thesis
    by (simp add: rank_round_def rank(1))
qed

text \<open>
  C36. In exact arithmetic the ranks are a distribution over the files of the blast radius: each rank is at least zero
  and all of them add up to one, after every number of iterations, so a file without outgoing edges loses no rank.
\<close>

theorem ranks_are_a_distribution:
  assumes "nodes \<noteq> []" "distinct seeds" "0 \<le> d" "d \<le> 1"
  shows "sum_list (rank_vector exact_floats nodes fwd_adj seeds d k) = 1
    \<and> length (rank_vector exact_floats nodes fwd_adj seeds d k) = length nodes
    \<and> list_all (\<lambda>x. 0 \<le> x) (rank_vector exact_floats nodes fwd_adj seeds d k)"
proof -
  let ?ts = "teleport_of exact_floats nodes seeds" and ?outs = "map (out_list nodes fwd_adj) nodes"
  note ts = teleport_mass [OF assms(1,2)]
  have "\<forall>os \<in> set ?outs. \<forall>j \<in> set os. j < length nodes" by (auto simp: out_list_def split: option.splits)
  then have "spread_mass 1 (length nodes) ((rank_round exact_floats d ?ts ?outs ^^ k) ?ts)"
    by (induction k) (simp_all add: ts round_mass [OF ts _ assms(3,4)])
  then show ?thesis by (simp add: rank_vector_def Let_def spread_mass_def)
qed

text \<open>Two files, of which the second has no outgoing edge: the ranks of the first round.\<close>

theorem ranks_are_a_distribution_witness:
  "sum_list (rank_vector exact_floats [''a.cs'', ''b.cs''] [''a.cs'' \<mapsto> {''b.cs''}] [''a.cs''] (85 / 100) 20) = 1"
  using ranks_are_a_distribution [of "[''a.cs'', ''b.cs'']" "[''a.cs'']" "85 / 100"] by simp

section \<open>The rows of the impact model\<close>

lemma set_insert_by [simp]: "set (insert_by le x ys) = insert x (set ys)"
  by (induction ys) auto

lemma length_insert_by [simp]: "length (insert_by le x ys) = Suc (length ys)"
  by (induction ys) auto

lemma stable_sort_simps [simp]:
  "set (stable_sort le xs) = set xs" "length (stable_sort le xs) = length xs"
  by (induction xs) (simp_all add: stable_sort_def)

lemma filter_insert_by: "length (filter P (insert_by le x ys)) = length (filter P (x # ys))"
  by (induction ys) auto

lemma filter_stable_sort: "length (filter P (stable_sort le xs)) = length (filter P xs)"
proof (induction xs)
  case (Cons x xs)
  then show ?case by (simp add: stable_sort_def filter_insert_by)
qed (simp add: stable_sort_def)

lemma distinct_insert_by: "distinct (map f (insert_by le x ys)) \<longleftrightarrow> distinct (map f (x # ys))"
  by (induction ys) auto

lemma distinct_stable_sort: "distinct (map f (stable_sort le xs)) = distinct (map f xs)"
proof (induction xs)
  case (Cons x xs)
  have "stable_sort le (x # xs) = insert_by le x (stable_sort le xs)" by (simp add: stable_sort_def)
  with Cons show ?case by (simp add: distinct_insert_by)
qed (simp add: stable_sort_def)

text \<open>The guesses stay behind the precise rows, whatever the scores are.\<close>

definition guesses_last :: "'f impact_row list \<Rightarrow> bool" where
  "guesses_last rows \<longleftrightarrow> sorted_wrt (\<lambda>a b. ip_heuristic a \<longrightarrow> ip_heuristic b) rows"

lemma row_class: "ip_heuristic a \<noteq> ip_heuristic b \<Longrightarrow> row_not_after fl a b = (\<not> ip_heuristic a)"
  unfolding row_not_after_def by (rule if_P)

lemma not_after_guess:
  "row_not_after fl a b \<Longrightarrow> ip_heuristic a \<Longrightarrow> ip_heuristic b"
  "\<not> row_not_after fl a b \<Longrightarrow> ip_heuristic b \<Longrightarrow> ip_heuristic a"
  using row_class [of a b fl] by auto

lemma guesses_last_Cons: "guesses_last (y # ys) \<longleftrightarrow> (\<forall>z \<in> set ys. ip_heuristic y \<longrightarrow> ip_heuristic z) \<and> guesses_last ys"
  by (simp add: guesses_last_def)

lemma insert_guesses_last: "guesses_last rows \<Longrightarrow> guesses_last (insert_by (row_not_after fl) r rows)"
proof (induction rows)
  case Nil
  show ?case by (simp add: guesses_last_def)
next
  case (Cons y ys)
  note tail = Cons.prems [unfolded guesses_last_Cons]
  have ih: "guesses_last (insert_by (row_not_after fl) r ys)" by (rule Cons.IH) (use tail in blast)
  show ?case
  proof (cases "row_not_after fl r y")
    case True
    have "\<forall>z \<in> set (y # ys). ip_heuristic r \<longrightarrow> ip_heuristic z"
    proof (intro ballI impI)
      fix z assume "z \<in> set (y # ys)" "ip_heuristic r"
      moreover from this(2) have "ip_heuristic y" by (rule not_after_guess(1) [OF True])
      ultimately show "ip_heuristic z" using tail by (cases "z = y") simp_all
    qed
    then show ?thesis
      unfolding insert_by.simps if_P [OF True] guesses_last_Cons [of r] using Cons.prems by (rule conjI)
  next
    case False
    have "\<forall>z \<in> set (insert_by (row_not_after fl) r ys). ip_heuristic y \<longrightarrow> ip_heuristic z"
    proof (intro ballI impI)
      fix z assume "z \<in> set (insert_by (row_not_after fl) r ys)" "ip_heuristic y"
      moreover from this(2) have "ip_heuristic r" by (rule not_after_guess(2) [OF False])
      ultimately show "ip_heuristic z" using tail by (cases "z = r") simp_all
    qed
    then show ?thesis
      unfolding insert_by.simps if_not_P [OF False] guesses_last_Cons using ih by (rule conjI)
  qed
qed

lemma sort_guesses_last: "guesses_last (stable_sort (row_not_after fl) rows)"
proof (induction rows)
  case (Cons r rows)
  then show ?case by (simp add: stable_sort_def insert_guesses_last)
qed (simp add: stable_sort_def guesses_last_def)

lemma row_of_fields: "ip_file (impact_row_of fl ix rank p) = fst p"
  "ip_heuristic (impact_row_of fl ix rank p) \<longleftrightarrow> ve_via_count (snd p) = 0 \<and> ve_ambiguous_count (snd p) = 0"
  by (simp_all add: impact_row_of_def Let_def split_beta)

lemma impact_rows_files: "ip_file ` set (impact_rows fl ix w) = fst ` set (sm_entries (iw_visited w))"
  unfolding impact_rows_def stable_sort_simps(1) set_map image_image row_of_fields(1) ..

lemma guesses_last_take: "guesses_last rows \<Longrightarrow> guesses_last (take n rows)"
  unfolding guesses_last_def by (rule sorted_wrt_take)

lemma length_filter_conj: "length (filter (\<lambda>r. \<not> P r \<and> Q r) xs) \<le> length xs - length (filter P xs)"
proof -
  have "length (filter (\<lambda>r. \<not> P r \<and> Q r) xs) \<le> length (filter (\<lambda>r. \<not> P r) xs)" by (induction xs) auto
  then show ?thesis using sum_length_filter_compl [of P xs] by simp
qed

text \<open>
  C35. Ranking loses nothing. The model of a resolved seed has one row per visited file, shown or counted as dropped;
  every visited file is counted once, as affected or as reached by guesses alone; the shown rows put the precise ones
  first, whatever the scores are, and name visited files only.
\<close>

theorem impact_rows_account:
  "case impact_model_for_seed fl lowercase ix kind ids opts of
     Impact_Resolved m \<Rightarrow>
       (let visited = sm_keys (iw_visited (impact_walk lowercase ix ids (mo_hops opts) (mo_iface opts)
                        (mo_iface_max_fanin opts) (mo_hub_max_indegree opts)))
        in imd_total_affected m + imd_heuristic_affected m = length visited
           \<and> length (imd_rows m) = min (mo_cap opts) (length visited)
           \<and> imd_dropped m = length visited - mo_cap opts
           \<and> imd_tests_affected m \<le> imd_total_affected m
           \<and> guesses_last (imd_rows m)
           \<and> ip_file ` set (imd_rows m) \<subseteq> set visited
           \<and> (mo_cap opts < length visited \<or> ip_file ` set (imd_rows m) = set visited))
   | _ \<Rightarrow> False"
proof -
  let ?w = "impact_walk lowercase ix ids (mo_hops opts) (mo_iface opts) (mo_iface_max_fanin opts) (mo_hub_max_indegree opts)"
  let ?rows = "impact_rows fl ix ?w"
  have len: "length ?rows = length (sm_keys (iw_visited ?w))" by (simp add: impact_rows_def sm_keys_def)
  have files: "ip_file ` set ?rows = set (sm_keys (iw_visited ?w))" by (simp add: impact_rows_files sm_keys_def)
  have last: "guesses_last ?rows" by (simp add: impact_rows_def sort_guesses_last)
  have some: "length (filter ip_heuristic ?rows) \<le> length ?rows" by (rule length_filter_le)
  have sub: "ip_file ` set (take n ?rows) \<subseteq> set (sm_keys (iw_visited ?w))" for n
    using files set_take_subset [of n ?rows] by blast
  show ?thesis
  proof (cases "length ?rows \<le> mo_cap opts")
    case True
    with last files some len length_filter_conj [of ip_heuristic "\<lambda>r. is_test_file ix (ip_file r)" ?rows]
    show ?thesis by (simp add: impact_model_for_seed_def cap_rows_def Let_def)
  next
    case False
    with last sub [of "mo_cap opts"] some len length_filter_conj [of ip_heuristic "\<lambda>r. is_test_file ix (ip_file r)" ?rows]
    show ?thesis by (simp add: impact_model_for_seed_def cap_rows_def Let_def guesses_last_take)
  qed
qed

section \<open>Imported reach\<close>

text \<open>The files one record reaches, directly or as the publisher of a message.\<close>

definition end_site :: "edge_end \<Rightarrow> (string \<times> string) set" where
  "end_site e = {(repo, file). ed_repo e = Some repo \<and> ed_file e = Some file}"

definition direct_sites :: "imported_edges \<Rightarrow> (string \<Rightarrow> nat option) \<Rightarrow> import_record \<Rightarrow> (string \<times> string) set" where
  "direct_sites edges hops r =
     (if \<not> is_mapped (rec_from r) (xe_mapped_repo edges) \<and> is_mapped (rec_to r) (xe_mapped_repo edges)
         \<and> (\<exists>f hop. ed_file (rec_to r) = Some f \<and> hops f = Some hop)
      then end_site (rec_from r) else {})"

text \<open>
  The foreign ends a message reaches: every record that consumes or enqueues it outside the mapped repository. The
  code leaves out the ends that stand at the path and the line of the publishing end, in whichever repository.
\<close>

definition consumer_ends :: "imported_edges \<Rightarrow> string \<Rightarrow> edge_end set" where
  "consumer_ends edges msg_key =
     {rec_to c |c. c \<in> set (xe_edges edges) \<and> (rec_kind c = ''consumes'' \<or> rec_kind c = ''enqueues'')
        \<and> rec_key c = Some msg_key \<and> ed_repo (rec_to c) \<noteq> Some (xe_mapped_repo edges)}"

definition same_place :: "edge_end \<Rightarrow> edge_end \<Rightarrow> bool" where
  "same_place a b \<longleftrightarrow> ed_file a = ed_file b \<and> ed_line a = ed_line b"

definition composed_sites :: "imported_edges \<Rightarrow> (string \<Rightarrow> nat option) \<Rightarrow> import_record \<Rightarrow> (string \<times> string) set" where
  "composed_sites edges hops p =
     (if rec_kind p = ''publishes'' \<and> ed_repo (rec_from p) = Some (xe_mapped_repo edges)
         \<and> Option.bind (ed_file (rec_from p)) hops \<noteq> None
      then (\<Union>msg_key \<in> set_option (rec_key p).
              \<Union>c \<in> {c \<in> consumer_ends edges msg_key. \<not> same_place c (rec_from p)}. end_site c)
      else {})"

definition row_site :: "imported_row \<Rightarrow> string \<times> string" where
  "row_site r = (isr_repo r, isr_file r)"

definition reach_ok :: "imported_edges \<Rightarrow> reach_state \<Rightarrow> bool" where
  "reach_ok edges st \<longleftrightarrow>
     fst st = row_site ` set (snd st) \<and> distinct (map row_site (snd st))
     \<and> list_all (\<lambda>r. isr_repo r \<noteq> xe_mapped_repo edges \<and> 0 < isr_hop r) (snd st)"

text \<open>A step that keeps the state and adds the sites \<open>S\<close>.\<close>

definition adds :: "imported_edges \<Rightarrow> (string \<times> string) set \<Rightarrow> (reach_state \<Rightarrow> reach_state) \<Rightarrow> bool" where
  "adds edges S f \<longleftrightarrow> (\<forall>st. reach_ok edges st \<longrightarrow> reach_ok edges (f st) \<and> fst (f st) = fst st \<union> S)"

lemma adds_nothing: "adds edges {} (\<lambda>st. st)"
  by (simp add: adds_def)

lemma addsD: "adds edges S f \<Longrightarrow> reach_ok edges st \<Longrightarrow> reach_ok edges (f st)"
  "adds edges S f \<Longrightarrow> reach_ok edges st \<Longrightarrow> fst (f st) = fst st \<union> S"
  unfolding adds_def by blast+

lemma adds_comp: "adds edges S f \<Longrightarrow> adds edges T g \<Longrightarrow> adds edges (S \<union> T) (\<lambda>st. g (f st))"
  unfolding adds_def [of edges "S \<union> T"] by (simp add: addsD Un_assoc)

lemma adds_fold: "(\<And>x. x \<in> set xs \<Longrightarrow> adds edges (S x) (f x)) \<Longrightarrow> adds edges (\<Union>x \<in> set xs. S x) (fold f xs)"
proof (induction xs)
  case (Cons x xs)
  have "adds edges (S x) (f x)" "adds edges (\<Union>x \<in> set xs. S x) (fold f xs)" using Cons by auto
  from adds_comp [OF this] show ?case by (simp add: o_def)
qed (simp add: adds_def)

lemma adds_imported: "\<not> is_mapped e (xe_mapped_repo edges) \<Longrightarrow> adds edges (end_site e) (add_imported kind e hop)"
proof -
  assume foreign: "\<not> is_mapped e (xe_mapped_repo edges)"
  have "reach_ok edges (add_imported kind e hop (seen, rows)) \<and> fst (add_imported kind e hop (seen, rows)) = seen \<union> end_site e"
    if "reach_ok edges (seen, rows)" for seen rows
  proof (cases "\<exists>r0 f0. ed_repo e = Some r0 \<and> ed_file e = Some f0")
    case True
    then obtain r0 f0 where e: "ed_repo e = Some r0" "ed_file e = Some f0" by blast
    then have site: "end_site e = {(r0, f0)}" by (auto simp: end_site_def)
    have "r0 \<noteq> xe_mapped_repo edges" using foreign e(1) by (simp add: is_mapped_def)
    with that show ?thesis
      by (cases "(r0, f0) \<in> seen") (auto simp: add_imported_def e site reach_ok_def row_site_def)
  next
    case False
    then have "end_site e = {}" by (auto simp: end_site_def)
    moreover have "add_imported kind e hop (seen, rows) = (seen, rows)"
      using False by (cases "ed_repo e"; cases "ed_file e") (auto simp: add_imported_def)
    ultimately show ?thesis using that by simp
  qed
  then show ?thesis by (auto simp: adds_def)
qed

lemma adds_direct: "adds edges (direct_sites edges hops r) (direct_row (xe_mapped_repo edges) hops r)"
proof (cases "\<not> is_mapped (rec_from r) (xe_mapped_repo edges) \<and> is_mapped (rec_to r) (xe_mapped_repo edges)
    \<and> (\<exists>f hop. ed_file (rec_to r) = Some f \<and> hops f = Some hop)")
  case True
  then obtain hop where hop: "Option.bind (ed_file (rec_to r)) hops = Some hop" by auto
  have "direct_row (xe_mapped_repo edges) hops r = add_imported (rec_kind r) (rec_from r) hop"
    by (rule ext) (use True hop in \<open>simp add: direct_row_def\<close>)
  with True show ?thesis using adds_imported [of "rec_from r" edges] by (simp add: direct_sites_def)
next
  case False
  then have "direct_row (xe_mapped_repo edges) hops r = (\<lambda>st. st)"
    by (intro ext) (auto simp: direct_row_def split: option.split dest!: bind_eq_Some_conv [THEN iffD1])
  moreover have "direct_sites edges hops r = {}" unfolding direct_sites_def by (rule if_not_P [OF False])
  ultimately show ?thesis by (simp add: adds_nothing)
qed

lemma consumers_are_ends:
  assumes "ed_file pub_end = Some f"
  shows "{rec_to c |c. c \<in> set (xe_edges edges) \<and> consumes_message (xe_mapped_repo edges) k pub_end f c} =
    {c \<in> consumer_ends edges k. \<not> same_place c pub_end}"
  using assms by (auto simp: consumer_ends_def same_place_def consumes_message_def is_mapped_def)

lemma adds_composed: "adds edges (composed_sites edges hops p) (composed_row edges hops p)"
proof (cases "rec_kind p = ''publishes'' \<and> is_mapped (rec_from p) (xe_mapped_repo edges)
    \<and> (\<exists>f hop k. ed_file (rec_from p) = Some f \<and> hops f = Some hop \<and> rec_key p = Some k)")
  case True
  then obtain f hop k where p: "rec_kind p = ''publishes''" "is_mapped (rec_from p) (xe_mapped_repo edges)"
    "ed_file (rec_from p) = Some f" "hops f = Some hop" "rec_key p = Some k" by blast
  let ?con = "filter (consumes_message (xe_mapped_repo edges) k (rec_from p) f) (xe_edges edges)"
  have "composed_row edges hops p = fold (\<lambda>con. add_imported (rec_kind con) (rec_to con) hop) ?con"
    by (rule ext) (simp add: composed_row_def p)
  moreover have "composed_sites edges hops p = (\<Union>con \<in> set ?con. end_site (rec_to con))"
  proof -
    have "(\<Union>c \<in> {c \<in> consumer_ends edges k. \<not> same_place c (rec_from p)}. end_site c) = (\<Union>con \<in> set ?con. end_site (rec_to con))"
      unfolding consumers_are_ends [OF p(3), symmetric] by auto
    then show ?thesis using p by (simp add: composed_sites_def is_mapped_def)
  qed
  moreover have "adds edges (end_site (rec_to con)) (add_imported (rec_kind con) (rec_to con) hop)" if "con \<in> set ?con" for con
    using that by (intro adds_imported) (simp add: consumes_message_def)
  ultimately show ?thesis using adds_fold [of ?con edges "\<lambda>con. end_site (rec_to con)"] by simp
next
  case False
  then have "composed_row edges hops p = (\<lambda>st. st)"
    by (intro ext) (auto simp: composed_row_def split: option.split)
  moreover have "composed_sites edges hops p = {}"
    using False by (cases "rec_key p"; cases "ed_file (rec_from p)") (auto simp: composed_sites_def is_mapped_def)
  ultimately show ?thesis by (simp add: adds_nothing)
qed

text \<open>
  C34. The imported section lists the foreign files the import reaches from the shown answer: a file whose record
  points at a reached file, or one that consumes or enqueues a message a reached file publishes. Of the consumers it
  leaves out those that stand at the path and the line of the publishing end, whatever repository they are in
  (\<open>consumer_at_publishers_place_dropped\<close>), and no other. No file stands there twice, none belongs to the mapped
  repository, and what the cap cuts off is counted.
\<close>

theorem imported_reach_exact:
  "let s = build_imported_section m edges cap; hops = local_hops m;
       reached = (\<Union>r \<in> set (xe_edges edges). direct_sites edges hops r \<union> composed_sites edges hops r)
   in iss_affected s = card reached \<and> length (iss_rows s) + iss_dropped s = card reached
      \<and> row_site ` set (iss_rows s) \<subseteq> reached \<and> (cap < card reached \<or> row_site ` set (iss_rows s) = reached)
      \<and> distinct (map row_site (iss_rows s))
      \<and> list_all (\<lambda>r. isr_repo r \<noteq> xe_mapped_repo edges \<and> 0 < isr_hop r) (iss_rows s)"
proof -
  let ?hops = "local_hops m"
  let ?reached = "\<Union>r \<in> set (xe_edges edges). direct_sites edges ?hops r \<union> composed_sites edges ?hops r"
  let ?st = "composed_rows edges ?hops (direct_rows edges ?hops ({}, []))"
  let ?sorted = "sort_key (\<lambda>r. (isr_hop r, isr_repo r, isr_file r)) (snd ?st)"
  have d: "adds edges (\<Union>r \<in> set (xe_edges edges). direct_sites edges ?hops r) (direct_rows edges ?hops)"
    unfolding direct_rows_def by (rule adds_fold) (rule adds_direct)
  have c: "adds edges (\<Union>r \<in> set (xe_edges edges). composed_sites edges ?hops r) (composed_rows edges ?hops)"
    unfolding composed_rows_def by (rule adds_fold) (rule adds_composed)
  have "reach_ok edges ({}, [])" by (simp add: reach_ok_def)
  note both = addsD [OF adds_comp [OF d c] this]
  have st: "reach_ok edges ?st" "fst ?st = ?reached" using both by (simp_all add: UN_Un_distrib)
  then have sites: "row_site ` set ?sorted = ?reached" "distinct (map row_site ?sorted)"
    and rows: "list_all (\<lambda>r. isr_repo r \<noteq> xe_mapped_repo edges \<and> 0 < isr_hop r) ?sorted"
    by (auto simp: reach_ok_def list_all_iff distinct_map)
  have len: "length ?sorted = card ?reached" using sites distinct_card [of "map row_site ?sorted"] by simp
  have "distinct (map row_site (take cap ?sorted))" using sites(2) by (simp add: take_map [symmetric] distinct_take)
  moreover have "row_site ` set (take cap ?sorted) \<subseteq> ?reached" using sites(1) set_take_subset [of cap ?sorted] by blast
  moreover have "list_all (\<lambda>r. isr_repo r \<noteq> xe_mapped_repo edges \<and> 0 < isr_hop r) (take cap ?sorted)"
    using rows by (auto simp: list_all_iff dest: in_set_takeD)
  moreover have "cap < card ?reached \<or> row_site ` set (take cap ?sorted) = ?reached"
    using len sites(1) by (cases "cap < card ?reached") auto
  ultimately show ?thesis unfolding build_imported_section_def Let_def imported_section.simps using len by simp
qed

text \<open>
  The comment in \<open>imported.rs\<close> excludes the publishing record's own site from its consumers. That site is in the mapped
  repository, and the consumers compared with it never are: what the comparison drops is a consumer of another
  repository whose file has the same path and line.
\<close>

definition end_at :: "string \<Rightarrow> string \<Rightarrow> edge_end" where
  "end_at repo f = \<lparr>ed_repo = Some repo, ed_reference = None, ed_file = Some f, ed_line = Some 7\<rparr>"

definition order_records :: "string \<Rightarrow> import_record list" where
  "order_records f =
     [\<lparr>rec_kind = ''publishes'', rec_from = end_at ''shop'' ''src/Bus.cs'', rec_to = end_at ''broker'' [], rec_key = Some ''Order''\<rparr>,
      \<lparr>rec_kind = ''consumes'', rec_from = end_at ''broker'' [], rec_to = end_at ''billing'' f, rec_key = Some ''Order''\<rparr>]"

theorem consumer_at_publishers_place_dropped:
  assumes "xe_mapped_repo edges = ''shop''" "xe_edges edges = order_records f"
  shows "map row_site (snd (composed_rows edges (\<lambda>f. if f = ''src/Bus.cs'' then Some 0 else None) ({}, []))) =
     (if f = ''src/Bus.cs'' then [] else [(''billing'', f)])"
  using assms
  by (auto simp: composed_rows_def composed_row_def order_records_def end_at_def is_mapped_def consumes_message_def
      add_imported_def row_site_def)

end
