(* ===== verification/QueryVerbFacts.thy ===== *)
theory QueryVerbFacts
  imports QueryVerbs QueryImpactFacts
begin

text \<open>
  What the verbs answer: the test rows of a symbol are its references from test files grouped by file, every
  candidate a refusal lists can be picked, and a quoted declaration is lines of its file.
\<close>

section \<open>Test rows are grouped references\<close>

definition firsts :: "'a list \<Rightarrow> 'a list" where
  "firsts xs = fold (\<lambda>x acc. if x \<in> set acc then acc else acc @ [x]) xs []"

lemma firsts_simps [simp]:
  "firsts [] = []" "firsts (xs @ [x]) = (if x \<in> set (firsts xs) then firsts xs else firsts xs @ [x])"
  by (simp_all add: firsts_def)

lemma set_firsts [simp]: "set (firsts xs) = set xs"
  by (induction xs rule: rev_induct) auto

lemma distinct_firsts [simp]: "distinct (firsts xs)"
  by (induction xs rule: rev_induct) auto

definition ref_file :: "graph_index \<Rightarrow> nat \<Rightarrow> string" where
  "ref_file ix i = fst (edge_loc (edge_at ix i))"

definition refs_of_file :: "graph_index \<Rightarrow> nat list \<Rightarrow> string \<Rightarrow> nat list" where
  "refs_of_file ix es f = filter (\<lambda>i. ref_file ix i = f) es"

definition test_refs :: "graph_index \<Rightarrow> nat list \<Rightarrow> nat list" where
  "test_refs ix es = filter (\<lambda>i. is_test_file ix (ref_file ix i)) es"

text \<open>The row of one test file, from the references the file makes.\<close>

definition grouped_row :: "graph_index \<Rightarrow> bool \<Rightarrow> nat list \<Rightarrow> string \<Rightarrow> test_row" where
  "grouped_row ix heuristic es f =
     \<lparr>tw_file = f,
      tw_test_defs = map (\<lambda>d. d_id (def_at ix d)) (or_default [] (ix_test_defs_by_file (gi_maps ix) f)),
      tw_lines = map (\<lambda>i. snd (edge_loc (edge_at ix i))) (refs_of_file ix es f),
      tw_ref_count = length (refs_of_file ix es f), tw_heuristic = heuristic,
      tw_tier = row_tier heuristic (list_ex (\<lambda>i. edge_tier (edge_at ix i) = Some Tier_Ext) (refs_of_file ix es f)),
      tw_via = the (find_test_via ix f)\<rparr>"

lemma grouped_file [simp]: "tw_file (grouped_row ix h es f) = f"
  by (simp add: grouped_row_def)

lemma slot_of_group:
  assumes "distinct fs" "i < length fs"
  shows "row_slot (map (grouped_row ix h es) fs @ rows) (fs ! i) = Some i"
proof -
  have "position (\<lambda>r. tw_file r = fs ! i) (map (grouped_row ix h es) fs @ rows) \<noteq> None"
    unfolding position_None_iff using nth_mem [OF assms(2)]
    by (auto intro!: bexI [of _ "grouped_row ix h es (fs ! i)"])
  then obtain j where j: "position (\<lambda>r. tw_file r = fs ! i) (map (grouped_row ix h es) fs @ rows) = Some j" by blast
  have "\<not> i < j" using position_SomeD [OF j] assms(2) by (auto simp: nth_append)
  with position_SomeD [OF j] assms have "j = i" by (auto simp: nth_append nth_eq_iff_index_eq split: if_splits)
  with j show ?thesis by (simp add: row_slot_def)
qed

lemma slot_none: "f \<notin> set fs \<Longrightarrow> row_slot (map (grouped_row ix h es) fs) f = None"
  by (auto simp: row_slot_def position_None_iff)

lemma grouped_other: "ref_file ix i \<noteq> f \<Longrightarrow> grouped_row ix h (es @ [i]) f = grouped_row ix h es f"
  by (simp add: grouped_row_def refs_of_file_def)

lemma grouped_own:
  "ref_file ix i = f \<Longrightarrow> grouped_row ix h (es @ [i]) f = note_test_ref h (edge_at ix i) (grouped_row ix h es f)"
  by (auto simp: grouped_row_def refs_of_file_def note_test_ref_def row_tier_def)

lemma test_row_new:
  "refs_of_file ix es f = [] \<Longrightarrow> find_test_via ix f = Some via \<Longrightarrow> grouped_row ix h es f = new_test_row ix h f via"
  by (simp add: grouped_row_def new_test_row_def)

definition grouped_rows :: "graph_index \<Rightarrow> bool \<Rightarrow> nat list \<Rightarrow> test_row list" where
  "grouped_rows ix h es = map (grouped_row ix h es) (firsts (map (ref_file ix) (test_refs ix es)))"

lemma collect_step: "collect_test_ref ix h i (grouped_rows ix h es) = grouped_rows ix h (es @ [i])"
proof (cases "find_test_via ix (ref_file ix i)")
  case None
  have "ref_file ix i \<notin> set (firsts (map (ref_file ix) (test_refs ix es)))"
    using None by (auto simp: test_refs_def is_test_file_def)
  then have "map (grouped_row ix h (es @ [i])) (firsts (map (ref_file ix) (test_refs ix es))) = grouped_rows ix h es"
    unfolding grouped_rows_def by (intro map_cong refl grouped_other) auto
  moreover have "test_refs ix (es @ [i]) = test_refs ix es" using None by (simp add: test_refs_def is_test_file_def)
  ultimately show ?thesis
    using None by (simp add: collect_test_ref_def grouped_rows_def ref_file_def Let_def)
next
  case (Some via)
  let ?fs = "firsts (map (ref_file ix) (test_refs ix es))" and ?f = "ref_file ix i"
  have tests: "test_refs ix (es @ [i]) = test_refs ix es @ [i]" using Some by (simp add: test_refs_def is_test_file_def)
  show ?thesis
  proof (cases "?f \<in> set ?fs")
    case True
    then obtain k where k: "k < length ?fs" "?fs ! k = ?f" unfolding in_set_conv_nth by blast
    have slot: "row_slot (grouped_rows ix h es) ?f = Some k"
      using slot_of_group [OF distinct_firsts k(1), of ix h es "[]"] k(2) by (simp add: grouped_rows_def)
    have "collect_test_ref ix h i (grouped_rows ix h es) = (grouped_rows ix h es)[k := note_test_ref h (edge_at ix i) (grouped_row ix h es ?f)]"
      using Some slot k by (simp add: collect_test_ref_def Let_def ref_file_def [symmetric] grouped_rows_def)
    also have "\<dots> = map (grouped_row ix h (es @ [i])) ?fs"
    proof (rule nth_equalityI)
      fix j assume "j < length ((grouped_rows ix h es)[k := note_test_ref h (edge_at ix i) (grouped_row ix h es ?f)])"
      then have j: "j < length ?fs" by (simp add: grouped_rows_def)
      show "(grouped_rows ix h es)[k := note_test_ref h (edge_at ix i) (grouped_row ix h es ?f)] ! j
          = map (grouped_row ix h (es @ [i])) ?fs ! j"
      proof (cases "j = k")
        case True
        with j k show ?thesis using grouped_own [OF refl, of ix h es i] by (simp add: grouped_rows_def)
      next
        case False
        with j k have "?fs ! j \<noteq> ?f" using nth_eq_iff_index_eq [OF distinct_firsts j k(1)] by simp
        with False j show ?thesis using grouped_other [of ix i "?fs ! j" h es] by (simp add: grouped_rows_def)
      qed
    qed (simp add: grouped_rows_def)
    finally show ?thesis using True by (simp add: grouped_rows_def tests)
  next
    case False
    then have none: "refs_of_file ix es ?f = []"
      using Some unfolding refs_of_file_def filter_empty_conv set_firsts set_map test_refs_def set_filter is_test_file_def
      by (metis (mono_tags, lifting) False image_eqI is_test_file_def mem_Collect_eq option.discI set_filter set_firsts set_map test_refs_def)
    have slot: "row_slot (grouped_rows ix h es) ?f = None" using slot_none [OF False] by (simp add: grouped_rows_def)
    have new_slot: "row_slot (grouped_rows ix h es @ [new_test_row ix h ?f via]) ?f = Some (length ?fs)"
    proof -
      have "grouped_rows ix h es @ [new_test_row ix h ?f via] = map (grouped_row ix h es) (?fs @ [?f])"
        by (simp add: grouped_rows_def test_row_new [OF none Some])
      then show ?thesis
        using slot_of_group [of "?fs @ [?f]" "length ?fs" ix h es "[]"] False by simp
    qed
    have "collect_test_ref ix h i (grouped_rows ix h es)
        = grouped_rows ix h es @ [note_test_ref h (edge_at ix i) (new_test_row ix h ?f via)]"
      using Some slot new_slot
      by (simp add: collect_test_ref_def Let_def ref_file_def [symmetric] nth_append list_update_append grouped_rows_def)
    also have "\<dots> = map (grouped_row ix h (es @ [i])) (?fs @ [?f])"
      using grouped_own [OF refl, of ix h es i] test_row_new [OF none Some, of h] False
      by (auto simp: grouped_rows_def intro!: grouped_other [symmetric])
    finally show ?thesis using False by (simp add: grouped_rows_def tests)
  qed
qed

lemma collected: "fold (collect_test_ref ix h) es [] = grouped_rows ix h es"
proof (induction es rule: rev_induct)
  case Nil
  show ?case by (simp add: grouped_rows_def test_refs_def)
next
  case (snoc i es)
  then show ?case by (simp add: collect_step)
qed

text \<open>
  C37. The rows of a \<open>tests\<close> answer are the references from test files, grouped: one row per test file, in the order
  in which the walk of the kinds first meets it, with all lines the file refers from in order, their number, and the
  extension tier as soon as one of them carries it. The counts of the answer are those of the references.
\<close>

theorem test_rows_grouped:
  "let rows = collect_test_rows ix kind_lists heuristic; es = concat kind_lists
   in rows = map (\<lambda>f. (grouped_row ix heuristic es f)\<lparr>tw_lines := sort (tw_lines (grouped_row ix heuristic es f))\<rparr>)
               (firsts (map (ref_file ix) (test_refs ix es)))
      \<and> sum_list (map tw_ref_count rows) = length (test_refs ix es)"
proof -
  let ?es = "concat kind_lists"
  let ?fs = "firsts (map (ref_file ix) (test_refs ix ?es))"
  have rows: "collect_test_rows ix kind_lists heuristic = map (\<lambda>f. (grouped_row ix heuristic ?es f)\<lparr>tw_lines := sort (tw_lines (grouped_row ix heuristic ?es f))\<rparr>) ?fs"
    by (simp add: collect_test_rows_def collected grouped_rows_def)
  have same: "refs_of_file ix ?es f = filter (\<lambda>i. ref_file ix i = f) (test_refs ix ?es)" if "f \<in> set ?fs" for f
    using that by (auto simp: refs_of_file_def test_refs_def intro!: filter_cong)
  have "sum_list (map tw_ref_count (collect_test_rows ix kind_lists heuristic)) = sum_list (map (\<lambda>f. length (refs_of_file ix ?es f)) ?fs)"
    by (simp add: rows o_def grouped_row_def)
  also have "\<dots> = sum_list (map (\<lambda>f. length (filter (\<lambda>i. ref_file ix i = f) (test_refs ix ?es))) ?fs)"
    using same by (intro arg_cong [where f = sum_list] map_cong) auto
  also have "\<dots> = length (test_refs ix ?es)"
  proof -
    have "sum_list (map (\<lambda>f. length (filter (\<lambda>i. ref_file ix i = f) xs)) fs) = length xs"
      if "distinct fs" "ref_file ix ` set xs \<subseteq> set fs" for fs and xs :: "nat list"
      using that
    proof (induction xs)
      case (Cons x xs)
      have "sum_list (map (\<lambda>f. length (filter (\<lambda>i. ref_file ix i = f) (x # xs))) fs)
          = sum_list (map (\<lambda>f. of_bool (ref_file ix x = f) + length (filter (\<lambda>i. ref_file ix i = f) xs)) fs)"
        by (intro arg_cong [where f = sum_list] map_cong) auto
      also have "\<dots> = sum_list (map (\<lambda>f. of_bool (ref_file ix x = f)) fs) + length xs"
        using Cons by (simp only: sum_list_addf) simp
      also have "sum_list (map (\<lambda>f. of_bool (ref_file ix x = f)) fs) = (1 :: nat)"
        using Cons.prems sum_list_distinct_conv_sum_set [OF Cons.prems(1), of "\<lambda>f. of_bool (ref_file ix x = f) :: nat"]
          sum.delta' [of "set fs" "ref_file ix x" "\<lambda>_. 1 :: nat"] by (simp add: of_bool_def)
      finally show ?case by simp
    qed simp
    from this [of ?fs "test_refs ix ?es"] show ?thesis by simp
  qed
  finally show ?thesis using rows by (simp add: Let_def)
qed

section \<open>Picking a candidate\<close>

lemma group_model_id:
  "member_group_model ix read seed name (owner, sites, kept, hits) budget = Some (m, left) \<Longrightarrow>
   rm_id m = owner @ ''.'' @ name \<and> rm_query m = seed \<and> rm_sites m = sites"
  by (auto simp: member_group_model_def Let_def)

lemma one_owner:
  assumes "gi_def ix owner \<noteq> None" "sites \<noteq> []"
  shows "\<exists>m. member_refs_from_owners ix read seed name [(owner, sites)] cap = Some (Some (Models [m]))
    \<and> rm_id m = owner @ ''.'' @ name \<and> rm_query m = seed \<and> rm_sites m = sites"
proof -
  obtain kept where kept: "verified_member_edges ix read owner name = Some kept"
    using assms(1) by (auto simp: verified_member_edges_def)
  let ?g = "(owner, sites, kept, member_dispatch_edges (symbol_refs ix owner) (g_edges (gi_graph ix)) name)"
  have grp: "owner_group ix read name (owner, sites) = Some ?g" by (simp add: owner_group_def kept)
  obtain m left where m: "member_group_model ix read seed name ?g cap = Some (m, left)"
    using group_model [OF owner_group_ok [OF assms(2) grp], of read seed name cap] by auto
  have "answering_groups [?g] = [?g]" by (simp add: answering_groups_def)
  then have "member_refs_from_owners ix read seed name [(owner, sites)] cap = Some (Some (Models [m]))"
    by (simp add: member_refs_from_owners_def grp m)
  with group_model_id [OF m] show ?thesis by blast
qed

lemma exact_owner_of_candidate:
  assumes "(owner, sites) \<in> set (qualified_member_owners ix (fst (split_member_seed seed)) (snd (split_member_seed seed)))"
  shows "\<exists>sites'. exact_member_owner ix (fst (split_member_seed seed)) owner = Some (owner, sites') \<and> sites' \<noteq> []"
proof -
  note entry = group_rows_entry [OF assms [unfolded member_owners_grouped]]
  from entry(1) obtain n where "n \<in> set (g_names (gi_graph ix))" "seed_row ix seed n" "gn_owner n = owner" by auto
  then have "n \<in> set (filter (\<lambda>n. gn_owner n = owner \<and> is_member_row ix (fst (split_member_seed seed)) n) (g_names (gi_graph ix)))"
    by (simp add: seed_row_def)
  then have "filter (\<lambda>n. gn_owner n = owner \<and> is_member_row ix (fst (split_member_seed seed)) n) (g_names (gi_graph ix)) \<noteq> []"
    by (metis empty_iff empty_set)
  then show ?thesis by (simp add: exact_member_owner_def Let_def)
qed

lemma all_some_mem: "all_some (map f xs) = Some ys \<Longrightarrow> y \<in> set ys \<Longrightarrow> \<exists>x \<in> set xs. f x = Some y"
  using all_some_Some [of "map f xs" ys] by (metis (no_types) image_iff list.set_map)

lemma candidate_owner:
  assumes "member_refs_from_owners ix read seed name owners cap = Some (Some (Owners_Ambiguous cs))" "c \<in> set cs"
  shows "\<exists>sites. (mc_owner c, sites) \<in> set owners \<and> mc_name c = name"
proof -
  from assms(1) obtain groups where groups: "all_some (map (owner_group ix read name) owners) = Some groups"
    and cs: "all_some (map (group_candidate name) (answering_groups groups)) = Some cs"
    by (auto simp: member_refs_from_owners_def Let_def split: if_splits option.splits)
  from all_some_mem [OF cs assms(2)] obtain g where g: "g \<in> set (answering_groups groups)" "group_candidate name g = Some c" by blast
  from g(1) have "g \<in> set groups" by (auto simp: answering_groups_def split: if_splits)
  from all_some_mem [OF groups this] obtain p where "p \<in> set owners" "owner_group ix read name p = Some g" by blast
  with g(2) show ?thesis by (cases p) (auto simp: owner_group_def group_candidate_def)
qed

lemma refusal_candidate:
  assumes "build_refs_model lowercase ix read query out caps = Some (Refs_Member_Ambiguous cs)" "c \<in> set cs"
  shows "\<exists>sites. (mc_owner c, sites) \<in> set (qualified_member_owners ix (fst (split_member_seed query)) (snd (split_member_seed query)))
    \<and> mc_name c = fst (split_member_seed query)"
proof -
  have "refs_seed lowercase ix read query (rc_inbound caps) = Some (Seed_Answer (Refs_Member_Ambiguous cs))"
    using assms(1) by (auto simp: build_refs_model_def build_refs_model_inner_def split: option.splits seed_answer.splits)
  then have "build_member_refs_models ix read query (rc_inbound caps) = Some (Some (Owners_Ambiguous cs))"
    by (auto simp: refs_seed_def split: option.splits resolution.splits member_refs_outcome.splits)
  then show ?thesis
    using candidate_owner assms(2) by (auto simp: build_member_refs_models_def split_beta)
qed

text \<open>
  C33. Every candidate an ambiguous member seed is refused with can be picked: picking it answers with exactly one
  model, that of the candidate's own declaring type, under the candidate's spelled-out name, and never with another
  refusal.
\<close>

theorem picked_candidate_answers:
  assumes "build_refs_model lowercase ix read query out caps = Some (Refs_Member_Ambiguous cs)" "c \<in> set cs"
  shows "\<exists>m. pick_refs lowercase ix read (Picked_Member c) out' caps' = Some (Refs_Members [m])
    \<and> rm_id m = qualified_seed c \<and> rm_query m = qualified_seed c"
proof -
  from refusal_candidate [OF assms] obtain sites where own:
    "(mc_owner c, sites) \<in> set (qualified_member_owners ix (fst (split_member_seed query)) (snd (split_member_seed query)))"
    and name: "mc_name c = fst (split_member_seed query)" by blast
  from exact_owner_of_candidate [OF own] obtain sites' where exact:
    "exact_member_owner ix (mc_name c) (mc_owner c) = Some (mc_owner c, sites')" "sites' \<noteq> []" unfolding name by blast
  from one_owner [OF member_owner(1) [OF own] exact(2)] obtain m where
    "member_refs_from_owners ix read (qualified_seed c) (mc_name c) [(mc_owner c, sites')] (rc_inbound caps') = Some (Some (Models [m]))"
    "rm_id m = mc_owner c @ ''.'' @ mc_name c" "rm_query m = qualified_seed c" by blast
  then show ?thesis
    by (simp add: pick_refs_def member_refs_for_candidate_def exact(1) owner_list_def qualified_seed_def)
qed

text \<open>Two types declare \<open>Run\<close> and nothing refers to either.\<close>

definition runner_graph :: graph where
  "runner_graph =
     two_site_graph\<lparr>g_names :=
       map (\<lambda>(owner, f, l). \<lparr>gn_name = ''Run'', gn_kind = ''method'', gn_file = f, gn_line = l, gn_owner = owner\<rparr>)
         [(''N.A'', ''src/A.cs'', 4), (''N.B'', ''src/B.cs'', 6)]\<rparr>"

definition runner_index :: graph_index where
  "runner_index = load_graph_index_with (\<lambda>s. s) None runner_graph default_options"

definition no_files :: file_text where
  "no_files = (\<lambda>_. None)"

lemma runner_refusal:
  "build_refs_model (\<lambda>s. s) runner_index no_files ''Run'' False default_caps =
     Some (Refs_Member_Ambiguous
       [\<lparr>mc_owner = ''N.A'', mc_name = ''Run'', mc_file = ''src/A.cs'', mc_line = 4\<rparr>,
        \<lparr>mc_owner = ''N.B'', mc_name = ''Run'', mc_file = ''src/B.cs'', mc_line = 6\<rparr>])"
  by code_simp

theorem picked_candidate_answers_witness:
  "\<exists>m. pick_refs (\<lambda>s. s) runner_index no_files
         (Picked_Member \<lparr>mc_owner = ''N.B'', mc_name = ''Run'', mc_file = ''src/B.cs'', mc_line = 6\<rparr>) False default_caps
       = Some (Refs_Members [m]) \<and> rm_id m = ''N.B.Run''"
  using picked_candidate_answers [OF runner_refusal,
      of "\<lparr>mc_owner = ''N.B'', mc_name = ''Run'', mc_file = ''src/B.cs'', mc_line = 6\<rparr>" False default_caps]
  by (auto simp: qualified_seed_def)

section \<open>Quoted declarations\<close>

lemma appended_alike: "s = r \<or> P \<and> b @ s = r \<Longrightarrow> s @ t = r @ t \<or> P \<and> b @ s @ t = r @ t"
  by auto

text \<open>
  A quoted declaration is text of its file: the span starts at the recorded site, ends at the recorded end or the
  last line of the file, whichever is first, and its source is those lines, a byte order mark aside.
\<close>

theorem span_quotes_the_file:
  assumes "read_span_of read m end_line = Some s"
  shows "\<exists>body rest. read (sp_file s) = Some body \<and> rm_sites m = (sp_file s, sp_start_line s) # rest
    \<and> sp_start_line s \<le> sp_end_line s \<and> sp_end_line s = min end_line (length (str_split NEWLINE body))
    \<and> (let quoted = slice (sp_start_line s - 1) (sp_end_line s) (str_split NEWLINE body)
       in sp_source s = str_join [NEWLINE] quoted \<or> sp_start_line s = 1 \<and> BOM @ sp_source s = str_join [NEWLINE] quoted)"
proof -
  obtain f line rest where site: "rm_sites m = (f, line) # rest"
    using assms by (auto simp: read_span_of_def split: list.splits)
  from assms site obtain body where body: "read f = Some body" "\<not> end_line < line"
    by (auto simp: read_span_of_def split: if_splits option.splits)
  let ?ls = "str_split NEWLINE body"
  have line: "1 \<le> line" "line \<le> length ?ls" using assms site body by (auto simp: read_span_of_def Let_def split: if_splits)
  let ?raw = "?ls ! (line - 1)" and ?last = "min end_line (length ?ls)"
  let ?tail = "concat (map ((#) NEWLINE) (slice line ?last ?ls))"
  let ?start = "if line = 1 then (case strip_prefix ?raw BOM of Some r \<Rightarrow> r | None \<Rightarrow> ?raw) else ?raw"
  have s: "s = \<lparr>sp_file = f, sp_start_line = line, sp_end_line = ?last, sp_source = concat (?start # map ((#) NEWLINE) (slice line ?last ?ls))\<rparr>"
  proof -
    have "Some s = read_span_of read m end_line" using assms by (rule sym)
    also have "\<dots> = Some \<lparr>sp_file = f, sp_start_line = line, sp_end_line = ?last, sp_source = concat (?start # map ((#) NEWLINE) (slice line ?last ?ls))\<rparr>"
      using site body line by (cases "line = 1") (simp_all add: read_span_of_def Let_def split: option.split)
    finally show ?thesis by (rule option.inject [THEN iffD1])
  qed
  have last: "line \<le> ?last" using body(2) line by simp
  have quoted: "slice (line - 1) ?last ?ls = ?raw # slice line ?last ?ls"
    using line last by (simp add: slice_def Cons_nth_drop_Suc [symmetric] take_Cons' drop_take)
  have join: "str_join [NEWLINE] (x # xs) = x @ concat (map ((#) NEWLINE) xs)" for x xs
    by (induction xs arbitrary: x) simp_all
  have "?start = ?raw \<or> line = 1 \<and> BOM @ ?start = ?raw"
    by (auto simp: strip_prefix_def starts_with_def split: option.split) (metis append_take_drop_id)
  then have start: "?start @ ?tail = ?raw @ ?tail \<or> line = 1 \<and> BOM @ ?start @ ?tail = ?raw @ ?tail"
    by (rule appended_alike)
  have ends: "sp_file s = f" "sp_start_line s = line" "sp_end_line s = ?last" "sp_source s = ?start @ ?tail"
    unfolding s by (simp_all only: read_span.simps concat.simps)
  have lines: "str_join [NEWLINE] (slice (line - 1) ?last ?ls) = ?raw @ ?tail" by (simp only: quoted join)
  show ?thesis
    unfolding Let_def ends using site body(1) last start [folded lines] by (intro exI [of _ body] exI [of _ rest] conjI refl)
qed

end
