(* ===== verification/Walk.thy ===== *)
theory Walk
  imports Prelude
begin

text \<open>
  The source walk (\<open>src/walk.rs\<close>) with Git's ignored set (\<open>src/walk/ignored.rs\<close>), and which paths can invalidate an
  index (\<open>src/freshness/relevance.rs\<close>). A directory is its entries; what cannot be read is \<open>Unreadable\<close>, and an
  error of the walk is \<open>None\<close>. Names are UTF-8; a scope element that is absolute or climbs with \<open>..\<close> is left out.
\<close>

section \<open>Directories\<close>

datatype fs_entry = Plain_File | Directory "(string \<times> fs_entry) list" | Unreadable | Other_Entry

lemma child_smaller [termination_simp]: "(n, e) \<in> set es \<Longrightarrow> size e < Suc (size_list (size_prod (\<lambda>_. 0) size) es)"
  by (induction es) auto

definition join_name :: "string \<Rightarrow> string \<Rightarrow> string" where
  "join_name rel name = (if rel = [] then name else rel @ CHR ''/'' # name)"

fun is_directory :: "fs_entry \<Rightarrow> bool" where
  "is_directory (Directory _) = True"
| "is_directory Unreadable = True"
| "is_directory _ = False"

text \<open>What the operating system finds at a path of names.\<close>

fun entry_at :: "fs_entry \<Rightarrow> string list \<Rightarrow> fs_entry option" where
  "entry_at e [] = Some e"
| "entry_at (Directory es) (n # ns) = Option.bind (map_of es n) (\<lambda>e. entry_at e ns)"
| "entry_at _ (n # ns) = None"

text \<open>The names of a path as the operating system reads it, without the empty and \<open>.\<close> ones.\<close>

definition path_names :: "string \<Rightarrow> string list" where
  "path_names p = filter (\<lambda>n. n \<noteq> [] \<and> n \<noteq> ''.'') (str_split CHR ''/'' p)"

section \<open>The ignored set\<close>

record ignored =
  ig_dirs :: "string set"
  ig_files :: "string set"

definition no_ignored :: ignored where "no_ignored = \<lparr>ig_dirs = {}, ig_files = {}\<rparr>"

definition ignored_empty :: "ignored \<Rightarrow> bool" where
  "ignored_empty ig \<longleftrightarrow> ig_dirs ig = {} \<and> ig_files ig = {}"

function ancestor_covered :: "string set \<Rightarrow> string \<Rightarrow> bool" where
  "ancestor_covered dirs cur =
     (case str_rfind cur CHR ''/'' of
        None \<Rightarrow> False
      | Some i \<Rightarrow> take i cur \<in> dirs \<or> ancestor_covered dirs (take i cur))"
  by auto
termination
  by (relation "measure (\<lambda>(_, cur). length cur)") (auto dest: str_rfind_Some)

declare ancestor_covered.simps [simp del]

definition covers :: "ignored \<Rightarrow> string \<Rightarrow> bool" where
  "covers ig rel \<longleftrightarrow> rel \<in> ig_files ig \<or> rel \<in> ig_dirs ig \<or> ancestor_covered (ig_dirs ig) rel"

definition is_repo_relative :: "string \<Rightarrow> bool" where
  "is_repo_relative rel \<longleftrightarrow>
     rel \<noteq> [] \<and> \<not> starts_with rel ''/''
     \<and> list_all (\<lambda>part. part \<noteq> [] \<and> part \<noteq> ''.'' \<and> part \<noteq> ''..'') (str_split CHR ''/'' rel)"

definition NUL :: char where "NUL = CHR 0x00"

definition add_ignored :: "string \<Rightarrow> ignored \<Rightarrow> ignored option" where
  "add_ignored r ig =
     (if \<not> utf8_valid r then None
      else case strip_suffix r ''/'' of
             Some d \<Rightarrow> (if is_repo_relative d then Some (ig\<lparr>ig_dirs := insert d (ig_dirs ig)\<rparr>) else None)
           | None \<Rightarrow> (if is_repo_relative r then Some (ig\<lparr>ig_files := insert r (ig_files ig)\<rparr>) else None))"

fun add_all_ignored :: "string list \<Rightarrow> ignored \<Rightarrow> ignored option" where
  "add_all_ignored [] ig = Some ig"
| "add_all_ignored (r # rs) ig = Option.bind (add_ignored r ig) (add_all_ignored rs)"

definition parse_ignored :: "string \<Rightarrow> ignored option" where
  "parse_ignored bytes =
     (if bytes = [] then Some no_ignored
      else if last bytes \<noteq> NUL then None
      else add_all_ignored (str_split NUL (butlast bytes)) no_ignored)"

section \<open>Relevance\<close>

definition SKIP_DIRS :: "string list" where
  "SKIP_DIRS =
     [''node_modules'', ''.git'', ''.scout'', ''bin'', ''obj'', ''dist'', ''coverage'', ''.next'', ''target'']"

definition SOURCE_EXT :: "string list" where
  "SOURCE_EXT =
     [''.ts'', ''.tsx'', ''.js'', ''.jsx'', ''.mts'', ''.cts'', ''.mjs'', ''.cjs'', ''.cs'', ''.rs'', ''.json'', ''.md'',
      ''.xaml'', ''.resw'', ''.resx'', ''.html'']"

definition name_extension :: "string \<Rightarrow> string" where
  "name_extension name = (case str_rfind name CHR ''.'' of Some i \<Rightarrow> drop i name | None \<Rightarrow> [])"

definition is_within_scope :: "string \<Rightarrow> string list \<Rightarrow> bool" where
  "is_within_scope rel scope \<longleftrightarrow> list_ex (\<lambda>d. d = ''.'' \<or> rel = d \<or> starts_with rel (d @ ''/'')) scope"

definition rel_dir :: "string \<Rightarrow> string" where
  "rel_dir rel = (case str_rfind rel CHR ''/'' of Some i \<Rightarrow> take i rel | None \<Rightarrow> [])"

definition rel_name :: "string \<Rightarrow> string" where
  "rel_name rel = (case str_rfind rel CHR ''/'' of Some i \<Rightarrow> drop (Suc i) rel | None \<Rightarrow> rel)"

definition has_skipped_component :: "string \<Rightarrow> bool" where
  "has_skipped_component dir \<longleftrightarrow> list_ex (\<lambda>part. part \<in> set SKIP_DIRS) (str_split CHR ''/'' dir)"

definition is_indexed_path :: "string \<Rightarrow> string list \<Rightarrow> bool" where
  "is_indexed_path rel scope \<longleftrightarrow>
     rel \<noteq> [] \<and> is_within_scope rel scope \<and> \<not> has_skipped_component (rel_dir rel)
     \<and> name_extension (rel_name rel) \<in> set SOURCE_EXT"

function ancestors_above :: "string \<Rightarrow> string list" where
  "ancestors_above cur =
     (case str_rfind cur CHR ''/'' of None \<Rightarrow> [[]] | Some i \<Rightarrow> take i cur # ancestors_above (take i cur))"
  by auto
termination
  by (relation "measure length") (auto dest: str_rfind_Some)

declare ancestors_above.simps [simp del]

definition ancestor_dirs_of_scope :: "string list \<Rightarrow> string list" where
  "ancestor_dirs_of_scope scope = sort (remdups (concat (map ancestors_above (filter (\<lambda>d. d \<noteq> ''.'') scope))))"

definition is_config_input :: "string \<Rightarrow> string list \<Rightarrow> bool" where
  "is_config_input rel scope \<longleftrightarrow>
     (let name = rel_name rel; dir = rel_dir rel; in_scope = is_within_scope rel scope \<and> \<not> has_skipped_component dir
      in if name = ''Cargo.toml'' then in_scope
         else if \<not> (ends_with name ''.csproj'' \<or> name = ''Directory.Build.props'') then False
         else in_scope \<or> dir \<in> set (ancestor_dirs_of_scope scope))"

definition is_relevant :: "string \<Rightarrow> string list \<Rightarrow> bool" where
  "is_relevant rel scope \<longleftrightarrow> is_indexed_path rel scope \<or> is_config_input rel scope"

definition config_pathspecs :: "string list \<Rightarrow> string list" where
  "config_pathspecs scope =
     concat (map (\<lambda>dir. let prefix = (if dir = [] then [] else dir @ ''/'')
        in ['':(literal)'' @ prefix @ ''Directory.Build.props'', '':(glob)'' @ prefix @ ''*.csproj''])
       (ancestor_dirs_of_scope scope))"

definition scope_pathspecs :: "string list \<Rightarrow> string list" where
  "scope_pathspecs scope = map (\<lambda>d. if d = ''.'' then ''.'' else '':(literal)'' @ d) scope"

definition query_pathspecs :: "string list \<Rightarrow> string list" where
  "query_pathspecs scope = scope_pathspecs scope @ config_pathspecs scope"

text \<open>\<open>git\<close> answers a query with its output, or cannot; a root without a \<open>.git\<close> entry is not asked.\<close>

definition ignored_for_scope :: "bool \<Rightarrow> (string list \<Rightarrow> string option) \<Rightarrow> string list \<Rightarrow> ignored option" where
  "ignored_for_scope has_git git scope =
     (if \<not> has_git then Some no_ignored else Option.bind (git (query_pathspecs scope)) parse_ignored)"

section \<open>The walk\<close>

definition is_ignored :: "ignored \<Rightarrow> string \<Rightarrow> bool" where
  "is_ignored ig rel \<longleftrightarrow> \<not> ignored_empty ig \<and> covers ig rel"

definition all_listed :: "string list option list \<Rightarrow> string list option" where
  "all_listed rs = map_option concat (those rs)"

function walk_with :: "string list \<Rightarrow> ignored \<Rightarrow> string \<Rightarrow> fs_entry \<Rightarrow> string list option" where
  "walk_with exts ig rel (Directory es) =
     all_listed (map (\<lambda>(name, e).
       let path = join_name rel name
       in if is_directory e
          then (if name \<in> set SKIP_DIRS \<or> is_ignored ig path then Some [] else walk_with exts ig path e)
          else if e = Plain_File
          then Some (if name_extension name \<in> set exts \<and> \<not> is_ignored ig path then [path] else [])
          else Some []) (sort_key fst es))"
| "walk_with exts ig rel Unreadable = None"
| "walk_with exts ig rel Plain_File = None"
| "walk_with exts ig rel Other_Entry = None"
  by pat_completeness auto
termination
  by (relation "measure (\<lambda>(_, _, _, e). size e)") (auto simp: child_smaller)

definition list_files_with_ext :: "fs_entry \<Rightarrow> string list \<Rightarrow> string list \<Rightarrow> ignored \<Rightarrow> string list option" where
  "list_files_with_ext root dirs exts ig =
     all_listed (map (\<lambda>d.
       if d \<noteq> ''.'' \<and> covers ig d then Some []
       else case entry_at root (path_names d) of
              None \<Rightarrow> Some []
            | Some e \<Rightarrow> walk_with exts ig (str_join ''/'' (path_names d)) e) dirs)"

definition list_source_files :: "fs_entry \<Rightarrow> string list \<Rightarrow> ignored \<Rightarrow> string list option" where
  "list_source_files root dirs ig = list_files_with_ext root dirs SOURCE_EXT ig"

end
