(* ===== verification/Freshness.thy ===== *)
theory Freshness
  imports Walk QueryImpact
begin

text \<open>
  Whether an index is fresh: the record a run publishes and how it is read (\<open>src/freshness/record.rs\<close>), the status
  reader (\<open>src/freshness/status.rs\<close>), the run's side (\<open>src/freshness/publish.rs\<close>, with the dirty set and the paths
  of \<open>src/mapcmd.rs\<close>) and the query's side (\<open>src/freshness/validate.rs\<close>). A \<open>world\<close> is what the machine holds at one
  moment; every read of a query has a moment of its own, so anything may change between two of them. The JSON
  decoders, SHA-256 and the printing of numbers are arguments.
\<close>

section \<open>The record\<close>

definition RECORD_FORMAT :: string where "RECORD_FORMAT = ''devscout-index-state''"
definition RECORD_VERSION :: nat where "RECORD_VERSION = 2"
definition DIGESTS_FORMAT :: string where "DIGESTS_FORMAT = ''devscout-index-digests''"
definition DIGESTS_VERSION :: nat where "DIGESTS_VERSION = 1"

definition U64_MAX :: nat where "U64_MAX = 2 ^ 64 - 1"

definition sat_add :: "nat \<Rightarrow> nat \<Rightarrow> nat" where "sat_add a b = min (a + b) U64_MAX"

record artifact_identity =
  idn_len :: nat
  idn_modified :: nat
  idn_dev :: "nat option"
  idn_ino :: "nat option"

definition modified_ns :: "int \<Rightarrow> int \<Rightarrow> nat" where
  "modified_ns secs nanos = sat_add (min (nat (max 0 secs) * 1000000000) U64_MAX) (nat (max 0 nanos))"

record artifacts =
  art_graph :: "artifact_identity option"
  art_manifest :: "artifact_identity option"

text \<open>The configuration inputs are a sorted map, here its entries in order.\<close>

record index_record =
  frc_format :: string
  frc_version :: nat
  frc_state :: string
  frc_owner :: string
  frc_generation :: string
  frc_indexed_head :: "string option"
  frc_scope :: "string list"
  frc_indexed_at :: string
  frc_file_count :: nat
  frc_dirty_at_map :: "string list option"
  frc_config_inputs :: "(string \<times> string) list"
  frc_artifacts :: artifacts

record marker =
  mkr_format :: string
  mkr_version :: nat
  mkr_state :: string
  mkr_owner :: string
  mkr_started_at :: string

datatype record_state =
    Record_Missing
  | Record_In_Progress marker
  | Record_Published index_record
  | Record_Uncertifiable

record raw_record =
  raw_format :: "string option"
  raw_version :: "nat option"
  raw_state :: "string option"
  raw_owner :: "string option"
  raw_generation :: "string option"
  raw_indexed_head :: "string option"
  raw_scope :: "string list option"
  raw_indexed_at :: "string option"
  raw_file_count :: "nat option"
  raw_dirty_at_map :: "string list option"
  raw_config_inputs :: "(string \<times> string) list option"
  raw_artifacts :: "artifacts option"
  raw_started_at :: "string option"

record digest_table =
  dgt_generation :: string
  dgt_files :: "(string \<times> string) list"

record raw_digests =
  rdg_format :: string
  rdg_version :: nat
  rdg_generation :: string
  rdg_files :: "(string \<times> string) list"

text \<open>The decoders: a text as a value, a value as the tolerant view of a record, a text as a digest table.\<close>

record codec =
  cdc_value :: "string \<Rightarrow> json_value option"
  cdc_raw :: "json_value \<Rightarrow> raw_record option"
  cdc_digests :: "string \<Rightarrow> raw_digests option"

fun value_get :: "json_value \<Rightarrow> string \<Rightarrow> json_value option" where
  "value_get (V_Object obj) k = field obj k"
| "value_get _ k = None"

definition in_progress_state :: "raw_record \<Rightarrow> record_state" where
  "in_progress_state raw =
     (case (raw_owner raw, raw_started_at raw) of
        (Some own, Some started) \<Rightarrow>
          Record_In_Progress \<lparr>mkr_format = RECORD_FORMAT, mkr_version = RECORD_VERSION, mkr_state = ''in-progress'',
            mkr_owner = own, mkr_started_at = started\<rparr>
      | _ \<Rightarrow> Record_Uncertifiable)"

definition published_state :: "raw_record \<Rightarrow> record_state" where
  "published_state raw =
     (case (raw_owner raw, raw_generation raw, raw_scope raw, raw_indexed_at raw) of
        (Some own, Some generation, Some scope, Some indexed_at) \<Rightarrow>
          (case (raw_file_count raw, raw_dirty_at_map raw) of
             (Some file_count, Some dirty) \<Rightarrow>
               (case (raw_config_inputs raw, raw_artifacts raw) of
                  (Some config, Some arts) \<Rightarrow>
                    Record_Published \<lparr>frc_format = RECORD_FORMAT, frc_version = RECORD_VERSION, frc_state = ''published'',
                      frc_owner = own, frc_generation = generation, frc_indexed_head = raw_indexed_head raw,
                      frc_scope = scope, frc_indexed_at = indexed_at, frc_file_count = file_count,
                      frc_dirty_at_map = Some dirty, frc_config_inputs = config, frc_artifacts = arts\<rparr>
                | _ \<Rightarrow> Record_Uncertifiable)
           | _ \<Rightarrow> Record_Uncertifiable)
      | _ \<Rightarrow> Record_Uncertifiable)"

definition read_record :: "codec \<Rightarrow> string option \<Rightarrow> record_state" where
  "read_record cdc body =
     (case body of
        None \<Rightarrow> Record_Missing
      | Some s \<Rightarrow>
          (case cdc_value cdc s of
             None \<Rightarrow> Record_Uncertifiable
           | Some v \<Rightarrow>
               if Option.bind (value_get v ''state'') value_str = Some ''published'' \<and> value_get v ''indexed_head'' = None
               then Record_Uncertifiable
               else (case cdc_raw cdc v of
                       None \<Rightarrow> Record_Uncertifiable
                     | Some raw \<Rightarrow>
                         if raw_format raw \<noteq> Some RECORD_FORMAT \<or> raw_version raw \<noteq> Some RECORD_VERSION
                         then Record_Uncertifiable
                         else if raw_state raw = Some ''in-progress'' then in_progress_state raw
                         else if raw_state raw = Some ''published'' then published_state raw
                         else Record_Uncertifiable)))"

datatype digest_read_error = Digests_Missing | Digests_Unreadable | Digests_Unknown_Format | Digests_Changed

definition read_digests_strict ::
  "codec \<Rightarrow> artifact_identity option \<Rightarrow> string option \<Rightarrow> artifact_identity option \<Rightarrow> digest_read_error + digest_table" where
  "read_digests_strict cdc before body after =
     (case body of
        None \<Rightarrow> Inl Digests_Missing
      | Some s \<Rightarrow>
          (case cdc_digests cdc s of
             None \<Rightarrow> Inl Digests_Unreadable
           | Some raw \<Rightarrow>
               if rdg_format raw \<noteq> DIGESTS_FORMAT \<or> rdg_version raw \<noteq> DIGESTS_VERSION then Inl Digests_Unknown_Format
               else if before = None \<or> before \<noteq> after then Inl Digests_Changed
               else Inr \<lparr>dgt_generation = rdg_generation raw, dgt_files = rdg_files raw\<rparr>))"

definition read_digests ::
  "codec \<Rightarrow> artifact_identity option \<Rightarrow> string option \<Rightarrow> artifact_identity option \<Rightarrow> digest_table option" where
  "read_digests cdc before body after =
     (case read_digests_strict cdc before body after of Inl _ \<Rightarrow> None | Inr t \<Rightarrow> Some t)"

definition is_published_format :: "codec \<Rightarrow> string \<Rightarrow> bool" where
  "is_published_format cdc body =
     (case cdc_value cdc body of
        None \<Rightarrow> False
      | Some v \<Rightarrow>
          Option.bind (value_get v ''format'') value_str = Some RECORD_FORMAT
          \<and> Option.bind (value_get v ''version'') value_u64 = Some RECORD_VERSION
          \<and> Option.bind (value_get v ''state'') value_str = Some ''published'')"

section \<open>Git status\<close>

definition STATUS_ENTRY_CAP :: nat where "STATUS_ENTRY_CAP = 5000"

datatype status_error = Git_Unavailable | Budget_Exceeded

fun status_records :: "nat option \<Rightarrow> nat \<Rightarrow> string list \<Rightarrow> status_error + string list" where
  "status_records cap i [] = Inr []"
| "status_records cap i (r # rs) =
     (if (case cap of Some c \<Rightarrow> c \<le> i | None \<Rightarrow> False) then Inl Budget_Exceeded
      else if length r < 4 \<or> r ! 2 \<noteq> CHR '' '' then Inl Git_Unavailable
      else if \<not> utf8_valid (drop 3 r) then Inl Git_Unavailable
      else case status_records cap (Suc i) rs of
             Inl e \<Rightarrow> Inl e
           | Inr ps \<Rightarrow> Inr (drop 3 r # ps))"

definition sorted_set :: "string list \<Rightarrow> string list" where
  "sorted_set ps = sort (remdups ps)"

text \<open>\<open>output\<close> is what the command printed, nothing when it could not run or failed.\<close>

definition git_status_paths :: "string option \<Rightarrow> nat option \<Rightarrow> status_error + string list" where
  "git_status_paths output cap =
     (case output of
        None \<Rightarrow> Inl Git_Unavailable
      | Some bytes \<Rightarrow>
          (case status_records cap 0 (filter (\<lambda>r. r \<noteq> []) (str_split NUL bytes)) of
             Inl e \<Rightarrow> Inl e
           | Inr ps \<Rightarrow> Inr (sorted_set ps)))"

definition is_working_tree_dirty :: "(string list \<Rightarrow> string option) \<Rightarrow> string list \<Rightarrow> bool" where
  "is_working_tree_dirty status scope =
     (case git_status_paths (status (scope_pathspecs scope)) (Some STATUS_ENTRY_CAP) of
        Inr ps \<Rightarrow> ps \<noteq> []
      | Inl Budget_Exceeded \<Rightarrow> True
      | Inl Git_Unavailable \<Rightarrow> False)"

section \<open>States and lines\<close>

datatype unknown_reason = No_Index_State | Reason_Git_Unavailable | Other_Worktree | Validation_Budget | Index_Changed

datatype freshness_state =
    State_Fresh
  | State_Stale string string nat
  | State_Unknown unknown_reason

fun reason_str :: "unknown_reason \<Rightarrow> string" where
  "reason_str No_Index_State = ''no-index-state''"
| "reason_str Reason_Git_Unavailable = ''git-unavailable''"
| "reason_str Other_Worktree = ''other-worktree''"
| "reason_str Validation_Budget = ''validation-budget''"
| "reason_str Index_Changed = ''index-changed''"

definition EM_DASH :: string where "EM_DASH = [CHR 0xE2, CHR 0x80, CHR 0x94]"

definition short_head :: "string \<Rightarrow> string" where "short_head h = take 7 h"

definition stale_line :: "(nat \<Rightarrow> string) \<Rightarrow> string \<Rightarrow> string \<Rightarrow> string \<Rightarrow> nat \<Rightarrow> string" where
  "stale_line show_nat repo indexed current changed =
     ''devscout: index for '' @ repo @ '' is stale (indexed at '' @ short_head indexed @ '', HEAD '' @ short_head current
     @ ''; '' @ show_nat changed @ '' changed files) '' @ EM_DASH @ '' rebuild with devscout map''"

definition other_worktree_line :: "string \<Rightarrow> string" where
  "other_worktree_line repo =
     ''devscout: index for '' @ repo @ '' was built in another worktree '' @ EM_DASH @ '' run devscout map here to use it''"

definition index_changed_line :: "string \<Rightarrow> string" where
  "index_changed_line repo =
     ''devscout: index for '' @ repo @ '' changed while this query ran, or a map is running or was interrupted ''
     @ EM_DASH @ '' re-run the query, or rebuild with devscout map''"

definition validation_budget_line :: "string \<Rightarrow> string" where
  "validation_budget_line repo =
     ''devscout: freshness of the index for '' @ repo @ '' could not be verified (more changes than the check reads) ''
     @ EM_DASH @ '' rebuild with devscout map''"

definition uncertifiable_line :: "string \<Rightarrow> string" where
  "uncertifiable_line repo =
     ''devscout: index for '' @ repo @ '' has no freshness record this version can verify '' @ EM_DASH
     @ '' rebuild with devscout map''"

section \<open>The machine and its moments\<close>

record world =
  wld_record :: "string option"
  wld_digests :: "string option"
  wld_digests_id :: "artifact_identity option"
  wld_graph :: "artifact_identity option"
  wld_manifest :: "artifact_identity option"
  wld_root_owner :: "string option"
  wld_head :: "string option"
  wld_status :: "string list \<Rightarrow> string option"
  wld_bytes :: "string \<Rightarrow> string option"
  wld_regular :: "string \<Rightarrow> nat option"

text \<open>\<open>wld_regular\<close> is the length of a path that is a regular file itself, symbolic links not followed.\<close>

datatype moment =
    At_Begin | At_Owner | At_Head | At_Status | At_Digests_Before | At_Digests | At_Digests_After
  | At_Size string | At_Kind string | At_Read string | At_Record | At_Graph | At_Manifest

section \<open>The query side\<close>

definition CANDIDATE_PATH_CAP :: nat where "CANDIDATE_PATH_CAP = 2048"
definition CANDIDATE_BYTE_CAP :: nat where "CANDIDATE_BYTE_CAP = 16 * 1024 * 1024"

record validation =
  vld_state :: freshness_state
  vld_warning :: "string option"

definition unknown :: "unknown_reason \<Rightarrow> string option \<Rightarrow> validation" where
  "unknown reason warning = \<lparr>vld_state = State_Unknown reason, vld_warning = warning\<rparr>"

definition certifiable_record ::
  "string \<Rightarrow> string option \<Rightarrow> string option \<Rightarrow> record_state \<Rightarrow> validation + index_record" where
  "certifiable_record repo asking root_owner snapshot =
     (case snapshot of
        Record_Missing \<Rightarrow> Inl (unknown No_Index_State None)
      | Record_Uncertifiable \<Rightarrow> Inl (unknown No_Index_State (Some (uncertifiable_line repo)))
      | Record_In_Progress _ \<Rightarrow> Inl (unknown Index_Changed (Some (index_changed_line repo)))
      | Record_Published r \<Rightarrow>
          if root_owner \<noteq> Some (frc_owner r) \<or> asking \<noteq> Some (frc_owner r)
          then Inl (unknown Other_Worktree (Some (other_worktree_line repo)))
          else Inr r)"

definition status_pathspecs :: "index_record \<Rightarrow> string list" where
  "status_pathspecs r =
     scope_pathspecs (frc_scope r) @ config_pathspecs (frc_scope r)
     @ map (\<lambda>p. '':(literal)'' @ fst p) (frc_config_inputs r)"

definition candidates_of :: "string \<Rightarrow> string option \<Rightarrow> index_record \<Rightarrow> validation + string list" where
  "candidates_of repo output r =
     (case git_status_paths output (Some STATUS_ENTRY_CAP) of
        Inl Git_Unavailable \<Rightarrow> Inl (unknown Reason_Git_Unavailable None)
      | Inl Budget_Exceeded \<Rightarrow> Inl (unknown Validation_Budget (Some (validation_budget_line repo)))
      | Inr ps \<Rightarrow>
          (let cs = sorted_set (filter (\<lambda>p. is_relevant p (frc_scope r)) ps @ or_default [] (frc_dirty_at_map r))
           in if CANDIDATE_PATH_CAP < length cs then Inl (unknown Validation_Budget (Some (validation_budget_line repo)))
              else Inr cs))"

definition recorded_digest :: "index_record \<Rightarrow> digest_table option \<Rightarrow> string \<Rightarrow> string option" where
  "recorded_digest r digests rel =
     (if is_config_input rel (frc_scope r) then map_of (frc_config_inputs r) rel
      else Option.bind digests (\<lambda>t. map_of (dgt_files t) rel))"

record candidate_read =
  cdr_path :: string
  cdr_digest :: "string option"
  cdr_bytes :: "nat option"
  cdr_regular :: bool

definition read_candidate :: "(string \<Rightarrow> string) \<Rightarrow> (moment \<Rightarrow> world) \<Rightarrow> string \<Rightarrow> candidate_read" where
  "read_candidate sha w rel =
     (let regular = (wld_regular (w (At_Kind rel)) rel \<noteq> None)
      in case wld_bytes (w (At_Read rel)) rel of
           Some bytes \<Rightarrow>
             \<lparr>cdr_path = rel, cdr_digest = Some (sha bytes), cdr_bytes = Some (length bytes), cdr_regular = regular\<rparr>
         | None \<Rightarrow> \<lparr>cdr_path = rel, cdr_digest = None, cdr_bytes = None, cdr_regular = regular\<rparr>)"

definition candidate_changed :: "index_record \<Rightarrow> digest_table option \<Rightarrow> candidate_read \<Rightarrow> bool" where
  "candidate_changed r digests c =
     (case recorded_digest r digests (cdr_path c) of
        Some expected \<Rightarrow>
          (case (cdr_digest c, cdr_regular c) of
             (Some digest, True) \<Rightarrow> digest \<noteq> expected
           | _ \<Rightarrow> True)
      | None \<Rightarrow> cdr_regular c)"

definition changed_candidates ::
  "(string \<Rightarrow> string) \<Rightarrow> string \<Rightarrow> (moment \<Rightarrow> world) \<Rightarrow> index_record \<Rightarrow> string list \<Rightarrow> digest_table option \<Rightarrow> validation + nat" where
  "changed_candidates sha repo w r cs digests =
     (let over = Inl (unknown Validation_Budget (Some (validation_budget_line repo)));
          estimated = fold (\<lambda>c n. case wld_regular (w (At_Size c)) c of Some l \<Rightarrow> sat_add n l | None \<Rightarrow> n) cs 0;
          reads = map (read_candidate sha w) cs;
          read_bytes = fold (\<lambda>c n. case cdr_bytes c of Some l \<Rightarrow> sat_add n l | None \<Rightarrow> n) reads 0
      in if CANDIDATE_BYTE_CAP < estimated then over
         else if CANDIDATE_BYTE_CAP < read_bytes then over
         else Inr (length (filter (candidate_changed r digests) reads)))"

definition end_changed :: "codec \<Rightarrow> string \<Rightarrow> (moment \<Rightarrow> world) \<Rightarrow> index_record \<Rightarrow> validation option" where
  "end_changed cdc repo w r =
     (let changed = Some (unknown Index_Changed (Some (index_changed_line repo)))
      in case read_record cdc (wld_record (w At_Record)) of
           Record_Published e \<Rightarrow>
             if frc_generation e \<noteq> frc_generation r then changed
             else if wld_graph (w At_Graph) \<noteq> art_graph (frc_artifacts r)
                     \<or> wld_manifest (w At_Manifest) \<noteq> art_manifest (frc_artifacts r) then changed
             else None
         | _ \<Rightarrow> changed)"

definition verdict :: "(nat \<Rightarrow> string) \<Rightarrow> string \<Rightarrow> index_record \<Rightarrow> string \<Rightarrow> nat \<Rightarrow> validation" where
  "verdict show_nat repo r head changed =
     (let indexed = or_default [] (frc_indexed_head r)
      in if frc_indexed_head r = Some head \<and> changed = 0 then \<lparr>vld_state = State_Fresh, vld_warning = None\<rparr>
         else \<lparr>vld_state = State_Stale indexed head changed, vld_warning = Some (stale_line show_nat repo indexed head changed)\<rparr>)"

definition query_digests :: "codec \<Rightarrow> (moment \<Rightarrow> world) \<Rightarrow> digest_table option" where
  "query_digests cdc w =
     read_digests cdc (wld_digests_id (w At_Digests_Before)) (wld_digests (w At_Digests)) (wld_digests_id (w At_Digests_After))"

definition digests_for :: "codec \<Rightarrow> (moment \<Rightarrow> world) \<Rightarrow> string \<Rightarrow> index_record \<Rightarrow> string list \<Rightarrow> validation + digest_table option" where
  "digests_for cdc w repo r cs =
     (if cs = [] then Inr None
      else case query_digests cdc w of
             Some t \<Rightarrow> (if dgt_generation t = frc_generation r then Inr (Some t)
                        else Inl (unknown Index_Changed (Some (index_changed_line repo))))
           | None \<Rightarrow> Inl (unknown Index_Changed (Some (index_changed_line repo))))"

definition finish ::
  "codec \<Rightarrow> (string \<Rightarrow> string) \<Rightarrow> (nat \<Rightarrow> string) \<Rightarrow> string \<Rightarrow> string option \<Rightarrow> (moment \<Rightarrow> world) \<Rightarrow> validation" where
  "finish cdc sha show_nat repo asking w =
     (case certifiable_record repo asking (wld_root_owner (w At_Owner)) (read_record cdc (wld_record (w At_Begin))) of
        Inl v \<Rightarrow> v
      | Inr r \<Rightarrow>
          (case wld_head (w At_Head) of
             None \<Rightarrow> unknown Reason_Git_Unavailable None
           | Some head \<Rightarrow>
               (case candidates_of repo (wld_status (w At_Status) (status_pathspecs r)) r of
                  Inl v \<Rightarrow> v
                | Inr cs \<Rightarrow>
                    (case digests_for cdc w repo r cs of
                       Inl v \<Rightarrow> v
                     | Inr digests \<Rightarrow>
                         (case changed_candidates sha repo w r cs digests of
                            Inl v \<Rightarrow> v
                          | Inr changed \<Rightarrow>
                              (case end_changed cdc repo w r of
                                 Some v \<Rightarrow> v
                               | None \<Rightarrow> verdict show_nat repo r head changed))))))"

section \<open>The run's side\<close>

definition map_pathspecs :: "string list \<Rightarrow> string list \<Rightarrow> string list" where
  "map_pathspecs scope prior_config_inputs =
     scope_pathspecs scope @ config_pathspecs scope @ map (\<lambda>rel. '':(literal)'' @ rel) prior_config_inputs"

text \<open>The relevant paths that were changed before the run read anything or are after it wrote everything.\<close>

definition dirty_union :: "string list \<Rightarrow> status_error + string list \<Rightarrow> status_error + string list \<Rightarrow> string list option" where
  "dirty_union scope status0 status2 =
     (case (status0, status2) of
        (Inr t0, Inr t2) \<Rightarrow> Some (sorted_set (filter (\<lambda>p. is_relevant p scope) (t0 @ t2)))
      | _ \<Rightarrow> None)"

text \<open>
  The writes of a run on the machine. An atomic rename installs the whole text at once; \<open>render_marker\<close>,
  \<open>render_record\<close> and \<open>render_digests\<close> are the serializer, \<open>i\<close> the identity of the new file.
\<close>

definition remove_state :: "world \<Rightarrow> world" where
  "remove_state w = w\<lparr>wld_record := None, wld_digests := None, wld_digests_id := None\<rparr>"

definition marker_of :: "string \<Rightarrow> string \<Rightarrow> marker" where
  "marker_of own now = \<lparr>mkr_format = RECORD_FORMAT, mkr_version = RECORD_VERSION, mkr_state = ''in-progress'',
     mkr_owner = own, mkr_started_at = now\<rparr>"

definition mark_in_progress :: "(marker \<Rightarrow> string) \<Rightarrow> string option \<Rightarrow> string \<Rightarrow> world \<Rightarrow> world" where
  "mark_in_progress render_marker own now w =
     (case own of
        Some o' \<Rightarrow> w\<lparr>wld_record := Some (render_marker (marker_of o' now))\<rparr>
      | None \<Rightarrow> remove_state w)"

definition write_digests ::
  "(raw_digests \<Rightarrow> string) \<Rightarrow> artifact_identity \<Rightarrow> string \<Rightarrow> (string \<times> string) list \<Rightarrow> world \<Rightarrow> world" where
  "write_digests render_digests i generation digests w =
     w\<lparr>wld_digests := Some (render_digests \<lparr>rdg_format = DIGESTS_FORMAT, rdg_version = DIGESTS_VERSION,
         rdg_generation = generation, rdg_files = digests\<rparr>),
       wld_digests_id := Some i\<rparr>"

text \<open>What a run knows when it publishes.\<close>

record map_session =
  mss_owner :: "string option"
  mss_generation :: string
  mss_head :: "string option"
  mss_scope :: "string list"
  mss_file_count :: nat
  mss_dirty :: "string list option"
  mss_config :: "(string \<times> string) list"

definition record_of :: "map_session \<Rightarrow> string \<Rightarrow> string \<Rightarrow> world \<Rightarrow> index_record" where
  "record_of s own now w =
     \<lparr>frc_format = RECORD_FORMAT, frc_version = RECORD_VERSION, frc_state = ''published'', frc_owner = own,
      frc_generation = mss_generation s, frc_indexed_head = mss_head s, frc_scope = mss_scope s, frc_indexed_at = now,
      frc_file_count = mss_file_count s, frc_dirty_at_map = mss_dirty s, frc_config_inputs = mss_config s,
      frc_artifacts = \<lparr>art_graph = wld_graph w, art_manifest = wld_manifest w\<rparr>\<rparr>"

definition publish :: "(index_record \<Rightarrow> string) \<Rightarrow> map_session \<Rightarrow> string \<Rightarrow> world \<Rightarrow> world" where
  "publish render_record s now w =
     (case mss_owner s of
        None \<Rightarrow> w
      | Some own \<Rightarrow> w\<lparr>wld_record := Some (render_record (record_of s own now w))\<rparr>)"

end
