(* ===== verification/WalkFacts.thy ===== *)
theory WalkFacts
  imports Walk
begin

text \<open>
  The walk and the relevance predicate agree: what a run indexes is what a later change is looked for in. The scopes
  for which they do not agree are stated too.
\<close>

section \<open>Paths of names\<close>

definition plain_name :: "string \<Rightarrow> bool" where
  "plain_name n \<longleftrightarrow> n \<noteq> [] \<and> n \<noteq> ''.'' \<and> n \<noteq> ''..'' \<and> CHR ''/'' \<notin> set n"

abbreviation joined :: "string list \<Rightarrow> string" where
  "joined \<equiv> str_join ''/''"

fun tidy :: "fs_entry \<Rightarrow> bool" where
  "tidy (Directory es) = (distinct (map fst es) \<and> list_all (\<lambda>(n, e). plain_name n \<and> tidy e) es)"
| "tidy _ = True"

lemma joined_snoc: "ns \<noteq> [] \<Longrightarrow> joined (ns @ [n]) = joined ns @ CHR ''/'' # n"
  by (induction ns rule: induct_list012) auto

lemma joined_append: "ns \<noteq> [] \<Longrightarrow> ms \<noteq> [] \<Longrightarrow> joined (ns @ ms) = joined ns @ CHR ''/'' # joined ms"
  by (induction ns rule: induct_list012) (auto simp: str_join_Cons)

lemma joined_empty: "list_all plain_name ns \<Longrightarrow> joined ns = [] \<longleftrightarrow> ns = []"
  by (cases ns rule: remdups_adj.cases) (auto simp: plain_name_def)

lemma joined_name: "list_all plain_name ns \<Longrightarrow> join_name (joined ns) n = joined (ns @ [n])"
  by (auto simp: join_name_def joined_empty joined_snoc)

lemma split_joined: "ns \<noteq> [] \<Longrightarrow> list_all plain_name ns \<Longrightarrow> str_split CHR ''/'' (joined ns) = ns"
  by (rule split_join) (auto simp: list_all_iff plain_name_def)

lemma joined_inject: "list_all plain_name ns \<Longrightarrow> list_all plain_name ms \<Longrightarrow> joined ns = joined ms \<longleftrightarrow> ns = ms"
  by (metis joined_empty split_joined)

lemma path_names_joined: "list_all plain_name ns \<Longrightarrow> path_names (joined ns) = ns"
proof (cases "ns = []")
  case False
  assume "list_all plain_name ns"
  with False show ?thesis
    by (auto simp: path_names_def split_joined plain_name_def list_all_iff intro: filter_True)
qed (simp add: path_names_def)

lemma rfind_last: "CHR ''/'' \<notin> set n \<Longrightarrow> str_rfind (p @ CHR ''/'' # n) CHR ''/'' = Some (length p)"
proof (induction p)
  case Nil
  then show ?case using str_rfind_None [of n "CHR ''/''"] by simp
qed simp

lemma rfind_joined:
  assumes "list_all plain_name (ns @ [n])"
  shows "str_rfind (joined (ns @ [n])) CHR ''/'' = (if ns = [] then None else Some (length (joined ns)))"
  using assms by (auto simp: joined_snoc rfind_last plain_name_def str_rfind_None)

lemma dir_and_name:
  assumes "list_all plain_name (ns @ [n])"
  shows "rel_dir (joined (ns @ [n])) = joined ns" "rel_name (joined (ns @ [n])) = n"
  using rfind_joined [OF assms] by (auto simp: rel_dir_def rel_name_def joined_snoc)

lemma skipped_joined: "list_all plain_name ns \<Longrightarrow> has_skipped_component (joined ns) \<longleftrightarrow> list_ex (\<lambda>n. n \<in> set SKIP_DIRS) ns"
  by (cases "ns = []") (auto simp: has_skipped_component_def split_joined SKIP_DIRS_def)

lemma tidy_at:
  assumes "tidy e" "entry_at e ns = Some x"
  shows "list_all plain_name ns \<and> tidy x"
  using assms
proof (induction e ns rule: entry_at.induct)
  case (2 es n ns)
  then obtain e where e: "map_of es n = Some e" "entry_at e ns = Some x" by (auto simp: bind_eq_Some_conv)
  from map_of_SomeD [OF e(1)] 2(2) have "plain_name n" "tidy e" by (auto simp: list_all_iff)
  with 2(1) [OF e(1) this(2)] e(2) show ?case by simp
qed auto

lemma entry_at_append: "entry_at e (ns @ ms) = Option.bind (entry_at e ns) (\<lambda>x. entry_at x ms)"
  by (induction e ns rule: entry_at.induct) (auto split: bind_split)

lemma file_has_directories:
  assumes "entry_at e (ns @ m # ms) \<noteq> None"
  shows "\<exists>es. entry_at e ns = Some (Directory es)"
  using assms by (cases "entry_at e ns") (auto simp: entry_at_append elim: entry_at.elims)

section \<open>What the walk emits\<close>

lemma all_listed_Some:
  assumes "all_listed rs = Some xs"
  shows "set xs = \<Union> (set ` {ys. Some ys \<in> set rs})" "None \<notin> set rs"
proof -
  from assms obtain yss where yss: "those rs = Some yss" "xs = concat yss" by (auto simp: all_listed_def)
  have "rs = map Some yss" using yss(1)
    by (induction rs arbitrary: yss) (auto split: option.splits)
  then show "set xs = \<Union> (set ` {ys. Some ys \<in> set rs})" "None \<notin> set rs" by (auto simp: yss(2))
qed

fun admitted :: "string list \<Rightarrow> ignored \<Rightarrow> string \<Rightarrow> string list \<Rightarrow> bool" where
  "admitted exts ig rel [] = False"
| "admitted exts ig rel [n] = (name_extension n \<in> set exts \<and> \<not> is_ignored ig (join_name rel n))"
| "admitted exts ig rel (n # m # ns) =
     (n \<notin> set SKIP_DIRS \<and> \<not> is_ignored ig (join_name rel n) \<and> admitted exts ig (join_name rel n) (m # ns))"

definition child_files :: "string list \<Rightarrow> ignored \<Rightarrow> string \<Rightarrow> string \<times> fs_entry \<Rightarrow> string list option" where
  "child_files exts ig rel p =
     (if is_directory (snd p)
      then (if fst p \<in> set SKIP_DIRS \<or> is_ignored ig (join_name rel (fst p)) then Some []
            else walk_with exts ig (join_name rel (fst p)) (snd p))
      else if snd p = Plain_File
      then Some (if name_extension (fst p) \<in> set exts \<and> \<not> is_ignored ig (join_name rel (fst p)) then [join_name rel (fst p)] else [])
      else Some [])"

lemma walk_children: "walk_with exts ig rel (Directory es) = all_listed (map (child_files exts ig rel) (sort_key fst es))"
  by (simp add: child_files_def Let_def split_beta cong: map_cong)

definition below :: "string list \<Rightarrow> ignored \<Rightarrow> string \<Rightarrow> fs_entry \<Rightarrow> string set" where
  "below exts ig rel e = {foldl join_name rel q | q. entry_at e q = Some Plain_File \<and> admitted exts ig rel q}"

definition below_child :: "string list \<Rightarrow> ignored \<Rightarrow> string \<Rightarrow> string \<times> fs_entry \<Rightarrow> string set" where
  "below_child exts ig rel p =
     {foldl join_name rel (fst p # q) | q. entry_at (snd p) q = Some Plain_File \<and> admitted exts ig rel (fst p # q)}"

lemma below_directory:
  assumes "distinct (map fst es)"
  shows "below exts ig rel (Directory es) = \<Union> (below_child exts ig rel ` set es)"
proof -
  have at: "map_of es n = Some e \<longleftrightarrow> (n, e) \<in> set es" for n e using assms by (rule map_of_eq_Some_iff)
  show ?thesis
  proof (rule set_eqI, rule iffI)
    fix x assume "x \<in> \<Union> (below_child exts ig rel ` set es)"
    then obtain n e q where *: "(n, e) \<in> set es" "x = foldl join_name rel (n # q)" "entry_at e q = Some Plain_File"
      "admitted exts ig rel (n # q)" by (auto simp: below_child_def)
    moreover have "map_of es n = Some e" using at *(1) by blast
    ultimately have "entry_at (Directory es) (n # q) = Some Plain_File" by simp
    with * show "x \<in> below exts ig rel (Directory es)" unfolding below_def by blast
  next
    fix x assume "x \<in> below exts ig rel (Directory es)"
    then obtain q where q: "x = foldl join_name rel q" "entry_at (Directory es) q = Some Plain_File" "admitted exts ig rel q"
      unfolding below_def by blast
    then obtain n ns e where e: "q = n # ns" "map_of es n = Some e" "entry_at e ns = Some Plain_File"
      by (cases q) (auto simp: bind_eq_Some_conv)
    then have "x \<in> below_child exts ig rel (n, e)" using q unfolding below_child_def by auto
    with e(2) at show "x \<in> \<Union> (below_child exts ig rel ` set es)" by blast
  qed
qed

lemma child_emits:
  assumes "child_files exts ig rel (n, e) = Some ys"
    and "\<And>zs. walk_with exts ig (join_name rel n) e = Some zs \<Longrightarrow> set zs = below exts ig (join_name rel n) e"
  shows "set ys = below_child exts ig rel (n, e)"
proof (cases "is_directory e")
  case True
  then have dir: "entry_at e [] \<noteq> Some Plain_File" by (cases e) auto
  show ?thesis
  proof (cases "n \<in> set SKIP_DIRS \<or> is_ignored ig (join_name rel n)")
    case skip: True
    have none: "\<not> (entry_at e q = Some Plain_File \<and> admitted exts ig rel (n # q))" for q
    proof (cases q)
      case Nil
      with dir show ?thesis by blast
    next
      case (Cons m ms)
      from skip show ?thesis unfolding Cons admitted.simps by blast
    qed
    have "ys = []" using assms(1) skip True unfolding child_files_def fst_conv snd_conv by simp
    moreover have "below_child exts ig rel (n, e) = {}" unfolding below_child_def fst_conv snd_conv using none by blast
    ultimately show ?thesis by simp
  next
    case False
    then have walk: "walk_with exts ig (join_name rel n) e = Some ys"
      using assms(1) True unfolding child_files_def fst_conv snd_conv by simp
    have "entry_at e q = Some Plain_File \<and> admitted exts ig rel (n # q)
        \<longleftrightarrow> entry_at e q = Some Plain_File \<and> admitted exts ig (join_name rel n) q" for q
    proof (cases q)
      case Nil
      with dir show ?thesis by blast
    next
      case (Cons m ms)
      from False show ?thesis unfolding Cons admitted.simps by blast
    qed
    then have "below_child exts ig rel (n, e) = below exts ig (join_name rel n) e"
      unfolding below_child_def below_def fst_conv snd_conv foldl.simps by blast
    with assms(2) [OF walk] show ?thesis by simp
  qed
next
  case False
  have at: "entry_at e q = Some Plain_File \<longleftrightarrow> q = [] \<and> e = Plain_File" for q
    using False by (cases e; cases q) simp_all
  show ?thesis
  proof (cases "e = Plain_File \<and> name_extension n \<in> set exts \<and> \<not> is_ignored ig (join_name rel n)")
    case True
    have "child_files exts ig rel (n, e) = Some [join_name rel n]"
      using False True unfolding child_files_def fst_conv snd_conv by simp
    moreover have "below_child exts ig rel (n, e) = {join_name rel n}"
      using True unfolding below_child_def fst_conv snd_conv at by simp
    ultimately show ?thesis using assms(1) by simp
  next
    case no: False
    have "child_files exts ig rel (n, e) = Some []"
      using False no unfolding child_files_def fst_conv snd_conv by auto
    moreover have "below_child exts ig rel (n, e) = {}"
      using no unfolding below_child_def fst_conv snd_conv at by auto
    ultimately show ?thesis using assms(1) by simp
  qed
qed

lemma listed_children:
  assumes "all_listed (map f xs) = Some files" "\<And>x ys. x \<in> set xs \<Longrightarrow> f x = Some ys \<Longrightarrow> set ys = g x"
  shows "set files = \<Union> (g ` set xs)"
proof -
  have outs: "set (map f xs) = f ` set xs" by simp
  have none: "None \<notin> f ` set xs" using all_listed_Some(2) [OF assms(1)] unfolding outs .
  have some: "\<exists>ys. f x = Some ys" if "x \<in> set xs" for x
  proof (cases "f x")
    case None
    from that have "f x \<in> f ` set xs" by (rule imageI)
    with None none show ?thesis by metis
  qed blast
  have "set files = \<Union> (set ` {ys. Some ys \<in> f ` set xs})" using all_listed_Some(1) [OF assms(1)] unfolding outs .
  also have "\<dots> = \<Union> (g ` set xs)"
  proof (intro equalityI subsetI)
    fix z assume "z \<in> \<Union> (set ` {ys. Some ys \<in> f ` set xs})"
    then obtain ys where ys: "z \<in> set ys" "Some ys \<in> f ` set xs" by blast
    from ys(2) obtain x where x: "x \<in> set xs" "f x = Some ys" by (metis imageE)
    from assms(2) [OF x] ys(1) x(1) show "z \<in> \<Union> (g ` set xs)" by blast
  next
    fix z assume "z \<in> \<Union> (g ` set xs)"
    then obtain x where x: "x \<in> set xs" "z \<in> g x" by blast
    from some [OF x(1)] obtain ys where ys: "f x = Some ys" by blast
    from assms(2) [OF x(1) ys] x(2) have "z \<in> set ys" by blast
    moreover have "Some ys \<in> f ` set xs" using imageI [OF x(1), of f] unfolding ys .
    ultimately show "z \<in> \<Union> (set ` {ys. Some ys \<in> f ` set xs})" by blast
  qed
  finally show ?thesis .
qed

lemma walk_emits: "tidy e \<Longrightarrow> walk_with exts ig rel e = Some files \<Longrightarrow> set files = below exts ig rel e"
proof (induction "size e" arbitrary: e rel files rule: less_induct)
  case less
  from less.prems(2) obtain es where e: "e = Directory es" by (cases e) auto
  have names: "distinct (map fst es)" and tidy: "\<And>n x. (n, x) \<in> set es \<Longrightarrow> tidy x"
    using less.prems(1) by (auto simp: e list_all_iff)
  have "set files = \<Union> (below_child exts ig rel ` set (sort_key fst es))"
  proof (rule listed_children)
    show "all_listed (map (child_files exts ig rel) (sort_key fst es)) = Some files"
      using less.prems(2) by (simp only: e walk_children)
    fix p ys assume p: "p \<in> set (sort_key fst es)" "child_files exts ig rel p = Some ys"
    obtain n x where nx: "p = (n, x)" by (cases p)
    with p have mem: "(n, x) \<in> set es" by simp
    have "size x < size e" using child_smaller [OF mem] by (simp add: e)
    with less.hyps tidy [OF mem] p(2) show "set ys = below_child exts ig rel p"
      unfolding nx by (intro child_emits) blast+
  qed
  then show ?case by (simp add: e below_directory [OF names])
qed

section \<open>Covered paths\<close>

lemma is_ignored_covers: "is_ignored ig p \<longleftrightarrow> covers ig p"
proof -
  have "\<not> ancestor_covered {} p" for p
    by (induction p rule: length_induct) (subst ancestor_covered.simps, auto split: option.splits dest: str_rfind_Some)
  then have "\<not> covers ig p" if "ignored_empty ig" using that by (simp add: covers_def ignored_empty_def)
  then show ?thesis by (auto simp: is_ignored_def)
qed

lemma covers_snoc:
  assumes "list_all plain_name (ns @ [n])"
  shows "covers ig (joined (ns @ [n])) \<longleftrightarrow>
    joined (ns @ [n]) \<in> ig_files ig \<union> ig_dirs ig
    \<or> ns \<noteq> [] \<and> (joined ns \<in> ig_dirs ig \<or> ancestor_covered (ig_dirs ig) (joined ns))"
proof (cases "ns = []")
  case True
  have "\<not> ancestor_covered dirs (joined (ns @ [n]))" for dirs
    using rfind_joined [OF assms] True by (subst ancestor_covered.simps) simp
  with True show ?thesis by (auto simp: covers_def)
next
  case False
  have "ancestor_covered dirs (joined (ns @ [n])) \<longleftrightarrow> joined ns \<in> dirs \<or> ancestor_covered dirs (joined ns)" for dirs
    using rfind_joined [OF assms] False by (subst ancestor_covered.simps) (simp add: joined_snoc)
  with False show ?thesis by (auto simp: covers_def)
qed

definition files_not_directories :: "ignored \<Rightarrow> fs_entry \<Rightarrow> bool" where
  "files_not_directories ig root \<longleftrightarrow>
     (\<forall>p \<in> ig_files ig. case entry_at root (path_names p) of Some e \<Rightarrow> \<not> is_directory e | None \<Rightarrow> True)"

lemma directory_covered:
  assumes "files_not_directories ig root" "list_all plain_name ns" "entry_at root ns = Some (Directory es)" "ns \<noteq> []"
  shows "covers ig (joined ns) \<longleftrightarrow> joined ns \<in> ig_dirs ig \<or> ancestor_covered (ig_dirs ig) (joined ns)"
proof -
  have "joined ns \<notin> ig_files ig"
    using assms path_names_joined [OF assms(2)] by (force simp: files_not_directories_def)
  then show ?thesis by (auto simp: covers_def)
qed

lemma covered_below:
  assumes "files_not_directories ig root" "list_all plain_name (ns @ q)" "entry_at root (ns @ q) \<noteq> None" "ns \<noteq> []"
    "covers ig (joined ns)"
  shows "covers ig (joined (ns @ q))"
  using assms(2,3)
proof (induction q rule: rev_induct)
  case Nil
  then show ?case using assms(5) by simp
next
  case (snoc n q)
  from snoc.prems(2) obtain es where es: "entry_at root (ns @ q) = Some (Directory es)"
    using file_has_directories [of root "ns @ q" n "[]"] by auto
  have plain: "list_all plain_name ((ns @ q) @ [n])" "list_all plain_name (ns @ q)" using snoc.prems(1) by auto
  have "covers ig (joined (ns @ q))" using snoc.IH plain(2) es by simp
  then have "joined (ns @ q) \<in> ig_dirs ig \<or> ancestor_covered (ig_dirs ig) (joined (ns @ q))"
    using directory_covered [OF assms(1) plain(2) es] assms(4) by simp
  then show ?case using covers_snoc [OF plain(1), of ig] assms(4) by simp
qed

lemma admitted_iff:
  assumes "files_not_directories ig root" "list_all plain_name (ns @ q)" "entry_at root (ns @ q) = Some Plain_File" "q \<noteq> []"
    "ns = [] \<or> \<not> covers ig (joined ns)"
  shows "admitted exts ig (joined ns) q \<longleftrightarrow>
    list_all (\<lambda>n. n \<notin> set SKIP_DIRS) (butlast q) \<and> name_extension (last q) \<in> set exts \<and> \<not> covers ig (joined (ns @ q))"
  using assms(2-)
proof (induction q arbitrary: ns rule: induct_list012)
  case (2 n)
  then have name: "join_name (joined ns) n = joined (ns @ [n])" by (intro joined_name) simp
  show ?case unfolding admitted.simps is_ignored_covers name by simp
next
  case (3 n m q)
  have name: "join_name (joined ns) n = joined (ns @ [n])" using 3(3) by (intro joined_name) simp
  have whole: "ns @ n # m # q = (ns @ [n]) @ m # q" by simp
  show ?case
  proof (cases "covers ig (joined (ns @ [n]))")
    case True
    have "covers ig (joined (ns @ n # m # q))"
      unfolding whole by (rule covered_below [OF assms(1)]) (use 3(3,4) True in simp_all)
    then show ?thesis unfolding admitted.simps is_ignored_covers name using True by blast
  next
    case False
    have "admitted exts ig (joined (ns @ [n])) (m # q) \<longleftrightarrow>
      list_all (\<lambda>n. n \<notin> set SKIP_DIRS) (butlast (m # q)) \<and> name_extension (last (m # q)) \<in> set exts
      \<and> \<not> covers ig (joined ((ns @ [n]) @ m # q))"
      using 3(3,4) False by (intro 3(2)) auto
    then show ?thesis unfolding admitted.simps is_ignored_covers name using False by simp
  qed
qed simp

lemma folded_names: "list_all plain_name (ns @ q) \<Longrightarrow> foldl join_name (joined ns) q = joined (ns @ q)"
proof (induction q arbitrary: ns)
  case (Cons n q)
  then have "join_name (joined ns) n = joined (ns @ [n])" by (intro joined_name) simp
  with Cons.IH [of "ns @ [n]"] Cons.prems show ?case by simp
qed simp

section \<open>Walk and relevance\<close>

text \<open>
  A scope element as a user would write it: the root, or the path of a directory the walk would enter, spelled without
  a trailing or doubled slash or a leading \<open>./\<close>.
\<close>

definition scope_element :: "string \<Rightarrow> bool" where
  "scope_element d \<longleftrightarrow>
     d = ''.'' \<or> path_names d \<noteq> [] \<and> joined (path_names d) = d
       \<and> list_all (\<lambda>n. plain_name n \<and> n \<notin> set SKIP_DIRS) (path_names d)"

lemma split_joined_append:
  "ns \<noteq> [] \<Longrightarrow> list_all plain_name ns \<Longrightarrow> str_split CHR ''/'' (joined ns @ CHR ''/'' # r) = ns @ str_split CHR ''/'' r"
  by (induction ns rule: induct_list012) (auto simp: plain_name_def split_append_sep)

lemma dot_names: "path_names ''.'' = []"
  by (simp add: path_names_def)

lemma within_element:
  assumes "scope_element d" "list_all plain_name (path_names d)" "list_all plain_name ns"
  shows "d = ''.'' \<or> joined ns = d \<or> starts_with (joined ns) (d @ ''/'') \<longleftrightarrow> (\<exists>q. ns = path_names d @ q)"
proof (cases "d = ''.''")
  case False
  let ?dn = "path_names d"
  have d: "?dn \<noteq> []" "joined ?dn = d" using assms(1) False by (auto simp: scope_element_def)
  have start: "starts_with (joined ns) (d @ ''/'') \<longleftrightarrow> (\<exists>q. q \<noteq> [] \<and> ns = ?dn @ q)"
  proof
    assume "starts_with (joined ns) (d @ ''/'')"
    then obtain r where r: "joined ns = joined ?dn @ CHR ''/'' # r"
      unfolding d(2) starts_with_def by (metis append.assoc append_Cons append_Nil append_take_drop_id)
    have "str_split CHR ''/'' (joined ?dn @ CHR ''/'' # r) = ?dn @ str_split CHR ''/'' r"
      by (rule split_joined_append [OF d(1) assms(2)])
    moreover have "ns \<noteq> []" using r by auto
    ultimately have "ns = ?dn @ str_split CHR ''/'' r" using split_joined [OF _ assms(3)] r by simp
    then show "\<exists>q. q \<noteq> [] \<and> ns = ?dn @ q" using str_split_not_Nil by blast
  next
    assume "\<exists>q. q \<noteq> [] \<and> ns = ?dn @ q"
    then obtain q where "q \<noteq> []" "ns = ?dn @ q" by blast
    then have "joined ns = (d @ ''/'') @ joined q" using joined_append [OF d(1)] d(2) by simp
    then show "starts_with (joined ns) (d @ ''/'')" by (simp add: starts_with_def)
  qed
  have "joined ns = d \<longleftrightarrow> ns = ?dn" using joined_inject [OF assms(3,2)] d(2) by simp
  with start False show ?thesis by auto
qed (simp add: dot_names)

definition emitted_names :: "fs_entry \<Rightarrow> ignored \<Rightarrow> string list \<Rightarrow> bool" where
  "emitted_names root ig ns \<longleftrightarrow>
     ns \<noteq> [] \<and> entry_at root ns = Some Plain_File \<and> list_all (\<lambda>n. n \<notin> set SKIP_DIRS) (butlast ns)
     \<and> name_extension (last ns) \<in> set SOURCE_EXT \<and> \<not> covers ig (joined ns)"

definition element_files :: "fs_entry \<Rightarrow> ignored \<Rightarrow> string \<Rightarrow> string list option" where
  "element_files root ig d =
     (if d \<noteq> ''.'' \<and> covers ig d then Some []
      else case entry_at root (path_names d) of
             None \<Rightarrow> Some []
           | Some e \<Rightarrow> walk_with SOURCE_EXT ig (joined (path_names d)) e)"

lemma same_images:
  assumes "\<And>q. P q \<and> Q q \<longleftrightarrow> R q" "\<And>q. P q \<Longrightarrow> f q = g q"
  shows "{f q | q. P q \<and> Q q} = {g q | q. R q}"
  using assms by metis

lemma element_listed:
  assumes tidy: "tidy root" and elem: "scope_element d" and files: "files_not_directories ig root"
    and ys: "element_files root ig d = Some ys"
  shows "set ys = {joined ns | ns. (\<exists>q. ns = path_names d @ q) \<and> emitted_names root ig ns}"
proof -
  let ?dn = "path_names d"
  have d: "d = ''.'' \<and> ?dn = [] \<or> d \<noteq> ''.'' \<and> ?dn \<noteq> [] \<and> joined ?dn = d"
    using elem by (auto simp: scope_element_def dot_names)
  have noskip: "list_all (\<lambda>n. n \<notin> set SKIP_DIRS) ?dn" using elem by (auto simp: scope_element_def dot_names list_all_iff)
  show ?thesis
  proof (cases "d \<noteq> ''.'' \<and> covers ig d")
    case True
    have "\<not> emitted_names root ig (?dn @ q)" for q
    proof
      assume e: "emitted_names root ig (?dn @ q)"
      then have at_file: "entry_at root (?dn @ q) = Some Plain_File" by (simp add: emitted_names_def)
      have "covers ig (joined (?dn @ q))"
        by (rule covered_below [OF files]) (use True d tidy_at [OF tidy at_file] at_file in simp_all)
      with e show False by (simp add: emitted_names_def)
    qed
    moreover have "ys = []" using ys True by (simp add: element_files_def)
    ultimately show ?thesis by auto
  next
    case False
    show ?thesis
    proof (cases "entry_at root ?dn")
      case None
      have "\<not> emitted_names root ig (?dn @ q)" for q using None by (simp add: emitted_names_def entry_at_append)
      moreover have "ys = []" using ys None False by (simp add: element_files_def)
      ultimately show ?thesis by auto
    next
      case (Some e)
      have walk: "walk_with SOURCE_EXT ig (joined ?dn) e = Some ys" using ys Some False by (simp add: element_files_def)
      have dir: "e \<noteq> Plain_File" using walk by auto
      note e = tidy_at [OF tidy Some]
      have clear: "?dn = [] \<or> \<not> covers ig (joined ?dn)" using d False by auto
      have adm: "entry_at e q = Some Plain_File \<and> admitted SOURCE_EXT ig (joined ?dn) q \<longleftrightarrow> emitted_names root ig (?dn @ q)"
        for q
      proof (cases "q \<noteq> [] \<and> entry_at e q = Some Plain_File")
        case True
        then have at_file: "entry_at root (?dn @ q) = Some Plain_File" using Some by (simp add: entry_at_append)
        have "list_all (\<lambda>n. n \<notin> set SKIP_DIRS) (butlast (?dn @ q)) \<longleftrightarrow> list_all (\<lambda>n. n \<notin> set SKIP_DIRS) (butlast q)"
          using noskip True by (simp add: butlast_append)
        moreover have "admitted SOURCE_EXT ig (joined ?dn) q \<longleftrightarrow>
          list_all (\<lambda>n. n \<notin> set SKIP_DIRS) (butlast q) \<and> name_extension (last q) \<in> set SOURCE_EXT \<and> \<not> covers ig (joined (?dn @ q))"
          by (rule admitted_iff [OF files conjunct1 [OF tidy_at [OF tidy at_file]] at_file conjunct1 [OF True] clear])
        ultimately show ?thesis using True at_file by (simp add: emitted_names_def)
      next
        case no: False
        show ?thesis
        proof (cases "q = []")
          case True
          then show ?thesis using dir Some by (simp add: emitted_names_def)
        next
          case False
          with no have "entry_at e q \<noteq> Some Plain_File" by blast
          then show ?thesis using Some by (simp add: emitted_names_def entry_at_append)
        qed
      qed
      have paths: "foldl join_name (joined ?dn) q = joined (?dn @ q)" if "entry_at e q = Some Plain_File" for q
      proof -
        have "entry_at root (?dn @ q) = Some Plain_File" using Some that by (simp add: entry_at_append)
        then show ?thesis using tidy_at [OF tidy] by (blast intro: folded_names)
      qed
      have "set ys = {foldl join_name (joined ?dn) q | q. entry_at e q = Some Plain_File \<and> admitted SOURCE_EXT ig (joined ?dn) q}"
        using walk_emits [OF conjunct2 [OF e] walk] unfolding below_def .
      also have "\<dots> = {joined (?dn @ q) | q. emitted_names root ig (?dn @ q)}"
        by (rule same_images [OF adm paths])
      also have "\<dots> = {joined ns | ns. (\<exists>q. ns = ?dn @ q) \<and> emitted_names root ig ns}" by blast
      finally show ?thesis .
    qed
  qed
qed

lemma indexed_names:
  assumes "list_all plain_name (ns @ [n])"
  shows "is_indexed_path (joined (ns @ [n])) scope \<longleftrightarrow>
    is_within_scope (joined (ns @ [n])) scope \<and> list_all (\<lambda>n. n \<notin> set SKIP_DIRS) ns \<and> name_extension n \<in> set SOURCE_EXT"
proof -
  have "list_all plain_name ns" using assms by simp
  then have "has_skipped_component (joined ns) \<longleftrightarrow> \<not> list_all (\<lambda>n. n \<notin> set SKIP_DIRS) ns"
    by (auto simp: skipped_joined list_ex_iff list_all_iff)
  moreover have "joined (ns @ [n]) \<noteq> []" using joined_empty [OF assms] by simp
  ultimately show ?thesis unfolding is_indexed_path_def dir_and_name [OF assms] by blast
qed

text \<open>
  C38. The walk of a run and the relevance test of a later query speak of the same files, for a scope written in normal
  form: each element is \<open>.\<close> or a path of plain names without a trailing slash, a leading \<open>./\<close> or a
  name among the skipped directories. Then, on a tree whose names are plain and with no directory among the ignored
  files, a walk that succeeds lists exactly the files of the tree that the predicate calls indexed and Git does not
  ignore. For other scopes the sentence of \<open>relevance.rs\<close> that an indexed path is exactly a file the walk hands
  to \<open>map\<close> is false: \<open>trailing_slash_scope_sees_nothing\<close> and \<open>skipped_scope_sees_nothing\<close> below.
\<close>

theorem walk_lists_indexed_paths:
  assumes "tidy root" "list_all scope_element scope" "files_not_directories ig root"
    "list_source_files root scope ig = Some files"
  shows "set files =
    {joined ns | ns. entry_at root ns = Some Plain_File \<and> is_indexed_path (joined ns) scope \<and> \<not> covers ig (joined ns)}"
proof -
  have "all_listed (map (element_files root ig) scope) = Some files"
    using assms(4) by (simp add: list_source_files_def list_files_with_ext_def element_files_def [abs_def])
  then have files: "set files = \<Union> ((\<lambda>d. {joined ns | ns. (\<exists>q. ns = path_names d @ q) \<and> emitted_names root ig ns}) ` set scope)"
  proof (rule listed_children)
    fix d ys assume "d \<in> set scope" "element_files root ig d = Some ys"
    then show "set ys = {joined ns | ns. (\<exists>q. ns = path_names d @ q) \<and> emitted_names root ig ns}"
      by (intro element_listed [OF assms(1) _ assms(3)]) (use assms(2) in \<open>simp_all add: list_all_iff\<close>)
  qed
  have same: "emitted_names root ig ns \<and> (\<exists>d \<in> set scope. \<exists>q. ns = path_names d @ q)
    \<longleftrightarrow> entry_at root ns = Some Plain_File \<and> is_indexed_path (joined ns) scope \<and> \<not> covers ig (joined ns)" for ns
  proof (cases "entry_at root ns = Some Plain_File \<and> ns \<noteq> []")
    case True
    then have plain: "list_all plain_name ns" using tidy_at [OF assms(1)] by blast
    obtain ms m where ns: "ns = ms @ [m]" using True by (cases ns rule: rev_cases) auto
    have "is_within_scope (joined ns) scope \<longleftrightarrow> (\<exists>d \<in> set scope. \<exists>q. ns = path_names d @ q)"
    proof -
      have "d = ''.'' \<or> joined ns = d \<or> starts_with (joined ns) (d @ ''/'') \<longleftrightarrow> (\<exists>q. ns = path_names d @ q)" if "d \<in> set scope" for d
      proof (rule within_element [OF _ _ plain])
        show elem: "scope_element d" using assms(2) that by (simp add: list_all_iff)
        then show "list_all plain_name (path_names d)" by (auto simp: scope_element_def dot_names list_all_iff)
      qed
      then show ?thesis by (auto simp: is_within_scope_def list_ex_iff)
    qed
    then have within: "(\<exists>d \<in> set scope. \<exists>q. ns = path_names d @ q) \<longleftrightarrow> is_within_scope (joined ns) scope" by blast
    have "butlast ns = ms" "last ns = m" by (simp_all add: ns)
    then show ?thesis
      using True indexed_names [OF plain [unfolded ns], of scope] unfolding emitted_names_def within by (simp add: ns) blast
  next
    case False
    have "\<not> is_indexed_path (joined []) scope" by (simp add: is_indexed_path_def)
    with False show ?thesis unfolding emitted_names_def by blast
  qed
  show ?thesis unfolding files same [symmetric] by blast
qed

definition sample_tree :: fs_entry where
  "sample_tree = Directory
     [(''src'', Directory [(''b.cs'', Plain_File), (''a.cs'', Plain_File), (''bin'', Directory [(''x.cs'', Plain_File)]),
        (''gen'', Directory [(''g.ts'', Plain_File)]), (''notes.txt'', Plain_File)]),
      (''README.md'', Plain_File), (''lib'', Other_Entry)]"

theorem walk_lists_indexed_paths_witness:
  "set [''src/a.cs'', ''src/b.cs''] =
    {joined ns | ns. entry_at sample_tree ns = Some Plain_File \<and> is_indexed_path (joined ns) [''src'']
       \<and> \<not> covers \<lparr>ig_dirs = {''src/gen''}, ig_files = {''src/notes.txt''}\<rparr> (joined ns)}"
proof (rule walk_lists_indexed_paths)
  show "tidy sample_tree" by code_simp
  show "list_all scope_element [''src'']" by code_simp
  show "files_not_directories \<lparr>ig_dirs = {''src/gen''}, ig_files = {''src/notes.txt''}\<rparr> sample_tree" by code_simp
  show "list_source_files sample_tree [''src''] \<lparr>ig_dirs = {''src/gen''}, ig_files = {''src/notes.txt''}\<rparr> = Some [''src/a.cs'', ''src/b.cs'']"
    by code_simp
qed

text \<open>
  A scope element with a trailing slash, as a shell completes it, is walked, but no path is within it: nothing that
  changes below it is looked for.
\<close>

theorem trailing_slash_scope_sees_nothing:
  "list_source_files sample_tree [''src/''] no_ignored = Some [''src/a.cs'', ''src/b.cs'', ''src/gen/g.ts'']
    \<and> \<not> is_within_scope ''src/a.cs'' [''src/'']"
  by code_simp

text \<open>A scope named like a skipped directory is walked, but no path in it is an indexed path.\<close>

theorem skipped_scope_sees_nothing:
  "list_source_files sample_tree [''src/bin''] no_ignored = Some [''src/bin/x.cs'']
    \<and> \<not> is_indexed_path ''src/bin/x.cs'' [''src/bin'']"
  by code_simp

end
