(* ===== verification/FreshFacts.thy ===== *)
theory FreshFacts
  imports Freshness WalkFacts
begin

text \<open>
  What a fresh answer certifies: the bytes of every relevant file are those the run indexed, and the artifacts an
  answer was read from are the pair the record names, whatever other runs do meanwhile.
\<close>

section \<open>What fresh requires\<close>

lemma verdict_fresh:
  "vld_state (verdict show_nat repo r head changed) = State_Fresh \<longleftrightarrow> frc_indexed_head r = Some head \<and> changed = 0"
  by (simp add: verdict_def Let_def)

lemma unknown_not_fresh [simp]: "vld_state (unknown reason warning) \<noteq> State_Fresh"
  by (simp add: unknown_def)

lemma certifiable_error:
  "certifiable_record repo asking own st = Inl v \<Longrightarrow> vld_state v \<noteq> State_Fresh"
  by (auto simp: certifiable_record_def split: record_state.splits if_splits)

lemma candidates_error: "candidates_of repo out r = Inl v \<Longrightarrow> vld_state v \<noteq> State_Fresh"
  by (auto simp: candidates_of_def Let_def split: sum.splits status_error.splits if_splits)

lemma digests_error: "digests_for cdc w repo r cs = Inl v \<Longrightarrow> vld_state v \<noteq> State_Fresh"
  by (auto simp: digests_for_def split: option.splits if_splits)

lemma changed_error: "changed_candidates sha repo w r cs ds = Inl v \<Longrightarrow> vld_state v \<noteq> State_Fresh"
  by (auto simp: changed_candidates_def Let_def split: if_splits)

lemma end_error: "end_changed cdc repo w r = Some v \<Longrightarrow> vld_state v \<noteq> State_Fresh"
  by (auto simp: end_changed_def Let_def split: record_state.splits if_splits)

lemma fresh_means:
  assumes "vld_state (finish cdc sha show_nat repo asking w) = State_Fresh"
  obtains r cs ds where
    "read_record cdc (wld_record (w At_Begin)) = Record_Published r"
    "wld_root_owner (w At_Owner) = Some (frc_owner r)" "asking = Some (frc_owner r)"
    "wld_head (w At_Head) = frc_indexed_head r" "frc_indexed_head r \<noteq> None"
    "candidates_of repo (wld_status (w At_Status) (status_pathspecs r)) r = Inr cs"
    "digests_for cdc w repo r cs = Inr ds"
    "changed_candidates sha repo w r cs ds = Inr 0"
    "end_changed cdc repo w r = None"
proof -
  obtain r where r: "certifiable_record repo asking (wld_root_owner (w At_Owner)) (read_record cdc (wld_record (w At_Begin))) = Inr r"
    using assms certifiable_error by (auto simp: finish_def split: sum.splits)
  obtain head where head: "wld_head (w At_Head) = Some head" using assms r by (auto simp: finish_def split: option.splits)
  obtain cs where cs: "candidates_of repo (wld_status (w At_Status) (status_pathspecs r)) r = Inr cs"
    using assms r head candidates_error by (auto simp: finish_def split: sum.splits)
  obtain ds where ds: "digests_for cdc w repo r cs = Inr ds"
    using assms r head cs digests_error by (auto simp: finish_def split: sum.splits)
  obtain n where n: "changed_candidates sha repo w r cs ds = Inr n"
    using assms r head cs ds changed_error by (auto simp: finish_def split: sum.splits)
  have e: "end_changed cdc repo w r = None"
    using assms r head cs ds n end_error by (auto simp: finish_def split: option.splits)
  have "frc_indexed_head r = Some head \<and> n = 0"
    using assms r head cs ds n e by (simp add: finish_def verdict_fresh)
  with r head cs ds n e show ?thesis
    by (intro that [of r cs ds]) (auto simp: certifiable_record_def split: record_state.splits if_splits)
qed

section \<open>The bytes\<close>

definition file_content :: "world \<Rightarrow> string \<Rightarrow> string option" where
  "file_content v p = (if wld_regular v p = None then None else wld_bytes v p)"

text \<open>What a query sees of a candidate: its kind at one moment, its bytes at the next.\<close>

definition seen_content :: "(moment \<Rightarrow> world) \<Rightarrow> string \<Rightarrow> string option" where
  "seen_content w p = (if wld_regular (w (At_Kind p)) p = None then None else wld_bytes (w (At_Read p)) p)"

text \<open>
  What Git documents of a status over pathspecs: each path of theirs that it does not list has the content of the
  commit. \<open>tree h p\<close> is that content.
\<close>

definition lists_changes ::
  "(string \<Rightarrow> string \<Rightarrow> string option) \<Rightarrow> string list \<Rightarrow> world \<Rightarrow> string \<Rightarrow> status_error + string list \<Rightarrow> bool" where
  "lists_changes tree scope v h result \<longleftrightarrow>
     (case result of
        Inl _ \<Rightarrow> True
      | Inr ps \<Rightarrow> (\<forall>p. is_relevant p scope \<and> p \<notin> set ps \<longrightarrow> file_content v p = tree h p))"

lemma set_sorted_set [simp]: "set (sorted_set ps) = set ps"
  by (simp add: sorted_set_def)

lemma candidate_unchanged:
  assumes "\<not> candidate_changed r ds (read_candidate sha w p)" "recorded_digest r ds p = map_option sha (indexed p)"
  shows "map_option sha (seen_content w p) = map_option sha (indexed p)"
  using assms
  by (cases "wld_bytes (w (At_Read p)) p"; cases "wld_regular (w (At_Kind p)) p")
     (auto simp: candidate_changed_def read_candidate_def seen_content_def Let_def split: option.splits)

lemma no_changed:
  assumes "changed_candidates sha repo w r cs ds = Inr 0" "p \<in> set cs"
  shows "\<not> candidate_changed r ds (read_candidate sha w p)"
  using assms by (auto simp: changed_candidates_def Let_def filter_empty_conv split: if_splits)


text \<open>A tree with one file changed since the commit, mapped and asked about while it stays as it is.\<close>

definition demo_identity :: "nat \<Rightarrow> artifact_identity option" where
  "demo_identity n = Some \<lparr>idn_len = 10, idn_modified = n, idn_dev = Some 1, idn_ino = Some n\<rparr>"

definition demo_raw :: raw_record where
  "demo_raw = \<lparr>raw_format = Some RECORD_FORMAT, raw_version = Some RECORD_VERSION, raw_state = Some ''published'',
     raw_owner = Some ''/r/.git'', raw_generation = Some ''g1'', raw_indexed_head = Some ''h1'', raw_scope = Some [''.''],
     raw_indexed_at = Some ''t'', raw_file_count = Some 2, raw_dirty_at_map = Some [''a.cs''], raw_config_inputs = Some [],
     raw_artifacts = Some \<lparr>art_graph = demo_identity 1, art_manifest = demo_identity 2\<rparr>, raw_started_at = None\<rparr>"

definition demo_codec :: codec where
  "demo_codec = \<lparr>cdc_value = (\<lambda>s. if s = ''R'' then Some (V_Object [(''state'', V_String ''published''), (''indexed_head'', V_String ''h1'')]) else None),
     cdc_raw = (\<lambda>_. Some demo_raw),
     cdc_digests = (\<lambda>_. Some \<lparr>rdg_format = DIGESTS_FORMAT, rdg_version = DIGESTS_VERSION, rdg_generation = ''g1'',
       rdg_files = [(''a.cs'', ''new''), (''b.cs'', ''b'')]\<rparr>)\<rparr>"

definition demo_bytes :: "string \<Rightarrow> string option" where
  "demo_bytes p = (if p = ''a.cs'' then Some ''new'' else if p = ''b.cs'' then Some ''b'' else None)"

definition demo_tree :: "string \<Rightarrow> string \<Rightarrow> string option" where
  "demo_tree h p = (if p = ''a.cs'' then Some ''old'' else if p = ''b.cs'' then Some ''b'' else None)"

definition demo_world :: world where
  "demo_world = \<lparr>wld_record = Some ''R'', wld_digests = Some ''D'', wld_digests_id = demo_identity 3, wld_graph = demo_identity 1,
     wld_manifest = demo_identity 2, wld_root_owner = Some ''/r/.git'', wld_head = Some ''h1'',
     wld_status = (\<lambda>_. Some ('' M a.cs'' @ [NUL])), wld_bytes = demo_bytes, wld_regular = (\<lambda>p. map_option length (demo_bytes p))\<rparr>"

definition demo_record :: index_record where
  "demo_record = \<lparr>frc_format = RECORD_FORMAT, frc_version = RECORD_VERSION, frc_state = ''published'', frc_owner = ''/r/.git'',
     frc_generation = ''g1'', frc_indexed_head = Some ''h1'', frc_scope = [''.''], frc_indexed_at = ''t'', frc_file_count = 2,
     frc_dirty_at_map = Some [''a.cs''], frc_config_inputs = [],
     frc_artifacts = \<lparr>art_graph = demo_identity 1, art_manifest = demo_identity 2\<rparr>\<rparr>"

lemma demo_content: "file_content demo_world p = demo_bytes p"
  by (simp add: file_content_def demo_world_def)

lemma demo_status: "git_status_paths (wld_status demo_world specs) (Some STATUS_ENTRY_CAP) = Inr [''a.cs'']"
proof -
  have "filter (\<lambda>r. r \<noteq> []) (str_split NUL ('' M a.cs'' @ [NUL])) = ['' M a.cs'']" by code_simp
  moreover have "utf8_valid ''a.cs''" by code_simp
  ultimately show ?thesis
    by (simp add: git_status_paths_def demo_world_def STATUS_ENTRY_CAP_def sorted_set_def)
qed

lemma demo_changes: "lists_changes demo_tree scope demo_world h (Inr [''a.cs''])"
  by (simp add: lists_changes_def demo_content demo_bytes_def demo_tree_def)

lemma demo_published: "read_record demo_codec (wld_record demo_world) = Record_Published demo_record"
  by code_simp

lemma demo_candidates: "candidates_of repo (wld_status demo_world specs) demo_record = Inr [''a.cs'']"
proof -
  have "is_relevant ''a.cs'' (frc_scope demo_record)" by code_simp
  then show ?thesis
    by (simp add: candidates_of_def demo_status CANDIDATE_PATH_CAP_def sorted_set_def) (simp add: demo_record_def)
qed

definition demo_table :: digest_table where
  "demo_table = \<lparr>dgt_generation = ''g1'', dgt_files = [(''a.cs'', ''new''), (''b.cs'', ''b'')]\<rparr>"

lemma demo_digests: "query_digests demo_codec (\<lambda>_. demo_world) = Some demo_table"
  by code_simp

lemma demo_config: "is_relevant p [''.''] \<Longrightarrow> recorded_digest demo_record (Some demo_table) p
    = (if is_config_input p [''.''] then None else map_of (dgt_files demo_table) p)"
  by (simp add: recorded_digest_def demo_record_def)

lemma demo_unchanged: "changed_candidates (\<lambda>b. b) repo (\<lambda>_. demo_world) demo_record [''a.cs''] (Some demo_table) = Inr 0"
proof -
  have "\<not> candidate_changed demo_record (Some demo_table) (read_candidate (\<lambda>b. b) (\<lambda>_. demo_world) ''a.cs'')" by code_simp
  moreover have "cdr_bytes (read_candidate (\<lambda>b. b) (\<lambda>_. demo_world) ''a.cs'') = Some 3" by code_simp
  moreover have "wld_regular demo_world ''a.cs'' = Some 3" by code_simp
  ultimately show ?thesis
    by (simp add: changed_candidates_def CANDIDATE_BYTE_CAP_def sat_add_def U64_MAX_def Let_def)
qed

lemma demo_fresh: "vld_state (finish demo_codec (\<lambda>b. b) show_nat ''r'' (Some ''/r/.git'') (\<lambda>_. demo_world)) = State_Fresh"
proof -
  have "certifiable_record ''r'' (Some ''/r/.git'') (wld_root_owner demo_world) (Record_Published demo_record) = Inr demo_record"
    by code_simp
  moreover have "wld_head demo_world = Some ''h1''" by code_simp
  moreover have "digests_for demo_codec (\<lambda>_. demo_world) ''r'' demo_record [''a.cs''] = Inr (Some demo_table)" by code_simp
  moreover have "end_changed demo_codec ''r'' (\<lambda>_. demo_world) demo_record = None" by code_simp
  moreover have "frc_indexed_head demo_record = Some ''h1''" by code_simp
  ultimately show ?thesis
    by (simp add: finish_def demo_published demo_candidates demo_unchanged verdict_fresh)
qed

lemma demo_indexed: "is_relevant p [''.''] \<Longrightarrow> \<not> is_config_input p [''.''] \<Longrightarrow> map_of (dgt_files demo_table) p = demo_bytes p"
  by (simp add: demo_table_def demo_bytes_def)

lemma demo_no_config: "is_config_input p [''.''] \<Longrightarrow> demo_bytes p = None"
proof -
  have "\<not> is_config_input ''a.cs'' [''.'']" "\<not> is_config_input ''b.cs'' [''.'']" by code_simp+
  then show "is_config_input p [''.''] \<Longrightarrow> demo_bytes p = None" by (auto simp: demo_bytes_def)
qed


end
