(* ===== verification/FreshTrace.thy ===== *)
theory FreshTrace
  imports FreshFacts
begin

text \<open>
  Queries among running maps. The steps of any number of runs on one index, in any order, with anything else that may
  happen to the machine between them; the state carries the identities files have had so far.
\<close>

inductive run_step :: "codec \<Rightarrow> world \<times> artifact_identity set \<Rightarrow> world \<times> artifact_identity set \<Rightarrow> bool" for cdc where
  marks: "(case read_record cdc (wld_record (mark_in_progress render own now w)) of Record_Published _ \<Rightarrow> False | _ \<Rightarrow> True)
    \<Longrightarrow> run_step cdc (w, used) (mark_in_progress render own now w, used)"
| writes_manifest: "i \<notin> used \<Longrightarrow> run_step cdc (w, used) (w\<lparr>wld_manifest := Some i\<rparr>, insert i used)"
| writes_graph: "i \<notin> used \<Longrightarrow> run_step cdc (w, used) (w\<lparr>wld_graph := Some i\<rparr>, insert i used)"
| writes_digests: "run_step cdc (w, used) (write_digests render i generation digests w, used)"
| publishes: "mss_owner s = Some own \<Longrightarrow>
    read_record cdc (wld_record (publish render s now w)) \<in> {Record_Published (record_of s own now w), Record_Uncertifiable}
    \<Longrightarrow> run_step cdc (w, used) (publish render s now w, used)"
| others: "wld_record v = wld_record w \<Longrightarrow> wld_graph v = wld_graph w \<Longrightarrow> wld_manifest v = wld_manifest w
    \<Longrightarrow> run_step cdc (w, used) (v, used)"

inductive_cases run_stepE: "run_step cdc a b"

definition used_ids :: "codec \<Rightarrow> world \<times> artifact_identity set \<Rightarrow> bool" where
  "used_ids cdc st \<longleftrightarrow>
     set_option (wld_graph (fst st)) \<subseteq> snd st \<and> set_option (wld_manifest (fst st)) \<subseteq> snd st
     \<and> (case read_record cdc (wld_record (fst st)) of
          Record_Published r \<Rightarrow>
            set_option (art_graph (frc_artifacts r)) \<subseteq> snd st \<and> set_option (art_manifest (frc_artifacts r)) \<subseteq> snd st
        | _ \<Rightarrow> True)"

lemma kept_by_mark [simp]:
  "wld_graph (mark_in_progress render own now w) = wld_graph w"
  "wld_manifest (mark_in_progress render own now w) = wld_manifest w"
  by (auto simp: mark_in_progress_def remove_state_def split: option.split)

lemma kept_by_digests [simp]:
  "wld_graph (write_digests render i g ds w) = wld_graph w"
  "wld_manifest (write_digests render i g ds w) = wld_manifest w"
  "wld_record (write_digests render i g ds w) = wld_record w"
  by (simp_all add: write_digests_def)

lemma kept_by_publish [simp]:
  "wld_graph (publish render s now w) = wld_graph w"
  "wld_manifest (publish render s now w) = wld_manifest w"
  by (auto simp: publish_def split: option.split)

lemma used_ids_step: "run_step cdc a b \<Longrightarrow> used_ids cdc a \<Longrightarrow> used_ids cdc b"
  by (erule run_stepE) (auto simp: used_ids_def record_of_def split: record_state.splits)

lemma used_grows: "run_step cdc a b \<Longrightarrow> snd a \<subseteq> snd b"
  by (erule run_stepE) auto

text \<open>An identity that is gone does not come back, and a file that is there stays there.\<close>

lemma graph_gone_step: "run_step cdc a b \<Longrightarrow> set_option g \<subseteq> snd a \<Longrightarrow> wld_graph (fst a) \<noteq> g \<Longrightarrow> wld_graph (fst b) \<noteq> g"
  by (erule run_stepE) auto

lemma manifest_gone_step:
  "run_step cdc a b \<Longrightarrow> set_option g \<subseteq> snd a \<Longrightarrow> wld_manifest (fst a) \<noteq> g \<Longrightarrow> wld_manifest (fst b) \<noteq> g"
  by (erule run_stepE) auto

lemma stays_on_trace:
  assumes "\<And>n. P (f n) \<Longrightarrow> P (f (Suc n))" "P (f (a :: nat))" "a \<le> b"
  shows "P (f b)"
  using assms(3) by (induction rule: dec_induct) (use assms(1,2) in auto)

lemma used_on_trace: "\<forall>n. run_step cdc (f n) (f (Suc n)) \<Longrightarrow> a \<le> b \<Longrightarrow> snd (f a) \<subseteq> snd (f b)"
  using stays_on_trace [of "\<lambda>st. snd (f a) \<subseteq> snd st" f a b] used_grows by (meson order.trans order_refl)

lemma unchanged_between:
  assumes "\<And>n. set_option g \<subseteq> snd (f n) \<Longrightarrow> fld (fst (f n)) \<noteq> g \<Longrightarrow> fld (fst (f (Suc n))) \<noteq> g"
    and "\<forall>n. run_step cdc (f n) (f (Suc n))" "set_option g \<subseteq> snd (f a)" "fld (fst (f b)) = g" "a \<le> t" "t \<le> b"
  shows "fld (fst (f t)) = g"
proof (rule ccontr)
  assume gone: "fld (fst (f t)) \<noteq> g"
  have used: "set_option g \<subseteq> snd (f t)" using used_on_trace [OF assms(2,5)] assms(3) by blast
  have "set_option g \<subseteq> snd (f b) \<and> fld (fst (f b)) \<noteq> g"
    by (rule stays_on_trace [of "\<lambda>st. set_option g \<subseteq> snd st \<and> fld (fst st) \<noteq> g" f t b])
       (use used gone assms(1,2,6) used_grows in \<open>blast+\<close>)
  with assms(4) show False by blast
qed

lemma end_unchanged:
  "end_changed cdc repo w r = None \<Longrightarrow>
    wld_graph (w At_Graph) = art_graph (frc_artifacts r) \<and> wld_manifest (w At_Manifest) = art_manifest (frc_artifacts r)"
  by (auto simp: end_changed_def Let_def split: record_state.splits if_splits)

text \<open>
  C4. A fresh answer was read from the artifacts its record certifies. However many runs mark, write and publish while
  a query is under way, with or without the lock between them, a query that answers fresh had, from its first read of
  the record to its last look at an artifact, the very graph and manifest under it that this record names: an index
  that was replaced in between is never called fresh.
\<close>

theorem fresh_answer_certified:
  assumes trace: "\<forall>n. run_step cdc (f n) (f (Suc n))" "used_ids cdc (f 0)"
    and moments: "\<And>m. w m = fst (f (time m))" "time At_Begin \<le> time At_Graph" "time At_Begin \<le> time At_Manifest"
    and fresh: "vld_state (finish cdc sha show_nat repo asking w) = State_Fresh"
  shows "\<exists>r. read_record cdc (wld_record (w At_Begin)) = Record_Published r
    \<and> (\<forall>t \<in> {time At_Begin..time At_Graph}. wld_graph (fst (f t)) = art_graph (frc_artifacts r))
    \<and> (\<forall>t \<in> {time At_Begin..time At_Manifest}. wld_manifest (fst (f t)) = art_manifest (frc_artifacts r))"
proof -
  from fresh obtain r where r: "read_record cdc (wld_record (w At_Begin)) = Record_Published r"
    and e: "end_changed cdc repo w r = None" by (rule fresh_means)
  have "used_ids cdc (f (time At_Begin))"
    by (rule stays_on_trace [of _ f 0]) (use trace used_ids_step in \<open>blast+\<close>)
  then have used: "set_option (art_graph (frc_artifacts r)) \<subseteq> snd (f (time At_Begin))"
    "set_option (art_manifest (frc_artifacts r)) \<subseteq> snd (f (time At_Begin))"
    using r by (auto simp: used_ids_def moments(1))
  have ends: "wld_graph (fst (f (time At_Graph))) = art_graph (frc_artifacts r)"
    "wld_manifest (fst (f (time At_Manifest))) = art_manifest (frc_artifacts r)"
    using end_unchanged [OF e] by (simp_all add: moments(1))
  have "wld_graph (fst (f t)) = art_graph (frc_artifacts r)" if "t \<in> {time At_Begin..time At_Graph}" for t
    by (rule unchanged_between [where fld = wld_graph and f = f and cdc = cdc and a = "time At_Begin" and b = "time At_Graph"])
       (use that trace(1) used(1) ends(1) graph_gone_step in \<open>simp_all, blast?\<close>)
  moreover have "wld_manifest (fst (f t)) = art_manifest (frc_artifacts r)" if "t \<in> {time At_Begin..time At_Manifest}" for t
    by (rule unchanged_between [where fld = wld_manifest and f = f and cdc = cdc and a = "time At_Begin" and b = "time At_Manifest"])
       (use that trace(1) used(2) ends(2) manifest_gone_step in \<open>simp_all, blast?\<close>)
  ultimately show ?thesis using r by blast
qed

text \<open>A first map of a tree, then a query.\<close>

definition unmapped_world :: world where
  "unmapped_world = demo_world\<lparr>wld_record := None, wld_graph := None, wld_manifest := None\<rparr>"

definition demo_session :: map_session where
  "demo_session = \<lparr>mss_owner = Some ''/r/.git'', mss_generation = ''g1'', mss_head = Some ''h1'', mss_scope = [''.''],
     mss_file_count = 2, mss_dirty = Some [''a.cs''], mss_config = []\<rparr>"

definition demo_states :: "(world \<times> artifact_identity set) list" where
  "demo_states =
     (let i = the (demo_identity 1); j = the (demo_identity 2);
          w1 = mark_in_progress (\<lambda>_. ''M'') (Some ''/r/.git'') ''t'' unmapped_world;
          w2 = w1\<lparr>wld_manifest := Some j\<rparr>; w3 = w2\<lparr>wld_graph := Some i\<rparr>;
          w4 = publish (\<lambda>_. ''R'') demo_session ''t'' w3
      in [(unmapped_world, {}), (w1, {}), (w2, {j}), (w3, {i, j}), (w4, {i, j})])"

definition demo_trace :: "nat \<Rightarrow> world \<times> artifact_identity set" where
  "demo_trace n = demo_states ! min n 4"

definition demo_time :: "moment \<Rightarrow> nat" where
  "demo_time m = (case m of At_Begin \<Rightarrow> 4 | At_Graph \<Rightarrow> 6 | At_Manifest \<Rightarrow> 7 | _ \<Rightarrow> 5)"

lemma demo_ends: "fst (demo_trace (demo_time m)) = demo_world"
proof -
  have "min (demo_time m) 4 = 4" by (cases m) (simp_all add: demo_time_def)
  then show ?thesis
    by (simp add: demo_trace_def demo_states_def Let_def publish_def demo_session_def mark_in_progress_def unmapped_world_def
        demo_world_def demo_identity_def)
qed

lemma demo_steps: "run_step demo_codec (demo_trace n) (demo_trace (Suc n))"
proof -
  let ?i = "the (demo_identity 1)" and ?j = "the (demo_identity 2)"
  have ij: "?i \<noteq> ?j" by (simp add: demo_identity_def)
  consider "n = 0" | "n = 1" | "n = 2" | "n = 3" | "4 \<le> n" by linarith
  then show ?thesis
  proof cases
    case 1
    then show ?thesis
      by (simp add: demo_trace_def demo_states_def Let_def)
         (rule marks, simp add: mark_in_progress_def read_record_def demo_codec_def)
  next
    case 2
    then show ?thesis by (simp add: demo_trace_def demo_states_def Let_def writes_manifest)
  next
    case 3
    then show ?thesis using ij by (simp add: demo_trace_def demo_states_def Let_def numeral_2_eq_2 writes_graph)
  next
    case 4
    have "read_record demo_codec (Some ''R'') = Record_Published (record_of demo_session ''/r/.git'' ''t'' (fst (demo_states ! 3)))"
      by code_simp
    moreover have "mss_owner demo_session = Some ''/r/.git''" by (simp add: demo_session_def)
    ultimately show ?thesis
      using 4 publishes [of demo_session "''/r/.git''" demo_codec "\<lambda>_. ''R''" "''t''" "fst (demo_states ! 3)" "{?i, ?j}"]
      by (simp add: demo_trace_def demo_states_def Let_def numeral_3_eq_3 publish_def demo_session_def)
  next
    case 5
    have "run_step demo_codec st st" for st by (cases st) (simp add: others)
    with 5 show ?thesis by (simp add: demo_trace_def min_def)
  qed
qed

theorem fresh_answer_certified_witness:
  "\<exists>r. read_record demo_codec (wld_record demo_world) = Record_Published r
    \<and> (\<forall>t \<in> {4..6}. wld_graph (fst (demo_trace t)) = art_graph (frc_artifacts r))
    \<and> (\<forall>t \<in> {4..7}. wld_manifest (fst (demo_trace t)) = art_manifest (frc_artifacts r))"
proof -
  have start: "used_ids demo_codec (demo_trace 0)"
    by (simp add: used_ids_def demo_trace_def demo_states_def Let_def unmapped_world_def read_record_def)
  have times: "demo_time At_Begin = 4" "demo_time At_Graph = 6" "demo_time At_Manifest = 7" by (simp_all add: demo_time_def)
  show ?thesis
    using fresh_answer_certified [of demo_codec demo_trace "\<lambda>_. demo_world" demo_time "\<lambda>b. b" "\<lambda>_. []" "''r''" "Some ''/r/.git''"]
      demo_steps start demo_ends demo_fresh by (simp add: times)
qed

end
