(* ===== verification/AuditScore.thy ===== *)
theory AuditScore
  imports SeqColl "HOL-Library.Product_Lexorder"
begin

text \<open>
  The audit: a graph scored against an oracle's records (\<open>src/audit/model.rs\<close>, \<open>src/audit/report.rs\<close>,
  \<open>src/audit/scoring.rs\<close>, \<open>src/audit/fp_sites.rs\<close>, \<open>src/audit/score.rs\<close>). A map from sites to lists is the list
  filtered by its site, a map of counters an association list. A ratio is kept as its two numbers.
\<close>

section \<open>Rows\<close>

datatype audit_tier = Tier_Precise | Tier_Extension | Tier_Guess | Tier_Heuristic | Tier_Semantic | Tier_Semantic_Discovered

definition TIER_ORDER :: "audit_tier list" where
  "TIER_ORDER = [Tier_Precise, Tier_Extension, Tier_Guess, Tier_Heuristic, Tier_Semantic, Tier_Semantic_Discovered]"

fun tier_key :: "audit_tier \<Rightarrow> string" where
  "tier_key Tier_Precise = ''precise''"
| "tier_key Tier_Extension = ''ext''"
| "tier_key Tier_Guess = ''guess''"
| "tier_key Tier_Heuristic = ''heuristic''"
| "tier_key Tier_Semantic = ''semantic''"
| "tier_key Tier_Semantic_Discovered = ''semantic-discovered''"

record edge_row =
  aer_from_file :: string
  aer_from_line :: nat
  aer_to :: string
  aer_to_file :: string
  aer_tier :: audit_tier
  aer_member :: "string option"

record def_row =
  adr_id :: string
  adr_file :: string
  adr_kind :: string
  adr_test :: bool

record oracle_ref =
  aor_file :: string
  aor_start_line :: nat
  aor_shape :: string
  aor_receiver_kind :: string
  aor_member :: string
  aor_target :: "string option"
  aor_target_kind :: "string option"
  aor_target_file :: "string option"
  aor_external :: bool
  aor_ambiguous :: bool

record audit_unit =
  aun_name :: string
  aun_status :: string
  aun_refs :: "string list"
  aun_files :: "string list"

record audit_inputs =
  ain_root :: string
  ain_graph_defs :: "def_row list"
  ain_oracle_defs :: "def_row list"
  ain_edges :: "edge_row list"
  ain_records :: "oracle_ref list"
  ain_units :: "audit_unit list"
  ain_universe :: "string set"
  ain_discovered_shapes :: "string \<times> nat \<times> string \<Rightarrow> string option"
  ain_collect_fp_sites :: bool

record tier_stats =
  ats_edges :: nat
  ats_tp :: nat
  ats_fp :: nat
  ats_fp_no_site :: nat
  ats_fp_external_site :: nat
  ats_fp_wrong_target :: nat
  ats_structural :: nat
  ats_unjudged :: nat

definition no_stats :: tier_stats where
  "no_stats = \<lparr>ats_edges = 0, ats_tp = 0, ats_fp = 0, ats_fp_no_site = 0, ats_fp_external_site = 0,
     ats_fp_wrong_target = 0, ats_structural = 0, ats_unjudged = 0\<rparr>"

section \<open>Scoring rules\<close>

definition is_unjudged_discovered_edge :: "edge_row \<Rightarrow> (string \<times> nat \<times> string \<Rightarrow> string option) \<Rightarrow> bool" where
  "is_unjudged_discovered_edge e shapes \<longleftrightarrow>
     aer_tier e = Tier_Semantic_Discovered
     \<and> (case aer_member e of
          None \<Rightarrow> False
        | Some m \<Rightarrow> shapes (aer_from_file e, aer_from_line e, m) = Some ''identifier'')"

text \<open>\<open>rsplit_once('.')\<close>, its first part.\<close>

definition before_last_dot :: "string \<Rightarrow> string option" where
  "before_last_dot s = map_option (\<lambda>i. take i s) (str_rfind s CHR ''.'')"

definition target_matches :: "oracle_ref \<Rightarrow> string \<Rightarrow> bool" where
  "target_matches r to \<longleftrightarrow>
     (case aor_target r of
        None \<Rightarrow> False
      | Some t \<Rightarrow> t = to \<or> aor_target_kind r = Some ''enum-member'' \<and> before_last_dot t = Some to)"

definition member_matches :: "string option \<Rightarrow> string \<Rightarrow> bool" where
  "member_matches edge_member record_member \<longleftrightarrow>
     (case edge_member of Some m \<Rightarrow> m = record_member | None \<Rightarrow> True)"

definition target_known :: "def_row list \<Rightarrow> oracle_ref \<Rightarrow> bool" where
  "target_known ds r \<longleftrightarrow>
     (case aor_target r of
        None \<Rightarrow> False
      | Some t \<Rightarrow>
          t \<in> adr_id ` set ds
          \<or> aor_target_kind r = Some ''enum-member''
            \<and> (case before_last_dot t of Some prefix \<Rightarrow> prefix \<in> adr_id ` set ds | None \<Rightarrow> False))"

definition short_name :: "string \<Rightarrow> string" where
  "short_name ident = last (str_split CHR ''.'' (last (str_split CHR ''+'' ident)))"

definition file_to_unit :: "audit_unit list \<Rightarrow> string \<Rightarrow> string option" where
  "file_to_unit units = map_of (concat (map (\<lambda>u. map (\<lambda>f. (f, aun_name u)) (aun_files u)) units))"

text \<open>\<open>collect\<close> into a map keeps the last of equal names.\<close>

definition unit_named :: "audit_unit list \<Rightarrow> string \<Rightarrow> audit_unit option" where
  "unit_named units = map_of (rev (map (\<lambda>u. (aun_name u, u)) units))"

definition refs_of_unit :: "audit_unit list \<Rightarrow> string \<Rightarrow> string list" where
  "refs_of_unit units n = (case unit_named units n of Some u \<Rightarrow> aun_refs u | None \<Rightarrow> [])"

text \<open>The names a walk can meet beside the one it starts with.\<close>

definition unit_names :: "audit_unit list \<Rightarrow> string set" where
  "unit_names units = set (map aun_name units) \<union> set (concat (map aun_refs units))"

lemma unit_names_finite [simp]: "finite (unit_names units)"
  by (simp add: unit_names_def)

text \<open>
  The loop over the stack, with the top at the end. Each name is expanded once, which pushes at most its references.
\<close>

function reach_loop :: "audit_unit list \<Rightarrow> string set \<Rightarrow> string list \<Rightarrow> string set" where
  "reach_loop units seen stack =
     (if stack = [] \<or> \<not> set stack \<subseteq> unit_names units then seen
      else if last stack \<in> seen then reach_loop units seen (butlast stack)
      else let n = last stack; seen' = insert n seen
           in reach_loop units seen' (butlast stack @ filter (\<lambda>r. r \<notin> seen') (refs_of_unit units n)))"
  by auto
termination
proof (relation "measures [\<lambda>(units, seen, _). card (unit_names units - seen), \<lambda>(_, _, stack). length stack]")
  fix units seen stack n seen'
  assume "\<not> (stack = [] \<or> \<not> set stack \<subseteq> unit_names units)" "last stack \<notin> seen" "n = last stack" "seen' = insert n seen"
  then have "n \<in> unit_names units - seen" using last_in_set by (metis Diff_iff subsetD)
  then have "unit_names units - insert n seen \<subset> unit_names units - seen" by blast
  then have "card (unit_names units - insert n seen) < card (unit_names units - seen)" by (rule psubset_card_mono [rotated]) simp
  then show "((units, seen', butlast stack @ filter (\<lambda>r. r \<notin> seen') (refs_of_unit units n)), units, seen, stack)
      \<in> measures [\<lambda>(units, seen, _). card (unit_names units - seen), \<lambda>(_, _, stack). length stack]"
    by (simp add: \<open>seen' = insert n seen\<close>)
qed auto

declare reach_loop.simps [simp del]

definition unit_reach :: "audit_unit list \<Rightarrow> string \<Rightarrow> string set option" where
  "unit_reach units n = (if n \<in> set (map aun_name units) then Some (reach_loop units {} [n]) else None)"

definition is_structural ::
  "edge_row \<Rightarrow> bool \<Rightarrow> (string \<Rightarrow> string option) \<Rightarrow> (string \<Rightarrow> string set option) \<Rightarrow> (string \<Rightarrow> bool option) \<Rightarrow> string set \<Rightarrow> bool option" where
  "is_structural e units_method file_unit reach test_by_id test_files =
     (if units_method
      then (case (file_unit (aer_from_file e), file_unit (aer_to_file e)) of
              (Some u1, Some u2) \<Rightarrow> Some (\<not> (case reach u1 of Some s \<Rightarrow> u2 \<in> s | None \<Rightarrow> False))
            | _ \<Rightarrow> None)
      else (case test_by_id (aer_to e) of
              None \<Rightarrow> None
            | Some t \<Rightarrow> if \<not> t then Some False else Some (aer_from_file e \<notin> test_files)))"

section \<open>False positives\<close>

record fp_site =
  afp_file :: string
  afp_line :: nat
  afp_tier :: string
  afp_class :: string
  afp_member :: "string option"
  afp_bound :: string
  afp_bound_file :: string
  afp_expected :: "string list"
  afp_structural :: bool

definition expected_targets :: "oracle_ref list \<Rightarrow> string list" where
  "expected_targets evidence =
     fold (\<lambda>r acc. case aor_target r of
         Some t \<Rightarrow> (if t \<in> set acc then acc else acc @ [t])
       | None \<Rightarrow> acc) (filter (\<lambda>r. \<not> aor_external r) evidence) []"

definition fp_site_of :: "edge_row \<Rightarrow> string \<Rightarrow> oracle_ref list \<Rightarrow> bool \<Rightarrow> fp_site" where
  "fp_site_of e cls evidence structural =
     \<lparr>afp_file = aer_from_file e, afp_line = aer_from_line e, afp_tier = tier_key (aer_tier e), afp_class = cls,
      afp_member = aer_member e, afp_bound = aer_to e, afp_bound_file = aer_to_file e,
      afp_expected = expected_targets evidence, afp_structural = structural\<rparr>"

definition push_fp_site :: "bool \<Rightarrow> edge_row \<Rightarrow> string \<Rightarrow> oracle_ref list \<Rightarrow> bool \<Rightarrow> fp_site list \<Rightarrow> fp_site list" where
  "push_fp_site collect e cls evidence structural rows =
     (if collect then rows @ [fp_site_of e cls evidence structural] else rows)"

section \<open>The pass over the edges\<close>

text \<open>\<open>*map.entry(k).or_insert(0) += 1\<close>\<close>

fun bump :: "'k \<Rightarrow> ('k \<times> nat) list \<Rightarrow> ('k \<times> nat) list" where
  "bump k [] = [(k, 1)]"
| "bump k ((k', n) # ps) = (if k = k' then (k', n + 1) # ps else (k', n) # bump k ps)"

record score_state =
  ast_tiers :: "audit_tier \<Rightarrow> tier_stats"
  ast_fp_targets :: "(string \<times> nat) list"
  ast_mismatch :: nat
  ast_rows :: "fp_site list"

definition edge_site :: "edge_row \<Rightarrow> string \<times> nat" where
  "edge_site e = (aer_from_file e, aer_from_line e)"

definition record_site :: "oracle_ref \<Rightarrow> string \<times> nat" where
  "record_site r = (aor_file r, aor_start_line r)"

definition records_at :: "oracle_ref list \<Rightarrow> string \<times> nat \<Rightarrow> oracle_ref list" where
  "records_at records s = filter (\<lambda>r. record_site r = s) records"

definition edges_at :: "edge_row list \<Rightarrow> string \<times> nat \<Rightarrow> edge_row list" where
  "edges_at es s = filter (\<lambda>e. edge_site e = s) es"

text \<open>The record an edge answers, when it answers one.\<close>

definition tp_record :: "oracle_ref list \<Rightarrow> edge_row \<Rightarrow> oracle_ref option" where
  "tp_record recs e =
     List.find (\<lambda>r. \<not> aor_external r \<and> target_matches r (aer_to e) \<and> member_matches (aer_member e) (aor_member r)) recs"

definition evidence_of :: "oracle_ref list \<Rightarrow> edge_row \<Rightarrow> oracle_ref list" where
  "evidence_of recs e =
     (let scoped = filter (\<lambda>r. member_matches (aer_member e) (aor_member r)) recs
      in if scoped = [] then recs else scoped)"

definition note_fp :: "bool \<Rightarrow> edge_row \<Rightarrow> string \<Rightarrow> oracle_ref list \<Rightarrow> bool \<Rightarrow> tier_stats \<Rightarrow> score_state \<Rightarrow> score_state" where
  "note_fp collect e cls evidence structural stats st =
     st\<lparr>ast_tiers := (ast_tiers st)(aer_tier e :=
          stats\<lparr>ats_fp := ats_fp stats + 1, ats_structural := ats_structural stats + (if structural then 1 else 0)\<rparr>),
        ast_fp_targets := bump (short_name (aer_to e)) (ast_fp_targets st),
        ast_rows := push_fp_site collect e cls evidence structural (ast_rows st)\<rparr>"

definition score_edge ::
  "bool \<Rightarrow> (string \<times> nat \<times> string \<Rightarrow> string option) \<Rightarrow> oracle_ref list \<Rightarrow> edge_row \<times> bool \<Rightarrow> score_state \<Rightarrow> score_state" where
  "score_edge collect shapes records p st =
     (case p of (e, structural) \<Rightarrow>
       let stats = (ast_tiers st (aer_tier e))\<lparr>ats_edges := ats_edges (ast_tiers st (aer_tier e)) + 1\<rparr>;
           recs = records_at records (edge_site e)
       in if is_unjudged_discovered_edge e shapes
          then st\<lparr>ast_tiers := (ast_tiers st)(aer_tier e := stats\<lparr>ats_unjudged := ats_unjudged stats + 1\<rparr>)\<rparr>
          else if recs = []
          then note_fp collect e ''no-site'' [] structural (stats\<lparr>ats_fp_no_site := ats_fp_no_site stats + 1\<rparr>) st
          else (case tp_record recs e of
                  Some r \<Rightarrow>
                    st\<lparr>ast_tiers := (ast_tiers st)(aer_tier e := stats\<lparr>ats_tp := ats_tp stats + 1\<rparr>),
                       ast_mismatch := ast_mismatch st
                         + (case aor_target_file r of Some tf \<Rightarrow> if tf \<noteq> aer_to_file e then 1 else 0 | None \<Rightarrow> 0)\<rparr>
                | None \<Rightarrow>
                    (let evidence = evidence_of recs e
                     in if list_all aor_external evidence
                        then note_fp collect e ''external'' evidence structural
                               (stats\<lparr>ats_fp_external_site := ats_fp_external_site stats + 1\<rparr>) st
                        else note_fp collect e ''wrong-target'' evidence structural
                               (stats\<lparr>ats_fp_wrong_target := ats_fp_wrong_target stats + 1\<rparr>) st)))"

definition score_start :: score_state where
  "score_start = \<lparr>ast_tiers = (\<lambda>_. no_stats), ast_fp_targets = [], ast_mismatch = 0, ast_rows = []\<rparr>"

section \<open>The report\<close>

record audit_report =
  arp_oracle_records :: nat
  arp_oracle_sites :: nat
  arp_oracle_external_sites :: nat
  arp_oracle_ambiguous :: nat
  arp_oracle_dropped :: nat
  arp_units_ok :: nat
  arp_units_failed :: nat
  arp_structural_method :: string
  arp_tiers :: "(audit_tier \<times> tier_stats) list"
  arp_recall_denominator :: nat
  arp_recall_precise :: nat
  arp_recall_precise_ext :: nat
  arp_recall_all :: nat
  arp_by_receiver :: "(string \<times> (nat \<times> nat) option) list"
  arp_recall_conditional :: nat
  arp_recall_bare :: nat
  arp_silent_correct :: nat
  arp_silent_leak :: nat
  arp_structural_impossible :: nat
  arp_structural_checked :: nat
  arp_fanout :: "nat list"
  arp_unknown_targets :: "(string \<times> nat) list"
  arp_top_fp :: "(string \<times> nat) list"
  arp_top_missed :: "(string \<times> nat) list"
  arp_partial_file_mismatch :: nat
  arp_edges_outside_universe :: nat
  arp_fp_sites :: "fp_site list"

definition kept_records :: "audit_inputs \<Rightarrow> oracle_ref list" where
  "kept_records i = filter (\<lambda>r. aor_file r \<in> ain_universe i) (ain_records i)"

definition kept_edges :: "audit_inputs \<Rightarrow> edge_row list" where
  "kept_edges i = filter (\<lambda>e. ain_units i = [] \<or> aer_from_file e \<in> ain_universe i) (ain_edges i)"

text \<open>A later row of an id overrides an earlier one.\<close>

definition merged_defs :: "audit_inputs \<Rightarrow> string \<Rightarrow> def_row option" where
  "merged_defs i = map_of (rev (map (\<lambda>d. (adr_id d, d)) (ain_graph_defs i @ ain_oracle_defs i)))"

definition test_files :: "audit_inputs \<Rightarrow> string set" where
  "test_files i =
     set (concat (map (\<lambda>d. case merged_defs i (adr_id d) of
         Some m \<Rightarrow> if adr_test m then [adr_file m] else []
       | None \<Rightarrow> []) (ain_graph_defs i @ ain_oracle_defs i)))"

definition structural_flag :: "audit_inputs \<Rightarrow> edge_row \<Rightarrow> bool option" where
  "structural_flag i e =
     is_structural e (ain_units i \<noteq> []) (file_to_unit (ain_units i)) (unit_reach (ain_units i))
       (\<lambda>d. map_option adr_test (merged_defs i d)) (test_files i)"

definition site_hit :: "edge_row list \<Rightarrow> (audit_tier \<Rightarrow> bool) \<Rightarrow> oracle_ref \<Rightarrow> bool" where
  "site_hit es tier_ok r \<longleftrightarrow>
     list_ex (\<lambda>e. tier_ok (aer_tier e) \<and> target_matches r (aer_to e) \<and> member_matches (aer_member e) (aor_member r))
       (edges_at es (record_site r))"

definition by_count :: "(string \<times> nat) list \<Rightarrow> (string \<times> nat) list" where
  "by_count = sort_key (\<lambda>(k, n). (- int n, k))"

definition in_solution :: "string \<Rightarrow> audit_inputs \<Rightarrow> oracle_ref \<Rightarrow> bool" where
  "in_solution shape i r \<longleftrightarrow> aor_shape r = shape \<and> \<not> aor_external r \<and> target_known (ain_graph_defs i) r"

definition receiver_row :: "edge_row list \<Rightarrow> oracle_ref list \<Rightarrow> string \<Rightarrow> string \<times> (nat \<times> nat) option" where
  "receiver_row es d_records k =
     (let subset' = filter (\<lambda>r. aor_receiver_kind r = k) d_records
      in (k, if subset' = [] then None else Some (length (filter (site_hit es (\<lambda>_. True)) subset'), length subset')))"

definition unknown_targets_of :: "audit_inputs \<Rightarrow> oracle_ref list \<Rightarrow> (string \<times> nat) list" where
  "unknown_targets_of i records =
     (let rows = remdups (concat (map (\<lambda>r. case aor_target r of
              Some t \<Rightarrow> (if aor_external r \<or> target_known (ain_graph_defs i) r then []
                         else [(or_default ''unknown'' (aor_target_kind r), t)])
            | None \<Rightarrow> []) records))
      in by_count (map (\<lambda>k. (k, length (filter (\<lambda>p. fst p = k) rows))) (remdups (map fst rows))))"

definition fanout_of :: "edge_row list \<Rightarrow> nat list" where
  "fanout_of es =
     (let ns = map (\<lambda>s. length (edges_at es s)) (remdups (map edge_site es))
      in [length (filter (\<lambda>n. n = 1) ns), length (filter (\<lambda>n. n = 2) ns), length (filter (\<lambda>n. n = 3) ns),
          length (filter (\<lambda>n. 3 < n) ns)])"

definition silent_sites :: "oracle_ref list \<Rightarrow> (string \<times> nat) list" where
  "silent_sites records =
     (let accesses = filter (\<lambda>r. aor_shape r = ''access'') records
      in filter (\<lambda>s. list_all aor_external (records_at accesses s)) (remdups (map record_site accesses)))"

definition score :: "audit_inputs \<Rightarrow> audit_report" where
  "score i =
     (let records = kept_records i; es = kept_edges i;
          silent = silent_sites records;
          leaks = filter (\<lambda>s. edges_at es s \<noteq> []) silent;
          flags = map (structural_flag i) es;
          st = fold (score_edge (ain_collect_fp_sites i) (ain_discovered_shapes i) records)
                 (zip es (map (\<lambda>f. f = Some True) flags)) score_start;
          d_records = filter (in_solution ''access'' i) records;
          missed = fold (\<lambda>r m. if site_hit es (\<lambda>_. True) r then m else bump (the (aor_target r)) m) d_records []
      in \<lparr>arp_oracle_records = length records,
          arp_oracle_sites = length (remdups (map record_site records)),
          arp_oracle_external_sites = length silent,
          arp_oracle_ambiguous = length (filter aor_ambiguous records),
          arp_oracle_dropped = length (ain_records i) - length records,
          arp_units_ok = length (filter (\<lambda>u. aun_status u = ''ok'') (ain_units i)),
          arp_units_failed = length (ain_units i) - length (filter (\<lambda>u. aun_status u = ''ok'') (ain_units i)),
          arp_structural_method = (if ain_units i \<noteq> [] then ''units'' else ''test-defs''),
          arp_tiers = filter (\<lambda>p. 0 < ats_edges (snd p)) (map (\<lambda>t. (t, ast_tiers st t)) TIER_ORDER),
          arp_recall_denominator = length d_records,
          arp_recall_precise = length (filter (site_hit es (\<lambda>t. t = Tier_Precise \<or> t = Tier_Semantic)) d_records),
          arp_recall_precise_ext =
            length (filter (site_hit es (\<lambda>t. t = Tier_Precise \<or> t = Tier_Extension \<or> t = Tier_Semantic)) d_records),
          arp_recall_all = length (filter (site_hit es (\<lambda>_. True)) d_records),
          arp_by_receiver =
            map (receiver_row es d_records) [''ident'', ''qualified'', ''this'', ''base'', ''call''],
          arp_recall_conditional = length (filter (in_solution ''conditional'' i) records),
          arp_recall_bare = length (filter (in_solution ''bare'' i) records),
          arp_silent_correct = length silent - length leaks,
          arp_silent_leak = length leaks,
          arp_structural_impossible = length (filter (\<lambda>f. f = Some True) flags),
          arp_structural_checked = length (filter (\<lambda>f. f \<noteq> None) flags),
          arp_fanout = fanout_of es,
          arp_unknown_targets = unknown_targets_of i records,
          arp_top_fp = take 20 (by_count (ast_fp_targets st)),
          arp_top_missed = take 20 (by_count missed),
          arp_partial_file_mismatch = ast_mismatch st,
          arp_edges_outside_universe = length (ain_edges i) - length es,
          arp_fp_sites = ast_rows st\<rparr>)"

end
