(* ===== verification/AuditFacts.thy ===== *)
theory AuditFacts
  imports AuditScore
begin

text \<open>
  The counters of a report are counts of judged edges, and a unit reaches what its references lead to.
\<close>

section \<open>Counting verdicts\<close>

datatype edge_verdict = Unjudged | No_Site | True_Positive | External_Site | Wrong_Target

definition verdict_of :: "(string \<times> nat \<times> string \<Rightarrow> string option) \<Rightarrow> oracle_ref list \<Rightarrow> edge_row \<Rightarrow> edge_verdict" where
  "verdict_of shapes records e =
     (let recs = records_at records (edge_site e)
      in if is_unjudged_discovered_edge e shapes then Unjudged
         else if recs = [] then No_Site
         else if tp_record recs e \<noteq> None then True_Positive
         else if list_all aor_external (evidence_of recs e) then External_Site
         else Wrong_Target)"

fun false_positive :: "edge_verdict \<Rightarrow> bool" where
  "false_positive No_Site = True"
| "false_positive External_Site = True"
| "false_positive Wrong_Target = True"
| "false_positive _ = False"

definition judged :: "(edge_row \<Rightarrow> edge_verdict) \<Rightarrow> audit_tier \<Rightarrow> (edge_row \<times> bool) list \<Rightarrow> (edge_verdict \<Rightarrow> bool \<Rightarrow> bool) \<Rightarrow> nat" where
  "judged f t ps c = length (filter (\<lambda>(e, s). aer_tier e = t \<and> c (f e) s) ps)"

definition counted_stats :: "(edge_row \<Rightarrow> edge_verdict) \<Rightarrow> (edge_row \<times> bool) list \<Rightarrow> audit_tier \<Rightarrow> tier_stats" where
  "counted_stats f ps t =
     \<lparr>ats_edges = judged f t ps (\<lambda>_ _. True), ats_tp = judged f t ps (\<lambda>v _. v = True_Positive),
      ats_fp = judged f t ps (\<lambda>v _. false_positive v), ats_fp_no_site = judged f t ps (\<lambda>v _. v = No_Site),
      ats_fp_external_site = judged f t ps (\<lambda>v _. v = External_Site),
      ats_fp_wrong_target = judged f t ps (\<lambda>v _. v = Wrong_Target),
      ats_structural = judged f t ps (\<lambda>v s. false_positive v \<and> s), ats_unjudged = judged f t ps (\<lambda>v _. v = Unjudged)\<rparr>"

lemma judged_Nil [simp]: "judged f t [] c = 0"
  by (simp add: judged_def)

lemma judged_snoc [simp]: "judged f t (ps @ [(e, s)]) c = judged f t ps c + (if aer_tier e = t \<and> c (f e) s then 1 else 0)"
  by (simp add: judged_def)

fun fp_row :: "oracle_ref list \<Rightarrow> edge_row \<times> bool \<Rightarrow> edge_verdict \<Rightarrow> fp_site list" where
  "fp_row records (e, s) No_Site = [fp_site_of e ''no-site'' [] s]"
| "fp_row records (e, s) External_Site = [fp_site_of e ''external'' (evidence_of (records_at records (edge_site e)) e) s]"
| "fp_row records (e, s) Wrong_Target = [fp_site_of e ''wrong-target'' (evidence_of (records_at records (edge_site e)) e) s]"
| "fp_row records (e, s) _ = []"

lemma verdict_cases:
  "verdict_of shapes records e = v \<longleftrightarrow>
    (case v of
       Unjudged \<Rightarrow> is_unjudged_discovered_edge e shapes
     | No_Site \<Rightarrow> \<not> is_unjudged_discovered_edge e shapes \<and> records_at records (edge_site e) = []
     | True_Positive \<Rightarrow> \<not> is_unjudged_discovered_edge e shapes \<and> records_at records (edge_site e) \<noteq> []
         \<and> tp_record (records_at records (edge_site e)) e \<noteq> None
     | External_Site \<Rightarrow> \<not> is_unjudged_discovered_edge e shapes \<and> records_at records (edge_site e) \<noteq> []
         \<and> tp_record (records_at records (edge_site e)) e = None \<and> list_all aor_external (evidence_of (records_at records (edge_site e)) e)
     | Wrong_Target \<Rightarrow> \<not> is_unjudged_discovered_edge e shapes \<and> records_at records (edge_site e) \<noteq> []
         \<and> tp_record (records_at records (edge_site e)) e = None \<and> \<not> list_all aor_external (evidence_of (records_at records (edge_site e)) e))"
  by (cases v) (auto simp: verdict_of_def Let_def)

definition score_pass :: "bool \<Rightarrow> (string \<times> nat \<times> string \<Rightarrow> string option) \<Rightarrow> oracle_ref list \<Rightarrow> (edge_row \<times> bool) list \<Rightarrow> score_state" where
  "score_pass collect shapes records ps = fold (score_edge collect shapes records) ps score_start"

lemma pass_snoc: "score_pass c sh rs (ps @ [p]) = score_edge c sh rs p (score_pass c sh rs ps)"
  by (simp add: score_pass_def)

lemma pass_counts:
  "ast_tiers (score_pass c sh rs ps) t = counted_stats (verdict_of sh rs) ps t
    \<and> ast_rows (score_pass c sh rs ps) = (if c then concat (map (\<lambda>p. fp_row rs p (verdict_of sh rs (fst p))) ps) else [])"
proof (induction ps arbitrary: t rule: rev_induct)
  case Nil
  show ?case by (simp add: score_pass_def score_start_def counted_stats_def no_stats_def)
next
  case (snoc p ps)
  obtain e s where p: "p = (e, s)" by (cases p)
  let ?v = "verdict_of sh rs e"
  note tiers = snoc [THEN conjunct1] and rows = snoc [THEN conjunct2]
  show ?case
  proof (cases ?v)
    case Unjudged
    with verdict_cases [of sh rs e Unjudged] show ?thesis
      by (simp add: p pass_snoc score_edge_def Let_def tiers rows counted_stats_def)
  next
    case No_Site
    with verdict_cases [of sh rs e No_Site] show ?thesis
      by (simp add: p pass_snoc score_edge_def note_fp_def push_fp_site_def Let_def tiers rows counted_stats_def)
  next
    case True_Positive
    with verdict_cases [of sh rs e True_Positive] obtain r where
      "\<not> is_unjudged_discovered_edge e sh" "records_at rs (edge_site e) \<noteq> []" "tp_record (records_at rs (edge_site e)) e = Some r"
      by auto
    with True_Positive show ?thesis
      by (simp add: p pass_snoc score_edge_def Let_def tiers rows counted_stats_def)
  next
    case External_Site
    with verdict_cases [of sh rs e External_Site] show ?thesis
      by (simp add: p pass_snoc score_edge_def note_fp_def push_fp_site_def Let_def tiers rows counted_stats_def)
  next
    case Wrong_Target
    with verdict_cases [of sh rs e Wrong_Target] show ?thesis
      by (simp add: p pass_snoc score_edge_def note_fp_def push_fp_site_def Let_def tiers rows counted_stats_def)
  qed
qed

definition judged_edges :: "audit_inputs \<Rightarrow> (edge_row \<times> bool) list" where
  "judged_edges i = map (\<lambda>e. (e, structural_flag i e = Some True)) (kept_edges i)"

lemma flags_zipped: "zip es (map (\<lambda>f. f = Some True) (map g es)) = map (\<lambda>e. (e, g e = Some True)) es"
  by (induction es) simp_all

lemma judged_add:
  assumes "\<And>v s. c v s \<longleftrightarrow> d v s \<or> d' v s" "\<And>v s. \<not> (d v s \<and> d' v s)"
  shows "judged f t ps c = judged f t ps d + judged f t ps d'"
  using assms by (induction ps rule: rev_induct) (auto simp: judged_def)

lemma judged_mono: "(\<And>v s. c v s \<Longrightarrow> d v s) \<Longrightarrow> judged f t ps c \<le> judged f t ps d"
  by (induction ps) (auto simp: judged_def)

lemma stats_balance:
  "(let ts = counted_stats f ps t
    in ats_edges ts = ats_tp ts + ats_fp ts + ats_unjudged ts
       \<and> ats_fp ts = ats_fp_no_site ts + ats_fp_external_site ts + ats_fp_wrong_target ts \<and> ats_structural ts \<le> ats_fp ts)"
proof -
  have "judged f t ps (\<lambda>_ _. True) = judged f t ps (\<lambda>v _. v = True_Positive \<or> false_positive v) + judged f t ps (\<lambda>v _. v = Unjudged)"
    by (rule judged_add) (auto elim: false_positive.elims, (metis edge_verdict.exhaust false_positive.simps(1-3))+)
  moreover have "judged f t ps (\<lambda>v _. v = True_Positive \<or> false_positive v) = judged f t ps (\<lambda>v _. v = True_Positive) + judged f t ps (\<lambda>v _. false_positive v)"
    by (rule judged_add) auto
  moreover have "judged f t ps (\<lambda>v _. false_positive v) = judged f t ps (\<lambda>v _. v = No_Site \<or> v = External_Site) + judged f t ps (\<lambda>v _. v = Wrong_Target)"
    by (rule judged_add) (auto elim: false_positive.elims)
  moreover have "judged f t ps (\<lambda>v _. v = No_Site \<or> v = External_Site) = judged f t ps (\<lambda>v _. v = No_Site) + judged f t ps (\<lambda>v _. v = External_Site)"
    by (rule judged_add) auto
  moreover have "judged f t ps (\<lambda>v s. false_positive v \<and> s) \<le> judged f t ps (\<lambda>v _. false_positive v)"
    by (rule judged_mono) blast
  ultimately show ?thesis by (simp add: counted_stats_def Let_def)
qed

text \<open>
  C39. The table of an audit report is the count of its edges by tier and verdict: each tier with an edge has one row, in
  the fixed order, whose counters are the numbers of its edges that are right, wrong in each of the three ways,
  unjudged, and wrong against the project structure. They add up, every edge of the graph is in a row or counted as
  outside, and the written false positives are one row per wrong edge, in order, of the class that was counted.
\<close>

theorem audit_rows_exact:
  "let r = score i; f = verdict_of (ain_discovered_shapes i) (kept_records i); ps = judged_edges i
   in arp_tiers r = map (\<lambda>t. (t, counted_stats f ps t)) (filter (\<lambda>t. list_ex (\<lambda>e. aer_tier e = t) (kept_edges i)) TIER_ORDER)
      \<and> list_all (\<lambda>(t, ts). ats_edges ts = ats_tp ts + ats_fp ts + ats_unjudged ts
          \<and> ats_fp ts = ats_fp_no_site ts + ats_fp_external_site ts + ats_fp_wrong_target ts
          \<and> ats_structural ts \<le> ats_fp ts) (arp_tiers r)
      \<and> sum_list (map (ats_edges \<circ> snd) (arp_tiers r)) + arp_edges_outside_universe r = length (ain_edges i)
      \<and> arp_fp_sites r = (if ain_collect_fp_sites i then concat (map (\<lambda>p. fp_row (kept_records i) p (f (fst p))) ps) else [])"
proof -
  let ?f = "verdict_of (ain_discovered_shapes i) (kept_records i)" and ?ps = "judged_edges i"
  let ?st = "score_pass (ain_collect_fp_sites i) (ain_discovered_shapes i) (kept_records i) ?ps"
  have st: "fold (score_edge (ain_collect_fp_sites i) (ain_discovered_shapes i) (kept_records i))
      (zip (kept_edges i) (map (\<lambda>f. f = Some True) (map (structural_flag i) (kept_edges i)))) score_start = ?st"
    unfolding flags_zipped by (simp add: score_pass_def judged_edges_def)
  have edges: "ats_edges (counted_stats ?f ?ps t) = length (filter (\<lambda>e. aer_tier e = t) (kept_edges i))" for t
    by (simp add: counted_stats_def judged_def judged_edges_def filter_map o_def)
  have pos: "0 < ats_edges (counted_stats ?f ?ps t) \<longleftrightarrow> list_ex (\<lambda>e. aer_tier e = t) (kept_edges i)" for t
    unfolding edges by (auto simp: list_ex_iff filter_empty_conv)
  have tiers: "arp_tiers (score i) = map (\<lambda>t. (t, counted_stats ?f ?ps t)) (filter (\<lambda>t. list_ex (\<lambda>e. aer_tier e = t) (kept_edges i)) TIER_ORDER)"
    unfolding score_def Let_def audit_report.simps st pass_counts [THEN conjunct1] filter_map o_def snd_conv pos by simp
  have "sum_list (map (ats_edges \<circ> snd) (arp_tiers (score i))) = sum_list (map (\<lambda>t. ats_edges (counted_stats ?f ?ps t)) TIER_ORDER)"
    unfolding tiers map_map o_def snd_conv using pos by (intro sum_list_map_filter) auto
  also have "\<dots> = length (kept_edges i)"
  proof -
    have "length (filter (\<lambda>e. aer_tier e = Tier_Precise) es) + (length (filter (\<lambda>e. aer_tier e = Tier_Extension) es)
      + (length (filter (\<lambda>e. aer_tier e = Tier_Guess) es) + (length (filter (\<lambda>e. aer_tier e = Tier_Heuristic) es)
      + (length (filter (\<lambda>e. aer_tier e = Tier_Semantic) es) + length (filter (\<lambda>e. aer_tier e = Tier_Semantic_Discovered) es)))))
      = length es" for es :: "edge_row list"
    proof (induction es)
      case (Cons e es)
      then show ?case by (cases "aer_tier e") simp_all
    qed simp
    then show ?thesis by (simp add: edges TIER_ORDER_def)
  qed
  finally have sum: "sum_list (map (ats_edges \<circ> snd) (arp_tiers (score i))) = length (kept_edges i)" .
  have outside: "arp_edges_outside_universe (score i) = length (ain_edges i) - length (kept_edges i)"
    by (simp add: score_def Let_def)
  have "length (kept_edges i) \<le> length (ain_edges i)" by (simp add: kept_edges_def)
  moreover have "list_all (\<lambda>(t, ts). ats_edges ts = ats_tp ts + ats_fp ts + ats_unjudged ts
          \<and> ats_fp ts = ats_fp_no_site ts + ats_fp_external_site ts + ats_fp_wrong_target ts
          \<and> ats_structural ts \<le> ats_fp ts) (arp_tiers (score i))"
    unfolding tiers list_all_iff
  proof
    fix p assume "p \<in> set (map (\<lambda>t. (t, counted_stats ?f ?ps t)) (filter (\<lambda>t. list_ex (\<lambda>e. aer_tier e = t) (kept_edges i)) TIER_ORDER))"
    then obtain t where p: "p = (t, counted_stats ?f ?ps t)" by auto
    show "case p of (t, ts) \<Rightarrow> ats_edges ts = ats_tp ts + ats_fp ts + ats_unjudged ts
          \<and> ats_fp ts = ats_fp_no_site ts + ats_fp_external_site ts + ats_fp_wrong_target ts
          \<and> ats_structural ts \<le> ats_fp ts"
      using stats_balance [of ?f ?ps t] unfolding p prod.case Let_def .
  qed
  moreover have "arp_fp_sites (score i) = (if ain_collect_fp_sites i then concat (map (\<lambda>p. fp_row (kept_records i) p (?f (fst p))) ?ps) else [])"
    unfolding score_def Let_def audit_report.simps st pass_counts [THEN conjunct2] ..
  ultimately show ?thesis unfolding Let_def using tiers sum outside by (intro conjI) simp_all
qed

section \<open>Reach of a unit\<close>

definition refers :: "audit_unit list \<Rightarrow> (string \<times> string) set" where
  "refers units = {(a, b). b \<in> set (refs_of_unit units a)}"

lemma refs_are_names: "set (refs_of_unit units n) \<subseteq> unit_names units"
proof (cases "unit_named units n")
  case (Some u)
  then have "u \<in> set units" unfolding unit_named_def by (auto dest!: map_of_SomeD)
  with Some show ?thesis by (auto simp: refs_of_unit_def unit_names_def)
qed (simp add: refs_of_unit_def)

lemma closed_image: "X \<subseteq> R\<^sup>* `` Y \<Longrightarrow> R\<^sup>* `` X \<subseteq> R\<^sup>* `` Y"
  by (blast intro: rtrancl_trans)

text \<open>Every name that is seen has its references seen or stacked.\<close>

lemma reach_loop_closed:
  "set stack \<subseteq> unit_names units \<Longrightarrow> refers units `` seen \<subseteq> seen \<union> set stack
    \<Longrightarrow> reach_loop units seen stack = (refers units)\<^sup>* `` (seen \<union> set stack)"
proof (induction units seen stack rule: reach_loop.induct)
  case (1 units seen stack)
  show ?case
  proof (cases "stack = []")
    case True
    then have "(refers units)\<^sup>* `` seen = seen" using 1(4) by (intro Image_closed_trancl) simp
    with True show ?thesis by (simp add: reach_loop.simps)
  next
    case False
    let ?n = "last stack"
    have stack: "set stack = insert ?n (set (butlast stack))"
      using False by (metis append_butlast_last_id list.set(1) list.simps(15) rotate1.simps(2) set_append set_rotate1 Un_insert_right sup_bot.right_neutral)
    show ?thesis
    proof (cases "?n \<in> seen")
      case True
      have "reach_loop units seen stack = reach_loop units seen (butlast stack)"
        using False True 1(3) by (subst reach_loop.simps) simp
      also have "\<dots> = (refers units)\<^sup>* `` (seen \<union> set (butlast stack))"
        by (rule 1(1)) (use False True 1(3,4) stack in auto)
      finally show ?thesis using True stack by (simp add: insert_absorb)
    next
      case new: False
      let ?rest = "butlast stack @ filter (\<lambda>r. r \<notin> insert ?n seen) (refs_of_unit units ?n)"
      have "reach_loop units seen stack = reach_loop units (insert ?n seen) ?rest"
        using False new 1(3) by (subst reach_loop.simps) (simp add: Let_def)
      also have "\<dots> = (refers units)\<^sup>* `` (insert ?n seen \<union> set ?rest)"
      proof (rule 1(2))
        show "set ?rest \<subseteq> unit_names units" using 1(3) stack refs_are_names [of units ?n] by auto
        show "refers units `` insert ?n seen \<subseteq> insert ?n seen \<union> set ?rest"
          using 1(4) stack by (auto simp: refers_def)
      qed (use False new 1(3) in auto)
      also have "\<dots> = (refers units)\<^sup>* `` (seen \<union> set stack)"
      proof
        have "set ?rest \<subseteq> (refers units)\<^sup>* `` (seen \<union> set stack)"
          using stack by (auto simp: refers_def)
        moreover have "insert ?n seen \<subseteq> (refers units)\<^sup>* `` (seen \<union> set stack)" using stack by auto
        ultimately show "(refers units)\<^sup>* `` (insert ?n seen \<union> set ?rest) \<subseteq> (refers units)\<^sup>* `` (seen \<union> set stack)"
          by (intro closed_image) blast
        show "(refers units)\<^sup>* `` (seen \<union> set stack) \<subseteq> (refers units)\<^sup>* `` (insert ?n seen \<union> set ?rest)"
          using stack by (intro Image_mono order_refl) auto
      qed
      finally show ?thesis .
    qed
  qed
qed

text \<open>
  C40. The loop over the stack of unit names ends, and a unit reaches exactly the names its references lead to, itself
  included, whatever the cycles among them.
\<close>

theorem unit_reach_exact:
  "unit_reach units n =
    (if n \<in> set (map aun_name units) then Some {m. (n, m) \<in> (refers units)\<^sup>*} else None)"
proof -
  have "reach_loop units {} [n] = (refers units)\<^sup>* `` {n}" if "n \<in> set (map aun_name units)"
    using reach_loop_closed [of "[n]" units "{}"] that by (simp add: unit_names_def)
  then show ?thesis by (auto simp: unit_reach_def)
qed

end
