(* ===== verification/TpCatalogue.thy ===== *)
theory TpCatalogue
  imports Prelude
begin

text \<open>
  The closed catalogue of package types and members that transport recognition reads
  (\<open>src/transport/catalogue.rs\<close>, \<open>src/transport/catalogue/members.rs\<close>,
  \<open>src/transport/catalogue/registrations.rs\<close>): the tables, entry by entry, and the lookups in them.
\<close>

section \<open>Kinds\<close>

datatype catalogue_role =
    Role_Bus_Root | Role_Transport | Role_Host | Role_Receive_Endpoint | Role_Endpoint_Configuration
  | Role_Registration | Role_Name_Formatter | Role_Send_Address | Role_Request_Client | Role_Endpoint_Convention
  | Role_Entity_Name | Role_Options_Binding | Role_Outbox | Role_Test_Transport

definition ROLE_WORDS :: "string list" where
  "ROLE_WORDS =
    [''bus-root'',
     ''transport'',
     ''host'',
     ''receive-endpoint'',
     ''endpoint-configuration'',
     ''registration'',
     ''name-formatter'',
     ''send-address'',
     ''request-client'',
     ''endpoint-convention'',
     ''entity-name'',
     ''options-binding'',
     ''outbox'',
     ''test-transport'']"

fun role_index :: "catalogue_role \<Rightarrow> nat" where
  "role_index Role_Bus_Root = 0"
| "role_index Role_Transport = 1"
| "role_index Role_Host = 2"
| "role_index Role_Receive_Endpoint = 3"
| "role_index Role_Endpoint_Configuration = 4"
| "role_index Role_Registration = 5"
| "role_index Role_Name_Formatter = 6"
| "role_index Role_Send_Address = 7"
| "role_index Role_Request_Client = 8"
| "role_index Role_Endpoint_Convention = 9"
| "role_index Role_Entity_Name = 10"
| "role_index Role_Options_Binding = 11"
| "role_index Role_Outbox = 12"
| "role_index Role_Test_Transport = 13"

definition role_word :: "catalogue_role \<Rightarrow> string" where
  "role_word role = ROLE_WORDS ! role_index role"

datatype act =
    Act_Bus | Act_Transport | Act_Host | Act_Receive | Act_Configured | Act_Registration | Act_Formatter
  | Act_Configure_Endpoints | Act_Send | Act_Request | Act_Convention | Act_Entity | Act_Topology | Act_Options
  | Act_Options_Key | Act_Outbox | Act_Endpoint_Name | Act_Pass

datatype val_kind =
    Val_Name | Val_Entity_Name | Val_Address | Val_Host_Name | Val_Virtual_Host | Val_Region | Val_Host_Uri | Val_Key
  | Val_Formatter_Arg | Val_Ignore

fun val_word :: "val_kind \<Rightarrow> string" where
  "val_word Val_Name = ''name''"
| "val_word Val_Entity_Name = ''entity-name''"
| "val_word Val_Address = ''address''"
| "val_word Val_Host_Name = ''host''"
| "val_word Val_Virtual_Host = ''virtual-host''"
| "val_word Val_Region = ''region''"
| "val_word Val_Host_Uri = ''host-uri''"
| "val_word Val_Key = ''key''"
| "val_word Val_Formatter_Arg = ''formatter-argument''"
| "val_word Val_Ignore = ''ignore''"

datatype type_role =
    Ty_Message | Ty_Consumer | Ty_Saga | Ty_State_Machine | Ty_State | Ty_Handler | Ty_Definition | Ty_Anchor
  | Ty_Options | Ty_Db_Context | Ty_Bus | Ty_Unused

definition TYPE_ROLE_WORDS :: "string list" where
  "TYPE_ROLE_WORDS =
    [''message'',
     ''consumer'',
     ''saga'',
     ''state-machine'',
     ''state'',
     ''handler'',
     ''definition'',
     ''anchor'',
     ''options'',
     ''db-context'',
     ''bus'']"

fun type_role_word :: "type_role \<Rightarrow> string" where
  "type_role_word Ty_Message = ''message''"
| "type_role_word Ty_Consumer = ''consumer''"
| "type_role_word Ty_Saga = ''saga''"
| "type_role_word Ty_State_Machine = ''state-machine''"
| "type_role_word Ty_State = ''state''"
| "type_role_word Ty_Handler = ''handler''"
| "type_role_word Ty_Definition = ''definition''"
| "type_role_word Ty_Anchor = ''anchor''"
| "type_role_word Ty_Options = ''options''"
| "type_role_word Ty_Db_Context = ''db-context''"
| "type_role_word Ty_Bus = ''bus''"
| "type_role_word Ty_Unused = []"

datatype param_kind =
    P_Val val_kind
  | P_Uri val_kind
  | P_Lambda "string list"
  | P_Filter
  | P_Formatter
  | P_Opaque
  | P_Text
  | P_Type_Of type_role
  | P_Section
  | P_Rest

record catalogue_param =
  cpm_kind :: param_kind
  cpm_optional :: bool

definition req_param :: "param_kind \<Rightarrow> catalogue_param" where "req_param k = \<lparr>cpm_kind = k, cpm_optional = False\<rparr>"
definition opt_param :: "param_kind \<Rightarrow> catalogue_param" where "opt_param k = \<lparr>cpm_kind = k, cpm_optional = True\<rparr>"

record catalogue_overload =
  ovl_decl :: string
  ovl_on :: string
  ovl_extension :: bool
  ovl_types :: "type_role list"
  ovl_params :: "catalogue_param list"

datatype member_form = Form_Call | Form_Assign | Form_Property

record catalogue_member =
  mb_name :: string
  mb_form :: member_form
  mb_role :: catalogue_role
  mb_act :: act
  mb_start :: bool
  mb_word :: "string option"
  mb_returns :: "string option"
  mb_overloads :: "catalogue_overload list"

record type_entry =
  tye_name :: string
  tye_role :: catalogue_role
  tye_bases :: "string list"
  tye_endpoint :: "string option"

definition type_row :: "string \<Rightarrow> catalogue_role \<Rightarrow> string list \<Rightarrow> type_entry" where
  "type_row name role bases = \<lparr>tye_name = name, tye_role = role, tye_bases = bases, tye_endpoint = None\<rparr>"

definition bus_cfg :: "string \<Rightarrow> string \<Rightarrow> type_entry" where
  "bus_cfg name endpoint =
     \<lparr>tye_name = name, tye_role = Role_Transport, tye_bases = [''MassTransit.IBusFactoryConfigurator`1''],
      tye_endpoint = Some endpoint\<rparr>"

definition inst_overload :: "string \<Rightarrow> type_role list \<Rightarrow> catalogue_param list \<Rightarrow> catalogue_overload" where
  "inst_overload decl types params =
     \<lparr>ovl_decl = decl, ovl_on = decl, ovl_extension = False, ovl_types = types, ovl_params = params\<rparr>"

definition ext_overload :: "string \<Rightarrow> string \<Rightarrow> type_role list \<Rightarrow> catalogue_param list \<Rightarrow> catalogue_overload" where
  "ext_overload decl on types params =
     \<lparr>ovl_decl = decl, ovl_on = on, ovl_extension = True, ovl_types = types, ovl_params = params\<rparr>"

definition call_member :: "string \<Rightarrow> catalogue_role \<Rightarrow> act \<Rightarrow> catalogue_overload list \<Rightarrow> catalogue_member" where
  "call_member name role act' overloads =
     \<lparr>mb_name = name, mb_form = Form_Call, mb_role = role, mb_act = act', mb_start = False, mb_word = None,
      mb_returns = None, mb_overloads = overloads\<rparr>"

definition worded :: "catalogue_member \<Rightarrow> string \<Rightarrow> catalogue_member" where "worded m w = m\<lparr>mb_word := Some w\<rparr>"
definition started :: "catalogue_member \<Rightarrow> catalogue_member" where "started m = m\<lparr>mb_start := True\<rparr>"
definition returning :: "catalogue_member \<Rightarrow> string \<Rightarrow> catalogue_member" where "returning m r = m\<lparr>mb_returns := Some r\<rparr>"

definition assign_member :: "string \<Rightarrow> catalogue_overload list \<Rightarrow> catalogue_member" where
  "assign_member name overloads =
     \<lparr>mb_name = name, mb_form = Form_Assign, mb_role = Role_Endpoint_Configuration, mb_act = Act_Endpoint_Name,
      mb_start = False, mb_word = None, mb_returns = None, mb_overloads = overloads\<rparr>"

section \<open>The tables\<close>

definition IRC :: string where "IRC = ''MassTransit.IRegistrationConfigurator''"
definition RCE :: string where "RCE = ''MassTransit.RegistrationConfiguratorExtensions''"
definition RE :: string where "RE = ''MassTransit.RegistrationExtensions''"
definition ICTX :: string where "ICTX = ''MassTransit.RegistrationContextExtensions''"
definition ISC :: string where "ISC = ''Microsoft.Extensions.DependencyInjection.IServiceCollection''"
definition IREC :: string where "IREC = ''MassTransit.IReceiveEndpointConfigurator''"
definition RECEIVE_LAMBDA :: param_kind where "RECEIVE_LAMBDA = P_Lambda [''$endpoint'']"
definition CONTEXT_THEN_RABBIT :: param_kind where "CONTEXT_THEN_RABBIT = P_Lambda [''MassTransit.IBusRegistrationContext'', ''MassTransit.IRabbitMqBusFactoryConfigurator'']"
definition CONTEXT_THEN_SQS :: param_kind where "CONTEXT_THEN_SQS = P_Lambda [''MassTransit.IBusRegistrationContext'', ''MassTransit.IAmazonSqsBusFactoryConfigurator'']"
definition CONTEXT_THEN_MEMORY :: param_kind where "CONTEXT_THEN_MEMORY = P_Lambda [''MassTransit.IBusRegistrationContext'', ''MassTransit.IInMemoryBusFactoryConfigurator'']"
definition REGISTRATION_LAMBDA :: param_kind where "REGISTRATION_LAMBDA = P_Lambda [''MassTransit.IBusRegistrationConfigurator'']"
definition TYPED_REGISTRATION_LAMBDA :: param_kind where "TYPED_REGISTRATION_LAMBDA = P_Lambda [''MassTransit.IBusRegistrationConfigurator`1'']"
definition UNTYPED :: param_kind where "UNTYPED = P_Lambda []"

definition URI_TYPE :: string where "URI_TYPE = ''System.Uri''"

definition DEFAULT_ENDPOINT :: string where "DEFAULT_ENDPOINT = ''MassTransit.IReceiveEndpointConfigurator''"

definition TYPES :: "type_entry list" where
  "TYPES =
    [type_row ''Microsoft.Extensions.DependencyInjection.IServiceCollection'' Role_Bus_Root [],
     type_row ''MassTransit.IRegistrationConfigurator'' Role_Registration
       [''Microsoft.Extensions.DependencyInjection.IServiceCollection''],
     type_row ''MassTransit.IBusRegistrationConfigurator'' Role_Registration
       [''MassTransit.IRegistrationConfigurator''],
     type_row ''MassTransit.IBusRegistrationConfigurator`1'' Role_Registration
       [''MassTransit.IBusRegistrationConfigurator''],
     type_row ''MassTransit.IRegistrationContext'' Role_Registration [],
     type_row ''MassTransit.IBusRegistrationContext'' Role_Registration [''MassTransit.IRegistrationContext''],
     type_row ''MassTransit.Bus'' Role_Bus_Root [],
     type_row ''MassTransit.IBusFactorySelector'' Role_Bus_Root [],
     type_row ''MassTransit.IReceiveConfigurator'' Role_Receive_Endpoint [],
     type_row ''MassTransit.IReceiveConfigurator`1'' Role_Receive_Endpoint [''MassTransit.IReceiveConfigurator''],
     type_row ''MassTransit.IBusFactoryConfigurator'' Role_Transport [''MassTransit.IReceiveConfigurator''],
     type_row ''MassTransit.IBusFactoryConfigurator`1'' Role_Transport [''MassTransit.IBusFactoryConfigurator'',
       ''MassTransit.IReceiveConfigurator`1''],
     bus_cfg ''MassTransit.IRabbitMqBusFactoryConfigurator'' ''MassTransit.IRabbitMqReceiveEndpointConfigurator'',
     bus_cfg ''MassTransit.IAmazonSqsBusFactoryConfigurator'' ''MassTransit.IAmazonSqsReceiveEndpointConfigurator'',
     bus_cfg ''MassTransit.IInMemoryBusFactoryConfigurator'' ''MassTransit.IInMemoryReceiveEndpointConfigurator'',
     type_row ''MassTransit.IReceiveEndpointConfigurator'' Role_Endpoint_Configuration [],
     type_row ''MassTransit.IRabbitMqReceiveEndpointConfigurator'' Role_Endpoint_Configuration
       [''MassTransit.IReceiveEndpointConfigurator''],
     type_row ''MassTransit.IAmazonSqsReceiveEndpointConfigurator'' Role_Endpoint_Configuration
       [''MassTransit.IReceiveEndpointConfigurator''],
     type_row ''MassTransit.IInMemoryReceiveEndpointConfigurator'' Role_Endpoint_Configuration
       [''MassTransit.IReceiveEndpointConfigurator''],
     type_row ''MassTransit.ISendEndpointProvider'' Role_Send_Address [],
     type_row ''MassTransit.IBus'' Role_Send_Address [''MassTransit.ISendEndpointProvider''],
     type_row ''MassTransit.IBusControl'' Role_Send_Address [''MassTransit.IBus''],
     type_row ''MassTransit.ConsumeContext'' Role_Send_Address [''MassTransit.ISendEndpointProvider''],
     type_row ''MassTransit.ConsumeContext`1'' Role_Send_Address [''MassTransit.ConsumeContext''],
     type_row ''MassTransit.EndpointConvention'' Role_Endpoint_Convention [],
     type_row ''MassTransit.Configuration.IMessageTopologyConfigurator`1'' Role_Entity_Name [],
     type_row ''MassTransit.EntityNameAttribute'' Role_Entity_Name [],
     type_row ''MassTransit.AmazonSqsTransportOptions'' Role_Options_Binding [],
     type_row ''MassTransit.RabbitMqTransportOptions'' Role_Options_Binding [],
     type_row ''Microsoft.Extensions.Options.OptionsBuilder`1'' Role_Options_Binding [],
     type_row ''MassTransit.IEntityFrameworkOutboxConfigurator'' Role_Outbox [],
     type_row ''MassTransit.ConsumerDefinition`1'' Role_Endpoint_Configuration [],
     type_row ''MassTransit.SagaDefinition`1'' Role_Endpoint_Configuration [],
     type_row ''MassTransit.IEndpointRegistrationConfigurator'' Role_Endpoint_Configuration [],
     type_row ''MassTransit.DefaultEndpointNameFormatter'' Role_Name_Formatter [],
     type_row ''MassTransit.SnakeCaseEndpointNameFormatter'' Role_Name_Formatter
       [''MassTransit.DefaultEndpointNameFormatter''],
     type_row ''MassTransit.KebabCaseEndpointNameFormatter'' Role_Name_Formatter
       [''MassTransit.SnakeCaseEndpointNameFormatter''],
     type_row ''System.Uri'' Role_Send_Address []]"

definition FORMATTERS :: "(string \<times> string) list" where
  "FORMATTERS =
    [(''MassTransit.KebabCaseEndpointNameFormatter'', ''kebab-case''),
     (''MassTransit.SnakeCaseEndpointNameFormatter'', ''snake-case''),
     (''MassTransit.DefaultEndpointNameFormatter'', ''default'')]"

definition TRANSPORTS :: "(string \<times> string) list" where
  "TRANSPORTS =
    [(''MassTransit.IRabbitMqBusFactoryConfigurator'', ''rabbitmq''),
     (''MassTransit.IAmazonSqsBusFactoryConfigurator'', ''amazon-sqs''),
     (''MassTransit.IInMemoryBusFactoryConfigurator'', ''in-memory'')]"

definition DEFINITIONS :: "(string \<times> type_role) list" where
  "DEFINITIONS =
    [(''MassTransit.ConsumerDefinition`1'', Ty_Consumer),
     (''MassTransit.SagaDefinition`1'', Ty_Saga)]"

definition ATTRIBUTES :: "(string \<times> val_kind \<times> type_role) list" where
  "ATTRIBUTES =
    [(''MassTransit.EntityNameAttribute'', Val_Entity_Name, Ty_Message)]"

definition OPTIONS :: "(string \<times> (string \<times> val_kind) list) list" where
  "OPTIONS =
    [(''MassTransit.AmazonSqsTransportOptions'', [(''Region'', Val_Region)]),
     (''MassTransit.RabbitMqTransportOptions'', [(''Host'', Val_Host_Name), (''VHost'', Val_Virtual_Host)])]"

definition BUS_MEMBERS :: "catalogue_member list" where
  "BUS_MEMBERS =
    [started (call_member ''AddMassTransit'' Role_Bus_Root Act_Bus [ext_overload
       ''MassTransit.DependencyInjectionRegistrationExtensions'' ISC [] [opt_param REGISTRATION_LAMBDA],
       ext_overload ''MassTransit.DependencyInjectionRegistrationExtensions'' ISC [Ty_Bus] [req_param
       TYPED_REGISTRATION_LAMBDA], ext_overload ''MassTransit.DependencyInjectionRegistrationExtensions'' ISC
       [Ty_Bus, Ty_Unused] [req_param TYPED_REGISTRATION_LAMBDA]]),
     worded (started (call_member ''AddMassTransitTestHarness'' Role_Test_Transport Act_Bus [ext_overload
       ''MassTransit.DependencyInjectionTestingExtensions'' ISC [] [opt_param REGISTRATION_LAMBDA], ext_overload
       ''MassTransit.DependencyInjectionTestingExtensions'' ISC [] [req_param P_Opaque, opt_param
       REGISTRATION_LAMBDA]])) ''test-harness'',
     returning ((call_member ''Factory'' Role_Bus_Root Act_Pass [inst_overload ''MassTransit.Bus'' []
       []])\<lparr>mb_form := Form_Property\<rparr>) ''MassTransit.IBusFactorySelector'',
     worded (call_member ''CreateUsingRabbitMq'' Role_Bus_Root Act_Bus [ext_overload
       ''MassTransit.RabbitMqBusFactoryConfiguratorExtensions'' ''MassTransit.IBusFactorySelector'' [] [opt_param
       (P_Lambda [''MassTransit.IRabbitMqBusFactoryConfigurator''])]]) ''rabbitmq'',
     worded (call_member ''CreateUsingAmazonSqs'' Role_Bus_Root Act_Bus [ext_overload
       ''MassTransit.AmazonSqsBusFactoryConfiguratorExtensions'' ''MassTransit.IBusFactorySelector'' [] [req_param
       (P_Lambda [''MassTransit.IAmazonSqsBusFactoryConfigurator''])]]) ''amazon-sqs'',
     worded (call_member ''CreateUsingInMemory'' Role_Bus_Root Act_Bus [ext_overload
       ''MassTransit.InMemoryConfigurationExtensions'' ''MassTransit.IBusFactorySelector'' [] [req_param (P_Lambda
       [''MassTransit.IInMemoryBusFactoryConfigurator''])], ext_overload
       ''MassTransit.InMemoryConfigurationExtensions'' ''MassTransit.IBusFactorySelector'' [] [req_param (P_Uri
       Val_Ignore), req_param (P_Lambda [''MassTransit.IInMemoryBusFactoryConfigurator''])]]) ''in-memory'',
     worded (call_member ''UsingRabbitMq'' Role_Transport Act_Transport [ext_overload
       ''MassTransit.RabbitMqBusFactoryConfiguratorExtensions'' ''MassTransit.IBusRegistrationConfigurator'' []
       [opt_param CONTEXT_THEN_RABBIT]]) ''rabbitmq'',
     worded (call_member ''UsingAmazonSqs'' Role_Transport Act_Transport [ext_overload
       ''MassTransit.AmazonSqsBusFactoryConfiguratorExtensions'' ''MassTransit.IBusRegistrationConfigurator'' []
       [opt_param CONTEXT_THEN_SQS]]) ''amazon-sqs'',
     worded (call_member ''UsingInMemory'' Role_Transport Act_Transport [ext_overload
       ''MassTransit.InMemoryConfigurationExtensions'' ''MassTransit.IBusRegistrationConfigurator'' [] [opt_param
       CONTEXT_THEN_MEMORY], ext_overload ''MassTransit.InMemoryConfigurationExtensions''
       ''MassTransit.IBusRegistrationConfigurator'' [] [req_param (P_Uri Val_Ignore), opt_param
       CONTEXT_THEN_MEMORY]]) ''in-memory'',
     call_member ''Host'' Role_Host Act_Host [ext_overload ''MassTransit.RabbitMqHostConfigurationExtensions''
       ''MassTransit.IRabbitMqBusFactoryConfigurator'' [] [req_param (P_Uri Val_Host_Uri), opt_param UNTYPED],
       ext_overload ''MassTransit.RabbitMqHostConfigurationExtensions''
       ''MassTransit.IRabbitMqBusFactoryConfigurator'' [] [req_param (P_Val Val_Host_Name), opt_param UNTYPED],
       ext_overload ''MassTransit.RabbitMqHostConfigurationExtensions''
       ''MassTransit.IRabbitMqBusFactoryConfigurator'' [] [req_param (P_Uri Val_Host_Uri), req_param P_Text,
       opt_param UNTYPED], ext_overload ''MassTransit.RabbitMqHostConfigurationExtensions''
       ''MassTransit.IRabbitMqBusFactoryConfigurator'' [] [req_param (P_Val Val_Host_Name), req_param (P_Val
       Val_Virtual_Host), opt_param UNTYPED], ext_overload ''MassTransit.RabbitMqHostConfigurationExtensions''
       ''MassTransit.IRabbitMqBusFactoryConfigurator'' [] [req_param (P_Val Val_Host_Name), req_param (P_Val
       Val_Virtual_Host), req_param P_Text, opt_param UNTYPED], ext_overload
       ''MassTransit.RabbitMqHostConfigurationExtensions'' ''MassTransit.IRabbitMqBusFactoryConfigurator'' []
       [req_param (P_Val Val_Host_Name), req_param P_Opaque, req_param (P_Val Val_Virtual_Host), req_param
       UNTYPED], ext_overload ''MassTransit.RabbitMqHostConfigurationExtensions''
       ''MassTransit.IRabbitMqBusFactoryConfigurator'' [] [req_param (P_Val Val_Host_Name), req_param P_Opaque,
       req_param (P_Val Val_Virtual_Host), req_param P_Text, opt_param UNTYPED], ext_overload
       ''MassTransit.AmazonSqsHostConfigurationExtensions'' ''MassTransit.IAmazonSqsBusFactoryConfigurator'' []
       [req_param (P_Uri Val_Host_Uri), req_param UNTYPED], ext_overload
       ''MassTransit.AmazonSqsHostConfigurationExtensions'' ''MassTransit.IAmazonSqsBusFactoryConfigurator'' []
       [req_param (P_Val Val_Region), req_param UNTYPED]],
     call_member ''ReceiveEndpoint'' Role_Receive_Endpoint Act_Receive [inst_overload
       ''MassTransit.IReceiveConfigurator'' [] [req_param (P_Val Val_Name), req_param RECEIVE_LAMBDA],
       inst_overload ''MassTransit.IReceiveConfigurator'' [] [req_param P_Opaque, opt_param P_Formatter, opt_param
       RECEIVE_LAMBDA]],
     call_member ''ConfigureConsumer'' Role_Endpoint_Configuration Act_Configured [ext_overload ICTX IREC
       [Ty_Consumer] [req_param P_Opaque, opt_param UNTYPED], ext_overload ICTX IREC [] [req_param P_Opaque,
       req_param (P_Type_Of Ty_Consumer)]],
     call_member ''ConfigureSaga'' Role_Endpoint_Configuration Act_Configured [ext_overload ICTX IREC [Ty_Saga]
       [req_param P_Opaque, opt_param UNTYPED], ext_overload ICTX IREC [] [req_param P_Opaque, req_param (P_Type_Of
       Ty_Saga)]],
     call_member ''Consumer'' Role_Endpoint_Configuration Act_Configured [ext_overload
       ''MassTransit.DependencyInjectionReceiveEndpointExtensions'' IREC [Ty_Consumer] [req_param P_Opaque,
       opt_param UNTYPED], ext_overload ''MassTransit.ConsumerExtensions'' IREC [Ty_Consumer] [opt_param UNTYPED]],
     call_member ''Handler'' Role_Endpoint_Configuration Act_Configured [ext_overload
       ''MassTransit.HandlerExtensions'' IREC [Ty_Handler] [req_param UNTYPED, opt_param UNTYPED]]]"

definition CONFIG_MEMBERS :: "catalogue_member list" where
  "CONFIG_MEMBERS =
    [worded (call_member ''AddConsumer'' Role_Registration Act_Registration [inst_overload IRC [Ty_Consumer]
       [opt_param UNTYPED], inst_overload IRC [Ty_Consumer] [req_param (P_Type_Of Ty_Definition), opt_param
       UNTYPED], ext_overload RE IRC [Ty_Consumer, Ty_Definition] [opt_param UNTYPED], ext_overload RCE IRC []
       [req_param (P_Type_Of Ty_Consumer), opt_param (P_Type_Of Ty_Definition)]]) ''consumer'',
     worded (call_member ''AddSaga'' Role_Registration Act_Registration [inst_overload IRC [Ty_Saga] [opt_param
       UNTYPED], inst_overload IRC [Ty_Saga] [req_param (P_Type_Of Ty_Definition), opt_param UNTYPED], ext_overload
       RE IRC [Ty_Saga, Ty_Definition] [opt_param UNTYPED], ext_overload RCE IRC [] [req_param (P_Type_Of Ty_Saga),
       opt_param (P_Type_Of Ty_Definition)]]) ''saga'',
     worded (call_member ''AddSagaStateMachine'' Role_Registration Act_Registration [inst_overload IRC
       [Ty_State_Machine, Ty_State] [opt_param UNTYPED], inst_overload IRC [Ty_State_Machine, Ty_State] [req_param
       (P_Type_Of Ty_Definition), opt_param UNTYPED], ext_overload RE IRC [Ty_State_Machine, Ty_State,
       Ty_Definition] [opt_param UNTYPED], ext_overload RCE IRC [] [req_param (P_Type_Of Ty_State_Machine),
       opt_param (P_Type_Of Ty_Definition)]]) ''state-machine'',
     worded (call_member ''AddConsumersFromNamespaceContaining'' Role_Registration Act_Registration [ext_overload
       RE IRC [Ty_Anchor] [opt_param UNTYPED], ext_overload RE IRC [] [req_param (P_Type_Of Ty_Anchor), opt_param
       UNTYPED]]) ''consumer-namespace'',
     worded (call_member ''AddSagasFromNamespaceContaining'' Role_Registration Act_Registration [ext_overload RE
       IRC [Ty_Anchor] [opt_param UNTYPED], ext_overload RE IRC [] [req_param (P_Type_Of Ty_Anchor), opt_param
       UNTYPED]]) ''saga-namespace'',
     worded (call_member ''AddSagaStateMachinesFromNamespaceContaining'' Role_Registration Act_Registration
       [ext_overload RE IRC [Ty_Anchor] [opt_param UNTYPED], ext_overload RE IRC [] [req_param (P_Type_Of
       Ty_Anchor), opt_param UNTYPED]]) ''state-machine-namespace'',
     worded (call_member ''AddConsumers'' Role_Registration Act_Registration [ext_overload RE IRC [] [req_param
       P_Rest]]) ''assembly-scan'',
     worded (call_member ''AddSagas'' Role_Registration Act_Registration [ext_overload RE IRC [] [req_param
       P_Rest]]) ''assembly-scan'',
     worded (call_member ''AddSagaStateMachines'' Role_Registration Act_Registration [ext_overload RE IRC []
       [req_param P_Rest]]) ''assembly-scan'',
     worded (call_member ''SetKebabCaseEndpointNameFormatter'' Role_Name_Formatter Act_Formatter [ext_overload RE
       IRC [] []]) ''kebab-case'',
     worded (call_member ''SetSnakeCaseEndpointNameFormatter'' Role_Name_Formatter Act_Formatter [ext_overload RE
       IRC [] []]) ''snake-case'',
     worded (call_member ''SetDefaultEndpointNameFormatter'' Role_Name_Formatter Act_Formatter [ext_overload RE IRC
       [] []]) ''default'',
     call_member ''SetEndpointNameFormatter'' Role_Name_Formatter Act_Formatter [inst_overload IRC [] [req_param
       P_Formatter]],
     call_member ''ConfigureEndpoints'' Role_Endpoint_Configuration Act_Configure_Endpoints [ext_overload ICTX
       ''MassTransit.IBusFactoryConfigurator`1'' [] [req_param P_Opaque, opt_param P_Formatter], ext_overload ICTX
       ''MassTransit.IBusFactoryConfigurator`1'' [] [req_param P_Opaque, req_param P_Filter, opt_param
       P_Formatter], inst_overload ''MassTransit.IBusRegistrationContext'' [] [req_param P_Opaque, req_param
       P_Formatter], inst_overload ''MassTransit.IBusRegistrationContext'' [] [req_param P_Opaque, req_param
       P_Formatter, req_param P_Filter]],
     call_member ''GetSendEndpoint'' Role_Send_Address Act_Send [inst_overload
       ''MassTransit.ISendEndpointProvider'' [] [req_param (P_Uri Val_Address)]],
     call_member ''AddRequestClient'' Role_Request_Client Act_Request [inst_overload IRC [Ty_Message] [opt_param
       P_Opaque], inst_overload IRC [Ty_Message] [req_param (P_Uri Val_Address), opt_param P_Opaque], inst_overload
       IRC [] [req_param (P_Type_Of Ty_Message), opt_param P_Opaque], inst_overload IRC [] [req_param (P_Type_Of
       Ty_Message), req_param (P_Uri Val_Address), opt_param P_Opaque]],
     call_member ''Map'' Role_Endpoint_Convention Act_Convention [inst_overload ''MassTransit.EndpointConvention''
       [Ty_Message] [req_param (P_Uri Val_Address)], inst_overload ''MassTransit.EndpointConvention'' [Ty_Message]
       [req_param UNTYPED]],
     call_member ''Message'' Role_Entity_Name Act_Topology [inst_overload ''MassTransit.IBusFactoryConfigurator''
       [Ty_Message] [req_param (P_Lambda [''MassTransit.Configuration.IMessageTopologyConfigurator`1''])]],
     call_member ''SetEntityName'' Role_Entity_Name Act_Entity [inst_overload
       ''MassTransit.Configuration.IMessageTopologyConfigurator`1'' [] [req_param (P_Val Val_Entity_Name)]],
     started (returning (call_member ''AddOptions'' Role_Options_Binding Act_Options [ext_overload
       ''Microsoft.Extensions.DependencyInjection.OptionsServiceCollectionExtensions'' ISC [Ty_Options] []])
       ''Microsoft.Extensions.Options.OptionsBuilder`1''),
     call_member ''BindConfiguration'' Role_Options_Binding Act_Options_Key [ext_overload
       ''Microsoft.Extensions.DependencyInjection.OptionsBuilderConfigurationExtensions''
       ''Microsoft.Extensions.Options.OptionsBuilder`1'' [] [req_param (P_Val Val_Key), opt_param UNTYPED]],
     started (call_member ''Configure'' Role_Options_Binding Act_Options [ext_overload
       ''Microsoft.Extensions.DependencyInjection.OptionsConfigurationServiceCollectionExtensions'' ISC
       [Ty_Options] [req_param P_Section], ext_overload
       ''Microsoft.Extensions.DependencyInjection.OptionsServiceCollectionExtensions'' ISC [Ty_Options] [req_param
       UNTYPED]]),
     call_member ''AddEntityFrameworkOutbox'' Role_Outbox Act_Outbox [ext_overload
       ''MassTransit.EntityFrameworkOutboxConfigurationExtensions'' ''MassTransit.IBusRegistrationConfigurator''
       [Ty_Db_Context] [opt_param (P_Lambda [''MassTransit.IEntityFrameworkOutboxConfigurator''])]],
     call_member ''UseBusOutbox'' Role_Outbox Act_Outbox [inst_overload
       ''MassTransit.IEntityFrameworkOutboxConfigurator'' [] [opt_param UNTYPED]],
     call_member ''UseEntityFrameworkOutbox'' Role_Outbox Act_Outbox [ext_overload
       ''MassTransit.EntityFrameworkOutboxConfigurationExtensions'' IREC [Ty_Db_Context] [req_param P_Opaque,
       opt_param UNTYPED]],
     call_member ''Endpoint'' Role_Endpoint_Configuration Act_Pass [inst_overload
       ''MassTransit.ConsumerDefinition`1'' [] [opt_param (P_Lambda
       [''MassTransit.IEndpointRegistrationConfigurator''])], inst_overload ''MassTransit.SagaDefinition`1'' []
       [opt_param (P_Lambda [''MassTransit.IEndpointRegistrationConfigurator''])]],
     assign_member ''EndpointName'' [inst_overload ''MassTransit.ConsumerDefinition`1'' [] [req_param (P_Val
       Val_Name)], inst_overload ''MassTransit.SagaDefinition`1'' [] [req_param (P_Val Val_Name)]],
     assign_member ''Name'' [inst_overload ''MassTransit.IEndpointRegistrationConfigurator'' [] [req_param (P_Val
       Val_Name)]]]"

definition BASE_USINGS :: "string list" where
  "BASE_USINGS =
    [''System'',
     ''System.Collections.Generic'',
     ''System.IO'',
     ''System.Linq'',
     ''System.Net.Http'',
     ''System.Threading'',
     ''System.Threading.Tasks'']"

definition WEB_USINGS :: "string list" where
  "WEB_USINGS =
    [''System'',
     ''System.Collections.Generic'',
     ''System.IO'',
     ''System.Linq'',
     ''System.Net.Http'',
     ''System.Net.Http.Json'',
     ''System.Threading'',
     ''System.Threading.Tasks'',
     ''Microsoft.AspNetCore.Builder'',
     ''Microsoft.AspNetCore.Hosting'',
     ''Microsoft.AspNetCore.Http'',
     ''Microsoft.AspNetCore.Routing'',
     ''Microsoft.Extensions.Configuration'',
     ''Microsoft.Extensions.DependencyInjection'',
     ''Microsoft.Extensions.Hosting'',
     ''Microsoft.Extensions.Logging'']"

definition WORKER_USINGS :: "string list" where
  "WORKER_USINGS =
    [''System'',
     ''System.Collections.Generic'',
     ''System.IO'',
     ''System.Linq'',
     ''System.Net.Http'',
     ''System.Threading'',
     ''System.Threading.Tasks'',
     ''Microsoft.Extensions.Configuration'',
     ''Microsoft.Extensions.DependencyInjection'',
     ''Microsoft.Extensions.Hosting'',
     ''Microsoft.Extensions.Logging'']"

definition IMPLICIT_USINGS :: "(string \<times> string list) list" where
  "IMPLICIT_USINGS =
    [(''Microsoft.NET.Sdk'', BASE_USINGS),
     (''Microsoft.NET.Sdk.Web'', WEB_USINGS),
     (''Microsoft.NET.Sdk.Worker'', WORKER_USINGS)]"

definition UNFILTERED :: "string list" where
  "UNFILTERED = [ISC, ''Microsoft.Extensions.Options.OptionsBuilder`1'', URI_TYPE]"

section \<open>Lookups\<close>

definition catalogue_members :: "catalogue_member list" where
  "catalogue_members = BUS_MEMBERS @ CONFIG_MEMBERS"

definition simple_name :: "string \<Rightarrow> string" where
  "simple_name name = hd (str_split CHR ''`'' (last (str_split CHR ''.'' name)))"

fun digits_value :: "nat \<Rightarrow> string \<Rightarrow> nat option" where
  "digits_value acc [] = Some acc"
| "digits_value acc (c # cs) = (if is_ascii_digit c then digits_value (10 * acc + (byte c - 48)) cs else None)"

text \<open>\<open>parse::<usize>()\<close>: digits, with a plus sign before them if any, of a value that fits.\<close>

definition parse_usize :: "string \<Rightarrow> nat option" where
  "parse_usize s =
     (let ds = (case s of c # cs \<Rightarrow> if c = CHR ''+'' then cs else s | [] \<Rightarrow> s)
      in if ds = [] then None
         else Option.bind (digits_value 0 ds) (\<lambda>n. if n < 2 ^ 64 then Some n else None))"

definition name_arity :: "string \<Rightarrow> nat" where
  "name_arity name =
     (case str_rfind name CHR ''`'' of
        None \<Rightarrow> 0
      | Some i \<Rightarrow> (case parse_usize (drop (Suc i) name) of Some n \<Rightarrow> n | None \<Rightarrow> 0))"

definition namespace_of :: "string \<Rightarrow> string" where
  "namespace_of name = (case str_rfind name CHR ''.'' of Some i \<Rightarrow> take i name | None \<Rightarrow> [])"

definition type_entry_of :: "string \<Rightarrow> type_entry option" where
  "type_entry_of name = List.find (\<lambda>t. tye_name t = name) TYPES"

definition types_named :: "string \<Rightarrow> nat \<Rightarrow> type_entry list" where
  "types_named simple arity' = filter (\<lambda>t. simple_name (tye_name t) = simple \<and> name_arity (tye_name t) = arity') TYPES"

text \<open>Every base stands before the types derived from it, which is why the search through the bases ends.\<close>

definition type_rank :: "string \<Rightarrow> nat" where
  "type_rank name = (case position (\<lambda>t. tye_name t = name) TYPES of Some i \<Rightarrow> Suc i | None \<Rightarrow> 0)"

lemma bases_earlier: "list_all (\<lambda>t. list_all (\<lambda>b. type_rank b < type_rank (tye_name t)) (tye_bases t)) TYPES"
  by code_simp

lemma base_rank:
  assumes "type_entry_of ty = Some t" "b \<in> set (tye_bases t)"
  shows "type_rank b < type_rank ty"
proof -
  have "t \<in> set TYPES" "tye_name t = ty" using assms(1) by (auto simp: type_entry_of_def find_Some_iff)
  with bases_earlier assms(2) show ?thesis by (auto simp: list_all_iff)
qed

function derives :: "string \<Rightarrow> string \<Rightarrow> bool" where
  "derives ty target =
     (if ty = target then True
      else case type_entry_of ty of
             Some t \<Rightarrow> list_ex (\<lambda>b. derives b target) (tye_bases t)
           | None \<Rightarrow> False)"
  by auto
termination
  by (relation "measure (\<lambda>(ty, _). type_rank ty)") (auto intro: base_rank)

declare derives.simps [simp del]

definition endpoint_of :: "string \<Rightarrow> string" where
  "endpoint_of ty =
     (case Option.bind (type_entry_of ty) tye_endpoint of Some e \<Rightarrow> e | None \<Rightarrow> DEFAULT_ENDPOINT)"

definition members_named :: "string \<Rightarrow> member_form \<Rightarrow> catalogue_member list" where
  "members_named name form = filter (\<lambda>m. mb_name m = name \<and> mb_form m = form) catalogue_members"

definition member_by_key :: "string \<Rightarrow> (catalogue_member \<times> catalogue_overload) option" where
  "member_by_key key =
     (case str_rfind key CHR ''.'' of
        None \<Rightarrow> None
      | Some i \<Rightarrow>
          first_some (\<lambda>m. map_option (\<lambda>o'. (m, o')) (List.find (\<lambda>o'. ovl_decl o' = take i key) (mb_overloads m)))
            (filter (\<lambda>m. mb_name m = drop (Suc i) key) catalogue_members))"

definition is_member_name :: "string \<Rightarrow> bool" where
  "is_member_name name \<longleftrightarrow> list_ex (\<lambda>m. mb_name m = name) catalogue_members"

definition prefilter_words :: "string list" where
  "prefilter_words =
     sort (remdups
       (map (\<lambda>t. simple_name (tye_name t)) (filter (\<lambda>t. tye_name t \<notin> set UNFILTERED) TYPES)
        @ map mb_name (filter (\<lambda>m. mb_start m \<and> mb_act m = Act_Bus) catalogue_members)))"

record catalogue_entry =
  cte_name :: string
  cte_kind :: string
  cte_role :: string

definition add_entry :: "catalogue_member \<Rightarrow> catalogue_overload \<Rightarrow> catalogue_entry list \<Rightarrow> catalogue_entry list" where
  "add_entry m o' es =
     (let name = ovl_decl o' @ CHR ''.'' # mb_name m
      in if list_ex (\<lambda>e. cte_name e = name) es then es
         else es @ [\<lparr>cte_name = name, cte_kind = ''member'', cte_role = role_word (mb_role m)\<rparr>])"

definition catalogue_entries :: "catalogue_entry list" where
  "catalogue_entries =
     fold (\<lambda>m es. fold (add_entry m) (mb_overloads m) es) catalogue_members
       (map (\<lambda>t. \<lparr>cte_name = tye_name t, cte_kind = ''type'', cte_role = role_word (tye_role t)\<rparr>) TYPES)"

end
