(* ===== verification/TpValues.thy ===== *)
theory TpValues
  imports TpCatalogue Suggest
begin

text \<open>
  Values of transport facts: the recorded sites (\<open>src/transport/site_types.rs\<close>), the facts
  (\<open>src/transport/fact_types.rs\<close>), the grammar of each kind of value (\<open>src/transport/values.rs\<close>), scopes
  (\<open>src/transport/scope.rs\<close>) and what settings files state (\<open>src/transport/configuration.rs\<close>).
\<close>

section \<open>Sites\<close>

record position =
  psn_line :: nat
  psn_column :: nat

record parsed =
  psd_value :: "string option"
  psd_scheme :: "string option"
  psd_host :: "string option"
  psd_virtual_host :: "string option"
  psd_region :: "string option"
  psd_account :: "string option"

definition no_parsed :: parsed where
  "no_parsed = \<lparr>psd_value = None, psd_scheme = None, psd_host = None, psd_virtual_host = None, psd_region = None,
     psd_account = None\<rparr>"

datatype site_part = Part_Lit position | Part_Ref string

datatype raw_value = Raw_Literal parsed | Raw_Pieces "site_part list" | Raw_Unknown string

record site_type =
  sty_role :: string
  sty_name :: string

record site_value =
  svl_role :: string
  svl_wrapper :: "string option"
  svl_value :: raw_value

record site_formatter =
  sfm_written :: "string option"
  sfm_args :: "raw_value list"

record transport_site =
  tps_line :: nat
  tps_member :: string
  tps_parent :: "nat option"
  tps_written :: "string option"
  tps_receiver :: "string option"
  tps_namespace :: string
  tps_outer_types :: "string list"
  tps_types :: "site_type list"
  tps_values :: "site_value list"
  tps_formatter :: "site_formatter option"
  tps_filtered :: bool

section \<open>Facts\<close>

record field_ref =
  fdr_field :: string
  fdr_file :: string
  fdr_line :: nat

record config_value =
  cfv_file :: string
  cfv_value :: string

datatype value_obj =
    Obj_Literal string "string option"
  | Obj_Constant string "string option" "field_ref list"
  | Obj_Configuration string "config_value list"
  | Obj_Unknown string "string option"
  | Obj_Not_Stated

record transport_scope =
  tsp_host :: value_obj
  tsp_virtual_host :: value_obj
  tsp_region :: value_obj
  tsp_account :: value_obj

record fact_type =
  fty_role :: string
  fty_name :: string
  fty_resolved :: "string option"
  fty_resolved_file :: "string option"
  fty_line :: "nat option"

record fact_property =
  fpr_name :: string
  fpr_role :: string
  fpr_value :: value_obj

record transport_fact =
  tft_file :: string
  tft_line :: nat
  tft_kind :: string
  tft_member :: string
  tft_bus_file :: "string option"
  tft_bus_line :: "nat option"
  tft_transport :: "string option"
  tft_registration :: "string option"
  tft_types :: "fact_type list"
  tft_formatter :: "string option"
  tft_formatter_source :: "string option"
  tft_formatter_arguments :: "value_obj list"
  tft_filtered :: bool
  tft_address :: "value_obj option"
  tft_key :: "value_obj option"
  tft_properties :: "fact_property list"
  tft_scope :: "transport_scope option"

section \<open>The grammar of values\<close>

definition REASONS :: "string list" where
  "REASONS =
     [''interpolated-string'', ''parameter'', ''local'', ''static-readonly'', ''field'', ''method-call'', ''nameof'',
      ''expression'', ''package-constant'', ''unresolved-constant'', ''uri-scheme'', ''malformed-uri'', ''unread-value'',
      ''unreadable-configuration'', ''overload'', ''multiple-hosts'']"

definition UNREAD :: string where "UNREAD = ''unread-value''"
definition MALFORMED :: string where "MALFORMED = ''malformed-uri''"
definition URI_SCHEME :: string where "URI_SCHEME = ''uri-scheme''"

definition all_chars :: "(char \<Rightarrow> bool) \<Rightarrow> string \<Rightarrow> bool" where
  "all_chars ok s \<longleftrightarrow> s \<noteq> [] \<and> list_all ok s"

definition is_name :: "string \<Rightarrow> bool" where
  "is_name = all_chars (\<lambda>c. is_ascii_alphanumeric c \<or> c \<in> set ''._:/-'')"

definition is_host :: "string \<Rightarrow> bool" where
  "is_host = all_chars (\<lambda>c. is_ascii_alphanumeric c \<or> c \<in> set ''.-'')"

definition is_virtual_host :: "string \<Rightarrow> bool" where
  "is_virtual_host = all_chars (\<lambda>c. is_ascii_alphanumeric c \<or> c \<in> set ''._/-'')"

definition is_key :: "string \<Rightarrow> bool" where
  "is_key = all_chars (\<lambda>c. is_ascii_alphanumeric c \<or> c \<in> set ''_.:-'')"

definition is_region :: "string \<Rightarrow> bool" where
  "is_region s =
     (let parts = str_split CHR ''-'' s
      in 3 \<le> length parts \<and> length (hd parts) = 2 \<and> list_all (all_chars is_ascii_lower) (butlast parts)
         \<and> all_chars is_ascii_digit (last parts))"

definition is_account :: "string \<Rightarrow> bool" where
  "is_account s \<longleftrightarrow> length s = 12 \<and> all_chars is_ascii_digit s"

definition name_value :: "string \<Rightarrow> parsed" where
  "name_value s = no_parsed\<lparr>psd_value := Some s\<rparr>"

definition split_scheme :: "string \<Rightarrow> (string \<times> string) option" where
  "split_scheme s =
     (case str_find_char s CHR '':'' of
        None \<Rightarrow> None
      | Some i \<Rightarrow>
          (case take i s of
             [] \<Rightarrow> None
           | c # cs \<Rightarrow>
               if is_ascii_alphabetic c \<and> list_all (\<lambda>c. is_ascii_alphanumeric c \<or> c \<in> set ''+.-'') cs
               then Some (map ascii_lower (take i s), drop (Suc i) s) else None))"

definition strip_query :: "string \<Rightarrow> string" where
  "strip_query s = takeWhile (\<lambda>c. c \<noteq> CHR ''?'' \<and> c \<noteq> CHR ''#'') s"

definition without_user :: "string \<Rightarrow> string" where
  "without_user auth = (case str_rfind auth CHR ''@'' of Some i \<Rightarrow> drop (Suc i) auth | None \<Rightarrow> auth)"

definition without_port :: "string \<Rightarrow> string" where
  "without_port host =
     (case str_rfind host CHR '':'' of
        Some i \<Rightarrow> (if all_chars is_ascii_digit (drop (Suc i) host) then take i host else host)
      | None \<Rightarrow> host)"

definition uri_authority :: "string \<Rightarrow> string + string \<times> string list" where
  "uri_authority rest =
     (case strip_prefix rest ''//'' of
        None \<Rightarrow> Inl MALFORMED
      | Some r \<Rightarrow>
          (let r = strip_query r;
               auth = takeWhile (\<lambda>c. c \<noteq> CHR ''/'') r;
               path = tl (dropWhile (\<lambda>c. c \<noteq> CHR ''/'') r);
               host = without_port (without_user auth)
           in if \<not> is_host host then Inl (if host = [] then MALFORMED else UNREAD)
              else Inr (host, filter (\<lambda>s. s \<noteq> []) (str_split CHR ''/'' path))))"

definition broker_address :: "string \<Rightarrow> string \<Rightarrow> string + parsed" where
  "broker_address scheme rest =
     (case uri_authority rest of
        Inl e \<Rightarrow> Inl e
      | Inr (host, segments) \<Rightarrow>
          if segments = [] then Inl MALFORMED
          else if \<not> is_name (last segments) then Inl UNREAD
          else (let p = no_parsed\<lparr>psd_value := Some (last segments), psd_scheme := Some scheme\<rparr>
                in if scheme = ''amazonsqs''
                   then (if is_region host then Inr (p\<lparr>psd_region := Some host\<rparr>) else Inl UNREAD)
                   else if 2 \<le> length segments
                   then (if is_virtual_host (hd segments)
                         then Inr (p\<lparr>psd_host := Some host, psd_virtual_host := Some (hd segments)\<rparr>) else Inl UNREAD)
                   else Inr (p\<lparr>psd_host := Some host\<rparr>)))"

definition address_uri :: "string \<Rightarrow> string + parsed" where
  "address_uri s =
     (case split_scheme s of
        None \<Rightarrow> Inl MALFORMED
      | Some (scheme, rest) \<Rightarrow>
          if scheme \<in> {''queue'', ''exchange'', ''topic''}
          then (let name = strip_query rest
                in if starts_with name ''//'' \<or> name = [] then Inl MALFORMED
                   else if \<not> is_name name then Inl UNREAD
                   else Inr (no_parsed\<lparr>psd_value := Some name, psd_scheme := Some scheme\<rparr>))
          else if scheme \<in> {''rabbitmq'', ''rabbitmqs'', ''amazonsqs''} then broker_address scheme rest
          else Inl URI_SCHEME)"

definition host_uri :: "string \<Rightarrow> string + parsed" where
  "host_uri s =
     (case split_scheme s of
        None \<Rightarrow> Inl MALFORMED
      | Some (scheme, rest) \<Rightarrow>
          if scheme \<in> {''rabbitmq'', ''rabbitmqs''}
          then (case uri_authority rest of
                  Inl e \<Rightarrow> Inl e
                | Inr (host, segments) \<Rightarrow>
                    (case segments of
                       [] \<Rightarrow> Inr (no_parsed\<lparr>psd_scheme := Some scheme, psd_host := Some host\<rparr>)
                     | v # _ \<Rightarrow>
                         if is_virtual_host v
                         then Inr (no_parsed\<lparr>psd_scheme := Some scheme, psd_host := Some host, psd_virtual_host := Some v\<rparr>)
                         else Inl UNREAD))
          else if scheme = ''amazonsqs''
          then (case uri_authority rest of
                  Inl e \<Rightarrow> Inl e
                | Inr (host, _) \<Rightarrow>
                    if is_region host then Inr (no_parsed\<lparr>psd_scheme := Some scheme, psd_region := Some host\<rparr>) else Inl UNREAD)
          else Inl URI_SCHEME)"

definition read_arn :: "string \<Rightarrow> string + parsed" where
  "read_arn s =
     (let parts = str_split CHR '':'' s
      in if length parts = 6 \<and> starts_with (parts ! 1) ''aws'' \<and> parts ! 2 \<in> {''sns'', ''sqs''} \<and> is_region (parts ! 3)
            \<and> is_account (parts ! 4) \<and> is_name (parts ! 5)
         then Inr (no_parsed\<lparr>psd_value := Some (parts ! 5), psd_scheme := Some ''arn'', psd_region := Some (parts ! 3),
                psd_account := Some (parts ! 4)\<rparr>)
         else Inl UNREAD)"

definition named_if :: "bool \<Rightarrow> parsed \<Rightarrow> string + parsed" where
  "named_if ok p = (if ok then Inr p else Inl UNREAD)"

fun classify :: "string \<Rightarrow> val_kind \<Rightarrow> string + parsed" where
  "classify s Val_Name = named_if (is_name s) (name_value s)"
| "classify s Val_Formatter_Arg = named_if (is_name s) (name_value s)"
| "classify s Val_Key = named_if (is_key s) (name_value s)"
| "classify s Val_Entity_Name = (if starts_with s ''arn:'' then read_arn s else named_if (is_name s) (name_value s))"
| "classify s Val_Address = address_uri s"
| "classify s Val_Host_Name =
     (if str_contains s ''://'' then host_uri s else named_if (is_host s) (no_parsed\<lparr>psd_host := Some s\<rparr>))"
| "classify s Val_Host_Uri = host_uri s"
| "classify s Val_Virtual_Host = named_if (is_virtual_host s) (no_parsed\<lparr>psd_virtual_host := Some s\<rparr>)"
| "classify s Val_Region = named_if (is_region s) (no_parsed\<lparr>psd_region := Some s\<rparr>)"
| "classify s Val_Ignore = Inr no_parsed"

section \<open>Resolved values and scopes\<close>

record resolved =
  rsv_obj :: value_obj
  rsv_parts :: "parsed option"
  rsv_fields :: "field_ref list"

definition unknown_value :: "string \<Rightarrow> resolved" where
  "unknown_value reason = \<lparr>rsv_obj = Obj_Unknown reason None, rsv_parts = None, rsv_fields = []\<rparr>"

fun main_part :: "parsed \<Rightarrow> val_kind \<Rightarrow> string option" where
  "main_part p Val_Host_Name = psd_host p"
| "main_part p Val_Host_Uri = psd_host p"
| "main_part p Val_Virtual_Host = psd_virtual_host p"
| "main_part p Val_Region = psd_region p"
| "main_part p _ = psd_value p"

definition finish_value :: "parsed \<Rightarrow> val_kind \<Rightarrow> field_ref list \<Rightarrow> resolved" where
  "finish_value p val declared =
     \<lparr>rsv_obj = (case main_part p val of
          None \<Rightarrow> Obj_Not_Stated
        | Some v \<Rightarrow> if val = Val_Key then Obj_Configuration v []
                    else if declared = [] then Obj_Literal v (psd_scheme p) else Obj_Constant v (psd_scheme p) declared),
      rsv_parts = Some p, rsv_fields = declared\<rparr>"

datatype scope_part = Scope_Host | Scope_Virtual_Host | Scope_Region | Scope_Account

definition PARTS :: "scope_part list" where
  "PARTS = [Scope_Host, Scope_Virtual_Host, Scope_Region, Scope_Account]"

definition not_stated :: transport_scope where
  "not_stated = \<lparr>tsp_host = Obj_Not_Stated, tsp_virtual_host = Obj_Not_Stated, tsp_region = Obj_Not_Stated,
     tsp_account = Obj_Not_Stated\<rparr>"

fun scope_get :: "transport_scope \<Rightarrow> scope_part \<Rightarrow> value_obj" where
  "scope_get s Scope_Host = tsp_host s"
| "scope_get s Scope_Virtual_Host = tsp_virtual_host s"
| "scope_get s Scope_Region = tsp_region s"
| "scope_get s Scope_Account = tsp_account s"

fun scope_set :: "scope_part \<Rightarrow> value_obj \<Rightarrow> transport_scope \<Rightarrow> transport_scope" where
  "scope_set Scope_Host v s = s\<lparr>tsp_host := v\<rparr>"
| "scope_set Scope_Virtual_Host v s = s\<lparr>tsp_virtual_host := v\<rparr>"
| "scope_set Scope_Region v s = s\<lparr>tsp_region := v\<rparr>"
| "scope_set Scope_Account v s = s\<lparr>tsp_account := v\<rparr>"

definition used_by :: "string option \<Rightarrow> scope_part list" where
  "used_by transport =
     (case transport of
        None \<Rightarrow> PARTS
      | Some t \<Rightarrow> if t = ''rabbitmq'' then [Scope_Host, Scope_Virtual_Host]
                  else if t = ''amazon-sqs'' then [Scope_Region, Scope_Account] else [])"

fun stated_part :: "parsed \<Rightarrow> scope_part \<Rightarrow> string option" where
  "stated_part p Scope_Host = psd_host p"
| "stated_part p Scope_Virtual_Host = psd_virtual_host p"
| "stated_part p Scope_Region = psd_region p"
| "stated_part p Scope_Account = psd_account p"

fun could_state :: "val_kind \<Rightarrow> scope_part list" where
  "could_state Val_Host_Name = [Scope_Host]"
| "could_state Val_Virtual_Host = [Scope_Virtual_Host]"
| "could_state Val_Region = [Scope_Region]"
| "could_state Val_Host_Uri = PARTS"
| "could_state Val_Address = PARTS"
| "could_state _ = []"

definition part_obj :: "resolved \<Rightarrow> string \<Rightarrow> value_obj" where
  "part_obj r v = (if rsv_fields r = [] then Obj_Literal v None else Obj_Constant v None (rsv_fields r))"

definition parts_of :: "resolved \<Rightarrow> val_kind \<Rightarrow> (scope_part \<times> value_obj) list" where
  "parts_of r val =
     (case rsv_parts r of
        None \<Rightarrow>
          (case rsv_obj r of
             Obj_Unknown reason _ \<Rightarrow> map (\<lambda>p. (p, Obj_Unknown reason None)) (could_state val)
           | _ \<Rightarrow> [])
      | Some p \<Rightarrow>
          concat (map (\<lambda>part. case stated_part p part of Some v \<Rightarrow> [(part, part_obj r v)] | None \<Rightarrow> []) PARTS))"

definition scope_from_parts :: "(scope_part \<times> value_obj) list \<Rightarrow> string option \<Rightarrow> transport_scope" where
  "scope_from_parts parts transport =
     fold (\<lambda>(part, v) s. if part \<in> set (used_by transport) then scope_set part v s else s) parts not_stated"

definition bus_scope :: "transport_scope list \<Rightarrow> string option \<Rightarrow> transport_scope" where
  "bus_scope hosts transport =
     (case hosts of
        [] \<Rightarrow> not_stated
      | [h] \<Rightarrow> fold (\<lambda>part. scope_set part (scope_get h part)) (used_by transport) not_stated
      | _ \<Rightarrow> fold (\<lambda>part. scope_set part (Obj_Unknown ''multiple-hosts'' None)) (used_by transport) not_stated)"

definition own_or_bus :: "(scope_part \<times> value_obj) list \<Rightarrow> transport_scope option \<Rightarrow> scope_part \<Rightarrow> value_obj" where
  "own_or_bus own bus part =
     (case List.find (\<lambda>p. fst p = part) own of
        Some p \<Rightarrow> snd p
      | None \<Rightarrow> (case bus of Some b \<Rightarrow> scope_get b part | None \<Rightarrow> Obj_Not_Stated))"

definition address_scope :: "(scope_part \<times> value_obj) list \<Rightarrow> transport_scope option \<Rightarrow> string option \<Rightarrow> transport_scope" where
  "address_scope own bus transport =
     fold (\<lambda>part. scope_set part (own_or_bus own bus part)) (used_by transport) not_stated"

end
