(* ===== verification/TpSettings.thy ===== *)
theory TpSettings
  imports TpValues "HOL-Library.Monad_Syntax"
begin

text \<open>
  The values a project's settings files state for a configuration key
  (\<open>src/transport/configuration.rs\<close>): the reader of JSON with comments and trailing commas, the lookup
  of a key and the value it gives. The reader runs on the UTF-8 bytes of the file; \<open>fs::read_to_string\<close>
  is a parameter. Each method takes the bytes from the cursor on and returns its value and the bytes
  left, \<open>None\<close> where the method returns \<open>None\<close>.
\<close>

section \<open>The reader\<close>

datatype json = Json_Str string | Json_Object "(string \<times> json) list" | Json_Other

datatype found = Found_Missing | Found_Text string | Found_Unreadable

definition UNREADABLE :: string where "UNREADABLE = ''unreadable-configuration''"

text \<open>The \<open>while\<close> of a line comment, and \<open>block_comment\<close> from its \<open>star\<close> flag on.\<close>

definition line_comment :: "string \<Rightarrow> string" where
  "line_comment s = tl (dropWhile (\<lambda>c. c \<noteq> CHR 0x0A) s)"

fun block_comment :: "bool \<Rightarrow> string \<Rightarrow> string option" where
  "block_comment star [] = None"
| "block_comment star (c # s) = (if star \<and> c = CHR ''/'' then Some s else block_comment (c = CHR ''*'') s)"

lemma length_line_comment: "length (line_comment s) \<le> length s"
  using length_dropWhile_le [of "\<lambda>c. c \<noteq> CHR 0x0A" s] by (simp add: line_comment_def)

lemma length_block_comment: "block_comment star s = Some r \<Longrightarrow> length r < length s"
  by (induction star s rule: block_comment.induct) (auto split: if_splits)

text \<open>\<open>chars.next()\<close>.\<close>

definition next_char :: "string \<Rightarrow> (char \<times> string) option" where
  "next_char s = (case s of [] \<Rightarrow> None | c # r \<Rightarrow> Some (c, r))"

lemma next_char_simps [simp]: "next_char [] = None" "next_char (c # r) = Some (c, r)"
  by (simp_all add: next_char_def)

lemma next_char_Some [simp]: "next_char s = Some (c, r) \<longleftrightarrow> s = c # r"
  by (auto simp: next_char_def split: list.splits)

lemma two_shorter: "tl s = d # r \<Longrightarrow> length r < length s"
  by (cases s) simp_all

function skip_blank :: "string \<Rightarrow> string option" where
  "skip_blank s =
     (if ws_head s \<noteq> 0 then skip_blank (drop (ws_head s) s)
      else if s = [] \<or> hd s \<noteq> CHR ''/'' then Some s
      else do {
        (d, r) \<leftarrow> next_char (tl s);
        if d = CHR ''/'' then skip_blank (line_comment r)
        else if d = CHR ''*'' then do { r \<leftarrow> block_comment False r; skip_blank r }
        else None
      })"
  by pat_completeness auto

termination
proof (relation "measure length", goal_cases)
  case (2 s)
  then show ?case using ws_head_length [of s] by simp
next
  case (3 s x d r)
  then have "length r < length s" by (auto intro: two_shorter)
  with length_line_comment [of r] show ?case by simp
next
  case (4 s x d r r')
  then have "length r < length s" "length r' < length r" by (auto intro: two_shorter dest: length_block_comment)
  then show ?case by simp
qed simp

declare skip_blank.simps [simp del]

lemma length_skip_blank: "skip_blank s = Some r \<Longrightarrow> length r \<le> length s"
proof (induction s arbitrary: r rule: skip_blank.induct)
  case (1 s)
  show ?case
  proof (cases "ws_head s = 0")
    case False
    then have "length r \<le> length (drop (ws_head s) s)"
      using 1(1,4) skip_blank.simps [of s] by simp
    then show ?thesis by simp
  next
    case ws: True
    show ?thesis
    proof (cases "s = [] \<or> hd s \<noteq> CHR ''/''")
      case True
      then show ?thesis using "1.prems" skip_blank.simps [of s] ws by auto
    next
      case False
      then obtain d t where t: "tl s = d # t"
        and d: "d = CHR ''/'' \<and> skip_blank (line_comment t) = Some r
                \<or> d \<noteq> CHR ''/'' \<and> d = CHR ''*'' \<and> (\<exists>u. block_comment False t = Some u \<and> skip_blank u = Some r)"
        using "1.prems" skip_blank.simps [of s] ws by (auto simp: bind_eq_Some_conv split: if_splits)
      have less: "length t < length s" using t by (rule two_shorter)
      show ?thesis
        using d
      proof (elim disjE conjE exE)
        assume "d = CHR ''/''" "skip_blank (line_comment t) = Some r"
        then have "length r \<le> length (line_comment t)" using 1(2) [of "(d, t)" d t] ws False t by simp
        with length_line_comment [of t] less show ?thesis by simp
      next
        fix u
        assume "d \<noteq> CHR ''/''" "d = CHR ''*''" and u: "block_comment False t = Some u" "skip_blank u = Some r"
        then have "length r \<le> length u" using 1(3) [of "(d, t)" d t u] ws False t by simp
        with length_block_comment [OF u(1)] less show ?thesis by simp
      qed
    qed
  qed
qed

text \<open>\<open>char::to_digit(16)\<close>, and \<open>String::push\<close> of \<open>char::from_u32\<close> of a scalar value.\<close>

definition hex_digit :: "char \<Rightarrow> nat option" where
  "hex_digit c =
     (if is_ascii_digit c then Some (byte c - 48)
      else if 97 \<le> byte c \<and> byte c \<le> 102 then Some (byte c - 87)
      else if 65 \<le> byte c \<and> byte c \<le> 70 then Some (byte c - 55) else None)"

definition utf8_encode :: "nat \<Rightarrow> string" where
  "utf8_encode n =
     map char_of
       (if n < 0x80 then [n]
        else if n < 0x800 then [192 + n div 64, 128 + n mod 64]
        else if n < 0x10000 then [224 + n div 4096, 128 + n div 64 mod 64, 128 + n mod 64]
        else [240 + n div 262144, 128 + n div 4096 mod 64, 128 + n div 64 mod 64, 128 + n mod 64])"

definition from_u32 :: "nat \<Rightarrow> string option" where
  "from_u32 n = (if n < 0xD800 \<or> 0xE000 \<le> n \<and> n < 0x110000 then Some (utf8_encode n) else None)"

fun hex_run :: "nat \<Rightarrow> nat \<Rightarrow> string \<Rightarrow> (nat \<times> string) option" where
  "hex_run 0 u s = Some (u, s)"
| "hex_run (Suc n) u [] = None"
| "hex_run (Suc n) u (c # s) = (case hex_digit c of None \<Rightarrow> None | Some d \<Rightarrow> hex_run n (u * 16 + d) s)"

definition hex4 :: "string \<Rightarrow> (nat \<times> string) option" where
  "hex4 = hex_run 4 0"

definition unicode_escape :: "string \<Rightarrow> (string \<times> string) option" where
  "unicode_escape s =
     (case hex4 s of
        None \<Rightarrow> None
      | Some (u, s) \<Rightarrow>
          if \<not> (0xD800 \<le> u \<and> u < 0xDC00) then map_option (\<lambda>t. (t, s)) (from_u32 u)
          else if take 2 s \<noteq> [CHR 0x5C, CHR ''u''] then None
          else (case hex4 (drop 2 s) of
                  None \<Rightarrow> None
                | Some (low, s) \<Rightarrow>
                    if \<not> (0xDC00 \<le> low \<and> low < 0xE000) then None
                    else map_option (\<lambda>t. (t, s)) (from_u32 (0x10000 + (u - 0xD800) * 1024 + (low - 0xDC00)))))"

definition escape :: "string \<Rightarrow> (string \<times> string) option" where
  "escape s =
     (case s of
        [] \<Rightarrow> None
      | c # s \<Rightarrow>
          if c = CHR ''n'' then Some ([CHR 0x0A], s)
          else if c = CHR ''t'' then Some ([CHR 0x09], s)
          else if c = CHR ''r'' then Some ([CHR 0x0D], s)
          else if c = CHR ''b'' then Some ([CHR 0x08], s)
          else if c = CHR ''f'' then Some ([CHR 0x0C], s)
          else if c \<in> {CHR 0x22, CHR 0x5C, CHR ''/''} then Some ([c], s)
          else if c = CHR ''u'' then unicode_escape s else None)"

lemma length_hex_run: "hex_run n u s = Some (v, r) \<Longrightarrow> length r \<le> length s"
  by (induction n u s rule: hex_run.induct) (auto split: option.splits)

lemma length_unicode_escape: "unicode_escape s = Some (t, r) \<Longrightarrow> length r \<le> length s"
  by (fastforce simp: unicode_escape_def hex4_def split: option.splits if_splits prod.splits dest: length_hex_run)

lemma length_escape: "escape s = Some (t, r) \<Longrightarrow> length r < length s"
  by (auto simp: escape_def split: list.splits if_splits dest!: length_unicode_escape)

function string_loop :: "string \<Rightarrow> string \<Rightarrow> (string \<times> string) option" where
  "string_loop out [] = None"
| "string_loop out (c # s) =
     (if c = CHR 0x22 then Some (out, s)
      else if c = CHR 0x5C then (case escape s of None \<Rightarrow> None | Some (t, r) \<Rightarrow> string_loop (out @ t) r)
      else if byte c < 32 then None else string_loop (out @ [c]) s)"
  by pat_completeness auto
termination
  by (relation "measure (\<lambda>(out, s). length s)") (auto dest: length_escape)

definition read_string :: "string \<Rightarrow> (string \<times> string) option" where
  "read_string s = (case s of [] \<Rightarrow> None | c # r \<Rightarrow> if c \<noteq> CHR 0x22 then None else string_loop [] r)"

lemma length_string_loop: "string_loop out s = Some (t, r) \<Longrightarrow> length r < length s"
  by (induction out s rule: string_loop.induct) (fastforce split: if_splits option.splits dest: length_escape)+

lemma length_read_string: "read_string s = Some (t, r) \<Longrightarrow> length r < length s"
  by (fastforce simp: read_string_def split: list.splits if_splits dest: length_string_loop)

text \<open>\<open>is_number\<close>: \<open>-?(0|[1-9][0-9]*)(\.[0-9]+)?([eE][+-]?[0-9]+)?\<close>.\<close>

definition count_digits :: "string \<Rightarrow> nat \<times> string" where
  "count_digits s = (length (takeWhile is_ascii_digit s), dropWhile is_ascii_digit s)"

definition strip_any :: "char set \<Rightarrow> string \<Rightarrow> string option" where
  "strip_any cs s = (case s of c # r \<Rightarrow> if c \<in> cs then Some r else None | [] \<Rightarrow> None)"

definition or_same :: "string \<Rightarrow> string option \<Rightarrow> string" where
  "or_same s r = (case r of Some t \<Rightarrow> t | None \<Rightarrow> s)"

definition after_digits :: "string \<Rightarrow> string option" where
  "after_digits s = (let (n, rest) = count_digits s in if n = 0 then None else Some rest)"

definition number_fraction :: "string \<Rightarrow> string option" where
  "number_fraction rest = (case strip_any {CHR ''.''} rest of Some f \<Rightarrow> after_digits f | None \<Rightarrow> Some rest)"

definition number_exponent :: "string \<Rightarrow> string option" where
  "number_exponent rest =
     (case strip_any {CHR ''e'', CHR ''E''} rest of
        Some e \<Rightarrow> after_digits (or_same e (strip_any {CHR ''+'', CHR ''-''} e))
      | None \<Rightarrow> Some rest)"

definition is_number :: "string \<Rightarrow> bool" where
  "is_number token =
     (let (n, rest) = count_digits (or_same token (strip_any {CHR ''-''} token))
      in if n = 0 \<or> n > 1 \<and> starts_with (dropWhile (\<lambda>c. c = CHR ''-'') token) ''0'' then False
         else case number_fraction rest of
                None \<Rightarrow> False
              | Some rest \<Rightarrow> (case number_exponent rest of None \<Rightarrow> False | Some rest \<Rightarrow> rest = []))"

definition token_char :: "char \<Rightarrow> bool" where
  "token_char c \<longleftrightarrow> is_ascii_alphanumeric c \<or> c \<in> set ''+-.''"

definition read_scalar :: "string \<Rightarrow> (json \<times> string) option" where
  "read_scalar s =
     (let token = takeWhile token_char s
      in if token \<in> {''true'', ''false'', ''null''} \<or> is_number token then Some (Json_Other, dropWhile token_char s) else None)"

lemma is_number_Nil [simp]: "\<not> is_number []"
  by (simp add: is_number_def count_digits_def or_same_def strip_any_def)

lemma length_read_scalar: "read_scalar s = Some (j, r) \<Longrightarrow> length r < length s"
  by (cases s) (auto simp: read_scalar_def Let_def le_imp_less_Suc length_dropWhile_le split: if_splits)

text \<open>
  \<open>value\<close>, and the loops of \<open>object\<close> (with the entries read so far) and \<open>array\<close> after their opening
  bracket.
\<close>

function (sequential) read_value :: "string \<Rightarrow> (json \<times> string) option"
  and object_loop :: "(string \<times> json) list \<Rightarrow> string \<Rightarrow> (json \<times> string) option"
  and array_loop :: "string \<Rightarrow> (json \<times> string) option"
where
  "read_value s =
     do {
       s \<leftarrow> skip_blank s;
       (c, r) \<leftarrow> next_char s;
       if c = CHR ''{'' then object_loop [] r
       else if c = CHR ''['' then array_loop r
       else if c = CHR 0x22 then do { (t, r) \<leftarrow> read_string s; Some (Json_Str t, r) }
       else read_scalar s
     }"
| "object_loop entries s =
     do {
       s \<leftarrow> skip_blank s;
       if s \<noteq> [] \<and> hd s = CHR ''}'' then Some (Json_Object entries, tl s)
       else do {
         (key, s) \<leftarrow> read_string s;
         s \<leftarrow> skip_blank s;
         (c, s) \<leftarrow> next_char s;
         if c \<noteq> CHR '':'' then None
         else do {
           (v, s) \<leftarrow> read_value s;
           s \<leftarrow> skip_blank s;
           (d, s) \<leftarrow> next_char s;
           if d = CHR '','' then object_loop (entries @ [(key, v)]) s
           else if d = CHR ''}'' then Some (Json_Object (entries @ [(key, v)]), s)
           else None
         }
       }
     }"
| "array_loop s =
     do {
       s \<leftarrow> skip_blank s;
       if s \<noteq> [] \<and> hd s = CHR '']'' then Some (Json_Other, tl s)
       else do {
         (v, s) \<leftarrow> read_value s;
         s \<leftarrow> skip_blank s;
         (d, s) \<leftarrow> next_char s;
         if d = CHR '','' then array_loop s
         else if d = CHR '']'' then Some (Json_Other, s)
         else None
       }
     }"
  by pat_completeness auto

lemma settings_reader_shrinks:
  "read_value_object_loop_array_loop_dom (Inl s) \<Longrightarrow> read_value s = Some (v, r) \<Longrightarrow> length r < length s"
  "read_value_object_loop_array_loop_dom (Inr (Inl (es, s))) \<Longrightarrow> object_loop es s = Some (v, r) \<Longrightarrow> length r < length s"
  "read_value_object_loop_array_loop_dom (Inr (Inr s)) \<Longrightarrow> array_loop s = Some (v, r) \<Longrightarrow> length r < length s"
proof (induct s and es s and s arbitrary: v r and v r and v r rule: read_value_object_loop_array_loop.pinduct)
  case (1 s)
  from "1.prems" obtain s1 c r1 where s1: "skip_blank s = Some s1" "s1 = c # r1"
    and br: "(if c = CHR ''{'' then object_loop [] r1 else if c = CHR ''['' then array_loop r1
         else if c = CHR 0x22 then do { (t, r) \<leftarrow> read_string s1; Some (Json_Str t, r) } else read_scalar s1) = Some (v, r)"
    by (auto simp: read_value.psimps [OF 1(1)] bind_eq_Some_conv)
  have le: "Suc (length r1) \<le> length s" using length_skip_blank [OF s1(1)] s1(2) by simp
  have "length r < length s1"
  proof -
    consider "c = CHR ''{''" | "c \<noteq> CHR ''{''" "c = CHR ''[''" | "c \<noteq> CHR ''{''" "c \<noteq> CHR ''[''" "c = CHR 0x22"
      | "c \<noteq> CHR ''{''" "c \<noteq> CHR ''[''" "c \<noteq> CHR 0x22" by blast
    then show ?thesis
    proof cases
      case c: 1
      then have "length r < length r1" using 1(2) [OF s1(1) _ refl c] s1 br by simp
      then show ?thesis using s1 by simp
    next
      case c: 2
      then have "length r < length r1" using 1(3) [OF s1(1) _ refl c] s1 br by simp
      then show ?thesis using s1 by simp
    next
      case 3
      then show ?thesis using br by (auto simp: bind_eq_Some_conv dest: length_read_string)
    next
      case 4
      then show ?thesis using br by (auto dest: length_read_scalar)
    qed
  qed
  then show ?case using length_skip_blank [OF s1(1)] by simp
next
  case (2 es s)
  from "2.prems" obtain s1 where s1: "skip_blank s = Some s1"
    and br: "s1 \<noteq> [] \<and> hd s1 = CHR ''}'' \<and> r = tl s1
         \<or> \<not> (s1 \<noteq> [] \<and> hd s1 = CHR ''}'') \<and> (\<exists>key s2 s3 w s4 d s5.
             read_string s1 = Some (key, s2) \<and> skip_blank s2 = Some (CHR '':'' # s3) \<and> read_value s3 = Some (w, s4)
             \<and> skip_blank s4 = Some (d # s5)
             \<and> (d = CHR '','' \<and> object_loop (es @ [(key, w)]) s5 = Some (v, r) \<or> d = CHR ''}'' \<and> r = s5))"
    by (auto simp: object_loop.psimps [OF 2(1)] bind_eq_Some_conv split: if_splits)
  have le: "length s1 \<le> length s" using s1 by (rule length_skip_blank)
  from br have "length r < length s1"
  proof (elim disjE conjE exE)
    fix key s2 s3 w s4 d s5
    assume a: "\<not> (s1 \<noteq> [] \<and> hd s1 = CHR ''}'')" "read_string s1 = Some (key, s2)" "skip_blank s2 = Some (CHR '':'' # s3)"
      "read_value s3 = Some (w, s4)" "skip_blank s4 = Some (d # s5)"
      and d: "d = CHR '',''" "object_loop (es @ [(key, w)]) s5 = Some (v, r)"
    have "length s4 < length s3" using 2(2) [OF s1 a(1,2) refl a(3), of "(CHR '':'', s3)" "CHR '':''" s3] a(4) by simp
    moreover have "length r < length s5"
      using 2(3) [OF s1 a(1,2) refl a(3), of "(CHR '':'', s3)" "CHR '':''" s3 "(w, s4)" w s4 "d # s5" "(d, s5)" d s5] a d by simp
    ultimately show ?thesis
      using length_read_string [OF a(2)] length_skip_blank [OF a(3)] length_skip_blank [OF a(5)] by simp
  next
    fix key s2 s3 w s4 d s5
    assume a: "\<not> (s1 \<noteq> [] \<and> hd s1 = CHR ''}'')" "read_string s1 = Some (key, s2)" "skip_blank s2 = Some (CHR '':'' # s3)"
      "read_value s3 = Some (w, s4)" "skip_blank s4 = Some (d # s5)" and d: "d = CHR ''}''" "r = s5"
    have "length s4 < length s3" using 2(2) [OF s1 a(1,2) refl a(3), of "(CHR '':'', s3)" "CHR '':''" s3] a(4) by simp
    then show ?thesis
      using length_read_string [OF a(2)] length_skip_blank [OF a(3)] length_skip_blank [OF a(5)] d by simp
  next
    assume "s1 \<noteq> []" "r = tl s1"
    then show ?thesis by (cases s1) simp_all
  qed
  with le show ?case by simp
next
  case (3 s)
  from "3.prems" obtain s1 where s1: "skip_blank s = Some s1"
    and br: "s1 \<noteq> [] \<and> hd s1 = CHR '']'' \<and> r = tl s1
         \<or> \<not> (s1 \<noteq> [] \<and> hd s1 = CHR '']'') \<and> (\<exists>w s2 d s3.
             read_value s1 = Some (w, s2) \<and> skip_blank s2 = Some (d # s3)
             \<and> (d = CHR '','' \<and> array_loop s3 = Some (v, r) \<or> d = CHR '']'' \<and> r = s3))"
    by (auto simp: array_loop.psimps [OF 3(1)] bind_eq_Some_conv split: if_splits)
  have le: "length s1 \<le> length s" using s1 by (rule length_skip_blank)
  from br have "length r < length s1"
  proof (elim disjE conjE exE)
    fix w s2 d s3
    assume a: "\<not> (s1 \<noteq> [] \<and> hd s1 = CHR '']'')" "read_value s1 = Some (w, s2)" "skip_blank s2 = Some (d # s3)"
      and d: "d = CHR '',''" "array_loop s3 = Some (v, r)"
    have "length s2 < length s1" using 3(2) [OF s1 a(1)] a(2) by simp
    moreover have "length r < length s3" using 3(3) [OF s1 a(1,2) refl a(3), of "(d, s3)" d s3] d by simp
    ultimately show ?thesis using length_skip_blank [OF a(3)] by simp
  next
    fix w s2 d s3
    assume a: "\<not> (s1 \<noteq> [] \<and> hd s1 = CHR '']'')" "read_value s1 = Some (w, s2)" "skip_blank s2 = Some (d # s3)"
      and d: "d = CHR '']''" "r = s3"
    have "length s2 < length s1" using 3(2) [OF s1 a(1)] a(2) by simp
    then show ?thesis using length_skip_blank [OF a(3)] d by simp
  next
    assume "s1 \<noteq> []" "r = tl s1"
    then show ?thesis by (cases s1) simp_all
  qed
  with le show ?case by simp
qed

termination read_value
  by (relation "measures [\<lambda>x. case x of Inl s \<Rightarrow> length s | Inr (Inl (es, s)) \<Rightarrow> length s | Inr (Inr s) \<Rightarrow> length s,
        \<lambda>x. case x of Inl _ \<Rightarrow> 0 | Inr _ \<Rightarrow> 1]")
     (auto dest!: length_skip_blank length_read_string settings_reader_shrinks)

declare read_value.simps [simp del] object_loop.simps [simp del] array_loop.simps [simp del]

section \<open>Looking a key up\<close>

definition parse :: "string \<Rightarrow> json option" where
  "parse s =
     do {
       (j, r) \<leftarrow> read_value (or_same s (strip_prefix s [CHR 0xEF, CHR 0xBB, CHR 0xBF]));
       r \<leftarrow> skip_blank r;
       if r = [] then Some j else None
     }"

definition eq_ignore_ascii_case :: "string \<Rightarrow> string \<Rightarrow> bool" where
  "eq_ignore_ascii_case s t \<longleftrightarrow> map ascii_lower s = map ascii_lower t"

definition entries_matching :: "(string \<times> json) list \<Rightarrow> string \<Rightarrow> json list" where
  "entries_matching entries part = map snd (filter (\<lambda>e. eq_ignore_ascii_case (fst e) part) entries)"

fun lookup_parts :: "json \<Rightarrow> string list \<Rightarrow> found" where
  "lookup_parts node [] = (case node of Json_Str s \<Rightarrow> Found_Text s | _ \<Rightarrow> Found_Unreadable)"
| "lookup_parts node (part # parts) =
     (case node of
        Json_Object entries \<Rightarrow>
          (case entries_matching entries part of
             [] \<Rightarrow> Found_Missing
           | [v] \<Rightarrow> lookup_parts v parts
           | _ \<Rightarrow> Found_Unreadable)
      | _ \<Rightarrow> Found_Missing)"

definition lookup_key :: "json \<Rightarrow> string \<Rightarrow> found" where
  "lookup_key json key = lookup_parts json (str_split CHR '':'' key)"

text \<open>\<open>part\<close>: the one part of a parsed value a property of kind \<open>val\<close> holds.\<close>

fun property_part :: "parsed \<Rightarrow> val_kind \<Rightarrow> string option" where
  "property_part p Val_Host_Name = psd_host p"
| "property_part p Val_Virtual_Host = psd_virtual_host p"
| "property_part p Val_Region = psd_region p"
| "property_part p _ = psd_value p"

text \<open>
  \<open>configured_value\<close>: \<open>read\<close> is \<open>fs::read_to_string\<close> below the root. The loop stops at the first file that
  makes the value unknown.
\<close>

fun configured_loop ::
  "(string \<Rightarrow> string option) \<Rightarrow> string \<Rightarrow> val_kind \<Rightarrow> string list \<Rightarrow> config_value list \<Rightarrow> value_obj" where
  "configured_loop read key val [] values = Obj_Configuration key values"
| "configured_loop read key val (f # fs) values =
     (case Option.bind (read f) parse of
        None \<Rightarrow> Obj_Unknown UNREADABLE (Some key)
      | Some json \<Rightarrow>
          (case lookup_key json key of
             Found_Missing \<Rightarrow> configured_loop read key val fs values
           | Found_Unreadable \<Rightarrow> Obj_Unknown UNREADABLE (Some key)
           | Found_Text t \<Rightarrow>
               (case classify t val of
                  Inl reason \<Rightarrow> Obj_Unknown reason (Some key)
                | Inr p \<Rightarrow>
                    (case property_part p val of
                       None \<Rightarrow> Obj_Unknown UNREAD (Some key)
                     | Some v \<Rightarrow> configured_loop read key val fs (values @ [\<lparr>cfv_file = f, cfv_value = v\<rparr>])))))"

definition configured_value :: "(string \<Rightarrow> string option) \<Rightarrow> string list \<Rightarrow> string \<Rightarrow> val_kind \<Rightarrow> value_obj" where
  "configured_value read fs key val = configured_loop read key val fs []"

end
