(* ===== verification/TpSettingsFacts.thy ===== *)
theory TpSettingsFacts
  imports TpFacts
begin

text \<open>
  What the settings reader promises: a tree of objects and strings written as JSON, with any bytes above
  the control range in its keys and strings, is read back; a key is answered along its parts; and what a
  file states for a key is the main part of a text that fits the grammar of the value.
\<close>

section \<open>Writing and reading back\<close>

definition escaped :: "string \<Rightarrow> string" where
  "escaped s = concat (map (\<lambda>c. if c = CHR 0x22 \<or> c = CHR 0x5C then [CHR 0x5C, c] else [c]) s)"

definition quoted :: "string \<Rightarrow> string" where
  "quoted s = CHR 0x22 # escaped s @ [CHR 0x22]"

fun render :: "json \<Rightarrow> string" and render_entries :: "(string \<times> json) list \<Rightarrow> string" where
  "render (Json_Str s) = quoted s"
| "render (Json_Object entries) = CHR ''{'' # render_entries entries"
| "render Json_Other = ''null''"
| "render_entries [] = ''}''"
| "render_entries [(k, v)] = quoted k @ '':'' @ render v @ ''}''"
| "render_entries ((k, v) # e # es) = quoted k @ '':'' @ render v @ '','' @ render_entries (e # es)"

definition no_controls :: "string \<Rightarrow> bool" where
  "no_controls s \<longleftrightarrow> list_all (\<lambda>c. 32 \<le> byte c) s"

fun writable :: "json \<Rightarrow> bool" and writable_entries :: "(string \<times> json) list \<Rightarrow> bool" where
  "writable (Json_Str s) = no_controls s"
| "writable (Json_Object entries) = writable_entries entries"
| "writable Json_Other = True"
| "writable_entries [] = True"
| "writable_entries ((k, v) # es) = (no_controls k \<and> writable v \<and> writable_entries es)"

lemma skip_blank_stops: "graphic c \<Longrightarrow> c \<noteq> CHR ''/'' \<Longrightarrow> skip_blank (c # s) = Some (c # s)"
  by (subst skip_blank.simps) (simp add: ws_head_graphic)

lemma skip_blank_marks [simp]:
  "skip_blank (CHR 0x22 # s) = Some (CHR 0x22 # s)"
  "skip_blank (CHR ''{'' # s) = Some (CHR ''{'' # s)"
  "skip_blank (CHR ''}'' # s) = Some (CHR ''}'' # s)"
  "skip_blank (CHR '':'' # s) = Some (CHR '':'' # s)"
  "skip_blank (CHR '','' # s) = Some (CHR '','' # s)"
  "skip_blank (CHR ''n'' # s) = Some (CHR ''n'' # s)"
  by (rule skip_blank_stops; simp add: graphic_def byte_def)+

lemma string_loop_escaped: "no_controls s \<Longrightarrow> string_loop out (escaped s @ CHR 0x22 # r) = Some (out @ s, r)"
  by (induction s arbitrary: out) (auto simp: escaped_def no_controls_def escape_def)

lemma read_string_quoted [simp]: "no_controls s \<Longrightarrow> read_string (quoted s @ r) = Some (s, r)"
  by (simp add: read_string_def quoted_def string_loop_escaped)

lemma quoted_head: "quoted s @ r = CHR 0x22 # (escaped s @ CHR 0x22 # r)"
  by (simp add: quoted_def)

lemma read_value_quoted: "no_controls s \<Longrightarrow> read_value (quoted s @ r) = Some (Json_Str s, r)"
  using read_string_quoted [of s r] by (simp add: read_value.simps quoted_head del: read_string_quoted)

lemma read_value_null: "r = [] \<or> \<not> token_char (hd r) \<Longrightarrow> read_value (''null'' @ r) = Some (Json_Other, r)"
proof -
  assume r: "r = [] \<or> \<not> token_char (hd r)"
  have n: "takeWhile token_char ''null'' = ''null''" "\<forall>c \<in> set ''null''. token_char c"
    by (simp_all add: token_char_def ascii_defs)
  have "takeWhile token_char (''null'' @ r) = ''null'' @ takeWhile token_char r"
    using n by (intro takeWhile_append2) blast
  moreover have "dropWhile token_char (''null'' @ r) = dropWhile token_char r"
    using n by (intro dropWhile_append2) blast
  moreover have "takeWhile token_char r = []" "dropWhile token_char r = r" using r by (cases r; simp)+
  ultimately have "read_scalar (''null'' @ r) = Some (Json_Other, r)" by (simp only: read_scalar_def Let_def) simp
  then show ?thesis by (simp add: read_value.simps)
qed

lemma object_loop_entry:
  assumes "no_controls k"
  shows "object_loop acc (quoted k @ CHR '':'' # s) =
     do { (v, s) \<leftarrow> read_value s; s \<leftarrow> skip_blank s; (d, s) \<leftarrow> next_char s;
          if d = CHR '','' then object_loop (acc @ [(k, v)]) s
          else if d = CHR ''}'' then Some (Json_Object (acc @ [(k, v)]), s) else None }"
  using read_string_quoted [OF assms, of "CHR '':'' # s"]
  by (subst object_loop.simps) (simp add: quoted_head del: read_string_quoted)

lemma render_read:
  "writable j \<Longrightarrow> r = [] \<or> \<not> token_char (hd r) \<Longrightarrow> read_value (render j @ r) = Some (j, r)"
  "writable_entries es \<Longrightarrow> object_loop acc (render_entries es @ r) = Some (Json_Object (acc @ es), r)"
proof (induction j and es arbitrary: r and acc r rule: render_render_entries.induct)
  case (1 s)
  then show ?case by (simp add: read_value_quoted)
next
  case (2 es)
  then show ?case by (simp add: read_value.simps)
next
  case 3
  then show ?case using read_value_null by simp
next
  case 4
  then show ?case by (simp add: object_loop.simps)
next
  case (5 k v)
  have "read_value (render v @ CHR ''}'' # r) = Some (v, CHR ''}'' # r)"
    using 5 by (simp add: token_char_def ascii_defs)
  with 5 show ?case by (simp add: object_loop_entry)
next
  case (6 k v e es)
  have "read_value (render v @ CHR '','' # s) = Some (v, CHR '','' # s)" for s
    using 6 by (simp add: token_char_def ascii_defs)
  with 6 show ?case by (simp add: object_loop_entry)
qed

lemma render_no_bom: "strip_prefix (render j) [CHR 0xEF, CHR 0xBB, CHR 0xBF] = None"
  by (cases j) (simp_all add: strip_prefix_def starts_with_def quoted_def)

text \<open>A settings tree written as JSON parses to itself: no key, string or nesting is lost.\<close>
theorem settings_roundtrip:
  assumes "writable j"
  shows "parse (render j) = Some j"
  using render_read(1) [OF assms, of "[]"] by (simp add: parse_def render_no_bom or_same_def skip_blank.simps)

definition sample_settings :: json where
  "sample_settings = Json_Object [(''Rabbit'', Json_Object [(''Host'', Json_Str ''broker.local''), (''Port'', Json_Other)])]"

theorem settings_roundtrip_witness: "parse (render sample_settings) = Some sample_settings"
  by (rule settings_roundtrip) (simp add: sample_settings_def no_controls_def byte_def)

section \<open>Configured values\<close>

text \<open>What one file states for a key: nothing, a value, or the reason it makes the value unknown.\<close>

definition stated_in :: "(string \<Rightarrow> string option) \<Rightarrow> string \<Rightarrow> val_kind \<Rightarrow> string \<Rightarrow> string + string option" where
  "stated_in read key val f =
     (case Option.bind (read f) parse of
        None \<Rightarrow> Inl UNREADABLE
      | Some json \<Rightarrow>
          (case lookup_key json key of
             Found_Missing \<Rightarrow> Inr None
           | Found_Unreadable \<Rightarrow> Inl UNREADABLE
           | Found_Text t \<Rightarrow>
               (case classify t val of
                  Inl reason \<Rightarrow> Inl reason
                | Inr p \<Rightarrow> (case property_part p val of None \<Rightarrow> Inl UNREAD | Some v \<Rightarrow> Inr (Some v)))))"

definition stated_rows :: "(string \<Rightarrow> string option) \<Rightarrow> string \<Rightarrow> val_kind \<Rightarrow> string list \<Rightarrow> config_value list" where
  "stated_rows read key val fs =
     concat (map (\<lambda>f. case stated_in read key val f of
         Inr (Some v) \<Rightarrow> [\<lparr>cfv_file = f, cfv_value = v\<rparr>] | _ \<Rightarrow> []) fs)"

lemma configured_loop_step:
  "configured_loop read key val (f # fs) vs =
     (case stated_in read key val f of
        Inl e \<Rightarrow> Obj_Unknown e (Some key)
      | Inr None \<Rightarrow> configured_loop read key val fs vs
      | Inr (Some v) \<Rightarrow> configured_loop read key val fs (vs @ [\<lparr>cfv_file = f, cfv_value = v\<rparr>]))"
  by (simp add: stated_in_def split: option.split found.split sum.split)

lemma configured_loop_rows:
  "configured_loop read key val fs vs =
     (case first_some (\<lambda>f. case stated_in read key val f of Inl e \<Rightarrow> Some e | Inr _ \<Rightarrow> None) fs of
        Some e \<Rightarrow> Obj_Unknown e (Some key)
      | None \<Rightarrow> Obj_Configuration key (vs @ stated_rows read key val fs))"
proof (induction fs arbitrary: vs)
  case Nil
  then show ?case by (simp add: stated_rows_def)
next
  case (Cons f fs)
  show ?case
    by (cases "stated_in read key val f" rule: sum.exhaust; simp only: configured_loop_step)
       (auto simp: Cons stated_rows_def split: option.split)
qed

lemma property_part_plain:
  assumes "classify t val = Inr p" "property_part p val = Some v"
  shows "plain_text v"
proof -
  have "v \<in> parsed_texts p" using assms(2) by (cases val) (auto simp: parsed_texts_def)
  moreover have "all_plain (classify t val)" by (rule classify_plain)
  ultimately show ?thesis using assms(1) by simp
qed

lemma stated_plain: "stated_in read key val f = Inr (Some v) \<Longrightarrow> plain_text v"
  by (auto simp: stated_in_def split: option.splits found.splits sum.splits intro: property_part_plain)

lemma rows_plain: "list_all (\<lambda>row. plain_text (cfv_value row)) (stated_rows read key val fs)"
proof (induction fs)
  case (Cons f fs)
  have "stated_rows read key val (f # fs) =
      (case stated_in read key val f of Inr (Some v) \<Rightarrow> [\<lparr>cfv_file = f, cfv_value = v\<rparr>] | _ \<Rightarrow> [])
      @ stated_rows read key val fs"
    by (simp add: stated_rows_def)
  with Cons stated_plain [of read key val f] show ?case by (auto split: sum.split option.split)
qed (simp add: stated_rows_def)

text \<open>The value of a key over several settings files: the first file that cannot be read, or whose
  value does not fit the grammar, makes it unknown; otherwise it is one row per file that states the key,
  in file order, and every row holds a plain text.\<close>
theorem configured_value_exact:
  "configured_value read fs key val =
     (case first_some (\<lambda>f. case stated_in read key val f of Inl e \<Rightarrow> Some e | Inr _ \<Rightarrow> None) fs of
        Some e \<Rightarrow> Obj_Unknown e (Some key)
      | None \<Rightarrow> Obj_Configuration key (stated_rows read key val fs))
   \<and> list_all (\<lambda>row. plain_text (cfv_value row)) (stated_rows read key val fs)"
  unfolding configured_value_def configured_loop_rows
  by (auto simp: rows_plain split: option.split)

section \<open>Flat keys\<close>

lemma byte_lower: "byte (ascii_lower c) = (if is_ascii_upper c then byte c + 32 else byte c)"
  by (simp add: ascii_lower_def byte_def is_ascii_upper_def)

lemma lower_colon: "ascii_lower c = CHR '':'' \<longleftrightarrow> c = CHR '':''"
  using byte_lower [of c] by (auto simp: ascii_lower_def ascii_defs)

text \<open>A key written flat, with its separators inside one property name, is never found: the reader
  splits the key it looks for and not the names of the file.\<close>
theorem flat_keys_missing:
  assumes "\<forall>e \<in> set entries. CHR '':'' \<in> set (fst e)"
  shows "lookup_key (Json_Object entries) key = Found_Missing"
proof -
  obtain p ps where p: "str_split CHR '':'' key = p # ps"
    by (cases "str_split CHR '':'' key") auto
  then have "CHR '':'' \<notin> set p" using split_parts [of p "CHR '':''" key] by simp
  moreover have "CHR '':'' \<in> set q \<Longrightarrow> map ascii_lower q = map ascii_lower p \<Longrightarrow> CHR '':'' \<in> set p" for q
  proof -
    assume "CHR '':'' \<in> set q" "map ascii_lower q = map ascii_lower p"
    then have "ascii_lower CHR '':'' \<in> ascii_lower ` set p" by (metis imageI list.set_map)
    then obtain c where "c \<in> set p" "ascii_lower c = ascii_lower CHR '':''" by auto
    moreover have "ascii_lower CHR '':'' = CHR '':''" by (simp add: lower_colon)
    ultimately show ?thesis by (simp add: lower_colon)
  qed
  ultimately have "entries_matching entries p = []"
    using assms by (auto simp: entries_matching_def eq_ignore_ascii_case_def filter_empty_conv)
  with p show ?thesis by (simp add: lookup_key_def)
qed

end
