(* ===== verification/TpContext.thy ===== *)
theory TpContext
  imports TpSettings Project Fragments EdgeRules
begin

text \<open>
  The project inputs of transport recognition (\<open>src/transport/inputs.rs\<close>) and the repository-wide context
  of its assembly stage (\<open>src/transport/qualify.rs\<close>), with the readers of a written type name they share
  with the site walk (\<open>src/transport/sites.rs\<close>). File contents, the lossy decoding of a project file,
  SHA-256 and the JSON encoding of the sidecar are parameters.
\<close>

section \<open>Written type names\<close>

text \<open>\<open>type_args\<close>: the loop over the characters between the outer angle brackets.\<close>

definition arg_depth :: "char \<Rightarrow> nat \<Rightarrow> nat" where
  "arg_depth c depth =
     (if c \<in> set ''<(['' then depth + 1 else if c \<in> set ''>)]'' then depth - 1 else depth)"

fun arg_loop :: "string list \<Rightarrow> nat \<Rightarrow> string \<Rightarrow> string \<Rightarrow> string list" where
  "arg_loop acc depth current [] = (if current = [] then acc else acc @ [current])"
| "arg_loop acc depth current (c # s) =
     (if c = CHR '','' \<and> depth = 0 then arg_loop (acc @ [current]) depth [] s
      else arg_loop acc (arg_depth c depth) (current @ [c]) s)"

definition written_args :: "string \<Rightarrow> string list" where
  "written_args written =
     (case str_find_char written CHR ''<'' of
        None \<Rightarrow> []
      | Some i \<Rightarrow> arg_loop [] 0 [] (or_same (drop (Suc i) written) (strip_suffix (drop (Suc i) written) ''>'')))"

function trim_global :: "string \<Rightarrow> string" where
  "trim_global s = (case strip_prefix s ''global::'' of Some r \<Rightarrow> trim_global r | None \<Rightarrow> s)"
  by pat_completeness auto
termination
  by (relation "measure length") (auto simp: strip_prefix_def starts_with_def dest: arg_cong [where f = length] split: if_splits)

declare trim_global.simps [simp del]

definition trim_nullable :: "string \<Rightarrow> string" where
  "trim_nullable s = rev (dropWhile (\<lambda>c. c = CHR ''?'') (rev s))"

definition written_parts :: "string \<Rightarrow> string \<times> nat" where
  "written_parts written =
     (let w = trim_nullable (trim_global written) in (hd (str_split CHR ''<'' w), length (written_args w)))"

definition full_name :: "string \<Rightarrow> nat \<Rightarrow> string" where
  "full_name base n = (if n = 0 then base else base @ ''`'' @ decimal n)"

definition catalogue_type :: "string \<Rightarrow> string option" where
  "catalogue_type written =
     (case written_parts written of
        (base, n) \<Rightarrow>
          if CHR ''.'' \<in> set base then map_option tye_name (type_entry_of (full_name base n))
          else (case types_named base n of [t] \<Rightarrow> Some (tye_name t) | _ \<Rightarrow> None))"

section \<open>Project inputs\<close>

record settings_file =
  stf_file :: string
  stf_digest :: string

record unit_inputs =
  uni_unit :: string
  uni_namespaces :: "string list"
  uni_settings :: "settings_file list"

definition is_settings_file :: "string \<Rightarrow> bool" where
  "is_settings_file rel =
     (case strip_suffix (last (str_split CHR ''/'' rel)) ''.json'' of
        None \<Rightarrow> False
      | Some stem \<Rightarrow>
          stem = ''appsettings''
          \<or> (case strip_prefix stem ''appsettings.'' of Some s \<Rightarrow> s \<noteq> [] | None \<Rightarrow> False))"

text \<open>\<open>attribute\<close>, for a name of at least one character.\<close>

function tag_attribute :: "char \<Rightarrow> string \<Rightarrow> string \<Rightarrow> string option" where
  "tag_attribute c cs rest =
     (case str_find rest (c # cs) of
        None \<Rightarrow> None
      | Some at \<Rightarrow>
          (let here = take at rest;
               rest' = drop (at + Suc (length cs)) rest
           in if here = [] \<or> ws_last here = 0 then tag_attribute c cs rest'
              else case strip_prefix (trim_start rest') ''='' of
                     None \<Rightarrow> tag_attribute c cs rest'
                   | Some after \<Rightarrow>
                       (case trim_start after of
                          [] \<Rightarrow> None
                        | q # v \<Rightarrow>
                            if q \<noteq> dquote \<and> q \<noteq> squote then tag_attribute c cs rest'
                            else map_option (\<lambda>e. take e v) (str_find_char v q))))"
  by pat_completeness auto
termination
  by (relation "measure (\<lambda>(c, cs, rest). length rest)")
     (auto dest!: str_find_le simp: dquote_def squote_def)

declare tag_attribute.simps [simp del]

definition sdk_name :: "string \<Rightarrow> string option" where
  "sdk_name csproj =
     do {
       start \<leftarrow> str_find csproj ''<Project'';
       e \<leftarrow> str_find_char (drop start csproj) CHR ''>'';
       sdk \<leftarrow> tag_attribute CHR ''S'' ''dk'' (take e (drop start csproj));
       Some (trim (hd (str_split CHR ''/'' sdk)))
     }"

definition IMPLICIT_TAG :: string where "IMPLICIT_TAG = ''<ImplicitUsings>''"

function implicit_loop :: "bool \<Rightarrow> string \<Rightarrow> bool" where
  "implicit_loop enabled rest =
     (case str_find rest IMPLICIT_TAG of
        None \<Rightarrow> enabled
      | Some at \<Rightarrow>
          (let after = drop (at + length IMPLICIT_TAG) rest;
               v = trim (hd (str_split CHR ''<'' after))
           in implicit_loop (eq_ignore_ascii_case v ''enable'' \<or> eq_ignore_ascii_case v ''true'') after))"
  by pat_completeness auto
termination
  by (relation "measure (\<lambda>(e, rest). length rest)") (auto dest!: str_find_le simp: IMPLICIT_TAG_def)

declare implicit_loop.simps [simp del]

definition implicit_usings_enabled :: "string \<Rightarrow> bool" where
  "implicit_usings_enabled = implicit_loop False"

function using_items :: "string \<Rightarrow> string list" where
  "using_items rest =
     (case str_find rest ''<Using'' of
        None \<Rightarrow> []
      | Some at \<Rightarrow>
          (let after = drop (at + 6) rest;
               e = (case str_find_char after CHR ''>'' of Some e \<Rightarrow> e | None \<Rightarrow> length after)
           in (if ws_head after \<noteq> 0 \<or> starts_with after ''/'' then [take e after] else []) @ using_items (drop e after)))"
  by pat_completeness auto
termination
  by (relation "measure length") (auto dest!: str_find_le)

declare using_items.simps [simp del]

definition add_using_item :: "string \<Rightarrow> string list \<Rightarrow> string list" where
  "add_using_item tag namespaces =
     (if tag_attribute CHR ''A'' ''lias'' tag \<noteq> None \<or> tag_attribute CHR ''S'' ''tatic'' tag \<noteq> None then namespaces
      else case tag_attribute CHR ''I'' ''nclude'' tag of
             Some n \<Rightarrow> namespaces @ [n]
           | None \<Rightarrow>
               (case tag_attribute CHR ''R'' ''emove'' tag of
                  Some n \<Rightarrow> filter (\<lambda>x. x \<noteq> n) namespaces
                | None \<Rightarrow> namespaces))"

definition sdk_namespaces :: "string \<Rightarrow> string list" where
  "sdk_namespaces csproj =
     (if implicit_usings_enabled csproj
      then (case List.find (\<lambda>(name, _). Some name = sdk_name csproj) IMPLICIT_USINGS of
              Some (_, table) \<Rightarrow> table | None \<Rightarrow> [])
      else [])"

definition project_namespaces :: "string \<Rightarrow> string list" where
  "project_namespaces csproj = sort (remdups (fold add_using_item (using_items csproj) (sdk_namespaces csproj)))"

text \<open>\<open>discover\<close>: \<open>read\<close> gives the bytes of a file, \<open>lossy\<close> decodes them, \<open>sha\<close> is \<open>sha256_hex\<close>.\<close>

definition settings_of ::
  "(string \<Rightarrow> string option) \<Rightarrow> (string \<Rightarrow> string) \<Rightarrow> string list \<Rightarrow> string \<Rightarrow> settings_file list" where
  "settings_of read sha fs dir =
     sort_key stf_file
       (List.map_filter (\<lambda>f. map_option (\<lambda>bytes. \<lparr>stf_file = f, stf_digest = sha bytes\<rparr>) (read f))
         (filter (\<lambda>f. is_settings_file f \<and> parent_dir f = dir) fs))"

definition discover ::
  "(string \<Rightarrow> string option) \<Rightarrow> (string \<Rightarrow> string) \<Rightarrow> (string \<Rightarrow> string) \<Rightarrow> project_model option \<Rightarrow> string list
   \<Rightarrow> unit_inputs list" where
  "discover read lossy sha model fs =
     (case model of
        None \<Rightarrow> []
      | Some m \<Rightarrow>
          map (\<lambda>u. \<lparr>uni_unit = u_id u,
                 uni_namespaces = project_namespaces (or_default [] (map_option lossy (read (u_id u)))),
                 uni_settings = settings_of read sha fs (u_dir u)\<rparr>) (pm_units m))"

text \<open>The sidecar: whether it differs, and what a run does to it.\<close>

datatype sidecar_action = Sidecar_Keep | Sidecar_Write "unit_inputs list" | Sidecar_Remove

definition sidecar_differs :: "(unit_inputs list \<Rightarrow> string option) \<Rightarrow> string option \<Rightarrow> unit_inputs list \<Rightarrow> bool" where
  "sidecar_differs to_json sidecar inputs =
     (case sidecar of None \<Rightarrow> False | Some bytes \<Rightarrow> (case to_json inputs of None \<Rightarrow> True | Some new \<Rightarrow> new \<noteq> bytes))"

definition write_sidecar :: "unit_inputs list option \<Rightarrow> bool \<Rightarrow> sidecar_action" where
  "write_sidecar inputs any_site =
     (case inputs of None \<Rightarrow> Sidecar_Keep | Some i \<Rightarrow> if any_site then Sidecar_Write i else Sidecar_Remove)"

section \<open>The context\<close>

datatype qual = Qual_Catalogue string | Qual_Repo nat | Qual_Nothing | Qual_Ambiguous

definition PREDEFINED :: "string list" where
  "PREDEFINED =
     [''bool'', ''byte'', ''char'', ''decimal'', ''double'', ''float'', ''int'', ''long'', ''object'', ''sbyte'',
      ''short'', ''string'', ''uint'', ''ulong'', ''ushort'', ''dynamic'']"

record tp_ctx =
  cx_graph :: graph
  cx_usings :: "string \<Rightarrow> string list option"
  cx_unit_of_file :: "string \<Rightarrow> nat option option"
  cx_unit_namespaces :: "nat \<Rightarrow> string list option"
  cx_repo_wide :: "string list"
  cx_def_ids :: "string \<Rightarrow> nat option"
  cx_def_names :: "string set"
  cx_extensions :: "string \<Rightarrow> string list option"
  cx_model :: "project_model option"
  cx_inputs :: "unit_inputs list"

definition extend_at :: "'k \<Rightarrow> 'v list \<Rightarrow> ('k \<Rightarrow> 'v list option) \<Rightarrow> 'k \<Rightarrow> 'v list option" where
  "extend_at k vs m = m(k := Some (or_default [] (m k) @ vs))"

definition note_using :: "string \<Rightarrow> nat option \<Rightarrow> frag_using \<Rightarrow> tp_ctx \<Rightarrow> tp_ctx" where
  "note_using f unit u cx =
     (case u of
        Using_Alias _ _ _ \<Rightarrow> cx
      | Using_Plain name global _ \<Rightarrow>
          (let cx = cx\<lparr>cx_usings := extend_at f [name] (cx_usings cx)\<rparr>
           in if \<not> global then cx
              else cx\<lparr>cx_repo_wide := cx_repo_wide cx @ [name],
                      cx_unit_namespaces := (case unit of
                          None \<Rightarrow> cx_unit_namespaces cx
                        | Some k \<Rightarrow> extend_at k [name] (cx_unit_namespaces cx))\<rparr>))"

definition note_file :: "project_model option \<Rightarrow> string \<times> fragment \<Rightarrow> tp_ctx \<Rightarrow> tp_ctx" where
  "note_file model = (\<lambda>(f, frag) cx.
     let unit = Option.bind model (\<lambda>m. unit_of_file m f)
     in fold (note_using f unit) (fg_usings frag) (cx\<lparr>cx_unit_of_file := (cx_unit_of_file cx)(f := Some unit)\<rparr>))"

definition note_unit :: "unit_inputs list \<Rightarrow> nat \<times> proj_unit \<Rightarrow> tp_ctx \<Rightarrow> tp_ctx" where
  "note_unit inputs = (\<lambda>(k, u) cx.
     let extra = (case List.find (\<lambda>i. uni_unit i = u_id u) inputs of Some i \<Rightarrow> uni_namespaces i | None \<Rightarrow> [])
     in cx\<lparr>cx_unit_namespaces := extend_at k extra (cx_unit_namespaces cx)\<rparr>)"

definition note_extensions :: "string \<times> fragment \<Rightarrow> tp_ctx \<Rightarrow> tp_ctx" where
  "note_extensions = (\<lambda>(_, frag) cx.
     fold (\<lambda>d. fold (\<lambda>e cx. cx\<lparr>cx_extensions := extend_at (fe_name e) [fd_namespace d] (cx_extensions cx)\<rparr>)
                 (fd_extension_methods d)) (fg_defs frag) cx)"

definition new_ctx ::
  "(string \<times> fragment) list \<Rightarrow> graph \<Rightarrow> project_model option \<Rightarrow> unit_inputs list \<Rightarrow> tp_ctx" where
  "new_ctx fragments g model inputs =
     (let cx = \<lparr>cx_graph = g, cx_usings = (\<lambda>_. None), cx_unit_of_file = (\<lambda>_. None), cx_unit_namespaces = (\<lambda>_. None),
                cx_repo_wide = [], cx_def_ids = map_of (rev (zip (map d_id (g_defs g)) [0..<length (g_defs g)])),
                cx_def_names = set (map d_name (g_defs g)), cx_extensions = (\<lambda>_. None), cx_model = model,
                cx_inputs = inputs\<rparr>;
          cx = fold (note_file model) fragments cx;
          cx = (case model of
                  None \<Rightarrow> cx
                | Some m \<Rightarrow> fold (note_unit inputs) (zip [0..<length (pm_units m)] (pm_units m)) cx)
      in fold note_extensions fragments cx)"

function namespace_levels :: "string \<Rightarrow> string list" where
  "namespace_levels level =
     (if level = [] then []
      else level # namespace_levels (case str_rfind level CHR ''.'' of Some i \<Rightarrow> take i level | None \<Rightarrow> []))"
  by pat_completeness auto
termination
  by (relation "measure length") (auto split: option.split dest: str_rfind_Some)

declare namespace_levels.simps [simp del]

definition visible_namespaces :: "tp_ctx \<Rightarrow> string \<Rightarrow> string \<Rightarrow> string list" where
  "visible_namespaces cx f ns =
     namespace_levels ns @ or_default [] (cx_usings cx f)
     @ (case Option.bind (cx_unit_of_file cx f) id of
          Some unit \<Rightarrow> or_default [] (cx_unit_namespaces cx unit)
        | None \<Rightarrow> cx_repo_wide cx)"

definition tp_imports :: "tp_ctx \<Rightarrow> string \<Rightarrow> string \<Rightarrow> string \<Rightarrow> bool" where
  "tp_imports cx f ns needed \<longleftrightarrow> needed \<in> set (visible_namespaces cx f ns)"

definition declares_type :: "tp_ctx \<Rightarrow> string \<Rightarrow> bool" where
  "declares_type cx simple \<longleftrightarrow> simple \<in> cx_def_names cx"

definition shadows :: "tp_ctx \<Rightarrow> string \<Rightarrow> string \<Rightarrow> string \<Rightarrow> bool" where
  "shadows cx name f ns =
     (case cx_extensions cx name of
        None \<Rightarrow> False
      | Some declared \<Rightarrow> list_ex (\<lambda>d. d = [] \<or> d \<in> set (visible_namespaces cx f ns)) declared)"

definition tp_nested_id :: "string \<Rightarrow> string list \<Rightarrow> string \<Rightarrow> string" where
  "tp_nested_id ns outer name =
     (let nested = str_join ''+'' (outer @ [name]) in if ns = [] then nested else ns @ ''.'' @ nested)"

text \<open>\<open>try_full\<close>, and the full names \<open>qualify\<close> tries in order.\<close>

definition add_candidate :: "qual \<Rightarrow> qual list \<Rightarrow> qual list" where
  "add_candidate q qs = (if q \<in> set qs then qs else qs @ [q])"

definition try_full :: "tp_ctx \<Rightarrow> nat \<Rightarrow> string \<Rightarrow> qual list \<Rightarrow> qual list" where
  "try_full cx n full qs =
     (let qs = (case type_entry_of (full_name full n) of
                  Some t \<Rightarrow> add_candidate (Qual_Catalogue (tye_name t)) qs | None \<Rightarrow> qs)
      in case cx_def_ids cx full of Some k \<Rightarrow> add_candidate (Qual_Repo k) qs | None \<Rightarrow> qs)"

definition tried_names :: "tp_ctx \<Rightarrow> string \<Rightarrow> string \<Rightarrow> string \<Rightarrow> string list \<Rightarrow> string list" where
  "tried_names cx base f ns outer =
     (if CHR ''.'' \<in> set base then [base]
      else map (\<lambda>depth. tp_nested_id ns (take depth outer) base) (rev [1..<Suc (length outer)])
           @ map (\<lambda>n. n @ ''.'' @ base) (visible_namespaces cx f ns) @ [base])"

definition qualify :: "tp_ctx \<Rightarrow> string \<Rightarrow> string \<Rightarrow> string \<Rightarrow> string list \<Rightarrow> qual" where
  "qualify cx written f ns outer =
     (case written_parts written of
        (base, n) \<Rightarrow>
          (case fold (try_full cx n) (tried_names cx base f ns outer) [] of
             [] \<Rightarrow> Qual_Nothing
           | [q] \<Rightarrow> q
           | _ \<Rightarrow> Qual_Ambiguous))"

definition names_catalogue :: "tp_ctx \<Rightarrow> string \<Rightarrow> string \<Rightarrow> string \<Rightarrow> string \<Rightarrow> string list \<Rightarrow> bool" where
  "names_catalogue cx written expected f ns outer \<longleftrightarrow> qualify cx written f ns outer = Qual_Catalogue expected"

definition receiver_fits :: "tp_ctx \<Rightarrow> string \<Rightarrow> string \<Rightarrow> string \<Rightarrow> string \<Rightarrow> bool" where
  "receiver_fits cx written on f ns =
     (if fst (written_parts written) \<in> set PREDEFINED then False
      else case qualify cx written f ns [] of
             Qual_Catalogue ty \<Rightarrow> derives ty on
           | Qual_Repo _ \<Rightarrow> False
           | Qual_Ambiguous \<Rightarrow> False
           | Qual_Nothing \<Rightarrow> True)"

end
