(* ===== verification/Spec2Isabelle.thy ===== *)
theory Spec2Isabelle
  imports Preproc Suggest Offsets Impact Seeds LadderFacts LayerFacts NgFacts RsWorklist QueryVerbFacts FreshTrace AuditFacts TpSettingsFacts TpContext
begin

text \<open>
  A verification library for devscout, a code index for C#, TypeScript and Rust repositories. Paths are relative to
  \<open>src/\<close>, the crate's source directory.

  \<^bold>\<open>The program.\<close> A map run walks the source tree, parses every file with tree-sitter into a fragment (what the file
  declares and what it refers to) and joins the fragments into one graph of definitions and edges. Three resolvers
  make the edges: the C# resolver (\<open>resolve/\<close>, with the projects of \<open>project.rs\<close> and optional compiler facts of
  \<open>semantic/\<close>), the TypeScript resolver (\<open>tsgraph/\<close>, with Angular templates, \<open>ngtemplate/\<close>) and the Rust resolver
  (\<open>rsgraph/\<close>). Queries (\<open>query/\<close>) load the graph into an index and answer \<open>refs\<close>, \<open>impact\<close>, \<open>tests\<close>, \<open>read\<close> and
  \<open>find\<close>; a freshness check (\<open>freshness/\<close>) says whether the answer was read from an index of the files as they are. The
  audit (\<open>audit/\<close>) scores a graph against an oracle; \<open>transport/\<close> recognises message transport settings.
  The syntax trees are third-party: the library starts where the fragment of a file is given and
  ends where the model of an answer is given to be printed.

  \<^bold>\<open>Theories and the code they model.\<close>

  \<^item> \<open>Prelude\<close>: byte strings with the operations of Rust's \<open>str\<close> (find, split, trim, UTF-8 boundaries) and the hint
    collections \<open>position_facts\<close>, \<open>utf8_facts\<close>, \<open>str_facts\<close>. \<open>SeqColl\<close>: the insertion-ordered set and map of
    \<open>query/seq.rs\<close> with their laws as the locales \<open>ordered_set\<close> and \<open>ordered_map\<close>, interpreted on the model of that file.
  \<^item> \<open>Preproc\<close> (\<open>preproc.rs\<close>), \<open>Offsets\<close> (\<open>offsets.rs\<close>), \<open>Suggest\<close> (\<open>suggest.rs\<close>), \<open>Project\<close> (\<open>project.rs\<close>,
    \<open>project/scan.rs\<close>): the pre-pass that blanks inactive C# code, the UTF-16 offsets, the nearest-name measure, the
    project files.
  \<^item> \<open>Graph\<close> (\<open>graph/\<close>): definitions, edges and reasons. \<open>Fragments\<close> (\<open>graph/fragment_types.rs\<close> and its neighbours):
    the input of the C# resolver.
  \<^item> The C# resolver, one theory per file or pair of files: \<open>DefIndex\<close> (\<open>index.rs\<close>), \<open>Scope\<close> (\<open>scope.rs\<close>,
    \<open>reach.rs\<close>), \<open>Ladder\<close> (\<open>ladder.rs\<close>), \<open>Descriptors\<close>, \<open>CallShapes\<close>, \<open>ArgCompat\<close>
    (\<open>argument_types.rs\<close>, \<open>delegate_shape.rs\<close>, \<open>lambda_arity.rs\<close>, \<open>argument_compatibility.rs\<close>), \<open>Members\<close>
    (\<open>members.rs\<close>), \<open>Receivers\<close> (\<open>receiver.rs\<close>, \<open>property_hop.rs\<close>), \<open>EdgeRules\<close> (\<open>edges.rs\<close>, \<open>dispatch.rs\<close>), \<open>Counters\<close>
    (the counters of \<open>graph/edge.rs\<close>), \<open>Semantics\<close> (\<open>semantic/\<close>), \<open>BusNames\<close> and \<open>Bus\<close> (\<open>bus_seed.rs\<close>, \<open>bus_vocab.rs\<close>,
    \<open>bus.rs\<close>), \<open>Assembly\<close> (\<open>assembly.rs\<close>: the whole run, every tier of every kind of reference).
  \<^item> The TypeScript resolver: \<open>TsPaths\<close>, \<open>TsConfig\<close>, \<open>TsModules\<close>, \<open>TsResolver\<close> (paths, aliases, module settings,
    package maps, workspaces, the declared resolver) and \<open>TsGraph\<close> (exports, barrels, bindings and edges); \<open>NgExpr\<close>,
    \<open>NgTemplate\<close> and \<open>TsTemplates\<close> (\<open>ngtemplate/\<close>, \<open>tsgraph/templates.rs\<close>, \<open>tsgraph/extend.rs\<close>).
  \<^item> The Rust resolver: \<open>RsCrates\<close> (\<open>crates.rs\<close>), \<open>RsTree\<close> (\<open>modtree.rs\<close>), \<open>RsScope\<close> (\<open>scope.rs\<close>), \<open>RsBind\<close> (\<open>bind.rs\<close>),
    \<open>RsEmit\<close> (\<open>emit.rs\<close>, \<open>rsgraph.rs\<close>).
  \<^item> Queries: \<open>GraphIndex\<close> (\<open>index.rs\<close>), \<open>Impact\<close> (the reverse walk of \<open>impact.rs\<close> and \<open>impact_why.rs\<close>), \<open>Seeds\<close>
    (\<open>symbol.rs\<close>, \<open>member.rs\<close>, \<open>impact_seed.rs\<close>, \<open>next.rs\<close>), \<open>QueryTables\<close>, \<open>QueryRefs\<close>, \<open>QueryAnswer\<close> (the tables and
    the \<open>refs\<close> answer), \<open>QueryImpact\<close> (\<open>rank.rs\<close>, the rest of \<open>impact.rs\<close>, \<open>imported.rs\<close>), \<open>QueryVerbs\<close> (\<open>coverage.rs\<close>,
    \<open>read.rs\<close>, \<open>find.rs\<close>, \<open>pick.rs\<close>, \<open>outcome.rs\<close>).
  \<^item> \<open>Walk\<close> (\<open>walk.rs\<close>, \<open>walk/ignored.rs\<close>, \<open>freshness/relevance.rs\<close>), \<open>Freshness\<close> (\<open>freshness/\<close>): the walk, and the
    record a run publishes with its validation at query time. \<open>AuditScore\<close> (\<open>audit/\<close>): scoring into a report.
  \<^item> \<open>TpCatalogue\<close>, \<open>TpValues\<close>, \<open>TpSettings\<close>, \<open>TpContext\<close> (\<open>transport/\<close>): the catalogue of types and members, the grammar
    of values, the reader of settings files, the inputs of a project and the qualification of written names.

  A theory whose name ends in \<open>Facts\<close>, with \<open>QueryTotal\<close>, \<open>TsBarrels\<close>, \<open>TsScopes\<close>, \<open>RsWorklist\<close> and \<open>FreshTrace\<close>,
  holds the lemmas of the theory it is named after. Data is as the code has it: a struct is a record, an enum a
  datatype, a function a definition with the source's name (with a prefix or a suffix where HOL has taken the name).
  Code that mutates a structure passes it and returns it updated; an early return is a branch.

  \<^bold>\<open>What the lemmas show.\<close>

  \<^item> Reading: the pre-pass keeps length, lines and validity of a file and its condition parser reads back every
    printed condition; offsets are UTF-16 lengths; the edit distance is the least number of edits within its bound; a
    printed project file is read back; a printed settings file is read back (\<open>TpSettingsFacts\<close>), and credentials of a
    host never reach a recorded value (\<open>TpFacts\<close>).
  \<^item> C# resolution: the index is a grouping of the declared parts; visibility is project reachability; resolution
    returns within a bounded depth, dotted names are certified by path or inheritance; the search through the bases,
    the types lambdas receive, the canonical types and the wiring of constructor parameters are exact; a member
    reference has one precise edge, one extension or at most three guesses, each with its reason; the
    closure of the bus vocabulary is the least one; compiler facts change only what a fresh artifact confirms; the
    statistics are the counts of the edges.
  \<^item> TypeScript and Rust: barrels are followed exactly as far as their bound, both graphs are closed (an edge leads to
    a file and definition that exist, of the right kind), a template's reads are all accounted for, the module
    tree is well founded, the worklist over \<open>use\<close> leaves ends in a fixed point.
  \<^item> Queries: the adjacency lists are filters of the edge list, symbols resolve by the ladder, no answer panics, tables
    share one budget, rows account for every edge, the impact walk visits each file of the level specification at its
    first hop, ranks are a distribution in exact arithmetic, refused candidates can be picked.
  \<^item> Freshness: the state machine of \<open>FreshTrace\<close> interleaves the steps of any number of runs with the reads of one
    query; a query that answers fresh had the certified pair of artifacts under it, and the relevant files hold what
    was indexed, under the stated conditions on Git's status. The walk and the relevance test agree, under the
    stated conditions on the scope; two scopes on which they do not are proved beside it.
  \<^item> Audit: the counters are the counts of judged edges, and a unit reaches the closure of its references.

  Where a statement has conditions, the text above it names them, and what happens without them is often a lemma of
  its own: \<open>self_alias_never_returns\<close>, \<open>same_named_alias_never_returns\<close>, \<open>self_base_answers_start\<close>,
  \<open>unrecorded_compilation_confirms\<close>, \<open>consumer_at_publishers_place_dropped\<close>, \<open>flat_keys_missing\<close>.

  \<^bold>\<open>Interfaces.\<close> \<open>base_answers\<close> (\<open>Ladder\<close>): what the inheritance walk needs of the resolver it calls, interpreted on the
  resolver at every depth. \<open>row_equality\<close> (\<open>QueryFacts\<close>): what numbering repeated rows needs of the two
  collision tests. \<open>ng_level\<close>, \<open>ng_sound\<close> (\<open>NgFacts\<close>): what one level of the expression parser promises the level
  above. \<open>one_module_changed\<close> (\<open>RsWorklist\<close>): two tables that differ in one module, interpreted on a rebound leaf.
  \<open>ordered_set\<close>, \<open>ordered_map\<close> (\<open>SeqColl\<close>).

  \<^bold>\<open>Termination, fuel and bounds.\<close> A loop that consumes its text, queue or stack is a function with a measure: the
  text's length, or the number of elements not yet seen and then the length of the stack. Fuel is used in six places.
  The C# ladder recurses through aliases and may not return: \<open>resolve_type_ref\<close> has a depth, \<open>None\<close> is a call that has
  not returned, \<open>resolve_returns\<close> gives a depth that is enough for a settled path, and \<open>self_alias_never_returns\<close> a path
  for which none is. \<open>canonical\<close> of \<open>ArgCompat\<close> has fuel for the same reason. The inheritance walk of \<open>Ladder\<close> and the
  search of \<open>Members\<close> take one round for each definition of the index, which is enough because each round marks one as
  seen. The closure of \<open>Bus\<close> takes \<open>closure_rounds\<close>, enough because each round but the last adds a name. The loops of
  the template parser take a round for each token and one more; \<open>NgFacts\<close> shows that more change nothing.
  Bounds of the source are kept as they are: 64 levels of template expressions, 8 re-exports, 4 extended
  configurations, 64 rebinds for each leaf and 64 more in the worklist, 8 rounds over block leaves, 3 guesses, 5
  candidates of an ambiguity, 5 suggestions within 2 edits, the caps of the tables, 5000 status entries, 2048 candidate paths.

  \<^bold>\<open>Conventions.\<close> A panic of the source (an index out of range, a slice inside a character, \<open>unreachable!\<close>) is \<open>None\<close>.
  Counters and lengths, \<open>usize\<close> and \<open>u32\<close> in the source, are \<open>nat\<close>: they count items held in memory. Hash maps that are only
  looked up are functions or maps; where their order can be seen they are lists in that order. A float is a pair
  of numbers or left to an argument: \<open>QueryImpact\<close> ranks with the operations of the number type as an argument, and
  the distribution is proved for the real numbers, not for \<open>f64\<close>.

  \<^bold>\<open>Parameters.\<close> What the code calls and the repository does not hold is an argument: contents of files and directories,
  Git's output, the JSON, TOML and XML libraries' decoders, SHA-256, Unicode case folding, the artifact
  of the compiler producer. What is assumed of one is a premise with the meaning its documentation gives it.

  \<^bold>\<open>Not modelled.\<close> Extraction (\<open>extract/\<close>, \<open>parse.rs\<close>, \<open>markup.rs\<close>, the recognition part of \<open>transport/\<close>): walks
  over syntax trees of third-party grammars; what they yield is modelled. Artifact files, stores, caches and paths
  (\<open>graph/cache.rs\<close>, \<open>store.rs\<close>, \<open>manifest.rs\<close>, \<open>mapcmd.rs\<close>, \<open>repo.rs\<close>, \<open>initcmd.rs\<close>, \<open>hookio.rs\<close>): the file system,
  Git, SQLite and serde. Command line, rendering and export (\<open>cli/\<close>, \<open>render/\<close>, \<open>query/json/\<close>, \<open>export/\<close>): they print
  what is modelled. The admission of compiler facts (\<open>graph/compiler_facts/\<close>, \<open>semantic/lane.rs\<close>): a subprocess and
  its JSON. The provenance trace, which no answer reads, and the truth harness (\<open>truth/\<close>), which no command uses.
\<close>

end
